(* ===== verification/Prelude.thy ===== *)
theory Prelude
  imports Main "HOL-Library.Word"
begin

text \<open>
  Shared vocabulary of the development: Go's fixed-width arithmetic on durations, decimal
  printing (\<open>%d\<close>), runs of deterministic machines and the locale that lifts a one-step
  invariant to runs, and reachability of nondeterministic machines with the same lifting.
\<close>

section \<open>Collections of facts\<close>

named_theorems step_simps \<open>equations that unfold one operation of a component\<close>
named_theorems inv_intros \<open>preservation of a component's invariant by one operation\<close>

section \<open>Types shared by the components\<close>

type_synonym instant = int   \<comment> \<open>nanoseconds since the Unix epoch\<close>
type_synonym duration = int  \<comment> \<open>Go's time.Duration: nanoseconds, 64 bits signed\<close>
type_synonym 'a result = "string + 'a" \<comment> \<open>\<open>Inl\<close> is a non-nil Go error, with its text\<close>

abbreviation second :: int where "second \<equiv> 1000000000"
abbreviation minute :: int where "minute \<equiv> 60 * second"

definition wrap64 :: "int \<Rightarrow> int" where
  "wrap64 x = sint (word_of_int x :: 64 word)"

definition wrap32 :: "int \<Rightarrow> int" where
  "wrap32 x = sint (word_of_int x :: 32 word)"

lemma wrap64_mod: "wrap64 x mod 2 ^ 64 = x mod 2 ^ 64"
proof -
  have "(word_of_int (wrap64 x) :: 64 word) = word_of_int x" by (simp add: wrap64_def)
  then show ?thesis by (simp add: word_of_int_eq_iff take_bit_eq_mod)
qed

lemma wrap64_even: "even (wrap64 x) = even x"
proof -
  have "even (y mod 2 ^ 64) = even y" for y :: int by (simp add: dvd_mod_iff)
  then show ?thesis using wrap64_mod [of x] by metis
qed

lemma wrap64_id [simp]: "- (2 ^ 63) \<le> x \<Longrightarrow> x < 2 ^ 63 \<Longrightarrow> wrap64 x = x"
  by (simp add: wrap64_def sint_word_ariths(1) signed_take_bit_int_eq_self_iff
      sint_sbintrunc')

lemma wrap64_range: "- (2 ^ 63) \<le> wrap64 x \<and> wrap64 x < 2 ^ 63"
  using sint_range_size [of "word_of_int x :: 64 word"]
  by (simp add: wrap64_def word_size)

lemma wrap32_id [simp]: "- (2 ^ 31) \<le> x \<Longrightarrow> x < 2 ^ 31 \<Longrightarrow> wrap32 x = x"
  by (simp add: wrap32_def signed_take_bit_int_eq_self_iff sint_sbintrunc')

text \<open>Sequencing of fallible calls: \<open>if err != nil { return \<dots>, err }\<close>.\<close>

definition rbind :: "'a result \<Rightarrow> ('a \<Rightarrow> 'b result) \<Rightarrow> 'b result" where
  "rbind m f = (case m of Inl e \<Rightarrow> Inl e | Inr x \<Rightarrow> f x)"

lemma rbind_simps [simp]: "rbind (Inl e) f = Inl e" "rbind (Inr x) f = f x"
  by (simp_all add: rbind_def)

lemma rbind_Inr_iff [simp]: "rbind m f = Inr y \<longleftrightarrow> (\<exists>x. m = Inr x \<and> f x = Inr y)"
  by (cases m) auto

text \<open>The verdict of the database on one statement: \<open>Some e\<close> when the call returns an error.\<close>

definition on_db :: "string option \<Rightarrow> 'a \<Rightarrow> 'a result" where
  "on_db v x = (case v of Some e \<Rightarrow> Inl e | None \<Rightarrow> Inr x)"

lemma on_db_simps [simp]: "on_db (Some e) x = Inl e" "on_db None x = Inr x"
  by (simp_all add: on_db_def)

lemma on_db_Inr [simp]: "on_db v x = Inr y \<longleftrightarrow> v = None \<and> x = y"
  by (cases v) auto

lemma on_db_Inr2 [simp]: "Inr y = on_db v x \<longleftrightarrow> v = None \<and> x = y"
  by (cases v) auto

section \<open>Decimal printing\<close>

fun show_nat :: "nat \<Rightarrow> string" where
  "show_nat n =
     (if n < 10 then [char_of (48 + n)] else show_nat (n div 10) @ [char_of (48 + n mod 10)])"

declare show_nat.simps [simp del]

definition show_int :: "int \<Rightarrow> string" where
  "show_int i = (if i < 0 then CHR ''-'' # show_nat (nat (- i)) else show_nat (nat i))"

fun read_nat :: "string \<Rightarrow> nat" where
  "read_nat s = foldl (\<lambda>a c. 10 * a + (of_char c - 48)) 0 s"

lemma read_nat_snoc: "read_nat (s @ [c]) = 10 * read_nat s + (of_char c - 48)"
  by simp

lemma digit_char: "d < 10 \<Longrightarrow> (of_char (char_of (48 + d) :: char) :: nat) = 48 + d"
  by (simp add: of_char_of)

lemma read_show_nat: "read_nat (show_nat n) = n"
proof (induction n rule: show_nat.induct)
  case (1 n)
  show ?case
  proof (cases "n < 10")
    case True
    then show ?thesis by (subst show_nat.simps) (simp add: digit_char)
  next
    case False
    with 1 have "read_nat (show_nat (n div 10)) = n div 10" by simp
    moreover have "show_nat n = show_nat (n div 10) @ [char_of (48 + n mod 10)]"
      using False by (subst show_nat.simps) simp
    ultimately show ?thesis
      by (simp only: read_nat_snoc digit_char mod_less_divisor zero_less_numeral) simp
  qed
qed

lemma show_nat_inj: "show_nat m = show_nat n \<Longrightarrow> m = n"
  by (metis read_show_nat)

lemma show_nat_digits: "c \<in> set (show_nat n) \<Longrightarrow> \<exists>d<10. c = char_of (48 + d :: nat)"
proof (induction n rule: show_nat.induct)
  case (1 n)
  show ?case
  proof (cases "n < 10")
    case True
    with 1 show ?thesis by (subst (asm) show_nat.simps) auto
  next
    case False
    have "show_nat n = show_nat (n div 10) @ [char_of (48 + n mod 10)]"
      using False by (subst show_nat.simps) simp
    with 1 False show ?thesis by (auto intro: exI [of _ "n mod 10"])
  qed
qed

lemma dash_not_digit: "CHR ''-'' \<notin> set (show_nat n)"
proof
  assume "CHR ''-'' \<in> set (show_nat n)"
  then obtain d where "d < 10" "CHR ''-'' = char_of (48 + d :: nat)"
    using show_nat_digits by blast
  then have "(of_char CHR ''-'' :: nat) = 48 + d" by (simp only: digit_char)
  then show False by simp
qed

lemma show_nat_not_Nil [simp]: "show_nat n \<noteq> []"
  by (subst show_nat.simps) simp

lemma show_int_inj: "show_int i = show_int j \<Longrightarrow> i = j"
proof -
  assume eq: "show_int i = show_int j"
  have hd: "CHR ''-'' # s \<noteq> show_nat n" "show_nat n \<noteq> CHR ''-'' # s" for s n
    using dash_not_digit [of n] by (metis list.set_intros(1))+
  show "i = j"
    using eq hd unfolding show_int_def
    by (auto split: if_splits dest!: show_nat_inj simp: eq_nat_nat_iff)
qed

text \<open>Splitting at a separator that the left part does not hold.\<close>

lemma append_sep_inj:
  "c \<notin> set xs \<Longrightarrow> c \<notin> set ys \<Longrightarrow> xs @ c # us = ys @ c # vs \<Longrightarrow> xs = ys \<and> us = vs"
proof (induction xs arbitrary: ys)
  case Nil
  then show ?case by (cases ys) auto
next
  case (Cons x xs)
  then show ?case by (cases ys) auto
qed

section \<open>Runs of a deterministic machine\<close>

fun run :: "('s \<Rightarrow> 'e \<Rightarrow> 's) \<Rightarrow> 's \<Rightarrow> 'e list \<Rightarrow> 's" where
  "run step s [] = s"
| "run step s (e # es) = run step (step s e) es"

lemma run_append [simp]: "run step s (es @ fs) = run step (run step s es) fs"
  by (induction es arbitrary: s) auto

text \<open>
  The contract of a component whose operations all keep an invariant: what holds initially
  holds after every sequence of operations.
\<close>

locale invariant_machine =
  fixes step :: "'s \<Rightarrow> 'e \<Rightarrow> 's"
    and inv :: "'s \<Rightarrow> bool"
  assumes inv_step: "inv s \<Longrightarrow> inv (step s e)"
begin

lemma run_inv: "inv s \<Longrightarrow> inv (run step s es)"
  by (induction es arbitrary: s) (auto intro: inv_step)

end

section \<open>Reachability of a nondeterministic machine\<close>

inductive reach :: "('s \<Rightarrow> bool) \<Rightarrow> ('s \<Rightarrow> 's \<Rightarrow> bool) \<Rightarrow> 's \<Rightarrow> bool"
  for init :: "'s \<Rightarrow> bool" and step :: "'s \<Rightarrow> 's \<Rightarrow> bool" where
  reach_init: "init s \<Longrightarrow> reach init step s"
| reach_step: "reach init step s \<Longrightarrow> step s t \<Longrightarrow> reach init step t"

lemma reach_one: "init s \<Longrightarrow> step s t \<Longrightarrow> reach init step t"
  by (rule reach_step [OF reach_init])

locale transition_invariant =
  fixes init :: "'s \<Rightarrow> bool"
    and step :: "'s \<Rightarrow> 's \<Rightarrow> bool"
    and inv :: "'s \<Rightarrow> bool"
  assumes init_inv: "init s \<Longrightarrow> inv s"
    and step_inv: "step s t \<Longrightarrow> inv s \<Longrightarrow> inv t"
begin

lemma reach_inv: "reach init step s \<Longrightarrow> inv s"
  by (induction rule: reach.induct) (auto intro: init_inv step_inv)

end

section \<open>Lists as tables\<close>

text \<open>An SQL \<open>UPDATE t SET \<dots> WHERE p\<close>: every row with \<open>p\<close> is rewritten by \<open>f\<close>.\<close>

definition upd_where :: "('a \<Rightarrow> bool) \<Rightarrow> ('a \<Rightarrow> 'a) \<Rightarrow> 'a list \<Rightarrow> 'a list" where
  "upd_where p f t = map (\<lambda>x. if p x then f x else x) t"

text \<open>An SQL \<open>DELETE FROM t WHERE p\<close>.\<close>

definition del_where :: "('a \<Rightarrow> bool) \<Rightarrow> 'a list \<Rightarrow> 'a list" where
  "del_where p t = filter (\<lambda>x. \<not> p x) t"

lemma upd_where_length [simp]: "length (upd_where p f t) = length t"
  by (simp add: upd_where_def)

lemma set_upd_where: "set (upd_where p f t) = {x \<in> set t. \<not> p x} \<union> f ` {x \<in> set t. p x}"
  by (auto simp: upd_where_def)

lemma set_del_where [simp]: "set (del_where p t) = {x \<in> set t. \<not> p x}"
  by (auto simp: del_where_def)

lemma upd_where_Nil [simp]: "upd_where p f [] = []"
  by (simp add: upd_where_def)

lemma upd_where_Cons [simp]:
  "upd_where p f (x # t) = (if p x then f x else x) # upd_where p f t"
  by (simp add: upd_where_def)

lemma upd_where_append [simp]:
  "upd_where p f (s @ t) = upd_where p f s @ upd_where p f t"
  by (simp add: upd_where_def)

lemma upd_where_none: "(\<And>x. x \<in> set t \<Longrightarrow> \<not> p x) \<Longrightarrow> upd_where p f t = t"
  by (induction t) auto

lemma map_upd_where: "(\<And>x. g (f x) = g x) \<Longrightarrow> map g (upd_where p f t) = map g t"
  by (induction t) auto

lemma filter_upd_where:
  "(\<And>x. x \<in> set t \<Longrightarrow> p x \<Longrightarrow> q (f x) = q x) \<Longrightarrow>
   (\<And>x. x \<in> set t \<Longrightarrow> p x \<Longrightarrow> \<not> q x) \<Longrightarrow> filter q (upd_where p f t) = filter q t"
  by (induction t) auto

text \<open>An SQL \<open>SELECT \<dots> LIMIT 1\<close> followed by \<open>qr.Next()\<close>.\<close>

definition first_where :: "('a \<Rightarrow> bool) \<Rightarrow> 'a list \<Rightarrow> 'a option" where
  "first_where p t = find p t"

lemma first_where_Some: "first_where p t = Some x \<Longrightarrow> x \<in> set t \<and> p x"
  by (auto simp: first_where_def find_Some_iff)

lemma first_where_None: "first_where p t = None \<longleftrightarrow> (\<forall>x\<in>set t. \<not> p x)"
  by (auto simp: first_where_def find_None_iff)

lemma first_where_Nil [simp]: "first_where p [] = None"
  by (simp add: first_where_def)

lemma first_where_Cons [simp]:
  "first_where p (x # t) = (if p x then Some x else first_where p t)"
  by (simp add: first_where_def)

text \<open>\<open>LIMIT ? OFFSET ?\<close> as SQLite reads it: a negative limit is none, a negative offset is 0.\<close>

definition limit_offset :: "int \<Rightarrow> int \<Rightarrow> 'a list \<Rightarrow> 'a list" where
  "limit_offset n off xs = (let ys = drop (nat off) xs in if n < 0 then ys else take (nat n) ys)"

end
