(* ===== verification/Circuit_Breaker.thy ===== *)
theory Circuit_Breaker
  imports Prelude
begin

text \<open>
  The per-datasource circuit breaker (scheduler/internal/datasource/circuit_breaker.go): its
  record, its constructor and the operations \<open>AllowRequest\<close>, \<open>RecordSuccess\<close>,
  \<open>RecordFailure\<close>, \<open>GetState\<close>, \<open>GetFailureCount\<close> and \<open>Reset\<close>. Each operation runs
  under the breaker's mutex, so it is one atomic step; \<open>time.Now()\<close> is the argument \<open>now\<close>.
  The component's invariant bounds the failure counter in each state; the abstract
  specification \<open>max_streak\<close> says when a breaker that starts closed must have opened.
\<close>

section \<open>State\<close>

datatype circuit_state = CircuitStateClosed | CircuitStateOpen | CircuitStateHalfOpen

text \<open>The constants are numbered by \<open>iota\<close>, which orders them.\<close>

fun state_rank :: "circuit_state \<Rightarrow> nat" where
  "state_rank CircuitStateClosed = 0"
| "state_rank CircuitStateOpen = 1"
| "state_rank CircuitStateHalfOpen = 2"

instantiation circuit_state :: linorder
begin

definition less_eq_circuit_state :: "circuit_state \<Rightarrow> circuit_state \<Rightarrow> bool" where
  "less_eq_circuit_state a b \<longleftrightarrow> state_rank a \<le> state_rank b"

definition less_circuit_state :: "circuit_state \<Rightarrow> circuit_state \<Rightarrow> bool" where
  "less_circuit_state a b \<longleftrightarrow> state_rank a < state_rank b"

instance
proof
  fix a b :: circuit_state
  show "a \<le> b \<Longrightarrow> b \<le> a \<Longrightarrow> a = b"
    by (cases a; cases b) (auto simp: less_eq_circuit_state_def)
qed (auto simp: less_eq_circuit_state_def less_circuit_state_def)

end

fun circuit_state_String :: "circuit_state \<Rightarrow> string" where
  "circuit_state_String CircuitStateClosed = ''closed''"
| "circuit_state_String CircuitStateOpen = ''open''"
| "circuit_state_String CircuitStateHalfOpen = ''half-open''"

record circuit_breaker =
  cb_state :: circuit_state
  failureCount :: int
  failureThreshold :: int
  recoveryTimeout :: duration
  successThreshold :: int
  lastFailureTime :: instant
  lastStateChange :: instant
  cb_datasourceID :: int

text \<open>The zero \<open>time.Time\<close> that \<open>lastFailureTime\<close> starts with is the instant 0 here.\<close>

definition NewCircuitBreaker :: "instant \<Rightarrow> int \<Rightarrow> circuit_breaker" where
  "NewCircuitBreaker now ds =
     \<lparr>cb_state = CircuitStateClosed, failureCount = 0, failureThreshold = 5,
      recoveryTimeout = 30 * second, successThreshold = 2, lastFailureTime = 0,
      lastStateChange = now, cb_datasourceID = ds\<rparr>"

section \<open>Operations\<close>

definition AllowRequest :: "instant \<Rightarrow> circuit_breaker \<Rightarrow> bool \<times> circuit_breaker" where
  "AllowRequest now cb =
     (case cb_state cb of
        CircuitStateClosed \<Rightarrow> (True, cb)
      | CircuitStateOpen \<Rightarrow>
          (if now - lastStateChange cb > recoveryTimeout cb
           then (True, cb\<lparr>cb_state := CircuitStateHalfOpen, lastStateChange := now,
                          failureCount := 0\<rparr>)
           else (False, cb))
      | CircuitStateHalfOpen \<Rightarrow> (True, cb))"

definition RecordSuccess :: "instant \<Rightarrow> circuit_breaker \<Rightarrow> circuit_breaker" where
  "RecordSuccess now cb =
     (case cb_state cb of
        CircuitStateHalfOpen \<Rightarrow>
          (let cb1 = cb\<lparr>failureCount := failureCount cb + 1\<rparr>
           in if failureCount cb1 \<ge> successThreshold cb1
              then cb1\<lparr>cb_state := CircuitStateClosed, failureCount := 0, lastStateChange := now\<rparr>
              else cb1)
      | CircuitStateClosed \<Rightarrow> cb\<lparr>failureCount := 0\<rparr>
      | CircuitStateOpen \<Rightarrow> cb)"

definition RecordFailure :: "instant \<Rightarrow> circuit_breaker \<Rightarrow> circuit_breaker" where
  "RecordFailure now cb =
     (let cb1 = cb\<lparr>failureCount := failureCount cb + 1, lastFailureTime := now\<rparr>
      in case cb_state cb1 of
           CircuitStateClosed \<Rightarrow>
             (if failureCount cb1 \<ge> failureThreshold cb1
              then cb1\<lparr>cb_state := CircuitStateOpen, lastStateChange := now\<rparr>
              else cb1)
         | CircuitStateHalfOpen \<Rightarrow>
             cb1\<lparr>cb_state := CircuitStateOpen, failureCount := 0, lastStateChange := now\<rparr>
         | CircuitStateOpen \<Rightarrow> cb1)"

definition GetState :: "circuit_breaker \<Rightarrow> circuit_state" where
  "GetState cb = cb_state cb"

definition GetFailureCount :: "circuit_breaker \<Rightarrow> int" where
  "GetFailureCount cb = failureCount cb"

definition cb_Reset :: "instant \<Rightarrow> circuit_breaker \<Rightarrow> circuit_breaker" where
  "cb_Reset now cb =
     cb\<lparr>cb_state := CircuitStateClosed, failureCount := 0, lastStateChange := now\<rparr>"

lemmas breaker_defs = AllowRequest_def RecordSuccess_def RecordFailure_def cb_Reset_def

section \<open>Runs and the invariant\<close>

datatype cb_op = Allow | Success | Failure | ResetOp

text \<open>An event is an operation with the instant at which it runs.\<close>

fun cb_step :: "circuit_breaker \<Rightarrow> cb_op \<times> instant \<Rightarrow> circuit_breaker" where
  "cb_step cb (Allow, t) = snd (AllowRequest t cb)"
| "cb_step cb (Success, t) = RecordSuccess t cb"
| "cb_step cb (Failure, t) = RecordFailure t cb"
| "cb_step cb (ResetOp, t) = cb_Reset t cb"

definition cb_inv :: "circuit_breaker \<Rightarrow> bool" where
  "cb_inv cb \<longleftrightarrow>
     0 < failureThreshold cb \<and> 0 < successThreshold cb \<and> 0 \<le> failureCount cb \<and>
     (cb_state cb = CircuitStateClosed \<longrightarrow> failureCount cb < failureThreshold cb) \<and>
     (cb_state cb = CircuitStateHalfOpen \<longrightarrow> failureCount cb < successThreshold cb)"

lemma cb_inv_new [simp]: "cb_inv (NewCircuitBreaker now ds)"
  by (simp add: cb_inv_def NewCircuitBreaker_def)

lemma cb_inv_step [inv_intros]: "cb_inv cb \<Longrightarrow> cb_inv (cb_step cb e)"
  by (cases e; cases "fst e"; cases "cb_state cb")
     (auto simp: cb_inv_def breaker_defs Let_def)

interpretation breaker: invariant_machine cb_step cb_inv
  by unfold_locales (rule cb_inv_step)

text \<open>The configuration fields are never written after construction.\<close>

lemma cb_step_config:
  "failureThreshold (cb_step cb e) = failureThreshold cb"
  "successThreshold (cb_step cb e) = successThreshold cb"
  "recoveryTimeout (cb_step cb e) = recoveryTimeout cb"
  "cb_datasourceID (cb_step cb e) = cb_datasourceID cb"
  by (cases e; cases "fst e"; cases "cb_state cb"; auto simp: breaker_defs Let_def)+

lemma cb_run_config:
  "failureThreshold (run cb_step cb es) = failureThreshold cb"
  "successThreshold (run cb_step cb es) = successThreshold cb"
  "recoveryTimeout (run cb_step cb es) = recoveryTimeout cb"
  by (induction es arbitrary: cb) (auto simp: cb_step_config)

text \<open>Whatever sequence of calls a new breaker receives, its counter stays below the
  threshold of the state it is in: below 5 while closed, below 2 while half-open, and it is
  never negative.
\<close>

theorem breaker_counter_bounds:
  "let cb = run cb_step (NewCircuitBreaker now ds) es
   in 0 \<le> GetFailureCount cb
      \<and> (GetState cb = CircuitStateClosed \<longrightarrow> GetFailureCount cb < 5)
      \<and> (GetState cb = CircuitStateHalfOpen \<longrightarrow> GetFailureCount cb < 2)"
  using breaker.run_inv [OF cb_inv_new [of now ds], of es]
  by (simp add: cb_inv_def cb_run_config NewCircuitBreaker_def GetState_def GetFailureCount_def)

theorem breaker_counter_bounds_witness:
  "GetFailureCount (run cb_step (NewCircuitBreaker 0 1)
      [(Failure, 1), (Failure, 2), (Failure, 3), (Failure, 4)]) < 5"
  using breaker_counter_bounds [of 0 1 "[(Failure, 1), (Failure, 2), (Failure, 3), (Failure, 4)]"]
  by (simp add: Let_def GetState_def NewCircuitBreaker_def RecordFailure_def GetFailureCount_def)

section \<open>When a closed breaker opens\<close>

text \<open>
  The abstract specification of a breaker that starts closed: \<open>streak n es\<close> is the length of the run of
  failures that ends \<open>es\<close>, begun at \<open>n\<close>; \<open>trips n es\<close> says that the run reaches five at
  some point.
\<close>

fun streak :: "nat \<Rightarrow> (cb_op \<times> instant) list \<Rightarrow> nat" where
  "streak n [] = n"
| "streak n ((Failure, t) # es) = streak (Suc n) es"
| "streak n ((Success, t) # es) = streak 0 es"
| "streak n ((ResetOp, t) # es) = streak 0 es"
| "streak n ((Allow, t) # es) = streak n es"

fun trips :: "nat \<Rightarrow> (cb_op \<times> instant) list \<Rightarrow> bool" where
  "trips n [] = (n \<ge> 5)"
| "trips n ((Failure, t) # es) = (n \<ge> 5 \<or> trips (Suc n) es)"
| "trips n ((Success, t) # es) = (n \<ge> 5 \<or> trips 0 es)"
| "trips n ((ResetOp, t) # es) = (n \<ge> 5 \<or> trips 0 es)"
| "trips n ((Allow, t) # es) = (n \<ge> 5 \<or> trips n es)"

definition closed_at :: "nat \<Rightarrow> circuit_breaker \<Rightarrow> bool" where
  "closed_at n cb \<longleftrightarrow> cb_state cb = CircuitStateClosed \<and> failureCount cb = int n \<and>
     failureThreshold cb = 5"

lemma closed_run:
  "closed_at n cb \<Longrightarrow> \<not> trips n es \<Longrightarrow> closed_at (streak n es) (run cb_step cb es)"
proof (induction n es arbitrary: cb rule: streak.induct)
  case (1 n)
  then show ?case by simp
next
  case (2 n t es)
  then have "n < 4" by (cases es; cases "fst (hd es)") (auto elim: trips.elims)
  with 2 have "closed_at (Suc n) (RecordFailure t cb)"
    by (simp add: closed_at_def RecordFailure_def)
  with 2 show ?case by simp
next
  case (3 n t es)
  then have "closed_at 0 (RecordSuccess t cb)"
    by (simp add: closed_at_def RecordSuccess_def)
  with 3 show ?case by simp
next
  case (4 n t es)
  then have "closed_at 0 (cb_Reset t cb)"
    by (simp add: closed_at_def cb_Reset_def)
  with 4 show ?case by simp
next
  case (5 n t es)
  then show ?case by (simp add: closed_at_def AllowRequest_def)
qed

text \<open>A new breaker opens exactly at the fifth failure in a row. As long as no five failures
  follow each other without a success or a reset between them, it is closed, its counter is
  the length of the current run of failures, and it lets requests through; a fifth
  failure in a row opens it and the next request within the recovery timeout is refused.
\<close>

theorem breaker_opens_at_fifth_failure:
  assumes "\<not> trips 0 es"
  shows "let cb = run cb_step (NewCircuitBreaker now ds) es
         in GetState cb = CircuitStateClosed \<and> GetFailureCount cb = int (streak 0 es)
            \<and> fst (AllowRequest t cb)
            \<and> (streak 0 es = 4 \<longrightarrow>
                 GetState (RecordFailure u cb) = CircuitStateOpen
                 \<and> (\<forall>v. v \<le> u + 30 * second \<longrightarrow> \<not> fst (AllowRequest v (RecordFailure u cb))))"
proof -
  let ?cb = "run cb_step (NewCircuitBreaker now ds) es"
  have "closed_at 0 (NewCircuitBreaker now ds)"
    by (simp add: closed_at_def NewCircuitBreaker_def)
  then have "closed_at (streak 0 es) ?cb" using assms by (rule closed_run)
  moreover have "recoveryTimeout ?cb = 30 * second"
    by (simp add: cb_run_config NewCircuitBreaker_def)
  ultimately show ?thesis
    by (simp add: closed_at_def GetState_def GetFailureCount_def breaker_defs)
qed

theorem breaker_opens_at_fifth_failure_witness:
  "GetState (RecordFailure 9 (run cb_step (NewCircuitBreaker 0 7)
      [(Failure, 1), (Success, 2), (Failure, 3), (Failure, 4), (Failure, 5), (Failure, 6)]))
   = CircuitStateOpen"
  using breaker_opens_at_fifth_failure
    [of "[(Failure, 1), (Success, 2), (Failure, 3), (Failure, 4), (Failure, 5), (Failure, 6)]"
        0 7 0 9]
  by (simp add: Let_def)

section \<open>An open breaker and its recovery\<close>

lemma open_step:
  assumes "cb_state cb = CircuitStateOpen" and "fst e \<noteq> ResetOp"
    and "snd e \<le> lastStateChange cb + recoveryTimeout cb"
  shows "cb_state (cb_step cb e) = CircuitStateOpen
         \<and> lastStateChange (cb_step cb e) = lastStateChange cb"
  using assms by (cases e; cases "fst e") (auto simp: breaker_defs)

lemma open_run:
  assumes "cb_state cb = CircuitStateOpen"
    and "\<forall>e\<in>set es. fst e \<noteq> ResetOp \<and> snd e \<le> lastStateChange cb + recoveryTimeout cb"
  shows "cb_state (run cb_step cb es) = CircuitStateOpen
         \<and> lastStateChange (run cb_step cb es) = lastStateChange cb"
  using assms
proof (induction es arbitrary: cb)
  case Nil
  then show ?case by simp
next
  case (Cons e es)
  with open_step [of cb e] show ?case by (simp add: cb_step_config)
qed

text \<open>An open breaker refuses every request until the recovery timeout has passed, whatever
  late successes and failures of earlier requests arrive meanwhile; the first request after
  the timeout is admitted and puts it half-open, and from there the code closes it on the
  second success while one failure opens it again for a whole timeout.
\<close>

theorem breaker_open_until_timeout:
  assumes "GetState cb = CircuitStateOpen" and "successThreshold cb = 2"
    and "\<forall>e\<in>set es. fst e \<noteq> ResetOp \<and> snd e \<le> lastStateChange cb + recoveryTimeout cb"
    and "t > lastStateChange cb + recoveryTimeout cb"
  shows "let cb' = run cb_step cb es
         in (\<forall>u. u \<le> lastStateChange cb + recoveryTimeout cb \<longrightarrow> \<not> fst (AllowRequest u cb'))
            \<and> fst (AllowRequest t cb')
            \<and> GetState (snd (AllowRequest t cb')) = CircuitStateHalfOpen
            \<and> GetState (RecordSuccess v (RecordSuccess u (snd (AllowRequest t cb'))))
                = CircuitStateClosed
            \<and> GetState (RecordFailure w (RecordSuccess u (snd (AllowRequest t cb'))))
                = CircuitStateOpen"
proof -
  let ?cb = "run cb_step cb es"
  have "cb_state ?cb = CircuitStateOpen" "lastStateChange ?cb = lastStateChange cb"
    "recoveryTimeout ?cb = recoveryTimeout cb" "successThreshold ?cb = 2"
    using open_run [of cb es] assms by (simp_all add: GetState_def cb_run_config)
  with assms(4) show ?thesis
    by (simp add: Let_def GetState_def breaker_defs)
qed

theorem breaker_open_until_timeout_witness:
  "let cb = run cb_step (NewCircuitBreaker 0 1)
              [(Failure, 1), (Failure, 1), (Failure, 1), (Failure, 1), (Failure, 1)]
   in \<not> fst (AllowRequest 20 (run cb_step cb [(Success, 2), (Failure, 3)]))
      \<and> fst (AllowRequest (31 * second) (run cb_step cb [(Success, 2), (Failure, 3)]))"
  using breaker_open_until_timeout
    [of "run cb_step (NewCircuitBreaker 0 1)
          [(Failure, 1), (Failure, 1), (Failure, 1), (Failure, 1), (Failure, 1)]"
        "[(Success, 2), (Failure, 3)]" "31 * second" 0 0 0]
  by (simp add: Let_def GetState_def NewCircuitBreaker_def breaker_defs)

end
