(* ===== verification/Rbac.thy ===== *)
theory Rbac
  imports Prelude "HOL-Library.Char_ord" "HOL-Library.List_Lexorder" "HOL-Library.Product_Lexorder"
begin

text \<open>
  Role-based access control (scheduler/internal/service/permission_service.go and
  role_admin.go): the rows of the role, permission and membership tables, every SQL statement
  of the two services as an operation on those rows, and the services' methods composed from
  them as the code composes them. The database is the rows plus the argument \<open>E\<close>, which says for
  each statement whether the call returns an error; \<open>rbind\<close> is \<open>if err != nil\<close>.
  The central fact is that the inheritance walk computes the closure of the parent relation.
\<close>

section \<open>Rows\<close>

record role =
  r_id :: int
  r_name :: string
  r_code :: string
  r_desc :: string
  r_system :: bool
  r_parent :: "int option"
  r_domain :: "int option"

record permission =
  p_id :: int
  p_resource :: string
  p_action :: string
  p_desc :: string

record domain_row =
  d_id :: int
  d_name :: string
  d_desc :: string

record user_role =
  ur_user :: int
  ur_role :: int
  ur_domain :: "int option"

record user_domain =
  ud_user :: int
  ud_domain :: int
  ud_default :: bool

record rbac =
  roles :: "role list"
  permissions :: "permission list"
  role_permissions :: "(int \<times> int) list"  \<comment> \<open>role id, permission id\<close>
  user_roles :: "user_role list"
  user_domains :: "user_domain list"
  domains :: "domain_row list"

definition GetCode :: "permission \<Rightarrow> string" where
  "GetCode p = p_resource p @ '':'' @ p_action p"

definition role_IsGlobal :: "role \<Rightarrow> bool" where
  "role_IsGlobal r \<longleftrightarrow> r_domain r = None"

text \<open>The statements, as the argument of the database's verdict.\<close>

datatype stmt =
    S_is_system_admin | S_collect_global | S_collect_domain | S_direct_roles
  | S_check_role int | S_parent int | S_role_permissions int | S_any_permission int
  | S_domain_admin | S_all_domains | S_user_domains | S_default_domain | S_first_domain
  | S_member_count | S_role_by_id | S_child_count | S_all_roles | S_domain_roles
  | S_insert_role | S_update_role | S_del_role_permissions | S_del_user_roles | S_del_role
  | S_ins_role_permissions | S_user_roles | S_role_codes
  | S_inst_domain | S_inst_creator | S_inst_grants
  | S_domain_infos | S_role_by_code | S_all_permissions | S_role_code | S_user_domain_ids

type_synonym db_verdict = "stmt \<Rightarrow> string option"

section \<open>Queries\<close>

definition count_where :: "('a \<Rightarrow> bool) \<Rightarrow> 'a list \<Rightarrow> int" where
  "count_where p t = int (length (filter p t))"

lemma count_where_pos: "count_where p t > 0 \<longleftrightarrow> (\<exists>x\<in>set t. p x)"
  by (auto simp: count_where_def filter_empty_conv)

definition IsSystemAdmin :: "db_verdict \<Rightarrow> rbac \<Rightarrow> int \<Rightarrow> bool result" where
  "IsSystemAdmin E db u =
     on_db (E S_is_system_admin)
       (count_where (\<lambda>r. r_code r = ''system_admin'' \<and>
           r_id r \<in> set (map ur_role (filter (\<lambda>ur. ur_user ur = u) (user_roles db)))) (roles db) > 0)"

definition IsDomainAdmin :: "db_verdict \<Rightarrow> rbac \<Rightarrow> int \<Rightarrow> int \<Rightarrow> bool result" where
  "IsDomainAdmin E db u d =
     on_db (E S_domain_admin)
       (count_where (\<lambda>(ur, r). ur_role ur = r_id r \<and> ur_user ur = u \<and> r_code r = ''domain_admin'' \<and>
           (ur_domain ur = Some d \<or> ur_domain ur = None))
         (List.product (user_roles db) (roles db)) > 0)"

definition collectRoleIDs :: "db_verdict \<Rightarrow> rbac \<Rightarrow> int \<Rightarrow> int \<Rightarrow> int list result" where
  "collectRoleIDs E db u d =
     rbind (on_db (E S_collect_global)
              (map ur_role (filter (\<lambda>ur. ur_user ur = u \<and> ur_domain ur = None) (user_roles db))))
       (\<lambda>globals.
          if d > 0
          then rbind (on_db (E S_collect_domain)
                        (map ur_role (filter (\<lambda>ur. ur_user ur = u \<and> ur_domain ur = Some d)
                           (user_roles db))))
                 (\<lambda>locals. Inr (globals @ locals))
          else Inr globals)"

definition getDirectRoleIDs :: "db_verdict \<Rightarrow> rbac \<Rightarrow> int \<Rightarrow> int list result" where
  "getDirectRoleIDs E db u =
     on_db (E S_direct_roles) (map ur_role (filter (\<lambda>ur. ur_user ur = u) (user_roles db)))"

definition checkRolePermission ::
  "db_verdict \<Rightarrow> rbac \<Rightarrow> int \<Rightarrow> string \<Rightarrow> string \<Rightarrow> bool result" where
  "checkRolePermission E db role_id resource action =
     on_db (E (S_check_role role_id))
       (count_where (\<lambda>((r, pid), p). pid = p_id p \<and> r = role_id \<and>
            ((p_resource p = resource \<and> p_action p = action) \<or>
             (p_resource p = resource \<and> p_action p = ''manage'')))
          (List.product (role_permissions db) (permissions db)) > 0)"

definition GetRolePermissions :: "db_verdict \<Rightarrow> rbac \<Rightarrow> int \<Rightarrow> permission list result" where
  "GetRolePermissions E db role_id =
     on_db (E (S_role_permissions role_id))
       (sort_key (\<lambda>p. (p_resource p, p_action p))
          (map snd (filter (\<lambda>((r, pid), p). pid = p_id p \<and> r = role_id)
             (List.product (role_permissions db) (permissions db)))))"

text \<open>
  \<open>SELECT parent_id \<dots> WHERE id = ? AND parent_id IS NOT NULL AND parent_id > 0\<close>; an error gives
  the nil slice, as in the code.
\<close>

definition getParentRoleIDs :: "db_verdict \<Rightarrow> rbac \<Rightarrow> int \<Rightarrow> int list" where
  "getParentRoleIDs E db role_id =
     (case E (S_parent role_id) of
        Some e \<Rightarrow> []
      | None \<Rightarrow> List.map_filter
                  (\<lambda>r. if r_id r = role_id
                       then (case r_parent r of Some p \<Rightarrow> if p > 0 then Some p else None | None \<Rightarrow> None)
                       else None) (roles db))"

section \<open>The inheritance walk\<close>

text \<open>
  The recursive closure \<open>walk\<close> of \<open>expandRoleInheritance\<close>. Its map \<open>visited\<close> holds exactly the
  ids appended to \<open>allRoleIDs\<close>, so the list \<open>acc\<close> stands for both.
\<close>

lemma parents_outside: "x \<notin> r_id ` set (roles db) \<Longrightarrow> getParentRoleIDs E db x = []"
  unfolding getParentRoleIDs_def
  by (induction "roles db" arbitrary: db)
     (auto simp: List.map_filter_def filter_empty_conv split: option.splits)

function expand_walk :: "db_verdict \<Rightarrow> rbac \<Rightarrow> int list \<Rightarrow> int list \<Rightarrow> int list" where
  "expand_walk E db [] acc = acc"
| "expand_walk E db (rid # ids) acc =
     (if rid \<in> set acc then expand_walk E db ids acc
      else expand_walk E db ids (expand_walk E db (getParentRoleIDs E db rid) (acc @ [rid])))"
  by pat_completeness auto

lemma expand_walk_grows:
  "expand_walk_dom (E, db, ids, acc) \<Longrightarrow> set acc \<subseteq> set (expand_walk E db ids acc)"
  by (induction rule: expand_walk.pinduct) (force simp: expand_walk.psimps)+

termination expand_walk
proof (relation "inv_image (finite_psubset <*lex*> less_than)
         (\<lambda>(E, db, ids, acc). (r_id ` set (roles db) - set acc, length ids))", goal_cases)
  case 1
  show ?case by (auto intro!: wf_inv_image wf_lex_prod wf_finite_psubset)
next
  case (2 E db rid ids acc)
  then show ?case by simp
next
  case (3 E db rid ids acc)
  then show ?case
    by (cases "rid \<in> r_id ` set (roles db)") (auto simp: finite_psubset_def parents_outside)
next
  case (4 E db rid ids acc)
  with expand_walk_grows [OF 4(2)]
  show ?case
    by (cases "rid \<in> r_id ` set (roles db)") (auto simp: finite_psubset_def)
qed

definition expandRoleInheritance :: "db_verdict \<Rightarrow> rbac \<Rightarrow> int list \<Rightarrow> int list" where
  "expandRoleInheritance E db direct = expand_walk E db direct []"

definition parent_rel :: "db_verdict \<Rightarrow> rbac \<Rightarrow> (int \<times> int) set" where
  "parent_rel E db = {(a, b). b \<in> set (getParentRoleIDs E db a)}"

lemma walk_mono: "set acc \<subseteq> set (expand_walk E db ids acc)"
  by (induction E db ids acc rule: expand_walk.induct) auto

lemma walk_covers: "set ids \<subseteq> set (expand_walk E db ids acc)"
proof (induction E db ids acc rule: expand_walk.induct)
  case (1 E db acc)
  then show ?case by simp
next
  case (2 E db rid ids acc)
  then show ?case
    using walk_mono [of acc E db ids]
      walk_mono [of "acc @ [rid]" E db "getParentRoleIDs E db rid"]
      walk_mono [of "expand_walk E db (getParentRoleIDs E db rid) (acc @ [rid])" E db ids]
    by auto
qed

lemma walk_distinct: "distinct acc \<Longrightarrow> distinct (expand_walk E db ids acc)"
  by (induction E db ids acc rule: expand_walk.induct) auto

lemma walk_sound:
  "set (expand_walk E db ids acc) \<subseteq> set acc \<union> (parent_rel E db)\<^sup>* `` set ids"
proof (induction E db ids acc rule: expand_walk.induct)
  case (1 E db acc)
  then show ?case by simp
next
  case (2 E db rid ids acc)
  have "(parent_rel E db)\<^sup>* `` set (getParentRoleIDs E db rid) \<subseteq> (parent_rel E db)\<^sup>* `` {rid}"
    by (auto simp: parent_rel_def intro: converse_rtrancl_into_rtrancl)
  with 2 show ?case by (cases "rid \<in> set acc") (auto, blast+)
qed

text \<open>
  Nothing visited has an unvisited parent, except what was visited before the call: the set
  \<open>B\<close> of ids whose parents some enclosing call is still walking.
\<close>

lemma walk_closed:
  "parent_rel E db `` (set acc - B) \<subseteq> set acc \<Longrightarrow>
   parent_rel E db `` (set (expand_walk E db ids acc) - B) \<subseteq> set (expand_walk E db ids acc)"
proof (induction E db ids acc arbitrary: B rule: expand_walk.induct)
  case (1 E db acc)
  then show ?case by simp
next
  case (2 E db rid ids acc)
  show ?case
  proof (cases "rid \<in> set acc")
    case True
    with 2 show ?thesis by simp
  next
    case False
    let ?mid = "expand_walk E db (getParentRoleIDs E db rid) (acc @ [rid])"
    have "parent_rel E db `` (set (acc @ [rid]) - insert rid B) \<subseteq> set (acc @ [rid])"
      using "2.prems" by auto
    from "2.IH"(2) [OF False this]
    have "parent_rel E db `` (set ?mid - insert rid B) \<subseteq> set ?mid" .
    moreover have "parent_rel E db `` {rid} \<subseteq> set ?mid"
      using walk_covers [of "getParentRoleIDs E db rid" E db "acc @ [rid]"]
      by (auto simp: parent_rel_def)
    ultimately have "parent_rel E db `` (set ?mid - B) \<subseteq> set ?mid" by blast
    from "2.IH"(3) [OF False this] False show ?thesis by simp
  qed
qed

lemma closed_rtrancl_Image: "r `` X \<subseteq> X \<Longrightarrow> r\<^sup>* `` X = X"
proof
  assume closed: "r `` X \<subseteq> X"
  show "r\<^sup>* `` X \<subseteq> X"
  proof
    fix y assume "y \<in> r\<^sup>* `` X"
    then obtain x where "(x, y) \<in> r\<^sup>*" "x \<in> X" by auto
    then show "y \<in> X" using closed by (induction rule: rtrancl_induct) auto
  qed
qed auto

lemma expand_set: "set (expandRoleInheritance E db ids) = (parent_rel E db)\<^sup>* `` set ids"
proof
  let ?X = "set (expandRoleInheritance E db ids)"
  show "?X \<subseteq> (parent_rel E db)\<^sup>* `` set ids"
    using walk_sound [of E db ids "[]"] by (simp add: expandRoleInheritance_def)
  have "parent_rel E db `` ?X \<subseteq> ?X"
    using walk_closed [of E db "[]" "{}" ids] by (simp add: expandRoleInheritance_def)
  then have "(parent_rel E db)\<^sup>* `` ?X = ?X" by (rule closed_rtrancl_Image)
  moreover have "set ids \<subseteq> ?X"
    using walk_covers [of ids E db "[]"] by (simp add: expandRoleInheritance_def)
  ultimately show "(parent_rel E db)\<^sup>* `` set ids \<subseteq> ?X" by blast
qed

section \<open>The permission service\<close>

fun any_role_grants ::
  "db_verdict \<Rightarrow> rbac \<Rightarrow> string \<Rightarrow> string \<Rightarrow> int list \<Rightarrow> bool result" where
  "any_role_grants E db resource action [] = Inr False"
| "any_role_grants E db resource action (rid # rids) =
     rbind (checkRolePermission E db rid resource action)
       (\<lambda>hasPerm. if hasPerm then Inr True else any_role_grants E db resource action rids)"

definition HasPermission ::
  "db_verdict \<Rightarrow> rbac \<Rightarrow> int \<Rightarrow> string \<Rightarrow> string \<Rightarrow> int \<Rightarrow> bool result" where
  "HasPermission E db u resource action d =
     rbind (IsSystemAdmin E db u)
       (\<lambda>isAdmin. if isAdmin then Inr True
          else rbind (collectRoleIDs E db u d)
                 (\<lambda>roleIDs. any_role_grants E db resource action roleIDs))"

text \<open>\<open>getPermissionsByRoleIDs\<close>: a role whose statement fails is skipped; a code seen is skipped.\<close>

fun add_perms :: "permission list \<Rightarrow> permission list \<Rightarrow> permission list" where
  "add_perms acc [] = acc"
| "add_perms acc (p # ps) =
     (if GetCode p \<in> GetCode ` set acc then add_perms acc ps else add_perms (acc @ [p]) ps)"

fun perms_of_roles :: "db_verdict \<Rightarrow> rbac \<Rightarrow> permission list \<Rightarrow> int list \<Rightarrow> permission list" where
  "perms_of_roles E db acc [] = acc"
| "perms_of_roles E db acc (rid # rids) =
     (case GetRolePermissions E db rid of
        Inl e \<Rightarrow> perms_of_roles E db acc rids
      | Inr ps \<Rightarrow> perms_of_roles E db (add_perms acc ps) rids)"

definition getPermissionsByRoleIDs ::
  "db_verdict \<Rightarrow> rbac \<Rightarrow> int list \<Rightarrow> permission list result" where
  "getPermissionsByRoleIDs E db rids =
     (if rids = [] then Inr [] else Inr (perms_of_roles E db [] rids))"

definition GetUserPermissions :: "db_verdict \<Rightarrow> rbac \<Rightarrow> int \<Rightarrow> permission list result" where
  "GetUserPermissions E db u =
     rbind (getDirectRoleIDs E db u)
       (\<lambda>roleIDs. let all_ids = expandRoleInheritance E db roleIDs
          in if all_ids = [] then Inr [] else getPermissionsByRoleIDs E db all_ids)"

definition SwitchDomain :: "db_verdict \<Rightarrow> rbac \<Rightarrow> int \<Rightarrow> int \<Rightarrow> permission list result" where
  "SwitchDomain E db u d =
     rbind (on_db (E S_member_count)
              (count_where (\<lambda>ud. ud_user ud = u \<and> ud_domain ud = d) (user_domains db)))
       (\<lambda>count.
          rbind (if count = 0
                 then rbind (IsSystemAdmin E db u)
                        (\<lambda>isAdmin. if isAdmin then Inr () else Inl ''access to domain denied'')
                 else Inr ())
            (\<lambda>_. rbind (collectRoleIDs E db u d)
              (\<lambda>roleIDs. let all_ids = expandRoleInheritance E db roleIDs
                 in if all_ids = [] then Inr [] else getPermissionsByRoleIDs E db all_ids)))"

fun any_role_on_resource :: "db_verdict \<Rightarrow> rbac \<Rightarrow> string \<Rightarrow> int list \<Rightarrow> bool result" where
  "any_role_on_resource E db resource [] = Inr False"
| "any_role_on_resource E db resource (rid # rids) =
     rbind (on_db (E (S_any_permission rid))
              (count_where (\<lambda>((r, pid), p). pid = p_id p \<and> r = rid \<and> p_resource p = resource)
                 (List.product (role_permissions db) (permissions db))))
       (\<lambda>count. if count > 0 then Inr True else any_role_on_resource E db resource rids)"

definition HasAnyPermission :: "db_verdict \<Rightarrow> rbac \<Rightarrow> int \<Rightarrow> string \<Rightarrow> int \<Rightarrow> bool result" where
  "HasAnyPermission E db u resource d =
     rbind (IsSystemAdmin E db u)
       (\<lambda>isAdmin. if isAdmin then Inr True
          else rbind (collectRoleIDs E db u d)
                 (\<lambda>roleIDs. any_role_on_resource E db resource (expandRoleInheritance E db roleIDs)))"

text \<open>A parent or domain id that is null or not positive reads as a nil pointer.\<close>

definition opt_pos :: "int option \<Rightarrow> int option" where
  "opt_pos x = (case x of Some i \<Rightarrow> if i > 0 then Some i else None | None \<Rightarrow> None)"

definition scan_role :: "role \<Rightarrow> role" where
  "scan_role r = r\<lparr>r_parent := opt_pos (r_parent r), r_domain := opt_pos (r_domain r)\<rparr>"

definition GetUserRoles :: "db_verdict \<Rightarrow> rbac \<Rightarrow> int \<Rightarrow> role list result" where
  "GetUserRoles E db u =
     on_db (E S_user_roles)
       (map scan_role (remdups
          (filter (\<lambda>r. r_id r \<in> set (map ur_role (filter (\<lambda>ur. ur_user ur = u) (user_roles db))))
             (roles db))))"

definition GetUserRoleCodes :: "db_verdict \<Rightarrow> rbac \<Rightarrow> int \<Rightarrow> string list result" where
  "GetUserRoleCodes E db u =
     on_db (E S_role_codes)
       (remdups (map r_code
          (filter (\<lambda>r. r_id r \<in> set (map ur_role (filter (\<lambda>ur. ur_user ur = u) (user_roles db))))
             (roles db))))"

definition GetUserDomains :: "db_verdict \<Rightarrow> rbac \<Rightarrow> int \<Rightarrow> domain_row list result" where
  "GetUserDomains E db u =
     rbind (IsSystemAdmin E db u)
       (\<lambda>isAdmin. if isAdmin then on_db (E S_all_domains) (domains db)
          else on_db (E S_user_domains)
                 (remdups (map snd (filter (\<lambda>(ud, d). ud_domain ud = d_id d \<and> ud_user ud = u)
                    (List.product (user_domains db) (domains db))))))"

text \<open>The default domain, else any domain of the user, else 0.\<close>

definition GetUserDefaultDomain :: "db_verdict \<Rightarrow> rbac \<Rightarrow> int \<Rightarrow> int result" where
  "GetUserDefaultDomain E db u =
     rbind (on_db (E S_default_domain)
              (first_where (\<lambda>ud. ud_user ud = u \<and> ud_default ud) (user_domains db)))
       (\<lambda>row. case row of
           Some ud \<Rightarrow> Inr (ud_domain ud)
         | None \<Rightarrow>
             rbind (on_db (E S_first_domain)
                      (first_where (\<lambda>ud. ud_user ud = u) (user_domains db)))
               (\<lambda>row2. Inr (case row2 of Some ud \<Rightarrow> ud_domain ud | None \<Rightarrow> 0)))"

definition GetRoleByID :: "db_verdict \<Rightarrow> rbac \<Rightarrow> int \<Rightarrow> role option result" where
  "GetRoleByID E db rid =
     on_db (E S_role_by_id) (map_option scan_role (first_where (\<lambda>r. r_id r = rid) (roles db)))"

definition GetRolesByDomain :: "db_verdict \<Rightarrow> rbac \<Rightarrow> int \<Rightarrow> role list result" where
  "GetRolesByDomain E db d =
     on_db (E S_domain_roles)
       (map scan_role (sort_key r_id (filter (\<lambda>r. r_domain r = Some d) (roles db))))"

text \<open>\<open>ORDER BY is_system DESC, id ASC\<close>.\<close>

definition GetAllRoles :: "db_verdict \<Rightarrow> rbac \<Rightarrow> role list result" where
  "GetAllRoles E db =
     on_db (E S_all_roles)
       (map scan_role (sort_key (\<lambda>r. (if r_system r then 0 else 1 :: int, r_id r)) (roles db)))"

definition GetRoleByCode :: "db_verdict \<Rightarrow> rbac \<Rightarrow> string \<Rightarrow> role option result" where
  "GetRoleByCode E db code =
     on_db (E S_role_by_code) (map_option scan_role (first_where (\<lambda>r. r_code r = code) (roles db)))"

definition GetRoleCodeByID :: "db_verdict \<Rightarrow> rbac \<Rightarrow> int \<Rightarrow> string result" where
  "GetRoleCodeByID E db rid =
     rbind (on_db (E S_role_code) (first_where (\<lambda>r. r_id r = rid) (roles db)))
       (\<lambda>row. case row of None \<Rightarrow> Inl ''role not found'' | Some r \<Rightarrow> Inr (r_code r))"

definition GetAllPermissions :: "db_verdict \<Rightarrow> rbac \<Rightarrow> permission list result" where
  "GetAllPermissions E db =
     on_db (E S_all_permissions)
       (sort_key (\<lambda>p. (p_resource p, p_action p)) (permissions db))"

definition GetUserDomainIDs :: "db_verdict \<Rightarrow> rbac \<Rightarrow> int \<Rightarrow> int list result" where
  "GetUserDomainIDs E db u =
     on_db (E S_user_domain_ids) (map ud_domain (filter (\<lambda>ud. ud_user ud = u) (user_domains db)))"

text \<open>Domain id, domain name and whether it is the default.\<close>

definition GetUserDomainInfos ::
  "db_verdict \<Rightarrow> rbac \<Rightarrow> int \<Rightarrow> (int \<times> string \<times> bool) list result" where
  "GetUserDomainInfos E db u =
     on_db (E S_domain_infos)
       (map (\<lambda>(ud, d). (ud_domain ud, d_name d, ud_default ud))
          (filter (\<lambda>(ud, d). ud_domain ud = d_id d \<and> ud_user ud = u)
             (List.product (user_domains db) (domains db))))"

section \<open>Role administration\<close>

text \<open>
  A method that writes returns its error, if any, and the rows after the statements that
  succeeded. \<open>new_id\<close> is the \<open>LastInsertID\<close> the database answers with.
\<close>

definition CreateRole ::
  "db_verdict \<Rightarrow> int \<Rightarrow> string \<Rightarrow> string \<Rightarrow> string \<Rightarrow> int option \<Rightarrow> int option \<Rightarrow> rbac
     \<Rightarrow> role option result \<times> rbac" where
  "CreateRole E new_id name code description parentID domainID db =
     (case E S_insert_role of
        Some e \<Rightarrow> (Inl e, db)
      | None \<Rightarrow>
          (let db' = db\<lparr>roles := roles db @
                 [\<lparr>r_id = new_id, r_name = name, r_code = code, r_desc = description,
                   r_system = False, r_parent = parentID, r_domain = domainID\<rparr>]\<rparr>
           in (GetRoleByID E db' new_id, db')))"

definition UpdateRole ::
  "db_verdict \<Rightarrow> int \<Rightarrow> string \<Rightarrow> string \<Rightarrow> rbac \<Rightarrow> role option result \<times> rbac" where
  "UpdateRole E rid name description db =
     (case GetRoleByID E db rid of
        Inl e \<Rightarrow> (Inl e, db)
      | Inr None \<Rightarrow> (Inr None, db)
      | Inr (Some r) \<Rightarrow>
          if r_system r then (Inl ''system role cannot be modified'', db)
          else (case E S_update_role of
                  Some e \<Rightarrow> (Inl e, db)
                | None \<Rightarrow>
                    (let db' = db\<lparr>roles := upd_where (\<lambda>x. r_id x = rid \<and> \<not> r_system x)
                           (\<lambda>x. x\<lparr>r_name := name, r_desc := description\<rparr>) (roles db)\<rparr>
                     in (GetRoleByID E db' rid, db'))))"

definition DeleteRole :: "db_verdict \<Rightarrow> int \<Rightarrow> rbac \<Rightarrow> unit result \<times> rbac" where
  "DeleteRole E rid db =
     (case GetRoleByID E db rid of
        Inl e \<Rightarrow> (Inl e, db)
      | Inr None \<Rightarrow> (Inl ''role not found'', db)
      | Inr (Some r) \<Rightarrow>
          if r_system r then (Inl ''system role cannot be deleted'', db)
          else (case E S_child_count of
                  Some e \<Rightarrow> (Inl e, db)
                | None \<Rightarrow>
                    if count_where (\<lambda>x. r_parent x = Some rid) (roles db) > 0
                    then (Inl ''cannot delete role with child roles'', db)
                    else (case E S_del_role_permissions of
                            Some e \<Rightarrow> (Inl e, db)
                          | None \<Rightarrow>
                              (let db1 = db\<lparr>role_permissions :=
                                     del_where (\<lambda>(r, p). r = rid) (role_permissions db)\<rparr>
                               in case E S_del_user_roles of
                                    Some e \<Rightarrow> (Inl e, db1)
                                  | None \<Rightarrow>
                                      (let db2 = db1\<lparr>user_roles :=
                                             del_where (\<lambda>ur. ur_role ur = rid) (user_roles db1)\<rparr>
                                       in case E S_del_role of
                                            Some e \<Rightarrow> (Inl e, db2)
                                          | None \<Rightarrow>
                                              (Inr (), db2\<lparr>roles := del_where
                                                 (\<lambda>x. r_id x = rid \<and> \<not> r_system x)
                                                 (roles db2)\<rparr>))))))"

text \<open>\<open>PermissionService.AssignPermissionsToRole\<close>, then the guarded method of the admin service.\<close>

definition assign_permissions ::
  "db_verdict \<Rightarrow> int \<Rightarrow> int list \<Rightarrow> rbac \<Rightarrow> unit result \<times> rbac" where
  "assign_permissions E rid pids db =
     (case E S_del_role_permissions of
        Some e \<Rightarrow> (Inl e, db)
      | None \<Rightarrow>
          (let db1 = db\<lparr>role_permissions := del_where (\<lambda>(r, p). r = rid) (role_permissions db)\<rparr>
           in if pids = [] then (Inr (), db1)
              else (case E S_ins_role_permissions of
                      Some e \<Rightarrow> (Inl e, db1)
                    | None \<Rightarrow> (Inr (), db1\<lparr>role_permissions :=
                                role_permissions db1 @ map (\<lambda>p. (rid, p)) pids\<rparr>))))"

definition AssignPermissionsToRole ::
  "db_verdict \<Rightarrow> int \<Rightarrow> int list \<Rightarrow> rbac \<Rightarrow> unit result \<times> rbac" where
  "AssignPermissionsToRole E rid pids db =
     (case GetRoleByID E db rid of
        Inl e \<Rightarrow> (Inl e, db)
      | Inr None \<Rightarrow> (Inl ''role not found'', db)
      | Inr (Some r) \<Rightarrow>
          if r_system r then (Inl ''system role cannot be modified'', db)
          else assign_permissions E rid pids db)"

section \<open>What the answers mean\<close>

definition db_ok :: "db_verdict \<Rightarrow> bool" where
  "db_ok E \<longleftrightarrow> E = (\<lambda>s. None)"

definition is_admin :: "rbac \<Rightarrow> int \<Rightarrow> bool" where
  "is_admin db u \<longleftrightarrow> (\<exists>r\<in>set (roles db). r_code r = ''system_admin'' \<and>
     (\<exists>ur\<in>set (user_roles db). ur_user ur = u \<and> ur_role ur = r_id r))"

definition role_grants :: "rbac \<Rightarrow> int \<Rightarrow> string \<Rightarrow> string \<Rightarrow> bool" where
  "role_grants db rid resource action \<longleftrightarrow> (\<exists>p\<in>set (permissions db).
     (rid, p_id p) \<in> set (role_permissions db) \<and> p_resource p = resource \<and>
     (p_action p = action \<or> p_action p = ''manage''))"

definition entitled :: "rbac \<Rightarrow> int \<Rightarrow> string \<Rightarrow> string \<Rightarrow> int \<Rightarrow> bool" where
  "entitled db u resource action d \<longleftrightarrow> is_admin db u \<or>
     (\<exists>ur\<in>set (user_roles db). ur_user ur = u \<and>
        (ur_domain ur = None \<or> (d > 0 \<and> ur_domain ur = Some d)) \<and>
        role_grants db (ur_role ur) resource action)"

lemma IsSystemAdmin_eq: "IsSystemAdmin E db u = on_db (E S_is_system_admin) (is_admin db u)"
  unfolding IsSystemAdmin_def count_where_pos is_admin_def
  by (rule arg_cong [where f = "on_db (E S_is_system_admin)"]) (force simp: eq_commute)

lemma checkRolePermission_eq:
  "checkRolePermission E db rid resource action =
     on_db (E (S_check_role rid)) (role_grants db rid resource action)"
  unfolding checkRolePermission_def count_where_pos role_grants_def
  by (rule arg_cong [where f = "on_db (E (S_check_role rid))"]) (auto split: prod.splits)

lemma any_role_grants_True:
  "any_role_grants E db resource action rids = Inr True \<Longrightarrow>
   \<exists>rid\<in>set rids. role_grants db rid resource action"
  by (induction rids) (auto simp: checkRolePermission_eq split: if_splits)

lemma any_role_grants_ok:
  "db_ok E \<Longrightarrow> any_role_grants E db resource action rids =
     Inr (\<exists>rid\<in>set rids. role_grants db rid resource action)"
  by (induction rids) (auto simp: checkRolePermission_eq db_ok_def)

lemma collectRoleIDs_set:
  "collectRoleIDs E db u d = Inr rids \<Longrightarrow> set rids = ur_role ` {ur \<in> set (user_roles db).
     ur_user ur = u \<and> (ur_domain ur = None \<or> (d > 0 \<and> ur_domain ur = Some d))}"
  by (auto simp: collectRoleIDs_def split: if_splits)

lemma collectRoleIDs_ok: "db_ok E \<Longrightarrow> \<exists>rids. collectRoleIDs E db u d = Inr rids"
  by (simp add: collectRoleIDs_def db_ok_def)

lemma HasPermission_entitled:
  assumes ok: "db_ok E"
  shows "HasPermission E db u resource action d = Inr (entitled db u resource action d)"
proof -
  obtain rids where rids: "collectRoleIDs E db u d = Inr rids"
    using collectRoleIDs_ok [OF ok] by blast
  show ?thesis
  proof (cases "is_admin db u")
    case True
    then show ?thesis using ok by (simp add: HasPermission_def IsSystemAdmin_eq entitled_def db_ok_def)
  next
    case False
    then have "HasPermission E db u resource action d = any_role_grants E db resource action rids"
      using rids ok unfolding db_ok_def by (simp add: HasPermission_def IsSystemAdmin_eq)
    also have "\<dots> = Inr (\<exists>rid\<in>set rids. role_grants db rid resource action)"
      by (rule any_role_grants_ok [OF ok])
    also have "(\<exists>rid\<in>set rids. role_grants db rid resource action)
        \<longleftrightarrow> entitled db u resource action d"
      using False by (auto simp: entitled_def collectRoleIDs_set [OF rids])
    finally show ?thesis .
  qed
qed


definition demo_rbac :: rbac where
  "demo_rbac =
     \<lparr>roles = [\<lparr>r_id = 1, r_name = ''base'', r_code = ''user'', r_desc = [], r_system = True,
                r_parent = None, r_domain = None\<rparr>,
               \<lparr>r_id = 2, r_name = ''ops'', r_code = ''ops'', r_desc = [], r_system = False,
                r_parent = Some 1, r_domain = None\<rparr>],
      permissions = [\<lparr>p_id = 10, p_resource = ''task'', p_action = ''read'', p_desc = []\<rparr>],
      role_permissions = [(1, 10)],
      user_roles = [\<lparr>ur_user = 7, ur_role = 2, ur_domain = None\<rparr>,
                    \<lparr>ur_user = 8, ur_role = 1, ur_domain = Some 3\<rparr>],
      user_domains = [\<lparr>ud_user = 8, ud_domain = 3, ud_default = True\<rparr>],
      domains = [\<lparr>d_id = 3, d_name = ''d3'', d_desc = []\<rparr>]\<rparr>"


section \<open>The listed permissions\<close>

lemma add_perms_codes:
  "GetCode ` set (add_perms acc ps) = GetCode ` set acc \<union> GetCode ` set ps"
  by (induction acc ps rule: add_perms.induct) auto

lemma add_perms_distinct:
  "distinct (map GetCode acc) \<Longrightarrow> distinct (map GetCode (add_perms acc ps))"
  by (induction acc ps rule: add_perms.induct) auto

lemma role_permissions_set:
  "GetRolePermissions E db rid = Inr ps \<Longrightarrow>
   set ps = {p \<in> set (permissions db). (rid, p_id p) \<in> set (role_permissions db)}"
  by (force simp: GetRolePermissions_def)

lemma perms_of_roles_codes:
  "db_ok E \<Longrightarrow> GetCode ` set (perms_of_roles E db acc rids) = GetCode ` set acc \<union>
     GetCode ` {p \<in> set (permissions db). \<exists>rid\<in>set rids. (rid, p_id p) \<in> set (role_permissions db)}"
proof (induction E db acc rids rule: perms_of_roles.induct)
  case (1 E db acc)
  then show ?case by simp
next
  case (2 E db acc rid rids)
  obtain ps where ps: "GetRolePermissions E db rid = Inr ps"
    using 2 by (auto simp: GetRolePermissions_def db_ok_def)
  with 2 have "GetCode ` set (perms_of_roles E db (add_perms acc ps) rids) =
      GetCode ` set (add_perms acc ps) \<union> GetCode ` {p \<in> set (permissions db).
        \<exists>rid\<in>set rids. (rid, p_id p) \<in> set (role_permissions db)}" by simp
  then show ?case using role_permissions_set [OF ps] by (auto simp: ps add_perms_codes)
qed

lemma perms_of_roles_distinct:
  "distinct (map GetCode acc) \<Longrightarrow> distinct (map GetCode (perms_of_roles E db acc rids))"
  by (induction E db acc rids rule: perms_of_roles.induct)
     (auto simp: add_perms_distinct split: sum.splits)

text \<open>\<open>GetUserPermissions\<close> lists, each code once, exactly the permissions granted to a role
  the user holds (in any domain) or to an ancestor of such a role under the parent relation;
  cycles in the hierarchy do not matter.
\<close>

theorem GetUserPermissions_inherits:
  assumes "db_ok E"
  shows "\<exists>ps. GetUserPermissions E db u = Inr ps \<and> distinct (map GetCode ps)
     \<and> GetCode ` set ps = GetCode ` {p \<in> set (permissions db).
         \<exists>ur\<in>set (user_roles db). ur_user ur = u \<and>
           (\<exists>anc. (ur_role ur, anc) \<in> (parent_rel E db)\<^sup>* \<and>
                  (anc, p_id p) \<in> set (role_permissions db))}"
proof -
  let ?direct = "map ur_role (filter (\<lambda>ur. ur_user ur = u) (user_roles db))"
  let ?all = "expandRoleInheritance E db ?direct"
  have res: "GetUserPermissions E db u = Inr (perms_of_roles E db [] ?all)"
    using assms by (simp add: GetUserPermissions_def getDirectRoleIDs_def db_ok_def
        getPermissionsByRoleIDs_def Let_def)
  have "{p \<in> set (permissions db). \<exists>rid\<in>set ?all. (rid, p_id p) \<in> set (role_permissions db)} =
     {p \<in> set (permissions db). \<exists>ur\<in>set (user_roles db). ur_user ur = u \<and>
           (\<exists>anc. (ur_role ur, anc) \<in> (parent_rel E db)\<^sup>* \<and>
                  (anc, p_id p) \<in> set (role_permissions db))}"
    by (auto simp: expand_set)
  then show ?thesis
    using res perms_of_roles_codes [OF assms, of db "[]" ?all]
      perms_of_roles_distinct [of "[]" E db ?all] by simp
qed

theorem GetUserPermissions_inherits_witness:
  "db_ok (\<lambda>s. None) \<and> (\<exists>ps. GetUserPermissions (\<lambda>s. None) demo_rbac 7 = Inr ps
     \<and> distinct (map GetCode ps))"
  using GetUserPermissions_inherits [of "\<lambda>s. None" demo_rbac 7] by (auto simp: db_ok_def)

text \<open>The permission list shown to a user and the check that guards the API disagree on
  inherited permissions: there are tables in which \<open>GetUserPermissions\<close> (and
  \<open>HasAnyPermission\<close>) report a permission that \<open>HasPermission\<close> denies, because only the
  former walk the role hierarchy.
\<close>

theorem inherited_permission_listed_but_denied:
  "\<exists>db u p. p \<in> set (permissions db)
     \<and> GetUserPermissions (\<lambda>s. None) db u = Inr [p]
     \<and> HasAnyPermission (\<lambda>s. None) db u (p_resource p) 0 = Inr True
     \<and> HasPermission (\<lambda>s. None) db u (p_resource p) (p_action p) 0 = Inr False"
proof -
  let ?p = "\<lparr>p_id = 10, p_resource = ''task'', p_action = ''read'', p_desc = []\<rparr>"
  have "GetUserPermissions (\<lambda>s. None) demo_rbac 7 = Inr [?p]"
    "HasAnyPermission (\<lambda>s. None) demo_rbac 7 ''task'' 0 = Inr True"
    "HasPermission (\<lambda>s. None) demo_rbac 7 ''task'' ''read'' 0 = Inr False"
    by (simp_all add: demo_rbac_def GetUserPermissions_def getDirectRoleIDs_def
        expandRoleInheritance_def getParentRoleIDs_def List.map_filter_def
        getPermissionsByRoleIDs_def GetRolePermissions_def HasAnyPermission_def IsSystemAdmin_def
        count_where_def collectRoleIDs_def HasPermission_def checkRolePermission_def)
  moreover have "?p \<in> set (permissions demo_rbac)" by (simp add: demo_rbac_def)
  ultimately show ?thesis by (intro exI [of _ demo_rbac] exI [of _ 7] exI [of _ ?p]) simp
qed

section \<open>Deleting a role\<close>

definition no_reference :: "int \<Rightarrow> rbac \<Rightarrow> bool" where
  "no_reference rid db \<longleftrightarrow>
     (\<forall>r\<in>set (roles db). r_id r \<noteq> rid \<and> r_parent r \<noteq> Some rid) \<and>
     (\<forall>(r, p)\<in>set (role_permissions db). r \<noteq> rid) \<and>
     (\<forall>ur\<in>set (user_roles db). ur_role ur \<noteq> rid)"

definition unique_ids :: "rbac \<Rightarrow> bool" where
  "unique_ids db \<longleftrightarrow> distinct (map r_id (roles db))"

lemma unique_role:
  "unique_ids db \<Longrightarrow> x \<in> set (roles db) \<Longrightarrow> y \<in> set (roles db) \<Longrightarrow> r_id x = r_id y \<Longrightarrow> x = y"
  by (auto simp: unique_ids_def distinct_map dest: inj_onD)

lemma GetRoleByID_Some:
  "GetRoleByID E db rid = Inr (Some r) \<Longrightarrow>
   \<exists>x\<in>set (roles db). r_id x = rid \<and> r = scan_role x"
  by (auto simp: GetRoleByID_def dest: first_where_Some)

lemma scan_role_system [simp]: "r_system (scan_role x) = r_system x"
  by (simp add: scan_role_def)

lemma DeleteRole_success:
  assumes "unique_ids db" and ok: "fst (DeleteRole E rid db) = Inr ()"
  shows "snd (DeleteRole E rid db) = db\<lparr>role_permissions :=
         del_where (\<lambda>(r, p). r = rid) (role_permissions db), user_roles :=
         del_where (\<lambda>ur. ur_role ur = rid) (user_roles db), roles :=
         del_where (\<lambda>x. r_id x = rid \<and> \<not> r_system x) (roles db)\<rparr>
       \<and> (\<forall>y\<in>set (roles db). r_id y = rid \<longrightarrow> \<not> r_system y)
       \<and> (\<forall>y\<in>set (roles db). r_parent y \<noteq> Some rid)"
proof -
  from ok obtain r where r: "GetRoleByID E db rid = Inr (Some r)" "\<not> r_system r"
    by (auto simp: DeleteRole_def split: sum.splits option.splits if_splits)
  then obtain x where x: "x \<in> set (roles db)" "r_id x = rid" "\<not> r_system x"
    by (auto dest: GetRoleByID_Some)
  have "\<not> count_where (\<lambda>x. r_parent x = Some rid) (roles db) > 0"
    using ok r by (auto simp: DeleteRole_def split: option.splits if_splits)
  then have "\<forall>y\<in>set (roles db). r_parent y \<noteq> Some rid" by (simp add: count_where_pos)
  moreover have "\<forall>y\<in>set (roles db). r_id y = rid \<longrightarrow> \<not> r_system y"
    using unique_role [OF assms(1)] x by blast
  ultimately show ?thesis
    using ok r by (auto simp: DeleteRole_def Let_def split: option.splits if_splits)
qed

lemma DeleteRole_system:
  assumes "unique_ids db" and "r \<in> set (roles db)" "r_id r = rid" "r_system r"
  shows "snd (DeleteRole E rid db) = db"
proof (cases "GetRoleByID E db rid")
  case (Inl e)
  then show ?thesis by (simp add: DeleteRole_def)
next
  case (Inr ro)
  show ?thesis
  proof (cases ro)
    case None
    with Inr show ?thesis by (simp add: DeleteRole_def)
  next
    case (Some y)
    with Inr obtain x where "x \<in> set (roles db)" "r_id x = rid" "y = scan_role x"
      using GetRoleByID_Some by blast
    then have "r_system y" using unique_role [OF assms(1,2)] assms by simp
    with Inr Some show ?thesis by (simp add: DeleteRole_def)
  qed
qed

text \<open>Deleting a role. A successful \<open>DeleteRole\<close> leaves no row that mentions the role (no
  grant, no membership, no child) and every other role, grant and membership as it was;
  a system role is never deleted, and then nothing changes at all.
\<close>

theorem DeleteRole_removes_all_references:
  assumes "unique_ids db"
  shows "(fst (DeleteRole E rid db) = Inr () \<longrightarrow>
           no_reference rid (snd (DeleteRole E rid db))
           \<and> {r \<in> set (roles db). r_id r \<noteq> rid} = set (roles (snd (DeleteRole E rid db)))
           \<and> {g \<in> set (role_permissions db). fst g \<noteq> rid}
               = set (role_permissions (snd (DeleteRole E rid db)))
           \<and> {m \<in> set (user_roles db). ur_role m \<noteq> rid}
               = set (user_roles (snd (DeleteRole E rid db))))
     \<and> ((\<exists>r\<in>set (roles db). r_id r = rid \<and> r_system r) \<longrightarrow> snd (DeleteRole E rid db) = db)"
  using DeleteRole_success [OF assms, of E rid] DeleteRole_system [OF assms, where rid = rid and E = E]
  by (auto simp: no_reference_def)

theorem DeleteRole_removes_all_references_witness:
  "unique_ids demo_rbac \<and> no_reference 2 (snd (DeleteRole (\<lambda>s. None) 2 demo_rbac))
   \<and> snd (DeleteRole (\<lambda>s. None) 1 demo_rbac) = demo_rbac"
proof -
  have u: "unique_ids demo_rbac" by (simp add: unique_ids_def demo_rbac_def)
  have "fst (DeleteRole (\<lambda>s. None) 2 demo_rbac) = Inr ()"
    by (simp add: DeleteRole_def GetRoleByID_def demo_rbac_def count_where_def Let_def scan_role_def)
  with DeleteRole_removes_all_references [OF u, of "\<lambda>s. None" 2] u
    DeleteRole_removes_all_references [OF u, of "\<lambda>s. None" 1]
  show ?thesis by (simp add: demo_rbac_def)
qed

end
