(* ===== verification/Permission_Groups.thy ===== *)
theory Permission_Groups
  imports Rbac "HOL-Library.Multiset"
begin

text \<open>
  Grouping permissions by resource for the front end (\<open>BuildPermissionGroups\<close> of
  scheduler/internal/model/permission.go). Go iterates over a map in any order: the order in which
  the second loop meets the keys is the argument \<open>ks\<close>. Display names are UTF-8 bytes.
\<close>

record permission_group =
  pg_resource :: string
  pg_name :: string
  pg_permissions :: "permission list"

definition utf8 :: "nat list \<Rightarrow> string" where
  "utf8 bs = map char_of bs"

definition resourceNameMap :: "string \<Rightarrow> string option" where
  "resourceNameMap r =
     (if r = ''dashboard'' then Some (utf8
        [228, 187, 170, 232, 161, 168, 231, 155, 152])
      else if r = ''user'' then Some (utf8
        [231, 148, 168, 230, 136, 183, 231, 174, 161, 231, 144, 134])
      else if r = ''role'' then Some (utf8
        [232, 167, 146, 232, 137, 178, 231, 174, 161, 231, 144, 134])
      else if r = ''permission'' then Some (utf8
        [230, 157, 131, 233, 153, 144, 231, 174, 161, 231, 144, 134])
      else if r = ''domain'' then Some (utf8
        [233, 162, 134, 229, 159, 159, 231, 174, 161, 231, 144, 134])
      else if r = ''executor'' then Some (utf8
        [230, 137, 167, 232, 161, 140, 229, 153, 168, 231, 174, 161, 231, 144, 134])
      else if r = ''task'' then Some (utf8
        [228, 187, 187, 229, 138, 161, 231, 174, 161, 231, 144, 134])
      else if r = ''log'' then Some (utf8
        [230, 151, 165, 229, 191, 151, 231, 174, 161, 231, 144, 134])
      else if r = ''datasource'' then Some (utf8
        [230, 149, 176, 230, 141, 174, 230, 186, 144, 231, 174, 161, 231, 144, 134])
      else if r = ''webhook'' then Some (utf8
        [87, 101, 98, 104, 111, 111, 107, 231, 174, 161, 231, 144, 134])
      else if r = ''audit_log'' then Some (utf8
        [229, 174, 161, 232, 174, 161, 230, 151, 165, 229, 191, 151])
      else if r = ''config'' then Some (utf8
        [231, 179, 187, 231, 187, 159, 233, 133, 141, 231, 189, 174])
      else None)"

definition resourceOrder :: "string list" where
  "resourceOrder =
     [''dashboard'', ''user'', ''role'', ''permission'', ''domain'', ''executor'',
      ''task'', ''log'', ''datasource'', ''webhook'', ''audit_log'', ''config'']"

text \<open>\<open>groupMap[p.Resource] = append(groupMap[p.Resource], *p)\<close>.\<close>

definition add_to_group ::
  "(string \<Rightarrow> permission list option) \<Rightarrow> permission \<Rightarrow> (string \<Rightarrow> permission list option)" where
  "add_to_group m p =
     m(p_resource p \<mapsto> (case m (p_resource p) of None \<Rightarrow> [] | Some ps \<Rightarrow> ps) @ [p])"

definition make_group :: "string \<Rightarrow> permission list \<Rightarrow> permission_group" where
  "make_group r ps =
     \<lparr>pg_resource = r, pg_name = (case resourceNameMap r of Some n \<Rightarrow> n | None \<Rightarrow> r),
      pg_permissions = ps\<rparr>"

definition groups_of ::
  "(string \<Rightarrow> permission list option) \<Rightarrow> string list \<Rightarrow> permission_group list" where
  "groups_of m rs =
     List.map_filter (\<lambda>r. case m r of None \<Rightarrow> None | Some ps \<Rightarrow> Some (make_group r ps)) rs"

definition BuildPermissionGroups :: "string list \<Rightarrow> permission list \<Rightarrow> permission_group list" where
  "BuildPermissionGroups ks perms =
     (let groupMap = foldl add_to_group Map.empty perms
      in groups_of groupMap resourceOrder @
         groups_of groupMap (filter (\<lambda>k. k \<notin> set resourceOrder) ks))"

section \<open>The groups partition the permissions\<close>

lemma groupMap_eq:
  "foldl add_to_group m perms r =
     (case m r of
        None \<Rightarrow> (if filter (\<lambda>p. p_resource p = r) perms = [] then None
                 else Some (filter (\<lambda>p. p_resource p = r) perms))
      | Some ps \<Rightarrow> Some (ps @ filter (\<lambda>p. p_resource p = r) perms))"
proof (induction perms arbitrary: m)
  case Nil
  then show ?case by (simp split: option.splits)
next
  case (Cons p perms)
  then show ?case by (simp add: add_to_group_def split: option.splits)
qed

lemma groups_of_Nil [simp]: "groups_of m [] = []"
  by (simp add: groups_of_def List.map_filter_simps)

lemma groups_of_Cons [simp]:
  "groups_of m (r # rs) = (case m r of None \<Rightarrow> [] | Some ps \<Rightarrow> [make_group r ps]) @ groups_of m rs"
  by (simp add: groups_of_def List.map_filter_simps split: option.splits)

lemma groups_of_append: "groups_of m (xs @ ys) = groups_of m xs @ groups_of m ys"
  by (induction xs) auto

lemma groups_of_mset:
  assumes "distinct rs"
  shows "mset (concat (map pg_permissions (groups_of (foldl add_to_group Map.empty perms) rs))) =
    filter_mset (\<lambda>p. p_resource p \<in> set rs) (mset perms)"
  using assms
proof (induction rs)
  case Nil
  then show ?case by simp
next
  case (Cons r rs)
  have "filter_mset (\<lambda>p. p_resource p = r \<or> p_resource p \<in> set rs) (mset perms) =
      filter_mset (\<lambda>p. p_resource p = r) (mset perms) +
      filter_mset (\<lambda>p. p_resource p \<in> set rs) (mset perms)"
    using Cons.prems by (intro multiset_eqI) auto
  then show ?case
    using Cons
    by (cases "filter (\<lambda>p. p_resource p = r) perms = []")
      (simp_all add: groupMap_eq make_group_def flip: mset_filter)
qed

lemma groups_of_resources: "set (map pg_resource (groups_of m rs)) \<subseteq> set rs"
  by (induction rs) (auto simp: make_group_def split: option.splits)

lemma groups_of_distinct: "distinct rs \<Longrightarrow> distinct (map pg_resource (groups_of m rs))"
proof (induction rs)
  case (Cons r rs)
  then show ?case
    using groups_of_resources [of m rs] by (auto simp: make_group_def split: option.splits)
qed simp

lemma resourceOrder_distinct: "distinct resourceOrder"
  by (simp add: resourceOrder_def)

text \<open>Whatever order Go meets the map's keys in, the groups handed to the front end partition
  the permissions: each permission occurs exactly as often as in the input, and no resource has
  two groups.\<close>

theorem BuildPermissionGroups_partition:
  assumes "distinct ks" and "set ks = p_resource ` set perms"
  shows "mset (concat (map pg_permissions (BuildPermissionGroups ks perms))) = mset perms \<and>
    distinct (map pg_resource (BuildPermissionGroups ks perms))"
proof -
  let ?rs = "resourceOrder @ filter (\<lambda>k. k \<notin> set resourceOrder) ks"
  have eq: "BuildPermissionGroups ks perms = groups_of (foldl add_to_group Map.empty perms) ?rs"
    by (simp add: BuildPermissionGroups_def groups_of_append Let_def)
  have d: "distinct ?rs" using assms(1) resourceOrder_distinct by auto
  have all: "\<forall>p\<in>set perms. p_resource p \<in> set ?rs" using assms(2) by auto
  have "filter_mset (\<lambda>p. p_resource p \<in> set ?rs) (mset perms) = mset perms"
    using all by (simp add: filter_mset_eq_conv)
  then show ?thesis
    using groups_of_mset [OF d, of perms] groups_of_distinct [OF d] by (simp only: eq)
qed

theorem BuildPermissionGroups_partition_witness:
  "mset (concat (map pg_permissions (BuildPermissionGroups [''task'', ''job'']
     [\<lparr>p_id = 1, p_resource = ''task'', p_action = ''read'', p_desc = []\<rparr>,
      \<lparr>p_id = 2, p_resource = ''job'', p_action = ''read'', p_desc = []\<rparr>]))) =
   mset [\<lparr>p_id = 1, p_resource = ''task'', p_action = ''read'', p_desc = []\<rparr>,
      \<lparr>p_id = 2, p_resource = ''job'', p_action = ''read'', p_desc = []\<rparr>]"
  by (rule BuildPermissionGroups_partition [THEN conjunct1]) simp_all

end
