(* ===== verification/Instance_Permission.thy ===== *)
theory Instance_Permission
  imports Rbac
begin

text \<open>
  Instance-level permissions on datasources and webhooks
  (scheduler/internal/datasource/permission.go and
  scheduler/internal/service/instance_permission.go): the two inclusion tables, the
  functions that expand a permission type along them, the checks, the grants and the summary
  of a user's levels. The locale \<open>permission_table\<close> is the contract between an inclusion table
  and the checks; both tables of the code are instances of it.
\<close>

section \<open>The contract of an inclusion table\<close>

locale permission_table =
  fixes keys :: "string list"
    and incl :: "string \<Rightarrow> string list"
  assumes incl_keys: "p \<in> set keys \<Longrightarrow> q \<in> set (incl p) \<Longrightarrow> q \<in> set keys"
    and incl_trans:
      "p \<in> set keys \<Longrightarrow> q \<in> set (incl p) \<Longrightarrow> r \<in> set (incl q) \<Longrightarrow> r \<in> set (incl p)"
    and incl_irrefl: "p \<in> set keys \<Longrightarrow> p \<notin> set (incl p)"
begin

text \<open>The grants that satisfy a request for \<open>p\<close> satisfy one for anything \<open>p\<close> includes.\<close>

lemma satisfying_mono:
  assumes "p \<in> set keys" and "q \<in> set (incl p)" and "g \<in> set keys"
    and "g = p \<or> p \<in> set (incl g)"
  shows "g = q \<or> q \<in> set (incl g)"
  using assms incl_trans by blast

lemma incl_antisym:
  "p \<in> set keys \<Longrightarrow> q \<in> set (incl p) \<Longrightarrow> p \<notin> set (incl q)"
  using incl_trans [of p q p] incl_irrefl [of p] by blast

end

section \<open>The datasource table\<close>

text \<open>
  A Go map literal is its keys and the value at each key. The order in which \<open>range\<close> visits a
  map is not determined: it is the argument \<open>ks\<close> of the functions that range over one.
\<close>

definition ds_keys :: "string list" where
  "ds_keys = [''read'', ''query'', ''download'', ''update'', ''delete'', ''manage'']"

definition permissionIncludes :: "string \<Rightarrow> string list option" where
  "permissionIncludes = map_of
     [(''read'', []), (''query'', [''read'']), (''download'', [''query'', ''read'']),
      (''update'', [''download'', ''query'', ''read'']), (''delete'', []),
      (''manage'', [''update'', ''download'', ''query'', ''read'', ''delete''])]"

definition validPermissionTypes :: "string \<Rightarrow> bool" where
  "validPermissionTypes p \<longleftrightarrow>
     p \<in> set [''read'', ''query'', ''download'', ''update'', ''delete'', ''manage'']"

definition IsValidPermissionType :: "string \<Rightarrow> bool" where
  "IsValidPermissionType permType = validPermissionTypes permType"

definition GetIncludedPermissions :: "string \<Rightarrow> string list" where
  "GetIncludedPermissions permType =
     (case permissionIncludes permType of
        None \<Rightarrow> []
      | Some included \<Rightarrow> permType # included)"

definition includes_of :: "(string \<Rightarrow> string list option) \<Rightarrow> string \<Rightarrow> string list" where
  "includes_of m pt = (case m pt of Some l \<Rightarrow> l | None \<Rightarrow> [])"

definition GetEffectivePermissions :: "string list \<Rightarrow> string \<Rightarrow> string list" where
  "GetEffectivePermissions ks permType =
     (if \<not> validPermissionTypes permType then [permType]
      else filter (\<lambda>pt. pt = permType \<or> permType \<in> set (includes_of permissionIncludes pt)) ks)"

lemma ds_table_closed:
  "\<forall>p\<in>set ds_keys. p \<notin> set (includes_of permissionIncludes p) \<and>
     (\<forall>q\<in>set (includes_of permissionIncludes p). q \<in> set ds_keys \<and>
        set (includes_of permissionIncludes q) \<subseteq> set (includes_of permissionIncludes p))"
  by code_simp

interpretation ds: permission_table ds_keys "includes_of permissionIncludes"
  by unfold_locales (use ds_table_closed in blast)+

section \<open>The webhook table\<close>

definition wh_keys :: "string list" where
  "wh_keys = [''read'', ''trigger'', ''update'', ''delete'', ''manage'']"

definition webhookPermissionIncludes :: "string \<Rightarrow> string list option" where
  "webhookPermissionIncludes = map_of
     [(''read'', []), (''trigger'', [''read'']), (''update'', [''read'']), (''delete'', []),
      (''manage'', [''update'', ''read'', ''delete'', ''trigger''])]"

definition getWebhookEffectivePermissions :: "string list \<Rightarrow> string \<Rightarrow> string list" where
  "getWebhookEffectivePermissions ks permType =
     (let result = filter (\<lambda>pt. pt = permType \<or>
            permType \<in> set (includes_of webhookPermissionIncludes pt)) ks
      in if result = [] then [permType] else result)"

lemma wh_table_closed:
  "\<forall>p\<in>set wh_keys. p \<notin> set (includes_of webhookPermissionIncludes p) \<and>
     (\<forall>q\<in>set (includes_of webhookPermissionIncludes p). q \<in> set wh_keys \<and>
        set (includes_of webhookPermissionIncludes q) \<subseteq> set (includes_of webhookPermissionIncludes p))"
  by code_simp

interpretation wh: permission_table wh_keys "includes_of webhookPermissionIncludes"
  by unfold_locales (use wh_table_closed in blast)+

section \<open>Rows of the instances\<close>

record instance_row =
  i_id :: int
  i_domain :: int
  i_creator :: "int option"

record grant_row =
  g_id :: int
  g_inst :: int
  g_role :: "int option"
  g_user :: "int option"
  g_type :: string
  g_by :: int
  g_at :: instant

record inst_db =
  instances :: "instance_row list"  \<comment> \<open>bdopsflow_datasources or bdopsflow_webhooks\<close>
  grants :: "grant_row list"        \<comment> \<open>the matching \<open>_permissions\<close> table\<close>

text \<open>
  The tail that both checks share in their text: creator bypass, then the count of grants to the
  user or to a role of the user among the effective types. \<open>rowInt64\<close> reads a null as 0.
\<close>

definition creator_of :: "inst_db \<Rightarrow> int \<Rightarrow> int option" where
  "creator_of d inst =
     map_option (\<lambda>i. case i_creator i of Some c \<Rightarrow> c | None \<Rightarrow> 0)
       (first_where (\<lambda>i. i_id i = inst) (instances d))"

definition grant_count :: "rbac \<Rightarrow> inst_db \<Rightarrow> int \<Rightarrow> int \<Rightarrow> string list \<Rightarrow> int" where
  "grant_count db d u inst types =
     count_where (\<lambda>g. g_inst g = inst \<and>
        (g_user g = Some u \<or>
         (\<exists>r\<in>set (map ur_role (filter (\<lambda>ur. ur_user ur = u) (user_roles db))). g_role g = Some r)) \<and>
        g_type g \<in> set types) (grants d)"

definition HasDatasourcePermission ::
  "db_verdict \<Rightarrow> string list \<Rightarrow> rbac \<Rightarrow> inst_db \<Rightarrow> int \<Rightarrow> int \<Rightarrow> string \<Rightarrow> bool result" where
  "HasDatasourcePermission E ks db d u inst permissionType =
     rbind (IsSystemAdmin E db u) (\<lambda>isAdmin.
       if isAdmin then Inr True
       else rbind (on_db (E S_inst_domain) (first_where (\<lambda>i. i_id i = inst) (instances d))) (\<lambda>row.
         case row of
           None \<Rightarrow> Inl ''instance permission denied''
         | Some i \<Rightarrow>
             rbind (IsDomainAdmin E db u (i_domain i)) (\<lambda>isDomainAdmin.
               if isDomainAdmin \<and> (permissionType = ''read'' \<or> permissionType = ''query'')
               then Inr True
               else rbind (on_db (E S_inst_creator) (creator_of d inst)) (\<lambda>createdBy.
                 if createdBy = Some u then Inr True
                 else rbind (on_db (E S_inst_grants)
                               (grant_count db d u inst (GetEffectivePermissions ks permissionType)))
                        (\<lambda>count. Inr (count > 0))))))"

definition HasWebhookPermission ::
  "db_verdict \<Rightarrow> string list \<Rightarrow> rbac \<Rightarrow> inst_db \<Rightarrow> int \<Rightarrow> int \<Rightarrow> string \<Rightarrow> bool result" where
  "HasWebhookPermission E ks db d u inst permissionType =
     rbind (IsSystemAdmin E db u) (\<lambda>isAdmin.
       if isAdmin then Inr True
       else rbind (on_db (E S_inst_domain) (first_where (\<lambda>i. i_id i = inst) (instances d))) (\<lambda>row.
         case row of
           None \<Rightarrow> Inl ''instance permission denied''
         | Some i \<Rightarrow>
             rbind (IsDomainAdmin E db u (i_domain i)) (\<lambda>isDomainAdmin.
               if isDomainAdmin \<and> permissionType = ''read''
               then Inr True
               else rbind (on_db (E S_inst_creator) (creator_of d inst)) (\<lambda>createdBy.
                 if createdBy = Some u then Inr True
                 else rbind (on_db (E S_inst_grants)
                               (grant_count db d u inst
                                  (getWebhookEffectivePermissions ks permissionType)))
                        (\<lambda>count. Inr (count > 0))))))"

definition GetUserDatasourceIDs ::
  "db_verdict \<Rightarrow> string list \<Rightarrow> rbac \<Rightarrow> inst_db \<Rightarrow> int \<Rightarrow> string \<Rightarrow> int list result" where
  "GetUserDatasourceIDs E ks db d u permissionType =
     rbind (on_db (E S_inst_grants)
       (remdups (map g_inst (filter (\<lambda>g.
          (g_user g = Some u \<or>
           (\<exists>r\<in>set (map ur_role (filter (\<lambda>ur. ur_user ur = u) (user_roles db))). g_role g = Some r)) \<and>
          g_type g \<in> set (GetEffectivePermissions ks permissionType)) (grants d)))))
       (\<lambda>ids. Inr (filter (\<lambda>i. i > 0) ids))"

section \<open>Grants\<close>

text \<open>
  \<open>GrantDatasourcePermission\<close> and \<open>GrantWebhookPermission\<close> run the same statement on their own
  table, as do the two revocations; \<open>new_id\<close> is the row id the database assigns.
\<close>

definition GrantDatasourcePermission ::
  "db_verdict \<Rightarrow> instant \<Rightarrow> int \<Rightarrow> int \<Rightarrow> int option \<Rightarrow> int option \<Rightarrow> string \<Rightarrow> int \<Rightarrow> inst_db
     \<Rightarrow> unit result \<times> inst_db" where
  "GrantDatasourcePermission E now new_id inst roleID userID permissionType grantedBy d =
     (case E S_inst_grants of
        Some e \<Rightarrow> (Inl e, d)
      | None \<Rightarrow> (Inr (), d\<lparr>grants := grants d @
          [\<lparr>g_id = new_id, g_inst = inst, g_role = roleID, g_user = userID,
            g_type = permissionType, g_by = grantedBy, g_at = now\<rparr>]\<rparr>))"

definition RevokeDatasourcePermission ::
  "db_verdict \<Rightarrow> int \<Rightarrow> inst_db \<Rightarrow> unit result \<times> inst_db" where
  "RevokeDatasourcePermission E permID d =
     (case E S_inst_grants of
        Some e \<Rightarrow> (Inl e, d)
      | None \<Rightarrow> (Inr (), d\<lparr>grants := del_where (\<lambda>g. g_id g = permID) (grants d)\<rparr>))"

definition GrantWebhookPermission ::
  "db_verdict \<Rightarrow> instant \<Rightarrow> int \<Rightarrow> int \<Rightarrow> int option \<Rightarrow> int option \<Rightarrow> string \<Rightarrow> int \<Rightarrow> inst_db
     \<Rightarrow> unit result \<times> inst_db" where
  "GrantWebhookPermission E now new_id inst roleID userID permissionType grantedBy d =
     (case E S_inst_grants of
        Some e \<Rightarrow> (Inl e, d)
      | None \<Rightarrow> (Inr (), d\<lparr>grants := grants d @
          [\<lparr>g_id = new_id, g_inst = inst, g_role = roleID, g_user = userID,
            g_type = permissionType, g_by = grantedBy, g_at = now\<rparr>]\<rparr>))"

definition RevokeWebhookPermission ::
  "db_verdict \<Rightarrow> int \<Rightarrow> inst_db \<Rightarrow> unit result \<times> inst_db" where
  "RevokeWebhookPermission E permID d =
     (case E S_inst_grants of
        Some e \<Rightarrow> (Inl e, d)
      | None \<Rightarrow> (Inr (), d\<lparr>grants := del_where (\<lambda>g. g_id g = permID) (grants d)\<rparr>))"

definition scan_grant :: "grant_row \<Rightarrow> grant_row" where
  "scan_grant g = g\<lparr>g_role := opt_pos (g_role g), g_user := opt_pos (g_user g)\<rparr>"

definition GetDatasourcePermissions :: "db_verdict \<Rightarrow> int \<Rightarrow> inst_db \<Rightarrow> grant_row list result" where
  "GetDatasourcePermissions E inst d =
     on_db (E S_inst_grants)
       (map scan_grant (sort_key g_id (filter (\<lambda>g. g_inst g = inst) (grants d))))"

definition GetWebhookPermissions :: "db_verdict \<Rightarrow> int \<Rightarrow> inst_db \<Rightarrow> grant_row list result" where
  "GetWebhookPermissions E inst d =
     on_db (E S_inst_grants)
       (map scan_grant (sort_key g_id (filter (\<lambda>g. g_inst g = inst) (grants d))))"

section \<open>Levels\<close>

definition permissionWeight :: "string \<Rightarrow> int option" where
  "permissionWeight = map_of
     [(''manage'', 100), (''update'', 50), (''download'', 40), (''query'', 30), (''read'', 20),
      (''delete'', 10)]"

definition highestPermission :: "string \<Rightarrow> string \<Rightarrow> string" where
  "highestPermission a b =
     (case permissionWeight a of
        None \<Rightarrow> b
      | Some wa \<Rightarrow>
          (case permissionWeight b of
             None \<Rightarrow> a
           | Some wb \<Rightarrow> if wa \<ge> wb then a else b))"

definition level_row :: "(int \<Rightarrow> string option) \<Rightarrow> int \<times> string \<Rightarrow> (int \<Rightarrow> string option)" where
  "level_row m row =
     (case row of (dsID, permType) \<Rightarrow>
        if dsID > 0 \<and> permType \<noteq> []
        then (case m dsID of
                Some existing \<Rightarrow> m(dsID \<mapsto> highestPermission existing permType)
              | None \<Rightarrow> m(dsID \<mapsto> permType))
        else m)"

fun level_rows :: "(int \<Rightarrow> string option) \<Rightarrow> (int \<times> string) list \<Rightarrow> (int \<Rightarrow> string option)" where
  "level_rows m [] = m"
| "level_rows m (row # rows) = level_rows (level_row m row) rows"

definition GetUserDatasourcePermissionLevels ::
  "db_verdict \<Rightarrow> rbac \<Rightarrow> inst_db \<Rightarrow> int \<Rightarrow> int list \<Rightarrow> (int \<Rightarrow> string option) result" where
  "GetUserDatasourcePermissionLevels E db d u datasourceIDs =
     (if datasourceIDs = [] then Inr Map.empty
      else rbind (on_db (E S_inst_grants)
             (map (\<lambda>g. (g_inst g, g_type g))
                (filter (\<lambda>g. g_inst g \<in> set datasourceIDs \<and>
                   (g_user g = Some u \<or>
                    (\<exists>r\<in>set (map ur_role (filter (\<lambda>ur. ur_user ur = u) (user_roles db))).
                       g_role g = Some r))) (grants d))))
             (\<lambda>rows. Inr (level_rows Map.empty rows)))"

section \<open>Properties of the tables and checks\<close>

lemma permissionIncludes_keys: "permissionIncludes p \<noteq> None \<longleftrightarrow> p \<in> set ds_keys"
  by (auto simp: permissionIncludes_def ds_keys_def)

lemma valid_keys: "validPermissionTypes p \<longleftrightarrow> p \<in> set ds_keys"
  by (simp add: validPermissionTypes_def ds_keys_def)

text \<open>The two expansions of the datasource table are inverse to each other. In whatever order
  \<open>range\<close> visits the map, the types accepted for a request \<open>p\<close> are exactly the types whose
  included permissions contain \<open>p\<close>; an unknown type is accepted only for itself.
\<close>

theorem effective_dual_to_included:
  assumes "set ks = set ds_keys"
  shows "g \<in> set (GetEffectivePermissions ks p) \<longleftrightarrow>
     (if IsValidPermissionType p then IsValidPermissionType g \<and> p \<in> set (GetIncludedPermissions g)
      else g = p)"
proof (cases "validPermissionTypes p")
  case False
  then show ?thesis by (simp add: GetEffectivePermissions_def IsValidPermissionType_def)
next
  case True
  then show ?thesis
    using assms permissionIncludes_keys [of g]
    by (auto simp: GetEffectivePermissions_def IsValidPermissionType_def valid_keys
        GetIncludedPermissions_def includes_of_def split: option.splits)
qed

theorem effective_dual_to_included_witness:
  "''manage'' \<in> set (GetEffectivePermissions (rev ds_keys) ''delete'')
   \<and> ''update'' \<notin> set (GetEffectivePermissions (rev ds_keys) ''delete'')"
  using effective_dual_to_included [OF set_rev, of "''manage''" "''delete''"]
    effective_dual_to_included [OF set_rev, of "''update''" "''delete''"]
  by (simp add: IsValidPermissionType_def validPermissionTypes_def GetIncludedPermissions_def
      permissionIncludes_def ds_keys_def)

lemma effective_mono_ds:
  assumes "set ks = set ds_keys" and "q \<in> set (includes_of permissionIncludes p)"
  shows "set (GetEffectivePermissions ks p) \<subseteq> set (GetEffectivePermissions ks q)"
proof -
  have p: "p \<in> set ds_keys"
    using assms(2) permissionIncludes_keys [of p] by (auto simp: includes_of_def split: option.splits)
  then have "q \<in> set ds_keys" using ds.incl_keys assms(2) by blast
  with p show ?thesis
    using assms ds.satisfying_mono [OF p assms(2)]
    by (auto simp: GetEffectivePermissions_def valid_keys)
qed

lemma wh_includes_keys: "webhookPermissionIncludes p \<noteq> None \<longleftrightarrow> p \<in> set wh_keys"
  by (auto simp: webhookPermissionIncludes_def wh_keys_def)

lemma effective_mono_wh:
  assumes "set ks = set wh_keys" and "q \<in> set (includes_of webhookPermissionIncludes p)"
  shows "set (getWebhookEffectivePermissions ks p) \<subseteq> set (getWebhookEffectivePermissions ks q)"
proof -
  have p: "p \<in> set wh_keys"
    using assms(2) wh_includes_keys [of p] by (auto simp: includes_of_def split: option.splits)
  then have q: "q \<in> set wh_keys" using wh.incl_keys assms(2) by blast
  from p q show ?thesis
    using assms(1) wh.satisfying_mono [OF p assms(2)]
    by (auto simp: getWebhookEffectivePermissions_def Let_def filter_empty_conv)
qed

lemma grant_count_mono:
  assumes "grant_count db d u inst ts > 0" and "set ts \<subseteq> set ts'"
  shows "grant_count db d u inst ts' > 0"
  using assms unfolding grant_count_def count_where_pos by blast

text \<open>The includes of \<open>read\<close> and \<open>query\<close> stay within what a domain administrator may do.\<close>

lemma bypass_down:
  "q \<in> set (includes_of permissionIncludes p) \<Longrightarrow> p = ''read'' \<or> p = ''query'' \<Longrightarrow> q = ''read''"
  by (elim disjE) (simp_all add: includes_of_def permissionIncludes_def)

lemma bypass_down_wh: "q \<in> set (includes_of webhookPermissionIncludes ''read'') \<Longrightarrow> False"
  by (simp add: includes_of_def webhookPermissionIncludes_def)

text \<open>What the two checks have in common: they differ in the bypass and in the types.\<close>

definition instance_check ::
  "db_verdict \<Rightarrow> rbac \<Rightarrow> inst_db \<Rightarrow> int \<Rightarrow> int \<Rightarrow> bool \<Rightarrow> string list \<Rightarrow> bool result" where
  "instance_check E db d u inst bypass types =
     rbind (IsSystemAdmin E db u) (\<lambda>isAdmin.
       if isAdmin then Inr True
       else rbind (on_db (E S_inst_domain) (first_where (\<lambda>i. i_id i = inst) (instances d))) (\<lambda>row.
         case row of
           None \<Rightarrow> Inl ''instance permission denied''
         | Some i \<Rightarrow>
             rbind (IsDomainAdmin E db u (i_domain i)) (\<lambda>isDomainAdmin.
               if isDomainAdmin \<and> bypass then Inr True
               else rbind (on_db (E S_inst_creator) (creator_of d inst)) (\<lambda>createdBy.
                 if createdBy = Some u then Inr True
                 else rbind (on_db (E S_inst_grants) (grant_count db d u inst types))
                        (\<lambda>count. Inr (count > 0))))))"

lemma instance_check_mono:
  assumes "instance_check E db d u inst bypass types = Inr True"
    and "bypass \<longrightarrow> bypass'" and "set types \<subseteq> set types'"
  shows "instance_check E db d u inst bypass' types' = Inr True"
proof (cases "IsSystemAdmin E db u = Inr True")
  case True
  then show ?thesis by (simp add: instance_check_def)
next
  case False
  with assms(1) have adm: "IsSystemAdmin E db u = Inr False"
    by (cases "IsSystemAdmin E db u") (simp_all add: instance_check_def)
  obtain i where i: "on_db (E S_inst_domain) (first_where (\<lambda>i. i_id i = inst) (instances d)) = Inr (Some i)"
    using assms(1) adm
    by (cases "first_where (\<lambda>i. i_id i = inst) (instances d)"; cases "E S_inst_domain")
       (simp_all add: instance_check_def)
  note start = assms(1) [unfolded instance_check_def adm i rbind_simps option.case if_False]
  obtain da where da: "IsDomainAdmin E db u (i_domain i) = Inr da"
    using start by (cases "IsDomainAdmin E db u (i_domain i)") simp_all
  show ?thesis
  proof (cases "da \<and> bypass'")
    case True
    then show ?thesis by (simp add: instance_check_def adm i da)
  next
    case nobypass: False
    with assms(2) have no: "(da \<and> bypass) = False" by blast
    have rest: "rbind (on_db (E S_inst_creator) (creator_of d inst)) (\<lambda>createdBy.
                 if createdBy = Some u then Inr True
                 else rbind (on_db (E S_inst_grants) (grant_count db d u inst types))
                        (\<lambda>count. Inr (count > 0))) = Inr True"
      using start unfolding da rbind_simps no if_False .
    then have "rbind (on_db (E S_inst_creator) (creator_of d inst)) (\<lambda>createdBy.
                 if createdBy = Some u then Inr True
                 else rbind (on_db (E S_inst_grants) (grant_count db d u inst types'))
                        (\<lambda>count. Inr (count > 0))) = Inr True"
      by (cases "creator_of d inst = Some u"; cases "E S_inst_creator"; cases "E S_inst_grants")
         (simp_all add: grant_count_mono [OF _ assms(3)])
    with nobypass show ?thesis by (simp add: instance_check_def adm i da)
  qed
qed

lemma HasDatasourcePermission_eq:
  "HasDatasourcePermission E ks db d u inst p =
     instance_check E db d u inst (p = ''read'' \<or> p = ''query'') (GetEffectivePermissions ks p)"
  by (simp only: HasDatasourcePermission_def instance_check_def)

lemma HasWebhookPermission_eq:
  "HasWebhookPermission E ks db d u inst p =
     instance_check E db d u inst (p = ''read'') (getWebhookEffectivePermissions ks p)"
  by (simp only: HasWebhookPermission_def instance_check_def)

lemma HasDatasourcePermission_mono:
  assumes "set ks = set ds_keys" and q: "q \<in> set (includes_of permissionIncludes p)"
    and p: "HasDatasourcePermission E ks db d u inst p = Inr True"
  shows "HasDatasourcePermission E ks db d u inst q = Inr True"
  using p unfolding HasDatasourcePermission_eq
  by (rule instance_check_mono) (use bypass_down [OF q] effective_mono_ds [OF assms(1) q] in blast)+

lemma HasWebhookPermission_mono:
  assumes "set ks = set wh_keys" and q: "q \<in> set (includes_of webhookPermissionIncludes p)"
    and p: "HasWebhookPermission E ks db d u inst p = Inr True"
  shows "HasWebhookPermission E ks db d u inst q = Inr True"
  using p unfolding HasWebhookPermission_eq
  by (rule instance_check_mono)
     (use bypass_down_wh [of q] q effective_mono_wh [OF assms(1) q] in blast)+

text \<open>The checks respect the inclusion tables. A user who passes the check for a datasource
  permission passes it for everything that permission includes, through every path (system
  administrator, domain administrator, creator, grant to the user or to one of the user's
  roles), whatever order the map is visited in; and likewise for webhooks.
\<close>

theorem instance_permission_monotone:
  "(set ks = set ds_keys \<longrightarrow> q \<in> set (includes_of permissionIncludes p) \<longrightarrow>
      HasDatasourcePermission E ks db d u inst p = Inr True \<longrightarrow>
      HasDatasourcePermission E ks db d u inst q = Inr True)
   \<and> (set ks = set wh_keys \<longrightarrow> q \<in> set (includes_of webhookPermissionIncludes p) \<longrightarrow>
      HasWebhookPermission E ks db d u inst p = Inr True \<longrightarrow>
      HasWebhookPermission E ks db d u inst q = Inr True)"
  using HasDatasourcePermission_mono HasWebhookPermission_mono by blast

definition demo_inst :: inst_db where
  "demo_inst =
     \<lparr>instances = [\<lparr>i_id = 5, i_domain = 3, i_creator = None\<rparr>],
      grants = [\<lparr>g_id = 1, g_inst = 5, g_role = Some 1, g_user = None, g_type = ''update'',
                 g_by = 9, g_at = 0\<rparr>,
                \<lparr>g_id = 2, g_inst = 5, g_role = None, g_user = Some 8, g_type = ''delete'',
                 g_by = 9, g_at = 0\<rparr>]\<rparr>"

lemmas inst_eval = HasDatasourcePermission_def IsSystemAdmin_eq is_admin_def demo_rbac_def
  IsDomainAdmin_def count_where_def creator_of_def grant_count_def demo_inst_def
  GetEffectivePermissions_def validPermissionTypes_def ds_keys_def includes_of_def
  permissionIncludes_def

theorem instance_permission_monotone_witness:
  "HasDatasourcePermission (\<lambda>s. None) ds_keys demo_rbac demo_inst 8 5 ''query'' = Inr True"
proof -
  have "HasDatasourcePermission (\<lambda>s. None) ds_keys demo_rbac demo_inst 8 5 ''update'' = Inr True"
    by (simp add: inst_eval)
  moreover have "''query'' \<in> set (includes_of permissionIncludes ''update'')"
    by (simp add: includes_of_def permissionIncludes_def)
  ultimately show ?thesis
    using instance_permission_monotone
      [of ds_keys "''query''" "''update''" "\<lambda>s. None" demo_rbac demo_inst 8 5] by blast
qed

section \<open>The reported level\<close>

lemma weight_inj:
  "permissionWeight a = Some w \<Longrightarrow> permissionWeight b = Some w \<Longrightarrow> a = b"
  by (auto simp: permissionWeight_def split: if_splits)

lemma weight_keys: "permissionWeight p \<noteq> None \<longleftrightarrow> p \<in> set ds_keys"
  by (auto simp: permissionWeight_def ds_keys_def)

definition weight :: "string \<Rightarrow> int" where
  "weight p = (case permissionWeight p of Some w \<Rightarrow> w | None \<Rightarrow> 0)"

lemma highest_valid:
  "a \<in> set ds_keys \<Longrightarrow> b \<in> set ds_keys \<Longrightarrow>
   highestPermission a b \<in> {a, b} \<and> weight (highestPermission a b) = max (weight a) (weight b)"
  using weight_keys [of a] weight_keys [of b]
  by (auto simp: highestPermission_def weight_def)

lemma level_row_at:
  "level_row m (i, t) k =
     (if i = k \<and> k > 0 \<and> t \<noteq> []
      then Some (case m k of Some e \<Rightarrow> highestPermission e t | None \<Rightarrow> t) else m k)"
  by (simp add: level_row_def split: option.splits)

text \<open>\<open>heaviest S o\<close>: the option \<open>o\<close> holds a member of \<open>S\<close> of maximal weight, if there is one.\<close>

definition heaviest :: "string set \<Rightarrow> string option \<Rightarrow> bool" where
  "heaviest S v = (case v of None \<Rightarrow> S = {} | Some t \<Rightarrow> t \<in> S \<and> (\<forall>t'\<in>S. weight t' \<le> weight t))"

lemma heaviest_insert:
  assumes "heaviest S v" and "S \<subseteq> set ds_keys" and t: "t \<in> set ds_keys"
  shows "heaviest (insert t S) (Some (case v of Some e \<Rightarrow> highestPermission e t | None \<Rightarrow> t))"
proof (cases v)
  case None
  with assms show ?thesis by (simp add: heaviest_def)
next
  case (Some e)
  with assms have "e \<in> set ds_keys" by (auto simp: heaviest_def)
  from highest_valid [OF this t] Some assms(1) show ?thesis
    by (auto simp: heaviest_def)
qed

lemma key_nonempty: "t \<in> set ds_keys \<Longrightarrow> t \<noteq> []"
  by (auto simp: ds_keys_def)

lemma level_rows_max:
  assumes "\<forall>row\<in>set rows. snd row \<in> set ds_keys" and "k > 0"
    and "S \<subseteq> set ds_keys" and "heaviest S (m k)"
  shows "heaviest (S \<union> {t. (k, t) \<in> set rows}) (level_rows m rows k)"
  using assms
proof (induction rows arbitrary: m S)
  case Nil
  then show ?case by simp
next
  case (Cons row rows)
  obtain i t where row: "row = (i, t)" by (cases row)
  then have t: "t \<in> set ds_keys" using Cons.prems(1) by simp
  show ?case
  proof (cases "i = k")
    case True
    have "heaviest (insert t S) (level_row m row k)"
      using heaviest_insert [OF Cons.prems(4,3) t] True Cons.prems(2) key_nonempty [OF t]
      by (simp add: row level_row_at)
    then have "heaviest (insert t S \<union> {t. (k, t) \<in> set rows}) (level_rows (level_row m row) rows k)"
      using Cons.IH [of "insert t S" "level_row m row"] Cons.prems t by simp
    moreover have "insert t S \<union> {t. (k, t) \<in> set rows} = S \<union> {t. (k, t) \<in> set (row # rows)}"
      using True row by auto
    ultimately show ?thesis by simp
  next
    case False
    then have "level_row m row k = m k" by (simp add: row level_row_at)
    then have "heaviest (S \<union> {t. (k, t) \<in> set rows}) (level_rows (level_row m row) rows k)"
      using Cons.IH [of S "level_row m row"] Cons.prems by simp
    moreover have "{t. (k, t) \<in> set rows} = {t. (k, t) \<in> set (row # rows)}"
      using False row by auto
    ultimately show ?thesis by simp
  qed
qed

text \<open>The level shown for a datasource is the heaviest type among the grants that reach the
  user, directly or through a role, whatever order the rows come in; a datasource with no such
  grant has no level.
\<close>

theorem permission_level_is_heaviest_grant:
  assumes "E S_inst_grants = None" and "\<forall>g\<in>set (grants d). IsValidPermissionType (g_type g)"
    and "k \<in> set ids" and "k > 0"
  shows "\<exists>m. GetUserDatasourcePermissionLevels E db d u ids = Inr m \<and>
     heaviest {g_type g | g. g \<in> set (grants d) \<and> g_inst g = k \<and>
                 (g_user g = Some u \<or> (\<exists>ur\<in>set (user_roles db).
                    ur_user ur = u \<and> g_role g = Some (ur_role ur)))} (m k)"
proof -
  define rows where "rows = map (\<lambda>g. (g_inst g, g_type g))
                (filter (\<lambda>g. g_inst g \<in> set ids \<and>
                   (g_user g = Some u \<or>
                    (\<exists>r\<in>set (map ur_role (filter (\<lambda>ur. ur_user ur = u) (user_roles db))).
                       g_role g = Some r))) (grants d))"
  define held where "held = {g_type g | g. g \<in> set (grants d) \<and> g_inst g = k \<and>
                    (g_user g = Some u \<or> (\<exists>ur\<in>set (user_roles db).
                       ur_user ur = u \<and> g_role g = Some (ur_role ur)))}"
  have held: "t \<in> held \<longleftrightarrow> (k, t) \<in> set rows" for t
    using assms(3) by (auto simp: held_def rows_def)
  have "\<forall>row\<in>set rows. snd row \<in> set ds_keys"
    using assms(2) by (auto simp: rows_def IsValidPermissionType_def valid_keys)
  from level_rows_max [OF this assms(4), of "{}" Map.empty]
  have "heaviest {t. (k, t) \<in> set rows} (level_rows Map.empty rows k)"
    by (simp add: heaviest_def)
  moreover have "{t. (k, t) \<in> set rows} = held" using held by blast
  moreover have "GetUserDatasourcePermissionLevels E db d u ids = Inr (level_rows Map.empty rows)"
    using assms(1,3) by (auto simp: GetUserDatasourcePermissionLevels_def rows_def)
  ultimately show ?thesis unfolding held_def by (intro exI [of _ "level_rows Map.empty rows"]) simp
qed

theorem permission_level_is_heaviest_grant_witness:
  "\<exists>m. GetUserDatasourcePermissionLevels (\<lambda>s. None) demo_rbac demo_inst 8 [5] = Inr m
     \<and> m 5 = Some ''update''"
proof -
  have "\<forall>g\<in>set (grants demo_inst). IsValidPermissionType (g_type g)"
    by (simp add: demo_inst_def IsValidPermissionType_def validPermissionTypes_def)
  from permission_level_is_heaviest_grant [OF _ this, of "\<lambda>s. None" 5 "[5]" demo_rbac 8]
  show ?thesis
    by (simp add: demo_inst_def demo_rbac_def GetUserDatasourcePermissionLevels_def
        level_row_at highestPermission_def permissionWeight_def)
qed

text \<open>The level does not determine what the user may do. Deleting is lighter than reading in
  the weights but included in neither direction, so a user granted both is shown the level
  \<open>read\<close>, whose expansion lacks the \<open>delete\<close> that the check allows.
\<close>

theorem level_hides_delete:
  "\<exists>db d u inst. GetUserDatasourcePermissionLevels (\<lambda>s. None) db d u [inst] = Inr [inst \<mapsto> ''read'']
     \<and> HasDatasourcePermission (\<lambda>s. None) ds_keys db d u inst ''delete'' = Inr True
     \<and> ''delete'' \<notin> set (GetIncludedPermissions ''read'')"
proof -
  let ?d = "\<lparr>instances = [\<lparr>i_id = 5, i_domain = 3, i_creator = None\<rparr>],
      grants = [\<lparr>g_id = 1, g_inst = 5, g_role = None, g_user = Some 8, g_type = ''read'',
                 g_by = 9, g_at = 0\<rparr>,
                \<lparr>g_id = 2, g_inst = 5, g_role = None, g_user = Some 8, g_type = ''delete'',
                 g_by = 9, g_at = 0\<rparr>]\<rparr>"
  have "GetUserDatasourcePermissionLevels (\<lambda>s. None) demo_rbac ?d 8 [5] = Inr [5 \<mapsto> ''read'']"
    by (simp add: GetUserDatasourcePermissionLevels_def level_row_def highestPermission_def
        permissionWeight_def)
  moreover have "HasDatasourcePermission (\<lambda>s. None) ds_keys demo_rbac ?d 8 5 ''delete'' = Inr True"
    by (simp add: inst_eval)
  moreover have "''delete'' \<notin> set (GetIncludedPermissions ''read'')"
    by (simp add: GetIncludedPermissions_def permissionIncludes_def)
  ultimately show ?thesis by blast
qed

end
