(* ===== verification/Worker_Pool.thy ===== *)
theory Worker_Pool
  imports Prelude "HOL-Library.Multiset"
begin

text \<open>
  The executor's goroutine pool (executor/internal/pool/pool.go). Channels are cells of a heap,
  because \<open>UpdateCapacity\<close> replaces the queue while workers and submitters still hold the old
  one. A worker is its program counter; each of its atomic actions is a rule of \<open>pool_step\<close>, as
  are the two halves of \<open>Submit\<close> (read the queue under the lock, then send without it) and the
  other methods, which run under the pool's lock. Three ghost fields record what became of the
  tasks: \<open>accepted\<close>, \<open>finished\<close> and \<open>lost\<close> (dropped during a capacity update).
\<close>

section \<open>State\<close>

datatype 't worker =
    AtLoop        \<comment> \<open>about to call getTaskCh\<close>
  | Waiting nat   \<comment> \<open>in the select, on this channel and its own context\<close>
  | Got 't        \<comment> \<open>received a task, before the counter is incremented\<close>
  | Busy 't       \<comment> \<open>running the task\<close>
  | Exited

record 't chan =
  buf :: "'t list"
  cap :: int
  closed :: bool

record 't pool =
  capacity :: int
  running :: int
  ctx_cancelled :: bool
  workers :: "nat list"          \<comment> \<open>p.workers: the worker whose context each cancel function ends\<close>
  taskCh :: nat
  heap :: "'t chan list"
  ws :: "'t worker list"
  cancelled :: "nat set"
  sending :: "(nat \<times> 't) list"  \<comment> \<open>submitters between getTaskCh and the send\<close>
  external :: int                \<comment> \<open>IncRunning calls not yet matched by DecRunning\<close>
  panicked :: bool
  accepted :: "'t multiset"
  finished :: "'t multiset"
  lost :: "'t multiset"

text \<open>\<open>make(chan TaskFunc, n*2)\<close> with an \<open>int32\<close> product; a negative size panics.\<close>

definition queue_size :: "int \<Rightarrow> int" where
  "queue_size n = wrap32 (n * 2)"

definition NewPool :: "int \<Rightarrow> 't pool" where
  "NewPool n =
     \<lparr>capacity = n, running = 0, ctx_cancelled = False, workers = [], taskCh = 0,
      heap = [\<lparr>buf = [], cap = queue_size n, closed = False\<rparr>], ws = [], cancelled = {},
      sending = [], external = 0, panicked = (queue_size n < 0),
      accepted = {#}, finished = {#}, lost = {#}\<rparr>"

definition startWorker :: "'t pool \<Rightarrow> 't pool" where
  "startWorker p = p\<lparr>workers := workers p @ [length (ws p)], ws := ws p @ [AtLoop]\<rparr>"

definition pool_Start :: "'t pool \<Rightarrow> 't pool" where
  "pool_Start p = (startWorker ^^ nat (capacity p)) p"

text \<open>One turn of the shrinking loop: take the last cancel function off the slice and call it.\<close>

definition stopWorker :: "'t pool \<Rightarrow> 't pool" where
  "stopWorker p =
     (if workers p = [] then p
      else p\<lparr>workers := butlast (workers p), cancelled := insert (last (workers p)) (cancelled p)\<rparr>)"

text \<open>The loop runs while \<open>i < workersToStop && i < len(p.workers)\<close>, and the slice shrinks as it runs.\<close>

function stop_loop :: "int \<Rightarrow> int \<Rightarrow> 't pool \<Rightarrow> 't pool" where
  "stop_loop i n p =
     (if i < n \<and> i < int (length (workers p)) then stop_loop (i + 1) n (stopWorker p) else p)"
  by pat_completeness auto
termination
  by (relation "measure (\<lambda>(i, n, p). nat (n - i))") auto

declare stop_loop.simps [simp del]

text \<open>
  Replacing the queue: the old one is closed and drained into the new one, which takes as many
  tasks as it holds; the rest is dropped with a warning.
\<close>

definition replace_queue :: "int \<Rightarrow> 't pool \<Rightarrow> 't pool" where
  "replace_queue n p =
     (let old = heap p ! taskCh p; size = queue_size n
      in if size < 0 then p\<lparr>panicked := True\<rparr>
         else if closed old then p\<lparr>panicked := True\<rparr>
         else p\<lparr>taskCh := length (heap p),
                heap := (heap p)[taskCh p := old\<lparr>buf := [], closed := True\<rparr>] @
                  [\<lparr>buf = take (nat size) (buf old), cap = size, closed = False\<rparr>],
                lost := lost p + mset (drop (nat size) (buf old))\<rparr>)"

definition UpdateCapacity :: "int \<Rightarrow> 't pool \<Rightarrow> unit result \<times> 't pool" where
  "UpdateCapacity n p =
     (if n \<le> 0 then (Inl ''capacity must be positive'', p)
      else if n = capacity p then (Inr (), p)
      else
        (let p1 = (if n > capacity p then (startWorker ^^ nat (n - capacity p)) p
                   else stop_loop 0 (capacity p - n) p)
         in (Inr (), replace_queue n (p1\<lparr>capacity := n\<rparr>))))"

definition Running :: "'t pool \<Rightarrow> int" where
  "Running p = wrap32 (running p)"

definition IncRunning :: "'t pool \<Rightarrow> 't pool" where
  "IncRunning p = p\<lparr>running := running p + 1, external := external p + 1\<rparr>"

definition DecRunning :: "'t pool \<Rightarrow> 't pool" where
  "DecRunning p = p\<lparr>running := running p - 1, external := external p - 1\<rparr>"

text \<open>\<open>Stop\<close> up to the wait: cancel the context and close the queue (twice: a panic).\<close>

definition pool_Stop :: "'t pool \<Rightarrow> 't pool" where
  "pool_Stop p =
     (let c = heap p ! taskCh p
      in if closed c then p\<lparr>ctx_cancelled := True, panicked := True\<rparr>
         else p\<lparr>ctx_cancelled := True, heap := (heap p)[taskCh p := c\<lparr>closed := True\<rparr>]\<rparr>)"

text \<open>
  The send half of \<open>Submit\<close>: a send to a closed channel panics, a full buffer gives the error
  \<open>task queue full\<close>, otherwise the task is accepted.
\<close>

definition submit_send :: "nat \<Rightarrow> 't \<Rightarrow> 't pool \<Rightarrow> unit result \<times> 't pool" where
  "submit_send c t p =
     (let ch = heap p ! c
      in if closed ch then (Inl ''send on closed channel'', p\<lparr>panicked := True\<rparr>)
         else if int (length (buf ch)) < cap ch
         then (Inr (), p\<lparr>heap := (heap p)[c := ch\<lparr>buf := buf ch @ [t]\<rparr>],
                         accepted := add_mset t (accepted p)\<rparr>)
         else (Inl ''task queue full'', p))"

section \<open>Steps\<close>

definition set_worker :: "nat \<Rightarrow> 't worker \<Rightarrow> 't pool \<Rightarrow> 't pool" where
  "set_worker w s p = p\<lparr>ws := (ws p)[w := s]\<rparr>"

text \<open>What a worker and a submitter do: the loop of \<open>startWorker\<close> and \<open>Submit\<close>.\<close>

inductive run_step :: "'t pool \<Rightarrow> 't pool \<Rightarrow> bool" where
  read_ch: "w < length (ws p) \<Longrightarrow> ws p ! w = AtLoop \<Longrightarrow>
     run_step p (set_worker w (Waiting (taskCh p)) p)"
| recv: "w < length (ws p) \<Longrightarrow> ws p ! w = Waiting c \<Longrightarrow> buf (heap p ! c) = t # ts \<Longrightarrow>
     run_step p (set_worker w (Got t) (p\<lparr>heap := (heap p)[c := (heap p ! c)\<lparr>buf := ts\<rparr>]\<rparr>))"
| recv_closed: "w < length (ws p) \<Longrightarrow> ws p ! w = Waiting c \<Longrightarrow> buf (heap p ! c) = [] \<Longrightarrow>
     closed (heap p ! c) \<Longrightarrow> run_step p (set_worker w Exited p)"
| ctx_done: "w < length (ws p) \<Longrightarrow> ws p ! w = Waiting c \<Longrightarrow> w \<in> cancelled p \<or> ctx_cancelled p \<Longrightarrow>
     run_step p (set_worker w Exited p)"
| task_begin: "w < length (ws p) \<Longrightarrow> ws p ! w = Got t \<Longrightarrow>
     run_step p (set_worker w (Busy t) (p\<lparr>running := running p + 1\<rparr>))"
| task_end: "w < length (ws p) \<Longrightarrow> ws p ! w = Busy t \<Longrightarrow>
     run_step p (set_worker w AtLoop (p\<lparr>running := running p - 1,
       finished := add_mset t (finished p)\<rparr>))"
| submit_read: "run_step p (p\<lparr>sending := (taskCh p, t) # sending p\<rparr>)"
| submit_done: "(c, t) \<in> set (sending p) \<Longrightarrow>
     run_step p ((snd (submit_send c t p))\<lparr>sending := remove1 (c, t) (sending p)\<rparr>)"

text \<open>The other methods, each under the lock.\<close>

inductive pool_step :: "'t pool \<Rightarrow> 't pool \<Rightarrow> bool" where
  running_step: "run_step p q \<Longrightarrow> pool_step p q"
| start: "pool_step p (pool_Start p)"
| update: "pool_step p (snd (UpdateCapacity n p))"
| inc: "pool_step p (IncRunning p)"
| dec: "pool_step p (DecRunning p)"
| stop: "pool_step p (pool_Stop p)"

inductive_cases run_stepE: "run_step p q"
inductive_cases pool_stepE: "pool_step p q"

section \<open>Accounting\<close>

fun held :: "'t worker \<Rightarrow> 't multiset" where
  "held (Got t) = {#t#}"
| "held (Busy t) = {#t#}"
| "held w = {#}"

fun busy :: "'t worker \<Rightarrow> int" where
  "busy (Busy t) = 1"
| "busy w = 0"

definition queued :: "'t pool \<Rightarrow> 't multiset" where
  "queued p = sum_list (map (\<lambda>c. mset (buf c)) (heap p))"

definition in_workers :: "'t pool \<Rightarrow> 't multiset" where
  "in_workers p = sum_list (map held (ws p))"

definition chan_ok :: "'t pool \<Rightarrow> bool" where
  "chan_ok p \<longleftrightarrow> taskCh p < length (heap p) \<and>
     (\<forall>c. Waiting c \<in> set (ws p) \<longrightarrow> c < length (heap p)) \<and>
     (\<forall>(c, t)\<in>set (sending p). c < length (heap p)) \<and>
     (panicked p \<or> (\<forall>c\<in>set (heap p). int (length (buf c)) \<le> cap c))"

definition pool_inv :: "'t pool \<Rightarrow> bool" where
  "pool_inv p \<longleftrightarrow> chan_ok p \<and>
     accepted p = queued p + in_workers p + finished p + lost p \<and>
     running p = sum_list (map busy (ws p)) + external p"

lemma nth_upd: "xs[i := y] ! j = (if i = j \<and> j < length xs then y else xs ! j)"
  by (cases "i < length xs") (auto simp: nth_list_update list_update_beyond)

text \<open>Replacing one element of a list changes a sum by the difference.\<close>

lemma sum_list_upd_mset:
  fixes f :: "'a \<Rightarrow> 'b multiset"
  assumes "i < length xs"
  shows "sum_list (map f (xs[i := y])) + f (xs ! i) = sum_list (map f xs) + f y"
  using assms
proof (induction xs arbitrary: i)
  case Nil
  then show ?case by simp
next
  case (Cons x xs)
  then show ?case by (cases i) (auto simp: ac_simps)
qed

lemma sum_list_upd_int:
  fixes f :: "'a \<Rightarrow> int"
  assumes "i < length xs"
  shows "sum_list (map f (xs[i := y])) = sum_list (map f xs) - f (xs ! i) + f y"
  using assms
proof (induction xs arbitrary: i)
  case Nil
  then show ?case by simp
next
  case (Cons x xs)
  then show ?case by (cases i) auto
qed

lemma set_worker_fields [simp]:
  "heap (set_worker w s p) = heap p" "taskCh (set_worker w s p) = taskCh p"
  "sending (set_worker w s p) = sending p" "running (set_worker w s p) = running p"
  "external (set_worker w s p) = external p" "panicked (set_worker w s p) = panicked p"
  "accepted (set_worker w s p) = accepted p" "finished (set_worker w s p) = finished p"
  "lost (set_worker w s p) = lost p" "ws (set_worker w s p) = (ws p)[w := s]"
  "queued (set_worker w s p) = queued p"
  "cancelled (set_worker w s p) = cancelled p" "ctx_cancelled (set_worker w s p) = ctx_cancelled p"
  by (simp_all add: set_worker_def queued_def)

text \<open>Starting and stopping workers touches no queue and no task.\<close>

definition same_tasks :: "'t pool \<Rightarrow> 't pool \<Rightarrow> bool" where
  "same_tasks p q \<longleftrightarrow> heap q = heap p \<and> taskCh q = taskCh p \<and> sending q = sending p \<and>
     running q = running p \<and> external q = external p \<and> panicked q = panicked p \<and>
     accepted q = accepted p \<and> finished q = finished p \<and> lost q = lost p \<and>
     (\<exists>n. ws q = ws p @ replicate n AtLoop)"

lemma same_tasks_refl [simp]: "same_tasks p p"
  by (auto simp: same_tasks_def intro: exI [of _ 0])

lemma same_tasks_trans: "same_tasks p q \<Longrightarrow> same_tasks q r \<Longrightarrow> same_tasks p r"
  by (auto simp: same_tasks_def replicate_add [symmetric])

lemma startWorker_same [simp]: "same_tasks p (startWorker p)"
  by (auto simp: same_tasks_def startWorker_def intro: exI [of _ 1])

lemma startWorkers_same: "same_tasks p ((startWorker ^^ n) p)"
  by (induction n) (auto intro: same_tasks_trans)

lemma startWorkers_ws: "ws ((startWorker ^^ n) p) = ws p @ replicate n AtLoop"
proof (induction n)
  case 0
  then show ?case by simp
next
  case (Suc n)
  then show ?case by (simp add: startWorker_def replicate_append_same)
qed

lemma stopWorker_same [simp]: "same_tasks p (stopWorker p)"
  by (auto simp: same_tasks_def stopWorker_def intro: exI [of _ 0])

lemma stop_loop_same: "same_tasks p (stop_loop i n p)"
proof (induction i n p rule: stop_loop.induct)
  case (1 i n p)
  then show ?case
    by (subst stop_loop.simps) (auto intro: same_tasks_trans [OF stopWorker_same])
qed

lemma sum_list_replicate_empty [simp]: "sum_list (replicate n {#}) = {#}"
  by (induction n) auto

lemma sum_list_replicate_zero [simp]: "sum_list (replicate n (0::int)) = 0"
  by (induction n) auto

lemma same_tasks_inv: "same_tasks p q \<Longrightarrow> pool_inv p \<Longrightarrow> pool_inv q"
  by (auto simp: same_tasks_def pool_inv_def chan_ok_def queued_def in_workers_def)

lemma queued_upd:
  "c < length (heap p) \<Longrightarrow>
   sum_list (map (\<lambda>c. mset (buf c)) ((heap p)[c := ch])) + mset (buf (heap p ! c)) =
     queued p + mset (buf ch)"
  using sum_list_upd_mset [of c "heap p" "\<lambda>c. mset (buf c)" ch] by (simp add: queued_def)

lemma in_workers_upd:
  "w < length (ws p) \<Longrightarrow>
   sum_list (map held ((ws p)[w := s])) + held (ws p ! w) = in_workers p + held s"
  using sum_list_upd_mset [of w "ws p" held s] by (simp add: in_workers_def)

text \<open>A worker's move, and a change of one queue, in terms of the invariant's sums.\<close>

lemma worker_move:
  assumes "pool_inv p" and w: "w < length (ws p)"
    and q: "heap q = heap p" "taskCh q = taskCh p" "sending q = sending p" "panicked q = panicked p"
      "ws q = (ws p)[w := s]" "accepted q = accepted p" "lost q = lost p" "external q = external p"
    and s: "\<And>c. s = Waiting c \<Longrightarrow> c < length (heap p)"
    and m: "held s + finished q = held (ws p ! w) + finished p"
    and r: "running q - running p = busy s - busy (ws p ! w)"
  shows "pool_inv q"
proof -
  have "chan_ok q"
    using assms(1) q(1-5) s set_update_subset_insert [of "ws p" w s]
    by (auto simp: pool_inv_def chan_ok_def)
  moreover have "accepted q = queued q + in_workers q + finished q + lost q"
  proof -
    have "in_workers q + held (ws p ! w) = in_workers p + held s"
      using in_workers_upd [OF w, of s] q by (simp add: in_workers_def)
    then have "(queued p + in_workers q + finished q + lost p) + held (ws p ! w) =
        (queued p + in_workers p + finished p + lost p) + held (ws p ! w)"
      using m by (metis (no_types, lifting) add.assoc add.commute)
    then show ?thesis using assms(1) q by (simp add: pool_inv_def queued_def)
  qed
  moreover have "running q = sum_list (map busy (ws q)) + external q"
    using assms(1) q r sum_list_upd_int [OF w, of busy s] by (simp add: pool_inv_def)
  ultimately show ?thesis by (simp add: pool_inv_def)
qed

lemma queue_change:
  assumes "pool_inv p" and c: "c < length (heap p)"
    and q: "heap q = (heap p)[c := ch]" "taskCh q = taskCh p"
      "set (sending q) \<subseteq> set (sending p)" "panicked q = panicked p"
      "ws q = ws p" "lost q = lost p" "external q = external p" "finished q = finished p"
      "running q = running p"
    and fits: "panicked p \<or> int (length (buf ch)) \<le> cap ch"
    and m: "accepted q + mset (buf (heap p ! c)) = accepted p + mset (buf ch)"
  shows "pool_inv q"
proof -
  have "chan_ok q"
    using assms(1) q c fits set_update_subset_insert [of "heap p" c ch]
    by (auto simp: pool_inv_def chan_ok_def)
  moreover have "accepted q = queued q + in_workers q + finished q + lost q"
  proof -
    have "queued q + mset (buf (heap p ! c)) = queued p + mset (buf ch)"
      using queued_upd [OF c, of ch] q by (simp add: queued_def)
    then have "accepted q + mset (buf (heap p ! c)) =
        (queued q + in_workers p + finished p + lost p) + mset (buf (heap p ! c))"
      using m assms(1) by (simp add: pool_inv_def multiset_eq_iff)
    then show ?thesis using q by (simp add: in_workers_def)
  qed
  ultimately show ?thesis using assms(1) q by (simp add: pool_inv_def)
qed

lemma recv_inv:
  assumes "pool_inv p" and w: "w < length (ws p)" "ws p ! w = Waiting c"
    and b: "buf (heap p ! c) = t # ts"
  shows "pool_inv (set_worker w (Got t) (p\<lparr>heap := (heap p)[c := (heap p ! c)\<lparr>buf := ts\<rparr>]\<rparr>))"
    (is "pool_inv ?q")
proof -
  have c: "c < length (heap p)"
    using assms(1) w nth_mem [OF w(1)] by (auto simp: pool_inv_def chan_ok_def)
  have "panicked p \<or> int (length ts) \<le> cap (heap p ! c)"
    using assms(1) b nth_mem [OF c] by (auto simp: pool_inv_def chan_ok_def)
  then have "chan_ok ?q"
    using assms(1) c set_update_subset_insert [of "ws p" w "Got t"]
      set_update_subset_insert [of "heap p" c "(heap p ! c)\<lparr>buf := ts\<rparr>"]
    by (auto simp: pool_inv_def chan_ok_def)
  moreover have "queued ?q + {#t#} = queued p"
    using queued_upd [OF c, of "(heap p ! c)\<lparr>buf := ts\<rparr>"] b by (simp add: queued_def)
  moreover have "in_workers ?q = in_workers p + {#t#}"
    using in_workers_upd [OF w(1), of "Got t"] w(2) by (simp add: in_workers_def)
  moreover have "running ?q = sum_list (map busy (ws ?q)) + external ?q"
    using assms(1) sum_list_upd_int [OF w(1), of busy "Got t"] w(2) by (simp add: pool_inv_def)
  ultimately show ?thesis
    using assms(1) by (simp add: pool_inv_def ac_simps)
qed

lemma submit_send_inv:
  assumes "pool_inv p" "c < length (heap p)"
  shows "pool_inv (snd (submit_send c t p))"
proof -
  let ?ch = "(heap p ! c)\<lparr>buf := buf (heap p ! c) @ [t]\<rparr>"
  have "pool_inv (p\<lparr>panicked := True\<rparr>)"
    using assms(1) by (auto simp: pool_inv_def chan_ok_def queued_def in_workers_def)
  moreover have "pool_inv (p\<lparr>heap := (heap p)[c := ?ch], accepted := add_mset t (accepted p)\<rparr>)"
    if "int (length (buf (heap p ! c))) < cap (heap p ! c)"
    by (rule queue_change [OF assms, where ch = ?ch]) (use that in auto)
  ultimately show ?thesis
    using assms(1) by (simp add: submit_send_def Let_def)
qed

lemma fewer_senders_inv: "pool_inv p \<Longrightarrow> set xs \<subseteq> set (sending p) \<Longrightarrow> pool_inv (p\<lparr>sending := xs\<rparr>)"
  by (auto simp: pool_inv_def chan_ok_def queued_def in_workers_def)

lemma submit_send_sending [simp]: "sending (snd (submit_send c t p)) = sending p"
  by (simp add: submit_send_def Let_def)

lemma run_step_inv: "run_step p q \<Longrightarrow> pool_inv p \<Longrightarrow> pool_inv q"
proof (induction rule: run_step.induct)
  case (read_ch w p)
  then show ?case
    by (intro worker_move [OF read_ch.prems, of w _ "Waiting (taskCh p)"])
      (auto simp: pool_inv_def chan_ok_def)
next
  case (recv w p c t ts)
  then show ?case by (intro recv_inv)
next
  case (recv_closed w p c)
  then show ?case by (intro worker_move [OF recv_closed.prems, of w _ Exited]) auto
next
  case (ctx_done w p c)
  then show ?case by (intro worker_move [OF ctx_done.prems, of w _ Exited]) auto
next
  case (task_begin w p t)
  then show ?case by (intro worker_move [OF task_begin.prems, of w _ "Busy t"]) auto
next
  case (task_end w p t)
  then show ?case by (intro worker_move [OF task_end.prems, of w _ AtLoop]) auto
next
  case (submit_read p t)
  then show ?case by (auto simp: pool_inv_def chan_ok_def queued_def in_workers_def)
next
  case (submit_done c t p)
  then have "c < length (heap p)" by (auto simp: pool_inv_def chan_ok_def)
  then show ?case
    using submit_done set_remove1_subset [of "(c, t)" "sending p"]
    by (intro fewer_senders_inv submit_send_inv) auto
qed

lemma replace_queue_inv:
  assumes "pool_inv p"
  shows "pool_inv (replace_queue n p)"
proof -
  let ?old = "heap p ! taskCh p" and ?k = "nat (queue_size n)"
  let ?q = "p\<lparr>taskCh := length (heap p),
     heap := (heap p)[taskCh p := ?old\<lparr>buf := [], closed := True\<rparr>] @
       [\<lparr>buf = take ?k (buf ?old), cap = queue_size n, closed = False\<rparr>],
     lost := lost p + mset (drop ?k (buf ?old))\<rparr>"
  have t: "taskCh p < length (heap p)" using assms by (simp add: pool_inv_def chan_ok_def)
  have "pool_inv (p\<lparr>panicked := True\<rparr>)"
    using assms by (auto simp: pool_inv_def chan_ok_def queued_def in_workers_def)
  moreover have "pool_inv ?q" if "\<not> queue_size n < 0"
  proof -
    have "panicked p \<or> int (length (buf ?old)) \<le> cap ?old"
      using assms nth_mem [OF t] by (auto simp: pool_inv_def chan_ok_def)
    then have "panicked p \<or> 0 \<le> cap ?old" by linarith
    then have "chan_ok ?q"
      using assms that set_update_subset_insert [of "heap p" "taskCh p" "?old\<lparr>buf := [], closed := True\<rparr>"]
      by (auto simp: pool_inv_def chan_ok_def less_Suc_eq)
    moreover have "queued ?q + mset (buf ?old) = queued p + mset (take ?k (buf ?old))"
      using queued_upd [OF t, of "?old\<lparr>buf := [], closed := True\<rparr>"] by (simp add: queued_def)
    then have "queued ?q + mset (drop ?k (buf ?old)) = queued p"
      using mset_append [of "take ?k (buf ?old)" "drop ?k (buf ?old)"]
      by (simp add: multiset_eq_iff)
    ultimately show ?thesis
      using assms by (simp add: pool_inv_def in_workers_def ac_simps)
  qed
  ultimately show ?thesis by (simp add: replace_queue_def Let_def)
qed

lemma capacity_irrelevant: "pool_inv (p\<lparr>capacity := n\<rparr>) = pool_inv p"
  by (simp add: pool_inv_def chan_ok_def queued_def in_workers_def)

lemma UpdateCapacity_inv: "pool_inv p \<Longrightarrow> pool_inv (snd (UpdateCapacity n p))"
  by (auto simp: UpdateCapacity_def Let_def capacity_irrelevant
      intro!: replace_queue_inv same_tasks_inv [OF startWorkers_same] same_tasks_inv [OF stop_loop_same])

lemma pool_Stop_inv:
  assumes "pool_inv p"
  shows "pool_inv (pool_Stop p)"
proof -
  let ?c = "heap p ! taskCh p"
  have t: "taskCh p < length (heap p)" using assms by (simp add: pool_inv_def chan_ok_def)
  have 1: "pool_inv (p\<lparr>ctx_cancelled := True, panicked := True\<rparr>)"
    using assms by (auto simp: pool_inv_def chan_ok_def queued_def in_workers_def)
  have "panicked p \<or> int (length (buf ?c)) \<le> cap ?c"
    using assms nth_mem [OF t] by (auto simp: pool_inv_def chan_ok_def)
  then have 2: "pool_inv (p\<lparr>ctx_cancelled := True, heap := (heap p)[taskCh p := ?c\<lparr>closed := True\<rparr>]\<rparr>)"
    by (intro queue_change [OF assms t, where ch = "?c\<lparr>closed := True\<rparr>"]) auto
  show ?thesis using 1 2 by (simp add: pool_Stop_def Let_def)
qed

lemma counter_inv: "pool_inv p \<Longrightarrow> pool_inv (IncRunning p) \<and> pool_inv (DecRunning p)"
  by (simp add: IncRunning_def DecRunning_def pool_inv_def chan_ok_def queued_def in_workers_def)

lemma pool_step_inv: "pool_step p q \<Longrightarrow> pool_inv p \<Longrightarrow> pool_inv q"
  by (induction rule: pool_step.induct)
    (auto simp: pool_Start_def counter_inv
      intro: run_step_inv same_tasks_inv [OF startWorkers_same] UpdateCapacity_inv pool_Stop_inv)

lemma NewPool_inv: "pool_inv (NewPool n)"
  by (auto simp: NewPool_def pool_inv_def chan_ok_def queued_def in_workers_def)

interpretation pool: transition_invariant "\<lambda>p. \<exists>n. p = NewPool n" pool_step pool_inv
  by unfold_locales (auto simp: NewPool_inv intro: pool_step_inv)

section \<open>Properties\<close>

abbreviation reachable_pool :: "'t pool \<Rightarrow> bool" where
  "reachable_pool \<equiv> reach (\<lambda>p. \<exists>n. p = NewPool n) pool_step"

text \<open>C28: In every reachable state of the pool, under every interleaving of workers, submitters,
  capacity updates and Stop, each accepted task is in exactly one place: in a queue, with a worker,
  finished, or dropped by a capacity update. The running counter is the number of tasks being run
  plus the manual increments. As long as nothing has panicked, no queue holds more than it was
  made for.\<close>

theorem pool_accounts_for_every_task:
  assumes "reachable_pool p"
  shows "accepted p = queued p + in_workers p + finished p + lost p \<and>
    running p = sum_list (map busy (ws p)) + external p \<and>
    (\<not> panicked p \<longrightarrow> (\<forall>c\<in>set (heap p). int (length (buf c)) \<le> cap c))"
  using pool.reach_inv [OF assms] by (auto simp: pool_inv_def chan_ok_def)

section \<open>Capacity updates\<close>

lemma stop_loop_ws: "ws (stop_loop i n p) = ws p"
proof (induction i n p rule: stop_loop.induct)
  case (1 i n p)
  then show ?case by (subst stop_loop.simps) (simp add: stopWorker_def)
qed

text \<open>What an effective capacity update does to the pool, in one place.\<close>

lemma UpdateCapacity_effect:
  assumes "0 < n" "n < 2 ^ 30" "n \<noteq> capacity p" "\<not> closed (heap p ! taskCh p)"
  defines "q \<equiv> snd (UpdateCapacity n p)"
  shows "ws q = ws p @ replicate (nat (n - capacity p)) AtLoop"
    and "heap q = (heap p)[taskCh p := (heap p ! taskCh p)\<lparr>buf := [], closed := True\<rparr>] @
      [\<lparr>buf = take (nat (2 * n)) (buf (heap p ! taskCh p)), cap = 2 * n, closed = False\<rparr>]"
    and "taskCh q = length (heap p)" "sending q = sending p" "finished q = finished p"
      "accepted q = accepted p" "panicked q = panicked p" "capacity q = n"
      "lost q = lost p + mset (drop (nat (2 * n)) (buf (heap p ! taskCh p)))"
proof -
  define p1 where "p1 = (if n > capacity p then (startWorker ^^ nat (n - capacity p)) p
                   else stop_loop 0 (capacity p - n) p)"
  have same: "same_tasks p p1"
    by (simp add: p1_def startWorkers_same stop_loop_same)
  have size: "queue_size n = 2 * n" using assms by (simp add: queue_size_def)
  have q: "q = replace_queue n (p1\<lparr>capacity := n\<rparr>)"
    using assms by (simp add: q_def UpdateCapacity_def p1_def)
  have ws: "ws p1 = ws p @ replicate (nat (n - capacity p)) AtLoop"
    using assms by (simp add: p1_def startWorkers_ws stop_loop_ws)
  note facts = same [unfolded same_tasks_def] q ws size assms(1,4)
  show "ws q = ws p @ replicate (nat (n - capacity p)) AtLoop"
    using facts by (simp add: replace_queue_def Let_def)
  show "heap q = (heap p)[taskCh p := (heap p ! taskCh p)\<lparr>buf := [], closed := True\<rparr>] @
      [\<lparr>buf = take (nat (2 * n)) (buf (heap p ! taskCh p)), cap = 2 * n, closed = False\<rparr>]"
    using facts by (simp add: replace_queue_def Let_def)
  show "taskCh q = length (heap p)" "sending q = sending p" "finished q = finished p"
      "accepted q = accepted p" "panicked q = panicked p" "capacity q = n"
      "lost q = lost p + mset (drop (nat (2 * n)) (buf (heap p ! taskCh p)))"
    using facts by (simp_all add: replace_queue_def Let_def)
qed

text \<open>The current queue has the size its capacity asks for, until something panics.\<close>

definition sized :: "'t pool \<Rightarrow> bool" where
  "sized p \<longleftrightarrow> panicked p \<or> cap (heap p ! taskCh p) = queue_size (capacity p)"

lemma same_tasks_sized: "same_tasks p q \<Longrightarrow> capacity q = capacity p \<Longrightarrow> sized p \<Longrightarrow> sized q"
  by (simp add: same_tasks_def sized_def)

lemma startWorkers_capacity: "capacity ((startWorker ^^ n) p) = capacity p"
  by (induction n) (simp_all add: startWorker_def)

lemma submit_send_sized: "sized p \<Longrightarrow> sized (snd (submit_send c t p))"
  by (auto simp: sized_def submit_send_def Let_def nth_upd)

lemma sending_sized [simp]: "sized (p\<lparr>sending := xs\<rparr>) = sized p"
  by (simp add: sized_def)

lemma run_step_sized: "run_step p q \<Longrightarrow> sized p \<Longrightarrow> sized q"
proof (induction rule: run_step.induct)
  case (submit_done c t p)
  then show ?case using submit_send_sized by simp
qed (auto simp: sized_def set_worker_def nth_upd)

lemma replace_queue_sized: "sized (replace_queue n (p\<lparr>capacity := n\<rparr>))"
  by (simp add: replace_queue_def sized_def Let_def nth_append)

lemma pool_step_sized: "pool_step p q \<Longrightarrow> sized p \<Longrightarrow> sized q"
proof (induction rule: pool_step.induct)
  case (running_step p q)
  then show ?case using run_step_sized by blast
next
  case (start p)
  then show ?case
    by (auto simp: pool_Start_def startWorkers_capacity intro: same_tasks_sized [OF startWorkers_same])
next
  case (update p n)
  then show ?case by (auto simp: UpdateCapacity_def Let_def replace_queue_sized)
next
  case (stop p)
  then show ?case by (auto simp: pool_Stop_def Let_def sized_def nth_upd)
qed (simp_all add: IncRunning_def DecRunning_def sized_def)

interpretation pool_size: transition_invariant "\<lambda>p. \<exists>n. p = NewPool n" pool_step sized
proof
  fix s :: "'a pool"
  assume "\<exists>n. s = NewPool n"
  then show "sized s" by (auto simp: NewPool_def sized_def)
qed (rule pool_step_sized)

text \<open>Raising the capacity of a pool that has not been stopped never loses a queued task: the
  whole queue moves, in order, to a queue twice the new capacity, and as many workers are started
  as the capacity grew by.\<close>

theorem growing_keeps_every_task:
  assumes "reachable_pool p" "\<not> panicked p" "\<not> closed (heap p ! taskCh p)"
    and "0 \<le> capacity p" "capacity p < n" "n < 2 ^ 30"
  defines "q \<equiv> snd (UpdateCapacity n p)"
  shows "buf (heap q ! taskCh q) = buf (heap p ! taskCh p) \<and> lost q = lost p \<and>
    cap (heap q ! taskCh q) = 2 * n \<and> length (ws q) = length (ws p) + nat (n - capacity p)"
proof -
  have inv: "pool_inv p" "sized p" using assms(1) pool.reach_inv pool_size.reach_inv by auto
  have "heap p ! taskCh p \<in> set (heap p)" using inv(1) by (auto simp: pool_inv_def chan_ok_def)
  then have "int (length (buf (heap p ! taskCh p))) \<le> cap (heap p ! taskCh p)"
    using inv(1) assms(2) by (auto simp: pool_inv_def chan_ok_def)
  moreover have "cap (heap p ! taskCh p) = 2 * capacity p"
    using inv(2) assms by (simp add: sized_def queue_size_def)
  ultimately have "length (buf (heap p ! taskCh p)) \<le> nat (2 * n)" using assms by linarith
  moreover note eff = UpdateCapacity_effect [of n p]
  ultimately show ?thesis
    using assms by (simp add: eff nth_append)
qed

lemma reachable_NewPool: "reachable_pool (NewPool n)"
  by (auto intro: reach_init)

text \<open>
  A worker waiting on a closed, empty queue can only leave; \<open>stranded m q\<close> says that of the
  first \<open>m\<close> workers.
\<close>

definition dead_end :: "'t pool \<Rightarrow> 't worker \<Rightarrow> bool" where
  "dead_end q w \<longleftrightarrow> w = Exited \<or>
     (\<exists>c. w = Waiting c \<and> c < length (heap q) \<and> closed (heap q ! c) \<and> buf (heap q ! c) = [])"

definition stranded :: "nat \<Rightarrow> 't pool \<Rightarrow> bool" where
  "stranded m q \<longleftrightarrow> m \<le> length (ws q) \<and> (\<forall>w<m. dead_end q (ws q ! w))"

lemma dead_end_cases: "\<not> dead_end q AtLoop" "\<not> dead_end q (Got t)" "\<not> dead_end q (Busy t)"
  by (simp_all add: dead_end_def)

lemma dead_end_mono:
  "length (heap p) = length (heap q) \<Longrightarrow>
   (\<And>c. c < length (heap p) \<Longrightarrow> closed (heap p ! c) \<Longrightarrow> buf (heap p ! c) = [] \<Longrightarrow>
      closed (heap q ! c) \<and> buf (heap q ! c) = []) \<Longrightarrow>
   dead_end p w \<Longrightarrow> dead_end q w"
  by (auto simp: dead_end_def)

lemma stranded_move:
  assumes "stranded m p" "ws q = (ws p)[w := s]" "heap q = heap p"
    and "w < m \<Longrightarrow> dead_end p s"
  shows "stranded m q"
  using assms by (auto simp: stranded_def nth_upd dead_end_def)

lemma stranded_queue:
  assumes "stranded m p" "ws q = ws p" "length (heap q) = length (heap p)"
    and "\<And>c. c < length (heap p) \<Longrightarrow> closed (heap p ! c) \<Longrightarrow> heap q ! c = heap p ! c"
  shows "stranded m q"
  unfolding stranded_def
proof (intro conjI allI impI)
  show "m \<le> length (ws q)" using assms by (simp add: stranded_def)
  fix w assume "w < m"
  then have "dead_end p (ws q ! w)" using assms by (simp add: stranded_def)
  then show "dead_end q (ws q ! w)" by (rule dead_end_mono [rotated 2]) (use assms in auto)
qed

lemma run_step_stranded: "run_step p q \<Longrightarrow> stranded m p \<Longrightarrow> stranded m q"
proof (induction rule: run_step.induct)
  case (read_ch w p)
  then have "\<not> w < m" by (metis stranded_def dead_end_cases(1))
  then show ?case
    by (intro stranded_move [OF read_ch.prems, of _ w "Waiting (taskCh p)"]) auto
next
  case (recv w p c t ts)
  let ?p = "p\<lparr>heap := (heap p)[c := (heap p ! c)\<lparr>buf := ts\<rparr>]\<rparr>"
  have w: "\<not> w < m"
  proof
    assume "w < m"
    with recv.prems have "dead_end p (Waiting c)" by (metis stranded_def recv.hyps(2))
    with recv.hyps(3) show False by (simp add: dead_end_def)
  qed
  have d: "dead_end (set_worker w (Got t) ?p) x" if "dead_end p x" for x
    using that recv.hyps(3) by (elim dead_end_mono [rotated 2]) (auto simp: nth_upd)
  have "\<forall>v<m. ws p ! v = ws (set_worker w (Got t) ?p) ! v" using w by (simp add: nth_upd)
  then show ?case using recv.prems d by (simp add: stranded_def)
next
  case (recv_closed w p c)
  show ?case
    by (rule stranded_move [OF recv_closed.prems, of _ w Exited]) (simp_all add: dead_end_def)
next
  case (ctx_done w p c)
  show ?case
    by (rule stranded_move [OF ctx_done.prems, of _ w Exited]) (simp_all add: dead_end_def)
next
  case (task_begin w p t)
  then have "\<not> w < m" by (metis stranded_def dead_end_cases(2))
  then show ?case
    by (intro stranded_move [OF task_begin.prems, of _ w "Busy t"]) auto
next
  case (task_end w p t)
  then have "\<not> w < m" by (metis stranded_def dead_end_cases(3))
  then show ?case
    by (intro stranded_move [OF task_end.prems, of _ w AtLoop]) auto
next
  case (submit_read p t)
  show ?case by (rule stranded_queue [OF submit_read.prems]) simp_all
next
  case (submit_done c t p)
  show ?case
    by (rule stranded_queue [OF submit_done.prems]) (simp_all add: submit_send_def Let_def nth_upd)
qed

lemma reach_from_inv:
  assumes "reach (\<lambda>p. p = s) step q" "I s" "\<And>p q. step p q \<Longrightarrow> I p \<Longrightarrow> I q"
  shows "I q"
  using assms(1) by (induction rule: reach.induct) (auto intro: assms)

definition idle_pool :: "'t pool \<Rightarrow> bool" where
  "idle_pool p \<longleftrightarrow> (\<forall>w\<in>set (ws p). w = Exited \<or> w = Waiting (taskCh p))"

lemma update_strands:
  assumes "pool_inv p" "idle_pool p" "\<not> closed (heap p ! taskCh p)"
    and "0 < n" "n < 2 ^ 30" "n \<noteq> capacity p"
  shows "stranded (length (ws p)) (snd (UpdateCapacity n p))"
proof -
  note eff = UpdateCapacity_effect [OF assms(4-6,3)]
  have t: "taskCh p < length (heap p)" using assms(1) by (simp add: pool_inv_def chan_ok_def)
  then have "dead_end (snd (UpdateCapacity n p)) (ws p ! w)" if "w < length (ws p)" for w
    using assms(2) nth_mem [OF that] by (auto simp: idle_pool_def dead_end_def eff nth_append)
  then show ?thesis by (simp add: stranded_def eff nth_append)
qed

text \<open>A capacity update strands the workers that are idle: each of them waits on the queue that
  has just been closed, so it leaves instead of taking the next task. When the pool is idle and the
  capacity is lowered, no worker is left at all and every task submitted afterwards stays in the
  queue for ever, whatever workers and submitters do.\<close>

theorem shrinking_an_idle_pool_kills_it:
  assumes "reachable_pool p" "idle_pool p" "\<not> closed (heap p ! taskCh p)"
    and "0 < n" "n < capacity p" "n < 2 ^ 30"
    and "reach (\<lambda>q. q = snd (UpdateCapacity n p)) run_step q"
  shows "finished q = finished p \<and> (\<forall>w\<in>set (ws q). \<forall>t. w \<noteq> Got t \<and> w \<noteq> Busy t)"
proof -
  let ?s = "snd (UpdateCapacity n p)" and ?m = "length (ws p)"
  let ?I = "\<lambda>q. stranded ?m q \<and> length (ws q) = ?m \<and> finished q = finished p"
  have ne: "n \<noteq> capacity p" using assms by simp
  have "?I ?s"
    using update_strands [OF pool.reach_inv [OF assms(1)] assms(2-4,6) ne] assms(5)
      UpdateCapacity_effect(1,5) [OF assms(4,6) ne assms(3)] by simp
  moreover have "?I q'" if "run_step p' q'" "?I p'" for p' q'
  proof -
    have "stranded ?m q'" using that run_step_stranded by blast
    moreover have "length (ws q') = ?m" "finished q' = finished p"
      using that
      by (auto elim!: run_stepE simp: submit_send_def Let_def stranded_def dead_end_cases)
    ultimately show ?thesis by simp
  qed
  ultimately have "?I q" by (rule reach_from_inv [OF assms(7), of ?I])
  then have "dead_end q w" if "w \<in> set (ws q)" for w
    using that by (auto simp: stranded_def in_set_conv_nth)
  with \<open>?I q\<close> show ?thesis by (metis dead_end_cases(2,3))
qed

text \<open>A submitter that has read the queue reference sends to a closed channel, which panics,
  when a capacity update runs in between.\<close>

theorem submit_racing_update_panics:
  assumes "reachable_pool p" "\<not> closed (heap p ! taskCh p)" "0 < n" "n < 2 ^ 30" "n \<noteq> capacity p"
  shows "\<exists>q r. run_step p q \<and> run_step (snd (UpdateCapacity n q)) r \<and> panicked r"
proof -
  fix t :: 'a
  let ?q = "p\<lparr>sending := (taskCh p, t) # sending p\<rparr>"
  let ?u = "snd (UpdateCapacity n ?q)"
  have lt: "taskCh p < length (heap p)"
    using pool.reach_inv [OF assms(1)] by (simp add: pool_inv_def chan_ok_def)
  have eff: "heap ?u ! taskCh p = (heap p ! taskCh p)\<lparr>buf := [], closed := True\<rparr>"
      "sending ?u = (taskCh p, t) # sending p"
    using UpdateCapacity_effect [of n ?q] assms lt by (simp_all add: nth_append)
  have "run_step p ?q" by (rule run_step.submit_read)
  moreover have "run_step ?u ((snd (submit_send (taskCh p) t ?u))\<lparr>sending :=
      remove1 (taskCh p, t) (sending ?u)\<rparr>)"
    by (rule run_step.submit_done) (simp add: eff)
  moreover have "panicked (snd (submit_send (taskCh p) t ?u))"
    by (simp add: submit_send_def eff)
  ultimately show ?thesis by (metis (no_types, lifting) pool.select_convs pool.surjective pool.update_convs)
qed

section \<open>A concrete pool\<close>

text \<open>A pool of two workers, both waiting for tasks; and the same pool with one accepted task.\<close>

definition demo_pool :: "nat pool" where
  "demo_pool = set_worker 1 (Waiting 0) (set_worker 0 (Waiting 0) (pool_Start (NewPool 2)))"

lemma demo_start: "ws (pool_Start (NewPool 2) :: nat pool) = [AtLoop, AtLoop]"
  "taskCh (pool_Start (NewPool 2) :: nat pool) = 0"
  by (simp_all add: pool_Start_def startWorker_def NewPool_def eval_nat_numeral)

lemma demo_reachable: "reachable_pool demo_pool"
proof -
  let ?a = "pool_Start (NewPool 2) :: nat pool"
  have a: "reachable_pool ?a" by (rule reach_step [OF reachable_NewPool start])
  have "pool_step ?a (set_worker 0 (Waiting (taskCh ?a)) ?a)"
    by (intro running_step read_ch) (simp_all add: demo_start)
  from reach_step [OF a this] have b: "reachable_pool (set_worker 0 (Waiting 0) ?a)"
    by (simp add: demo_start)
  have "pool_step (set_worker 0 (Waiting 0) ?a)
      (set_worker 1 (Waiting (taskCh (set_worker 0 (Waiting 0) ?a))) (set_worker 0 (Waiting 0) ?a))"
    by (intro running_step read_ch) (simp_all add: demo_start)
  from reach_step [OF b this] show ?thesis by (simp add: demo_pool_def demo_start)
qed

lemma demo_fields:
  "ws demo_pool = [Waiting 0, Waiting 0]" "taskCh demo_pool = 0" "capacity demo_pool = 2"
  "heap demo_pool = [\<lparr>buf = [], cap = 4, closed = False\<rparr>]" "panicked demo_pool = False"
  "finished demo_pool = {#}" "lost demo_pool = {#}"
  by (simp_all add: demo_pool_def set_worker_def pool_Start_def startWorker_def NewPool_def
      queue_size_def eval_nat_numeral)

theorem pool_accounts_for_every_task_witness:
  "accepted demo_pool = queued demo_pool + in_workers demo_pool + finished demo_pool + lost demo_pool"
  using pool_accounts_for_every_task [OF demo_reachable] by blast

theorem growing_keeps_every_task_witness:
  "cap (heap (snd (UpdateCapacity 3 demo_pool)) ! taskCh (snd (UpdateCapacity 3 demo_pool))) = 6 \<and>
   length (ws (snd (UpdateCapacity 3 demo_pool))) = 3"
  using growing_keeps_every_task [OF demo_reachable, of 3] by (simp add: demo_fields)

theorem shrinking_an_idle_pool_kills_it_witness:
  "finished (snd (UpdateCapacity 1 demo_pool)) = {#}"
  using shrinking_an_idle_pool_kills_it [OF demo_reachable, of 1 "snd (UpdateCapacity 1 demo_pool)"]
  by (simp add: demo_fields idle_pool_def reach_init)

theorem submit_racing_update_panics_witness:
  "\<exists>q r. run_step demo_pool q \<and> run_step (snd (UpdateCapacity 1 q)) r \<and> panicked r"
  by (rule submit_racing_update_panics [OF demo_reachable]) (simp_all add: demo_fields)

end
