(* ===== verification/Redis_Server.thy ===== *)
theory Redis_Server
  imports Prelude
begin

text \<open>
  Redis as the scheduler uses it. The server is not part of the repository: its operations are the
  fields of a record that the components take as an argument, its state has a type \<open>'r\<close> of its
  own, and the locale \<open>redis_server\<close> states the documented effect of each command on a view
  \<open>kv\<close> of the keys. A key past its expiry does not exist. A reply \<open>Inl\<close> is an error of the
  client or the network; the command may then have taken effect or not, and nothing else happens.
  \<open>mem_redis\<close> is a server in memory, which shows that the laws can be met.
\<close>

section \<open>The interface\<close>

record 'r redis =
  redis_Get :: "instant \<Rightarrow> string \<Rightarrow> 'r \<Rightarrow> string option result"  \<comment> \<open>\<open>Inr None\<close> is \<open>redis.Nil\<close>\<close>
  redis_Exists :: "instant \<Rightarrow> string \<Rightarrow> 'r \<Rightarrow> bool result"
  redis_Set :: "instant \<Rightarrow> string \<Rightarrow> string \<Rightarrow> duration \<Rightarrow> 'r \<Rightarrow> unit result \<times> 'r"
  redis_SetNX :: "instant \<Rightarrow> string \<Rightarrow> string \<Rightarrow> duration \<Rightarrow> 'r \<Rightarrow> bool result \<times> 'r"
  redis_Del :: "instant \<Rightarrow> string list \<Rightarrow> 'r \<Rightarrow> unit result \<times> 'r"
  redis_Expire :: "instant \<Rightarrow> string \<Rightarrow> duration \<Rightarrow> 'r \<Rightarrow> bool result \<times> 'r"
  redis_Incr :: "instant \<Rightarrow> string \<Rightarrow> 'r \<Rightarrow> int result \<times> 'r"
  redis_Decr :: "instant \<Rightarrow> string \<Rightarrow> 'r \<Rightarrow> int result \<times> 'r"

type_synonym entry = "string \<times> instant option"  \<comment> \<open>the value, and when the key expires\<close>

definition live :: "instant \<Rightarrow> entry option \<Rightarrow> string option" where
  "live t e = (case e of
      None \<Rightarrow> None
    | Some (v, None) \<Rightarrow> Some v
    | Some (v, Some x) \<Rightarrow> if t < x then Some v else None)"

lemma live_simps [simp]:
  "live t None = None" "live t (Some (v, None)) = Some v"
  "live t (Some (v, Some x)) = (if t < x then Some v else None)"
  by (simp_all add: live_def)

lemma live_mono: "t \<le> u \<Longrightarrow> live u e = Some v \<Longrightarrow> live t e = Some v"
  by (auto simp: live_def split: option.splits if_splits)

text \<open>
  The client sends an expiry with \<open>SET\<close> only for a positive duration; the duration \<open>- 1\<close>
  (\<open>KeepTTL\<close>) has a meaning of its own and no law here covers it.
\<close>

definition expiry :: "instant \<Rightarrow> duration \<Rightarrow> instant option" where
  "expiry t d = (if d \<le> 0 then None else Some (t + d))"

text \<open>The decimal of an integer, read back.\<close>

definition read_int :: "string \<Rightarrow> int" where
  "read_int s = (case s of
      [] \<Rightarrow> 0
    | c # cs \<Rightarrow> if c = CHR ''-'' then - int (read_nat cs) else int (read_nat s))"

lemma read_show_int: "read_int (show_int n) = n"
proof (cases "n < 0")
  case True
  then show ?thesis by (simp add: show_int_def read_int_def read_show_nat del: read_nat.simps)
next
  case False
  then have s: "show_int n = show_nat (nat n)" by (simp add: show_int_def)
  obtain c cs where c: "show_nat (nat n) = c # cs" by (cases "show_nat (nat n)") simp_all
  then have "c \<noteq> CHR ''-''" using dash_not_digit [of "nat n"] by auto
  then show ?thesis
    using read_show_nat [of "nat n"] False by (simp add: read_int_def s c del: read_nat.simps)
qed

text \<open>The effects of the commands on the keys.\<close>

type_synonym keys = "string \<Rightarrow> entry option"

definition put :: "instant \<Rightarrow> string \<Rightarrow> string \<Rightarrow> duration \<Rightarrow> keys \<Rightarrow> keys" where
  "put t k v d m = m(k \<mapsto> (v, expiry t d))"

definition put_new :: "instant \<Rightarrow> string \<Rightarrow> string \<Rightarrow> duration \<Rightarrow> keys \<Rightarrow> keys" where
  "put_new t k v d m = (if live t (m k) = None then put t k v d m else m)"

definition drop_keys :: "string list \<Rightarrow> keys \<Rightarrow> keys" where
  "drop_keys ks m = (\<lambda>k. if k \<in> set ks then None else m k)"

definition touch :: "instant \<Rightarrow> string \<Rightarrow> duration \<Rightarrow> keys \<Rightarrow> keys" where
  "touch t k d m = (if live t (m k) = None then m else m(k \<mapsto> (fst (the (m k)), Some (t + d))))"

definition counter :: "instant \<Rightarrow> string \<Rightarrow> keys \<Rightarrow> int" where
  "counter t k m = (case live t (m k) of None \<Rightarrow> 0 | Some v \<Rightarrow> read_int v)"

definition bump :: "int \<Rightarrow> instant \<Rightarrow> string \<Rightarrow> keys \<Rightarrow> keys" where
  "bump d t k m = m(k \<mapsto> (show_int (counter t k m + d),
     if live t (m k) = None then None else snd (the (m k))))"

lemmas effect_defs = put_def put_new_def drop_keys_def touch_def bump_def

lemma effect_frame [simp]:
  "k' \<noteq> k \<Longrightarrow> put t k v d m k' = m k'" "k' \<noteq> k \<Longrightarrow> put_new t k v d m k' = m k'"
  "k' \<notin> set ks \<Longrightarrow> drop_keys ks m k' = m k'" "k' \<noteq> k \<Longrightarrow> touch t k d m k' = m k'"
  "k' \<noteq> k \<Longrightarrow> bump n t k m k' = m k'"
  by (simp_all add: effect_defs)

section \<open>The laws\<close>

locale redis_server =
  fixes R :: "'r redis"
    and kv :: "'r \<Rightarrow> keys"
  assumes get_law: "redis_Get R t k r = Inr x \<Longrightarrow> x = live t (kv r k)"
    and exists_law: "redis_Exists R t k r = Inr b \<Longrightarrow> b = (live t (kv r k) \<noteq> None)"
    and set_law: "d \<noteq> - 1 \<Longrightarrow> redis_Set R t k v d r = (Inr u, r') \<Longrightarrow> kv r' = put t k v d (kv r)"
    and set_err: "d \<noteq> - 1 \<Longrightarrow> redis_Set R t k v d r = (Inl e, r') \<Longrightarrow> kv r' = kv r \<or> kv r' = put t k v d (kv r)"
    and setnx_law: "0 \<le> d \<Longrightarrow> redis_SetNX R t k v d r = (Inr b, r') \<Longrightarrow>
      b = (live t (kv r k) = None) \<and> kv r' = put_new t k v d (kv r)"
    and setnx_err: "0 \<le> d \<Longrightarrow> redis_SetNX R t k v d r = (Inl e, r') \<Longrightarrow>
      kv r' = kv r \<or> kv r' = put_new t k v d (kv r)"
    and del_law: "redis_Del R t ks r = (Inr u, r') \<Longrightarrow> kv r' = drop_keys ks (kv r)"
    and del_err: "redis_Del R t ks r = (Inl e, r') \<Longrightarrow> kv r' = kv r \<or> kv r' = drop_keys ks (kv r)"
    and expire_law: "0 < d \<Longrightarrow> redis_Expire R t k d r = (Inr b, r') \<Longrightarrow>
      b = (live t (kv r k) \<noteq> None) \<and> kv r' = touch t k d (kv r)"
    and expire_err: "0 < d \<Longrightarrow> redis_Expire R t k d r = (Inl e, r') \<Longrightarrow>
      kv r' = kv r \<or> kv r' = touch t k d (kv r)"
begin

text \<open>Whatever a command replies, the keys are as before or as its effect leaves them.\<close>

lemma set_cases: "d \<noteq> - 1 \<Longrightarrow> redis_Set R t k v d r = (x, r') \<Longrightarrow> kv r' = kv r \<or> kv r' = put t k v d (kv r)"
  by (cases x) (auto dest: set_law set_err)

lemma setnx_cases:
  "0 \<le> d \<Longrightarrow> redis_SetNX R t k v d r = (x, r') \<Longrightarrow> kv r' = kv r \<or> kv r' = put_new t k v d (kv r)"
  by (cases x) (auto dest: setnx_law setnx_err)

lemma del_cases: "redis_Del R t ks r = (x, r') \<Longrightarrow> kv r' = kv r \<or> kv r' = drop_keys ks (kv r)"
  by (cases x) (auto dest: del_law del_err)

lemma expire_cases:
  "0 < d \<Longrightarrow> redis_Expire R t k d r = (x, r') \<Longrightarrow> kv r' = kv r \<or> kv r' = touch t k d (kv r)"
  by (cases x) (auto dest: expire_law expire_err)

lemma set_frame: "d \<noteq> - 1 \<Longrightarrow> k' \<noteq> k \<Longrightarrow> kv (snd (redis_Set R t k v d r)) k' = kv r k'"
  using set_cases [of d t k v r] by (cases "redis_Set R t k v d r") auto

lemma setnx_frame: "0 \<le> d \<Longrightarrow> k' \<noteq> k \<Longrightarrow> kv (snd (redis_SetNX R t k v d r)) k' = kv r k'"
  using setnx_cases [of d t k v r] by (cases "redis_SetNX R t k v d r") auto

lemma del_frame: "k' \<notin> set ks \<Longrightarrow> kv (snd (redis_Del R t ks r)) k' = kv r k'"
  using del_cases [of t ks r] by (cases "redis_Del R t ks r") auto

lemma expire_frame: "0 < d \<Longrightarrow> k' \<noteq> k \<Longrightarrow> kv (snd (redis_Expire R t k d r)) k' = kv r k'"
  using expire_cases [of d t k r] by (cases "redis_Expire R t k d r") auto

lemma setnx_taken: "0 \<le> d \<Longrightarrow> live t (kv r k) = Some w \<Longrightarrow> redis_SetNX R t k v d r = (Inr b, r') \<Longrightarrow>
    \<not> b \<and> kv r' = kv r"
  using setnx_law by (fastforce simp: put_new_def)

lemma setnx_free: "0 \<le> d \<Longrightarrow> live t (kv r k) = None \<Longrightarrow> redis_SetNX R t k v d r = (Inr b, r') \<Longrightarrow>
    b \<and> kv r' k = Some (v, expiry t d)"
  using setnx_law by (fastforce simp: put_new_def put_def)

lemma setnx_wins: "0 \<le> d \<Longrightarrow> redis_SetNX R t k v d r = (Inr True, r') \<Longrightarrow>
    live t (kv r k) = None \<and> kv r' k = Some (v, expiry t d)"
  using setnx_law by (fastforce simp: put_new_def put_def)

lemma del_gone: "redis_Del R t ks r = (Inr u, r') \<Longrightarrow> k \<in> set ks \<Longrightarrow> kv r' k = None"
  by (simp add: del_law drop_keys_def)

end

text \<open>Counters: a missing key counts 0, and \<open>INCR\<close> and \<open>DECR\<close> keep the key's expiry.\<close>

locale redis_counters = redis_server R kv
  for R :: "'r redis" and kv :: "'r \<Rightarrow> keys" +
  assumes incr_law: "redis_Incr R t k r = (Inr n, r') \<Longrightarrow>
      n = counter t k (kv r) + 1 \<and> kv r' = bump 1 t k (kv r)"
    and decr_law: "redis_Decr R t k r = (Inr n, r') \<Longrightarrow>
      n = counter t k (kv r) - 1 \<and> kv r' = bump (- 1) t k (kv r)"
    and incr_err: "redis_Incr R t k r = (Inl e, r') \<Longrightarrow> kv r' = kv r \<or> kv r' = bump 1 t k (kv r)"
    and decr_err: "redis_Decr R t k r = (Inl e, r') \<Longrightarrow> kv r' = kv r \<or> kv r' = bump (- 1) t k (kv r)"

lemma counter_bump: "counter t k (bump d t k m) = counter t k m + d"
  by (auto simp: counter_def bump_def live_def read_show_int split: option.splits prod.splits if_splits)

lemma counter_frame [simp]: "k' \<noteq> k \<Longrightarrow> counter t k' (bump d t k m) = counter t k' m"
  by (simp add: counter_def)

lemma counter_touch [simp]: "0 < d \<Longrightarrow> counter t k' (touch t k d m) = counter t k' m"
  by (auto simp: counter_def touch_def live_def split: option.splits prod.splits if_splits)

section \<open>A server in memory\<close>

text \<open>A value that is not the decimal of an integer is an error, as in Redis.\<close>

definition mem_add :: "int \<Rightarrow> instant \<Rightarrow> string \<Rightarrow> keys \<Rightarrow> int result \<times> keys" where
  "mem_add d t k m =
     (case live t (m k) of
        None \<Rightarrow> (Inr d, bump d t k m)
      | Some v \<Rightarrow> (if show_int (read_int v) = v then (Inr (read_int v + d), bump d t k m)
                  else (Inl ''value is not an integer'', m)))"

definition mem_redis :: "keys redis" where
  "mem_redis =
     \<lparr>redis_Get = (\<lambda>t k m. Inr (live t (m k))),
      redis_Exists = (\<lambda>t k m. Inr (live t (m k) \<noteq> None)),
      redis_Set = (\<lambda>t k v d m. (Inr (), put t k v d m)),
      redis_SetNX = (\<lambda>t k v d m. (Inr (live t (m k) = None), put_new t k v d m)),
      redis_Del = (\<lambda>t ks m. (Inr (), drop_keys ks m)),
      redis_Expire = (\<lambda>t k d m. (Inr (live t (m k) \<noteq> None), touch t k d m)),
      redis_Incr = mem_add 1, redis_Decr = mem_add (- 1)\<rparr>"

lemma mem_redis_simps [simp]:
  "redis_Get mem_redis t k m = Inr (live t (m k))"
  "redis_Exists mem_redis t k m = Inr (live t (m k) \<noteq> None)"
  "redis_Set mem_redis t k v d m = (Inr (), put t k v d m)"
  "redis_SetNX mem_redis t k v d m = (Inr (live t (m k) = None), put_new t k v d m)"
  "redis_Del mem_redis t ks m = (Inr (), drop_keys ks m)"
  "redis_Expire mem_redis t k d m = (Inr (live t (m k) \<noteq> None), touch t k d m)"
  "redis_Incr mem_redis = mem_add 1" "redis_Decr mem_redis = mem_add (- 1)"
  by (simp_all add: mem_redis_def)

interpretation memory: redis_server mem_redis "\<lambda>m. m"
  by unfold_locales auto

interpretation memory_counters: redis_counters mem_redis "\<lambda>m. m"
  by unfold_locales (auto simp: mem_add_def counter_def split: option.splits if_splits)

text \<open>A server on which no call fails.\<close>

definition redis_up :: "'r redis \<Rightarrow> bool" where
  "redis_up R \<longleftrightarrow> (\<forall>t k v d ks r e.
     redis_Get R t k r \<noteq> Inl e \<and> redis_Exists R t k r \<noteq> Inl e \<and> fst (redis_Set R t k v d r) \<noteq> Inl e \<and>
     fst (redis_SetNX R t k v d r) \<noteq> Inl e \<and> fst (redis_Del R t ks r) \<noteq> Inl e \<and>
     fst (redis_Expire R t k d r) \<noteq> Inl e)"

lemma not_Inl: "(\<And>e. x \<noteq> Inl e) \<Longrightarrow> \<exists>y. x = Inr y"
  by (cases x) auto

lemma pair_Inr: "(\<And>e. fst x \<noteq> Inl e) \<Longrightarrow> \<exists>y z. x = (Inr y, z)"
  using not_Inl [of "fst x"] by (cases x) auto

lemma up_Get: "redis_up R \<Longrightarrow> \<exists>x. redis_Get R t k r = Inr x"
  by (rule not_Inl) (simp add: redis_up_def)

lemma up_Exists: "redis_up R \<Longrightarrow> \<exists>x. redis_Exists R t k r = Inr x"
  by (rule not_Inl) (simp add: redis_up_def)

lemma up_Set: "redis_up R \<Longrightarrow> \<exists>u r'. redis_Set R t k v d r = (Inr u, r')"
  by (rule pair_Inr) (simp add: redis_up_def)

lemma up_SetNX: "redis_up R \<Longrightarrow> \<exists>b r'. redis_SetNX R t k v d r = (Inr b, r')"
  by (rule pair_Inr) (simp add: redis_up_def)

lemma up_Del: "redis_up R \<Longrightarrow> \<exists>u r'. redis_Del R t ks r = (Inr u, r')"
  by (rule pair_Inr) (simp add: redis_up_def)

lemma up_Expire: "redis_up R \<Longrightarrow> \<exists>b r'. redis_Expire R t k d r = (Inr b, r')"
  by (rule pair_Inr) (simp add: redis_up_def)

lemma mem_redis_up: "redis_up mem_redis"
  by (simp add: redis_up_def)

lemmas mem_server = memory.redis_server_axioms
lemmas mem_counters = memory_counters.redis_counters_axioms

end
