(* ===== verification/Election.thy ===== *)
theory Election
  imports Redis_Server
begin

text \<open>
  Leader election (scheduler/pkg/election/leader.go) and the generic Redis lock
  (scheduler/pkg/lock/redis_lock.go). A node is the record of \<open>LeaderElection\<close> together with the
  loop variable of \<open>watch\<close>, the callbacks it has invoked, and the places where its two goroutines are, \<open>watch\<close> and a
  caller of \<open>Stop\<close>: every Redis command is a step of its own, and so is every section under the mutex
  without one. A cluster is a list of nodes over one Redis. The theory shows that two nodes are never both leaders within
  their leases in runs in which no key expires between a \<open>GET\<close> and the \<open>EXPIRE\<close> or \<open>DEL\<close> that rests on it, that without this
  condition there can be two, and when a leader that stops frees the key.
\<close>

section \<open>A node\<close>

datatype callback = OnAcquire | OnRelease

text \<open>Where \<open>watch\<close> is: before its next tick, before the \<open>GET\<close> or \<open>EXPIRE\<close> of a tick, before \<open>stepDown\<close> takes the mutex, in it
  before its \<open>GET\<close> or \<open>DEL\<close>, before \<open>SETNX\<close>, and behind a \<open>SETNX\<close> that succeeded. The flag tells whether \<open>tryAcquire\<close>
  follows. A caller of \<open>Stop\<close> is outside of \<open>stepDown\<close> or before one of its commands.\<close>

datatype watch_place = W_idle | W_check | W_expire | W_lock bool | W_get bool | W_del bool | W_setnx | W_won
datatype stop_place = S_none | S_get | S_del

record node =
  leaderKey :: string
  nodeID :: string
  httpAddr :: string
  node_ttl :: duration
  isLeader :: bool
  hasOnAcquire :: bool
  hasOnRelease :: bool
  failures :: nat           \<comment> \<open>\<open>consecutiveFailures\<close> of \<open>watch\<close>\<close>
  invoked :: "callback list"
  w_place :: watch_place
  s_place :: stop_place
  claimed :: instant        \<comment> \<open>ghost: the last successful \<open>SETNX\<close> or \<open>EXPIRE\<close>\<close>
  w_seen :: "entry option"  \<comment> \<open>ghost: the key at the last \<open>GET\<close> of \<open>watch\<close>\<close>
  s_seen :: "entry option"  \<comment> \<open>ghost: the key at the \<open>GET\<close> of \<open>Stop\<close>\<close>

definition NewLeaderElection :: "string \<Rightarrow> string \<Rightarrow> string \<Rightarrow> duration \<Rightarrow> node" where
  "NewLeaderElection key nid addr ttl =
     \<lparr>leaderKey = key, nodeID = nid, httpAddr = addr, node_ttl = ttl, isLeader = False,
      hasOnAcquire = False, hasOnRelease = False, failures = 0, invoked = [], w_place = W_idle, s_place = S_none,
      claimed = 0, w_seen = None, s_seen = None\<rparr>"

definition setOnAcquire :: "node \<Rightarrow> node" where
  "setOnAcquire n = n\<lparr>hasOnAcquire := True\<rparr>"

definition setOnRelease :: "node \<Rightarrow> node" where
  "setOnRelease n = n\<lparr>hasOnRelease := True\<rparr>"

definition leader_value :: "node \<Rightarrow> string" where
  "leader_value n = (if httpAddr n \<noteq> [] then nodeID n @ ''|'' @ httpAddr n else nodeID n)"

text \<open>\<open>tryAcquire\<close>: the command, and what follows a success under the mutex.\<close>

definition tryAcquire :: "'r redis \<Rightarrow> instant \<Rightarrow> node \<Rightarrow> 'r \<Rightarrow> node \<times> 'r" where
  "tryAcquire R t n r =
     (case redis_SetNX R t (leaderKey n) (leader_value n) (node_ttl n) r of
        (Inl e, r') \<Rightarrow> (n\<lparr>failures := 0, w_place := W_idle\<rparr>, r')
      | (Inr ok, r') \<Rightarrow>
          (if ok then (n\<lparr>claimed := t, w_place := W_won\<rparr>, r')
           else (n\<lparr>failures := 0, w_place := W_idle\<rparr>, r')))"

definition become_leader :: "node \<Rightarrow> node" where
  "become_leader n =
     (if isLeader n then n
      else n\<lparr>isLeader := True, invoked := invoked n @ (if hasOnAcquire n then [OnAcquire] else [])\<rparr>)
     \<lparr>failures := 0, w_place := W_idle\<rparr>"

definition has_prefix :: "string \<Rightarrow> string \<Rightarrow> bool" where
  "has_prefix p s \<longleftrightarrow> take (length p) s = p"

text \<open>Whether the value of the key is this node's.\<close>

definition mine :: "node \<Rightarrow> string \<Rightarrow> bool" where
  "mine n h \<longleftrightarrow> h = nodeID n \<or> has_prefix (nodeID n @ ''|'') h"

definition maxFailures :: nat where "maxFailures = 3"

text \<open>A failed check or extension: the third in a row makes the node step down.\<close>

definition count_failure :: "node \<Rightarrow> node" where
  "count_failure n =
     (let f = failures n + 1
      in n\<lparr>failures := f, w_place := (if f \<ge> maxFailures then W_lock False else W_idle)\<rparr>)"

text \<open>A tick of \<open>watch\<close> reads the flag under the mutex, and goes on with one command after the other.\<close>

definition watch_tick :: "node \<Rightarrow> node" where
  "watch_tick n = n\<lparr>w_place := (if isLeader n then W_check else W_setnx)\<rparr>"

definition watch_check :: "'r redis \<Rightarrow> instant \<Rightarrow> node \<Rightarrow> 'r \<Rightarrow> node" where
  "watch_check R t n r =
     (case redis_Get R t (leaderKey n) r of
        Inr None \<Rightarrow> n\<lparr>w_place := W_lock True\<rparr>
      | Inl e \<Rightarrow> count_failure n
      | Inr (Some h) \<Rightarrow> n\<lparr>w_place := (if mine n h then W_expire else W_lock False)\<rparr>)"

definition watch_expire :: "'r redis \<Rightarrow> instant \<Rightarrow> node \<Rightarrow> 'r \<Rightarrow> node \<times> 'r" where
  "watch_expire R t n r =
     (case redis_Expire R t (leaderKey n) (node_ttl n) r of
        (Inl e, r1) \<Rightarrow> (count_failure n, r1)
      | (Inr b, r1) \<Rightarrow> (n\<lparr>failures := 0, claimed := (if b then t else claimed n), w_place := W_idle\<rparr>, r1))"

text \<open>\<open>stepDown\<close>, which holds the mutex: the flag, the \<open>GET\<close>, the \<open>DEL\<close> if the key has the bare name of the node, and
  the callback.\<close>

definition owns_name :: "'r redis \<Rightarrow> instant \<Rightarrow> node \<Rightarrow> 'r \<Rightarrow> bool" where
  "owns_name R t n r = (redis_Get R t (leaderKey n) r = Inr (Some (nodeID n)))"

definition delete_key :: "'r redis \<Rightarrow> instant \<Rightarrow> node \<Rightarrow> 'r \<Rightarrow> 'r" where
  "delete_key R t n r = snd (redis_Del R t [leaderKey n] r)"

definition released :: "node \<Rightarrow> node" where
  "released n = n\<lparr>invoked := invoked n @ (if hasOnRelease n then [OnRelease] else [])\<rparr>"

definition watch_after :: "bool \<Rightarrow> node \<Rightarrow> node" where
  "watch_after again n = n\<lparr>failures := 0, w_place := (if again then W_setnx else W_idle)\<rparr>"

definition watch_down :: "bool \<Rightarrow> node \<Rightarrow> node" where
  "watch_down again n = (if isLeader n then n\<lparr>isLeader := False, w_place := W_get again\<rparr> else watch_after again n)"

definition watch_down_get :: "'r redis \<Rightarrow> bool \<Rightarrow> instant \<Rightarrow> node \<Rightarrow> 'r \<Rightarrow> node" where
  "watch_down_get R again t n r =
     (if owns_name R t n r then n\<lparr>w_place := W_del again\<rparr> else watch_after again (released n))"

definition watch_down_del :: "'r redis \<Rightarrow> bool \<Rightarrow> instant \<Rightarrow> node \<Rightarrow> 'r \<Rightarrow> node \<times> 'r" where
  "watch_down_del R again t n r = (watch_after again (released n), delete_key R t n r)"

text \<open>\<open>Stop\<close> does the same from another goroutine.\<close>

definition stop_down :: "node \<Rightarrow> node" where
  "stop_down n = (if isLeader n then n\<lparr>isLeader := False, s_place := S_get\<rparr> else n)"

definition stop_get :: "'r redis \<Rightarrow> instant \<Rightarrow> node \<Rightarrow> 'r \<Rightarrow> node" where
  "stop_get R t n r = (if owns_name R t n r then n\<lparr>s_place := S_del\<rparr> else (released n)\<lparr>s_place := S_none\<rparr>)"

definition stop_del :: "'r redis \<Rightarrow> instant \<Rightarrow> node \<Rightarrow> 'r \<Rightarrow> node \<times> 'r" where
  "stop_del R t n r = ((released n)\<lparr>s_place := S_none\<rparr>, delete_key R t n r)"

text \<open>A \<open>Stop\<close> that nothing interrupts.\<close>

definition election_Stop :: "'r redis \<Rightarrow> instant \<Rightarrow> node \<Rightarrow> 'r \<Rightarrow> node \<times> 'r" where
  "election_Stop R t n r =
     (let n1 = stop_down n
      in if s_place n1 = S_none then (n1, r)
         else (let n2 = stop_get R t n1 r in if s_place n2 = S_none then (n2, r) else stop_del R t n2 r))"

definition IsLeader :: "node \<Rightarrow> bool" where
  "IsLeader n = isLeader n"

definition GetNodeID :: "node \<Rightarrow> string" where
  "GetNodeID n = nodeID n"

text \<open>\<open>strings.Index(value, "|")\<close>: what stands before the first bar, and after it.\<close>

definition before_bar :: "string \<Rightarrow> string" where
  "before_bar v = takeWhile (\<lambda>c. c \<noteq> CHR ''|'') v"

definition after_bar :: "string \<Rightarrow> string" where
  "after_bar v = tl (dropWhile (\<lambda>c. c \<noteq> CHR ''|'') v)"

definition redis_value :: "'r redis \<Rightarrow> instant \<Rightarrow> string \<Rightarrow> 'r \<Rightarrow> string result" where
  "redis_value R t k r =
     rbind (redis_Get R t k r) (\<lambda>v. case v of None \<Rightarrow> Inl ''redis: nil'' | Some s \<Rightarrow> Inr s)"

definition GetLeaderHTTPAddr :: "'r redis \<Rightarrow> instant \<Rightarrow> node \<Rightarrow> 'r \<Rightarrow> string result" where
  "GetLeaderHTTPAddr R t n r =
     rbind (redis_value R t (leaderKey n) r)
       (\<lambda>v. Inr (if CHR ''|'' \<in> set v then after_bar v else []))"

definition GetLeaderInfo :: "'r redis \<Rightarrow> instant \<Rightarrow> node \<Rightarrow> 'r \<Rightarrow> (string \<times> string) result" where
  "GetLeaderInfo R t n r =
     rbind (redis_value R t (leaderKey n) r)
       (\<lambda>v. Inr (if CHR ''|'' \<in> set v then (before_bar v, after_bar v) else (v, [])))"

section \<open>The generic lock\<close>

definition lock_prefix :: string where "lock_prefix = ''bdopsflow:lock:''"

definition TryLock ::
  "'r redis \<Rightarrow> instant \<Rightarrow> string \<Rightarrow> duration \<Rightarrow> 'r \<Rightarrow> bool result \<times> 'r" where
  "TryLock R t key ttl r =
     (case redis_SetNX R t (lock_prefix @ key) ''1'' ttl r of
        (Inl e, r') \<Rightarrow> (Inl (''try lock failed: '' @ e), r')
      | (Inr ok, r') \<Rightarrow> (Inr ok, r'))"

definition Unlock :: "'r redis \<Rightarrow> instant \<Rightarrow> string \<Rightarrow> 'r \<Rightarrow> unit result \<times> 'r" where
  "Unlock R t key r =
     (case redis_Del R t [lock_prefix @ key] r of
        (Inl e, r') \<Rightarrow> (Inl (''unlock failed: '' @ e), r')
      | (Inr u, r') \<Rightarrow> (Inr (), r'))"

definition KeepAlive ::
  "'r redis \<Rightarrow> instant \<Rightarrow> string \<Rightarrow> duration \<Rightarrow> 'r \<Rightarrow> unit result \<times> 'r" where
  "KeepAlive R t key ttl r =
     (case redis_Expire R t (lock_prefix @ key) ttl r of
        (Inl e, r') \<Rightarrow> (Inl (''keep alive failed: '' @ e), r')
      | (Inr b, r') \<Rightarrow> (Inr (), r'))"

section \<open>A cluster\<close>

record 'r cluster =
  nodes :: "node list"
  store :: 'r
  clock :: instant

text \<open>A step of node \<open>i\<close>; \<open>f\<close> gets the time and the store.\<close>

definition by_node ::
  "(instant \<Rightarrow> node \<Rightarrow> 'r \<Rightarrow> node \<times> 'r) \<Rightarrow> nat \<Rightarrow> 'r cluster \<Rightarrow> 'r cluster" where
  "by_node f i c =
     (let (n, r) = f (clock c) (nodes c ! i) (store c)
      in c\<lparr>nodes := (nodes c)[i := n], store := r\<rparr>)"

text \<open>A step that only reads the store, with the ghost that remembers what was there.\<close>

definition reading_w :: "('r \<Rightarrow> keys) \<Rightarrow> (instant \<Rightarrow> node \<Rightarrow> 'r \<Rightarrow> node) \<Rightarrow> instant \<Rightarrow> node \<Rightarrow> 'r \<Rightarrow> node \<times> 'r" where
  "reading_w kv f t n r = ((f t n r)\<lparr>w_seen := kv r (leaderKey n)\<rparr>, r)"

definition reading_s :: "('r \<Rightarrow> keys) \<Rightarrow> (instant \<Rightarrow> node \<Rightarrow> 'r \<Rightarrow> node) \<Rightarrow> instant \<Rightarrow> node \<Rightarrow> 'r \<Rightarrow> node \<times> 'r" where
  "reading_s kv f t n r = ((f t n r)\<lparr>s_seen := kv r (leaderKey n)\<rparr>, r)"

definition local_step :: "(node \<Rightarrow> node) \<Rightarrow> instant \<Rightarrow> node \<Rightarrow> 'r \<Rightarrow> node \<times> 'r" where
  "local_step f t n r = (f n, r)"

text \<open>The mutex is held by whoever is in \<open>stepDown\<close>.\<close>

definition watch_unlocked :: "node \<Rightarrow> bool" where
  "watch_unlocked n \<longleftrightarrow> w_place n \<notin> {W_get True, W_get False, W_del True, W_del False}"

text \<open>The key that was seen has not run out.\<close>

definition in_time :: "bool \<Rightarrow> instant \<Rightarrow> entry option \<Rightarrow> bool" where
  "in_time prompt t e \<longleftrightarrow> (prompt \<longrightarrow> live t e \<noteq> None)"

text \<open>The steps of a cluster. With \<open>prompt\<close> no key runs out between a \<open>GET\<close> and the \<open>EXPIRE\<close> or \<open>DEL\<close> that follows it. The
  first attempt of \<open>Start\<close> is that of a tick of a node that does not lead.\<close>

inductive election_step :: "'r redis \<Rightarrow> ('r \<Rightarrow> keys) \<Rightarrow> bool \<Rightarrow> 'r cluster \<Rightarrow> 'r cluster \<Rightarrow> bool" for R kv prompt where
  advance: "clock c \<le> t \<Longrightarrow> election_step R kv prompt c (c\<lparr>clock := t\<rparr>)"
| tick: "i < length (nodes c) \<Longrightarrow> w_place (nodes c ! i) = W_idle \<Longrightarrow> s_place (nodes c ! i) = S_none \<Longrightarrow>
    election_step R kv prompt c (by_node (local_step watch_tick) i c)"
| check: "i < length (nodes c) \<Longrightarrow> w_place (nodes c ! i) = W_check \<Longrightarrow>
    election_step R kv prompt c (by_node (reading_w kv (watch_check R)) i c)"
| extend: "i < length (nodes c) \<Longrightarrow> w_place (nodes c ! i) = W_expire \<Longrightarrow> in_time prompt (clock c) (w_seen (nodes c ! i)) \<Longrightarrow>
    election_step R kv prompt c (by_node (watch_expire R) i c)"
| down: "i < length (nodes c) \<Longrightarrow> w_place (nodes c ! i) = W_lock again \<Longrightarrow> s_place (nodes c ! i) = S_none \<Longrightarrow>
    election_step R kv prompt c (by_node (local_step (watch_down again)) i c)"
| down_get: "i < length (nodes c) \<Longrightarrow> w_place (nodes c ! i) = W_get again \<Longrightarrow>
    election_step R kv prompt c (by_node (reading_w kv (watch_down_get R again)) i c)"
| down_del: "i < length (nodes c) \<Longrightarrow> w_place (nodes c ! i) = W_del again \<Longrightarrow> in_time prompt (clock c) (w_seen (nodes c ! i)) \<Longrightarrow>
    election_step R kv prompt c (by_node (watch_down_del R again) i c)"
| attempt: "i < length (nodes c) \<Longrightarrow> w_place (nodes c ! i) = W_setnx \<Longrightarrow>
    election_step R kv prompt c (by_node (tryAcquire R) i c)"
| won: "i < length (nodes c) \<Longrightarrow> w_place (nodes c ! i) = W_won \<Longrightarrow> s_place (nodes c ! i) = S_none \<Longrightarrow>
    election_step R kv prompt c (by_node (local_step become_leader) i c)"
| stop: "i < length (nodes c) \<Longrightarrow> watch_unlocked (nodes c ! i) \<Longrightarrow> s_place (nodes c ! i) = S_none \<Longrightarrow>
    election_step R kv prompt c (by_node (local_step stop_down) i c)"
| stop_reads: "i < length (nodes c) \<Longrightarrow> s_place (nodes c ! i) = S_get \<Longrightarrow>
    election_step R kv prompt c (by_node (reading_s kv (stop_get R)) i c)"
| stop_deletes: "i < length (nodes c) \<Longrightarrow> s_place (nodes c ! i) = S_del \<Longrightarrow> in_time prompt (clock c) (s_seen (nodes c ! i)) \<Longrightarrow>
    election_step R kv prompt c (by_node (stop_del R) i c)"

text \<open>A well-configured cluster: one key, one positive lease, distinct names without a bar.\<close>

definition well_configured :: "string \<Rightarrow> duration \<Rightarrow> node list \<Rightarrow> bool" where
  "well_configured k T ns \<longleftrightarrow> 0 < T \<and> distinct (map nodeID ns) \<and>
     (\<forall>n\<in>set ns. leaderKey n = k \<and> node_ttl n = T \<and> CHR ''|'' \<notin> set (nodeID n))"

text \<open>The key expires within a lease, whoever wrote it.\<close>

definition bounded :: "duration \<Rightarrow> instant \<Rightarrow> entry option \<Rightarrow> bool" where
  "bounded T t e \<longleftrightarrow> (\<forall>h x. e = Some (h, x) \<longrightarrow> (\<exists>u. x = Some u \<and> u \<le> t + T))"

definition fresh_cluster :: "('r \<Rightarrow> keys) \<Rightarrow> string \<Rightarrow> duration \<Rightarrow> 'r cluster \<Rightarrow> bool" where
  "fresh_cluster kv k T c \<longleftrightarrow> well_configured k T (nodes c) \<and> bounded T (clock c) (kv (store c) k) \<and>
     (\<forall>n\<in>set (nodes c). \<not> isLeader n \<and> w_place n = W_idle \<and> s_place n = S_none)"

text \<open>A leader is within its lease until its last successful claim runs out.\<close>

definition in_lease :: "instant \<Rightarrow> node \<Rightarrow> bool" where
  "in_lease t n \<longleftrightarrow> isLeader n \<and> t < claimed n + node_ttl n"

text \<open>The key \<open>e\<close> is node \<open>n\<close>'s at least as long as the key \<open>e0\<close> that it saw.\<close>

definition still_mine :: "instant \<Rightarrow> entry option \<Rightarrow> entry option \<Rightarrow> node \<Rightarrow> bool" where
  "still_mine t e0 e n \<longleftrightarrow> (live t e0 \<noteq> None \<longrightarrow>
     (\<exists>h0 x0 h x. e0 = Some (h0, Some x0) \<and> e = Some (h, Some x) \<and> mine n h \<and> x0 \<le> x))"

text \<open>What one node guarantees of the key \<open>e\<close> at instant \<open>t\<close>.\<close>

definition claim_ok :: "instant \<Rightarrow> entry option \<Rightarrow> node \<Rightarrow> bool" where
  "claim_ok t e n \<longleftrightarrow> ((isLeader n \<or> w_place n = W_won) \<and> t < claimed n + node_ttl n \<longrightarrow>
     (\<exists>h x. e = Some (h, Some x) \<and> mine n h \<and> claimed n + node_ttl n \<le> x))"

definition places_ok :: "node \<Rightarrow> bool" where
  "places_ok n \<longleftrightarrow>
     (isLeader n \<or> s_place n \<noteq> S_none \<longrightarrow> w_place n \<in> {W_idle, W_check, W_expire, W_lock True, W_lock False}) \<and>
     (s_place n \<noteq> S_none \<longrightarrow> \<not> isLeader n)"

definition node_ok :: "instant \<Rightarrow> entry option \<Rightarrow> node \<Rightarrow> bool" where
  "node_ok t e n \<longleftrightarrow> claim_ok t e n \<and> places_ok n \<and>
     (w_place n = W_expire \<and> isLeader n \<or> w_place n \<in> {W_del True, W_del False} \<longrightarrow> still_mine t (w_seen n) e n) \<and>
     (s_place n = S_del \<longrightarrow> still_mine t (s_seen n) e n)"

definition cluster_inv :: "('r \<Rightarrow> keys) \<Rightarrow> string \<Rightarrow> duration \<Rightarrow> 'r cluster \<Rightarrow> bool" where
  "cluster_inv kv k T c \<longleftrightarrow> well_configured k T (nodes c) \<and> bounded T (clock c) (kv (store c) k) \<and>
     (\<forall>n\<in>set (nodes c). node_ok (clock c) (kv (store c) k) n)"

section \<open>Names\<close>

lemma has_prefix_append: "has_prefix p s \<longleftrightarrow> (\<exists>u. s = p @ u)"
  by (metis append_eq_conv_conj append_take_drop_id has_prefix_def)

lemma before_bar_append: "CHR ''|'' \<notin> set n \<Longrightarrow> before_bar (n @ CHR ''|'' # u) = n"
  by (auto simp: before_bar_def takeWhile_append)

lemma after_bar_append: "CHR ''|'' \<notin> set n \<Longrightarrow> after_bar (n @ CHR ''|'' # u) = u"
  by (auto simp: after_bar_def dropWhile_append)

lemma before_bar_id: "CHR ''|'' \<notin> set n \<Longrightarrow> before_bar n = n"
  by (auto simp: before_bar_def takeWhile_eq_all_conv)

lemma mine_name: "CHR ''|'' \<notin> set (nodeID n) \<Longrightarrow> mine n h \<Longrightarrow> before_bar h = nodeID n"
  by (auto simp: mine_def has_prefix_append before_bar_append before_bar_id)

lemma mine_value: "mine n (leader_value n)"
  by (simp add: mine_def leader_value_def has_prefix_def)

text \<open>The value a leader writes reads back as its name and its address.\<close>

theorem leader_info_roundtrip:
  assumes "redis_server R kv" and "CHR ''|'' \<notin> set (nodeID n)"
    and "live t (kv r (leaderKey m)) = Some (leader_value n)" and "GetLeaderInfo R t m r = Inr info"
  shows "info = (nodeID n, httpAddr n)"
proof -
  obtain v where v: "redis_Get R t (leaderKey m) r = Inr (Some v)"
      "info = (if CHR ''|'' \<in> set v then (before_bar v, after_bar v) else (v, []))"
    using assms(4) by (auto simp: GetLeaderInfo_def redis_value_def split: option.splits)
  have "v = leader_value n" using redis_server.get_law [OF assms(1) v(1)] assms(3) by simp
  then show ?thesis
    using v(2) assms(2) by (auto simp: leader_value_def before_bar_append after_bar_append)
qed

section \<open>Leases\<close>

definition same_node :: "node \<Rightarrow> node \<Rightarrow> bool" where
  "same_node n n' \<longleftrightarrow> nodeID n' = nodeID n \<and> leaderKey n' = leaderKey n \<and>
     node_ttl n' = node_ttl n \<and> httpAddr n' = httpAddr n"

lemma mine_updates [simp]:
  "mine (n\<lparr>isLeader := v0\<rparr>) = mine n"
  "mine (n\<lparr>failures := v1\<rparr>) = mine n"
  "mine (n\<lparr>invoked := v2\<rparr>) = mine n"
  "mine (n\<lparr>w_place := v3\<rparr>) = mine n"
  "mine (n\<lparr>s_place := v4\<rparr>) = mine n"
  "mine (n\<lparr>claimed := v5\<rparr>) = mine n"
  "mine (n\<lparr>w_seen := v6\<rparr>) = mine n"
  "mine (n\<lparr>s_seen := v7\<rparr>) = mine n"
  by (simp_all add: mine_def fun_eq_iff)

lemma still_mine_updates [simp]:
  "still_mine t a e (n\<lparr>isLeader := v0\<rparr>) = still_mine t a e n"
  "still_mine t a e (n\<lparr>failures := v1\<rparr>) = still_mine t a e n"
  "still_mine t a e (n\<lparr>invoked := v2\<rparr>) = still_mine t a e n"
  "still_mine t a e (n\<lparr>w_place := v3\<rparr>) = still_mine t a e n"
  "still_mine t a e (n\<lparr>s_place := v4\<rparr>) = still_mine t a e n"
  "still_mine t a e (n\<lparr>claimed := v5\<rparr>) = still_mine t a e n"
  "still_mine t a e (n\<lparr>w_seen := v6\<rparr>) = still_mine t a e n"
  "still_mine t a e (n\<lparr>s_seen := v7\<rparr>) = still_mine t a e n"
  by (simp_all add: still_mine_def)

lemma same_node_refl [simp]: "same_node n n"
  by (simp add: same_node_def)

lemma live_Some: "live t e = Some h \<Longrightarrow> \<exists>x. e = Some (h, x)"
  by (auto simp: live_def split: option.splits if_splits)

text \<open>A key that is not the node's, or has run out, binds the node to nothing.\<close>

lemma foreign_key:
  assumes "\<And>h x. e = Some (h, Some x) \<Longrightarrow> t < x \<Longrightarrow> \<not> mine m h" "node_ok t e m"
  shows "node_ok t e' m"
proof -
  have "\<not> ((isLeader m \<or> w_place m = W_won) \<and> t < claimed m + node_ttl m)"
    using assms by (fastforce simp: node_ok_def claim_ok_def)
  then have "claim_ok t e' m" by (auto simp: claim_ok_def)
  moreover have "still_mine t e0 e' m" if "still_mine t e0 e m" for e0
  proof -
    have "live t e0 = None" using that assms(1) by (fastforce simp: still_mine_def split: if_splits)
    then show ?thesis by (simp add: still_mine_def)
  qed
  ultimately show ?thesis using assms(2) unfolding node_ok_def by blast
qed

lemma dead_key: "live t e = None \<Longrightarrow> node_ok t e m \<Longrightarrow> node_ok t e' m"
  by (rule foreign_key) auto

lemma other_key:
  assumes "live t e = Some h" "mine n h" "nodeID m \<noteq> nodeID n" "CHR ''|'' \<notin> set (nodeID m)" "CHR ''|'' \<notin> set (nodeID n)"
    and "node_ok t e m"
  shows "node_ok t e' m"
  using assms mine_name [of m h] mine_name [of n h] by (intro foreign_key [of e t m e']) (auto split: if_splits)

lemma longer_key: "x \<le> y \<Longrightarrow> node_ok t (Some (h, Some x)) m \<Longrightarrow> node_ok t (Some (h, Some y)) m"
  by (auto simp: node_ok_def claim_ok_def still_mine_def)

lemma touched_key:
  assumes "bounded T t (kv k)" "node_ok t (kv k) m"
  shows "node_ok t (touch t k T kv k) m"
proof (cases "live t (kv k)")
  case (Some h)
  then obtain x where "kv k = Some (h, Some x)" "x \<le> t + T"
    using assms(1) live_Some [OF Some] by (auto simp: bounded_def)
  then show ?thesis using Some assms(2) longer_key by (simp add: touch_def)
qed (use assms in \<open>simp add: touch_def\<close>)

lemma touched_bounded: "0 < T \<Longrightarrow> bounded T t (kv k) \<Longrightarrow> bounded T t (touch t k T kv k)"
  by (auto simp: touch_def bounded_def)

lemma later_ok:
  assumes "t \<le> u" "node_ok t e n"
  shows "node_ok u e n"
proof -
  have "still_mine u e0 e n" if "still_mine t e0 e n" for e0
    using that live_mono [OF assms(1), of e0] unfolding still_mine_def by fast
  moreover have "claim_ok u e n" using assms by (auto simp: node_ok_def claim_ok_def)
  ultimately show ?thesis using assms(2) unfolding node_ok_def by blast
qed

text \<open>An operation of one node keeps its own guarantee and everybody else's.\<close>

definition keeps :: "('r \<Rightarrow> keys) \<Rightarrow> duration \<Rightarrow> instant \<Rightarrow> node \<Rightarrow> 'r \<Rightarrow> node \<times> 'r \<Rightarrow> bool" where
  "keeps kv T t n r = (\<lambda>(n', r'). same_node n n' \<and>
     (bounded T t (kv r (leaderKey n)) \<and> node_ok t (kv r (leaderKey n)) n \<longrightarrow>
        bounded T t (kv r' (leaderKey n)) \<and> node_ok t (kv r' (leaderKey n)) n' \<and>
        (\<forall>m. nodeID m \<noteq> nodeID n \<longrightarrow> CHR ''|'' \<notin> set (nodeID m) \<longrightarrow>
           node_ok t (kv r (leaderKey n)) m \<longrightarrow> node_ok t (kv r' (leaderKey n)) m)))"

lemma keeps_local: "same_node n n' \<Longrightarrow>
    (bounded T t (kv r (leaderKey n)) \<Longrightarrow> node_ok t (kv r (leaderKey n)) n \<Longrightarrow> node_ok t (kv r (leaderKey n)) n') \<Longrightarrow> keeps kv T t n r (n', r)"
  by (simp add: keeps_def)

lemmas node_defs = node_ok_def claim_ok_def places_ok_def same_node_def

lemma local_keeps:
  "w_place n = W_idle \<Longrightarrow> s_place n = S_none \<Longrightarrow> keeps kv T t n r (local_step watch_tick t n r)"
  "w_place n = W_lock again \<Longrightarrow> s_place n = S_none \<Longrightarrow> keeps kv T t n r (local_step (watch_down again) t n r)"
  "w_place n = W_won \<Longrightarrow> s_place n = S_none \<Longrightarrow> keeps kv T t n r (local_step become_leader t n r)"
  "s_place n = S_none \<Longrightarrow> keeps kv T t n r (local_step stop_down t n r)"
  unfolding local_step_def
  by (rule keeps_local;
      auto simp: node_defs watch_tick_def watch_down_def watch_after_def become_leader_def stop_down_def)+

lemma count_failure_ok:
  "w_place n \<in> {W_check, W_expire} \<Longrightarrow> node_ok t e n \<Longrightarrow> node_ok t e (count_failure n)" "same_node n (count_failure n)"
  by (auto simp: node_defs count_failure_def Let_def)

lemma seen_key:
  assumes "bounded T t e" "live t e = Some h" "mine n h"
  shows "still_mine t e e n"
  using assms live_Some [OF assms(2)] by (auto simp: still_mine_def bounded_def)

lemma still_mine_live: "still_mine t e0 e n \<Longrightarrow> live t e0 \<noteq> None \<Longrightarrow> \<exists>h x. e = Some (h, Some x) \<and> t < x \<and> mine n h"
  by (fastforce simp: still_mine_def split: if_splits)

context redis_server
begin

lemma check_keeps:
  assumes "w_place n = W_check"
  shows "keeps kv T t n r (reading_w kv (watch_check R) t n r)"
  unfolding reading_w_def
proof (rule keeps_local)
  let ?e = "kv r (leaderKey n)" and ?n = "(watch_check R t n r)\<lparr>w_seen := kv r (leaderKey n)\<rparr>"
  show "same_node n ?n"
    by (simp add: watch_check_def same_node_def count_failure_def Let_def split: sum.splits option.splits)
  assume b: "bounded T t ?e" and ok: "node_ok t ?e n"
  show "node_ok t ?e ?n"
  proof (cases "redis_Get R t (leaderKey n) r")
    case (Inl e)
    then show ?thesis using assms ok by (auto simp: watch_check_def node_defs count_failure_def Let_def)
  next
    case (Inr v)
    show ?thesis
    proof (cases "\<exists>h. v = Some h \<and> mine n h")
      case True
      then obtain h where h: "v = Some h" "mine n h" by blast
      then have "still_mine t ?e ?e n" using seen_key [OF b] get_law [OF Inr] by simp
      then show ?thesis using assms ok Inr h by (auto simp: watch_check_def node_defs)
    next
      case False
      then show ?thesis using assms ok Inr by (auto simp: watch_check_def node_defs split: option.splits)
    qed
  qed
qed

lemma owns_name_key: "owns_name R t n r \<Longrightarrow> live t (kv r (leaderKey n)) = Some (nodeID n)"
  unfolding owns_name_def by (drule get_law) simp

lemma reads_keep:
  shows "w_place n = W_get again \<Longrightarrow> keeps kv T t n r (reading_w kv (watch_down_get R again) t n r)"
    and "s_place n = S_get \<Longrightarrow> keeps kv T t n r (reading_s kv (stop_get R) t n r)"
proof -
  have seen: "still_mine t (kv r (leaderKey n)) (kv r (leaderKey n)) n" if "owns_name R t n r" "bounded T t (kv r (leaderKey n))"
    using seen_key [OF that(2) owns_name_key [OF that(1)]] by (simp add: mine_def)
  show "keeps kv T t n r (reading_w kv (watch_down_get R again) t n r)" if "w_place n = W_get again"
    unfolding reading_w_def using that seen
    by (intro keeps_local) (auto simp: watch_down_get_def watch_after_def released_def node_defs)
  show "keeps kv T t n r (reading_s kv (stop_get R) t n r)" if "s_place n = S_get"
    unfolding reading_s_def using that seen
    by (intro keeps_local) (auto simp: stop_get_def released_def node_defs)
qed

lemma tryAcquire_keeps:
  assumes "w_place n = W_setnx" "node_ttl n = T" "0 < T"
  shows "keeps kv T t n r (tryAcquire R t n r)"
proof -
  let ?k = "leaderKey n"
  obtain x r' where x: "redis_SetNX R t ?k (leader_value n) T r = (x, r')" by fastforce
  have n': "tryAcquire R t n r = ((case x of Inr True \<Rightarrow> n\<lparr>claimed := t, w_place := W_won\<rparr> | _ \<Rightarrow> n\<lparr>failures := 0, w_place := W_idle\<rparr>), r')"
    using x assms(2) by (auto simp: tryAcquire_def split: sum.splits bool.splits)
  have eff: "kv r' = kv r \<or> live t (kv r ?k) = None \<and> kv r' ?k = Some (leader_value n, Some (t + T))"
    using setnx_cases [OF _ x] assms(3) by (auto simp: put_new_def put_def expiry_def)
  have won: "kv r' ?k = Some (leader_value n, Some (t + T))" if "x = Inr True"
    using setnx_wins [of T t ?k "leader_value n" r r'] x that assms(3) by (simp add: expiry_def)
  have idle: "node_ok t e (n\<lparr>failures := 0, w_place := W_idle\<rparr>)" if "node_ok t e n" for e
    using that assms(1) by (auto simp: node_defs)
  have own: "node_ok t (kv r' ?k) (fst (tryAcquire R t n r))" if "node_ok t (kv r ?k) n"
  proof (cases "x = Inr True")
    case True
    have "\<not> isLeader n" "s_place n = S_none" using that assms(1) by (auto simp: node_ok_def places_ok_def)
    then show ?thesis using True n' won mine_value [of n] assms(2) by (simp add: node_ok_def claim_ok_def places_ok_def)
  next
    case False
    have "node_ok t (kv r' ?k) n" using eff that dead_key [of t "kv r ?k" n "kv r' ?k"] by auto
    then show ?thesis using False n' idle by (auto split: sum.splits bool.splits)
  qed
  have "bounded T t (kv r' ?k)" if "bounded T t (kv r ?k)" using eff that by (auto simp: bounded_def)
  moreover have "node_ok t (kv r' ?k) m" if "node_ok t (kv r ?k) m" for m
    using eff that dead_key [of t "kv r ?k" m "kv r' ?k"] by auto
  moreover have "same_node n (fst (tryAcquire R t n r))" using n' by (auto simp: same_node_def split: sum.splits bool.splits)
  ultimately show ?thesis using own n' by (simp add: keeps_def split: prod.splits)
qed

lemma expire_keeps:
  assumes "w_place n = W_expire" "node_ttl n = T" "0 < T" "live t (w_seen n) \<noteq> None"
  shows "keeps kv T t n r (watch_expire R t n r)"
proof -
  let ?k = "leaderKey n"
  obtain x r' where x: "redis_Expire R t ?k T r = (x, r')" by fastforce
  have n': "watch_expire R t n r = ((case x of Inl e \<Rightarrow> count_failure n
      | Inr b \<Rightarrow> n\<lparr>failures := 0, claimed := (if b then t else claimed n), w_place := W_idle\<rparr>), r')"
    using x assms(2) by (auto simp: watch_expire_def split: sum.splits)
  have eff: "kv r' = kv r \<or> kv r' = touch t ?k T (kv r)" using expire_cases [OF assms(3) x] .
  have any: "node_ok t (kv r' ?k) m" if "bounded T t (kv r ?k)" "node_ok t (kv r ?k) m" for m
    using eff that touched_key [of T t "kv r" ?k m] by auto
  have own: "node_ok t (kv r' ?k) (fst (watch_expire R t n r))" if b: "bounded T t (kv r ?k)" and ok: "node_ok t (kv r ?k) n"
  proof (cases x)
    case (Inl e)
    then show ?thesis using n' any [OF b ok] count_failure_ok(1) assms(1) by simp
  next
    case (Inr ext)
    show ?thesis
    proof (cases "isLeader n")
      case True
      then obtain h y where h: "kv r ?k = Some (h, Some y)" "t < y" "mine n h"
        using ok still_mine_live [OF _ assms(4)] assms(1) by (fastforce simp: node_ok_def)
      then have "kv r' ?k = Some (h, Some (t + T))" "ext"
        using expire_law [OF assms(3) x [unfolded Inr]] by (simp_all add: touch_def)
      then show ?thesis
        using True ok n' Inr h(3) assms(1,2) by (auto simp: node_ok_def claim_ok_def places_ok_def)
    next
      case False
      then show ?thesis using n' Inr any [OF b ok] assms(1) by (auto simp: node_ok_def claim_ok_def places_ok_def)
    qed
  qed
  have "bounded T t (kv r' ?k)" if "bounded T t (kv r ?k)"
    using eff that touched_bounded [OF assms(3)] by auto
  moreover have "same_node n (fst (watch_expire R t n r))"
    using n' count_failure_ok(2) by (auto simp: same_node_def split: sum.splits)
  ultimately show ?thesis using own n' any by (simp add: keeps_def split: prod.splits)
qed

text \<open>The key goes only while it is the node's own.\<close>

lemma delete_keeps:
  assumes "delete_key R t n r = r'" "same_node n n'" "CHR ''|'' \<notin> set (nodeID n)"
    and "node_ok t (kv r (leaderKey n)) n \<Longrightarrow> \<exists>h x. kv r (leaderKey n) = Some (h, Some x) \<and> t < x \<and> mine n h"
    and "\<And>e. node_ok t (kv r (leaderKey n)) n \<Longrightarrow> node_ok t e n'"
  shows "keeps kv T t n r (n', r')"
proof -
  let ?k = "leaderKey n"
  obtain u where u: "redis_Del R t [?k] r = (u, r')" using assms(1) by (auto simp: delete_key_def prod_eq_iff)
  have eff: "kv r' ?k = kv r ?k \<or> kv r' ?k = None" using del_cases [OF u] by (auto simp: drop_keys_def)
  have "node_ok t (kv r' ?k) m"
    if "node_ok t (kv r ?k) n" "nodeID m \<noteq> nodeID n" "CHR ''|'' \<notin> set (nodeID m)" "node_ok t (kv r ?k) m" for m
    using assms(4) [OF that(1)] other_key [of t "kv r ?k" _ n m] that assms(3) by auto
  then show ?thesis using eff assms(2,5) by (auto simp: keeps_def bounded_def)
qed

lemma deletes_keep:
  assumes "CHR ''|'' \<notin> set (nodeID n)"
  shows "w_place n = W_del again \<Longrightarrow> live t (w_seen n) \<noteq> None \<Longrightarrow> keeps kv T t n r (watch_down_del R again t n r)"
    and "s_place n = S_del \<Longrightarrow> live t (s_seen n) \<noteq> None \<Longrightarrow> keeps kv T t n r (stop_del R t n r)"
proof -
  assume w: "w_place n = W_del again" "live t (w_seen n) \<noteq> None"
  show "keeps kv T t n r (watch_down_del R again t n r)"
    unfolding watch_down_del_def
  proof (rule delete_keeps [OF refl _ assms])
    assume "node_ok t (kv r (leaderKey n)) n"
    then show "\<exists>h x. kv r (leaderKey n) = Some (h, Some x) \<and> t < x \<and> mine n h"
      using w by (intro still_mine_live) (auto simp: node_ok_def)
  qed (use w in \<open>auto simp: watch_after_def released_def node_defs\<close>)
next
  assume s: "s_place n = S_del" "live t (s_seen n) \<noteq> None"
  show "keeps kv T t n r (stop_del R t n r)"
    unfolding stop_del_def
  proof (rule delete_keeps [OF refl _ assms])
    assume "node_ok t (kv r (leaderKey n)) n"
    then show "\<exists>h x. kv r (leaderKey n) = Some (h, Some x) \<and> t < x \<and> mine n h"
      using s by (intro still_mine_live) (auto simp: node_ok_def)
  qed (use s in \<open>auto simp: released_def node_defs\<close>)
qed

end

section \<open>The cluster\<close>

lemma well_configured_at:
  "well_configured k T ns \<Longrightarrow> i < length ns \<Longrightarrow>
     leaderKey (ns ! i) = k \<and> node_ttl (ns ! i) = T \<and> 0 < T \<and> CHR ''|'' \<notin> set (nodeID (ns ! i))"
  by (simp add: well_configured_def)

lemma well_configured_upd:
  assumes "well_configured k T ns" "i < length ns" "same_node (ns ! i) n"
  shows "well_configured k T (ns[i := n])"
proof -
  have "map nodeID (ns[i := n]) = map nodeID ns"
    using assms(2,3) by (simp add: same_node_def map_update list_update_same_conv)
  moreover have "\<forall>m\<in>set (ns[i := n]). leaderKey m = k \<and> node_ttl m = T \<and> CHR ''|'' \<notin> set (nodeID m)"
    using assms set_update_subset_insert [of ns i n] nth_mem [OF assms(2)]
    by (fastforce simp: well_configured_def same_node_def)
  ultimately show ?thesis using assms(1) by (simp add: well_configured_def)
qed

lemma by_node_inv:
  assumes inv: "cluster_inv kv k T c" and i: "i < length (nodes c)"
    and op: "keeps kv T (clock c) (nodes c ! i) (store c) (f (clock c) (nodes c ! i) (store c))"
  shows "cluster_inv kv k T (by_node f i c)"
proof -
  let ?n = "nodes c ! i"
  obtain n' r' where f: "f (clock c) ?n (store c) = (n', r')" by fastforce
  have wf: "well_configured k T (nodes c)" and b: "bounded T (clock c) (kv (store c) k)" using inv by (simp_all add: cluster_inv_def)
  have key: "leaderKey ?n = k" using well_configured_at [OF wf i] by simp
  have ok: "node_ok (clock c) (kv (store c) k) (nodes c ! j)" if "j < length (nodes c)" for j
    using inv that by (simp add: cluster_inv_def)
  have "same_node ?n n'" using op f by (simp add: keeps_def)
  then have wf': "well_configured k T ((nodes c)[i := n'])" using well_configured_upd [OF wf i] by simp
  have "node_ok (clock c) (kv r' k) m" if "m \<in> set ((nodes c)[i := n'])" for m
  proof -
    from that obtain j where j: "j < length (nodes c)" "m = (nodes c)[i := n'] ! j"
      by (auto simp: in_set_conv_nth)
    show ?thesis
    proof (cases "j = i")
      case True
      then show ?thesis using op f key ok [OF i] b i j by (simp add: keeps_def)
    next
      case False
      then have "nodeID (nodes c ! j) \<noteq> nodeID ?n"
        using wf i j(1) nth_eq_iff_index_eq [of "map nodeID (nodes c)" j i]
        by (auto simp: well_configured_def)
      then show ?thesis
        using op f key ok [OF i] ok [OF j(1)] b False j well_configured_at [OF wf j(1)] by (simp add: keeps_def)
    qed
  qed
  moreover have "bounded T (clock c) (kv r' k)" using op f key ok [OF i] b by (simp add: keeps_def)
  ultimately show ?thesis using f wf' by (simp add: by_node_def cluster_inv_def)
qed

context redis_server
begin

lemma election_step_inv: "election_step R kv True c c' \<Longrightarrow> cluster_inv kv k T c \<Longrightarrow> cluster_inv kv k T c'"
proof (induction rule: election_step.induct)
  case (advance c t)
  then show ?case using later_ok by (fastforce simp: cluster_inv_def bounded_def)
qed (rule by_node_inv; assumption?;
  auto simp: in_time_def dest!: well_configured_at [rotated]
  intro: local_keeps check_keeps reads_keep tryAcquire_keeps expire_keeps deletes_keep simp: cluster_inv_def)+

sublocale election: transition_invariant "fresh_cluster kv k T" "election_step R kv True" "cluster_inv kv k T" for k T
proof
  fix c :: "'r cluster" and k T
  assume "fresh_cluster kv k T c"
  then show "cluster_inv kv k T c"
    by (auto simp: fresh_cluster_def cluster_inv_def node_ok_def claim_ok_def places_ok_def)
qed (rule election_step_inv)

lemma one_leader_in_lease:
  assumes "reach (fresh_cluster kv k T) (election_step R kv True) c" "i < length (nodes c)" "j < length (nodes c)"
    and "in_lease (clock c) (nodes c ! i)" "in_lease (clock c) (nodes c ! j)"
  shows "i = j"
proof -
  have inv: "cluster_inv kv k T c" using election.reach_inv [OF assms(1)] .
  then have wf: "well_configured k T (nodes c)" by (simp add: cluster_inv_def)
  have "\<exists>h x. kv (store c) k = Some (h, x) \<and> mine n h" if "n \<in> set (nodes c)" "in_lease (clock c) n" for n
    using inv that by (fastforce simp: cluster_inv_def node_ok_def claim_ok_def in_lease_def)
  then obtain h where "mine (nodes c ! i) h" "mine (nodes c ! j) h"
    using assms(2-5) by (metis nth_mem option.inject prod.inject)
  then have "nodeID (nodes c ! i) = nodeID (nodes c ! j)"
    using mine_name well_configured_at [OF wf] assms(2,3) by metis
  then show ?thesis
    using wf assms(2,3) nth_eq_iff_index_eq [of "map nodeID (nodes c)" i j]
    by (auto simp: well_configured_def)
qed

end

text \<open>C2: Of a cluster whose nodes have distinct names without a bar and one lease, at most one node at a time is
  a leader within its lease, over any Redis that keeps its documented contract, whatever the order and the spacing of
  commands, ticks, stops and failed calls, as long as no key runs out between a \<open>GET\<close> of a node and the
  \<open>EXPIRE\<close> or \<open>DEL\<close> that it then sends.\<close>

theorem at_most_one_leader_in_lease:
  assumes "redis_server R kv" and "reach (fresh_cluster kv k T) (election_step R kv True) c"
    and "i < length (nodes c)" "j < length (nodes c)" "i \<noteq> j"
    and "in_lease (clock c) (nodes c ! i)"
  shows "\<not> in_lease (clock c) (nodes c ! j)"
  using redis_server.one_leader_in_lease [OF assms(1-4,6)] assms(5) by blast

section \<open>Stopping\<close>

text \<open>A leader that stops frees the leadership for another node at once exactly when it was
  configured without an HTTP address: with one, the key's value is never equal to the bare node
  name that \<open>stepDown\<close> compares it with, so the key stays until it expires.\<close>

theorem stop_frees_iff_no_http_addr:
  assumes "redis_server R kv" "redis_up R"
    and "isLeader n" "s_place n = S_none" "live t (kv r (leaderKey n)) = Some (leader_value n)"
    and "leaderKey m = leaderKey n" "0 < node_ttl m"
  shows "w_place (fst (tryAcquire R t m (snd (election_Stop R t n r)))) = W_won \<longleftrightarrow> httpAddr n = []"
proof -
  have get: "redis_Get R t (leaderKey n) r = Inr (Some (leader_value n))"
    using redis_server.get_law [OF assms(1)] up_Get [OF assms(2)] assms(5) by metis
  let ?r = "snd (election_Stop R t n r)"
  obtain b r2 where x: "redis_SetNX R t (leaderKey m) (leader_value m) (node_ttl m) ?r = (Inr b, r2)"
    using up_SetNX [OF assms(2)] by blast
  then have "b = (live t (kv ?r (leaderKey m)) = None)"
    using redis_server.setnx_law [OF assms(1), of "node_ttl m"] assms(7) by simp
  moreover have "w_place (fst (tryAcquire R t m ?r)) = W_won \<longleftrightarrow> b"
    using x by (simp add: tryAcquire_def)
  moreover have "(live t (kv ?r (leaderKey m)) = None) = (httpAddr n = [])"
  proof (cases "httpAddr n = []")
    case True
    obtain u r1 where d: "redis_Del R t [leaderKey n] r = (Inr u, r1)"
      using up_Del [OF assms(2)] by blast
    have "?r = r1"
      using True assms(3,4) get d
      by (simp add: election_Stop_def Let_def stop_down_def stop_get_def stop_del_def owns_name_def delete_key_def leader_value_def)
    then show ?thesis
      using redis_server.del_gone [OF assms(1) d] True assms(6) by simp
  next
    case False
    then have "?r = r"
      using assms(3,4) get
      by (simp add: election_Stop_def Let_def stop_down_def stop_get_def owns_name_def leader_value_def released_def)
    then show ?thesis using False assms(5,6) by simp
  qed
  ultimately show ?thesis by simp
qed

section \<open>A concrete cluster\<close>

definition node_a :: node where
  "node_a = NewLeaderElection ''leader'' ''a'' ''a:80'' (10 * second)"

definition node_b :: node where
  "node_b = NewLeaderElection ''leader'' ''b'' [] (10 * second)"

definition start_cluster :: "keys cluster" where
  "start_cluster = \<lparr>nodes = [node_a, node_b], store = Map.empty, clock = 0\<rparr>"

lemma start_fresh: "fresh_cluster (\<lambda>m. m) ''leader'' (10 * second) start_cluster"
  by (simp add: start_cluster_def fresh_cluster_def well_configured_def node_a_def node_b_def
      NewLeaderElection_def bounded_def)

text \<open>The nodes at a place, as leader or not, with their last claim and what \<open>watch\<close> has seen.\<close>

definition at_place :: "node \<Rightarrow> watch_place \<Rightarrow> bool \<Rightarrow> instant \<Rightarrow> entry option \<Rightarrow> node" where
  "at_place n p l t e = n\<lparr>w_place := p, isLeader := l, claimed := t, w_seen := e\<rparr>"

definition both :: "node \<Rightarrow> node \<Rightarrow> entry option \<Rightarrow> instant \<Rightarrow> keys cluster" where
  "both a b e t = \<lparr>nodes = [a, b], store = (\<lambda>k. if k = ''leader'' then e else None), clock = t\<rparr>"

lemma both_steps:
  "by_node f 0 (both a b e t) = (case f t a (store (both a b e t)) of (n, r) \<Rightarrow> (both a b e t)\<lparr>nodes := [n, b], store := r\<rparr>)"
  "by_node f (Suc 0) (both a b e t) = (case f t b (store (both a b e t)) of (n, r) \<Rightarrow> (both a b e t)\<lparr>nodes := [a, n], store := r\<rparr>)"
  by (simp_all add: by_node_def both_def)

lemma both_simps [simp]:
  "nodes (both a b e t) = [a, b]" "clock (both a b e t) = t" "store (both a b e t) ''leader'' = e"
  "(both a b e t)\<lparr>nodes := [a', b'], store := store (both a b e t)\<rparr> = both a' b' e t"
  "(both a b e t)\<lparr>nodes := [a', b'], store := (store (both a b e t))(''leader'' \<mapsto> v)\<rparr> = both a' b' (Some v) t"
  "(both a b e t)\<lparr>clock := u\<rparr> = both a b e u"
  by (auto simp: both_def)

lemma place_simps [simp]:
  "w_place (at_place n p l t e) = p" "isLeader (at_place n p l t e) = l" "claimed (at_place n p l t e) = t"
  "w_seen (at_place n p l t e) = e" "s_place (at_place n p l t e) = s_place n" "leaderKey (at_place n p l t e) = leaderKey n"
  "node_ttl (at_place n p l t e) = node_ttl n" "leader_value (at_place n p l t e) = leader_value n"
  "mine (at_place n p l t e) = mine n" "invoked (at_place n p l t e) = invoked n" "hasOnAcquire (at_place n p l t e) = hasOnAcquire n"
  "httpAddr (at_place n p l t e) = httpAddr n"
  "(at_place n p l t e)\<lparr>w_place := p'\<rparr> = at_place n p' l t e" "(at_place n p l t e)\<lparr>isLeader := l'\<rparr> = at_place n p l' t e"
  "(at_place n p l t e)\<lparr>w_seen := e'\<rparr> = at_place n p l t e'" "(at_place n p l t e)\<lparr>claimed := t'\<rparr> = at_place n p l t' e"
  "failures n = f \<Longrightarrow> (at_place n p l t e)\<lparr>failures := f\<rparr> = at_place n p l t e"
  "invoked n = i \<Longrightarrow> (at_place n p l t e)\<lparr>invoked := i\<rparr> = at_place n p l t e"
  by (simp_all add: at_place_def leader_value_def mine_def fun_eq_iff)

lemma node_simps [simp]:
  "leaderKey node_a = ''leader''" "leaderKey node_b = ''leader''" "node_ttl node_a = 10 * second" "node_ttl node_b = 10 * second"
  "s_place node_a = S_none" "s_place node_b = S_none" "invoked node_a = []" "invoked node_b = []" "failures node_a = 0" "failures node_b = 0"
  "hasOnAcquire node_a = False" "hasOnAcquire node_b = False" "leader_value node_a = ''a|a:80''" "leader_value node_b = ''b''"
  by (simp_all add: node_a_def node_b_def NewLeaderElection_def leader_value_def)

abbreviation a_key :: "entry option" where "a_key \<equiv> Some (''a|a:80'', Some (10 * second))"
abbreviation demo_step :: "bool \<Rightarrow> keys cluster \<Rightarrow> keys cluster \<Rightarrow> bool" where
  "demo_step prompt \<equiv> election_step mem_redis (\<lambda>m. m) prompt"

lemma start_both: "start_cluster = both (at_place node_a W_idle False 0 None) (at_place node_b W_idle False 0 None) None 0"
  by (simp add: start_cluster_def both_def at_place_def node_a_def node_b_def NewLeaderElection_def)

lemmas run_defs = both_steps local_step_def reading_w_def watch_tick_def tryAcquire_def become_leader_def
  watch_check_def watch_expire_def put_new_def put_def expiry_def touch_def

lemma mine_a: "mine node_a ''a|a:80''"
  by (simp add: mine_def has_prefix_def node_a_def NewLeaderElection_def)

text \<open>A node that finds the key free takes the lead.\<close>

definition led_cluster :: "keys cluster" where
  "led_cluster = both (at_place node_a W_idle True 0 None) (at_place node_b W_idle False 0 None) a_key 0"

lemma led_reachable: "reach (fresh_cluster (\<lambda>m. m) ''leader'' (10 * second)) (demo_step prompt) led_cluster"
proof -
  let ?s = "\<lambda>p l. both (at_place node_a p l 0 None) (at_place node_b W_idle False 0 None)"
  have "demo_step prompt start_cluster (?s W_setnx False None 0)"
    using tick [where R = mem_redis and kv = "\<lambda>m. m" and prompt = prompt, of 0 start_cluster] by (simp add: start_both run_defs)
  moreover have "demo_step prompt (?s W_setnx False None 0) (?s W_won False a_key 0)"
    using attempt [where R = mem_redis and kv = "\<lambda>m. m" and prompt = prompt, of 0 "?s W_setnx False None 0"] by (simp add: run_defs)
  moreover have "demo_step prompt (?s W_won False a_key 0) led_cluster"
    using won [where R = mem_redis and kv = "\<lambda>m. m" and prompt = prompt, of 0 "?s W_won False a_key 0"] by (simp add: led_cluster_def run_defs)
  moreover have "reach (fresh_cluster (\<lambda>m. m) ''leader'' (10 * second)) (demo_step prompt) start_cluster"
    by (rule reach_init) (rule start_fresh)
  ultimately show ?thesis by (meson reach_step)
qed

theorem at_most_one_leader_in_lease_witness:
  "in_lease (clock led_cluster) (nodes led_cluster ! 0) \<and>
   \<not> in_lease (clock led_cluster) (nodes led_cluster ! 1)"
proof -
  have "in_lease (clock led_cluster) (nodes led_cluster ! 0)" "length (nodes led_cluster) = 2"
    by (simp_all add: led_cluster_def in_lease_def)
  then show ?thesis
    using at_most_one_leader_in_lease [OF mem_server led_reachable, of 0 1] by simp
qed

text \<open>C17: Without that condition two nodes lead, each within its lease: the key of a leader runs out after its \<open>GET\<close>, another
  node takes the lead, and the \<open>EXPIRE\<close> of the first, which does not look whose key it is, succeeds. The first then counts on a
  lease that is not its own.\<close>

theorem late_extension_makes_two_leaders:
  "\<exists>c. reach (fresh_cluster (\<lambda>m. m) ''leader'' (10 * second)) (election_step mem_redis (\<lambda>m. m) False) c \<and> length (nodes c) = 2 \<and>
     in_lease (clock c) (nodes c ! 0) \<and> in_lease (clock c) (nodes c ! 1)"
proof -
  let ?a = "\<lambda>p t. at_place node_a p True t a_key" and ?b = "\<lambda>p l t. at_place node_b p l t None"
  let ?c = "both (?a W_idle (12 * second)) (?b W_idle True (11 * second)) (Some (''b'', Some (22 * second))) (12 * second)"
  let ?idle = "both (at_place node_a W_idle True 0 None) (?b W_idle False 0) a_key"
  let ?check = "both (at_place node_a W_check True 0 None) (?b W_idle False 0) a_key"
  let ?gone = "\<lambda>p l t. both (?a W_expire 0) (?b p l t)"
  have "demo_step False led_cluster (?idle (9 * second))"
    using advance [where R = mem_redis and kv = "\<lambda>m. m" and prompt = False, of led_cluster "9 * second"] by (simp add: led_cluster_def)
  moreover have "demo_step False (?idle (9 * second)) (?check (9 * second))"
    using tick [where R = mem_redis and kv = "\<lambda>m. m" and prompt = False, of 0 "?idle (9 * second)"] by (simp add: run_defs)
  moreover have "demo_step False (?check (9 * second)) (?gone W_idle False 0 a_key (9 * second))"
    using check [where R = mem_redis and kv = "\<lambda>m. m" and prompt = False, of 0 "?check (9 * second)"] by (simp add: run_defs mine_a)
  moreover have "demo_step False (?gone W_idle False 0 a_key (9 * second)) (?gone W_idle False 0 a_key (11 * second))"
    using advance [where R = mem_redis and kv = "\<lambda>m. m" and prompt = False, of "?gone W_idle False 0 a_key (9 * second)" "11 * second"] by simp
  moreover have "demo_step False (?gone W_idle False 0 a_key (11 * second)) (?gone W_setnx False 0 a_key (11 * second))"
    using tick [where R = mem_redis and kv = "\<lambda>m. m" and prompt = False, of 1 "?gone W_idle False 0 a_key (11 * second)"] by (simp add: run_defs)
  moreover have "demo_step False (?gone W_setnx False 0 a_key (11 * second)) (?gone W_won False (11 * second) (Some (''b'', Some (21 * second))) (11 * second))"
    using attempt [where R = mem_redis and kv = "\<lambda>m. m" and prompt = False, of 1 "?gone W_setnx False 0 a_key (11 * second)"] by (simp add: run_defs)
  moreover have "demo_step False (?gone W_won False (11 * second) (Some (''b'', Some (21 * second))) (11 * second))
      (?gone W_idle True (11 * second) (Some (''b'', Some (21 * second))) (11 * second))"
    using won [where R = mem_redis and kv = "\<lambda>m. m" and prompt = False, of 1 "?gone W_won False (11 * second) (Some (''b'', Some (21 * second))) (11 * second)"] by (simp add: run_defs)
  moreover have "demo_step False (?gone W_idle True (11 * second) (Some (''b'', Some (21 * second))) (11 * second))
      (?gone W_idle True (11 * second) (Some (''b'', Some (21 * second))) (12 * second))"
    using advance [where R = mem_redis and kv = "\<lambda>m. m" and prompt = False, of "?gone W_idle True (11 * second) (Some (''b'', Some (21 * second))) (11 * second)" "12 * second"] by simp
  moreover have "demo_step False (?gone W_idle True (11 * second) (Some (''b'', Some (21 * second))) (12 * second)) ?c"
    using extend [where R = mem_redis and kv = "\<lambda>m. m" and prompt = False, of 0 "?gone W_idle True (11 * second) (Some (''b'', Some (21 * second))) (12 * second)"] by (simp add: run_defs in_time_def)
  ultimately have "reach (fresh_cluster (\<lambda>m. m) ''leader'' (10 * second)) (demo_step False) ?c"
    using led_reachable [of False] by (meson reach_step)
  moreover have "in_lease (clock ?c) (nodes ?c ! 0)" "in_lease (clock ?c) (nodes ?c ! 1)"
    by (simp_all add: in_lease_def)
  ultimately show ?thesis by (intro exI [of _ ?c]) simp
qed

theorem leader_info_roundtrip_witness:
  "GetLeaderInfo mem_redis 1 node_b (store led_cluster) = Inr (''a'', ''a:80'')"
proof -
  have v: "live 1 (store led_cluster (leaderKey node_b)) = Some (leader_value node_a)"
    by (simp add: led_cluster_def)
  obtain info where info: "GetLeaderInfo mem_redis 1 node_b (store led_cluster) = Inr info"
    using v by (simp add: GetLeaderInfo_def redis_value_def)
  have "info = (nodeID node_a, httpAddr node_a)"
    by (rule leader_info_roundtrip [OF mem_server _ v info])
      (simp add: node_a_def NewLeaderElection_def)
  then show ?thesis using info by (simp add: node_a_def NewLeaderElection_def)
qed

theorem stop_frees_iff_no_http_addr_witness:
  "w_place (fst (tryAcquire mem_redis 1 node_b
       (snd (election_Stop mem_redis 1 (nodes led_cluster ! 0) (store led_cluster))))) \<noteq> W_won"
proof -
  have "isLeader (nodes led_cluster ! 0)" "s_place (nodes led_cluster ! 0) = S_none"
      "live 1 (store led_cluster (leaderKey (nodes led_cluster ! 0))) =
         Some (leader_value (nodes led_cluster ! 0))"
      "leaderKey node_b = leaderKey (nodes led_cluster ! 0)"
      "httpAddr (nodes led_cluster ! 0) \<noteq> []" "0 < node_ttl node_b"
    by (simp_all add: led_cluster_def) (simp add: node_a_def NewLeaderElection_def)
  then show ?thesis
    using stop_frees_iff_no_http_addr [OF mem_server mem_redis_up] by blast
qed

end
