(* ===== verification/Scheduler_State.thy ===== *)
theory Scheduler_State
  imports Redis_Server
begin

text \<open>
  What the scheduler service works on (scheduler/internal/model/models.go and the struct
  \<open>SchedulerService\<close> of service/scheduler_core.go): the rows of its tables, the environment of one
  call (Redis, the database's verdict on each statement, the time, the dispatcher and the other
  injected collaborators), and the state that the calls change. Instants stand for their
  RFC3339Nano texts. Rows come back from the database as lists of cells, and the scanners of
  scanners.go read them by position.
\<close>

section \<open>Rows\<close>

record task =
  t_id :: int
  t_name :: string
  t_type :: string
  t_config :: string
  t_cron :: string
  t_timeout :: int          \<comment> \<open>seconds, int32\<close>
  t_retry_count :: int
  t_retry_interval :: int
  t_enabled :: bool
  t_status :: string
  t_domain :: int
  t_webhook :: "int option"
  t_webhook_events :: string
  t_assigned :: int
  t_created_by :: int
  t_updated :: instant

record execution =
  x_id :: int
  x_task :: int
  x_eid :: string
  x_executor :: "int option"
  x_status :: string
  x_start :: "instant option"
  x_end :: "instant option"
  x_output :: string
  x_error :: string
  x_retry :: int
  x_created :: instant
  x_progress :: int
  x_progress_msg :: string
  x_updated :: "instant option"

record executor =
  e_id :: int
  e_name :: string
  e_address :: string
  e_status :: string
  e_heartbeat :: "instant option"
  e_capacity :: int
  e_load :: int
  e_global :: bool
  e_created :: instant
  e_updated :: instant

record task_log =
  l_eid :: string
  l_task :: int
  l_executor :: "int option"
  l_node :: string
  l_level :: string
  l_message :: string
  l_time :: instant

record webhook =
  w_id :: int
  w_name :: string
  w_url :: string
  w_method :: string
  w_headers :: string              \<comment> \<open>a JSON object, as text\<close>
  w_secret :: string
  w_domain :: int
  w_enabled :: bool
  w_desc :: string
  w_created_by :: "int option"
  w_created :: instant
  w_updated :: instant

text \<open>The message handed to an executor: \<open>pb.Task\<close>.\<close>

record grpc_task =
  g_task :: int
  g_eid :: string
  g_type :: string
  g_config :: string
  g_timeout :: int
  g_retry_count :: int
  g_retry_interval :: int

record notification =
  n_task :: int
  n_eid :: string
  n_event :: string
  n_status :: string
  n_output :: string
  n_error :: string
  n_duration :: int

text \<open>A goroutine of \<open>HandleTaskFailure\<close> that sleeps until its retry is due.\<close>

record retry =
  r_task :: task           \<comment> \<open>as read when the failure was handled\<close>
  r_failed :: string
  r_times :: int
  r_output :: string
  r_duration :: int
  r_due :: instant

section \<open>The environment of a call\<close>

datatype (plugins only: size) sstmt =
    S_get_task | S_insert_task | S_update_task | S_delete_task | S_task_status
  | S_running_of_task | S_insert_execution | S_execution_executor | S_execution_result
  | S_execution_progress | S_get_execution | S_retry_times | S_insert_log | S_insert_log_fallback
  | S_log_executor | S_append_output | S_get_logs | S_delete_logs | S_delete_execution
  | S_check_domain | S_get_executor | S_executor_by_name | S_select_executor
  | S_insert_executor | S_update_executor | S_delete_executor | S_executor_status
  | S_executor_capacity | S_executor_heartbeat | S_executor_count | S_list_executors
  | S_domain_executors | S_insert_domain_executor | S_delete_domain_executors | S_executor_global
  | S_executor_domains | S_assigned_tasks | S_offline_executors | S_offline_tasks
  | S_stuck_tasks | S_online_again | S_renew_timeout | S_stale_of_executor | S_recover
  | S_running_tasks | S_count_executions | S_list_executions | S_execution_stats | S_webhook | S_duration | S_last_status | S_pending_tasks | S_count_tasks | S_list_tasks

record 'r env =
  env_redis :: "'r redis"
  env_db :: "sstmt \<Rightarrow> string option"           \<comment> \<open>\<open>Some e\<close>: the statement returns an error\<close>
  env_now :: instant
  env_dispatcher :: "(string \<Rightarrow> grpc_task \<Rightarrow> string option) option"  \<comment> \<open>\<open>Some e\<close>: the dispatch fails\<close>
  env_webhooks :: bool                             \<comment> \<open>a webhook service is set\<close>
  env_events :: "string \<Rightarrow> string list"         \<comment> \<open>the JSON array of event names\<close>
  env_cron :: bool                                 \<comment> \<open>a cron scheduler is set\<close>
  env_notifier :: bool                             \<comment> \<open>a cancel notifier is set\<close>
  env_connected :: "string \<Rightarrow> bool"              \<comment> \<open>the connectivity checker, by executor name\<close>
  env_text_times :: bool                           \<comment> \<open>the driver returns a \<open>DATETIME\<close> cell as its text\<close>
  env_dial :: "string \<Rightarrow> bool"                   \<comment> \<open>a TCP connection to the address succeeds\<close>
  env_choice :: nat                                \<comment> \<open>the draw of \<open>RANDOM()\<close>\<close>
  env_new_id :: int                                \<comment> \<open>\<open>LastInsertID\<close>\<close>

definition unix :: "'r env \<Rightarrow> int" where
  "unix V = env_now V div second"

section \<open>The state\<close>

record 'r sched =
  s_tasks :: "task list"
  s_execs :: "execution list"
  s_executors :: "executor list"
  s_domain_executors :: "(int \<times> int) list"   \<comment> \<open>domain id, executor id\<close>
  s_logs :: "task_log list"
  s_webhooks :: "webhook list"
  s_redis :: 'r
  s_leader :: bool
  s_cron :: "int \<Rightarrow> string option"            \<comment> \<open>tasks registered with the cron scheduler\<close>
  s_sent :: "(string \<times> grpc_task) list"       \<comment> \<open>dispatches that succeeded\<close>
  s_notified :: "notification list"
  s_cancels :: "(string \<times> string) list"       \<comment> \<open>executor name, execution id\<close>
  s_retries :: "retry list"
  s_failures :: "(int \<times> string \<times> string) list" \<comment> \<open>goroutines about to call HandleTaskFailure\<close>
  s_reloads :: nat                              \<comment> \<open>reloads of all cron tasks requested\<close>

section \<open>Cells and scanners\<close>

datatype cell = Null | Num int | Txt string | At instant

text \<open>\<open>fmt.Sscanf(s, "%d", &n)\<close> into a zero variable: the sign and the digits at the start.\<close>

definition is_digit :: "char \<Rightarrow> bool" where
  "is_digit c \<longleftrightarrow> 48 \<le> (of_char c :: nat) \<and> (of_char c :: nat) \<le> 57"

definition scan_d :: "string \<Rightarrow> int" where
  "scan_d s = (case s of
      [] \<Rightarrow> 0
    | c # cs \<Rightarrow>
        if c = CHR ''-'' then - int (read_nat (takeWhile is_digit cs))
        else int (read_nat (takeWhile is_digit s)))"

fun rowInt64 :: "cell \<Rightarrow> int" where
  "rowInt64 (Num i) = i"
| "rowInt64 (Txt s) = scan_d s"
| "rowInt64 _ = 0"

fun rowString :: "cell \<Rightarrow> string" where
  "rowString (Txt s) = s"
| "rowString (Num i) = show_int i"
| "rowString _ = []"

fun rowBool :: "cell \<Rightarrow> bool" where
  "rowBool (Num i) = (i \<noteq> 0)"
| "rowBool _ = False"

text \<open>The zero time stands for every cell that is not a time.\<close>

fun parseDateTime :: "cell \<Rightarrow> instant" where
  "parseDateTime (At t) = t"
| "parseDateTime _ = 0"

definition time_cell :: "instant option \<Rightarrow> cell" where
  "time_cell t = (case t of None \<Rightarrow> Null | Some i \<Rightarrow> At i)"

definition flag :: "bool \<Rightarrow> cell" where
  "flag b = Num (if b then 1 else 0)"

lemma digit_is_digit: "d < 10 \<Longrightarrow> is_digit (char_of (48 + d :: nat))"
  by (simp add: is_digit_def digit_char)

lemma show_nat_is_digit: "c \<in> set (show_nat n) \<Longrightarrow> is_digit c"
  using show_nat_digits digit_is_digit by blast

lemma takeWhile_show_nat [simp]: "takeWhile is_digit (show_nat n) = show_nat n"
  using show_nat_is_digit by (simp add: takeWhile_eq_all_conv)

lemma scan_show_int: "scan_d (show_int n) = n"
proof (cases "n < 0")
  case True
  then show ?thesis by (simp add: show_int_def scan_d_def read_show_nat del: read_nat.simps)
next
  case False
  then have s: "show_int n = show_nat (nat n)" by (simp add: show_int_def)
  obtain c cs where c: "show_nat (nat n) = c # cs" by (cases "show_nat (nat n)") simp_all
  then have "c \<noteq> CHR ''-''" using dash_not_digit [of "nat n"] by auto
  then have "scan_d (show_int n) = int (read_nat (takeWhile is_digit (show_nat (nat n))))"
    by (simp add: s c scan_d_def del: read_nat.simps)
  then show ?thesis using False by (simp add: read_show_nat del: read_nat.simps)
qed

text \<open>
  The scanner of an executor row. The ten-column queries put \<open>is_global\<close> before the two
  timestamps, which the scanner still expects in the columns 7 and 8.
\<close>

definition executor_row9 :: "executor \<Rightarrow> cell list" where
  "executor_row9 e = [Num (e_id e), Txt (e_name e), Txt (e_address e), Txt (e_status e),
     time_cell (e_heartbeat e), Num (e_capacity e), Num (e_load e), At (e_created e), At (e_updated e)]"

definition executor_row10 :: "executor \<Rightarrow> cell list" where
  "executor_row10 e = [Num (e_id e), Txt (e_name e), Txt (e_address e), Txt (e_status e),
     time_cell (e_heartbeat e), Num (e_capacity e), Num (e_load e), flag (e_global e),
     At (e_created e), At (e_updated e)]"

definition scanExecutorResult :: "cell list \<Rightarrow> executor" where
  "scanExecutorResult row =
     \<lparr>e_id = rowInt64 (row ! 0), e_name = rowString (row ! 1), e_address = rowString (row ! 2),
      e_status = rowString (row ! 3),
      e_heartbeat = (let t = parseDateTime (row ! 4) in if t = 0 then None else Some t),
      e_capacity = rowInt64 (row ! 5), e_load = rowInt64 (row ! 6), e_global = False,
      e_created = parseDateTime (row ! 7), e_updated = parseDateTime (row ! 8)\<rparr>"

text \<open>Every executor that has sent a heartbeat did so at a proper instant.\<close>

definition proper_times :: "executor \<Rightarrow> bool" where
  "proper_times e \<longleftrightarrow> e_heartbeat e \<noteq> Some 0"

lemma scan_row9:
  "proper_times e \<Longrightarrow> scanExecutorResult (executor_row9 e) = e\<lparr>e_global := False\<rparr>"
  by (cases "e_heartbeat e")
    (auto simp: proper_times_def scanExecutorResult_def executor_row9_def time_cell_def)

lemma scan_row10:
  "proper_times e \<Longrightarrow>
   scanExecutorResult (executor_row10 e) =
     e\<lparr>e_global := False, e_created := 0, e_updated := e_created e\<rparr>"
  by (cases "e_heartbeat e")
    (auto simp: proper_times_def scanExecutorResult_def executor_row10_def time_cell_def flag_def)

section \<open>Keys\<close>

definition lock_key :: "string \<Rightarrow> string" where "lock_key eid = ''task:lock:'' @ eid"
definition renew_key :: "string \<Rightarrow> string" where "renew_key eid = ''task:renew:'' @ eid"
definition fail_key :: "string \<Rightarrow> string" where "fail_key eid = ''task:renew:fail:count:'' @ eid"
definition retry_lock_key :: "int \<Rightarrow> string" where
  "retry_lock_key tid = ''task:retry:lock:'' @ show_int tid"

lemma key_inj [simp]:
  "lock_key a = lock_key b \<longleftrightarrow> a = b" "renew_key a = renew_key b \<longleftrightarrow> a = b"
  "fail_key a = fail_key b \<longleftrightarrow> a = b" "retry_lock_key m = retry_lock_key n \<longleftrightarrow> m = n"
  by (auto simp: lock_key_def renew_key_def fail_key_def retry_lock_key_def dest: show_int_inj)

lemma key_distinct [simp]:
  "lock_key a \<noteq> renew_key b" "renew_key b \<noteq> lock_key a"
  "lock_key a \<noteq> fail_key b" "fail_key b \<noteq> lock_key a"
  "lock_key a \<noteq> retry_lock_key n" "retry_lock_key n \<noteq> lock_key a"
  by (simp_all add: lock_key_def renew_key_def fail_key_def retry_lock_key_def)

text \<open>Redis as a part of the state.\<close>

definition r_get :: "'r env \<Rightarrow> string \<Rightarrow> 'r sched \<Rightarrow> string option result" where
  "r_get V k s = redis_Get (env_redis V) (env_now V) k (s_redis s)"

definition r_exists :: "'r env \<Rightarrow> string \<Rightarrow> 'r sched \<Rightarrow> bool result" where
  "r_exists V k s = redis_Exists (env_redis V) (env_now V) k (s_redis s)"

definition r_set :: "'r env \<Rightarrow> string \<Rightarrow> string \<Rightarrow> duration \<Rightarrow> 'r sched \<Rightarrow> unit result \<times> 'r sched" where
  "r_set V k v d s = (let (x, r) = redis_Set (env_redis V) (env_now V) k v d (s_redis s)
                      in (x, s\<lparr>s_redis := r\<rparr>))"

definition r_setnx :: "'r env \<Rightarrow> string \<Rightarrow> string \<Rightarrow> duration \<Rightarrow> 'r sched \<Rightarrow> bool result \<times> 'r sched" where
  "r_setnx V k v d s = (let (x, r) = redis_SetNX (env_redis V) (env_now V) k v d (s_redis s)
                        in (x, s\<lparr>s_redis := r\<rparr>))"

definition r_del :: "'r env \<Rightarrow> string list \<Rightarrow> 'r sched \<Rightarrow> 'r sched" where
  "r_del V ks s = s\<lparr>s_redis := snd (redis_Del (env_redis V) (env_now V) ks (s_redis s))\<rparr>"

definition r_expire :: "'r env \<Rightarrow> string \<Rightarrow> duration \<Rightarrow> 'r sched \<Rightarrow> bool result \<times> 'r sched" where
  "r_expire V k d s = (let (x, r) = redis_Expire (env_redis V) (env_now V) k d (s_redis s)
                       in (x, s\<lparr>s_redis := r\<rparr>))"

lemmas redis_ops = r_get_def r_exists_def r_set_def r_setnx_def r_del_def r_expire_def

end
