(* ===== verification/Executors.thy ===== *)
theory Executors
  imports Scheduler_State "HOL-Library.Char_ord" "HOL-Library.List_Lexorder" Rbac
begin

text \<open>
  Executors: selection, registration, heartbeats, capacity and the assignment to domains
  (scheduler/internal/service/executor_service.go and executor_domain.go), with the renewal of the
  task locks that a heartbeat carries (\<open>renewTaskLock\<close>, \<open>calculateLockTTL\<close> and
  \<open>cleanupExecutorStaleTasks\<close> of cleanup_service.go and execution_service.go). A \<open>LEFT JOIN\<close>
  with the domain table yields one row per assignment, or one row without a domain.
\<close>

section \<open>Locks of running tasks\<close>

text \<open>The clamping that both computations of a lock's lifetime end with, in seconds.\<close>

definition clamp_ttl :: "int \<Rightarrow> int" where
  "clamp_ttl n = (let a = (if n < 60 then 60 else n) in if a > 7200 then 7200 else a)"

definition calculateLockTTL :: "task option \<Rightarrow> int" where
  "calculateLockTTL t =
     clamp_ttl (case t of
        None \<Rightarrow> 300
      | Some task \<Rightarrow> if t_timeout task > 0 then t_timeout task * 2 else 3600)"

definition renew_ttl :: "int option \<Rightarrow> int" where
  "renew_ttl timeout =
     clamp_ttl (case timeout of None \<Rightarrow> 300 | Some n \<Rightarrow> if n > 0 then n * 2 else 3600)"

lemma clamp_bounds: "60 \<le> clamp_ttl n \<and> clamp_ttl n \<le> 7200"
  by (simp add: clamp_ttl_def Let_def)

definition timeout_of_execution :: "'r env \<Rightarrow> string \<Rightarrow> 'r sched \<Rightarrow> int option" where
  "timeout_of_execution V eid s =
     (case env_db V S_renew_timeout of
        Some e \<Rightarrow> None
      | None \<Rightarrow> map_option (t_timeout \<circ> snd)
          (first_where (\<lambda>(x, t). x_task x = t_id t \<and> x_eid x = eid)
             (List.product (s_execs s) (s_tasks s))))"

definition renewTaskLock :: "'r env \<Rightarrow> string \<Rightarrow> 'r sched \<Rightarrow> unit result \<times> 'r sched" where
  "renewTaskLock V eid s =
     (case r_exists V (lock_key eid) s of
        Inl e \<Rightarrow> (Inl e, s)
      | Inr present \<Rightarrow>
          (let ttl = renew_ttl (timeout_of_execution V eid s) * second;
               (x, s1) = (if present
                  then (let (y, s') = r_expire V (lock_key eid) ttl s
                        in (case y of Inl e \<Rightarrow> Inl e | Inr b \<Rightarrow> Inr (), s'))
                  else r_set V (lock_key eid) ''recovered_by_executor'' ttl s)
           in case x of
                Inl e \<Rightarrow> (Inl e, s1)
              | Inr u \<Rightarrow>
                  (let s2 = snd (r_set V (renew_key eid) (show_int (unix V)) ttl s1)
                   in (Inr (), r_del V [fail_key eid] s2))))"

definition cleanupExecutorStaleTasks :: "'r env \<Rightarrow> int \<Rightarrow> 'r sched \<Rightarrow> 'r sched" where
  "cleanupExecutorStaleTasks V xid s =
     (case env_db V S_stale_of_executor of
        Some e \<Rightarrow> s
      | None \<Rightarrow>
          (let eids = filter (\<lambda>e. e \<noteq> []) (map x_eid
                 (filter (\<lambda>x. x_status x = ''running'' \<and> x_executor x = Some xid) (s_execs s)))
           in if eids = [] then s
              else r_del V (concat (map (\<lambda>e. [renew_key e, fail_key e]) eids)) s))"

section \<open>Reading executors\<close>

definition GetExecutorByID :: "'r env \<Rightarrow> int \<Rightarrow> 'r sched \<Rightarrow> executor result" where
  "GetExecutorByID V i s =
     rbind (on_db (env_db V S_get_executor) (first_where (\<lambda>e. e_id e = i) (s_executors s)))
       (\<lambda>row. case row of None \<Rightarrow> Inl ''executor not found''
                        | Some e \<Rightarrow> Inr (scanExecutorResult (executor_row10 e)))"

definition GetExecutorByName :: "'r env \<Rightarrow> string \<Rightarrow> 'r sched \<Rightarrow> executor result" where
  "GetExecutorByName V n s =
     rbind (on_db (env_db V S_executor_by_name) (first_where (\<lambda>e. e_name e = n) (s_executors s)))
       (\<lambda>row. case row of None \<Rightarrow> Inl ''executor not found''
                        | Some e \<Rightarrow> Inr (scanExecutorResult (executor_row10 e)))"

text \<open>The rows of \<open>executors e LEFT JOIN domain_executors de ON e.id = de.executor_id\<close>.\<close>

definition domains_of :: "'r sched \<Rightarrow> int \<Rightarrow> int list" where
  "domains_of s i = map fst (filter (\<lambda>(d, x). x = i) (s_domain_executors s))"

definition left_join :: "'r sched \<Rightarrow> (executor \<times> int option) list" where
  "left_join s =
     concat (map (\<lambda>e. if domains_of s (e_id e) = [] then [(e, None)]
                      else map (\<lambda>d. (e, Some d)) (domains_of s (e_id e))) (s_executors s))"

definition heartbeat_after :: "instant \<Rightarrow> executor \<Rightarrow> bool" where
  "heartbeat_after cutoff e \<longleftrightarrow> (case e_heartbeat e of None \<Rightarrow> False | Some t \<Rightarrow> t > cutoff)"

definition selectable :: "instant \<Rightarrow> executor \<Rightarrow> bool" where
  "selectable now e \<longleftrightarrow> e_status e = ''online'' \<and> e_load e < e_capacity e \<and>
     heartbeat_after (now - 45 * second) e"

definition candidates :: "'r env \<Rightarrow> int \<Rightarrow> 'r sched \<Rightarrow> executor list" where
  "candidates V d s =
     (if d > 0
      then map fst (filter (\<lambda>(e, de). selectable (env_now V) e \<and> (de = Some d \<or> e_global e))
                     (left_join s))
      else filter (selectable (env_now V)) (s_executors s))"

text \<open>\<open>ORDER BY e.current_load ASC, RANDOM() LIMIT 1\<close>.\<close>

definition least_loaded :: "nat \<Rightarrow> executor list \<Rightarrow> executor option" where
  "least_loaded c es =
     (if es = [] then None
      else (let best = filter (\<lambda>e. e_load e = Min (e_load ` set es)) es
            in Some (best ! (c mod length best))))"

definition SelectAvailableExecutor :: "'r env \<Rightarrow> int \<Rightarrow> 'r sched \<Rightarrow> executor result" where
  "SelectAvailableExecutor V d s =
     rbind (on_db (env_db V S_select_executor) (least_loaded (env_choice V) (candidates V d s)))
       (\<lambda>row. case row of None \<Rightarrow> Inl ''no available executor''
                        | Some e \<Rightarrow> Inr (scanExecutorResult (executor_row9 e)))"

text \<open>Paging: the size is clamped to 1..100 with 20 as the default, pages count from 1.\<close>

definition page_size :: "int \<Rightarrow> int" where
  "page_size n = (let a = (if n \<le> 0 then 20 else n) in if a > 100 then 100 else a)"

definition page_no :: "int \<Rightarrow> int" where
  "page_no p = (if p \<le> 0 then 1 else p)"

definition paged :: "int \<Rightarrow> int \<Rightarrow> 'a list \<Rightarrow> 'a list" where
  "paged page sz xs =
     take (nat (page_size sz)) (drop (nat ((page_no page - 1) * page_size sz)) xs)"

definition ListExecutors :: "'r env \<Rightarrow> int \<Rightarrow> int \<Rightarrow> 'r sched \<Rightarrow> (executor list \<times> int) result" where
  "ListExecutors V page sz s =
     rbind (on_db (env_db V S_executor_count) (int (length (s_executors s)))) (\<lambda>total.
       rbind (on_db (env_db V S_list_executors)
                (paged page sz (sort_key (\<lambda>e. - e_created e) (s_executors s)))) (\<lambda>rows.
         Inr (map (scanExecutorResult \<circ> executor_row9) rows, total)))"

definition ListExecutorsByDomain :: "'r env \<Rightarrow> int \<Rightarrow> 'r sched \<Rightarrow> executor list result" where
  "ListExecutorsByDomain V d s =
     on_db (env_db V S_domain_executors)
       (map (scanExecutorResult \<circ> executor_row9)
          (sort_key e_load (map fst (filter (\<lambda>(e, de). e_status e = ''online'' \<and>
             (de = Some d \<or> e_global e)) (left_join s)))))"

section \<open>Domains of executors\<close>

text \<open>Its rows carry the domains' table of the role component.\<close>

definition GetExecutorDomains :: "'r env \<Rightarrow> domain_row list \<Rightarrow> int \<Rightarrow> 'r sched \<Rightarrow> domain_row list result" where
  "GetExecutorDomains V ds i s =
     on_db (env_db V S_executor_domains)
       (map snd (filter (\<lambda>((d, x), row). x = i \<and> d = d_id row)
          (List.product (s_domain_executors s) ds)))"

definition AssignExecutorToDomains ::
  "'r env \<Rightarrow> int \<Rightarrow> int list \<Rightarrow> 'r sched \<Rightarrow> unit result \<times> 'r sched" where
  "AssignExecutorToDomains V i ds s =
     (case env_db V S_delete_domain_executors of
        Some e \<Rightarrow> (Inl e, s)
      | None \<Rightarrow>
          (let s1 = s\<lparr>s_domain_executors := del_where (\<lambda>(d, x). x = i) (s_domain_executors s)\<rparr>
           in case (if ds = [] then None else env_db V S_insert_domain_executor) of
                Some e \<Rightarrow> (Inl e, s1)
              | None \<Rightarrow>
                  (let s2 = s1\<lparr>s_domain_executors := s_domain_executors s1 @ map (\<lambda>d. (d, i)) ds\<rparr>
                   in case env_db V S_executor_global of
                        Some e \<Rightarrow> (Inl e, s2)
                      | None \<Rightarrow> (Inr (), s2\<lparr>s_executors := upd_where (\<lambda>e. e_id e = i)
                                  (\<lambda>e. e\<lparr>e_global := (ds = [])\<rparr>) (s_executors s2)\<rparr>))))"

definition AssignExecutorToDefaultDomain ::
  "'r env \<Rightarrow> string \<Rightarrow> 'r sched \<Rightarrow> unit result \<times> 'r sched" where
  "AssignExecutorToDefaultDomain V name s =
     (case GetExecutorByName V name s of
        Inl e \<Rightarrow> (Inl (''get executor failed: '' @ e), s)
      | Inr x \<Rightarrow> (case env_db V S_insert_domain_executor of
            Some e \<Rightarrow> (Inl e, s)
          | None \<Rightarrow> (Inr (), s\<lparr>s_domain_executors := s_domain_executors s @ [(1, e_id x)]\<rparr>)))"

definition RemoveExecutorFromDomain ::
  "'r env \<Rightarrow> int \<Rightarrow> int \<Rightarrow> 'r sched \<Rightarrow> unit result \<times> 'r sched" where
  "RemoveExecutorFromDomain V i d s =
     (case env_db V S_delete_domain_executors of
        Some e \<Rightarrow> (Inl e, s)
      | None \<Rightarrow> (Inr (), s\<lparr>s_domain_executors := del_where (\<lambda>(dd, x). x = i \<and> dd = d)
                            (s_domain_executors s)\<rparr>))"

definition IsExecutorInDomain :: "'r env \<Rightarrow> int \<Rightarrow> int \<Rightarrow> 'r sched \<Rightarrow> bool result" where
  "IsExecutorInDomain V i d s =
     rbind (on_db (env_db V S_executor_domains)
              (count_where (\<lambda>(dd, x). x = i \<and> dd = d) (s_domain_executors s)))
       (\<lambda>n. Inr (n > 0))"

definition GetDomainExecutors :: "'r env \<Rightarrow> int \<Rightarrow> 'r sched \<Rightarrow> executor list result" where
  "GetDomainExecutors V d s =
     on_db (env_db V S_domain_executors)
       (map (scanExecutorResult \<circ> executor_row9)
          (sort_key e_name (map fst (filter (\<lambda>(e, (dd, x)). x = e_id e \<and> dd = d)
             (List.product (s_executors s) (s_domain_executors s))))))"

definition GetExecutorDomainCount :: "'r env \<Rightarrow> int \<Rightarrow> 'r sched \<Rightarrow> int result" where
  "GetExecutorDomainCount V i s =
     on_db (env_db V S_executor_domains) (count_where (\<lambda>(d, x). x = i) (s_domain_executors s))"

definition GetAssignedTasksForExecutor :: "'r env \<Rightarrow> int \<Rightarrow> 'r sched \<Rightarrow> int result" where
  "GetAssignedTasksForExecutor V i s =
     on_db (env_db V S_assigned_tasks) (count_where (\<lambda>t. t_assigned t = i) (s_tasks s))"

definition GetAssignedTaskNamesForExecutor :: "'r env \<Rightarrow> int \<Rightarrow> 'r sched \<Rightarrow> string list result" where
  "GetAssignedTaskNamesForExecutor V i s =
     on_db (env_db V S_assigned_tasks)
       (sort (map t_name (filter (\<lambda>t. t_assigned t = i) (s_tasks s))))"

text \<open>
  An executor with its domains. These scanners do read \<open>is_global\<close>, in its own column. A failed
  query for the domains leaves the list empty.
\<close>

definition scan_with_domains ::
  "'r env \<Rightarrow> domain_row list \<Rightarrow> 'r sched \<Rightarrow> executor \<Rightarrow> executor \<times> domain_row list" where
  "scan_with_domains V ds s e =
     (e, case GetExecutorDomains V ds (e_id e) s of Inl x \<Rightarrow> [] | Inr rows \<Rightarrow> rows)"

definition GetExecutorsWithDomains ::
  "'r env \<Rightarrow> domain_row list \<Rightarrow> 'r sched \<Rightarrow> (executor \<times> domain_row list) list result" where
  "GetExecutorsWithDomains V ds s =
     on_db (env_db V S_list_executors)
       (map (scan_with_domains V ds s) (sort_key e_name (s_executors s)))"

definition GetExecutorsByUserRole ::
  "'r env \<Rightarrow> domain_row list \<Rightarrow> bool \<Rightarrow> int \<Rightarrow> 'r sched \<Rightarrow> (executor \<times> domain_row list) list result" where
  "GetExecutorsByUserRole V ds isAdmin d s =
     on_db (env_db V S_list_executors)
       (map (scan_with_domains V ds s) (sort_key e_name
          (if isAdmin then s_executors s
           else map fst (filter (\<lambda>(e, de). de = Some d \<or> e_global e) (left_join s)))))"

definition CanDomainAdminDeleteExecutor :: "'r env \<Rightarrow> int \<Rightarrow> int \<Rightarrow> 'r sched \<Rightarrow> bool result" where
  "CanDomainAdminDeleteExecutor V i d s =
     rbind (GetExecutorDomainCount V i s) (\<lambda>n. Inr (n \<le> 1))"

section \<open>Registration, heartbeats and capacity\<close>

definition host_of :: "string \<Rightarrow> string" where
  "host_of addr = takeWhile (\<lambda>c. c \<noteq> CHR ''#'') addr"

text \<open>Another host answers for the name: it is online and its heartbeat is recent.\<close>

definition duplicate_of :: "'r env \<Rightarrow> string \<Rightarrow> executor \<Rightarrow> bool" where
  "duplicate_of V address e \<longleftrightarrow>
     e_status e = ''online'' \<and> e_address e \<noteq> address \<and>
     host_of (e_address e) \<noteq> host_of address \<and>
     (case e_heartbeat e of None \<Rightarrow> False | Some t \<Rightarrow> t > env_now V - 45 * second)"

definition RegisterExecutor ::
  "'r env \<Rightarrow> string \<Rightarrow> string \<Rightarrow> int \<Rightarrow> 'r sched \<Rightarrow> string result \<times> 'r sched" where
  "RegisterExecutor V name address cap s =
     (case GetExecutorByName V name s of
        Inr e \<Rightarrow>
          (if duplicate_of V address e
           then (Inl ''executor duplicate registration rejected'', s)
           else (let s1 = (if e_id e > 0 then cleanupExecutorStaleTasks V (e_id e) s else s)
                 in case env_db V S_update_executor of
                      Some x \<Rightarrow> (Inl x, s1)
                    | None \<Rightarrow> (Inr name, s1\<lparr>s_executors := upd_where (\<lambda>e. e_name e = name)
                        (\<lambda>e. e\<lparr>e_address := address, e_capacity := cap, e_status := ''online'',
                               e_heartbeat := Some (env_now V), e_updated := env_now V\<rparr>)
                        (s_executors s1)\<rparr>)))
      | Inl _ \<Rightarrow>
          (case env_db V S_insert_executor of
             Some x \<Rightarrow> (Inl x, s)
           | None \<Rightarrow>
               (let s1 = s\<lparr>s_executors := s_executors s @
                      [\<lparr>e_id = env_new_id V, e_name = name, e_address = address,
                        e_status = ''online'', e_heartbeat = Some (env_now V), e_capacity = cap,
                        e_load = 0, e_global = False, e_created = env_now V,
                        e_updated = env_now V\<rparr>]\<rparr>
                in (Inr name, if env_new_id V > 0
                              then snd (AssignExecutorToDefaultDomain V name s1) else s1))))"

definition DeleteExecutor :: "'r env \<Rightarrow> int \<Rightarrow> 'r sched \<Rightarrow> unit result \<times> 'r sched" where
  "DeleteExecutor V i s =
     (case env_db V S_delete_executor of
        Some e \<Rightarrow> (Inl e, s)
      | None \<Rightarrow> (Inr (), s\<lparr>s_executors := del_where (\<lambda>e. e_id e = i) (s_executors s)\<rparr>))"

definition DeleteExecutorByName :: "'r env \<Rightarrow> string \<Rightarrow> 'r sched \<Rightarrow> unit result \<times> 'r sched" where
  "DeleteExecutorByName V n s =
     (case env_db V S_delete_executor of
        Some e \<Rightarrow> (Inl e, s)
      | None \<Rightarrow> (Inr (), s\<lparr>s_executors := del_where (\<lambda>e. e_name e = n) (s_executors s)\<rparr>))"

text \<open>An \<open>UPDATE\<close> of the executors with \<open>p\<close>, whose verdict is that of the statement \<open>st\<close>.\<close>

definition update_executors ::
  "'r env \<Rightarrow> sstmt \<Rightarrow> (executor \<Rightarrow> bool) \<Rightarrow> (executor \<Rightarrow> executor) \<Rightarrow> 'r sched \<Rightarrow> unit result \<times> 'r sched"
  where
  "update_executors V st p f s =
     (case env_db V st of
        Some e \<Rightarrow> (Inl e, s)
      | None \<Rightarrow> (Inr (), s\<lparr>s_executors := upd_where p
          (\<lambda>e. (f e)\<lparr>e_updated := env_now V\<rparr>) (s_executors s)\<rparr>))"

definition SetExecutorStatusByName ::
  "'r env \<Rightarrow> string \<Rightarrow> string \<Rightarrow> 'r sched \<Rightarrow> unit result \<times> 'r sched" where
  "SetExecutorStatusByName V n status s =
     update_executors V S_executor_status (\<lambda>e. e_name e = n) (\<lambda>e. e\<lparr>e_status := status\<rparr>) s"

definition SetExecutorStatus :: "'r env \<Rightarrow> int \<Rightarrow> string \<Rightarrow> 'r sched \<Rightarrow> unit result \<times> 'r sched" where
  "SetExecutorStatus V i status s =
     update_executors V S_executor_status (\<lambda>e. e_id e = i) (\<lambda>e. e\<lparr>e_status := status\<rparr>) s"

definition target_key :: "string \<Rightarrow> string" where
  "target_key x = ''executor:target_capacity:'' @ x"

definition UpdateExecutorCapacityByName ::
  "'r env \<Rightarrow> string \<Rightarrow> int \<Rightarrow> 'r sched \<Rightarrow> unit result \<times> 'r sched" where
  "UpdateExecutorCapacityByName V n cap s =
     (if cap \<le> 0 then (Inl ''capacity must be positive'', s)
      else (case update_executors V S_executor_capacity (\<lambda>e. e_name e = n)
                   (\<lambda>e. e\<lparr>e_capacity := cap\<rparr>) s of
              (Inl e, s1) \<Rightarrow> (Inl e, s1)
            | (Inr u, s1) \<Rightarrow> (Inr (), snd (r_set V (target_key n) (show_int cap) 0 s1))))"

definition UpdateExecutorCapacity ::
  "'r env \<Rightarrow> int \<Rightarrow> int \<Rightarrow> 'r sched \<Rightarrow> unit result \<times> 'r sched" where
  "UpdateExecutorCapacity V i cap s =
     (if cap \<le> 0 then (Inl ''capacity must be positive'', s)
      else (case update_executors V S_executor_capacity (\<lambda>e. e_id e = i)
                   (\<lambda>e. e\<lparr>e_capacity := cap\<rparr>) s of
              (Inl e, s1) \<Rightarrow> (Inl e, s1)
            | (Inr u, s1) \<Rightarrow> (Inr (), snd (r_set V (target_key (show_int i)) (show_int cap) 0 s1))))"

text \<open>\<open>Get(key).Int64()\<close>: an error when the key is missing or is not a decimal.\<close>

definition r_get_int :: "'r env \<Rightarrow> string \<Rightarrow> 'r sched \<Rightarrow> int result" where
  "r_get_int V k s = rbind (r_get V k s) (\<lambda>v. case v of
      None \<Rightarrow> Inl ''redis: nil''
    | Some t \<Rightarrow> if show_int (read_int t) = t then Inr (read_int t) else Inl ''invalid syntax'')"

definition GetExecutorTargetCapacity :: "'r env \<Rightarrow> string \<Rightarrow> 'r sched \<Rightarrow> int result" where
  "GetExecutorTargetCapacity V n s =
     (case r_get_int V (target_key n) s of
        Inr v \<Rightarrow> Inr (wrap32 v)
      | Inl _ \<Rightarrow> rbind (GetExecutorByName V n s) (\<lambda>e. Inr (wrap32 (e_capacity e))))"

fun renew_all :: "'r env \<Rightarrow> string list \<Rightarrow> 'r sched \<Rightarrow> 'r sched" where
  "renew_all V [] s = s"
| "renew_all V (eid # eids) s = renew_all V eids (snd (renewTaskLock V eid s))"

definition UpdateExecutorHeartbeatWithRunningTasks ::
  "'r env \<Rightarrow> string \<Rightarrow> int \<Rightarrow> string list \<Rightarrow> 'r sched \<Rightarrow> unit result \<times> 'r sched" where
  "UpdateExecutorHeartbeatWithRunningTasks V n ld eids s =
     (case update_executors V S_executor_heartbeat (\<lambda>e. e_name e = n \<and> e_status e = ''online'')
             (\<lambda>e. e\<lparr>e_load := ld, e_heartbeat := Some (env_now V)\<rparr>) s of
        (Inl e, s1) \<Rightarrow> (Inl e, s1)
      | (Inr u, s1) \<Rightarrow> (Inr (), renew_all V eids s1))"

definition UpdateExecutorHeartbeat ::
  "'r env \<Rightarrow> string \<Rightarrow> int \<Rightarrow> 'r sched \<Rightarrow> unit result \<times> 'r sched" where
  "UpdateExecutorHeartbeat V n ld s = UpdateExecutorHeartbeatWithRunningTasks V n ld [] s"

section \<open>Selection\<close>

definition eligible :: "'r env \<Rightarrow> int \<Rightarrow> 'r sched \<Rightarrow> executor \<Rightarrow> bool" where
  "eligible V d s e \<longleftrightarrow> e \<in> set (s_executors s) \<and> selectable (env_now V) e \<and>
     (d > 0 \<longrightarrow> (d, e_id e) \<in> set (s_domain_executors s) \<or> e_global e)"

lemma domains_of_set: "d \<in> set (domains_of s i) \<longleftrightarrow> (d, i) \<in> set (s_domain_executors s)"
  by (force simp: domains_of_def)

lemma left_join_set:
  "(e, de) \<in> set (left_join s) \<longleftrightarrow> e \<in> set (s_executors s) \<and>
     (de = None \<and> domains_of s (e_id e) = [] \<or> (\<exists>d\<in>set (domains_of s (e_id e)). de = Some d))"
  by (auto simp: left_join_def split: if_splits)

lemma candidates_set: "e \<in> set (candidates V d s) \<longleftrightarrow> eligible V d s e"
proof (cases "d > 0")
  case True
  have "(\<exists>de. (e, de) \<in> set (left_join s) \<and> (de = Some d \<or> e_global e)) \<longleftrightarrow>
      e \<in> set (s_executors s) \<and> ((d, e_id e) \<in> set (s_domain_executors s) \<or> e_global e)"
    using domains_of_set [of d s "e_id e"]
    by (cases "domains_of s (e_id e)") (auto simp: left_join_set)
  then show ?thesis using True by (force simp: candidates_def eligible_def)
next
  case False
  then show ?thesis by (auto simp: candidates_def eligible_def)
qed

lemma least_loaded_Some:
  assumes "least_loaded c es = Some e"
  shows "e \<in> set es \<and> (\<forall>f\<in>set es. e_load e \<le> e_load f)"
proof -
  let ?best = "filter (\<lambda>e. e_load e = Min (e_load ` set es)) es"
  have ne: "es \<noteq> []" and e: "e = ?best ! (c mod length ?best)"
    using assms by (auto simp: least_loaded_def Let_def split: if_splits)
  have "Min (e_load ` set es) \<in> e_load ` set es" using ne by (intro Min_in) auto
  then have "?best \<noteq> []" by (auto simp: filter_empty_conv)
  then have "e \<in> set ?best" unfolding e by (intro nth_mem) simp
  then show ?thesis by auto
qed

lemma least_loaded_None: "least_loaded c es = None \<longleftrightarrow> es = []"
  by (simp add: least_loaded_def Let_def)

text \<open>The executor that load balancing picks is online, has a free slot, sent a heartbeat in the
  last 45 seconds, belongs to the task's domain or is global, and no other such executor carries
  less load; and the call fails only when no executor qualifies.\<close>

theorem SelectAvailableExecutor_correct:
  assumes "env_db V S_select_executor = None" and "\<forall>e\<in>set (s_executors s). proper_times e"
  shows "case SelectAvailableExecutor V d s of
       Inr x \<Rightarrow> \<exists>e. eligible V d s e \<and> x = e\<lparr>e_global := False\<rparr> \<and>
                  (\<forall>f. eligible V d s f \<longrightarrow> e_load e \<le> e_load f)
     | Inl err \<Rightarrow> \<not> (\<exists>e. eligible V d s e)"
proof (cases "least_loaded (env_choice V) (candidates V d s)")
  case None
  then have "set (candidates V d s) = {}" by (simp add: least_loaded_None)
  then show ?thesis
    using assms(1) None candidates_set [of _ V d s] by (simp add: SelectAvailableExecutor_def)
next
  case (Some e)
  then have "eligible V d s e" "\<forall>f. eligible V d s f \<longrightarrow> e_load e \<le> e_load f"
    using least_loaded_Some candidates_set by metis+
  moreover have "scanExecutorResult (executor_row9 e) = e\<lparr>e_global := False\<rparr>"
    using assms(2) calculation(1) scan_row9 by (simp add: eligible_def)
  ultimately show ?thesis
    using assms(1) Some by (auto simp: SelectAvailableExecutor_def)
qed

text \<open>Read by id or by name, an executor is never global and its timestamps are shifted: the
  ten-column queries select \<open>is_global\<close> between the load and the timestamps, where the scanner
  expects the time of creation.\<close>

theorem executor_read_back_shifted:
  assumes "env_db V S_get_executor = None"
    and "first_where (\<lambda>e. e_id e = i) (s_executors s) = Some e" "proper_times e"
  shows "GetExecutorByID V i s =
    Inr (e\<lparr>e_global := False, e_created := 0, e_updated := e_created e\<rparr>)"
  using assms by (simp add: GetExecutorByID_def scan_row10)

section \<open>Registration\<close>

lemma first_where_upd_name:
  "first_where (\<lambda>e. e_name e = n) es = Some e \<Longrightarrow> (\<And>x. e_name (f x) = e_name x) \<Longrightarrow>
   first_where (\<lambda>e. e_name e = n) (upd_where (\<lambda>e. e_name e = n) f es) = Some (f e)"
  by (induction es) (auto split: if_splits)

lemma cleanup_stale_executors [simp]:
  "s_executors (cleanupExecutorStaleTasks V i s) = s_executors s"
  by (simp add: cleanupExecutorStaleTasks_def r_del_def Let_def split: option.splits)

text \<open>An executor may register under a name that exists unless another host holds it: one that
  is online with a heartbeat of the last 45 seconds. A refusal changes nothing; otherwise the row
  carries the new address and capacity, is online and has just been heard of.\<close>

theorem RegisterExecutor_takes_over_unless_live:
  assumes "\<forall>st. env_db V st = None"
    and "first_where (\<lambda>e. e_name e = name) (s_executors s) = Some e" "proper_times e"
  shows "if duplicate_of V addr e
    then \<exists>err. RegisterExecutor V name addr c s = (Inl err, s)
    else fst (RegisterExecutor V name addr c s) = Inr name \<and>
      first_where (\<lambda>e. e_name e = name) (s_executors (snd (RegisterExecutor V name addr c s))) =
        Some (e\<lparr>e_address := addr, e_capacity := c, e_status := ''online'',
                 e_heartbeat := Some (env_now V), e_updated := env_now V\<rparr>)"
proof -
  let ?x = "e\<lparr>e_global := False, e_created := 0, e_updated := e_created e\<rparr>"
  have x: "GetExecutorByName V name s = Inr ?x"
    using assms by (simp add: GetExecutorByName_def scan_row10)
  have dup: "duplicate_of V addr ?x = duplicate_of V addr e" by (simp add: duplicate_of_def)
  show ?thesis
  proof (cases "duplicate_of V addr e")
    case True
    then show ?thesis using x dup by (simp add: RegisterExecutor_def)
  next
    case False
    then show ?thesis
      using x dup assms(1,2) by (simp add: RegisterExecutor_def Let_def first_where_upd_name)
  qed
qed

section \<open>Capacity\<close>

lemma update_executors_redis [simp]: "s_redis (snd (update_executors V st p f s)) = s_redis s"
  by (simp add: update_executors_def split: option.splits)

lemma r_set_up:
  assumes "redis_server (env_redis V) kv" "redis_up (env_redis V)" "d \<noteq> - 1"
  shows "kv (s_redis (snd (r_set V k v d s))) = put (env_now V) k v d (kv (s_redis s))"
proof -
  obtain u r' where "redis_Set (env_redis V) (env_now V) k v d (s_redis s) = (Inr u, r')"
    using up_Set [OF assms(2)] by blast
  then show ?thesis
    using redis_server.set_law [OF assms(1,3)] by (simp add: r_set_def)
qed

lemma r_del_up:
  assumes "redis_server (env_redis V) kv" "redis_up (env_redis V)"
  shows "kv (s_redis (r_del V ks s)) = drop_keys ks (kv (s_redis s))"
proof -
  obtain u r' where "redis_Del (env_redis V) (env_now V) ks (s_redis s) = (Inr u, r')"
    using up_Del [OF assms(2)] by blast
  then show ?thesis using redis_server.del_law [OF assms(1)] by (simp add: r_del_def)
qed

text \<open>The target capacity that an executor polls is the last one set by name. A later update
  by id changes the row but not the key that the poll reads, so the poll keeps answering the old
  value.\<close>

theorem target_capacity_ignores_update_by_id:
  assumes "redis_server (env_redis V) kv" "redis_up (env_redis V)"
    and "env_db V S_executor_capacity = None"
    and "0 < c" "0 < c'" "c < 2 ^ 31" "name \<noteq> show_int i"
  shows "let s1 = snd (UpdateExecutorCapacityByName V name c s);
             s2 = snd (UpdateExecutorCapacity V i c' s1)
         in GetExecutorTargetCapacity V name s1 = Inr c \<and>
            GetExecutorTargetCapacity V name s2 = Inr c"
proof -
  define s1 where "s1 = snd (UpdateExecutorCapacityByName V name c s)"
  define s2 where "s2 = snd (UpdateExecutorCapacity V i c' s1)"
  have "kv (s_redis s1) (target_key name) = Some (show_int c, None)"
    using assms(3,4) r_set_up [OF assms(1,2)]
    by (simp add: s1_def UpdateExecutorCapacityByName_def update_executors_def put_def expiry_def)
  moreover have "target_key name \<noteq> target_key (show_int i)" using assms(7) by (simp add: target_key_def)
  then have "kv (s_redis s2) (target_key name) = kv (s_redis s1) (target_key name)"
    using assms(3,5) r_set_up [OF assms(1,2)]
    by (simp add: s2_def UpdateExecutorCapacity_def update_executors_def)
  moreover have "GetExecutorTargetCapacity V name u = Inr c"
    if k: "kv (s_redis u) (target_key name) = Some (show_int c, None)" for u
  proof -
    obtain v where v: "redis_Get (env_redis V) (env_now V) (target_key name) (s_redis u) = Inr v"
      using up_Get [OF assms(2)] by blast
    then have "v = Some (show_int c)" using redis_server.get_law [OF assms(1)] k by fastforce
    then show ?thesis
      using v assms(4,6)
      by (simp add: GetExecutorTargetCapacity_def r_get_int_def r_get_def read_show_int)
  qed
  ultimately show ?thesis by (simp add: s1_def s2_def Let_def)
qed

text \<open>An admin of any domain may delete an executor that is assigned to no more than one domain.\<close>

lemma can_delete_foreign_executor:
  "env_db V S_executor_domains = None \<Longrightarrow> s_domain_executors s = [(3, 7)] \<Longrightarrow>
   CanDomainAdminDeleteExecutor V 7 2 s = Inr True \<and> IsExecutorInDomain V 7 2 s = Inr False"
  by (simp add: CanDomainAdminDeleteExecutor_def GetExecutorDomainCount_def IsExecutorInDomain_def
      count_where_def)

section \<open>Renewal\<close>

text \<open>Execution ids start with \<open>exec-\<close>, which keeps the families of keys apart.\<close>

definition exec_id :: "string \<Rightarrow> bool" where
  "exec_id e \<longleftrightarrow> take 5 e = ''exec-''"

lemma renew_not_fail: "exec_id a \<Longrightarrow> renew_key a \<noteq> fail_key b"
proof
  assume "exec_id a" "renew_key a = fail_key b"
  then have "a = ''fail:count:'' @ b" by (simp add: renew_key_def fail_key_def)
  with \<open>exec_id a\<close> show False by (simp add: exec_id_def)
qed

definition renewed :: "('r \<Rightarrow> keys) \<Rightarrow> 'r env \<Rightarrow> string \<Rightarrow> 'r sched \<Rightarrow> bool" where
  "renewed kv V eid s \<longleftrightarrow> (\<forall>t. env_now V \<le> t \<longrightarrow> t < env_now V + 60 * second \<longrightarrow>
     live t (kv (s_redis s) (lock_key eid)) \<noteq> None \<and>
     live t (kv (s_redis s) (renew_key eid)) = Some (show_int (unix V)) \<and>
     kv (s_redis s) (fail_key eid) = None)"

definition lock_renewed :: "'r env \<Rightarrow> string \<Rightarrow> int \<Rightarrow> keys \<Rightarrow> keys" where
  "lock_renewed V eid ttl m =
     (if live (env_now V) (m (lock_key eid)) = None
      then put (env_now V) (lock_key eid) ''recovered_by_executor'' ttl m
      else touch (env_now V) (lock_key eid) ttl m)"

lemma renewTaskLock_keys:
  fixes V :: "'r env" and eid :: string and s :: "'r sched"
  assumes "redis_server (env_redis V) kv" "redis_up (env_redis V)"
  defines "ttl \<equiv> renew_ttl (timeout_of_execution V eid s) * second"
  shows "kv (s_redis (snd (renewTaskLock V eid s))) =
    drop_keys [fail_key eid] (put (env_now V) (renew_key eid) (show_int (unix V)) ttl
      (lock_renewed V eid ttl (kv (s_redis s))))"
proof -
  have "60 \<le> renew_ttl (timeout_of_execution V eid s)" using clamp_bounds by (simp add: renew_ttl_def)
  then have ttl: "0 < ttl" unfolding ttl_def by linarith
  obtain b where b: "redis_Exists (env_redis V) (env_now V) (lock_key eid) (s_redis s) = Inr b"
    using up_Exists [OF assms(2)] by blast
  then have b': "b = (live (env_now V) (kv (s_redis s) (lock_key eid)) \<noteq> None)"
    using redis_server.exists_law [OF assms(1)] by blast
  obtain y r1 where y: "redis_Expire (env_redis V) (env_now V) (lock_key eid) ttl (s_redis s) = (Inr y, r1)"
    using up_Expire [OF assms(2)] by blast
  obtain u r2 where u: "redis_Set (env_redis V) (env_now V) (lock_key eid) ''recovered_by_executor''
      ttl (s_redis s) = (Inr u, r2)"
    using up_Set [OF assms(2)] by blast
  note set = r_set_up [OF assms(1,2)] and del = r_del_up [OF assms(1,2)]
  have "kv r1 = touch (env_now V) (lock_key eid) ttl (kv (s_redis s))"
      "kv r2 = put (env_now V) (lock_key eid) ''recovered_by_executor'' ttl (kv (s_redis s))"
    using redis_server.expire_law [OF assms(1) ttl y] redis_server.set_law [OF assms(1) _ u] ttl
    by simp_all
  then show ?thesis
    using b b' y u ttl
    by (simp add: renewTaskLock_def r_exists_def r_expire_def r_set_def [of V "lock_key eid"]
        ttl_def [symmetric] Let_def set del lock_renewed_def)
qed

lemma renewTaskLock_self:
  assumes "redis_server (env_redis V) kv" "redis_up (env_redis V)" "exec_id eid"
  shows "renewed kv V eid (snd (renewTaskLock V eid s))"
proof -
  let ?ttl = "renew_ttl (timeout_of_execution V eid s) * second"
  have "60 \<le> renew_ttl (timeout_of_execution V eid s)" using clamp_bounds by (simp add: renew_ttl_def)
  then have ttl: "60 * second \<le> ?ttl" by simp
  show ?thesis
    using ttl renew_not_fail [OF assms(3)]
    unfolding renewed_def renewTaskLock_keys [OF assms(1,2)]
    by (auto simp: lock_renewed_def put_def touch_def drop_keys_def expiry_def)
qed

lemma renewTaskLock_other:
  assumes "redis_server (env_redis V) kv" "redis_up (env_redis V)" "exec_id eid" "exec_id eid'"
    and "renewed kv V eid s" "eid \<noteq> eid'"
  shows "renewed kv V eid (snd (renewTaskLock V eid' s))"
  using assms(5,6) renew_not_fail [OF assms(3)] renew_not_fail [OF assms(4)]
    renew_not_fail [OF assms(4), THEN not_sym]
  unfolding renewed_def renewTaskLock_keys [OF assms(1,2)]
  by (auto simp: lock_renewed_def put_def touch_def drop_keys_def)

lemma renew_all_renewed:
  assumes "redis_server (env_redis V) kv" "redis_up (env_redis V)"
  shows "\<forall>e\<in>set eids. exec_id e \<Longrightarrow> exec_id eid \<Longrightarrow> eid \<in> set eids \<or> renewed kv V eid s \<Longrightarrow>
    renewed kv V eid (renew_all V eids s)"
proof (induction eids arbitrary: s)
  case Nil
  then show ?case by simp
next
  case (Cons e eids)
  have "renewed kv V eid (snd (renewTaskLock V e s))" if "e = eid \<or> renewed kv V eid s"
    using that Cons.prems renewTaskLock_self [OF assms] renewTaskLock_other [OF assms]
    by (cases "e = eid") auto
  then show ?case using Cons by auto
qed

text \<open>A heartbeat keeps the lock of every task that the executor reports as running alive for at
  least a minute, whether or not the lock still existed, dates its renewal record and clears its
  failure count.\<close>

theorem heartbeat_renews_reported_tasks:
  assumes "redis_server (env_redis V) kv" "redis_up (env_redis V)"
    and "env_db V S_executor_heartbeat = None"
    and "\<forall>e\<in>set eids. exec_id e" "eid \<in> set eids"
  shows "renewed kv V eid (snd (UpdateExecutorHeartbeatWithRunningTasks V n ld eids s))"
  using renew_all_renewed [OF assms(1,2,4)] assms(3-5)
  by (simp add: UpdateExecutorHeartbeatWithRunningTasks_def update_executors_def)

section \<open>A concrete scheduler\<close>

definition demo_env :: "keys env" where
  "demo_env =
     \<lparr>env_redis = mem_redis, env_db = (\<lambda>st. None), env_now = 100 * second,
      env_dispatcher = Some (\<lambda>n g. None), env_webhooks = True, env_events = (\<lambda>s. []),
      env_cron = True, env_notifier = True, env_connected = (\<lambda>n. True), env_text_times = True, env_dial = (\<lambda>a. True),
      env_choice = 0, env_new_id = 9\<rparr>"

definition demo_executor :: executor where
  "demo_executor =
     \<lparr>e_id = 7, e_name = ''w1'', e_address = ''h1#1'', e_status = ''online'',
      e_heartbeat = Some (90 * second), e_capacity = 4, e_load = 1, e_global = True,
      e_created = second, e_updated = second\<rparr>"

definition demo_task :: task where
  "demo_task =
     \<lparr>t_id = 5, t_name = ''t'', t_type = ''shell'', t_config = [], t_cron = [], t_timeout = 30,
      t_retry_count = 2, t_retry_interval = 10, t_enabled = True, t_status = ''pending'',
      t_domain = 1, t_webhook = None, t_webhook_events = [], t_assigned = 0, t_created_by = 1,
      t_updated = 0\<rparr>"

definition demo_sched :: "keys sched" where
  "demo_sched =
     \<lparr>s_tasks = [demo_task], s_execs = [], s_executors = [demo_executor],
      s_domain_executors = [(1, 7)], s_logs = [], s_webhooks = [], s_redis = Map.empty,
      s_leader = True, s_cron = Map.empty, s_sent = [], s_notified = [], s_cancels = [],
      s_retries = [], s_failures = [], s_reloads = 0\<rparr>"

lemmas demo_defs = demo_env_def demo_sched_def demo_executor_def demo_task_def

lemma demo_env_simps [simp]:
  "env_redis demo_env = mem_redis" "env_db demo_env st = None" "env_now demo_env = 100 * second"
  "env_dispatcher demo_env = Some (\<lambda>n g. None)" "env_new_id demo_env = 9" "env_choice demo_env = 0"
  by (simp_all add: demo_env_def)

lemma demo_proper: "proper_times demo_executor"
  by (simp add: proper_times_def demo_executor_def)

theorem SelectAvailableExecutor_correct_witness:
  "\<exists>x. SelectAvailableExecutor demo_env 1 demo_sched = Inr x"
proof -
  have "eligible demo_env 1 demo_sched demo_executor"
    by (simp add: eligible_def demo_sched_def demo_executor_def selectable_def heartbeat_after_def)
  then show ?thesis
    using SelectAvailableExecutor_correct [of demo_env demo_sched 1] demo_proper
    by (cases "SelectAvailableExecutor demo_env 1 demo_sched") (auto simp: demo_sched_def)
qed

theorem executor_read_back_shifted_witness:
  "\<exists>x. GetExecutorByID demo_env 7 demo_sched = Inr x \<and> \<not> e_global x \<and> e_created x = 0"
  using executor_read_back_shifted [of demo_env 7 demo_sched demo_executor] demo_proper
  by (simp add: demo_sched_def demo_executor_def)

theorem RegisterExecutor_takes_over_unless_live_witness:
  "RegisterExecutor demo_env ''w1'' ''h2#1'' 3 demo_sched =
     (Inl ''executor duplicate registration rejected'', demo_sched) \<and>
   fst (RegisterExecutor demo_env ''w1'' ''h1#2'' 3 demo_sched) = Inr ''w1''"
proof -
  have "first_where (\<lambda>e. e_name e = ''w1'') (s_executors demo_sched) = Some demo_executor"
    by (simp add: demo_sched_def demo_executor_def)
  note reg = RegisterExecutor_takes_over_unless_live [OF _ this demo_proper, of demo_env]
  have "duplicate_of demo_env ''h2#1'' demo_executor"
    by (simp add: duplicate_of_def demo_executor_def host_of_def)
  moreover have "\<not> duplicate_of demo_env ''h1#2'' demo_executor"
    by (simp add: duplicate_of_def demo_executor_def host_of_def)
  ultimately show ?thesis
    using reg [of "''h2#1''" 3] reg [of "''h1#2''" 3]
    by (auto simp: RegisterExecutor_def split: sum.splits if_splits)
qed

theorem target_capacity_ignores_update_by_id_witness:
  "GetExecutorTargetCapacity demo_env ''w1''
     (snd (UpdateExecutorCapacity demo_env 7 8 (snd (UpdateExecutorCapacityByName demo_env ''w1'' 3 demo_sched))))
   = Inr 3"
  using target_capacity_ignores_update_by_id [of demo_env "\<lambda>m. m" 3 8 "''w1''" 7 demo_sched]
    mem_server mem_redis_up by (simp add: show_int_def show_nat.simps Let_def)

theorem heartbeat_renews_reported_tasks_witness:
  "renewed (\<lambda>m. m) demo_env ''exec-5-1''
     (snd (UpdateExecutorHeartbeatWithRunningTasks demo_env ''w1'' 1 [''exec-5-1''] demo_sched))"
  by (rule heartbeat_renews_reported_tasks) (simp_all add: mem_server mem_redis_up exec_id_def)

end
