(* ===== verification/Tasks.thy ===== *)
theory Tasks
  imports Executors
begin

text \<open>
  Tasks and their executions (scheduler/internal/service/task_service.go, the writing half of
  execution_service.go and \<open>SendWebhookNotification\<close> of scheduler_core.go): creating, changing and
  deleting tasks, dispatching an execution, triggering, the handling of failures with bounded
  retries, results, progress, logs and cancellation. Logging and metrics are left out. A method
  that returns a value and an error returns both here when the code does.
\<close>

section \<open>Tasks\<close>

definition GetTaskByID :: "'r env \<Rightarrow> int \<Rightarrow> 'r sched \<Rightarrow> task result" where
  "GetTaskByID V i s =
     rbind (on_db (env_db V S_get_task) (first_where (\<lambda>t. t_id t = i) (s_tasks s)))
       (\<lambda>row. case row of None \<Rightarrow> Inl ''task not found'' | Some t \<Rightarrow> Inr t)"

definition reload_key :: string where "reload_key = ''cron:needs_reload''"

text \<open>A node that is not the leader asks the leader to reload the cron tasks.\<close>

definition ask_reload :: "'r env \<Rightarrow> 'r sched \<Rightarrow> 'r sched" where
  "ask_reload V s = snd (r_set V reload_key (show_int (unix V)) (5 * minute) s)"

definition RegisterTask :: "int \<Rightarrow> string \<Rightarrow> 'r sched \<Rightarrow> 'r sched" where
  "RegisterTask i cron s = s\<lparr>s_cron := (s_cron s)(i \<mapsto> cron)\<rparr>"

definition UnregisterTask :: "int \<Rightarrow> 'r sched \<Rightarrow> 'r sched" where
  "UnregisterTask i s = s\<lparr>s_cron := (s_cron s)(i := None)\<rparr>"

text \<open>The handler's \<open>INSERT\<close> is the row it adds, whose id the database chooses.\<close>

definition CreateTask :: "'r env \<Rightarrow> task \<Rightarrow> 'r sched \<Rightarrow> task result \<times> 'r sched" where
  "CreateTask V t s =
     (case env_db V S_insert_task of
        Some e \<Rightarrow> (Inl e, s)
      | None \<Rightarrow>
          (let s1 = s\<lparr>s_tasks := s_tasks s @ [t\<lparr>t_id := env_new_id V\<rparr>]\<rparr>
           in case GetTaskByID V (env_new_id V) s1 of
                Inl e \<Rightarrow> (Inl e, s1)
              | Inr t1 \<Rightarrow>
                  (Inr t1,
                   if env_cron V \<and> s_leader s1 \<and> t_enabled t1 \<and> t_cron t1 \<noteq> []
                   then RegisterTask (t_id t1) (t_cron t1) s1
                   else if env_cron V \<and> \<not> s_leader s1 then ask_reload V s1 else s1)))"

definition UpdateTask :: "'r env \<Rightarrow> int \<Rightarrow> task \<Rightarrow> 'r sched \<Rightarrow> unit result \<times> 'r sched" where
  "UpdateTask V i new s =
     (case env_db V S_update_task of
        Some e \<Rightarrow> (Inl e, s)
      | None \<Rightarrow>
          (let s1 = s\<lparr>s_tasks := upd_where (\<lambda>t. t_id t = i)
                 (\<lambda>t. t\<lparr>t_name := t_name new, t_type := t_type new, t_config := t_config new,
                   t_cron := t_cron new, t_timeout := t_timeout new,
                   t_retry_count := t_retry_count new, t_retry_interval := t_retry_interval new,
                   t_enabled := t_enabled new, t_webhook := t_webhook new,
                   t_webhook_events := t_webhook_events new,
                   t_assigned := (if t_assigned new > 0 then t_assigned new else 0),
                   t_updated := env_now V\<rparr>) (s_tasks s)\<rparr>
           in case GetTaskByID V i s1 of
                Inl e \<Rightarrow> (Inl e, s1)
              | Inr t1 \<Rightarrow>
                  (Inr (),
                   if env_cron V \<and> s_leader s1
                   then (if t_enabled t1 \<and> t_cron t1 \<noteq> [] then RegisterTask i (t_cron t1) s1
                         else UnregisterTask i s1)
                   else if env_cron V \<and> \<not> s_leader s1 then ask_reload V s1 else s1)))"

definition DeleteTask :: "'r env \<Rightarrow> int \<Rightarrow> 'r sched \<Rightarrow> unit result \<times> 'r sched" where
  "DeleteTask V i s =
     (case env_db V S_delete_task of
        Some e \<Rightarrow> (Inl e, s)
      | None \<Rightarrow>
          (let s1 = s\<lparr>s_tasks := del_where (\<lambda>t. t_id t = i) (s_tasks s)\<rparr>
           in (Inr (), if env_cron V \<and> s_leader s1 then UnregisterTask i s1
                       else if env_cron V \<and> \<not> s_leader s1 then ask_reload V s1 else s1)))"

text \<open>A task with a cron expression keeps its status: only the time of the update is written.\<close>

definition UpdateTaskStatusByID :: "'r env \<Rightarrow> int \<Rightarrow> string \<Rightarrow> 'r sched \<Rightarrow> unit result \<times> 'r sched" where
  "UpdateTaskStatusByID V i status s =
     (case env_db V S_task_status of
        Some e \<Rightarrow> (Inl e, s)
      | None \<Rightarrow>
          (let cron = (case GetTaskByID V i s of Inl e \<Rightarrow> False | Inr t \<Rightarrow> t_cron t \<noteq> [])
           in (Inr (), s\<lparr>s_tasks := upd_where (\<lambda>t. t_id t = i)
                (\<lambda>t. if cron then t\<lparr>t_updated := env_now V\<rparr>
                     else t\<lparr>t_status := status, t_updated := env_now V\<rparr>) (s_tasks s)\<rparr>)))"

definition ScanPendingTasks :: "'r env \<Rightarrow> 'r sched \<Rightarrow> task list result" where
  "ScanPendingTasks V s =
     on_db (env_db V S_pending_tasks) (filter (\<lambda>t. t_enabled t \<and> t_cron t \<noteq> []) (s_tasks s))"

text \<open>The filter of the task list; \<open>like\<close> is the database's \<open>LIKE '%name%'\<close>.\<close>

record task_filter =
  f_domain :: int
  f_role :: string
  f_page :: int
  f_size :: int
  f_created_by :: int
  f_name :: string
  f_type :: string
  f_enabled :: "bool option"

definition is_admin_role :: "string \<Rightarrow> bool" where
  "is_admin_role r \<longleftrightarrow> r = ''system_admin'' \<or> r = ''admin''"

definition task_matches :: "(string \<Rightarrow> string \<Rightarrow> bool) \<Rightarrow> task_filter \<Rightarrow> task \<Rightarrow> bool" where
  "task_matches like f t \<longleftrightarrow>
     (is_admin_role (f_role f) \<or> t_domain t = f_domain f) \<and>
     (f_created_by f > 0 \<longrightarrow> t_created_by t = f_created_by f) \<and>
     (f_name f \<noteq> [] \<longrightarrow> like (f_name f) (t_name t)) \<and>
     (f_type f \<noteq> [] \<longrightarrow> t_type t = f_type f) \<and>
     (case f_enabled f of None \<Rightarrow> True | Some b \<Rightarrow> t_enabled t = b)"

text \<open>\<open>recent_first\<close> is the database's \<open>ORDER BY t.created_at DESC\<close>.\<close>

definition ListTasksWithFilter ::
  "'r env \<Rightarrow> (string \<Rightarrow> string \<Rightarrow> bool) \<Rightarrow> (task list \<Rightarrow> task list) \<Rightarrow> task_filter \<Rightarrow> 'r sched
     \<Rightarrow> (task list \<times> int) result" where
  "ListTasksWithFilter V like recent_first f s =
     (let rows = filter (task_matches like f) (s_tasks s)
      in rbind (on_db (env_db V S_count_tasks) (int (length rows))) (\<lambda>total.
           rbind (on_db (env_db V S_list_tasks) (paged (f_page f) (f_size f) (recent_first rows)))
             (\<lambda>page. Inr (page, total))))"

definition ListTasks ::
  "'r env \<Rightarrow> (string \<Rightarrow> string \<Rightarrow> bool) \<Rightarrow> (task list \<Rightarrow> task list) \<Rightarrow> int \<Rightarrow> string \<Rightarrow> int \<Rightarrow> int
     \<Rightarrow> int option \<Rightarrow> 'r sched \<Rightarrow> (task list \<times> int) result" where
  "ListTasks V like recent_first d role page sz creator s =
     ListTasksWithFilter V like recent_first
       \<lparr>f_domain = d, f_role = role, f_page = page, f_size = sz,
        f_created_by = (case creator of Some c \<Rightarrow> if c > 0 then c else 0 | None \<Rightarrow> 0),
        f_name = [], f_type = [], f_enabled = None\<rparr> s"

section \<open>Webhooks\<close>

definition getExecutionDurationFromDB :: "'r env \<Rightarrow> string \<Rightarrow> 'r sched \<Rightarrow> int" where
  "getExecutionDurationFromDB V eid s =
     (case env_db V S_duration of
        Some e \<Rightarrow> 0
      | None \<Rightarrow>
          (case first_where (\<lambda>x. x_eid x = eid) (s_execs s) of
             None \<Rightarrow> 0
           | Some x \<Rightarrow> (case (x_start x, x_end x) of
                 (Some a, Some b) \<Rightarrow> if b - a < 0 then 0 else (b - a) div 1000000
               | _ \<Rightarrow> 0)))"

definition event_of :: "string \<Rightarrow> string" where
  "event_of status =
     (if status = ''failed'' then ''failed'' else if status = ''skipped'' then ''skipped'' else ''success'')"

definition SendWebhookNotification ::
  "'r env \<Rightarrow> int \<Rightarrow> string \<Rightarrow> string \<Rightarrow> string \<Rightarrow> string \<Rightarrow> int \<Rightarrow> 'r sched \<Rightarrow> 'r sched" where
  "SendWebhookNotification V tid eid status out err dur s =
     (if \<not> env_webhooks V then s
      else (case GetTaskByID V tid s of
         Inl e \<Rightarrow> s
       | Inr t \<Rightarrow>
           (case t_webhook t of
              None \<Rightarrow> s
            | Some w \<Rightarrow>
                (case on_db (env_db V S_webhook) (first_where (\<lambda>x. w_id x = w) (s_webhooks s)) of
                   Inr (Some wh) \<Rightarrow>
                     (if \<not> w_enabled wh then s
                      else (let event = event_of status;
                                events = (if t_webhook_events t \<noteq> [] then env_events V (t_webhook_events t) else []);
                                ms = (if dur \<le> 0 then getExecutionDurationFromDB V eid s else dur)
                            in if events \<noteq> [] \<and> event \<notin> set events \<and> ''*'' \<notin> set events then s
                               else s\<lparr>s_notified := s_notified s @
                                 [\<lparr>n_task = tid, n_eid = eid, n_event = event, n_status = status,
                                   n_output = out, n_error = err, n_duration = ms\<rparr>]\<rparr>))
                 | _ \<Rightarrow> s))))"

section \<open>Logs and results\<close>

definition hex_digit :: "nat \<Rightarrow> char" where
  "hex_digit d = char_of (if d < 10 then 48 + d else 87 + d)"

definition hex :: "string \<Rightarrow> string" where
  "hex s = concat (map (\<lambda>c. [hex_digit (of_char c div 16), hex_digit (of_char c mod 16)]) s)"

definition dedup_key :: "string \<Rightarrow> string \<Rightarrow> string \<Rightarrow> string \<Rightarrow> string" where
  "dedup_key eid node level msg =
     ''task:log:dedup:'' @ hex (eid @ ''-'' @ node @ ''-'' @ level @ ''-'' @ msg)"

definition executor_of_log :: "'r env \<Rightarrow> string \<Rightarrow> 'r sched \<Rightarrow> int option" where
  "executor_of_log V eid s =
     (case on_db (env_db V S_log_executor) (first_where (\<lambda>x. x_eid x = eid) (s_execs s)) of
        Inr (Some x) \<Rightarrow> opt_pos (x_executor x)
      | _ \<Rightarrow> None)"

definition append_output :: "'r env \<Rightarrow> string \<Rightarrow> string \<Rightarrow> string \<Rightarrow> 'r sched \<Rightarrow> 'r sched" where
  "append_output V eid level msg s =
     (if (level = ''stdout'' \<or> level = ''stderr'') \<and> env_db V S_append_output = None
      then s\<lparr>s_execs := upd_where (\<lambda>x. x_eid x = eid)
             (\<lambda>x. if level = ''stdout'' then x\<lparr>x_output := x_output x @ msg\<rparr>
                  else x\<lparr>x_error := x_error x @ msg\<rparr>) (s_execs s)\<rparr>
      else s)"

definition insert_log :: "'r env \<Rightarrow> task_log \<Rightarrow> 'r sched \<Rightarrow> unit result \<times> 'r sched" where
  "insert_log V l s =
     (case env_db V S_insert_log of
        None \<Rightarrow> (Inr (), s\<lparr>s_logs := s_logs s @ [l]\<rparr>)
      | Some e \<Rightarrow>
          (case env_db V S_insert_log_fallback of
             Some e' \<Rightarrow> (Inl e', s)
           | None \<Rightarrow> (Inr (), s\<lparr>s_logs := s_logs s @ [l\<lparr>l_executor := None\<rparr>]\<rparr>)))"

definition AddTaskLog ::
  "'r env \<Rightarrow> string \<Rightarrow> int \<Rightarrow> string \<Rightarrow> string \<Rightarrow> string \<Rightarrow> 'r sched \<Rightarrow> unit result \<times> 'r sched" where
  "AddTaskLog V eid tid node level msg s =
     (let key = dedup_key eid node level msg
      in case r_exists V key s of
           Inr True \<Rightarrow> (Inr (), s)
         | _ \<Rightarrow>
             (let s1 = snd (r_set V key ''1'' (30 * second) s);
                  l = \<lparr>l_eid = eid, l_task = tid, l_executor = executor_of_log V eid s,
                       l_node = node, l_level = level, l_message = msg, l_time = env_now V\<rparr>
              in case insert_log V l s1 of
                   (Inl e, s2) \<Rightarrow> (Inl e, s2)
                 | (Inr u, s2) \<Rightarrow> (Inr (), append_output V eid level msg s2)))"

definition terminal :: "string \<Rightarrow> bool" where
  "terminal st \<longleftrightarrow> st = ''success'' \<or> st = ''failed'' \<or> st = ''timeout''"

text \<open>The optional range is in Unix seconds, as an executor reports it.\<close>

definition result_times :: "'r env \<Rightarrow> (int \<times> int) option \<Rightarrow> instant \<times> instant" where
  "result_times V rng = (case rng of
      Some (a, b) \<Rightarrow> if a > 0 \<and> b > 0 \<and> b \<ge> a then (a * second, b * second)
                    else (env_now V, env_now V)
    | None \<Rightarrow> (env_now V, env_now V))"

definition UpdateExecutionResult ::
  "'r env \<Rightarrow> string \<Rightarrow> string \<Rightarrow> string \<Rightarrow> string \<Rightarrow> (int \<times> int) option \<Rightarrow> 'r sched
     \<Rightarrow> unit result \<times> 'r sched" where
  "UpdateExecutionResult V eid status out err rng s =
     (case env_db V S_execution_result of
        Some e \<Rightarrow> (Inl e, s)
      | None \<Rightarrow>
          (let (a, b) = result_times V rng;
               s1 = s\<lparr>s_execs := upd_where (\<lambda>x. x_eid x = eid)
                 (\<lambda>x. x\<lparr>x_status := status, x_output := out, x_error := err,
                   x_end := (if terminal status then Some b else x_end x),
                   x_start := (case x_start x of None \<Rightarrow> Some a | Some t \<Rightarrow> Some t)\<rparr>) (s_execs s)\<rparr>
           in (Inr (), r_del V [lock_key eid, renew_key eid, fail_key eid] s1)))"

definition UpdateTaskProgress ::
  "'r env \<Rightarrow> string \<Rightarrow> int \<Rightarrow> string \<Rightarrow> 'r sched \<Rightarrow> unit result \<times> 'r sched" where
  "UpdateTaskProgress V eid p msg s =
     (case env_db V S_execution_progress of
        Some e \<Rightarrow> (Inl e, s)
      | None \<Rightarrow> (Inr (), s\<lparr>s_execs := upd_where (\<lambda>x. x_eid x = eid)
          (\<lambda>x. x\<lparr>x_progress := p, x_progress_msg := msg, x_updated := Some (env_now V)\<rparr>) (s_execs s)\<rparr>))"

definition CancelExecution :: "'r env \<Rightarrow> string \<Rightarrow> string \<Rightarrow> 'r sched \<Rightarrow> unit result \<times> 'r sched" where
  "CancelExecution V eid by s =
     (case on_db (env_db V S_get_execution) (first_where (\<lambda>x. x_eid x = eid) (s_execs s)) of
        Inl e \<Rightarrow> (Inl (''failed to query execution: '' @ e), s)
      | Inr None \<Rightarrow> (Inl ''execution not found'', s)
      | Inr (Some x) \<Rightarrow>
          (if x_status x \<noteq> ''running'' \<and> x_status x \<noteq> ''pending''
           then (Inl (''execution is not running or pending (current status: '' @ x_status x @ '')''), s)
           else (let xid = (case x_executor x of None \<Rightarrow> 0 | Some i \<Rightarrow> i);
                     s1 = (if xid > 0 \<and> env_notifier V
                           then (case GetExecutorByID V xid s of
                                   Inl e \<Rightarrow> s
                                 | Inr ex \<Rightarrow> s\<lparr>s_cancels := s_cancels s @ [(e_name ex, eid)]\<rparr>)
                           else s)
                 in case UpdateExecutionResult V eid ''failed'' [] ''task cancelled by user'' None s1 of
                      (Inl e, s2) \<Rightarrow> (Inl (''failed to update execution: '' @ e), s2)
                    | (Inr u, s2) \<Rightarrow>
                        (Inr (), snd (AddTaskLog V eid (x_task x) [] ''info''
                                   (''Task cancelled by user: '' @ by) s2)))))"

section \<open>Dispatch\<close>

text \<open>How long the lock of a dispatched execution lives.\<close>

definition dispatch_lock_ttl :: "task \<Rightarrow> duration" where
  "dispatch_lock_ttl t =
     (let a = t_timeout t * 2 * second;
          b = (if a < 60 * second then 60 * second else a);
          c = (if b > 7200 * second then 7200 * second else b)
      in if t_timeout t = 0 then 3600 * second else c)"

text \<open>
  The renewal record of a dispatch lives \<open>time.Duration(lockTTL)*time.Second\<close>, a product of two
  nanosecond counts in 64 bits.
\<close>

definition dispatch_renew_ttl :: "task \<Rightarrow> duration" where
  "dispatch_renew_ttl t = wrap64 (dispatch_lock_ttl t * second)"

text \<open>The six steps that every failure after the insert shares.\<close>

definition dispatch_failed :: "'r env \<Rightarrow> task \<Rightarrow> string \<Rightarrow> string \<Rightarrow> 'r sched \<Rightarrow> 'r sched" where
  "dispatch_failed V t eid msg s =
     (let s1 = snd (UpdateExecutionResult V eid ''failed'' [] msg None s);
          s2 = snd (UpdateTaskStatusByID V (t_id t) ''failed'' s1);
          s3 = snd (AddTaskLog V eid (t_id t) [] ''error'' msg s2);
          s4 = SendWebhookNotification V (t_id t) eid ''failed'' [] msg 0 s3
      in r_del V [lock_key eid] s4)"

text \<open>The executor of an execution, or the message with which it fails and the error returned.\<close>

definition choose_executor :: "'r env \<Rightarrow> task \<Rightarrow> 'r sched \<Rightarrow> (string \<times> string) + executor" where
  "choose_executor V t s =
     (let i = t_assigned t; the_executor = ''specified executor '' @ show_int i
      in if i > 0
         then (case GetExecutorByID V i s of
                 Inl e \<Rightarrow> Inl (the_executor @ '' not found: '' @ e, the_executor @ '' not found: '' @ e)
               | Inr x \<Rightarrow>
                   (if e_status x \<noteq> ''online''
                    then Inl (the_executor @ '' is not online (status: '' @ e_status x @ '')'',
                              the_executor @ '' is not online'')
                    else if e_load x \<ge> e_capacity x
                    then Inl (the_executor @ '' has no capacity (load: '' @ show_int (e_load x) @ ''/'' @
                                show_int (e_capacity x) @ '')'',
                              the_executor @ '' has no capacity'')
                    else Inr x))
         else (case SelectAvailableExecutor V (t_domain t) s of
                 Inl e \<Rightarrow> Inl (''no available executor: '' @ e, ''no available executor: '' @ e)
               | Inr x \<Rightarrow> Inr x))"

definition grpc_of :: "task \<Rightarrow> string \<Rightarrow> grpc_task" where
  "grpc_of t eid =
     \<lparr>g_task = t_id t, g_eid = eid, g_type = t_type t, g_config = t_config t,
      g_timeout = t_timeout t, g_retry_count = t_retry_count t,
      g_retry_interval = t_retry_interval t\<rparr>"

definition new_execution :: "'r env \<Rightarrow> task \<Rightarrow> string \<Rightarrow> int \<Rightarrow> execution" where
  "new_execution V t eid n =
     \<lparr>x_id = env_new_id V, x_task = t_id t, x_eid = eid, x_executor = None, x_status = ''running'',
      x_start = Some (env_now V), x_end = None, x_output = [], x_error = [], x_retry = n,
      x_created = env_now V, x_progress = 0, x_progress_msg = [], x_updated = None\<rparr>"

definition set_executor :: "'r env \<Rightarrow> string \<Rightarrow> int \<Rightarrow> 'r sched \<Rightarrow> 'r sched" where
  "set_executor V eid i s =
     (if env_db V S_execution_executor = None
      then s\<lparr>s_execs := upd_where (\<lambda>x. x_eid x = eid) (\<lambda>x. x\<lparr>x_executor := Some i\<rparr>) (s_execs s)\<rparr>
      else s)"

text \<open>After the insert: choose an executor and hand the task over.\<close>

definition dispatch_inserted ::
  "'r env \<Rightarrow> task \<Rightarrow> string \<Rightarrow> 'r sched \<Rightarrow> (string \<times> string option) \<times> 'r sched" where
  "dispatch_inserted V t eid s =
     (case choose_executor V t s of
        Inl (msg, err) \<Rightarrow> ((eid, Some err), dispatch_failed V t eid msg s)
      | Inr x \<Rightarrow>
          (case env_dispatcher V of
             None \<Rightarrow> ((eid, Some ''dispatcher not configured''),
                      dispatch_failed V t eid ''dispatcher not configured'' s)
           | Some send \<Rightarrow>
               (let s1 = set_executor V eid (e_id x) s
                in case send (e_name x) (grpc_of t eid) of
                     Some e \<Rightarrow> ((eid, Some (''dispatch failed: '' @ e)),
                                dispatch_failed V t eid (''dispatch failed: '' @ e) s1)
                   | None \<Rightarrow>
                       (let s2 = s1\<lparr>s_sent := s_sent s1 @ [(e_name x, grpc_of t eid)]\<rparr>;
                            s3 = snd (AddTaskLog V eid (t_id t) [] ''info''
                                   (''Task dispatched to executor: '' @ e_name x) s2);
                            s4 = snd (r_set V (renew_key eid) (show_int (unix V))
                                   (dispatch_renew_ttl t) s3)
                        in ((eid, None), s4)))))"

definition dispatchTaskExecution ::
  "'r env \<Rightarrow> task \<Rightarrow> string \<Rightarrow> int \<Rightarrow> 'r sched \<Rightarrow> (string \<times> string option) \<times> 'r sched" where
  "dispatchTaskExecution V t eid n s =
     (case r_setnx V (lock_key eid) (show_int (env_now V)) (dispatch_lock_ttl t) s of
        (Inr False, s1) \<Rightarrow>
          (([], Some (''task '' @ show_int (t_id t) @ '' is already being executed (lock conflict)'')), s1)
      | (locked, s1) \<Rightarrow>
          (case env_db V S_insert_execution of
             Some e \<Rightarrow> (([], Some (''create execution record failed: '' @ e)),
                        if locked = Inr True then r_del V [lock_key eid] s1 else s1)
           | None \<Rightarrow>
               dispatch_inserted V t eid (s1\<lparr>s_execs := s_execs s1 @ [new_execution V t eid n]\<rparr>)))"

definition RetryTask :: "'r env \<Rightarrow> int \<Rightarrow> int \<Rightarrow> 'r sched \<Rightarrow> (string \<times> string option) \<times> 'r sched" where
  "RetryTask V tid n s =
     (case GetTaskByID V tid s of
        Inl e \<Rightarrow> (([], Some (''get task failed: '' @ e)), s)
      | Inr t \<Rightarrow> dispatchTaskExecution V t
          (''exec-'' @ show_int tid @ ''-'' @ show_int (env_now V) @ ''-retry-'' @ show_int n) n s)"

section \<open>Failures and retries\<close>

definition getRetryTimesForExecution :: "'r env \<Rightarrow> string \<Rightarrow> 'r sched \<Rightarrow> int result" where
  "getRetryTimesForExecution V eid s =
     rbind (on_db (env_db V S_retry_times) (first_where (\<lambda>x. x_eid x = eid) (s_execs s)))
       (\<lambda>row. case row of None \<Rightarrow> Inl (''execution '' @ eid @ '' not found'') | Some x \<Rightarrow> Inr (x_retry x))"

definition mark_failed ::
  "'r env \<Rightarrow> int \<Rightarrow> string \<Rightarrow> string \<Rightarrow> string \<Rightarrow> int \<Rightarrow> 'r sched \<Rightarrow> 'r sched" where
  "mark_failed V tid eid out err dur s =
     SendWebhookNotification V tid eid ''failed'' out err dur
       (snd (UpdateTaskStatusByID V tid ''failed'' s))"

definition HandleTaskFailure ::
  "'r env \<Rightarrow> int \<Rightarrow> string \<Rightarrow> string \<Rightarrow> string \<Rightarrow> int \<Rightarrow> 'r sched \<Rightarrow> unit result \<times> 'r sched" where
  "HandleTaskFailure V tid eid out err durMs s =
     (let dur = (if durMs > 0 then durMs else 0)
      in case GetTaskByID V tid s of
           Inl e \<Rightarrow> (Inl e, mark_failed V tid eid out err dur s)
         | Inr t \<Rightarrow>
             (if t_retry_count t \<le> 0 then (Inr (), mark_failed V tid eid out err dur s)
              else (case r_setnx V (retry_lock_key tid) ''locked'' (30 * minute) s of
                      (Inr False, s1) \<Rightarrow> (Inr (), s1)
                    | (_, s1) \<Rightarrow>
                        (case getRetryTimesForExecution V eid s1 of
                           Inl e \<Rightarrow> (Inl e, mark_failed V tid eid out err dur
                                            (r_del V [retry_lock_key tid] s1))
                         | Inr n \<Rightarrow>
                             (if n < t_retry_count t
                              then (Inr (), s1\<lparr>s_retries := s_retries s1 @
                                     [\<lparr>r_task = t, r_failed = eid, r_times = n + 1, r_output = out,
                                       r_duration = dur,
                                       r_due = env_now V + t_retry_interval t * second\<rparr>]\<rparr>)
                              else (Inr (), mark_failed V tid eid out err dur
                                     (r_del V [retry_lock_key tid] s1)))))))"

text \<open>The goroutine of a retry when its sleep is over; its \<open>defer\<close> frees the retry lock.\<close>

definition run_retry :: "'r env \<Rightarrow> retry \<Rightarrow> 'r sched \<Rightarrow> 'r sched" where
  "run_retry V r s0 =
     (let s = s0\<lparr>s_retries := remove1 r (s_retries s0)\<rparr>;
          tid = t_id (r_task r);
          text = ''retry '' @ show_int (r_times r)
      in r_del V [retry_lock_key tid]
           (if \<not> s_leader s
            then mark_failed V tid (r_failed r) (r_output r) (text @ '' aborted: lost leadership'')
                   (r_duration r) s
            else (case RetryTask V tid (r_times r) s of
                    ((eid, None), s1) \<Rightarrow> s1
                  | ((eid, Some e), s1) \<Rightarrow>
                      mark_failed V tid (r_failed r) (r_output r) (text @ '' failed: '' @ e)
                        (r_duration r) s1)))"

section \<open>Triggering\<close>

definition running_of :: "'r env \<Rightarrow> int \<Rightarrow> 'r sched \<Rightarrow> execution option" where
  "running_of V tid s =
     (if env_db V S_running_of_task = None
      then first_where (\<lambda>x. True) (sort_key (\<lambda>x. - x_created x)
             (filter (\<lambda>x. x_task x = tid \<and> x_status x = ''running'') (s_execs s)))
      else None)"

text \<open>The renewal record, as the code reads it: missing, empty or a Unix time.\<close>

definition last_renewal :: "'r env \<Rightarrow> string \<Rightarrow> 'r sched \<Rightarrow> int option" where
  "last_renewal V eid s =
     (case r_get V (renew_key eid) s of
        Inr (Some v) \<Rightarrow> if v = [] then None else Some (scan_d v)
      | _ \<Rightarrow> None)"

text \<open>The timeout in seconds that bounds the age of a renewal; \<open>None\<close>: there is no bound.\<close>

definition renewal_bound :: "'r env \<Rightarrow> int \<Rightarrow> 'r sched \<Rightarrow> int option" where
  "renewal_bound V tid s =
     (case GetTaskByID V tid s of
        Inl e \<Rightarrow> Some 300
      | Inr t \<Rightarrow> if t_timeout t > 0 then Some (t_timeout t) else None)"

definition is_stale :: "'r env \<Rightarrow> int \<Rightarrow> string \<Rightarrow> 'r sched \<Rightarrow> bool" where
  "is_stale V tid eid s =
     (case last_renewal V eid s of
        None \<Rightarrow> True
      | Some t \<Rightarrow> (case renewal_bound V tid s of None \<Rightarrow> False | Some b \<Rightarrow> unix V - t > b))"

definition stale_text :: string where
  "stale_text = ''stale execution cleaned up on new trigger''"

definition clean_stale :: "'r env \<Rightarrow> int \<Rightarrow> string \<Rightarrow> 'r sched \<Rightarrow> 'r sched" where
  "clean_stale V tid eid s =
     (let s1 = snd (UpdateExecutionResult V eid ''failed'' [] stale_text None s);
          s2 = snd (AddTaskLog V eid tid [] ''error'' stale_text s1);
          s3 = snd (HandleTaskFailure V tid eid [] stale_text 0 s2)
      in r_del V [lock_key eid, renew_key eid, fail_key eid] s3)"

definition exec_name :: "'r env \<Rightarrow> int \<Rightarrow> string" where
  "exec_name V tid = ''exec-'' @ show_int tid @ ''-'' @ show_int (env_now V)"

definition skip_trigger :: "'r env \<Rightarrow> int \<Rightarrow> string \<Rightarrow> 'r sched \<Rightarrow> 'r sched" where
  "skip_trigger V tid running s =
     (let eid = exec_name V tid;
          reason = ''skipped: previous execution (id: '' @ running @ '') is still running''
      in case env_db V S_insert_execution of
           Some e \<Rightarrow> s
         | None \<Rightarrow>
             (let s1 = s\<lparr>s_execs := s_execs s @
                    [\<lparr>x_id = env_new_id V, x_task = tid, x_eid = eid, x_executor = None, x_status = ''skipped'',
                      x_start = Some (env_now V), x_end = None, x_output = [], x_error = reason,
                      x_retry = 0, x_created = env_now V, x_progress = 0, x_progress_msg = [],
                      x_updated = None\<rparr>]\<rparr>;
                  s2 = snd (AddTaskLog V eid tid [] ''warn'' reason s1)
              in SendWebhookNotification V tid eid ''skipped'' [] reason 0 s2))"

text \<open>The second half of \<open>TriggerTask\<close>.\<close>

definition trigger_dispatch :: "'r env \<Rightarrow> int \<Rightarrow> 'r sched \<Rightarrow> (string \<times> string option) \<times> 'r sched" where
  "trigger_dispatch V tid s =
     (case GetTaskByID V tid s of
        Inl e \<Rightarrow> (([], Some (''get task failed: '' @ e)), s)
      | Inr t \<Rightarrow> dispatchTaskExecution V t (exec_name V tid) 0 s)"

definition TriggerTask :: "'r env \<Rightarrow> int \<Rightarrow> 'r sched \<Rightarrow> (string \<times> string option) \<times> 'r sched" where
  "TriggerTask V tid s =
     (if \<not> s_leader s then (([], Some ''this node is not the leader, cannot trigger task''), s)
      else (case running_of V tid s of
              None \<Rightarrow> trigger_dispatch V tid s
            | Some x \<Rightarrow>
                (if is_stale V tid (x_eid x) s
                 then trigger_dispatch V tid (clean_stale V tid (x_eid x) s)
                 else (([], Some (''task '' @ show_int tid @ '' is already running (execution_id: '' @
                          x_eid x @ ''), skipped'')),
                       skip_trigger V tid (x_eid x) s))))"

end
