(* ===== verification/Executions.thy ===== *)
theory Executions
  imports Tasks
begin

text \<open>
  The reading and deleting half of execution_service.go: the list of executions with its filter, the
  statistics over the same filter, single executions and their logs, and the deletions with and
  without the check of the caller's domain. The texts of a filter that have to be parsed (numbers,
  times) are given as their parse results: the code drops a condition whose text is empty or does
  not parse, which is \<open>None\<close> here.
\<close>

section \<open>Scanners\<close>

definition execution_row :: "execution \<Rightarrow> cell list" where
  "execution_row x = [Num (x_id x), Num (x_task x), Txt (x_eid x),
     (case x_executor x of None \<Rightarrow> Null | Some i \<Rightarrow> Num i), Txt (x_status x),
     time_cell (x_start x), time_cell (x_end x), Txt (x_output x), Txt (x_error x),
     Num (x_retry x), At (x_created x), Num (x_progress x), Txt (x_progress_msg x),
     time_cell (x_updated x)]"

definition opt_time :: "cell \<Rightarrow> instant option" where
  "opt_time c = (let t = parseDateTime c in if t = 0 then None else Some t)"

text \<open>\<open>ExecutorID\<close> is a plain number in the code: an execution without one reads as 0.\<close>

definition scanExecutionResult :: "cell list \<Rightarrow> execution" where
  "scanExecutionResult row =
     \<lparr>x_id = rowInt64 (row ! 0), x_task = rowInt64 (row ! 1), x_eid = rowString (row ! 2),
      x_executor = Some (rowInt64 (row ! 3)), x_status = rowString (row ! 4),
      x_start = opt_time (row ! 5), x_end = opt_time (row ! 6),
      x_output = rowString (row ! 7), x_error = rowString (row ! 8),
      x_retry = wrap32 (rowInt64 (row ! 9)), x_created = parseDateTime (row ! 10),
      x_progress = (if length row > 11 then wrap32 (rowInt64 (row ! 11)) else 0),
      x_progress_msg = (if length row > 12 then rowString (row ! 12) else []),
      x_updated = (if length row > 13 then Some (parseDateTime (row ! 13)) else Some 0)\<rparr>"

definition log_row :: "task_log \<Rightarrow> cell list" where
  "log_row l = [Num 0, Txt (l_eid l), Num (l_task l),
     (case l_executor l of None \<Rightarrow> Null | Some i \<Rightarrow> Num i), Txt (l_node l), Txt (l_level l),
     Txt (l_message l), At (l_time l)]"

definition scanTaskLogResult :: "cell list \<Rightarrow> task_log" where
  "scanTaskLogResult row =
     \<lparr>l_eid = rowString (row ! 1), l_task = rowInt64 (row ! 2), l_executor = Some (rowInt64 (row ! 3)),
      l_node = rowString (row ! 4), l_level = rowString (row ! 5), l_message = rowString (row ! 6),
      l_time = parseDateTime (row ! 7)\<rparr>"

section \<open>Reading\<close>

definition GetTaskExecutions :: "'r env \<Rightarrow> int \<Rightarrow> 'r sched \<Rightarrow> execution list result" where
  "GetTaskExecutions V tid s =
     on_db (env_db V S_list_executions)
       (map (scanExecutionResult \<circ> execution_row)
          (take 100 (sort_key (\<lambda>x. - x_created x) (filter (\<lambda>x. x_task x = tid) (s_execs s)))))"

definition GetExecutionByExecutionID :: "'r env \<Rightarrow> string \<Rightarrow> 'r sched \<Rightarrow> execution option result" where
  "GetExecutionByExecutionID V eid s =
     (case on_db (env_db V S_get_execution) (first_where (\<lambda>x. x_eid x = eid) (s_execs s)) of
        Inl e \<Rightarrow> Inl (''failed to query execution by execution_id: '' @ e)
      | Inr row \<Rightarrow> Inr (map_option (scanExecutionResult \<circ> execution_row) row))"

definition GetTaskLogs :: "'r env \<Rightarrow> string \<Rightarrow> 'r sched \<Rightarrow> task_log list result" where
  "GetTaskLogs V eid s =
     on_db (env_db V S_get_logs)
       (map (scanTaskLogResult \<circ> log_row)
          (sort_key l_time (filter (\<lambda>l. l_eid l = eid) (s_logs s))))"

record exec_filter =
  xf_id :: "int option"
  xf_eid :: string
  xf_executor :: string
  xf_task :: string
  xf_status :: string
  xf_start_from :: "instant option"
  xf_start_to :: "instant option"
  xf_end_from :: "instant option"
  xf_end_to :: "instant option"
  xf_duration :: bool              \<comment> \<open>one of the two duration texts is not empty\<close>
  xf_duration_min :: "int option"
  xf_duration_max :: "int option"

definition task_of :: "'r sched \<Rightarrow> execution \<Rightarrow> task option" where
  "task_of s x = first_where (\<lambda>t. t_id t = x_task x) (s_tasks s)"

definition executor_of :: "'r sched \<Rightarrow> execution \<Rightarrow> executor option" where
  "executor_of s x =
     (case x_executor x of None \<Rightarrow> None | Some i \<Rightarrow> first_where (\<lambda>e. e_id e = i) (s_executors s))"

text \<open>A comparison with \<open>NULL\<close> is not true.\<close>

definition when_some :: "('a \<Rightarrow> bool) \<Rightarrow> 'a option \<Rightarrow> bool" where
  "when_some p v = (case v of None \<Rightarrow> False | Some a \<Rightarrow> p a)"

definition in_domain :: "int \<Rightarrow> 'r sched \<Rightarrow> execution \<Rightarrow> bool" where
  "in_domain d s x = when_some (\<lambda>t. t_domain t = d) (task_of s x)"

definition may_see :: "string \<Rightarrow> int \<Rightarrow> 'r sched \<Rightarrow> execution \<Rightarrow> bool" where
  "may_see role d s x \<longleftrightarrow> is_admin_role role \<or> in_domain d s x"

text \<open>A condition that is only there when the filter has a value for it.\<close>

definition given :: "'b option \<Rightarrow> ('b \<Rightarrow> bool) \<Rightarrow> bool" where
  "given v p = (case v of None \<Rightarrow> True | Some b \<Rightarrow> p b)"

text \<open>\<open>STRFTIME('%s', end) - STRFTIME('%s', start)\<close>.\<close>

definition run_seconds :: "execution \<Rightarrow> int option" where
  "run_seconds x = (case (x_start x, x_end x) of
      (Some a, Some b) \<Rightarrow> Some (b div second - a div second) | _ \<Rightarrow> None)"

definition exec_matches ::
  "(string \<Rightarrow> string \<Rightarrow> bool) \<Rightarrow> string \<Rightarrow> int \<Rightarrow> exec_filter \<Rightarrow> 'r sched \<Rightarrow> execution \<Rightarrow> bool" where
  "exec_matches like role d f s x \<longleftrightarrow>
     may_see role d s x \<and>
     given (xf_id f) (\<lambda>i. x_id x = i) \<and>
     (xf_eid f \<noteq> [] \<longrightarrow> like (xf_eid f) (x_eid x)) \<and>
     (xf_executor f \<noteq> [] \<longrightarrow> when_some (\<lambda>e. like (xf_executor f) (e_name e)) (executor_of s x)) \<and>
     (xf_task f \<noteq> [] \<longrightarrow> when_some (\<lambda>t. like (xf_task f) (t_name t)) (task_of s x)) \<and>
     (xf_status f \<noteq> [] \<longrightarrow> x_status x = xf_status f) \<and>
     given (xf_start_from f) (\<lambda>t. when_some (\<lambda>a. a \<ge> t) (x_start x)) \<and>
     given (xf_start_to f) (\<lambda>t. when_some (\<lambda>a. a \<le> t) (x_start x)) \<and>
     given (xf_end_from f) (\<lambda>t. when_some (\<lambda>a. a \<ge> t) (x_end x)) \<and>
     given (xf_end_to f) (\<lambda>t. when_some (\<lambda>a. a \<le> t) (x_end x)) \<and>
     (xf_duration f \<longrightarrow> x_end x \<noteq> None \<and>
        given (xf_duration_min f) (\<lambda>n. when_some (\<lambda>k. k \<ge> n) (run_seconds x)) \<and>
        given (xf_duration_max f) (\<lambda>n. when_some (\<lambda>k. k \<le> n) (run_seconds x)))"

record execution_with_names = execution +
  xw_task_name :: string
  xw_task_type :: string
  xw_executor_name :: string

definition with_names :: "'r sched \<Rightarrow> execution \<Rightarrow> execution_with_names" where
  "with_names s x =
     execution.extend
       (x\<lparr>x_executor := Some (case x_executor x of None \<Rightarrow> 0 | Some i \<Rightarrow> i), x_progress := 0,
          x_progress_msg := [], x_updated := None, x_retry := wrap32 (x_retry x)\<rparr>)
       \<lparr>xw_task_name = (case task_of s x of None \<Rightarrow> [] | Some t \<Rightarrow> t_name t),
        xw_task_type = (case task_of s x of None \<Rightarrow> [] | Some t \<Rightarrow> t_type t),
        xw_executor_name = (case executor_of s x of None \<Rightarrow> [] | Some e \<Rightarrow> e_name e)\<rparr>"

definition GetAllExecutions ::
  "'r env \<Rightarrow> (string \<Rightarrow> string \<Rightarrow> bool) \<Rightarrow> int \<Rightarrow> string \<Rightarrow> exec_filter \<Rightarrow> int \<Rightarrow> int \<Rightarrow> 'r sched
     \<Rightarrow> (execution_with_names list \<times> int) result" where
  "GetAllExecutions V like d role f page sz s =
     (let rows = filter (exec_matches like role d f s) (s_execs s)
      in rbind (on_db (env_db V S_count_executions) (int (length rows))) (\<lambda>total.
           rbind (on_db (env_db V S_list_executions)
                    (limit_offset sz ((page - 1) * sz) (sort_key (\<lambda>x. - x_created x) rows)))
             (\<lambda>shown. Inr (map (with_names s) shown, total))))"

definition GetExecutionStats ::
  "'r env \<Rightarrow> (string \<Rightarrow> string \<Rightarrow> bool) \<Rightarrow> int \<Rightarrow> string \<Rightarrow> exec_filter \<Rightarrow> 'r sched
     \<Rightarrow> (string \<Rightarrow> nat option) result" where
  "GetExecutionStats V like d role f s =
     (let sts = map x_status (filter (exec_matches like role d f s) (s_execs s))
      in on_db (env_db V S_execution_stats)
           (\<lambda>st. if st \<in> set sts then Some (count_list sts st) else None))"

section \<open>Deleting\<close>

definition delete_logs :: "'r env \<Rightarrow> string list \<Rightarrow> 'r sched \<Rightarrow> 'r sched" where
  "delete_logs V eids s =
     (if env_db V S_delete_logs = None
      then s\<lparr>s_logs := del_where (\<lambda>l. l_eid l \<in> set eids) (s_logs s)\<rparr> else s)"

definition delete_execs :: "'r env \<Rightarrow> (execution \<Rightarrow> bool) \<Rightarrow> 'r sched \<Rightarrow> unit result \<times> 'r sched" where
  "delete_execs V p s =
     (case env_db V S_delete_execution of
        Some e \<Rightarrow> (Inl e, s)
      | None \<Rightarrow> (Inr (), s\<lparr>s_execs := del_where p (s_execs s)\<rparr>))"

definition DeleteExecution :: "'r env \<Rightarrow> int \<Rightarrow> 'r sched \<Rightarrow> unit result \<times> 'r sched" where
  "DeleteExecution V i s =
     (case on_db (env_db V S_get_execution) (first_where (\<lambda>x. x_id x = i) (s_execs s)) of
        Inl e \<Rightarrow> (Inl e, s)
      | Inr None \<Rightarrow> (Inl ''execution not found'', s)
      | Inr (Some x) \<Rightarrow> delete_execs V (\<lambda>x. x_id x = i) (delete_logs V [x_eid x] s))"

definition BatchDeleteExecutions :: "'r env \<Rightarrow> int list \<Rightarrow> 'r sched \<Rightarrow> unit result \<times> 'r sched" where
  "BatchDeleteExecutions V ids s =
     (if ids = [] then (Inr (), s)
      else (case on_db (env_db V S_get_execution)
                   (map x_eid (filter (\<lambda>x. x_id x \<in> set ids) (s_execs s))) of
              Inl e \<Rightarrow> (Inl e, s)
            | Inr eids \<Rightarrow>
                delete_execs V (\<lambda>x. x_id x \<in> set ids)
                  (if eids = [] then s else delete_logs V eids s)))"

definition DeleteExecutionWithDomainCheck ::
  "'r env \<Rightarrow> int \<Rightarrow> int \<Rightarrow> string \<Rightarrow> 'r sched \<Rightarrow> unit result \<times> 'r sched" where
  "DeleteExecutionWithDomainCheck V i d role s =
     (case on_db (env_db V S_check_domain)
             (first_where (\<lambda>x. x_id x = i \<and> may_see role d s x) (s_execs s)) of
        Inl e \<Rightarrow> (Inl e, s)
      | Inr None \<Rightarrow> (Inl ''execution not found or permission denied'', s)
      | Inr (Some x) \<Rightarrow>
          delete_execs V (\<lambda>x. x_id x = i)
            (if x_eid x = [] then s else delete_logs V [x_eid x] s))"

definition BatchDeleteExecutionsWithDomainCheck ::
  "'r env \<Rightarrow> int list \<Rightarrow> int \<Rightarrow> string \<Rightarrow> 'r sched \<Rightarrow> unit result \<times> 'r sched" where
  "BatchDeleteExecutionsWithDomainCheck V ids d role s =
     (if ids = [] then (Inr (), s)
      else (case on_db (env_db V S_check_domain)
                   (map x_eid (filter (\<lambda>x. x_id x \<in> set ids \<and> may_see role d s x) (s_execs s))) of
              Inl e \<Rightarrow> (Inl e, s)
            | Inr eids \<Rightarrow>
                delete_execs V
                  (\<lambda>x. x_id x \<in> set ids \<and>
                       (is_admin_role role \<or> (\<exists>t\<in>set (s_tasks s). t_id t = x_task x \<and> t_domain t = d)))
                  (if eids = [] then s else delete_logs V eids s)))"

section \<open>Lemmas\<close>

lemma when_some_simps [simp]: "when_some p None = False" "when_some p (Some a) = p a"
  by (simp_all add: when_some_def)

text \<open>The primary keys of the tables.\<close>

definition keyed :: "'r sched \<Rightarrow> bool" where
  "keyed s \<longleftrightarrow> distinct (map t_id (s_tasks s)) \<and> distinct (map x_id (s_execs s)) \<and>
     distinct (map x_eid (s_execs s))"

lemma first_where_unique:
  "distinct (map k xs) \<Longrightarrow> x \<in> set xs \<Longrightarrow> first_where (\<lambda>y. k y = k x) xs = Some x"
  by (induction xs) auto

lemma in_domain_iff:
  assumes "keyed s"
  shows "in_domain d s x \<longleftrightarrow> (\<exists>t\<in>set (s_tasks s). t_id t = x_task x \<and> t_domain t = d)"
proof
  assume "in_domain d s x"
  then show "\<exists>t\<in>set (s_tasks s). t_id t = x_task x \<and> t_domain t = d"
    by (auto simp: in_domain_def task_of_def when_some_def dest: first_where_Some split: option.splits)
next
  assume "\<exists>t\<in>set (s_tasks s). t_id t = x_task x \<and> t_domain t = d"
  then obtain t where "t \<in> set (s_tasks s)" "t_id t = x_task x" "t_domain t = d" by blast
  then show "in_domain d s x"
    using first_where_unique [of t_id "s_tasks s" t] assms
    by (simp add: in_domain_def task_of_def keyed_def)
qed

lemma scan_execution:
  assumes "x_start x \<noteq> Some 0" "x_end x \<noteq> Some 0" "wrap32 (x_retry x) = x_retry x"
    "wrap32 (x_progress x) = x_progress x" "x_updated x = Some u"
  shows "scanExecutionResult (execution_row x) =
    x\<lparr>x_executor := Some (case x_executor x of None \<Rightarrow> 0 | Some i \<Rightarrow> i)\<rparr>"
  using assms
  by (cases x) (auto simp: scanExecutionResult_def execution_row_def opt_time_def time_cell_def
      split: option.splits)

lemma delete_logs_fields [simp]:
  "s_execs (delete_logs V es s) = s_execs s" "s_tasks (delete_logs V es s) = s_tasks s"
  by (simp_all add: delete_logs_def)

lemma delete_execs_fields [simp]:
  "s_logs (snd (delete_execs V p s)) = s_logs s" "s_tasks (snd (delete_execs V p s)) = s_tasks s"
  by (simp_all add: delete_execs_def split: option.splits)

lemma delete_execs_execs:
  "s_execs (snd (delete_execs V p s)) =
     (if env_db V S_delete_execution = None then del_where p (s_execs s) else s_execs s)"
  by (simp add: delete_execs_def split: option.splits)

text \<open>The check lets exactly the visible executions of the batch through.\<close>

lemma batch_check_exact:
  assumes "keyed s" "\<forall>st. env_db V st = None"
  shows "BatchDeleteExecutionsWithDomainCheck V ids d role s =
    (Inr (), s\<lparr>s_execs := del_where (\<lambda>x. x_id x \<in> set ids \<and> may_see role d s x) (s_execs s),
               s_logs := del_where (\<lambda>l. \<exists>x\<in>set (s_execs s). x_id x \<in> set ids \<and> may_see role d s x \<and>
                                          l_eid l = x_eid x) (s_logs s)\<rparr>)"
proof -
  let ?vis = "\<lambda>x. x_id x \<in> set ids \<and> may_see role d s x"
  have p: "(\<lambda>x. x_id x \<in> set ids \<and>
      (is_admin_role role \<or> (\<exists>t\<in>set (s_tasks s). t_id t = x_task x \<and> t_domain t = d))) = ?vis"
    using in_domain_iff [OF assms(1)] by (auto simp: may_see_def fun_eq_iff)
  have l: "(\<lambda>l. l_eid l \<in> x_eid ` {x \<in> set (s_execs s). ?vis x}) =
      (\<lambda>l. \<exists>x\<in>set (s_execs s). ?vis x \<and> l_eid l = x_eid x)"
    by (auto simp: fun_eq_iff)
  have db: "env_db V st = None" for st using assms(2) by blast
  show ?thesis
  proof (cases "ids = [] \<or> filter ?vis (s_execs s) = []")
    case True
    then have none: "\<forall>x\<in>set (s_execs s). \<not> ?vis x" by (auto simp: filter_empty_conv)
    have "del_where ?vis (s_execs s) = s_execs s" using none by (auto simp: del_where_def filter_id_conv)
    moreover have "del_where (\<lambda>l. \<exists>x\<in>set (s_execs s). ?vis x \<and> l_eid l = x_eid x) (s_logs s) = s_logs s"
      using none by (auto simp: del_where_def filter_id_conv)
    ultimately show ?thesis
      using True db unfolding BatchDeleteExecutionsWithDomainCheck_def p
      by (auto simp: delete_execs_def)
  next
    case False
    then show ?thesis
      using db unfolding BatchDeleteExecutionsWithDomainCheck_def p
      by (simp add: delete_execs_def delete_logs_def l)
  qed
qed

section \<open>Properties\<close>

text \<open>The batch deletion respects domains: called with the role of no administrator it leaves every
  execution of another domain alone, whatever statement fails; and when none fails it deletes
  exactly the listed executions that the caller may see, with their logs and no other log.\<close>

theorem batch_delete_respects_domains:
  assumes "keyed s"
  shows "(\<not> is_admin_role role \<longrightarrow>
      filter (\<lambda>x. \<not> in_domain d s x)
        (s_execs (snd (BatchDeleteExecutionsWithDomainCheck V ids d role s))) =
      filter (\<lambda>x. \<not> in_domain d s x) (s_execs s)) \<and>
    ((\<forall>st. env_db V st = None) \<longrightarrow> BatchDeleteExecutionsWithDomainCheck V ids d role s =
      (Inr (), s\<lparr>s_execs := del_where (\<lambda>x. x_id x \<in> set ids \<and> may_see role d s x) (s_execs s),
                 s_logs := del_where (\<lambda>l. \<exists>x\<in>set (s_execs s). x_id x \<in> set ids \<and> may_see role d s x \<and>
                                            l_eid l = x_eid x) (s_logs s)\<rparr>))"
proof (intro conjI impI)
  assume "\<not> is_admin_role role"
  then show "filter (\<lambda>x. \<not> in_domain d s x)
        (s_execs (snd (BatchDeleteExecutionsWithDomainCheck V ids d role s))) =
      filter (\<lambda>x. \<not> in_domain d s x) (s_execs s)"
    using in_domain_iff [OF assms]
    by (auto simp: BatchDeleteExecutionsWithDomainCheck_def delete_execs_execs del_where_def
        intro!: filter_cong split: sum.splits)
next
  assume "\<forall>st. env_db V st = None"
  then show "BatchDeleteExecutionsWithDomainCheck V ids d role s =
      (Inr (), s\<lparr>s_execs := del_where (\<lambda>x. x_id x \<in> set ids \<and> may_see role d s x) (s_execs s),
                 s_logs := del_where (\<lambda>l. \<exists>x\<in>set (s_execs s). x_id x \<in> set ids \<and> may_see role d s x \<and>
                                            l_eid l = x_eid x) (s_logs s)\<rparr>)"
    using batch_check_exact [OF assms] by blast
qed

text \<open>The list and the statistics apply the same filter: the counts per status add up to the total
  that the list reports, whatever page it shows.\<close>

theorem stats_add_up_to_total:
  assumes "GetAllExecutions V like d role f page sz s = Inr (xs, n)"
    and "GetExecutionStats V like d role f s = Inr st"
  shows "n = int (\<Sum>a\<in>dom st. the (st a))"
proof -
  let ?sts = "map x_status (filter (exec_matches like role d f s) (s_execs s))"
  have st: "st = (\<lambda>a. if a \<in> set ?sts then Some (count_list ?sts a) else None)"
    using assms(2) by (simp add: GetExecutionStats_def Let_def)
  then have "dom st = set ?sts" by (auto simp: dom_def)
  then have "(\<Sum>a\<in>dom st. the (st a)) = (\<Sum>a\<in>set ?sts. count_list ?sts a)"
    by (intro sum.cong) (auto simp: st)
  also have "\<dots> = length ?sts" by (rule sum_count_set) simp_all
  finally show ?thesis using assms(1) by (auto simp: GetAllExecutions_def Let_def)
qed

section \<open>The properties at concrete inputs\<close>

definition demo_execution :: execution where
  "demo_execution = new_execution demo_env demo_task ''exec-5-1'' 0"

definition exec_sched :: "keys sched" where
  "exec_sched = demo_sched\<lparr>s_execs := [demo_execution, demo_execution\<lparr>x_id := 10, x_eid := ''exec-6-1'', x_task := 6\<rparr>]\<rparr>"

lemma demo_execution_simps [simp]:
  "x_id demo_execution = 9" "x_task demo_execution = 5" "x_eid demo_execution = ''exec-5-1''"
  "x_executor demo_execution = None" "x_status demo_execution = ''running''"
  "x_start demo_execution = Some (100 * second)" "x_created demo_execution = 100 * second"
  by (simp_all add: demo_execution_def new_execution_def demo_task_def)

lemma exec_sched_simps [simp]:
  "s_tasks exec_sched = [demo_task]" "s_execs exec_sched =
     [demo_execution, demo_execution\<lparr>x_id := 10, x_eid := ''exec-6-1'', x_task := 6\<rparr>]"
  by (simp_all add: exec_sched_def demo_sched_def)

lemma demo_task_simps [simp]: "t_id demo_task = 5" "t_domain demo_task = 1"
  by (simp_all add: demo_task_def)

definition no_filter :: exec_filter where
  "no_filter = \<lparr>xf_id = None, xf_eid = [], xf_executor = [], xf_task = [], xf_status = [],
     xf_start_from = None, xf_start_to = None, xf_end_from = None, xf_end_to = None,
     xf_duration = False, xf_duration_min = None, xf_duration_max = None\<rparr>"

theorem batch_delete_respects_domains_witness:
  "filter (\<lambda>x. \<not> in_domain 1 exec_sched x)
     (s_execs (snd (BatchDeleteExecutionsWithDomainCheck demo_env [9, 10] 1 ''viewer'' exec_sched))) =
   [demo_execution\<lparr>x_id := 10, x_eid := ''exec-6-1'', x_task := 6\<rparr>]"
proof -
  let ?s = "snd (BatchDeleteExecutionsWithDomainCheck demo_env [9, 10] 1 ''viewer'' exec_sched)"
  have "keyed exec_sched"
    by (simp add: keyed_def)
  moreover have "\<not> is_admin_role ''viewer''" by (simp add: is_admin_role_def)
  ultimately have "filter (\<lambda>x. \<not> in_domain 1 exec_sched x) (s_execs ?s) =
      filter (\<lambda>x. \<not> in_domain 1 exec_sched x) (s_execs exec_sched)"
    using batch_delete_respects_domains by blast
  then show ?thesis by (simp add: in_domain_def task_of_def)
qed

theorem stats_add_up_to_total_witness:
  "\<exists>xs st. GetAllExecutions demo_env (\<lambda>a b. True) 1 ''admin'' no_filter 1 1 exec_sched = Inr (xs, 2) \<and>
     GetExecutionStats demo_env (\<lambda>a b. True) 1 ''admin'' no_filter exec_sched = Inr st \<and>
     (2 :: int) = int (\<Sum>a\<in>dom st. the (st a))"
proof -
  obtain xs where xs: "GetAllExecutions demo_env (\<lambda>a b. True) 1 ''admin'' no_filter 1 1 exec_sched = Inr (xs, 2)"
    by (simp add: GetAllExecutions_def exec_matches_def may_see_def is_admin_role_def given_def
        no_filter_def Let_def)
  obtain st where st: "GetExecutionStats demo_env (\<lambda>a b. True) 1 ''admin'' no_filter exec_sched = Inr st"
    by (simp add: GetExecutionStats_def Let_def)
  show ?thesis using xs st stats_add_up_to_total [OF xs st] by blast
qed

end
