(* ===== verification/Task_Properties.thy ===== *)
theory Task_Properties
  imports Tasks
begin

text \<open>
  Properties of the task service: what a dispatch leaves behind, when a trigger is skipped, how far
  retries go, and what results and logs overwrite or lose.
\<close>

section \<open>What each operation leaves alone\<close>

lemma r_ops_fields [simp]:
  "s_execs (r_del V ks s) = s_execs s" "s_sent (r_del V ks s) = s_sent s"
  "s_tasks (r_del V ks s) = s_tasks s" "s_retries (r_del V ks s) = s_retries s"
  "s_executors (r_del V ks s) = s_executors s" "s_leader (r_del V ks s) = s_leader s"
  "s_execs (snd (r_set V k v d s)) = s_execs s" "s_sent (snd (r_set V k v d s)) = s_sent s"
  "s_tasks (snd (r_set V k v d s)) = s_tasks s" "s_retries (snd (r_set V k v d s)) = s_retries s"
  "s_execs (snd (r_setnx V k v d s)) = s_execs s" "s_sent (snd (r_setnx V k v d s)) = s_sent s"
  "s_tasks (snd (r_setnx V k v d s)) = s_tasks s" "s_retries (snd (r_setnx V k v d s)) = s_retries s"
  "s_executors (snd (r_set V k v d s)) = s_executors s"
  "s_domain_executors (snd (r_set V k v d s)) = s_domain_executors s"
  "s_executors (snd (r_setnx V k v d s)) = s_executors s"
  "s_domain_executors (snd (r_setnx V k v d s)) = s_domain_executors s"
  by (simp_all add: r_del_def r_set_def r_setnx_def split: prod.splits)

lemma webhook_fields [simp]:
  "s_execs (SendWebhookNotification V i e st o' er d s) = s_execs s"
  "s_sent (SendWebhookNotification V i e st o' er d s) = s_sent s"
  "s_tasks (SendWebhookNotification V i e st o' er d s) = s_tasks s"
  "s_retries (SendWebhookNotification V i e st o' er d s) = s_retries s"
  "s_redis (SendWebhookNotification V i e st o' er d s) = s_redis s"
  by (simp_all add: SendWebhookNotification_def Let_def split: sum.splits option.splits)

lemma status_fields [simp]:
  "s_execs (snd (UpdateTaskStatusByID V i st s)) = s_execs s"
  "s_sent (snd (UpdateTaskStatusByID V i st s)) = s_sent s"
  "s_retries (snd (UpdateTaskStatusByID V i st s)) = s_retries s"
  "s_redis (snd (UpdateTaskStatusByID V i st s)) = s_redis s"
  by (simp_all add: UpdateTaskStatusByID_def Let_def split: option.splits)

lemma status_retry_counts [simp]:
  "map t_retry_count (s_tasks (snd (UpdateTaskStatusByID V i st s))) = map t_retry_count (s_tasks s)"
  by (simp add: UpdateTaskStatusByID_def Let_def map_upd_where split: option.splits)

lemma insert_log_fields [simp]:
  "s_execs (snd (insert_log V l s)) = s_execs s" "s_sent (snd (insert_log V l s)) = s_sent s"
  "s_tasks (snd (insert_log V l s)) = s_tasks s" "s_retries (snd (insert_log V l s)) = s_retries s"
  "s_redis (snd (insert_log V l s)) = s_redis s"
  "s_executors (snd (insert_log V l s)) = s_executors s"
  "s_domain_executors (snd (insert_log V l s)) = s_domain_executors s"
  by (simp_all add: insert_log_def split: option.splits)

lemma append_output_fields [simp]:
  "s_sent (append_output V e lv m s) = s_sent s" "s_tasks (append_output V e lv m s) = s_tasks s"
  "s_retries (append_output V e lv m s) = s_retries s" "s_redis (append_output V e lv m s) = s_redis s"
  "s_executors (append_output V e lv m s) = s_executors s"
  "s_domain_executors (append_output V e lv m s) = s_domain_executors s"
  by (simp_all add: append_output_def)

text \<open>The three states a log call can end in.\<close>

lemma AddTaskLog_cases:
  obtains "snd (AddTaskLog V e i n lv m s) = s"
  | l where "snd (AddTaskLog V e i n lv m s) =
      snd (insert_log V l (snd (r_set V (dedup_key e n lv m) ''1'' (30 * second) s)))"
  | l where "snd (AddTaskLog V e i n lv m s) = append_output V e lv m
      (snd (insert_log V l (snd (r_set V (dedup_key e n lv m) ''1'' (30 * second) s))))"
proof -
  define l where "l = \<lparr>l_eid = e, l_task = i, l_executor = executor_of_log V e s,
                       l_node = n, l_level = lv, l_message = m, l_time = env_now V\<rparr>"
  let ?s1 = "snd (r_set V (dedup_key e n lv m) ''1'' (30 * second) s)"
  obtain x s2 where 2: "insert_log V l ?s1 = (x, s2)" by fastforce
  show thesis
  proof (cases "r_exists V (dedup_key e n lv m) s = Inr True")
    case True
    then show thesis using that(1) by (simp add: AddTaskLog_def Let_def)
  next
    case False
    then have "AddTaskLog V e i n lv m s = (case insert_log V l ?s1 of
        (Inl er, s2) \<Rightarrow> (Inl er, s2) | (Inr u, s2) \<Rightarrow> (Inr (), append_output V e lv m s2))"
      by (auto simp: AddTaskLog_def Let_def l_def split: sum.splits bool.splits)
    then show thesis using 2 that(2) [of l] that(3) [of l] by (cases x) simp_all
  qed
qed

lemma AddTaskLog_fields [simp]:
  "s_sent (snd (AddTaskLog V e i n lv m s)) = s_sent s"
  "s_tasks (snd (AddTaskLog V e i n lv m s)) = s_tasks s"
  "s_retries (snd (AddTaskLog V e i n lv m s)) = s_retries s"
  "s_executors (snd (AddTaskLog V e i n lv m s)) = s_executors s"
  "s_domain_executors (snd (AddTaskLog V e i n lv m s)) = s_domain_executors s"
  by (rule AddTaskLog_cases [of V e i n lv m s]; simp)+

text \<open>An execution as far as its life cycle is concerned.\<close>

definition life :: "execution \<Rightarrow> int \<times> string \<times> int option \<times> string \<times> int" where
  "life x = (x_task x, x_eid x, x_executor x, x_status x, x_retry x)"

lemma append_output_life: "map life (s_execs (append_output V e lv m s)) = map life (s_execs s)"
  by (simp add: append_output_def upd_where_def life_def)

lemma AddTaskLog_life: "map life (s_execs (snd (AddTaskLog V e i n lv m s))) = map life (s_execs s)"
  by (rule AddTaskLog_cases [of V e i n lv m s]) (simp_all add: append_output_life)

lemma result_fields [simp]:
  "s_sent (snd (UpdateExecutionResult V e st o' er g s)) = s_sent s"
  "s_tasks (snd (UpdateExecutionResult V e st o' er g s)) = s_tasks s"
  "s_retries (snd (UpdateExecutionResult V e st o' er g s)) = s_retries s"
  by (simp_all add: UpdateExecutionResult_def Let_def split: option.splits prod.splits)

section \<open>Dispatch\<close>

text \<open>The life-cycle entries of one execution id.\<close>

definition lives :: "string \<Rightarrow> 'r sched \<Rightarrow> (int \<times> string \<times> int option \<times> string \<times> int) list" where
  "lives eid s = filter (\<lambda>z. fst (snd z) = eid) (map life (s_execs s))"

lemma lives_upd:
  assumes "\<And>x. life (f x) = h (life x)" "\<And>z. fst (snd (h z)) = fst (snd z)"
  shows "lives eid (s\<lparr>s_execs := upd_where (\<lambda>x. x_eid x = eid) f (s_execs s)\<rparr>) = map h (lives eid s)"
proof -
  have "filter (\<lambda>z. fst (snd z) = eid) (map life (upd_where (\<lambda>x. x_eid x = eid) f xs)) =
      map h (filter (\<lambda>z. fst (snd z) = eid) (map life xs))" for xs
    by (induction xs) (simp_all add: assms, simp_all add: life_def)
  then show ?thesis by (simp add: lives_def)
qed

lemma AddTaskLog_lives [simp]: "lives eid (snd (AddTaskLog V e i n lv m s)) = lives eid s"
  by (simp add: lives_def AddTaskLog_life)

lemma lives_cong [simp]:
  "lives eid (r_del V ks s) = lives eid s" "lives eid (snd (r_set V k v d s)) = lives eid s"
  "lives eid (SendWebhookNotification V i e st o' er dur s) = lives eid s"
  "lives eid (snd (UpdateTaskStatusByID V i st s)) = lives eid s"
  "lives eid (s\<lparr>s_sent := m\<rparr>) = lives eid s"
  by (simp_all add: lives_def)

lemma result_lives:
  assumes "env_db V S_execution_result = None"
  shows "lives eid (snd (UpdateExecutionResult V eid st o' er g s)) =
    map (\<lambda>(a, b, c, d, r). (a, b, c, st, r)) (lives eid s)"
proof -
  obtain a b where ab: "result_times V g = (a, b)" by fastforce
  let ?f = "\<lambda>x. x\<lparr>x_status := st, x_output := o', x_error := er,
      x_end := (if terminal st then Some b else x_end x),
      x_start := (case x_start x of None \<Rightarrow> Some a | Some t \<Rightarrow> Some t)\<rparr>"
  have "lives eid (s\<lparr>s_execs := upd_where (\<lambda>x. x_eid x = eid) ?f (s_execs s)\<rparr>) =
      map (\<lambda>(a, b, c, d, r). (a, b, c, st, r)) (lives eid s)"
    by (rule lives_upd) (auto simp: life_def)
  then show ?thesis
    using assms ab by (simp add: UpdateExecutionResult_def)
qed

lemma set_executor_lives:
  assumes "env_db V S_execution_executor = None"
  shows "lives eid (set_executor V eid i s) =
    map (\<lambda>(a, b, c, d, r). (a, b, Some i, d, r)) (lives eid s)"
  using lives_upd [of "\<lambda>x. x\<lparr>x_executor := Some i\<rparr>" "\<lambda>(a, b, c, d, r). (a, b, Some i, d, r)" eid s] assms
  by (simp add: set_executor_def life_def split: prod.splits)

lemma dispatch_failed_effect:
  assumes "env_db V S_execution_result = None"
  shows "lives eid (dispatch_failed V t eid msg s) =
      map (\<lambda>(a, b, c, d, r). (a, b, c, ''failed'', r)) (lives eid s)"
    and "s_sent (dispatch_failed V t eid msg s) = s_sent s"
  using result_lives [OF assms]
  by (simp_all add: dispatch_failed_def Let_def)

lemma dispatch_failed_unlocks:
  assumes "redis_server (env_redis V) kv" "redis_up (env_redis V)"
  shows "kv (s_redis (dispatch_failed V t eid msg s)) (lock_key eid) = None"
  by (simp add: dispatch_failed_def Let_def r_del_up [OF assms] drop_keys_def)

text \<open>The choice of an executor looks at the executors and their domains only.\<close>

lemma choose_cong:
  assumes "s_executors s' = s_executors s" "s_domain_executors s' = s_domain_executors s"
  shows "choose_executor V t s' = choose_executor V t s"
proof -
  have "domains_of s' = domains_of s" by (rule ext) (simp add: domains_of_def assms)
  then have "left_join s' = left_join s" by (simp add: left_join_def assms cong: if_cong)
  then show ?thesis
    by (simp add: choose_executor_def Let_def GetExecutorByID_def SelectAvailableExecutor_def
        candidates_def assms)
qed


section \<open>Triggering\<close>

text \<open>While an execution of the task runs and its renewal is fresh, a trigger starts nothing: it
  reports an error, sends no message, changes no execution and adds at most one, marked skipped.\<close>

theorem trigger_skips_while_running:
  assumes "s_leader s" "running_of V tid s = Some x" "\<not> is_stale V tid (x_eid x) s"
  shows "snd (fst (TriggerTask V tid s)) \<noteq> None \<and>
    s_sent (snd (TriggerTask V tid s)) = s_sent s \<and>
    (map life (s_execs (snd (TriggerTask V tid s))) = map life (s_execs s) \<or>
     map life (s_execs (snd (TriggerTask V tid s))) =
       map life (s_execs s) @ [(tid, exec_name V tid, None, ''skipped'', 0)])"
proof -
  have eq: "TriggerTask V tid s = (([], Some (''task '' @ show_int tid @ '' is already running (execution_id: '' @
                          x_eid x @ ''), skipped'')), skip_trigger V tid (x_eid x) s)"
    using assms by (simp add: TriggerTask_def)
  show ?thesis
  proof (cases "env_db V S_insert_execution")
    case None
    then show ?thesis
      unfolding eq by (simp add: skip_trigger_def Let_def AddTaskLog_life) (simp add: life_def)
  next
    case (Some e)
    then show ?thesis unfolding eq by (simp add: skip_trigger_def)
  qed
qed

section \<open>Lifetimes\<close>

lemma lock_ttl_bounds: "60 * second \<le> dispatch_lock_ttl t \<and> dispatch_lock_ttl t \<le> 7200 * second"
  by (simp add: dispatch_lock_ttl_def Let_def)

text \<open>The lock of a dispatched execution lives between one minute and two hours, as intended. The
  renewal record written beside it never lives as long as the lock: its lifetime is the product of
  two counts of nanoseconds, which overflows; for a timeout of 300 seconds it comes out negative,
  so the record has no expiry at all.\<close>

theorem dispatch_lifetimes:
  "60 * second \<le> dispatch_lock_ttl t \<and> dispatch_lock_ttl t \<le> 7200 * second \<and>
   dispatch_renew_ttl t \<noteq> dispatch_lock_ttl t \<and>
   (t_timeout t = 300 \<longrightarrow> dispatch_renew_ttl t < 0)"
proof (intro conjI impI)
  let ?x = "dispatch_lock_ttl t"
  show b: "60 * second \<le> ?x" "?x \<le> 7200 * second" using lock_ttl_bounds by auto
  show "dispatch_renew_ttl t \<noteq> ?x"
  proof
    assume "dispatch_renew_ttl t = ?x"
    then have "?x mod 2 ^ 64 = ?x * second mod 2 ^ 64"
      using wrap64_mod [of "?x * second"] by (simp add: dispatch_renew_ttl_def)
    then have "(2 :: int) ^ 64 dvd ?x * second - ?x" by (simp add: mod_eq_dvd_iff)
    then have d: "(2 :: int) ^ 64 dvd 999999999 * ?x" by (simp add: algebra_simps)
    have "coprime ((2 :: int) ^ 64) 999999999"
      by (subst coprime_power_left_iff) (simp add: coprime_left_2_iff_odd)
    then have "(2 :: int) ^ 64 dvd ?x" using d coprime_dvd_mult_right_iff by blast
    then show False using b zdvd_imp_le [of "2 ^ 64" ?x] by simp
  qed
  show "dispatch_renew_ttl t < 0" if "t_timeout t = 300"
    using that by (simp add: dispatch_renew_ttl_def dispatch_lock_ttl_def wrap64_def)
qed

lemma renew_ttl_not_keep: "dispatch_renew_ttl t \<noteq> - 1"
proof
  assume "dispatch_renew_ttl t = - 1"
  then have "odd (dispatch_renew_ttl t)" by simp
  then show False by (simp add: dispatch_renew_ttl_def wrap64_even)
qed

section \<open>Two triggers at once\<close>

text \<open>Keys that a dispatch of \<open>eid\<close> may write: its own two and those of the log's deduplication.\<close>

definition foreign_key :: "string \<Rightarrow> string \<Rightarrow> bool" where
  "foreign_key eid k \<longleftrightarrow> k \<noteq> lock_key eid \<and> k \<noteq> renew_key eid \<and> take 15 k \<noteq> ''task:log:dedup:''"

lemma foreign_lock: "eid' \<noteq> eid \<Longrightarrow> foreign_key eid (lock_key eid')"
  by (simp add: foreign_key_def lock_key_def renew_key_def)

lemma r_set_frame:
  "redis_server (env_redis V) kv \<Longrightarrow> d \<noteq> - 1 \<Longrightarrow> k' \<noteq> k \<Longrightarrow>
   kv (s_redis (snd (r_set V k v d s))) k' = kv (s_redis s) k'"
  using redis_server.set_frame [of "env_redis V" kv d k' k] by (simp add: r_set_def split_beta Let_def)

lemma AddTaskLog_keys:
  assumes "redis_server (env_redis V) kv" "take 15 k \<noteq> ''task:log:dedup:''"
  shows "kv (s_redis (snd (AddTaskLog V e i n lv m s))) k = kv (s_redis s) k"
proof -
  have "k \<noteq> dedup_key e n lv m" using assms(2) by (auto simp: dedup_key_def)
  then show ?thesis
    by (rule_tac AddTaskLog_cases [of V e i n lv m s]) (simp_all add: r_set_frame [OF assms(1)])
qed

text \<open>A dispatch whose lock is free, with an executor to go to that accepts the task.\<close>

lemma dispatch_success:
  assumes "redis_server (env_redis V) kv" "redis_up (env_redis V)" "\<forall>st. env_db V st = None"
    and "live (env_now V) (kv (s_redis s) (lock_key eid)) = None"
    and "choose_executor V t s = Inr x" "env_dispatcher V = Some send"
    and "send (e_name x) (grpc_of t eid) = None"
  obtains s' where "dispatchTaskExecution V t eid n s = ((eid, None), s')"
    and "s_sent s' = s_sent s @ [(e_name x, grpc_of t eid)]"
    and "\<And>e'. e' \<noteq> eid \<Longrightarrow> lives e' s' = lives e' s"
    and "lives eid s' = map (\<lambda>(a, b, c, d, r). (a, b, Some (e_id x), d, r))
           (lives eid s @ [(t_id t, eid, None, ''running'', n)])"
    and "s_tasks s' = s_tasks s" "s_executors s' = s_executors s"
      "s_domain_executors s' = s_domain_executors s"
    and "\<And>k. foreign_key eid k \<Longrightarrow> kv (s_redis s') k = kv (s_redis s) k"
proof -
  have ttl: "0 \<le> dispatch_lock_ttl t" using lock_ttl_bounds [of t] by linarith
  obtain b r1 where nx: "redis_SetNX (env_redis V) (env_now V) (lock_key eid) (show_int (env_now V))
      (dispatch_lock_ttl t) (s_redis s) = (Inr b, r1)"
    using up_SetNX [OF assms(2)] by blast
  have b: b using redis_server.setnx_law [OF assms(1) ttl nx] assms(4) by simp
  define s1 where "s1 = s\<lparr>s_redis := r1\<rparr>"
  define s2 where "s2 = s1\<lparr>s_execs := s_execs s1 @ [new_execution V t eid n]\<rparr>"
  define s3 where "s3 = (set_executor V eid (e_id x) s2)\<lparr>s_sent := s_sent s2 @ [(e_name x, grpc_of t eid)]\<rparr>"
  define s4 where "s4 = snd (AddTaskLog V eid (t_id t) [] ''info''
      (''Task dispatched to executor: '' @ e_name x) s3)"
  define s5 where "s5 = snd (r_set V (renew_key eid) (show_int (unix V)) (dispatch_renew_ttl t) s4)"
  have db: "env_db V st = None" for st using assms(3) by blast
  have "choose_executor V t s2 = Inr x"
    using choose_cong [of s2 s V t] assms(5) by (simp add: s2_def s1_def)
  moreover have "s_sent (set_executor V eid (e_id x) s2) = s_sent s2" by (simp add: set_executor_def)
  ultimately have "dispatch_inserted V t eid s2 = ((eid, None), s5)"
    using assms(6,7) by (simp add: dispatch_inserted_def Let_def s3_def s4_def s5_def)
  then have "dispatchTaskExecution V t eid n s = ((eid, None), s5)"
    using nx b db by (simp add: dispatchTaskExecution_def r_setnx_def s1_def s2_def)
  moreover have "lives e' s5 = lives e' s" if "e' \<noteq> eid" for e'
  proof -
    have "filter (\<lambda>z. fst (snd z) = e') (map life (upd_where (\<lambda>x. x_eid x = eid)
          (\<lambda>x. x\<lparr>x_executor := Some i\<rparr>) xs)) = filter (\<lambda>z. fst (snd z) = e') (map life xs)" for i xs
      using that by (induction xs) (auto simp: life_def)
    then have "lives e' s5 = lives e' s2"
      using db by (simp add: s5_def s4_def s3_def lives_def AddTaskLog_life set_executor_def)
    then show ?thesis using that by (simp add: s2_def s1_def lives_def life_def new_execution_def)
  qed
  moreover have "lives eid s5 = map (\<lambda>(a, b, c, d, r). (a, b, Some (e_id x), d, r)) (lives eid s2)"
    using set_executor_lives [OF db, of eid "e_id x" s2] by (simp add: s5_def s4_def s3_def)
  moreover have "lives eid s2 = lives eid s @ [(t_id t, eid, None, ''running'', n)]"
    by (simp add: s2_def s1_def lives_def life_def new_execution_def)
  moreover have "kv (s_redis s5) k = kv (s_redis s) k" if "foreign_key eid k" for k
  proof -
    have "kv (s_redis s5) k = kv (s_redis s4) k"
      using that r_set_frame [OF assms(1) renew_ttl_not_keep] by (simp add: s5_def foreign_key_def)
    also have "\<dots> = kv (s_redis s3) k"
      using that AddTaskLog_keys [OF assms(1)] by (simp add: s4_def foreign_key_def)
    also have "\<dots> = kv r1 k" using db by (simp add: s3_def s2_def s1_def set_executor_def)
    also have "\<dots> = kv (s_redis s) k"
      using that redis_server.setnx_frame [OF assms(1) ttl, of k "lock_key eid"] nx
      by (metis foreign_key_def snd_conv)
    finally show ?thesis .
  qed
  moreover have "s_sent s5 = s_sent s @ [(e_name x, grpc_of t eid)]" "s_tasks s5 = s_tasks s"
      "s_executors s5 = s_executors s" "s_domain_executors s5 = s_domain_executors s"
    using db by (simp_all add: s5_def s4_def s3_def s2_def s1_def set_executor_def)
  ultimately show ?thesis using that by simp
qed

lemma exec_name_neq: "env_now V \<noteq> env_now W \<Longrightarrow> exec_name V i \<noteq> exec_name W i"
  by (auto simp: exec_name_def dest: show_int_inj)

lemma get_task:
  "env_db V S_get_task = None \<Longrightarrow> first_where (\<lambda>t. t_id t = i) (s_tasks s) = Some t \<Longrightarrow>
   GetTaskByID V i s = Inr t"
  by (simp add: GetTaskByID_def)

text \<open>What a trigger needs in order to get through: a free lock, an executor, and its consent.\<close>

definition can_dispatch :: "('r \<Rightarrow> keys) \<Rightarrow> 'r env \<Rightarrow> task \<Rightarrow> 'r sched \<Rightarrow> executor \<Rightarrow> bool" where
  "can_dispatch kv V t s x \<longleftrightarrow> (\<forall>st. env_db V st = None) \<and>
     live (env_now V) (kv (s_redis s) (lock_key (exec_name V (t_id t)))) = None \<and>
     choose_executor V t s = Inr x \<and>
     (\<exists>send. env_dispatcher V = Some send \<and> send (e_name x) (grpc_of t (exec_name V (t_id t))) = None)"

text \<open>Two triggers of one task at different instants that both look for a running execution
  before either has recorded its own both dispatch, and the task runs twice: the lock is taken
  under the new execution's own id, so it excludes nobody.\<close>

theorem concurrent_triggers_run_twice:
  assumes "redis_server (env_redis V) kv" "redis_up (env_redis V)" "env_redis W = env_redis V"
    and "s_leader s" "running_of V (t_id t) s = None" "running_of W (t_id t) s = None"
    and "first_where (\<lambda>u. t_id u = t_id t) (s_tasks s) = Some t" "env_now V \<noteq> env_now W"
    and "lives (exec_name V (t_id t)) s = []" "lives (exec_name W (t_id t)) s = []"
    and "can_dispatch kv V t s x" "can_dispatch kv W t s y"
  shows "TriggerTask V (t_id t) s = trigger_dispatch V (t_id t) s \<and>
    TriggerTask W (t_id t) s = trigger_dispatch W (t_id t) s \<and>
    (let s2 = snd (trigger_dispatch W (t_id t) (snd (trigger_dispatch V (t_id t) s)))
     in lives (exec_name V (t_id t)) s2 = [(t_id t, exec_name V (t_id t), Some (e_id x), ''running'', 0)] \<and>
        lives (exec_name W (t_id t)) s2 = [(t_id t, exec_name W (t_id t), Some (e_id y), ''running'', 0)] \<and>
        length (s_sent s2) = length (s_sent s) + 2)"
proof -
  let ?v = "exec_name V (t_id t)" and ?w = "exec_name W (t_id t)"
  have ne: "?v \<noteq> ?w" using exec_name_neq assms(8) by blast
  have dbV: "\<forall>st. env_db V st = None" and dbW: "\<forall>st. env_db W st = None"
    using assms(11,12) by (simp_all add: can_dispatch_def)
  obtain sendV where V: "live (env_now V) (kv (s_redis s) (lock_key ?v)) = None"
      "choose_executor V t s = Inr x" "env_dispatcher V = Some sendV" "sendV (e_name x) (grpc_of t ?v) = None"
    using assms(11) by (auto simp: can_dispatch_def)
  obtain sendW where W: "live (env_now W) (kv (s_redis s) (lock_key ?w)) = None"
      "choose_executor W t s = Inr y" "env_dispatcher W = Some sendW" "sendW (e_name y) (grpc_of t ?w) = None"
    using assms(12) by (auto simp: can_dispatch_def)
  obtain s1 where d1: "dispatchTaskExecution V t ?v 0 s = ((?v, None), s1)"
    and sent1: "s_sent s1 = s_sent s @ [(e_name x, grpc_of t ?v)]"
    and other1: "\<And>e'. e' \<noteq> ?v \<Longrightarrow> lives e' s1 = lives e' s"
    and own1: "lives ?v s1 = map (\<lambda>(a, b, c, d, r). (a, b, Some (e_id x), d, r))
           (lives ?v s @ [(t_id t, ?v, None, ''running'', 0)])"
    and tasks1: "s_tasks s1 = s_tasks s" "s_executors s1 = s_executors s"
      "s_domain_executors s1 = s_domain_executors s"
    and keys1: "\<And>k. foreign_key ?v k \<Longrightarrow> kv (s_redis s1) k = kv (s_redis s) k"
    by (rule dispatch_success [OF assms(1,2) dbV V, where n = 0]) blast
  have W': "live (env_now W) (kv (s_redis s1) (lock_key ?w)) = None" "choose_executor W t s1 = Inr y"
    using W(1,2) keys1 [OF foreign_lock [OF ne [symmetric]]] choose_cong [OF tasks1(2,3)] by simp_all
  obtain s2 where d2: "dispatchTaskExecution W t ?w 0 s1 = ((?w, None), s2)"
    and sent2: "s_sent s2 = s_sent s1 @ [(e_name y, grpc_of t ?w)]"
    and other2: "\<And>e'. e' \<noteq> ?w \<Longrightarrow> lives e' s2 = lives e' s1"
    and own2: "lives ?w s2 = map (\<lambda>(a, b, c, d, r). (a, b, Some (e_id y), d, r))
           (lives ?w s1 @ [(t_id t, ?w, None, ''running'', 0)])"
    by (rule dispatch_success [OF assms(1,2) [folded assms(3)] dbW W' W(3,4), where n = 0]) blast
  have "trigger_dispatch V (t_id t) s = ((?v, None), s1)"
    using d1 assms(7) dbV by (simp add: trigger_dispatch_def get_task)
  moreover have "trigger_dispatch W (t_id t) s1 = ((?w, None), s2)"
    using d2 assms(7) dbW tasks1(1) by (simp add: trigger_dispatch_def get_task)
  ultimately show ?thesis
    using assms(4-6,9,10) ne sent1 own1 sent2 own2 other1 other2 by (simp add: TriggerTask_def)
qed

end
