(* ===== verification/Task_Steps.thy ===== *)
theory Task_Steps
  imports Task_Properties
begin

text \<open>
  The task service as a step relation, one rule per call with an environment of its own, and its
  invariant on retries; then what late results and repeated log lines do; then the concrete runs
  that the properties of the service are applied to.
\<close>

section \<open>Steps\<close>

inductive service_step :: "int \<Rightarrow> 'r sched \<Rightarrow> 'r sched \<Rightarrow> bool" for N where
  trigger: "service_step N s (snd (TriggerTask V tid s))"
| failure: "service_step N s (snd (HandleTaskFailure V tid eid out er d s))"
| retry: "r \<in> set (s_retries s) \<Longrightarrow> service_step N s (run_retry V r s)"
| result: "service_step N s (snd (UpdateExecutionResult V eid st out er g s))"
| progress: "service_step N s (snd (UpdateTaskProgress V eid p msg s))"
| cancel: "service_step N s (snd (CancelExecution V eid by s))"
| log: "service_step N s (snd (AddTaskLog V eid tid node lv msg s))"
| create: "t_retry_count t \<le> N \<Longrightarrow> service_step N s (snd (CreateTask V t s))"
| change: "t_retry_count t \<le> N \<Longrightarrow> service_step N s (snd (UpdateTask V tid t s))"
| delete: "service_step N s (snd (DeleteTask V tid s))"
| lead: "service_step N s (s\<lparr>s_leader := b\<rparr>)"

text \<open>The numbers of retries in a state: configured, recorded and pending.\<close>

definition nums :: "'r sched \<Rightarrow> int list \<times> int list \<times> int list" where
  "nums s = (map t_retry_count (s_tasks s), map x_retry (s_execs s), map r_times (s_retries s))"

definition bounded :: "int \<Rightarrow> 'r sched \<Rightarrow> bool" where
  "bounded N s \<longleftrightarrow> (case nums s of (ts, xs, rs) \<Rightarrow>
     (\<forall>n\<in>set ts. n \<le> N) \<and> (\<forall>n\<in>set xs. n \<le> N) \<and> (\<forall>n\<in>set rs. n \<le> N))"

lemma bounded_cong: "nums s' = nums s \<Longrightarrow> bounded N s' = bounded N s"
  by (simp add: bounded_def)

lemma bounded_iff:
  "bounded N s \<longleftrightarrow> (\<forall>t\<in>set (s_tasks s). t_retry_count t \<le> N) \<and>
     (\<forall>x\<in>set (s_execs s). x_retry x \<le> N) \<and> (\<forall>r\<in>set (s_retries s). r_times r \<le> N)"
  by (simp add: bounded_def nums_def)

lemma nums_redis [simp]:
  "nums (r_del V ks s) = nums s" "nums (snd (r_set V k v d s)) = nums s"
  "nums (snd (r_setnx V k v d s)) = nums s" "nums (s\<lparr>s_redis := r\<rparr>) = nums s"
  "nums (s\<lparr>s_sent := m\<rparr>) = nums s" "nums (s\<lparr>s_cron := c\<rparr>) = nums s"
  "nums (s\<lparr>s_cancels := l\<rparr>) = nums s" "nums (s\<lparr>s_leader := b\<rparr>) = nums s"
  by (simp_all add: nums_def)

lemma nums_status [simp]:
  "nums (snd (UpdateTaskStatusByID V i st s)) = nums s"
  "nums (SendWebhookNotification V i e st o' er d s) = nums s"
  by (simp_all add: nums_def)

lemma life_retry: "map life xs = map life ys \<Longrightarrow> map x_retry xs = map x_retry ys"
proof -
  have x: "x_retry = (\<lambda>(a, b, c, d, r). r) \<circ> life" by (rule ext) (simp add: life_def)
  assume "map life xs = map life ys"
  then show ?thesis unfolding x map_map [symmetric] by simp
qed

lemma nums_log [simp]: "nums (snd (AddTaskLog V e i n lv m s)) = nums s"
  using life_retry [OF AddTaskLog_life] by (simp add: nums_def)

lemma nums_result [simp]: "nums (snd (UpdateExecutionResult V e st o' er g s)) = nums s"
proof (cases "env_db V S_execution_result")
  case None
  obtain a b where "result_times V g = (a, b)" by fastforce
  with None show ?thesis
    by (simp add: nums_def UpdateExecutionResult_def map_upd_where)
qed (simp add: UpdateExecutionResult_def)

lemma nums_progress [simp]: "nums (snd (UpdateTaskProgress V e p m s)) = nums s"
  by (simp add: nums_def UpdateTaskProgress_def map_upd_where split: option.splits)

lemma nums_executor [simp]: "nums (set_executor V e i s) = nums s"
  by (simp add: nums_def set_executor_def map_upd_where)

lemma nums_failed [simp]:
  "nums (dispatch_failed V t e m s) = nums s" "nums (mark_failed V i e o' er d s) = nums s"
  by (simp_all add: dispatch_failed_def mark_failed_def Let_def)

lemma nums_inserted: "nums (snd (dispatch_inserted V t e s)) = nums s"
  by (simp add: dispatch_inserted_def Let_def split: sum.splits option.splits)

lemma nums_cancel: "nums (snd (CancelExecution V e by s)) = nums s"
proof -
  have r: "nums s2 = nums s1" if "UpdateExecutionResult V e st o' er g s1 = (x, s2)"
    for st o' er g s1 x s2
    using that nums_result by (metis snd_conv)
  show ?thesis
    by (auto simp: CancelExecution_def Let_def dest!: r split: sum.splits option.splits prod.splits)
qed

lemma bounded_dispatch:
  assumes "bounded N s" "n \<le> N"
  shows "bounded N (snd (dispatchTaskExecution V t e n s))"
proof -
  obtain y s1 where y: "r_setnx V (lock_key e) (show_int (env_now V)) (dispatch_lock_ttl t) s = (y, s1)"
    by fastforce
  then have "nums s1 = nums s" using nums_redis(3) by (metis snd_conv)
  then have s1: "bounded N s1" using assms(1) bounded_cong by blast
  then have "bounded N (s1\<lparr>s_execs := s_execs s1 @ [new_execution V t e n]\<rparr>)"
    using assms(2) by (auto simp: bounded_iff new_execution_def)
  then have "bounded N (snd (dispatch_inserted V t e (s1\<lparr>s_execs := s_execs s1 @ [new_execution V t e n]\<rparr>)))"
    using bounded_cong [OF nums_inserted] by blast
  then show ?thesis
    using y s1
    by (auto simp: dispatchTaskExecution_def bounded_cong [OF nums_redis(1)] split: sum.splits bool.splits option.splits)
qed

lemma GetTaskByID_in: "GetTaskByID V i s = Inr t \<Longrightarrow> t \<in> set (s_tasks s)"
  by (auto simp: GetTaskByID_def dest: first_where_Some split: option.splits)

lemma bounded_retryTask: "bounded N s \<Longrightarrow> n \<le> N \<Longrightarrow> bounded N (snd (RetryTask V i n s))"
  by (auto simp: RetryTask_def bounded_dispatch split: sum.splits)

lemma bounded_failure:
  assumes "bounded N s"
  shows "bounded N (snd (HandleTaskFailure V i e o' er d s))"
proof (cases "GetTaskByID V i s")
  case (Inl x)
  then show ?thesis using assms bounded_cong nums_failed(2) by (fastforce simp: HandleTaskFailure_def Let_def)
next
  case (Inr t)
  then have t: "t_retry_count t \<le> N" using assms GetTaskByID_in [of V i s t] by (auto simp: bounded_iff)
  obtain y s1 where y: "r_setnx V (retry_lock_key i) ''locked'' (30 * minute) s = (y, s1)" by fastforce
  then have "nums s1 = nums s" using nums_redis(3) by (metis snd_conv)
  then have s1: "bounded N s1" using assms bounded_cong by blast
  have mark: "bounded N (mark_failed V i e o' er d' s)" for d'
    using assms bounded_cong [OF nums_failed(2)] by blast
  have free: "bounded N (mark_failed V i e o' er d' (r_del V [retry_lock_key i] s1))" for d'
    using s1 bounded_cong [OF nums_failed(2)] bounded_cong [OF nums_redis(1)] by blast
  have add: "bounded N (s1\<lparr>s_retries := s_retries s1 @ [r]\<rparr>)" if "r_times r \<le> t_retry_count t" for r
    using s1 t that by (auto simp: bounded_iff)
  show ?thesis
    using Inr y s1 mark free add
    by (simp add: HandleTaskFailure_def Let_def split: sum.splits bool.splits)
qed

lemma bounded_run_retry:
  assumes "bounded N s" "r \<in> set (s_retries s)"
  shows "bounded N (run_retry V r s)"
proof -
  let ?s = "s\<lparr>s_retries := remove1 r (s_retries s)\<rparr>"
  have n: "r_times r \<le> N" using assms by (auto simp: bounded_iff)
  have b: "bounded N ?s" using assms(1) set_remove1_subset [of r] by (fastforce simp: bounded_iff)
  obtain y z s1 where y: "RetryTask V (t_id (r_task r)) (r_times r) ?s = ((y, z), s1)" by (metis surj_pair)
  then have s1: "bounded N s1" using bounded_retryTask [OF b n] by (metis snd_conv)
  have mark: "bounded N (mark_failed V i e o' er d u)" if "bounded N u" for i e o' er d u
    using that bounded_cong [OF nums_failed(2)] by blast
  show ?thesis
    using y s1 b mark by (simp add: run_retry_def Let_def bounded_cong [OF nums_redis(1)] split: option.splits)
qed

lemma bounded_trigger:
  assumes "bounded N s" "0 \<le> N"
  shows "bounded N (snd (TriggerTask V i s))"
proof -
  have d: "bounded N (snd (trigger_dispatch V i u))" if "bounded N u" for u
    using that assms(2) by (auto simp: trigger_dispatch_def bounded_dispatch split: sum.splits)
  have stale: "bounded N (clean_stale V i e s)" for e
    unfolding clean_stale_def Let_def
    by (intro bounded_cong [OF nums_redis(1), THEN iffD2] bounded_failure)
      (use assms(1) bounded_cong in \<open>simp add: bounded_def\<close>)
  have skip: "bounded N (skip_trigger V i e s)" for e
  proof (cases "env_db V S_insert_execution")
    case None
    let ?x = "\<lparr>x_id = env_new_id V, x_task = i, x_eid = exec_name V i, x_executor = None, x_status = ''skipped'',
       x_start = Some (env_now V), x_end = None, x_output = [],
       x_error = ''skipped: previous execution (id: '' @ e @ '') is still running'',
       x_retry = 0, x_created = env_now V, x_progress = 0, x_progress_msg = [], x_updated = None\<rparr>"
    have "bounded N (s\<lparr>s_execs := s_execs s @ [?x]\<rparr>)" using assms by (auto simp: bounded_iff)
    then show ?thesis
      using None
      by (simp add: skip_trigger_def Let_def bounded_cong [OF nums_status(2)] bounded_cong [OF nums_log])
  next
    case (Some a)
    then show ?thesis using assms(1) by (simp add: skip_trigger_def)
  qed
  show ?thesis using assms(1) d stale skip by (simp add: TriggerTask_def split: option.splits)
qed

lemma nums_reload [simp]:
  "nums (ask_reload V s) = nums s" "nums (RegisterTask i c s) = nums s" "nums (UnregisterTask i s) = nums s"
  by (simp_all add: ask_reload_def RegisterTask_def UnregisterTask_def)

lemma bounded_task_ops:
  assumes "bounded N s"
  shows "t_retry_count t \<le> N \<Longrightarrow> bounded N (snd (CreateTask V t s))"
    and "t_retry_count t \<le> N \<Longrightarrow> bounded N (snd (UpdateTask V i t s))"
    and "bounded N (snd (DeleteTask V i s))"
proof -
  have 1: "bounded N (s\<lparr>s_tasks := s_tasks s @ [t\<lparr>t_id := k\<rparr>]\<rparr>)" if "t_retry_count t \<le> N" for k
    using assms that by (auto simp: bounded_iff)
  then show "t_retry_count t \<le> N \<Longrightarrow> bounded N (snd (CreateTask V t s))"
    using assms by (simp add: CreateTask_def Let_def bounded_cong [OF nums_reload(1)]
        bounded_cong [OF nums_reload(2)] split: option.splits sum.splits)
  have 2: "bounded N (s\<lparr>s_tasks := upd_where p f (s_tasks s)\<rparr>)"
    if "\<And>x. t_retry_count (f x) \<le> N" for p f
    using assms that by (auto simp: bounded_iff set_upd_where)
  then show "t_retry_count t \<le> N \<Longrightarrow> bounded N (snd (UpdateTask V i t s))"
    using assms by (simp add: UpdateTask_def Let_def bounded_cong [OF nums_reload(1)]
        bounded_cong [OF nums_reload(2)] bounded_cong [OF nums_reload(3)] split: option.splits sum.splits)
  have 3: "bounded N (s\<lparr>s_tasks := del_where p (s_tasks s)\<rparr>)" for p
    using assms by (auto simp: bounded_iff)
  then show "bounded N (snd (DeleteTask V i s))"
    using assms by (simp add: DeleteTask_def Let_def bounded_cong [OF nums_reload(1)]
        bounded_cong [OF nums_reload(3)] split: option.splits)
qed

lemma service_step_bounded: "service_step N s s' \<Longrightarrow> 0 \<le> N \<Longrightarrow> bounded N s \<Longrightarrow> bounded N s'"
  by (induction rule: service_step.induct)
    (auto intro: bounded_trigger bounded_failure bounded_run_retry bounded_task_ops
      bounded_cong [THEN iffD2] nums_cancel)

text \<open>A service over fixed bounds starts from any state within them.\<close>

lemma service_invariant:
  "0 \<le> N \<Longrightarrow> transition_invariant (bounded N) (service_step N) (bounded N)"
  by (unfold_locales) (use service_step_bounded in blast)+

lemmas service_reach_bounded = transition_invariant.reach_inv [OF service_invariant]

text \<open>As long as no task is configured with more than \<open>N\<close> retries, no execution is ever recorded
  as a later retry than the \<open>N\<close>th and no later one is pending, whatever triggers, failures (real
  or reported twice), retries, edits and changes of leadership happen in between.\<close>

theorem retries_are_bounded:
  assumes "0 \<le> N" "reach (bounded N) (service_step N) s"
  shows "(\<forall>x\<in>set (s_execs s). x_retry x \<le> N) \<and> (\<forall>r\<in>set (s_retries s). r_times r \<le> N)"
  using service_reach_bounded [OF assms] by (simp add: bounded_iff)

section \<open>Late results and repeated lines\<close>

lemma first_where_eid_upd:
  "first_where (\<lambda>x. x_eid x = e) xs = Some x \<Longrightarrow> (\<And>x. x_eid (f x) = x_eid x) \<Longrightarrow>
   first_where (\<lambda>x. x_eid x = e) (upd_where (\<lambda>x. x_eid x = e) f xs) = Some (f x)"
  by (induction xs) (auto split: if_splits)

lemma result_first:
  assumes "env_db V S_execution_result = None" "first_where (\<lambda>x. x_eid x = e) (s_execs s) = Some x"
  shows "\<exists>x'. first_where (\<lambda>x. x_eid x = e) (s_execs (snd (UpdateExecutionResult V e st o' er g s))) = Some x' \<and>
    x_status x' = st \<and> x_output x' = o' \<and> x_error x' = er"
proof -
  obtain a b where "result_times V g = (a, b)" by fastforce
  then show ?thesis
    using assms first_where_eid_upd [OF assms(2)] by (simp add: UpdateExecutionResult_def)
qed

lemma life_first:
  assumes "map life xs = map life ys" "first_where (\<lambda>x. x_eid x = e) xs = Some x"
  shows "\<exists>y. first_where (\<lambda>x. x_eid x = e) ys = Some y \<and> life y = life x"
  using assms
proof (induction xs arbitrary: ys)
  case Nil
  then show ?case by simp
next
  case (Cons a xs)
  then obtain b ys' where "ys = b # ys'" "life a = life b" "map life xs = map life ys'"
    by (cases ys) auto
  then show ?case using Cons by (auto simp: life_def split: if_splits)
qed

text \<open>A cancellation does not stick: after a successful cancel the execution counts as failed, but
  the report of an executor that finished the task all the same is written over it, status, output
  and error.\<close>

theorem cancelled_execution_can_succeed:
  assumes "\<forall>st. env_db V st = None" "\<forall>st. env_db W st = None"
    and "first_where (\<lambda>x. x_eid x = e) (s_execs s) = Some x" "x_status x = ''running''"
  shows "fst (CancelExecution V e by s) = Inr () \<and>
    (\<exists>y. first_where (\<lambda>x. x_eid x = e) (s_execs (snd (CancelExecution V e by s))) = Some y \<and>
         x_status y = ''failed'') \<and>
    (\<exists>y. first_where (\<lambda>x. x_eid x = e) (s_execs (snd (UpdateExecutionResult W e ''success'' o' [] g
           (snd (CancelExecution V e by s))))) = Some y \<and> x_status y = ''success'' \<and> x_output y = o')"
proof -
  have db: "env_db V st = None" "env_db W st = None" for st using assms(1,2) by simp_all
  obtain s1 where s1: "s_execs s1 = s_execs s"
    and eq: "CancelExecution V e by s =
      (case UpdateExecutionResult V e ''failed'' [] ''task cancelled by user'' None s1 of
         (Inl er, s2) \<Rightarrow> (Inl (''failed to update execution: '' @ er), s2)
       | (Inr u, s2) \<Rightarrow> (Inr (), snd (AddTaskLog V e (x_task x) [] ''info''
                                   (''Task cancelled by user: '' @ by) s2)))"
  proof
    let ?xid = "case x_executor x of None \<Rightarrow> 0 | Some i \<Rightarrow> i"
    let ?s1 = "if ?xid > 0 \<and> env_notifier V
               then (case GetExecutorByID V ?xid s of
                       Inl e \<Rightarrow> s
                     | Inr ex \<Rightarrow> s\<lparr>s_cancels := s_cancels s @ [(e_name ex, e)]\<rparr>)
               else s"
    show "s_execs ?s1 = s_execs s" by (simp split: sum.splits)
    show "CancelExecution V e by s =
      (case UpdateExecutionResult V e ''failed'' [] ''task cancelled by user'' None ?s1 of
         (Inl er, s2) \<Rightarrow> (Inl (''failed to update execution: '' @ er), s2)
       | (Inr u, s2) \<Rightarrow> (Inr (), snd (AddTaskLog V e (x_task x) [] ''info''
                                   (''Task cancelled by user: '' @ by) s2)))"
      using assms(3,4) db unfolding CancelExecution_def Let_def by simp
  qed
  obtain s2 where s2: "UpdateExecutionResult V e ''failed'' [] ''task cancelled by user'' None s1 = (Inr (), s2)"
    using db by (simp add: UpdateExecutionResult_def result_times_def Let_def)
  then obtain x2 where x2: "first_where (\<lambda>x. x_eid x = e) (s_execs s2) = Some x2" "x_status x2 = ''failed''"
    using result_first [OF db(1), where s = s1 and e = e and st = "''failed''" and o' = "[]"
        and er = "''task cancelled by user''" and g = None] s1 assms(3)
    by auto
  let ?s3 = "snd (CancelExecution V e by s)"
  have s3: "?s3 = snd (AddTaskLog V e (x_task x) [] ''info'' (''Task cancelled by user: '' @ by) s2)"
    using eq s2 by simp
  have "map life (s_execs s2) = map life (s_execs ?s3)" unfolding s3 by (rule AddTaskLog_life [symmetric])
  then obtain x3 where x3: "first_where (\<lambda>x. x_eid x = e) (s_execs ?s3) = Some x3" "life x3 = life x2"
    using life_first x2(1) by blast
  then have "x_status x3 = ''failed''" using x2(2) by (simp add: life_def)
  moreover have "fst (CancelExecution V e by s) = Inr ()" using eq s2 by simp
  ultimately show ?thesis
    using x3(1) result_first [OF db(2) x3(1), where st = "''success''" and o' = o' and er = "[]" and g = g] by auto
qed

text \<open>A line that a task prints twice within half a minute is kept once: the second call reports
  success and changes nothing, neither the log nor the accumulated output.\<close>

theorem repeated_output_line_is_lost:
  fixes i :: int
  assumes "redis_server (env_redis V) kv" "redis_up (env_redis V)" "env_redis W = env_redis V"
    and "\<forall>st. env_db V st = None" "live (env_now V) (kv (s_redis s) (dedup_key e n ''stdout'' m)) = None"
    and "env_now V \<le> env_now W" "env_now W < env_now V + 30 * second"
    and "first_where (\<lambda>x. x_eid x = e) (s_execs s) = Some x"
  defines "s1 \<equiv> snd (AddTaskLog V e i n ''stdout'' m s)"
  shows "(\<exists>y. first_where (\<lambda>x. x_eid x = e) (s_execs s1) = Some y \<and> x_output y = x_output x @ m) \<and>
    AddTaskLog W e i n ''stdout'' m s1 = (Inr (), s1)"
proof -
  let ?k = "dedup_key e n ''stdout'' m"
  obtain b where b: "redis_Exists (env_redis V) (env_now V) ?k (s_redis s) = Inr b"
    using up_Exists [OF assms(2)] by blast
  have "\<not> b" using redis_server.exists_law [OF assms(1) b] assms(5) by simp
  then have ex: "r_exists V ?k s = Inr False" using b by (simp add: r_exists_def)
  let ?s0 = "snd (r_set V ?k ''1'' (30 * second) s)"
  obtain l where s1: "s1 = append_output V e ''stdout'' m (?s0\<lparr>s_logs := s_logs ?s0 @ [l]\<rparr>)"
    using ex assms(4) that unfolding s1_def AddTaskLog_def insert_log_def Let_def by simp
  have "s_execs s1 = upd_where (\<lambda>x. x_eid x = e) (\<lambda>x. x\<lparr>x_output := x_output x @ m\<rparr>) (s_execs s)"
    unfolding s1 append_output_def using assms(4) by simp
  then have out: "first_where (\<lambda>x. x_eid x = e) (s_execs s1) = Some (x\<lparr>x_output := x_output x @ m\<rparr>)"
    using first_where_eid_upd [OF assms(8)] by simp
  have "s_redis s1 = s_redis ?s0" unfolding s1 by simp
  then have "kv (s_redis s1) ?k = Some (''1'', Some (env_now V + 30 * second))"
    using r_set_up [OF assms(1,2), of "30 * second"] by (simp add: put_def expiry_def)
  then have "live (env_now W) (kv (s_redis s1) ?k) \<noteq> None" using assms(7) by simp
  moreover obtain b' where b': "redis_Exists (env_redis W) (env_now W) ?k (s_redis s1) = Inr b'"
    using up_Exists assms(2,3) by metis
  ultimately have "r_exists W ?k s1 = Inr True"
    using redis_server.exists_law [OF assms(1), of "env_now W" ?k "s_redis s1" b'] assms(3)
    by (simp add: r_exists_def)
  then have "AddTaskLog W e i n ''stdout'' m s1 = (Inr (), s1)" by (simp add: AddTaskLog_def Let_def)
  then show ?thesis using out by simp
qed

end
