(* ===== verification/Cleanup.thy ===== *)
theory Cleanup
  imports Executions Task_Steps
begin

text \<open>
  The cleanup routine of the leader (scheduler/internal/service/cleanup_service.go) and the recovery
  of running tasks by a new leader (\<open>RecoverRunningTasksOnBecomeLeader\<close> of execution_service.go).
  A goroutine that calls \<open>HandleTaskFailure\<close> is an entry of \<open>s_failures\<close> until \<open>run_failure\<close> runs
  it. A loop over the rows of a query is a fold over the rows read before it.
\<close>

section \<open>Executors that answer\<close>

definition pingExecutor :: "'r env \<Rightarrow> executor \<Rightarrow> bool" where
  "pingExecutor V x \<longleftrightarrow> env_connected V (e_name x) \<or>
     (e_address x \<noteq> [] \<and>
      env_dial V (if CHR '':'' \<in> set (e_address x) then e_address x else e_address x @ '':50051''))"

text \<open>
  The start of an execution as the checks on running time see it. They parse the text of the cell;
  when the driver returns a \<open>DATETIME\<close> cell as a time value, its text is the one that \<open>%v\<close> prints,
  with a zone offset and name, which none of the three formats of \<open>parseTimeInLocalTimezone\<close> reads.
\<close>

definition parsed_start :: "'r env \<Rightarrow> execution \<Rightarrow> instant option" where
  "parsed_start V x = (if env_text_times V then x_start x else None)"

definition fail_keys :: "string \<Rightarrow> string list" where
  "fail_keys eid = [lock_key eid, renew_key eid, fail_key eid]"

text \<open>The end that every forced failure shares: result, keys, and the failure in a goroutine.\<close>

definition fail_execution :: "'r env \<Rightarrow> int \<Rightarrow> string \<Rightarrow> string \<Rightarrow> 'r sched \<Rightarrow> 'r sched" where
  "fail_execution V tid eid msg s =
     (let s1 = r_del V (fail_keys eid) (snd (UpdateExecutionResult V eid ''failed'' [] msg None s))
      in s1\<lparr>s_failures := s_failures s1 @ [(tid, eid, msg)]\<rparr>)"

text \<open>The goroutine itself.\<close>

definition run_failure :: "'r env \<Rightarrow> int \<times> string \<times> string \<Rightarrow> 'r sched \<Rightarrow> 'r sched" where
  "run_failure V g s =
     (case g of (tid, eid, msg) \<Rightarrow>
        snd (HandleTaskFailure V tid eid [] msg 0 (s\<lparr>s_failures := remove1 g (s_failures s)\<rparr>)))"

section \<open>Stuck tasks\<close>

record stuck =
  k_task :: int
  k_eid :: string
  k_started :: "instant option"
  k_timeout :: int
  k_executor :: int
  k_no_timeout :: bool
  k_status :: string       \<comment> \<open>the executor's status, empty without an executor\<close>

definition stuck_of :: "'r env \<Rightarrow> 'r sched \<Rightarrow> execution \<Rightarrow> task \<Rightarrow> stuck" where
  "stuck_of V s x t =
     \<lparr>k_task = x_task x, k_eid = x_eid x, k_started = parsed_start V x,
      k_timeout = (if t_timeout t \<le> 0 then 300 else t_timeout t),
      k_executor = (case x_executor x of None \<Rightarrow> 0 | Some i \<Rightarrow> i),
      k_no_timeout = (t_timeout t \<le> 0),
      k_status = (case executor_of s x of None \<Rightarrow> [] | Some e \<Rightarrow> e_status e)\<rparr>"

definition stuck_rows :: "'r env \<Rightarrow> 'r sched \<Rightarrow> stuck list" where
  "stuck_rows V s =
     map (\<lambda>x. stuck_of V s x (the (task_of s x)))
       (filter (\<lambda>x. task_of s x \<noteq> None \<and> x_status x = ''running'' \<and> x_start x \<noteq> None \<and>
                    x_created x < env_now V - 5 * minute) (s_execs s))"

text \<open>The second look at executors that were not online in the first query.\<close>

definition online_again :: "'r env \<Rightarrow> stuck list \<Rightarrow> 'r sched \<Rightarrow> int \<Rightarrow> bool" where
  "online_again V ks s i \<longleftrightarrow> env_db V S_online_again = None \<and>
     (\<exists>k\<in>set ks. k_executor k = i \<and> i > 0 \<and> k_status k \<noteq> ''online'') \<and>
     (\<exists>e\<in>set (s_executors s). e_id e = i \<and> e_status e = ''online'')"

text \<open>Why an execution is failed, if it is; \<open>renewal\<close> is the record read before the loop.\<close>

definition stuck_reason ::
  "'r env \<Rightarrow> (int \<Rightarrow> bool) \<Rightarrow> int option \<Rightarrow> stuck \<Rightarrow> 'r sched \<Rightarrow> string option" where
  "stuck_reason V again renewal k s =
     (let ago = (case renewal of None \<Rightarrow> 9999 | Some t \<Rightarrow> unix V - t);
          online = (k_executor k > 0 \<longrightarrow> again (k_executor k) \<or> k_status k = ''online'');
          reachable = (online \<and> k_executor k > 0 \<longrightarrow>
             (case GetExecutorByID V (k_executor k) s of Inl e \<Rightarrow> False | Inr x \<Rightarrow> pingExecutor V x));
          timeout = (\<not> k_no_timeout k \<and>
             when_some (\<lambda>t. env_now V - t > k_timeout k * second) (k_started k));
          expired = (\<not> k_no_timeout k \<and> ago > k_timeout k)
      in if \<not> online then Some ''executor is offline''
         else if \<not> reachable then Some ''executor is unreachable (ping failed)''
         else if renewal = None then Some ''no renewal record found''
         else if expired then Some (''renewal expired ('' @ show_int ago @ '' seconds ago, timeout '' @
                                    show_int (k_timeout k) @ '')'')
         else if timeout then Some ''task execution timeout''
         else None)"

definition cleanup_stuck ::
  "'r env \<Rightarrow> (int \<Rightarrow> bool) \<Rightarrow> (string \<Rightarrow> int option) \<Rightarrow> stuck \<Rightarrow> 'r sched \<Rightarrow> 'r sched" where
  "cleanup_stuck V again renewals k s =
     (case stuck_reason V again (renewals (k_eid k)) k s of
        None \<Rightarrow> s
      | Some reason \<Rightarrow> fail_execution V (k_task k) (k_eid k) (''task stuck: '' @ reason) s)"

definition cleanupDeadTasks :: "'r env \<Rightarrow> 'r sched \<Rightarrow> 'r sched" where
  "cleanupDeadTasks V s =
     (case env_db V S_stuck_tasks of
        Some e \<Rightarrow> s
      | None \<Rightarrow>
          (let ks = stuck_rows V s
           in fold (cleanup_stuck V (online_again V ks s) (\<lambda>eid. last_renewal V eid s)) ks s))"

section \<open>Offline executors\<close>

definition heartbeat_before :: "instant \<Rightarrow> executor \<Rightarrow> bool" where
  "heartbeat_before cutoff e = when_some (\<lambda>t. t < cutoff) (e_heartbeat e)"

definition offline_text :: string where
  "offline_text = ''executor went offline during task execution''"

definition on_offline_executor :: "'r env \<Rightarrow> 'r sched \<Rightarrow> execution \<Rightarrow> bool" where
  "on_offline_executor V s x \<longleftrightarrow> x_status x = ''running'' \<and>
     (when_some (\<lambda>e. e_status e = ''offline'' \<or> heartbeat_before (env_now V - 45 * second) e)
        (executor_of s x) \<or> x_executor x = Some 0 \<or> x_executor x = None)"

definition cleanupTasksFromOfflineExecutors :: "'r env \<Rightarrow> 'r sched \<Rightarrow> 'r sched" where
  "cleanupTasksFromOfflineExecutors V s =
     (case env_db V S_offline_tasks of
        Some e \<Rightarrow> s
      | None \<Rightarrow> fold (\<lambda>x. fail_execution V (x_task x) (x_eid x) offline_text)
                  (filter (on_offline_executor V s) (s_execs s)) s)"

definition cleanupOfflineExecutors :: "'r env \<Rightarrow> 'r sched \<Rightarrow> 'r sched" where
  "cleanupOfflineExecutors V s =
     (case env_db V S_offline_executors of
        Some e \<Rightarrow> s
      | None \<Rightarrow> cleanupTasksFromOfflineExecutors V
          (s\<lparr>s_executors := upd_where
               (\<lambda>e. e_status e = ''online'' \<and> heartbeat_before (env_now V - 45 * second) e)
               (\<lambda>e. e\<lparr>e_status := ''offline'', e_updated := env_now V\<rparr>) (s_executors s)\<rparr>))"

section \<open>Stale locks\<close>

text \<open>The third of the parts that \<open>SplitN(key, ":", 3)\<close> makes, empty when there are fewer.\<close>

definition after_colon :: "string \<Rightarrow> string option" where
  "after_colon k = (case dropWhile (\<lambda>c. c \<noteq> CHR '':'') k of [] \<Rightarrow> None | c # cs \<Rightarrow> Some cs)"

definition third_part :: "string \<Rightarrow> string" where
  "third_part k = (case Option.bind (after_colon k) after_colon of None \<Rightarrow> [] | Some p \<Rightarrow> p)"

text \<open>The failure counts that are dropped: those without a renewal, and those of a fresh one.\<close>

definition counts_to_drop :: "'r env \<Rightarrow> 'r sched \<Rightarrow> (execution \<times> task) list \<Rightarrow> string list" where
  "counts_to_drop V s rows =
     concat (map (\<lambda>(x, t).
       case r_get V (renew_key (x_eid x)) s of
         Inr (Some v) \<Rightarrow>
           (if (t_timeout t \<le> 0 \<or> unix V - scan_d v \<le> t_timeout t) \<and>
               (case r_get V (fail_key (x_eid x)) s of Inr (Some w) \<Rightarrow> w \<noteq> [] | _ \<Rightarrow> False)
            then [fail_key (x_eid x)] else [])
       | _ \<Rightarrow> [fail_key (x_eid x)]) rows)"

definition remove_lock :: "'r env \<Rightarrow> string list \<Rightarrow> string \<Rightarrow> 'r sched \<Rightarrow> 'r sched" where
  "remove_lock V running key s =
     (let eid = third_part key
      in if eid \<in> set running then s
         else r_del V [renew_key eid, fail_key eid] (r_del V [key] s))"

text \<open>\<open>pages\<close> are the replies of the \<open>SCAN\<close> calls until the cursor is back at 0.\<close>

fun remove_locks :: "'r env \<Rightarrow> string list \<Rightarrow> string list result list \<Rightarrow> 'r sched \<Rightarrow> 'r sched" where
  "remove_locks V running [] s = s"
| "remove_locks V running (Inl e # pages) s = s"
| "remove_locks V running (Inr keys # pages) s =
     remove_locks V running pages (fold (remove_lock V running) keys s)"

definition running_rows :: "'r sched \<Rightarrow> (execution \<times> task) list" where
  "running_rows s =
     map (\<lambda>x. (x, the (task_of s x)))
       (filter (\<lambda>x. task_of s x \<noteq> None \<and> x_status x = ''running'') (s_execs s))"

definition cleanupStaleTaskLocks :: "'r env \<Rightarrow> string list result list \<Rightarrow> 'r sched \<Rightarrow> 'r sched" where
  "cleanupStaleTaskLocks V pages s =
     (case env_db V S_running_tasks of
        Some e \<Rightarrow> s
      | None \<Rightarrow>
          (let rows = running_rows s;
               keys = counts_to_drop V s rows;
               s1 = (if keys = [] then s else r_del V keys s)
           in remove_locks V (map (x_eid \<circ> fst) rows) pages s1))"

section \<open>The routine\<close>

definition checkCronReload :: "'r env \<Rightarrow> 'r sched \<Rightarrow> 'r sched" where
  "checkCronReload V s =
     (case r_get_int V reload_key s of
        Inl e \<Rightarrow> s
      | Inr n \<Rightarrow>
          (if n = 0 then s
           else (let s1 = r_del V [reload_key] s
                 in if env_cron V then s1\<lparr>s_reloads := Suc (s_reloads s1)\<rparr> else s1)))"

text \<open>One tick of the minute ticker.\<close>

definition cleanupStuckTasks :: "'r env \<Rightarrow> string list result list \<Rightarrow> 'r sched \<Rightarrow> 'r sched" where
  "cleanupStuckTasks V pages s =
     (if s_leader s
      then cleanupStaleTaskLocks V pages (cleanupOfflineExecutors V (cleanupDeadTasks V
             (checkCronReload V s)))
      else s)"

section \<open>Recovery\<close>

definition forceFailTask :: "'r env \<Rightarrow> string \<Rightarrow> int \<Rightarrow> string \<Rightarrow> string \<Rightarrow> 'r sched \<Rightarrow> 'r sched" where
  "forceFailTask V eid tid reason name s =
     (let s1 = snd (UpdateExecutionResult V eid ''failed'' [] reason None s);
          s2 = snd (AddTaskLog V eid tid [] ''error''
                 (''Task force failed on executor: '' @ name @ '', reason: '' @ reason) s1);
          s3 = r_del V (fail_keys eid) s2
      in s3\<lparr>s_failures := s_failures s3 @ [(tid, eid, reason)]\<rparr>)"

definition addRecoveryLogSafe ::
  "'r env \<Rightarrow> string \<Rightarrow> int \<Rightarrow> string \<Rightarrow> string \<Rightarrow> 'r sched \<Rightarrow> unit result \<times> 'r sched" where
  "addRecoveryLogSafe V eid tid level msg s =
     (let key = ''task:log:dedup:'' @ eid @ '':recovery:'' @ show_int (unix V div 300)
      in if r_exists V key s = Inr True then (Inr (), s)
         else AddTaskLog V eid tid [] level msg (snd (r_set V key ''1'' (10 * minute) s)))"

definition recover_timeout :: "task result \<Rightarrow> int option" where
  "recover_timeout t = (case t of
      Inl e \<Rightarrow> Some 300 | Inr t \<Rightarrow> if t_timeout t > 0 then Some (t_timeout t) else None)"

text \<open>The reason to fail a running execution, or the executor that goes on with it.\<close>

definition recover_verdict :: "'r env \<Rightarrow> execution \<Rightarrow> 'r sched \<Rightarrow> string + executor" where
  "recover_verdict V x s =
     (let bound = recover_timeout (GetTaskByID V (x_task x) s);
          renewal = last_renewal V (x_eid x) s;
          ago = (case renewal of None \<Rightarrow> 9999 | Some t \<Rightarrow> unix V - t);
          timeout = when_some (\<lambda>b. when_some (\<lambda>t. env_now V - t > b * second) (parsed_start V x)) bound;
          expired = when_some (\<lambda>b. ago > b) bound
      in case GetExecutorByID V (case x_executor x of None \<Rightarrow> 0 | Some i \<Rightarrow> i) s of
           Inl e \<Rightarrow> Inl ''scheduler failover: executor is offline''
         | Inr ex \<Rightarrow>
             if e_status ex \<noteq> ''online'' then Inl ''scheduler failover: executor is offline''
             else if \<not> when_some (\<lambda>t. env_now V - t < 90 * second) (e_heartbeat ex)
             then Inl ''scheduler failover: executor heartbeat expired''
             else if \<not> pingExecutor V ex
             then Inl ''scheduler failover: executor is unreachable (ping failed)''
             else if renewal = None then Inl ''scheduler failover: no renewal record found''
             else if expired
             then Inl (''scheduler failover: renewal expired ('' @ show_int ago @ '' seconds ago, timeout '' @
                       show_int (case bound of None \<Rightarrow> 300 | Some b \<Rightarrow> b) @ '')'')
             else if timeout then Inl ''scheduler failover: task execution timeout''
             else Inr ex)"

definition recover_keep :: "'r env \<Rightarrow> execution \<Rightarrow> executor \<Rightarrow> 'r sched \<Rightarrow> 'r sched" where
  "recover_keep V x ex s =
     (let ttl = calculateLockTTL (case GetTaskByID V (x_task x) s of Inl e \<Rightarrow> None | Inr t \<Rightarrow> Some t) * second;
          s1 = snd (r_set V (lock_key (x_eid x)) ''leader_recovered'' ttl s);
          s2 = snd (r_set V (renew_key (x_eid x)) (show_int (unix V)) ttl s1);
          s3 = r_del V [fail_key (x_eid x)] s2
      in snd (addRecoveryLogSafe V (x_eid x) (x_task x) ''info''
           (''Task recovered by new leader on executor: '' @ e_name ex @ '', progress: '' @
            show_int (wrap32 (x_progress x)) @ ''%, message: '' @ x_progress_msg x) s3))"

definition recover_one :: "'r env \<Rightarrow> execution \<Rightarrow> 'r sched \<Rightarrow> 'r sched" where
  "recover_one V x s =
     (case recover_verdict V x s of
        Inl reason \<Rightarrow>
          forceFailTask V (x_eid x) (x_task x) reason
            (case GetExecutorByID V (case x_executor x of None \<Rightarrow> 0 | Some i \<Rightarrow> i) s of
               Inl e \<Rightarrow> [] | Inr ex \<Rightarrow> e_name ex) s
      | Inr ex \<Rightarrow> recover_keep V x ex s)"

definition RecoverRunningTasksOnBecomeLeader :: "'r env \<Rightarrow> 'r sched \<Rightarrow> unit result \<times> 'r sched" where
  "RecoverRunningTasksOnBecomeLeader V s =
     (case env_db V S_recover of
        Some e \<Rightarrow> (Inl e, s)
      | None \<Rightarrow>
          (Inr (), fold (recover_one V)
             (filter (\<lambda>x. x_status x = ''running'' \<and> x_created x > env_now V - 24 * 60 * minute) (s_execs s)) s))"

end
