(* ===== verification/Cleanup_Properties.thy ===== *)
theory Cleanup_Properties
  imports Cleanup
begin

text \<open>
  Properties of the cleanup routine and of recovery: which executions they fail, what they leave
  alone, and how the check on offline executors meets a dispatch that is still under way.
\<close>

section \<open>What the operations leave alone\<close>

lemma result_more_fields [simp]:
  "s_executors (snd (UpdateExecutionResult V e st o' er g s)) = s_executors s"
  "s_domain_executors (snd (UpdateExecutionResult V e st o' er g s)) = s_domain_executors s"
  "s_failures (snd (UpdateExecutionResult V e st o' er g s)) = s_failures s"
  by (simp_all add: UpdateExecutionResult_def Let_def r_del_def split: option.splits prod.splits)

lemma redis_more_fields [simp]:
  "s_domain_executors (r_del V ks s) = s_domain_executors s" "s_failures (r_del V ks s) = s_failures s"
  "s_failures (snd (r_set V k v d s)) = s_failures s"
  by (simp_all add: r_del_def r_set_def split_beta Let_def)

lemma AddTaskLog_failures [simp]: "s_failures (snd (AddTaskLog V e i n lv m s)) = s_failures s"
  by (rule AddTaskLog_cases [of V e i n lv m s])
    (simp_all add: insert_log_def append_output_def split: option.splits)

lemma fail_execution_fields [simp]:
  "s_executors (fail_execution V t e m s) = s_executors s"
  "s_domain_executors (fail_execution V t e m s) = s_domain_executors s"
  "s_tasks (fail_execution V t e m s) = s_tasks s" "s_sent (fail_execution V t e m s) = s_sent s"
  "s_failures (fail_execution V t e m s) = s_failures s @ [(t, e, m)]"
  by (simp_all add: fail_execution_def Let_def)

text \<open>A life-cycle entry marked as failed.\<close>

fun failed_life :: "int \<times> string \<times> int option \<times> string \<times> int \<Rightarrow> int \<times> string \<times> int option \<times> string \<times> int" where
  "failed_life (a, b, c, d, r) = (a, b, c, ''failed'', r)"

lemma life_eid [simp]: "fst (snd (life x)) = x_eid x" "fst (snd (failed_life l)) = fst (snd l)"
  by (simp add: life_def, cases l, simp)

lemma failed_life_twice [simp]: "failed_life (failed_life l) = failed_life l"
  by (cases l) simp

definition fail_life :: "string \<Rightarrow> int \<times> string \<times> int option \<times> string \<times> int \<Rightarrow> int \<times> string \<times> int option \<times> string \<times> int" where
  "fail_life eid l = (if fst (snd l) = eid then failed_life l else l)"

lemma result_life:
  assumes "env_db V S_execution_result = None"
  shows "map life (s_execs (snd (UpdateExecutionResult V eid ''failed'' o' er g s))) =
    map (fail_life eid) (map life (s_execs s))"
proof -
  obtain a b where ab: "result_times V g = (a, b)" by fastforce
  show ?thesis using assms ab
    by (simp add: UpdateExecutionResult_def upd_where_def fail_life_def) (simp add: life_def)
qed

lemma fail_execution_life:
  "env_db V S_execution_result = None \<Longrightarrow>
   map life (s_execs (fail_execution V t eid m s)) = map (fail_life eid) (map life (s_execs s))"
  using result_life [of V eid "[]" m None s] by (simp add: fail_execution_def Let_def)

lemma lives_fail:
  assumes "map life (s_execs s') = map (fail_life eid) (map life (s_execs s))"
  shows "lives eid' s' = (if eid' = eid then map failed_life (lives eid s) else lives eid' s)"
proof -
  have "filter (\<lambda>l. fst (snd l) = eid') (map (fail_life eid) ls) =
      (if eid' = eid then map failed_life (filter (\<lambda>l. fst (snd l) = eid) ls)
       else filter (\<lambda>l. fst (snd l) = eid') ls)" for ls
    by (induction ls) (auto simp: fail_life_def)
  then show ?thesis unfolding lives_def assms by (simp only:)
qed

text \<open>A loop whose body fails the executions that a verdict picks.\<close>

lemma fold_fail:
  assumes db: "env_db V S_execution_result = None"
    and step: "\<And>k s. s_executors s = E \<Longrightarrow>
      f k s = (case R k of None \<Rightarrow> s | Some m \<Rightarrow> fail_execution V (tid k) (eid k) m s)"
  shows "s_executors s = E \<Longrightarrow>
    map life (s_execs (fold f ks s)) =
      map (\<lambda>l. if \<exists>k\<in>set ks. eid k = fst (snd l) \<and> R k \<noteq> None then failed_life l else l) (map life (s_execs s)) \<and>
    map (\<lambda>(t, e, m). (t, e)) (s_failures (fold f ks s)) =
      map (\<lambda>(t, e, m). (t, e)) (s_failures s) @ map (\<lambda>k. (tid k, eid k)) (filter (\<lambda>k. R k \<noteq> None) ks) \<and>
    s_executors (fold f ks s) = E \<and> s_domain_executors (fold f ks s) = s_domain_executors s \<and>
    s_sent (fold f ks s) = s_sent s"
proof (induction ks arbitrary: s)
  case Nil
  then show ?case by simp
next
  case (Cons k ks)
  show ?case
  proof (cases "R k")
    case None
    then show ?thesis using Cons step [of s k] by auto
  next
    case (Some m)
    then have fk: "f k s = fail_execution V (tid k) (eid k) m s" using step [OF Cons.prems, of k] by simp
    note IH = Cons.IH [of "fail_execution V (tid k) (eid k) m s", unfolded fail_execution_life [OF db]]
    show ?thesis using IH Cons.prems Some by (auto simp: fk fail_life_def)
  qed
qed

section \<open>Stuck tasks\<close>

text \<open>An executor that takes part: its row says online and it answers.\<close>

definition serving :: "'r env \<Rightarrow> 'r sched \<Rightarrow> int \<Rightarrow> bool" where
  "serving V s i \<longleftrightarrow> when_some (\<lambda>e. e_status e = ''online'' \<and> pingExecutor V e)
     (first_where (\<lambda>e. e_id e = i) (s_executors s))"

text \<open>What it takes for a running execution to count as dead.\<close>

definition dead :: "'r env \<Rightarrow> 'r sched \<Rightarrow> execution \<Rightarrow> bool" where
  "dead V s x \<longleftrightarrow> x_status x = ''running'' \<and> x_start x \<noteq> None \<and> x_created x < env_now V - 5 * minute \<and>
     when_some (\<lambda>t.
       when_some (\<lambda>i. 0 < i \<and> \<not> serving V s i) (x_executor x) \<or>
       last_renewal V (x_eid x) s = None \<or>
       0 < t_timeout t \<and>
         (when_some (\<lambda>r. unix V - r > t_timeout t) (last_renewal V (x_eid x) s) \<or>
          when_some (\<lambda>a. env_now V - a > t_timeout t * second) (parsed_start V x)))
       (task_of s x)"

lemma ping_scanned [simp]: "pingExecutor V (scanExecutorResult (executor_row10 e)) = pingExecutor V e"
  by (simp add: pingExecutor_def scanExecutorResult_def executor_row10_def)

lemma stuck_reason_cong:
  "s_executors s' = s_executors s \<Longrightarrow> stuck_reason V again r k s' = stuck_reason V again r k s"
  by (simp add: stuck_reason_def GetExecutorByID_def)

lemma online_again_never:
  assumes "distinct (map e_id (s_executors s))" "0 < i"
    and "\<forall>k\<in>set ks. k_executor k = i \<and> 0 < i \<longrightarrow>
      k_status k = (case first_where (\<lambda>e. e_id e = i) (s_executors s) of None \<Rightarrow> [] | Some e \<Rightarrow> e_status e)"
  shows "\<not> online_again V ks s i"
proof
  assume "online_again V ks s i"
  then obtain k e where k: "k \<in> set ks" "k_executor k = i" "k_status k \<noteq> ''online''"
    and e: "e \<in> set (s_executors s)" "e_id e = i" "e_status e = ''online''"
    by (auto simp: online_again_def)
  have "first_where (\<lambda>e. e_id e = i) (s_executors s) = Some e"
    using first_where_unique [OF assms(1) e(1)] e(2) by simp
  then show False using k e(3) assms(2,3) by force
qed

lemma stuck_status:
  "k_executor (stuck_of V s x t) = i \<Longrightarrow> 0 < i \<Longrightarrow>
   k_status (stuck_of V s x t) =
     (case first_where (\<lambda>e. e_id e = i) (s_executors s) of None \<Rightarrow> [] | Some e \<Rightarrow> e_status e)"
  by (cases "x_executor x") (auto simp: stuck_of_def executor_of_def)

lemma stuck_reason_dead:
  assumes "distinct (map e_id (s_executors s))" "env_db V S_get_executor = None"
    and "task_of s x = Some t" "x_status x = ''running''" "x_start x \<noteq> None" "x_created x < env_now V - 5 * minute"
  shows "stuck_reason V (online_again V (stuck_rows V s) s) (last_renewal V (x_eid x) s)
      (stuck_of V s x t) s \<noteq> None \<longleftrightarrow> dead V s x"
proof -
  let ?i = "k_executor (stuck_of V s x t)"
  have again: "0 < ?i \<Longrightarrow> \<not> online_again V (stuck_rows V s) s ?i"
    by (rule online_again_never [OF assms(1)]) (auto simp: stuck_rows_def dest: stuck_status)
  have i: "?i = (case x_executor x of None \<Rightarrow> 0 | Some i \<Rightarrow> i)" by (simp add: stuck_of_def)
  have t: "k_no_timeout (stuck_of V s x t) = (t_timeout t \<le> 0)"
      "k_timeout (stuck_of V s x t) = (if t_timeout t \<le> 0 then 300 else t_timeout t)"
      "k_started (stuck_of V s x t) = parsed_start V x"
    by (simp_all add: stuck_of_def)
  have serve: "0 < ?i \<Longrightarrow> (k_status (stuck_of V s x t) = ''online'' \<and>
      (case GetExecutorByID V ?i s of Inl e \<Rightarrow> False | Inr x \<Rightarrow> pingExecutor V x)) = serving V s ?i"
    using stuck_status [of V s x t ?i] assms(2)
    by (cases "first_where (\<lambda>e. e_id e = ?i) (s_executors s)")
      (simp_all add: serving_def GetExecutorByID_def)
  have exec: "when_some (\<lambda>i. 0 < i \<and> \<not> serving V s i) (x_executor x) \<longleftrightarrow> 0 < ?i \<and> \<not> serving V s ?i"
    by (cases "x_executor x") (simp_all add: i)
  show ?thesis
    using again serve assms(3-6)
    by (cases "last_renewal V (x_eid x) s")
      (auto simp: stuck_reason_def Let_def t dead_def exec)
qed


section \<open>Offline executors and a dispatch under way\<close>

lemma offline_cleanup_effect:
  assumes "env_db V S_execution_result = None" "env_db V S_offline_tasks = None"
  shows "map life (s_execs (cleanupTasksFromOfflineExecutors V s)) =
      map (\<lambda>l. if \<exists>x\<in>set (s_execs s). on_offline_executor V s x \<and> x_eid x = fst (snd l) then failed_life l else l)
        (map life (s_execs s)) \<and>
    map (\<lambda>(t, e, m). (t, e)) (s_failures (cleanupTasksFromOfflineExecutors V s)) =
      map (\<lambda>(t, e, m). (t, e)) (s_failures s) @
      map (\<lambda>x. (x_task x, x_eid x)) (filter (on_offline_executor V s) (s_execs s)) \<and>
    s_executors (cleanupTasksFromOfflineExecutors V s) = s_executors s \<and>
    s_domain_executors (cleanupTasksFromOfflineExecutors V s) = s_domain_executors s \<and>
    s_sent (cleanupTasksFromOfflineExecutors V s) = s_sent s"
  using fold_fail [OF assms(1), where E = "s_executors s" and R = "\<lambda>x. Some offline_text" and s = s
      and f = "\<lambda>x. fail_execution V (x_task x) (x_eid x) offline_text" and tid = x_task and eid = x_eid
      and ks = "filter (on_offline_executor V s) (s_execs s)", OF _ refl] assms(2)
  by (simp add: cleanupTasksFromOfflineExecutors_def) blast

text \<open>After the insert, a dispatch with an executor that takes the task only touches the executor column.\<close>

lemma dispatch_inserted_sends:
  assumes "\<forall>st. env_db V st = None" "env_dispatcher V = Some send"
    and "choose_executor V t s = Inr x" "send (e_name x) (grpc_of t eid) = None"
  obtains s' where "dispatch_inserted V t eid s = ((eid, None), s')"
    and "s_sent s' = s_sent s @ [(e_name x, grpc_of t eid)]"
    and "lives eid s' = map (\<lambda>(a, b, c, d, r). (a, b, Some (e_id x), d, r)) (lives eid s)"
    and "s_failures s' = s_failures s"
proof -
  have db: "env_db V st = None" for st using assms(1) by blast
  have "s_sent (set_executor V eid (e_id x) s) = s_sent s" "s_failures (set_executor V eid (e_id x) s) = s_failures s"
    by (simp_all add: set_executor_def)
  then show thesis
    using assms(2-4) set_executor_lives [OF db, of eid "e_id x" s]
    by (intro that [of "snd (dispatch_inserted V t eid s)"])
      (simp_all add: dispatch_inserted_def Let_def)
qed

text \<open>The check on offline executors has no age limit and takes an execution without an executor for
  one whose executor is gone. When it runs between the insert of a dispatch and the update that
  names the executor, it fails the execution and hands it to the failure handling, while the
  dispatch goes on, sends the task and reports success.\<close>

theorem offline_cleanup_races_dispatch:
  assumes "\<forall>st. env_db V st = None" "\<forall>st. env_db W st = None" "lives eid s = []"
    and "env_dispatcher V = Some send" "choose_executor V t s = Inr x" "send (e_name x) (grpc_of t eid) = None"
  shows "let inserted = s\<lparr>s_execs := s_execs s @ [new_execution V t eid n]\<rparr>;
      r = dispatch_inserted V t eid (cleanupTasksFromOfflineExecutors W inserted)
    in fst r = (eid, None) \<and> s_sent (snd r) = s_sent s @ [(e_name x, grpc_of t eid)] \<and>
       lives eid (snd r) = [(t_id t, eid, Some (e_id x), ''failed'', n)] \<and>
       (\<exists>m. (t_id t, eid, m) \<in> set (s_failures (snd r)))"
proof -
  let ?x = "new_execution V t eid n"
  define s1 where "s1 = s\<lparr>s_execs := s_execs s @ [?x]\<rparr>"
  define s2 where "s2 = cleanupTasksFromOfflineExecutors W s1"
  have db: "env_db W st = None" for st using assms(2) by blast
  note eff = offline_cleanup_effect [OF db db, of s1, folded s2_def]
  have x: "life ?x = (t_id t, eid, None, ''running'', n)" "x_eid ?x = eid" "x_task ?x = t_id t"
    by (simp_all add: life_def new_execution_def)
  have off: "on_offline_executor W s1 ?x" by (simp add: on_offline_executor_def new_execution_def)
  let ?g = "\<lambda>l. if \<exists>x\<in>set (s_execs s1). on_offline_executor W s1 x \<and> x_eid x = fst (snd l) then failed_life l else l"
  have g: "fst (snd (?g l)) = fst (snd l)" for l by simp
  have "lives eid s2 = map ?g (lives eid s1)"
  proof -
    have "filter (\<lambda>l. fst (snd l) = eid) (map ?g ls) = map ?g (filter (\<lambda>l. fst (snd l) = eid) ls)" for ls
      by (simp only: filter_map o_def g)
    then show ?thesis using eff unfolding lives_def by presburger
  qed
  also have "lives eid s1 = [life ?x]" using assms(3) by (simp add: lives_def s1_def x)
  also have "map ?g [life ?x] = [(t_id t, eid, None, ''failed'', n)]"
    using off by (auto simp: x s1_def)
  finally have l2: "lives eid s2 = [(t_id t, eid, None, ''failed'', n)]" .
  have "(t_id t, eid) \<in> set (map (\<lambda>(t, e, m). (t, e)) (s_failures s2))"
    using eff off by (auto simp: s1_def x image_iff intro!: bexI [of _ ?x])
  then obtain m where m: "(t_id t, eid, m) \<in> set (s_failures s2)" by auto
  have "s_executors s2 = s_executors s" "s_domain_executors s2 = s_domain_executors s" and sent: "s_sent s2 = s_sent s"
    using eff by (simp_all add: s1_def)
  then have c: "choose_executor V t s2 = Inr x" using choose_cong [of s2 s V t] assms(5) by simp
  obtain s3 where "dispatch_inserted V t eid s2 = ((eid, None), s3)"
      "s_sent s3 = s_sent s2 @ [(e_name x, grpc_of t eid)]"
      "lives eid s3 = map (\<lambda>(a, b, c, d, r). (a, b, Some (e_id x), d, r)) (lives eid s2)"
      "s_failures s3 = s_failures s2"
    by (rule dispatch_inserted_sends [OF assms(1,4) c assms(6)])
  then show ?thesis using l2 m sent unfolding Let_def s1_def [symmetric] s2_def [symmetric] by auto
qed

end
