(* ===== verification/Task_Runs.thy ===== *)
theory Task_Runs
  imports Task_Steps
begin

text \<open>
  Concrete runs of the task service: the properties of \<open>Task_Properties\<close> and \<open>Task_Steps\<close> applied to
  one executor, one task and the in-memory Redis server.
\<close>

section \<open>The runs\<close>

definition pinned_task :: task where
  "pinned_task = demo_task\<lparr>t_assigned := 7\<rparr>"

definition later_env :: "keys env" where
  "later_env = demo_env\<lparr>env_now := 101 * second\<rparr>"

definition task_sched :: "keys sched" where
  "task_sched = demo_sched\<lparr>s_tasks := [pinned_task]\<rparr>"

definition busy_execution :: execution where
  "busy_execution = (new_execution demo_env pinned_task ''exec-5-1'' 0)\<lparr>x_executor := Some 7\<rparr>"

definition busy_sched :: "keys sched" where
  "busy_sched = task_sched\<lparr>s_execs := [busy_execution],
     s_redis := [renew_key ''exec-5-1'' \<mapsto> (show_int 90, None)]\<rparr>"

lemma later_env_simps [simp]:
  "env_redis later_env = mem_redis" "env_db later_env st = None" "env_now later_env = 101 * second"
  "env_dispatcher later_env = Some (\<lambda>n g. None)"
  by (simp_all add: later_env_def)

lemma task_sched_simps [simp]:
  "s_tasks task_sched = [pinned_task]" "s_execs task_sched = []" "s_leader task_sched"
  "s_executors task_sched = [demo_executor]" "s_redis task_sched = Map.empty" "s_sent task_sched = []"
  by (simp_all add: task_sched_def demo_sched_def)

lemma pinned_task_simps [simp]: "t_id pinned_task = 5" "t_assigned pinned_task = 7" "t_timeout pinned_task = 30"
  by (simp_all add: pinned_task_def demo_task_def)

lemma demo_choice:
  "env_db V S_get_executor = None \<Longrightarrow> \<exists>x. choose_executor V pinned_task task_sched = Inr x \<and> e_name x = ''w1''"
  using demo_proper
  by (simp add: choose_executor_def GetExecutorByID_def demo_executor_def scan_row9 scan_row10 Let_def)

lemma demo_can_dispatch:
  assumes "\<forall>st. env_db V st = None" "env_dispatcher V = Some (\<lambda>n g. None)"
  obtains x where "can_dispatch (\<lambda>m. m) V pinned_task task_sched x" "e_name x = ''w1''"
  using demo_choice [of V] assms by (auto simp: can_dispatch_def live_def)

lemma show_int_neq: "show_int 90 \<noteq> []"
  by (simp add: show_int_def show_nat.simps)

section \<open>The properties at these runs\<close>


theorem trigger_skips_while_running_witness:
  "snd (fst (TriggerTask demo_env 5 busy_sched)) \<noteq> None \<and> s_sent (snd (TriggerTask demo_env 5 busy_sched)) = []"
proof -
  have "running_of demo_env 5 busy_sched = Some busy_execution"
    by (simp add: running_of_def busy_sched_def busy_execution_def new_execution_def)
  moreover have "\<not> is_stale demo_env 5 (x_eid busy_execution) busy_sched"
    by (simp add: is_stale_def last_renewal_def renewal_bound_def GetTaskByID_def r_get_def unix_def
        busy_sched_def busy_execution_def new_execution_def mem_redis_def live_def scan_show_int show_int_neq)
  ultimately show ?thesis
    using trigger_skips_while_running [of busy_sched demo_env 5 busy_execution]
    by (simp add: busy_sched_def)
qed

theorem concurrent_triggers_run_twice_witness:
  "length (s_sent (snd (trigger_dispatch later_env 5 (snd (trigger_dispatch demo_env 5 task_sched))))) = 2"
proof -
  obtain x where x: "can_dispatch (\<lambda>m. m) demo_env pinned_task task_sched x"
    by (rule demo_can_dispatch [of demo_env]) simp_all
  obtain y where y: "can_dispatch (\<lambda>m. m) later_env pinned_task task_sched y"
    by (rule demo_can_dispatch [of later_env]) simp_all
  show ?thesis
    using concurrent_triggers_run_twice [OF _ _ _ _ _ _ _ _ _ _ x y] mem_server mem_redis_up
    by (simp add: running_of_def lives_def Let_def)
qed

theorem dispatch_lifetimes_witness: "dispatch_renew_ttl (pinned_task\<lparr>t_timeout := 300\<rparr>) < 0"
  using dispatch_lifetimes [of "pinned_task\<lparr>t_timeout := 300\<rparr>"] by simp

theorem retries_are_bounded_witness:
  "list_all (\<lambda>x. x_retry x \<le> 2) (s_execs (snd (TriggerTask demo_env 5 task_sched))) \<and>
   list_all (\<lambda>r. r_times r \<le> 2) (s_retries (snd (TriggerTask demo_env 5 task_sched)))"
proof -
  have "bounded 2 task_sched"
    by (simp add: bounded_iff task_sched_def demo_sched_def pinned_task_def demo_task_def)
  then have "reach (bounded 2) (service_step 2) (snd (TriggerTask demo_env 5 task_sched))"
    by (rule reach_one) (rule service_step.trigger)
  then show ?thesis unfolding list_all_iff by (rule retries_are_bounded [rotated]) simp
qed

theorem cancelled_execution_can_succeed_witness:
  "\<exists>y. first_where (\<lambda>x. x_eid x = ''exec-5-1'')
      (s_execs (snd (UpdateExecutionResult later_env ''exec-5-1'' ''success'' ''ok'' [] None
         (snd (CancelExecution demo_env ''exec-5-1'' ''ann'' busy_sched))))) = Some y \<and> x_status y = ''success''"
proof -
  have "first_where (\<lambda>x. x_eid x = ''exec-5-1'') (s_execs busy_sched) = Some busy_execution"
    "x_status busy_execution = ''running''"
    by (simp_all add: busy_sched_def busy_execution_def new_execution_def)
  from cancelled_execution_can_succeed [OF _ _ this, of demo_env later_env "''ann''" "''ok''" None]
  show ?thesis by auto
qed

theorem repeated_output_line_is_lost_witness:
  "let s1 = snd (AddTaskLog demo_env ''exec-5-1'' 5 ''w1'' ''stdout'' ''tick'' busy_sched)
   in AddTaskLog later_env ''exec-5-1'' 5 ''w1'' ''stdout'' ''tick'' s1 = (Inr (), s1)"
proof -
  have "first_where (\<lambda>x. x_eid x = ''exec-5-1'') (s_execs busy_sched) = Some busy_execution"
    by (simp add: busy_sched_def busy_execution_def new_execution_def)
  moreover have "live (100 * second) (s_redis busy_sched (dedup_key ''exec-5-1'' ''w1'' ''stdout'' ''tick'')) = None"
    by (simp add: busy_sched_def dedup_key_def renew_key_def live_def)
  ultimately show ?thesis
    using repeated_output_line_is_lost [of demo_env "\<lambda>m. m" later_env busy_sched] mem_server mem_redis_up
    by (simp add: Let_def)
qed

end
