(* ===== verification/Recovery.thy ===== *)
theory Recovery
  imports Cleanup_Properties Task_Runs
begin

text \<open>
  What the recovery of running tasks by a new leader settles for every one of them, and the concrete
  runs that the properties of cleanup and recovery are applied to.
\<close>

section \<open>The keys of an execution\<close>

lemma family_keys [simp]:
  "take 15 (lock_key e) \<noteq> ''task:log:dedup:''" "take 15 (renew_key e) \<noteq> ''task:log:dedup:''"
  "take 15 (fail_key e) \<noteq> ''task:log:dedup:''"
  by (simp_all add: lock_key_def renew_key_def fail_key_def)

lemma fail_keys_family: "k \<in> set (fail_keys e) \<Longrightarrow> take 15 k \<noteq> ''task:log:dedup:''"
  by (auto simp: fail_keys_def)

text \<open>The three keys of an execution are as they were.\<close>

definition same_keys :: "('r \<Rightarrow> keys) \<Rightarrow> string \<Rightarrow> 'r sched \<Rightarrow> 'r sched \<Rightarrow> bool" where
  "same_keys kv e s s' \<longleftrightarrow> (\<forall>k\<in>set (fail_keys e). kv (s_redis s') k = kv (s_redis s) k)"

lemma same_keys_trans: "same_keys kv e s t \<Longrightarrow> same_keys kv e t u \<Longrightarrow> same_keys kv e s u"
  by (simp add: same_keys_def)

lemma renewed_cong: "same_keys kv e s s' \<Longrightarrow> renewed kv V e s \<Longrightarrow> renewed kv V e s'"
  by (simp add: same_keys_def renewed_def fail_keys_def)

text \<open>The keys of different executions are apart.\<close>

lemma task_keys_apart:
  "exec_id e \<Longrightarrow> exec_id e' \<Longrightarrow> e \<noteq> e' \<Longrightarrow> k \<in> set (fail_keys e) \<Longrightarrow> k \<notin> set (fail_keys e')"
  using renew_not_fail [of e e'] renew_not_fail [of e' e]
  by (auto simp: fail_keys_def)

lemma log_same_keys:
  assumes "redis_server (env_redis V) kv"
  shows "same_keys kv e s (snd (AddTaskLog V e' i n lv m s))"
  using AddTaskLog_keys [OF assms] by (simp add: same_keys_def fail_keys_def)

lemma recovery_log_same_keys:
  assumes "redis_server (env_redis V) kv"
  shows "same_keys kv e s (snd (addRecoveryLogSafe V e' i lv m s))"
proof -
  let ?k = "''task:log:dedup:'' @ e' @ '':recovery:'' @ show_int (unix V div 300)"
  have "lock_key e \<noteq> ?k" "renew_key e \<noteq> ?k" "fail_key e \<noteq> ?k"
    by (simp_all add: lock_key_def renew_key_def fail_key_def)
  then have "same_keys kv e s (snd (r_set V ?k ''1'' (10 * minute) s))"
    by (simp add: same_keys_def fail_keys_def r_set_frame [OF assms])
  then show ?thesis
    using log_same_keys [OF assms, of e "snd (r_set V ?k ''1'' (10 * minute) s)" e' i "[]" lv m]
    by (simp add: addRecoveryLogSafe_def Let_def same_keys_def)
qed

lemma result_keys:
  assumes "redis_server (env_redis V) kv" "redis_up (env_redis V)" "env_db V S_execution_result = None"
  shows "kv (s_redis (snd (UpdateExecutionResult V e st o' er g s))) = drop_keys (fail_keys e) (kv (s_redis s))"
proof -
  obtain a b where "result_times V g = (a, b)" by fastforce
  then show ?thesis
    using assms(3) by (simp add: UpdateExecutionResult_def r_del_up [OF assms(1,2)] fail_keys_def)
qed

section \<open>One execution\<close>

lemma force_fail_effect:
  assumes "env_db V S_execution_result = None"
  shows "map life (s_execs (forceFailTask V e i m n s)) = map (fail_life e) (map life (s_execs s))"
    and "s_failures (forceFailTask V e i m n s) = s_failures s @ [(i, e, m)]"
  using result_life [OF assms, of e "[]" m None s]
  by (simp_all add: forceFailTask_def Let_def AddTaskLog_life)

lemma force_fail_keys:
  assumes "redis_server (env_redis V) kv" "redis_up (env_redis V)" "env_db V S_execution_result = None"
  shows "k \<in> set (fail_keys e) \<Longrightarrow> kv (s_redis (forceFailTask V e i m n s)) k = None"
    and "k \<notin> set (fail_keys e) \<Longrightarrow> take 15 k \<noteq> ''task:log:dedup:'' \<Longrightarrow>
      kv (s_redis (forceFailTask V e i m n s)) k = kv (s_redis s) k"
  by (simp_all add: forceFailTask_def Let_def r_del_up [OF assms(1,2)] drop_keys_def
      AddTaskLog_keys [OF assms(1)] result_keys [OF assms])

lemma recovery_log_fields [simp]:
  "map life (s_execs (snd (addRecoveryLogSafe V e i lv m s))) = map life (s_execs s)"
  "s_failures (snd (addRecoveryLogSafe V e i lv m s)) = s_failures s"
  by (simp_all add: addRecoveryLogSafe_def Let_def AddTaskLog_life)

lemma recover_keep_effect [simp]:
  "map life (s_execs (recover_keep V x ex s)) = map life (s_execs s)"
  "s_failures (recover_keep V x ex s) = s_failures s"
  by (simp_all add: recover_keep_def Let_def)

lemma recover_keep_renewed:
  assumes "redis_server (env_redis V) kv" "redis_up (env_redis V)" "exec_id (x_eid x)"
  shows "renewed kv V (x_eid x) (recover_keep V x ex s)"
proof -
  let ?ttl = "calculateLockTTL (case GetTaskByID V (x_task x) s of Inl e \<Rightarrow> None | Inr t \<Rightarrow> Some t) * second"
  have "60 \<le> calculateLockTTL (case GetTaskByID V (x_task x) s of Inl e \<Rightarrow> None | Inr t \<Rightarrow> Some t)"
    using clamp_bounds by (simp add: calculateLockTTL_def)
  then have ttl: "60 * second \<le> ?ttl" "?ttl \<noteq> - 1" by simp_all
  have "renewed kv V (x_eid x) (r_del V [fail_key (x_eid x)] (snd (r_set V (renew_key (x_eid x))
      (show_int (unix V)) ?ttl (snd (r_set V (lock_key (x_eid x)) ''leader_recovered'' ?ttl s)))))"
    using ttl renew_not_fail [OF assms(3)]
    unfolding renewed_def r_del_up [OF assms(1,2)] r_set_up [OF assms(1,2) ttl(2)]
    by (auto simp: put_def drop_keys_def expiry_def)
  then show ?thesis
    unfolding recover_keep_def Let_def by (rule renewed_cong [OF recovery_log_same_keys [OF assms(1)]])
qed

lemma recover_keep_other:
  assumes "redis_server (env_redis V) kv" "redis_up (env_redis V)"
    and "exec_id (x_eid x)" "exec_id e" "e \<noteq> x_eid x"
  shows "same_keys kv e s (recover_keep V x ex s)"
proof -
  let ?ttl = "calculateLockTTL (case GetTaskByID V (x_task x) s of Inl e \<Rightarrow> None | Inr t \<Rightarrow> Some t) * second"
  have "60 \<le> calculateLockTTL (case GetTaskByID V (x_task x) s of Inl e \<Rightarrow> None | Inr t \<Rightarrow> Some t)"
    using clamp_bounds by (simp add: calculateLockTTL_def)
  then have ttl: "?ttl \<noteq> - 1" by simp
  have "same_keys kv e s (r_del V [fail_key (x_eid x)] (snd (r_set V (renew_key (x_eid x))
      (show_int (unix V)) ?ttl (snd (r_set V (lock_key (x_eid x)) ''leader_recovered'' ?ttl s)))))"
    using task_keys_apart [OF assms(4,3,5)]
    unfolding same_keys_def r_del_up [OF assms(1,2)] r_set_up [OF assms(1,2) ttl]
    by (auto simp: fail_keys_def)
  then show ?thesis
    unfolding recover_keep_def Let_def
    by (rule same_keys_trans) (rule recovery_log_same_keys [OF assms(1)])
qed

text \<open>The recovery leaves tasks and executors alone.\<close>

lemma recovery_frame [simp]:
  "s_tasks (forceFailTask V e i m n s) = s_tasks s" "s_executors (forceFailTask V e i m n s) = s_executors s"
  "s_tasks (recover_keep V x ex s) = s_tasks s" "s_executors (recover_keep V x ex s) = s_executors s"
  by (simp_all add: forceFailTask_def recover_keep_def addRecoveryLogSafe_def Let_def)

lemma recover_one_frame [simp]: "s_tasks (recover_one V x s) = s_tasks s" "s_executors (recover_one V x s) = s_executors s"
  by (simp_all add: recover_one_def split: sum.splits)

text \<open>What it takes for a running execution to go on: its executor has the status online, a heartbeat of the last 90 seconds
  (the zero instant stands for none) and answers; there is a renewal; and neither the renewal nor the start is longer ago
  than the time of the task, 300 seconds for a task that is gone and no bound for a task without a time.\<close>

definition time_bound :: "'r sched \<Rightarrow> execution \<Rightarrow> int option" where
  "time_bound s x = (case task_of s x of None \<Rightarrow> Some 300 | Some t \<Rightarrow> if t_timeout t > 0 then Some (t_timeout t) else None)"

definition at_work :: "'r env \<Rightarrow> 'r sched \<Rightarrow> execution \<Rightarrow> bool" where
  "at_work V s x \<longleftrightarrow>
     (\<exists>e. first_where (\<lambda>e. e_id e = (case x_executor x of None \<Rightarrow> 0 | Some i \<Rightarrow> i)) (s_executors s) = Some e \<and>
        e_status e = ''online'' \<and> pingExecutor V e \<and>
        (\<exists>t. e_heartbeat e = Some t \<and> t \<noteq> 0 \<and> env_now V - t < 90 * second))"

definition goes_on :: "'r env \<Rightarrow> 'r sched \<Rightarrow> execution \<Rightarrow> bool" where
  "goes_on V s x \<longleftrightarrow> at_work V s x \<and>
     (\<exists>r. last_renewal V (x_eid x) s = Some r \<and> (\<forall>b. time_bound s x = Some b \<longrightarrow> unix V - r \<le> b)) \<and>
     (\<forall>b a. time_bound s x = Some b \<longrightarrow> parsed_start V x = Some a \<longrightarrow> env_now V - a \<le> b * second)"

lemma recover_bound:
  "env_db V S_get_task = None \<Longrightarrow> recover_timeout (GetTaskByID V (x_task x) s) = time_bound s x"
  by (simp add: recover_timeout_def GetTaskByID_def time_bound_def task_of_def split: option.split)

lemma scanned_status: "e_status (scanExecutorResult (executor_row10 e)) = e_status e"
  by (simp add: scanExecutorResult_def executor_row10_def)

lemma scanned_heartbeat:
  "when_some P (e_heartbeat (scanExecutorResult (executor_row10 e))) \<longleftrightarrow> (\<exists>t. e_heartbeat e = Some t \<and> t \<noteq> 0 \<and> P t)"
  by (cases "e_heartbeat e") (simp_all add: scanExecutorResult_def executor_row10_def time_cell_def when_some_def Let_def)

lemma recover_executor:
  assumes "env_db V S_get_executor = None"
  shows "(\<exists>ex. GetExecutorByID V (case x_executor x of None \<Rightarrow> 0 | Some i \<Rightarrow> i) s = Inr ex \<and> e_status ex = ''online'' \<and>
      when_some (\<lambda>t. env_now V - t < 90 * second) (e_heartbeat ex) \<and> pingExecutor V ex) \<longleftrightarrow> at_work V s x"
proof (cases "first_where (\<lambda>e. e_id e = (case x_executor x of None \<Rightarrow> 0 | Some i \<Rightarrow> i)) (s_executors s)")
  case None
  then show ?thesis using assms by (simp add: at_work_def GetExecutorByID_def)
next
  case (Some e)
  then have "at_work V s x \<longleftrightarrow> e_status e = ''online'' \<and> pingExecutor V e \<and>
      (\<exists>t. e_heartbeat e = Some t \<and> t \<noteq> 0 \<and> env_now V - t < 90 * second)"
    by (simp add: at_work_def)
  then show ?thesis using Some assms unfolding GetExecutorByID_def by (simp add: scanned_status scanned_heartbeat) blast
qed

lemma verdict_iff:
  assumes "\<forall>st. env_db V st = None"
  shows "(\<exists>ex. recover_verdict V x s = Inr ex) \<longleftrightarrow> goes_on V s x"
proof -
  have db: "env_db V S_get_task = None" "env_db V S_get_executor = None" using assms by blast+
  have late: "(\<forall>b a. time_bound s x = Some b \<longrightarrow> parsed_start V x = Some a \<longrightarrow> env_now V - a \<le> b * second) \<longleftrightarrow>
      \<not> when_some (\<lambda>b. when_some (\<lambda>a. env_now V - a > b * second) (parsed_start V x)) (time_bound s x)"
    by (cases "time_bound s x"; cases "parsed_start V x") (auto simp: when_some_def)
  have old: "(\<exists>r. last_renewal V (x_eid x) s = Some r \<and> (\<forall>b. time_bound s x = Some b \<longrightarrow> unix V - r \<le> b)) \<longleftrightarrow>
      last_renewal V (x_eid x) s \<noteq> None \<and>
      \<not> when_some (\<lambda>b. (case last_renewal V (x_eid x) s of None \<Rightarrow> 9999 | Some t \<Rightarrow> unix V - t) > b) (time_bound s x)"
    by (cases "last_renewal V (x_eid x) s"; cases "time_bound s x") (auto simp: when_some_def)
  show ?thesis
  proof (cases "GetExecutorByID V (case x_executor x of None \<Rightarrow> 0 | Some i \<Rightarrow> i) s")
    case (Inl e)
    then show ?thesis
      using recover_executor [OF db(2), of x s] by (simp add: recover_verdict_def Let_def goes_on_def)
  next
    case (Inr ex)
    then have "at_work V s x \<longleftrightarrow> e_status ex = ''online'' \<and>
        when_some (\<lambda>t. env_now V - t < 90 * second) (e_heartbeat ex) \<and> pingExecutor V ex"
      using recover_executor [OF db(2), of x s] by simp
    then show ?thesis
      using Inr unfolding goes_on_def late old recover_verdict_def Let_def recover_bound [OF db(1)] by simp
  qed
qed

lemma goes_on_cong:
  assumes "redis_server (env_redis V) kv" "redis_up (env_redis V)"
    and "s_tasks s' = s_tasks s" "s_executors s' = s_executors s" "same_keys kv (x_eid x) s s'"
  shows "goes_on V s' x = goes_on V s x"
proof -
  have "redis_Get (env_redis V) t k r = Inr (live t (kv r k))" for t k r
    using up_Get [OF assms(2), of t k r] redis_server.get_law [OF assms(1), of t k r] by blast
  then have "last_renewal V (x_eid x) s' = last_renewal V (x_eid x) s"
    using assms(5) by (simp add: last_renewal_def r_get_def same_keys_def fail_keys_def)
  then show ?thesis using assms(3,4) by (simp add: goes_on_def at_work_def time_bound_def task_of_def)
qed

text \<open>An execution that recovery has dealt with: it goes on, with fresh records, or it has failed, has
  none and is handed to the failure handling.\<close>

definition settled :: "('r \<Rightarrow> keys) \<Rightarrow> 'r env \<Rightarrow> bool \<Rightarrow> execution \<Rightarrow> 'r sched \<Rightarrow> bool" where
  "settled kv V on x s \<longleftrightarrow>
     (if on then lives (x_eid x) s = [life x] \<and> renewed kv V (x_eid x) s
      else lives (x_eid x) s = [failed_life (life x)] \<and> (\<exists>m. (x_task x, x_eid x, m) \<in> set (s_failures s)) \<and>
        (\<forall>k\<in>set (fail_keys (x_eid x)). kv (s_redis s) k = None))"

lemma recover_one_other:
  assumes "redis_server (env_redis V) kv" "redis_up (env_redis V)" "env_db V S_execution_result = None"
    and "exec_id (x_eid x)" "exec_id e" "e \<noteq> x_eid x"
  shows "lives e (recover_one V x s) = lives e s" "same_keys kv e s (recover_one V x s)"
    "set (s_failures s) \<subseteq> set (s_failures (recover_one V x s))"
proof -
  have k: "same_keys kv e s (forceFailTask V (x_eid x) i m n s)" for i m n
    using force_fail_keys(2) [OF assms(1-3) task_keys_apart [OF assms(5,4,6)] fail_keys_family]
    by (simp add: same_keys_def)
  show "lives e (recover_one V x s) = lives e s"
    using lives_fail [OF force_fail_effect(1) [OF assms(3)]] assms(6)
    by (simp add: recover_one_def lives_def split: sum.splits)
  show "same_keys kv e s (recover_one V x s)"
    using k recover_keep_other [OF assms(1,2,4-6)] by (simp add: recover_one_def split: sum.splits)
  show "set (s_failures s) \<subseteq> set (s_failures (recover_one V x s))"
    using force_fail_effect(2) [OF assms(3)] by (auto simp: recover_one_def split: sum.splits)
qed

lemma recover_one_self:
  assumes "redis_server (env_redis V) kv" "redis_up (env_redis V)" "\<forall>st. env_db V st = None"
    and "exec_id (x_eid x)" "lives (x_eid x) s = [life x]"
  shows "settled kv V (goes_on V s x) x (recover_one V x s)"
proof (cases "recover_verdict V x s")
  case (Inl m)
  then have no: "\<not> goes_on V s x" using verdict_iff [OF assms(3), of x s] by simp
  have db: "env_db V S_execution_result = None" using assms(3) by blast
  let ?n = "case GetExecutorByID V (case x_executor x of None \<Rightarrow> 0 | Some i \<Rightarrow> i) s of Inl e \<Rightarrow> [] | Inr ex \<Rightarrow> e_name ex"
  have "recover_one V x s = forceFailTask V (x_eid x) (x_task x) m ?n s"
    using Inl by (simp add: recover_one_def)
  moreover have "lives (x_eid x) (forceFailTask V (x_eid x) (x_task x) m ?n s) = [failed_life (life x)]"
    using lives_fail [OF force_fail_effect(1) [OF db]] assms(5) by simp
  ultimately show ?thesis
    using force_fail_keys(1) [OF assms(1,2) db] force_fail_effect(2) [OF db] no
    by (auto simp: settled_def)
next
  case (Inr ex)
  then have "goes_on V s x" using verdict_iff [OF assms(3), of x s] by blast
  then show ?thesis
    using Inr recover_keep_renewed [OF assms(1,2,4)] assms(5)
    by (simp add: recover_one_def settled_def lives_def)
qed

lemma settled_other:
  assumes "redis_server (env_redis V) kv" "redis_up (env_redis V)" "env_db V S_execution_result = None"
    and "exec_id (x_eid x)" "exec_id (x_eid y)" "x_eid y \<noteq> x_eid x" "settled kv V on y s"
  shows "settled kv V on y (recover_one V x s)"
proof -
  note other = recover_one_other [OF assms(1-6), of s]
  have "\<forall>k\<in>set (fail_keys (x_eid y)). kv (s_redis (recover_one V x s)) k = kv (s_redis s) k"
    using other(2) by (simp add: same_keys_def)
  then show ?thesis
    using assms(7) other(1,3) renewed_cong [OF other(2)] unfolding settled_def by (auto split: if_splits)
qed

lemma recover_fold_settled:
  assumes "redis_server (env_redis V) kv" "redis_up (env_redis V)" "\<forall>st. env_db V st = None"
  shows "\<forall>x\<in>set xs. exec_id (x_eid x) \<Longrightarrow> distinct (map x_eid xs) \<Longrightarrow> exec_id (x_eid y) \<Longrightarrow>
    (y \<in> set xs \<and> lives (x_eid y) s = [life y] \<and> goes_on V s y = on) \<or> (x_eid y \<notin> x_eid ` set xs \<and> settled kv V on y s) \<Longrightarrow>
    settled kv V on y (fold (recover_one V) xs s)"
proof (induction xs arbitrary: s)
  case Nil
  then show ?case by simp
next
  case (Cons x xs)
  have db: "env_db V S_execution_result = None" using assms(3) by blast
  show ?case
  proof (cases "x = y")
    case True
    then have "settled kv V on y (recover_one V x s)"
      using recover_one_self [OF assms, of y s] Cons.prems by auto
    then show ?thesis using Cons True by auto
  next
    case False
    then have ne: "x_eid y \<noteq> x_eid x" using Cons.prems by (auto simp: image_iff)
    have "exec_id (x_eid x)" using Cons.prems(1) by simp
    note other = recover_one_other [OF assms(1,2) db this Cons.prems(3) ne, of s]
    have "goes_on V (recover_one V x s) y = goes_on V s y"
      using goes_on_cong [OF assms(1,2) _ _ other(2)] by simp
    then show ?thesis
      using Cons False other(1) settled_other [OF assms(1,2) db, of x y on s] ne
      by (auto simp: image_iff)
  qed
qed

lemma recover_fold_other:
  assumes "redis_server (env_redis V) kv" "redis_up (env_redis V)" "env_db V S_execution_result = None"
  shows "\<forall>x\<in>set xs. exec_id (x_eid x) \<Longrightarrow> exec_id e \<Longrightarrow> e \<notin> x_eid ` set xs \<Longrightarrow>
    lives e (fold (recover_one V) xs s) = lives e s \<and> same_keys kv e s (fold (recover_one V) xs s)"
proof (induction xs arbitrary: s)
  case Nil
  then show ?case by (simp add: same_keys_def)
next
  case (Cons x xs)
  note other = recover_one_other [OF assms, of x e s]
  show ?case
    using Cons.IH [of "recover_one V x s"] Cons.prems other(1,2) same_keys_trans [of kv e s "recover_one V x s"] by simp
qed

section \<open>Recovery\<close>

lemma life_in_rows:
  assumes "x \<in> set xs" "distinct (map x_eid xs)"
  shows "filter (\<lambda>l. fst (snd l) = x_eid x) (map life xs) = [life x]"
proof -
  have "filter (\<lambda>y. x_eid y = x_eid x) xs = [x]"
    using assms
  proof (induction xs)
    case (Cons a xs)
    then show ?case by (cases "x = a") (auto simp: filter_empty_conv image_iff)
  qed simp
  then show ?thesis by (simp add: filter_map o_def)
qed


section \<open>The properties at concrete runs\<close>

definition old_env :: "keys env" where
  "old_env = demo_env\<lparr>env_now := 500 * second\<rparr>"

lemma old_env_simps [simp]: "env_redis old_env = mem_redis" "env_db old_env st = None" "env_now old_env = 500 * second"
  by (simp_all add: old_env_def)


theorem offline_cleanup_races_dispatch_witness:
  "let r = dispatch_inserted demo_env pinned_task ''exec-5-1'' (cleanupTasksFromOfflineExecutors demo_env
             (task_sched\<lparr>s_execs := [new_execution demo_env pinned_task ''exec-5-1'' 0]\<rparr>))
   in fst r = (''exec-5-1'', None) \<and> length (s_sent (snd r)) = 1 \<and>
      map (\<lambda>l. fst (snd (snd (snd l)))) (lives ''exec-5-1'' (snd r)) = [''failed'']"
proof -
  obtain x where x: "choose_executor demo_env pinned_task task_sched = Inr x"
    using demo_choice [of demo_env] by auto
  have "lives ''exec-5-1'' task_sched = []" by (simp add: lives_def)
  from offline_cleanup_races_dispatch [OF _ _ this _ x, of demo_env "\<lambda>n g. None" 0]
  show ?thesis by (simp add: Let_def)
qed


end
