(* ===== verification/Concurrency_Limit.thy ===== *)
theory Concurrency_Limit
  imports Redis_Server
begin

text \<open>
  The limits on concurrent queries (scheduler/internal/datasource/concurrent.go): one counter in
  Redis per user, one for everybody, one per data source. A call is a program of Redis commands,
  so that the same definition is run alone (\<open>run_prog\<close>) and interleaved with the commands of other
  calls (\<open>permit_step\<close>). Logging and metrics are left out.
\<close>

section \<open>Programs of Redis commands\<close>

datatype prog =
    Done "unit result"
  | DoIncr string "int result \<Rightarrow> prog"
  | DoDecr string prog                    \<comment> \<open>the reply is ignored\<close>
  | DoExpire string duration prog         \<comment> \<open>the reply is ignored\<close>

primrec run_prog :: "'r redis \<Rightarrow> instant \<Rightarrow> prog \<Rightarrow> 'r \<Rightarrow> unit result \<times> 'r" where
  "run_prog R t (Done x) = (\<lambda>r. (x, r))"
| "run_prog R t (DoIncr k f) = (\<lambda>r. case redis_Incr R t k r of (n, r') \<Rightarrow> run_prog R t (f n) r')"
| "run_prog R t (DoDecr k p) = (\<lambda>r. run_prog R t p (snd (redis_Decr R t k r)))"
| "run_prog R t (DoExpire k d p) = (\<lambda>r. run_prog R t p (snd (redis_Expire R t k d r)))"

section \<open>Limits and keys\<close>

record limits =
  max_user :: int
  max_global :: int
  max_ds :: int

text \<open>The configured values, of which one that is not positive is replaced by its default.\<close>

definition refreshRuntimeConfig :: "int \<Rightarrow> int \<Rightarrow> int \<Rightarrow> limits" where
  "refreshRuntimeConfig u g d =
     \<lparr>max_user = (if u \<le> 0 then 5 else u), max_global = (if g \<le> 0 then 50 else g),
      max_ds = (if d \<le> 0 then 10 else d)\<rparr>"

definition user_key :: "int \<Rightarrow> string" where
  "user_key u = ''datasource:query:concurrent:user:'' @ show_int u"

definition global_key :: string where
  "global_key = ''datasource:query:concurrent:global''"

definition ds_key :: "int \<Rightarrow> string" where
  "ds_key d = ''datasource:query:concurrent:ds:'' @ show_int d"

section \<open>Acquiring and releasing\<close>

primrec give_back :: "string list \<Rightarrow> prog \<Rightarrow> prog" where
  "give_back [] p = p"
| "give_back (k # ks) p = DoDecr k (give_back ks p)"

text \<open>One of the checks: count up, start the key's life at 1, undo everything over the limit.\<close>

definition take_key :: "string \<Rightarrow> int \<Rightarrow> string list \<Rightarrow> string \<Rightarrow> prog \<Rightarrow> prog" where
  "take_key k limit taken over go =
     DoIncr k (\<lambda>reply. case reply of
        Inl e \<Rightarrow> give_back taken (Done (Inl (''concurrent check error: '' @ e)))
      | Inr n \<Rightarrow>
          (let p = (if n > limit then give_back (taken @ [k]) (Done (Inl over)) else go)
           in if n = 1 then DoExpire k (5 * minute) p else p))"

definition limit_text :: string where "limit_text = ''concurrent query limit exceeded''"
definition ds_limit_text :: string where "ds_limit_text = ''datasource concurrent query limit exceeded''"

definition Acquire :: "limits \<Rightarrow> int \<Rightarrow> prog" where
  "Acquire L u =
     take_key (user_key u) (max_user L) [] limit_text
       (take_key global_key (max_global L) [user_key u] limit_text (Done (Inr ())))"

definition AcquireForDatasource :: "limits \<Rightarrow> int \<Rightarrow> int \<Rightarrow> prog" where
  "AcquireForDatasource L u d =
     take_key (user_key u) (max_user L) [] limit_text
       (take_key global_key (max_global L) [user_key u] limit_text
         (take_key (ds_key d) (max_ds L) [user_key u, global_key] ds_limit_text (Done (Inr ()))))"

text \<open>The keys of a permit, and the function that gives it back when it is called first.\<close>

definition permit_keys :: "int \<Rightarrow> int option \<Rightarrow> string list" where
  "permit_keys u ds = [user_key u, global_key] @ (case ds of None \<Rightarrow> [] | Some d \<Rightarrow> [ds_key d])"

definition release :: "int \<Rightarrow> int option \<Rightarrow> prog" where
  "release u ds = give_back (permit_keys u ds) (Done (Inr ()))"

definition acquire :: "limits \<Rightarrow> int \<Rightarrow> int option \<Rightarrow> prog" where
  "acquire L u ds = (case ds of None \<Rightarrow> Acquire L u | Some d \<Rightarrow> AcquireForDatasource L u d)"

section \<open>Reading and calibrating\<close>

text \<open>\<open>Get(key).Int64()\<close>; \<open>Inr None\<close> is \<open>redis.Nil\<close>.\<close>

definition get_int :: "'r redis \<Rightarrow> instant \<Rightarrow> string \<Rightarrow> 'r \<Rightarrow> int option result" where
  "get_int R t k r = rbind (redis_Get R t k r) (\<lambda>v. case v of
      None \<Rightarrow> Inr None
    | Some s \<Rightarrow> if show_int (read_int s) = s then Inr (Some (read_int s)) else Inl ''invalid syntax'')"

definition need_int :: "int option result \<Rightarrow> int result" where
  "need_int x = rbind x (\<lambda>v. case v of None \<Rightarrow> Inl ''redis: nil'' | Some n \<Rightarrow> Inr n)"

definition GetUserConcurrent :: "'r redis \<Rightarrow> instant \<Rightarrow> int \<Rightarrow> 'r \<Rightarrow> int result" where
  "GetUserConcurrent R t u r = need_int (get_int R t (user_key u) r)"

definition GetGlobalConcurrent :: "'r redis \<Rightarrow> instant \<Rightarrow> 'r \<Rightarrow> int result" where
  "GetGlobalConcurrent R t r = need_int (get_int R t global_key r)"

definition GetDatasourceConcurrent :: "'r redis \<Rightarrow> instant \<Rightarrow> int \<Rightarrow> 'r \<Rightarrow> int result" where
  "GetDatasourceConcurrent R t d r = need_int (get_int R t (ds_key d) r)"

definition SetCancelSignal :: "'r redis \<Rightarrow> instant \<Rightarrow> string \<Rightarrow> duration \<Rightarrow> 'r \<Rightarrow> unit result \<times> 'r" where
  "SetCancelSignal R t q ttl r = redis_Set R t (''datasource:query:cancel:'' @ q) ''1'' ttl r"

definition calibrate :: "'r redis \<Rightarrow> instant \<Rightarrow> string \<Rightarrow> int \<Rightarrow> 'r \<Rightarrow> 'r" where
  "calibrate R t k actual r =
     (case get_int R t k r of
        Inl e \<Rightarrow> r
      | Inr v \<Rightarrow>
          (if (case v of None \<Rightarrow> 0 | Some n \<Rightarrow> n) = actual then r
           else if actual = 0 then snd (redis_Del R t [k] r)
           else snd (redis_Set R t k (show_int actual) (5 * minute) r)))"

text \<open>The two maps of counts in the order in which the loops visit them.\<close>

definition calibrateCounters ::
  "'r redis \<Rightarrow> instant \<Rightarrow> ((int \<times> int) list \<times> int \<times> (int \<times> int) list) option \<Rightarrow> 'r \<Rightarrow> 'r" where
  "calibrateCounters R t counts r =
     (case counts of
        None \<Rightarrow> r
      | Some (users, g, dss) \<Rightarrow>
          fold (\<lambda>(d, n). calibrate R t (ds_key d) n) dss
            (calibrate R t global_key g
               (fold (\<lambda>(u, n). calibrate R t (user_key u) n) users r)))"

section \<open>Interleaved calls\<close>

datatype phase = Acquiring | Releasing

text \<open>
  A call and the release of its permit. Two fields are no part of the code: \<open>th_held\<close> counts the
  increments of the call that it has not taken back, \<open>th_ok\<close> has the keys whose limit it has passed.
\<close>

record thread =
  th_user :: int
  th_ds :: "int option"
  th_phase :: phase
  th_prog :: prog
  th_held :: "string \<Rightarrow> int"
  th_ok :: "string set"

definition new_thread :: "limits \<Rightarrow> int \<Rightarrow> int option \<Rightarrow> thread" where
  "new_thread L u ds =
     \<lparr>th_user = u, th_ds = ds, th_phase = Acquiring, th_prog = acquire L u ds,
      th_held = (\<lambda>k. 0), th_ok = {}\<rparr>"

text \<open>A call that was granted its permit and has not started to give it back.\<close>

definition holding :: "thread \<Rightarrow> bool" where
  "holding th \<longleftrightarrow> th_phase th = Acquiring \<and> th_prog th = Done (Inr ())"

definition limit_of :: "limits \<Rightarrow> string \<Rightarrow> int" where
  "limit_of L k =
     (if k = global_key then max_global L
      else if take 31 k = ''datasource:query:concurrent:ds:'' then max_ds L else max_user L)"

inductive thread_step :: "'r redis \<Rightarrow> limits \<Rightarrow> instant \<Rightarrow> thread \<times> 'r \<Rightarrow> thread \<times> 'r \<Rightarrow> bool"
  for R L t where
  incr: "th_prog th = DoIncr k f \<Longrightarrow> redis_Incr R t k r = (Inr n, r') \<Longrightarrow>
    thread_step R L t (th, r)
      (th\<lparr>th_prog := f (Inr n), th_held := (th_held th)(k := th_held th k + 1),
          th_ok := (if n \<le> limit_of L k then insert k (th_ok th) else th_ok th)\<rparr>, r')"
| decr: "th_prog th = DoDecr k p \<Longrightarrow> redis_Decr R t k r = (Inr n, r') \<Longrightarrow>
    thread_step R L t (th, r)
      (th\<lparr>th_prog := p, th_held := (th_held th)(k := th_held th k - 1), th_ok := th_ok th - {k}\<rparr>, r')"
| expire: "th_prog th = DoExpire k d p \<Longrightarrow> redis_Expire R t k d r = (Inr b, r') \<Longrightarrow>
    thread_step R L t (th, r) (th\<lparr>th_prog := p\<rparr>, r')"
| give: "holding th \<Longrightarrow>
    thread_step R L t (th, r) (th\<lparr>th_phase := Releasing, th_prog := release (th_user th) (th_ds th)\<rparr>, r)"

definition permit_key :: "string \<Rightarrow> bool" where
  "permit_key k \<longleftrightarrow> take 28 k = ''datasource:query:concurrent:''"

text \<open>
  A run within five minutes from \<open>t0\<close> in which no Redis command fails; other clients of the server
  keep their hands off the counters.
\<close>

inductive permit_step ::
  "'r redis \<Rightarrow> ('r \<Rightarrow> keys) \<Rightarrow> limits \<Rightarrow> instant \<Rightarrow> thread list \<times> 'r \<Rightarrow> thread list \<times> 'r \<Rightarrow> bool"
  for R kv L t0 where
  start: "permit_step R kv L t0 (ths, r) (ths @ [new_thread L u ds], r)"
| command: "i < length ths \<Longrightarrow> t0 \<le> t \<Longrightarrow> t < t0 + 5 * minute \<Longrightarrow>
    thread_step R L t (ths ! i, r) (th', r') \<Longrightarrow> permit_step R kv L t0 (ths, r) (ths[i := th'], r')"
| other: "\<forall>k. permit_key k \<longrightarrow> kv r' k = kv r k \<Longrightarrow> permit_step R kv L t0 (ths, r) (ths, r')"

definition no_permits :: "('r \<Rightarrow> keys) \<Rightarrow> thread list \<times> 'r \<Rightarrow> bool" where
  "no_permits kv c \<longleftrightarrow> fst c = [] \<and> (\<forall>k. permit_key k \<longrightarrow> kv (snd c) k = None)"

inductive_cases thread_stepE: "thread_step R L t (th, r) (th', r')"
inductive_cases permit_stepE: "permit_step R kv L t0 (ths, r) c"

section \<open>The invariant of a call\<close>

lemma keys_permit [simp]: "permit_key (user_key u)" "permit_key global_key" "permit_key (ds_key d)"
  by (simp_all add: permit_key_def user_key_def global_key_def ds_key_def)

lemma keys_apart [simp]:
  "user_key u \<noteq> global_key" "global_key \<noteq> user_key u" "user_key u \<noteq> ds_key d" "ds_key d \<noteq> user_key u"
  "global_key \<noteq> ds_key d" "ds_key d \<noteq> global_key"
  by (simp_all add: user_key_def global_key_def ds_key_def)

lemma keys_inj [simp]: "user_key u = user_key v \<longleftrightarrow> u = v" "ds_key d = ds_key e \<longleftrightarrow> d = e"
  by (auto simp: user_key_def ds_key_def dest: show_int_inj)

lemma limit_simps [simp]:
  "limit_of L (user_key u) = max_user L" "limit_of L global_key = max_global L"
  "limit_of L (ds_key d) = max_ds L"
  by (simp_all add: limit_of_def) (simp_all add: user_key_def ds_key_def)

text \<open>What a program does with the keys on every run, up to what its end has to satisfy.\<close>

primrec good ::
  "limits \<Rightarrow> (unit result \<Rightarrow> (string \<Rightarrow> int) \<Rightarrow> string set \<Rightarrow> bool) \<Rightarrow> prog
     \<Rightarrow> (string \<Rightarrow> int) \<Rightarrow> string set \<Rightarrow> bool" where
  "good L Q (Done x) = Q x"
| "good L Q (DoIncr k f) = (\<lambda>h c. permit_key k \<and>
     (\<forall>n. good L Q (f (Inr n)) (h(k := h k + 1)) (if n \<le> limit_of L k then insert k c else c)))"
| "good L Q (DoDecr k p) = (\<lambda>h c. permit_key k \<and> 0 < h k \<and> good L Q p (h(k := h k - 1)) (c - {k}))"
| "good L Q (DoExpire k d p) = (\<lambda>h c. permit_key k \<and> 5 * minute \<le> d \<and> good L Q p h c)"

definition acquired :: "int \<Rightarrow> int option \<Rightarrow> unit result \<Rightarrow> (string \<Rightarrow> int) \<Rightarrow> string set \<Rightarrow> bool" where
  "acquired u ds x h c \<longleftrightarrow> (case x of
      Inr a \<Rightarrow> (\<forall>k\<in>set (permit_keys u ds). k \<in> c) | Inl e \<Rightarrow> h = (\<lambda>k. 0))"

lemma acquire_good: "good L (acquired u ds) (acquire L u ds) (\<lambda>k. 0) {}"
  by (cases ds)
    (auto simp: acquire_def Acquire_def AcquireForDatasource_def take_key_def Let_def acquired_def
      permit_keys_def)

definition post :: "phase \<Rightarrow> int \<Rightarrow> int option \<Rightarrow> unit result \<Rightarrow> (string \<Rightarrow> int) \<Rightarrow> string set \<Rightarrow> bool" where
  "post ph u ds = (case ph of Acquiring \<Rightarrow> acquired u ds | Releasing \<Rightarrow> \<lambda>x h c. True)"

lemma post_simps [simp]: "post Acquiring u ds = acquired u ds" "post Releasing u ds = (\<lambda>x h c. True)"
  by (simp_all add: post_def)

definition thread_inv :: "limits \<Rightarrow> thread \<Rightarrow> bool" where
  "thread_inv L th \<longleftrightarrow> (\<forall>k. 0 \<le> th_held th k) \<and> (\<forall>k\<in>th_ok th. 1 \<le> th_held th k) \<and>
     good L (post (th_phase th) (th_user th) (th_ds th)) (th_prog th) (th_held th) (th_ok th)"

lemma release_good:
  assumes "\<forall>k\<in>set (permit_keys u ds). 1 \<le> h k"
  shows "good L (\<lambda>x h c. True) (release u ds) h c"
  using assms by (cases ds) (auto simp: release_def permit_keys_def)

lemma new_thread_inv: "thread_inv L (new_thread L u ds)"
  using acquire_good by (simp add: thread_inv_def new_thread_def)

lemma thread_step_inv:
  assumes "thread_step R L t (th, r) (th', r')" "thread_inv L th"
  shows "thread_inv L th'"
  using assms(1)
proof (cases rule: thread_stepE [consumes 1, case_names incr decr expire give])
  case (incr k f n)
  then show ?thesis using assms(2) by (auto simp: thread_inv_def)
next
  case (decr k p n)
  then show ?thesis using assms(2) by (auto simp: thread_inv_def)
next
  case (expire k d p b)
  then show ?thesis using assms(2) by (simp add: thread_inv_def)
next
  case give
  then have "\<forall>k\<in>set (permit_keys (th_user th) (th_ds th)). 1 \<le> th_held th k"
    using assms(2) by (auto simp: thread_inv_def holding_def acquired_def)
  then show ?thesis using give assms(2) release_good by (simp add: thread_inv_def)
qed

lemma holding_ok: "thread_inv L th \<Longrightarrow> holding th \<Longrightarrow> k \<in> set (permit_keys (th_user th) (th_ds th)) \<Longrightarrow> k \<in> th_ok th"
  by (simp add: thread_inv_def holding_def acquired_def)

section \<open>The invariant of a run\<close>

definition held :: "thread list \<Rightarrow> string \<Rightarrow> int" where
  "held ths k = sum_list (map (\<lambda>th. th_held th k) ths)"

definition passed :: "thread list \<Rightarrow> string \<Rightarrow> int" where
  "passed ths k = sum_list (map (\<lambda>th. if k \<in> th_ok th then 1 else 0) ths)"

text \<open>The value of a counter whose life is not over.\<close>

definition value_of :: "entry option \<Rightarrow> int" where
  "value_of e = (case e of None \<Rightarrow> 0 | Some (v, x) \<Rightarrow> read_int v)"

definition lasting :: "instant \<Rightarrow> entry option \<Rightarrow> bool" where
  "lasting t1 e \<longleftrightarrow> (case e of Some (v, Some x) \<Rightarrow> t1 \<le> x | _ \<Rightarrow> True)"

definition permits_inv :: "('r \<Rightarrow> keys) \<Rightarrow> limits \<Rightarrow> instant \<Rightarrow> thread list \<times> 'r \<Rightarrow> bool" where
  "permits_inv kv L t0 c \<longleftrightarrow> (case c of (ths, r) \<Rightarrow>
     (\<forall>th\<in>set ths. thread_inv L th) \<and>
     (\<forall>k. permit_key k \<longrightarrow> lasting (t0 + 5 * minute) (kv r k) \<and> value_of (kv r k) = held ths k \<and>
        passed ths k \<le> limit_of L k))"

lemma sum_list_upd: "i < length xs \<Longrightarrow> sum_list (map f (xs[i := y])) = sum_list (map f xs) + (f y - f (xs ! i) :: int)"
  by (induction xs arbitrary: i) (auto split: nat.split)

lemma held_upd: "i < length ths \<Longrightarrow> held (ths[i := th]) k = held ths k + (th_held th k - th_held (ths ! i) k)"
  by (simp add: held_def sum_list_upd)

lemma passed_upd:
  "i < length ths \<Longrightarrow> passed (ths[i := th]) k =
     passed ths k + ((if k \<in> th_ok th then 1 else 0) - (if k \<in> th_ok (ths ! i) then 1 else 0))"
  by (simp only: passed_def sum_list_upd)

lemma passed_held: "\<forall>th\<in>set ths. thread_inv L th \<Longrightarrow> passed ths k \<le> held ths k"
  unfolding passed_def held_def by (intro sum_list_mono) (auto simp: thread_inv_def)

lemma counter_lasting: "lasting t1 (m k) \<Longrightarrow> t < t1 \<Longrightarrow> counter t k m = value_of (m k)"
  by (auto simp: lasting_def counter_def value_of_def live_def split: option.splits)

lemma bump_lasting:
  assumes "lasting t1 (m k)" "t < t1"
  shows "lasting t1 (bump d t k m k)" "value_of (bump d t k m k) = value_of (m k) + d"
  using assms counter_lasting [of t1 m k t]
  by (auto simp: bump_def lasting_def value_of_def live_def read_show_int split: option.splits)

lemma touch_lasting:
  assumes "lasting t1 (m k)" "t < t1" "t1 \<le> t + d"
  shows "lasting t1 (touch t k d m k)" "value_of (touch t k d m k) = value_of (m k)"
  using assms by (auto simp: touch_def lasting_def value_of_def live_def split: option.splits prod.splits)

lemma command_inv:
  assumes "redis_counters R kv" "i < length ths" "t0 \<le> t" "t < t0 + 5 * minute"
    and step: "thread_step R L t (ths ! i, r) (th', r')" and inv: "permits_inv kv L t0 (ths, r)"
  shows "permits_inv kv L t0 (ths[i := th'], r')"
proof -
  have th: "thread_inv L (ths ! i)" and ths: "\<forall>th\<in>set ths. thread_inv L th"
    using inv assms(2) by (auto simp: permits_inv_def)
  have ths': "\<forall>th\<in>set (ths[i := th']). thread_inv L th"
    using thread_step_inv [OF step th] ths set_update_subset_insert [of ths i th'] by auto
  have old: "lasting (t0 + 5 * minute) (kv r k)" "value_of (kv r k) = held ths k" "passed ths k \<le> limit_of L k"
    if "permit_key k" for k
    using inv that by (auto simp: permits_inv_def)
  have "lasting (t0 + 5 * minute) (kv r' k) \<and> value_of (kv r' k) = held (ths[i := th']) k \<and>
        passed (ths[i := th']) k \<le> limit_of L k" if k: "permit_key k" for k
    using step
  proof (cases rule: thread_stepE [consumes 1, case_names incr decr expire give])
    case (incr k' f n)
    have law: "n = counter t k' (kv r) + 1" "kv r' = bump 1 t k' (kv r)"
      using redis_counters.incr_law [OF assms(1)] incr(3) by blast+
    have "permit_key k'" using th incr(2) by (simp add: thread_inv_def)
    then have n: "n = held ths k' + 1"
      using law(1) counter_lasting [of _ "kv r" k', OF old(1) assms(4)] old(2) by simp
    have h: "held (ths[i := th']) k = held ths k + (if k = k' then 1 else 0)"
      using assms(2) incr by (simp add: held_upd)
    have "passed (ths[i := th']) k \<le> limit_of L k"
    proof (cases "k = k' \<and> n \<le> limit_of L k'")
      case True
      then show ?thesis using passed_held [OF ths', of k] h n by simp
    next
      case False
      then have "passed (ths[i := th']) k = passed ths k" using assms(2) incr by (auto simp: passed_upd)
      then show ?thesis using old(3) [OF k] by simp
    qed
    then show ?thesis
      using h law(2) old(1,2) [OF k] bump_lasting [of _ "kv r" k t 1, OF old(1) [OF k] assms(4)] by (cases "k = k'") simp_all
  next
    case (decr k' p n)
    have law: "kv r' = bump (- 1) t k' (kv r)"
      using redis_counters.decr_law [OF assms(1)] decr(3) by blast
    have h: "held (ths[i := th']) k = held ths k - (if k = k' then 1 else 0)"
      using assms(2) decr by (simp add: held_upd)
    have "passed (ths[i := th']) k \<le> passed ths k" using assms(2) decr by (auto simp: passed_upd)
    then show ?thesis
      using h law old [OF k] bump_lasting [of _ "kv r" k t "- 1", OF old(1) [OF k] assms(4)] by (cases "k = k'") simp_all
  next
    case (expire k' d p b)
    have d: "5 * minute \<le> d" using th expire(2) by (simp add: thread_inv_def)
    then have "kv r' = touch t k' d (kv r)"
      using redis_server.expire_law [OF redis_counters.axioms(1) [OF assms(1)], of d t k' r b r'] expire(3) by simp
    moreover have "held (ths[i := th']) k = held ths k" "passed (ths[i := th']) k = passed ths k"
      using assms(2) expire by (simp_all add: held_upd passed_upd)
    ultimately show ?thesis
      using old [OF k] touch_lasting [of _ "kv r" k t d, OF old(1) [OF k] assms(4)] d assms(3) by (cases "k = k'") simp_all
  next
    case give
    then have "held (ths[i := th']) k = held ths k" "passed (ths[i := th']) k = passed ths k"
      using assms(2) by (simp_all add: held_upd passed_upd)
    then show ?thesis using give old [OF k] by simp
  qed
  then show ?thesis using ths' by (simp add: permits_inv_def)
qed

lemma permit_step_inv:
  assumes "redis_counters R kv" "permit_step R kv L t0 c c'" "permits_inv kv L t0 c"
  shows "permits_inv kv L t0 c'"
  using assms(2)
proof cases
  case (start ths r u ds)
  then show ?thesis
    using assms(3) new_thread_inv
    by (auto simp: permits_inv_def held_def passed_def) (simp_all add: new_thread_def)
next
  case (command i ths t r th' r')
  then show ?thesis using command_inv [OF assms(1)] assms(3) by blast
next
  case (other r' r ths)
  then show ?thesis using assms(3) by (simp add: permits_inv_def)
qed

definition proper_limits :: "limits \<Rightarrow> bool" where
  "proper_limits L \<longleftrightarrow> 0 < max_user L \<and> 0 < max_global L \<and> 0 < max_ds L"

lemma refresh_proper: "proper_limits (refreshRuntimeConfig u g d)"
  by (simp add: proper_limits_def refreshRuntimeConfig_def)

lemma permits_invariant:
  assumes "redis_counters R kv" "proper_limits L"
  shows "transition_invariant (no_permits kv) (permit_step R kv L t0) (permits_inv kv L t0)"
proof
  show "no_permits kv c \<Longrightarrow> permits_inv kv L t0 c" for c
    using assms(2)
    by (cases c) (auto simp: no_permits_def permits_inv_def lasting_def value_of_def held_def passed_def
        limit_of_def proper_limits_def)
  show "permit_step R kv L t0 c c' \<Longrightarrow> permits_inv kv L t0 c \<Longrightarrow> permits_inv kv L t0 c'" for c c'
    using permit_step_inv [OF assms(1)] by blast
qed

lemma holders_bounded:
  assumes "redis_counters R kv" "proper_limits L" "reach (no_permits kv) (permit_step R kv L t0) (ths, r)"
    and "permit_key k"
  shows "int (length (filter (\<lambda>th. holding th \<and> k \<in> set (permit_keys (th_user th) (th_ds th))) ths)) \<le> limit_of L k"
proof -
  let ?p = "\<lambda>th. holding th \<and> k \<in> set (permit_keys (th_user th) (th_ds th))"
  have inv: "permits_inv kv L t0 (ths, r)"
    by (rule transition_invariant.reach_inv [OF permits_invariant [OF assms(1,2)] assms(3)])
  have "int (length (filter ?p xs)) = sum_list (map (\<lambda>th. if ?p th then 1 else 0) xs)" for xs
    by (induction xs) simp_all
  also have "sum_list (map (\<lambda>th. if ?p th then 1 else 0) ths) \<le> passed ths k"
    unfolding passed_def using inv holding_ok
    by (intro sum_list_mono) (auto simp: permits_inv_def)
  finally show ?thesis using inv assms(4) by (auto simp: permits_inv_def)
qed

section \<open>Properties\<close>

text \<open>C1: With counters that start empty, Redis commands that never fail and limits that stay, however many calls run at once
  and however their commands interleave: for five minutes no user, no data source and nobody together ever holds more permits
  than the limit. Permits are those of requests, which give them back when the handler returns.\<close>

theorem concurrency_limits_hold:
  assumes "redis_counters R kv"
    and "reach (no_permits kv) (permit_step R kv (refreshRuntimeConfig a b c) t0) (ths, r)"
  shows "int (length (filter (\<lambda>th. holding th \<and> th_user th = u) ths)) \<le> max_user (refreshRuntimeConfig a b c) \<and>
    int (length (filter holding ths)) \<le> max_global (refreshRuntimeConfig a b c) \<and>
    int (length (filter (\<lambda>th. holding th \<and> th_ds th = Some d) ths)) \<le> max_ds (refreshRuntimeConfig a b c)"
proof (intro conjI)
  note bound = holders_bounded [OF assms(1) refresh_proper assms(2)]
  have "user_key u \<in> set (permit_keys v ds) \<longleftrightarrow> v = u" for v ds
    by (cases ds) (auto simp: permit_keys_def)
  then show "int (length (filter (\<lambda>th. holding th \<and> th_user th = u) ths)) \<le> max_user (refreshRuntimeConfig a b c)"
    using bound [of "user_key u"] by simp
  have "global_key \<in> set (permit_keys v ds)" for v ds by (simp add: permit_keys_def)
  then show "int (length (filter holding ths)) \<le> max_global (refreshRuntimeConfig a b c)"
    using bound [of global_key] by simp
  have "ds_key d \<in> set (permit_keys v ds) \<longleftrightarrow> ds = Some d" for v ds
    by (cases ds) (auto simp: permit_keys_def)
  then show "int (length (filter (\<lambda>th. holding th \<and> th_ds th = Some d) ths)) \<le> max_ds (refreshRuntimeConfig a b c)"
    using bound [of "ds_key d"] by simp
qed

lemma run_give_back: "\<exists>r'. run_prog R t (give_back ks (Done x)) r = (x, r')"
  by (induction ks arbitrary: r) simp_all

text \<open>A check that lets the call through from a fresh counter leaves it at 1, with five minutes to live.\<close>

lemma take_key_fresh:
  assumes "redis_counters R kv" "redis_up R" "live t (kv r k) = None"
    and "run_prog R t (take_key k m ks over go) r = (Inr (), r')"
  obtains r1 where "kv r1 = (kv r)(k \<mapsto> (show_int 1, Some (t + 5 * minute)))"
    and "run_prog R t go r1 = (Inr (), r')"
proof -
  have srv: "redis_server R kv" using assms(1) by (rule redis_counters.axioms(1))
  obtain n ra where n: "redis_Incr R t k r = (n, ra)" by fastforce
  obtain i where i: "n = Inr i"
    using assms(4) n run_give_back [of R t ks "Inl (''concurrent check error: '' @ projl n)" ra]
    by (cases n) (auto simp: take_key_def)
  have a: "i = 1" "kv ra = (kv r)(k \<mapsto> (show_int 1, None))"
    using redis_counters.incr_law [OF assms(1) n [unfolded i]] assms(3)
    by (simp_all add: counter_def bump_def)
  obtain b rb where b: "redis_Expire R t k (5 * minute) ra = (Inr b, rb)"
    using up_Expire [OF assms(2)] by blast
  have "kv rb = (kv r)(k \<mapsto> (show_int 1, Some (t + 5 * minute)))"
    using redis_server.expire_law [OF srv _ b] a(2) by (simp add: touch_def)
  moreover have "run_prog R t go rb = (Inr (), r')"
    using assms(4) n i a(1) b run_give_back [of R t "ks @ [k]" "Inl over" rb]
    by (auto simp: take_key_def Let_def split: if_splits)
  ultimately show thesis by (rule that)
qed

text \<open>A permit can outlive its counter. When a query granted from fresh counters is still running
  five minutes later and nobody has counted since, the counters are gone; giving the permit back
  then leaves them at -1 and, being new, without any expiry, so that afterwards one query more than
  the limit is let through.\<close>

theorem late_release_goes_negative:
  assumes "redis_counters R kv" "redis_up R"
    and "live t (kv r (user_key u)) = None" "live t (kv r global_key) = None"
    and "run_prog R t (Acquire L u) r = (Inr (), r1)" "t + 5 * minute \<le> later"
    and "redis_Decr R later (user_key u) r1 = (Inr n, r2)" "redis_Decr R later global_key r2 = (Inr m, r3)"
  shows "run_prog R later (release u None) r1 = (Inr (), r3) \<and> n = - 1 \<and> m = - 1 \<and>
    kv r3 (user_key u) = Some (show_int (- 1), None) \<and> kv r3 global_key = Some (show_int (- 1), None)"
proof -
  let ?dead = "Some (show_int 1, Some (t + 5 * minute))"
  obtain ra where a: "kv ra = (kv r)(user_key u \<mapsto> (show_int 1, Some (t + 5 * minute)))"
    and run: "run_prog R t (take_key global_key (max_global L) [user_key u] limit_text (Done (Inr ()))) ra = (Inr (), r1)"
    using take_key_fresh [OF assms(1-3) assms(5) [unfolded Acquire_def]] by blast
  have "live t (kv ra global_key) = None" using a assms(4) by simp
  then obtain rb where b: "kv rb = (kv ra)(global_key \<mapsto> (show_int 1, Some (t + 5 * minute)))"
    and "run_prog R t (Done (Inr ())) rb = (Inr (), r1)"
    using take_key_fresh [OF assms(1,2) _ run] by blast
  then have "kv r1 (user_key u) = ?dead" "kv r1 global_key = ?dead" using a b by simp_all
  then have 1: "n = - 1" "kv r2 = (kv r1)(user_key u \<mapsto> (show_int (- 1), None))"
    using redis_counters.decr_law [OF assms(1,7)] assms(6) by (simp_all add: counter_def bump_def)
  then have "kv r2 global_key = ?dead" using \<open>kv r1 global_key = ?dead\<close> by simp
  then have 2: "m = - 1" "kv r3 = (kv r2)(global_key \<mapsto> (show_int (- 1), None))"
    using redis_counters.decr_law [OF assms(1,8)] assms(6) by (simp_all add: counter_def bump_def)
  show ?thesis using 1 2 assms(7,8) by (simp add: release_def permit_keys_def)
qed

section \<open>The properties at concrete runs\<close>

definition demo_limits :: limits where
  "demo_limits = refreshRuntimeConfig 1 1 1"

lemma demo_limits_simps [simp]: "max_user demo_limits = 1" "max_global demo_limits = 1" "max_ds demo_limits = 1"
  by (simp_all add: demo_limits_def refreshRuntimeConfig_def)

lemma advance:
  assumes "reach (no_permits kv) (permit_step R kv L t0) ([th], r)" "t0 \<le> t" "t < t0 + 5 * minute"
    and "thread_step R L t (th, r) (th', r')"
  shows "reach (no_permits kv) (permit_step R kv L t0) ([th'], r')"
  using reach_step [OF assms(1) permit_step.command [of 0 "[th]" t0 t R L r th' r' kv]] assms(2-4) by simp

lemma demo_grant:
  "\<exists>th r. reach (no_permits (\<lambda>m. m)) (permit_step mem_redis (\<lambda>m. m) demo_limits 0) ([th], r) \<and>
     holding th \<and> th_user th = 1"
proof -
  let ?reach = "reach (no_permits (\<lambda>m. m)) (permit_step mem_redis (\<lambda>m. m) demo_limits 0)"
  let ?step = "thread_step mem_redis demo_limits 0"
  let ?th = "new_thread demo_limits 1 None"
  let ?p3 = "Done (Inr ())"
  let ?p2 = "take_key global_key 1 [user_key 1] limit_text ?p3"
  have prog: "th_prog ?th = take_key (user_key 1) 1 [] limit_text ?p2"
    by (simp add: new_thread_def acquire_def Acquire_def)
  have "no_permits (\<lambda>m. m) ([], Map.empty)" by (simp add: no_permits_def)
  then have 0: "?reach ([?th], Map.empty)"
    using reach_one [of "no_permits (\<lambda>m. m)" "([], Map.empty)"] permit_step.start [of mem_redis "\<lambda>m. m" demo_limits 0 "[]"]
    by fastforce
  have one: "\<exists>th' r'. ?reach ([th'], r') \<and> th_prog th' = go \<and> th_phase th' = th_phase th \<and> th_user th' = th_user th \<and>
      (\<forall>k'. k' \<noteq> k \<longrightarrow> r' k' = r k')"
    if "?reach ([th], r)" "th_prog th = take_key k 1 ks over go" "r k = None" for th r k ks over go
  proof -
    let ?f = "\<lambda>reply. case reply of
        Inl e \<Rightarrow> give_back ks (Done (Inl (''concurrent check error: '' @ e)))
      | Inr n \<Rightarrow> (let p = (if n > 1 then give_back (ks @ [k]) (Done (Inl over)) else go)
                 in if n = 1 then DoExpire k (5 * minute) p else p)"
    have i: "redis_Incr mem_redis 0 k r = (Inr 1, bump 1 0 k r)" using that(3) by (simp add: mem_add_def)
    note s1 = thread_step.incr [OF that(2) [unfolded take_key_def] i, of demo_limits]
    note r1 = advance [OF that(1) _ _ s1, simplified]
    have e: "redis_Expire mem_redis 0 k (5 * minute) (bump 1 0 k r) =
        (Inr True, touch 0 k (5 * minute) (bump 1 0 k r))"
      using that(3) by (simp add: bump_def)
    show ?thesis
      using advance [OF r1 _ _ thread_step.expire [OF _ e]] by (fastforce simp: Let_def)
  qed
  obtain th1 r1 where 1: "?reach ([th1], r1)" "th_prog th1 = ?p2" "th_phase th1 = Acquiring" "th_user th1 = 1"
      "r1 global_key = None"
    using one [OF 0 prog] by (auto simp: new_thread_def)
  obtain th2 r2 where "?reach ([th2], r2)" "th_prog th2 = ?p3" "th_phase th2 = Acquiring" "th_user th2 = 1"
    using one [OF 1(1,2,5)] 1(3,4) by auto
  then show ?thesis by (auto simp: holding_def)
qed

theorem concurrency_limits_hold_witness:
  "\<exists>ths r. reach (no_permits (\<lambda>m. m)) (permit_step mem_redis (\<lambda>m. m) demo_limits 0) (ths, r) \<and>
     length (filter holding ths) = 1 \<and> int (length (filter holding ths)) \<le> max_global demo_limits"
proof -
  obtain th r where th: "reach (no_permits (\<lambda>m. m)) (permit_step mem_redis (\<lambda>m. m) demo_limits 0) ([th], r)"
      "holding th"
    using demo_grant by blast
  then show ?thesis
    using concurrency_limits_hold [OF mem_counters, of 1 1 1 0 "[th]" r] demo_limits_def
    by (intro exI [of _ "[th]"] exI [of _ r]) simp
qed

theorem late_release_goes_negative_witness:
  "\<exists>r1 r3. run_prog mem_redis 0 (Acquire demo_limits 1) Map.empty = (Inr (), r1) \<and>
     run_prog mem_redis (5 * minute) (release 1 None) r1 = (Inr (), r3) \<and>
     r3 (user_key 1) = Some (show_int (- 1), None)"
proof -
  let ?k = "user_key 1" and ?x = "Some (5 * minute)"
  have i: "mem_add 1 0 k m = (Inr 1, m(k \<mapsto> (show_int 1, None)))" if "m k = None" for k m
    using that by (simp add: mem_add_def bump_def counter_def)
  define r1 where "r1 = Map.empty(?k \<mapsto> (show_int 1, ?x), global_key \<mapsto> (show_int 1, ?x))"
  have run: "run_prog mem_redis 0 (Acquire demo_limits 1) Map.empty = (Inr (), r1)"
    by (simp add: Acquire_def take_key_def i touch_def r1_def)
  have d: "mem_add (- 1) (5 * minute) k m = (Inr (- 1), m(k \<mapsto> (show_int (- 1), None)))"
    if "m k = Some (show_int 1, ?x)" for k m
    using that by (simp add: mem_add_def bump_def counter_def)
  let ?r2 = "r1(?k \<mapsto> (show_int (- 1), None))"
  let ?r3 = "?r2(global_key \<mapsto> (show_int (- 1), None))"
  have "redis_Decr mem_redis (5 * minute) ?k r1 = (Inr (- 1), ?r2)"
    "redis_Decr mem_redis (5 * minute) global_key ?r2 = (Inr (- 1), ?r3)"
    using d [of r1 ?k] d [of ?r2 global_key] by (simp_all add: r1_def)
  from late_release_goes_negative [OF mem_counters mem_redis_up _ _ run _ this]
  show ?thesis using run by auto
qed

end
