(* ===== verification/Cron.thy ===== *)
theory Cron
  imports Task_Runs
begin

text \<open>
  The cron scheduler of a node (scheduler/internal/cron/cron_scheduler.go): the jobs it keeps in the
  cron library, what it does when leadership comes and goes, pausing, what a job does when it fires,
  and the lock of a task among the nodes. The library (robfig/cron) is a parameter with its
  documented laws; the Lua scripts of the lock are functions on its hash in Redis. Goroutines
  started by \<open>OnBecomeLeader\<close> are the separate operations \<open>loadAndRegisterTasks\<close> and
  \<open>recoverRunningTasks\<close>; the renewer of a lock is the operation \<open>cron_renewTaskLock\<close>.
\<close>

section \<open>The library\<close>

record 'c cronlib =
  cl_add :: "string \<Rightarrow> int \<Rightarrow> 'c \<Rightarrow> nat option \<times> 'c"   \<comment> \<open>\<open>AddFunc\<close> for a job that executes the task\<close>
  cl_remove :: "nat \<Rightarrow> 'c \<Rightarrow> 'c"
  cl_standard :: "string \<Rightarrow> bool"                      \<comment> \<open>\<open>ParseStandard\<close> accepts the expression\<close>

locale cron_library =
  fixes C :: "'c cronlib" and jobs :: "'c \<Rightarrow> nat \<Rightarrow> int option"
  assumes add_law: "cl_add C e t c = (Some i, c') \<Longrightarrow> jobs c i = None \<and> jobs c' = (jobs c)(i \<mapsto> t)"
    and add_fail: "cl_add C e t c = (None, c') \<Longrightarrow> jobs c' = jobs c"
    and remove_law: "jobs (cl_remove C i c) = (jobs c)(i := None)"
begin

lemma remove_all: "jobs (fold (cl_remove C) is c) = (\<lambda>i. if i \<in> set is then None else jobs c i)"
  by (induction "is" arbitrary: c) (auto simp: remove_law)

end

text \<open>A library in memory that takes every expression of six fields.\<close>

definition field_count :: "string \<Rightarrow> nat" where
  "field_count e = Suc (length (filter (\<lambda>c. c = CHR '' '') e))"

definition mem_cron :: "(nat \<times> (nat \<Rightarrow> int option)) cronlib" where
  "mem_cron =
     \<lparr>cl_add = (\<lambda>e t (n, j). if field_count e = 6 then (Some n, (Suc n, \<lambda>i. if i = n then Some t else if i < n then j i else None))
                             else (None, (n, j))),
      cl_remove = (\<lambda>i (n, j). (n, j(i := None))),
      cl_standard = (\<lambda>e. field_count e = 5)\<rparr>"

definition mem_jobs :: "nat \<times> (nat \<Rightarrow> int option) \<Rightarrow> nat \<Rightarrow> int option" where
  "mem_jobs c i = (if i < fst c then snd c i else None)"

interpretation mem_library: cron_library mem_cron mem_jobs
  by unfold_locales (auto simp: mem_cron_def mem_jobs_def fun_eq_iff split: if_splits prod.splits)

section \<open>The scheduler of a node\<close>

record 'c cron_sched =
  cr_lib :: 'c
  cr_entries :: "int \<Rightarrow> nat option"
  cr_paused :: bool
  cr_leader :: bool
  cr_started :: bool
  cr_synced :: instant

definition NewCronScheduler :: "'c \<Rightarrow> 'c cron_sched" where
  "NewCronScheduler lib =
     \<lparr>cr_lib = lib, cr_entries = Map.empty, cr_paused = False, cr_leader = False,
      cr_started = False, cr_synced = 0\<rparr>"

text \<open>\<open>Get(key).Bool()\<close>: \<open>None\<close> for an error, a missing key or another text.\<close>

definition parse_bool :: "string \<Rightarrow> bool option" where
  "parse_bool s =
     (if s \<in> {''1'', ''t'', ''T'', ''TRUE'', ''true'', ''True''} then Some True
      else if s \<in> {''0'', ''f'', ''F'', ''FALSE'', ''false'', ''False''} then Some False else None)"

definition paused_key :: string where "paused_key = ''scheduler:paused''"

definition redis_paused :: "'r env \<Rightarrow> 'r sched \<Rightarrow> bool option" where
  "redis_paused V s = (case r_get V paused_key s of Inr (Some v) \<Rightarrow> parse_bool v | _ \<Rightarrow> None)"

definition cron_Start :: "'r env \<Rightarrow> 'r sched \<Rightarrow> 'c cron_sched \<Rightarrow> 'c cron_sched" where
  "cron_Start V s c = (if redis_paused V s = Some True then c\<lparr>cr_paused := True\<rparr> else c)"

definition OnBecomeLeader :: "'c cron_sched \<Rightarrow> 'c cron_sched" where
  "OnBecomeLeader c = (if cr_leader c then c else c\<lparr>cr_leader := True, cr_started := True\<rparr>)"

text \<open>\<open>order\<close> is the order in which the loop visits the tasks of the map.\<close>

definition OnLoseLeader :: "'c cronlib \<Rightarrow> int list \<Rightarrow> 'c cron_sched \<Rightarrow> 'c cron_sched" where
  "OnLoseLeader C order c =
     (if \<not> cr_leader c then c
      else c\<lparr>cr_leader := False,
             cr_lib := fold (cl_remove C) (map (the \<circ> cr_entries c) order) (cr_lib c),
             cr_entries := Map.empty\<rparr>)"

definition Pause :: "'r env \<Rightarrow> 'c cron_sched \<times> 'r sched \<Rightarrow> 'c cron_sched \<times> 'r sched" where
  "Pause V = (\<lambda>(c, s). (c\<lparr>cr_paused := True, cr_synced := env_now V\<rparr>, snd (r_set V paused_key ''1'' 0 s)))"

definition Resume :: "'r env \<Rightarrow> 'c cron_sched \<times> 'r sched \<Rightarrow> 'c cron_sched \<times> 'r sched" where
  "Resume V = (\<lambda>(c, s). (c\<lparr>cr_paused := False, cr_synced := env_now V\<rparr>, snd (r_set V paused_key ''0'' 0 s)))"

definition syncPausedFromRedis :: "'r env \<Rightarrow> 'r sched \<Rightarrow> 'c cron_sched \<Rightarrow> 'c cron_sched" where
  "syncPausedFromRedis V s c =
     (case redis_paused V s of
        None \<Rightarrow> c
      | Some b \<Rightarrow> c\<lparr>cr_paused := b, cr_synced := env_now V\<rparr>)"

definition IsPaused :: "'r env \<Rightarrow> 'r sched \<Rightarrow> 'c cron_sched \<Rightarrow> bool \<times> 'c cron_sched" where
  "IsPaused V s c =
     (let c1 = (if env_now V - cr_synced c > 5 * second then syncPausedFromRedis V s c else c)
      in (cr_paused c1, c1))"

definition drop_entry :: "'c cronlib \<Rightarrow> int \<Rightarrow> 'c cron_sched \<Rightarrow> 'c cron_sched" where
  "drop_entry C tid c =
     (case cr_entries c tid of
        None \<Rightarrow> c
      | Some i \<Rightarrow> c\<lparr>cr_lib := cl_remove C i (cr_lib c), cr_entries := (cr_entries c)(tid := None)\<rparr>)"

definition cron_UnregisterTask :: "'c cronlib \<Rightarrow> int \<Rightarrow> 'c cron_sched \<Rightarrow> 'c cron_sched" where
  "cron_UnregisterTask C tid c = drop_entry C tid c"

text \<open>The expression as it is, or with a seconds field in front of one of five fields.\<close>

definition add_job :: "'c cronlib \<Rightarrow> string \<Rightarrow> int \<Rightarrow> 'c \<Rightarrow> nat option \<times> 'c" where
  "add_job C e tid lib =
     (case cl_add C e tid lib of
        (Some i, lib1) \<Rightarrow> (Some i, lib1)
      | (None, lib1) \<Rightarrow> (if cl_standard C e then cl_add C (''0 '' @ e) tid lib1 else (None, lib1)))"

definition cron_RegisterTask :: "'c cronlib \<Rightarrow> int \<Rightarrow> string \<Rightarrow> 'c cron_sched \<Rightarrow> 'c cron_sched" where
  "cron_RegisterTask C tid e c =
     (let c1 = drop_entry C tid c
      in case add_job C e tid (cr_lib c1) of
           (None, lib) \<Rightarrow> c1\<lparr>cr_lib := lib\<rparr>
         | (Some i, lib) \<Rightarrow> c1\<lparr>cr_lib := lib, cr_entries := (cr_entries c1)(tid \<mapsto> i)\<rparr>)"

text \<open>\<open>still\<close> are the answers of \<open>IsLeader\<close> before each task.\<close>

fun load_all :: "'c cronlib \<Rightarrow> task list \<Rightarrow> bool list \<Rightarrow> 'c cron_sched \<Rightarrow> 'c cron_sched" where
  "load_all C [] still c = c"
| "load_all C (t # ts) still c =
     (case still of
        True # rest \<Rightarrow> load_all C ts rest
          (if t_cron t \<noteq> [] \<and> t_enabled t then cron_RegisterTask C (t_id t) (t_cron t) c else c)
      | _ \<Rightarrow> c)"

definition loadAndRegisterTasks ::
  "'c cronlib \<Rightarrow> 'r env \<Rightarrow> bool list \<Rightarrow> 'r sched \<Rightarrow> 'c cron_sched \<Rightarrow> 'c cron_sched" where
  "loadAndRegisterTasks C V still s c =
     (if \<not> s_leader s then c
      else (case ScanPendingTasks V s of Inl e \<Rightarrow> c | Inr ts \<Rightarrow> load_all C ts still c))"

section \<open>The lock of a task\<close>

text \<open>The hash of a lock: its owner, and a Unix time in the field \<open>expire\<close>.\<close>

type_synonym cron_locks = "int \<Rightarrow> (string \<times> int) option"

definition cron_lock_ttl :: "task \<Rightarrow> duration" where
  "cron_lock_ttl t =
     (let a = t_timeout t * 2;
          b = (if a < 60 * second then 60 * second else a);
          c = (if b > 7200 * second then 7200 * second else b)
      in if t_timeout t = 0 then 600 * second else c)"

definition lock_expire :: "instant \<Rightarrow> duration \<Rightarrow> int" where
  "lock_expire now ttl = (now + ttl) div second"

definition acquireTaskLock :: "string \<Rightarrow> instant \<Rightarrow> int \<Rightarrow> duration \<Rightarrow> cron_locks \<Rightarrow> bool \<times> cron_locks" where
  "acquireTaskLock node now tid ttl l =
     (case l tid of
        None \<Rightarrow> (True, l(tid \<mapsto> (node, lock_expire now ttl)))
      | Some (owner, e) \<Rightarrow>
          (if owner = node then (True, l(tid \<mapsto> (owner, lock_expire now ttl))) else (False, l)))"

definition releaseTaskLock :: "string \<Rightarrow> int \<Rightarrow> cron_locks \<Rightarrow> cron_locks" where
  "releaseTaskLock node tid l =
     (case l tid of None \<Rightarrow> l | Some (owner, e) \<Rightarrow> if owner = node then l(tid := None) else l)"

definition cron_renewTaskLock ::
  "string \<Rightarrow> instant \<Rightarrow> int \<Rightarrow> duration \<Rightarrow> cron_locks \<Rightarrow> unit result \<times> cron_locks" where
  "cron_renewTaskLock node now tid ttl l =
     (case l tid of
        None \<Rightarrow> (Inl ''lock not owned by this node'', l)
      | Some (owner, e) \<Rightarrow>
          (if owner = node then (Inr (), l(tid \<mapsto> (owner, lock_expire now ttl)))
           else (Inl ''lock not owned by this node'', l)))"

section \<open>A job fires\<close>

text \<open>\<open>up\<close> says whether the evaluation of the two scripts works: that of acquiring, that of releasing.\<close>

definition executeTask ::
  "'c cronlib \<Rightarrow> 'r env \<Rightarrow> string \<Rightarrow> bool \<times> bool \<Rightarrow> int
     \<Rightarrow> 'c cron_sched \<times> 'r sched \<times> cron_locks \<Rightarrow> 'c cron_sched \<times> 'r sched \<times> cron_locks" where
  "executeTask C V node up tid = (\<lambda>(c, s, l).
     if \<not> cr_leader c then (c, s, l)
     else (case IsPaused V s (syncPausedFromRedis V s c) of (paused, c1) \<Rightarrow>
       if paused then (c1, s, l)
       else (case GetTaskByID V tid s of
          Inl e \<Rightarrow> (c1, s, l)
        | Inr t \<Rightarrow>
            if \<not> t_enabled t \<or> t_cron t = [] then (cron_UnregisterTask C tid c1, s, l)
            else if \<not> fst up then (c1, s, l)
            else (case acquireTaskLock node (env_now V) tid (cron_lock_ttl t) l of
                    (False, l1) \<Rightarrow> (c1, s, l1)
                  | (True, l1) \<Rightarrow>
                      (c1, snd (TriggerTask V tid s),
                       if snd up then releaseTaskLock node tid l1 else l1)))))"

section \<open>The jobs of a node\<close>

text \<open>The library has exactly the jobs in the map, each under its task.\<close>

definition jobs_match :: "('c \<Rightarrow> nat \<Rightarrow> int option) \<Rightarrow> 'c cron_sched \<Rightarrow> bool" where
  "jobs_match jobs c \<longleftrightarrow> (\<forall>i t. jobs (cr_lib c) i = Some t \<longleftrightarrow> cr_entries c t = Some i)"

lemma jobs_match_cong:
  "cr_lib c' = cr_lib c \<Longrightarrow> cr_entries c' = cr_entries c \<Longrightarrow> jobs_match jobs c' = jobs_match jobs c"
  by (simp add: jobs_match_def)

text \<open>The operations of a node whose Redis server is \<open>R\<close>.\<close>

inductive cron_step :: "'c cronlib \<Rightarrow> 'r redis \<Rightarrow> 'c cron_sched \<Rightarrow> 'c cron_sched \<Rightarrow> bool" for C R where
  begins: "env_redis V = R \<Longrightarrow> cron_step C R c (cron_Start V s c)"
| leads: "cron_step C R c (OnBecomeLeader c)"
| loses: "set order = dom (cr_entries c) \<Longrightarrow> cron_step C R c (OnLoseLeader C order c)"
| pauses: "env_redis V = R \<Longrightarrow> cron_step C R c (fst (Pause V (c, s)))"
| resumes: "env_redis V = R \<Longrightarrow> cron_step C R c (fst (Resume V (c, s)))"
| asks: "env_redis V = R \<Longrightarrow> cron_step C R c (snd (IsPaused V s c))"
| registers: "cron_step C R c (cron_RegisterTask C tid e c)"
| unregisters: "cron_step C R c (cron_UnregisterTask C tid c)"
| loads: "env_redis V = R \<Longrightarrow> cron_step C R c (loadAndRegisterTasks C V still s c)"
| fires: "env_redis V = R \<Longrightarrow> cron_step C R c (fst (executeTask C V node up tid (c, s, l)))"

lemma sync_fields [simp]:
  "cr_lib (syncPausedFromRedis V s c) = cr_lib c" "cr_entries (syncPausedFromRedis V s c) = cr_entries c"
  "cr_leader (syncPausedFromRedis V s c) = cr_leader c"
  by (simp_all add: syncPausedFromRedis_def split: option.splits)

lemma paused_fields [simp]:
  "cr_lib (snd (IsPaused V s c)) = cr_lib c" "cr_entries (snd (IsPaused V s c)) = cr_entries c"
  by (simp_all add: IsPaused_def Let_def)

context cron_library
begin

lemma drop_entry_match:
  assumes "jobs_match jobs c"
  shows "jobs_match jobs (drop_entry C tid c)" "cr_entries (drop_entry C tid c) tid = None"
proof -
  show "jobs_match jobs (drop_entry C tid c)"
  proof (cases "cr_entries c tid")
    case None
    then show ?thesis using assms by (simp add: drop_entry_def)
  next
    case (Some i)
    have m: "jobs (cr_lib c) j = Some t \<longleftrightarrow> cr_entries c t = Some j" for j t
      using assms unfolding jobs_match_def by blast
    have tid: "t = tid" if "cr_entries c t = Some i" for t
    proof -
      have "Some t = Some tid" using m [of i t] m [of i tid] that Some by metis
      then show ?thesis by simp
    qed
    have lib: "jobs (cr_lib (drop_entry C tid c)) j = (if j = i then None else jobs (cr_lib c) j)" for j
      using Some by (simp add: drop_entry_def remove_law)
    have entries: "cr_entries (drop_entry C tid c) t = (if t = tid then None else cr_entries c t)" for t
      using Some by (simp add: drop_entry_def)
    show ?thesis
      unfolding jobs_match_def lib entries
    proof (intro allI)
      fix j t
      show "(if j = i then None else jobs (cr_lib c) j) = Some t \<longleftrightarrow> (if t = tid then None else cr_entries c t) = Some j"
      proof (cases "t = tid")
        case True
        moreover have "jobs (cr_lib c) j \<noteq> Some tid" if "j \<noteq> i" using that Some unfolding m by simp
        ultimately show ?thesis by simp
      next
        case False
        moreover have "cr_entries c t \<noteq> Some i" using False tid by blast
        ultimately show ?thesis using m by simp
      qed
    qed
  qed
  show "cr_entries (drop_entry C tid c) tid = None"
    by (cases "cr_entries c tid") (simp_all add: drop_entry_def)
qed

lemma add_job_cases:
  assumes "add_job C e tid lib = (x, lib')"
  shows "case x of None \<Rightarrow> jobs lib' = jobs lib
    | Some i \<Rightarrow> jobs lib i = None \<and> jobs lib' = (jobs lib)(i \<mapsto> tid)"
proof -
  obtain y lib1 where y: "cl_add C e tid lib = (y, lib1)" by fastforce
  obtain z lib2 where z: "cl_add C (''0 '' @ e) tid lib1 = (z, lib2)" by fastforce
  show ?thesis
  proof (cases y)
    case None
    then have j: "jobs lib1 = jobs lib" using add_fail y by blast
    have "case z of None \<Rightarrow> jobs lib2 = jobs lib1
        | Some i \<Rightarrow> jobs lib1 i = None \<and> jobs lib2 = (jobs lib1)(i \<mapsto> tid)"
      using add_law z add_fail z by (cases z) auto
    then show ?thesis
      using assms y z None j by (auto simp: add_job_def split: if_splits option.splits)
  next
    case (Some i)
    then show ?thesis using assms y add_law by (auto simp: add_job_def)
  qed
qed

lemma register_match:
  assumes "jobs_match jobs c"
  shows "jobs_match jobs (cron_RegisterTask C tid e c)"
proof -
  let ?c = "drop_entry C tid c"
  obtain x lib where x: "add_job C e tid (cr_lib ?c) = (x, lib)" by fastforce
  have c: "jobs_match jobs ?c" "cr_entries ?c tid = None" using drop_entry_match [OF assms] by simp_all
  show ?thesis
  proof (cases x)
    case None
    then have "jobs lib = jobs (cr_lib ?c)" using add_job_cases [OF x] by simp
    then show ?thesis using None x c by (simp add: cron_RegisterTask_def jobs_match_def)
  next
    case (Some i)
    then have "jobs (cr_lib ?c) i = None" "jobs lib = (jobs (cr_lib ?c))(i \<mapsto> tid)"
      using add_job_cases [OF x] by simp_all
    then show ?thesis
      using Some x c by (auto simp: cron_RegisterTask_def jobs_match_def Let_def) (metis option.distinct(1))
  qed
qed

lemma load_match: "jobs_match jobs c \<Longrightarrow> jobs_match jobs (load_all C ts still c)"
  by (induction ts arbitrary: still c) (auto simp: register_match split: list.splits bool.splits)

lemma lose_match:
  assumes "jobs_match jobs c" "set order = dom (cr_entries c)"
  shows "jobs_match jobs (OnLoseLeader C order c)" "cr_leader c \<Longrightarrow> jobs (cr_lib (OnLoseLeader C order c)) = Map.empty"
proof -
  have "jobs (fold (cl_remove C) (map (the \<circ> cr_entries c) order) (cr_lib c)) = Map.empty"
  proof (rule ext)
    fix i
    show "jobs (fold (cl_remove C) (map (the \<circ> cr_entries c) order) (cr_lib c)) i = None"
    proof (cases "jobs (cr_lib c) i")
      case (Some t)
      then have "cr_entries c t = Some i" using assms(1) by (simp add: jobs_match_def)
      then have "i \<in> set (map (the \<circ> cr_entries c) order)" using assms(2) by (force simp: image_iff)
      then show ?thesis unfolding remove_all by simp
    qed (simp add: remove_all)
  qed
  then show "jobs_match jobs (OnLoseLeader C order c)" "cr_leader c \<Longrightarrow> jobs (cr_lib (OnLoseLeader C order c)) = Map.empty"
    using assms(1) by (auto simp: OnLoseLeader_def jobs_match_def)
qed

lemma execute_match:
  assumes "jobs_match jobs c"
  shows "jobs_match jobs (fst (executeTask C V node up tid (c, s, l)))"
proof -
  let ?c = "snd (IsPaused V s (syncPausedFromRedis V s c))"
  have m: "jobs_match jobs ?c" using assms jobs_match_cong [of ?c c jobs] by simp
  then have "fst (executeTask C V node up tid (c, s, l)) \<in> {c, ?c, cron_UnregisterTask C tid ?c}"
    by (auto simp: executeTask_def split: prod.splits sum.splits bool.splits)
  moreover have "jobs_match jobs (cron_UnregisterTask C tid ?c)"
    using drop_entry_match(1) [OF m] by (simp add: cron_UnregisterTask_def)
  ultimately show ?thesis using assms m by auto
qed

lemma cron_step_match: "cron_step C R c c' \<Longrightarrow> jobs_match jobs c \<Longrightarrow> jobs_match jobs c'"
proof (induction rule: cron_step.induct)
  case (loads V c still s)
  then show ?case by (simp add: loadAndRegisterTasks_def load_match split: sum.splits)
next
  case (unregisters c tid)
  then show ?case by (simp add: cron_UnregisterTask_def drop_entry_match)
next
  case (asks V c s)
  then show ?case using jobs_match_cong [of "snd (IsPaused V s c)" c jobs] by simp
next
  case (fires V c node up tid s l)
  then show ?case by (simp add: execute_match)
next
  case (loses order c)
  then show ?case by (simp add: lose_match)
next
  case (registers c tid e)
  then show ?case by (simp add: register_match)
qed (simp_all add: jobs_match_def cron_Start_def OnBecomeLeader_def Pause_def Resume_def)

end

definition new_node :: "('c \<Rightarrow> nat \<Rightarrow> int option) \<Rightarrow> 'c cron_sched \<Rightarrow> bool" where
  "new_node jobs c \<longleftrightarrow> jobs (cr_lib c) = Map.empty \<and> c = NewCronScheduler (cr_lib c)"

sublocale cron_library \<subseteq> cron_jobs: transition_invariant "new_node jobs" "cron_step C R" "jobs_match jobs" for R
proof
  show "new_node jobs c \<Longrightarrow> jobs_match jobs c" for c
    by (cases c) (simp add: new_node_def NewCronScheduler_def jobs_match_def)
  show "cron_step C R c c' \<Longrightarrow> jobs_match jobs c \<Longrightarrow> jobs_match jobs c'" for c c'
    by (rule cron_step_match)
qed

context cron_library
begin

lemma reach_match: "reach (new_node jobs) (cron_step C R) c \<Longrightarrow> jobs_match jobs c"
  by (rule cron_jobs.reach_inv)

end

section \<open>Properties\<close>

text \<open>C34: Whatever comes and goes, leadership, pauses, registrations, firings, the cron library holds
  exactly one job for each task in the scheduler's map and no other; when leadership is lost none
  is left, and a job that fires on a node that does not lead does nothing.\<close>

theorem cron_jobs_exact:
  fixes R :: "'r redis"
  assumes "cron_library C jobs" "reach (new_node jobs) (cron_step C R) c"
  shows "(\<forall>i t. jobs (cr_lib c) i = Some t \<longleftrightarrow> cr_entries c t = Some i) \<and>
    (\<forall>order. set order = dom (cr_entries c) \<and> cr_leader c \<longrightarrow>
      jobs (cr_lib (OnLoseLeader C order c)) = Map.empty) \<and>
    (\<not> cr_leader c \<longrightarrow> (\<forall>(V :: 'r env) node up tid s l. executeTask C V node up tid (c, s, l) = (c, s, l)))"
proof -
  have m: "jobs_match jobs c" by (rule cron_library.reach_match [OF assms])
  then show ?thesis
    using cron_library.lose_match(2) [OF assms(1) m] by (auto simp: jobs_match_def executeTask_def)
qed

text \<open>A call of one of the three scripts for one task, by a node at a time.\<close>

datatype lock_op = Acq string instant duration | Rel string | Renew string instant duration

fun op_node :: "lock_op \<Rightarrow> string" where
  "op_node (Acq n t d) = n" | "op_node (Rel n) = n" | "op_node (Renew n t d) = n"

fun do_op :: "int \<Rightarrow> lock_op \<Rightarrow> cron_locks \<Rightarrow> cron_locks" where
  "do_op tid (Acq n t d) l = snd (acquireTaskLock n t tid d l)"
| "do_op tid (Rel n) l = releaseTaskLock n tid l"
| "do_op tid (Renew n t d) l = snd (cron_renewTaskLock n t tid d l)"

lemma do_op_foreign: "l tid = Some (a, e) \<Longrightarrow> op_node op \<noteq> a \<Longrightarrow> do_op tid op l = l"
  by (cases op) (simp_all add: acquireTaskLock_def releaseTaskLock_def cron_renewTaskLock_def)

lemma do_ops_foreign: "l tid = Some (a, e) \<Longrightarrow> \<forall>op\<in>set ops. op_node op \<noteq> a \<Longrightarrow> fold (do_op tid) ops l = l"
  by (induction ops) (simp_all add: do_op_foreign)

text \<open>A second firing on the same node shares the lock, and the first of the two to end frees it for
  other nodes.\<close>

lemma sibling_release_frees_lock:
  assumes "l tid = None"
  shows "let (g1, l1) = acquireTaskLock a t tid d l; (g2, l2) = acquireTaskLock a t' tid d l1;
             l3 = releaseTaskLock a tid l2; (g3, l4) = acquireTaskLock b t'' tid d l3
         in g1 \<and> g2 \<and> g3"
  using assms by (simp add: acquireTaskLock_def releaseTaskLock_def)

text \<open>The lock of a cron task has no time limit, although it is computed and stored: when its owner
  stops without releasing it, no other node ever gets it, however long ago the stored time has
  passed and whatever the other nodes call; and the time itself does not depend on the task's
  timeout, because the seconds are taken for nanoseconds: it is a minute, or ten minutes for a task
  without a timeout.\<close>

theorem cron_lock_never_times_out:
  assumes "l tid = Some (a, e)" "\<forall>op\<in>set ops. op_node op \<noteq> a" "b \<noteq> a" "\<bar>t_timeout t\<bar> < 2 ^ 31"
  shows "\<not> fst (acquireTaskLock b now tid (cron_lock_ttl t) (fold (do_op tid) ops l)) \<and>
    cron_lock_ttl t = (if t_timeout t = 0 then 600 * second else 60 * second)"
proof
  show "\<not> fst (acquireTaskLock b now tid (cron_lock_ttl t) (fold (do_op tid) ops l))"
    using assms(1,3) by (simp add: do_ops_foreign [where tid = tid and l = l, OF assms(1,2)] acquireTaskLock_def)
  have "t_timeout t * 2 < 60 * second" using assms(4) by (simp add: abs_less_iff)
  then show "cron_lock_ttl t = (if t_timeout t = 0 then 600 * second else 60 * second)"
    by (simp add: cron_lock_ttl_def Let_def)
qed

section \<open>The properties at concrete runs\<close>

theorem cron_jobs_exact_witness:
  "mem_jobs (cr_lib (cron_RegisterTask mem_cron 5 ''0 0 * * *'' (NewCronScheduler (0, Map.empty)))) 0 = Some 5 \<and>
   cr_entries (cron_RegisterTask mem_cron 5 ''0 0 * * *'' (NewCronScheduler (0, Map.empty))) 5 = Some 0"
proof -
  let ?c = "cron_RegisterTask mem_cron 5 ''0 0 * * *'' (NewCronScheduler (0, Map.empty))"
  have "new_node mem_jobs (NewCronScheduler (0, Map.empty))"
    by (simp add: new_node_def NewCronScheduler_def mem_jobs_def fun_eq_iff)
  then have "reach (new_node mem_jobs) (cron_step mem_cron mem_redis) ?c"
    by (rule reach_one) (rule cron_step.registers)
  note exact = cron_jobs_exact [OF mem_library.cron_library_axioms this]
  have "cr_entries ?c 5 = Some 0"
    by (simp add: cron_RegisterTask_def drop_entry_def NewCronScheduler_def add_job_def mem_cron_def field_count_def)
  then show ?thesis using exact by blast
qed

theorem cron_lock_never_times_out_witness:
  "\<not> fst (acquireTaskLock ''b'' (10 ^ 20) 5 (cron_lock_ttl demo_task)
     (fold (do_op 5) [Acq ''b'' (10 ^ 19) second, Rel ''c''] (Map.empty(5 \<mapsto> (''a'', 160)))))"
proof -
  have p: "(Map.empty(5 :: int \<mapsto> (''a'', 160 :: int))) 5 = Some (''a'', 160)"
    "\<forall>op\<in>set [Acq ''b'' (10 ^ 19) second, Rel ''c'']. op_node op \<noteq> ''a''" "''b'' \<noteq> ''a''"
    "\<bar>t_timeout demo_task\<bar> < 2 ^ 31"
    by (simp_all add: demo_task_def)
  show ?thesis
    using cron_lock_never_times_out [where now = "10 ^ 20" and l = "Map.empty(5 \<mapsto> (''a'', 160))" and tid = 5, OF p]
    by (rule conjunct1)
qed

end
