(* ===== verification/Lineage.thy ===== *)
theory Lineage
  imports Prelude "HOL-Library.Multiset"
begin

text \<open>
  The lineage of tasks (\<open>src/scheduler/internal/lineage/lineage.go\<close>): the graph of the tasks above
  and below a task in the table of dependencies, and the tasks a task has an impact on.

  Both are depth-first walks that call themselves and share one map of visited ids. The walks take
  fuel: the value \<open>None\<close> stands for a call that has not returned. The lemmas show that the number
  of the ids in the table is fuel enough, that a walk reports every task it can reach exactly once,
  with every dependency between them, and that it fails only when a task it reaches cannot be read.
\<close>

section \<open>The tables\<close>

record task_node =
  n_id :: int
  n_name :: string
  n_type :: string
  n_status :: string

record dependency =
  d_task :: int
  d_parent :: int
  d_created :: instant

datatype lineage_statement = L_get_task int | L_parents int | L_children int | L_add | L_remove

record lineage_db =
  l_tasks :: "task_node list"
  l_deps :: "dependency list"
  l_verdict :: "lineage_statement \<Rightarrow> string option"

record lineage_graph =
  g_tasks :: "task_node list"
  g_relations :: "(int \<times> int) list"  \<comment> \<open>\<open>From\<close> and \<open>To\<close>\<close>

definition getTask :: "lineage_db \<Rightarrow> int \<Rightarrow> task_node result" where
  "getTask D i =
     (case on_db (l_verdict D (L_get_task i)) (first_where (\<lambda>t. n_id t = i) (l_tasks D)) of
        Inl e \<Rightarrow> Inl (''failed to get task '' @ show_int i @ '': '' @ e)
      | Inr None \<Rightarrow> Inl (''failed to get task '' @ show_int i @ '': sql: no rows in result set'')
      | Inr (Some t) \<Rightarrow> Inr t)"

definition getParentTasks :: "lineage_db \<Rightarrow> int \<Rightarrow> int list result" where
  "getParentTasks D i = on_db (l_verdict D (L_parents i))
     (map d_parent (filter (\<lambda>d. d_task d = i) (l_deps D)))"

definition getChildTasks :: "lineage_db \<Rightarrow> int \<Rightarrow> int list result" where
  "getChildTasks D i = on_db (l_verdict D (L_children i))
     (map d_task (filter (\<lambda>d. d_parent d = i) (l_deps D)))"

text \<open>The table has a unique pair of task and parent; a second insert of the pair is an error.\<close>

definition AddDependency :: "instant \<Rightarrow> int \<Rightarrow> int \<Rightarrow> lineage_db \<Rightarrow> unit result \<times> lineage_db" where
  "AddDependency now i p D =
     (case l_verdict D L_add of
        Some e \<Rightarrow> (Inl (''failed to add dependency: '' @ e), D)
      | None \<Rightarrow>
          (if \<exists>d\<in>set (l_deps D). d_task d = i \<and> d_parent d = p
           then (Inl ''failed to add dependency: UNIQUE constraint failed'', D)
           else (Inr (), D\<lparr>l_deps := l_deps D @ [\<lparr>d_task = i, d_parent = p, d_created = now\<rparr>]\<rparr>)))"

definition RemoveDependency :: "int \<Rightarrow> int \<Rightarrow> lineage_db \<Rightarrow> unit result \<times> lineage_db" where
  "RemoveDependency i p D =
     (case l_verdict D L_remove of
        Some e \<Rightarrow> (Inl (''failed to remove dependency: '' @ e), D)
      | None \<Rightarrow> (Inr (), D\<lparr>l_deps := del_where (\<lambda>d. d_task d = i \<and> d_parent d = p) (l_deps D)\<rparr>))"

section \<open>The walks\<close>

record lineage_walk =
  w_visited :: "int list"
  w_tasks :: "task_node list"
  w_relations :: "(int \<times> int) list"

definition relatedTasks :: "lineage_db \<Rightarrow> bool \<Rightarrow> int \<Rightarrow> int list result" where
  "relatedTasks D upstream i = (if upstream then getParentTasks D i else getChildTasks D i)"

definition relation :: "bool \<Rightarrow> int \<Rightarrow> int \<Rightarrow> int \<times> int" where
  "relation upstream i related = (if upstream then (related, i) else (i, related))"

text \<open>The loop over the related tasks of \<open>i\<close>; \<open>call\<close> is the recursive call.\<close>

primrec visit_related ::
  "(int \<Rightarrow> lineage_walk \<Rightarrow> lineage_walk result option) \<Rightarrow> bool \<Rightarrow> int \<Rightarrow> int list \<Rightarrow> lineage_walk \<Rightarrow>
   lineage_walk result option" where
  "visit_related call upstream i [] w = Some (Inr w)"
| "visit_related call upstream i (j # js) w =
     (case call j (w\<lparr>w_relations := w_relations w @ [relation upstream i j]\<rparr>) of
        Some (Inr w') \<Rightarrow> visit_related call upstream i js w'
      | r \<Rightarrow> r)"

primrec buildLineage ::
  "nat \<Rightarrow> lineage_db \<Rightarrow> bool \<Rightarrow> int \<Rightarrow> lineage_walk \<Rightarrow> lineage_walk result option" where
  "buildLineage 0 D upstream i w = None"
| "buildLineage (Suc n) D upstream i w =
     (if i \<in> set (w_visited w) then Some (Inr w)
      else (case getTask D i of
              Inl e \<Rightarrow> Some (Inl e)
            | Inr t \<Rightarrow>
                (case relatedTasks D upstream i of
                   Inl e \<Rightarrow> Some (Inl e)
                 | Inr js \<Rightarrow> visit_related (buildLineage n D upstream) upstream i js
                     (w\<lparr>w_visited := w_visited w @ [i], w_tasks := w_tasks w @ [t]\<rparr>))))"

text \<open>The graph is filled by a walk upwards and then, with nothing visited, by one downwards.\<close>

definition GetTaskLineage :: "nat \<Rightarrow> lineage_db \<Rightarrow> int \<Rightarrow> lineage_graph result option" where
  "GetTaskLineage n D i =
     (case buildLineage n D True i \<lparr>w_visited = [], w_tasks = [], w_relations = []\<rparr> of
        None \<Rightarrow> None
      | Some (Inl e) \<Rightarrow> Some (Inl e)
      | Some (Inr w) \<Rightarrow>
          (case buildLineage n D False i (w\<lparr>w_visited := []\<rparr>) of
             None \<Rightarrow> None
           | Some (Inl e) \<Rightarrow> Some (Inl e)
           | Some (Inr w') \<Rightarrow> Some (Inr \<lparr>g_tasks = w_tasks w', g_relations = w_relations w'\<rparr>)))"

text \<open>The closure \<open>collectImpact\<close>; its relations stay empty.\<close>

primrec impact_related ::
  "(int \<Rightarrow> lineage_walk \<Rightarrow> lineage_walk result option) \<Rightarrow> lineage_db \<Rightarrow> int list \<Rightarrow> lineage_walk \<Rightarrow>
   lineage_walk result option" where
  "impact_related call D [] w = Some (Inr w)"
| "impact_related call D (j # js) w =
     (if j \<in> set (w_visited w) then impact_related call D js w
      else (case getTask D j of
              Inl e \<Rightarrow> Some (Inl e)
            | Inr t \<Rightarrow>
                (case call j (w\<lparr>w_tasks := w_tasks w @ [t]\<rparr>) of
                   Some (Inr w') \<Rightarrow> impact_related call D js w'
                 | r \<Rightarrow> r)))"

primrec collectImpact :: "nat \<Rightarrow> lineage_db \<Rightarrow> int \<Rightarrow> lineage_walk \<Rightarrow> lineage_walk result option" where
  "collectImpact 0 D i w = None"
| "collectImpact (Suc n) D i w =
     (if i \<in> set (w_visited w) then Some (Inr w)
      else (case getChildTasks D i of
              Inl e \<Rightarrow> Some (Inl e)
            | Inr js \<Rightarrow> impact_related (collectImpact n D) D js (w\<lparr>w_visited := w_visited w @ [i]\<rparr>)))"

definition GetTaskImpact :: "nat \<Rightarrow> lineage_db \<Rightarrow> int \<Rightarrow> task_node list result option" where
  "GetTaskImpact n D i =
     (case collectImpact n D i \<lparr>w_visited = [], w_tasks = [], w_relations = []\<rparr> of
        None \<Rightarrow> None
      | Some (Inl e) \<Rightarrow> Some (Inl e)
      | Some (Inr w) \<Rightarrow> Some (Inr (w_tasks w)))"

section \<open>What a walk visits\<close>

text \<open>
  \<open>walked r J vs new\<close>: a walk along \<open>r\<close> from the ids \<open>J\<close> that finds \<open>vs\<close> visited adds \<open>new\<close>. Nothing
  visited has an unvisited neighbour, except in the set \<open>B\<close> of ids whose neighbours some enclosing
  call is still going through.
\<close>

definition walked :: "(int \<times> int) set \<Rightarrow> int set \<Rightarrow> int list \<Rightarrow> int list \<Rightarrow> bool" where
  "walked r J vs new \<longleftrightarrow> distinct new \<and> set new \<inter> set vs = {} \<and> set new \<subseteq> r\<^sup>* `` J \<and>
     J \<subseteq> set (vs @ new) \<and>
     (\<forall>B. r `` (set vs - B) \<subseteq> set vs \<longrightarrow> r `` (set (vs @ new) - B) \<subseteq> set (vs @ new))"

lemma walked_Nil [simp]: "walked r {} vs []"
  by (simp add: walked_def)

lemma walked_seen: "i \<in> set vs \<Longrightarrow> walked r {i} vs []"
  by (simp add: walked_def)

lemma walkedD:
  assumes "walked r J vs new"
  shows "distinct new" "set new \<inter> set vs = {}" "set new \<subseteq> r\<^sup>* `` J" "J \<subseteq> set (vs @ new)"
    "r `` (set vs - B) \<subseteq> set vs \<Longrightarrow> r `` (set (vs @ new) - B) \<subseteq> set (vs @ new)"
  using assms unfolding walked_def by simp_all

lemma walked_append:
  assumes "walked r J vs new" "walked r K (vs @ new) extra"
  shows "walked r (J \<union> K) vs (new @ extra)"
  unfolding walked_def
proof (intro conjI allI impI)
  note 1 = walkedD [OF assms(1)] and 2 = walkedD [OF assms(2)]
  show "distinct (new @ extra)" "set (new @ extra) \<inter> set vs = {}"
    using 1(1,2) 2(1,2) by auto
  show "set (new @ extra) \<subseteq> r\<^sup>* `` (J \<union> K)" using 1(3) 2(3) by (simp add: Image_Un) blast
  show "J \<union> K \<subseteq> set (vs @ new @ extra)" using 1(4) 2(4) by auto
  fix B assume "r `` (set vs - B) \<subseteq> set vs"
  from 2(5) [OF 1(5) [OF this]]
  show "r `` (set (vs @ new @ extra) - B) \<subseteq> set (vs @ new @ extra)" by simp
qed

lemma walked_node:
  assumes "i \<notin> set vs" "walked r (r `` {i}) (vs @ [i]) new"
  shows "walked r {i} vs (i # new)"
  unfolding walked_def
proof (intro conjI allI impI)
  note new = walkedD [OF assms(2)]
  show "distinct (i # new)" "set (i # new) \<inter> set vs = {}" "{i} \<subseteq> set (vs @ i # new)"
    using new(1,2) assms(1) by auto
  have "r\<^sup>* `` (r `` {i}) \<subseteq> r\<^sup>* `` {i}" by (auto intro: converse_rtrancl_into_rtrancl)
  then show "set (i # new) \<subseteq> r\<^sup>* `` {i}" using new(3) by auto
  fix B assume "r `` (set vs - B) \<subseteq> set vs"
  then have "r `` (set (vs @ [i]) - insert i B) \<subseteq> set (vs @ [i])" by auto
  from new(5) [OF this] new(4)
  show "r `` (set (vs @ i # new) - B) \<subseteq> set (vs @ i # new)" by auto
qed

lemma walked_root:
  assumes "walked r {i} [] new"
  shows "distinct new" "set new = r\<^sup>* `` {i}"
proof -
  have "r `` set new \<subseteq> set new" "i \<in> set new" "set new \<subseteq> r\<^sup>* `` {i}"
    using walkedD(3,4) [OF assms] walkedD(5) [OF assms, of "{}"] by simp_all
  moreover have "r\<^sup>* `` {i} \<subseteq> set new"
  proof
    fix y assume "y \<in> r\<^sup>* `` {i}"
    then have "(i, y) \<in> r\<^sup>*" by simp
    then show "y \<in> set new" using calculation by (induction rule: rtrancl_induct) auto
  qed
  ultimately show "set new = r\<^sup>* `` {i}" by blast
  show "distinct new" using walkedD(1) [OF assms] .
qed

text \<open>The relation walked along, and the dependencies that leave an id in that direction.\<close>

definition deps_from :: "lineage_db \<Rightarrow> bool \<Rightarrow> int \<Rightarrow> dependency list" where
  "deps_from D upstream i = filter (\<lambda>d. (if upstream then d_task d else d_parent d) = i) (l_deps D)"

definition edge :: "dependency \<Rightarrow> int \<times> int" where
  "edge d = (d_parent d, d_task d)"

definition above :: "lineage_db \<Rightarrow> (int \<times> int) set" where
  "above D = {(d_task d, d_parent d) |d. d \<in> set (l_deps D)}"

definition direction :: "lineage_db \<Rightarrow> bool \<Rightarrow> (int \<times> int) set" where
  "direction D upstream = (if upstream then above D else (above D)\<inverse>)"

lemma relatedTasks_deps:
  assumes "relatedTasks D up i = Inr js"
  shows "map (relation up i) js = map edge (deps_from D up i)" "set js = direction D up `` {i}"
  using assms
  by (auto simp: relatedTasks_def getParentTasks_def getChildTasks_def deps_from_def edge_def
      relation_def direction_def above_def image_iff split: if_splits)

lemma getTask_id: "getTask D i = Inr t \<Longrightarrow> n_id t = i"
  by (auto simp: getTask_def on_db_def dest: first_where_Some split: option.splits)

definition edges_of :: "lineage_db \<Rightarrow> bool \<Rightarrow> int list \<Rightarrow> (int \<times> int) list" where
  "edges_of D up is = concat (map (\<lambda>i. map edge (deps_from D up i)) is)"

lemma edges_of_simps [simp]:
  "edges_of D up [] = []"
  "edges_of D up (i # is) = map edge (deps_from D up i) @ edges_of D up is"
  "edges_of D up (is @ js) = edges_of D up is @ edges_of D up js"
  by (simp_all add: edges_of_def)

text \<open>The effect of a successful call: the visited ids, the tasks read and the relations found.\<close>

definition readable :: "lineage_db \<Rightarrow> bool \<Rightarrow> int \<Rightarrow> bool" where
  "readable D up i \<longleftrightarrow> (\<exists>t. getTask D i = Inr t) \<and> (\<exists>js. relatedTasks D up i = Inr js)"

definition adds ::
  "lineage_db \<Rightarrow> bool \<Rightarrow> lineage_walk \<Rightarrow> (int \<times> int) list \<Rightarrow> int list \<Rightarrow> lineage_walk \<Rightarrow> bool" where
  "adds D up w es new w' \<longleftrightarrow>
     w_visited w' = w_visited w @ new \<and> map n_id (w_tasks w') = map n_id (w_tasks w) @ new \<and>
     mset (w_relations w') = mset (w_relations w) + mset es + mset (edges_of D up new) \<and>
     list_all (readable D up) new"

lemma adds_trans:
  "adds D up w es new w' \<Longrightarrow> adds D up w' fs extra w'' \<Longrightarrow> adds D up w (es @ fs) (new @ extra) w''"
  by (auto simp: adds_def)

lemma visit_related_adds:
  assumes "\<And>j w w'. call j w = Some (Inr w') \<Longrightarrow>
      \<exists>new. adds D up w [] new w' \<and> walked r {j} (w_visited w) new"
    and "visit_related call up i js w = Some (Inr w')"
  shows "\<exists>new. adds D up w (map (relation up i) js) new w' \<and> walked r (set js) (w_visited w) new"
  using assms(2)
proof (induction js arbitrary: w)
  case Nil
  then show ?case by (intro exI [of _ "[]"]) (simp add: adds_def)
next
  case (Cons j js)
  let ?w = "w\<lparr>w_relations := w_relations w @ [relation up i j]\<rparr>"
  obtain w1 where 1: "call j ?w = Some (Inr w1)" "visit_related call up i js w1 = Some (Inr w')"
    using Cons.prems by (auto split: option.splits sum.splits)
  obtain new where new: "adds D up ?w [] new w1" "walked r {j} (w_visited w) new"
    using assms(1) [OF 1(1)] by auto
  obtain extra where extra: "adds D up w1 (map (relation up i) js) extra w'" "walked r (set js) (w_visited w1) extra"
    using Cons.IH [OF 1(2)] by auto
  have "adds D up w [relation up i j] new w1" using new(1) by (simp add: adds_def)
  from adds_trans [OF this extra(1)] walked_append [OF new(2), of "set js" extra] extra(2) new(1)
  show ?case by (intro exI [of _ "new @ extra"]) (simp add: adds_def)
qed

lemma buildLineage_adds:
  "buildLineage n D up i w = Some (Inr w') \<Longrightarrow>
   \<exists>new. adds D up w [] new w' \<and> walked (direction D up) {i} (w_visited w) new"
proof (induction n arbitrary: i w w')
  case 0
  then show ?case by simp
next
  case (Suc n)
  show ?case
  proof (cases "i \<in> set (w_visited w)")
    case True
    with Suc.prems show ?thesis by (intro exI [of _ "[]"]) (simp add: adds_def walked_seen)
  next
    case False
    with Suc.prems obtain t js where t: "getTask D i = Inr t" and js: "relatedTasks D up i = Inr js"
      and run: "visit_related (buildLineage n D up) up i js
        (w\<lparr>w_visited := w_visited w @ [i], w_tasks := w_tasks w @ [t]\<rparr>) = Some (Inr w')"
      by (auto split: sum.splits)
    obtain new where new: "adds D up (w\<lparr>w_visited := w_visited w @ [i], w_tasks := w_tasks w @ [t]\<rparr>)
          (map (relation up i) js) new w'"
        "walked (direction D up) (set js) (w_visited w @ [i]) new"
      using visit_related_adds [OF Suc.IH run] by auto
    have "adds D up w [] (i # new) w'"
      using new(1) relatedTasks_deps(1) [OF js] getTask_id [OF t] t js by (auto simp: adds_def readable_def)
    moreover have "walked (direction D up) {i} (w_visited w) (i # new)"
      using walked_node [OF False] new(2) relatedTasks_deps(2) [OF js] by simp
    ultimately show ?thesis by blast
  qed
qed

text \<open>The same for the walk of \<open>GetTaskImpact\<close>, which lists a task before it calls itself on it.\<close>

definition impacts :: "lineage_db \<Rightarrow> int set \<Rightarrow> lineage_walk \<Rightarrow> int list \<Rightarrow> lineage_walk \<Rightarrow> bool" where
  "impacts D J w new w' \<longleftrightarrow> w_visited w' = w_visited w @ new \<and>
     walked (direction D False) J (w_visited w) new"

lemma impact_related_adds:
  assumes "\<And>j w w'. call j w = Some (Inr w') \<Longrightarrow> j \<notin> set (w_visited w) \<Longrightarrow>
      \<exists>new. impacts D {j} w (j # new) w' \<and> map n_id (w_tasks w') = map n_id (w_tasks w) @ new"
    and "impact_related call D js w = Some (Inr w')"
  shows "\<exists>new. impacts D (set js) w new w' \<and> map n_id (w_tasks w') = map n_id (w_tasks w) @ new"
  using assms(2)
proof (induction js arbitrary: w)
  case Nil
  then show ?case by (intro exI [of _ "[]"]) (simp add: impacts_def)
next
  case (Cons j js)
  show ?case
  proof (cases "j \<in> set (w_visited w)")
    case True
    with Cons obtain new where "impacts D (set js) w new w'"
        "map n_id (w_tasks w') = map n_id (w_tasks w) @ new"
      by auto
    moreover from this have "impacts D (set (j # js)) w new w'"
      using walked_append [OF walked_seen [OF True], of _ "set js" new] by (simp add: impacts_def)
    ultimately show ?thesis by blast
  next
    case False
    with Cons.prems obtain t w1 where 1: "getTask D j = Inr t"
        "call j (w\<lparr>w_tasks := w_tasks w @ [t]\<rparr>) = Some (Inr w1)" "impact_related call D js w1 = Some (Inr w')"
      by (auto split: option.splits sum.splits)
    obtain new where new: "impacts D {j} w (j # new) w1" "map n_id (w_tasks w1) = map n_id (w_tasks w) @ j # new"
      using assms(1) [OF 1(2)] False getTask_id [OF 1(1)] by (auto simp: impacts_def)
    obtain extra where extra: "impacts D (set js) w1 extra w'"
        "map n_id (w_tasks w') = map n_id (w_tasks w1) @ extra"
      using Cons.IH [OF 1(3)] by blast
    have "impacts D (set (j # js)) w ((j # new) @ extra) w'"
      using walked_append [of _ "{j}" _ "j # new" "set js" extra] new(1) extra(1) by (simp add: impacts_def)
    then show ?thesis using new(2) extra(2) by (intro exI [of _ "(j # new) @ extra"]) simp
  qed
qed

lemma collectImpact_adds:
  "collectImpact n D i w = Some (Inr w') \<Longrightarrow> i \<notin> set (w_visited w) \<Longrightarrow>
   \<exists>new. impacts D {i} w (i # new) w' \<and> map n_id (w_tasks w') = map n_id (w_tasks w) @ new"
proof (induction n arbitrary: i w w')
  case 0
  then show ?case by simp
next
  case (Suc n)
  then obtain js where js: "getChildTasks D i = Inr js"
    and run: "impact_related (collectImpact n D) D js (w\<lparr>w_visited := w_visited w @ [i]\<rparr>) = Some (Inr w')"
    by (auto split: sum.splits)
  obtain new where new: "impacts D (set js) (w\<lparr>w_visited := w_visited w @ [i]\<rparr>) new w'"
      "map n_id (w_tasks w') = map n_id (w_tasks w) @ new"
    using impact_related_adds [OF Suc.IH run] by auto
  have "impacts D {i} w (i # new) w'"
    using new(1) walked_node [OF Suc.prems(2), of _ new] relatedTasks_deps(2) [of D False i js] js
    by (simp add: impacts_def relatedTasks_def)
  then show ?case using new(2) by blast
qed

section \<open>The walks return\<close>

definition ids_of :: "lineage_db \<Rightarrow> int set" where
  "ids_of D = d_task ` set (l_deps D) \<union> d_parent ` set (l_deps D)"

lemma related_ids: "relatedTasks D up i = Inr js \<Longrightarrow> set js \<subseteq> ids_of D"
  by (auto simp: relatedTasks_def getParentTasks_def getChildTasks_def ids_of_def split: if_splits)

lemma card_ids: "card (insert i (ids_of D)) \<le> 2 * length (l_deps D) + 1"
proof -
  have "card (f ` set (l_deps D)) \<le> length (l_deps D)" for f :: "dependency \<Rightarrow> int"
    by (meson card_image_le card_length finite_set le_trans)
  then have "card (ids_of D) \<le> length (l_deps D) + length (l_deps D)"
    unfolding ids_of_def by (meson add_mono card_Un_le le_trans)
  moreover have "finite (ids_of D)" by (simp add: ids_of_def)
  ultimately show ?thesis by (simp add: card_insert_if)
qed

lemma fewer_left:
  "finite N \<Longrightarrow> set vs \<subseteq> set ws \<Longrightarrow> card (N - set vs) < n \<Longrightarrow> card (N - set ws) < n"
  by (rule le_less_trans [OF card_mono]) auto

lemma one_fewer:
  "finite N \<Longrightarrow> i \<in> N \<Longrightarrow> i \<notin> set vs \<Longrightarrow> card (N - set vs) < Suc n \<Longrightarrow> card (N - set (vs @ [i])) < n"
  by (rule less_le_trans [OF psubset_card_mono [where B = "N - set vs"]]) auto

lemma visit_related_returns:
  assumes "finite N" "\<And>j w. j \<in> N \<Longrightarrow> card (N - set (w_visited w)) < n \<Longrightarrow> call j w \<noteq> None"
    and "\<And>j w w'. call j w = Some (Inr w') \<Longrightarrow> set (w_visited w) \<subseteq> set (w_visited w')"
    and "set js \<subseteq> N" "card (N - set (w_visited w)) < n"
  shows "visit_related call up i js w \<noteq> None"
  using assms(4,5)
proof (induction js arbitrary: w)
  case (Cons j js)
  let ?w = "w\<lparr>w_relations := w_relations w @ [relation up i j]\<rparr>"
  have "call j ?w \<noteq> None" using assms(2) Cons.prems by simp
  moreover have "visit_related call up i js w1 \<noteq> None" if "call j ?w = Some (Inr w1)" for w1
    using Cons fewer_left [OF assms(1) _ Cons.prems(2)] assms(3) [OF that] by simp
  ultimately show ?case by (auto split: sum.splits)
qed simp

lemma impact_related_returns:
  assumes "finite N" "\<And>j w. j \<in> N \<Longrightarrow> card (N - set (w_visited w)) < n \<Longrightarrow> call j w \<noteq> None"
    and "\<And>j w w'. call j w = Some (Inr w') \<Longrightarrow> j \<notin> set (w_visited w) \<Longrightarrow>
      set (w_visited w) \<subseteq> set (w_visited w')"
    and "set js \<subseteq> N" "card (N - set (w_visited w)) < n"
  shows "impact_related call D js w \<noteq> None"
  using assms(4,5)
proof (induction js arbitrary: w)
  case (Cons j js)
  show ?case
  proof (cases "j \<in> set (w_visited w)")
    case False
    have some: "call j (w\<lparr>w_tasks := w_tasks w @ [t]\<rparr>) \<noteq> None" for t using assms(2) Cons.prems by simp
    have rest: "impact_related call D js w1 \<noteq> None"
      if "call j (w\<lparr>w_tasks := w_tasks w @ [t]\<rparr>) = Some (Inr w1)" for t w1
      using Cons fewer_left [OF assms(1) _ Cons.prems(2)] assms(3) [OF that] False by simp
    have "(case call j (w\<lparr>w_tasks := w_tasks w @ [t]\<rparr>) of
        Some (Inr w') \<Rightarrow> impact_related call D js w' | r \<Rightarrow> r) \<noteq> None" for t
      using some [of t] rest [of t]
      by (cases "call j (w\<lparr>w_tasks := w_tasks w @ [t]\<rparr>)") (auto split: sum.splits)
    then show ?thesis using False by (auto split: sum.splits)
  qed (use Cons in simp)
qed simp

lemma buildLineage_returns:
  "finite N \<Longrightarrow> ids_of D \<subseteq> N \<Longrightarrow> i \<in> N \<Longrightarrow> card (N - set (w_visited w)) < n \<Longrightarrow>
   buildLineage n D up i w \<noteq> None"
proof (induction n arbitrary: i w)
  case (Suc n)
  have "visit_related (buildLineage n D up) up i js
      (w\<lparr>w_visited := w_visited w @ [i], w_tasks := w_tasks w @ [t]\<rparr>) \<noteq> None"
    if "i \<notin> set (w_visited w)" "relatedTasks D up i = Inr js" for js t
    using Suc related_ids [OF that(2)] one_fewer [OF Suc.prems(1,3) that(1) Suc.prems(4)]
    by (intro visit_related_returns [where N = N and n = n]) (auto dest!: buildLineage_adds simp: adds_def)
  then show ?case by (auto split: sum.splits)
qed simp

lemma collectImpact_returns:
  "finite N \<Longrightarrow> ids_of D \<subseteq> N \<Longrightarrow> i \<in> N \<Longrightarrow> card (N - set (w_visited w)) < n \<Longrightarrow>
   collectImpact n D i w \<noteq> None"
proof (induction n arbitrary: i w)
  case (Suc n)
  have "impact_related (collectImpact n D) D js (w\<lparr>w_visited := w_visited w @ [i]\<rparr>) \<noteq> None"
    if "i \<notin> set (w_visited w)" "getChildTasks D i = Inr js" for js
    using Suc related_ids [of D False i js] that one_fewer [OF Suc.prems(1,3) that(1) Suc.prems(4)]
    by (intro impact_related_returns [where N = N and n = n])
       (auto dest!: collectImpact_adds simp: impacts_def relatedTasks_def)
  then show ?case by (auto split: sum.splits)
qed simp

section \<open>When a walk fails\<close>

lemma visit_related_fails:
  assumes "\<And>j w. j \<in> set js \<Longrightarrow> call j w \<noteq> Some (Inl e)"
  shows "visit_related call up i js w \<noteq> Some (Inl e)"
  using assms
proof (induction js arbitrary: w)
  case (Cons j js)
  have "call j (w\<lparr>w_relations := w_relations w @ [relation up i j]\<rparr>) \<noteq> Some (Inl e)"
    using Cons.prems by simp
  moreover have "visit_related call up i js w' \<noteq> Some (Inl e)" for w' using Cons by simp
  ultimately show ?case by (auto split: option.splits sum.splits)
qed simp

lemma buildLineage_fails:
  "(\<And>j. j \<in> P \<Longrightarrow> readable D up j) \<Longrightarrow> direction D up `` P \<subseteq> P \<Longrightarrow> i \<in> P \<Longrightarrow>
   buildLineage n D up i w \<noteq> Some (Inl e)"
proof (induction n arbitrary: i w)
  case (Suc n)
  obtain t js where t: "getTask D i = Inr t" and js: "relatedTasks D up i = Inr js"
    using Suc.prems(1) [OF Suc.prems(3)] unfolding readable_def by blast
  have "buildLineage n D up j w' \<noteq> Some (Inl e)" if "j \<in> set js" for j w'
    using Suc.IH [OF Suc.prems(1,2)] Suc.prems(2,3) that relatedTasks_deps(2) [OF js] by blast
  with visit_related_fails [where up = up and i = i] show ?case by (simp add: t js)
qed simp

definition all_readable :: "lineage_db \<Rightarrow> bool \<Rightarrow> int \<Rightarrow> bool" where
  "all_readable D up i \<longleftrightarrow> (direction D up)\<^sup>* `` {i} \<subseteq> Collect (readable D up)"

lemma walk_succeeds_iff:
  assumes "2 * length (l_deps D) + 1 < n" "w_visited w = []"
  shows "(\<exists>w'. buildLineage n D up i w = Some (Inr w')) \<longleftrightarrow> all_readable D up i"
proof
  assume "\<exists>w'. buildLineage n D up i w = Some (Inr w')"
  then show "all_readable D up i"
    using assms(2) by (auto dest!: buildLineage_adds walked_root(2)
        simp: adds_def list_all_iff all_readable_def)
next
  assume all: "all_readable D up i"
  have "buildLineage n D up i w \<noteq> None"
    using assms le_less_trans [OF card_ids assms(1)]
    by (intro buildLineage_returns [where N = "insert i (ids_of D)"]) (auto simp: ids_of_def)
  moreover have "buildLineage n D up i w \<noteq> Some (Inl e)" for e
  proof (rule buildLineage_fails [where P = "(direction D up)\<^sup>* `` {i}"])
    show "direction D up `` ((direction D up)\<^sup>* `` {i}) \<subseteq> (direction D up)\<^sup>* `` {i}"
      by (auto intro: rtrancl_into_rtrancl)
  qed (use all in \<open>auto simp: all_readable_def\<close>)
  ultimately show "\<exists>w'. buildLineage n D up i w = Some (Inr w')"
    by (metis not_None_eq sum.exhaust)
qed

section \<open>Properties\<close>

text \<open>Both walks return, also on a cyclic table: fuel beyond twice the number of dependencies
  is never used up. The lineage is then delivered exactly when every task it reaches exists and the
  statements on it succeed, and is an error otherwise.\<close>

theorem lineage_returns:
  assumes "2 * length (l_deps D) + 1 < n"
  shows "\<exists>lineage impact. GetTaskLineage n D i = Some lineage \<and> GetTaskImpact n D i = Some impact \<and>
    ((\<exists>g. lineage = Inr g) \<longleftrightarrow> all_readable D True i \<and> all_readable D False i)"
proof -
  let ?w = "\<lparr>w_visited = [], w_tasks = [], w_relations = []\<rparr> :: lineage_walk"
  have fuel: "card (insert i (ids_of D) - set vs) < n" for vs
    using le_less_trans [OF card_mono [of "insert i (ids_of D)"]] le_less_trans [OF card_ids assms]
    by (auto simp: ids_of_def)
  note returns = buildLineage_returns [OF _ _ _ fuel] collectImpact_returns [OF _ _ _ fuel]
  have "finite (insert i (ids_of D))" by (simp add: ids_of_def)
  then have some: "buildLineage n D up i w \<noteq> None" "collectImpact n D i w \<noteq> None" for up w
    using returns by blast+
  have ok: "all_readable D up i \<longleftrightarrow> (\<exists>w'. buildLineage n D up i w = Some (Inr w'))"
    if "w_visited w = []" for up w
    using walk_succeeds_iff [OF assms that] by simp
  have "GetTaskImpact n D i \<noteq> None"
    using some(2) [of ?w] by (auto simp: GetTaskImpact_def split: sum.splits)
  moreover have "\<exists>r. GetTaskLineage n D i = Some r \<and>
      ((\<exists>g. r = Inr g) \<longleftrightarrow> all_readable D True i \<and> all_readable D False i)"
  proof (cases "buildLineage n D True i ?w")
    case (Some r)
    show ?thesis
    proof (cases r)
      case (Inl e)
      then show ?thesis using Some ok [of ?w True] by (simp add: GetTaskLineage_def)
    next
      case (Inr w)
      let ?v = "w\<lparr>w_visited := []\<rparr>"
      show ?thesis
        using Some Inr some(1) [of False ?v] ok [of ?w True] ok [of ?v False]
        by (cases "buildLineage n D False i ?v") (auto simp: GetTaskLineage_def split: sum.splits)
    qed
  qed (use some(1) in simp)
  ultimately show ?thesis by auto
qed

text \<open>A delivered lineage lists the task and everything above it, each once, then the task again
  and everything below it, each once; its relations are the dependencies of the first group on
  their parents and of the second group on their children. The impact of a task is everything
  below it, each once, and never the task itself, even on a cycle.\<close>

theorem lineage_is_exact:
  assumes "GetTaskLineage n D i = Some (Inr g)" "GetTaskImpact m D i = Some (Inr ts)"
  shows "(\<exists>ups downs. map n_id (g_tasks g) = ups @ downs \<and>
      distinct ups \<and> set ups = (above D)\<^sup>* `` {i} \<and> distinct downs \<and> set downs = ((above D)\<inverse>)\<^sup>* `` {i} \<and>
      mset (g_relations g) = mset (edges_of D True ups) + mset (edges_of D False downs)) \<and>
    distinct (map n_id ts) \<and> set (map n_id ts) = ((above D)\<inverse>)\<^sup>* `` {i} - {i}"
    (is "?lineage \<and> ?impact")
proof
  show ?lineage
  proof -
    obtain w w' where w: "buildLineage n D True i \<lparr>w_visited = [], w_tasks = [], w_relations = []\<rparr> = Some (Inr w)"
        "buildLineage n D False i (w\<lparr>w_visited := []\<rparr>) = Some (Inr w')"
      and g: "g = \<lparr>g_tasks = w_tasks w', g_relations = w_relations w'\<rparr>"
      using assms(1) by (auto simp: GetTaskLineage_def split: option.splits sum.splits)
    obtain ups where ups: "map n_id (w_tasks w) = ups" "mset (w_relations w) = mset (edges_of D True ups)"
        "walked (above D) {i} [] ups"
      using buildLineage_adds [OF w(1)] by (auto simp: adds_def direction_def)
    obtain downs where "map n_id (w_tasks w') = ups @ downs"
        "mset (w_relations w') = mset (w_relations w) + mset (edges_of D False downs)"
        "walked ((above D)\<inverse>) {i} [] downs"
      using buildLineage_adds [OF w(2)] ups(1) by (auto simp: adds_def direction_def)
    then show ?thesis
      using ups walked_root [OF ups(3)] walked_root [of "(above D)\<inverse>" i downs] unfolding g
      by (intro exI [of _ ups] exI [of _ downs]) simp
  qed
  obtain w'' where "collectImpact m D i \<lparr>w_visited = [], w_tasks = [], w_relations = []\<rparr> = Some (Inr w'')"
      "ts = w_tasks w''"
    using assms(2) by (auto simp: GetTaskImpact_def split: option.splits sum.splits)
  then obtain new where "walked ((above D)\<inverse>) {i} [] (i # new)" "map n_id ts = new"
    by (auto dest!: collectImpact_adds simp: impacts_def direction_def)
  then show ?impact using walked_root [of "(above D)\<inverse>" i "i # new"] by auto
qed

section \<open>The properties at concrete tables\<close>

definition node_of :: "int \<Rightarrow> task_node" where
  "node_of i = \<lparr>n_id = i, n_name = ''t'', n_type = ''http'', n_status = ''pending''\<rparr>"

text \<open>A cycle of two tasks and a third task below it.\<close>

definition demo_lineage :: lineage_db where
  "demo_lineage = \<lparr>l_tasks = map node_of [1, 2, 3],
     l_deps = [\<lparr>d_task = 2, d_parent = 1, d_created = 0\<rparr>, \<lparr>d_task = 1, d_parent = 2, d_created = 0\<rparr>,
               \<lparr>d_task = 3, d_parent = 2, d_created = 0\<rparr>],
     l_verdict = \<lambda>s. None\<rparr>"

lemma demo_lineage_runs:
  "GetTaskLineage 8 demo_lineage 3 = Some (Inr \<lparr>g_tasks = map node_of [3, 2, 1, 3],
     g_relations = [(2, 3), (1, 2), (2, 1)]\<rparr>)"
  "GetTaskImpact 8 demo_lineage 1 = Some (Inr (map node_of [2, 3]))"
  "GetTaskImpact 8 demo_lineage 3 = Some (Inr [])"
  by (simp_all add: GetTaskLineage_def GetTaskImpact_def demo_lineage_def node_of_def eval_nat_numeral
      getTask_def relatedTasks_def getParentTasks_def getChildTasks_def relation_def)

theorem lineage_returns_witness:
  "\<exists>r s. GetTaskLineage 8 demo_lineage 3 = Some r \<and> GetTaskImpact 8 demo_lineage 3 = Some s"
  using lineage_returns [of demo_lineage 8 3] by (auto simp: demo_lineage_def)

theorem lineage_is_exact_witness:
  "((above demo_lineage)\<inverse>)\<^sup>* `` {3} = {3}"
  using lineage_is_exact [OF demo_lineage_runs(1,3)] by auto

end
