(* ===== verification/Go_Strings.thy ===== *)
theory Go_Strings
  imports Prelude "HOL-Library.Sublist"
begin

text \<open>
  The parts of Go's packages \<open>strings\<close>, \<open>strconv\<close> and \<open>regexp\<close> that the query code uses, on ASCII
  texts: trimming, splitting, upper case, decimal parsing, and a matcher for regular expressions
  whose repetitions are of single characters. The matcher returns all ends of a match in the order
  in which a leftmost-first engine prefers them, so that the first one is Go's match.
\<close>

section \<open>Characters\<close>

text \<open>\<open>unicode.IsSpace\<close>, and the class \<open>\s\<close> of regular expressions, which lacks the vertical tab.\<close>

definition code :: "char \<Rightarrow> nat" where "code c = of_char c"

definition is_space :: "char \<Rightarrow> bool" where
  "is_space c \<longleftrightarrow> code c \<in> set [9, 10, 11, 12, 13, 32]"

definition rx_space :: "char \<Rightarrow> bool" where
  "rx_space c \<longleftrightarrow> code c \<in> set [9, 10, 12, 13, 32]"

definition digit :: "char \<Rightarrow> bool" where
  "digit c \<longleftrightarrow> 48 \<le> code c \<and> code c \<le> 57"

definition up_char :: "char \<Rightarrow> char" where
  "up_char c = (if 97 \<le> code c \<and> code c \<le> 122 then char_of (code c - 32) else c)"

definition low_char :: "char \<Rightarrow> char" where
  "low_char c = (if 65 \<le> code c \<and> code c \<le> 90 then char_of (code c + 32) else c)"

lemma code_char [simp]: "n < 256 \<Longrightarrow> code (char_of n) = n"
  by (simp add: code_def of_char_of)

lemma code_inj: "code c = code d \<longleftrightarrow> c = d"
  by (simp add: code_def)

section \<open>strings\<close>

definition ToUpper :: "string \<Rightarrow> string" where "ToUpper s = map up_char s"
definition ToLower :: "string \<Rightarrow> string" where "ToLower s = map low_char s"

definition HasPrefix :: "string \<Rightarrow> string \<Rightarrow> bool" where "HasPrefix s p \<longleftrightarrow> prefix p s"
definition Contains :: "string \<Rightarrow> string \<Rightarrow> bool" where "Contains s t \<longleftrightarrow> sublist t s"

definition trim_left :: "string \<Rightarrow> string" where "trim_left s = dropWhile is_space s"
definition TrimSpace :: "string \<Rightarrow> string" where "TrimSpace s = rev (trim_left (rev (trim_left s)))"

definition TrimSuffix :: "string \<Rightarrow> string \<Rightarrow> string" where
  "TrimSuffix s p = (if suffix p s then take (length s - length p) s else s)"

fun Split :: "char \<Rightarrow> string \<Rightarrow> string list" where
  "Split d [] = [[]]"
| "Split d (c # cs) = (if c = d then [] # Split d cs
     else (case Split d cs of [] \<Rightarrow> [[c]] | w # ws \<Rightarrow> (c # w) # ws))"

lemma Split_not_Nil [simp]: "Split d s \<noteq> []"
  by (induction s) (auto split: list.splits)

lemma Split_none: "d \<notin> set s \<Longrightarrow> Split d s = [s]"
  by (induction s) auto

lemma Split_at: "d \<notin> set s \<Longrightarrow> Split d (s @ d # t) = s # Split d t"
  by (induction s) auto

definition join :: "char \<Rightarrow> string list \<Rightarrow> string" where
  "join d ws = (case ws of [] \<Rightarrow> [] | w # ws \<Rightarrow> w @ concat (map (\<lambda>v. d # v) ws))"

lemma join_Split: "join d (Split d s) = s"
  by (induction s) (auto simp: join_def split: list.splits)

lemma HasPrefix_append [simp]: "HasPrefix (p @ s) p"
  by (simp add: HasPrefix_def)

lemma ToUpper_simps [simp]:
  "ToUpper [] = []" "ToUpper (c # s) = up_char c # ToUpper s" "ToUpper (s @ t) = ToUpper s @ ToUpper t"
  by (simp_all add: ToUpper_def)

lemma trim_left_Cons: "\<not> is_space c \<Longrightarrow> trim_left (c # s) = c # s"
  by (simp add: trim_left_def)

text \<open>A text is trimmed when neither end is a space.\<close>

definition trimmed :: "string \<Rightarrow> bool" where
  "trimmed s \<longleftrightarrow> s \<noteq> [] \<and> \<not> is_space (hd s) \<and> \<not> is_space (last s)"

lemma dropWhile_hd: "s \<noteq> [] \<Longrightarrow> \<not> P (hd s) \<Longrightarrow> dropWhile P s = s"
  by (cases s) auto

lemma TrimSpace_trimmed: "trimmed s \<Longrightarrow> TrimSpace s = s"
  by (simp add: trimmed_def TrimSpace_def trim_left_def dropWhile_hd hd_rev)

section \<open>strconv\<close>

text \<open>\<open>Atoi\<close> of a text of digits: an error beyond 64 bits.\<close>

definition Atoi :: "string \<Rightarrow> int result" where
  "Atoi s = (if int (read_nat s) < 2 ^ 63 then Inr (int (read_nat s)) else Inl ''value out of range'')"

section \<open>regexp\<close>

datatype rx =
    Cls "char \<Rightarrow> bool"      \<comment> \<open>one character\<close>
  | Many "char \<Rightarrow> bool"     \<comment> \<open>as many characters as possible: \<open>C*\<close>\<close>
  | Cat rx rx
  | Opt rx                  \<comment> \<open>\<open>(?:r)?\<close>\<close>
  | Word_End                \<comment> \<open>\<open>\b\<close> after a word character\<close>

definition word_char :: "char \<Rightarrow> bool" where
  "word_char c \<longleftrightarrow> digit c \<or> code c = 95 \<or> 65 \<le> code c \<and> code c \<le> 90 \<or> 97 \<le> code c \<and> code c \<le> 122"

text \<open>The rests of the text after a match, the preferred one first.\<close>

primrec rests :: "(char \<Rightarrow> bool) \<Rightarrow> string \<Rightarrow> string list" where
  "rests P [] = [[]]"
| "rests P (c # s) = (if P c then rests P s @ [c # s] else [c # s])"

primrec ends :: "rx \<Rightarrow> string \<Rightarrow> string list" where
  "ends (Cls P) s = (case s of [] \<Rightarrow> [] | c # s \<Rightarrow> if P c then [s] else [])"
| "ends (Many P) s = rests P s"
| "ends (Cat r q) s = concat (map (ends q) (ends r s))"
| "ends (Opt r) s = ends r s @ [s]"
| "ends Word_End s = (case s of [] \<Rightarrow> [s] | c # _ \<Rightarrow> if word_char c then [] else [s])"

definition some_of :: "(char \<Rightarrow> bool) \<Rightarrow> rx" where "some_of P = Cat (Cls P) (Many P)"  \<comment> \<open>\<open>C+\<close>\<close>

primrec word :: "(char \<Rightarrow> char) \<Rightarrow> string \<Rightarrow> rx" where
  "word f [] = Many (\<lambda>c. False)"
| "word f (c # s) = Cat (Cls (\<lambda>d. f d = c)) (word f s)"

lemma rests_not_Nil [simp]: "rests P s \<noteq> []"
  by (induction s) auto

lemma rests_suffix: "t \<in> set (rests P s) \<Longrightarrow> suffix t s"
  by (induction s) (auto intro: suffix_ConsI split: if_splits)

lemma ends_suffix: "t \<in> set (ends r s) \<Longrightarrow> suffix t s"
proof (induction r arbitrary: s t)
  case (Cat r q)
  then show ?case by (fastforce intro: suffix_order.trans)
qed (auto dest: rests_suffix intro: suffix_ConsI split: list.splits if_splits)

text \<open>\<open>MatchString\<close>: the expression matches somewhere.\<close>

fun matches :: "rx \<Rightarrow> string \<Rightarrow> bool" where
  "matches r [] = (ends r [] \<noteq> [])"
| "matches r (c # s) = (ends r (c # s) \<noteq> [] \<or> matches r s)"

text \<open>The rest of the text after the leftmost match.\<close>

fun after_match :: "rx \<Rightarrow> string \<Rightarrow> string option" where
  "after_match r [] = (case ends r [] of [] \<Rightarrow> None | t # _ \<Rightarrow> Some t)"
| "after_match r (c # s) = (case ends r (c # s) of [] \<Rightarrow> after_match r s | t # _ \<Rightarrow> Some t)"

text \<open>\<open>ReplaceAllString\<close> for an expression that matches no empty text, and a replacement without
  references to groups.\<close>

function replace_all :: "rx \<Rightarrow> string \<Rightarrow> string \<Rightarrow> string" where
  "replace_all r new [] = []"
| "replace_all r new (c # s) =
     (case ends r (c # s) of
        t # _ \<Rightarrow> if length t \<le> length s then new @ replace_all r new t else c # replace_all r new s
      | [] \<Rightarrow> c # replace_all r new s)"
  by pat_completeness auto

termination replace_all
  by (relation "measure (\<lambda>(r, new, s). length s)") auto

lemma matches_iff: "matches r s \<longleftrightarrow> after_match r s \<noteq> None"
  by (induction s) (auto split: list.splits)

lemma replace_all_none: "\<not> matches r s \<Longrightarrow> replace_all r new s = s"
proof (induction s)
  case (Cons c s)
  then show ?case by (simp split: list.splits)
qed simp

lemma matches_append: "ends r s \<noteq> [] \<Longrightarrow> matches r (p @ s)"
proof (induction p)
  case Nil
  then show ?case by (cases s) auto
qed auto

end
