(* ===== verification/Sql_Rules.thy ===== *)
theory Sql_Rules
  imports Go_Strings
begin

text \<open>
  The rules on the text of a query: which texts a datasource without write access lets through
  (\<open>isSelectOnly\<close> of handler/query.go), the statement that is taken from a text and the row limit
  put on it (\<open>ApplyLimitToSQL\<close> of datasource/driver/base.go), and the classification and repetition
  of failed queries (datasource/driver/errors.go).
\<close>

section \<open>Statements\<close>

definition normalizeSQL :: "string \<Rightarrow> string" where
  "normalizeSQL sql = TrimSpace (TrimSuffix (TrimSpace sql) '';'')"

text \<open>The last segment that is not blank.\<close>

definition ExtractLastStatement :: "string \<Rightarrow> string" where
  "ExtractLastStatement sql =
     (case filter (\<lambda>s. s \<noteq> []) (map TrimSpace (Split (CHR '';'') sql)) of
        [] \<Rightarrow> []
      | ss \<Rightarrow> last ss)"

definition NormalizeSQLForType :: "string \<Rightarrow> string \<Rightarrow> string" where
  "NormalizeSQLForType sql dsType =
     (if dsType \<in> set [''hive'', ''kyuubi'', ''spark''] then ExtractLastStatement sql else normalizeSQL sql)"

section \<open>The row limit\<close>

text \<open>\<open>selectWithPrefixRe\<close>: \<open>^(SELECT|WITH)\s\<close>; \<open>hasLimitRe\<close>: \<open>\s+LIMIT\s+\<close>.\<close>

definition selectWithPrefix :: "string \<Rightarrow> bool" where
  "selectWithPrefix s \<longleftrightarrow>
     ends (Cat (word id ''SELECT'') (Cls rx_space)) s \<noteq> [] \<or> ends (Cat (word id ''WITH'') (Cls rx_space)) s \<noteq> []"

definition limit_word :: "(char \<Rightarrow> char) \<Rightarrow> rx" where
  "limit_word f = Cat (some_of rx_space) (Cat (word f ''LIMIT'') (some_of rx_space))"

definition hasLimit :: "string \<Rightarrow> bool" where "hasLimit s = matches (limit_word id) s"

text \<open>\<open>(?i)\s+LIMIT\s+(\d+)\<close>: the digits at the leftmost match. The class before them is greedy and
  holds no digit, so the group starts at the first end of the words that has a digit.\<close>

definition limit_digits :: "string \<Rightarrow> string" where
  "limit_digits s = takeWhile digit s"

fun first_limit :: "string \<Rightarrow> string option" where
  "first_limit [] = None"
| "first_limit (c # s) =
     (case filter (\<lambda>t. limit_digits t \<noteq> []) (ends (limit_word up_char) (c # s)) of
        t # _ \<Rightarrow> Some (limit_digits t)
      | [] \<Rightarrow> first_limit s)"

definition extractUserLimit :: "string \<Rightarrow> int" where
  "extractUserLimit s =
     (case first_limit s of None \<Rightarrow> 0 | Some ds \<Rightarrow> (case Atoi ds of Inl e \<Rightarrow> 0 | Inr n \<Rightarrow> n))"

text \<open>\<open>(?i)\s+LIMIT\s+%d\s*,?\s*\d*\s*(?:OFFSET\s+\d+)?\<close> and \<open>(?i)\s+LIMIT\s+%d\b\<close>.\<close>

definition limit_number :: "int \<Rightarrow> rx" where
  "limit_number n = Cat (limit_word up_char) (word id (show_int n))"

definition offset_pattern :: "int \<Rightarrow> rx" where
  "offset_pattern n = Cat (limit_number n) (Cat (Many rx_space) (Cat (Opt (Cls (\<lambda>c. c = CHR '','')))
     (Cat (Many rx_space) (Cat (Many digit) (Cat (Many rx_space)
       (Opt (Cat (word up_char ''OFFSET'') (Cat (some_of rx_space) (some_of digit)))))))))"

definition replaceLimitValue :: "string \<Rightarrow> int \<Rightarrow> int \<Rightarrow> string" where
  "replaceLimitValue sql old new =
     (let repl = '' LIMIT '' @ show_int new
      in if matches (offset_pattern old) sql then replace_all (offset_pattern old) repl sql
         else replace_all (Cat (limit_number old) Word_End) repl sql)"

text \<open>All branches of the last \<open>switch\<close> put the same text behind the statement.\<close>

definition with_limit :: "string \<Rightarrow> int \<Rightarrow> string" where
  "with_limit sql n = sql @ '' LIMIT '' @ show_int n"

definition ApplyLimitToSQL :: "string \<Rightarrow> int \<Rightarrow> string \<Rightarrow> string" where
  "ApplyLimitToSQL sql limit dsType =
     (if limit \<le> 0 \<or> dsType = ''redis'' then sql
      else (let normalized = NormalizeSQLForType sql dsType;
                upper = ToUpper normalized
            in if \<not> selectWithPrefix upper then sql
               else if hasLimit upper
               then (let userLimit = extractUserLimit upper
                     in if userLimit > 0
                        then (if limit < userLimit then replaceLimitValue normalized userLimit limit else sql)
                        else with_limit normalized limit)
               else with_limit normalized limit))"

section \<open>Which texts may run\<close>

text \<open>Runs of blanks become one space.\<close>

fun join_spaces :: "bool \<Rightarrow> string \<Rightarrow> string" where
  "join_spaces prev [] = []"
| "join_spaces prev (c # s) =
     (if code c \<in> set [32, 9, 10, 13]
      then (if prev then join_spaces True s else CHR '' '' # join_spaces True s)
      else c # join_spaces False s)"

definition joinSpaces :: "string \<Rightarrow> string" where "joinSpaces s = join_spaces False s"

definition redisReadOnlyCommands :: "string list" where
  "redisReadOnlyCommands =
    [''GET'', ''MGET'', ''STRLEN'', ''GETRANGE'', ''KEYS'', ''SCAN'', ''RANDOMKEY'', ''TYPE'',
     ''TTL'', ''PTTL'', ''EXPIRETIME'', ''PEXPIRETIME'', ''EXISTS'', ''OBJECT'', ''MEMORY'',
     ''LRANGE'', ''LINDEX'', ''LLEN'', ''LPOS'', ''SMEMBERS'', ''SISMEMBER'', ''SMISMEMBER'', ''SCARD'',
     ''SRANDMEMBER'', ''SSCAN'', ''HGET'', ''HMGET'', ''HGETALL'', ''HKEYS'',
     ''HVALS'', ''HLEN'', ''HEXISTS'', ''HSCAN'', ''HSTRLEN'',
     ''ZRANGE'', ''ZREVRANGE'', ''ZRANGEBYSCORE'', ''ZREVRANGEBYSCORE'',
     ''ZRANGEBYLEX'', ''ZREVRANGEBYLEX'', ''ZSCORE'', ''ZMSCORE'', ''ZRANK'', ''ZREVRANK'', ''ZCARD'', ''ZCOUNT'',
     ''ZLEXCOUNT'', ''ZSCAN'', ''ZRANDMEMBER'', ''PFCOUNT'', ''BITCOUNT'', ''BITPOS'', ''GETBIT'',
     ''GEOHASH'', ''GEOPOS'', ''GEODIST'', ''GEORADIUS'', ''GEORADIUSBYMEMBER'',
     ''CLUSTER'', ''INFO'', ''CONFIG'', ''CLIENT'', ''TIME'',
     ''DBSIZE'', ''LASTSAVE'', ''ROLE'', ''COMMAND'', ''PING'', ''ECHO'', ''SELECT'', ''QUIT'']"

definition IsRedisReadOnlyCommand :: "string \<Rightarrow> bool" where
  "IsRedisReadOnlyCommand name \<longleftrightarrow> name \<in> set redisReadOnlyCommands"

definition isRedisReadOnlyCommand :: "string \<Rightarrow> bool" where
  "isRedisReadOnlyCommand cmd =
     (let t = TrimSpace cmd
      in t \<noteq> [] \<and> IsRedisReadOnlyCommand (ToUpper (takeWhile (\<lambda>c. code c \<notin> set [32, 9, 10, 13]) t)))"

definition isSelectOnly :: "string \<Rightarrow> bool \<Rightarrow> string \<Rightarrow> bool" where
  "isSelectOnly sql allowWriteSQL dsType =
     (if allowWriteSQL then True
      else if dsType = ''redis'' then isRedisReadOnlyCommand sql
      else (let t = joinSpaces (ToUpper (TrimSpace sql))
            in list_ex (HasPrefix t) [''SELECT '', ''WITH '', ''EXPLAIN '', ''SHOW '', ''DESCRIBE '', ''DESC ''] \<or>
               t = ''SELECT'' \<or> t = ''DESC'' \<or> t = ''SHOW'' \<or> HasPrefix t ''PRAGMA''))"

section \<open>Failed queries\<close>

datatype err_category =
  ErrCategoryConnection | ErrCategoryAuthentication | ErrCategoryQuery | ErrCategoryTimeout
  | ErrCategoryPermission | ErrCategoryResource | ErrCategoryUnknown

record datasource_error =
  de_err :: string
  de_category :: err_category
  de_type :: string
  de_retryable :: bool
  de_after :: duration

fun category_text :: "err_category \<Rightarrow> string" where
  "category_text ErrCategoryConnection = ''connection''"
| "category_text ErrCategoryAuthentication = ''authentication''"
| "category_text ErrCategoryQuery = ''query''"
| "category_text ErrCategoryTimeout = ''timeout''"
| "category_text ErrCategoryPermission = ''permission''"
| "category_text ErrCategoryResource = ''resource''"
| "category_text ErrCategoryUnknown = ''unknown''"

definition DatasourceError_Error :: "datasource_error \<Rightarrow> string" where
  "DatasourceError_Error e =
     (if de_type e \<noteq> []
      then ''['' @ de_type e @ ''] '' @ category_text (de_category e) @ '' error: '' @ de_err e
      else category_text (de_category e) @ '' error: '' @ de_err e)"

definition any_of :: "string \<Rightarrow> string list \<Rightarrow> bool" where
  "any_of msg ws = list_ex (Contains msg) ws"

definition ClassifyError :: "string \<Rightarrow> string \<Rightarrow> datasource_error" where
  "ClassifyError err dsType =
     (let msg = ToLower err;
          mk = (\<lambda>c r d. \<lparr>de_err = err, de_category = c, de_type = dsType, de_retryable = r, de_after = d\<rparr>)
      in if any_of msg [''broken pipe'', ''connection reset'', ''connection refused'', ''network is unreachable'',
                        ''no such host'', ''dial tcp'', ''eof'']
         then mk ErrCategoryConnection True (2 * second)
         else if any_of msg [''timeout'', ''i/o timeout'', ''deadline exceeded'']
         then mk ErrCategoryTimeout True (5 * second)
         else if any_of msg [''authentication'', ''access denied'', ''unauthorized'', ''invalid credentials'',
                             ''wrong password'', ''wrongpass'', ''noauth'']
         then mk ErrCategoryAuthentication False 0
         else if any_of msg [''permission denied'', ''forbidden'', ''not allowed'']
         then mk ErrCategoryPermission False 0
         else if any_of msg [''too many connections'', ''connection pool'', ''resource temporarily unavailable'']
         then mk ErrCategoryResource True (3 * second)
         else if any_of msg [''ttransport'', ''transport error'']
         then mk ErrCategoryConnection True (2 * second)
         else mk ErrCategoryQuery False 0)"

record retry_config =
  MaxAttempts :: int
  BaseDelay :: duration
  MaxDelay :: duration

definition DefaultRetryConfig :: retry_config where
  "DefaultRetryConfig = \<lparr>MaxAttempts = 3, BaseDelay = second, MaxDelay = 30 * second\<rparr>"

text \<open>The delay before the attempt, for the multiplier 2 of the only configuration; the products stay
  within the integers that a \<open>float64\<close> holds exactly.\<close>

definition calculateDelay :: "nat \<Rightarrow> retry_config \<Rightarrow> duration" where
  "calculateDelay attempt cfg = min (BaseDelay cfg * 2 ^ (attempt - 1)) (MaxDelay cfg)"

text \<open>
  \<open>WithRetry\<close>: \<open>fn i\<close> is the outcome of the call number \<open>i\<close>, \<open>stopped i\<close> the context's error when it
  ends during the delay before that call. The result is paired with the number of calls made and
  the delays waited for. \<open>n\<close> attempts are left.
\<close>

fun retry_loop ::
  "nat \<Rightarrow> nat \<Rightarrow> string \<Rightarrow> retry_config \<Rightarrow> (nat \<Rightarrow> string option) \<Rightarrow> (nat \<Rightarrow> 'a result) \<Rightarrow> string \<Rightarrow>
   'a result \<times> nat \<times> duration list" where
  "retry_loop 0 attempt dsType cfg stopped fn lastErr =
     (Inl (''query failed after '' @ show_int (MaxAttempts cfg) @ '' attempts: '' @ lastErr), attempt, [])"
| "retry_loop (Suc n) attempt dsType cfg stopped fn lastErr =
     (let delays = (if attempt > 0 then [calculateDelay attempt cfg] else [])
      in if attempt > 0 \<and> stopped attempt \<noteq> None then (Inl (the (stopped attempt)), attempt, delays)
         else (case fn attempt of
                 Inr x \<Rightarrow> (Inr x, Suc attempt, delays)
               | Inl e \<Rightarrow>
                   (let de = ClassifyError e dsType
                    in if \<not> de_retryable de then (Inl (DatasourceError_Error de), Suc attempt, delays)
                       else (case retry_loop n (Suc attempt) dsType
                                    (if de_after de > 0 then cfg\<lparr>BaseDelay := de_after de\<rparr> else cfg)
                                    stopped fn e of
                               (r, k, ds) \<Rightarrow> (r, k, delays @ ds)))))"

definition WithRetry ::
  "retry_config \<Rightarrow> (nat \<Rightarrow> string option) \<Rightarrow> (nat \<Rightarrow> 'a result) \<Rightarrow> string \<Rightarrow> 'a result \<times> nat \<times> duration list" where
  "WithRetry cfg stopped fn dsType = retry_loop (nat (MaxAttempts cfg)) 0 dsType cfg stopped fn []"

text \<open>The tests on an error value: \<open>Inl\<close> is an error that wraps a \<open>DatasourceError\<close>, \<open>Inr\<close> another
  error by its text.\<close>

definition isConnectionError :: "string \<Rightarrow> bool" where
  "isConnectionError e = any_of (ToLower e)
     [''broken pipe'', ''connection reset'', ''connection refused'', ''network is unreachable'',
      ''i/o timeout'', ''dial tcp'', ''no such host'', ''ttransport'', ''transport error'', ''eof'']"

definition IsConnectionError :: "(datasource_error + string) option \<Rightarrow> bool" where
  "IsConnectionError err = (case err of
      None \<Rightarrow> False
    | Some (Inl de) \<Rightarrow> de_category de = ErrCategoryConnection \<or> de_category de = ErrCategoryTimeout
    | Some (Inr e) \<Rightarrow> isConnectionError e)"

definition IsRetryableError :: "(datasource_error + string) option \<Rightarrow> bool" where
  "IsRetryableError err = (case err of
      None \<Rightarrow> False | Some (Inl de) \<Rightarrow> de_retryable de | Some (Inr e) \<Rightarrow> isConnectionError e)"

definition truncateSQL :: "string \<Rightarrow> nat \<Rightarrow> string" where
  "truncateSQL sql maxLen = (if length sql \<le> maxLen then sql else take maxLen sql @ ''...'')"

definition truncateSQLPreview :: "string \<Rightarrow> string" where
  "truncateSQLPreview sql = (let r = TrimSpace sql in if length r \<le> 200 then r else take 200 r @ ''...'')"

definition isPoolBusyError :: "string option \<Rightarrow> bool" where
  "isPoolBusyError err = (case err of None \<Rightarrow> False | Some e \<Rightarrow> Contains e ''pool fully occupied'')"

section \<open>Properties\<close>

lemma code_simps [simp]: "code c = of_char c"
  by (simp add: code_def)

lemma TrimSpace_prefix:
  assumes "trimmed w" "\<not> is_space c"
  shows "TrimSpace (c # p @ w) = c # p @ w"
  using assms by (intro TrimSpace_trimmed) (auto simp: trimmed_def)

lemma TrimSpace_space: "TrimSpace (CHR '' '' # s) = TrimSpace s"
  by (simp add: TrimSpace_def trim_left_def is_space_def)

text \<open>Without write access, the check looks at how a text begins and at nothing behind that: any
  statement passes behind \<open>SELECT 1;\<close>, and on Hive, Kyuubi and Spark it is then that statement, the
  last one, that is taken from the text; anything passes behind \<open>WITH\<close>, a change of data
  included; and on Redis \<open>CONFIG\<close> passes with any arguments.\<close>

theorem write_check_reads_the_beginning_only:
  assumes "trimmed w" "CHR '';'' \<notin> set w" "ty \<noteq> ''redis''"
  shows "isSelectOnly (''SELECT 1; '' @ w) False ty \<and> ExtractLastStatement (''SELECT 1; '' @ w) = w \<and>
    isSelectOnly (''WITH '' @ w) False ty \<and> isSelectOnly (''CONFIG '' @ w) False ''redis''"
proof (intro conjI)
  have u: "up_char (CHR ''S'') = CHR ''S''" "up_char (CHR ''E'') = CHR ''E''" "up_char (CHR ''L'') = CHR ''L''"
    "up_char (CHR ''C'') = CHR ''C''" "up_char (CHR ''T'') = CHR ''T''" "up_char (CHR ''W'') = CHR ''W''"
    "up_char (CHR ''I'') = CHR ''I''" "up_char (CHR ''H'') = CHR ''H''" "up_char (CHR ''1'') = CHR ''1''"
    "up_char (CHR '' '') = CHR '' ''" "up_char (CHR '';'') = CHR '';''"
    "up_char (CHR ''O'') = CHR ''O''" "up_char (CHR ''N'') = CHR ''N''" "up_char (CHR ''F'') = CHR ''F''"
    "up_char (CHR ''G'') = CHR ''G''"
    by (simp_all add: up_char_def)
  have t: "TrimSpace (c # p @ w) = c # p @ w" if "\<not> is_space c" for c p
    using TrimSpace_prefix [OF assms(1) that] .
  show "isSelectOnly (''SELECT 1; '' @ w) False ty"
    using t [of "CHR ''S''" "''ELECT 1; ''"] assms(3)
    by (simp add: isSelectOnly_def joinSpaces_def HasPrefix_def u is_space_def)
  show "isSelectOnly (''WITH '' @ w) False ty"
    using t [of "CHR ''W''" "''ITH ''"] assms(3)
    by (simp add: isSelectOnly_def joinSpaces_def HasPrefix_def u is_space_def)
  show "isSelectOnly (''CONFIG '' @ w) False ''redis''"
    using t [of "CHR ''C''" "''ONFIG ''"]
    by (simp add: isSelectOnly_def isRedisReadOnlyCommand_def u is_space_def Let_def
        IsRedisReadOnlyCommand_def redisReadOnlyCommands_def)
  have "Split (CHR '';'') (''SELECT 1; '' @ w) = [''SELECT 1'', CHR '' '' # w]"
    using Split_at [of "CHR '';''" "''SELECT 1''" "CHR '' '' # w"] Split_none [of "CHR '';''" "CHR '' '' # w"]
      assms(2) by simp
  then show "ExtractLastStatement (''SELECT 1; '' @ w) = w"
    using assms(1) by (simp add: ExtractLastStatement_def TrimSpace_space TrimSpace_trimmed trimmed_def)
qed

text \<open>The first limit of a text is all that counts.\<close>

definition limit_inside :: string where
  "limit_inside = ''SELECT * FROM t WHERE 1 IN (SELECT 1 LIMIT 1) ''"

definition limit_upper :: string where
  "limit_upper = ''SELECT * FROM T WHERE 1 IN (SELECT 1 LIMIT 1) ''"

lemma normalize_trimmed: "trimmed s \<Longrightarrow> last s \<noteq> CHR '';'' \<Longrightarrow> normalizeSQL s = s"
proof -
  assume s: "trimmed s" "last s \<noteq> CHR '';''"
  then have "\<not> suffix '';'' s" by (auto simp: suffix_def)
  with s show ?thesis by (simp add: normalizeSQL_def TrimSpace_trimmed TrimSuffix_def)
qed

lemma limit_inside_upper:
  "ToUpper (limit_inside @ w) = limit_upper @ ToUpper w"
proof -
  have "up_char (CHR ''t'') = CHR ''T''" by code_simp
  then show ?thesis by (simp add: limit_inside_def limit_upper_def up_char_def)
qed

lemma first_limit_inside:
  "selectWithPrefix (limit_upper @ w)"
  "hasLimit (limit_upper @ w)"
  "extractUserLimit (limit_upper @ w) = 1"
  by (simp_all add: limit_upper_def selectWithPrefix_def hasLimit_def extractUserLimit_def limit_word_def some_of_def
      rx_space_def up_char_def limit_digits_def digit_def Atoi_def)

text \<open>The row limit of the system is not applied to a text that has a \<open>LIMIT\<close> of its own anywhere, in
  a subquery for instance: the text is run as it is, whatever follows.\<close>

theorem row_limit_is_bypassed_by_a_subquery:
  assumes "trimmed w" "last w \<noteq> CHR '';''" "1 \<le> limit"
  shows "ApplyLimitToSQL (limit_inside @ w) limit ''mysql'' = limit_inside @ w"
proof -
  have "trimmed (limit_inside @ w)" "last (limit_inside @ w) \<noteq> CHR '';''"
    using assms(1,2) by (auto simp: trimmed_def limit_inside_def is_space_def)
  then have "NormalizeSQLForType (limit_inside @ w) ''mysql'' = limit_inside @ w"
    by (simp add: NormalizeSQLForType_def normalize_trimmed)
  then show ?thesis
    using assms(3) by (simp add: ApplyLimitToSQL_def Let_def limit_inside_upper first_limit_inside del: ToUpper_simps(3))
qed

lemma retry_loop_counts:
  "retry_loop n a ty cfg stopped fn le = (r, k, ds) \<Longrightarrow>
   a \<le> k \<and> k \<le> a + n \<and> length ds \<le> n \<and> list_all (\<lambda>d. d \<le> MaxDelay cfg) ds"
  by (induction n arbitrary: a cfg le r k ds)
     (fastforce simp: Let_def calculateDelay_def split: if_splits sum.splits prod.splits)+

lemma retry_loop_earlier:
  "retry_loop n a ty cfg stopped fn le = (r, k, ds) \<Longrightarrow> a \<le> i \<Longrightarrow> Suc i < k \<Longrightarrow>
   \<exists>e. fn i = Inl e \<and> de_retryable (ClassifyError e ty)"
proof (induction n arbitrary: a cfg le r k ds)
  case (Suc n)
  show ?case
  proof (cases "\<exists>e. fn a = Inl e \<and> de_retryable (ClassifyError e ty) \<and> \<not> (a > 0 \<and> stopped a \<noteq> None)")
    case True
    then obtain e where e: "fn a = Inl e" "de_retryable (ClassifyError e ty)" "\<not> (a > 0 \<and> stopped a \<noteq> None)"
      by blast
    with Suc.prems(1) obtain c ds' where "retry_loop n (Suc a) ty c stopped fn e = (r, k, ds')"
      by (auto simp: Let_def split: prod.splits)
    with Suc e show ?thesis by (cases "i = a") auto
  qed (use Suc.prems in \<open>auto simp: Let_def split: if_splits sum.splits\<close>)
qed simp

lemma retry_loop_last:
  "retry_loop n a ty cfg stopped fn le = (r, k, ds) \<Longrightarrow>
   (r = Inr x) = (a < k \<and> fn (k - 1) = Inr x)"
proof (induction n arbitrary: a cfg le r k ds)
  case (Suc n)
  show ?case
  proof (cases "\<exists>e. fn a = Inl e \<and> de_retryable (ClassifyError e ty) \<and> \<not> (a > 0 \<and> stopped a \<noteq> None)")
    case True
    then obtain e where e: "fn a = Inl e" "de_retryable (ClassifyError e ty)" "\<not> (a > 0 \<and> stopped a \<noteq> None)"
      by blast
    with Suc.prems obtain c ds' where rec: "retry_loop n (Suc a) ty c stopped fn e = (r, k, ds')"
      by (auto simp: Let_def split: prod.splits)
    with retry_loop_counts [OF rec] Suc.IH [OF rec] e(1) show ?thesis
      by (cases "k = Suc a") auto
  qed (use Suc.prems in \<open>auto simp: Let_def split: if_splits sum.splits\<close>)
qed simp

text \<open>C40: A query is tried at most as often as configured. It succeeds exactly with the first call that
  succeeds, and only failures that are classified as passing come before it; between two calls it
  waits, never longer than the configured maximum.\<close>

theorem retries_are_few_and_exact:
  assumes "WithRetry cfg stopped fn ty = (r, k, ds)"
  shows "k \<le> nat (MaxAttempts cfg) \<and> length ds \<le> nat (MaxAttempts cfg) \<and> list_all (\<lambda>d. d \<le> MaxDelay cfg) ds \<and>
    list_all (\<lambda>i. \<exists>e. fn i = Inl e \<and> de_retryable (ClassifyError e ty)) [0..<k - 1] \<and>
    (\<forall>x. (r = Inr x) = (0 < k \<and> fn (k - 1) = Inr x))"
proof -
  note loop = assms [unfolded WithRetry_def]
  have "list_all (\<lambda>i. \<exists>e. fn i = Inl e \<and> de_retryable (ClassifyError e ty)) [0..<k - 1]"
    using retry_loop_earlier [OF loop] by (auto simp: list_all_iff)
  then show ?thesis using retry_loop_counts [OF loop] retry_loop_last [OF loop] by simp
qed

section \<open>The properties at concrete texts\<close>

theorem write_check_reads_the_beginning_only_witness:
  "isSelectOnly ''SELECT 1; DROP TABLE t'' False ''hive'' \<and>
   ExtractLastStatement ''SELECT 1; DROP TABLE t'' = ''DROP TABLE t''"
  using write_check_reads_the_beginning_only [of "''DROP TABLE t''" "''hive''"]
  by (simp add: trimmed_def is_space_def)

theorem row_limit_is_bypassed_by_a_subquery_witness:
  "ApplyLimitToSQL (limit_inside @ ''OR 1 = 1'') 1000 ''mysql'' = limit_inside @ ''OR 1 = 1''"
  using row_limit_is_bypassed_by_a_subquery [of "''OR 1 = 1''" 1000] by (simp add: trimmed_def is_space_def)

lemma demo_retry:
  "WithRetry DefaultRetryConfig (\<lambda>i. None) (\<lambda>i. if i = 0 then Inl ''EOF'' else Inr (7 :: nat)) ''mysql'' =
   (Inr 7, 2, [2 * second])"
  by code_simp

theorem retries_are_few_and_exact_witness:
  "(2 :: nat) \<le> nat (MaxAttempts DefaultRetryConfig) \<and>
   list_all (\<lambda>d. d \<le> MaxDelay DefaultRetryConfig) [2 * second]"
  using retries_are_few_and_exact [OF demo_retry] by simp

end
