(* ===== verification/Query_Registry.thy ===== *)
theory Query_Registry
  imports Redis_Server
begin

text \<open>
  The registry of the queries under way: \<open>QueryRegistry\<close> keeps them in memory
  (handler/query_registry.go), \<open>DistributedQueryRegistry\<close> also mirrors them in Redis, where the
  other nodes find them, and passes cancel commands between nodes
  (handler/query_registry_distributed.go). The query handler uses either through one Go interface.

  The state of the distributed registry extends the record of the local one; cutting it back is the
  abstraction under which every operation of the distributed registry refines the local one. A
  registry hands its observers a pointer to its own entry, so a notification is the observer and
  the id; a message from another node hands them a query of its own. The context cancelled by
  \<open>CancelFunc\<close> is an entry of \<open>cancelled\<close>. Execution times are kept as the durations they are
  computed from. \<open>encoding/json\<close> is an argument: the texts of a state and of a result, read back.
\<close>

section \<open>Queries\<close>

datatype query_status =
  QueryStatusPending | QueryStatusRunning | QueryStatusCompleted | QueryStatusFailed | QueryStatusCancelled

record 'v query_result =
  qr_columns :: "string list"
  qr_rows :: "'v list list"
  qr_count :: int

record 'v running_query =
  q_id :: string
  q_datasource :: int
  q_database :: string
  q_sql :: string
  q_user :: int
  q_status :: query_status
  q_result :: "'v query_result option"
  q_error :: string
  q_time :: duration
  q_start :: "instant option"     \<comment> \<open>\<open>None\<close>: the zero time\<close>
  q_cached :: bool
  q_cancel :: bool                \<comment> \<open>a \<open>CancelFunc\<close> is set\<close>
  q_created :: instant

definition terminal_status :: "query_status \<Rightarrow> bool" where
  "terminal_status st \<longleftrightarrow>
     st = QueryStatusCompleted \<or> st = QueryStatusFailed \<or> st = QueryStatusCancelled"

lemma terminal_status_simps [simp]:
  "terminal_status QueryStatusCompleted" "terminal_status QueryStatusFailed"
  "terminal_status QueryStatusCancelled" "\<not> terminal_status QueryStatusPending"
  "\<not> terminal_status QueryStatusRunning"
  by (simp_all add: terminal_status_def)

section \<open>The local registry\<close>

type_synonym observer = nat

datatype 'v shown = Entry string | Copy "'v running_query"

record 'v registry =
  queries :: "string \<Rightarrow> 'v running_query option"
  observers :: "observer list"
  notified :: "(observer \<times> 'v shown) list"  \<comment> \<open>goroutines that call \<open>OnQueryUpdate\<close>\<close>
  cancelled :: "string list"

definition NewQueryRegistry :: "'v registry" where
  "NewQueryRegistry = \<lparr>queries = Map.empty, observers = [], notified = [], cancelled = []\<rparr>"

definition notifyObservers :: "string \<Rightarrow> ('v, 'z) registry_scheme \<Rightarrow> ('v, 'z) registry_scheme" where
  "notifyObservers qid g = g\<lparr>notified := notified g @ map (\<lambda>ob. (ob, Entry qid)) (observers g)\<rparr>"

text \<open>A write through the pointer of the entry.\<close>

definition set_query ::
  "string \<Rightarrow> 'v running_query \<Rightarrow> ('v, 'z) registry_scheme \<Rightarrow> ('v, 'z) registry_scheme" where
  "set_query qid q g = g\<lparr>queries := (queries g)(qid \<mapsto> q)\<rparr>"

definition Register :: "instant \<Rightarrow> 'v running_query \<Rightarrow> 'v registry \<Rightarrow> 'v registry" where
  "Register now q g = set_query (q_id q) (q\<lparr>q_created := now\<rparr>) g"

definition registry_Get :: "string \<Rightarrow> 'v registry \<Rightarrow> 'v running_query option" where
  "registry_Get qid g = queries g qid"

definition UpdateResult ::
  "string \<Rightarrow> 'v query_result option \<Rightarrow> duration \<Rightarrow> 'v registry \<Rightarrow> 'v registry" where
  "UpdateResult qid res d g =
     (case queries g qid of
        None \<Rightarrow> g
      | Some q \<Rightarrow> notifyObservers qid (set_query qid
          (q\<lparr>q_status := QueryStatusCompleted, q_result := res, q_time := d\<rparr>) g))"

definition UpdateError :: "string \<Rightarrow> string \<Rightarrow> duration \<Rightarrow> 'v registry \<Rightarrow> 'v registry" where
  "UpdateError qid msg d g =
     (case queries g qid of
        None \<Rightarrow> g
      | Some q \<Rightarrow> notifyObservers qid (set_query qid
          (q\<lparr>q_status := QueryStatusFailed, q_error := msg, q_time := d\<rparr>) g))"

definition call_cancel :: "string \<Rightarrow> 'v running_query \<Rightarrow> ('v, 'z) registry_scheme \<Rightarrow> ('v, 'z) registry_scheme" where
  "call_cancel qid q g = (if q_cancel q then g\<lparr>cancelled := cancelled g @ [qid]\<rparr> else g)"

definition registry_Cancel :: "string \<Rightarrow> 'v registry \<Rightarrow> bool \<times> 'v registry" where
  "registry_Cancel qid g =
     (case queries g qid of
        None \<Rightarrow> (False, g)
      | Some q \<Rightarrow>
          (if q_status q = QueryStatusPending \<or> q_status q = QueryStatusRunning
           then (True, notifyObservers qid (call_cancel qid q
                  (set_query qid (q\<lparr>q_status := QueryStatusCancelled\<rparr>) g)))
           else (False, g)))"

definition SetRunning :: "instant \<Rightarrow> string \<Rightarrow> 'v registry \<Rightarrow> 'v registry" where
  "SetRunning now qid g =
     (case queries g qid of
        None \<Rightarrow> g
      | Some q \<Rightarrow> notifyObservers qid (set_query qid
          (q\<lparr>q_status := QueryStatusRunning, q_start := Some now\<rparr>) g))"

definition outdated :: "instant \<Rightarrow> duration \<Rightarrow> 'v running_query \<Rightarrow> bool" where
  "outdated now maxAge q \<longleftrightarrow>
     (q_status q = QueryStatusCompleted \<or> q_status q = QueryStatusFailed \<or> q_status q = QueryStatusCancelled) \<and>
     now - q_created q > maxAge"

definition registry_Cleanup :: "instant \<Rightarrow> duration \<Rightarrow> 'v registry \<Rightarrow> 'v registry" where
  "registry_Cleanup now maxAge g =
     g\<lparr>queries := (\<lambda>qid. case queries g qid of
        None \<Rightarrow> None | Some q \<Rightarrow> if outdated now maxAge q then None else Some q)\<rparr>"

definition RegisterObserver :: "observer \<Rightarrow> 'v registry \<Rightarrow> 'v registry" where
  "RegisterObserver ob g = g\<lparr>observers := List.insert ob (observers g)\<rparr>"

definition UnregisterObserver :: "observer \<Rightarrow> 'v registry \<Rightarrow> 'v registry" where
  "UnregisterObserver ob g = g\<lparr>observers := removeAll ob (observers g)\<rparr>"

section \<open>The mirror in Redis\<close>

record redis_query_state =
  rs_id :: string
  rs_datasource :: int
  rs_database :: string
  rs_sql :: string
  rs_user :: int
  rs_status :: query_status
  rs_error :: string
  rs_time :: duration
  rs_cached :: bool
  rs_node :: string
  rs_created :: int          \<comment> \<open>Unix seconds\<close>
  rs_start :: int

record 'v codec =
  enc_state :: "redis_query_state \<Rightarrow> string result"
  dec_state :: "string \<Rightarrow> redis_query_state result"
  enc_result :: "'v query_result \<Rightarrow> string result"
  dec_result :: "string \<Rightarrow> 'v query_result result"
  accepts :: "nat \<Rightarrow> bool"   \<comment> \<open>whether Redis takes the message of that number\<close>

text \<open>What the nodes send: state changes to every node, and cancel commands. A node hands a message to \<open>Publish\<close>, which may
  fail; the error is only logged.\<close>

datatype message = Update redis_query_state | CancelCommand string string  \<comment> \<open>query, sender\<close>

record ('v, 'r) distributed = "'v registry" +
  node :: string
  mirror :: 'r
  published :: "message list"   \<comment> \<open>handed to \<open>Publish\<close>\<close>
  delivered :: "message list"   \<comment> \<open>taken by Redis\<close>
  started :: bool               \<comment> \<open>\<open>subOnce\<close> has run\<close>
  subscribed :: bool

definition state_key :: "string \<Rightarrow> string" where "state_key qid = ''bdopsflow:query:'' @ qid"
definition result_key :: "string \<Rightarrow> string" where "result_key qid = ''bdopsflow:query:result:'' @ qid"
definition mirror_ttl :: duration where "mirror_ttl = 35 * minute"

definition NewDistributedQueryRegistry :: "'r \<Rightarrow> string \<Rightarrow> ('v, 'r) distributed" where
  "NewDistributedQueryRegistry r n =
     \<lparr>queries = Map.empty, observers = [], notified = [], cancelled = [],
      node = n, mirror = r, published = [], delivered = [], started = False, subscribed = False\<rparr>"

text \<open>The subscription is started once; after \<open>Close\<close> it does not come back.\<close>

definition startSubscriber :: "('v, 'r) distributed \<Rightarrow> ('v, 'r) distributed" where
  "startSubscriber g = (if started g then g else g\<lparr>started := True, subscribed := True\<rparr>)"

definition unix_of :: "instant \<Rightarrow> int" where "unix_of t = t div second"

definition localToRedisState :: "string \<Rightarrow> 'v running_query \<Rightarrow> redis_query_state" where
  "localToRedisState n q =
     \<lparr>rs_id = q_id q, rs_datasource = q_datasource q, rs_database = q_database q, rs_sql = q_sql q,
      rs_user = q_user q, rs_status = q_status q, rs_error = q_error q, rs_time = q_time q,
      rs_cached = q_cached q, rs_node = n, rs_created = unix_of (q_created q),
      rs_start = (case q_start q of None \<Rightarrow> 0 | Some t \<Rightarrow> unix_of t)\<rparr>"

definition redis_write ::
  "'r redis \<Rightarrow> instant \<Rightarrow> string \<Rightarrow> string result \<Rightarrow> ('v, 'r) distributed \<Rightarrow> ('v, 'r) distributed" where
  "redis_write R t key text g =
     (case text of
        Inl e \<Rightarrow> g
      | Inr v \<Rightarrow> g\<lparr>mirror := snd (redis_Set R t key v mirror_ttl (mirror g))\<rparr>)"

definition saveToRedis ::
  "'r redis \<Rightarrow> 'v codec \<Rightarrow> instant \<Rightarrow> redis_query_state \<Rightarrow> ('v, 'r) distributed \<Rightarrow> ('v, 'r) distributed" where
  "saveToRedis R J t st g = redis_write R t (state_key (rs_id st)) (enc_state J st) g"

definition getFromRedis ::
  "'r redis \<Rightarrow> 'v codec \<Rightarrow> instant \<Rightarrow> string \<Rightarrow> 'r \<Rightarrow> redis_query_state option result" where
  "getFromRedis R J t qid r =
     (case redis_Get R t (state_key qid) r of
        Inl e \<Rightarrow> Inl (''failed to get query state from Redis: '' @ e)
      | Inr None \<Rightarrow> Inr None
      | Inr (Some v) \<Rightarrow>
          (case dec_state J v of
             Inl e \<Rightarrow> Inl (''failed to unmarshal query state from Redis: '' @ e)
           | Inr st \<Rightarrow> Inr (Some st)))"

definition deleteFromRedis ::
  "'r redis \<Rightarrow> instant \<Rightarrow> string \<Rightarrow> ('v, 'r) distributed \<Rightarrow> ('v, 'r) distributed" where
  "deleteFromRedis R t qid g = g\<lparr>mirror := snd (redis_Del R t [state_key qid] (mirror g))\<rparr>"

text \<open>Only the first rows of a large result are saved; the row count stays. A Go slice may be cut at
  any bound up to its capacity; the drivers count the rows they return.\<close>

definition max_rows_for_redis :: int where "max_rows_for_redis = 10000"

definition saved_result :: "'v query_result \<Rightarrow> 'v query_result" where
  "saved_result res =
     (if qr_count res > max_rows_for_redis
      then res\<lparr>qr_rows := take (nat max_rows_for_redis) (qr_rows res)\<rparr> else res)"

definition saveResultToRedis ::
  "'r redis \<Rightarrow> 'v codec \<Rightarrow> instant \<Rightarrow> string \<Rightarrow> 'v query_result option \<Rightarrow> ('v, 'r) distributed \<Rightarrow>
   ('v, 'r) distributed" where
  "saveResultToRedis R J t qid res g =
     (case res of
        None \<Rightarrow> g
      | Some x \<Rightarrow> redis_write R t (result_key qid) (enc_result J (saved_result x)) g)"

definition getResultFromRedis ::
  "'r redis \<Rightarrow> 'v codec \<Rightarrow> instant \<Rightarrow> string \<Rightarrow> 'r \<Rightarrow> 'v query_result option result" where
  "getResultFromRedis R J t qid r =
     (case redis_Get R t (result_key qid) r of
        Inl e \<Rightarrow> Inl (''failed to get query result from Redis: '' @ e)
      | Inr None \<Rightarrow> Inr None
      | Inr (Some v) \<Rightarrow>
          (case dec_result J v of
             Inl e \<Rightarrow> Inl (''failed to unmarshal query result from Redis: '' @ e)
           | Inr res \<Rightarrow> Inr (Some res)))"

definition deleteResultFromRedis ::
  "'r redis \<Rightarrow> instant \<Rightarrow> string \<Rightarrow> ('v, 'r) distributed \<Rightarrow> ('v, 'r) distributed" where
  "deleteResultFromRedis R t qid g = g\<lparr>mirror := snd (redis_Del R t [result_key qid] (mirror g))\<rparr>"

text \<open>Publishing is best effort: a message that cannot be written or sent is lost. A cancel command is two texts, which can
  always be written.\<close>

definition send_message :: "'v codec \<Rightarrow> message \<Rightarrow> ('v, 'r) distributed \<Rightarrow> ('v, 'r) distributed" where
  "send_message J m g = g\<lparr>published := published g @ [m],
     delivered := delivered g @ (if accepts J (length (published g)) then [m] else [])\<rparr>"

definition publishUpdate :: "'v codec \<Rightarrow> redis_query_state \<Rightarrow> ('v, 'r) distributed \<Rightarrow> ('v, 'r) distributed" where
  "publishUpdate J st g = (case enc_state J st of Inl e \<Rightarrow> g | Inr v \<Rightarrow> send_message J (Update st) g)"

definition publishCancelCommand :: "'v codec \<Rightarrow> string \<Rightarrow> ('v, 'r) distributed \<Rightarrow> ('v, 'r) distributed" where
  "publishCancelCommand J qid g = send_message J (CancelCommand qid (node g)) g"

section \<open>The distributed registry\<close>

text \<open>The tail that every change of an entry shares: the state is saved and published, then the
  observers of this node are told.\<close>

definition saved_and_told ::
  "'r redis \<Rightarrow> 'v codec \<Rightarrow> instant \<Rightarrow> string \<Rightarrow> 'v running_query \<Rightarrow> ('v, 'r) distributed \<Rightarrow>
   ('v, 'r) distributed" where
  "saved_and_told R J t qid q g =
     (let st = localToRedisState (node g) q
      in notifyObservers qid (publishUpdate J st (saveToRedis R J t st g)))"

definition dist_Register ::
  "'r redis \<Rightarrow> 'v codec \<Rightarrow> instant \<Rightarrow> 'v running_query \<Rightarrow> ('v, 'r) distributed \<Rightarrow> ('v, 'r) distributed" where
  "dist_Register R J now q g =
     (let q1 = q\<lparr>q_created := now\<rparr>;
          g1 = set_query (q_id q) q1 g;
          st = \<lparr>rs_id = q_id q1, rs_datasource = q_datasource q1, rs_database = q_database q1,
                rs_sql = q_sql q1, rs_user = q_user q1, rs_status = q_status q1, rs_error = [],
                rs_time = 0, rs_cached = False, rs_node = node g, rs_created = unix_of now, rs_start = 0\<rparr>
      in startSubscriber (saveToRedis R J now st g1))"

text \<open>A query rebuilt from a message or from Redis; its result is looked up when it has completed.\<close>

definition rebuilt ::
  "'r redis \<Rightarrow> 'v codec \<Rightarrow> instant \<Rightarrow> redis_query_state \<Rightarrow> 'r \<Rightarrow> 'v running_query" where
  "rebuilt R J t st r =
     \<lparr>q_id = rs_id st, q_datasource = rs_datasource st, q_database = rs_database st, q_sql = rs_sql st,
      q_user = rs_user st, q_status = rs_status st,
      q_result = (if rs_status st = QueryStatusCompleted
                  then (case getResultFromRedis R J t (rs_id st) r of Inr (Some x) \<Rightarrow> Some x | _ \<Rightarrow> None)
                  else None),
      q_error = rs_error st, q_time = rs_time st,
      q_start = (if rs_start st > 0 then Some (rs_start st * second) else None),
      q_cached = rs_cached st, q_cancel = False, q_created = rs_created st * second\<rparr>"

definition handleRedisMessage ::
  "'r redis \<Rightarrow> 'v codec \<Rightarrow> instant \<Rightarrow> redis_query_state \<Rightarrow> ('v, 'r) distributed \<Rightarrow> ('v, 'r) distributed" where
  "handleRedisMessage R J t st g =
     (if rs_node st = node g then g
      else g\<lparr>notified := notified g @
             map (\<lambda>ob. (ob, Copy (rebuilt R J t st (mirror g)))) (observers g)\<rparr>)"

definition dist_Get ::
  "'r redis \<Rightarrow> 'v codec \<Rightarrow> instant \<Rightarrow> string \<Rightarrow> ('v, 'r) distributed \<Rightarrow> 'v running_query option" where
  "dist_Get R J t qid g =
     (case queries g qid of
        Some q \<Rightarrow> Some q
      | None \<Rightarrow>
          (case getFromRedis R J t qid (mirror g) of
             Inr (Some st) \<Rightarrow> Some (rebuilt R J t st (mirror g))
           | _ \<Rightarrow> None))"

definition dist_UpdateResult ::
  "'r redis \<Rightarrow> 'v codec \<Rightarrow> instant \<Rightarrow> string \<Rightarrow> 'v query_result option \<Rightarrow> duration \<Rightarrow>
   ('v, 'r) distributed \<Rightarrow> ('v, 'r) distributed" where
  "dist_UpdateResult R J t qid res d g =
     (case queries g qid of
        None \<Rightarrow> g
      | Some q \<Rightarrow>
          (let q1 = q\<lparr>q_status := QueryStatusCompleted, q_result := res, q_time := d\<rparr>;
               st = localToRedisState (node g) q1
           in notifyObservers qid (publishUpdate J st (saveResultToRedis R J t qid res
                (saveToRedis R J t st (set_query qid q1 g))))))"

definition dist_UpdateError ::
  "'r redis \<Rightarrow> 'v codec \<Rightarrow> instant \<Rightarrow> string \<Rightarrow> string \<Rightarrow> duration \<Rightarrow> ('v, 'r) distributed \<Rightarrow>
   ('v, 'r) distributed" where
  "dist_UpdateError R J t qid msg d g =
     (case queries g qid of
        None \<Rightarrow> g
      | Some q \<Rightarrow>
          (let q1 = q\<lparr>q_status := QueryStatusFailed, q_error := msg, q_time := d\<rparr>
           in saved_and_told R J t qid q1 (set_query qid q1 g)))"

definition dist_SetRunning ::
  "'r redis \<Rightarrow> 'v codec \<Rightarrow> instant \<Rightarrow> string \<Rightarrow> ('v, 'r) distributed \<Rightarrow> ('v, 'r) distributed" where
  "dist_SetRunning R J t qid g =
     (case queries g qid of
        None \<Rightarrow> g
      | Some q \<Rightarrow>
          (let q1 = q\<lparr>q_status := QueryStatusRunning, q_start := Some t\<rparr>
           in saved_and_told R J t qid q1 (set_query qid q1 g)))"

text \<open>A query of this node that has not ended is cancelled here; for one that Redis knows as another
  node's, a command is sent to that node.\<close>

definition remote_cancel ::
  "'r redis \<Rightarrow> 'v codec \<Rightarrow> instant \<Rightarrow> string \<Rightarrow> ('v, 'r) distributed \<Rightarrow> bool \<times> ('v, 'r) distributed" where
  "remote_cancel R J t qid g =
     (case getFromRedis R J t qid (mirror g) of
        Inr (Some st) \<Rightarrow>
          (if rs_status st = QueryStatusCompleted \<or> rs_status st = QueryStatusFailed \<or>
              rs_status st = QueryStatusCancelled then (False, g)
           else if rs_node st \<noteq> [] \<and> rs_node st \<noteq> node g then (True, publishCancelCommand J qid g)
           else (False, g))
      | _ \<Rightarrow> (False, g))"

definition dist_Cancel ::
  "'r redis \<Rightarrow> 'v codec \<Rightarrow> instant \<Rightarrow> string \<Rightarrow> ('v, 'r) distributed \<Rightarrow> bool \<times> ('v, 'r) distributed" where
  "dist_Cancel R J t qid g =
     (case queries g qid of
        Some q \<Rightarrow>
          (if q_status q = QueryStatusPending \<or> q_status q = QueryStatusRunning
           then (let q1 = q\<lparr>q_status := QueryStatusCancelled\<rparr>
                 in (True, saved_and_told R J t qid q1 (call_cancel qid q (set_query qid q1 g))))
           else remote_cancel R J t qid g)
      | None \<Rightarrow> remote_cancel R J t qid g)"

definition handleCancelCommand ::
  "'r redis \<Rightarrow> 'v codec \<Rightarrow> instant \<Rightarrow> string \<Rightarrow> ('v, 'r) distributed \<Rightarrow> ('v, 'r) distributed" where
  "handleCancelCommand R J t qid g =
     (case queries g qid of
        None \<Rightarrow> g
      | Some q \<Rightarrow>
          (if q_status q = QueryStatusPending \<or> q_status q = QueryStatusRunning
           then (let q1 = q\<lparr>q_status := QueryStatusCancelled, q_error := ''query cancelled by user''\<rparr>
                 in saved_and_told R J t qid q1 (call_cancel qid q (set_query qid q1 g)))
           else g))"

text \<open>The loop deletes the outdated entries one by one, in the order \<open>ids\<close> of the Go map.\<close>

definition dist_Cleanup ::
  "'r redis \<Rightarrow> instant \<Rightarrow> duration \<Rightarrow> string list \<Rightarrow> ('v, 'r) distributed \<Rightarrow> ('v, 'r) distributed" where
  "dist_Cleanup R now maxAge ids g =
     fold (\<lambda>qid g. deleteResultFromRedis R now qid (deleteFromRedis R now qid g)) ids
       (g\<lparr>queries := (\<lambda>qid. case queries g qid of
          None \<Rightarrow> None | Some q \<Rightarrow> if outdated now maxAge q then None else Some q)\<rparr>)"

definition dist_RegisterObserver :: "observer \<Rightarrow> ('v, 'r) distributed \<Rightarrow> ('v, 'r) distributed" where
  "dist_RegisterObserver ob g = startSubscriber (g\<lparr>observers := List.insert ob (observers g)\<rparr>)"

definition dist_UnregisterObserver :: "observer \<Rightarrow> ('v, 'r) distributed \<Rightarrow> ('v, 'r) distributed" where
  "dist_UnregisterObserver ob g = g\<lparr>observers := removeAll ob (observers g)\<rparr>"

definition Close :: "('v, 'r) distributed \<Rightarrow> ('v, 'r) distributed" where
  "Close g = g\<lparr>subscribed := False\<rparr>"

section \<open>The distributed registry refines the local one\<close>

datatype 'v registry_op =
    DoRegister "'v running_query" | DoRunning string | DoResult string "'v query_result option" duration
  | DoError string string duration | DoCancel string | DoCleanup duration "string list"
  | DoObserve observer | DoUnobserve observer

fun local_op :: "instant \<times> 'v registry_op \<Rightarrow> 'v registry \<Rightarrow> 'v registry" where
  "local_op (t, DoRegister q) g = Register t q g"
| "local_op (t, DoRunning qid) g = SetRunning t qid g"
| "local_op (t, DoResult qid res d) g = UpdateResult qid res d g"
| "local_op (t, DoError qid msg d) g = UpdateError qid msg d g"
| "local_op (t, DoCancel qid) g = snd (registry_Cancel qid g)"
| "local_op (t, DoCleanup d ids) g = registry_Cleanup t d g"
| "local_op (t, DoObserve ob) g = RegisterObserver ob g"
| "local_op (t, DoUnobserve ob) g = UnregisterObserver ob g"

fun dist_op ::
  "'r redis \<Rightarrow> 'v codec \<Rightarrow> instant \<times> 'v registry_op \<Rightarrow> ('v, 'r) distributed \<Rightarrow> ('v, 'r) distributed" where
  "dist_op R J (t, DoRegister q) g = dist_Register R J t q g"
| "dist_op R J (t, DoRunning qid) g = dist_SetRunning R J t qid g"
| "dist_op R J (t, DoResult qid res d) g = dist_UpdateResult R J t qid res d g"
| "dist_op R J (t, DoError qid msg d) g = dist_UpdateError R J t qid msg d g"
| "dist_op R J (t, DoCancel qid) g = snd (dist_Cancel R J t qid g)"
| "dist_op R J (t, DoCleanup d ids) g = dist_Cleanup R t d ids g"
| "dist_op R J (t, DoObserve ob) g = dist_RegisterObserver ob g"
| "dist_op R J (t, DoUnobserve ob) g = dist_UnregisterObserver ob g"

abbreviation local_view :: "('v, 'r) distributed \<Rightarrow> 'v registry" where
  "local_view \<equiv> registry.truncate"

lemma abs_fields [simp]:
  "queries (local_view g) = queries g" "observers (local_view g) = observers g"
  "notified (local_view g) = notified g" "cancelled (local_view g) = cancelled g"
  by (simp_all add: registry.defs)

lemma abs_quiet [simp]:
  "local_view (redis_write R t k v g) = local_view g" "local_view (saveToRedis R J t st g) = local_view g"
  "local_view (saveResultToRedis R J t qid res g) = local_view g" "local_view (publishUpdate J st g) = local_view g"
  "local_view (publishCancelCommand J qid g) = local_view g" "local_view (startSubscriber g) = local_view g"
  "local_view (deleteFromRedis R t qid g) = local_view g" "local_view (deleteResultFromRedis R t qid g) = local_view g"
  by (auto simp: redis_write_def saveToRedis_def saveResultToRedis_def publishUpdate_def
      publishCancelCommand_def send_message_def startSubscriber_def deleteFromRedis_def deleteResultFromRedis_def
      registry.defs split: sum.splits option.splits)

lemma abs_update [simp]:
  "local_view (g\<lparr>queries := m\<rparr>) = (local_view g)\<lparr>queries := m\<rparr>"
  "local_view (g\<lparr>observers := obs\<rparr>) = (local_view g)\<lparr>observers := obs\<rparr>"
  "local_view (g\<lparr>notified := ns\<rparr>) = (local_view g)\<lparr>notified := ns\<rparr>"
  "local_view (g\<lparr>cancelled := cs\<rparr>) = (local_view g)\<lparr>cancelled := cs\<rparr>"
  by (simp_all add: registry.defs)

lemma abs_change [simp]:
  "local_view (notifyObservers qid g) = notifyObservers qid (local_view g)"
  "local_view (set_query qid q g) = set_query qid q (local_view g)"
  "local_view (call_cancel qid q g) = call_cancel qid q (local_view g)"
  by (simp_all add: notifyObservers_def set_query_def call_cancel_def)

lemma abs_told [simp]: "local_view (saved_and_told R J t qid q g) = notifyObservers qid (local_view g)"
  by (simp add: saved_and_told_def Let_def)

lemma abs_remote [simp]: "local_view (snd (remote_cancel R J t qid g)) = local_view g"
  by (auto simp: remote_cancel_def split: sum.splits option.splits)

lemma abs_deletes: "local_view (fold (\<lambda>qid g. deleteResultFromRedis R t qid (deleteFromRedis R t qid g)) ids g) = local_view g"
  by (induction ids arbitrary: g) simp_all

lemma abs_op: "local_view (dist_op R J e g) = local_op e (local_view g)"
proof (cases e)
  case (Pair t c)
  show ?thesis
    by (cases c)
       (auto simp: Pair dist_Register_def Register_def dist_SetRunning_def SetRunning_def
         dist_UpdateResult_def UpdateResult_def dist_UpdateError_def UpdateError_def dist_Cancel_def
         registry_Cancel_def dist_Cleanup_def registry_Cleanup_def abs_deletes dist_RegisterObserver_def
         RegisterObserver_def dist_UnregisterObserver_def UnregisterObserver_def Let_def
         split: option.splits)
qed

text \<open>C33: Whatever Redis answers, the distributed registry behaves on its own node as the local one:
  after the same operations it holds the same queries, has told its observers the same and has
  cancelled the same contexts. Cancelling differs in its reply alone, and then a command for
  another node has been handed to Redis.\<close>

theorem distributed_refines_local:
  "local_view (fold (dist_op R J) ops g) = fold local_op ops (local_view g) \<and>
   (let (yes, g') = dist_Cancel R J t qid g
    in (yes = fst (registry_Cancel qid (local_view g)) \<or>
        published g' = published g @ [CancelCommand qid (node g)]) \<and>
       local_view g' = snd (registry_Cancel qid (local_view g)))"
proof
  show "local_view (fold (dist_op R J) ops g) = fold local_op ops (local_view g)"
    by (induction ops arbitrary: g) (simp_all add: abs_op)
  have "fst (remote_cancel R J t qid g) \<Longrightarrow>
      published (snd (remote_cancel R J t qid g)) = published g @ [CancelCommand qid (node g)]"
    by (auto simp: remote_cancel_def publishCancelCommand_def send_message_def split: sum.splits option.splits if_splits)
  moreover have "local_view (snd (dist_Cancel R J t qid g)) = snd (registry_Cancel qid (local_view g))"
    using abs_op [of R J "(t, DoCancel qid)" g] by simp
  ultimately show "let (yes, g') = dist_Cancel R J t qid g
    in (yes = fst (registry_Cancel qid (local_view g)) \<or>
        published g' = published g @ [CancelCommand qid (node g)]) \<and>
       local_view g' = snd (registry_Cancel qid (local_view g))"
    by (cases "queries g qid") (auto simp: dist_Cancel_def registry_Cancel_def Let_def case_prod_beta)
qed

text \<open>That command can be lost, and the reply is still that the query is cancelled.\<close>

lemma lost_cancel_is_confirmed:
  assumes "queries g qid = None" "getFromRedis R J t qid (mirror g) = Inr (Some st)"
    and "\<not> terminal_status (rs_status st)" "rs_node st \<noteq> []" "rs_node st \<noteq> node g" "\<not> accepts J (length (published g))"
  shows "fst (dist_Cancel R J t qid g)" "delivered (snd (dist_Cancel R J t qid g)) = delivered g"
  using assms by (auto simp: dist_Cancel_def remote_cancel_def publishCancelCommand_def send_message_def terminal_status_def)

text \<open>A registry that has been closed hears no other node again, whatever is registered with it.\<close>

lemma closed_stays_closed:
  assumes "started g" "\<not> subscribed g"
  shows "started (dist_op R J e g) \<and> \<not> subscribed (dist_op R J e g)"
proof -
  have quiet: "started (redis_write R t k x h) = started h" "subscribed (redis_write R t k x h) = subscribed h"
      "started (publishUpdate J st h) = started h" "subscribed (publishUpdate J st h) = subscribed h"
      "started (publishCancelCommand J qid h) = started h" "subscribed (publishCancelCommand J qid h) = subscribed h"
      "started (set_query qid q h) = started h" "subscribed (set_query qid q h) = subscribed h"
      "started (notifyObservers qid h) = started h" "subscribed (notifyObservers qid h) = subscribed h"
      "started (call_cancel qid q h) = started h" "subscribed (call_cancel qid q h) = subscribed h"
    for t k x st qid q and h :: "('a, 'b) distributed"
    by (simp_all add: redis_write_def publishUpdate_def publishCancelCommand_def send_message_def set_query_def
        notifyObservers_def call_cancel_def split: sum.splits)
  have deletes: "started (fold (\<lambda>qid g. deleteResultFromRedis R t qid (deleteFromRedis R t qid g)) ids h) = started h \<and>
      subscribed (fold (\<lambda>qid g. deleteResultFromRedis R t qid (deleteFromRedis R t qid g)) ids h) = subscribed h"
    for t ids and h :: "('a, 'b) distributed"
    by (induction ids arbitrary: h) (simp_all add: deleteResultFromRedis_def deleteFromRedis_def)
  obtain t c where e: "e = (t, c)" by fastforce
  show ?thesis
    using assms
    by (cases c) (auto simp: e quiet deletes dist_Register_def startSubscriber_def saveToRedis_def saveResultToRedis_def
        dist_SetRunning_def dist_UpdateResult_def dist_UpdateError_def dist_Cancel_def remote_cancel_def saved_and_told_def
        dist_Cleanup_def dist_RegisterObserver_def dist_UnregisterObserver_def Let_def split: option.splits sum.splits)
qed

section \<open>What another node sees\<close>

datatype 'v change = ToRunning | ToResult "'v query_result" duration | ToError string duration | ToCancelled

fun changed ::
  "'r redis \<Rightarrow> 'v codec \<Rightarrow> instant \<Rightarrow> string \<Rightarrow> 'v change \<Rightarrow> ('v, 'r) distributed \<Rightarrow> ('v, 'r) distributed" where
  "changed R J t qid ToRunning g = dist_SetRunning R J t qid g"
| "changed R J t qid (ToResult x d) g = dist_UpdateResult R J t qid (Some x) d g"
| "changed R J t qid (ToError msg d) g = dist_UpdateError R J t qid msg d g"
| "changed R J t qid ToCancelled g = snd (dist_Cancel R J t qid g)"

definition cancellable :: "'v running_query \<Rightarrow> bool" where
  "cancellable q \<longleftrightarrow> q_status q = QueryStatusPending \<or> q_status q = QueryStatusRunning"

text \<open>The entry after the change.\<close>

fun entry_after :: "instant \<Rightarrow> 'v change \<Rightarrow> 'v running_query \<Rightarrow> 'v running_query" where
  "entry_after t ToRunning q = q\<lparr>q_status := QueryStatusRunning, q_start := Some t\<rparr>"
| "entry_after t (ToResult x d) q = q\<lparr>q_status := QueryStatusCompleted, q_result := Some x, q_time := d\<rparr>"
| "entry_after t (ToError msg d) q = q\<lparr>q_status := QueryStatusFailed, q_error := msg, q_time := d\<rparr>"
| "entry_after t ToCancelled q = q\<lparr>q_status := QueryStatusCancelled\<rparr>"

lemma mirror_simps [simp]:
  "mirror (notifyObservers qid g) = mirror g" "mirror (set_query qid q g) = mirror g"
  "mirror (call_cancel qid q g) = mirror g" "mirror (publishUpdate J st g) = mirror g"
  "node (set_query qid q g) = node g" "node (call_cancel qid q g) = node g"
  by (simp_all add: notifyObservers_def set_query_def call_cancel_def publishUpdate_def send_message_def split: sum.splits)

lemma queries_change [simp]:
  "queries (notifyObservers qid g) = queries g" "queries (set_query qid q g) = (queries g)(qid \<mapsto> q)"
  "queries (call_cancel qid q g) = queries g"
  by (simp_all add: notifyObservers_def set_query_def call_cancel_def)

lemma queries_simps [simp]:
  "queries (publishUpdate J st g) = queries g"
  "queries (saveToRedis R J t st g) = queries g" "queries (saveResultToRedis R J t qid res g) = queries g"
  "queries (saved_and_told R J t qid q g) = queries g" "queries (startSubscriber g) = queries g"
  by (simp_all add: publishUpdate_def send_message_def saveToRedis_def saveResultToRedis_def redis_write_def
      saved_and_told_def startSubscriber_def Let_def split: sum.splits option.splits)

lemma rs_id_local [simp]: "rs_id (localToRedisState n q) = q_id q"
  by (simp add: localToRedisState_def)

lemma queries_write [simp]: "queries (redis_write R t k enc g) = queries g"
  by (simp add: redis_write_def split: sum.splits)

lemma redis_write_kv:
  assumes "redis_server R kv" "redis_up R" "enc = Inr v"
  shows "kv (mirror (redis_write R t k enc g)) = put t k v mirror_ttl (kv (mirror g))"
proof -
  obtain r' where r': "redis_Set R t k v mirror_ttl (mirror g) = (Inr (), r')"
    using up_Set [OF assms(2), of t k v mirror_ttl "mirror g"] by auto
  have "mirror_ttl \<noteq> - 1" by (simp add: mirror_ttl_def)
  from redis_server.set_law [OF assms(1) this r'] r' show ?thesis by (simp add: redis_write_def assms(3))
qed

text \<open>The keys after a change: the new state, and the result of a completed query.\<close>

lemma changed_kv:
  assumes "redis_server R kv" "redis_up R" "queries g qid = Some q" "q_id q = qid"
    and "c = ToCancelled \<longrightarrow> cancellable q"
    and "enc_state J (localToRedisState (node g) (entry_after t c q)) = Inr v"
    and "\<forall>x d. c = ToResult x d \<longrightarrow> enc_result J (saved_result x) = Inr w"
  shows "queries (changed R J t qid c g) qid = Some (entry_after t c q)"
    and "kv (mirror (changed R J t qid c g)) (state_key qid) = Some (v, Some (t + mirror_ttl))"
    and "\<And>x d. c = ToResult x d \<Longrightarrow>
      kv (mirror (changed R J t qid c g)) (result_key qid) = Some (w, Some (t + mirror_ttl))"
proof -
  have p: "put t k u mirror_ttl m k = Some (u, Some (t + mirror_ttl))" for k u and m :: keys
    by (simp add: put_def expiry_def mirror_ttl_def)
  have ne: "state_key qid \<noteq> result_key qid"
  proof
    assume "state_key qid = result_key qid"
    then have "qid = ''result:'' @ qid" by (simp add: state_key_def result_key_def)
    then show False by (metis append_self_conv2 list.distinct(1))
  qed
  note simps = redis_write_kv [OF assms(1,2)] saveToRedis_def saveResultToRedis_def saved_and_told_def
    dist_SetRunning_def dist_UpdateResult_def dist_UpdateError_def dist_Cancel_def Let_def
    assms(3) cancellable_def assms(4) p ne ne [symmetric]
  show "queries (changed R J t qid c g) qid = Some (entry_after t c q)"
    using assms(5) by (cases c) (auto simp: simps)
  show "kv (mirror (changed R J t qid c g)) (state_key qid) = Some (v, Some (t + mirror_ttl))"
    using assms(5,6,7) by (cases c) (auto simp: simps)
  show "kv (mirror (changed R J t qid c g)) (result_key qid) = Some (w, Some (t + mirror_ttl))"
    if "c = ToResult x d" for x d
    using assms(6,7) that by (auto simp: simps)
qed

definition to_seconds :: "instant option \<Rightarrow> instant option" where
  "to_seconds t = (case t of None \<Rightarrow> None | Some t \<Rightarrow> if unix_of t > 0 then Some (unix_of t * second) else None)"

text \<open>Within 35 minutes of a change that a node makes to one of its queries, every other node that
  does not hold the query itself finds it in Redis exactly as the first node has it: all fields,
  the times to the second, without a function to cancel it, and with the result, as it comes out of
  its text, once the query has completed. Of a result beyond ten thousand rows it finds the first
  ten thousand.\<close>

theorem other_nodes_see_the_change:
  assumes "redis_server R kv" "redis_up R"
    and "queries a qid = Some q" "q_id q = qid" "c = ToCancelled \<Longrightarrow> cancellable q"
    and "enc_state J (localToRedisState (node a) (entry_after t c q)) = Inr v"
    and "dec_state J v = Inr (localToRedisState (node a) (entry_after t c q))"
    and "\<And>x d. c = ToResult x d \<Longrightarrow> enc_result J (saved_result x) = Inr w \<and> dec_result J w = Inr y"
    and "queries b qid = None" "mirror b = mirror (changed R J t qid c a)" "u < t + mirror_ttl"
  shows "queries (changed R J t qid c a) qid = Some (entry_after t c q) \<and>
    dist_Get R J u qid b = Some ((entry_after t c q)
      \<lparr>q_result := (case c of ToResult x d \<Rightarrow> Some y | _ \<Rightarrow> None), q_cancel := False,
       q_start := to_seconds (q_start (entry_after t c q)),
       q_created := unix_of (q_created q) * second\<rparr>)"
proof -
  have "c = ToCancelled \<longrightarrow> cancellable q" "\<forall>x d. c = ToResult x d \<longrightarrow> enc_result J (saved_result x) = Inr w"
    using assms(5,8) by blast+
  note kv = changed_kv [where R = R and J = J and t = t and w = w, OF assms(1-4) this(1) assms(6) this(2)]
  have get: "redis_Get R u k (mirror b) = Inr (live u (kv (mirror b) k))" for k
    using up_Get [OF assms(2), of u k "mirror b"] redis_server.get_law [OF assms(1), of u k "mirror b"] by blast
  have state: "kv (mirror b) (state_key qid) = Some (v, Some (t + mirror_ttl))"
    using kv(2) assms(10) by simp
  have "dist_Get R J u qid b =
      Some (rebuilt R J u (localToRedisState (node a) (entry_after t c q)) (mirror b))"
    using assms(7,9,11) by (simp add: dist_Get_def getFromRedis_def get state)
  moreover have "getResultFromRedis R J u qid (mirror b) = Inr (Some y)" if "c = ToResult x d" for x d
    using kv(3) [OF that, folded assms(10)] assms(8) [OF that] assms(11)
    by (simp add: getResultFromRedis_def get)
  ultimately show ?thesis
    using kv(1) assms(4)
    by (cases c; cases "q_start q") (auto simp: rebuilt_def localToRedisState_def to_seconds_def)
qed

section \<open>The interface\<close>

text \<open>The Go interface \<open>queryRegistry\<close> as a record of its methods, and its two implementations.\<close>

record ('g, 'v) query_registry =
  m_Register :: "instant \<Rightarrow> 'v running_query \<Rightarrow> 'g \<Rightarrow> 'g"
  m_Get :: "instant \<Rightarrow> string \<Rightarrow> 'g \<Rightarrow> 'v running_query option"
  m_UpdateResult :: "instant \<Rightarrow> string \<Rightarrow> 'v query_result option \<Rightarrow> duration \<Rightarrow> 'g \<Rightarrow> 'g"
  m_UpdateError :: "instant \<Rightarrow> string \<Rightarrow> string \<Rightarrow> duration \<Rightarrow> 'g \<Rightarrow> 'g"
  m_Cancel :: "instant \<Rightarrow> string \<Rightarrow> 'g \<Rightarrow> bool \<times> 'g"
  m_SetRunning :: "instant \<Rightarrow> string \<Rightarrow> 'g \<Rightarrow> 'g"
  m_Cleanup :: "instant \<Rightarrow> duration \<Rightarrow> string list \<Rightarrow> 'g \<Rightarrow> 'g"

definition local_registry :: "('v registry, 'v) query_registry" where
  "local_registry = \<lparr>m_Register = Register, m_Get = (\<lambda>t. registry_Get),
     m_UpdateResult = (\<lambda>t. UpdateResult), m_UpdateError = (\<lambda>t. UpdateError),
     m_Cancel = (\<lambda>t. registry_Cancel), m_SetRunning = SetRunning,
     m_Cleanup = (\<lambda>t d ids. registry_Cleanup t d)\<rparr>"

definition redis_registry :: "'r redis \<Rightarrow> 'v codec \<Rightarrow> (('v, 'r) distributed, 'v) query_registry" where
  "redis_registry R J = \<lparr>m_Register = dist_Register R J, m_Get = dist_Get R J,
     m_UpdateResult = dist_UpdateResult R J, m_UpdateError = dist_UpdateError R J,
     m_Cancel = dist_Cancel R J, m_SetRunning = dist_SetRunning R J, m_Cleanup = dist_Cleanup R\<rparr>"

text \<open>What the query handler relies on, for the queries of its own node: a call changes the entry it
  names as it says and no other, a cancel succeeds on every query under way that is held here, and
  a clean-up takes only entries that have ended.\<close>

locale registry_laws =
  fixes I :: "('g, 'v) query_registry"
    and entries :: "'g \<Rightarrow> string \<Rightarrow> 'v running_query option"
  assumes register_law: "entries (m_Register I t q g) = (entries g)(q_id q \<mapsto> q\<lparr>q_created := t\<rparr>)"
    and get_law: "entries g qid = Some q \<Longrightarrow> m_Get I t qid g = Some q"
    and running_law: "entries (m_SetRunning I t qid g) = (case entries g qid of None \<Rightarrow> entries g
      | Some q \<Rightarrow> (entries g)(qid \<mapsto> q\<lparr>q_status := QueryStatusRunning, q_start := Some t\<rparr>))"
    and result_law: "entries (m_UpdateResult I t qid res d g) = (case entries g qid of None \<Rightarrow> entries g
      | Some q \<Rightarrow> (entries g)(qid \<mapsto> q\<lparr>q_status := QueryStatusCompleted, q_result := res, q_time := d\<rparr>))"
    and error_law: "entries (m_UpdateError I t qid msg d g) = (case entries g qid of None \<Rightarrow> entries g
      | Some q \<Rightarrow> (entries g)(qid \<mapsto> q\<lparr>q_status := QueryStatusFailed, q_error := msg, q_time := d\<rparr>))"
    and cancel_law: "entries (snd (m_Cancel I t qid g)) = (case entries g qid of None \<Rightarrow> entries g
      | Some q \<Rightarrow> if cancellable q then (entries g)(qid \<mapsto> q\<lparr>q_status := QueryStatusCancelled\<rparr>)
                 else entries g)"
    and cancel_reply: "entries g qid = Some q \<Longrightarrow> cancellable q \<Longrightarrow> fst (m_Cancel I t qid g)"
    and cleanup_law: "entries (m_Cleanup I t age ids g) qid = (case entries g qid of None \<Rightarrow> None
      | Some q \<Rightarrow> if outdated t age q then None else Some q)"

interpretation in_memory: registry_laws local_registry queries
  by unfold_locales
     (auto simp: local_registry_def Register_def registry_Get_def SetRunning_def UpdateResult_def
       UpdateError_def registry_Cancel_def cancellable_def registry_Cleanup_def split: option.splits)

lemma queries_remote [simp]: "queries (snd (remote_cancel R J t qid g)) = queries g"
  using abs_remote [of R J t qid g] by (metis abs_fields(1))

lemma queries_deletes [simp]:
  "queries (fold (\<lambda>qid g. deleteResultFromRedis R t qid (deleteFromRedis R t qid g)) ids g) = queries g"
  using abs_deletes [of R t ids g] by (metis abs_fields(1))

interpretation shared: registry_laws "redis_registry R J" queries for R J
  by unfold_locales
     (auto simp: redis_registry_def dist_Register_def dist_Get_def dist_SetRunning_def dist_UpdateResult_def
       dist_UpdateError_def dist_Cancel_def cancellable_def dist_Cleanup_def Let_def split: option.splits)

lemmas memory_laws = in_memory.registry_laws_axioms
lemmas shared_laws = shared.registry_laws_axioms

section \<open>The properties at concrete runs\<close>

definition demo_query :: "string \<Rightarrow> nat running_query" where
  "demo_query i = \<lparr>q_id = i, q_datasource = 1, q_database = ''db'', q_sql = ''SELECT 1'', q_user = 7,
     q_status = QueryStatusPending, q_result = None, q_error = [], q_time = 0, q_start = None,
     q_cached = False, q_cancel = True, q_created = 0\<rparr>"

text \<open>A codec that knows one text, of the state of the demo query once it has failed.\<close>

definition demo_failed :: "nat running_query" where
  "demo_failed = entry_after (10 * second) (ToError ''bad'' 5) (demo_query ''q_1'')"

definition demo_codec :: "nat codec" where
  "demo_codec = \<lparr>enc_state = \<lambda>st. Inr ''s'', dec_state = \<lambda>v. Inr (localToRedisState ''a'' demo_failed),
     enc_result = \<lambda>x. Inl ''unsupported'', dec_result = \<lambda>v. Inl ''unsupported'', accepts = \<lambda>n. True\<rparr>"

definition demo_owner :: "(nat, keys) distributed" where
  "demo_owner = (NewDistributedQueryRegistry Map.empty ''a'')\<lparr>queries := [''q_1'' \<mapsto> demo_query ''q_1'']\<rparr>"

theorem other_nodes_see_the_change_witness:
  "let a = changed mem_redis demo_codec (10 * second) ''q_1'' (ToError ''bad'' 5) demo_owner;
       b = (NewDistributedQueryRegistry (mirror a) ''b'' :: (nat, keys) distributed)
   in map_option (\<lambda>q. (q_status q, q_error q, q_cancel q)) (dist_Get mem_redis demo_codec (20 * second) ''q_1'' b) =
      Some (QueryStatusFailed, ''bad'', False)"
proof -
  let ?a = "changed mem_redis demo_codec (10 * second) ''q_1'' (ToError ''bad'' 5) demo_owner"
  let ?b = "NewDistributedQueryRegistry (mirror ?a) ''b'' :: (nat, keys) distributed"
  have "dist_Get mem_redis demo_codec (20 * second) ''q_1'' ?b =
      Some (demo_failed\<lparr>q_result := None, q_cancel := False, q_start := to_seconds (q_start demo_failed),
        q_created := unix_of (q_created (demo_query ''q_1'')) * second\<rparr>)"
    using other_nodes_see_the_change [where c = "ToError ''bad'' 5" and a = demo_owner and b = ?b
        and u = "20 * second" and t = "10 * second" and q = "demo_query ''q_1''" and J = demo_codec
        and v = "''s''" and w = "[]", OF mem_server mem_redis_up]
    by (simp add: demo_owner_def demo_query_def NewDistributedQueryRegistry_def demo_codec_def demo_failed_def
        mirror_ttl_def)
  then show ?thesis by (simp add: Let_def demo_failed_def)
qed

end
