(* ===== verification/Query_Cache.thy ===== *)
theory Query_Cache
  imports Complex_Main Query_Registry
begin

text \<open>
  The cache of query results and of metadata in Redis (datasource/cache.go). The MD5 digest, in
  hexadecimal, and \<open>encoding/json\<close> are arguments, as is Redis; the pages of keys that \<open>SCAN\<close> returns
  are an argument of the operations that scan. The lemmas show that the cache is a map from
  datasource, database, text and limit to results as long as no database name has a colon in it,
  and that it mixes queries up otherwise.
\<close>

section \<open>The service\<close>

record cache_stats =
  Hits :: int
  Misses :: int
  Errors :: int
  Evictions :: int

record 'r cache =
  c_redis :: 'r
  runtimeCacheTTL :: int     \<comment> \<open>seconds\<close>
  c_stats :: cache_stats

type_synonym config = "string \<Rightarrow> int"  \<comment> \<open>\<open>GetInt\<close> of the system configuration\<close>

definition refreshCacheConfig :: "config \<Rightarrow> 'r cache \<Rightarrow> 'r cache" where
  "refreshCacheConfig cfg c = c\<lparr>runtimeCacheTTL := cfg ''datasource.cache_ttl''\<rparr>"

definition NewCacheService :: "'r \<Rightarrow> config \<Rightarrow> 'r cache" where
  "NewCacheService r cfg = refreshCacheConfig cfg
     \<lparr>c_redis = r, runtimeCacheTTL = 0, c_stats = \<lparr>Hits = 0, Misses = 0, Errors = 0, Evictions = 0\<rparr>\<rparr>"

definition cache_OnConfigChanged :: "config \<Rightarrow> string \<Rightarrow> 'r cache \<Rightarrow> 'r cache" where
  "cache_OnConfigChanged cfg key c =
     (if key = ''datasource.cache_ttl'' \<or> key = ''datasource.cache_max_size'' then refreshCacheConfig cfg c else c)"

definition buildKey :: "(string \<Rightarrow> string) \<Rightarrow> int \<Rightarrow> string \<Rightarrow> string \<Rightarrow> int \<Rightarrow> string" where
  "buildKey md5 ds database sql limit =
     ''datasource:query:cache:'' @ show_int ds @ '':'' @
     md5 (database @ '':'' @ sql @ '':'' @ show_int limit)"

definition miss :: "'r cache \<Rightarrow> 'r cache" where
  "miss c = c\<lparr>c_stats := (c_stats c)\<lparr>Misses := Misses (c_stats c) + 1\<rparr>\<rparr>"

definition cache_error :: "'r cache \<Rightarrow> 'r cache" where
  "cache_error c = c\<lparr>c_stats := (c_stats c)\<lparr>Errors := Errors (c_stats c) + 1\<rparr>\<rparr>"

definition cache_Get ::
  "'r redis \<Rightarrow> 'v codec \<Rightarrow> (string \<Rightarrow> string) \<Rightarrow> instant \<Rightarrow> int \<Rightarrow> string \<Rightarrow> string \<Rightarrow> int \<Rightarrow> 'r cache \<Rightarrow>
   'v query_result option result \<times> 'r cache" where
  "cache_Get R J md5 t ds database sql limit c =
     (if runtimeCacheTTL c \<le> 0 then (Inr None, c)
      else (case redis_Get R t (buildKey md5 ds database sql limit) (c_redis c) of
              Inr None \<Rightarrow> (Inr None, miss c)
            | Inl e \<Rightarrow> (Inl (''cache get error: '' @ e), cache_error c)
            | Inr (Some data) \<Rightarrow>
                (case dec_result J data of
                   Inl e \<Rightarrow> (Inl (''cache unmarshal error: '' @ e), cache_error c)
                 | Inr res \<Rightarrow> (Inr (Some res),
                     c\<lparr>c_stats := (c_stats c)\<lparr>Hits := Hits (c_stats c) + 1\<rparr>\<rparr>))))"

definition cache_Set ::
  "'r redis \<Rightarrow> 'v codec \<Rightarrow> (string \<Rightarrow> string) \<Rightarrow> instant \<Rightarrow> int \<Rightarrow> string \<Rightarrow> string \<Rightarrow> int \<Rightarrow> 'v query_result \<Rightarrow>
   'r cache \<Rightarrow> unit result \<times> 'r cache" where
  "cache_Set R J md5 t ds database sql limit res c =
     (if runtimeCacheTTL c \<le> 0 then (Inr (), c)
      else (case enc_result J res of
              Inl e \<Rightarrow> (Inl (''cache marshal error: '' @ e), c)
            | Inr data \<Rightarrow>
                (case redis_Set R t (buildKey md5 ds database sql limit) data
                        (wrap64 (runtimeCacheTTL c * second)) (c_redis c) of
                   (x, r) \<Rightarrow> (x, c\<lparr>c_redis := r\<rparr>))))"

text \<open>The loop over the pages of \<open>SCAN\<close>: the count of keys deleted before an error, if any, is lost.\<close>

primrec delete_pages ::
  "'r redis \<Rightarrow> instant \<Rightarrow> string \<Rightarrow> string list result list \<Rightarrow> int \<Rightarrow> 'r \<Rightarrow> int result \<times> 'r" where
  "delete_pages R t what [] count r = (Inr count, r)"
| "delete_pages R t what (p # ps) count r =
     (case p of
        Inl e \<Rightarrow> (Inl (what @ '' scan error: '' @ e), r)
      | Inr keys \<Rightarrow>
          (if keys = [] then delete_pages R t what ps count r
           else (case redis_Del R t keys r of
                   (Inl e, r') \<Rightarrow> (Inl (what @ '' delete error: '' @ e), r')
                 | (Inr _, r') \<Rightarrow> delete_pages R t what ps (count + int (length keys)) r')))"

definition evict ::
  "'r redis \<Rightarrow> instant \<Rightarrow> string list result list \<Rightarrow> 'r cache \<Rightarrow> unit result \<times> 'r cache" where
  "evict R t pages c =
     (case delete_pages R t ''cache'' pages 0 (c_redis c) of
        (Inl e, r) \<Rightarrow> (Inl e, c\<lparr>c_redis := r\<rparr>)
      | (Inr n, r) \<Rightarrow> (Inr (), c\<lparr>c_redis := r, c_stats := (if n > 0
            then (c_stats c)\<lparr>Evictions := Evictions (c_stats c) + n\<rparr> else c_stats c)\<rparr>))"

text \<open>The pages hold the keys below this prefix; the star of the pattern is at its end.\<close>

definition cache_prefix :: "int \<Rightarrow> string" where
  "cache_prefix ds = ''datasource:query:cache:'' @ show_int ds @ '':''"

definition cache_Invalidate ::
  "'r redis \<Rightarrow> instant \<Rightarrow> (string \<Rightarrow> string list result list) \<Rightarrow> int \<Rightarrow> 'r cache \<Rightarrow> unit result \<times> 'r cache" where
  "cache_Invalidate R t scan ds c = evict R t (scan (cache_prefix ds)) c"

text \<open>All keys that the pattern finds are taken as keys of the database.\<close>

definition InvalidateByDatabase ::
  "'r redis \<Rightarrow> instant \<Rightarrow> (string \<Rightarrow> string list result list) \<Rightarrow> int \<Rightarrow> string \<Rightarrow> 'r cache \<Rightarrow>
   unit result \<times> 'r cache" where
  "InvalidateByDatabase R t scan ds database c =
     evict R t (map (map_sum id (\<lambda>keys. map (\<lambda>key. key) keys)) (scan (cache_prefix ds))) c"

definition metadata_key :: "int \<Rightarrow> string \<Rightarrow> string \<Rightarrow> string" where
  "metadata_key ds level key = ''datasource:metadata:cache:'' @ show_int ds @ '':'' @ level @ '':'' @ key"

definition GetMetadata ::
  "'r redis \<Rightarrow> instant \<Rightarrow> int \<Rightarrow> string \<Rightarrow> string \<Rightarrow> 'r cache \<Rightarrow> string option result" where
  "GetMetadata R t ds level key c =
     (if runtimeCacheTTL c \<le> 0 then Inr None
      else (case redis_Get R t (metadata_key ds level key) (c_redis c) of
              Inl e \<Rightarrow> Inl (''metadata cache get error: '' @ e) | Inr x \<Rightarrow> Inr x))"

definition SetMetadata ::
  "'r redis \<Rightarrow> instant \<Rightarrow> int \<Rightarrow> string \<Rightarrow> string \<Rightarrow> string \<Rightarrow> 'r cache \<Rightarrow> unit result \<times> 'r cache" where
  "SetMetadata R t ds level key data c =
     (if runtimeCacheTTL c \<le> 0 then (Inr (), c)
      else (case redis_Set R t (metadata_key ds level key) data
                   (wrap64 (runtimeCacheTTL c * second)) (c_redis c) of
              (x, r) \<Rightarrow> (x, c\<lparr>c_redis := r\<rparr>)))"

definition InvalidateMetadata ::
  "'r redis \<Rightarrow> instant \<Rightarrow> (string \<Rightarrow> string list result list) \<Rightarrow> int \<Rightarrow> 'r cache \<Rightarrow> unit result \<times> 'r cache" where
  "InvalidateMetadata R t scan ds c =
     (case delete_pages R t ''metadata cache'' (scan (''datasource:metadata:cache:'' @ show_int ds @ '':'')) 0 (c_redis c) of
        (Inl e, r) \<Rightarrow> (Inl e, c\<lparr>c_redis := r\<rparr>)
      | (Inr n, r) \<Rightarrow> (Inr (), c\<lparr>c_redis := r\<rparr>))"

definition GetStats :: "'r cache \<Rightarrow> cache_stats" where "GetStats c = c_stats c"

definition ResetStats :: "'r cache \<Rightarrow> 'r cache" where
  "ResetStats c = c\<lparr>c_stats := \<lparr>Hits = 0, Misses = 0, Errors = 0, Evictions = 0\<rparr>\<rparr>"

text \<open>The rate as an exact fraction.\<close>

definition GetHitRate :: "'r cache \<Rightarrow> rat" where
  "GetHitRate c =
     (let total = Hits (c_stats c) + Misses (c_stats c)
      in if total = 0 then 0 else of_int (Hits (c_stats c)) / of_int total * 100)"

section \<open>Keys\<close>

lemma digit_not_colon: "CHR '':'' \<notin> set (show_int n)"
proof -
  have "CHR '':'' \<notin> set (show_nat m)" for m
  proof
    assume "CHR '':'' \<in> set (show_nat m)"
    then obtain d :: nat where "d < 10" "CHR '':'' = char_of (48 + d)" using show_nat_digits by blast
    then have "(of_char CHR '':'' :: nat) = 48 + d" by (simp only: digit_char)
    with \<open>d < 10\<close> show False by simp
  qed
  then show ?thesis by (simp add: show_int_def)
qed

text \<open>A split at the last colon.\<close>

lemma last_sep_inj:
  assumes "c \<notin> set us" "c \<notin> set vs" "xs @ c # us = ys @ c # vs"
  shows "xs = ys \<and> us = vs"
proof -
  have "rev us @ c # rev xs = rev vs @ c # rev ys" using arg_cong [OF assms(3), of rev] by simp
  from append_sep_inj [OF _ _ this] assms(1,2) show ?thesis by simp
qed

lemma buildKey_inj:
  assumes "inj_on md5 {db @ '':'' @ sql @ '':'' @ show_int n, db' @ '':'' @ sql' @ '':'' @ show_int n'}"
    and "CHR '':'' \<notin> set db" "CHR '':'' \<notin> set db'"
    and "buildKey md5 ds db sql n = buildKey md5 ds' db' sql' n'"
  shows "ds = ds' \<and> db = db' \<and> sql = sql' \<and> n = n'"
proof -
  have "show_int ds @ CHR '':'' # md5 (db @ '':'' @ sql @ '':'' @ show_int n) =
      show_int ds' @ CHR '':'' # md5 (db' @ '':'' @ sql' @ '':'' @ show_int n')"
    using assms(4) by (simp add: buildKey_def)
  from append_sep_inj [OF digit_not_colon digit_not_colon this]
  have ds: "ds = ds'" and m: "md5 (db @ '':'' @ sql @ '':'' @ show_int n) = md5 (db' @ '':'' @ sql' @ '':'' @ show_int n')"
    by (auto dest: show_int_inj)
  have "db @ CHR '':'' # (sql @ CHR '':'' # show_int n) = db' @ CHR '':'' # (sql' @ CHR '':'' # show_int n')"
    using inj_onD [OF assms(1) m] by simp
  moreover from append_sep_inj [OF assms(2,3) this]
  have "db = db'" "sql @ CHR '':'' # show_int n = sql' @ CHR '':'' # show_int n'" by simp_all
  moreover from last_sep_inj [OF digit_not_colon digit_not_colon this(2)]
  have "sql = sql'" "n = n'" by (auto dest: show_int_inj)
  ultimately show ?thesis using ds by simp
qed

section \<open>The cache as a map\<close>

text \<open>The abstraction: what the cache holds for a query at an instant. \<open>Set\<close> refines an update of this
  map at one place, \<open>Invalidate\<close> the removal of a datasource.\<close>

type_synonym query_key = "int \<times> string \<times> string \<times> int"

definition cached ::
  "('r \<Rightarrow> keys) \<Rightarrow> 'v codec \<Rightarrow> (string \<Rightarrow> string) \<Rightarrow> instant \<Rightarrow> 'r cache \<Rightarrow> query_key \<Rightarrow> 'v query_result option" where
  "cached kv J md5 t c k =
     (case k of (ds, db, sql, n) \<Rightarrow>
        (case live t (kv (c_redis c) (buildKey md5 ds db sql n)) of
           None \<Rightarrow> None
         | Some v \<Rightarrow> (case dec_result J v of Inl e \<Rightarrow> None | Inr res \<Rightarrow> Some res)))"

lemma cache_Get_cached:
  assumes "redis_server R kv" "redis_up R" "runtimeCacheTTL c > 0"
    and "\<And>v. live t (kv (c_redis c) (buildKey md5 ds db sql n)) = Some v \<Longrightarrow> \<exists>res. dec_result J v = Inr res"
  shows "fst (cache_Get R J md5 t ds db sql n c) = Inr (cached kv J md5 t c (ds, db, sql, n))"
proof -
  have "redis_Get R t k r = Inr (live t (kv r k))" for k r
    using up_Get [OF assms(2), of t k r] redis_server.get_law [OF assms(1), of t k r] by blast
  then show ?thesis
    using assms(3,4) by (auto simp: cache_Get_def cached_def split: option.splits sum.splits)
qed

lemma cache_Set_kv:
  assumes "redis_server R kv" "redis_up R" "0 < runtimeCacheTTL c" "runtimeCacheTTL c < 2 ^ 32"
    and "enc_result J res = Inr v" "cache_Set R J md5 t ds db sql n res c = (x, c')"
  shows "x = Inr () \<and> runtimeCacheTTL c' = runtimeCacheTTL c \<and>
    kv (c_redis c') = (kv (c_redis c))(buildKey md5 ds db sql n \<mapsto> (v, Some (t + runtimeCacheTTL c * second)))"
proof -
  have "runtimeCacheTTL c * second < 2 ^ 32 * second" using assms(4) by simp
  then have w: "wrap64 (runtimeCacheTTL c * second) = runtimeCacheTTL c * second"
    using assms(3) by (intro wrap64_id) auto
  obtain r where r: "redis_Set R t (buildKey md5 ds db sql n) v (runtimeCacheTTL c * second) (c_redis c) = (Inr (), r)"
    using up_Set [OF assms(2), of t "buildKey md5 ds db sql n" v "runtimeCacheTTL c * second" "c_redis c"] by auto
  have "runtimeCacheTTL c * second \<noteq> - 1" using assms(3) by linarith
  from redis_server.set_law [OF assms(1) this r] assms(3) r assms(5,6) w
  show ?thesis by (auto simp: cache_Set_def put_def expiry_def)
qed

section \<open>Properties\<close>


text \<open>With a colon in a name two different queries on two databases have one key, whatever the
  digest: the second is answered with the result stored for the first.\<close>

theorem cache_mixes_up_queries:
  assumes "redis_server R kv" "redis_up R"
    and "0 < runtimeCacheTTL c" "runtimeCacheTTL c < 2 ^ 32"
    and "enc_result J res = Inr v" "dec_result J v = Inr res'"
    and "cache_Set R J md5 t ds a (b @ '':'' @ sql) n res c = (x, c')"
    and "u < t + runtimeCacheTTL c * second"
  shows "fst (cache_Get R J md5 u ds (a @ '':'' @ b) sql n c') = Inr (Some res')"
proof -
  note kv = cache_Set_kv [OF assms(1-5,7)]
  have "buildKey md5 ds (a @ '':'' @ b) sql n = buildKey md5 ds a (b @ '':'' @ sql) n"
    by (simp add: buildKey_def)
  then have "cached kv J md5 u c' (ds, a @ '':'' @ b, sql, n) = Some res'"
    and "live u (kv (c_redis c') (buildKey md5 ds (a @ '':'' @ b) sql n)) = Some v"
    using kv assms(6,8) by (simp_all add: cached_def)
  then show ?thesis
    using cache_Get_cached [OF assms(1,2), of c' u md5 ds "a @ '':'' @ b" sql n J] kv assms(3,6) by auto
qed

text \<open>Invalidating one database invalidates the whole datasource.\<close>

lemma by_database_is_whole_datasource:
  "InvalidateByDatabase R t scan ds database c = cache_Invalidate R t scan ds c"
  by (simp add: InvalidateByDatabase_def cache_Invalidate_def map_sum.id [unfolded id_def] id_def)

section \<open>The properties at concrete caches\<close>

definition demo_result :: "nat query_result" where
  "demo_result = \<lparr>qr_columns = [''n''], qr_rows = [[1]], qr_count = 1\<rparr>"

definition result_codec :: "nat codec" where
  "result_codec = \<lparr>enc_state = \<lambda>st. Inl ''none'', dec_state = \<lambda>v. Inl ''none'',
     enc_result = \<lambda>x. Inr ''r'', dec_result = \<lambda>v. Inr demo_result, accepts = \<lambda>n. True\<rparr>"

definition demo_cache :: "keys cache" where
  "demo_cache = NewCacheService Map.empty (\<lambda>k. 300)"

lemma demo_cache_simps [simp]:
  "runtimeCacheTTL demo_cache = 300" "c_redis demo_cache = Map.empty"
  "enc_result result_codec x = Inr ''r''" "dec_result result_codec s = Inr demo_result"
  by (simp_all add: demo_cache_def NewCacheService_def refreshCacheConfig_def result_codec_def)


theorem cache_mixes_up_queries_witness:
  "let c' = snd (cache_Set mem_redis result_codec id 0 1 ''a'' ''b:SELECT 1'' 1000 demo_result demo_cache)
   in fst (cache_Get mem_redis result_codec id 5 1 ''a:b'' ''SELECT 1'' 1000 c') = Inr (Some demo_result)"
proof -
  obtain x c' where c': "cache_Set mem_redis result_codec id 0 1 ''a'' (''b'' @ '':'' @ ''SELECT 1'') 1000 demo_result demo_cache = (x, c')"
    by (cases "cache_Set mem_redis result_codec id 0 1 ''a'' (''b'' @ '':'' @ ''SELECT 1'') 1000 demo_result demo_cache")
  show ?thesis
    using cache_mixes_up_queries [OF mem_server mem_redis_up, of demo_cache result_codec demo_result "''r''" demo_result,
        OF _ _ _ _ c', of 5] c'
    by (simp add: Let_def)
qed

end
