(* ===== verification/Users.thy ===== *)
theory Users
  imports Rbac Go_Strings
begin

text \<open>
  Users, their roles and domains, and API tokens: the services auth_service.go, user_admin.go and
  api_token.go of scheduler/internal/service. The rows of users and tokens stand beside the tables of
  \<open>Rbac\<close>, whose statements the services share. Password hashing (bcrypt), the RSA decryption of
  transmitted passwords and the sealing of tokens are arguments; foreign keys do nothing, as SQLite
  leaves them off.
\<close>

section \<open>Rows\<close>

record user =
  u_id :: int
  u_name :: string
  u_real :: string
  u_phone :: string
  u_email :: string
  u_hash :: string
  u_active :: bool
  u_last :: "instant option"
  u_by :: "int option"
  u_created :: instant
  u_updated :: instant

record api_token =
  at_id :: int
  at_user :: int
  at_sealed :: string
  at_prefix :: string
  at_used :: "instant option"
  at_created :: instant

record identity =
  id_users :: "user list"
  id_tokens :: "api_token list"
  id_rbac :: rbac

datatype user_statement =
    U_by_name | U_by_id | U_active | U_last_login | U_create | U_role_by_code | U_assign_role int
  | U_assign_domain int | U_list | U_by_domain | U_roles | U_update | U_delete | U_delete_roles
  | U_delete_domains | U_password | U_role_ids | U_domain_ids | U_role_codes | U_domain_names
  | T_delete | T_insert | T_of_user | T_all | T_user_active | T_user_info

record vault =
  rsa_open :: "string \<Rightarrow> string result"
  bcrypt_hash :: "nat \<Rightarrow> string \<Rightarrow> string result"    \<comment> \<open>with the drawn salt\<close>
  bcrypt_match :: "string \<Rightarrow> string \<Rightarrow> bool"
  seal_token :: "nat \<Rightarrow> string \<Rightarrow> string result"
  open_token :: "string \<Rightarrow> string result"

record user_env =
  ue_db :: "user_statement \<Rightarrow> string option"
  ue_rbac :: db_verdict
  ue_now :: instant
  ue_new_id :: int
  ue_vault :: vault
  ue_draw :: nat

section \<open>Login queries\<close>

definition user_where :: "(user \<Rightarrow> bool) \<Rightarrow> identity \<Rightarrow> user option" where
  "user_where p s = first_where p (id_users s)"

definition auth_GetUserByUsername :: "user_env \<Rightarrow> string \<Rightarrow> identity \<Rightarrow> user option result" where
  "auth_GetUserByUsername V n s = on_db (ue_db V U_by_name) (user_where (\<lambda>u. u_name u = n) s)"

definition GetSSOUserByUsername :: "user_env \<Rightarrow> string \<Rightarrow> identity \<Rightarrow> user option result" where
  "GetSSOUserByUsername V n s =
     on_db (ue_db V U_by_name) (map_option (\<lambda>u. u\<lparr>u_hash := []\<rparr>) (user_where (\<lambda>u. u_name u = n) s))"

definition auth_GetUserByID :: "user_env \<Rightarrow> int \<Rightarrow> identity \<Rightarrow> user option result" where
  "auth_GetUserByID V i s =
     on_db (ue_db V U_by_id) (map_option (\<lambda>u. u\<lparr>u_id := 0, u_hash := []\<rparr>) (user_where (\<lambda>u. u_id u = i) s))"

definition GetUserActiveStatus :: "user_env \<Rightarrow> int \<Rightarrow> identity \<Rightarrow> bool option result" where
  "GetUserActiveStatus V i s = on_db (ue_db V U_active) (map_option u_active (user_where (\<lambda>u. u_id u = i) s))"

definition auth_UpdateLastLogin :: "user_env \<Rightarrow> int \<Rightarrow> identity \<Rightarrow> unit result \<times> identity" where
  "auth_UpdateLastLogin V i s =
     (case ue_db V U_last_login of
        Some e \<Rightarrow> (Inl e, s)
      | None \<Rightarrow> (Inr (), s\<lparr>id_users := upd_where (\<lambda>u. u_id u = i) (\<lambda>u. u\<lparr>u_last := Some (ue_now V)\<rparr>) (id_users s)\<rparr>))"

text \<open>\<open>username\<close> is unique.\<close>

definition add_user :: "user_env \<Rightarrow> user \<Rightarrow> identity \<Rightarrow> int result \<times> identity" where
  "add_user V u s =
     (case ue_db V U_create of
        Some e \<Rightarrow> (Inl e, s)
      | None \<Rightarrow>
          (if \<exists>x\<in>set (id_users s). u_name x = u_name u
           then (Inl ''UNIQUE constraint failed: bdopsflow_users.username'', s)
           else (Inr (ue_new_id V), s\<lparr>id_users := id_users s @ [u\<lparr>u_id := ue_new_id V\<rparr>]\<rparr>)))"

definition auth_CreateUser ::
  "user_env \<Rightarrow> string \<Rightarrow> string \<Rightarrow> string \<Rightarrow> string \<Rightarrow> string \<Rightarrow> identity \<Rightarrow> int result \<times> identity" where
  "auth_CreateUser V n real phone hash email s =
     add_user V \<lparr>u_id = 0, u_name = n, u_real = real, u_phone = phone, u_email = email, u_hash = hash,
       u_active = True, u_last = None, u_by = None, u_created = ue_now V, u_updated = ue_now V\<rparr> s"

definition GetRoleIDByCode :: "user_env \<Rightarrow> string \<Rightarrow> identity \<Rightarrow> int result" where
  "GetRoleIDByCode V k s =
     on_db (ue_db V U_role_by_code)
       (case first_where (\<lambda>r. r_code r = k) (roles (id_rbac s)) of None \<Rightarrow> 0 | Some r \<Rightarrow> r_id r)"

text \<open>The unique index on user, role and domain holds no row with a null domain.\<close>

definition insert_role :: "user_env \<Rightarrow> int \<Rightarrow> int option \<Rightarrow> int \<Rightarrow> identity \<Rightarrow> unit result \<times> identity" where
  "insert_role V u dm r s =
     (case ue_db V (U_assign_role r) of
        Some e \<Rightarrow> (Inl e, s)
      | None \<Rightarrow>
          (if dm \<noteq> None \<and> (\<exists>x\<in>set (user_roles (id_rbac s)). ur_user x = u \<and> ur_role x = r \<and> ur_domain x = dm)
           then (Inl ''UNIQUE constraint failed: bdopsflow_user_roles'', s)
           else (Inr (), s\<lparr>id_rbac := (id_rbac s)\<lparr>user_roles := user_roles (id_rbac s) @
                   [\<lparr>ur_user = u, ur_role = r, ur_domain = dm\<rparr>]\<rparr>\<rparr>)))"

definition AssignUserRole :: "user_env \<Rightarrow> int \<Rightarrow> int \<Rightarrow> identity \<Rightarrow> unit result \<times> identity" where
  "AssignUserRole V u r s = insert_role V u None r s"

section \<open>User administration\<close>

definition ListUsers :: "user_env \<Rightarrow> identity \<Rightarrow> user list result" where
  "ListUsers V s =
     on_db (ue_db V U_list) (map (\<lambda>u. u\<lparr>u_hash := []\<rparr>) (sort_key (\<lambda>u. - u_id u) (id_users s)))"

definition admin_GetUserByID :: "user_env \<Rightarrow> int \<Rightarrow> identity \<Rightarrow> user option result" where
  "admin_GetUserByID V i s = on_db (ue_db V U_by_id) (user_where (\<lambda>u. u_id u = i) s)"

definition admin_GetUserByUsername :: "user_env \<Rightarrow> string \<Rightarrow> identity \<Rightarrow> user option result" where
  "admin_GetUserByUsername V n s =
     on_db (ue_db V U_by_name) (map_option (\<lambda>u. u\<lparr>u_hash := []\<rparr>) (user_where (\<lambda>u. u_name u = n) s))"

definition GetUsersByDomain :: "user_env \<Rightarrow> int \<Rightarrow> identity \<Rightarrow> user list result" where
  "GetUsersByDomain V d s =
     on_db (ue_db V U_by_domain)
       (map (\<lambda>u. u\<lparr>u_hash := []\<rparr>) (sort_key (\<lambda>u. - u_id u)
          (concat (map (\<lambda>u. map (\<lambda>ud. u) (filter (\<lambda>ud. ud_user ud = u_id u \<and> ud_domain ud = d)
              (user_domains (id_rbac s)))) (id_users s)))))"

definition admin_GetUserRoles :: "user_env \<Rightarrow> int \<Rightarrow> identity \<Rightarrow> role list result" where
  "admin_GetUserRoles V i s =
     on_db (ue_db V U_roles)
       (map (\<lambda>(r, ur). scan_role r) (filter (\<lambda>(r, ur). r_id r = ur_role ur \<and> ur_user ur = i)
          (List.product (roles (id_rbac s)) (user_roles (id_rbac s)))))"

definition validatePlaintextPassword :: "string \<Rightarrow> unit result" where
  "validatePlaintextPassword p =
     (if length p < 6 then Inl ''password too short''
      else if length p > 30 then Inl ''password too long''
      else if list_ex (\<lambda>c. 97 \<le> code c \<and> code c \<le> 122 \<or> 65 \<le> code c \<and> code c \<le> 90) p \<and> list_ex digit p
           then Inr () else Inl ''password too weak'')"

definition hashed :: "user_env \<Rightarrow> string \<Rightarrow> string result" where
  "hashed V sent =
     rbind (rsa_open (ue_vault V) sent) (\<lambda>p.
     rbind (validatePlaintextPassword p) (\<lambda>_. bcrypt_hash (ue_vault V) (ue_draw V) p))"

text \<open>Roles and domains that cannot be inserted are logged.\<close>

fun try_roles :: "user_env \<Rightarrow> int \<Rightarrow> int list \<Rightarrow> identity \<Rightarrow> identity" where
  "try_roles V u [] s = s"
| "try_roles V u (r # rs) s = try_roles V u rs (snd (insert_role V u None r s))"

definition insert_domain :: "user_env \<Rightarrow> int \<Rightarrow> bool \<Rightarrow> int \<Rightarrow> identity \<Rightarrow> unit result \<times> identity" where
  "insert_domain V u def d s =
     (case ue_db V (U_assign_domain d) of
        Some e \<Rightarrow> (Inl e, s)
      | None \<Rightarrow>
          (if \<exists>x\<in>set (user_domains (id_rbac s)). ud_user x = u \<and> ud_domain x = d
           then (Inl ''UNIQUE constraint failed: bdopsflow_user_domains'', s)
           else (Inr (), s\<lparr>id_rbac := (id_rbac s)\<lparr>user_domains := user_domains (id_rbac s) @
                   [\<lparr>ud_user = u, ud_domain = d, ud_default = def\<rparr>]\<rparr>\<rparr>)))"

fun try_domains :: "user_env \<Rightarrow> int \<Rightarrow> bool \<Rightarrow> int list \<Rightarrow> identity \<Rightarrow> identity" where
  "try_domains V u first [] s = s"
| "try_domains V u first (d # ds) s = try_domains V u False ds (snd (insert_domain V u first d s))"

definition admin_CreateUser ::
  "user_env \<Rightarrow> string \<Rightarrow> string \<Rightarrow> string \<Rightarrow> string \<Rightarrow> string \<Rightarrow> int list \<Rightarrow> int list \<Rightarrow> int \<Rightarrow> identity \<Rightarrow>
   user option result \<times> identity" where
  "admin_CreateUser V n real phone email sent roleIDs domainIDs createdBy s =
     (case hashed V sent of
        Inl e \<Rightarrow> (Inl e, s)
      | Inr h \<Rightarrow>
          (case add_user V \<lparr>u_id = 0, u_name = n, u_real = real, u_phone = phone, u_email = email, u_hash = h,
                  u_active = True, u_last = None, u_by = Some createdBy, u_created = ue_now V,
                  u_updated = ue_now V\<rparr> s of
             (Inl e, s1) \<Rightarrow> (Inl e, s1)
           | (Inr i, s1) \<Rightarrow>
               (let s2 = try_domains V i True domainIDs (try_roles V i roleIDs s1)
                in (admin_GetUserByID V i s2, s2))))"

definition admin_UpdateUser ::
  "user_env \<Rightarrow> int \<Rightarrow> string \<Rightarrow> string \<Rightarrow> string \<Rightarrow> string \<Rightarrow> bool \<Rightarrow> identity \<Rightarrow> user option result \<times> identity" where
  "admin_UpdateUser V i n real phone email active s =
     (case ue_db V U_update of
        Some e \<Rightarrow> (Inl e, s)
      | None \<Rightarrow>
          (if (\<exists>x\<in>set (id_users s). u_id x = i) \<and> (\<exists>x\<in>set (id_users s). u_id x \<noteq> i \<and> u_name x = n)
           then (Inl ''UNIQUE constraint failed: bdopsflow_users.username'', s)
           else (let s1 = s\<lparr>id_users := upd_where (\<lambda>u. u_id u = i)
                   (\<lambda>u. u\<lparr>u_name := n, u_real := real, u_phone := phone, u_email := email, u_active := active,
                          u_updated := ue_now V\<rparr>) (id_users s)\<rparr>
                 in (admin_GetUserByID V i s1, s1))))"

definition DeleteUser :: "user_env \<Rightarrow> int \<Rightarrow> identity \<Rightarrow> unit result \<times> identity" where
  "DeleteUser V i s =
     (let s1 = (if ue_db V U_delete_roles = None
                then s\<lparr>id_rbac := (id_rbac s)\<lparr>user_roles := del_where (\<lambda>r. ur_user r = i) (user_roles (id_rbac s))\<rparr>\<rparr>
                else s);
          s2 = (if ue_db V U_delete_domains = None
                then s1\<lparr>id_rbac := (id_rbac s1)\<lparr>user_domains :=
                       del_where (\<lambda>d. ud_user d = i) (user_domains (id_rbac s1))\<rparr>\<rparr>
                else s1)
      in case ue_db V U_delete of
           Some e \<Rightarrow> (Inl e, s2)
         | None \<Rightarrow> (Inr (), s2\<lparr>id_users := del_where (\<lambda>u. u_id u = i) (id_users s2)\<rparr>))"

definition set_hash :: "user_env \<Rightarrow> int \<Rightarrow> string \<Rightarrow> identity \<Rightarrow> unit result \<times> identity" where
  "set_hash V i h s =
     (case ue_db V U_password of
        Some e \<Rightarrow> (Inl e, s)
      | None \<Rightarrow> (Inr (), s\<lparr>id_users := upd_where (\<lambda>u. u_id u = i)
                  (\<lambda>u. u\<lparr>u_hash := h, u_updated := ue_now V\<rparr>) (id_users s)\<rparr>))"

definition ChangePassword :: "user_env \<Rightarrow> int \<Rightarrow> string \<Rightarrow> string \<Rightarrow> identity \<Rightarrow> unit result \<times> identity" where
  "ChangePassword V i old new s =
     (case admin_GetUserByID V i s of
        Inl e \<Rightarrow> (Inl e, s)
      | Inr None \<Rightarrow> (Inl ''user not found'', s)
      | Inr (Some u) \<Rightarrow>
          (case rsa_open (ue_vault V) old of
             Inl e \<Rightarrow> (Inl ''invalid old password'', s)
           | Inr p \<Rightarrow>
               (if \<not> bcrypt_match (ue_vault V) (u_hash u) p then (Inl ''invalid old password'', s)
                else (case hashed V new of Inl e \<Rightarrow> (Inl e, s) | Inr h \<Rightarrow> set_hash V i h s))))"

definition ResetPassword :: "user_env \<Rightarrow> int \<Rightarrow> string \<Rightarrow> identity \<Rightarrow> unit result \<times> identity" where
  "ResetPassword V i new s = (case hashed V new of Inl e \<Rightarrow> (Inl e, s) | Inr h \<Rightarrow> set_hash V i h s)"

text \<open>The two methods named after a check of the domain; \<open>adminID\<close> is not used.\<close>

definition UpdateUserWithDomainCheck ::
  "user_env \<Rightarrow> int \<Rightarrow> int \<Rightarrow> string \<Rightarrow> string \<Rightarrow> string \<Rightarrow> string \<Rightarrow> bool \<Rightarrow> identity \<Rightarrow>
   user option result \<times> identity" where
  "UpdateUserWithDomainCheck V adminID i n real phone email active s =
     (case admin_GetUserByID V i s of
        Inl e \<Rightarrow> (Inl e, s)
      | Inr None \<Rightarrow> (Inl ''user not found'', s)
      | Inr (Some u) \<Rightarrow> admin_UpdateUser V i n real phone email active s)"

definition ResetUserPasswordWithDomainCheck ::
  "user_env \<Rightarrow> int \<Rightarrow> int \<Rightarrow> string \<Rightarrow> identity \<Rightarrow> unit result \<times> identity" where
  "ResetUserPasswordWithDomainCheck V adminID i new s =
     (case admin_GetUserByID V i s of
        Inl e \<Rightarrow> (Inl e, s)
      | Inr None \<Rightarrow> (Inl ''user not found'', s)
      | Inr (Some u) \<Rightarrow> ResetPassword V i new s)"

definition UpdateCurrentUser ::
  "user_env \<Rightarrow> int \<Rightarrow> string \<Rightarrow> string \<Rightarrow> string \<Rightarrow> identity \<Rightarrow> user option result \<times> identity" where
  "UpdateCurrentUser V i real phone email s =
     (case admin_GetUserByID V i s of
        Inl e \<Rightarrow> (Inl e, s)
      | Inr None \<Rightarrow> (Inl ''user not found'', s)
      | Inr (Some u) \<Rightarrow> admin_UpdateUser V i (u_name u) real phone email (u_active u) s)"

fun insert_roles :: "user_env \<Rightarrow> int \<Rightarrow> int option \<Rightarrow> int list \<Rightarrow> identity \<Rightarrow> unit result \<times> identity" where
  "insert_roles V u dm [] s = (Inr (), s)"
| "insert_roles V u dm (r # rs) s =
     (case insert_role V u dm r s of
        (Inl e, s1) \<Rightarrow> (Inl e, s1)
      | (Inr _, s1) \<Rightarrow> insert_roles V u dm rs s1)"

definition AssignUserRolesWithDomain ::
  "user_env \<Rightarrow> int \<Rightarrow> int list \<Rightarrow> int option \<Rightarrow> identity \<Rightarrow> unit result \<times> identity" where
  "AssignUserRolesWithDomain V u roleIDs dm s =
     (case ue_db V U_delete_roles of
        Some e \<Rightarrow> (Inl e, s)
      | None \<Rightarrow> insert_roles V u dm roleIDs
          (s\<lparr>id_rbac := (id_rbac s)\<lparr>user_roles := del_where (\<lambda>r. ur_user r = u) (user_roles (id_rbac s))\<rparr>\<rparr>))"

definition AssignUserRoles :: "user_env \<Rightarrow> int \<Rightarrow> int list \<Rightarrow> int list \<Rightarrow> identity \<Rightarrow> unit result \<times> identity" where
  "AssignUserRoles V u roleIDs domainIDs s =
     (case ue_db V U_delete_roles of
        Some e \<Rightarrow> (Inl e, s)
      | None \<Rightarrow> insert_roles V u None roleIDs
          (s\<lparr>id_rbac := (id_rbac s)\<lparr>user_roles := del_where (\<lambda>r. ur_user r = u) (user_roles (id_rbac s))\<rparr>\<rparr>))"

fun insert_domains :: "user_env \<Rightarrow> int \<Rightarrow> bool \<Rightarrow> int list \<Rightarrow> identity \<Rightarrow> unit result \<times> identity" where
  "insert_domains V u first [] s = (Inr (), s)"
| "insert_domains V u first (d # ds) s =
     (case insert_domain V u first d s of
        (Inl e, s1) \<Rightarrow> (Inl e, s1)
      | (Inr _, s1) \<Rightarrow> insert_domains V u False ds s1)"

definition AssignUserDomains :: "user_env \<Rightarrow> int \<Rightarrow> int list \<Rightarrow> identity \<Rightarrow> unit result \<times> identity" where
  "AssignUserDomains V u domainIDs s =
     (case ue_db V U_delete_domains of
        Some e \<Rightarrow> (Inl e, s)
      | None \<Rightarrow> insert_domains V u True domainIDs
          (s\<lparr>id_rbac := (id_rbac s)\<lparr>user_domains :=
              del_where (\<lambda>d. ud_user d = u) (user_domains (id_rbac s))\<rparr>\<rparr>))"

text \<open>A role whose code cannot be read is passed over. The verdict on the query depends on the role.\<close>

fun AreRolesSystemOnly :: "(int \<Rightarrow> db_verdict) \<Rightarrow> rbac \<Rightarrow> int list \<Rightarrow> bool" where
  "AreRolesSystemOnly E db [] = False"
| "AreRolesSystemOnly E db (r # rs) =
     (case GetRoleCodeByID (E r) db r of
        Inl e \<Rightarrow> AreRolesSystemOnly E db rs
      | Inr c \<Rightarrow> if c = ''system_admin'' then True else AreRolesSystemOnly E db rs)"

definition AreDomainsAccessibleByUser :: "db_verdict \<Rightarrow> rbac \<Rightarrow> int \<Rightarrow> int list \<Rightarrow> bool result" where
  "AreDomainsAccessibleByUser E db u domainIDs =
     (if domainIDs = [] then Inr True
      else rbind (GetUserDomainIDs E db u) (\<lambda>mine. Inr (list_all (\<lambda>d. d \<in> set mine) domainIDs)))"

section \<open>Rows with roles and domains\<close>

definition BatchGetUserRoleIDs :: "user_env \<Rightarrow> identity \<Rightarrow> (int \<Rightarrow> int list) result" where
  "BatchGetUserRoleIDs V s = on_db (ue_db V U_role_ids)
     (\<lambda>u. map ur_role (filter (\<lambda>r. ur_user r = u) (user_roles (id_rbac s))))"

definition BatchGetUserDomainIDs :: "user_env \<Rightarrow> identity \<Rightarrow> (int \<Rightarrow> int list) result" where
  "BatchGetUserDomainIDs V s = on_db (ue_db V U_domain_ids)
     (\<lambda>u. map ud_domain (filter (\<lambda>d. ud_user d = u) (user_domains (id_rbac s))))"

definition BatchGetUserRoleCodes :: "user_env \<Rightarrow> identity \<Rightarrow> (int \<Rightarrow> string list) result" where
  "BatchGetUserRoleCodes V s = on_db (ue_db V U_role_codes)
     (\<lambda>u. map (r_code \<circ> snd) (filter (\<lambda>(ur, r). ur_role ur = r_id r \<and> ur_user ur = u)
        (List.product (user_roles (id_rbac s)) (roles (id_rbac s)))))"

definition getDomainNameMap :: "user_env \<Rightarrow> identity \<Rightarrow> (int \<times> string) list result" where
  "getDomainNameMap V s = on_db (ue_db V U_domain_names)
     (map (\<lambda>d. (d_id d, d_name d)) (filter (\<lambda>d. d_id d > 0 \<and> d_name d \<noteq> []) (domains (id_rbac s))))"

record user_row = user +
  ux_roles :: "int list"
  ux_domains :: "int list"
  ux_names :: "string list"
  ux_codes :: "string list"

definition EnrichUsersWithRolesAndDomains :: "user_env \<Rightarrow> identity \<Rightarrow> user list \<Rightarrow> user_row list" where
  "EnrichUsersWithRolesAndDomains V s us =
     (let rs = (case BatchGetUserRoleIDs V s of Inl e \<Rightarrow> (\<lambda>u. []) | Inr f \<Rightarrow> f);
          ds = (case BatchGetUserDomainIDs V s of Inl e \<Rightarrow> (\<lambda>u. []) | Inr f \<Rightarrow> f);
          cs = (case BatchGetUserRoleCodes V s of Inl e \<Rightarrow> (\<lambda>u. []) | Inr f \<Rightarrow> f);
          ns = (case getDomainNameMap V s of Inl e \<Rightarrow> [] | Inr l \<Rightarrow> l)
      in map (\<lambda>u. user.extend u \<lparr>ux_roles = rs (u_id u), ux_domains = ds (u_id u),
            ux_names = concat (map (\<lambda>d. case map_of (rev ns) d of None \<Rightarrow> [] | Some n \<Rightarrow> [n]) (ds (u_id u))),
            ux_codes = cs (u_id u)\<rparr>) us)"

section \<open>API tokens\<close>

text \<open>\<open>drawn\<close> is the hexadecimal text of 32 random bytes, or the error of the reader.\<close>

definition GenerateAPIToken ::
  "user_env \<Rightarrow> string result \<Rightarrow> int \<Rightarrow> identity \<Rightarrow> (string \<times> api_token) result \<times> identity" where
  "GenerateAPIToken V drawn u s =
     (case drawn of
        Inl e \<Rightarrow> (Inl e, s)
      | Inr hex \<Rightarrow>
          (let token = ''bdf_'' @ hex in
           case seal_token (ue_vault V) (ue_draw V) token of
             Inl e \<Rightarrow> (Inl e, s)
           | Inr sealed \<Rightarrow>
               (case ue_db V T_delete of
                  Some e \<Rightarrow> (Inl e, s)
                | None \<Rightarrow>
                    (let s1 = s\<lparr>id_tokens := del_where (\<lambda>t. at_user t = u) (id_tokens s)\<rparr> in
                     case ue_db V T_insert of
                       Some e \<Rightarrow> (Inl e, s1)
                     | None \<Rightarrow>
                         (let t = \<lparr>at_id = ue_new_id V, at_user = u, at_sealed = sealed,
                                   at_prefix = take 8 token, at_used = None, at_created = ue_now V\<rparr>
                          in (Inr (token, t), s1\<lparr>id_tokens := id_tokens s1 @ [t]\<rparr>))))))"

definition GetTokenInfo :: "user_env \<Rightarrow> int \<Rightarrow> identity \<Rightarrow> api_token result" where
  "GetTokenInfo V u s =
     rbind (on_db (ue_db V T_of_user) (first_where (\<lambda>t. at_user t = u) (id_tokens s)))
       (\<lambda>row. case row of None \<Rightarrow> Inl ''api token not found'' | Some t \<Rightarrow> Inr t)"

definition RevealToken :: "user_env \<Rightarrow> int \<Rightarrow> identity \<Rightarrow> string result" where
  "RevealToken V u s = rbind (GetTokenInfo V u s) (\<lambda>t. open_token (ue_vault V) (at_sealed t))"

definition RevokeToken :: "user_env \<Rightarrow> int \<Rightarrow> identity \<Rightarrow> unit result \<times> identity" where
  "RevokeToken V u s =
     (case GetTokenInfo V u s of
        Inl e \<Rightarrow> (Inl e, s)
      | Inr t \<Rightarrow>
          (case ue_db V T_delete of
             Some e \<Rightarrow> (Inl e, s)
           | None \<Rightarrow> (Inr (), s\<lparr>id_tokens := del_where (\<lambda>t. at_user t = u) (id_tokens s)\<rparr>)))"

text \<open>The first row that opens to the token; the time of use is written by a goroutine, given as its
  own operation.\<close>

fun token_match :: "vault \<Rightarrow> string \<Rightarrow> api_token list \<Rightarrow> api_token option" where
  "token_match K tok [] = None"
| "token_match K tok (t # ts) = (if open_token K (at_sealed t) = Inr tok then Some t else token_match K tok ts)"

definition ValidateToken :: "user_env \<Rightarrow> string \<Rightarrow> identity \<Rightarrow> (int \<times> int) result" where
  "ValidateToken V tok s =
     (if length tok < 8 \<or> take 4 tok \<noteq> ''bdf_'' then Inl ''api token invalid''
      else rbind (on_db (ue_db V T_all) (token_match (ue_vault V) tok (id_tokens s))) (\<lambda>row.
        case row of
          None \<Rightarrow> Inl ''api token invalid''
        | Some t \<Rightarrow>
            if at_user t = 0 then Inl ''api token invalid''
            else rbind (on_db (ue_db V T_user_active) (user_where (\<lambda>u. u_id u = at_user t) s)) (\<lambda>row2.
              case row2 of
                None \<Rightarrow> Inl ''api token invalid''
              | Some u \<Rightarrow> if u_active u then Inr (at_user t, at_id t) else Inl ''user is inactive'')))"

definition touch_token :: "instant \<Rightarrow> int \<Rightarrow> identity \<Rightarrow> identity" where
  "touch_token now i s =
     s\<lparr>id_tokens := upd_where (\<lambda>t. at_id t = i) (\<lambda>t. t\<lparr>at_used := Some now\<rparr>) (id_tokens s)\<rparr>"

definition GetTokenUserInfo :: "user_env \<Rightarrow> int \<Rightarrow> identity \<Rightarrow> (string \<times> string \<times> int) result" where
  "GetTokenUserInfo V i s =
     rbind (on_db (ue_db V T_user_info) (user_where (\<lambda>u. u_id u = i) s)) (\<lambda>row.
       case row of
         None \<Rightarrow> Inl ''user not found''
       | Some u \<Rightarrow> Inr (u_name u, u_real u,
           case GetUserDefaultDomain (ue_rbac V) (id_rbac s) i of Inl e \<Rightarrow> 0 | Inr d \<Rightarrow> if d > 0 then d else 0))"

end
