(* ===== verification/Datasources.thy ===== *)
theory Datasources
  imports Instance_Permission Scheduler_State
begin

text \<open>
  The data sources (datasource/service.go and the operations of handler/datasource.go that change
  them): the rows and their scanners, creation, change and deletion, the grants on a data source,
  the history of queries and the saved statements. The encryption of passwords (datasource/crypto.go)
  and the test of a connection are arguments. \<open>RemoveDatasource\<close> of the connection manager is
  recorded in \<open>d_closed\<close>.
\<close>

section \<open>Rows\<close>

record datasource =
  ds_id :: int
  ds_name :: string
  ds_type :: string
  ds_host :: string
  ds_port :: int
  ds_path :: string
  ds_database :: string
  ds_username :: string
  ds_password :: string
  ds_auth :: string
  ds_mode :: string
  ds_zk_hosts :: string
  ds_zk_path :: string
  ds_rqlite :: string
  ds_config :: string
  ds_description :: string
  ds_domain :: int
  ds_enabled :: bool
  ds_write :: bool
  ds_test_status :: string
  ds_last_test :: "instant option"
  ds_created_by :: "int option"
  ds_updated_by :: "int option"
  ds_created :: instant
  ds_updated :: instant

record ds_grant =
  dg_id :: int
  dg_ds :: int
  dg_role :: "int option"
  dg_user :: "int option"
  dg_type :: string
  dg_by :: "int option"
  dg_at :: instant

record query_history =
  qh_id :: int
  qh_query :: string
  qh_datasource :: "int option"
  qh_name :: string
  qh_sql :: string
  qh_database :: string
  qh_time :: duration
  qh_rows :: int
  qh_status :: string
  qh_error :: string
  qh_by :: "int option"
  qh_domain :: int
  qh_created :: string      \<comment> \<open>the text in the table\<close>

record saved_sql =
  sv_id :: int
  sv_name :: string
  sv_datasource :: int
  sv_database :: string
  sv_sql :: string
  sv_description :: string
  sv_created_by :: "int option"
  sv_updated_by :: "int option"
  sv_domain :: int
  sv_public :: bool
  sv_created :: instant
  sv_updated :: instant

datatype ds_statement =
    DS_check_name | DS_insert | DS_get | DS_count | DS_list | DS_update | DS_delete | DS_test
  | DS_clean_grants | DS_grant | DS_check_grant | DS_update_grant | DS_revoke | DS_user_grants
  | DS_role_grants | DS_domain | DS_grants | DS_history | DS_count_history | DS_list_history
  | DS_delete_history | DS_delete_histories | DS_save_sql | DS_count_saved | DS_list_saved
  | DS_update_saved | DS_delete_saved

record crypto =
  Encrypt :: "nat \<Rightarrow> string \<Rightarrow> string result"   \<comment> \<open>the nonce is drawn\<close>
  Decrypt :: "string \<Rightarrow> string result"

record ds_env =
  v_db :: "ds_statement \<Rightarrow> string option"
  v_now :: instant
  v_new_id :: int
  v_crypto :: "crypto option"
  v_nonce :: nat
  v_test :: "datasource \<Rightarrow> string option"      \<comment> \<open>\<open>TestConnection\<close> of the manager\<close>
  v_text :: "instant \<Rightarrow> string"                \<comment> \<open>the RFC3339Nano text of an instant\<close>
  v_like :: "string \<Rightarrow> string \<Rightarrow> bool"         \<comment> \<open>\<open>LIKE\<close> with a percent sign on both sides\<close>

record ds_store =
  d_sources :: "datasource list"
  d_grants :: "ds_grant list"
  d_user_roles :: "(int \<times> int) list"
  d_histories :: "query_history list"
  d_saved :: "saved_sql list"
  d_names :: "(int \<times> string) list"             \<comment> \<open>users' real names\<close>
  d_closed :: "int list"

text \<open>A row as it comes from the table, and the scanner; an id of a user counts when it is positive.\<close>

definition ds_row :: "datasource \<Rightarrow> cell list" where
  "ds_row d =
     [Num (ds_id d), Txt (ds_name d), Txt (ds_type d), Txt (ds_host d), Num (ds_port d), Txt (ds_path d),
      Txt (ds_database d), Txt (ds_username d), Txt (ds_password d), Txt (ds_auth d), Txt (ds_mode d),
      Txt (ds_zk_hosts d), Txt (ds_zk_path d), Txt (ds_rqlite d), Txt (ds_config d), Txt (ds_description d),
      Num (ds_domain d), flag (ds_enabled d), flag (ds_write d), Txt (ds_test_status d),
      time_cell (ds_last_test d),
      (case ds_created_by d of None \<Rightarrow> Null | Some u \<Rightarrow> Num u),
      (case ds_updated_by d of None \<Rightarrow> Null | Some u \<Rightarrow> Num u),
      At (ds_created d), At (ds_updated d)]"

fun dsRowTime :: "cell \<Rightarrow> instant option" where
  "dsRowTime (At t) = Some t"
| "dsRowTime _ = None"

definition dsRowUser :: "cell \<Rightarrow> int option" where
  "dsRowUser c = (if c = Null then None else if rowInt64 c > 0 then Some (rowInt64 c) else None)"

definition scanDatasource :: "cell list \<Rightarrow> datasource" where
  "scanDatasource row =
     \<lparr>ds_id = rowInt64 (row ! 0), ds_name = rowString (row ! 1), ds_type = rowString (row ! 2),
      ds_host = rowString (row ! 3), ds_port = rowInt64 (row ! 4), ds_path = rowString (row ! 5),
      ds_database = rowString (row ! 6), ds_username = rowString (row ! 7), ds_password = rowString (row ! 8),
      ds_auth = rowString (row ! 9), ds_mode = rowString (row ! 10), ds_zk_hosts = rowString (row ! 11),
      ds_zk_path = rowString (row ! 12), ds_rqlite = rowString (row ! 13), ds_config = rowString (row ! 14),
      ds_description = rowString (row ! 15), ds_domain = rowInt64 (row ! 16), ds_enabled = rowBool (row ! 17),
      ds_write = rowBool (row ! 18), ds_test_status = rowString (row ! 19), ds_last_test = dsRowTime (row ! 20),
      ds_created_by = dsRowUser (row ! 21), ds_updated_by = dsRowUser (row ! 22),
      ds_created = parseDateTime (row ! 23), ds_updated = parseDateTime (row ! 24)\<rparr>"

section \<open>Data sources\<close>

definition wrap_db :: "string \<Rightarrow> string option \<Rightarrow> string option" where
  "wrap_db what v = map_option (\<lambda>e. what @ '': '' @ e) v"

definition encrypted :: "ds_env \<Rightarrow> string \<Rightarrow> string result" where
  "encrypted V password =
     (case v_crypto V of
        None \<Rightarrow> Inr password
      | Some C \<Rightarrow>
          (if password = [] then Inr []
           else (case Encrypt C (v_nonce V) password of
                   Inl e \<Rightarrow> Inl (''password encryption/decryption failed: '' @ e)
                 | Inr p \<Rightarrow> Inr p)))"

definition same_name :: "datasource \<Rightarrow> datasource \<Rightarrow> bool" where
  "same_name a b \<longleftrightarrow> ds_name a = ds_name b \<and> ds_domain a = ds_domain b"

text \<open>The unique index on name and domain makes an insert or an update fail.\<close>

definition Create :: "ds_env \<Rightarrow> datasource \<Rightarrow> ds_store \<Rightarrow> int result \<times> ds_store" where
  "Create V d s =
     (case wrap_db ''failed to check datasource name'' (v_db V DS_check_name) of
        Some e \<Rightarrow> (Inl e, s)
      | None \<Rightarrow>
          (if \<exists>x\<in>set (d_sources s). same_name x d
           then (Inl ''datasource name already exists in this domain'', s)
           else (case encrypted V (ds_password d) of
                   Inl e \<Rightarrow> (Inl e, s)
                 | Inr p \<Rightarrow>
                     (case wrap_db ''failed to create datasource'' (v_db V DS_insert) of
                        Some e \<Rightarrow> (Inl e, s)
                      | None \<Rightarrow>
                          (Inr (v_new_id V), s\<lparr>d_sources := d_sources s @
                             [d\<lparr>ds_id := v_new_id V, ds_password := p,
                                ds_test_status := (if ds_test_status d = [] then ''untested'' else ds_test_status d),
                                ds_updated_by := None, ds_created := v_now V, ds_updated := v_now V\<rparr>]\<rparr>)))))"

definition GetByID :: "ds_env \<Rightarrow> int \<Rightarrow> ds_store \<Rightarrow> datasource result" where
  "GetByID V i s =
     rbind (on_db (wrap_db ''failed to get datasource'' (v_db V DS_get))
              (first_where (\<lambda>d. ds_id d = i) (d_sources s)))
       (\<lambda>row. case row of
          None \<Rightarrow> Inl ''datasource not found'' | Some d \<Rightarrow> Inr (scanDatasource (ds_row d)))"

definition ds_matches :: "ds_env \<Rightarrow> int \<Rightarrow> string \<Rightarrow> string \<Rightarrow> datasource \<Rightarrow> bool" where
  "ds_matches V domain ty search d \<longleftrightarrow>
     (domain > 0 \<longrightarrow> ds_domain d = domain) \<and> (ty \<noteq> [] \<longrightarrow> ds_type d = ty) \<and>
     (search \<noteq> [] \<longrightarrow> v_like V search (ds_name d))"

definition ds_Get ::
  "ds_env \<Rightarrow> int \<Rightarrow> string \<Rightarrow> int \<Rightarrow> int \<Rightarrow> string \<Rightarrow> ds_store \<Rightarrow> (datasource list \<times> int) result" where
  "ds_Get V domain ty page sz search s =
     (let rows = filter (ds_matches V domain ty search) (d_sources s)
      in rbind (on_db (wrap_db ''failed to count datasources'' (v_db V DS_count)) (int (length rows))) (\<lambda>total.
         rbind (on_db (wrap_db ''failed to query datasources'' (v_db V DS_list))
                  (limit_offset sz ((page - 1) * sz) (sort_key (\<lambda>d. - ds_created d) rows)))
           (\<lambda>shown. Inr (map (scanDatasource \<circ> ds_row) shown, total))))"

definition ds_Update :: "ds_env \<Rightarrow> datasource \<Rightarrow> ds_store \<Rightarrow> unit result \<times> ds_store" where
  "ds_Update V d s =
     (case GetByID V (ds_id d) s of
        Inl e \<Rightarrow> (Inl e, s)
      | Inr existing \<Rightarrow>
          (case (if ds_password d \<noteq> [] then encrypted V (ds_password d) else Inr (ds_password existing)) of
             Inl e \<Rightarrow> (Inl e, s)
           | Inr p \<Rightarrow>
               (case wrap_db ''failed to update datasource'' (v_db V DS_update) of
                  Some e \<Rightarrow> (Inl e, s)
                | None \<Rightarrow>
                    (if \<exists>x\<in>set (d_sources s). ds_id x \<noteq> ds_id d \<and> same_name x d
                     then (Inl ''failed to update datasource: UNIQUE constraint failed'', s)
                     else (Inr (), s\<lparr>d_sources := upd_where (\<lambda>x. ds_id x = ds_id d)
                             (\<lambda>x. d\<lparr>ds_password := p, ds_test_status := ds_test_status x,
                                    ds_last_test := ds_last_test x, ds_created_by := ds_created_by x,
                                    ds_created := ds_created x, ds_updated := v_now V\<rparr>) (d_sources s),
                             d_closed := d_closed s @ [ds_id d]\<rparr>)))))"

text \<open>What the foreign keys make of rows that refer to the data source is left out.\<close>

definition ds_Delete :: "ds_env \<Rightarrow> int \<Rightarrow> ds_store \<Rightarrow> unit result \<times> ds_store" where
  "ds_Delete V i s =
     (let s1 = s\<lparr>d_closed := d_closed s @ [i]\<rparr>
      in case wrap_db ''failed to delete datasource'' (v_db V DS_delete) of
           Some e \<Rightarrow> (Inl e, s1)
         | None \<Rightarrow> (Inr (), s1\<lparr>d_sources := del_where (\<lambda>d. ds_id d = i) (d_sources s)\<rparr>))"

definition TestDatasource :: "ds_env \<Rightarrow> int \<Rightarrow> ds_store \<Rightarrow> unit result \<times> ds_store" where
  "TestDatasource V i s =
     (case GetByID V i s of
        Inl e \<Rightarrow> (Inl e, s)
      | Inr d \<Rightarrow>
          (let err = v_test V d;
               status = (if err = None then ''success'' else ''failed'');
               s1 = (if v_db V DS_test = None
                     then s\<lparr>d_sources := upd_where (\<lambda>x. ds_id x = i)
                            (\<lambda>x. x\<lparr>ds_test_status := status, ds_last_test := Some (v_now V),
                                   ds_updated := v_now V\<rparr>) (d_sources s)\<rparr>
                     else s)
           in ((case err of None \<Rightarrow> Inr () | Some e \<Rightarrow> Inl e), s1)))"

section \<open>Grants\<close>

text \<open>A new grant first takes the place of the lower ones of the same user, or of the same role when it
  names no user; when they cannot be deleted it goes on. The table has unique indexes on data source,
  type and role and on data source, type and user.\<close>

definition lower_grant :: "ds_grant \<Rightarrow> ds_grant \<Rightarrow> bool" where
  "lower_grant p g \<longleftrightarrow> dg_ds g = dg_ds p \<and> dg_type g \<in> set (GetIncludedPermissions (dg_type p)) \<and>
     (case dg_user p of Some u \<Rightarrow> dg_user g = Some u | None \<Rightarrow> dg_role g = dg_role p)"

definition grant_conflict :: "ds_grant \<Rightarrow> ds_grant \<Rightarrow> bool" where
  "grant_conflict p g \<longleftrightarrow> dg_ds g = dg_ds p \<and> dg_type g = dg_type p \<and>
     (dg_role p \<noteq> None \<and> dg_role g = dg_role p \<or> dg_user p \<noteq> None \<and> dg_user g = dg_user p)"

definition GrantPermission :: "ds_env \<Rightarrow> ds_grant \<Rightarrow> ds_store \<Rightarrow> int result \<times> ds_store" where
  "GrantPermission V p s =
     (if dg_role p = None \<and> dg_user p = None then (Inl ''role_id or user_id is required'', s)
      else if \<not> IsValidPermissionType (dg_type p) then (Inl ''invalid permission type'', s)
      else (let s1 = (if v_db V DS_clean_grants = None
                      then s\<lparr>d_grants := del_where (lower_grant p) (d_grants s)\<rparr> else s)
            in case wrap_db ''failed to grant permission'' (v_db V DS_grant) of
                 Some e \<Rightarrow> (Inl e, s1)
               | None \<Rightarrow>
                   (if \<exists>g\<in>set (d_grants s1). grant_conflict p g
                    then (Inl ''failed to grant permission: UNIQUE constraint failed'', s1)
                    else (Inr (v_new_id V), s1\<lparr>d_grants := d_grants s1 @
                            [p\<lparr>dg_id := v_new_id V, dg_at := v_now V\<rparr>]\<rparr>))))"

definition UpdatePermission :: "ds_env \<Rightarrow> int \<Rightarrow> string \<Rightarrow> ds_store \<Rightarrow> unit result \<times> ds_store" where
  "UpdatePermission V i ty s =
     (if \<not> IsValidPermissionType ty then (Inl ''invalid permission type'', s)
      else (case wrap_db ''failed to check permission'' (v_db V DS_check_grant) of
              Some e \<Rightarrow> (Inl e, s)
            | None \<Rightarrow>
                (case first_where (\<lambda>g. dg_id g = i) (d_grants s) of
                   None \<Rightarrow> (Inl ''datasource permission not found'', s)
                 | Some g \<Rightarrow>
                     (case wrap_db ''failed to update permission'' (v_db V DS_update_grant) of
                        Some e \<Rightarrow> (Inl e, s)
                      | None \<Rightarrow>
                          (if \<exists>h\<in>set (d_grants s). dg_id h \<noteq> i \<and> grant_conflict (g\<lparr>dg_type := ty\<rparr>) h
                           then (Inl ''failed to update permission: UNIQUE constraint failed'', s)
                           else (Inr (), s\<lparr>d_grants := upd_where (\<lambda>g. dg_id g = i)
                                   (\<lambda>g. g\<lparr>dg_type := ty, dg_at := v_now V\<rparr>) (d_grants s)\<rparr>))))))"

definition RevokePermission :: "ds_env \<Rightarrow> int \<Rightarrow> ds_store \<Rightarrow> unit result \<times> ds_store" where
  "RevokePermission V i s =
     (case wrap_db ''failed to revoke permission'' (v_db V DS_revoke) of
        Some e \<Rightarrow> (Inl e, s)
      | None \<Rightarrow> (Inr (), s\<lparr>d_grants := del_where (\<lambda>g. dg_id g = i) (d_grants s)\<rparr>))"

text \<open>\<open>ks\<close> is the order of the map of permission types.\<close>

definition CheckPermission ::
  "ds_env \<Rightarrow> string list \<Rightarrow> int \<Rightarrow> int \<Rightarrow> string \<Rightarrow> ds_store \<Rightarrow> bool result" where
  "CheckPermission V ks u i ty s =
     (let eff = GetEffectivePermissions ks ty;
          effective = (if eff = [] then [ty] else eff)
      in rbind (on_db (wrap_db ''permission verification service error'' (v_db V DS_user_grants))
                  (list_ex (\<lambda>g. dg_user g = Some u \<and> dg_ds g = i \<and> dg_type g \<in> set effective) (d_grants s)))
           (\<lambda>mine. if mine then Inr True
              else on_db (wrap_db ''permission verification service error'' (v_db V DS_role_grants))
                     (list_ex (\<lambda>g. (\<exists>(v, r)\<in>set (d_user_roles s). v = u \<and> dg_role g = Some r) \<and> dg_ds g = i \<and>
                         dg_type g \<in> set effective) (d_grants s))))"

definition CheckDatasourcePermission ::
  "ds_env \<Rightarrow> string list \<Rightarrow> int \<Rightarrow> int \<Rightarrow> string \<Rightarrow> ds_store \<Rightarrow> bool result" where
  "CheckDatasourcePermission V ks u i action s = CheckPermission V ks u i action s"

definition GetDatasourceDomainID :: "ds_env \<Rightarrow> int \<Rightarrow> ds_store \<Rightarrow> int result" where
  "GetDatasourceDomainID V i s =
     (case v_db V DS_domain of
        Some e \<Rightarrow> Inl ''datasource not found''
      | None \<Rightarrow> (case first_where (\<lambda>d. ds_id d = i) (d_sources s) of
                   None \<Rightarrow> Inl ''datasource not found'' | Some d \<Rightarrow> Inr (ds_domain d)))"

definition GetPermissions :: "ds_env \<Rightarrow> int \<Rightarrow> ds_store \<Rightarrow> ds_grant list result" where
  "GetPermissions V i s =
     on_db (wrap_db ''failed to get permissions'' (v_db V DS_grants)) (filter (\<lambda>g. dg_ds g = i) (d_grants s))"

definition GetDatasourceMaskedPassword :: "ds_env \<Rightarrow> int \<Rightarrow> ds_store \<Rightarrow> string result" where
  "GetDatasourceMaskedPassword V i s = rbind (GetByID V i s) (\<lambda>d. Inr ''******'')"

section \<open>History\<close>

definition RecordQueryHistory :: "ds_env \<Rightarrow> query_history \<Rightarrow> ds_store \<Rightarrow> int result \<times> ds_store" where
  "RecordQueryHistory V h s =
     (case wrap_db ''failed to record query history'' (v_db V DS_history) of
        Some e \<Rightarrow> (Inl e, s)
      | None \<Rightarrow> (Inr (v_new_id V), s\<lparr>d_histories := d_histories s @
                  [h\<lparr>qh_id := v_new_id V, qh_created := v_text V (v_now V)\<rparr>]\<rparr>))"

text \<open>SQLite compares texts byte by byte.\<close>

fun text_le :: "string \<Rightarrow> string \<Rightarrow> bool" where
  "text_le [] t = True"
| "text_le (c # s) [] = False"
| "text_le (c # s) (d # t) = (of_char c < (of_char d :: nat) \<or> c = d \<and> text_le s t)"

record history_filter =
  hf_domain :: int
  hf_datasource :: int
  hf_status :: string
  hf_start :: string
  hf_end :: string
  hf_by :: int
  hf_search :: string

definition history_matches :: "ds_env \<Rightarrow> history_filter \<Rightarrow> query_history \<Rightarrow> bool" where
  "history_matches V f h \<longleftrightarrow>
     (hf_domain f > 0 \<longrightarrow> qh_domain h = hf_domain f) \<and>
     (hf_datasource f > 0 \<longrightarrow> qh_datasource h = Some (hf_datasource f)) \<and>
     (hf_status f \<noteq> [] \<longrightarrow> qh_status h = hf_status f) \<and>
     (hf_by f > 0 \<longrightarrow> qh_by h = Some (hf_by f)) \<and>
     (hf_start f \<noteq> [] \<longrightarrow> text_le (hf_start f @ '' 00:00:00'') (qh_created h)) \<and>
     (hf_end f \<noteq> [] \<longrightarrow> text_le (qh_created h) (hf_end f @ '' 23:59:59'')) \<and>
     (hf_search f \<noteq> [] \<longrightarrow> v_like V (hf_search f) (qh_sql h) \<or> v_like V (hf_search f) (qh_name h))"

definition real_name :: "ds_store \<Rightarrow> int option \<Rightarrow> string" where
  "real_name s u = (case u of None \<Rightarrow> [] | Some i \<Rightarrow>
     (case map_of (d_names s) i of None \<Rightarrow> [] | Some n \<Rightarrow> n))"

text \<open>\<open>newest\<close> orders the rows by their texts, the largest first. The name of the user is shown with
  each row.\<close>

definition GetQueryHistory ::
  "ds_env \<Rightarrow> (query_history list \<Rightarrow> query_history list) \<Rightarrow> history_filter \<Rightarrow> int \<Rightarrow> int \<Rightarrow> ds_store \<Rightarrow>
   ((query_history \<times> string) list \<times> int) result" where
  "GetQueryHistory V newest f page sz s =
     (let rows = filter (history_matches V f) (d_histories s)
      in rbind (on_db (wrap_db ''failed to count query history'' (v_db V DS_count_history)) (int (length rows))) (\<lambda>total.
         rbind (on_db (wrap_db ''failed to query history'' (v_db V DS_list_history))
                  (limit_offset sz ((page - 1) * sz) (newest rows)))
           (\<lambda>shown. Inr (map (\<lambda>h. (h, real_name s (qh_by h))) shown, total))))"

text \<open>Of the two deletions only an error of the call counts, not one of the statement, which the reply
  of the database carries; \<open>stmt\<close> is the latter.\<close>

definition DeleteQueryHistory :: "ds_env \<Rightarrow> string option \<Rightarrow> int \<Rightarrow> ds_store \<Rightarrow> unit result \<times> ds_store" where
  "DeleteQueryHistory V stmt i s =
     (case wrap_db ''failed to delete query history'' (v_db V DS_delete_history) of
        Some e \<Rightarrow> (Inl e, s)
      | None \<Rightarrow> (Inr (), if stmt = None
                  then s\<lparr>d_histories := del_where (\<lambda>h. qh_id h = i) (d_histories s)\<rparr> else s))"

definition BatchDeleteQueryHistory :: "ds_env \<Rightarrow> string option \<Rightarrow> int list \<Rightarrow> ds_store \<Rightarrow> unit result \<times> ds_store" where
  "BatchDeleteQueryHistory V stmt ids s =
     (if ids = [] then (Inr (), s)
      else (case wrap_db ''failed to batch delete query history'' (v_db V DS_delete_histories) of
              Some e \<Rightarrow> (Inl e, s)
            | None \<Rightarrow> (Inr (), if stmt = None
                        then s\<lparr>d_histories := del_where (\<lambda>h. qh_id h \<in> set ids) (d_histories s)\<rparr> else s)))"

section \<open>Saved statements\<close>

definition CreateSavedSQL :: "ds_env \<Rightarrow> saved_sql \<Rightarrow> ds_store \<Rightarrow> int result \<times> ds_store" where
  "CreateSavedSQL V q s =
     (case wrap_db ''failed to create saved SQL'' (v_db V DS_save_sql) of
        Some e \<Rightarrow> (Inl e, s)
      | None \<Rightarrow> (Inr (v_new_id V), s\<lparr>d_saved := d_saved s @
                  [q\<lparr>sv_id := v_new_id V, sv_created := v_now V, sv_updated := v_now V\<rparr>]\<rparr>))"

definition saved_matches :: "ds_env \<Rightarrow> int \<Rightarrow> int \<Rightarrow> string \<Rightarrow> saved_sql \<Rightarrow> bool" where
  "saved_matches V domain user search q \<longleftrightarrow>
     (domain > 0 \<longrightarrow> sv_domain q = domain) \<and>
     (user > 0 \<longrightarrow> sv_created_by q = Some user \<or> sv_public q) \<and>
     (search \<noteq> [] \<longrightarrow> v_like V search (sv_name q) \<or> v_like V search (sv_sql q))"

record saved_with_names = saved_sql +
  svn_datasource :: string
  svn_created_by :: string
  svn_updated_by :: string

definition with_saved_names :: "ds_store \<Rightarrow> saved_sql \<Rightarrow> saved_with_names" where
  "with_saved_names s q = saved_sql.extend q
     \<lparr>svn_datasource = (case first_where (\<lambda>d. ds_id d = sv_datasource q) (d_sources s) of
         None \<Rightarrow> [] | Some d \<Rightarrow> ds_name d),
      svn_created_by = real_name s (sv_created_by q), svn_updated_by = real_name s (sv_updated_by q)\<rparr>"

definition GetSavedSQL ::
  "ds_env \<Rightarrow> int \<Rightarrow> int \<Rightarrow> int \<Rightarrow> int \<Rightarrow> string \<Rightarrow> ds_store \<Rightarrow> (saved_with_names list \<times> int) result" where
  "GetSavedSQL V domain user page sz search s =
     (let rows = filter (saved_matches V domain user search) (d_saved s)
      in rbind (on_db (wrap_db ''failed to count saved SQL'' (v_db V DS_count_saved)) (int (length rows))) (\<lambda>total.
         rbind (on_db (wrap_db ''failed to query saved SQL'' (v_db V DS_list_saved))
                  (limit_offset sz ((page - 1) * sz) (sort_key (\<lambda>q. - sv_created q) rows)))
           (\<lambda>shown. Inr (map (with_saved_names s) shown, total))))"

definition UpdateSavedSQL :: "ds_env \<Rightarrow> int \<Rightarrow> saved_sql \<Rightarrow> ds_store \<Rightarrow> unit result \<times> ds_store" where
  "UpdateSavedSQL V i q s =
     (case wrap_db ''failed to update saved SQL'' (v_db V DS_update_saved) of
        Some e \<Rightarrow> (Inl e, s)
      | None \<Rightarrow>
          (if \<exists>x\<in>set (d_saved s). sv_id x = i
           then (Inr (), s\<lparr>d_saved := upd_where (\<lambda>x. sv_id x = i)
                  (\<lambda>x. x\<lparr>sv_name := sv_name q, sv_datasource := sv_datasource q, sv_database := sv_database q,
                         sv_sql := sv_sql q, sv_description := sv_description q,
                         sv_updated_by := sv_updated_by q, sv_public := sv_public q,
                         sv_updated := v_now V\<rparr>) (d_saved s)\<rparr>)
           else (Inl (''saved SQL not found: '' @ show_int i), s)))"

definition DeleteSavedSQL :: "ds_env \<Rightarrow> int \<Rightarrow> ds_store \<Rightarrow> unit result \<times> ds_store" where
  "DeleteSavedSQL V i s =
     (case wrap_db ''failed to delete saved SQL'' (v_db V DS_delete_saved) of
        Some e \<Rightarrow> (Inl e, s)
      | None \<Rightarrow> (Inr (), s\<lparr>d_saved := del_where (\<lambda>x. sv_id x = i) (d_saved s)\<rparr>))"

end
