(* ===== verification/Datasource_Handlers.thy ===== *)
theory Datasource_Handlers
  imports Datasources Go_Strings
begin

text \<open>
  The requests on data sources (handler/datasource.go): the list a user sees, creation, change and
  deletion, and the test by id. The bodies are bound already: a field the request may leave out is an
  option. Names of domains come from the rows of \<open>ListDomains\<close>. The properties at the end are about
  the rows the requests leave behind.
\<close>

section \<open>The list\<close>

definition dsPermWeight :: "string \<Rightarrow> int option" where
  "dsPermWeight = map_of [(''manage'', 100), (''update'', 50), (''download'', 40),
     (''query'', 30), (''read'', 20), (''delete'', 10)]"

definition pickHigherPermission :: "string \<Rightarrow> string \<Rightarrow> string" where
  "pickHigherPermission a b =
     (case dsPermWeight a of
        None \<Rightarrow> b
      | Some wa \<Rightarrow> (case dsPermWeight b of None \<Rightarrow> a | Some wb \<Rightarrow> if wa \<ge> wb then a else b))"

record listed_ds = datasource +
  ld_domain_name :: string
  ld_permission :: string

definition as_listed :: "datasource \<Rightarrow> listed_ds" where
  "as_listed d = datasource.extend d \<lparr>ld_domain_name = [], ld_permission = []\<rparr>"

definition fillDomainNames :: "(int \<times> string) list result \<Rightarrow> listed_ds list \<Rightarrow> listed_ds list" where
  "fillDomainNames names ds =
     (if \<not> list_ex (\<lambda>d. ds_domain d > 0) ds then ds
      else case names of
        Inl e \<Rightarrow> ds
      | Inr rows \<Rightarrow> map (\<lambda>d. if ds_domain d > 0
            then d\<lparr>ld_domain_name := (case map_of (rev rows) (ds_domain d) of None \<Rightarrow> [] | Some n \<Rightarrow> n)\<rparr>
            else d) ds)"

text \<open>The two other tables are projections of the store.\<close>

definition inst_grant :: "ds_grant \<Rightarrow> grant_row" where
  "inst_grant g = \<lparr>g_id = dg_id g, g_inst = dg_ds g, g_role = dg_role g, g_user = dg_user g,
     g_type = dg_type g, g_by = (case dg_by g of None \<Rightarrow> 0 | Some u \<Rightarrow> u), g_at = dg_at g\<rparr>"

definition inst_view :: "ds_store \<Rightarrow> inst_db" where
  "inst_view s =
     \<lparr>instances = map (\<lambda>d. \<lparr>i_id = ds_id d, i_domain = ds_domain d, i_creator = ds_created_by d\<rparr>) (d_sources s),
      grants = map inst_grant (d_grants s)\<rparr>"

definition fill_one ::
  "int \<Rightarrow> (int \<Rightarrow> string option) \<Rightarrow> (int \<Rightarrow> bool) \<Rightarrow> listed_ds \<Rightarrow> listed_ds" where
  "fill_one u levels domainAdmin d =
     (let p1 = (case levels (ds_id d) of None \<Rightarrow> ld_permission d | Some p \<Rightarrow> p);
          p2 = (if ds_created_by d = Some u then ''manage'' else p1);
          p3 = (if domainAdmin (ds_domain d) then pickHigherPermission p2 ''query'' else p2)
      in d\<lparr>ld_permission := (if p3 = [] then ''read'' else p3)\<rparr>)"

definition fillUserPermissions ::
  "db_verdict \<Rightarrow> rbac \<Rightarrow> inst_db \<Rightarrow> int \<Rightarrow> listed_ds list \<Rightarrow> listed_ds list" where
  "fillUserPermissions E db d u ds =
     (if ds = [] then []
      else (let levels = (case GetUserDatasourcePermissionLevels E db d u (map ds_id ds) of
                            Inl e \<Rightarrow> Map.empty | Inr m \<Rightarrow> m);
                mine = (case GetUserDomainIDs E db u of Inl e \<Rightarrow> [] | Inr is \<Rightarrow> is);
                domainAdmin = (\<lambda>i. i \<in> set mine \<and> IsDomainAdmin E db u i = Inr True)
            in map (fill_one u levels domainAdmin) ds))"

text \<open>\<open>filtered[start:end]\<close>: the slice panics when the product has wrapped round to a negative start
  or the bounds are out of order.\<close>

definition page_of :: "int \<Rightarrow> int \<Rightarrow> 'a list \<Rightarrow> 'a list option" where
  "page_of page sz xs =
     (let start = wrap64 ((page - 1) * sz);
          stop = wrap64 (start + sz);
          n = int (length xs);
          start1 = (if start > n then n else start);
          stop1 = (if stop > n then n else stop)
      in if start1 < 0 \<or> stop1 < start1 then None
         else Some (take (nat (stop1 - start1)) (drop (nat start1) xs)))"

fun distinct_ds :: "int list \<Rightarrow> datasource list \<Rightarrow> datasource list" where
  "distinct_ds seen [] = []"
| "distinct_ds seen (d # ds) =
     (if ds_id d \<in> set seen then distinct_ds seen ds else d # distinct_ds (ds_id d # seen) ds)"

fun granted_ds :: "ds_env \<Rightarrow> ds_store \<Rightarrow> string \<Rightarrow> int list \<Rightarrow> int list \<Rightarrow> datasource list" where
  "granted_ds V s search seen [] = []"
| "granted_ds V s search seen (i # is) =
     (if i \<in> set seen then granted_ds V s search seen is
      else (case GetByID V i s of
              Inl e \<Rightarrow> []
            | Inr d \<Rightarrow> if search = [] \<or> ds_name d \<noteq> [] \<and> Contains (ToLower (ds_name d)) (ToLower search)
                       then [d] else [])
           @ granted_ds V s search (i # seen) is)"

definition ok_or :: "'a \<Rightarrow> 'a result \<Rightarrow> 'a" where
  "ok_or x r = (case r of Inl e \<Rightarrow> x | Inr y \<Rightarrow> y)"

definition visible_ds ::
  "ds_env \<Rightarrow> db_verdict \<Rightarrow> string list \<Rightarrow> rbac \<Rightarrow> ds_store \<Rightarrow> int \<Rightarrow> string \<Rightarrow> string \<Rightarrow> datasource list" where
  "visible_ds V E ks db s u ty search =
     (let mine = ok_or [] (GetUserDomainIDs E db u);
          of_domains = concat (map (\<lambda>i. fst (ok_or ([], 0) (ds_Get V i ty 1 10000 search s))) mine);
          granted = ok_or [] (GetUserDatasourceIDs E ks db (inst_view s) u ''read'');
          own = distinct_ds [] of_domains
      in own @ granted_ds V s search (map ds_id own) granted)"

text \<open>\<open>None\<close> is the panic of the slice. \<open>page\<close> and \<open>sz\<close> are the parsed numbers of the request.\<close>

definition ds_List ::
  "ds_env \<Rightarrow> db_verdict \<Rightarrow> string list \<Rightarrow> rbac \<Rightarrow> (int \<times> string) list result \<Rightarrow> ds_store \<Rightarrow> int \<Rightarrow> int \<Rightarrow> string \<Rightarrow>
   string \<Rightarrow> int \<Rightarrow> int \<Rightarrow> (listed_ds list \<times> int) result option" where
  "ds_List V E ks db names s u queryDomain ty search page sz =
     (let isAdmin = (u > 0 \<and> IsSystemAdmin E db u = Inr True);
          page1 = (if page < 1 then 1 else page);
          sz1 = (if sz < 1 \<or> sz > 100 then 20 else sz)
      in if isAdmin
         then Some (case ds_Get V queryDomain ty page1 sz1 search s of
                      Inl e \<Rightarrow> Inl ''failed to list''
                    | Inr (ds, n) \<Rightarrow>
                        Inr (map (\<lambda>d. d\<lparr>ld_permission := ''manage''\<rparr>) (fillDomainNames names (map as_listed ds)), n))
         else (let found = visible_ds V E ks db s u ty search;
                   filled = fillUserPermissions E db (inst_view s) u (map as_listed found)
               in case page_of page1 sz1 filled of
                    None \<Rightarrow> None
                  | Some paged \<Rightarrow> Some (Inr (fillDomainNames names paged, int (length filled)))))"

section \<open>Changes\<close>

record ds_request =
  dr_name :: string
  dr_type :: string
  dr_host :: string
  dr_port :: int
  dr_path :: string
  dr_database :: string
  dr_username :: string
  dr_password :: string
  dr_auth :: string
  dr_mode :: string
  dr_zk_hosts :: string
  dr_zk_path :: string
  dr_rqlite :: string
  dr_config :: string
  dr_description :: string
  dr_domain :: int
  dr_enabled :: "bool option"
  dr_write :: "bool option"

definition may_enable_writes :: "string \<Rightarrow> bool" where
  "may_enable_writes role \<longleftrightarrow> role = ''system_admin'' \<or> role = ''admin''"

definition HandleCreateDatasource ::
  "ds_env \<Rightarrow> string list \<Rightarrow> string \<Rightarrow> int \<Rightarrow> ds_request \<Rightarrow> ds_store \<Rightarrow> int result \<times> ds_store" where
  "HandleCreateDatasource V supported role u q s =
     (if dr_type q \<notin> set supported then (Inl ''type not supported'', s)
      else let writes = (case dr_write q of None \<Rightarrow> False | Some b \<Rightarrow> b) in
        if writes \<and> \<not> may_enable_writes role then (Inl ''permission denied'', s)
        else let d = \<lparr>ds_id = 0, ds_name = dr_name q, ds_type = dr_type q, ds_host = dr_host q,
               ds_port = dr_port q, ds_path = dr_path q, ds_database = dr_database q,
               ds_username = dr_username q, ds_password = dr_password q,
               ds_auth = (if dr_auth q = [] then ''simple'' else dr_auth q), ds_mode = dr_mode q,
               ds_zk_hosts = dr_zk_hosts q, ds_zk_path = dr_zk_path q, ds_rqlite = dr_rqlite q,
               ds_config = dr_config q, ds_description = dr_description q, ds_domain = dr_domain q,
               ds_enabled = (case dr_enabled q of None \<Rightarrow> True | Some b \<Rightarrow> b), ds_write = writes,
               ds_test_status = [], ds_last_test = None, ds_created_by = Some u, ds_updated_by = Some u,
               ds_created = 0, ds_updated = 0\<rparr>
             in (case v_test V d of
                   Some e \<Rightarrow> (Inl (''connection test failed: '' @ e), s)
                 | None \<Rightarrow>
                     (case Create V (d\<lparr>ds_test_status := ''success'', ds_last_test := Some (v_now V)\<rparr>) s of
                        (Inl e, s1) \<Rightarrow>
                          (Inl (if e = ''datasource name already exists in this domain'' then e
                                else ''failed to create''), s1)
                      | (Inr i, s1) \<Rightarrow> (Inr i, s1))))"

record ds_change =
  du_name :: "string option"
  du_host :: "string option"
  du_port :: "int option"
  du_path :: "string option"
  du_database :: "string option"
  du_username :: "string option"
  du_password :: "string option"
  du_auth :: "string option"
  du_mode :: "string option"
  du_zk_hosts :: "string option"
  du_zk_path :: "string option"
  du_rqlite :: "string option"
  du_config :: "string option"
  du_description :: "string option"
  du_enabled :: "bool option"
  du_write :: "bool option"

definition given :: "'a option \<Rightarrow> 'a \<Rightarrow> 'a" where
  "given v x = (case v of None \<Rightarrow> x | Some y \<Rightarrow> y)"

definition changed :: "ds_change \<Rightarrow> int \<Rightarrow> datasource \<Rightarrow> datasource" where
  "changed q u d =
     d\<lparr>ds_name := given (du_name q) (ds_name d), ds_host := given (du_host q) (ds_host d),
       ds_port := given (du_port q) (ds_port d), ds_path := given (du_path q) (ds_path d),
       ds_database := given (du_database q) (ds_database d), ds_username := given (du_username q) (ds_username d),
       ds_password := given (du_password q) (ds_password d), ds_auth := given (du_auth q) (ds_auth d),
       ds_mode := given (du_mode q) (ds_mode d), ds_zk_hosts := given (du_zk_hosts q) (ds_zk_hosts d),
       ds_zk_path := given (du_zk_path q) (ds_zk_path d), ds_rqlite := given (du_rqlite q) (ds_rqlite d),
       ds_config := given (du_config q) (ds_config d), ds_description := given (du_description q) (ds_description d),
       ds_enabled := given (du_enabled q) (ds_enabled d), ds_write := given (du_write q) (ds_write d),
       ds_updated_by := Some u\<rparr>"

definition HandleUpdateDatasource ::
  "ds_env \<Rightarrow> string \<Rightarrow> int \<Rightarrow> int \<Rightarrow> ds_change \<Rightarrow> ds_store \<Rightarrow> unit result \<times> ds_store" where
  "HandleUpdateDatasource V role u i q s =
     (case GetByID V i s of
        Inl e \<Rightarrow> (Inl ''datasource not found'', s)
      | Inr d \<Rightarrow>
          (if du_write q = Some True \<and> \<not> may_enable_writes role then (Inl ''permission denied'', s)
           else (case ds_Update V (changed q u d) s of
                   (Inl e, s1) \<Rightarrow> (Inl ''failed to update'', s1)
                 | (Inr _, s1) \<Rightarrow> (Inr (), s1\<lparr>d_closed := d_closed s1 @ [i]\<rparr>))))"

definition HandleDeleteDatasource :: "ds_env \<Rightarrow> int \<Rightarrow> ds_store \<Rightarrow> unit result \<times> ds_store" where
  "HandleDeleteDatasource V i s =
     (case ds_Delete V i s of
        (Inl e, s1) \<Rightarrow> (Inl ''failed to delete'', s1)
      | (Inr _, s1) \<Rightarrow> (Inr (), s1\<lparr>d_closed := d_closed s1 @ [i]\<rparr>))"

definition HandleTestDatasource :: "ds_env \<Rightarrow> int \<Rightarrow> ds_store \<Rightarrow> unit result \<times> ds_store" where
  "HandleTestDatasource V i s =
     (case GetByID V i s of
        Inl e \<Rightarrow> (Inl ''datasource not found'', s)
      | Inr d \<Rightarrow> (case TestDatasource V i s of
          (Inl e, s1) \<Rightarrow> (Inl (''connection test failed: '' @ e), s1)
        | (Inr _, s1) \<Rightarrow> (Inr (), s1)))"

text \<open>\<open>dsID\<close> is the data source of the path, which the middleware has checked.\<close>

definition HandleGrantPermission ::
  "ds_env \<Rightarrow> int \<Rightarrow> int \<Rightarrow> int option \<Rightarrow> int option \<Rightarrow> string \<Rightarrow> ds_store \<Rightarrow> unit result \<times> ds_store" where
  "HandleGrantPermission V dsID u role user ty s =
     (if role = None \<and> user = None then (Inl ''role or user is required'', s)
      else if \<not> IsValidPermissionType ty then (Inl ''invalid permission type'', s)
      else (case GrantPermission V \<lparr>dg_id = 0, dg_ds = dsID, dg_role = role, dg_user = user, dg_type = ty,
                    dg_by = Some u, dg_at = 0\<rparr> s of
              (Inl e, s1) \<Rightarrow>
                (Inl (if e = ''invalid permission type'' then e else ''failed to grant''), s1)
            | (Inr _, s1) \<Rightarrow> (Inr (), s1)))"

definition HandleRevokePermission :: "ds_env \<Rightarrow> int \<Rightarrow> int \<Rightarrow> ds_store \<Rightarrow> unit result \<times> ds_store" where
  "HandleRevokePermission V dsID permID s =
     (case RevokePermission V permID s of
        (Inl e, s1) \<Rightarrow> (Inl ''failed to revoke'', s1)
      | (Inr _, s1) \<Rightarrow> (Inr (), s1))"

definition HandleUpdatePermission :: "ds_env \<Rightarrow> int \<Rightarrow> int \<Rightarrow> string \<Rightarrow> ds_store \<Rightarrow> unit result \<times> ds_store" where
  "HandleUpdatePermission V dsID permID ty s =
     (if \<not> IsValidPermissionType ty then (Inl ''invalid permission type'', s)
      else (case UpdatePermission V permID ty s of
              (Inl e, s1) \<Rightarrow>
                (Inl (if e = ''datasource permission not found'' then e else ''failed to update''), s1)
            | (Inr _, s1) \<Rightarrow> (Inr (), s1)))"

section \<open>Properties\<close>

text \<open>Rows as the two writers leave them: ids of users are positive.\<close>

definition ds_wf :: "datasource \<Rightarrow> bool" where
  "ds_wf d \<longleftrightarrow> (\<forall>u. ds_created_by d = Some u \<longrightarrow> u > 0) \<and> (\<forall>u. ds_updated_by d = Some u \<longrightarrow> u > 0)"

lemma scan_ds_row: "ds_wf d \<Longrightarrow> scanDatasource (ds_row d) = d"
  by (cases "ds_created_by d"; cases "ds_updated_by d"; cases "ds_last_test d"; cases d)
     (auto simp: scanDatasource_def ds_row_def ds_wf_def dsRowUser_def flag_def time_cell_def)

lemma GetByID_wf:
  "v_db V DS_get = None \<Longrightarrow> first_where (\<lambda>d. ds_id d = i) (d_sources s) = Some d \<Longrightarrow> ds_wf d \<Longrightarrow>
   GetByID V i s = Inr d"
  by (simp add: GetByID_def wrap_db_def scan_ds_row)

lemma first_where_upd:
  "first_where p t = Some x \<Longrightarrow> p (f x) \<Longrightarrow> first_where p (upd_where p f t) = Some (f x)"
  by (induction t) (auto split: if_splits)

text \<open>What a connection uses as the password of a stored row (\<open>connect\<close> in manager.go).\<close>

definition password_used :: "ds_env \<Rightarrow> datasource \<Rightarrow> string" where
  "password_used V d =
     (case v_crypto V of
        None \<Rightarrow> ds_password d
      | Some C \<Rightarrow> if ds_password d \<noteq> [] \<and> ds_id d > 0
                  then (case Decrypt C (ds_password d) of Inl e \<Rightarrow> ds_password d | Inr p \<Rightarrow> p)
                  else ds_password d)"

definition crypto_laws :: "crypto \<Rightarrow> bool" where
  "crypto_laws C \<longleftrightarrow> (\<forall>n p c. Encrypt C n p = Inr c \<longrightarrow> c \<noteq> [] \<and> Decrypt C c = Inr p)"

lemma crypto_lawsD: "crypto_laws C \<Longrightarrow> Encrypt C n p = Inr c \<Longrightarrow> c \<noteq> [] \<and> Decrypt C c = Inr p"
  unfolding crypto_laws_def by blast

lemma encrypted_back:
  assumes "v_crypto V = Some C" and "crypto_laws C" and "encrypted V p = Inr c" and "i > 0"
  shows "password_used V (d\<lparr>ds_id := i, ds_password := c\<rparr>) = p"
proof (cases "p = []")
  case True then show ?thesis using assms by (auto simp: encrypted_def password_used_def)
next
  case False
  then have "Encrypt C (v_nonce V) p = Inr c" using assms by (auto simp: encrypted_def split: sum.splits)
  then show ?thesis using crypto_lawsD [OF assms(2)] assms by (auto simp: password_used_def)
qed

lemma changed_simps [simp]:
  "ds_id (changed q u d) = ds_id d" "ds_password (changed q u d) = given (du_password q) (ds_password d)"
  by (simp_all add: changed_def)

lemma ds_Update_row:
  assumes "ds_Update V e s = (Inr r, s')" and "v_db V DS_get = None"
    and "first_where (\<lambda>d. ds_id d = ds_id e) (d_sources s) = Some d" and "ds_wf d"
  shows "\<exists>p d'. (if ds_password e \<noteq> [] then encrypted V (ds_password e) else Inr (ds_password d)) = Inr p \<and>
    first_where (\<lambda>d. ds_id d = ds_id e) (d_sources s') = Some d' \<and> ds_id d' = ds_id e \<and> ds_password d' = p"
proof -
  have got: "GetByID V (ds_id e) s = Inr d" by (rule GetByID_wf [OF assms(2-4)])
  from first_where_upd [OF assms(3)]
  show ?thesis using assms(1) got
    by (auto simp: ds_Update_def split: option.splits sum.splits if_splits)
qed

lemma first_where_id: "first_where (\<lambda>d. ds_id d = i) t = Some d \<Longrightarrow> ds_id d = i"
  by (drule first_where_Some) simp

lemma HandleUpdate_row:
  assumes "HandleUpdateDatasource V role u i q s = (Inr r, s')" and "v_db V DS_get = None"
    and row: "first_where (\<lambda>d. ds_id d = i) (d_sources s) = Some d" and "ds_wf d"
  shows "\<exists>p d'. (if ds_password (changed q u d) \<noteq> [] then encrypted V (ds_password (changed q u d))
                else Inr (ds_password d)) = Inr p \<and>
    first_where (\<lambda>d. ds_id d = i) (d_sources s') = Some d' \<and> ds_id d' = i \<and> ds_password d' = p"
proof -
  have got: "GetByID V i s = Inr d" by (rule GetByID_wf [OF assms(2-4)])
  have i: "ds_id d = i" using row by (rule first_where_id)
  obtain s1 r1 where up: "ds_Update V (changed q u d) s = (Inr r1, s1)"
    and s': "s' = s1\<lparr>d_closed := d_closed s1 @ [i]\<rparr>"
    using assms(1) got by (auto simp: HandleUpdateDatasource_def split: prod.splits sum.splits if_splits)
  from ds_Update_row [OF up assms(2)] row assms(4) i s' show ?thesis by simp
qed

lemma password_used_cong: "ds_id a = ds_id b \<Longrightarrow> ds_password a = ds_password b \<Longrightarrow> password_used V a = password_used V b"
  by (auto simp: password_used_def split: option.split sum.split)

text \<open>What a change of a data source does to its password. A request with a new password leaves a row that
  connects with that password, and a request with an empty one leaves the old. A request that does not
  name the password, as the form sends it for any other change, writes back the cipher text that
  \<open>GetByID\<close> returned, encrypted once more: from then on connections use the old cipher text as the
  password.
\<close>

theorem update_without_password_corrupts_it:
  assumes "HandleUpdateDatasource V role u i q s = (Inr r, s')" and "v_db V DS_get = None"
    and "first_where (\<lambda>d. ds_id d = i) (d_sources s) = Some d" and "ds_wf d" and "i > 0"
    and "v_crypto V = Some C" and "crypto_laws C" and "ds_password d \<noteq> []"
  shows "\<exists>d'. first_where (\<lambda>d. ds_id d = i) (d_sources s') = Some d' \<and>
     password_used V d' =
       (case du_password q of
          None \<Rightarrow> ds_password d
        | Some p \<Rightarrow> if p = [] then password_used V d else p)"
proof -
  have i: "ds_id d = i" using assms(3) by (rule first_where_id)
  obtain p d' where p: "(if ds_password (changed q u d) \<noteq> [] then encrypted V (ds_password (changed q u d))
                else Inr (ds_password d)) = Inr p"
    and d': "first_where (\<lambda>d. ds_id d = i) (d_sources s') = Some d'" "ds_id d' = i" "ds_password d' = p"
    using HandleUpdate_row [OF assms(1-4)] by blast
  have used: "encrypted V w = Inr p \<Longrightarrow> password_used V d' = w" for w
    using encrypted_back [OF assms(6,7) _ assms(5), of w p d'] d'
      password_used_cong [of d' "d'\<lparr>ds_id := i, ds_password := p\<rparr>"] by simp
  show ?thesis
    using d' p used i assms(8) password_used_cong [of d' d]
    by (auto simp: given_def split: option.splits if_splits)
qed

definition demo_crypto :: crypto where
  "demo_crypto = \<lparr>Encrypt = \<lambda>n p. Inr (CHR ''#'' # p), Decrypt = \<lambda>c. Inr (tl c)\<rparr>"

lemma demo_crypto_laws: "crypto_laws demo_crypto"
  by (auto simp: crypto_laws_def demo_crypto_def)

definition demo_ds :: datasource where
  "demo_ds = \<lparr>ds_id = 7, ds_name = ''dw'', ds_type = ''mysql'', ds_host = ''db'', ds_port = 3306, ds_path = [],
     ds_database = ''dw'', ds_username = ''bi'', ds_password = ''#secret'', ds_auth = ''simple'', ds_mode = [],
     ds_zk_hosts = [], ds_zk_path = [], ds_rqlite = [], ds_config = [], ds_description = [], ds_domain = 1,
     ds_enabled = True, ds_write = False, ds_test_status = ''success'', ds_last_test = None,
     ds_created_by = Some 3, ds_updated_by = None, ds_created = 0, ds_updated = 0\<rparr>"

definition demo_dsenv :: ds_env where
  "demo_dsenv = \<lparr>v_db = \<lambda>s. None, v_now = 50, v_new_id = 9, v_crypto = Some demo_crypto, v_nonce = 0,
     v_test = \<lambda>d. None, v_text = \<lambda>t. ''2025-01-02T10:00:00Z'', v_like = \<lambda>p t. Contains t p\<rparr>"

definition demo_dstore :: ds_store where
  "demo_dstore = \<lparr>d_sources = [demo_ds], d_grants = [], d_user_roles = [], d_histories = [], d_saved = [],
     d_names = [], d_closed = []\<rparr>"

definition demo_change :: ds_change where
  "demo_change = \<lparr>du_name = None, du_host = None, du_port = None, du_path = None, du_database = None,
     du_username = None, du_password = None, du_auth = None, du_mode = None, du_zk_hosts = None,
     du_zk_path = None, du_rqlite = None, du_config = None, du_description = Some ''warehouse'',
     du_enabled = None, du_write = None\<rparr>"

lemma demo_wf: "ds_wf demo_ds" by (simp add: ds_wf_def demo_ds_def)

lemma demo_first: "first_where (\<lambda>d. ds_id d = 7) (d_sources demo_dstore) = Some demo_ds"
  by (simp add: demo_dstore_def demo_ds_def)

lemma demo_updates:
  "HandleUpdateDatasource demo_dsenv ''user'' 3 7 demo_change demo_dstore =
     (Inr (), snd (HandleUpdateDatasource demo_dsenv ''user'' 3 7 demo_change demo_dstore))"
proof -
  have got: "GetByID demo_dsenv 7 demo_dstore = Inr demo_ds"
    by (rule GetByID_wf [OF _ demo_first demo_wf]) (simp add: demo_dsenv_def)
  then show ?thesis
    by (simp add: HandleUpdateDatasource_def ds_Update_def demo_change_def changed_def given_def encrypted_def
        wrap_db_def demo_dsenv_def demo_crypto_def demo_dstore_def demo_ds_def)
qed

theorem update_without_password_corrupts_it_witness:
  "password_used demo_dsenv demo_ds = ''secret'' \<and>
   (\<exists>d'. first_where (\<lambda>d. ds_id d = 7)
        (d_sources (snd (HandleUpdateDatasource demo_dsenv ''user'' 3 7 demo_change demo_dstore))) = Some d' \<and>
      password_used demo_dsenv d' = ''#secret'')"
  using update_without_password_corrupts_it [OF demo_updates _ demo_first demo_wf, of demo_crypto]
    demo_crypto_laws
  by (simp add: demo_dsenv_def demo_change_def demo_ds_def password_used_def demo_crypto_def)

text \<open>A data source that is created is found under its new id with every field as given, the encrypted
  password aside, which a connection turns back into the given one; and no other row changes.
\<close>

theorem created_datasource_reads_back:
  assumes "Create V d s = (Inr i, s')" and "v_db V DS_get = None" and "ds_wf d" and "i > 0"
    and "list_all (\<lambda>x. ds_id x \<noteq> i) (d_sources s)" and "v_crypto V = Some C" and "crypto_laws C"
  shows "\<exists>p. GetByID V i s' = Inr (d\<lparr>ds_id := i, ds_password := p,
           ds_test_status := (if ds_test_status d = [] then ''untested'' else ds_test_status d),
           ds_updated_by := None, ds_created := v_now V, ds_updated := v_now V\<rparr>) \<and>
     password_used V (d\<lparr>ds_id := i, ds_password := p\<rparr>) = ds_password d \<and>
     butlast (d_sources s') = d_sources s"
proof -
  obtain p where p: "encrypted V (ds_password d) = Inr p"
    and s': "s' = s\<lparr>d_sources := d_sources s @ [d\<lparr>ds_id := i, ds_password := p,
       ds_test_status := (if ds_test_status d = [] then ''untested'' else ds_test_status d),
       ds_updated_by := None, ds_created := v_now V, ds_updated := v_now V\<rparr>]\<rparr>"
    using assms(1) by (auto simp: Create_def split: option.splits sum.splits if_splits)
  define e where "e = d\<lparr>ds_id := i, ds_password := p,
       ds_test_status := (if ds_test_status d = [] then ''untested'' else ds_test_status d),
       ds_updated_by := None, ds_created := v_now V, ds_updated := v_now V\<rparr>"
  have "ds_wf e" using assms(3) by (simp add: ds_wf_def e_def)
  moreover have "first_where (\<lambda>x. ds_id x = i) (d_sources s @ [e]) = Some e"
  proof -
    have "first_where (\<lambda>x. ds_id x = i) (xs @ [e]) = Some e" if "list_all (\<lambda>x. ds_id x \<noteq> i) xs" for xs
      using that by (induction xs) (auto simp: e_def)
    then show ?thesis using assms(5) by blast
  qed
  ultimately have "GetByID V i s' = Inr e"
    using assms(2) s' by (intro GetByID_wf) (simp_all add: e_def)
  then show ?thesis
    using encrypted_back [OF assms(6,7) p assms(4)] s' unfolding e_def
    by (intro exI [of _ p]) simp
qed

theorem created_datasource_reads_back_witness:
  "\<exists>p. GetByID demo_dsenv 9 (snd (Create demo_dsenv (demo_ds\<lparr>ds_id := 0, ds_name := ''new'', ds_password := ''pw''\<rparr>) demo_dstore))
      = Inr (demo_ds\<lparr>ds_id := 9, ds_name := ''new'', ds_password := p, ds_created := 50, ds_updated := 50\<rparr>) \<and>
     password_used demo_dsenv (demo_ds\<lparr>ds_id := 9, ds_name := ''new'', ds_password := p\<rparr>) = ''pw''"
proof -
  have "Create demo_dsenv (demo_ds\<lparr>ds_id := 0, ds_name := ''new'', ds_password := ''pw''\<rparr>) demo_dstore =
     (Inr 9, snd (Create demo_dsenv (demo_ds\<lparr>ds_id := 0, ds_name := ''new'', ds_password := ''pw''\<rparr>) demo_dstore))"
    by (simp add: Create_def demo_dsenv_def demo_ds_def demo_dstore_def wrap_db_def encrypted_def demo_crypto_def
        same_name_def)
  from created_datasource_reads_back [OF this, of demo_crypto] demo_crypto_laws
  show ?thesis by (auto simp: demo_dsenv_def demo_ds_def demo_dstore_def ds_wf_def)
qed

section \<open>Grants\<close>

text \<open>The lower grants go first and the new one comes second, without a transaction. When the second
  statement fails the request answers with an error, and a user who held only grants that the new one
  includes has lost them all.
\<close>

theorem failed_grant_takes_the_old_ones:
  assumes "IsValidPermissionType (dg_type p)" and "dg_user p = Some u"
    and "v_db V DS_clean_grants = None" and "v_db V DS_grant = Some e"
    and "v_db V DS_user_grants = None" and "v_db V DS_role_grants = None"
    and "list_all (\<lambda>g. dg_ds g = dg_ds p \<longrightarrow>
           (dg_user g = Some u \<longrightarrow> dg_type g \<in> set (GetIncludedPermissions (dg_type p))) \<and> dg_role g = None) (d_grants s)"
  shows "fst (GrantPermission V p s) = Inl (''failed to grant permission: '' @ e) \<and>
     CheckPermission V ks u (dg_ds p) action (snd (GrantPermission V p s)) = Inr False"
proof -
  have after: "GrantPermission V p s =
      (Inl (''failed to grant permission: '' @ e), s\<lparr>d_grants := del_where (lower_grant p) (d_grants s)\<rparr>)"
    using assms(1-4) by (simp add: GrantPermission_def wrap_db_def)
  have none: "dg_ds g = dg_ds p \<Longrightarrow> dg_user g \<noteq> Some u \<and> dg_role g = None"
    if "g \<in> set (del_where (lower_grant p) (d_grants s))" for g
    using that assms(2,7) by (auto simp: lower_grant_def list_all_iff)
  then have "\<not> list_ex (\<lambda>g. dg_user g = Some u \<and> dg_ds g = dg_ds p \<and> dg_type g \<in> set T)
       (del_where (lower_grant p) (d_grants s))"
    and "\<not> list_ex (\<lambda>g. (\<exists>(v, r)\<in>set R. v = u \<and> dg_role g = Some r) \<and> dg_ds g = dg_ds p \<and> dg_type g \<in> set T)
       (del_where (lower_grant p) (d_grants s))" for T R
    unfolding list_ex_iff by (auto dest: none simp del: set_del_where)
  then show ?thesis
    unfolding after using assms(5,6) by (simp add: CheckPermission_def wrap_db_def Let_def)
qed

definition demo_grant :: ds_grant where
  "demo_grant = \<lparr>dg_id = 1, dg_ds = 7, dg_role = None, dg_user = Some 8, dg_type = ''query'', dg_by = Some 3, dg_at = 0\<rparr>"

theorem failed_grant_takes_the_old_ones_witness:
  "let V = demo_dsenv\<lparr>v_db := (\<lambda>q. if q = DS_grant then Some ''disk full'' else None)\<rparr>;
       s = demo_dstore\<lparr>d_grants := [demo_grant]\<rparr>;
       s' = snd (GrantPermission V (demo_grant\<lparr>dg_type := ''manage''\<rparr>) s)
   in CheckPermission V [''query'', ''manage''] 8 7 ''query'' s = Inr True \<and>
      CheckPermission V [''query'', ''manage''] 8 7 ''query'' s' = Inr False"
proof -
  have "CheckPermission (demo_dsenv\<lparr>v_db := (\<lambda>q. if q = DS_grant then Some ''disk full'' else None)\<rparr>)
      [''query'', ''manage''] 8 7 ''query'' (demo_dstore\<lparr>d_grants := [demo_grant]\<rparr>) = Inr True"
    by (simp add: CheckPermission_def demo_dstore_def demo_grant_def wrap_db_def Let_def
        GetEffectivePermissions_def permissionIncludes_def includes_of_def validPermissionTypes_def)
  moreover have "''query'' \<in> set (GetIncludedPermissions ''manage'') \<and> IsValidPermissionType ''manage''"
    by (simp add: GetIncludedPermissions_def permissionIncludes_def includes_of_def IsValidPermissionType_def validPermissionTypes_def)
  ultimately show ?thesis
    using failed_grant_takes_the_old_ones [of "demo_grant\<lparr>dg_type := ''manage''\<rparr>" 8
        "demo_dsenv\<lparr>v_db := (\<lambda>q. if q = DS_grant then Some ''disk full'' else None)\<rparr>" "''disk full''"
        "demo_dstore\<lparr>d_grants := [demo_grant]\<rparr>" "[''query'', ''manage'']" "''query''"]
    by (simp add: Let_def demo_grant_def demo_dstore_def)
qed

section \<open>History\<close>

lemma text_le_append: "text_le (xs @ ys) (xs @ zs) = text_le ys zs"
  by (induction xs) auto

text \<open>The filter by day of the history keeps everything from the start of its first day, and nothing of
  its last day: the rows carry texts with a \<open>T\<close> between day and time, the bound has a blank there, and the
  texts are compared byte by byte.
\<close>

theorem history_excludes_its_last_day:
  assumes "day \<noteq> []" and "qh_created h = day @ CHR ''T'' # rest"
  shows "(hf_start f = day \<longrightarrow> history_matches V f h = history_matches V (f\<lparr>hf_start := []\<rparr>) h) \<and>
         (hf_end f = day \<longrightarrow> \<not> history_matches V f h)"
proof -
  have "text_le (day @ '' 00:00:00'') (day @ CHR ''T'' # rest)"
    and "\<not> text_le (day @ CHR ''T'' # rest) (day @ '' 23:59:59'')"
    unfolding text_le_append by simp_all
  then show ?thesis using assms by (auto simp: history_matches_def)
qed

definition demo_history :: query_history where
  "demo_history = \<lparr>qh_id = 1, qh_query = ''q1'', qh_datasource = Some 7, qh_name = ''dw'', qh_sql = ''select 1'',
     qh_database = ''dw'', qh_time = 3, qh_rows = 1, qh_status = ''success'', qh_error = [], qh_by = Some 8,
     qh_domain = 1, qh_created = ''2025-01-02T10:00:00Z''\<rparr>"

theorem history_excludes_its_last_day_witness:
  "let f = \<lparr>hf_domain = 0, hf_datasource = 0, hf_status = [], hf_start = ''2025-01-02'', hf_end = ''2025-01-02'',
            hf_by = 0, hf_search = []\<rparr>
   in \<not> history_matches demo_dsenv f demo_history \<and>
      history_matches demo_dsenv (f\<lparr>hf_end := []\<rparr>) demo_history"
  using history_excludes_its_last_day [of "''2025-01-02''" demo_history "''10:00:00Z''"
      "\<lparr>hf_domain = 0, hf_datasource = 0, hf_status = [], hf_start = ''2025-01-02'', hf_end = ''2025-01-02'',
            hf_by = 0, hf_search = []\<rparr>" demo_dsenv]
  by (simp add: demo_history_def history_matches_def)

section \<open>Pages\<close>

lemma page_of_plain:
  assumes "1 \<le> page" and "0 < sz" and "page * sz < 2 ^ 63"
  shows "page_of page sz xs = Some (take (nat sz) (drop (nat ((page - 1) * sz)) xs))"
proof -
  have start: "0 \<le> (page - 1) * sz" using assms by simp
  have sum: "(page - 1) * sz + sz = page * sz" by (simp add: algebra_simps)
  have less: "(page - 1) * sz < 2 ^ 63" "(page - 1) * sz + sz < 2 ^ 63" using sum assms by linarith+
  have w: "wrap64 ((page - 1) * sz) = (page - 1) * sz" "wrap64 ((page - 1) * sz + sz) = (page - 1) * sz + sz"
    by (rule wrap64_id; use start less assms in linarith)+
  define a where "a = (page - 1) * sz"
  have a: "0 \<le> a" "wrap64 a = a" "wrap64 (a + sz) = a + sz" using start w by (simp_all add: a_def)
  show ?thesis
    unfolding a_def [symmetric] using a assms(2)
    by (auto simp: page_of_def Let_def a_def [symmetric] nat_diff_distrib nat_add_distrib min_def)
qed

lemma fill_keeps_id [simp]: "ds_id (fill_one u levels da d) = ds_id d"
  by (simp add: fill_one_def Let_def)

lemma fillUserPermissions_ids [simp]: "map ds_id (fillUserPermissions E db v u ds) = map ds_id ds"
  by (simp add: fillUserPermissions_def Let_def comp_def)

lemma fillDomainNames_ids [simp]: "map ds_id (fillDomainNames names ds) = map ds_id ds"
  by (cases names) (simp_all add: fillDomainNames_def)

lemma as_listed_id [simp]: "ds_id (as_listed d) = ds_id d"
  by (simp add: as_listed_def datasource.defs)

lemma length_filled [simp]: "length (fillUserPermissions E db v u ds) = length ds"
  by (metis fillUserPermissions_ids length_map)

lemma page_of_far: "page_of 92233720368547760 100 xs = None"
  by (simp add: page_of_def wrap64_def Let_def)

text \<open>A user who is no administrator gets the pages of what he may see, in order and none twice, as long as
  the end of the page is a 64-bit number. The product of page and size is computed unchecked: at 100 rows
  a page, page 92233720368547760 makes the slice expression panic.
\<close>

theorem list_pages_until_overflow:
  assumes "IsSystemAdmin E db u = Inr False" and "1 \<le> page" and "1 \<le> sz" and "sz \<le> 100" and "page * sz < 2 ^ 63"
  shows "(\<exists>shown. ds_List V E ks db names s u q ty search page sz =
            Some (Inr (shown, int (length (visible_ds V E ks db s u ty search)))) \<and>
          map ds_id shown = take (nat sz) (drop (nat ((page - 1) * sz)) (map ds_id (visible_ds V E ks db s u ty search)))) \<and>
         ds_List V E ks db names s u q ty search 92233720368547760 100 = None"
proof -
  define filled where "filled = fillUserPermissions E db (inst_view s) u (map as_listed (visible_ds V E ks db s u ty search))"
  have ids: "map ds_id filled = map ds_id (visible_ds V E ks db s u ty search)"
    unfolding filled_def by (simp add: comp_def)
  have n: "length filled = length (visible_ds V E ks db s u ty search)" by (simp add: filled_def)
  define paged where "paged = take (nat sz) (drop (nat ((page - 1) * sz)) filled)"
  have page: "page_of page sz filled = Some paged"
    using page_of_plain [of page sz filled] assms by (simp add: paged_def)
  have "ds_List V E ks db names s u q ty search page sz =
      Some (Inr (fillDomainNames names paged, int (length filled)))"
    using assms page by (simp add: ds_List_def filled_def Let_def)
  moreover have "map ds_id (fillDomainNames names paged) =
      take (nat sz) (drop (nat ((page - 1) * sz)) (map ds_id (visible_ds V E ks db s u ty search)))"
    unfolding fillDomainNames_ids ids [symmetric] paged_def by (simp add: take_map drop_map)
  moreover have "ds_List V E ks db names s u q ty search 92233720368547760 100 = None"
    using assms(1) by (simp add: ds_List_def page_of_far)
  ultimately show ?thesis using n by auto
qed

theorem list_pages_until_overflow_witness:
  "ds_List demo_dsenv (\<lambda>s. None) [] demo_rbac (Inr []) demo_dstore 8 0 [] [] 92233720368547760 100 = None"
  using list_pages_until_overflow [of "\<lambda>s. None" demo_rbac 8 1 20 demo_dsenv "[]" "Inr []" demo_dstore 0 "[]" "[]"]
  by (simp add: IsSystemAdmin_def demo_rbac_def count_where_def)

end
