(* ===== verification/Access.thy ===== *)
theory Access
  imports Users Datasource_Handlers
begin

text \<open>
  Who may do what: the tokens and the middlewares of scheduler/internal/middleware/auth.go, the requests
  of handler/auth.go, handler/api_token.go and handler/user_admin.go, and the order in which
  cmd/routes.go runs them. The JWT library is the argument \<open>jwt\<close>: signing with a key and verifying with a
  key at an instant. Bodies are bound already. A handler answers with HTTP status 200 in every case and
  puts its own code into the body (handler/response.go).
\<close>

section \<open>Replies\<close>

datatype 'a reply =
    Good 'a                 \<comment> \<open>\<open>Success\<close>, \<open>Created\<close>\<close>
  | Bad int string          \<comment> \<open>\<open>Fail\<close> with its code\<close>
  | Abort int string        \<comment> \<open>a middleware's own status\<close>

fun http_status :: "'a reply \<Rightarrow> int" where
  "http_status (Good x) = 200"
| "http_status (Bad c m) = 200"
| "http_status (Abort n m) = n"

section \<open>Tokens\<close>

record claims =
  cl_user :: int
  cl_name :: string
  cl_real :: string
  cl_domain :: int
  cl_expires :: instant
  cl_issued :: instant
  cl_issuer :: string

record jwt =
  sign :: "string \<Rightarrow> claims \<Rightarrow> string result"
  verify :: "string \<Rightarrow> instant \<Rightarrow> string \<Rightarrow> claims result"

record jwt_config =
  jc_secret :: string
  jc_hours :: int
  jc_refresh_secret :: string
  jc_refresh_hours :: int

definition hours :: "int \<Rightarrow> duration" where "hours n = n * 3600 * second"

definition InitJWT :: "string \<Rightarrow> int \<Rightarrow> int list \<Rightarrow> jwt_config" where
  "InitJWT secret expiryHours refresh =
     \<lparr>jc_secret = secret, jc_hours = (if expiryHours \<le> 0 then 2 else expiryHours),
      jc_refresh_secret = secret @ ''_refresh'',
      jc_refresh_hours = (case refresh of h # _ \<Rightarrow> if h > 0 then h else 168 | [] \<Rightarrow> 168)\<rparr>"

definition SetRefreshExpiryHours :: "int \<Rightarrow> jwt_config \<Rightarrow> jwt_config" where
  "SetRefreshExpiryHours h K = K\<lparr>jc_refresh_hours := h\<rparr>"

text \<open>\<open>NewNumericDate\<close> cuts to whole seconds.\<close>

definition numeric_date :: "instant \<Rightarrow> instant" where "numeric_date t = t div second * second"

definition new_claims :: "instant \<Rightarrow> int \<Rightarrow> string \<Rightarrow> int \<Rightarrow> string \<Rightarrow> string \<Rightarrow> int \<Rightarrow> claims" where
  "new_claims now h issuer u n r d =
     \<lparr>cl_user = u, cl_name = n, cl_real = r, cl_domain = d, cl_expires = numeric_date (now + hours h),
      cl_issued = numeric_date now, cl_issuer = issuer\<rparr>"

definition GenerateToken :: "jwt \<Rightarrow> jwt_config \<Rightarrow> instant \<Rightarrow> int \<Rightarrow> string \<Rightarrow> string \<Rightarrow> int \<Rightarrow> string result" where
  "GenerateToken J K now u n r d = sign J (jc_secret K) (new_claims now (jc_hours K) ''bdopsflow'' u n r d)"

definition GenerateRefreshToken ::
  "jwt \<Rightarrow> jwt_config \<Rightarrow> instant \<Rightarrow> int \<Rightarrow> string \<Rightarrow> string \<Rightarrow> int \<Rightarrow> string result" where
  "GenerateRefreshToken J K now u n r d =
     sign J (jc_refresh_secret K) (new_claims now (jc_refresh_hours K) ''bdopsflow-refresh'' u n r d)"

definition ParseToken :: "jwt \<Rightarrow> jwt_config \<Rightarrow> instant \<Rightarrow> string \<Rightarrow> claims result" where
  "ParseToken J K now t = verify J (jc_secret K) now t"

definition ParseRefreshToken :: "jwt \<Rightarrow> jwt_config \<Rightarrow> instant \<Rightarrow> string \<Rightarrow> claims result" where
  "ParseRefreshToken J K now t = verify J (jc_refresh_secret K) now t"

section \<open>Middlewares\<close>

text \<open>The values the middlewares put into the request's context; \<open>pr_role\<close> is set last.\<close>

record principal =
  pr_user :: int
  pr_name :: string
  pr_real :: string
  pr_domain :: int
  pr_api :: bool                  \<comment> \<open>\<open>auth_type\<close> is \<open>api_token\<close>\<close>
  pr_role :: "string option"

definition bearer :: "string \<Rightarrow> string" where
  "bearer h =
     (if takeWhile (\<lambda>c. c \<noteq> CHR '' '') h = ''Bearer'' then drop 1 (dropWhile (\<lambda>c. c \<noteq> CHR '' '') h) else [])"

definition of_claims :: "claims \<Rightarrow> principal" where
  "of_claims c = \<lparr>pr_user = cl_user c, pr_name = cl_name c, pr_real = cl_real c, pr_domain = cl_domain c,
     pr_api = False, pr_role = None\<rparr>"

definition JWTAuthMiddleware :: "jwt \<Rightarrow> jwt_config \<Rightarrow> instant \<Rightarrow> string \<Rightarrow> string \<Rightarrow> principal reply" where
  "JWTAuthMiddleware J K now header query =
     (let tok = (if bearer header \<noteq> [] then bearer header else query)
      in if tok = [] then Abort 401 ''Authorization required''
         else (case ParseToken J K now tok of
                 Inl e \<Rightarrow> Abort 401 ''Invalid token'' | Inr c \<Rightarrow> Good (of_claims c)))"

definition JWTAuthMiddlewareWithAPIToken ::
  "jwt \<Rightarrow> jwt_config \<Rightarrow> user_env \<Rightarrow> string \<Rightarrow> string \<Rightarrow> identity \<Rightarrow> principal reply" where
  "JWTAuthMiddlewareWithAPIToken J K V header query s =
     (let tok = (if bearer header \<noteq> [] then bearer header else query)
      in if tok = [] then Abort 401 ''Authorization required''
         else (case ParseToken J K (ue_now V) tok of
                 Inr c \<Rightarrow> Good (of_claims c)
               | Inl e \<Rightarrow>
                   (if HasPrefix tok ''bdf_''
                    then (case ValidateToken V tok s of
                            Inl e \<Rightarrow> Abort 401 ''Invalid token''
                          | Inr (u, t) \<Rightarrow>
                              (if u > 0
                               then (case GetTokenUserInfo V u s of
                                       Inl e \<Rightarrow> Abort 401 ''Invalid token''
                                     | Inr (n, r, d) \<Rightarrow>
                                         Good \<lparr>pr_user = u, pr_name = n, pr_real = r, pr_domain = d,
                                               pr_api = True, pr_role = None\<rparr>)
                               else Abort 401 ''Invalid token''))
                    else Abort 401 ''Invalid token'')))"

fun role_of_codes :: "string \<Rightarrow> string list \<Rightarrow> string" where
  "role_of_codes acc [] = acc"
| "role_of_codes acc (c # cs) =
     (if c = ''system_admin'' then ''system_admin''
      else role_of_codes (if c = ''domain_admin'' \<and> acc \<noteq> ''system_admin'' then ''domain_admin'' else acc) cs)"

definition InjectUserRole :: "db_verdict \<Rightarrow> rbac \<Rightarrow> principal \<Rightarrow> principal reply" where
  "InjectUserRole E db p =
     (if pr_user p \<le> 0 then Good p
      else (case GetUserRoleCodes E db (pr_user p) of
              Inl e \<Rightarrow> Good p
            | Inr codes \<Rightarrow> if codes = [] then Abort 401 ''User not found''
                           else Good (p\<lparr>pr_role := Some (role_of_codes ''user'' codes)\<rparr>)))"

text \<open>The checks of a route; \<open>None\<close> lets the request through.\<close>

definition verdict_of :: "string \<Rightarrow> bool result \<Rightarrow> (int \<times> string) option" where
  "verdict_of denied r =
     (case r of
        Inl e \<Rightarrow> Some (500, ''Failed to check permissions'')
      | Inr ok \<Rightarrow> if ok then None else Some (403, denied))"

definition RequireSystemAdmin :: "db_verdict \<Rightarrow> rbac \<Rightarrow> principal \<Rightarrow> (int \<times> string) option" where
  "RequireSystemAdmin E db p = verdict_of ''System admin access required'' (IsSystemAdmin E db (pr_user p))"

definition RequirePermission ::
  "db_verdict \<Rightarrow> rbac \<Rightarrow> string \<Rightarrow> string \<Rightarrow> principal \<Rightarrow> (int \<times> string) option" where
  "RequirePermission E db resource action p =
     verdict_of ''Insufficient permissions'' (HasPermission E db (pr_user p) resource action (pr_domain p))"

text \<open>An unknown resource type leaves \<open>ok\<close> false.\<close>

definition RequireInstancePermission ::
  "db_verdict \<Rightarrow> string list \<Rightarrow> rbac \<Rightarrow> inst_db \<Rightarrow> inst_db \<Rightarrow> string \<Rightarrow> int \<Rightarrow> string \<Rightarrow> principal \<Rightarrow>
   (int \<times> string) option" where
  "RequireInstancePermission E ks db dsdb whdb resourceType i ty p =
     (if i = 0 then Some (400, ''Invalid resource ID'')
      else verdict_of ''Insufficient permissions''
             (if resourceType = ''datasource'' then HasDatasourcePermission E ks db dsdb (pr_user p) i ty
              else if resourceType = ''webhook'' then HasWebhookPermission E ks db whdb (pr_user p) i ty
              else Inr False))"

text \<open>\<open>Sscanf\<close> takes a sign and leaves zero when the number does not fit.\<close>

definition parseInt64 :: "string \<Rightarrow> int" where
  "parseInt64 t =
     (let n = scan_d (case t of c # cs \<Rightarrow> if c = CHR ''+'' then takeWhile is_digit cs else t | [] \<Rightarrow> [])
      in if - (2 ^ 63) \<le> n \<and> n < 2 ^ 63 then n else 0)"

text \<open>\<open>body\<close> is the \<open>datasource_id\<close> of the body, 0 when there is none.\<close>

definition DatasourcePermissionMiddleware ::
  "db_verdict \<Rightarrow> string list \<Rightarrow> rbac \<Rightarrow> inst_db \<Rightarrow> string \<Rightarrow> string \<Rightarrow> string \<Rightarrow> int \<Rightarrow> principal \<Rightarrow>
   (int \<times> string) option" where
  "DatasourcePermissionMiddleware E ks db d ty meth path body p =
     (let i = (if path \<noteq> [] then parseInt64 path else 0);
          ds = (if i = 0 then body else i)
      in if ds = 0
         then (if meth \<in> set [''POST'', ''PUT'', ''PATCH''] then Some (400, ''datasource_id is required'') else None)
         else verdict_of ''Insufficient permissions'' (HasDatasourcePermission E ks db d (pr_user p) ds ty))"

text \<open>A protected request: authentication, role, the check of the route, then the handler.\<close>

definition protected ::
  "jwt \<Rightarrow> jwt_config \<Rightarrow> user_env \<Rightarrow> string \<Rightarrow> string \<Rightarrow> (principal \<Rightarrow> (int \<times> string) option) \<Rightarrow>
   (principal \<Rightarrow> 's \<Rightarrow> 'a reply \<times> 's) \<Rightarrow> identity \<Rightarrow> 's \<Rightarrow> 'a reply \<times> 's" where
  "protected J K V header query check handler ids s =
     (case JWTAuthMiddlewareWithAPIToken J K V header query ids of
        Bad c m \<Rightarrow> (Bad c m, s)
      | Abort c m \<Rightarrow> (Abort c m, s)
      | Good p \<Rightarrow>
          (case InjectUserRole (ue_rbac V) (id_rbac ids) p of
             Bad c m \<Rightarrow> (Bad c m, s)
           | Abort c m \<Rightarrow> (Abort c m, s)
           | Good q \<Rightarrow> (case check q of Some (c, m) \<Rightarrow> (Abort c m, s) | None \<Rightarrow> handler q s)))"

section \<open>Login\<close>

record session =
  ss_token :: string
  ss_refresh :: string
  ss_user :: int
  ss_domain :: int

definition current_domain :: "user_env \<Rightarrow> int \<Rightarrow> identity \<Rightarrow> int" where
  "current_domain V u s =
     (let def = (case GetUserDefaultDomain (ue_rbac V) (id_rbac s) u of Inl e \<Rightarrow> 0 | Inr d \<Rightarrow> d);
          infos = (case GetUserDomainInfos (ue_rbac V) (id_rbac s) u of Inl e \<Rightarrow> [] | Inr l \<Rightarrow> l)
      in if def > 0 then def else (case infos of [] \<Rightarrow> 0 | x # _ \<Rightarrow> fst x))"

definition new_session ::
  "jwt \<Rightarrow> jwt_config \<Rightarrow> instant \<Rightarrow> int \<Rightarrow> string \<Rightarrow> string \<Rightarrow> int \<Rightarrow> session reply" where
  "new_session J K now u n r d =
     (case GenerateToken J K now u n r d of
        Inl e \<Rightarrow> Bad 500 ''server error''
      | Inr t \<Rightarrow> (case GenerateRefreshToken J K now u n r d of
          Inl e \<Rightarrow> Bad 500 ''server error''
        | Inr rt \<Rightarrow> Good \<lparr>ss_token = t, ss_refresh = rt, ss_user = u, ss_domain = d\<rparr>))"

text \<open>The time of the login is written by a goroutine, \<open>auth_UpdateLastLogin\<close>.\<close>

definition Login ::
  "jwt \<Rightarrow> jwt_config \<Rightarrow> user_env \<Rightarrow> string \<Rightarrow> string \<Rightarrow> identity \<Rightarrow> session reply" where
  "Login J K V n sent s =
     (if n = [] \<or> sent = [] then Bad 400 ''user name and password required''
      else (case auth_GetUserByUsername V n s of
              Inl e \<Rightarrow> Bad 500 ''server error''
            | Inr None \<Rightarrow> Bad 11003 ''wrong user name or password''
            | Inr (Some u) \<Rightarrow>
                (case rsa_open (ue_vault V) sent of
                   Inl e \<Rightarrow> Bad 11003 ''wrong user name or password''
                 | Inr p \<Rightarrow>
                     (if \<not> bcrypt_match (ue_vault V) (u_hash u) p then Bad 11003 ''wrong user name or password''
                      else if \<not> u_active u then Bad 11003 ''user is disabled''
                      else new_session J K (ue_now V) (u_id u) (u_name u) (u_real u) (current_domain V (u_id u) s)))))"

definition RefreshToken :: "jwt \<Rightarrow> jwt_config \<Rightarrow> user_env \<Rightarrow> string \<Rightarrow> identity \<Rightarrow> session reply" where
  "RefreshToken J K V tok s =
     (case ParseRefreshToken J K (ue_now V) tok of
        Inl e \<Rightarrow> Bad 11007 ''refresh token invalid''
      | Inr c \<Rightarrow>
          (if cl_issuer c \<noteq> ''bdopsflow-refresh'' then Bad 11007 ''refresh token invalid''
           else (case GetUserActiveStatus V (cl_user c) s of
                   Inl e \<Rightarrow> Bad 500 ''server error''
                 | Inr None \<Rightarrow> Bad 11007 ''user not found''
                 | Inr (Some active) \<Rightarrow>
                     (if \<not> active then Bad 11007 ''user is disabled''
                      else new_session J K (ue_now V) (cl_user c) (cl_name c) (cl_real c) (cl_domain c)))))"

text \<open>The default role is assigned when it is found; a failure is logged.\<close>

definition default_role :: "user_env \<Rightarrow> int \<Rightarrow> identity \<Rightarrow> identity" where
  "default_role V u s =
     (case GetRoleIDByCode V ''user'' s of
        Inl e \<Rightarrow> s
      | Inr r \<Rightarrow> if r > 0 then snd (AssignUserRole V u r s) else s)"

definition Register ::
  "user_env \<Rightarrow> string \<Rightarrow> string \<Rightarrow> string \<Rightarrow> identity \<Rightarrow> int reply \<times> identity" where
  "Register V n sent email s =
     (if n = [] \<or> sent = [] then (Bad 400 ''user name and password required'', s)
      else (case rsa_open (ue_vault V) sent of
              Inl e \<Rightarrow> (Bad 400 ''password cannot be decrypted'', s)
            | Inr p \<Rightarrow>
                (case validatePlaintextPassword p of
                   Inl e \<Rightarrow> (Bad 400 e, s)
                 | Inr _ \<Rightarrow>
                     (case bcrypt_hash (ue_vault V) (ue_draw V) p of
                        Inl e \<Rightarrow> (Bad 500 ''server error'', s)
                      | Inr h \<Rightarrow>
                          (case auth_CreateUser V n [] [] h email s of
                             (Inl e, s1) \<Rightarrow> (Bad 500 ''server error'', s1)
                           | (Inr u, s1) \<Rightarrow> (Good u, default_role V u s1))))))"

text \<open>The answer of the SSO service: its code, and the content when there is one.\<close>

record sso_content =
  so_login :: string
  so_card :: string
  so_mobile :: string
  so_email :: string

definition SSOLogin ::
  "jwt \<Rightarrow> jwt_config \<Rightarrow> user_env \<Rightarrow> bool \<Rightarrow> (string \<times> string \<times> sso_content option) result \<Rightarrow> string \<Rightarrow>
   identity \<Rightarrow> session reply \<times> identity" where
  "SSOLogin J K V enabled answer n s =
     (if \<not> enabled then (Bad 400 ''SSO is not enabled'', s)
      else (case answer of
              Inl e \<Rightarrow> (Bad 500 ''SSO failed'', s)
            | Inr (ok, msg, None) \<Rightarrow> (Bad 11003 (if msg = [] then ''SSO failed'' else msg), s)
            | Inr (ok, msg, Some c) \<Rightarrow>
                (if ok \<noteq> ''3000'' then (Bad 11003 (if msg = [] then ''SSO failed'' else msg), s)
                 else let login = (if so_login c = [] then n else so_login c) in
                   (case GetSSOUserByUsername V login s of
                      Inl e \<Rightarrow> (Bad 500 ''server error'', s)
                    | Inr (Some u) \<Rightarrow>
                        (if \<not> u_active u then (Bad 11003 ''user is disabled'', s)
                         else (new_session J K (ue_now V) (u_id u) (u_name u) (u_real u)
                                 (current_domain V (u_id u) s), s))
                    | Inr None \<Rightarrow>
                        (case auth_CreateUser V login (so_card c) (so_mobile c) [] (so_email c) s of
                           (Inl e, s1) \<Rightarrow> (Bad 500 ''server error'', s1)
                         | (Inr u, s1) \<Rightarrow>
                             (let s2 = default_role V u s1
                              in (new_session J K (ue_now V) u login (so_card c) (current_domain V u s2), s2)))))))"

definition HandleSwitchDomain ::
  "jwt \<Rightarrow> jwt_config \<Rightarrow> user_env \<Rightarrow> int \<Rightarrow> principal \<Rightarrow> identity \<Rightarrow> session reply" where
  "HandleSwitchDomain J K V d p s =
     (case SwitchDomain (ue_rbac V) (id_rbac s) (pr_user p) d of
        Inl e \<Rightarrow> (if e = ''access to domain denied'' then Bad 403 ''access to domain denied''
                  else Bad 500 ''switch failed'')
      | Inr perms \<Rightarrow> new_session J K (ue_now V) (pr_user p) (pr_name p) (pr_real p) d)"

definition HandleGetCurrentUser :: "user_env \<Rightarrow> principal \<Rightarrow> identity \<Rightarrow> (user \<times> int) reply" where
  "HandleGetCurrentUser V p s =
     (case auth_GetUserByID V (pr_user p) s of
        Inl e \<Rightarrow> Bad 500 ''server error''
      | Inr None \<Rightarrow> Bad 404 ''user not found''
      | Inr (Some u) \<Rightarrow>
          if \<not> u_active u then Bad 401 ''user is disabled'' else Good (u\<lparr>u_id := pr_user p\<rparr>, pr_domain p))"

end
