(* ===== verification/User_Requests.thy ===== *)
theory User_Requests
  imports Access
begin

text \<open>
  The requests of handler/user_admin.go and handler/api_token.go, and what the tokens, the login and the
  administration of users add up to. Messages are in English.
\<close>

section \<open>Requests\<close>

definition getUserFriendlyError :: "string \<Rightarrow> string \<times> int" where
  "getUserFriendlyError e =
     (if Contains e ''UNIQUE constraint failed''
      then (if Contains e ''username'' then (''user name exists'', 400)
            else if Contains e ''email'' then (''email in use'', 400) else (''data exists'', 400))
      else if Contains e ''FOREIGN KEY constraint failed'' then (''related data missing'', 400)
      else if Contains e ''NOT NULL constraint failed'' then (''field missing'', 400)
      else (''operation failed'', 500))"

definition user_error :: "string \<Rightarrow> 'a reply" where
  "user_error e =
     (if e \<in> set [''password too short'', ''password too long'', ''password too weak''] then Bad 400 e
      else Bad (snd (getUserFriendlyError e)) (fst (getUserFriendlyError e)))"

definition is_operator :: "principal \<Rightarrow> bool" where
  "is_operator p \<longleftrightarrow> pr_role p = Some ''system_admin'' \<or> pr_role p = Some ''admin''"

definition is_sysadmin :: "user_env \<Rightarrow> principal \<Rightarrow> identity \<Rightarrow> bool" where
  "is_sysadmin V p s \<longleftrightarrow> pr_user p > 0 \<and> IsSystemAdmin (ue_rbac V) (id_rbac s) (pr_user p) = Inr True"

definition shown_users :: "user_env \<Rightarrow> identity \<Rightarrow> user list result \<Rightarrow> user_row list reply" where
  "shown_users V s r =
     (case r of Inl e \<Rightarrow> Bad 500 ''failed to list users''
              | Inr us \<Rightarrow> Good (EnrichUsersWithRolesAndDomains V s us))"

definition HandleListUsers :: "user_env \<Rightarrow> principal \<Rightarrow> identity \<Rightarrow> user_row list reply" where
  "HandleListUsers V p s =
     shown_users V s
       (if is_sysadmin V p s then ListUsers V s
        else if pr_domain p > 0 then GetUsersByDomain V (pr_domain p) s else ListUsers V s)"

text \<open>\<open>q\<close> is the parsed number of the query, if there is one.\<close>

definition HandleListUsersByDomain :: "user_env \<Rightarrow> int option \<Rightarrow> principal \<Rightarrow> identity \<Rightarrow> user_row list reply" where
  "HandleListUsersByDomain V q p s =
     (let queryAll = (q = Some 0 \<and> is_sysadmin V p s);
          d = (case q of Some n \<Rightarrow> if n > 0 then n else pr_domain p | None \<Rightarrow> pr_domain p)
      in shown_users V s
           (if queryAll then ListUsers V s else if d > 0 then GetUsersByDomain V d s else ListUsers V s))"

definition HandleGetUser :: "user_env \<Rightarrow> int \<Rightarrow> identity \<Rightarrow> (user \<times> role list) reply" where
  "HandleGetUser V i s =
     (if i \<le> 0 then Bad 400 ''invalid user id''
      else (case admin_GetUserByID V i s of
              Inl e \<Rightarrow> Bad 500 ''failed to get user''
            | Inr None \<Rightarrow> Bad 404 ''user not found''
            | Inr (Some u) \<Rightarrow>
                Good (u\<lparr>u_hash := []\<rparr>, case admin_GetUserRoles V i s of Inl e \<Rightarrow> [] | Inr rs \<Rightarrow> rs)))"

record new_user =
  nu_name :: string
  nu_real :: string
  nu_phone :: string
  nu_email :: string
  nu_sent :: string
  nu_roles :: "int list"
  nu_domains :: "int list"

definition HandleCreateUser ::
  "user_env \<Rightarrow> new_user \<Rightarrow> principal \<Rightarrow> identity \<Rightarrow> user reply \<times> identity" where
  "HandleCreateUser V q p s =
     (let create = (case admin_CreateUser V (nu_name q) (nu_real q) (nu_phone q) (nu_email q) (nu_sent q)
                           (nu_roles q) (nu_domains q) (pr_user p) s of
                      (Inl e, s1) \<Rightarrow> (user_error e, s1)
                    | (Inr None, s1) \<Rightarrow> (Bad 500 ''service error'', s1)
                    | (Inr (Some u), s1) \<Rightarrow> (Good (u\<lparr>u_hash := []\<rparr>), s1))
      in if is_operator p then create
         else if AreRolesSystemOnly (\<lambda>r. ue_rbac V) (id_rbac s) (nu_roles q)
         then (Bad 403 ''system role not allowed'', s)
         else (case AreDomainsAccessibleByUser (ue_rbac V) (id_rbac s) (pr_user p) (nu_domains q) of
                 Inl e \<Rightarrow> (Bad 500 ''failed to check domains'', s)
               | Inr allowed \<Rightarrow> if allowed then create else (Bad 403 ''own domains only'', s)))"

record user_change =
  uc_name :: string
  uc_real :: string
  uc_phone :: string
  uc_email :: string
  uc_active :: bool
  uc_roles :: "int list"
  uc_domains :: "int list"

definition update_roles :: "user_env \<Rightarrow> int \<Rightarrow> user_change \<Rightarrow> principal \<Rightarrow> identity \<Rightarrow> unit reply \<times> identity" where
  "update_roles V i q p s =
     (if uc_roles q = [] then (Good (), s)
      else if \<not> is_operator p \<and> AreRolesSystemOnly (\<lambda>r. ue_rbac V) (id_rbac s) (uc_roles q)
      then (Bad 403 ''system role not allowed'', s)
      else (case AssignUserRoles V i (uc_roles q) (uc_domains q) s of
              (Inl e, s1) \<Rightarrow> (Bad 500 ''failed to update roles'', s1)
            | (Inr _, s1) \<Rightarrow> (Good (), s1)))"

definition update_domains :: "user_env \<Rightarrow> int \<Rightarrow> user_change \<Rightarrow> principal \<Rightarrow> identity \<Rightarrow> unit reply \<times> identity" where
  "update_domains V i q p s =
     (let assign = (case AssignUserDomains V i (uc_domains q) s of
                      (Inl e, s1) \<Rightarrow> (Bad 500 ''failed to update domains'', s1)
                    | (Inr _, s1) \<Rightarrow> (Good (), s1))
      in if uc_domains q = [] then (Good (), s)
         else if is_operator p then assign
         else (case AreDomainsAccessibleByUser (ue_rbac V) (id_rbac s) (pr_user p) (uc_domains q) of
                 Inl e \<Rightarrow> (Bad 500 ''failed to check domains'', s)
               | Inr allowed \<Rightarrow> if allowed then assign else (Bad 403 ''own domains only'', s)))"

definition HandleUpdateUser ::
  "user_env \<Rightarrow> int \<Rightarrow> user_change \<Rightarrow> principal \<Rightarrow> identity \<Rightarrow> unit reply \<times> identity" where
  "HandleUpdateUser V i q p s =
     (if i \<le> 0 then (Bad 400 ''invalid user id'', s)
      else (case UpdateUserWithDomainCheck V (pr_user p) i (uc_name q) (uc_real q) (uc_phone q) (uc_email q)
                   (uc_active q) s of
              (Inl e, s1) \<Rightarrow> ((if e = ''user not found'' then Bad 404 e else user_error e), s1)
            | (Inr _, s1) \<Rightarrow>
                (case update_roles V i q p s1 of
                   (Good _, s2) \<Rightarrow> update_domains V i q p s2
                 | (r, s2) \<Rightarrow> (r, s2))))"

definition HandleDeleteUser :: "user_env \<Rightarrow> int \<Rightarrow> principal \<Rightarrow> identity \<Rightarrow> unit reply \<times> identity" where
  "HandleDeleteUser V i p s =
     (if i \<le> 0 then (Bad 400 ''invalid user id'', s)
      else (case DeleteUser V i s of (Inl e, s1) \<Rightarrow> (user_error e, s1) | (Inr _, s1) \<Rightarrow> (Good (), s1)))"

definition HandleAssignUserRoles ::
  "user_env \<Rightarrow> int \<Rightarrow> int list \<Rightarrow> int list \<Rightarrow> principal \<Rightarrow> identity \<Rightarrow> unit reply \<times> identity" where
  "HandleAssignUserRoles V i rs ds p s =
     (if i \<le> 0 then (Bad 400 ''invalid user id'', s)
      else if \<not> is_operator p \<and> AreRolesSystemOnly (\<lambda>r. ue_rbac V) (id_rbac s) rs
      then (Bad 403 ''system role not allowed'', s)
      else (case AssignUserRoles V i rs ds s of (Inl e, s1) \<Rightarrow> (user_error e, s1) | (Inr _, s1) \<Rightarrow> (Good (), s1)))"

definition HandleAssignUserDomains ::
  "user_env \<Rightarrow> int \<Rightarrow> int list \<Rightarrow> principal \<Rightarrow> identity \<Rightarrow> unit reply \<times> identity" where
  "HandleAssignUserDomains V i ds p s =
     (let assign = (case AssignUserDomains V i ds s of
                      (Inl e, s1) \<Rightarrow> (user_error e, s1) | (Inr _, s1) \<Rightarrow> (Good (), s1))
      in if i \<le> 0 then (Bad 400 ''invalid user id'', s)
         else if ds = [] then (Bad 400 ''domains required'', s)
         else if is_operator p then assign
         else (case AreDomainsAccessibleByUser (ue_rbac V) (id_rbac s) (pr_user p) ds of
                 Inl e \<Rightarrow> (Bad 500 ''failed to check domains'', s)
               | Inr allowed \<Rightarrow> if allowed then assign else (Bad 403 ''own domains only'', s)))"

definition HandleUpdateCurrentUser ::
  "user_env \<Rightarrow> string \<Rightarrow> string \<Rightarrow> string \<Rightarrow> principal \<Rightarrow> identity \<Rightarrow> user option reply \<times> identity" where
  "HandleUpdateCurrentUser V real phone email p s =
     (case UpdateCurrentUser V (pr_user p) real phone email s of
        (Inl e, s1) \<Rightarrow> (user_error e, s1)
      | (Inr u, s1) \<Rightarrow> (Good (map_option (\<lambda>u. u\<lparr>u_hash := []\<rparr>) u), s1))"

definition HandleChangePassword ::
  "user_env \<Rightarrow> string \<Rightarrow> string \<Rightarrow> principal \<Rightarrow> identity \<Rightarrow> unit reply \<times> identity" where
  "HandleChangePassword V old new p s =
     (case ChangePassword V (pr_user p) old new s of
        (Inl e, s1) \<Rightarrow> (user_error e, s1) | (Inr _, s1) \<Rightarrow> (Good (), s1))"

definition HandleResetUserPassword ::
  "user_env \<Rightarrow> int \<Rightarrow> string \<Rightarrow> principal \<Rightarrow> identity \<Rightarrow> unit reply \<times> identity" where
  "HandleResetUserPassword V i new p s =
     (if i \<le> 0 then (Bad 400 ''invalid user id'', s)
      else (case ResetUserPasswordWithDomainCheck V (pr_user p) i new s of
              (Inl e, s1) \<Rightarrow> ((if e = ''user not found'' then Bad 404 e else user_error e), s1)
            | (Inr _, s1) \<Rightarrow> (Good (), s1)))"

definition HandleGenerateToken ::
  "user_env \<Rightarrow> string result \<Rightarrow> principal \<Rightarrow> identity \<Rightarrow> (string \<times> string) reply \<times> identity" where
  "HandleGenerateToken V drawn p s =
     (if pr_user p \<le> 0 then (Bad 400 ''invalid user id'', s)
      else (case GenerateAPIToken V drawn (pr_user p) s of
              (Inl e, s1) \<Rightarrow> (Bad 500 ''failed to generate token'', s1)
            | (Inr (tok, t), s1) \<Rightarrow> (Good (tok, at_prefix t), s1)))"

definition HandleTokenInfo :: "user_env \<Rightarrow> principal \<Rightarrow> identity \<Rightarrow> (string \<times> instant option) option reply" where
  "HandleTokenInfo V p s =
     (if pr_user p \<le> 0 then Bad 400 ''invalid user id''
      else (case GetTokenInfo V (pr_user p) s of
              Inl e \<Rightarrow> if e = ''api token not found'' then Good None else Bad 500 ''failed to query token''
            | Inr t \<Rightarrow> Good (Some (at_prefix t, at_used t))))"

definition HandleRevealToken :: "user_env \<Rightarrow> principal \<Rightarrow> identity \<Rightarrow> string reply" where
  "HandleRevealToken V p s =
     (if pr_user p \<le> 0 then Bad 400 ''invalid user id''
      else (case GetTokenInfo V (pr_user p) s of
              Inl e \<Rightarrow> if e = ''api token not found'' then Bad 404 e else Bad 500 ''failed to reveal token''
            | Inr t \<Rightarrow> (case RevealToken V (pr_user p) s of
                 Inl e \<Rightarrow> Bad 500 ''failed to reveal token'' | Inr tok \<Rightarrow> Good tok)))"

definition HandleRevokeToken :: "user_env \<Rightarrow> principal \<Rightarrow> identity \<Rightarrow> unit reply \<times> identity" where
  "HandleRevokeToken V p s =
     (if pr_user p \<le> 0 then (Bad 400 ''invalid user id'', s)
      else (case GetTokenInfo V (pr_user p) s of
              Inl e \<Rightarrow> ((if e = ''api token not found'' then Bad 404 e else Bad 500 ''failed to query token''), s)
            | Inr t \<Rightarrow> (case RevokeToken V (pr_user p) s of
                 (Inl e, s1) \<Rightarrow> (Bad 500 ''failed to revoke token'', s1) | (Inr _, s1) \<Rightarrow> (Good (), s1))))"

end
