(* ===== verification/Access_Properties.thy ===== *)
theory Access_Properties
  imports User_Requests "HOL-Library.Countable"
begin

text \<open>
  What holds of authentication and of the administration of users. The laws of the libraries are named
  hypotheses: \<open>jwt_laws\<close> (a token verifies with the key it was signed with, until it expires, and with no
  other key) and \<open>vault_laws\<close> (a hash matches the text it was made from, an empty hash matches nothing,
  and a sealed token opens to itself).
\<close>

section \<open>Laws\<close>

definition jwt_laws :: "jwt \<Rightarrow> bool" where
  "jwt_laws J \<longleftrightarrow>
     (\<forall>k c t k' now. sign J k c = Inr t \<longrightarrow>
        t \<noteq> [] \<and> (k' = k \<and> now < cl_expires c \<longrightarrow> verify J k' now t = Inr c) \<and>
        (k' \<noteq> k \<or> now \<ge> cl_expires c \<longrightarrow> isl (verify J k' now t)))"

lemma jwt_lawsD:
  assumes "jwt_laws J" and "sign J k c = Inr t"
  shows "t \<noteq> []" and "now < cl_expires c \<Longrightarrow> verify J k now t = Inr c"
    and "k' \<noteq> k \<or> now \<ge> cl_expires c \<Longrightarrow> isl (verify J k' now t)"
  using assms unfolding jwt_laws_def by blast+

definition vault_laws :: "vault \<Rightarrow> bool" where
  "vault_laws W \<longleftrightarrow>
     (\<forall>n p h. bcrypt_hash W n p = Inr h \<longrightarrow> bcrypt_match W h p) \<and>
     (\<forall>p. \<not> bcrypt_match W [] p) \<and>
     (\<forall>n t c. seal_token W n t = Inr c \<longrightarrow> open_token W c = Inr t)"

lemma vault_lawsD:
  assumes "vault_laws W"
  shows "bcrypt_hash W n p = Inr h \<Longrightarrow> bcrypt_match W h p" and "\<not> bcrypt_match W [] p"
    and "seal_token W n t = Inr c \<Longrightarrow> open_token W c = Inr t"
  using assms unfolding vault_laws_def by blast+

definition can_sign :: "jwt \<Rightarrow> bool" where
  "can_sign J \<longleftrightarrow> (\<forall>k c. \<exists>t. sign J k c = Inr t)"

lemma can_signD: "can_sign J \<Longrightarrow> \<exists>t. sign J k c = Inr t"
  unfolding can_sign_def by blast

lemma first_where_upd_keep:
  assumes "\<And>x. p (f x) = p x"
  shows "first_where p (upd_where q f t) = map_option (\<lambda>x. if q x then f x else x) (first_where p t)"
  using assms by (induction t) auto

definition bearer_header :: "string \<Rightarrow> string" where "bearer_header t = ''Bearer '' @ t"

lemma bearer_token [simp]: "bearer (bearer_header t) = t"
  by (simp add: bearer_def bearer_header_def)

section \<open>Tokens\<close>

text \<open>A session's two tokens. Each carries the user and the domain it was made for and is accepted for its
  own purpose until the second of its expiry, and never for the other: the keys differ whatever the
  secret is.
\<close>

theorem session_tokens_are_separate:
  assumes "jwt_laws J" and "K = InitJWT secret h rs"
    and "GenerateToken J K now u n r d = Inr t" and "GenerateRefreshToken J K now u n r d = Inr rt"
  shows "(later < numeric_date (now + hours (jc_hours K)) \<longrightarrow>
            ParseToken J K later t = Inr (new_claims now (jc_hours K) ''bdopsflow'' u n r d)) \<and>
         (numeric_date (now + hours (jc_hours K)) \<le> later \<longrightarrow> isl (ParseToken J K later t)) \<and>
         (later < numeric_date (now + hours (jc_refresh_hours K)) \<longrightarrow>
            ParseRefreshToken J K later rt = Inr (new_claims now (jc_refresh_hours K) ''bdopsflow-refresh'' u n r d)) \<and>
         isl (ParseRefreshToken J K later t) \<and> isl (ParseToken J K later rt)"
proof -
  have k: "jc_refresh_secret K \<noteq> jc_secret K" by (simp add: assms(2) InitJWT_def)
  note t = jwt_lawsD [OF assms(1) assms(3) [unfolded GenerateToken_def]]
    and rt = jwt_lawsD [OF assms(1) assms(4) [unfolded GenerateRefreshToken_def]]
  show ?thesis
    using t(2) [of later] t(3) [of "jc_secret K" later] t(3) [of "jc_refresh_secret K" later]
      rt(2) [of later] rt(3) [of "jc_secret K" later] k
    by (auto simp: ParseToken_def ParseRefreshToken_def new_claims_def)
qed

text \<open>A library that signs by numbering key and claims, to see the laws hold.\<close>

definition claims_fields :: "claims \<Rightarrow> int \<times> string \<times> string \<times> int \<times> int \<times> int \<times> string" where
  "claims_fields c = (cl_user c, cl_name c, cl_real c, cl_domain c, cl_expires c, cl_issued c, cl_issuer c)"

definition fields_claims :: "int \<times> string \<times> string \<times> int \<times> int \<times> int \<times> string \<Rightarrow> claims" where
  "fields_claims = (\<lambda>(u, n, r, d, e, i, w). \<lparr>cl_user = u, cl_name = n, cl_real = r, cl_domain = d,
      cl_expires = e, cl_issued = i, cl_issuer = w\<rparr>)"

lemma fields_back [simp]: "fields_claims (claims_fields c) = c"
  by (simp add: fields_claims_def claims_fields_def)

definition demo_jwt :: jwt where
  "demo_jwt = \<lparr>sign = \<lambda>k c. Inr (CHR ''.'' # replicate (to_nat (k, claims_fields c)) CHR ''x''),
     verify = \<lambda>k now t. (case from_nat (length (tl t)) of (k', f) \<Rightarrow>
        if k' = k \<and> now < cl_expires (fields_claims f) then Inr (fields_claims f) else Inl ''invalid'')\<rparr>"

lemma demo_jwt_laws: "jwt_laws demo_jwt"
  by (auto simp: jwt_laws_def demo_jwt_def)

lemma demo_can_sign: "can_sign demo_jwt"
  by (simp add: can_sign_def demo_jwt_def)

definition demo_vault :: vault where
  "demo_vault = \<lparr>rsa_open = Inr, bcrypt_hash = \<lambda>n p. Inr (CHR ''h'' # p),
     bcrypt_match = \<lambda>h p. h = CHR ''h'' # p, seal_token = \<lambda>n t. Inr t, open_token = Inr\<rparr>"

lemma demo_vault_laws: "vault_laws demo_vault"
  by (simp add: vault_laws_def demo_vault_def)

theorem session_tokens_are_separate_witness:
  "\<exists>t. GenerateToken demo_jwt (InitJWT ''key'' 2 []) 0 8 ''ann'' ''Ann'' 1 = Inr t \<and>
     ParseToken demo_jwt (InitJWT ''key'' 2 []) 5 t =
       Inr (new_claims 0 2 ''bdopsflow'' 8 ''ann'' ''Ann'' 1) \<and>
     isl (ParseRefreshToken demo_jwt (InitJWT ''key'' 2 []) 5 t)"
proof -
  obtain t rt where t: "GenerateToken demo_jwt (InitJWT ''key'' 2 []) 0 8 ''ann'' ''Ann'' 1 = Inr t"
    and rt: "GenerateRefreshToken demo_jwt (InitJWT ''key'' 2 []) 0 8 ''ann'' ''Ann'' 1 = Inr rt"
    unfolding GenerateToken_def GenerateRefreshToken_def using can_signD [OF demo_can_sign] by blast
  have "(5::int) < numeric_date (0 + hours (jc_hours (InitJWT ''key'' 2 [])))"
    by (simp add: InitJWT_def hours_def numeric_date_def)
  moreover have "jc_hours (InitJWT ''key'' 2 []) = 2" by (simp add: InitJWT_def)
  ultimately show ?thesis
    using session_tokens_are_separate [OF demo_jwt_laws refl t rt, of 5] t by auto
qed

section \<open>Sessions\<close>

lemma new_session_Good:
  assumes "new_session J K now u n r d = Good ss"
  shows "GenerateToken J K now u n r d = Inr (ss_token ss)" and "ss_user ss = u" and "ss_domain ss = d"
    and "GenerateRefreshToken J K now u n r d = Inr (ss_refresh ss)"
  using assms by (auto simp: new_session_def split: sum.splits)

lemma new_session_signs:
  assumes "can_sign J"
  shows "\<exists>ss. new_session J K now u n r d = Good ss"
  using can_signD [OF assms, of "jc_secret K" "new_claims now (jc_hours K) ''bdopsflow'' u n r d"]
    can_signD [OF assms, of "jc_refresh_secret K" "new_claims now (jc_refresh_hours K) ''bdopsflow-refresh'' u n r d"]
  by (auto simp: new_session_def GenerateToken_def GenerateRefreshToken_def)

lemma token_authenticates:
  assumes "jwt_laws J" and "GenerateToken J K now u n r d = Inr t"
    and "ue_now V < numeric_date (now + hours (jc_hours K))"
  shows "JWTAuthMiddlewareWithAPIToken J K V (bearer_header t) query s =
    Good \<lparr>pr_user = u, pr_name = n, pr_real = r, pr_domain = d, pr_api = False, pr_role = None\<rparr>"
proof -
  note t = jwt_lawsD [OF assms(1) assms(2) [unfolded GenerateToken_def]]
  have "ParseToken J K (ue_now V) t = Inr (new_claims now (jc_hours K) ''bdopsflow'' u n r d)"
    using t(2) assms(3) by (simp add: ParseToken_def new_claims_def)
  then show ?thesis
    using t(1) by (simp add: JWTAuthMiddlewareWithAPIToken_def Let_def of_claims_def new_claims_def)
qed

lemma new_session_of:
  assumes "can_sign J" and "jwt_laws J" and "now < numeric_date (now + hours (jc_hours K))"
  shows "\<exists>ss q. new_session J K now u n r d = Good ss \<and> ss_user ss = u \<and>
    (ue_now V = now \<longrightarrow> JWTAuthMiddlewareWithAPIToken J K V (bearer_header (ss_token ss)) query s = Good q) \<and> pr_user q = u"
proof -
  obtain ss where ss: "new_session J K now u n r d = Good ss" using new_session_signs [OF assms(1)] by blast
  note g = new_session_Good [OF ss]
  show ?thesis
    using token_authenticates [OF assms(2) g(1), of V query s] assms(3) ss g(2)
    by (intro exI [of _ ss] exI [of _ "\<lparr>pr_user = u, pr_name = n, pr_real = r, pr_domain = d, pr_api = False, pr_role = None\<rparr>"])
      auto
qed

text \<open>What a request through the protected routes amounts to.\<close>

lemma protected_Good:
  assumes "protected J K V header query check handler ids s = (Good x, s')"
  shows "\<exists>p. check p = None \<and> handler p s = (Good x, s')"
  using assms unfolding protected_def by (auto split: reply.splits option.splits prod.splits)

section \<open>Accounts\<close>

lemma validate_ok: "hashed V sent = Inr h \<Longrightarrow>
  \<exists>p. rsa_open (ue_vault V) sent = Inr p \<and> bcrypt_hash (ue_vault V) (ue_draw V) p = Inr h"
  by (auto simp: hashed_def)

lemma reset_sets_hash:
  assumes "HandleResetUserPassword V i sent p s = (Good x, s')"
  shows "\<exists>w h. rsa_open (ue_vault V) sent = Inr w \<and> bcrypt_hash (ue_vault V) (ue_draw V) w = Inr h \<and> i > 0 \<and>
    s' = s\<lparr>id_users := upd_where (\<lambda>u. u_id u = i) (\<lambda>u. u\<lparr>u_hash := h, u_updated := ue_now V\<rparr>) (id_users s)\<rparr>"
  using assms
  by (auto simp: HandleResetUserPassword_def ResetUserPasswordWithDomainCheck_def ResetPassword_def set_hash_def
      user_error_def dest!: validate_ok split: if_splits prod.splits sum.splits option.splits)

lemma after_reset:
  assumes "HandleResetUserPassword V i sent p s = (Good x, s')" and "vault_laws (ue_vault V)"
    and "user_where (\<lambda>v. u_name v = u_name u) s = Some u" and "u_id u = i"
  shows "\<exists>v w. user_where (\<lambda>v. u_name v = u_name u) s' = Some v \<and> u_id v = i \<and> u_active v = u_active u \<and>
    rsa_open (ue_vault V) sent = Inr w \<and> bcrypt_match (ue_vault V) (u_hash v) w \<and> i > 0"
proof -
  obtain w h where w: "rsa_open (ue_vault V) sent = Inr w" "bcrypt_hash (ue_vault V) (ue_draw V) w = Inr h" "i > 0"
    and s': "s' = s\<lparr>id_users := upd_where (\<lambda>u. u_id u = i) (\<lambda>u. u\<lparr>u_hash := h, u_updated := ue_now V\<rparr>) (id_users s)\<rparr>"
    using reset_sets_hash [OF assms(1)] by blast
  have "user_where (\<lambda>v. u_name v = u_name u) s' = Some (u\<lparr>u_hash := h, u_updated := ue_now V\<rparr>)"
    using assms(3,4) unfolding user_where_def s' by (simp add: first_where_upd_keep)
  then show ?thesis using w vault_lawsD(1) [OF assms(2) w(2)] assms(4) by auto
qed

text \<open>Whoever may change users may become any of them. A request to reset a password passes when its sender
  has the permission \<open>user:update\<close> in some domain; the method named after a check of the domain makes none.
  The sender then logs in under the name of the account, the system administrator's included, and acts as
  that user.
\<close>

theorem user_update_takes_over_any_account:
  assumes "protected J K V header query (RequirePermission E db ''user'' ''update'')
             (HandleResetUserPassword V i sent) s s = (Good (), s')"
    and "vault_laws (ue_vault V)" and "jwt_laws J" and "can_sign J"
    and "ue_now V < numeric_date (ue_now V + hours (jc_hours K))"
    and "user_where (\<lambda>v. u_name v = u_name u) s = Some u" and "u_id u = i" and "u_active u"
    and "u_name u \<noteq> []" and "sent \<noteq> []" and "ue_db V U_by_name = None"
  shows "\<exists>ss q. Login J K V (u_name u) sent s' = Good ss \<and> ss_user ss = i \<and>
     JWTAuthMiddlewareWithAPIToken J K V (bearer_header (ss_token ss)) [] s' = Good q \<and> pr_user q = i"
proof -
  obtain p where "HandleResetUserPassword V i sent p s = (Good (), s')"
    using protected_Good [OF assms(1)] by blast
  from after_reset [OF this assms(2,6,7)] obtain v w
    where v: "user_where (\<lambda>v. u_name v = u_name u) s' = Some v" "u_id v = i" "u_active v = u_active u"
      and w: "rsa_open (ue_vault V) sent = Inr w" "bcrypt_match (ue_vault V) (u_hash v) w" by blast
  have "Login J K V (u_name u) sent s' =
      new_session J K (ue_now V) i (u_name v) (u_real v) (current_domain V i s')"
    using v w assms(8-11) by (simp add: Login_def auth_GetUserByUsername_def)
  then show ?thesis
    using new_session_of [OF assms(4,3,5), of i "u_name v" "u_real v" "current_domain V i s'" V "[]" s'] by auto
qed

definition demo_people :: identity where
  "demo_people =
     \<lparr>id_users = [\<lparr>u_id = 1, u_name = ''root'', u_real = [], u_phone = [], u_email = [], u_hash = ''hroot99'',
         u_active = True, u_last = None, u_by = None, u_created = 0, u_updated = 0\<rparr>,
        \<lparr>u_id = 8, u_name = ''ann'', u_real = ''Ann'', u_phone = [], u_email = [], u_hash = ''hann123'',
         u_active = False, u_last = None, u_by = Some 1, u_created = 0, u_updated = 0\<rparr>],
      id_tokens = [\<lparr>at_id = 4, at_user = 8, at_sealed = ''bdf_0old'', at_prefix = ''bdf_0old'', at_used = None,
         at_created = 0\<rparr>],
      id_rbac = \<lparr>roles = [\<lparr>r_id = 1, r_name = ''admin'', r_code = ''system_admin'', r_desc = [], r_system = True,
            r_parent = None, r_domain = None\<rparr>,
           \<lparr>r_id = 2, r_name = ''lead'', r_code = ''domain_admin'', r_desc = [], r_system = True,
            r_parent = None, r_domain = None\<rparr>],
         permissions = [\<lparr>p_id = 10, p_resource = ''user'', p_action = ''update'', p_desc = []\<rparr>],
         role_permissions = [(2, 10)],
         user_roles = [\<lparr>ur_user = 1, ur_role = 1, ur_domain = None\<rparr>, \<lparr>ur_user = 8, ur_role = 2, ur_domain = None\<rparr>],
         user_domains = [\<lparr>ud_user = 8, ud_domain = 3, ud_default = True\<rparr>],
         domains = [\<lparr>d_id = 3, d_name = ''d3'', d_desc = []\<rparr>]\<rparr>\<rparr>"

definition demo_uenv :: user_env where
  "demo_uenv = \<lparr>ue_db = \<lambda>q. None, ue_rbac = \<lambda>q. None, ue_now = 0, ue_new_id = 9, ue_vault = demo_vault, ue_draw = 0\<rparr>"

definition demo_config :: jwt_config where "demo_config = InitJWT ''key'' 2 []"

definition ann :: principal where
  "ann = \<lparr>pr_user = 8, pr_name = ''ann'', pr_real = ''Ann'', pr_domain = 3, pr_api = False, pr_role = None\<rparr>"

lemma protected_runs:
  assumes "JWTAuthMiddlewareWithAPIToken J K V header query ids = Good p"
    and "InjectUserRole (ue_rbac V) (id_rbac ids) p = Good q" and "check q = None"
  shows "protected J K V header query check handler ids s = handler q s"
  using assms by (simp add: protected_def)

lemma demo_hours: "0 < numeric_date (hours (jc_hours demo_config))"
  by (simp add: demo_config_def InitJWT_def hours_def numeric_date_def)

lemma ann_token:
  "\<exists>t. GenerateToken demo_jwt demo_config 0 8 ''ann'' ''Ann'' 3 = Inr t \<and>
     JWTAuthMiddlewareWithAPIToken demo_jwt demo_config demo_uenv (bearer_header t) [] demo_people = Good ann"
proof -
  obtain t where t: "GenerateToken demo_jwt demo_config 0 8 ''ann'' ''Ann'' 3 = Inr t"
    unfolding GenerateToken_def using can_signD [OF demo_can_sign] by blast
  moreover have "ue_now demo_uenv < numeric_date (0 + hours (jc_hours demo_config))"
    using demo_hours by (simp add: demo_uenv_def)
  ultimately show ?thesis
    using token_authenticates [OF demo_jwt_laws t, of demo_uenv "[]" demo_people]
    by (simp add: ann_def)
qed

lemma ann_role: "InjectUserRole (ue_rbac demo_uenv) (id_rbac demo_people) ann = Good (ann\<lparr>pr_role := Some ''domain_admin''\<rparr>)"
  by (simp add: InjectUserRole_def GetUserRoleCodes_def demo_uenv_def demo_people_def ann_def)

lemma ann_updates:
  "RequirePermission (\<lambda>q. None) (id_rbac demo_people) ''user'' ''update'' (ann\<lparr>pr_role := Some ''domain_admin''\<rparr>) = None"
  by (simp add: RequirePermission_def verdict_of_def HasPermission_def IsSystemAdmin_def collectRoleIDs_def
      checkRolePermission_def count_where_def demo_people_def ann_def)

theorem user_update_takes_over_any_account_witness:
  "\<exists>t s' ss q. GenerateToken demo_jwt demo_config 0 8 ''ann'' ''Ann'' 3 = Inr t \<and>
     protected demo_jwt demo_config demo_uenv (bearer_header t) []
       (RequirePermission (\<lambda>q. None) (id_rbac demo_people) ''user'' ''update'')
       (HandleResetUserPassword demo_uenv 1 ''mine42'') demo_people demo_people = (Good (), s') \<and>
     Login demo_jwt demo_config demo_uenv ''root'' ''mine42'' s' = Good ss \<and>
     JWTAuthMiddlewareWithAPIToken demo_jwt demo_config demo_uenv (bearer_header (ss_token ss)) [] s' = Good q \<and>
     pr_user q = 1"
proof -
  obtain t where t: "GenerateToken demo_jwt demo_config 0 8 ''ann'' ''Ann'' 3 = Inr t"
    and auth: "JWTAuthMiddlewareWithAPIToken demo_jwt demo_config demo_uenv (bearer_header t) [] demo_people = Good ann"
    using ann_token by blast
  have "\<exists>s'. HandleResetUserPassword demo_uenv 1 ''mine42'' (ann\<lparr>pr_role := Some ''domain_admin''\<rparr>) demo_people = (Good (), s')"
    by (simp add: HandleResetUserPassword_def ResetUserPasswordWithDomainCheck_def admin_GetUserByID_def user_where_def
        ResetPassword_def hashed_def validatePlaintextPassword_def set_hash_def digit_def code_def demo_uenv_def
        demo_people_def demo_vault_def)
  then obtain s' where s': "HandleResetUserPassword demo_uenv 1 ''mine42'' (ann\<lparr>pr_role := Some ''domain_admin''\<rparr>) demo_people = (Good (), s')"
    by blast
  have run: "protected demo_jwt demo_config demo_uenv (bearer_header t) []
       (RequirePermission (\<lambda>q. None) (id_rbac demo_people) ''user'' ''update'')
       (HandleResetUserPassword demo_uenv 1 ''mine42'') demo_people demo_people = (Good (), s')"
    using s' by (simp only: protected_runs [where check = "RequirePermission (\<lambda>q. None) (id_rbac demo_people) ''user'' ''update''",
          OF auth ann_role ann_updates])
  obtain ss q where "Login demo_jwt demo_config demo_uenv ''root'' ''mine42'' s' = Good ss"
    "JWTAuthMiddlewareWithAPIToken demo_jwt demo_config demo_uenv (bearer_header (ss_token ss)) [] s' = Good q"
    "pr_user q = 1"
    using user_update_takes_over_any_account [OF run _ demo_jwt_laws demo_can_sign,
        of "hd (id_users demo_people)"] demo_hours demo_vault_laws
    by (auto simp: demo_uenv_def demo_people_def user_where_def)
  then show ?thesis using t run by blast
qed

text \<open>A user who has been deactivated. His API token and his refresh token are refused from then on; a
  session token he holds passes the protected routes to the handler until it expires, since only the roles
  are looked up for it.
\<close>

theorem deactivated_user_keeps_his_session:
  assumes "jwt_laws J" and "GenerateToken J K t0 u n r d = Inr t" and "GenerateRefreshToken J K t0 u n r d = Inr rt"
    and "ue_now V < numeric_date (t0 + hours (jc_hours K))" and "u > 0"
    and "user_where (\<lambda>v. u_id v = u) s = Some v" and "\<not> u_active v"
    and "GetUserRoleCodes (ue_rbac V) (id_rbac s) u = Inr codes" and "codes \<noteq> []"
    and "check \<lparr>pr_user = u, pr_name = n, pr_real = r, pr_domain = d, pr_api = False,
                pr_role = Some (role_of_codes ''user'' codes)\<rparr> = None"
  shows "protected J K V (bearer_header t) [] check handler s st =
           handler \<lparr>pr_user = u, pr_name = n, pr_real = r, pr_domain = d, pr_api = False,
                    pr_role = Some (role_of_codes ''user'' codes)\<rparr> st \<and>
         (\<nexists>ss. RefreshToken J K V rt s = Good ss) \<and>
         (\<nexists>i. ValidateToken V tok s = Inr (u, i))"
proof -
  have "protected J K V (bearer_header t) [] check handler s st =
           handler \<lparr>pr_user = u, pr_name = n, pr_real = r, pr_domain = d, pr_api = False,
                    pr_role = Some (role_of_codes ''user'' codes)\<rparr> st"
    by (rule protected_runs [where check = check, OF token_authenticates [OF assms(1,2,4)] _ assms(10)])
      (use assms(5,8,9) in \<open>simp add: InjectUserRole_def\<close>)
  moreover have "\<nexists>ss. RefreshToken J K V rt s = Good ss"
  proof (cases "ue_now V < numeric_date (t0 + hours (jc_refresh_hours K))")
    case True
    have "ParseRefreshToken J K (ue_now V) rt = Inr (new_claims t0 (jc_refresh_hours K) ''bdopsflow-refresh'' u n r d)"
      using jwt_lawsD(2) [OF assms(1) assms(3) [unfolded GenerateRefreshToken_def]] True
      by (simp add: ParseRefreshToken_def new_claims_def)
    then show ?thesis
      using assms(6,7) by (simp add: RefreshToken_def new_claims_def GetUserActiveStatus_def split: sum.splits)
  next
    case False
    then have "isl (ParseRefreshToken J K (ue_now V) rt)"
      using jwt_lawsD(3) [OF assms(1) assms(3) [unfolded GenerateRefreshToken_def]]
      by (simp add: ParseRefreshToken_def new_claims_def)
    then show ?thesis by (auto simp: RefreshToken_def isl_def)
  qed
  moreover have "\<nexists>i. ValidateToken V tok s = Inr (u, i)"
    using assms(6,7) by (auto simp: ValidateToken_def split: if_splits option.splits)
  ultimately show ?thesis by blast
qed

theorem deactivated_user_keeps_his_session_witness:
  "\<exists>t. GenerateToken demo_jwt demo_config 0 8 ''ann'' ''Ann'' 3 = Inr t \<and>
     protected demo_jwt demo_config demo_uenv (bearer_header t) []
       (RequirePermission (\<lambda>q. None) (id_rbac demo_people) ''user'' ''update'')
       (\<lambda>p s. (Good (pr_user p), s)) demo_people () = (Good 8, ()) \<and>
     isl (ValidateToken demo_uenv ''bdf_0old'' demo_people)"
proof -
  obtain t rt where t: "GenerateToken demo_jwt demo_config 0 8 ''ann'' ''Ann'' 3 = Inr t"
    and rt: "GenerateRefreshToken demo_jwt demo_config 0 8 ''ann'' ''Ann'' 3 = Inr rt"
    unfolding GenerateToken_def GenerateRefreshToken_def using can_signD [OF demo_can_sign] by blast
  have codes: "GetUserRoleCodes (ue_rbac demo_uenv) (id_rbac demo_people) 8 = Inr [''domain_admin'']"
    by (simp add: GetUserRoleCodes_def demo_uenv_def demo_people_def)
  have now: "ue_now demo_uenv < numeric_date (0 + hours (jc_hours demo_config))"
    using demo_hours by (simp add: demo_uenv_def)
  have found: "user_where (\<lambda>v. u_id v = 8) demo_people = Some (id_users demo_people ! 1)"
    and off: "\<not> u_active (id_users demo_people ! 1)"
    by (simp_all add: user_where_def demo_people_def)
  have check: "RequirePermission (\<lambda>q. None) (id_rbac demo_people) ''user'' ''update''
      \<lparr>pr_user = 8, pr_name = ''ann'', pr_real = ''Ann'', pr_domain = 3, pr_api = False,
       pr_role = Some (role_of_codes ''user'' [''domain_admin''])\<rparr> = None"
    using ann_updates by (simp add: ann_def)
  note ok = deactivated_user_keeps_his_session [where check = "RequirePermission (\<lambda>q. None) (id_rbac demo_people) ''user'' ''update''",
      OF demo_jwt_laws t rt now _ found off codes _ check, of "\<lambda>p s. (Good (pr_user p), s)" "()" "''bdf_0old''"]
  have "isl (ValidateToken demo_uenv ''bdf_0old'' demo_people)"
    by (simp add: ValidateToken_def demo_uenv_def demo_people_def demo_vault_def user_where_def)
  then show ?thesis using ok t by auto
qed

section \<open>System roles\<close>

lemma AreRolesSystemOnly_iff:
  assumes "\<And>r. E r S_role_code = None"
  shows "AreRolesSystemOnly E db rs \<longleftrightarrow>
    list_ex (\<lambda>r. \<exists>x. first_where (\<lambda>x. r_id x = r) (roles db) = Some x \<and> r_code x = ''system_admin'') rs"
  using assms by (induction rs) (auto simp: GetRoleCodeByID_def split: option.splits)

lemma AreRolesSystemOnly_blind:
  assumes "\<And>r. E r S_role_code = Some e"
  shows "\<not> AreRolesSystemOnly E db rs"
  using assms by (induction rs) (auto simp: GetRoleCodeByID_def)

lemma insert_roles_ok:
  assumes "\<And>r. ue_db V (U_assign_role r) = None"
  shows "insert_roles V u None rs s = (Inr (), s\<lparr>id_rbac := (id_rbac s)\<lparr>user_roles :=
     user_roles (id_rbac s) @ map (\<lambda>r. \<lparr>ur_user = u, ur_role = r, ur_domain = None\<rparr>) rs\<rparr>\<rparr>)"
  by (induction rs arbitrary: s) (simp_all add: insert_role_def assms)

lemma AssignUserRoles_ok:
  assumes "\<And>r. ue_db V (U_assign_role r) = None" and "ue_db V U_delete_roles = None"
  shows "AssignUserRoles V u rs ds s = (Inr (), s\<lparr>id_rbac := (id_rbac s)\<lparr>user_roles :=
     del_where (\<lambda>r. ur_user r = u) (user_roles (id_rbac s)) @
     map (\<lambda>r. \<lparr>ur_user = u, ur_role = r, ur_domain = None\<rparr>) rs\<rparr>\<rparr>)"
  using assms by (simp add: AssignUserRoles_def insert_roles_ok)

lemma some_row_counts: "x \<in> set xs \<Longrightarrow> p x \<Longrightarrow> count_where p xs > 0"
  by (auto simp: count_where_def filter_empty_conv)

text \<open>The guard of the administrator's role. While the codes of roles can be read, a request of anyone but
  an administrator to assign that role is refused and changes nothing. A role whose code cannot be read
  counts as harmless: when the query fails, the same request goes through and its target is a system
  administrator.
\<close>

theorem system_role_guard_fails_open:
  assumes "\<not> is_operator p" and "i > 0" and "first_where (\<lambda>x. r_id x = r) (roles (id_rbac s)) = Some x"
    and "r_code x = ''system_admin''" and "ue_db V U_delete_roles = None"
    and "list_all (\<lambda>q. ue_db V (U_assign_role q) = None) [r]" and "E S_is_system_admin = None"
  shows "(ue_rbac V S_role_code = None \<longrightarrow>
            HandleAssignUserRoles V i [r] ds p s = (Bad 403 ''system role not allowed'', s)) \<and>
         (ue_rbac V S_role_code \<noteq> None \<longrightarrow>
            fst (HandleAssignUserRoles V i [r] ds p s) = Good () \<and>
            IsSystemAdmin E (id_rbac (snd (HandleAssignUserRoles V i [r] ds p s))) i = Inr True)"
proof -
  have "HandleAssignUserRoles V i [r] ds p s = (Bad 403 ''system role not allowed'', s)"
    if "ue_rbac V S_role_code = None"
    using that assms(1-4) by (simp add: HandleAssignUserRoles_def GetRoleCodeByID_def)
  moreover have "fst (HandleAssignUserRoles V i [r] ds p s) = Good () \<and>
            IsSystemAdmin E (id_rbac (snd (HandleAssignUserRoles V i [r] ds p s))) i = Inr True"
    if "ue_rbac V S_role_code \<noteq> None"
  proof -
    have h: "HandleAssignUserRoles V i [r] ds p s = (Good (), s\<lparr>id_rbac := (id_rbac s)\<lparr>user_roles :=
       del_where (\<lambda>r. ur_user r = i) (user_roles (id_rbac s)) @ [\<lparr>ur_user = i, ur_role = r, ur_domain = None\<rparr>]\<rparr>\<rparr>)"
      using that assms(1,2,5,6)
      by (auto simp: HandleAssignUserRoles_def GetRoleCodeByID_def AssignUserRoles_def insert_role_def)
    have "x \<in> set (roles (id_rbac s))" "r_id x = r" using first_where_Some [OF assms(3)] by simp_all
    then show ?thesis
      using assms(4,7) unfolding h by (auto simp: IsSystemAdmin_def intro!: some_row_counts [of x])
  qed
  ultimately show ?thesis by blast
qed

theorem system_role_guard_fails_open_witness:
  "let V = demo_uenv\<lparr>ue_rbac := (\<lambda>q. if q = S_role_code then Some ''leader lost'' else None)\<rparr>;
       s' = snd (HandleAssignUserRoles V 8 [1] [] ann demo_people)
   in HandleAssignUserRoles demo_uenv 8 [1] [] ann demo_people = (Bad 403 ''system role not allowed'', demo_people) \<and>
      IsSystemAdmin (\<lambda>q. None) (id_rbac s') 8 = Inr True"
proof -
  have g: "\<not> is_operator ann" by (simp add: is_operator_def ann_def)
  have f: "first_where (\<lambda>x. r_id x = 1) (roles (id_rbac demo_people)) = Some (hd (roles (id_rbac demo_people)))"
    "r_code (hd (roles (id_rbac demo_people))) = ''system_admin''"
    by (simp_all add: demo_people_def)
  show ?thesis
    using system_role_guard_fails_open [OF g _ f, of 8 demo_uenv "\<lambda>q. None" "[]"]
      system_role_guard_fails_open [OF g _ f, of 8
        "demo_uenv\<lparr>ue_rbac := (\<lambda>q. if q = S_role_code then Some ''leader lost'' else None)\<rparr>" "\<lambda>q. None" "[]"]
    by (simp add: demo_uenv_def Let_def)
qed

section \<open>API tokens\<close>

lemma token_match_append:
  "token_match W t (xs @ ys) = (case token_match W t xs of None \<Rightarrow> token_match W t ys | Some x \<Rightarrow> Some x)"
  by (induction xs) auto

lemma token_match_None: "token_match W t xs = None \<longleftrightarrow> list_all (\<lambda>x. open_token W (at_sealed x) \<noteq> Inr t) xs"
  by (induction xs) auto

text \<open>Making a new API token. The user has exactly one row afterwards; the new token is valid and is the
  text that is shown to him; a token that only rows of this user opened to, his old one above all, is
  valid no more. The token must not be drawn twice and the user must be active.
\<close>

theorem new_api_token_replaces_the_old:
  assumes "GenerateAPIToken V (Inr hex) u s = (Inr (tok, t), s')" and "vault_laws (ue_vault V)"
    and "list_all (\<lambda>x. open_token (ue_vault V) (at_sealed x) \<noteq> Inr tok) (id_tokens s)"
    and "list_all (\<lambda>x. at_user x \<noteq> u \<longrightarrow> open_token (ue_vault V) (at_sealed x) \<noteq> Inr old) (id_tokens s)"
    and "old \<noteq> tok" and "length hex = 64" and "u > 0"
    and "user_where (\<lambda>v. u_id v = u) s = Some v" and "u_active v"
    and "ue_db V T_all = None" and "ue_db V T_user_active = None" and "ue_db V T_of_user = None"
  shows "filter (\<lambda>x. at_user x = u) (id_tokens s') = [t] \<and> ValidateToken V tok s' = Inr (u, at_id t) \<and>
     RevealToken V u s' = Inr tok \<and> ValidateToken V old s' = Inl ''api token invalid''"
proof -
  obtain sealed where sealed: "seal_token (ue_vault V) (ue_draw V) tok = Inr sealed" and tok: "tok = ''bdf_'' @ hex"
    and t: "at_user t = u" "at_sealed t = sealed"
    and s': "s' = s\<lparr>id_tokens := del_where (\<lambda>t. at_user t = u) (id_tokens s) @ [t]\<rparr>"
    using assms(1) by (auto simp: GenerateAPIToken_def Let_def split: sum.splits option.splits)
  have open_t: "open_token (ue_vault V) (at_sealed t) = Inr tok"
    using vault_lawsD(3) [OF assms(2) sealed] t by simp
  have rows: "filter (\<lambda>x. at_user x = u) (id_tokens s') = [t]"
    using t(1) by (simp add: s' del_where_def filter_empty_conv)
  have "token_match (ue_vault V) tok (del_where (\<lambda>t. at_user t = u) (id_tokens s)) = None"
    using assms(3) by (auto simp: token_match_None list_all_iff)
  then have new: "token_match (ue_vault V) tok (id_tokens s') = Some t"
    using open_t by (simp add: s' token_match_append)
  have gone: "token_match (ue_vault V) old (id_tokens s') = None"
    using assms(4,5) open_t by (auto simp: s' token_match_None list_all_iff)
  have first: "first_where (\<lambda>x. at_user x = u) (id_tokens s') = Some t"
  proof -
    have "first_where p xs = (case filter p xs of [] \<Rightarrow> None | x # _ \<Rightarrow> Some x)" for p :: "api_token \<Rightarrow> bool" and xs
      by (induction xs) auto
    then show ?thesis using rows by simp
  qed
  have user: "user_where (\<lambda>v. u_id v = u) s' = Some v" using assms(8) by (simp add: s' user_where_def)
  have form: "\<not> length tok < 8" "take 4 tok = ''bdf_''" using assms(6) by (simp_all add: tok)
  have "ValidateToken V tok s' = Inr (u, at_id t)"
    using new user form assms(7,9-11) t(1) by (simp add: ValidateToken_def)
  moreover have "ValidateToken V old s' = Inl ''api token invalid''"
    using gone assms(10) by (simp add: ValidateToken_def)
  moreover have "RevealToken V u s' = Inr tok"
    using first assms(12) open_t by (simp add: RevealToken_def GetTokenInfo_def)
  ultimately show ?thesis using rows by blast
qed

text \<open>Users who came through SSO. Their row has no password, and the login with name and password refuses
  every attempt for them, in the state after the SSO login and in every later one with the same row.
\<close>

theorem sso_user_has_no_password:
  assumes "SSOLogin J K V True (Inr (''3000'', m, Some c)) n s = (Good ss, s')"
    and "l = (if so_login c = [] then n else so_login c)" and "GetSSOUserByUsername V l s = Inr None"
    and "vault_laws (ue_vault W)"
  shows "\<exists>u. user_where (\<lambda>v. u_name v = l) s' = Some u \<and> u_hash u = [] \<and> (\<nexists>ss. Login J' K' W l sent s' = Good ss)"
proof -
  note l = assms(2) [symmetric]
  obtain i s1 where mk: "auth_CreateUser V l (so_card c) (so_mobile c) [] (so_email c) s = (Inr i, s1)"
    and s': "s' = default_role V i s1"
    using assms(1) by (simp add: SSOLogin_def Let_def l assms(3) split: prod.splits sum.splits)
  have users: "id_users s' = id_users s1"
    by (simp add: s' default_role_def AssignUserRole_def insert_role_def split: sum.splits option.splits)
  have absent: "user_where (\<lambda>v. u_name v = l) s = None"
    using assms(3) by (auto simp: GetSSOUserByUsername_def)
  have "first_where (\<lambda>v. u_name v = l) (xs @ [y]) = Some y"
    if "first_where (\<lambda>v. u_name v = l) xs = None" "u_name y = l" for xs :: "user list" and y
    using that by (induction xs) (auto split: if_splits)
  then have "\<exists>u. user_where (\<lambda>v. u_name v = l) s1 = Some u \<and> u_hash u = []"
    using mk absent by (auto simp: auth_CreateUser_def add_user_def user_where_def split: option.splits if_splits)
  then obtain u where u: "user_where (\<lambda>v. u_name v = l) s' = Some u" "u_hash u = []"
    using users by (auto simp: user_where_def)
  have "\<nexists>ss. Login J' K' W l sent s' = Good ss"
    using u vault_lawsD(2) [OF assms(4)]
    by (auto simp: Login_def auth_GetUserByUsername_def split: if_splits sum.splits option.splits
        dest: on_db_Inr2 [THEN iffD1])
  then show ?thesis using u by blast
qed

theorem sso_user_has_no_password_witness:
  "\<exists>ss s'. SSOLogin demo_jwt demo_config demo_uenv True
       (Inr (''3000'', [], Some \<lparr>so_login = ''eve'', so_card = ''Eve'', so_mobile = [], so_email = []\<rparr>)) ''eve''
       demo_people = (Good ss, s') \<and>
     (\<nexists>ss. Login demo_jwt demo_config demo_uenv ''eve'' ''h'' s' = Good ss)"
proof -
  have none: "GetSSOUserByUsername demo_uenv ''eve'' demo_people = Inr None"
    by (simp add: GetSSOUserByUsername_def user_where_def demo_uenv_def demo_people_def)
  obtain s1 where made: "auth_CreateUser demo_uenv ''eve'' ''Eve'' [] [] [] demo_people = (Inr 9, s1)"
    by (simp add: auth_CreateUser_def add_user_def demo_uenv_def demo_people_def)
  define s2 where "s2 = default_role demo_uenv 9 s1"
  obtain ss where ss: "new_session demo_jwt demo_config (ue_now demo_uenv) 9 ''eve'' ''Eve'' (current_domain demo_uenv 9 s2) = Good ss"
    using new_session_signs [OF demo_can_sign] by blast
  have run: "SSOLogin demo_jwt demo_config demo_uenv True
       (Inr (''3000'', [], Some \<lparr>so_login = ''eve'', so_card = ''Eve'', so_mobile = [], so_email = []\<rparr>)) ''eve''
       demo_people = (Good ss, s2)"
    using none made ss by (simp add: SSOLogin_def Let_def s2_def)
  show ?thesis
    using sso_user_has_no_password [OF run, of "''eve''" demo_uenv demo_jwt demo_config "''h''"] none run demo_vault_laws
    by (auto simp: demo_uenv_def)
qed

theorem new_api_token_replaces_the_old_witness:
  "let V = demo_uenv;
       u = (id_users demo_people ! 1)\<lparr>u_active := True\<rparr>;
       s = demo_people\<lparr>id_users := [u]\<rparr>;
       s' = snd (GenerateAPIToken V (Inr (replicate 64 CHR ''a'')) 8 s)
   in ValidateToken V (''bdf_'' @ replicate 64 CHR ''a'') s' = Inr (8, 9) \<and>
      ValidateToken V ''bdf_0old'' s = Inr (8, 4) \<and> ValidateToken V ''bdf_0old'' s' = Inl ''api token invalid''"
proof -
  define tok where "tok = ''bdf_'' @ replicate 64 CHR ''a''"
  define s where "s = demo_people\<lparr>id_users := [(id_users demo_people ! 1)\<lparr>u_active := True\<rparr>]\<rparr>"
  define t where "t = \<lparr>at_id = 9, at_user = 8, at_sealed = tok, at_prefix = take 8 tok, at_used = None, at_created = 0\<rparr>"
  have gen: "GenerateAPIToken demo_uenv (Inr (replicate 64 CHR ''a'')) 8 s =
      (Inr (tok, t), snd (GenerateAPIToken demo_uenv (Inr (replicate 64 CHR ''a'')) 8 s))"
    unfolding tok_def t_def by (simp add: GenerateAPIToken_def Let_def demo_uenv_def demo_vault_def)
  have ne: "''bdf_0old'' \<noteq> tok" unfolding tok_def by (simp add: numeral_eq_Suc)
  have rows: "list_all (\<lambda>x. open_token (ue_vault demo_uenv) (at_sealed x) \<noteq> Inr tok) (id_tokens s)"
    "list_all (\<lambda>x. at_user x \<noteq> 8 \<longrightarrow> open_token (ue_vault demo_uenv) (at_sealed x) \<noteq> Inr ''bdf_0old'') (id_tokens s)"
    using ne by (simp_all add: s_def demo_people_def demo_uenv_def demo_vault_def)
  have user: "user_where (\<lambda>v. u_id v = 8) s = Some ((id_users demo_people ! 1)\<lparr>u_active := True\<rparr>)"
    by (simp add: s_def user_where_def demo_people_def)
  have old: "ValidateToken demo_uenv ''bdf_0old'' s = Inr (8, 4)"
    by (simp add: ValidateToken_def s_def demo_people_def demo_uenv_def demo_vault_def user_where_def)
  from new_api_token_replaces_the_old [OF gen _ rows ne _ _ user] demo_vault_laws old
  show ?thesis unfolding Let_def s_def [symmetric] tok_def [symmetric] by (simp add: demo_uenv_def t_def)
qed

section \<open>Grants\<close>

lemma effective_manage:
  assumes "set ks = set ds_keys" and "validPermissionTypes action"
  shows "''manage'' \<in> set (GetEffectivePermissions ks action)"
  using assms by (auto simp: GetEffectivePermissions_def validPermissionTypes_def ds_keys_def permissionIncludes_def
      includes_of_def)

lemma granted_has_permission:
  assumes "db_ok E" and "\<exists>i\<in>set (instances d). i_id i = b"
    and "g \<in> set (grants d)" and "g_inst g = b" and "g_user g = Some u" and "grant_row.g_type g \<in> set (GetEffectivePermissions ks action)"
  shows "HasDatasourcePermission E ks db d u b action = Inr True"
proof -
  obtain i where i: "first_where (\<lambda>i. i_id i = b) (instances d) = Some i"
    using assms(2) by (cases "first_where (\<lambda>i. i_id i = b) (instances d)") (auto simp: first_where_None)
  have "grant_count db d u b (GetEffectivePermissions ks action) > 0"
    using assms(3-6) unfolding grant_count_def by (intro some_row_counts [of g]) auto
  then show ?thesis
    using assms(1) i by (auto simp: HasDatasourcePermission_def db_ok_def IsSystemAdmin_def IsDomainAdmin_def)
qed

text \<open>The requests that change a grant. The route checks that the sender manages the data source of the
  path, and the handler changes the row of the grant's id, of whatever data source it is: who manages one
  source and holds any grant on another makes that grant a manager's, and has every permission there.
\<close>

theorem manager_of_one_source_takes_another:
  assumes "DatasourcePermissionMiddleware E ks db (inst_view s) ''manage'' ''PUT'' path body p = None"
    and "first_where (\<lambda>g. dg_id g = k) (d_grants s) = Some g" and "dg_user g = Some (pr_user p)"
    and "dg_ds g = b" and "parseInt64 path = a" and "a \<noteq> b"
    and "list_all (\<lambda>h. dg_id h \<noteq> k \<longrightarrow> \<not> grant_conflict (g\<lparr>dg_type := ''manage''\<rparr>) h) (d_grants s)"
    and "list_ex (\<lambda>d. ds_id d = b) (d_sources s)" and "set ks = set ds_keys" and "db_ok E"
    and "v_db V DS_check_grant = None" and "v_db V DS_update_grant = None" and "validPermissionTypes action"
  shows "fst (HandleUpdatePermission V a k ''manage'' s) = Inr () \<and>
     HasDatasourcePermission E ks db (inst_view (snd (HandleUpdatePermission V a k ''manage'' s))) (pr_user p) b action
       = Inr True"
proof -
  have ty: "IsValidPermissionType ''manage''" by (simp add: IsValidPermissionType_def validPermissionTypes_def)
  define s' where "s' = s\<lparr>d_grants := upd_where (\<lambda>g. dg_id g = k)
      (\<lambda>g. g\<lparr>dg_type := ''manage'', dg_at := v_now V\<rparr>) (d_grants s)\<rparr>"
  have run: "HandleUpdatePermission V a k ''manage'' s = (Inr (), s')"
    using assms(2,7,11,12) ty
    by (auto simp: HandleUpdatePermission_def UpdatePermission_def wrap_db_def list_all_iff s'_def)
  have "g \<in> set (d_grants s)" "dg_id g = k" using first_where_Some [OF assms(2)] by simp_all
  then have "g\<lparr>dg_type := ''manage'', dg_at := v_now V\<rparr> \<in> set (d_grants s')"
    by (auto simp: s'_def set_upd_where)
  then have "inst_grant (g\<lparr>dg_type := ''manage'', dg_at := v_now V\<rparr>) \<in> set (grants (inst_view s'))"
    by (simp add: inst_view_def)
  then obtain h where h: "h \<in> set (grants (inst_view s'))" "g_inst h = b" "g_user h = Some (pr_user p)"
    "grant_row.g_type h = ''manage''"
    using assms(3,4) by (auto simp: inst_grant_def)
  have "\<exists>i\<in>set (instances (inst_view s')). i_id i = b"
    using assms(8) by (auto simp: inst_view_def s'_def list_ex_iff)
  from granted_has_permission [OF assms(10) this h(1-3)] h(4) effective_manage [OF assms(9,13)]
  show ?thesis by (simp add: run)
qed

theorem manager_of_one_source_takes_another_witness:
  "let s = demo_dstore\<lparr>d_sources := [demo_ds, demo_ds\<lparr>ds_id := 6, ds_name := ''hr'', ds_created_by := Some 8\<rparr>],
             d_grants := [demo_grant\<lparr>dg_type := ''read''\<rparr>]\<rparr>;
       s' = snd (HandleUpdatePermission demo_dsenv 6 1 ''manage'' s)
   in HasDatasourcePermission (\<lambda>q. None) ds_keys demo_rbac (inst_view s) 8 7 ''manage'' = Inr False \<and>
      HasDatasourcePermission (\<lambda>q. None) ds_keys demo_rbac (inst_view s') 8 7 ''manage'' = Inr True"
proof -
  define s where "s = demo_dstore\<lparr>d_sources := [demo_ds, demo_ds\<lparr>ds_id := 6, ds_name := ''hr'', ds_created_by := Some 8\<rparr>],
             d_grants := [demo_grant\<lparr>dg_type := ''read''\<rparr>]\<rparr>"
  have pass: "DatasourcePermissionMiddleware (\<lambda>q. None) ds_keys demo_rbac (inst_view s) ''manage'' ''PUT'' ''6'' 0 ann = None"
    by (simp add: DatasourcePermissionMiddleware_def Let_def verdict_of_def HasDatasourcePermission_def parseInt64_def scan_d_def
        is_digit_def inst_grant_def IsSystemAdmin_def IsDomainAdmin_def count_where_def demo_rbac_def ann_def s_def inst_view_def
        demo_ds_def demo_dstore_def creator_of_def)
  have id: "parseInt64 ''6'' = 6" by (simp add: parseInt64_def scan_d_def is_digit_def)
  have before: "HasDatasourcePermission (\<lambda>q. None) ds_keys demo_rbac (inst_view s) 8 7 ''manage'' = Inr False"
    by (simp add: HasDatasourcePermission_def IsSystemAdmin_def IsDomainAdmin_def count_where_def demo_rbac_def s_def
        inst_view_def inst_grant_def demo_ds_def demo_dstore_def creator_of_def grant_count_def demo_grant_def GetEffectivePermissions_def
        validPermissionTypes_def ds_keys_def permissionIncludes_def includes_of_def)
  show ?thesis
    using manager_of_one_source_takes_another [OF pass, of 1 "demo_grant\<lparr>dg_type := ''read''\<rparr>" 7 6 demo_dsenv "''manage''"]
      id before
    by (simp add: s_def [symmetric] Let_def db_ok_def demo_dsenv_def validPermissionTypes_def)
      (simp add: s_def demo_dstore_def demo_grant_def ann_def demo_ds_def)
qed

end
