(* ===== verification/Audit_Log.thy ===== *)
theory Audit_Log
  imports Access "HOL-Library.Multiset"
begin

text \<open>
  The audit log: the middleware that records writing requests (middleware/audit.go), the table's
  service (service/audit_log.go) and the requests of handler/audit_log.go. A path is matched against
  the tables of the middleware in their order. The insert runs in a goroutine: the middleware returns the
  row it hands over.
\<close>

section \<open>Which requests are recorded\<close>

definition routeAuditRules :: "string \<Rightarrow> (string \<times> string) option" where
  "routeAuditRules = map_of
     [(''/api/auth/login'', (''auth'', ''login'')), (''/api/auth/register'', (''auth'', ''register'')),
      (''/api/auth/change-password'', (''auth'', ''change_password'')),
      (''/api/auth/profile'', (''auth'', ''update_profile'')),
      (''/api/admin/users'', (''user'', ''create'')), (''/api/admin/roles'', (''role'', ''create'')),
      (''/api/admin/domains'', (''domain'', ''create'')),
      (''/api/admin/system-config'', (''config'', ''config_change'')),
      (''/api/datasources'', (''datasource'', ''create'')),
      (''/api/datasources/test'', (''datasource'', ''test_connection'')),
      (''/api/tasks'', (''task'', ''create'')), (''/api/query/execute'', (''query'', ''execute'')),
      (''/api/query/export'', (''query'', ''export'')), (''/api/query/saved-sql'', (''saved_sql'', ''create'')),
      (''/api/interfaces'', (''api_test'', ''create'')), (''/api/interfaces/execute'', (''api_test'', ''execute'')),
      (''/api/certificates'', (''certificate'', ''create'')), (''/api/proto-files'', (''proto_file'', ''create'')),
      (''/api/proto-files/parse'', (''proto_file'', ''parse'')),
      (''/api/proto-files/reflect'', (''proto_file'', ''reflect'')),
      (''/api/proto-files/template'', (''proto_file'', ''generate_template'')),
      (''/api/proto-files/fields'', (''proto_file'', ''generate_fields'')),
      (''/api/auth/api-token'', (''api_token'', ''generate'')),
      (''/api/auth/api-token/reveal'', (''api_token'', ''reveal'')),
      (''/api/admin/grafana-dashboards'', (''grafana_dashboard'', ''manage'')),
      (''/api/admin/grafana-dashboards/reorder'', (''grafana_dashboard'', ''reorder''))]"

definition routePrefixRules :: "(string \<times> string) list" where
  "routePrefixRules =
     [(''/api/admin/users/'', ''user''), (''/api/admin/roles/'', ''role''), (''/api/admin/domains/'', ''domain''),
      (''/api/admin/system-config/'', ''config''), (''/api/datasources/'', ''datasource''), (''/api/tasks/'', ''task''),
      (''/api/executors/'', ''executor''), (''/api/query/saved-sql/'', ''saved_sql''),
      (''/api/query/history/'', ''query_history''), (''/api/query/clear-cache/'', ''datasource''),
      (''/api/query/cancel/'', ''query''), (''/api/logs/'', ''log''), (''/api/interfaces/'', ''api_test''),
      (''/api/certificates/'', ''certificate''), (''/api/proto-files/'', ''proto_file''),
      (''/api/auth/api-token/'', ''api_token''), (''/api/admin/grafana-dashboards/'', ''grafana_dashboard'')]"

definition writeMethodActions :: "string \<Rightarrow> string option" where
  "writeMethodActions = map_of [(''POST'', ''create''), (''PUT'', ''update''), (''DELETE'', ''delete'')]"

definition has_suffix :: "string \<Rightarrow> string \<Rightarrow> bool" where
  "has_suffix s p \<longleftrightarrow> take (length p) (rev s) = rev p"

definition path_action :: "string \<Rightarrow> string \<Rightarrow> string \<Rightarrow> string" where
  "path_action m path def =
     (if Contains path ''/trigger'' then ''trigger''
      else if (has_suffix path ''/test'' \<or> Contains path ''/test'') \<and> \<not> Contains path ''/executors/'' then ''test_connection''
      else if Contains path ''/permissions'' \<and> m = ''POST'' then ''assign''
      else if Contains path ''/permissions'' \<and> m = ''DELETE'' then ''revoke''
      else if Contains path ''/roles'' \<and> m = ''POST'' then ''assign''
      else if Contains path ''/domains'' \<and> m = ''POST'' then ''assign''
      else if Contains path ''/reset-password'' then ''reset_password''
      else if has_suffix path ''/online'' then ''online''
      else if has_suffix path ''/offline'' then ''offline''
      else if Contains path ''/capacity'' then ''update''
      else if Contains path ''/batch-delete'' then ''delete''
      else if Contains path ''/clean'' then ''clean''
      else if Contains path ''/clear-cache'' then ''clear_cache''
      else if Contains path ''/cancel'' then ''cancel''
      else if Contains path ''/pause'' then ''pause''
      else if Contains path ''/resume'' then ''resume''
      else if Contains path ''/system-config'' then ''config_change''
      else if Contains path ''/interfaces/'' \<and> Contains path ''/execute'' then ''execute''
      else if Contains path ''/generate-curl'' then ''generate_curl''
      else if Contains path ''/interfaces/'' \<and> Contains path ''/results'' \<and> m = ''DELETE'' then ''delete_result''
      else if Contains path ''/api-token'' \<and> m = ''DELETE'' then ''revoke''
      else def)"

definition resolveAuditInfo :: "string \<Rightarrow> string \<Rightarrow> string \<times> string" where
  "resolveAuditInfo m path =
     (case routeAuditRules path of
        Some rule \<Rightarrow> rule
      | None \<Rightarrow>
          (case first_where (\<lambda>(p, r). HasPrefix path p) routePrefixRules of None \<Rightarrow> [] | Some (p, r) \<Rightarrow> r,
           path_action m path (case writeMethodActions m of None \<Rightarrow> [] | Some a \<Rightarrow> a)))"

section \<open>The rows\<close>

record audit_log =
  al_id :: int
  al_user :: "int option"
  al_name :: string
  al_real :: string
  al_role :: string
  al_domain :: "int option"
  al_action :: string
  al_resource :: string
  al_resource_id :: string
  al_resource_name :: string
  al_status :: string
  al_code :: int
  al_ip :: string
  al_agent :: string
  al_method :: string
  al_path :: string
  al_detail :: string
  al_created :: instant

text \<open>What a handler leaves behind: the status it wrote, or a panic, and the values it set for the log.\<close>

record audit_values =
  av_action :: string
  av_resource :: string
  av_id :: string
  av_name :: string
  av_detail :: string

datatype outcome = Responded int | Panicked

definition positive :: "int \<Rightarrow> int option" where
  "positive i = (if i > 0 then Some i else None)"

record audit_request =
  aq_method :: string
  aq_path :: string
  aq_ip :: string
  aq_agent :: string

text \<open>\<open>p\<close> is what the context holds of the user; a login sets the name only. After a panic the deferred
  function answers with status 500, and the rest of the middleware does not run.\<close>

definition AuditMiddleware ::
  "instant \<Rightarrow> audit_request \<Rightarrow> principal \<Rightarrow> outcome \<Rightarrow> audit_values \<Rightarrow> audit_log option" where
  "AuditMiddleware now q p out v =
     (if aq_method q \<notin> set [''POST'', ''PUT'', ''DELETE''] then None
      else case out of
        Panicked \<Rightarrow> None
      | Responded status \<Rightarrow>
          (let info = resolveAuditInfo (aq_method q) (aq_path q);
               action = (if av_action v \<noteq> [] then av_action v else snd info);
               resource = (if av_resource v \<noteq> [] then av_resource v else fst info)
           in if resource = [] \<or> action = [] then None
              else Some \<lparr>al_id = 0, al_user = positive (pr_user p), al_name = pr_name p, al_real = pr_real p,
                al_role = (case pr_role p of None \<Rightarrow> [] | Some r \<Rightarrow> r), al_domain = positive (pr_domain p),
                al_action = action, al_resource = resource, al_resource_id = av_id v, al_resource_name = av_name v,
                al_status = (if status \<ge> 400 then ''failure'' else ''success''), al_code = status,
                al_ip = aq_ip q, al_agent = take 500 (aq_agent q), al_method = aq_method q, al_path = aq_path q,
                al_detail = take 2000 (av_detail v), al_created = now\<rparr>))"

datatype audit_statement = A_insert | A_count | A_list | A_clean nat | A_total

record audit_env =
  ae_db :: "audit_statement \<Rightarrow> string option"
  ae_now :: instant
  ae_new_id :: int
  ae_like :: "string \<Rightarrow> string \<Rightarrow> bool"
  ae_retention :: int                        \<comment> \<open>\<open>GetInt\<close> of the configuration, 0 without one\<close>
  ae_cancelled :: "nat \<Rightarrow> bool"             \<comment> \<open>the request's context is done before the round\<close>
  ae_pick :: "nat \<Rightarrow> audit_log list \<Rightarrow> audit_log list"
    \<comment> \<open>the order in which a subquery without \<open>ORDER BY\<close> yields its rows\<close>

definition audit_Create :: "audit_env \<Rightarrow> audit_log \<Rightarrow> audit_log list \<Rightarrow> unit result \<times> audit_log list" where
  "audit_Create V l t =
     (case ae_db V A_insert of
        Some e \<Rightarrow> (Inl e, t)
      | None \<Rightarrow> (Inr (), t @ [l\<lparr>al_id := ae_new_id V\<rparr>]))"

record audit_filter =
  af_name :: string
  af_action :: string
  af_resource :: string
  af_status :: string
  af_domain :: int
  af_start :: "instant option"      \<comment> \<open>parsed; a text that does not parse is ignored\<close>
  af_end :: "instant option"
  af_page :: int
  af_size :: int

definition audit_matches :: "audit_env \<Rightarrow> audit_filter \<Rightarrow> audit_log \<Rightarrow> bool" where
  "audit_matches V f l \<longleftrightarrow>
     (af_name f \<noteq> [] \<longrightarrow> ae_like V (af_name f) (al_name l)) \<and> (af_action f \<noteq> [] \<longrightarrow> al_action l = af_action f) \<and>
     (af_resource f \<noteq> [] \<longrightarrow> al_resource l = af_resource f) \<and> (af_status f \<noteq> [] \<longrightarrow> al_status l = af_status f) \<and>
     (af_domain f > 0 \<longrightarrow> al_domain l = Some (af_domain f)) \<and>
     (\<forall>t\<in>set_option (af_start f). t \<le> al_created l) \<and> (\<forall>t\<in>set_option (af_end f). al_created l \<le> t)"

definition audit_List :: "audit_env \<Rightarrow> audit_filter \<Rightarrow> audit_log list \<Rightarrow> (audit_log list \<times> int) result" where
  "audit_List V f t =
     (let page = (if af_page f \<le> 0 then 1 else af_page f);
          sz0 = (if af_size f \<le> 0 then 20 else af_size f);
          sz = (if sz0 > 100 then 100 else sz0);
          rows = filter (audit_matches V f) t
      in rbind (on_db (ae_db V A_count) (int (length rows))) (\<lambda>total.
         rbind (on_db (ae_db V A_list) (limit_offset sz ((page - 1) * sz) (sort_key (\<lambda>l. - al_created l) rows)))
           (\<lambda>shown. Inr (shown, total))))"

text \<open>One round of the deletion: the first thousand expired rows in the order of the subquery.\<close>

definition expired_batch :: "audit_env \<Rightarrow> nat \<Rightarrow> instant \<Rightarrow> audit_log list \<Rightarrow> audit_log list" where
  "expired_batch V n cutoff t = take 1000 (ae_pick V n (filter (\<lambda>l. al_created l < cutoff) t))"

definition drop_batch :: "audit_log list \<Rightarrow> audit_log list \<Rightarrow> audit_log list" where
  "drop_batch b t = filter (\<lambda>l. al_id l \<notin> al_id ` set b) t"

text \<open>The loop, with the round's number; the count of deleted rows is the shrinkage of the table.\<close>

partial_function (option) clean_loop ::
  "audit_env \<Rightarrow> instant \<Rightarrow> nat \<Rightarrow> int \<Rightarrow> audit_log list \<Rightarrow> ((string option \<times> int) \<times> audit_log list) option" where
  "clean_loop V cutoff n acc t =
     (if ae_cancelled V n then Some ((Some ''context canceled'', acc), t)
      else case ae_db V (A_clean n) of
        Some e \<Rightarrow> Some ((Some e, acc), t)
      | None \<Rightarrow>
          (let t1 = drop_batch (expired_batch V n cutoff t) t;
               deleted = int (length t) - int (length t1)
           in if deleted < 1000 then Some ((None, acc + deleted), t1)
              else clean_loop V cutoff (n + 1) (acc + deleted) t1))"

definition day :: duration where "day = 86400 * second"

definition CleanExpired ::
  "audit_env \<Rightarrow> int \<Rightarrow> audit_log list \<Rightarrow> ((string option \<times> int) \<times> audit_log list) option" where
  "CleanExpired V days t = clean_loop V (ae_now V - (if days \<le> 0 then 90 else days) * day) 0 0 t"

definition GetRetentionDays :: "audit_env \<Rightarrow> int" where
  "GetRetentionDays V = (if ae_retention V > 0 then ae_retention V else 90)"

definition audit_Count :: "audit_env \<Rightarrow> audit_log list \<Rightarrow> int result" where
  "audit_Count V t = on_db (ae_db V A_total) (int (length t))"

definition HandleCleanExpired :: "audit_env \<Rightarrow> int \<Rightarrow> audit_log list \<Rightarrow> ((int \<times> int) reply \<times> audit_log list) option" where
  "HandleCleanExpired V asked t =
     (let days = (if asked \<le> 0 then GetRetentionDays V else asked)
      in map_option (\<lambda>((err, n), t1). (case err of None \<Rightarrow> Good (n, days) | Some e \<Rightarrow> Bad 500 ''failed to clean'', t1))
           (CleanExpired V days t))"

section \<open>Properties\<close>

text \<open>What the log says about the outcome of a request. It goes by the HTTP status, which every handler of
  the program leaves at 200: a request that a handler refuses or fails, a login with a wrong password
  included, is recorded as a success. Only the middlewares' own refusals count as failures. A handler that
  panics leaves no row, although the middleware means to record it.
\<close>

theorem handler_failures_are_logged_as_successes:
  fixes r :: "'a reply"
  assumes "aq_method q \<in> set [''POST'', ''PUT'', ''DELETE'']" and "resolveAuditInfo (aq_method q) (aq_path q) = (resource, action)"
    and "resource \<noteq> []" and "action \<noteq> []" and "av_action v = []" and "av_resource v = []"
  shows "map_option al_status (AuditMiddleware now q p (Responded (http_status r)) v) =
           Some (case r of Abort n m \<Rightarrow> if n \<ge> 400 then ''failure'' else ''success'' | _ \<Rightarrow> ''success'') \<and>
         AuditMiddleware now q p Panicked v = None"
  using assms by (cases r) (auto simp: AuditMiddleware_def Let_def)

definition no_values :: audit_values where
  "no_values = \<lparr>av_action = [], av_resource = [], av_id = [], av_name = [], av_detail = []\<rparr>"

definition nobody :: principal where
  "nobody = \<lparr>pr_user = 0, pr_name = ''ann'', pr_real = [], pr_domain = 0, pr_api = False, pr_role = None\<rparr>"

theorem handler_failures_are_logged_as_successes_witness:
  "map_option al_status (AuditMiddleware 0 \<lparr>aq_method = ''POST'', aq_path = ''/api/auth/login'', aq_ip = [], aq_agent = []\<rparr>
     nobody (Responded (http_status (Bad 11003 ''wrong user name or password'' :: session reply))) no_values) = Some ''success''"
  using handler_failures_are_logged_as_successes
    [of "\<lparr>aq_method = ''POST'', aq_path = ''/api/auth/login'', aq_ip = [], aq_agent = []\<rparr>" "''auth''" "''login''"
      no_values 0 nobody "Bad 11003 ''wrong user name or password'' :: session reply"]
  by (simp add: resolveAuditInfo_def routeAuditRules_def no_values_def)

text \<open>The parts of the program whose requests have no resource in the tables.\<close>

definition unlisted :: "string \<Rightarrow> bool" where
  "unlisted path \<longleftrightarrow> path \<in> set [''/api/auth/sso-login'', ''/api/auth/switch-domain'', ''/api/webhooks''] \<or>
     HasPrefix path ''/api/webhooks/'' \<or> HasPrefix path ''/api/admin/audit-logs/'' \<or> HasPrefix path ''/api/dashboard/''"

lemma HasPrefix_take: "HasPrefix s p \<longleftrightarrow> take (length p) s = p"
  by (auto simp: HasPrefix_def prefix_def) (metis append_take_drop_id)

lemma no_exact:
  "routeAuditRules ''/api/auth/sso-login'' = None" "routeAuditRules ''/api/auth/switch-domain'' = None"
  "routeAuditRules ''/api/webhooks'' = None" "routeAuditRules (''/api/webhooks/'' @ rest) = None"
  "routeAuditRules (''/api/admin/audit-logs/'' @ rest) = None" "routeAuditRules (''/api/dashboard/'' @ rest) = None"
  by (simp_all add: routeAuditRules_def)

lemma no_rule:
  assumes "path \<in> set [''/api/auth/sso-login'', ''/api/auth/switch-domain'', ''/api/webhooks''] \<or>
     path = ''/api/webhooks/'' @ rest \<or> path = ''/api/admin/audit-logs/'' @ rest \<or> path = ''/api/dashboard/'' @ rest"
  shows "routeAuditRules path = None"
  using assms no_exact by (elim disjE) (auto simp del: append.simps)

lemma no_prefix:
  "first_where (\<lambda>(p, r). HasPrefix ''/api/auth/sso-login'' p) routePrefixRules = None"
  "first_where (\<lambda>(p, r). HasPrefix ''/api/auth/switch-domain'' p) routePrefixRules = None"
  "first_where (\<lambda>(p, r). HasPrefix ''/api/webhooks'' p) routePrefixRules = None"
  "first_where (\<lambda>(p, r). HasPrefix (''/api/webhooks/'' @ rest) p) routePrefixRules = None"
  "first_where (\<lambda>(p, r). HasPrefix (''/api/admin/audit-logs/'' @ rest) p) routePrefixRules = None"
  "first_where (\<lambda>(p, r). HasPrefix (''/api/dashboard/'' @ rest) p) routePrefixRules = None"
  by (simp_all add: routePrefixRules_def HasPrefix_take)

lemma unlisted_cases:
  assumes "unlisted path"
  obtains rest where "path \<in> set [''/api/auth/sso-login'', ''/api/auth/switch-domain'', ''/api/webhooks''] \<or>
     path = ''/api/webhooks/'' @ rest \<or> path = ''/api/admin/audit-logs/'' @ rest \<or> path = ''/api/dashboard/'' @ rest"
  using assms unfolding unlisted_def HasPrefix_def prefix_def by blast

lemma unlisted_resource:
  assumes "unlisted path"
  shows "fst (resolveAuditInfo m path) = []"
proof -
  obtain rest where r: "path \<in> set [''/api/auth/sso-login'', ''/api/auth/switch-domain'', ''/api/webhooks''] \<or>
     path = ''/api/webhooks/'' @ rest \<or> path = ''/api/admin/audit-logs/'' @ rest \<or> path = ''/api/dashboard/'' @ rest"
    using unlisted_cases [OF assms] .
  then have "first_where (\<lambda>(p, r). HasPrefix path p) routePrefixRules = None"
    using no_prefix by (elim disjE) (auto simp del: append.simps)
  then show ?thesis using no_rule [OF r] by (simp add: resolveAuditInfo_def)
qed

text \<open>Gaps of the log. A login through SSO, a change of domain, every change of a webhook, the removal of
  log rows itself and the pausing of the scheduler leave no row, whatever the outcome. The revocation of an
  API token is recorded as the making of one, for the table of exact paths comes first and knows no method.
\<close>

theorem audit_log_has_gaps:
  "(unlisted (aq_path q) \<and> av_resource v = [] \<longrightarrow> AuditMiddleware now q p out v = None) \<and>
   resolveAuditInfo ''DELETE'' ''/api/auth/api-token'' = (''api_token'', ''generate'')"
proof -
  have "AuditMiddleware now q p out v = None" if "unlisted (aq_path q)" "av_resource v = []"
    using unlisted_resource [OF that(1)] that(2) by (auto simp: AuditMiddleware_def Let_def split: outcome.split)
  then show ?thesis by (simp add: resolveAuditInfo_def routeAuditRules_def)
qed

theorem audit_log_has_gaps_witness:
  "AuditMiddleware 0 \<lparr>aq_method = ''POST'', aq_path = ''/api/auth/sso-login'', aq_ip = [], aq_agent = []\<rparr>
     nobody (Responded 200) no_values = None"
  using audit_log_has_gaps [of "\<lparr>aq_method = ''POST'', aq_path = ''/api/auth/sso-login'', aq_ip = [], aq_agent = []\<rparr>" no_values]
  by (simp add: unlisted_def no_values_def)

section \<open>Cleaning\<close>

definition expired_rows :: "instant \<Rightarrow> audit_log list \<Rightarrow> audit_log list" where
  "expired_rows cutoff t = filter (\<lambda>l. al_created l < cutoff) t"

definition picks_all :: "audit_env \<Rightarrow> bool" where
  "picks_all V \<longleftrightarrow> (\<forall>n xs. mset (ae_pick V n xs) = mset xs)"

lemma drop_batch_length:
  assumes "distinct (map al_id t)" and "set b \<subseteq> set t" and "distinct b"
  shows "length (drop_batch b t) + length b = length t"
proof -
  have "inj_on al_id (set t)" using assms(1) by (simp add: distinct_map)
  then have "al_id l \<in> al_id ` set b \<longleftrightarrow> l \<in> set b" if "l \<in> set t" for l
    using that assms(2) by (auto simp: inj_on_def)
  then have "drop_batch b t = filter (\<lambda>l. l \<notin> set b) t"
    by (auto simp: drop_batch_def intro: filter_cong)
  moreover have "length (filter (\<lambda>l. l \<in> set b) t) = length b"
  proof -
    have "distinct (filter (\<lambda>l. l \<in> set b) t)" using assms(1) by (simp add: distinct_map)
    then have "length (filter (\<lambda>l. l \<in> set b) t) = card (set b)"
      using assms(2) by (metis (mono_tags) Collect_conj_eq Collect_mem_eq distinct_card inf.absorb2 set_filter)
    then show ?thesis using distinct_card [OF assms(3)] by simp
  qed
  ultimately show ?thesis using sum_length_filter_compl [of "\<lambda>l. l \<in> set b" t] by simp
qed

lemma batch_props:
  assumes "picks_all V" and "distinct (map al_id t)"
  shows "set (expired_batch V n cutoff t) \<subseteq> set (expired_rows cutoff t)" and "distinct (expired_batch V n cutoff t)"
    and "length (expired_batch V n cutoff t) = min 1000 (length (expired_rows cutoff t))"
    and "length (expired_rows cutoff t) \<le> 1000 \<Longrightarrow> set (expired_batch V n cutoff t) = set (expired_rows cutoff t)"
proof -
  have m: "mset (ae_pick V n (expired_rows cutoff t)) = mset (expired_rows cutoff t)"
    using assms(1) by (auto simp: picks_all_def)
  have len: "length (ae_pick V n (expired_rows cutoff t)) = length (expired_rows cutoff t)" by (rule mset_eq_length [OF m])
  have st: "set (ae_pick V n (expired_rows cutoff t)) = set (expired_rows cutoff t)" by (rule mset_eq_setD [OF m])
  have "distinct (expired_rows cutoff t)" using assms(2) by (simp add: expired_rows_def distinct_map)
  then have d: "distinct (ae_pick V n (expired_rows cutoff t))" using m by (metis mset_eq_imp_distinct_iff)
  show "set (expired_batch V n cutoff t) \<subseteq> set (expired_rows cutoff t)"
    using st set_take_subset by (fastforce simp: expired_batch_def expired_rows_def)
  show "distinct (expired_batch V n cutoff t)" using d by (simp add: expired_batch_def expired_rows_def)
  show "length (expired_batch V n cutoff t) = min 1000 (length (expired_rows cutoff t))"
    using len by (simp add: expired_batch_def expired_rows_def)
  show "set (expired_batch V n cutoff t) = set (expired_rows cutoff t)" if "length (expired_rows cutoff t) \<le> 1000"
    using st len that by (simp add: expired_batch_def expired_rows_def)
qed

lemma clean_loop_exact:
  assumes "picks_all V" and "\<And>n. \<not> ae_cancelled V n" and "\<And>n. ae_db V (A_clean n) = None"
    and "distinct (map al_id t)"
  shows "clean_loop V cutoff n acc t = Some ((None, acc + int (length (expired_rows cutoff t))),
           filter (\<lambda>l. \<not> al_created l < cutoff) t)"
  using assms(4)
proof (induction "length (expired_rows cutoff t)" arbitrary: n acc t rule: less_induct)
  case less
  define b where "b = expired_batch V n cutoff t"
  define t1 where "t1 = drop_batch b t"
  note b = batch_props [OF assms(1) less.prems, where n = n and cutoff = cutoff, folded b_def]
  have sub: "set b \<subseteq> set t" using b(1) by (auto simp: expired_rows_def)
  have len: "length t1 + length b = length t"
    unfolding t1_def using drop_batch_length [OF less.prems sub b(2)] .
  have d1: "distinct (map al_id t1)" using less.prems by (simp add: t1_def drop_batch_def distinct_map_filter)
  have inj: "inj_on al_id (set t)" using less.prems by (simp add: distinct_map)
  have mem: "l \<in> set t1 \<longleftrightarrow> l \<in> set t \<and> l \<notin> set b" for l
    using inj sub by (auto simp: t1_def drop_batch_def inj_on_def)
  have kept: "filter (\<lambda>l. \<not> al_created l < cutoff) t1 = filter (\<lambda>l. \<not> al_created l < cutoff) t"
  proof -
    have "al_id l \<notin> al_id ` set b" if "l \<in> set t" "\<not> al_created l < cutoff" for l
      using that b(1) inj sub by (auto simp: expired_rows_def inj_on_def)
    then show ?thesis by (auto simp: t1_def drop_batch_def intro: filter_cong)
  qed
  have exp: "length (expired_rows cutoff t1) + length b = length (expired_rows cutoff t)"
    using len kept sum_length_filter_compl [of "\<lambda>l. al_created l < cutoff" t]
      sum_length_filter_compl [of "\<lambda>l. al_created l < cutoff" t1]
    by (simp add: expired_rows_def)
  have eq: "int (length t) - int (length t1) = int (length b)" using len by linarith
  have step: "clean_loop V cutoff n acc t =
      (if length b < 1000 then Some ((None, acc + int (length b)), t1) else clean_loop V cutoff (n + 1) (acc + int (length b)) t1)"
    using eq by (subst clean_loop.simps) (auto simp: assms(2,3) b_def t1_def Let_def)
  show ?case
  proof (cases "length b < 1000")
    case True
    then have all: "length (expired_rows cutoff t1) = 0" using b(3) exp by simp
    then have "t1 = filter (\<lambda>l. \<not> al_created l < cutoff) t"
      using kept by (auto simp: expired_rows_def filter_empty_conv intro: filter_True [symmetric])
    then show ?thesis using step True exp all by simp
  next
    case False
    then have "length (expired_rows cutoff t1) < length (expired_rows cutoff t)" using exp by linarith
    from less.hyps [OF this d1, of "n + 1" "acc + int (length b)"] kept
    show ?thesis using step False exp by (simp add: algebra_simps)
  qed
qed

text \<open>The deletion of expired rows ends, whatever the order in which the database picks its batches of a
  thousand, and leaves exactly the rows that are young enough; the count it reports is the number of the
  others.
\<close>

theorem clean_expired_is_exact:
  assumes "picks_all V" and "\<And>n. \<not> ae_cancelled V n" and "\<And>n. ae_db V (A_clean n) = None"
    and "distinct (map al_id t)" and "days > 0"
  shows "\<exists>n. CleanExpired V days t = Some ((None, n), filter (\<lambda>l. ae_now V - days * day \<le> al_created l) t) \<and>
     n = int (length (filter (\<lambda>l. al_created l < ae_now V - days * day) t))"
  using clean_loop_exact [OF assms(1-4), of "ae_now V - days * day" 0 0] assms(5)
  by (simp add: CleanExpired_def expired_rows_def not_less)

definition demo_audit :: audit_env where
  "demo_audit = \<lparr>ae_db = \<lambda>q. None, ae_now = 100 * day, ae_new_id = 3, ae_like = \<lambda>p t. Contains t p, ae_retention = 0,
     ae_cancelled = \<lambda>n. False, ae_pick = \<lambda>n xs. rev xs\<rparr>"

definition demo_log :: audit_log where
  "demo_log = \<lparr>al_id = 1, al_user = None, al_name = [], al_real = [], al_role = [], al_domain = None, al_action = ''create'',
     al_resource = ''task'', al_resource_id = [], al_resource_name = [], al_status = ''success'', al_code = 200, al_ip = [],
     al_agent = [], al_method = ''POST'', al_path = ''/api/tasks'', al_detail = [], al_created = 5 * day\<rparr>"

theorem clean_expired_is_exact_witness:
  "CleanExpired demo_audit 30 [demo_log, demo_log\<lparr>al_id := 2, al_created := 80 * day\<rparr>] =
     Some ((None, 1), [demo_log\<lparr>al_id := 2, al_created := 80 * day\<rparr>])"
proof -
  have "picks_all demo_audit" by (simp add: picks_all_def demo_audit_def)
  from clean_expired_is_exact [OF this, of "[demo_log, demo_log\<lparr>al_id := 2, al_created := 80 * day\<rparr>]" 30]
  show ?thesis by (simp add: demo_audit_def demo_log_def day_def)
qed

end
