(* ===== verification/System_Config.thy ===== *)
theory System_Config
  imports Access
begin

text \<open>
  The system configuration (scheduler/internal/system_config/service.go and handler/system_config.go): the
  built-in defaults and the meta data of the keys, the cache of a node, the table that all nodes share,
  validation, \<open>Set\<close>, \<open>Reload\<close> and the notification of observers. Labels, descriptions, units and groups of
  the meta data are left out. A config text is read by \<open>strconv.Atoi\<close>.
\<close>

section \<open>Numbers\<close>

definition atoi :: "string \<Rightarrow> int option" where
  "atoi t =
     (let neg = (case t of c # _ \<Rightarrow> c = CHR ''-'' | [] \<Rightarrow> False);
          body = (case t of c # cs \<Rightarrow> if c = CHR ''-'' \<or> c = CHR ''+'' then cs else t | [] \<Rightarrow> []);
          n = (if neg then - int (read_nat body) else int (read_nat body))
      in if body \<noteq> [] \<and> list_all digit body \<and> - (2 ^ 63) \<le> n \<and> n < 2 ^ 63 then Some n else None)"

section \<open>Keys\<close>

datatype config_type = Boolean | Number int int | Text

definition config_url :: string where "config_url = ''https://qyapi.weixin.qq.com/cgi-bin/''"

definition configMetaList :: "(string \<times> config_type \<times> string) list" where
  "configMetaList =
     [(''web.enabled'', Boolean, ''false''), (''api_test.allow_private_network'', Boolean, ''false''),
      (''audit_log.retention_days'', Number 1 3650, ''90''),
      (''wecom.robot_url'', Text, config_url @ ''webhook/send''), (''wecom.app_msg_url'', Text, config_url @ ''app/send''),
      (''wecom.ewechat_url'', Text, config_url @ ''app/send''),
      (''datasource.default_limit'', Number 1 100000, ''1000''),
      (''datasource.max_export_rows'', Number 1 1000000, ''1000''),
      (''datasource.query_timeout'', Number 1 3600, ''60''),
      (''datasource.max_sql_length'', Number 1024 1048576, ''65536''),
      (''datasource.max_cell_size'', Number 1024 10485760, ''65536''),
      (''datasource.max_concurrent_per_user'', Number 1 50, ''5''),
      (''datasource.max_concurrent_global'', Number 1 500, ''50''),
      (''datasource.max_concurrent_per_datasource'', Number 1 100, ''10''),
      (''datasource.allow_write_sql'', Boolean, ''false''), (''datasource.cache_ttl'', Number 0 86400, ''300''),
      (''datasource.cache_max_size'', Number 1 10000, ''100''), (''datasource.connection_max_idle'', Number 1 100, ''2''),
      (''datasource.connection_max_open'', Number 1 200, ''5''),
      (''datasource.connection_max_lifetime'', Number 60 86400, ''1800''),
      (''datasource.health_check_interval'', Number 30 3600, ''300''),
      (''datasource.test_timeout'', Number 1 120, ''10''), (''datasource.metadata_timeout'', Number 5 300, ''60''),
      (''datasource.history_retention_days'', Number 1 365, ''30'')]"

definition defaultConfigValues :: "string \<Rightarrow> string option" where
  "defaultConfigValues = map_of
     [(''datasource.default_limit'', ''1000''), (''datasource.max_export_rows'', ''1000''),
      (''datasource.cache_ttl'', ''300''), (''datasource.cache_max_size'', ''100''), (''datasource.query_timeout'', ''60''),
      (''datasource.max_concurrent_per_user'', ''5''), (''datasource.max_concurrent_global'', ''50''),
      (''datasource.max_concurrent_per_datasource'', ''10''), (''datasource.allow_write_sql'', ''false''),
      (''datasource.history_retention_days'', ''30''), (''datasource.connection_max_idle'', ''2''),
      (''datasource.connection_max_open'', ''5''), (''datasource.connection_max_lifetime'', ''1800''),
      (''datasource.max_sql_length'', ''65536''), (''datasource.max_cell_size'', ''65536''),
      (''datasource.health_check_interval'', ''300''), (''datasource.test_timeout'', ''10''),
      (''datasource.metadata_timeout'', ''60''), (''web.enabled'', ''false''), (''api_test.allow_private_network'', ''false''),
      (''audit_log.retention_days'', ''90''), (''wecom.robot_url'', config_url @ ''webhook/send''),
      (''wecom.app_msg_url'', config_url @ ''app/send''), (''wecom.ewechat_url'', config_url @ ''app/send'')]"

definition config_ok :: "config_type \<Rightarrow> string \<Rightarrow> unit result" where
  "config_ok ty v =
     (case ty of
        Boolean \<Rightarrow> (if v \<noteq> ''true'' \<and> v \<noteq> ''false'' then Inl ''must be true or false'' else Inr ())
      | Number lo hi \<Rightarrow>
          (case atoi v of
             None \<Rightarrow> Inl ''must be integer''
           | Some n \<Rightarrow> if n < lo then Inl ''must not be less'' else if n > hi then Inl ''must not be more'' else Inr ())
      | Text \<Rightarrow> (if v = [] then Inl ''must not be empty'' else Inr ()))"

definition validateConfigValue :: "string \<Rightarrow> string \<Rightarrow> unit result" where
  "validateConfigValue key v =
     (case map_of configMetaList key of
        None \<Rightarrow> Inl ''unknown config key''
      | Some (ty, def) \<Rightarrow> config_ok ty v)"

section \<open>The service\<close>

record config_history =
  ch_key :: string
  ch_old :: string
  ch_new :: string
  ch_by :: int
  ch_at :: instant

text \<open>The tables, and one node. A failed first load makes the cache the very map of the defaults.\<close>

record config_db =
  cd_rows :: "string \<Rightarrow> string option"
  cd_history :: "config_history list"

record config_service =
  cs_cache :: "string \<Rightarrow> string option"
  cs_defaults :: "string \<Rightarrow> string option"
  cs_aliased :: bool
  cs_observers :: "nat list"
  cs_events :: "(string \<times> string) list"      \<comment> \<open>the channel\<close>
  cs_closed :: bool

record config_env =
  cv_load :: "string option"
  cv_upsert :: "string option"
  cv_history :: "string option"
  cv_now :: instant

definition Reload :: "config_env \<Rightarrow> config_db \<Rightarrow> config_service \<Rightarrow> unit result \<times> config_service" where
  "Reload V d c =
     (case cv_load V of
        Some e \<Rightarrow> (Inl (''failed to query config: '' @ e), c)
      | None \<Rightarrow> (Inr (), c\<lparr>cs_cache := cs_defaults c ++ cd_rows d, cs_aliased := False\<rparr>))"

definition NewService :: "config_env \<Rightarrow> config_db \<Rightarrow> config_service" where
  "NewService V d =
     (let c = \<lparr>cs_cache = Map.empty, cs_defaults = defaultConfigValues, cs_aliased = False, cs_observers = [],
               cs_events = [], cs_closed = False\<rparr>
      in case Reload V d c of
           (Inl e, c1) \<Rightarrow> c1\<lparr>cs_cache := cs_defaults c1, cs_aliased := True\<rparr>
         | (Inr _, c1) \<Rightarrow> c1)"

definition config_Get :: "config_service \<Rightarrow> string \<Rightarrow> string" where
  "config_Get c key =
     (case cs_cache c key of Some v \<Rightarrow> v
      | None \<Rightarrow> (case cs_defaults c key of Some v \<Rightarrow> v | None \<Rightarrow> []))"

definition GetInt :: "config_service \<Rightarrow> string \<Rightarrow> int" where
  "GetInt c key = (case atoi (config_Get c key) of None \<Rightarrow> 0 | Some n \<Rightarrow> n)"

definition GetBool :: "config_service \<Rightarrow> string \<Rightarrow> bool" where
  "GetBool c key \<longleftrightarrow> config_Get c key = ''true'' \<or> config_Get c key = ''1''"

definition GetAllWithMeta :: "config_service \<Rightarrow> (string \<times> config_type \<times> string \<times> string) list" where
  "GetAllWithMeta c = map (\<lambda>(key, ty, def). (key, ty, def, case cs_cache c key of Some v \<Rightarrow> v | None \<Rightarrow> def)) configMetaList"

text \<open>The channel takes a hundred events; a sender waits two seconds for room, \<open>room\<close> says whether
  some comes. After \<open>Close\<close> the event may be dropped, \<open>dropped\<close>.\<close>

definition send_event :: "bool \<Rightarrow> bool \<Rightarrow> string \<times> string \<Rightarrow> config_service \<Rightarrow> config_service" where
  "send_event room dropped e c =
     (if cs_closed c \<and> dropped then c
      else if length (cs_events c) < 100 \<or> room then c\<lparr>cs_events := cs_events c @ [e]\<rparr> else c)"

definition config_Set ::
  "config_env \<Rightarrow> bool \<Rightarrow> bool \<Rightarrow> string \<Rightarrow> string \<Rightarrow> int \<Rightarrow> config_db \<times> config_service \<Rightarrow>
   unit result \<times> config_db \<times> config_service" where
  "config_Set V room dropped key v by s =
     (let (d, c) = s in
      case validateConfigValue key v of
        Inl e \<Rightarrow> (Inl (''invalid value for '' @ key @ '': '' @ e), s)
      | Inr _ \<Rightarrow>
          (case cv_upsert V of
             Some e \<Rightarrow> (Inl (''failed to upsert config: '' @ e), s)
           | None \<Rightarrow>
               (let h = \<lparr>ch_key = key, ch_old = config_Get c key, ch_new = v, ch_by = by, ch_at = cv_now V\<rparr>;
                    d1 = d\<lparr>cd_rows := (cd_rows d)(key \<mapsto> v),
                           cd_history := cd_history d @ (if cv_history V = None then [h] else [])\<rparr>;
                    c1 = c\<lparr>cs_cache := (cs_cache c)(key \<mapsto> v),
                           cs_defaults := (if cs_aliased c then (cs_defaults c)(key \<mapsto> v) else cs_defaults c)\<rparr>
                in (Inr (), d1, send_event room dropped (key, v) c1))))"

definition config_RegisterObserver :: "nat \<Rightarrow> config_service \<Rightarrow> config_service" where
  "config_RegisterObserver w c = c\<lparr>cs_observers := List.insert w (cs_observers c)\<rparr>"

definition config_UnregisterObserver :: "nat \<Rightarrow> config_service \<Rightarrow> config_service" where
  "config_UnregisterObserver w c = c\<lparr>cs_observers := removeAll w (cs_observers c)\<rparr>"

text \<open>One event taken from the channel: the calls that its goroutines make.\<close>

definition processChange :: "config_service \<Rightarrow> (nat \<times> string \<times> string) list \<times> config_service" where
  "processChange c =
     (case cs_events c of
        [] \<Rightarrow> ([], c)
      | e # es \<Rightarrow> (map (\<lambda>w. (w, e)) (cs_observers c), c\<lparr>cs_events := es\<rparr>))"

definition config_Close :: "config_service \<Rightarrow> config_service" where
  "config_Close c = c\<lparr>cs_closed := True\<rparr>"

definition HandleUpdateConfig ::
  "config_env \<Rightarrow> bool \<Rightarrow> bool \<Rightarrow> string \<Rightarrow> string \<Rightarrow> principal \<Rightarrow> config_db \<times> config_service \<Rightarrow>
   unit reply \<times> config_db \<times> config_service" where
  "HandleUpdateConfig V room dropped key v p s =
     (if key = [] then (Bad 400 ''config key is required'', s)
      else if v = [] then (Bad 400 ''value is required'', s)
      else (case config_Set V room dropped key v (pr_user p) s of
              (Inl e, s1) \<Rightarrow>
                (Bad (if validateConfigValue key v = Inr () then 500 else 400) e, s1)
            | (Inr _, s1) \<Rightarrow> (Good (), s1)))"

definition HandleReload :: "config_env \<Rightarrow> config_db \<Rightarrow> config_service \<Rightarrow> unit reply \<times> config_service" where
  "HandleReload V d c =
     (case Reload V d c of (Inl e, c1) \<Rightarrow> (Bad 500 e, c1) | (Inr _, c1) \<Rightarrow> (Good (), c1))"

section \<open>Every value stays valid\<close>

definition valid_map :: "(string \<Rightarrow> string option) \<Rightarrow> bool" where
  "valid_map m \<longleftrightarrow> list_all (\<lambda>(key, ty, def). case m key of None \<Rightarrow> True | Some v \<Rightarrow> config_ok ty v = Inr ()) configMetaList"

definition default_map :: "(string \<Rightarrow> string option) \<Rightarrow> bool" where
  "default_map m \<longleftrightarrow> valid_map m \<and> list_all (\<lambda>(key, ty, def). m key \<noteq> None) configMetaList"

definition config_inv :: "config_db \<times> config_service \<Rightarrow> bool" where
  "config_inv s \<longleftrightarrow> valid_map (cd_rows (fst s)) \<and> valid_map (cs_cache (snd s)) \<and> default_map (cs_defaults (snd s))"

datatype config_op =
    SetOp bool bool string string int | ReloadOp | ObserveOp nat | UnobserveOp nat | ProcessOp | CloseOp

fun config_step :: "config_db \<times> config_service \<Rightarrow> config_op \<times> config_env \<Rightarrow> config_db \<times> config_service" where
  "config_step s (SetOp room dropped key v u, V) = snd (config_Set V room dropped key v u s)"
| "config_step s (ReloadOp, V) = (fst s, snd (Reload V (fst s) (snd s)))"
| "config_step s (ObserveOp w, V) = (fst s, config_RegisterObserver w (snd s))"
| "config_step s (UnobserveOp w, V) = (fst s, config_UnregisterObserver w (snd s))"
| "config_step s (ProcessOp, V) = (fst s, snd (processChange (snd s)))"
| "config_step s (CloseOp, V) = (fst s, config_Close (snd s))"

lemma atoi_defaults:
  "atoi ''90'' = Some 90" "atoi ''1000'' = Some 1000" "atoi ''60'' = Some 60" "atoi ''65536'' = Some 65536"
  "atoi ''5'' = Some 5" "atoi ''50'' = Some 50" "atoi ''10'' = Some 10" "atoi ''300'' = Some 300"
  "atoi ''100'' = Some 100" "atoi ''2'' = Some 2" "atoi ''1800'' = Some 1800" "atoi ''30'' = Some 30"
  by (simp_all add: atoi_def digit_def code_def)

lemma meta_defaults_ok: "list_all (\<lambda>(key, ty, def). config_ok ty def = Inr ()) configMetaList"
  by (simp add: configMetaList_def config_ok_def atoi_defaults config_url_def)

lemma meta_defaults_same: "list_all (\<lambda>(key, ty, def). defaultConfigValues key = Some def) configMetaList"
  by (simp add: configMetaList_def defaultConfigValues_def)

lemma default_map_defaults: "default_map defaultConfigValues"
  using meta_defaults_ok meta_defaults_same
  unfolding default_map_def valid_map_def list_all_iff by fastforce

lemma distinct_keys: "distinct (map fst configMetaList)"
  by (simp add: configMetaList_def)

lemma valid_map_upd:
  assumes "valid_map m" and "validateConfigValue key v = Inr ()"
  shows "valid_map (m(key \<mapsto> v))"
proof -
  have "config_ok ty v = Inr ()" if "(key, ty, def) \<in> set configMetaList" for ty def
    using assms(2) that distinct_keys by (auto simp: validateConfigValue_def split: option.splits)
  then show ?thesis using assms(1) by (auto simp: valid_map_def list_all_iff split: if_splits)
qed

lemma default_map_upd: "default_map m \<Longrightarrow> validateConfigValue key v = Inr () \<Longrightarrow> default_map (m(key \<mapsto> v))"
  using valid_map_upd by (fastforce simp: default_map_def list_all_iff)

lemma valid_map_add: "valid_map m \<Longrightarrow> valid_map n \<Longrightarrow> valid_map (m ++ n)"
  by (fastforce simp: valid_map_def list_all_iff map_add_def split: option.splits)

lemma send_event_keeps [simp]:
  "cs_cache (send_event r d e c) = cs_cache c" "cs_defaults (send_event r d e c) = cs_defaults c"
  by (simp_all add: send_event_def)

lemma config_inv_set: "config_inv s \<Longrightarrow> config_inv (snd (config_Set V r d key v u s))"
  by (cases s)
    (auto simp: config_Set_def config_inv_def Let_def valid_map_upd default_map_upd split: sum.split option.split)

lemma config_inv_step [inv_intros]: "config_inv s \<Longrightarrow> config_inv (config_step s e)"
proof (induction s e rule: config_step.induct)
  case (1 s room dropped key v u V)
  then show ?case by (simp only: config_step.simps) (rule config_inv_set)
qed (auto simp: config_inv_def Reload_def config_RegisterObserver_def config_UnregisterObserver_def
      processChange_def config_Close_def default_map_def valid_map_add split: option.splits list.splits)

interpretation configuration: invariant_machine config_step config_inv
  by unfold_locales (rule config_inv_step)

lemma config_inv_new:
  "valid_map (cd_rows d) \<Longrightarrow> config_inv (d, NewService V d)"
  using default_map_defaults
  by (auto simp: config_inv_def NewService_def Reload_def Let_def default_map_def valid_map_add split: option.splits)

lemma GetInt_bounds:
  assumes "config_inv (d, c)" and "(key, Number lo hi, def) \<in> set configMetaList"
  shows "lo \<le> GetInt c key \<and> GetInt c key \<le> hi"
proof -
  have "config_ok (Number lo hi) (config_Get c key) = Inr ()"
    using assms
    by (auto simp: config_inv_def default_map_def valid_map_def list_all_iff config_Get_def dest!: bspec split: option.splits)
  then show ?thesis by (auto simp: config_ok_def GetInt_def split: option.splits if_splits)
qed

text \<open>Whatever requests, reloads and failures of the database a node goes through, every number it reads
  from the configuration lies within the bounds of its key: validation guards the only writer, and the
  defaults are valid.
\<close>

theorem config_numbers_stay_in_bounds:
  assumes "valid_map (cd_rows d)"
  shows "list_all (\<lambda>(key, ty, def). case ty of
       Number lo hi \<Rightarrow> lo \<le> GetInt (snd (run config_step (d, NewService V d) es)) key \<and>
                       GetInt (snd (run config_step (d, NewService V d) es)) key \<le> hi
     | _ \<Rightarrow> True) configMetaList"
proof -
  define s where "s = run config_step (d, NewService V d) es"
  have "config_inv s" unfolding s_def by (rule configuration.run_inv [OF config_inv_new [OF assms]])
  then show ?thesis
    unfolding s_def [symmetric] list_all_iff
    using GetInt_bounds [of "fst s" "snd s"] by (auto split: config_type.split)
qed

definition demo_cenv :: config_env where
  "demo_cenv = \<lparr>cv_load = None, cv_upsert = None, cv_history = None, cv_now = 0\<rparr>"

definition demo_cdb :: config_db where "demo_cdb = \<lparr>cd_rows = Map.empty, cd_history = []\<rparr>"

lemma demo_cdb_valid: "valid_map (cd_rows demo_cdb)"
  by (simp add: valid_map_def demo_cdb_def list_all_iff)

theorem config_numbers_stay_in_bounds_witness:
  "let c = snd (run config_step (demo_cdb, NewService demo_cenv demo_cdb)
       [(SetOp True False ''datasource.query_timeout'' ''9999'' 1, demo_cenv)])
   in 1 \<le> GetInt c ''datasource.query_timeout'' \<and> GetInt c ''datasource.query_timeout'' \<le> 3600"
  using config_numbers_stay_in_bounds [OF demo_cdb_valid, of demo_cenv
      "[(SetOp True False ''datasource.query_timeout'' ''9999'' 1, demo_cenv)]"]
  by (simp add: configMetaList_def Let_def)

text \<open>A change reaches the observers of one node only. \<open>Set\<close> on node A is read back there, stored, and
  queued for A's observers. Another node takes the value over with its next \<open>Reload\<close>, which queues
  nothing: what its observers made of the old value (limits of concurrency, life times of caches and
  pools, the limits of queries) stays in force there.
\<close>

theorem config_change_reaches_one_node:
  assumes "config_Set V True dropped key v u (d, a) = (Inr (), d1, a1)" and "\<not> cs_closed a"
    and "Reload W d1 b = (Inr (), b1)"
  shows "config_Get a1 key = v \<and> cs_events a1 = cs_events a @ [(key, v)] \<and>
     config_Get b1 key = v \<and> cs_events b1 = cs_events b"
  using assms
  by (auto simp: config_Set_def Reload_def send_event_def config_Get_def Let_def split: sum.splits option.splits)

theorem config_change_reaches_one_node_witness:
  "let a = NewService demo_cenv demo_cdb; b = NewService demo_cenv demo_cdb;
       s = snd (config_Set demo_cenv True False ''datasource.cache_ttl'' ''0'' 1 (demo_cdb, a));
       b1 = snd (Reload demo_cenv (fst s) b)
   in config_Get b1 ''datasource.cache_ttl'' = ''0'' \<and> cs_events b1 = [] \<and>
      cs_events (snd s) = [(''datasource.cache_ttl'', ''0'')]"
proof -
  define a where "a = NewService demo_cenv demo_cdb"
  have a: "\<not> cs_closed a" "cs_events a = []"
    by (simp_all add: a_def NewService_def Reload_def demo_cenv_def Let_def)
  have "atoi ''0'' = Some 0" by (simp add: atoi_def digit_def code_def)
  then have valid: "validateConfigValue ''datasource.cache_ttl'' ''0'' = Inr ()"
    by (simp add: validateConfigValue_def configMetaList_def config_ok_def)
  obtain d1 a1 where set: "config_Set demo_cenv True False ''datasource.cache_ttl'' ''0'' 1 (demo_cdb, a) = (Inr (), d1, a1)"
    by (simp add: config_Set_def valid demo_cenv_def Let_def)
  obtain b1 where "Reload demo_cenv d1 a = (Inr (), b1)" by (simp add: Reload_def demo_cenv_def)
  from config_change_reaches_one_node [OF set a(1) this] this a(2) set
  show ?thesis unfolding Let_def a_def [symmetric] by simp
qed

end
