(* ===== verification/Hive_Pool.thy ===== *)
theory Hive_Pool
  imports Prelude "HOL-Library.Multiset"
begin

text \<open>
  The connection pool of the Hive, Kyuubi and Spark drivers (datasource/driver/hive_pool.go). A connection
  is a number, drawn afresh when the client library returns one; \<open>hp_live\<close> is the set of those not yet
  closed. Every caller is a program counter in the multiset \<open>hp_callers\<close>, and each atomic action of a caller
  on the channel or on a counter is a rule, so that all interleavings are runs: \<open>acquire\<close> and \<open>tryAcquire\<close>,
  the use of a connection, \<open>close\<close> with its drain, and the clean-up loop. Two ghost fields count what
  the code does not: connections thrown away for their age by \<open>acquire\<close>, and connections opened without
  the compare-and-swap on the counter.
\<close>

section \<open>State\<close>

record pool_config =
  MaxOpen :: int
  MinIdle :: int
  MaxLifetime :: duration
  AcquireTimeout :: duration

definition DefaultPoolConfig :: pool_config where
  "DefaultPoolConfig = \<lparr>MaxOpen = 5, MinIdle = 2, MaxLifetime = 1800 * second, AcquireTimeout = 30 * second\<rparr>"

record pooled =
  pc_conn :: nat
  pc_database :: string

datatype caller =
    Wanting bool pool_config             \<comment> \<open>before the first receive; \<open>True\<close> for \<open>acquire\<close>, \<open>False\<close> for \<open>tryAcquire\<close>\<close>
  | Took bool pool_config pooled         \<comment> \<open>received, before the check of its age\<close>
  | Creating bool pool_config            \<comment> \<open>at the start of \<open>acquireOrCreate\<close> or \<open>tryCreateConn\<close>\<close>
  | Loaded bool pool_config int          \<comment> \<open>has read the open counter\<close>
  | Opening                              \<comment> \<open>in \<open>createConn\<close>, counted already\<close>
  | Awaiting pool_config                 \<comment> \<open>blocked for a connection to come back\<close>
  | Holding pooled
  | Draining                             \<comment> \<open>\<open>close\<close> after the flag\<close>
  | Collecting pool_config "pooled list" \<comment> \<open>\<open>doCleanup\<close>, taking connections out\<close>
  | Requeueing pool_config "pooled list" \<comment> \<open>\<open>doCleanup\<close>, putting them back\<close>
  | Filling nat                          \<comment> \<open>\<open>doCleanup\<close>, so many more to open\<close>

record hive_pool =
  hp_conns :: "pooled list"
  hp_cap :: nat
  hp_config :: pool_config
  hp_open :: int
  hp_in_use :: int
  hp_closed :: bool
  hp_birth :: "nat \<Rightarrow> instant option"
  hp_panicked :: bool
  hp_callers :: "caller multiset"
  hp_next :: nat
  hp_live :: "nat set"
  hp_expired :: nat
  hp_unchecked :: nat

section \<open>Operations\<close>

definition newHiveConnPool :: "pool_config \<Rightarrow> hive_pool" where
  "newHiveConnPool cfg =
     (let c1 = (if MaxOpen cfg \<le> 0 then cfg\<lparr>MaxOpen := 5\<rparr> else cfg);
          c2 = (if MinIdle c1 < 0 then c1\<lparr>MinIdle := 0\<rparr> else c1);
          c3 = (if MinIdle c2 > MaxOpen c2 then c2\<lparr>MinIdle := MaxOpen c2\<rparr> else c2);
          c4 = (if AcquireTimeout c3 \<le> 0 then c3\<lparr>AcquireTimeout := 30 * second\<rparr> else c3)
      in \<lparr>hp_conns = [], hp_cap = nat (MaxOpen c4), hp_config = c4, hp_open = 0, hp_in_use = 0, hp_closed = False,
          hp_birth = Map.empty, hp_panicked = False, hp_callers = {#}, hp_next = 0, hp_live = {},
          hp_expired = 0, hp_unchecked = 0\<rparr>)"

definition UpdateConfig :: "pool_config \<Rightarrow> hive_pool \<Rightarrow> hive_pool" where
  "UpdateConfig cfg p =
     (let c1 = (if MaxOpen cfg \<le> 0 then cfg\<lparr>MaxOpen := 5\<rparr> else cfg);
          c2 = (if MinIdle c1 < 0 then c1\<lparr>MinIdle := 0\<rparr> else c1);
          c3 = (if AcquireTimeout c2 \<le> 0 then c2\<lparr>AcquireTimeout := 30 * second\<rparr> else c2)
      in p\<lparr>hp_config := c3\<rparr>)"

definition GetConfig :: "hive_pool \<Rightarrow> pool_config" where "GetConfig p = hp_config p"

definition too_old :: "instant \<Rightarrow> pool_config \<Rightarrow> hive_pool \<Rightarrow> pooled \<Rightarrow> bool" where
  "too_old t cfg p pc \<longleftrightarrow> MaxLifetime cfg > 0 \<and>
     (case hp_birth p (pc_conn pc) of None \<Rightarrow> False | Some b \<Rightarrow> t - b > MaxLifetime cfg)"

text \<open>Closing a connection that is counted as open, as several places of the code do it.\<close>

definition drop_conn :: "pooled \<Rightarrow> hive_pool \<Rightarrow> hive_pool" where
  "drop_conn pc p = p\<lparr>hp_live := hp_live p - {pc_conn pc}, hp_birth := (hp_birth p)(pc_conn pc := None),
     hp_open := hp_open p - 1\<rparr>"

definition pool_discard :: "pooled \<Rightarrow> hive_pool \<Rightarrow> hive_pool" where
  "pool_discard pc p = (drop_conn pc p)\<lparr>hp_in_use := hp_in_use p - 1\<rparr>"

text \<open>The send of a connection into the channel, without waiting.\<close>

definition send_back :: "pooled \<Rightarrow> hive_pool \<Rightarrow> hive_pool" where
  "send_back pc p = (if length (hp_conns p) < hp_cap p then p\<lparr>hp_conns := hp_conns p @ [pc]\<rparr> else drop_conn pc p)"

definition pool_release :: "instant \<Rightarrow> pooled \<Rightarrow> hive_pool \<Rightarrow> hive_pool" where
  "pool_release t pc p =
     (let p1 = p\<lparr>hp_in_use := hp_in_use p - 1\<rparr>
      in if hp_closed p then drop_conn pc p1
         else if too_old t (hp_config p) p pc then drop_conn pc p1
         else send_back pc p1)"

text \<open>A connection comes from the client library: the number \<open>hp_next\<close>.\<close>

definition fresh_conn :: "instant \<Rightarrow> hive_pool \<Rightarrow> hive_pool" where
  "fresh_conn t p = p\<lparr>hp_next := hp_next p + 1, hp_live := insert (hp_next p) (hp_live p),
     hp_birth := (hp_birth p)(hp_next p \<mapsto> t)\<rparr>"

definition new_pooled :: "string \<Rightarrow> hive_pool \<Rightarrow> pooled" where
  "new_pooled db p = \<lparr>pc_conn = hp_next p, pc_database = db\<rparr>"

text \<open>\<open>put\<close> of a connection opened by \<open>Connect\<close>; a closed pool closes it at once.\<close>

definition pool_put :: "instant \<Rightarrow> string \<Rightarrow> hive_pool \<Rightarrow> hive_pool" where
  "pool_put t db p =
     (if hp_closed p then p\<lparr>hp_next := hp_next p + 1\<rparr>
      else send_back (new_pooled db p)
             ((fresh_conn t p)\<lparr>hp_open := hp_open p + 1, hp_unchecked := hp_unchecked p + 1\<rparr>))"

text \<open>\<open>close\<close> sets the flag and closes \<open>stopCleanup\<close>, which panics the second time; the drain follows.\<close>

definition pool_close :: "hive_pool \<Rightarrow> hive_pool" where
  "pool_close p =
     (if hp_closed p then p\<lparr>hp_panicked := True\<rparr>
      else p\<lparr>hp_closed := True, hp_callers := add_mset Draining (hp_callers p)\<rparr>)"

definition stats :: "hive_pool \<Rightarrow> int \<times> int \<times> int \<times> int" where
  "stats p =
     (let oc = hp_open p;
          iu = (if hp_in_use p < 0 then 0 else hp_in_use p);
          iu1 = (if iu > oc then oc else iu);
          ic = oc - iu1
      in (oc, if ic < 0 then 0 else ic, iu1, MaxOpen (hp_config p)))"

text \<open>\<open>Ping\<close> of the driver; the flag \<open>unhealthy\<close> is an argument.\<close>

definition Ping :: "bool \<Rightarrow> hive_pool \<Rightarrow> string option" where
  "Ping unhealthy p =
     (if unhealthy then Some ''hive connection marked as unhealthy''
      else case stats p of (oc, ic, iu, mx) \<Rightarrow>
        if iu \<ge> mx then Some ''hive connection pool fully occupied, all connections in use'' else None)"

text \<open>How many connections the clean-up wants to open.\<close>

definition missing_idle :: "pool_config \<Rightarrow> hive_pool \<Rightarrow> nat" where
  "missing_idle cfg p =
     (let idle = int (length (hp_conns p))
      in if idle < MinIdle cfg \<and> hp_open p < MaxOpen cfg
         then nat (min (MinIdle cfg - idle) (MaxOpen cfg - hp_open p)) else 0)"

text \<open>It opens one: the counter first, then the send; when the channel is full the age stays recorded.\<close>

definition fill_one_conn :: "instant \<Rightarrow> hive_pool \<Rightarrow> hive_pool" where
  "fill_one_conn t p =
     (let p1 = (fresh_conn t p)\<lparr>hp_open := hp_open p + 1, hp_unchecked := hp_unchecked p + 1\<rparr>
      in if length (hp_conns p) < hp_cap p then p1\<lparr>hp_conns := hp_conns p @ [new_pooled [] p]\<rparr>
         else p1\<lparr>hp_live := hp_live p, hp_open := hp_open p\<rparr>)"

text \<open>A caller moves on.\<close>

definition goes :: "caller \<Rightarrow> caller multiset \<Rightarrow> hive_pool \<Rightarrow> hive_pool" where
  "goes a bs p = p\<lparr>hp_callers := hp_callers p - {#a#} + bs\<rparr>"

section \<open>Steps\<close>

text \<open>\<open>acquire\<close>, \<open>tryAcquire\<close>, \<open>acquireOrCreate\<close> and \<open>tryCreateConn\<close>. Of \<open>discard\<close> the counters change together.\<close>

inductive acquire_step :: "hive_pool \<Rightarrow> hive_pool \<Rightarrow> bool" where
  call: "acquire_step p (p\<lparr>hp_callers := add_mset (Wanting b (hp_config p)) (hp_callers p)\<rparr>)"
| gone_already: "Wanting b cfg \<in># hp_callers p \<Longrightarrow> acquire_step p (goes (Wanting b cfg) {#} p)"
| take: "Wanting b cfg \<in># hp_callers p \<Longrightarrow> hp_conns p = pc # rest \<Longrightarrow>
     acquire_step p ((goes (Wanting b cfg) {#Took b cfg pc#} p)\<lparr>hp_conns := rest\<rparr>)"
| none_idle: "Wanting b cfg \<in># hp_callers p \<Longrightarrow> hp_conns p = [] \<Longrightarrow>
     acquire_step p (goes (Wanting b cfg) {#Creating b cfg#} p)"
| young: "Took b cfg pc \<in># hp_callers p \<Longrightarrow> \<not> too_old t cfg p pc \<Longrightarrow>
     acquire_step p ((goes (Took b cfg pc) {#Holding pc#} p)\<lparr>hp_in_use := hp_in_use p + 1\<rparr>)"
| old: "Took b cfg pc \<in># hp_callers p \<Longrightarrow> too_old t cfg p pc \<Longrightarrow>
     acquire_step p ((pool_discard pc (goes (Took b cfg pc) {#Creating b cfg#} p))\<lparr>hp_expired := hp_expired p + 1\<rparr>)"
| load: "Creating b cfg \<in># hp_callers p \<Longrightarrow>
     acquire_step p (goes (Creating b cfg) {#Loaded b cfg (hp_open p)#} p)"
| swap: "Loaded b cfg n \<in># hp_callers p \<Longrightarrow> n < MaxOpen cfg \<Longrightarrow> hp_open p = n \<Longrightarrow>
     acquire_step p ((goes (Loaded b cfg n) {#Opening#} p)\<lparr>hp_open := n + 1\<rparr>)"
| full: "Loaded b cfg n \<in># hp_callers p \<Longrightarrow> \<not> n < MaxOpen cfg \<or> hp_open p \<noteq> n \<Longrightarrow>
     acquire_step p (goes (Loaded b cfg n) (if b then {#Awaiting cfg#} else {#}) p)"
| opened: "Opening \<in># hp_callers p \<Longrightarrow>
     acquire_step p (goes Opening {#Holding (new_pooled [] p)#}
       ((fresh_conn t p)\<lparr>hp_in_use := hp_in_use p + 1\<rparr>))"
| not_opened: "Opening \<in># hp_callers p \<Longrightarrow>
     acquire_step p ((goes Opening {#} p)\<lparr>hp_open := hp_open p - 1\<rparr>)"
| came_back: "Awaiting cfg \<in># hp_callers p \<Longrightarrow> hp_conns p = pc # rest \<Longrightarrow>
     acquire_step p ((goes (Awaiting cfg) {#Took True cfg pc#} p)\<lparr>hp_conns := rest\<rparr>)"
| timeout: "Awaiting cfg \<in># hp_callers p \<Longrightarrow> acquire_step p (goes (Awaiting cfg) {#} p)"

text \<open>The holder of a connection switches its database, gives it back or throws it away.\<close>

inductive holder_step :: "hive_pool \<Rightarrow> hive_pool \<Rightarrow> bool" where
  use_db: "Holding pc \<in># hp_callers p \<Longrightarrow>
     holder_step p (goes (Holding pc) {#Holding (pc\<lparr>pc_database := db\<rparr>)#} p)"
| give_back: "Holding pc \<in># hp_callers p \<Longrightarrow> holder_step p (pool_release t pc (goes (Holding pc) {#} p))"
| throw_away: "Holding pc \<in># hp_callers p \<Longrightarrow> holder_step p (pool_discard pc (goes (Holding pc) {#} p))"

text \<open>\<open>doCleanup\<close>.\<close>

inductive cleanup_step :: "hive_pool \<Rightarrow> hive_pool \<Rightarrow> bool" where
  begin_cleanup: "\<not> hp_closed p \<Longrightarrow>
     cleanup_step p (p\<lparr>hp_callers := add_mset (Collecting (hp_config p) []) (hp_callers p)\<rparr>)"
| collect_old: "Collecting cfg acc \<in># hp_callers p \<Longrightarrow> hp_conns p = pc # rest \<Longrightarrow> too_old t cfg p pc \<Longrightarrow>
     cleanup_step p ((drop_conn pc p)\<lparr>hp_conns := rest\<rparr>)"
| collect_young: "Collecting cfg acc \<in># hp_callers p \<Longrightarrow> hp_conns p = pc # rest \<Longrightarrow> \<not> too_old t cfg p pc \<Longrightarrow>
     cleanup_step p ((goes (Collecting cfg acc) {#Collecting cfg (acc @ [pc])#} p)\<lparr>hp_conns := rest\<rparr>)"
| collected: "Collecting cfg acc \<in># hp_callers p \<Longrightarrow> hp_conns p = [] \<Longrightarrow>
     cleanup_step p (goes (Collecting cfg acc) {#Requeueing cfg acc#} p)"
| requeue: "Requeueing cfg (pc # acc) \<in># hp_callers p \<Longrightarrow>
     cleanup_step p (send_back pc (goes (Requeueing cfg (pc # acc)) {#Requeueing cfg acc#} p))"
| requeued: "Requeueing cfg [] \<in># hp_callers p \<Longrightarrow>
     cleanup_step p (goes (Requeueing cfg []) {#Filling (missing_idle cfg p)#} p)"
| fill: "Filling (Suc k) \<in># hp_callers p \<Longrightarrow>
     cleanup_step p (goes (Filling (Suc k)) {#Filling k#} (fill_one_conn t p))"
| not_filled: "Filling (Suc k) \<in># hp_callers p \<Longrightarrow> cleanup_step p (goes (Filling (Suc k)) {#Filling k#} p)"
| filled: "Filling 0 \<in># hp_callers p \<Longrightarrow> cleanup_step p (goes (Filling 0) {#} p)"

inductive hive_step :: "hive_pool \<Rightarrow> hive_pool \<Rightarrow> bool" where
  acquiring: "acquire_step p q \<Longrightarrow> hive_step p q"
| holding: "holder_step p q \<Longrightarrow> hive_step p q"
| cleaning: "cleanup_step p q \<Longrightarrow> hive_step p q"
| prewarm: "hive_step p (pool_put t db p)"
| configure: "hive_step p (UpdateConfig cfg p)"
| close_pool: "hive_step p (pool_close p)"
| drain: "Draining \<in># hp_callers p \<Longrightarrow> hp_conns p = pc # rest \<Longrightarrow> hive_step p ((drop_conn pc p)\<lparr>hp_conns := rest\<rparr>)"
| drained: "Draining \<in># hp_callers p \<Longrightarrow> hp_conns p = [] \<Longrightarrow> hive_step p (goes Draining {#} p)"

inductive_cases hive_stepE: "hive_step p q"
inductive_cases acquire_stepE: "acquire_step p q"
inductive_cases holder_stepE: "holder_step p q"
inductive_cases cleanup_stepE: "cleanup_step p q"

abbreviation hive_runs :: "pool_config \<Rightarrow> hive_pool \<Rightarrow> bool" where
  "hive_runs cfg \<equiv> reach (\<lambda>p. p = newHiveConnPool cfg) hive_step"

section \<open>Accounting\<close>

fun kept :: "caller \<Rightarrow> nat multiset" where
  "kept (Took b cfg pc) = {#pc_conn pc#}"
| "kept (Holding pc) = {#pc_conn pc#}"
| "kept (Collecting cfg acc) = image_mset pc_conn (mset acc)"
| "kept (Requeueing cfg acc) = image_mset pc_conn (mset acc)"
| "kept _ = {#}"

fun holds :: "caller \<Rightarrow> nat" where
  "holds (Holding pc) = 1"
| "holds _ = 0"

definition places :: "hive_pool \<Rightarrow> nat multiset" where
  "places p = image_mset pc_conn (mset (hp_conns p)) + \<Sum>\<^sub># (image_mset kept (hp_callers p))"

definition holders :: "hive_pool \<Rightarrow> nat" where
  "holders p = \<Sum>\<^sub># (image_mset holds (hp_callers p))"

definition hive_inv :: "hive_pool \<Rightarrow> bool" where
  "hive_inv p \<longleftrightarrow> finite (hp_live p) \<and> (\<forall>c\<in>hp_live p. c < hp_next p) \<and> places p = mset_set (hp_live p) \<and>
     hp_open p = int (size (places p)) + int (count (hp_callers p) Opening) \<and>
     hp_in_use p = int (holders p) - int (hp_expired p)"

lemma leaves_member: "add_mset c R = mset_set L \<Longrightarrow> finite L \<Longrightarrow> c \<in> L"
  by (metis finite_set_mset_mset_set union_single_eq_member)

lemma leaves:
  assumes "add_mset c R = mset_set L" and "finite L"
  shows "mset_set (L - {c}) = R"
proof -
  have "mset_set L = add_mset c (mset_set (L - {c}))"
    by (rule mset_set.remove [OF assms(2) leaves_member [OF assms]])
  then show ?thesis using assms(1) by simp
qed

lemma fresh_arrives:
  fixes n :: nat
  shows "finite L \<Longrightarrow> \<forall>c\<in>L. c < n \<Longrightarrow> mset_set (insert n L) = add_mset n (mset_set L)"
  by (rule mset_set.insert) auto

lemmas pool_ops = goes_def pool_discard_def drop_conn_def send_back_def pool_release_def fresh_conn_def new_pooled_def
  pool_put_def pool_close_def UpdateConfig_def fill_one_conn_def
lemmas pool_sums = hive_inv_def places_def holders_def

lemma drop_inv:
  assumes "hive_inv p" "places p = add_mset (pc_conn pc) R" "places q = R" "hp_live q = hp_live p - {pc_conn pc}"
    "hp_next q = hp_next p" "hp_open q = hp_open p - 1"
    "count (hp_callers q) Opening = count (hp_callers p) Opening"
    "hp_in_use q - int (holders q) + int (hp_expired q) = hp_in_use p - int (holders p) + int (hp_expired p)"
  shows "hive_inv q"
  using assms leaves [of "pc_conn pc" R "hp_live p"] by (auto simp: hive_inv_def)

lemma fresh_inv:
  assumes "hive_inv p" "places q = add_mset (hp_next p) (places p)" "hp_live q = insert (hp_next p) (hp_live p)"
    "hp_next q = hp_next p + 1" "hp_open q + int (count (hp_callers p) Opening) = hp_open p + int (count (hp_callers q) Opening) + 1"
    "hp_in_use q - int (holders q) + int (hp_expired q) = hp_in_use p - int (holders p) + int (hp_expired p)"
  shows "hive_inv q"
  using assms fresh_arrives [of "hp_live p" "hp_next p"] by (auto simp: hive_inv_def less_Suc_eq)

lemma move_inv:
  assumes "hive_inv p" "places q = places p" "hp_live q = hp_live p" "hp_next p \<le> hp_next q"
    "hp_open q + int (count (hp_callers p) Opening) = hp_open p + int (count (hp_callers q) Opening)"
    "hp_in_use q - int (holders q) + int (hp_expired q) = hp_in_use p - int (holders p) + int (hp_expired p)"
  shows "hive_inv q"
  using assms by (fastforce simp: hive_inv_def)

lemma new_pool_inv: "hive_inv (newHiveConnPool cfg)"
  by (simp add: newHiveConnPool_def pool_sums Let_def)

lemma acquire_inv: "acquire_step p q \<Longrightarrow> hive_inv p \<Longrightarrow> hive_inv q"
proof (induction rule: acquire_step.induct)
  case (old b cfg pc p t)
  then obtain N where N: "hp_callers p = add_mset (Took b cfg pc) N" by (auto dest: multi_member_split)
  show ?case
    by (rule drop_inv [OF old(3), where pc = pc and R = "image_mset pc_conn (mset (hp_conns p)) + \<Sum>\<^sub># (image_mset kept N)"])
       (auto simp: N pool_ops places_def holders_def)
next
  case (opened p t)
  then obtain N where N: "hp_callers p = add_mset Opening N" by (auto dest: multi_member_split)
  show ?case
    by (rule fresh_inv [OF opened(2)]) (auto simp: N pool_ops places_def holders_def)
qed ((erule move_inv; force dest!: multi_member_split simp: pool_ops places_def holders_def)+)

lemmas pool_views = pool_ops places_def holders_def

lemma release_cases:
  "pool_release t pc p = p\<lparr>hp_in_use := hp_in_use p - 1, hp_conns := hp_conns p @ [pc]\<rparr> \<or>
   pool_release t pc p = drop_conn pc (p\<lparr>hp_in_use := hp_in_use p - 1\<rparr>)"
  by (auto simp: pool_release_def send_back_def Let_def)

lemma holder_inv: "holder_step p q \<Longrightarrow> hive_inv p \<Longrightarrow> hive_inv q"
proof (induction rule: holder_step.induct)
  case (use_db pc p db)
  then show ?case by (elim move_inv; force dest!: multi_member_split simp: pool_views)
next
  case (give_back pc p t)
  then obtain N where N: "hp_callers p = add_mset (Holding pc) N" by (auto dest: multi_member_split)
  show ?case
    using release_cases [of t pc "goes (Holding pc) {#} p"]
  proof
    assume kept_it: "pool_release t pc (goes (Holding pc) {#} p) = (goes (Holding pc) {#} p)
      \<lparr>hp_in_use := hp_in_use (goes (Holding pc) {#} p) - 1, hp_conns := hp_conns (goes (Holding pc) {#} p) @ [pc]\<rparr>"
    show ?thesis unfolding kept_it by (rule move_inv [OF give_back(2)]) (auto simp: N pool_views)
  next
    assume closed: "pool_release t pc (goes (Holding pc) {#} p) =
      drop_conn pc ((goes (Holding pc) {#} p)\<lparr>hp_in_use := hp_in_use (goes (Holding pc) {#} p) - 1\<rparr>)"
    show ?thesis
      unfolding closed
      by (rule drop_inv [OF give_back(2), where pc = pc and R = "image_mset pc_conn (mset (hp_conns p)) + \<Sum>\<^sub># (image_mset kept N)"])
         (auto simp: N pool_views)
  qed
next
  case (throw_away pc p)
  then obtain N where N: "hp_callers p = add_mset (Holding pc) N" by (auto dest: multi_member_split)
  show ?case
    by (rule drop_inv [OF throw_away(2), where pc = pc and R = "image_mset pc_conn (mset (hp_conns p)) + \<Sum>\<^sub># (image_mset kept N)"])
       (auto simp: N pool_views)
qed

text \<open>A connection taken out of the channel and closed.\<close>

lemma drop_idle_inv:
  assumes "hive_inv p" "hp_conns p = pc # rest"
  shows "hive_inv ((drop_conn pc p)\<lparr>hp_conns := rest\<rparr>)"
  by (rule drop_inv [OF assms(1), where pc = pc and R = "image_mset pc_conn (mset rest) + \<Sum>\<^sub># (image_mset kept (hp_callers p))"])
     (auto simp: assms(2) pool_views)

lemma next_not_live: "hive_inv p \<Longrightarrow> hp_next p \<notin> hp_live p"
  by (auto simp: hive_inv_def)

lemma cleanup_inv: "cleanup_step p q \<Longrightarrow> hive_inv p \<Longrightarrow> hive_inv q"
proof (induction rule: cleanup_step.induct)
  case (collect_old cfg acc p pc rest t)
  then show ?case by (intro drop_idle_inv)
next
  case (requeue cfg pc acc p)
  then obtain N where N: "hp_callers p = add_mset (Requeueing cfg (pc # acc)) N" by (auto dest: multi_member_split)
  show ?case
  proof (cases "length (hp_conns p) < hp_cap p")
    case True
    then show ?thesis by (intro move_inv [OF requeue(2)]) (auto simp: N pool_views)
  next
    case False
    then show ?thesis
      by (intro drop_inv [OF requeue(2), where pc = pc and
            R = "image_mset pc_conn (mset (hp_conns p)) + image_mset pc_conn (mset acc) + \<Sum>\<^sub># (image_mset kept N)"])
         (auto simp: N pool_views)
  qed
next
  case (fill k p t)
  then obtain N where N: "hp_callers p = add_mset (Filling (Suc k)) N" by (auto dest: multi_member_split)
  show ?case
  proof (cases "length (hp_conns p) < hp_cap p")
    case True
    then show ?thesis by (intro fresh_inv [OF fill(2)]) (auto simp: N pool_views Let_def)
  next
    case False
    then show ?thesis by (intro move_inv [OF fill(2)]) (auto simp: N pool_views Let_def)
  qed
qed ((erule move_inv; force dest!: multi_member_split simp: pool_views)+)

lemma put_inv:
  assumes "hive_inv p"
  shows "hive_inv (pool_put t db p)"
proof (cases "hp_closed p \<or> \<not> length (hp_conns p) < hp_cap p")
  case True
  then show ?thesis
    using next_not_live [OF assms] by (intro move_inv [OF assms]) (auto simp: pool_views)
next
  case False
  then show ?thesis by (intro fresh_inv [OF assms]) (auto simp: pool_views)
qed

lemma hive_step_inv: "hive_step p q \<Longrightarrow> hive_inv p \<Longrightarrow> hive_inv q"
proof (induction rule: hive_step.induct)
  case (configure p cfg)
  then show ?case by (elim move_inv) (auto simp: pool_views Let_def)
next
  case (close_pool p)
  then show ?case by (elim move_inv) (auto simp: pool_views)
next
  case (drained p)
  then show ?case by (elim move_inv; force dest!: multi_member_split simp: pool_views)
qed (auto intro: acquire_inv holder_inv cleanup_inv put_inv drop_idle_inv)

interpretation hive: transition_invariant "\<lambda>p. p = newHiveConnPool cfg" hive_step hive_inv
  by unfold_locales (auto simp: new_pool_inv intro: hive_step_inv)

section \<open>The limit\<close>

fun config_of :: "caller \<Rightarrow> pool_config option" where
  "config_of (Wanting b cfg) = Some cfg"
| "config_of (Took b cfg pc) = Some cfg"
| "config_of (Creating b cfg) = Some cfg"
| "config_of (Loaded b cfg n) = Some cfg"
| "config_of (Awaiting cfg) = Some cfg"
| "config_of (Collecting cfg acc) = Some cfg"
| "config_of (Requeueing cfg acc) = Some cfg"
| "config_of _ = None"

definition small :: "int \<Rightarrow> caller \<Rightarrow> bool" where
  "small N a \<longleftrightarrow> (case config_of a of None \<Rightarrow> True | Some cfg \<Rightarrow> MaxOpen cfg \<le> N)"

lemma small_simps [simp]:
  "small N (Wanting b cfg) = (MaxOpen cfg \<le> N)" "small N (Took b cfg pc) = (MaxOpen cfg \<le> N)"
  "small N (Creating b cfg) = (MaxOpen cfg \<le> N)" "small N (Loaded b cfg n) = (MaxOpen cfg \<le> N)" "small N Opening"
  "small N (Awaiting cfg) = (MaxOpen cfg \<le> N)" "small N (Holding pc)" "small N Draining"
  "small N (Collecting cfg acc) = (MaxOpen cfg \<le> N)" "small N (Requeueing cfg acc) = (MaxOpen cfg \<le> N)"
  "small N (Filling k)"
  by (simp_all add: small_def)

definition within :: "int \<Rightarrow> hive_pool \<Rightarrow> bool" where
  "within N p \<longleftrightarrow> 0 < MaxOpen (hp_config p) \<and> MaxOpen (hp_config p) \<le> N \<and> (\<forall>a\<in>#hp_callers p. small N a) \<and>
     hp_open p \<le> N + int (hp_unchecked p)"

text \<open>A run in which no limit above \<open>N\<close> is configured.\<close>

definition limited_step :: "int \<Rightarrow> hive_pool \<Rightarrow> hive_pool \<Rightarrow> bool" where
  "limited_step N p q \<longleftrightarrow> hive_step p q \<and> MaxOpen (hp_config q) \<le> N"

lemma within_acquire: "acquire_step p q \<Longrightarrow> within N p \<Longrightarrow> within N q"
  by (induction rule: acquire_step.induct)
     (auto dest!: multi_member_split simp: within_def pool_ops split: if_splits)

lemma within_holder: "holder_step p q \<Longrightarrow> within N p \<Longrightarrow> within N q"
  by (induction rule: holder_step.induct)
     (auto dest!: multi_member_split simp: within_def pool_ops Let_def)

lemma within_cleanup: "cleanup_step p q \<Longrightarrow> within N p \<Longrightarrow> within N q"
  by (induction rule: cleanup_step.induct)
     (auto dest!: multi_member_split simp: within_def pool_ops Let_def)

lemma max_open_set:
  "MaxOpen (hp_config (newHiveConnPool cfg)) = (if MaxOpen cfg \<le> 0 then 5 else MaxOpen cfg)"
  "MaxOpen (hp_config (UpdateConfig cfg p)) = (if MaxOpen cfg \<le> 0 then 5 else MaxOpen cfg)"
  by (simp_all add: newHiveConnPool_def UpdateConfig_def Let_def if_distrib [where f = MaxOpen])

lemma new_pool_fields [simp]:
  "hp_callers (newHiveConnPool cfg) = {#}" "hp_open (newHiveConnPool cfg) = 0" "hp_unchecked (newHiveConnPool cfg) = 0"
  by (simp_all add: newHiveConnPool_def Let_def)

lemma UpdateConfig_fields [simp]:
  "hp_callers (UpdateConfig cfg p) = hp_callers p" "hp_open (UpdateConfig cfg p) = hp_open p"
  "hp_unchecked (UpdateConfig cfg p) = hp_unchecked p"
  by (simp_all add: UpdateConfig_def Let_def)

lemma within_step: "hive_step p q \<Longrightarrow> MaxOpen (hp_config q) \<le> N \<Longrightarrow> within N p \<Longrightarrow> within N q"
proof (induction rule: hive_step.induct)
  case (configure p cfg)
  then show ?case
    by (auto simp: within_def max_open_set split: if_splits)
next
  case (prewarm p t db)
  then show ?case by (auto simp: within_def pool_ops)
next
  case (close_pool p)
  then show ?case by (auto simp: within_def pool_ops)
next
  case (drain p pc rest)
  then show ?case by (auto simp: within_def pool_ops)
next
  case (drained p)
  then show ?case by (auto dest!: multi_member_split simp: within_def pool_ops)
qed (auto intro: within_acquire within_holder within_cleanup)

lemma new_pool_within: "MaxOpen (hp_config (newHiveConnPool cfg)) \<le> N \<Longrightarrow> within N (newHiveConnPool cfg)"
  by (auto simp: within_def max_open_set split: if_splits)

interpretation limited: transition_invariant
  "\<lambda>p. p = newHiveConnPool cfg \<and> MaxOpen (hp_config p) \<le> N" "limited_step N" "within N"
  by unfold_locales (auto simp: limited_step_def new_pool_within intro: within_step)

lemma acquire_config: "acquire_step p q \<Longrightarrow> hp_config q = hp_config p"
  by (induction rule: acquire_step.induct) (simp_all add: pool_ops)

lemma holder_config: "holder_step p q \<Longrightarrow> hp_config q = hp_config p"
  by (induction rule: holder_step.induct) (simp_all add: pool_ops Let_def)

lemma cleanup_config: "cleanup_step p q \<Longrightarrow> hp_config q = hp_config p"
  by (induction rule: cleanup_step.induct) (simp_all add: pool_ops Let_def)

lemma config_step: "hive_step p q \<Longrightarrow> 0 < MaxOpen (hp_config p) \<Longrightarrow> 0 < MaxOpen (hp_config q)"
proof (induction rule: hive_step.induct)
  case (configure p cfg)
  then show ?case by (simp add: max_open_set)
next
  case (prewarm p t db)
  then show ?case by (simp add: pool_ops)
next
  case (close_pool p)
  then show ?case by (simp add: pool_ops)
qed (auto simp: acquire_config holder_config cleanup_config drop_conn_def goes_def)

interpretation positive: transition_invariant "\<lambda>p. p = newHiveConnPool cfg" hive_step "\<lambda>p. 0 < MaxOpen (hp_config p)"
  by unfold_locales (auto simp: max_open_set intro: config_step)

section \<open>Properties\<close>

text \<open>C31: No connection of the pool is lost, closed twice or handed to two callers, in every interleaving of
  callers, clean-up, reconfiguration and closing: each one that is open is in exactly one place, the
  channel or the hands of one caller. The open counter counts them and those that are being opened. The
  counter of connections in use is short by one for each connection that \<open>acquire\<close> threw away for its
  age. Nothing is opened beyond the limit but what prewarming and the clean-up open.
\<close>

theorem hive_pool_accounts_for_connections:
  assumes "reach (\<lambda>p. p = newHiveConnPool cfg \<and> MaxOpen (hp_config p) \<le> N) (limited_step N) p"
  shows "places p = mset_set (hp_live p) \<and>
    hp_open p = int (card (hp_live p)) + int (count (hp_callers p) Opening) \<and>
    hp_in_use p = int (holders p) - int (hp_expired p) \<and>
    hp_open p \<le> N + int (hp_unchecked p)"
proof -
  have "hive_inv p"
    using assms
    by (induction rule: reach.induct) (auto simp: new_pool_inv limited_step_def intro: hive_step_inv)
  moreover have "within N p" by (rule limited.reach_inv [OF assms])
  ultimately show ?thesis by (simp add: hive_inv_def within_def)
qed

lemma holders_le_places: "holders p \<le> size (places p)"
proof -
  have "\<Sum>\<^sub># (image_mset holds M) \<le> size (\<Sum>\<^sub># (image_mset kept M))" for M
  proof (induction M)
    case (add a M)
    then show ?case by (cases a) auto
  qed simp
  then show ?thesis by (simp add: holders_def places_def trans_le_add2)
qed

text \<open>The health check of the driver reports a full pool exactly when the connections in use reach the
  limit after one has been taken off for each connection that \<open>acquire\<close> has thrown away for its age: the
  count that is meant as long as there was none, and too few for good from the first one on.
\<close>

theorem ping_discounts_expired_connections:
  assumes "hive_runs cfg p"
  shows "(Ping False p = Some ''hive connection pool fully occupied, all connections in use'') =
     (MaxOpen (hp_config p) \<le> int (holders p) - int (hp_expired p))"
proof -
  have "0 < MaxOpen (hp_config p)" by (rule positive.reach_inv [OF assms])
  moreover have "hp_in_use p = int (holders p) - int (hp_expired p)" "hp_in_use p \<le> hp_open p"
    using hive.reach_inv [OF assms] holders_le_places [of p] by (simp_all add: hive_inv_def)
  ultimately show ?thesis by (auto simp: Ping_def stats_def Let_def)
qed

section \<open>A run\<close>

lemma limited_run: "reach (\<lambda>p. p = newHiveConnPool cfg \<and> MaxOpen (hp_config p) \<le> N) (limited_step N) p \<Longrightarrow> hive_runs cfg p"
  by (induction rule: reach.induct) (auto simp: limited_step_def intro: reach.intros)

text \<open>A pool for one connection: it is prewarmed, found too old by a caller, and replaced.\<close>

definition one_conn :: pool_config where
  "one_conn = \<lparr>MaxOpen = 1, MinIdle = 0, MaxLifetime = 1000, AcquireTimeout = 1\<rparr>"

definition demo_pool :: "pooled list \<Rightarrow> int \<Rightarrow> int \<Rightarrow> (nat \<Rightarrow> instant option) \<Rightarrow> caller multiset \<Rightarrow> nat \<Rightarrow> nat set \<Rightarrow> nat \<Rightarrow> hive_pool" where
  "demo_pool cs opened in_use birth callers n live expired =
     \<lparr>hp_conns = cs, hp_cap = 1, hp_config = one_conn, hp_open = opened, hp_in_use = in_use, hp_closed = False,
      hp_birth = birth, hp_panicked = False, hp_callers = callers, hp_next = n, hp_live = live,
      hp_expired = expired, hp_unchecked = 1\<rparr>"

definition idle_conn :: pooled where "idle_conn = \<lparr>pc_conn = 0, pc_database = []\<rparr>"
definition next_conn :: pooled where "next_conn = \<lparr>pc_conn = 1, pc_database = []\<rparr>"

definition replaced :: hive_pool where
  "replaced = demo_pool [] 1 0 [1 \<mapsto> 2000] {#Holding next_conn#} 2 {1} 1"

lemmas demo_steps = demo_pool_def pool_ops one_conn_def idle_conn_def next_conn_def too_old_def

lemma demo_replaced: "reach (\<lambda>p. p = newHiveConnPool one_conn \<and> MaxOpen (hp_config p) \<le> 1) (limited_step 1) replaced"
proof -
  let ?R = "reach (\<lambda>p. p = newHiveConnPool one_conn \<and> MaxOpen (hp_config p) \<le> 1) (limited_step 1)"
  have step: "?R q" if "?R p" "acquire_step p q" "hp_config q = one_conn" for p q
    by (rule reach_step [OF that(1)]) (simp add: limited_step_def acquiring [OF that(2)] that(3) one_conn_def)
  have "hive_step (newHiveConnPool one_conn) (demo_pool [idle_conn] 1 0 [0 \<mapsto> 0] {#} 1 {0} 0)"
    using prewarm [of "newHiveConnPool one_conn" 0 "[]"]
    by (simp add: demo_steps newHiveConnPool_def)
  then have "?R (demo_pool [idle_conn] 1 0 [0 \<mapsto> 0] {#} 1 {0} 0)"
    by (intro reach_one) (auto simp: limited_step_def max_open_set demo_pool_def one_conn_def)
  then have "?R (demo_pool [idle_conn] 1 0 [0 \<mapsto> 0] {#Wanting True one_conn#} 1 {0} 0)"
    by (rule step) (use call [of "demo_pool [idle_conn] 1 0 [0 \<mapsto> 0] {#} 1 {0} 0" True] in \<open>simp_all add: demo_pool_def\<close>)
  then have "?R (demo_pool [] 1 0 [0 \<mapsto> 0] {#Took True one_conn idle_conn#} 1 {0} 0)"
    by (rule step) (use take [of True one_conn "demo_pool [idle_conn] 1 0 [0 \<mapsto> 0] {#Wanting True one_conn#} 1 {0} 0"]
        in \<open>simp_all add: demo_pool_def goes_def\<close>)
  then have "?R (demo_pool [] 0 (-1) Map.empty {#Creating True one_conn#} 1 {} 1)"
    by (rule step) (use old [of True one_conn idle_conn "demo_pool [] 1 0 [0 \<mapsto> 0] {#Took True one_conn idle_conn#} 1 {0} 0" 2000]
        in \<open>simp_all add: demo_steps\<close>)
  then have "?R (demo_pool [] 0 (-1) Map.empty {#Loaded True one_conn 0#} 1 {} 1)"
    by (rule step) (use load [of True one_conn "demo_pool [] 0 (-1) Map.empty {#Creating True one_conn#} 1 {} 1"]
        in \<open>simp_all add: demo_pool_def goes_def\<close>)
  then have "?R (demo_pool [] 1 (-1) Map.empty {#Opening#} 1 {} 1)"
    by (rule step) (use swap [of True one_conn 0 "demo_pool [] 0 (-1) Map.empty {#Loaded True one_conn 0#} 1 {} 1"]
        in \<open>simp_all add: demo_pool_def goes_def, simp add: one_conn_def\<close>)
  then show ?thesis
    unfolding replaced_def
    by (rule step) (use opened [of "demo_pool [] 1 (-1) Map.empty {#Opening#} 1 {} 1" 2000]
        in \<open>simp_all add: demo_pool_def goes_def fresh_conn_def new_pooled_def next_conn_def numeral_2_eq_2\<close>)
qed

theorem hive_pool_accounts_for_connections_witness:
  "places replaced = {#1#} \<and> hp_open replaced = 1 \<and> hp_in_use replaced = int (holders replaced) - 1 \<and> hp_open replaced \<le> 1 + 1"
  using hive_pool_accounts_for_connections [OF demo_replaced] by (simp add: replaced_def demo_pool_def)

theorem ping_discounts_expired_connections_witness:
  "Ping False replaced = None \<and> holders replaced = 1 \<and> MaxOpen (hp_config replaced) = 1"
proof -
  have "holders replaced = 1" "hp_expired replaced = 1" "MaxOpen (hp_config replaced) = 1"
    by (simp_all add: replaced_def demo_pool_def holders_def one_conn_def)
  then show ?thesis
    using ping_discounts_expired_connections [OF limited_run [OF demo_replaced]]
    by (auto simp: Ping_def Let_def split: prod.splits if_splits)
qed

text \<open>A clean-up that has taken connections out when the pool is closed puts them back behind the drain:
  they stay open although nobody will ever use or close them.\<close>

definition late_pool :: "pooled list \<Rightarrow> caller multiset \<Rightarrow> hive_pool" where
  "late_pool cs callers = (demo_pool cs 1 0 [0 \<mapsto> 0] callers 1 {0} 0)\<lparr>hp_closed := True\<rparr>"

theorem cleanup_outlives_close:
  "\<exists>p. hive_runs one_conn p \<and> hp_closed p \<and> hp_callers p = {#} \<and> hp_live p \<noteq> {}"
proof -
  let ?D = "\<lambda>cs as. demo_pool cs 1 0 [0 \<mapsto> 0] as 1 {0} 0"
  have cleans: "hive_runs one_conn q" if "hive_runs one_conn p" "cleanup_step p q" for p q
    by (rule reach_step [OF that(1) cleaning [OF that(2)]])
  have "hive_step (newHiveConnPool one_conn) (?D [idle_conn] {#})"
    using prewarm [of "newHiveConnPool one_conn" 0 "[]"] by (simp add: demo_steps newHiveConnPool_def)
  then have "hive_runs one_conn (?D [idle_conn] {#})" by (intro reach_one) simp_all
  then have "hive_runs one_conn (?D [idle_conn] {#Collecting one_conn []#})"
    by (rule cleans) (use begin_cleanup [of "?D [idle_conn] {#}"] in \<open>simp add: demo_pool_def\<close>)
  then have "hive_runs one_conn (?D [] {#Collecting one_conn [idle_conn]#})"
    by (rule cleans) (use collect_young [of one_conn "[]" "?D [idle_conn] {#Collecting one_conn []#}" idle_conn "[]" 0]
        in \<open>simp add: demo_pool_def goes_def, simp add: too_old_def idle_conn_def one_conn_def\<close>)
  then have "hive_runs one_conn (late_pool [] {#Draining, Collecting one_conn [idle_conn]#})"
    by (rule reach_step) (use close_pool [of "?D [] {#Collecting one_conn [idle_conn]#}"]
        in \<open>simp add: demo_pool_def late_pool_def pool_close_def\<close>)
  then have "hive_runs one_conn (late_pool [] {#Collecting one_conn [idle_conn]#})"
    by (rule reach_step) (use drained [of "late_pool [] {#Draining, Collecting one_conn [idle_conn]#}"]
        in \<open>simp add: demo_pool_def late_pool_def goes_def\<close>)
  then have "hive_runs one_conn (late_pool [] {#Requeueing one_conn [idle_conn]#})"
    by (rule cleans) (use collected [of one_conn "[idle_conn]" "late_pool [] {#Collecting one_conn [idle_conn]#}"]
        in \<open>simp add: demo_pool_def late_pool_def goes_def\<close>)
  then have "hive_runs one_conn (late_pool [idle_conn] {#Requeueing one_conn []#})"
    by (rule cleans) (use requeue [of one_conn idle_conn "[]" "late_pool [] {#Requeueing one_conn [idle_conn]#}"]
        in \<open>simp add: demo_pool_def late_pool_def goes_def send_back_def\<close>)
  then have "hive_runs one_conn (late_pool [idle_conn] {#Filling 0#})"
    by (rule cleans) (use requeued [of one_conn "late_pool [idle_conn] {#Requeueing one_conn []#}"]
        in \<open>simp add: demo_pool_def late_pool_def goes_def missing_idle_def one_conn_def\<close>)
  then have "hive_runs one_conn (late_pool [idle_conn] {#})"
    by (rule cleans) (use filled [of "late_pool [idle_conn] {#Filling 0#}"]
        in \<open>simp add: demo_pool_def late_pool_def goes_def\<close>)
  then show ?thesis by (auto simp: late_pool_def demo_pool_def)
qed

end
