(* ===== verification/Connections.thy ===== *)
theory Connections
  imports Circuit_Breaker Hive_Pool Datasource_Handlers
begin

text \<open>
  The manager of the connections to data sources (datasource/manager.go) and the encryption of their
  passwords with rotating keys (datasource/crypto.go). A driver is a cell of a heap, because several
  callers can hold one; its client library is the environment of a call: whether a ping, a test or a
  connection succeeds. \<open>GetDriver\<close> is cut into the actions between which other goroutines can run, so
  that the same definitions give the sequential call and the step relation of all interleavings.
  The JSON of the extra settings is left out.
\<close>

section \<open>Keys\<close>

record aead =
  seal :: "string \<Rightarrow> nat \<Rightarrow> string \<Rightarrow> string"       \<comment> \<open>AES-GCM under key and nonce, in base64\<close>
  unseal :: "string \<Rightarrow> string \<Rightarrow> string option"

record key_ring =
  currentKey :: string
  oldKeys :: "string list"

definition NewCrypto :: "string \<Rightarrow> key_ring result" where
  "NewCrypto key =
     (if length key \<noteq> 32 then Inl ''encryption key must be 32 bytes''
      else Inr \<lparr>currentKey = key, oldKeys = []\<rparr>)"

definition ring_Encrypt :: "aead \<Rightarrow> key_ring \<Rightarrow> nat \<Rightarrow> string \<Rightarrow> string result" where
  "ring_Encrypt A c nonce plain = Inr (seal A (currentKey c) nonce plain)"

fun decrypt_any :: "aead \<Rightarrow> string list \<Rightarrow> string \<Rightarrow> string result" where
  "decrypt_any A [] x = Inl ''all keys failed to decrypt''"
| "decrypt_any A (k # ks) x = (case unseal A k x of Some p \<Rightarrow> Inr p | None \<Rightarrow> decrypt_any A ks x)"

definition ring_Decrypt :: "aead \<Rightarrow> key_ring \<Rightarrow> string \<Rightarrow> string result" where
  "ring_Decrypt A c x = decrypt_any A (currentKey c # oldKeys c) x"

definition RotateKey :: "string \<Rightarrow> key_ring \<Rightarrow> unit result \<times> key_ring" where
  "RotateKey key c =
     (if length key \<noteq> 32 then (Inl ''encryption key must be 32 bytes'', c)
      else (Inr (), \<lparr>currentKey = key, oldKeys = currentKey c # oldKeys c\<rparr>))"

text \<open>What the services of \<open>Datasources\<close> take as their encryption.\<close>

definition ring_crypto :: "aead \<Rightarrow> key_ring \<Rightarrow> crypto" where
  "ring_crypto A c = \<lparr>Encrypt = ring_Encrypt A c, Decrypt = ring_Decrypt A c\<rparr>"

definition aead_laws :: "aead \<Rightarrow> bool" where
  "aead_laws A \<longleftrightarrow>
     (\<forall>k n p. seal A k n p \<noteq> [] \<and> unseal A k (seal A k n p) = Some p) \<and>
     (\<forall>k k' n p. k \<noteq> k' \<longrightarrow> unseal A k' (seal A k n p) = None)"

lemma aead_lawsD:
  assumes "aead_laws A"
  shows "seal A k n p \<noteq> []" "unseal A k (seal A k n p) = Some p" "k \<noteq> k' \<Longrightarrow> unseal A k' (seal A k n p) = None"
  using assms unfolding aead_laws_def by blast+

lemma decrypt_any_known: "aead_laws A \<Longrightarrow> k \<in> set ks \<Longrightarrow> decrypt_any A ks (seal A k n p) = Inr p"
proof (induction ks)
  case (Cons a ks)
  then show ?case by (cases "a = k") (auto simp: aead_lawsD split: option.split)
qed simp

lemma rotated_keys: "insert (currentKey c) (set (oldKeys c)) \<subseteq>
    insert (currentKey (fold (\<lambda>k c. snd (RotateKey k c)) ks c)) (set (oldKeys (fold (\<lambda>k c. snd (RotateKey k c)) ks c)))"
proof (induction ks arbitrary: c)
  case (Cons k ks)
  have "insert (currentKey c) (set (oldKeys c)) \<subseteq> insert (currentKey (snd (RotateKey k c))) (set (oldKeys (snd (RotateKey k c))))"
    by (auto simp: RotateKey_def)
  also note Cons.IH [of "snd (RotateKey k c)"]
  finally show ?case by simp
qed simp

text \<open>However often the key has been rotated since, and whatever rotations were refused, a password that
  was encrypted once is decrypted to itself; and the rotating encryption meets what the data sources
  ask of theirs.
\<close>

theorem rotation_keeps_passwords:
  assumes "aead_laws A" and "ring_Encrypt A c n p = Inr x"
  shows "ring_Decrypt A (fold (\<lambda>k c. snd (RotateKey k c)) ks c) x = Inr p \<and> crypto_laws (ring_crypto A c)"
proof -
  have "x = seal A (currentKey c) n p" using assms(2) by (simp add: ring_Encrypt_def)
  then have "ring_Decrypt A (fold (\<lambda>k c. snd (RotateKey k c)) ks c) x = Inr p"
    unfolding ring_Decrypt_def using rotated_keys [of c ks] by (simp only:) (rule decrypt_any_known [OF assms(1)], auto)
  moreover have "crypto_laws (ring_crypto A c)"
    by (auto simp: crypto_laws_def ring_crypto_def ring_Encrypt_def ring_Decrypt_def aead_lawsD [OF assms(1)])
  ultimately show ?thesis ..
qed

section \<open>The manager\<close>

text \<open>Which drivers have the optional interfaces.\<close>

definition driver_types :: "string list" where
  "driver_types = [''mysql'', ''sqlite'', ''hive'', ''kyuubi'', ''spark'', ''trino'', ''starrocks'', ''doris'', ''rqlite'', ''redis'']"

definition IsSupported :: "string \<Rightarrow> bool" where "IsSupported ty \<longleftrightarrow> ty \<in> set driver_types"

definition can_be_marked :: "string \<Rightarrow> bool" where "can_be_marked ty \<longleftrightarrow> ty \<in> {''hive'', ''kyuubi'', ''spark''}"

definition can_be_tuned :: "string \<Rightarrow> bool" where
  "can_be_tuned ty \<longleftrightarrow> ty \<in> set driver_types - {''rqlite'', ''redis''}"

record driver_cell =
  dr_source :: int
  dr_type :: string
  dr_password :: string
  dr_open :: bool
  dr_sick :: bool
  dr_config :: "pool_config option"

record conn_env =
  ce_now :: instant
  ce_ds :: ds_env
  ce_settings :: "string \<Rightarrow> int"          \<comment> \<open>\<open>GetInt\<close> of the system configuration\<close>
  ce_connect :: "string option"            \<comment> \<open>the error of \<open>Connect\<close>\<close>
  ce_ping :: "string option"
  ce_test :: "string option"
  ce_full :: bool                          \<comment> \<open>the pool reports as many connections in use as allowed\<close>

text \<open>Drivers and breakers are cells, so that a call keeps the ones it has looked up. Two fields are ghosts:
  whether a driver has been closed twice, which panics in the pool of a Hive driver, and the data
  sources whose connection attempt panicked.\<close>

record manager =
  m_pools :: "int \<Rightarrow> nat option"
  m_last_check :: "int \<Rightarrow> instant option"
  m_connecting :: "int set"
  m_breakers :: "int \<Rightarrow> nat option"
  m_closed :: bool
  m_drivers :: "driver_cell list"
  m_cbs :: "circuit_breaker list"
  m_closed_twice :: bool
  m_stuck :: "int set"

definition NewManager :: manager where
  "NewManager = \<lparr>m_pools = Map.empty, m_last_check = Map.empty, m_connecting = {}, m_breakers = Map.empty,
     m_closed = False, m_drivers = [], m_cbs = [], m_closed_twice = False, m_stuck = {}\<rparr>"

definition pool_config_from_settings :: "(string \<Rightarrow> int) \<Rightarrow> pool_config" where
  "pool_config_from_settings s =
     (let c = DefaultPoolConfig;
          c1 = (if s ''datasource.connection_max_open'' > 0 then c\<lparr>MaxOpen := s ''datasource.connection_max_open''\<rparr> else c);
          c2 = (if s ''datasource.connection_max_idle'' > 0 then c1\<lparr>MinIdle := s ''datasource.connection_max_idle''\<rparr> else c1)
      in if s ''datasource.connection_max_lifetime'' > 0
         then c2\<lparr>MaxLifetime := s ''datasource.connection_max_lifetime'' * second\<rparr> else c2)"

definition getCircuitBreaker :: "instant \<Rightarrow> int \<Rightarrow> manager \<Rightarrow> nat \<times> manager" where
  "getCircuitBreaker now i m =
     (case m_breakers m i of
        Some c \<Rightarrow> (c, m)
      | None \<Rightarrow> (length (m_cbs m), m\<lparr>m_breakers := (m_breakers m)(i \<mapsto> length (m_cbs m)),
                                    m_cbs := m_cbs m @ [NewCircuitBreaker now i]\<rparr>))"

definition GetCircuitBreakerState :: "int \<Rightarrow> manager \<Rightarrow> circuit_state \<times> int" where
  "GetCircuitBreakerState i m =
     (case m_breakers m i of
        None \<Rightarrow> (CircuitStateClosed, 0)
      | Some c \<Rightarrow> (GetState (m_cbs m ! c), GetFailureCount (m_cbs m ! c)))"

definition on_breaker :: "nat \<Rightarrow> (circuit_breaker \<Rightarrow> circuit_breaker) \<Rightarrow> manager \<Rightarrow> manager" where
  "on_breaker c f m = m\<lparr>m_cbs := (m_cbs m)[c := f (m_cbs m ! c)]\<rparr>"

definition close_driver :: "nat \<Rightarrow> manager \<Rightarrow> manager" where
  "close_driver h m = m\<lparr>m_drivers := (m_drivers m)[h := (m_drivers m ! h)\<lparr>dr_open := False\<rparr>],
     m_closed_twice := (m_closed_twice m \<or> \<not> dr_open (m_drivers m ! h))\<rparr>"

definition forget :: "int \<Rightarrow> manager \<Rightarrow> manager" where
  "forget i m = m\<lparr>m_pools := (m_pools m)(i := None), m_last_check := (m_last_check m)(i := None)\<rparr>"

text \<open>\<open>connect\<close> up to the reply: the type, the connection, its tuning, and the pool.\<close>

definition connect :: "conn_env \<Rightarrow> datasource \<Rightarrow> manager \<Rightarrow> nat result \<times> manager" where
  "connect V d m =
     (if \<not> IsSupported (ds_type d) then (Inl ''datasource type not supported'', m)
      else (case ce_connect V of
              Some e \<Rightarrow> (Inl (''datasource connection failed: '' @ e), m)
            | None \<Rightarrow>
                (let h = length (m_drivers m);
                     cell = \<lparr>dr_source = ds_id d, dr_type = ds_type d, dr_password = password_used (ce_ds V) d,
                       dr_open = True, dr_sick = False,
                       dr_config = (if can_be_tuned (ds_type d) then Some (pool_config_from_settings (ce_settings V)) else None)\<rparr>
                 in (Inr h, m\<lparr>m_drivers := m_drivers m @ [cell], m_pools := (m_pools m)(ds_id d \<mapsto> h),
                       m_last_check := (m_last_check m)(ds_id d \<mapsto> ce_now V)\<rparr>))))"

section \<open>\<open>GetDriver\<close> and its actions\<close>

text \<open>The check of the breaker; the call goes on with the breaker's cell.\<close>

definition admit :: "conn_env \<Rightarrow> datasource \<Rightarrow> manager \<Rightarrow> nat result \<times> manager" where
  "admit V d m =
     (if \<not> ds_enabled d then (Inl ''datasource is disabled'', m)
      else (case getCircuitBreaker (ce_now V) (ds_id d) m of
              (c, m1) \<Rightarrow>
                (case AllowRequest (ce_now V) (m_cbs m1 ! c) of
                   (ok, cb) \<Rightarrow>
                     (if ok then Inr c else Inl ''datasource circuit breaker is open, temporarily unavailable'',
                      on_breaker c (\<lambda>_. cb) m1))))"

datatype verdict = Usable | Stale

text \<open>What becomes of a driver found in the pool: it is used, or closed and taken out. A pool that is busy is
  used without a word to the breaker.\<close>

definition inspect :: "conn_env \<Rightarrow> int \<Rightarrow> nat \<Rightarrow> nat \<Rightarrow> manager \<Rightarrow> verdict \<times> manager" where
  "inspect V i c h m =
     (let cell = m_drivers m ! h
      in if can_be_marked (dr_type cell) \<and> dr_sick cell then (Stale, m)
         else if (case m_last_check m i of None \<Rightarrow> False | Some t \<Rightarrow> ce_now V - t < 30 * second)
         then (Usable, on_breaker c (RecordSuccess (ce_now V)) m)
         else (case ce_ping V of
                 None \<Rightarrow> (Usable, on_breaker c (RecordSuccess (ce_now V))
                                    (m\<lparr>m_last_check := (m_last_check m)(i \<mapsto> ce_now V)\<rparr>))
               | Some e \<Rightarrow>
                   if Contains e ''pool fully occupied''
                   then (Usable, m\<lparr>m_last_check := (m_last_check m)(i \<mapsto> ce_now V)\<rparr>)
                   else (Stale, m)))"

definition start_connecting :: "int \<Rightarrow> manager \<Rightarrow> unit result \<times> manager" where
  "start_connecting i m =
     (if i \<in> m_connecting m then (Inl ''datasource is connecting, please retry later'', m)
      else (Inr (), m\<lparr>m_connecting := insert i (m_connecting m)\<rparr>))"

definition finish_connecting :: "conn_env \<Rightarrow> int \<Rightarrow> nat \<Rightarrow> bool \<Rightarrow> manager \<Rightarrow> manager" where
  "finish_connecting V i c ok m =
     on_breaker c (if ok then RecordSuccess (ce_now V) else RecordFailure (ce_now V))
       (m\<lparr>m_connecting := m_connecting m - {i}\<rparr>)"

definition reconnect :: "conn_env \<Rightarrow> datasource \<Rightarrow> nat \<Rightarrow> manager \<Rightarrow> nat result \<times> manager" where
  "reconnect V d c m =
     (case start_connecting (ds_id d) m of
        (Inl e, m1) \<Rightarrow> (Inl e, m1)
      | (Inr _, m1) \<Rightarrow>
          (case connect V d m1 of (r, m2) \<Rightarrow> (r, finish_connecting V (ds_id d) c (\<not> isl r) m2)))"

definition mgr_GetDriver :: "conn_env \<Rightarrow> datasource \<Rightarrow> manager \<Rightarrow> nat result \<times> manager" where
  "mgr_GetDriver V d m =
     (case admit V d m of
        (Inl e, m1) \<Rightarrow> (Inl e, m1)
      | (Inr c, m1) \<Rightarrow>
          (case m_pools m1 (ds_id d) of
             None \<Rightarrow> reconnect V d c m1
           | Some h \<Rightarrow>
               (case inspect V (ds_id d) c h m1 of
                  (Usable, m2) \<Rightarrow> (Inr h, m2)
                | (Stale, m2) \<Rightarrow> reconnect V d c (forget (ds_id d) (close_driver h m2)))))"

section \<open>The other operations\<close>

text \<open>\<open>TestConnection\<close> opens a driver of its own and closes it; it is what \<open>v_test\<close> stands for.\<close>

definition mgr_TestConnection :: "conn_env \<Rightarrow> datasource \<Rightarrow> string option" where
  "mgr_TestConnection V d =
     (if \<not> IsSupported (ds_type d) then Some ''datasource type not supported''
      else (case ce_connect V of
              Some e \<Rightarrow> Some (''datasource connection failed: '' @ e)
            | None \<Rightarrow> ce_test V))"

definition RemoveDatasource :: "int \<Rightarrow> manager \<Rightarrow> manager" where
  "RemoveDatasource i m =
     (let m1 = (case m_pools m i of
                  Some h \<Rightarrow> (close_driver h m)\<lparr>m_pools := (m_pools m)(i := None)\<rparr>
                | None \<Rightarrow> m)
      in m1\<lparr>m_breakers := (m_breakers m)(i := None)\<rparr>)"

text \<open>\<open>Close\<close> closes what the pool holds, in the order \<open>ids\<close> in which Go meets the keys.\<close>

definition mgr_Close :: "int list \<Rightarrow> manager \<Rightarrow> manager" where
  "mgr_Close ids m =
     (if m_closed m then m
      else fold (\<lambda>i m. case m_pools m i of
                         Some h \<Rightarrow> (close_driver h m)\<lparr>m_pools := (m_pools m)(i := None)\<rparr>
                       | None \<Rightarrow> m) ids (m\<lparr>m_closed := True\<rparr>))"

definition tune :: "(string \<Rightarrow> int) \<Rightarrow> int list \<Rightarrow> manager \<Rightarrow> manager" where
  "tune settings ids m =
     fold (\<lambda>i m. case m_pools m i of
             Some h \<Rightarrow>
               (if can_be_tuned (dr_type (m_drivers m ! h))
                then m\<lparr>m_drivers := (m_drivers m)[h := (m_drivers m ! h)
                         \<lparr>dr_config := Some (pool_config_from_settings settings)\<rparr>]\<rparr>
                else m)
           | None \<Rightarrow> m) ids m"

definition mgr_OnConfigChanged :: "(string \<Rightarrow> int) \<Rightarrow> int list \<Rightarrow> string \<Rightarrow> manager \<Rightarrow> manager" where
  "mgr_OnConfigChanged settings ids key m =
     (if key \<in> {''datasource.connection_max_open'', ''datasource.connection_max_idle'',
                ''datasource.connection_max_lifetime''}
      then tune settings ids m else m)"

text \<open>One turn of \<open>checkAllConnections\<close>.\<close>

definition check_connection :: "conn_env \<Rightarrow> int \<Rightarrow> manager \<Rightarrow> manager" where
  "check_connection V i m =
     (case m_pools m i of
        None \<Rightarrow> m
      | Some h \<Rightarrow>
          (case getCircuitBreaker (ce_now V) i m of
             (c, m1) \<Rightarrow>
               (let cell = m_drivers m1 ! h
                in if can_be_tuned (dr_type cell) \<and> ce_full V then on_breaker c (RecordSuccess (ce_now V)) m1
                   else (case ce_test V of
                           None \<Rightarrow> on_breaker c (RecordSuccess (ce_now V)) m1
                         | Some e \<Rightarrow>
                             (let m2 = on_breaker c (RecordFailure (ce_now V)) m1
                              in if can_be_marked (dr_type cell)
                                 then m2\<lparr>m_drivers := (m_drivers m2)[h := cell\<lparr>dr_sick := True\<rparr>]\<rparr>
                                 else m2)))))"

section \<open>Failures and the breaker\<close>

definition breaker_at :: "int \<Rightarrow> manager \<Rightarrow> circuit_breaker option" where
  "breaker_at i m = map_option (\<lambda>c. m_cbs m ! c) (m_breakers m i)"

text \<open>The part of the manager that a data source without a connection presents to \<open>GetDriver\<close>.\<close>

definition idle :: "int \<Rightarrow> manager \<Rightarrow> bool" where
  "idle i m \<longleftrightarrow> m_pools m i = None \<and> i \<notin> m_connecting m \<and>
     (case m_breakers m i of None \<Rightarrow> True | Some c \<Rightarrow> c < length (m_cbs m))"

text \<open>The breaker a call for data source \<open>i\<close> at \<open>now\<close> meets.\<close>

definition breaker_met :: "instant \<Rightarrow> int \<Rightarrow> manager \<Rightarrow> circuit_breaker" where
  "breaker_met now i m = (case breaker_at i m of None \<Rightarrow> NewCircuitBreaker now i | Some cb \<Rightarrow> cb)"

lemma getCircuitBreaker_gives:
  assumes "getCircuitBreaker now i m = (c, m1)" and "idle i m"
  shows "m_breakers m1 i = Some c" "c < length (m_cbs m1)" "m_cbs m1 ! c = breaker_met now i m"
    "m_pools m1 = m_pools m" "m_connecting m1 = m_connecting m" "m_drivers m1 = m_drivers m"
  using assms by (auto simp: getCircuitBreaker_def idle_def breaker_met_def breaker_at_def split: option.splits)

lemma admit_closed:
  assumes "ds_enabled d" "idle (ds_id d) m" "cb_state (breaker_met (ce_now V) (ds_id d) m) = CircuitStateClosed"
  obtains c m1 where "admit V d m = (Inr c, m1)" "m_breakers m1 (ds_id d) = Some c" "c < length (m_cbs m1)"
    "m_cbs m1 ! c = breaker_met (ce_now V) (ds_id d) m" "m_pools m1 = m_pools m"
    "m_connecting m1 = m_connecting m" "m_drivers m1 = m_drivers m"
proof -
  obtain c m1 where g: "getCircuitBreaker (ce_now V) (ds_id d) m = (c, m1)" by fastforce
  note f = getCircuitBreaker_gives [OF g assms(2)]
  have st: "cb_state (m_cbs m1 ! c) = CircuitStateClosed" using assms(3) f(3) by simp
  have "admit V d m = (Inr c, m1)"
    using assms(1) st by (simp add: admit_def g AllowRequest_def on_breaker_def)
  then show thesis using f by (rule that)
qed

lemma connect_fails:
  assumes "ce_connect V \<noteq> None"
  obtains e where "connect V d m = (Inl e, m)"
  using assms by (cases "IsSupported (ds_type d)") (auto simp: connect_def intro: that)

lemma failed_call:
  assumes "ds_enabled d" "idle (ds_id d) m" "ce_connect V \<noteq> None"
    and "cb_state (breaker_met (ce_now V) (ds_id d) m) = CircuitStateClosed"
  shows "isl (fst (mgr_GetDriver V d m)) \<and> idle (ds_id d) (snd (mgr_GetDriver V d m)) \<and>
    breaker_at (ds_id d) (snd (mgr_GetDriver V d m)) =
      Some (RecordFailure (ce_now V) (breaker_met (ce_now V) (ds_id d) m)) \<and>
    m_drivers (snd (mgr_GetDriver V d m)) = m_drivers m"
proof -
  obtain c m1 where a: "admit V d m = (Inr c, m1)" and b: "m_breakers m1 (ds_id d) = Some c"
    and c: "c < length (m_cbs m1)" "m_cbs m1 ! c = breaker_met (ce_now V) (ds_id d) m"
    and p: "m_pools m1 = m_pools m" "m_connecting m1 = m_connecting m" "m_drivers m1 = m_drivers m"
    using assms(1,2,4) by (rule admit_closed)
  let ?m2 = "m1\<lparr>m_connecting := insert (ds_id d) (m_connecting m1)\<rparr>"
  obtain e where e: "connect V d ?m2 = (Inl e, ?m2)" using assms(3) by (rule connect_fails)
  have i: "m_pools m (ds_id d) = None" "ds_id d \<notin> m_connecting m" using assms(2) by (simp_all add: idle_def)
  have "mgr_GetDriver V d m = (Inl e, finish_connecting V (ds_id d) c False ?m2)"
    using a e i p by (simp add: mgr_GetDriver_def reconnect_def start_connecting_def)
  then show ?thesis using b c p i by (simp add: finish_connecting_def on_breaker_def idle_def breaker_at_def)
qed

text \<open>A breaker that is closed after \<open>n\<close> failures in a row and has the limits of \<open>NewCircuitBreaker\<close>.\<close>

definition fresh_at :: "nat \<Rightarrow> circuit_breaker \<Rightarrow> bool" where
  "fresh_at n cb \<longleftrightarrow> closed_at n cb \<and> recoveryTimeout cb = 30 * second"

lemma fresh_new [simp]: "fresh_at 0 (NewCircuitBreaker now i)"
  by (simp add: fresh_at_def closed_at_def NewCircuitBreaker_def)

lemma fresh_failure: "fresh_at n cb \<Longrightarrow> n < 4 \<Longrightarrow> fresh_at (Suc n) (RecordFailure now cb)"
  by (simp add: fresh_at_def closed_at_def RecordFailure_def)

abbreviation call_all :: "datasource \<Rightarrow> conn_env list \<Rightarrow> manager \<Rightarrow> manager" where
  "call_all d \<equiv> fold (\<lambda>V m. snd (mgr_GetDriver V d m))"

lemma failed_calls:
  assumes "ds_enabled d" "\<forall>V \<in> set Vs. ce_connect V \<noteq> None"
  shows "idle (ds_id d) m \<Longrightarrow> \<forall>now. fresh_at n (breaker_met now (ds_id d) m) \<Longrightarrow> n + length Vs < 5 \<Longrightarrow>
    idle (ds_id d) (call_all d Vs m) \<and> m_drivers (call_all d Vs m) = m_drivers m \<and>
    (\<forall>now. fresh_at (n + length Vs) (breaker_met now (ds_id d) (call_all d Vs m)))"
  using assms(2)
proof (induction Vs arbitrary: n m)
  case (Cons V Vs)
  let ?m = "snd (mgr_GetDriver V d m)" and ?cb = "breaker_met (ce_now V) (ds_id d) m"
  have f: "fresh_at n ?cb" using Cons.prems by simp
  then have "cb_state ?cb = CircuitStateClosed" by (simp add: fresh_at_def closed_at_def)
  with assms(1) Cons.prems have c: "idle (ds_id d) ?m" "breaker_at (ds_id d) ?m = Some (RecordFailure (ce_now V) ?cb)"
    "m_drivers ?m = m_drivers m" using failed_call [of d m V] by auto
  have "\<forall>now. fresh_at (Suc n) (breaker_met now (ds_id d) ?m)"
    using c(2) f Cons.prems by (simp add: breaker_met_def fresh_failure)
  with Cons.IH [of ?m "Suc n"] c Cons.prems show ?case by simp
qed simp

lemma refused_while_open:
  assumes "ds_enabled d" "idle (ds_id d) m" "breaker_at (ds_id d) m = Some cb" "cb_state cb = CircuitStateOpen"
    and "recoveryTimeout cb = 30 * second" "ce_now V \<le> lastStateChange cb + 30 * second"
  shows "mgr_GetDriver V d m = (Inl ''datasource circuit breaker is open, temporarily unavailable'', m)"
proof -
  obtain c where "m_breakers m (ds_id d) = Some c" "m_cbs m ! c = cb" using assms(3) by (auto simp: breaker_at_def)
  then show ?thesis using assms(1,4-6)
    by (auto simp: mgr_GetDriver_def admit_def getCircuitBreaker_def AllowRequest_def on_breaker_def)
qed

text \<open>A data source that has no connection and whose breaker has seen no failure is given five attempts.
  When all five connections fail, \<open>GetCircuitBreakerState\<close> reports an open breaker with five failures;
  for thirty seconds from then on \<open>GetDriver\<close> refuses without an attempt and changes nothing. No driver
  is left behind.
\<close>

theorem five_failed_connections_stop_the_calls:
  assumes "ds_enabled d" and "idle (ds_id d) m" and "\<forall>now. fresh_at 0 (breaker_met now (ds_id d) m)"
    and "\<forall>V \<in> set (Vs @ [V5]). ce_connect V \<noteq> None" and "length Vs = 4"
  shows "let m5 = call_all d (Vs @ [V5]) m
         in GetCircuitBreakerState (ds_id d) m5 = (CircuitStateOpen, 5) \<and> m_drivers m5 = m_drivers m \<and>
            (\<forall>V. ce_now V \<le> ce_now V5 + 30 * second \<longrightarrow>
                 mgr_GetDriver V d m5 = (Inl ''datasource circuit breaker is open, temporarily unavailable'', m5))"
proof -
  let ?m4 = "call_all d Vs m"
  let ?cb = "breaker_met (ce_now V5) (ds_id d) ?m4" and ?m5 = "snd (mgr_GetDriver V5 d ?m4)"
  have m4: "idle (ds_id d) ?m4" "m_drivers ?m4 = m_drivers m" "fresh_at 4 ?cb"
    using failed_calls [of d Vs m 0] assms by auto
  have "idle (ds_id d) ?m5 \<and> breaker_at (ds_id d) ?m5 = Some (RecordFailure (ce_now V5) ?cb) \<and> m_drivers ?m5 = m_drivers ?m4"
    using failed_call [of d ?m4 V5] assms m4 by (auto simp: fresh_at_def closed_at_def)
  then have m5: "idle (ds_id d) ?m5" "breaker_at (ds_id d) ?m5 = Some (RecordFailure (ce_now V5) ?cb)"
    "m_drivers ?m5 = m_drivers m" using m4(2) by simp_all
  have cb: "cb_state (RecordFailure (ce_now V5) ?cb) = CircuitStateOpen" "failureCount (RecordFailure (ce_now V5) ?cb) = 5"
    "recoveryTimeout (RecordFailure (ce_now V5) ?cb) = 30 * second" "lastStateChange (RecordFailure (ce_now V5) ?cb) = ce_now V5"
    using m4(3) by (simp_all add: fresh_at_def closed_at_def RecordFailure_def)
  have "GetCircuitBreakerState (ds_id d) ?m5 = (CircuitStateOpen, 5)"
    using m5(2) cb by (auto simp: breaker_at_def GetCircuitBreakerState_def GetState_def GetFailureCount_def)
  moreover have "mgr_GetDriver V d ?m5 = (Inl ''datasource circuit breaker is open, temporarily unavailable'', ?m5)"
    if "ce_now V \<le> ce_now V5 + 30 * second" for V
    using refused_while_open [OF assms(1) m5(1,2) cb(1,3)] that cb(4) by simp
  ultimately show ?thesis using m5(3) by (simp add: Let_def)
qed

section \<open>Interleaved callers\<close>

text \<open>Where a call of \<open>GetDriver\<close> stands between two of its actions; the data source and the breaker's cell go
  with it.\<close>

datatype caller =
  Looking datasource nat
| Found datasource nat nat
| Closing datasource nat nat
| Forgetting datasource nat
| Starting datasource nat
| Connecting datasource nat
| Connected datasource nat bool

fun attempts :: "caller \<Rightarrow> int option" where
  "attempts (Connecting d c) = Some (ds_id d)"
| "attempts (Connected d c ok) = Some (ds_id d)"
| "attempts _ = None"

type_synonym conn_config = "manager \<times> caller multiset"

text \<open>The driver's \<open>Connect\<close> may panic: the handler recovers, and the rest of \<open>GetDriver\<close> is not run.\<close>

inductive conn_step :: "conn_config \<Rightarrow> conn_config \<Rightarrow> bool" where
  refuse: "admit V d m = (Inl e, m') \<Longrightarrow> conn_step (m, cs) (m', cs)"
| arrive: "admit V d m = (Inr c, m') \<Longrightarrow> conn_step (m, cs) (m', add_mset (Looking d c) cs)"
| miss: "m_pools m (ds_id d) = None \<Longrightarrow> conn_step (m, add_mset (Looking d c) cs) (m, add_mset (Starting d c) cs)"
| hit: "m_pools m (ds_id d) = Some h \<Longrightarrow> conn_step (m, add_mset (Looking d c) cs) (m, add_mset (Found d c h) cs)"
| usable: "inspect V (ds_id d) c h m = (Usable, m') \<Longrightarrow> conn_step (m, add_mset (Found d c h) cs) (m', cs)"
| stale: "inspect V (ds_id d) c h m = (Stale, m') \<Longrightarrow>
    conn_step (m, add_mset (Found d c h) cs) (m', add_mset (Closing d c h) cs)"
| close_stale: "conn_step (m, add_mset (Closing d c h) cs) (close_driver h m, add_mset (Forgetting d c) cs)"
| forget_stale: "conn_step (m, add_mset (Forgetting d c) cs) (forget (ds_id d) m, add_mset (Starting d c) cs)"
| busy: "start_connecting (ds_id d) m = (Inl e, m') \<Longrightarrow> conn_step (m, add_mset (Starting d c) cs) (m', cs)"
| start: "start_connecting (ds_id d) m = (Inr (), m') \<Longrightarrow>
    conn_step (m, add_mset (Starting d c) cs) (m', add_mset (Connecting d c) cs)"
| panic: "conn_step (m, add_mset (Connecting d c) cs) (m\<lparr>m_stuck := insert (ds_id d) (m_stuck m)\<rparr>, cs)"
| connected: "connect V d m = (r, m') \<Longrightarrow>
    conn_step (m, add_mset (Connecting d c) cs) (m', add_mset (Connected d c (\<not> isl r)) cs)"
| finish: "conn_step (m, add_mset (Connected d c ok) cs) (finish_connecting V (ds_id d) c ok m, cs)"
| remove: "conn_step (m, cs) (RemoveDatasource i m, cs)"
| close_all: "conn_step (m, cs) (mgr_Close ids m, cs)"
| retune: "conn_step (m, cs) (mgr_OnConfigChanged settings ids key m, cs)"
| check: "conn_step (m, cs) (check_connection V i m, cs)"

abbreviation conn_reaches :: "conn_config \<Rightarrow> conn_config \<Rightarrow> bool" where
  "conn_reaches \<equiv> conn_step\<^sup>*\<^sup>*"

text \<open>The flags are left alone by everything but the start and the end of an attempt.\<close>

definition same_flags :: "manager \<Rightarrow> manager \<Rightarrow> bool" where
  "same_flags m m' \<longleftrightarrow> m_connecting m' = m_connecting m \<and> m_stuck m' = m_stuck m"

lemma same_flags_simple [simp]:
  "same_flags m m" "same_flags m (on_breaker c f m') = same_flags m m'"
  "same_flags m (close_driver h m') = same_flags m m'" "same_flags m (forget i m') = same_flags m m'"
  "same_flags m (m'\<lparr>m_pools := P\<rparr>) = same_flags m m'" "same_flags m (m'\<lparr>m_breakers := B\<rparr>) = same_flags m m'"
  "same_flags m (m'\<lparr>m_drivers := D\<rparr>) = same_flags m m'" "same_flags m (m'\<lparr>m_last_check := L\<rparr>) = same_flags m m'"
  "same_flags m (m'\<lparr>m_cbs := C\<rparr>) = same_flags m m'" "same_flags m (m'\<lparr>m_closed := b\<rparr>) = same_flags m m'"
  by (simp_all add: same_flags_def on_breaker_def close_driver_def forget_def)

lemma same_flags_fold: "(\<And>i n. same_flags m (f i n) = same_flags m n) \<Longrightarrow> same_flags m (fold f ids n) = same_flags m n"
  by (induction ids arbitrary: n) simp_all

lemma same_flags_ops:
  "same_flags m (snd (getCircuitBreaker now i m))"
  "same_flags m (snd (admit V d m))" "same_flags m (snd (inspect V i c h m))" "same_flags m (snd (connect V d m))"
  "same_flags m (RemoveDatasource i m)" "same_flags m (mgr_Close ids m)" "same_flags m (mgr_OnConfigChanged s ids key m)"
  "same_flags m (check_connection V i m)"
proof -
  show g: "same_flags m (snd (getCircuitBreaker now i m))" for now i
    by (simp add: getCircuitBreaker_def split: option.split)
  show "same_flags m (snd (admit V d m))"
    using g [of "ce_now V" "ds_id d"] by (auto simp: admit_def split: prod.split)
  show "same_flags m (snd (inspect V i c h m))" by (simp add: inspect_def Let_def split: option.split)
  show "same_flags m (snd (connect V d m))" by (simp add: connect_def Let_def split: option.split)
  show "same_flags m (RemoveDatasource i m)" by (simp add: RemoveDatasource_def Let_def split: option.split)
  show "same_flags m (mgr_Close ids m)"
    by (simp add: mgr_Close_def same_flags_fold split: option.split)
  show "same_flags m (mgr_OnConfigChanged s ids key m)"
    by (simp add: mgr_OnConfigChanged_def tune_def same_flags_fold split: option.split)
  show "same_flags m (check_connection V i m)"
    using g [of "ce_now V" i] by (auto simp: check_connection_def Let_def split: option.split prod.split)
qed

definition conn_inv :: "conn_config \<Rightarrow> bool" where
  "conn_inv x \<longleftrightarrow> (case x of (m, cs) \<Rightarrow>
     m_stuck m \<subseteq> m_connecting m \<and>
     (\<forall>i. count (image_mset attempts cs) (Some i) = (if i \<in> m_connecting m - m_stuck m then 1 else 0)))"

lemma conn_inv_new: "conn_inv (NewManager, {#})"
  by (simp add: conn_inv_def NewManager_def)

lemma conn_inv_flags:
  "same_flags m m' \<Longrightarrow> conn_inv (m, cs) \<Longrightarrow> attempts f = None \<Longrightarrow> attempts g = None \<Longrightarrow>
     conn_inv (m', cs) \<and> conn_inv (m', add_mset g cs)"
  "same_flags m m' \<Longrightarrow> conn_inv (m, add_mset f cs) \<Longrightarrow> attempts f = None \<Longrightarrow> attempts g = None \<Longrightarrow>
     conn_inv (m', cs) \<and> conn_inv (m', add_mset g cs)"
  "same_flags m m' \<Longrightarrow> conn_inv (m, add_mset f cs) \<Longrightarrow> attempts f = attempts g \<Longrightarrow> conn_inv (m', add_mset g cs)"
  by (simp_all add: conn_inv_def same_flags_def)


lemma conn_inv_start:
  assumes "start_connecting (ds_id d) m = (Inr (), m')" "conn_inv (m, add_mset (Starting d c) cs)"
  shows "conn_inv (m', add_mset (Connecting d c) cs)"
  using assms by (auto simp: conn_inv_def start_connecting_def split: if_splits)

text \<open>A caller that is connecting accounts for the flag of its data source by itself.\<close>

lemma conn_inv_attempt:
  assumes "conn_inv (m, add_mset f cs)" "attempts f = Some k"
  shows "k \<in> m_connecting m - m_stuck m" "m_stuck m \<subseteq> m_connecting m"
    "count (image_mset attempts cs) (Some i) = (if i \<in> m_connecting m - m_stuck m - {k} then 1 else 0)"
proof -
  have a: "count (image_mset attempts (add_mset f cs)) (Some i) = (if i \<in> m_connecting m - m_stuck m then 1 else 0)" for i
    using assms(1) unfolding conn_inv_def prod.case by blast
  have c: "(if i = k then 1 else 0) + count (image_mset attempts cs) (Some i) =
      (if i \<in> m_connecting m - m_stuck m then 1 else 0)" for i
    using a [of i] assms(2) by (cases "i = k") (simp_all split: if_splits)
  show "k \<in> m_connecting m - m_stuck m" using c [of k] by (simp split: if_splits)
  show "m_stuck m \<subseteq> m_connecting m" using assms(1) by (simp add: conn_inv_def)
  show "count (image_mset attempts cs) (Some i) = (if i \<in> m_connecting m - m_stuck m - {k} then 1 else 0)"
    using c [of i] by (cases "i = k") (simp_all split: if_splits)
qed

lemma conn_inv_panic:
  assumes "conn_inv (m, add_mset (Connecting d c) cs)"
  shows "conn_inv (m\<lparr>m_stuck := insert (ds_id d) (m_stuck m)\<rparr>, cs)"
proof -
  note a = conn_inv_attempt [OF assms attempts.simps(1)]
  show ?thesis using a(1,2) by (simp add: conn_inv_def a(3))
qed

lemma conn_inv_finish:
  assumes "conn_inv (m, add_mset (Connected d c ok) cs)"
  shows "conn_inv (finish_connecting V (ds_id d) c ok m, cs)"
proof -
  note a = conn_inv_attempt [OF assms attempts.simps(2)]
  show ?thesis using a(1,2) by (auto simp: conn_inv_def a(3) finish_connecting_def on_breaker_def)
qed

lemma conn_inv_step: "conn_step x y \<Longrightarrow> conn_inv x \<Longrightarrow> conn_inv y"
proof (induction rule: conn_step.induct)
  case (refuse V d m e m' cs)
  then have "same_flags m m'" using same_flags_ops(2) [of m V d] by simp
  with refuse(2) show ?case by (simp add: conn_inv_def same_flags_def)
next
  case (arrive V d m c m' cs)
  then have "same_flags m m'" using same_flags_ops(2) [of m V d] by simp
  with arrive(2) show ?case by (simp add: conn_inv_def same_flags_def)
next
  case (usable V d c h m m' cs)
  then have "same_flags m m'" using same_flags_ops(3) [of m V "ds_id d" c h] by simp
  with usable(2) show ?case by (simp add: conn_inv_def same_flags_def)
next
  case (stale V d c h m m' cs)
  then have "same_flags m m'" using same_flags_ops(3) [of m V "ds_id d" c h] by simp
  with stale(2) show ?case by (simp add: conn_inv_def same_flags_def)
next
  case (connected V d m r m' c cs)
  then have "same_flags m m'" using same_flags_ops(4) [of m V d] by simp
  with connected(2) show ?case by (simp add: conn_inv_def same_flags_def)
next
  case (busy d m e m' c cs)
  then show ?case by (simp add: conn_inv_def start_connecting_def split: if_splits)
next
  case (start d m m' c cs)
  then show ?case by (rule conn_inv_start)
next
  case (panic m d c cs)
  then show ?case by (rule conn_inv_panic)
next
  case (finish m d c ok cs V)
  then show ?case by (rule conn_inv_finish)
next
  case (remove m cs i)
  then show ?case using same_flags_ops(5) [of m i] by (simp add: conn_inv_def same_flags_def)
next
  case (close_all m cs ids)
  then show ?case using same_flags_ops(6) [of m ids] by (simp add: conn_inv_def same_flags_def)
next
  case (retune m cs s ids k)
  then show ?case using same_flags_ops(7) [of m s ids k] by (simp add: conn_inv_def same_flags_def)
next
  case (check m cs V i)
  then show ?case using same_flags_ops(8) [of m V i] by (simp add: conn_inv_def same_flags_def)
qed (simp_all add: conn_inv_def close_driver_def forget_def)

lemma conn_inv_reaches: "conn_reaches x y \<Longrightarrow> conn_inv x \<Longrightarrow> conn_inv y"
  by (induction rule: rtranclp_induct) (auto intro: conn_inv_step)

lemma stuck_step: "conn_step x y \<Longrightarrow> m_stuck (fst x) \<subseteq> m_stuck (fst y)"
proof (induction rule: conn_step.induct)
  case (refuse V d m e m' cs)
  then show ?case using same_flags_ops(2) [of m V d] by (simp add: same_flags_def)
next
  case (arrive V d m c m' cs)
  then show ?case using same_flags_ops(2) [of m V d] by (simp add: same_flags_def)
next
  case (usable V d c h m m' cs)
  then show ?case using same_flags_ops(3) [of m V "ds_id d" c h] by (simp add: same_flags_def)
next
  case (stale V d c h m m' cs)
  then show ?case using same_flags_ops(3) [of m V "ds_id d" c h] by (simp add: same_flags_def)
next
  case (connected V d m r m' c cs)
  then show ?case using same_flags_ops(4) [of m V d] by (simp add: same_flags_def)
qed (use same_flags_ops in \<open>auto simp: start_connecting_def close_driver_def forget_def finish_connecting_def on_breaker_def
       same_flags_def split: if_splits\<close>)

lemma stuck_reaches: "conn_reaches x y \<Longrightarrow> m_stuck (fst x) \<subseteq> m_stuck (fst y)"
  by (induction rule: rtranclp_induct) (auto dest: stuck_step)

text \<open>However the calls of \<open>GetDriver\<close>, removals, health checks and configuration changes interleave, at most one
  caller per data source is connecting. But the flag that sees to this is taken down by no deferred function: once
  the driver's \<open>Connect\<close> has panicked, every later call that has to connect is told to retry later, for good.
\<close>

theorem one_connection_attempt_at_a_time:
  assumes "conn_reaches (NewManager, {#}) (m, cs)"
  shows "count (image_mset attempts cs) (Some i) \<le> 1 \<and>
    (i \<in> m_stuck m \<longrightarrow> conn_reaches (m, cs) (m', cs') \<longrightarrow>
       start_connecting i m' = (Inl ''datasource is connecting, please retry later'', m'))"
proof (intro conjI impI)
  show "count (image_mset attempts cs) (Some i) \<le> 1"
    using conn_inv_reaches [OF assms conn_inv_new] by (simp add: conn_inv_def)
next
  assume "i \<in> m_stuck m" and r: "conn_reaches (m, cs) (m', cs')"
  then have "i \<in> m_stuck m'" using stuck_reaches [OF r] by auto
  moreover have "m_stuck m' \<subseteq> m_connecting m'"
    using conn_inv_reaches [OF rtranclp_trans [OF assms r] conn_inv_new] by (simp add: conn_inv_def)
  ultimately show "start_connecting i m' = (Inl ''datasource is connecting, please retry later'', m')"
    by (auto simp: start_connecting_def)
qed

text \<open>Two callers that both find the driver stale both close it; the pool of a Hive driver panics on the second
  \<open>close\<close>, of its channel \<open>stopCleanup\<close>.\<close>

lemma stale_driver_is_closed_twice:
  assumes "inspect V (ds_id d) c h m = (Stale, m)" "h < length (m_drivers m)"
  shows "\<exists>m' cs'. conn_reaches (m, add_mset (Found d c h) (add_mset (Found d c h) cs)) (m', cs') \<and> m_closed_twice m'"
proof -
  let ?F = "Found d c h" and ?C = "Closing d c h" and ?G = "Forgetting d c"
  let ?m1 = "close_driver h m" and ?m2 = "close_driver h (close_driver h m)"
  have "conn_step (m, add_mset ?F (add_mset ?F cs)) (m, add_mset ?C (add_mset ?F cs))"
    by (rule conn_step.stale [OF assms(1)])
  moreover have "conn_step (m, add_mset ?C (add_mset ?F cs)) (m, add_mset ?C (add_mset ?C cs))"
    using conn_step.stale [OF assms(1), of "add_mset ?C cs"] by (simp add: add_mset_commute)
  moreover have "conn_step (m, add_mset ?C (add_mset ?C cs)) (?m1, add_mset ?G (add_mset ?C cs))"
    by (rule conn_step.close_stale)
  moreover have "conn_step (?m1, add_mset ?G (add_mset ?C cs)) (?m2, add_mset ?G (add_mset ?G cs))"
    using conn_step.close_stale [of ?m1 d c h "add_mset ?G cs"] by (simp add: add_mset_commute)
  ultimately have "conn_reaches (m, add_mset ?F (add_mset ?F cs)) (?m2, add_mset ?G (add_mset ?G cs))"
    by (meson rtranclp.rtrancl_into_rtrancl rtranclp.rtrancl_refl)
  moreover have "m_closed_twice ?m2" using assms(2) by (simp add: close_driver_def)
  ultimately show ?thesis by blast
qed

section \<open>The properties at concrete inputs\<close>

text \<open>Keys in clear, after a header that tells how long they are.\<close>

definition sealed_under :: "string \<Rightarrow> string" where
  "sealed_under k = map (\<lambda>_. CHR ''a'') k @ CHR ''|'' # k"

definition demo_aead :: aead where
  "demo_aead = \<lparr>seal = \<lambda>k n p. sealed_under k @ p,
     unseal = \<lambda>k x. if prefix (sealed_under k) x then Some (drop (length (sealed_under k)) x) else None\<rparr>"

lemma sealed_under_inj: "prefix (sealed_under k') (sealed_under k @ p) \<Longrightarrow> k = k'"
proof -
  assume "prefix (sealed_under k') (sealed_under k @ p)"
  then obtain r where r: "sealed_under k @ p = sealed_under k' @ r" by (auto simp: prefix_def)
  have w: "takeWhile (\<lambda>c. c = CHR ''a'') (sealed_under j @ q) = map (\<lambda>_. CHR ''a'') j" for j q
    by (simp add: sealed_under_def takeWhile_append)
  have "length k = length k'" using w [of k p] w [of k' r] r by (metis length_map)
  then show "k = k'" using r by (simp add: sealed_under_def)
qed

lemma demo_aead_laws: "aead_laws demo_aead"
  using sealed_under_inj by (auto simp: aead_laws_def demo_aead_def) (auto simp: sealed_under_def)

definition demo_ring :: key_ring where
  "demo_ring = \<lparr>currentKey = replicate 32 CHR ''k'', oldKeys = []\<rparr>"

theorem rotation_keeps_passwords_witness:
  "ring_Decrypt demo_aead (fold (\<lambda>k c. snd (RotateKey k c)) [replicate 32 CHR ''m'', ''short''] demo_ring)
     (seal demo_aead (replicate 32 CHR ''k'') 0 ''pw'') = Inr ''pw''"
  by (rule rotation_keeps_passwords [OF demo_aead_laws, of demo_ring 0, THEN conjunct1])
     (simp add: ring_Encrypt_def demo_ring_def)

definition demo_fails :: "instant \<Rightarrow> conn_env" where
  "demo_fails t = \<lparr>ce_now = t, ce_ds = demo_dsenv, ce_settings = (\<lambda>_. 0), ce_connect = Some ''refused'',
     ce_ping = None, ce_test = None, ce_full = False\<rparr>"

lemma demo_ds_open: "ds_enabled demo_ds" "ds_id demo_ds = 7" "IsSupported (ds_type demo_ds)"
  by (simp_all add: demo_ds_def IsSupported_def driver_types_def)

theorem five_failed_connections_stop_the_calls_witness:
  "GetCircuitBreakerState 7 (call_all demo_ds (map demo_fails [1, 2, 3, 4] @ [demo_fails 5]) NewManager) =
     (CircuitStateOpen, 5)"
  using five_failed_connections_stop_the_calls [of demo_ds NewManager "map demo_fails [1, 2, 3, 4]" "demo_fails 5"]
  by (simp add: demo_ds_open idle_def NewManager_def breaker_met_def breaker_at_def demo_fails_def Let_def)

lemma demo_panics:
  "\<exists>m. conn_reaches (NewManager, {#}) (m, {#}) \<and> 7 \<in> m_stuck m"
proof -
  obtain c m1 where a: "admit (demo_fails 1) demo_ds NewManager = (Inr c, m1)" "m_pools m1 = m_pools NewManager"
    "m_connecting m1 = m_connecting NewManager"
    by (rule admit_closed [of demo_ds NewManager "demo_fails 1"])
       (simp_all add: demo_ds_open idle_def NewManager_def breaker_met_def breaker_at_def NewCircuitBreaker_def)
  let ?m2 = "m1\<lparr>m_connecting := insert 7 (m_connecting m1)\<rparr>"
  let ?m3 = "?m2\<lparr>m_stuck := insert 7 (m_stuck ?m2)\<rparr>"
  have "conn_step (NewManager, {#}) (m1, {#Looking demo_ds c#})" using a(1) by (rule conn_step.arrive)
  moreover have "conn_step (m1, {#Looking demo_ds c#}) (m1, {#Starting demo_ds c#})"
    by (rule conn_step.miss) (simp add: a NewManager_def)
  moreover have "conn_step (m1, {#Starting demo_ds c#}) (?m2, {#Connecting demo_ds c#})"
    by (rule conn_step.start) (simp add: start_connecting_def a demo_ds_open NewManager_def)
  moreover have "conn_step (?m2, {#Connecting demo_ds c#}) (?m3, {#})"
    using conn_step.panic [of ?m2 demo_ds c "{#}"] by (simp add: demo_ds_open)
  ultimately have "conn_reaches (NewManager, {#}) (?m3, {#})"
    by (meson rtranclp.rtrancl_into_rtrancl rtranclp.rtrancl_refl)
  then show ?thesis by (intro exI [of _ ?m3]) simp
qed

theorem one_connection_attempt_at_a_time_witness:
  "\<exists>m. conn_reaches (NewManager, {#}) (m, {#}) \<and>
     start_connecting 7 m = (Inl ''datasource is connecting, please retry later'', m)"
proof -
  obtain m where m: "conn_reaches (NewManager, {#}) (m, {#})" "7 \<in> m_stuck m" using demo_panics by blast
  then show ?thesis using one_connection_attempt_at_a_time [OF m(1), of 7 m "{#}"] by auto
qed

end
