(* ===== verification/Query_Execution.thy ===== *)
theory Query_Execution
  imports Connections Concurrency_Limit Query_Cache Sql_Rules Access
begin

text \<open>
  The requests on queries (scheduler/internal/handler/query.go), which bring the other parts together: a
  statement is checked, looked up in the cache, given a permit and registered; a goroutine then runs it
  on a connection and records what came of it. The goroutine is a job of the state until
  \<open>run_job\<close> runs it. The registry is an argument, either of the two that meet \<open>registry_laws\<close>; its keys in
  Redis are kept apart from those of the cache and the permits, which share one server. Bodies are bound already; a
  reply is that of \<open>Access\<close>. Texts written to the audit log and the times that are only logged are left out.
\<close>

section \<open>State\<close>

record query_request =
  rq_datasource :: int
  rq_sql :: string
  rq_database :: string

record job =
  jb_id :: string
  jb_ds :: datasource
  jb_request :: query_request
  jb_user :: int
  jb_domain :: int
  jb_limit :: int

record ('g, 'r) query_state =
  qs_registry :: 'g
  qs_manager :: manager
  qs_cache :: "'r cache"
  qs_store :: ds_store
  qs_jobs :: "job list"

text \<open>The two services that may be missing are there or not for the whole run.\<close>

record 'v query_env =
  qe_now :: instant
  qe_conf :: "string \<Rightarrow> int"       \<comment> \<open>\<open>GetInt\<close> of the system configuration\<close>
  qe_id :: string                  \<comment> \<open>the query id that is drawn\<close>
  qe_ds :: ds_env
  qe_limits :: limits
  qe_caching :: bool
  qe_limiting :: bool

record ('r, 'v) query_libs =
  ql_redis :: "'r redis"
  ql_codec :: "'v codec"
  ql_md5 :: "string \<Rightarrow> string"

section \<open>Taking a query in\<close>

datatype 'v answer = FromCache string "'v query_result" | Accepted string

definition default_limit :: "(string \<Rightarrow> int) \<Rightarrow> int" where
  "default_limit conf = (let n = conf ''datasource.default_limit'' in if n \<le> 0 then 1000 else n)"

definition cached_answer ::
  "('r, 'v) query_libs \<Rightarrow> 'v query_env \<Rightarrow> query_request \<Rightarrow> int \<Rightarrow> 'r cache \<Rightarrow> 'v query_result option \<times> 'r cache" where
  "cached_answer Q E rq limit c =
     (if \<not> qe_caching E then (None, c)
      else (case cache_Get (ql_redis Q) (ql_codec Q) (ql_md5 Q) (qe_now E) (rq_datasource rq) (rq_database rq)
                   (rq_sql rq) limit c of
              (Inr hit, c1) \<Rightarrow> (hit, c1)
            | (Inl e, c1) \<Rightarrow> (None, c1)))"

definition take_permit ::
  "('r, 'v) query_libs \<Rightarrow> 'v query_env \<Rightarrow> int \<Rightarrow> int \<Rightarrow> 'r cache \<Rightarrow> unit result \<times> 'r cache" where
  "take_permit Q E u ds c =
     (if \<not> qe_limiting E then (Inr (), c)
      else (case run_prog (ql_redis Q) (qe_now E) (AcquireForDatasource (qe_limits E) u ds) (c_redis c) of
              (x, r) \<Rightarrow> (x, c\<lparr>c_redis := r\<rparr>)))"

definition return_permit ::
  "('r, 'v) query_libs \<Rightarrow> 'v query_env \<Rightarrow> int \<Rightarrow> int \<Rightarrow> 'r cache \<Rightarrow> 'r cache" where
  "return_permit Q E u ds c =
     (if \<not> qe_limiting E then c
      else c\<lparr>c_redis := snd (run_prog (ql_redis Q) (qe_now E) (release u (Some ds)) (c_redis c))\<rparr>)"

definition permit_refused :: "string \<Rightarrow> 'a reply" where
  "permit_refused e =
     (if e = ds_limit_text then Bad 17002 ''too many queries on this data source''
      else if e = limit_text then Bad 17002 ''too many queries''
      else if e = ''connection pool exhausted'' then Bad 17002 ''connection pool is full''
      else Bad 17001 ''concurrency check failed'')"

definition new_query :: "string \<Rightarrow> query_request \<Rightarrow> int \<Rightarrow> 'v running_query" where
  "new_query qid rq u =
     \<lparr>q_id = qid, q_datasource = rq_datasource rq, q_database = rq_database rq, q_sql = rq_sql rq, q_user = u,
      q_status = QueryStatusPending, q_result = None, q_error = [], q_time = 0, q_start = None,
      q_cached = False, q_cancel = True, q_created = 0\<rparr>"

text \<open>The deferred \<open>release\<close> runs when the handler returns, which is right after the goroutine was started.\<close>

definition admit_query ::
  "('g, 'v) query_registry \<Rightarrow> ('r, 'v) query_libs \<Rightarrow> 'v query_env \<Rightarrow> principal \<Rightarrow> query_request \<Rightarrow> datasource \<Rightarrow> int \<Rightarrow>
   ('g, 'r) query_state \<Rightarrow> 'v answer reply \<times> ('g, 'r) query_state" where
  "admit_query I Q E p rq d limit s =
     (case take_permit Q E (pr_user p) (rq_datasource rq) (qs_cache s) of
        (Inl e, c) \<Rightarrow> (permit_refused e, s\<lparr>qs_cache := c\<rparr>)
      | (Inr _, c) \<Rightarrow>
          (Good (Accepted (qe_id E)),
           s\<lparr>qs_registry := m_Register I (qe_now E) (new_query (qe_id E) rq (pr_user p)) (qs_registry s),
             qs_jobs := qs_jobs s @ [\<lparr>jb_id = qe_id E, jb_ds = d, jb_request = rq, jb_user = pr_user p,
                                       jb_domain = pr_domain p, jb_limit = limit\<rparr>],
             qs_cache := return_permit Q E (pr_user p) (rq_datasource rq) c\<rparr>))"

definition HandleExecute ::
  "('g, 'v) query_registry \<Rightarrow> ('r, 'v) query_libs \<Rightarrow> 'v query_env \<Rightarrow> query_request \<Rightarrow> principal \<Rightarrow>
   ('g, 'r) query_state \<Rightarrow> 'v answer reply \<times> ('g, 'r) query_state" where
  "HandleExecute I Q E rq p s =
     (if rq_datasource rq = 0 \<or> rq_sql rq = [] then (Bad 400 ''invalid request'', s)
      else let longest = qe_conf E ''datasource.max_sql_length'' in
        if 0 < longest \<and> longest < int (length (rq_sql rq)) then (Bad 17003 ''statement too long'', s)
        else (case GetByID (qe_ds E) (rq_datasource rq) (qs_store s) of
                Inl e \<Rightarrow> (Bad 404 ''data source not found'', s)
              | Inr d \<Rightarrow>
                  (if \<not> ds_enabled d then (Bad 17004 ''data source is disabled'', s)
                   else if \<not> isSelectOnly (rq_sql rq) (ds_write d) (ds_type d)
                   then (Bad 17005 ''only SELECT is allowed'', s)
                   else let limit = default_limit (qe_conf E) in
                     (case cached_answer Q E rq limit (qs_cache s) of
                        (Some res, c) \<Rightarrow> (Good (FromCache (qe_id E) res), s\<lparr>qs_cache := c\<rparr>)
                      | (None, c) \<Rightarrow> admit_query I Q E p rq d limit (s\<lparr>qs_cache := c\<rparr>)))))"

section \<open>Running it\<close>

text \<open>What the goroutine meets: the connection, the answers of the driver to the statement in a
  database, and whether the context has been cancelled by then. A panic of the driver's call is
  \<open>xe_panic\<close>; one of \<open>Connect\<close> is a step of \<open>Connections\<close>.\<close>

record 'v run_env =
  xe_start :: instant
  xe_conn :: conn_env
  xe_calls :: "nat \<Rightarrow> string \<Rightarrow> string \<Rightarrow> 'v query_result option result"
  xe_stopped :: "nat \<Rightarrow> string option"
  xe_panic :: "string option"
  xe_cancelled :: bool
  xe_time :: duration
  xe_end :: instant
  xe_caching :: bool

definition sent_sql :: "job \<Rightarrow> string" where
  "sent_sql j = ApplyLimitToSQL (rq_sql (jb_request j)) (if jb_limit j \<le> 0 then 1000 else jb_limit j) (ds_type (jb_ds j))"

definition query_calls :: "'v run_env \<Rightarrow> job \<Rightarrow> 'v query_result option result" where
  "query_calls X j = fst (WithRetry DefaultRetryConfig (xe_stopped X)
     (\<lambda>i. xe_calls X i (sent_sql j) (rq_database (jb_request j))) (ds_type (jb_ds j)))"

definition history_of :: "'v run_env \<Rightarrow> job \<Rightarrow> string \<Rightarrow> string \<Rightarrow> int \<Rightarrow> query_history" where
  "history_of X j status err rows =
     \<lparr>qh_id = 0, qh_query = jb_id j, qh_datasource = Some (ds_id (jb_ds j)), qh_name = ds_name (jb_ds j),
      qh_sql = rq_sql (jb_request j), qh_database = rq_database (jb_request j), qh_time = xe_time X, qh_rows = rows,
      qh_status = status, qh_error = err, qh_by = Some (jb_user j), qh_domain = jb_domain j, qh_created = []\<rparr>"

definition record_history ::
  "'v run_env \<Rightarrow> query_history \<Rightarrow> ('g, 'r) query_state \<Rightarrow> ('g, 'r) query_state" where
  "record_history X h s = s\<lparr>qs_store := snd (RecordQueryHistory (ce_ds (xe_conn X)) h (qs_store s))\<rparr>"

definition told_error ::
  "('g, 'v) query_registry \<Rightarrow> 'v run_env \<Rightarrow> job \<Rightarrow> string \<Rightarrow> duration \<Rightarrow> ('g, 'r) query_state \<Rightarrow> ('g, 'r) query_state" where
  "told_error I X j msg d s = s\<lparr>qs_registry := m_UpdateError I (xe_end X) (jb_id j) msg d (qs_registry s)\<rparr>"

definition store_in_cache ::
  "('r, 'v) query_libs \<Rightarrow> 'v run_env \<Rightarrow> job \<Rightarrow> 'v query_result \<Rightarrow> 'r cache \<Rightarrow> 'r cache" where
  "store_in_cache Q X j res c =
     (if xe_caching X
      then snd (cache_Set (ql_redis Q) (ql_codec Q) (ql_md5 Q) (xe_end X) (rq_datasource (jb_request j))
             (rq_database (jb_request j)) (rq_sql (jb_request j)) (if jb_limit j \<le> 0 then 1000 else jb_limit j) res c)
      else c)"

definition settle ::
  "('g, 'v) query_registry \<Rightarrow> ('r, 'v) query_libs \<Rightarrow> 'v run_env \<Rightarrow> job \<Rightarrow> ('g, 'r) query_state \<Rightarrow> ('g, 'r) query_state" where
  "settle I Q X j s =
     (if xe_cancelled X
      then told_error I X j ''query was cancelled by the user'' (xe_time X)
             (record_history X (history_of X j ''cancelled'' ''query was cancelled by the user'' 0) s)
      else (case query_calls X j of
              Inl e \<Rightarrow> told_error I X j e (xe_time X) (record_history X (history_of X j ''failed'' e 0) s)
            | Inr None \<Rightarrow> told_error I X j ''query returned no result'' (xe_time X)
                (record_history X (history_of X j ''failed'' ''query returned no result'' 0) s)
            | Inr (Some res) \<Rightarrow>
                (let s1 = record_history X (history_of X j ''success'' [] (qr_count res)) s
                 in s1\<lparr>qs_cache := store_in_cache Q X j res (qs_cache s1),
                       qs_registry := m_UpdateResult I (xe_end X) (jb_id j) (Some res) (xe_time X) (qs_registry s1)\<rparr>)))"

definition executeQuery ::
  "('g, 'v) query_registry \<Rightarrow> ('r, 'v) query_libs \<Rightarrow> 'v run_env \<Rightarrow> job \<Rightarrow> ('g, 'r) query_state \<Rightarrow> ('g, 'r) query_state" where
  "executeQuery I Q X j s =
     (let s1 = s\<lparr>qs_registry := m_SetRunning I (xe_start X) (jb_id j) (qs_registry s)\<rparr>
      in (case mgr_GetDriver (xe_conn X) (jb_ds j) (qs_manager s1) of
            (Inl e, m) \<Rightarrow> told_error I X j ''failed to connect to the data source'' 0 (s1\<lparr>qs_manager := m\<rparr>)
          | (Inr h, m) \<Rightarrow> settle I Q X j (s1\<lparr>qs_manager := m\<rparr>)))"

definition executeQuerySafe ::
  "('g, 'v) query_registry \<Rightarrow> ('r, 'v) query_libs \<Rightarrow> 'v run_env \<Rightarrow> job \<Rightarrow> ('g, 'r) query_state \<Rightarrow> ('g, 'r) query_state" where
  "executeQuerySafe I Q X j s =
     (case xe_panic X of
        None \<Rightarrow> executeQuery I Q X j s
      | Some msg \<Rightarrow>
          (let s1 = s\<lparr>qs_registry := m_SetRunning I (xe_start X) (jb_id j) (qs_registry s)\<rparr>
           in (case mgr_GetDriver (xe_conn X) (jb_ds j) (qs_manager s1) of
                 (Inl e, m) \<Rightarrow> told_error I X j ''failed to connect to the data source'' 0 (s1\<lparr>qs_manager := m\<rparr>)
               | (Inr h, m) \<Rightarrow> told_error I X j (''query panicked: '' @ msg) 0 (s1\<lparr>qs_manager := m\<rparr>))))"

definition run_job ::
  "('g, 'v) query_registry \<Rightarrow> ('r, 'v) query_libs \<Rightarrow> 'v run_env \<Rightarrow> nat \<Rightarrow> ('g, 'r) query_state \<Rightarrow> ('g, 'r) query_state" where
  "run_job I Q X n s =
     (if n < length (qs_jobs s)
      then executeQuerySafe I Q X (qs_jobs s ! n) (s\<lparr>qs_jobs := take n (qs_jobs s) @ drop (Suc n) (qs_jobs s)\<rparr>)
      else s)"

section \<open>Asking for the result\<close>

record 'v shown_query =
  sq_id :: string
  sq_status :: query_status
  sq_table :: "'v query_result option"
  sq_failure :: "string option"
  sq_duration :: "duration option"
  sq_from_cache :: bool

text \<open>A completed query without a result shows an empty table.\<close>

definition shown_of :: "'v running_query \<Rightarrow> 'v shown_query" where
  "shown_of q =
     (let base = \<lparr>sq_id = q_id q, sq_status = q_status q, sq_table = None, sq_failure = None, sq_duration = None,
            sq_from_cache = False\<rparr>
      in (case q_status q of
            QueryStatusCompleted \<Rightarrow> base\<lparr>sq_table := Some (case q_result q of
                  Some res \<Rightarrow> res | None \<Rightarrow> \<lparr>qr_columns = [], qr_rows = [], qr_count = 0\<rparr>),
                sq_duration := Some (q_time q), sq_from_cache := q_cached q\<rparr>
          | QueryStatusFailed \<Rightarrow> base\<lparr>sq_failure := Some (q_error q), sq_duration := Some (q_time q)\<rparr>
          | QueryStatusCancelled \<Rightarrow> base\<lparr>sq_failure := Some (q_error q), sq_duration := Some (q_time q)\<rparr>
          | _ \<Rightarrow> base))"

definition HandleGetResult ::
  "('g, 'v) query_registry \<Rightarrow> instant \<Rightarrow> string \<Rightarrow> principal \<Rightarrow> ('g, 'r) query_state \<Rightarrow> 'v shown_query reply" where
  "HandleGetResult I t qid p s =
     (if qid = [] then Bad 400 ''query_id is required''
      else (case m_Get I t qid (qs_registry s) of
              None \<Rightarrow> Bad 404 ''query not found or expired''
            | Some q \<Rightarrow> Good (shown_of q)))"

definition HandleCancel ::
  "('g, 'v) query_registry \<Rightarrow> instant \<Rightarrow> string \<Rightarrow> principal \<Rightarrow> ('g, 'r) query_state \<Rightarrow> unit reply \<times> ('g, 'r) query_state" where
  "HandleCancel I t qid p s =
     (if qid = [] then (Bad 400 ''query_id is required'', s)
      else (case m_Cancel I t qid (qs_registry s) of
              (True, g) \<Rightarrow> (Good (), s\<lparr>qs_registry := g\<rparr>)
            | (False, g) \<Rightarrow>
                ((case m_Get I t qid g of
                    None \<Rightarrow> Bad 17001 ''query not found or expired''
                  | Some q \<Rightarrow> Bad 17001
                      (if q_status q = QueryStatusCompleted then ''query is completed''
                       else if q_status q = QueryStatusFailed then ''query has failed''
                       else if q_status q = QueryStatusCancelled then ''query is cancelled already''
                       else ''cancel failed'')), s\<lparr>qs_registry := g\<rparr>)))"

text \<open>The stream of events over the registry in memory: the first look, the observer, and its channel of ten
  places. \<open>StreamResult\<close> is cut where another goroutine can run.\<close>

datatype 'v first_look = No_query | Ended "'v shown_query" | Under_way

definition stream_look :: "string \<Rightarrow> 'v registry \<Rightarrow> 'v first_look" where
  "stream_look qid g =
     (case registry_Get qid g of
        None \<Rightarrow> No_query
      | Some q \<Rightarrow> if terminal_status (q_status q) then Ended (shown_of q) else Under_way)"

definition stream_listen :: "observer \<Rightarrow> 'v registry \<Rightarrow> 'v registry" where
  "stream_listen ob g = RegisterObserver ob g"

definition OnQueryUpdate :: "string \<Rightarrow> string \<Rightarrow> 'v running_query \<Rightarrow> 'v running_query list \<Rightarrow> 'v running_query list" where
  "OnQueryUpdate mine qid q ch = (if qid = mine \<and> length ch < 10 then ch @ [q] else ch)"

text \<open>One turn of the loop: an event to send, and whether the connection is closed after it.\<close>

definition stream_turn :: "'v running_query list \<Rightarrow> ('v shown_query \<times> bool \<times> 'v running_query list) option" where
  "stream_turn ch = (case ch of [] \<Rightarrow> None | q # ch' \<Rightarrow> Some (shown_of q, terminal_status (q_status q), ch'))"

section \<open>What becomes of a query\<close>

text \<open>The abstract account of a run: how the query ends, what that makes of its entry, and the line of the history.\<close>

datatype 'v outcome =
    Gone string                  \<comment> \<open>no connection, or a panic: an error without history\<close>
  | Stopped
  | Broken string string         \<comment> \<open>for the history, for the user\<close>
  | Table "'v query_result"

definition outcome_of :: "'v run_env \<Rightarrow> job \<Rightarrow> manager \<Rightarrow> 'v outcome" where
  "outcome_of X j m =
     (if isl (fst (mgr_GetDriver (xe_conn X) (jb_ds j) m)) then Gone ''failed to connect to the data source''
      else (case xe_panic X of
              Some msg \<Rightarrow> Gone (''query panicked: '' @ msg)
            | None \<Rightarrow>
                (if xe_cancelled X then Stopped
                 else (case query_calls X j of
                         Inl e \<Rightarrow> Broken e e
                       | Inr None \<Rightarrow> Broken ''query returned no result'' ''query returned no result''
                       | Inr (Some res) \<Rightarrow> Table res))))"

fun entry_of :: "'v run_env \<Rightarrow> 'v outcome \<Rightarrow> 'v running_query \<Rightarrow> 'v running_query" where
  "entry_of X (Gone msg) q = q\<lparr>q_status := QueryStatusFailed, q_error := msg, q_time := 0\<rparr>"
| "entry_of X Stopped q =
     q\<lparr>q_status := QueryStatusFailed, q_error := ''query was cancelled by the user'', q_time := xe_time X\<rparr>"
| "entry_of X (Broken h msg) q = q\<lparr>q_status := QueryStatusFailed, q_error := msg, q_time := xe_time X\<rparr>"
| "entry_of X (Table res) q = q\<lparr>q_status := QueryStatusCompleted, q_result := Some res, q_time := xe_time X\<rparr>"

fun line_of :: "'v run_env \<Rightarrow> job \<Rightarrow> 'v outcome \<Rightarrow> query_history list" where
  "line_of X j (Gone msg) = []"
| "line_of X j Stopped = [history_of X j ''cancelled'' ''query was cancelled by the user'' 0]"
| "line_of X j (Broken h msg) = [history_of X j ''failed'' h 0]"
| "line_of X j (Table res) = [history_of X j ''success'' [] (qr_count res)]"

definition lines_written :: "'v run_env \<Rightarrow> query_history list \<Rightarrow> query_history list" where
  "lines_written X hs = (if v_db (ce_ds (xe_conn X)) DS_history = None
     then map (\<lambda>h. h\<lparr>qh_id := v_new_id (ce_ds (xe_conn X)), qh_created := v_text (ce_ds (xe_conn X)) (v_now (ce_ds (xe_conn X)))\<rparr>) hs
     else [])"

definition cache_after ::
  "('r, 'v) query_libs \<Rightarrow> 'v run_env \<Rightarrow> job \<Rightarrow> 'v outcome \<Rightarrow> 'r cache \<Rightarrow> 'r cache" where
  "cache_after Q X j out c = (case out of Table res \<Rightarrow> store_in_cache Q X j res c | _ \<Rightarrow> c)"

lemma record_history_fields [simp]:
  "qs_registry (record_history X h s) = qs_registry s" "qs_manager (record_history X h s) = qs_manager s"
  "qs_cache (record_history X h s) = qs_cache s" "qs_jobs (record_history X h s) = qs_jobs s"
  "d_histories (qs_store (record_history X h s)) = d_histories (qs_store s) @ lines_written X [h]"
  by (simp_all add: record_history_def RecordQueryHistory_def lines_written_def wrap_db_def split: option.split)

lemma told_error_fields [simp]:
  "qs_manager (told_error I X j msg d s) = qs_manager s" "qs_cache (told_error I X j msg d s) = qs_cache s"
  "qs_jobs (told_error I X j msg d s) = qs_jobs s" "qs_store (told_error I X j msg d s) = qs_store s"
  "qs_registry (told_error I X j msg d s) = m_UpdateError I (xe_end X) (jb_id j) msg d (qs_registry s)"
  by (simp_all add: told_error_def)

lemma lines_written_none [simp]: "lines_written X [] = []"
  by (simp add: lines_written_def)

text \<open>Without a connection to it, the account says what the parts outside the registry look like.\<close>

lemma execute_frame:
  fixes s :: "('g, 'r) query_state"
  shows "qs_manager (executeQuerySafe I Q X j s) = snd (mgr_GetDriver (xe_conn X) (jb_ds j) (qs_manager s))"
    and "d_histories (qs_store (executeQuerySafe I Q X j s)) =
      d_histories (qs_store s) @ lines_written X (line_of X j (outcome_of X j (qs_manager s)))"
    and "qs_cache (executeQuerySafe I Q X j s) = cache_after Q X j (outcome_of X j (qs_manager s)) (qs_cache s)"
    and "qs_jobs (executeQuerySafe I Q X j s) = qs_jobs s"
  by (simp_all add: executeQuerySafe_def executeQuery_def settle_def outcome_of_def cache_after_def Let_def
      split: option.split sum.split prod.split)

context registry_laws
begin

lemma execute_entries:
  assumes "entries (qs_registry s) (jb_id j) = Some q"
  shows "entries (qs_registry (executeQuerySafe I Q X j s)) = (entries (qs_registry s))
    (jb_id j \<mapsto> entry_of X (outcome_of X j (qs_manager s)) (q\<lparr>q_status := QueryStatusRunning, q_start := Some (xe_start X)\<rparr>))"
  using assms
  by (simp add: executeQuerySafe_def executeQuery_def settle_def outcome_of_def Let_def running_law error_law result_law
      split: option.split sum.split prod.split)

lemma shown_entry: "entries (qs_registry s) qid = Some q \<Longrightarrow> qid \<noteq> [] \<Longrightarrow> HandleGetResult I t qid p s = Good (shown_of q)"
  by (simp add: HandleGetResult_def get_law)

lemma accepted_entry:
  assumes "HandleExecute I Q E rq p s = (Good (Accepted qid), s1)"
  shows "qid = qe_id E"
    and "entries (qs_registry s1) = (entries (qs_registry s))(qid \<mapsto> (new_query qid rq (pr_user p))\<lparr>q_created := qe_now E\<rparr>)"
    and "\<exists>d. GetByID (qe_ds E) (rq_datasource rq) (qs_store s) = Inr d \<and> ds_enabled d \<and>
      isSelectOnly (rq_sql rq) (ds_write d) (ds_type d) \<and>
      qs_jobs s1 = qs_jobs s @ [\<lparr>jb_id = qid, jb_ds = d, jb_request = rq, jb_user = pr_user p, jb_domain = pr_domain p,
        jb_limit = default_limit (qe_conf E)\<rparr>]"
    and "qs_manager s1 = qs_manager s" "qs_store s1 = qs_store s"
  using assms
  by (auto simp: HandleExecute_def admit_query_def register_law new_query_def permit_refused_def Let_def
      split: if_splits sum.splits prod.splits option.splits)

end

text \<open>What the user is shown at the end.\<close>

fun shown_outcome :: "'v run_env \<Rightarrow> string \<Rightarrow> 'v outcome \<Rightarrow> 'v shown_query" where
  "shown_outcome X qid (Table res) = \<lparr>sq_id = qid, sq_status = QueryStatusCompleted, sq_table = Some res,
     sq_failure = None, sq_duration = Some (xe_time X), sq_from_cache = False\<rparr>"
| "shown_outcome X qid (Gone msg) = \<lparr>sq_id = qid, sq_status = QueryStatusFailed, sq_table = None,
     sq_failure = Some msg, sq_duration = Some 0, sq_from_cache = False\<rparr>"
| "shown_outcome X qid (Broken h msg) = \<lparr>sq_id = qid, sq_status = QueryStatusFailed, sq_table = None,
     sq_failure = Some msg, sq_duration = Some (xe_time X), sq_from_cache = False\<rparr>"
| "shown_outcome X qid Stopped = \<lparr>sq_id = qid, sq_status = QueryStatusFailed, sq_table = None,
     sq_failure = Some ''query was cancelled by the user'', sq_duration = Some (xe_time X), sq_from_cache = False\<rparr>"

lemma shown_entry_of: "\<not> q_cached q \<Longrightarrow> shown_of (entry_of X out q) = shown_outcome X (q_id q) out"
  by (cases out) (simp_all add: shown_of_def Let_def)

lemma run_job_at: "qs_jobs s = js @ j # ks \<Longrightarrow>
    run_job I Q X (length js) s = executeQuerySafe I Q X j (s\<lparr>qs_jobs := js @ ks\<rparr>)"
  by (simp add: run_job_def)

lemma outcome_of_jobs [simp]: "qs_manager (s\<lparr>qs_jobs := js\<rparr>) = qs_manager s"
  by simp


text \<open>Any user may cancel any query of which he knows the id, and it is then shown as cancelled. That does not
  last: whatever the goroutine of the query meets afterwards, it ends the query as completed or as failed. When it
  has a connection and sees the cancellation, it ends it as failed, while the history says it was cancelled.
\<close>

theorem cancelled_query_ends_as_failed:
  fixes s :: "(('v, 'r) distributed, 'r) query_state" and R :: "'r redis" and J :: "'v codec"
  defines "I \<equiv> redis_registry R J"
  assumes "queries (qs_registry s) qid = Some q" and "cancellable q" and "qid \<noteq> []"
    and "qs_jobs s = js @ j # ks" and "jb_id j = qid"
  shows "let (reply, s1) = HandleCancel I t qid p s; s2 = run_job I Q X (length js) s1 in
      reply = Good () \<and>
      (\<exists>v. HandleGetResult I t qid p' s1 = Good v \<and> sq_status v = QueryStatusCancelled) \<and>
      (\<exists>v. HandleGetResult I t qid p' s2 = Good v \<and> sq_status v \<in> {QueryStatusCompleted, QueryStatusFailed} \<and>
         (outcome_of X j (qs_manager s) = Stopped \<longrightarrow> sq_status v = QueryStatusFailed \<and>
            d_histories (qs_store s2) = d_histories (qs_store s) @
              lines_written X [history_of X j ''cancelled'' ''query was cancelled by the user'' 0]))"
proof -
  note L = shared_laws [of R J, folded I_def]
  obtain g where g: "m_Cancel I t qid (qs_registry s) = (True, g)"
    using registry_laws.cancel_reply [OF L assms(2,3), of t] by (cases "m_Cancel I t qid (qs_registry s)") auto
  let ?q1 = "q\<lparr>q_status := QueryStatusCancelled\<rparr>" and ?s1 = "s\<lparr>qs_registry := g\<rparr>"
  have q1: "queries (qs_registry ?s1) qid = Some ?q1"
    using registry_laws.cancel_law [OF L, of t qid "qs_registry s"] g assms(2,3) by simp
  have c: "HandleCancel I t qid p s = (Good (), ?s1)" using g assms(4) by (simp add: HandleCancel_def)
  have run: "run_job I Q X (length js) ?s1 = executeQuerySafe I Q X j (?s1\<lparr>qs_jobs := js @ ks\<rparr>)"
    using assms(5) by (intro run_job_at) simp
  have "queries (qs_registry (?s1\<lparr>qs_jobs := js @ ks\<rparr>)) (jb_id j) = Some ?q1" using q1 assms(6) by simp
  from registry_laws.execute_entries [OF L this, of Q X]
  have "queries (qs_registry (run_job I Q X (length js) ?s1)) qid = Some (entry_of X (outcome_of X j (qs_manager s))
      (?q1\<lparr>q_status := QueryStatusRunning, q_start := Some (xe_start X)\<rparr>))"
    using run assms(6) by simp
  note shown = registry_laws.shown_entry [OF L this assms(4), of t p']
  have st: "sq_status (shown_of (entry_of X out q2)) \<in> {QueryStatusCompleted, QueryStatusFailed}" for out q2
    by (cases out) (simp_all add: shown_of_def Let_def)
  have "sq_status (shown_of (entry_of X Stopped q2)) = QueryStatusFailed" for q2
    by (simp add: shown_of_def Let_def)
  moreover have "sq_status (shown_of ?q1) = QueryStatusCancelled" by (simp add: shown_of_def Let_def)
  moreover have "d_histories (qs_store (run_job I Q X (length js) ?s1)) =
      d_histories (qs_store s) @ lines_written X (line_of X j (outcome_of X j (qs_manager s)))"
    using run execute_frame(2) [of I Q X j "?s1\<lparr>qs_jobs := js @ ks\<rparr>"] by simp
  ultimately show ?thesis
    using c shown st registry_laws.shown_entry [OF L q1 assms(4), of t p'] by (simp only: Let_def prod.case) auto
qed

section \<open>Permits and the cache\<close>

text \<open>A request that passes the checks before the cache and the permit.\<close>

definition passes :: "'v query_env \<Rightarrow> query_request \<Rightarrow> ds_store \<Rightarrow> bool" where
  "passes E rq st \<longleftrightarrow> rq_datasource rq \<noteq> 0 \<and> rq_sql rq \<noteq> [] \<and>
     \<not> (0 < qe_conf E ''datasource.max_sql_length'' \<and> qe_conf E ''datasource.max_sql_length'' < int (length (rq_sql rq))) \<and>
     (case GetByID (qe_ds E) (rq_datasource rq) st of
        Inl e \<Rightarrow> False
      | Inr d \<Rightarrow> ds_enabled d \<and> isSelectOnly (rq_sql rq) (ds_write d) (ds_type d))"

lemma passes_execute:
  assumes "passes E rq (qs_store s)"
  obtains d where "HandleExecute I Q E rq p s =
    (case cached_answer Q E rq (default_limit (qe_conf E)) (qs_cache s) of
       (Some res, c) \<Rightarrow> (Good (FromCache (qe_id E) res), s\<lparr>qs_cache := c\<rparr>)
     | (None, c) \<Rightarrow> admit_query I Q E p rq d (default_limit (qe_conf E)) (s\<lparr>qs_cache := c\<rparr>))"
  using assms by (auto simp: passes_def HandleExecute_def Let_def intro: that split: sum.splits)

text \<open>Once a query has returned a table, the same request of anybody who passes the checks is
  answered with it from the cache until its time is over, without a permit, a registration or a statement sent.
\<close>

theorem result_is_served_from_cache:
  assumes "redis_server (ql_redis Q) kv" "redis_up (ql_redis Q)"
    and "0 < runtimeCacheTTL (qs_cache s)" "runtimeCacheTTL (qs_cache s) < 2 ^ 32"
    and "outcome_of X j (qs_manager s) = Table res" "xe_caching X"
    and "enc_result (ql_codec Q) res = Inr v" "dec_result (ql_codec Q) v = Inr res'"
    and "qs_cache s2 = qs_cache (executeQuerySafe I Q X j s)"
    and "passes E (jb_request j) (qs_store s2)" "qe_caching E" "jb_limit j = default_limit (qe_conf E)"
    and "qe_now E < xe_end X + runtimeCacheTTL (qs_cache s) * second"
  shows "fst (HandleExecute I Q E (jb_request j) p s2) = Good (FromCache (qe_id E) res') \<and>
    qs_jobs (snd (HandleExecute I Q E (jb_request j) p s2)) = qs_jobs s2 \<and>
    qs_registry (snd (HandleExecute I Q E (jb_request j) p s2)) = qs_registry s2"
proof -
  let ?rq = "jb_request j" and ?n = "jb_limit j"
  have n: "(if ?n \<le> 0 then 1000 else ?n) = ?n" using assms(12) by (simp add: default_limit_def Let_def)
  obtain x c where c: "cache_Set (ql_redis Q) (ql_codec Q) (ql_md5 Q) (xe_end X) (rq_datasource ?rq) (rq_database ?rq)
      (rq_sql ?rq) ?n res (qs_cache s) = (x, c)" by fastforce
  have "qs_cache s2 = c"
    using assms(9) c n assms(5,6) by (simp add: execute_frame(3) cache_after_def store_in_cache_def)
  note kv = cache_Set_kv [OF assms(1-4,7) c]
  have "cached kv (ql_codec Q) (ql_md5 Q) (qe_now E) c (rq_datasource ?rq, rq_database ?rq, rq_sql ?rq, ?n) = Some res'"
    using kv assms(8,13) by (simp add: cached_def)
  moreover have "fst (cache_Get (ql_redis Q) (ql_codec Q) (ql_md5 Q) (qe_now E) (rq_datasource ?rq) (rq_database ?rq)
      (rq_sql ?rq) ?n c) =
      Inr (cached kv (ql_codec Q) (ql_md5 Q) (qe_now E) c (rq_datasource ?rq, rq_database ?rq, rq_sql ?rq, ?n))"
    using kv assms(3,8) by (intro cache_Get_cached [OF assms(1,2)]) (auto split: if_splits)
  ultimately obtain c1 where "cached_answer Q E ?rq ?n (qs_cache s2) = (Some res', c1)"
    using assms(11) \<open>qs_cache s2 = c\<close>
    by (cases "cache_Get (ql_redis Q) (ql_codec Q) (ql_md5 Q) (qe_now E) (rq_datasource ?rq) (rq_database ?rq) (rq_sql ?rq) ?n c")
       (auto simp: cached_answer_def)
  moreover obtain d where "HandleExecute I Q E ?rq p s2 =
    (case cached_answer Q E ?rq ?n (qs_cache s2) of
       (Some res, c) \<Rightarrow> (Good (FromCache (qe_id E) res), s2\<lparr>qs_cache := c\<rparr>)
     | (None, c) \<Rightarrow> admit_query I Q E p ?rq d ?n (s2\<lparr>qs_cache := c\<rparr>))"
    using passes_execute [OF assms(10), of I Q p] unfolding assms(12) by blast
  ultimately show ?thesis by simp
qed

text \<open>Counting up and down a number never fails.\<close>

definition counters_up :: "'r redis \<Rightarrow> ('r \<Rightarrow> keys) \<Rightarrow> bool" where
  "counters_up R kv \<longleftrightarrow> (\<forall>t k r. live t (kv r k) = None \<or> (\<exists>n. live t (kv r k) = Some (show_int n)) \<longrightarrow>
     (\<exists>n r'. redis_Incr R t k r = (Inr n, r')) \<and> (\<exists>n r'. redis_Decr R t k r = (Inr n, r')))"

definition at_rest :: "instant \<Rightarrow> entry option \<Rightarrow> bool" where
  "at_rest t e \<longleftrightarrow> live t e = None \<or> live t e = Some (show_int 0)"

lemma rest_up:
  assumes "redis_counters R kv" "redis_up R" "counters_up R kv" "at_rest t (kv r k)" "1 \<le> limit"
  obtains r1 where "run_prog R t (take_key k limit taken over go) r = run_prog R t go r1"
    and "live t (kv r1 k) = Some (show_int 1)" and "\<And>k'. k' \<noteq> k \<Longrightarrow> kv r1 k' = kv r k'"
proof -
  have srv: "redis_server R kv" using assms(1) by (rule redis_counters.axioms(1))
  obtain n ra where n: "redis_Incr R t k r = (Inr n, ra)"
    using assms(3,4) unfolding counters_up_def at_rest_def by blast
  have c: "counter t k (kv r) = 0" using assms(4) by (auto simp: at_rest_def counter_def read_show_int)
  have a: "n = 1" "kv ra = bump 1 t k (kv r)" using redis_counters.incr_law [OF assms(1) n] c by simp_all
  obtain b rb where b: "redis_Expire R t k (5 * minute) ra = (Inr b, rb)" using up_Expire [OF assms(2)] by blast
  have e: "kv rb = touch t k (5 * minute) (bump 1 t k (kv r))" using redis_server.expire_law [OF srv _ b] a(2) by simp
  have "live t (bump 1 t k (kv r) k) = Some (show_int 1)"
    using c by (auto simp: bump_def live_def split: option.splits prod.splits if_splits)
  then have "live t (kv rb k) = Some (show_int 1)"
    unfolding e by (auto simp: touch_def live_def split: option.splits prod.splits if_splits)
  moreover have "kv rb k' = kv r k'" if "k' \<noteq> k" for k' using that e by simp
  moreover have "run_prog R t (take_key k limit taken over go) r = run_prog R t go rb"
    using n a(1) b assms(5) by (simp add: take_key_def Let_def)
  ultimately show thesis by (rule that [rotated])
qed

lemma rest_down:
  assumes "redis_counters R kv" "counters_up R kv" "live t (kv r k) = Some (show_int 1)"
  obtains r1 where "run_prog R t (DoDecr k p) r = run_prog R t p r1"
    and "live t (kv r1 k) = Some (show_int 0)" and "\<And>k'. k' \<noteq> k \<Longrightarrow> kv r1 k' = kv r k'"
proof -
  obtain n ra where n: "redis_Decr R t k r = (Inr n, ra)"
    using assms(2,3) unfolding counters_up_def by blast
  have c: "counter t k (kv r) = 1" using assms(3) by (simp add: counter_def read_show_int)
  have a: "kv ra = bump (- 1) t k (kv r)" using redis_counters.decr_law [OF assms(1) n] by simp
  have "live t (kv ra k) = Some (show_int 0)"
    using c assms(3) unfolding a by (auto simp: bump_def live_def split: option.splits prod.splits if_splits)
  moreover have "kv ra k' = kv r k'" if "k' \<noteq> k" for k' using a that by simp
  moreover have "run_prog R t (DoDecr k p) r = run_prog R t p ra" using n by simp
  ultimately show thesis by (rule that [rotated])
qed

definition all_at_rest :: "instant \<Rightarrow> int \<Rightarrow> int \<Rightarrow> keys \<Rightarrow> bool" where
  "all_at_rest t u d m \<longleftrightarrow> at_rest t (m (user_key u)) \<and> at_rest t (m global_key) \<and> at_rest t (m (ds_key d))"

lemma permit_round:
  assumes "redis_counters R kv" "redis_up R" "counters_up R kv" "proper_limits L" "all_at_rest t u d (kv r)"
  obtains r1 where "run_prog R t (AcquireForDatasource L u d) r = (Inr (), r1)"
    and "all_at_rest t u d (kv (snd (run_prog R t (release u (Some d)) r1)))"
proof -
  note up = rest_up [OF assms(1-3)] and down = rest_down [OF assms(1,3)]
  have L: "1 \<le> max_user L" "1 \<le> max_global L" "1 \<le> max_ds L" using assms(4) by (auto simp: proper_limits_def)
  have r: "at_rest t (kv r (user_key u))" "at_rest t (kv r global_key)" "at_rest t (kv r (ds_key d))"
    using assms(5) by (simp_all add: all_at_rest_def)
  let ?p3 = "Done (Inr ())"
  let ?p2 = "take_key (ds_key d) (max_ds L) [user_key u, global_key] ds_limit_text ?p3"
  let ?p1 = "take_key global_key (max_global L) [user_key u] limit_text ?p2"
  obtain ra where a: "run_prog R t (AcquireForDatasource L u d) r = run_prog R t ?p1 ra"
    "live t (kv ra (user_key u)) = Some (show_int 1)" "\<And>k'. k' \<noteq> user_key u \<Longrightarrow> kv ra k' = kv r k'"
    unfolding AcquireForDatasource_def using up [OF r(1) L(1)] by blast
  have g: "at_rest t (kv ra global_key)" using r(2) a(3) by simp
  obtain rb where b: "run_prog R t ?p1 ra = run_prog R t ?p2 rb" "live t (kv rb global_key) = Some (show_int 1)"
    "\<And>k'. k' \<noteq> global_key \<Longrightarrow> kv rb k' = kv ra k'"
    using up [OF g L(2)] by blast
  have g: "at_rest t (kv rb (ds_key d))" using r(3) a(3) b(3) by simp
  obtain rc where c: "run_prog R t ?p2 rb = run_prog R t ?p3 rc" "live t (kv rc (ds_key d)) = Some (show_int 1)"
    "\<And>k'. k' \<noteq> ds_key d \<Longrightarrow> kv rc k' = kv rb k'"
    using up [OF g L(3)] by blast
  have one: "live t (kv rc (user_key u)) = Some (show_int 1)" "live t (kv rc global_key) = Some (show_int 1)"
    using a(2) b(2,3) c(3) by simp_all
  let ?q3 = "DoDecr (ds_key d) ?p3" and ?q2 = "DoDecr global_key (DoDecr (ds_key d) ?p3)"
  obtain rd where d: "run_prog R t (DoDecr (user_key u) ?q2) rc = run_prog R t ?q2 rd"
    "live t (kv rd (user_key u)) = Some (show_int 0)" "\<And>k'. k' \<noteq> user_key u \<Longrightarrow> kv rd k' = kv rc k'"
    using down [OF one(1)] by blast
  have g: "live t (kv rd global_key) = Some (show_int 1)" using one(2) d(3) by simp
  obtain re where e: "run_prog R t ?q2 rd = run_prog R t ?q3 re" "live t (kv re global_key) = Some (show_int 0)"
    "\<And>k'. k' \<noteq> global_key \<Longrightarrow> kv re k' = kv rd k'"
    using down [OF g] by blast
  have g: "live t (kv re (ds_key d)) = Some (show_int 1)" using c(2) d(3) e(3) by simp
  obtain rf where f: "run_prog R t ?q3 re = run_prog R t ?p3 rf" "live t (kv rf (ds_key d)) = Some (show_int 0)"
    "\<And>k'. k' \<noteq> ds_key d \<Longrightarrow> kv rf k' = kv re k'"
    using down [OF g] by blast
  have "snd (run_prog R t (release u (Some d)) rc) = rf"
    using d(1) e(1) f(1) by (simp add: release_def permit_keys_def)
  moreover have "all_at_rest t u d (kv rf)"
    using d(2) e(2,3) f(2,3) by (simp add: all_at_rest_def at_rest_def)
  ultimately show thesis using a(1) b(1) c(1) that [of rc] by simp
qed

lemma execute_at_rest:
  assumes "redis_counters (ql_redis Q) kv" "redis_up (ql_redis Q)" "counters_up (ql_redis Q) kv"
    and "passes E rq (qs_store s)" "proper_limits (qe_limits E)"
    and "runtimeCacheTTL (qs_cache s) \<le> 0"
    and "all_at_rest (qe_now E) (pr_user p) (rq_datasource rq) (kv (c_redis (qs_cache s)))"
  shows "fst (HandleExecute I Q E rq p s) = Good (Accepted (qe_id E)) \<and>
    length (qs_jobs (snd (HandleExecute I Q E rq p s))) = length (qs_jobs s) + 1 \<and>
    qs_store (snd (HandleExecute I Q E rq p s)) = qs_store s \<and>
    runtimeCacheTTL (qs_cache (snd (HandleExecute I Q E rq p s))) \<le> 0 \<and>
    all_at_rest (qe_now E) (pr_user p) (rq_datasource rq) (kv (c_redis (qs_cache (snd (HandleExecute I Q E rq p s)))))"
proof -
  have miss: "cached_answer Q E rq n (qs_cache s) = (None, qs_cache s)" for n
    using assms(6) by (simp add: cached_answer_def cache_Get_def)
  obtain d where ex: "HandleExecute I Q E rq p s = admit_query I Q E p rq d (default_limit (qe_conf E)) s"
    using passes_execute [OF assms(4), of I Q p] miss by fastforce
  obtain r1 where "run_prog (ql_redis Q) (qe_now E) (AcquireForDatasource (qe_limits E) (pr_user p) (rq_datasource rq))
      (c_redis (qs_cache s)) = (Inr (), r1)"
    "all_at_rest (qe_now E) (pr_user p) (rq_datasource rq)
      (kv (snd (run_prog (ql_redis Q) (qe_now E) (release (pr_user p) (Some (rq_datasource rq))) r1)))"
    using permit_round [OF assms(1-3,5,7)] by blast
  then show ?thesis
    using assms(6,7) unfolding ex by (simp add: admit_query_def take_permit_def return_permit_def)
qed

text \<open>C25: The limits on concurrent queries do not limit the queries under way. However low they are, a user
  whose counters are at rest gets any number of queries accepted one after the other, with none of them run in
  between: the permit of each is given back when its request is answered, before its goroutine has done anything.
\<close>

theorem limits_do_not_bound_queries_under_way:
  assumes "redis_counters (ql_redis Q) kv" "redis_up (ql_redis Q)" "counters_up (ql_redis Q) kv"
    and "\<forall>(E, rq) \<in> set es. passes E rq (qs_store s) \<and> proper_limits (qe_limits E) \<and> qe_now E = t \<and> rq_datasource rq = d"
    and "runtimeCacheTTL (qs_cache s) \<le> 0" "all_at_rest t (pr_user p) d (kv (c_redis (qs_cache s)))"
  shows "length (qs_jobs (fold (\<lambda>(E, rq) s. snd (HandleExecute I Q E rq p s)) es s)) = length (qs_jobs s) + length es"
  using assms(4-6)
proof (induction es arbitrary: s)
  case (Cons x es)
  obtain E rq where x: "x = (E, rq)" by (cases x)
  let ?s = "snd (HandleExecute I Q E rq p s)"
  have one: "length (qs_jobs ?s) = length (qs_jobs s) + 1" "qs_store ?s = qs_store s" "runtimeCacheTTL (qs_cache ?s) \<le> 0"
    "all_at_rest t (pr_user p) d (kv (c_redis (qs_cache ?s)))"
    using execute_at_rest [OF assms(1-3), of E rq s p I] Cons.prems x by auto
  have "length (qs_jobs (fold (\<lambda>(E, rq) s. snd (HandleExecute I Q E rq p s)) es ?s)) = length (qs_jobs ?s) + length es"
    using one Cons.prems by (intro Cons.IH) auto
  with one(1) x show ?case by simp
qed simp

text \<open>A stream that is opened while the query ends misses the end: nothing is sent to an observer that
  registers after the notifications have gone out.\<close>

theorem stream_misses_the_end:
  assumes "stream_look qid g = Under_way" and "ob \<notin> set (observers g)" "\<forall>(o', x) \<in> set (notified g). o' \<noteq> ob"
  shows "let g' = stream_listen ob (UpdateResult qid res d g)
    in (\<exists>v. stream_look qid g' = Ended v) \<and> (\<forall>(o', x) \<in> set (notified g'). o' \<noteq> ob)"
  using assms
  by (auto simp: stream_look_def stream_listen_def RegisterObserver_def UpdateResult_def registry_Get_def
      notifyObservers_def set_query_def Let_def split: option.splits if_splits)

section \<open>The properties at concrete runs\<close>

definition demo_rq :: query_request where
  "demo_rq = \<lparr>rq_datasource = 7, rq_sql = ''SELECT 1'', rq_database = ''db''\<rparr>"

definition demo_qe :: "string \<Rightarrow> nat query_env" where
  "demo_qe qid = \<lparr>qe_now = 0, qe_conf = (\<lambda>k. 0), qe_id = qid, qe_ds = demo_dsenv, qe_limits = demo_limits,
     qe_caching = True, qe_limiting = True\<rparr>"

definition demo_libs :: "(keys, nat) query_libs" where
  "demo_libs = \<lparr>ql_redis = mem_redis, ql_codec = result_codec, ql_md5 = id\<rparr>"

definition demo_state :: "int \<Rightarrow> ((nat, keys) distributed, keys) query_state" where
  "demo_state ttl = \<lparr>qs_registry = NewDistributedQueryRegistry Map.empty ''a'', qs_manager = NewManager,
     qs_cache = NewCacheService Map.empty (\<lambda>k. ttl), qs_store = demo_dstore, qs_jobs = []\<rparr>"

definition demo_user :: principal where
  "demo_user = \<lparr>pr_user = 3, pr_name = ''u'', pr_real = ''U'', pr_domain = 1, pr_api = False, pr_role = None\<rparr>"

definition demo_run :: "bool \<Rightarrow> nat run_env" where
  "demo_run stop = \<lparr>xe_start = 1, xe_conn = (demo_fails 1)\<lparr>ce_connect := None\<rparr>, xe_calls = (\<lambda>i sql db. Inr (Some demo_result)),
     xe_stopped = (\<lambda>i. None), xe_panic = None, xe_cancelled = stop, xe_time = 5, xe_end = 6, xe_caching = True\<rparr>"

definition demo_job :: job where
  "demo_job = \<lparr>jb_id = ''q_1'', jb_ds = demo_ds, jb_request = demo_rq, jb_user = 3, jb_domain = 1, jb_limit = 1000\<rparr>"

lemma demo_run_fields [simp]: "xe_panic (demo_run stop) = None" "xe_cancelled (demo_run stop) = stop"
  "xe_time (demo_run stop) = 5" "xe_end (demo_run stop) = 6" "xe_caching (demo_run stop)"
  by (simp_all add: demo_run_def)

lemma demo_found: "GetByID demo_dsenv 7 demo_dstore = Inr demo_ds"
  by (rule GetByID_wf [OF _ demo_first demo_wf]) (simp add: demo_dsenv_def)

lemma demo_select: "isSelectOnly ''SELECT 1'' (ds_write demo_ds) (ds_type demo_ds)"
  by code_simp

lemma demo_passes: "passes (demo_qe qid) demo_rq demo_dstore"
  by (simp add: passes_def demo_qe_def demo_rq_def demo_found demo_select demo_ds_open)

lemma demo_connects: "\<not> isl (fst (mgr_GetDriver (xe_conn (demo_run stop)) demo_ds NewManager))"
  by (simp add: demo_run_def demo_fails_def mgr_GetDriver_def admit_def demo_ds_open getCircuitBreaker_def NewManager_def
      NewCircuitBreaker_def AllowRequest_def on_breaker_def reconnect_def start_connecting_def connect_def Let_def)

lemma demo_table: "query_calls (demo_run stop) j = Inr (Some demo_result)"
  by (simp add: query_calls_def WithRetry_def DefaultRetryConfig_def demo_run_def numeral_3_eq_3 Let_def)

lemma demo_outcome: "jb_ds j = demo_ds \<Longrightarrow> outcome_of (demo_run stop) j NewManager = (if stop then Stopped else Table demo_result)"
  using demo_connects [of stop] by (simp add: outcome_of_def demo_table)

lemma demo_up: "redis_counters (ql_redis demo_libs) (\<lambda>m. m)" "redis_up (ql_redis demo_libs)"
  "counters_up (ql_redis demo_libs) (\<lambda>m. m)"
  using mem_counters mem_redis_up by (simp_all add: demo_libs_def counters_up_def mem_add_def) (auto simp: read_show_int)

lemma demo_rests: "all_at_rest t u d (c_redis (qs_cache (demo_state ttl)))"
  by (simp add: demo_state_def NewCacheService_def refreshCacheConfig_def all_at_rest_def at_rest_def)

lemma demo_state_fields [simp]: "qs_store (demo_state ttl) = demo_dstore" "qs_manager (demo_state ttl) = NewManager"
  "qs_jobs (demo_state ttl) = []" "runtimeCacheTTL (qs_cache (demo_state ttl)) = ttl"
  by (simp_all add: demo_state_def NewCacheService_def refreshCacheConfig_def)

lemma demo_limits_proper: "proper_limits demo_limits" by (simp add: demo_limits_def refresh_proper)

theorem limits_do_not_bound_queries_under_way_witness:
  "length (qs_jobs (fold (\<lambda>(E, rq) s. snd (HandleExecute (redis_registry mem_redis result_codec) demo_libs E rq demo_user s))
     (map (\<lambda>qid. (demo_qe qid, demo_rq)) [''a'', ''b'', ''c'']) (demo_state 0))) = 3"
  using limits_do_not_bound_queries_under_way [OF demo_up, of "map (\<lambda>qid. (demo_qe qid, demo_rq)) [''a'', ''b'', ''c'']"
      "demo_state 0" 0 7 demo_user "redis_registry mem_redis result_codec"]
  by (simp add: demo_passes demo_rests) (simp add: demo_qe_def demo_limits_proper demo_rq_def)


theorem cancelled_query_ends_as_failed_witness:
  "let s = (demo_state 0)\<lparr>qs_registry := (qs_registry (demo_state 0))\<lparr>queries := [''q_1'' \<mapsto> new_query ''q_1'' demo_rq 3]\<rparr>,
              qs_jobs := [demo_job]\<rparr>;
       s2 = run_job (redis_registry mem_redis result_codec) demo_libs (demo_run True) 0
              (snd (HandleCancel (redis_registry mem_redis result_codec) 2 ''q_1'' demo_user s))
   in \<exists>v. HandleGetResult (redis_registry mem_redis result_codec) 2 ''q_1'' demo_user s2 = Good v \<and>
      sq_status v = QueryStatusFailed"
  using cancelled_query_ends_as_failed [where s = "(demo_state 0)\<lparr>qs_registry := (qs_registry (demo_state 0))
        \<lparr>queries := [''q_1'' \<mapsto> new_query ''q_1'' demo_rq 3]\<rparr>, qs_jobs := [demo_job]\<rparr>" and qid = "''q_1''"
      and q = "new_query ''q_1'' demo_rq 3" and js = "[]" and j = demo_job and ks = "[]" and R = mem_redis
      and J = result_codec and t = 2 and p = demo_user and p' = demo_user and X = "demo_run True" and Q = demo_libs]
  by (auto simp: cancellable_def new_query_def demo_job_def demo_outcome Let_def split: prod.splits)

definition demo_done :: "((nat, keys) distributed, keys) query_state" where
  "demo_done = executeQuerySafe (redis_registry mem_redis result_codec) demo_libs (demo_run False) demo_job (demo_state 300)"

theorem result_is_served_from_cache_witness:
  "fst (HandleExecute (redis_registry mem_redis result_codec) demo_libs ((demo_qe ''q_2'')\<lparr>qe_now := 200 * second\<rparr>) demo_rq
     demo_user ((demo_state 0)\<lparr>qs_cache := qs_cache demo_done\<rparr>)) = Good (FromCache ''q_2'' demo_result)"
proof -
  let ?E = "(demo_qe ''q_2'')\<lparr>qe_now := 200 * second\<rparr>"
  have srv: "redis_server (ql_redis demo_libs) (\<lambda>m. m)" using mem_server by (simp add: demo_libs_def)
  have "passes ?E demo_rq demo_dstore" using demo_passes [of "''q_2''"] by (simp add: passes_def demo_qe_def)
  moreover have "outcome_of (demo_run False) demo_job NewManager = Table demo_result"
    by (rule demo_outcome [of demo_job False, simplified]) (simp add: demo_job_def)
  ultimately show ?thesis
    using result_is_served_from_cache [OF srv demo_up(2), where s = "demo_state 300" and X = "demo_run False" and j = demo_job
        and E = ?E and ?s2.0 = "(demo_state 0)\<lparr>qs_cache := qs_cache demo_done\<rparr>" and p = demo_user
        and I = "redis_registry mem_redis result_codec" and res = demo_result and res' = demo_result]
    by (simp add: demo_done_def demo_libs_def demo_job_def demo_qe_def default_limit_def)
qed

end
