(* ===== verification/Query_Requests.thy ===== *)
theory Query_Requests
  imports Query_Execution
begin

text \<open>
  The other requests of scheduler/internal/handler/query.go: metadata through its cache, exports,
  the history, saved statements, statistics of a pool and clearing the cache. A parameter that was left out or
  did not parse is \<open>None\<close>. The last section runs the operations of \<open>Query_Execution\<close> one after the other and shows
  what holds of every goroutine that waits to be run.
\<close>

section \<open>Metadata\<close>

text \<open>What the driver and the encoder answer: the values of a level, and whether the context ended by its
  deadline. \<open>in_use\<close> and \<open>max_open\<close> come from the pool of a driver that has one.\<close>

record 'm meta_env =
  me_fetch :: "string \<Rightarrow> string \<Rightarrow> string \<Rightarrow> 'm result"
  me_enc :: "'m \<Rightarrow> string result"
  me_dec :: "string \<Rightarrow> string \<Rightarrow> 'm result"
  me_late :: bool
  me_in_use :: int
  me_max_open :: int

definition meta_failed :: "'m meta_env \<Rightarrow> string \<Rightarrow> string \<Rightarrow> 'a reply" where
  "meta_failed M what e =
     (if isPoolBusyError (Some e) then Bad 17002 ''connection pool is full''
      else if me_late M then Bad 17001 (''timeout while reading '' @ what)
      else Bad 17001 (''failed to read '' @ what @ '': '' @ e))"

text \<open>One level: the cache when it may be asked, then the driver, then the cache again. The key is that of the
  level; a list of databases is always cached, the others when their names are given.\<close>

definition meta_level ::
  "('r, 'v) query_libs \<Rightarrow> 'v query_env \<Rightarrow> 'm meta_env \<Rightarrow> int \<Rightarrow> string \<Rightarrow> bool \<Rightarrow> string \<Rightarrow> string \<Rightarrow> string \<Rightarrow>
   'r cache \<Rightarrow> 'm reply \<times> 'r cache" where
  "meta_level Q E M ds level named key database table c =
     (let ask = qe_caching E \<and> named;
          hit = (if ask
                 then (case GetMetadata (ql_redis Q) (qe_now E) ds level key c of
                         Inr (Some data) \<Rightarrow> (case me_dec M level data of Inr v \<Rightarrow> Some v | Inl e \<Rightarrow> None)
                       | _ \<Rightarrow> None)
                 else None)
      in (case hit of
            Some v \<Rightarrow> (Good v, c)
          | None \<Rightarrow>
              (case me_fetch M level database table of
                 Inl e \<Rightarrow> (meta_failed M level e, c)
               | Inr v \<Rightarrow>
                   (Good v,
                    if ask
                    then (case me_enc M v of
                            Inr data \<Rightarrow> snd (SetMetadata (ql_redis Q) (qe_now E) ds level key data c)
                          | Inl e \<Rightarrow> c)
                    else c))))"

definition HandleGetMetadata ::
  "('r, 'v) query_libs \<Rightarrow> 'v query_env \<Rightarrow> conn_env \<Rightarrow> 'm meta_env \<Rightarrow> int option \<Rightarrow> string \<Rightarrow> string \<Rightarrow> string \<Rightarrow>
   principal \<Rightarrow> ('g, 'r) query_state \<Rightarrow> 'm reply \<times> ('g, 'r) query_state" where
  "HandleGetMetadata Q E V M ds level database table p s =
     (case ds of
        None \<Rightarrow> (Bad 400 ''invalid data source id'', s)
      | Some i \<Rightarrow>
          (case GetByID (qe_ds E) i (qs_store s) of
             Inl e \<Rightarrow> (Bad 404 ''data source not found'', s)
           | Inr d \<Rightarrow>
               (case mgr_GetDriver V d (qs_manager s) of
                  (Inl e, m) \<Rightarrow> (Bad 16001 ''failed to connect to the data source'', s\<lparr>qs_manager := m\<rparr>)
                | (Inr h, m) \<Rightarrow>
                    (let s1 = s\<lparr>qs_manager := m\<rparr>;
                         run = (\<lambda>named key. case meta_level Q E M i level named key database table (qs_cache s1) of
                                  (r, c) \<Rightarrow> (r, s1\<lparr>qs_cache := c\<rparr>))
                     in if can_be_tuned (ds_type d) \<and> me_in_use M \<ge> me_max_open M
                        then (Bad 17002 ''connection pool is full'', s1)
                        else if level = ''databases'' then run True []
                        else if level = ''tables'' then run (database \<noteq> []) database
                        else if level = ''columns'' then run (database \<noteq> [] \<and> table \<noteq> []) (database @ ''.'' @ table)
                        else (Bad 400 ''invalid level of metadata'', s1)))))"

section \<open>Exports\<close>

text \<open>The rows of the file, the header first; \<open>encoding/csv\<close> makes the text. \<open>cell\<close> prints a value, nothing for
  nil. An export is neither limited by permits nor recorded in the history.\<close>

definition export_rows :: "(string \<Rightarrow> int) \<Rightarrow> int \<Rightarrow> int" where
  "export_rows conf wanted =
     (let n = conf ''datasource.max_export_rows''; m = (if n \<le> 0 then 1000 else n)
      in if 0 < wanted \<and> wanted < m then wanted else m)"

definition HandleExportCSV ::
  "'v query_env \<Rightarrow> conn_env \<Rightarrow> (string \<Rightarrow> string \<Rightarrow> 'v query_result option result) \<Rightarrow> ('v \<Rightarrow> string) \<Rightarrow>
   query_request \<Rightarrow> int \<Rightarrow> principal \<Rightarrow> ('g, 'r) query_state \<Rightarrow> string list list reply \<times> ('g, 'r) query_state" where
  "HandleExportCSV E V call cell rq wanted p s =
     (if rq_datasource rq = 0 \<or> rq_sql rq = [] then (Bad 400 ''invalid request'', s)
      else (case GetByID (qe_ds E) (rq_datasource rq) (qs_store s) of
              Inl e \<Rightarrow> (Bad 404 ''data source not found'', s)
            | Inr d \<Rightarrow>
                (if \<not> isSelectOnly (rq_sql rq) (ds_write d) (ds_type d)
                 then (Bad 17005 ''only SELECT is allowed'', s)
                 else (case mgr_GetDriver V d (qs_manager s) of
                         (Inl e, m) \<Rightarrow> (Bad 16001 ''failed to connect to the data source'', s\<lparr>qs_manager := m\<rparr>)
                       | (Inr h, m) \<Rightarrow>
                           ((case call (ApplyLimitToSQL (rq_sql rq) (export_rows (qe_conf E) wanted) (ds_type d)) (rq_database rq) of
                               Inl e \<Rightarrow> Bad 17001 (''query failed: '' @ e)
                             | Inr None \<Rightarrow> Bad 17001 ''query returned no result''
                             | Inr (Some res) \<Rightarrow> Good (qr_columns res # map (map cell) (qr_rows res))), s\<lparr>qs_manager := m\<rparr>)))))"

section \<open>History\<close>

record page_query =
  pq_domain :: "int option"
  pq_page :: "int option"
  pq_size :: "int option"
  pq_datasource :: "int option"
  pq_by :: "int option"
  pq_status :: string
  pq_start :: string
  pq_end :: string
  pq_search :: string

text \<open>An administrator chooses the domain; the others are bound to their own.\<close>

definition asked_domain :: "principal \<Rightarrow> page_query \<Rightarrow> int" where
  "asked_domain p q =
     (if pr_role p = Some ''system_admin'' \<or> pr_role p = Some ''admin'' then given (pq_domain q) 0 else pr_domain p)"

definition page_number :: "page_query \<Rightarrow> int" where
  "page_number q = (let n = given (pq_page q) 1 in if n < 1 then 1 else n)"

definition page_size :: "page_query \<Rightarrow> int" where
  "page_size q = (let n = given (pq_size q) 20 in if n < 1 \<or> n > 100 then 20 else n)"

definition history_filter_of :: "principal \<Rightarrow> page_query \<Rightarrow> history_filter" where
  "history_filter_of p q =
     \<lparr>hf_domain = asked_domain p q, hf_datasource = given (pq_datasource q) 0, hf_status = pq_status q,
      hf_start = pq_start q, hf_end = pq_end q, hf_by = given (pq_by q) 0, hf_search = pq_search q\<rparr>"

definition HandleGetHistory ::
  "ds_env \<Rightarrow> (query_history list \<Rightarrow> query_history list) \<Rightarrow> page_query \<Rightarrow> principal \<Rightarrow> ds_store \<Rightarrow>
   ((query_history \<times> string) list \<times> int) reply" where
  "HandleGetHistory V newest q p s =
     (case GetQueryHistory V newest (history_filter_of p q) (page_number q) (page_size q) s of
        Inl e \<Rightarrow> Bad 17001 ''failed to read the history''
      | Inr x \<Rightarrow> Good x)"

definition HandleDeleteQueryHistory ::
  "ds_env \<Rightarrow> string option \<Rightarrow> int option \<Rightarrow> principal \<Rightarrow> ds_store \<Rightarrow> unit reply \<times> ds_store" where
  "HandleDeleteQueryHistory V stmt i p s =
     (case i of
        None \<Rightarrow> (Bad 400 ''invalid history id'', s)
      | Some n \<Rightarrow>
          (case DeleteQueryHistory V stmt n s of
             (Inl e, s1) \<Rightarrow> (Bad 17008 ''failed to delete'', s1) | (Inr _, s1) \<Rightarrow> (Good (), s1)))"

definition HandleBatchDeleteQueryHistory ::
  "ds_env \<Rightarrow> string option \<Rightarrow> int list \<Rightarrow> principal \<Rightarrow> ds_store \<Rightarrow> unit reply \<times> ds_store" where
  "HandleBatchDeleteQueryHistory V stmt ids p s =
     (if ids = [] then (Bad 400 ''nothing chosen'', s)
      else (case BatchDeleteQueryHistory V stmt ids s of
              (Inl e, s1) \<Rightarrow> (Bad 17009 ''failed to delete'', s1) | (Inr _, s1) \<Rightarrow> (Good (), s1)))"

section \<open>Saved statements\<close>

record save_request =
  sr_name :: string
  sr_datasource :: int
  sr_database :: string
  sr_sql :: string
  sr_description :: string
  sr_public :: "bool option"

definition save_bound :: "save_request \<Rightarrow> bool" where
  "save_bound q \<longleftrightarrow> sr_name q \<noteq> [] \<and> sr_datasource q \<noteq> 0 \<and> sr_sql q \<noteq> []"

definition saved_of :: "save_request \<Rightarrow> int option \<Rightarrow> int \<Rightarrow> int \<Rightarrow> saved_sql" where
  "saved_of q creator u dm =
     \<lparr>sv_id = 0, sv_name = sr_name q, sv_datasource = sr_datasource q, sv_database = sr_database q, sv_sql = sr_sql q,
      sv_description = sr_description q, sv_created_by = creator, sv_updated_by = Some u, sv_domain = dm,
      sv_public = given (sr_public q) False, sv_created = 0, sv_updated = 0\<rparr>"

definition HandleSaveSQL :: "ds_env \<Rightarrow> save_request \<Rightarrow> principal \<Rightarrow> ds_store \<Rightarrow> int reply \<times> ds_store" where
  "HandleSaveSQL V q p s =
     (if \<not> save_bound q then (Bad 400 ''invalid request'', s)
      else (case CreateSavedSQL V (saved_of q (Some (pr_user p)) (pr_user p) (pr_domain p)) s of
              (Inl e, s1) \<Rightarrow> (Bad 17001 ''failed to save'', s1) | (Inr i, s1) \<Rightarrow> (Good i, s1)))"

definition HandleListSavedSQL ::
  "ds_env \<Rightarrow> page_query \<Rightarrow> principal \<Rightarrow> ds_store \<Rightarrow> (saved_with_names list \<times> int) reply" where
  "HandleListSavedSQL V q p s =
     (case GetSavedSQL V (asked_domain p q) (pr_user p) (page_number q) (page_size q) (pq_search q) s of
        Inl e \<Rightarrow> Bad 17001 ''failed to read the saved statements'' | Inr x \<Rightarrow> Good x)"

definition HandleUpdateSavedSQL :: "ds_env \<Rightarrow> int option \<Rightarrow> save_request \<Rightarrow> principal \<Rightarrow> ds_store \<Rightarrow> unit reply \<times> ds_store" where
  "HandleUpdateSavedSQL V i q p s =
     (case i of
        None \<Rightarrow> (Bad 400 ''invalid id'', s)
      | Some n \<Rightarrow>
          (if \<not> save_bound q then (Bad 400 ''invalid request'', s)
           else (case UpdateSavedSQL V n (saved_of q None (pr_user p) 0) s of
                   (Inl e, s1) \<Rightarrow> (Bad 17009 ''failed to update'', s1) | (Inr _, s1) \<Rightarrow> (Good (), s1))))"

definition HandleDeleteSavedSQL :: "ds_env \<Rightarrow> int option \<Rightarrow> principal \<Rightarrow> ds_store \<Rightarrow> unit reply \<times> ds_store" where
  "HandleDeleteSavedSQL V i p s =
     (case i of
        None \<Rightarrow> (Bad 400 ''invalid id'', s)
      | Some n \<Rightarrow>
          (case DeleteSavedSQL V n s of
             (Inl e, s1) \<Rightarrow> (Bad 17001 ''failed to delete'', s1) | (Inr _, s1) \<Rightarrow> (Good (), s1)))"

section \<open>The pool and the cache\<close>

record pool_report =
  pp_open :: int
  pp_idle :: int
  pp_in_use :: int
  pp_max_open :: int
  pp_config_open :: int
  pp_config_idle :: int
  pp_lifetime :: int       \<comment> \<open>whole seconds\<close>

text \<open>\<open>counts\<close> are what the driver reports; a driver without a pool gives no report.\<close>

definition HandleGetPoolStats ::
  "'v query_env \<Rightarrow> conn_env \<Rightarrow> int \<times> int \<times> int \<times> int \<Rightarrow> int option \<Rightarrow> principal \<Rightarrow> ('g, 'r) query_state \<Rightarrow>
   pool_report option reply \<times> ('g, 'r) query_state" where
  "HandleGetPoolStats E V counts ds p s =
     (case ds of
        None \<Rightarrow> (Bad 400 ''invalid data source id'', s)
      | Some i \<Rightarrow>
          (case GetByID (qe_ds E) i (qs_store s) of
             Inl e \<Rightarrow> (Bad 404 ''data source not found'', s)
           | Inr d \<Rightarrow>
               (case mgr_GetDriver V d (qs_manager s) of
                  (Inl e, m) \<Rightarrow> (Bad 16003 ''failed to connect to the data source'', s\<lparr>qs_manager := m\<rparr>)
                | (Inr h, m) \<Rightarrow>
                    (Good (case (counts, dr_config (m_drivers m ! h)) of
                       ((oc, ic, iu, mx), Some cfg) \<Rightarrow>
                         Some \<lparr>pp_open = oc, pp_idle = ic, pp_in_use = iu, pp_max_open = mx, pp_config_open = MaxOpen cfg,
                           pp_config_idle = (if 0 < MinIdle cfg \<and> MinIdle cfg < MaxOpen cfg then MinIdle cfg else MaxOpen cfg),
                           pp_lifetime = MaxLifetime cfg div second\<rparr>
                     | (_, None) \<Rightarrow> None), s\<lparr>qs_manager := m\<rparr>))))"

definition HandleClearCache ::
  "('r, 'v) query_libs \<Rightarrow> 'v query_env \<Rightarrow> (string \<Rightarrow> string list result list) \<Rightarrow> int option \<Rightarrow> principal \<Rightarrow>
   ('g, 'r) query_state \<Rightarrow> unit reply \<times> ('g, 'r) query_state" where
  "HandleClearCache Q E scan ds p s =
     (case ds of
        None \<Rightarrow> (Bad 400 ''invalid data source id'', s)
      | Some i \<Rightarrow>
          (case GetByID (qe_ds E) i (qs_store s) of
             Inl e \<Rightarrow> (Bad 404 ''data source not found'', s)
           | Inr d \<Rightarrow>
               (if \<not> qe_caching E then (Good (), s)
                else (case cache_Invalidate (ql_redis Q) (qe_now E) scan i (qs_cache s) of
                        (Inl e, c) \<Rightarrow> (Bad 17001 ''failed to clear the query cache'', s\<lparr>qs_cache := c\<rparr>)
                      | (Inr _, c) \<Rightarrow>
                          (case InvalidateMetadata (ql_redis Q) (qe_now E) scan i c of
                             (Inl e, c1) \<Rightarrow> (Bad 17001 ''failed to clear the metadata cache'', s\<lparr>qs_cache := c1\<rparr>)
                           | (Inr _, c1) \<Rightarrow> (Good (), s\<lparr>qs_cache := c1\<rparr>))))))"

section \<open>Properties of the requests\<close>

text \<open>Whoever is no administrator is shown the history of his current domain, that of every user in it; a
  user without a current domain is shown the history of all domains.
\<close>

theorem history_is_shown_by_domain:
  assumes "pr_role p \<noteq> Some ''system_admin''" "pr_role p \<noteq> Some ''admin''" "\<forall>hs. set (newest hs) \<subseteq> set hs"
    and "HandleGetHistory V newest q p s = Good (shown, n)"
  shows "(pr_domain p > 0 \<longrightarrow> (\<forall>(h, name) \<in> set shown. qh_domain h = pr_domain p) \<and>
            n \<le> int (length (filter (\<lambda>h. qh_domain h = pr_domain p) (d_histories s)))) \<and>
         (pr_domain p \<le> 0 \<and> q = \<lparr>pq_domain = None, pq_page = None, pq_size = None, pq_datasource = None, pq_by = None,
             pq_status = [], pq_start = [], pq_end = [], pq_search = []\<rparr> \<longrightarrow> n = int (length (d_histories s)))"
proof -
  let ?f = "history_filter_of p q"
  have dom: "hf_domain ?f = pr_domain p" using assms(1,2) by (simp add: history_filter_of_def asked_domain_def)
  have tot: "n = int (length (filter (history_matches V ?f) (d_histories s)))"
    and rows: "shown = map (\<lambda>h. (h, real_name s (qh_by h))) (limit_offset (page_size q) ((page_number q - 1) * page_size q)
       (newest (filter (history_matches V ?f) (d_histories s))))"
    using assms(4) by (auto simp: HandleGetHistory_def GetQueryHistory_def Let_def split: sum.splits)
  have "set (limit_offset m k xs) \<subseteq> set xs" for m k and xs :: "query_history list"
    by (auto simp: limit_offset_def Let_def dest: in_set_takeD in_set_dropD)
  then have "\<forall>(h, name) \<in> set shown. history_matches V ?f h"
    using assms(3) rows by fastforce
  moreover have m: "pr_domain p > 0 \<Longrightarrow> history_matches V ?f h \<Longrightarrow> qh_domain h = pr_domain p" for h
    using dom by (simp add: history_matches_def)
  moreover have "pr_domain p > 0 \<Longrightarrow> n \<le> int (length (filter (\<lambda>h. qh_domain h = pr_domain p) (d_histories s)))"
    unfolding tot using m by (induction "d_histories s") (auto simp: length_filter_conv_card intro!: card_mono)
  moreover have "pr_domain p \<le> 0 \<Longrightarrow> q = \<lparr>pq_domain = None, pq_page = None, pq_size = None, pq_datasource = None,
      pq_by = None, pq_status = [], pq_start = [], pq_end = [], pq_search = []\<rparr> \<Longrightarrow> history_matches V ?f h" for h
    using dom by (simp add: history_matches_def history_filter_of_def given_def)
  ultimately show ?thesis using tot by auto
qed

text \<open>Lines of the history and saved statements belong to nobody: any user who is logged in can delete any line,
  delete any saved statement, and put his own text under the name of another user's private one.
\<close>

theorem history_and_saved_statements_have_no_owner:
  assumes "v_db V DS_delete_history = None" "v_db V DS_delete_saved = None" "v_db V DS_update_saved = None"
    and "h \<in> set (d_histories s)" "x \<in> set (d_saved s)" "save_bound q"
  shows "(let (reply, s1) = HandleDeleteQueryHistory V None (Some (qh_id h)) p s
          in reply = Good () \<and> h \<notin> set (d_histories s1)) \<and>
         (let (reply, s1) = HandleDeleteSavedSQL V (Some (sv_id x)) p s
          in reply = Good () \<and> x \<notin> set (d_saved s1)) \<and>
         (let (reply, s1) = HandleUpdateSavedSQL V (Some (sv_id x)) q p s
          in reply = Good () \<and> (\<exists>y \<in> set (d_saved s1). sv_id y = sv_id x \<and> sv_sql y = sr_sql q \<and>
               sv_created_by y = sv_created_by x \<and> sv_domain y = sv_domain x))"
proof (intro conjI)
  show "let (reply, s1) = HandleDeleteQueryHistory V None (Some (qh_id h)) p s
      in reply = Good () \<and> h \<notin> set (d_histories s1)"
    using assms(1) by (simp add: HandleDeleteQueryHistory_def DeleteQueryHistory_def wrap_db_def del_where_def)
  show "let (reply, s1) = HandleDeleteSavedSQL V (Some (sv_id x)) p s in reply = Good () \<and> x \<notin> set (d_saved s1)"
    using assms(2) by (simp add: HandleDeleteSavedSQL_def DeleteSavedSQL_def wrap_db_def del_where_def)
  let ?f = "\<lambda>x. x\<lparr>sv_name := sr_name q, sv_datasource := sr_datasource q, sv_database := sr_database q, sv_sql := sr_sql q,
    sv_description := sr_description q, sv_updated_by := Some (pr_user p), sv_public := given (sr_public q) False,
    sv_updated := v_now V\<rparr>"
  have ex: "\<exists>y\<in>set (d_saved s). sv_id y = sv_id x" using assms(5) by blast
  have "HandleUpdateSavedSQL V (Some (sv_id x)) q p s =
      (Good (), s\<lparr>d_saved := upd_where (\<lambda>y. sv_id y = sv_id x) ?f (d_saved s)\<rparr>)"
    using assms(3,6) ex by (simp add: HandleUpdateSavedSQL_def UpdateSavedSQL_def wrap_db_def saved_of_def)
  moreover have "?f x \<in> set (upd_where (\<lambda>y. sv_id y = sv_id x) ?f (d_saved s))"
    using assms(5) by (auto simp: upd_where_def)
  moreover have "sv_id (?f x) = sv_id x" "sv_sql (?f x) = sr_sql q" "sv_created_by (?f x) = sv_created_by x"
    "sv_domain (?f x) = sv_domain x" by simp_all
  ultimately show "let (reply, s1) = HandleUpdateSavedSQL V (Some (sv_id x)) q p s
      in reply = Good () \<and> (\<exists>y \<in> set (d_saved s1). sv_id y = sv_id x \<and> sv_sql y = sr_sql q \<and>
           sv_created_by y = sv_created_by x \<and> sv_domain y = sv_domain x)"
    by (simp only: Let_def prod.case) fastforce
qed

section \<open>What waits to be run\<close>

text \<open>Requests, goroutines and changes of the data sources in any order.\<close>

datatype ('v) query_op =
    OExecute "'v query_env" query_request principal
  | ORun "'v run_env" nat
  | OCancel instant string principal
  | OMetadata "'v query_env" conn_env "string meta_env" "int option" string string string principal
  | OExport "'v query_env" conn_env "string \<Rightarrow> string \<Rightarrow> 'v query_result option result" "'v \<Rightarrow> string" query_request int principal
  | OClear "'v query_env" "string \<Rightarrow> string list result list" "int option" principal
  | OSources ds_store

fun query_step :: "('g, 'v) query_registry \<Rightarrow> ('r, 'v) query_libs \<Rightarrow> ('g, 'r) query_state \<Rightarrow> 'v query_op \<Rightarrow> ('g, 'r) query_state" where
  "query_step I Q s (OExecute E rq p) = snd (HandleExecute I Q E rq p s)"
| "query_step I Q s (ORun X n) = run_job I Q X n s"
| "query_step I Q s (OCancel t qid p) = snd (HandleCancel I t qid p s)"
| "query_step I Q s (OMetadata E V M ds level db tb p) = snd (HandleGetMetadata Q E V M ds level db tb p s)"
| "query_step I Q s (OExport E V call cell rq n p) = snd (HandleExportCSV E V call cell rq n p s)"
| "query_step I Q s (OClear E scan ds p) = snd (HandleClearCache Q E scan ds p s)"
| "query_step I Q s (OSources st) = s\<lparr>qs_store := st\<rparr>"

definition job_ok :: "job \<Rightarrow> bool" where
  "job_ok j \<longleftrightarrow> ds_id (jb_ds j) = rq_datasource (jb_request j) \<and> ds_enabled (jb_ds j) \<and> 0 < jb_limit j \<and>
     isSelectOnly (rq_sql (jb_request j)) (ds_write (jb_ds j)) (ds_type (jb_ds j))"

definition jobs_ok :: "('g, 'r) query_state \<Rightarrow> bool" where
  "jobs_ok s \<longleftrightarrow> list_all job_ok (qs_jobs s)"

lemma GetByID_id: "GetByID V i s = Inr d \<Longrightarrow> ds_id d = i"
  by (auto simp: GetByID_def scanDatasource_def ds_row_def dest!: first_where_Some split: option.splits)

lemma jobs_run: "jobs_ok s \<Longrightarrow> jobs_ok (run_job I Q X n s)"
  by (auto simp: jobs_ok_def run_job_def execute_frame(4) list_all_iff dest: in_set_takeD in_set_dropD)

lemma jobs_execute: "jobs_ok s \<Longrightarrow> jobs_ok (snd (HandleExecute I Q E rq p s))"
  by (auto simp: jobs_ok_def HandleExecute_def admit_query_def job_ok_def default_limit_def Let_def dest: GetByID_id
      split: sum.splits prod.splits option.splits)

lemma jobs_others:
  "qs_jobs (snd (HandleCancel I t qid p s)) = qs_jobs s"
  "qs_jobs (snd (HandleGetMetadata Q E V M ds level db tb p s)) = qs_jobs s"
  "qs_jobs (snd (HandleExportCSV E V call cell rq n p s)) = qs_jobs s"
  "qs_jobs (snd (HandleClearCache Q E scan ds p s)) = qs_jobs s"
  by (auto simp: HandleCancel_def HandleGetMetadata_def HandleExportCSV_def HandleClearCache_def Let_def
      split: sum.splits prod.splits option.splits bool.splits)

lemma jobs_step: "jobs_ok s \<Longrightarrow> jobs_ok (query_step I Q s e)"
  by (cases e) (simp_all add: jobs_run jobs_execute, simp_all add: jobs_ok_def jobs_others)

interpretation pending: invariant_machine "query_step I Q" jobs_ok for I Q
  by unfold_locales (rule jobs_step)

text \<open>C36: Whatever requests come, in whatever order goroutines run and however data sources are changed in between,
  every goroutine that waits carries the data source its request named, which was enabled, a statement that
  was allowed on it, and a positive limit of rows.
\<close>

theorem pending_queries_are_checked:
  assumes "qs_jobs s = []"
  shows "\<forall>j \<in> set (qs_jobs (run (query_step I Q) s ops)). ds_id (jb_ds j) = rq_datasource (jb_request j) \<and>
    ds_enabled (jb_ds j) \<and> 0 < jb_limit j \<and>
    isSelectOnly (rq_sql (jb_request j)) (ds_write (jb_ds j)) (ds_type (jb_ds j))"
  using pending.run_inv [of s I Q ops] assms by (simp add: jobs_ok_def job_ok_def list_all_iff)

section \<open>The properties at concrete requests\<close>

theorem pending_queries_are_checked_witness:
  "list_all (\<lambda>j. ds_enabled (jb_ds j))
     (qs_jobs (run (query_step (redis_registry mem_redis result_codec) demo_libs) (demo_state 0)
      [OExecute (demo_qe ''a'') demo_rq demo_user, OSources (demo_dstore\<lparr>d_sources := []\<rparr>)]))"
  using pending_queries_are_checked [of "demo_state 0" "redis_registry mem_redis result_codec" demo_libs
      "[OExecute (demo_qe ''a'') demo_rq demo_user, OSources (demo_dstore\<lparr>d_sources := []\<rparr>)]"]
  by (simp only: demo_state_fields list_all_iff) blast

definition demo_line :: query_history where
  "demo_line = (history_of (demo_run False) demo_job ''success'' [] 1)\<lparr>qh_domain := 2\<rparr>"

definition demo_saved :: saved_sql where
  "demo_saved = \<lparr>sv_id = 4, sv_name = ''mine'', sv_datasource = 7, sv_database = ''db'', sv_sql = ''SELECT 1'',
     sv_description = [], sv_created_by = Some 8, sv_updated_by = Some 8, sv_domain = 2, sv_public = False, sv_created = 0,
     sv_updated = 0\<rparr>"

definition demo_books :: ds_store where
  "demo_books = demo_dstore\<lparr>d_histories := [demo_line], d_saved := [demo_saved]\<rparr>"

definition demo_save :: save_request where
  "demo_save = \<lparr>sr_name = ''mine'', sr_datasource = 7, sr_database = ''db'', sr_sql = ''SELECT 2'', sr_description = [],
     sr_public = None\<rparr>"

definition no_filter :: page_query where
  "no_filter = \<lparr>pq_domain = None, pq_page = None, pq_size = None, pq_datasource = None, pq_by = None,
     pq_status = [], pq_start = [], pq_end = [], pq_search = []\<rparr>"

theorem history_is_shown_by_domain_witness:
  "\<exists>shown. HandleGetHistory demo_dsenv id no_filter (demo_user\<lparr>pr_domain := 0\<rparr>) demo_books = Good (shown, 1)"
proof -
  obtain shown n where r: "HandleGetHistory demo_dsenv id no_filter (demo_user\<lparr>pr_domain := 0\<rparr>) demo_books = Good (shown, n)"
    by (simp add: HandleGetHistory_def GetQueryHistory_def demo_dsenv_def wrap_db_def Let_def)
  show ?thesis
    using history_is_shown_by_domain [OF _ _ _ r] r by (simp add: demo_user_def no_filter_def demo_books_def)
qed

theorem history_and_saved_statements_have_no_owner_witness:
  "\<exists>y \<in> set (d_saved (snd (HandleUpdateSavedSQL demo_dsenv (Some 4) demo_save demo_user demo_books))).
     sv_id y = 4 \<and> sv_sql y = ''SELECT 2'' \<and> sv_created_by y = Some 8"
  using history_and_saved_statements_have_no_owner [of demo_dsenv demo_line demo_books demo_saved demo_save demo_user]
  by (auto simp: demo_dsenv_def demo_books_def demo_save_def save_bound_def demo_saved_def split: prod.splits)

end
