(* ===== verification/Grpc_Server.thy ===== *)
theory Grpc_Server
  imports Recovery
begin

text \<open>
  The gRPC server of a scheduler node (scheduler/internal/grpcserver/server.go) on top of the scheduler
  service: the task streams of the executors, the cancellations and the requests for a full
  synchronisation that wait for a heartbeat, and the seven calls that an executor makes. A node is the
  pair of the server and the service; as in cmd/app.go, the server is the service's dispatcher,
  its connectivity checker and its cancel notifier. The stream itself belongs to gRPC: a stream is a
  number, and \<open>transport\<close> is the outcome of sending a task on it. Every handler runs with the
  server's lock where the code takes it. A goroutine that will call \<open>HandleTaskFailure\<close> is
  an entry of \<open>sn_failures\<close> until \<open>run_reported_failure\<close> runs it, and the sleep of
  \<open>MarkAsNewLeader\<close> is an entry of \<open>srv_timers\<close>.
\<close>

section \<open>The server\<close>

type_synonym transport = "nat \<Rightarrow> grpc_task \<Rightarrow> string option"

record server =
  srv_executors :: "string \<Rightarrow> nat option"   \<comment> \<open>executor name to the stream of its subscription\<close>
  srv_node :: string
  srv_new_leader :: bool
  srv_is_leader :: bool
  srv_need_sync :: "string set"              \<comment> \<open>the names with \<open>needExecSync[name]\<close>\<close>
  srv_cancels :: "string \<Rightarrow> string list"    \<comment> \<open>empty when the map has no entry\<close>
  srv_timers :: "instant list"               \<comment> \<open>when a reset of \<open>isNewLeader\<close> is due\<close>

definition NewServer :: server where
  "NewServer =
     \<lparr>srv_executors = Map.empty, srv_node = [], srv_new_leader = False, srv_is_leader = False,
      srv_need_sync = {}, srv_cancels = (\<lambda>n. []), srv_timers = []\<rparr>"

definition AddCancelExecutionId :: "string \<Rightarrow> string \<Rightarrow> server \<Rightarrow> server" where
  "AddCancelExecutionId name eid srv =
     srv\<lparr>srv_cancels := (srv_cancels srv)(name := srv_cancels srv name @ [eid])\<rparr>"

definition SetNodeId :: "string \<Rightarrow> server \<Rightarrow> server" where
  "SetNodeId i srv = srv\<lparr>srv_node := i\<rparr>"

definition MarkAsNewLeader :: "instant \<Rightarrow> server \<Rightarrow> server" where
  "MarkAsNewLeader now srv =
     srv\<lparr>srv_new_leader := True, srv_is_leader := True,
         srv_need_sync := srv_need_sync srv \<union> dom (srv_executors srv),
         srv_timers := srv_timers srv @ [now + 30 * second]\<rparr>"

definition new_leader_timeout :: "instant \<Rightarrow> server \<Rightarrow> server" where
  "new_leader_timeout due srv =
     (if due \<in> set (srv_timers srv)
      then srv\<lparr>srv_new_leader := False, srv_timers := remove1 due (srv_timers srv)\<rparr> else srv)"

definition SetLeader :: "bool \<Rightarrow> server \<Rightarrow> server" where
  "SetLeader b srv = srv\<lparr>srv_is_leader := b\<rparr>"

definition dispatchTask :: "transport \<Rightarrow> string \<Rightarrow> grpc_task \<Rightarrow> server \<Rightarrow> string option" where
  "dispatchTask tr name g srv =
     (case srv_executors srv name of
        None \<Rightarrow> Some (''executor '' @ name @ '' not connected'')
      | Some st \<Rightarrow> tr st g)"

definition IsExecutorConnected :: "string \<Rightarrow> server \<Rightarrow> bool" where
  "IsExecutorConnected name srv \<longleftrightarrow> srv_executors srv name \<noteq> None"

text \<open>The order in which Go iterates over the map is the argument.\<close>

definition GetConnectedExecutorNames :: "string list \<Rightarrow> server \<Rightarrow> string list" where
  "GetConnectedExecutorNames order srv = filter (\<lambda>n. IsExecutorConnected n srv) order"

text \<open>
  \<open>SubscribeTask\<close> in its two halves: it enters the stream under the executor's name, waits for the
  end of the stream, and deletes the entry of that name.
\<close>

definition subscribe_open :: "string \<Rightarrow> nat \<Rightarrow> server \<Rightarrow> server" where
  "subscribe_open name st srv = srv\<lparr>srv_executors := (srv_executors srv)(name \<mapsto> st)\<rparr>"

definition subscribe_end :: "string \<Rightarrow> server \<Rightarrow> server" where
  "subscribe_end name srv = srv\<lparr>srv_executors := (srv_executors srv)(name := None)\<rparr>"

definition SyncRunningTasks :: "string \<Rightarrow> server \<Rightarrow> server" where
  "SyncRunningTasks name srv = srv\<lparr>srv_need_sync := insert name (srv_need_sync srv)\<rparr>"

section \<open>A node\<close>

record reported_failure =
  rf_task :: int
  rf_eid :: string
  rf_output :: string
  rf_error :: string
  rf_duration :: int

record 'r snode =
  sn_server :: server
  sn_sched :: "'r sched"
  sn_failures :: "reported_failure list"

definition wired :: "transport \<Rightarrow> 'r env \<Rightarrow> server \<Rightarrow> 'r env" where
  "wired tr V srv =
     V\<lparr>env_dispatcher := Some (\<lambda>name g. dispatchTask tr name g srv),
       env_connected := (\<lambda>name. IsExecutorConnected name srv), env_notifier := True\<rparr>"

text \<open>
  An operation of the service at a node. The calls of the cancel notifier that it makes
  are the new entries of \<open>s_cancels\<close>; nothing that follows them in the operation reads the server.
\<close>

definition in_service ::
  "transport \<Rightarrow> 'r env \<Rightarrow> ('r env \<Rightarrow> 'r sched \<Rightarrow> 'a \<times> 'r sched) \<Rightarrow> 'r snode \<Rightarrow> 'a \<times> 'r snode" where
  "in_service tr V f n =
     (let (x, s') = f (wired tr V (sn_server n)) (sn_sched n);
          told = drop (length (s_cancels (sn_sched n))) (s_cancels s')
      in (x, n\<lparr>sn_sched := s',
               sn_server := fold (\<lambda>(name, eid). AddCancelExecutionId name eid) told (sn_server n)\<rparr>))"

definition in_server :: "(server \<Rightarrow> server) \<Rightarrow> 'r snode \<Rightarrow> 'r snode" where
  "in_server f n = n\<lparr>sn_server := f (sn_server n)\<rparr>"

section \<open>The calls of an executor\<close>

record register_request =
  rq_name :: string
  rq_address :: string
  rq_capacity :: int

record register_response =
  rr_success :: bool
  rr_message :: string
  rr_duplicate :: bool
  rr_name :: string

definition duplicate_text :: string where
  "duplicate_text = ''executor duplicate registration rejected''"

definition Register ::
  "transport \<Rightarrow> 'r env \<Rightarrow> register_request \<Rightarrow> 'r snode \<Rightarrow> register_response \<times> 'r snode" where
  "Register tr V q n =
     (case in_service tr V (\<lambda>V. RegisterExecutor V (rq_name q) (rq_address q) (rq_capacity q)) n of
        (Inl e, n1) \<Rightarrow>
          (\<lparr>rr_success = False, rr_message = e, rr_duplicate = (e = duplicate_text), rr_name = []\<rparr>, n1)
      | (Inr name, n1) \<Rightarrow>
          (\<lparr>rr_success = True, rr_message = ''registered'', rr_duplicate = False, rr_name = name\<rparr>, n1))"

record running_state =
  rs_eid :: string
  rs_task :: int
  rs_progress :: int
  rs_message :: string
  rs_start :: int

record heartbeat_request =
  hb_name :: string
  hb_load :: int
  hb_ids :: "string list"
  hb_tasks :: "running_state list"
  hb_reconnect :: bool

record heartbeat_response =
  hr_target :: int
  hr_full_sync :: bool
  hr_node :: string
  hr_new_leader :: bool
  hr_is_leader :: bool
  hr_cancels :: "string list"

text \<open>The part of a heartbeat that the service takes; its errors are logged.\<close>

fun progress_all :: "'r env \<Rightarrow> running_state list \<Rightarrow> 'r sched \<Rightarrow> 'r sched" where
  "progress_all V [] s = s"
| "progress_all V (r # rs) s =
     progress_all V rs (snd (UpdateTaskProgress V (rs_eid r) (rs_progress r) (rs_message r) s))"

definition take_heartbeat :: "'r env \<Rightarrow> heartbeat_request \<Rightarrow> 'r sched \<Rightarrow> int \<times> 'r sched" where
  "take_heartbeat V q s =
     (let s1 = (if hb_tasks q \<noteq> []
                then snd (UpdateExecutorHeartbeatWithRunningTasks V (hb_name q) (hb_load q)
                       (map rs_eid (hb_tasks q)) (progress_all V (hb_tasks q) s))
                else snd (UpdateExecutorHeartbeatWithRunningTasks V (hb_name q) (hb_load q) (hb_ids q) s))
      in (case GetExecutorTargetCapacity V (hb_name q) s1 of Inl e \<Rightarrow> 0 | Inr c \<Rightarrow> c, s1))"

definition Heartbeat ::
  "transport \<Rightarrow> 'r env \<Rightarrow> heartbeat_request \<Rightarrow> 'r snode \<Rightarrow> heartbeat_response \<times> 'r snode" where
  "Heartbeat tr V q n =
     (let srv = sn_server n
      in if hb_name q = []
         then (\<lparr>hr_target = 0, hr_full_sync = False, hr_node = srv_node srv, hr_new_leader = False,
                hr_is_leader = srv_is_leader srv, hr_cancels = []\<rparr>, n)
         else (let (target, n1) = in_service tr V (\<lambda>V. take_heartbeat V q) n;
                   srv1 = sn_server n1;
                   full = hb_name q \<in> srv_need_sync srv1
               in (\<lparr>hr_target = target,
                    hr_full_sync = (full \<or> (hb_reconnect q \<and> srv_new_leader srv1)),
                    hr_node = srv_node srv1, hr_new_leader = srv_new_leader srv1,
                    hr_is_leader = srv_is_leader srv1,
                    hr_cancels = srv_cancels srv1 (hb_name q)\<rparr>,
                   n1\<lparr>sn_server := srv1\<lparr>
                     srv_cancels := (srv_cancels srv1)(hb_name q := []),
                     srv_need_sync := srv_need_sync srv1 - {hb_name q}\<rparr>\<rparr>)))"

record result_request =
  tr_eid :: string
  tr_task :: int
  tr_status :: string
  tr_output :: string
  tr_error :: string
  tr_start :: int       \<comment> \<open>Unix seconds\<close>
  tr_end :: int

text \<open>\<open>Sub\<close> saturates at 64 bits, and \<open>Milliseconds\<close> rounds towards zero.\<close>

definition sub_time :: "instant \<Rightarrow> instant \<Rightarrow> duration" where
  "sub_time a b = max (- (2 ^ 63)) (min (2 ^ 63 - 1) (a - b))"

definition milliseconds :: "duration \<Rightarrow> int" where
  "milliseconds d = (if d < 0 then - ((- d) div 1000000) else d div 1000000)"

definition reported_duration :: "instant \<Rightarrow> result_request \<Rightarrow> int" where
  "reported_duration now q =
     (if tr_start q > 0 \<and> tr_end q > 0
      then (let d = sub_time (tr_end q * second) (tr_start q * second)
            in if d < 0 then 0 else milliseconds d)
      else if tr_start q > 0 then milliseconds (sub_time now (tr_start q * second)) else 0)"

definition ReportTaskResult ::
  "transport \<Rightarrow> 'r env \<Rightarrow> result_request \<Rightarrow> 'r snode \<Rightarrow> 'r snode" where
  "ReportTaskResult tr V q n =
     (let n1 = snd (in_service tr V (\<lambda>V. UpdateExecutionResult V (tr_eid q) (tr_status q) (tr_output q)
                      (tr_error q) (Some (tr_start q, tr_end q))) n);
          ms = reported_duration (env_now V) q
      in if tr_status q = ''failed''
         then n1\<lparr>sn_failures := sn_failures n1 @
                [\<lparr>rf_task = tr_task q, rf_eid = tr_eid q, rf_output = tr_output q, rf_error = tr_error q,
                  rf_duration = ms\<rparr>]\<rparr>
         else snd (in_service tr V (\<lambda>V s. ((), SendWebhookNotification V (tr_task q) (tr_eid q) ''success''
                     (tr_output q) (tr_error q) ms (snd (UpdateTaskStatusByID V (tr_task q) ''success'' s)))) n1))"

definition run_reported_failure ::
  "transport \<Rightarrow> 'r env \<Rightarrow> reported_failure \<Rightarrow> 'r snode \<Rightarrow> 'r snode" where
  "run_reported_failure tr V f n =
     (if f \<in> set (sn_failures n)
      then snd (in_service tr V (\<lambda>V. HandleTaskFailure V (rf_task f) (rf_eid f) (rf_output f) (rf_error f)
                  (rf_duration f)) (n\<lparr>sn_failures := remove1 f (sn_failures n)\<rparr>))
      else n)"

record log_request =
  lq_eid :: string
  lq_task :: int
  lq_level :: string
  lq_content :: string

definition ReportTaskLog :: "transport \<Rightarrow> 'r env \<Rightarrow> log_request \<Rightarrow> 'r snode \<Rightarrow> 'r snode" where
  "ReportTaskLog tr V q n =
     snd (in_service tr V (\<lambda>V. AddTaskLog V (lq_eid q) (lq_task q) [] (lq_level q) (lq_content q)) n)"

definition ReportTaskProgress ::
  "transport \<Rightarrow> 'r env \<Rightarrow> string \<Rightarrow> int \<Rightarrow> string \<Rightarrow> 'r snode \<Rightarrow> 'r snode" where
  "ReportTaskProgress tr V eid p msg n = snd (in_service tr V (\<lambda>V. UpdateTaskProgress V eid p msg) n)"

text \<open>The callbacks of the election in cmd/app.go; the cron scheduler has its own theory.\<close>

definition becomes_leader :: "instant \<Rightarrow> 'r snode \<Rightarrow> 'r snode" where
  "becomes_leader now n =
     n\<lparr>sn_server := SetLeader True (MarkAsNewLeader now (sn_server n)),
       sn_sched := (sn_sched n)\<lparr>s_leader := True\<rparr>\<rparr>"

definition loses_leadership :: "'r snode \<Rightarrow> 'r snode" where
  "loses_leadership n =
     n\<lparr>sn_server := SetLeader False (sn_server n), sn_sched := (sn_sched n)\<lparr>s_leader := False\<rparr>\<rparr>"


section \<open>What a call leaves alone\<close>

lemma in_service_fields [simp]:
  "sn_sched (snd (in_service tr V f n)) = snd (f (wired tr V (sn_server n)) (sn_sched n))"
  "fst (in_service tr V f n) = fst (f (wired tr V (sn_server n)) (sn_sched n))"
  "sn_failures (snd (in_service tr V f n)) = sn_failures n"
  by (simp_all add: in_service_def Let_def split: prod.splits)

lemma wired_fields [simp]:
  "env_redis (wired tr V srv) = env_redis V" "env_db (wired tr V srv) = env_db V"
  "env_now (wired tr V srv) = env_now V" "env_choice (wired tr V srv) = env_choice V"
  "env_dispatcher (wired tr V srv) = Some (\<lambda>name g. dispatchTask tr name g srv)"
  "env_notifier (wired tr V srv)"
  by (simp_all add: wired_def)

text \<open>An operation that cancels nothing leaves the server as it is.\<close>

lemma in_service_server:
  "s_cancels (snd (f (wired tr V (sn_server n)) (sn_sched n))) = s_cancels (sn_sched n) \<Longrightarrow>
   sn_server (snd (in_service tr V f n)) = sn_server n"
  by (cases "f (wired tr V (sn_server n)) (sn_sched n)") (simp add: in_service_def)

lemma redis_cancels [simp]:
  "s_cancels (snd (r_set V k v d s)) = s_cancels s" "s_cancels (r_del V ks s) = s_cancels s"
  "s_cancels (snd (r_expire V k d s)) = s_cancels s" "s_cancels (snd (r_setnx V k v d s)) = s_cancels s"
  by (simp_all add: r_set_def r_del_def r_expire_def r_setnx_def split: prod.splits)

lemma log_cancels [simp]: "s_cancels (snd (AddTaskLog V e i nd lv m s)) = s_cancels s"
  by (rule AddTaskLog_cases [of V e i nd lv m s])
    (simp_all add: append_output_def insert_log_def split: option.splits)

lemma redis_pair_cancels:
  "r_expire V k d s = (b, s1) \<Longrightarrow> s_cancels s1 = s_cancels s"
  "r_set V k v d s = (u, s1) \<Longrightarrow> s_cancels s1 = s_cancels s"
  using redis_cancels(1) [of V k v d s] redis_cancels(3) [of V k d s] by auto

lemma renew_lock_cancels [simp]: "s_cancels (snd (renewTaskLock V e s)) = s_cancels s"
  by (auto simp: renewTaskLock_def Let_def dest!: redis_pair_cancels split: sum.splits prod.splits if_splits)

lemma renew_all_cancels [simp]: "s_cancels (renew_all V es s) = s_cancels s"
  by (induction es arbitrary: s) simp_all

lemma heartbeat_cancels [simp]:
  "s_cancels (snd (UpdateExecutorHeartbeatWithRunningTasks V nm ld es s)) = s_cancels s"
  by (simp add: UpdateExecutorHeartbeatWithRunningTasks_def update_executors_def split: option.splits)

lemma progress_cancels [simp]: "s_cancels (progress_all V rs s) = s_cancels s"
  by (induction rs arbitrary: s) (simp_all add: UpdateTaskProgress_def split: option.splits)

lemma take_heartbeat_cancels [simp]: "s_cancels (snd (take_heartbeat V q s)) = s_cancels s"
  by (simp add: take_heartbeat_def Let_def)

text \<open>
  What an executor relies on: a heartbeat under a name takes the cancellations that wait for the name,
  and nothing else at the server changes but the wish for a full synchronisation.
\<close>

lemma Heartbeat_server:
  assumes "hb_name q \<noteq> []"
  shows "hr_cancels (fst (Heartbeat tr V q n)) = srv_cancels (sn_server n) (hb_name q)"
    and "sn_server (snd (Heartbeat tr V q n)) = (sn_server n)\<lparr>
      srv_cancels := (srv_cancels (sn_server n))(hb_name q := []),
      srv_need_sync := srv_need_sync (sn_server n) - {hb_name q}\<rparr>"
    and "sn_sched (snd (Heartbeat tr V q n)) =
      snd (take_heartbeat (wired tr V (sn_server n)) q (sn_sched n))"
    and "hr_node (fst (Heartbeat tr V q n)) = srv_node (sn_server n)"
proof -
  obtain c n1 where n1: "in_service tr V (\<lambda>V. take_heartbeat V q) n = (c, n1)" by fastforce
  then have "sn_server n1 = sn_server n"
    using in_service_server [of "\<lambda>V. take_heartbeat V q" tr V n] by simp
  moreover have "sn_sched n1 = snd (take_heartbeat (wired tr V (sn_server n)) q (sn_sched n))"
    using in_service_fields(1) [of tr V "\<lambda>V. take_heartbeat V q" n] n1 by simp
  ultimately show "hr_cancels (fst (Heartbeat tr V q n)) = srv_cancels (sn_server n) (hb_name q)"
    and "sn_server (snd (Heartbeat tr V q n)) = (sn_server n)\<lparr>
      srv_cancels := (srv_cancels (sn_server n))(hb_name q := []),
      srv_need_sync := srv_need_sync (sn_server n) - {hb_name q}\<rparr>"
    and "sn_sched (snd (Heartbeat tr V q n)) =
      snd (take_heartbeat (wired tr V (sn_server n)) q (sn_sched n))"
    and "hr_node (fst (Heartbeat tr V q n)) = srv_node (sn_server n)"
    using n1 assms by (simp_all add: Heartbeat_def Let_def)
qed

lemma Heartbeat_nameless [simp]: "hb_name q = [] \<Longrightarrow> snd (Heartbeat tr V q n) = n"
  by (simp add: Heartbeat_def Let_def)


section \<open>A cancelled execution\<close>

text \<open>An execution that the operations of its end keep, up to its status.\<close>

definition recorded :: "string \<Rightarrow> int \<Rightarrow> int \<Rightarrow> 'r sched \<Rightarrow> bool" where
  "recorded e i k s \<longleftrightarrow>
     (\<exists>x. first_where (\<lambda>x. x_eid x = e) (s_execs s) = Some x \<and> x_task x = i \<and> x_retry x = k)"

lemma recorded_log: "recorded e i k s \<Longrightarrow> recorded e i k (snd (AddTaskLog V e' j nd lv m s))"
  using life_first [OF AddTaskLog_life [symmetric]] by (fastforce simp: recorded_def life_def)

lemma recorded_result:
  assumes "env_db V S_execution_result = None" "recorded e i k s"
  shows "recorded e i k (snd (UpdateExecutionResult V e st o' er g s))"
proof -
  obtain x where x: "first_where (\<lambda>x. x_eid x = e) (s_execs s) = Some x" "x_task x = i" "x_retry x = k"
    using assms(2) by (auto simp: recorded_def)
  obtain a b where "result_times V g = (a, b)" by fastforce
  then show ?thesis
    using assms(1) x first_where_eid_upd [OF x(1)] by (simp add: UpdateExecutionResult_def recorded_def)
qed

lemma recorded_cong: "s_execs s' = s_execs s \<Longrightarrow> recorded e i k s' = recorded e i k s"
  by (simp add: recorded_def)

text \<open>The lock that excludes two retries of one task at a time.\<close>

definition retry_free :: "('r \<Rightarrow> keys) \<Rightarrow> instant \<Rightarrow> int \<Rightarrow> 'r sched \<Rightarrow> bool" where
  "retry_free kv now i s \<longleftrightarrow> live now (kv (s_redis s) (retry_lock_key i)) = None"

lemma retry_free_log:
  assumes "redis_server (env_redis V) kv"
  shows "retry_free kv now i (snd (AddTaskLog V e j nd lv m s)) = retry_free kv now i s"
proof -
  have "take 15 (retry_lock_key i) \<noteq> ''task:log:dedup:''" by (simp add: retry_lock_key_def)
  then show ?thesis using AddTaskLog_keys [OF assms] by (simp add: retry_free_def)
qed

lemma retry_free_result:
  assumes "redis_server (env_redis V) kv" "redis_up (env_redis V)" "env_db V S_execution_result = None"
    and "retry_free kv now i s"
  shows "retry_free kv now i (snd (UpdateExecutionResult V e st o' er g s))"
  using assms(4) by (simp add: retry_free_def result_keys [OF assms(1-3)] drop_keys_def live_def)

lemma result_case:
  "env_db V S_execution_result = None \<Longrightarrow>
   (case UpdateExecutionResult V e st o' er g s of (Inl x, s2) \<Rightarrow> F x s2 | (Inr u, s2) \<Rightarrow> G u s2) =
     G () (snd (UpdateExecutionResult V e st o' er g s))"
  by (simp add: UpdateExecutionResult_def split: prod.splits)

lemma cancel_done:
  assumes "redis_server (env_redis V) kv" "redis_up (env_redis V)" "\<forall>st. env_db V st = None"
    and "first_where (\<lambda>x. x_eid x = e) (s_execs s) = Some x" "x_status x = ''running''"
    and "retry_free kv now i s"
  obtains s' where "CancelExecution V e by s = (Inr (), s')" "recorded e (x_task x) (x_retry x) s'"
    "s_tasks s' = s_tasks s" "s_retries s' = s_retries s" "retry_free kv now i s'"
proof -
  have db: "env_db V st = None" for st using assms(3) by blast
  let ?xid = "case x_executor x of None \<Rightarrow> 0 | Some i \<Rightarrow> i"
  define s1 where "s1 = (if ?xid > 0 \<and> env_notifier V
             then (case GetExecutorByID V ?xid s of
                     Inl e \<Rightarrow> s
                   | Inr ex \<Rightarrow> s\<lparr>s_cancels := s_cancels s @ [(e_name ex, e)]\<rparr>)
             else s)"
  let ?s2 = "snd (UpdateExecutionResult V e ''failed'' [] ''task cancelled by user'' None s1)"
  have f: "s_execs s1 = s_execs s" "s_tasks s1 = s_tasks s" "s_retries s1 = s_retries s" "s_redis s1 = s_redis s"
    by (simp_all add: s1_def split: sum.splits)
  have r: "recorded e (x_task x) (x_retry x) ?s2"
    using assms(4) f(1) by (intro recorded_result [OF db]) (simp add: recorded_def)
  have k: "retry_free kv now i ?s2"
    using assms(6) f(4) by (intro retry_free_result [OF assms(1,2) db]) (simp add: retry_free_def)
  show ?thesis
  proof
    show "CancelExecution V e by s =
        (Inr (), snd (AddTaskLog V e (x_task x) [] ''info'' (''Task cancelled by user: '' @ by) ?s2))"
      using assms(4,5) db unfolding CancelExecution_def Let_def by (simp add: result_case s1_def)
  qed (simp_all add: f r k recorded_log retry_free_log [OF assms(1)])
qed

text \<open>A failure whose retries are not used up waits for its next one.\<close>

lemma failure_retried:
  assumes "redis_server (env_redis V) kv" "redis_up (env_redis V)" "\<forall>st. env_db V st = None"
    and "recorded e i k s" "retry_free kv (env_now V) i s"
    and "first_where (\<lambda>t. t_id t = i) (s_tasks s) = Some t" "0 < t_retry_count t" "k < t_retry_count t"
  shows "\<exists>r. s_retries (snd (HandleTaskFailure V i e o' er d s)) = s_retries s @ [r] \<and>
    r_task r = t \<and> r_failed r = e \<and> r_times r = k + 1 \<and> r_due r = env_now V + t_retry_interval t * second"
proof -
  have db: "env_db V st = None" for st using assms(3) by blast
  have t: "GetTaskByID V i s = Inr t" using get_task [OF db assms(6)] .
  obtain b r' where b: "redis_SetNX (env_redis V) (env_now V) (retry_lock_key i) ''locked'' (30 * minute) (s_redis s) = (Inr b, r')"
    using up_SetNX [OF assms(2)] by blast
  define s1 where "s1 = s\<lparr>s_redis := r'\<rparr>"
  have "b" using redis_server.setnx_free [OF assms(1) _ _ b] assms(5) by (simp add: retry_free_def)
  then have "r_setnx V (retry_lock_key i) ''locked'' (30 * minute) s = (Inr True, s1)"
    using b by (simp add: r_setnx_def s1_def)
  moreover have s1: "s_retries s1 = s_retries s" "s_execs s1 = s_execs s"
    by (simp_all add: s1_def)
  moreover have "getRetryTimesForExecution V e s1 = Inr k"
    using assms(4) s1 db by (auto simp: getRetryTimesForExecution_def recorded_def)
  ultimately show ?thesis
    using t assms(7,8) by (simp add: HandleTaskFailure_def Let_def)
qed

text \<open>C20: Cancelling an execution of a task with retries makes the task run again: the executor that
  stops it reports a failure, which is handled like any other, and the next retry is
  scheduled, although the user asked for the end of it.\<close>

theorem cancelled_execution_is_retried:
  fixes n :: "'r snode" and tr :: transport and usr e o' :: string and a b :: int
  assumes "redis_server (env_redis V) kv" "redis_up (env_redis V)" "\<forall>st. env_db V st = None"
    and "redis_server (env_redis W) kv" "redis_up (env_redis W)" "\<forall>st. env_db W st = None"
    and "first_where (\<lambda>x. x_eid x = e) (s_execs (sn_sched n)) = Some x" "x_status x = ''running''"
    and "first_where (\<lambda>t. t_id t = x_task x) (s_tasks (sn_sched n)) = Some t"
    and "0 < t_retry_count t" "x_retry x < t_retry_count t"
    and "retry_free kv (env_now W) (x_task x) (sn_sched n)"
  defines "n1 \<equiv> snd (in_service tr V (\<lambda>V. CancelExecution V e usr) n)"
    and "q \<equiv> \<lparr>tr_eid = e, tr_task = x_task x, tr_status = ''failed'', tr_output = o',
                tr_error = ''task cancelled by user'', tr_start = a, tr_end = b\<rparr>"
  defines "n2 \<equiv> ReportTaskResult tr W q n1"
  shows "fst (in_service tr V (\<lambda>V. CancelExecution V e usr) n) = Inr () \<and>
    (\<exists>f r. sn_failures n2 = sn_failures n @ [f] \<and>
       s_retries (sn_sched (run_reported_failure tr W f n2)) = s_retries (sn_sched n) @ [r] \<and>
       r_task r = t \<and> r_failed r = e \<and> r_times r = x_retry x + 1)"
proof -
  let ?V = "wired tr V (sn_server n)" and ?W = "\<lambda>m. wired tr W (sn_server m)"
  have dbW: "env_db W st = None" for st using assms(6) by blast
  obtain s1 where s1: "CancelExecution ?V e usr (sn_sched n) = (Inr (), s1)" "recorded e (x_task x) (x_retry x) s1"
      "s_tasks s1 = s_tasks (sn_sched n)" "s_retries s1 = s_retries (sn_sched n)"
      "retry_free kv (env_now W) (x_task x) s1"
    using cancel_done [of ?V kv e "sn_sched n" x "env_now W" "x_task x"] assms(1-3,7,8,12) by auto
  have n1: "sn_sched n1 = s1" "sn_failures n1 = sn_failures n" using s1(1) by (simp_all add: n1_def)
  define f where "f = \<lparr>rf_task = x_task x, rf_eid = e, rf_output = o', rf_error = ''task cancelled by user'',
      rf_duration = reported_duration (env_now W) q\<rparr>"
  let ?s2 = "snd (UpdateExecutionResult (?W n1) e ''failed'' o' ''task cancelled by user'' (Some (a, b)) s1)"
  have n2: "sn_failures n2 = sn_failures n @ [f]" "sn_sched n2 = ?s2"
    by (simp_all add: n2_def ReportTaskResult_def Let_def q_def f_def n1)
  have s2: "recorded e (x_task x) (x_retry x) ?s2" "retry_free kv (env_now W) (x_task x) ?s2"
    using s1 dbW assms(4,5) by (auto intro!: recorded_result retry_free_result)
  let ?n3 = "n2\<lparr>sn_failures := remove1 f (sn_failures n2)\<rparr>"
  have "\<exists>r. s_retries (snd (HandleTaskFailure (?W ?n3) (x_task x) e o' ''task cancelled by user''
        (rf_duration f) ?s2)) = s_retries ?s2 @ [r] \<and> r_task r = t \<and> r_failed r = e \<and> r_times r = x_retry x + 1 \<and>
      r_due r = env_now (?W ?n3) + t_retry_interval t * second"
    using assms(4-6,9-11) s1(3) s2 by (intro failure_retried [where kv = kv]) simp_all
  moreover have "f \<in> set (sn_failures n2)" using n2 by simp
  ultimately show ?thesis
    using s1 n2 by (auto simp: run_reported_failure_def f_def)
qed


section \<open>Streams\<close>

datatype stream_event =
    Opens string nat   \<comment> \<open>an executor subscribes with this stream\<close>
  | Ended string nat   \<comment> \<open>the handler of this stream sees it end\<close>

fun event_name :: "stream_event \<Rightarrow> string" where
  "event_name (Opens name st) = name"
| "event_name (Ended name st) = name"

fun stream_step :: "server \<Rightarrow> stream_event \<Rightarrow> server" where
  "stream_step srv (Opens name st) = subscribe_open name st srv"
| "stream_step srv (Ended name st) = subscribe_end name srv"

lemma other_streams: "\<forall>e\<in>set es. event_name e \<noteq> name \<Longrightarrow>
    srv_executors (run stream_step srv es) name = srv_executors srv name"
proof (induction es arbitrary: srv)
  case (Cons e es)
  then show ?case by (cases e) (auto simp: subscribe_open_def subscribe_end_def)
qed simp

text \<open>The last event under a name decides, whichever stream it was about.\<close>

lemma connected_by_last_event:
  assumes "\<forall>e\<in>set rest. event_name e \<noteq> name"
  shows "srv_executors (run stream_step srv (es @ Opens name st # rest)) name = Some st"
    and "srv_executors (run stream_step srv (es @ Ended name st # rest)) name = None"
  using other_streams [OF assms] by (simp_all add: subscribe_open_def subscribe_end_def)

text \<open>C22: An executor that reconnects can be cut off by its own past: the handler of its old stream deletes the entry
  of its name when it notices the end, even if the executor has subscribed again by then. From then on,
  although the new stream is open, every dispatch to the executor fails and nothing is sent,
  until it subscribes once more.\<close>

theorem late_stream_end_cuts_executor_off:
  fixes n :: "'r snode" and tr :: transport and eid :: string
  assumes "\<forall>st. env_db V st = None" "choose_executor V t (sn_sched n) = Inr x"
    and "sn_server n = run stream_step srv (es @ [Opens (e_name x) new] @ mid @ [Ended (e_name x) old] @ rest)"
    and "new \<noteq> old" "Ended (e_name x) new \<notin> set mid" "\<forall>e\<in>set rest. event_name e \<noteq> e_name x"
  defines "r \<equiv> in_service tr V (\<lambda>V. dispatch_inserted V t eid) n"
  shows "fst r = (eid, Some (''dispatch failed: executor '' @ e_name x @ '' not connected'')) \<and>
    s_sent (sn_sched (snd r)) = s_sent (sn_sched n) \<and>
    (\<forall>z\<in>set (lives eid (sn_sched (snd r))). fst (snd (snd (snd z))) = ''failed'')"
proof -
  let ?V = "wired tr V (sn_server n)" and ?msg = "''dispatch failed: executor '' @ e_name x @ '' not connected''"
  have off: "dispatchTask tr (e_name x) g (sn_server n) =
      Some (''executor '' @ e_name x @ '' not connected'')" for g
    using connected_by_last_event(2) [OF assms(6), of srv "es @ [Opens (e_name x) new] @ mid" old]
    by (simp add: dispatchTask_def assms(3))
  have "choose_executor ?V t s = choose_executor V t s" for s
    by (simp add: choose_executor_def GetExecutorByID_def SelectAvailableExecutor_def candidates_def wired_def
        cong: if_cong)
  then have c: "choose_executor ?V t (sn_sched n) = Inr x" using assms(2) by simp
  then have "dispatch_inserted ?V t eid (sn_sched n) =
      ((eid, Some ?msg), dispatch_failed ?V t eid ?msg (set_executor ?V eid (e_id x) (sn_sched n)))"
    by (simp add: dispatch_inserted_def off)
  moreover have "s_sent (set_executor ?V eid (e_id x) (sn_sched n)) = s_sent (sn_sched n)"
    by (simp add: set_executor_def)
  ultimately show ?thesis
    using dispatch_failed_effect [where V = ?V and t = t and eid = eid and msg = ?msg and s = "set_executor ?V eid (e_id x) (sn_sched n)"] assms(1)
    by (auto simp: r_def split: prod.splits)
qed

section \<open>A new leader\<close>

text \<open>Every executor that is connected when its node becomes the leader is asked for its state.\<close>

lemma new_leader_asks_everyone:
  assumes "IsExecutorConnected (hb_name q) (sn_server n)" "hb_name q \<noteq> []"
  shows "hr_full_sync (fst (Heartbeat tr V q (becomes_leader now n)))"
proof -
  let ?n = "becomes_leader now n"
  obtain c n1 where n1: "in_service tr V (\<lambda>V. take_heartbeat V q) ?n = (c, n1)" by fastforce
  then have "sn_server n1 = sn_server ?n"
    using in_service_server [of "\<lambda>V. take_heartbeat V q" tr V ?n] by simp
  then show ?thesis
    using n1 assms by (auto simp: Heartbeat_def Let_def becomes_leader_def MarkAsNewLeader_def SetLeader_def
        IsExecutorConnected_def)
qed

text \<open>The timer of an earlier term ends the mark of a later one before its half minute is over.\<close>

lemma old_timer_ends_new_term:
  assumes "t1 < t2" "t2 < t1 + 30 * second"
  shows "\<not> srv_new_leader (new_leader_timeout (t1 + 30 * second)
    (MarkAsNewLeader t2 (SetLeader False (MarkAsNewLeader t1 srv)))) \<and> t1 + 30 * second < t2 + 30 * second"
  using assms by (simp add: new_leader_timeout_def MarkAsNewLeader_def SetLeader_def)

section \<open>The properties at a concrete node\<close>

definition demo_node :: "keys snode" where
  "demo_node = \<lparr>sn_server = NewServer, sn_sched = busy_sched, sn_failures = []\<rparr>"

theorem cancelled_execution_is_retried_witness:
  "\<exists>f r. s_retries (sn_sched (run_reported_failure (\<lambda>st g. None) later_env f
       (ReportTaskResult (\<lambda>st g. None) later_env
         \<lparr>tr_eid = ''exec-5-1'', tr_task = 5, tr_status = ''failed'', tr_output = [],
          tr_error = ''task cancelled by user'', tr_start = 100, tr_end = 101\<rparr>
         (snd (in_service (\<lambda>st g. None) demo_env (\<lambda>V. CancelExecution V ''exec-5-1'' ''ann'') demo_node))))) = [r] \<and>
     r_task r = pinned_task \<and> r_times r = 1"
proof -
  have x: "x_task busy_execution = 5" "x_eid busy_execution = ''exec-5-1''" "x_retry busy_execution = 0"
      "x_status busy_execution = ''running''"
    by (simp_all add: busy_execution_def new_execution_def pinned_task_def demo_task_def)
  have t: "t_id pinned_task = 5" "t_retry_count pinned_task = 2"
    by (simp_all add: pinned_task_def demo_task_def)
  have s: "s_execs busy_sched = [busy_execution]" "s_tasks busy_sched = [pinned_task]" "s_retries busy_sched = []"
    by (simp_all add: busy_sched_def task_sched_def demo_sched_def)
  have k: "retry_free (\<lambda>m. m) (env_now later_env) 5 busy_sched"
    by (simp add: retry_free_def busy_sched_def task_sched_def demo_sched_def retry_lock_key_def renew_key_def
        lock_key_def live_def later_env_def)
  show ?thesis
    using cancelled_execution_is_retried [of demo_env "\<lambda>m. m" later_env "''exec-5-1''" demo_node busy_execution
        pinned_task "\<lambda>st g. None" "''ann''" "[]" 100 101] mem_server mem_redis_up x t s k
    by (auto simp: demo_node_def later_env_def)
qed

theorem late_stream_end_cuts_executor_off_witness:
  "fst (in_service (\<lambda>st g. None) demo_env (\<lambda>V. dispatch_inserted V pinned_task ''exec-5-2'')
     (demo_node\<lparr>sn_server := run stream_step NewServer [Opens ''w1'' 1, Opens ''w1'' 2, Ended ''w1'' 1],
                sn_sched := task_sched\<rparr>)) =
   (''exec-5-2'', Some ''dispatch failed: executor w1 not connected'')"
proof -
  obtain x where x: "choose_executor demo_env pinned_task task_sched = Inr x" "e_name x = ''w1''"
    using demo_choice [of demo_env] by auto
  show ?thesis
    using late_stream_end_cuts_executor_off [of demo_env pinned_task "demo_node\<lparr>sn_server := run stream_step NewServer
        [Opens ''w1'' 1, Opens ''w1'' 2, Ended ''w1'' 1], sn_sched := task_sched\<rparr>" x NewServer "[Opens ''w1'' 1]" 2
        "[]" 1 "[]" "\<lambda>st g. None" "''exec-5-2''"] x
    by simp
qed

end
