(* ===== verification/Utf8.thy ===== *)
theory Utf8
  imports Go_Strings
begin

text \<open>
  Go's view of a string as bytes in UTF-8 (package \<open>unicode/utf8\<close>, the conversion from runes and the
  \<open>range\<close> loop), and \<open>sanitizeUTF8\<close> of executor/internal/executor/task_executor.go, which every log line,
  output and error of a task goes through on its way to the scheduler. A byte that begins no
  encoding reads as U+FFFD of width 1.
\<close>

section \<open>Runes\<close>

definition rune_error :: nat where "rune_error = 65533"

definition byte :: "nat \<Rightarrow> char" where "byte n = char_of n"

definition in_range :: "nat \<Rightarrow> nat \<Rightarrow> char \<Rightarrow> bool" where
  "in_range lo hi c \<longleftrightarrow> lo \<le> code c \<and> code c \<le> hi"

text \<open>A Unicode scalar value: no surrogate and at most U+10FFFF.\<close>

definition scalar :: "nat \<Rightarrow> bool" where
  "scalar r \<longleftrightarrow> r < 55296 \<or> 57344 \<le> r \<and> r \<le> 1114111"

definition encode_rune :: "nat \<Rightarrow> string" where
  "encode_rune n =
     (let r = (if scalar n then n else rune_error)
      in if r < 128 then [byte r]
         else if r < 2048 then [byte (192 + r div 64), byte (128 + r mod 64)]
         else if r < 65536
         then [byte (224 + r div 4096), byte (128 + r div 64 mod 64), byte (128 + r mod 64)]
         else [byte (240 + r div 262144), byte (128 + r div 4096 mod 64), byte (128 + r div 64 mod 64),
               byte (128 + r mod 64)])"

text \<open>The range of the second byte after the first byte \<open>x\<close>.\<close>

definition second_range :: "nat \<Rightarrow> nat \<times> nat" where
  "second_range x = (if x = 224 then (160, 191) else if x = 237 then (128, 159)
     else if x = 240 then (144, 191) else if x = 244 then (128, 143) else (128, 191))"

definition second_ok :: "nat \<Rightarrow> char \<Rightarrow> bool" where
  "second_ok x c = (case second_range x of (lo, hi) \<Rightarrow> in_range lo hi c)"

definition tail_bits :: "char \<Rightarrow> nat" where
  "tail_bits c = code c - 128"

text \<open>\<open>DecodeRuneInString\<close>: the rune and its width.\<close>

definition decode_rune :: "string \<Rightarrow> nat \<times> nat" where
  "decode_rune s =
     (case s of
        [] \<Rightarrow> (rune_error, 0)
      | a # t \<Rightarrow>
          (let x = code a
           in if x < 128 then (x, 1)
              else if 194 \<le> x \<and> x \<le> 223
              then (case t of b # _ \<Rightarrow>
                      if second_ok x b then ((x - 192) * 64 + tail_bits b, 2) else (rune_error, 1)
                    | _ \<Rightarrow> (rune_error, 1))
              else if 224 \<le> x \<and> x \<le> 239
              then (case t of b # c # _ \<Rightarrow>
                      if second_ok x b \<and> in_range 128 191 c
                      then ((x - 224) * 4096 + tail_bits b * 64 + tail_bits c, 3) else (rune_error, 1)
                    | _ \<Rightarrow> (rune_error, 1))
              else if 240 \<le> x \<and> x \<le> 244
              then (case t of b # c # d # _ \<Rightarrow>
                      if second_ok x b \<and> in_range 128 191 c \<and> in_range 128 191 d
                      then ((x - 240) * 262144 + tail_bits b * 4096 + tail_bits c * 64 + tail_bits d, 4)
                      else (rune_error, 1)
                    | _ \<Rightarrow> (rune_error, 1))
              else (rune_error, 1)))"

text \<open>\<open>for _, r := range s\<close> and \<open>utf8.ValidString\<close>.\<close>

function runes :: "string \<Rightarrow> nat list" where
  "runes [] = []"
| "runes (a # s) = fst (decode_rune (a # s)) # runes (drop (snd (decode_rune (a # s)) - 1) s)"
  by pat_completeness auto
termination by (relation "measure length") auto

function ValidString :: "string \<Rightarrow> bool" where
  "ValidString [] = True"
| "ValidString (a # s) = (decode_rune (a # s) \<noteq> (rune_error, 1) \<and>
     ValidString (drop (snd (decode_rune (a # s)) - 1) s))"
  by pat_completeness auto
termination by (relation "measure length") auto

definition of_runes :: "nat list \<Rightarrow> string" where
  "of_runes rs = concat (map encode_rune rs)"

definition sanitizeUTF8 :: "string \<Rightarrow> string" where
  "sanitizeUTF8 s =
     (if s = [] then s else if ValidString s then s
      else of_runes (filter (\<lambda>r. r \<noteq> rune_error) (runes s)))"

section \<open>Decoding what was encoded\<close>

lemma code_byte [simp]: "n < 256 \<Longrightarrow> code (byte n) = n"
  by (simp add: byte_def)

lemma byte_code [simp]: "byte (code c) = c"
  by (simp add: byte_def code_def)

lemma encode_not_Nil [simp]: "encode_rune r \<noteq> []"
  by (simp add: encode_rune_def Let_def)

lemma decode_encode:
  assumes "scalar r"
  shows "decode_rune (encode_rune r @ s) = (r, length (encode_rune r))"
proof -
  define a b c d where abcd: "a = r div 262144" "b = r div 4096 mod 64" "c = r div 64 mod 64" "d = r mod 64"
  have "r div 4096 = r div 64 div 64" "r div 262144 = r div 4096 div 64"
    by (simp_all add: div_mult2_eq [symmetric])
  then have dv: "r div 4096 = 64 * a + b" "r div 64 = 64 * (r div 4096) + c" "r = 64 * (r div 64) + d"
    using mult_div_mod_eq [of 64 "r div 4096"] mult_div_mod_eq [of 64 "r div 64"] mult_div_mod_eq [of 64 r]
    unfolding abcd by simp_all
  then have r: "r = 262144 * a + 4096 * b + 64 * c + d" "r div 64 = 4096 * a + 64 * b + c" by linarith+
  have l: "b < 64" "c < 64" "d < 64" unfolding abcd by simp_all
  consider "r < 128" | "128 \<le> r" "r < 2048" | "2048 \<le> r" "r < 65536" | "65536 \<le> r" by linarith
  then show ?thesis
  proof cases
    case 1
    then show ?thesis using assms by (simp add: encode_rune_def decode_rune_def Let_def)
  next
    case 2
    then have ab: "a = 0" "b = 0" using r l by linarith+
    then have c: "c < 32" "2 \<le> c" using 2 r l by linarith+
    have e: "encode_rune r = [byte (192 + c), byte (128 + d)]"
      using assms 2 r(2) ab abcd(4) by (simp add: encode_rune_def)
    have "second_ok (192 + c) (byte (128 + d))" "code (byte (192 + c)) = 192 + c" "tail_bits (byte (128 + d)) = d"
      using c l by (simp_all add: second_ok_def second_range_def in_range_def tail_bits_def)
    then show ?thesis using c r(1) ab unfolding e by (simp add: decode_rune_def)
  next
    case 3
    then have ab: "a = 0" "b < 16" using r l by linarith+
    have c: "b = 0 \<Longrightarrow> 32 \<le> c" "b = 13 \<Longrightarrow> c < 32"
      using 3 assms r(1) l ab unfolding scalar_def by linarith+
    have e: "encode_rune r = [byte (224 + b), byte (128 + c), byte (128 + d)]"
      using assms 3 abcd(3,4) ab dv(1) by (simp add: encode_rune_def)
    have "second_ok (224 + b) (byte (128 + c))"
      using ab c l by (auto simp: second_ok_def second_range_def in_range_def)
    moreover have "in_range 128 191 (byte (128 + d))" "code (byte (224 + b)) = 224 + b"
        "tail_bits (byte (128 + c)) = c" "tail_bits (byte (128 + d)) = d"
      using ab l by (simp_all add: in_range_def tail_bits_def)
    ultimately show ?thesis using ab r(1) unfolding e by (simp add: decode_rune_def)
  next
    case 4
    have "r \<le> 1114111" using assms 4 by (simp add: scalar_def)
    then have ab: "a \<le> 4" "a = 0 \<Longrightarrow> 16 \<le> b" "a = 4 \<Longrightarrow> b < 16" using r(1) l 4 by linarith+
    have e: "encode_rune r = [byte (240 + a), byte (128 + b), byte (128 + c), byte (128 + d)]"
      using assms 4 abcd by (simp add: encode_rune_def)
    have "second_ok (240 + a) (byte (128 + b))"
      using ab l by (auto simp: second_ok_def second_range_def in_range_def)
    moreover have "in_range 128 191 (byte (128 + c))" "in_range 128 191 (byte (128 + d))"
      using l by (simp_all add: in_range_def)
    moreover have "code (byte (240 + a)) = 240 + a" "tail_bits (byte (128 + b)) = b"
        "tail_bits (byte (128 + c)) = c" "tail_bits (byte (128 + d)) = d"
      using ab(1) l by (simp_all add: tail_bits_def)
    ultimately show ?thesis using ab(1) r(1) unfolding e by (simp add: decode_rune_def)
  qed
qed


text \<open>A byte within a range, as the start of the range and the rest.\<close>

lemma in_rangeE:
  assumes "in_range lo hi c"
  obtains q where "c = byte (lo + q)" "code c = lo + q" "lo + q \<le> hi"
proof -
  have "lo \<le> code c" "code c \<le> hi" using assms by (simp_all add: in_range_def)
  then have "c = byte (lo + (code c - lo))" "code c = lo + (code c - lo)" by simp_all
  then show thesis using that [of "code c - lo"] \<open>code c \<le> hi\<close> by simp
qed

lemma second_okE:
  assumes "second_ok x c"
  obtains q where "c = byte (128 + q)" "q < 64" "tail_bits c = q" "x = 224 \<Longrightarrow> 32 \<le> q" "x = 237 \<Longrightarrow> q < 32"
    "x = 240 \<Longrightarrow> 16 \<le> q" "x = 244 \<Longrightarrow> q < 16"
proof -
  have c: "in_range 128 191 c" "x = 224 \<Longrightarrow> 160 \<le> code c" "x = 237 \<Longrightarrow> code c < 160"
      "x = 240 \<Longrightarrow> 144 \<le> code c" "x = 244 \<Longrightarrow> code c < 144"
    using assms by (auto simp: second_ok_def second_range_def in_range_def split: if_splits)
  then obtain q where q: "c = byte (128 + q)" "code c = 128 + q" "128 + q \<le> 191" by (elim in_rangeE)
  then show thesis using c(2-) that [of q] by (simp add: tail_bits_def)
qed

lemma tailE:
  assumes "in_range 128 191 c"
  obtains q where "c = byte (128 + q)" "q < 64" "tail_bits c = q"
proof -
  obtain q where "c = byte (128 + q)" "code c = 128 + q" "128 + q \<le> 191" using in_rangeE [OF assms] .
  then show thesis using that [of q] by (simp add: tail_bits_def)
qed

lemma digit64: "q < 64 \<Longrightarrow> (64 * p + q) div 64 = p \<and> (64 * p + q) mod 64 = (q :: nat)"
  by simp

lemma two_bytes:
  "2 \<le> p \<Longrightarrow> p < 32 \<Longrightarrow> q < 64 \<Longrightarrow>
   scalar (64 * p + q) \<and> encode_rune (64 * p + q) = [byte (192 + p), byte (128 + q)]"
  by (simp add: encode_rune_def scalar_def)

lemma three_bytes:
  assumes "p < 16" "q < 64" "t < 64" "p = 0 \<Longrightarrow> 32 \<le> q" "p = 13 \<Longrightarrow> q < 32"
  shows "scalar (4096 * p + 64 * q + t) \<and>
    encode_rune (4096 * p + 64 * q + t) = [byte (224 + p), byte (128 + q), byte (128 + t)]"
proof -
  let ?r = "4096 * p + 64 * q + t"
  have "?r div 64 = 64 * p + q" "?r mod 64 = t" using digit64 [OF assms(3), of "64 * p + q"] by simp_all
  moreover have "?r div 4096 = p" using assms by (intro div_nat_eqI) simp_all
  moreover have "(64 * p + q) mod 64 = q" using digit64 [OF assms(2), of p] by simp
  moreover have "2048 \<le> ?r" "?r < 65536" using assms by (cases p; simp)+
  moreover have "scalar ?r"
  proof -
    consider "p < 13" | "p = 13" | "14 \<le> p" by linarith
    then show ?thesis using assms unfolding scalar_def by cases linarith+
  qed
  ultimately show ?thesis by (simp add: encode_rune_def)
qed

lemma four_bytes:
  assumes "p \<le> 4" "q < 64" "t < 64" "u < 64" "p = 0 \<Longrightarrow> 16 \<le> q" "p = 4 \<Longrightarrow> q < 16"
  shows "scalar (262144 * p + 4096 * q + 64 * t + u) \<and>
    encode_rune (262144 * p + 4096 * q + 64 * t + u) =
      [byte (240 + p), byte (128 + q), byte (128 + t), byte (128 + u)]"
proof -
  let ?r = "262144 * p + 4096 * q + 64 * t + u"
  have "?r div 64 = 4096 * p + 64 * q + t" "?r mod 64 = u"
    using digit64 [OF assms(4), of "4096 * p + 64 * q + t"] by simp_all
  moreover have "?r div 4096 = 64 * p + q" "?r div 262144 = p" using assms by (intro div_nat_eqI; simp)+
  moreover have "(4096 * p + 64 * q + t) mod 64 = t" using digit64 [OF assms(3), of "64 * p + q"] by simp
  moreover have "(64 * p + q) mod 64 = q" using digit64 [OF assms(2), of p] by simp
  moreover have "65536 \<le> ?r" "?r \<le> 1114111" using assms by (cases "p = 0"; cases "p = 4"; simp)+
  ultimately show ?thesis by (simp add: encode_rune_def scalar_def)
qed


lemma decode_ok_cases:
  assumes "decode_rune s = (r, w)" "(r, w) \<noteq> (rune_error, 1)" "s \<noteq> []"
  obtains (one) a t where "s = a # t" "code a < 128" "r = code a" "w = 1"
  | (two) a b t where "s = a # b # t" "in_range 194 223 a" "second_ok (code a) b"
      "r = (code a - 192) * 64 + tail_bits b" "w = 2"
  | (three) a b c t where "s = a # b # c # t" "in_range 224 239 a" "second_ok (code a) b" "in_range 128 191 c"
      "r = (code a - 224) * 4096 + tail_bits b * 64 + tail_bits c" "w = 3"
  | (four) a b c d t where "s = a # b # c # d # t" "in_range 240 244 a" "second_ok (code a) b"
      "in_range 128 191 c" "in_range 128 191 d"
      "r = (code a - 240) * 262144 + tail_bits b * 4096 + tail_bits c * 64 + tail_bits d" "w = 4"
proof -
  obtain a t where s: "s = a # t" using assms(3) by (cases s) auto
  consider "code a < 128" | "\<not> code a < 128" "in_range 194 223 a" | "in_range 224 239 a" | "in_range 240 244 a"
    | "\<not> code a < 128" "\<not> in_range 194 223 a" "\<not> in_range 224 239 a" "\<not> in_range 240 244 a" by blast
  then show thesis
  proof cases
    case 1
    then have "decode_rune s = (code a, 1)" by (simp add: s decode_rune_def)
    then show thesis using assms(1) s 1 one by simp
  next
    case 2
    then show thesis using assms s two [of a _ _]
      by (auto simp: decode_rune_def Let_def in_range_def [of 194] split: list.splits if_splits)
  next
    case 3
    then show thesis using assms s three [of a _ _ _]
      by (auto simp: decode_rune_def Let_def in_range_def [of 224] split: list.splits if_splits)
  next
    case 4
    then show thesis using assms s four [of a _ _ _ _]
      by (auto simp: decode_rune_def Let_def in_range_def [of 240] split: list.splits if_splits)
  next
    case 5
    then show thesis using assms s by (auto simp: decode_rune_def in_range_def)
  qed
qed

lemma encode_decode:
  assumes "decode_rune s = (r, w)" "(r, w) \<noteq> (rune_error, 1)" "s \<noteq> []"
  shows "scalar r \<and> encode_rune r = take w s \<and> 1 \<le> w \<and> w \<le> length s"
  using assms
proof (cases rule: decode_ok_cases)
  case (one a t)
  then have "encode_rune r = [byte (code a)]" "scalar r" by (simp_all add: encode_rune_def scalar_def)
  then show ?thesis using one(1,4) by simp
next
  case (two a b t)
  obtain p' where p': "a = byte (194 + p')" "code a = 194 + p'" "194 + p' \<le> 223" using in_rangeE [OF two(2)] .
  define p where "p = p' + 2"
  have p: "a = byte (192 + p)" "code a = 192 + p" "2 \<le> p" "p < 32" using p' by (simp_all add: p_def)
  obtain q where q: "b = byte (128 + q)" "q < 64" "tail_bits b = q" using second_okE [OF two(3)] .
  have "r = 64 * p + q" using two(4) unfolding p(2) q(3) by simp
  moreover have "take w s = [byte (192 + p), byte (128 + q)]" "w = 2" "2 \<le> length s"
    unfolding two(1,5) p(1) [symmetric] q(1) [symmetric] by simp_all
  ultimately show ?thesis using two_bytes [OF p(3,4) q(2)] by simp
next
  case (three a b c t)
  obtain p where p': "a = byte (224 + p)" "code a = 224 + p" "224 + p \<le> 239" using in_rangeE [OF three(2)] .
  then have p: "a = byte (224 + p)" "code a = 224 + p" "p < 16" by simp_all
  obtain q where q: "b = byte (128 + q)" "q < 64" "tail_bits b = q" "p = 0 \<Longrightarrow> 32 \<le> q" "p = 13 \<Longrightarrow> q < 32"
    by (rule second_okE [OF three(3), unfolded p(2)]) simp
  obtain u where u: "c = byte (128 + u)" "u < 64" "tail_bits c = u" using tailE [OF three(4)] .
  have "r = 4096 * p + 64 * q + u" using three(5) unfolding p(2) q(3) u(3) by simp
  moreover have "take w s = [byte (224 + p), byte (128 + q), byte (128 + u)]" "w = 3" "3 \<le> length s"
    unfolding three(1,6) p(1) [symmetric] q(1) [symmetric] u(1) [symmetric] by simp_all
  ultimately show ?thesis using three_bytes [OF p(3) q(2) u(2) q(4,5)] by simp
next
  case (four a b c d t)
  obtain p where p': "a = byte (240 + p)" "code a = 240 + p" "240 + p \<le> 244" using in_rangeE [OF four(2)] .
  then have p: "a = byte (240 + p)" "code a = 240 + p" "p \<le> 4" by simp_all
  obtain q where q: "b = byte (128 + q)" "q < 64" "tail_bits b = q" "p = 0 \<Longrightarrow> 16 \<le> q" "p = 4 \<Longrightarrow> q < 16"
    by (rule second_okE [OF four(3), unfolded p(2)]) simp
  obtain u where u: "c = byte (128 + u)" "u < 64" "tail_bits c = u" using tailE [OF four(4)] .
  obtain v where v: "d = byte (128 + v)" "v < 64" "tail_bits d = v" using tailE [OF four(5)] .
  have "r = 262144 * p + 4096 * q + 64 * u + v" using four(6) unfolding p(2) q(3) u(3) v(3) by simp
  moreover have "take w s = [byte (240 + p), byte (128 + q), byte (128 + u), byte (128 + v)]" "w = 4" "4 \<le> length s"
    unfolding four(1,7) p(1) [symmetric] q(1) [symmetric] u(1) [symmetric] v(1) [symmetric] by simp_all
  ultimately show ?thesis using four_bytes [OF p(3) q(2) u(2) v(2) q(4,5)] by simp
qed


section \<open>Whole strings\<close>

lemma of_runes_simps [simp]:
  "of_runes [] = []" "of_runes (r # rs) = encode_rune r @ of_runes rs"
  by (simp_all add: of_runes_def)

text \<open>What reads as a rune and its rest, split off the front.\<close>

lemma front_rune:
  assumes "s \<noteq> []" "decode_rune s = (r, w)" "1 \<le> w"
  shows "runes s = r # runes (drop w s)"
    and "ValidString s \<longleftrightarrow> (r, w) \<noteq> (rune_error, 1) \<and> ValidString (drop w s)"
proof -
  obtain a t where "s = a # t" using assms(1) by (cases s) auto
  moreover have "drop (w - 1) t = drop w (a # t)" using assms(3) by (cases w) simp_all
  ultimately show "runes s = r # runes (drop w s)"
    and "ValidString s \<longleftrightarrow> (r, w) \<noteq> (rune_error, 1) \<and> ValidString (drop w s)"
    using assms(2) by simp_all
qed

lemma encoded_front:
  assumes "scalar r"
  shows "runes (encode_rune r @ s) = r # runes s"
    and "ValidString (encode_rune r @ s) \<longleftrightarrow> ValidString s"
proof -
  have l: "1 \<le> length (encode_rune r)" "length (encode_rune r) = 1 \<Longrightarrow> r \<noteq> rune_error"
    using assms by (auto simp: encode_rune_def Let_def rune_error_def)
  note d = decode_encode [OF assms, of s]
  show "runes (encode_rune r @ s) = r # runes s"
    using front_rune(1) [OF _ d l(1)] by simp
  show "ValidString (encode_rune r @ s) \<longleftrightarrow> ValidString s"
    using front_rune(2) [OF _ d l(1)] l(2) by auto
qed

text \<open>Encoding and decoding are inverse to each other on scalar values and valid strings.\<close>

lemma runes_of_runes:
  "list_all scalar rs \<Longrightarrow> runes (of_runes rs) = rs \<and> ValidString (of_runes rs)"
  by (induction rs) (simp_all add: encoded_front)

lemma of_runes_runes: "ValidString s \<Longrightarrow> of_runes (runes s) = s \<and> list_all scalar (runes s)"
proof (induction s rule: ValidString.induct)
  case (2 a s)
  obtain r w where rw: "decode_rune (a # s) = (r, w)" by fastforce
  then have e: "scalar r" "encode_rune r = take w (a # s)" "1 \<le> w"
    using encode_decode [OF rw] 2(2) by auto
  have d: "drop (w - 1) s = drop w (a # s)" using e(3) by (cases w) simp_all
  then have "of_runes (runes (drop w (a # s))) = drop w (a # s) \<and> list_all scalar (runes (drop w (a # s)))"
    using 2 rw by simp
  then show ?case using e rw d by simp
qed simp

lemma runes_scalar: "list_all scalar (runes s)"
proof (induction s rule: runes.induct)
  case (2 a s)
  obtain r w where rw: "decode_rune (a # s) = (r, w)" by fastforce
  have "scalar rune_error" by (simp add: scalar_def rune_error_def)
  then have "scalar r" using encode_decode [OF rw] by (cases "(r, w) = (rune_error, 1)") auto
  then show ?case using 2 rw by simp
qed simp

text \<open>What the executor sends is always valid UTF-8, so that the message can be encoded: a valid text
  arrives as it is, and any other with exactly its unreadable bytes, and its U+FFFD, left
  out and every other rune in its place.\<close>

theorem sanitized_text_is_valid:
  "ValidString (sanitizeUTF8 s) \<and>
   sanitizeUTF8 s = of_runes (if ValidString s then runes s else filter (\<lambda>r. r \<noteq> rune_error) (runes s)) \<and>
   runes (sanitizeUTF8 s) = (if ValidString s then runes s else filter (\<lambda>r. r \<noteq> rune_error) (runes s))"
proof (cases "ValidString s")
  case True
  then show ?thesis using of_runes_runes [OF True] by (simp add: sanitizeUTF8_def)
next
  case False
  then have "s \<noteq> []" by auto
  moreover have "list_all scalar (filter (\<lambda>r. r \<noteq> rune_error) (runes s))"
    using runes_scalar [of s] by (auto simp: list_all_iff)
  ultimately show ?thesis using False runes_of_runes by (simp add: sanitizeUTF8_def)
qed

section \<open>Chunks\<close>

text \<open>
  The output of a task is read in chunks of at most 1024 bytes, each of which is sanitized by itself.
\<close>

lemma ascii_runes: "list_all (\<lambda>c. code c < 128) s \<Longrightarrow> runes (s @ t) = map code s @ runes t \<and>
    (ValidString (s @ t) \<longleftrightarrow> ValidString t)"
proof (induction s)
  case (Cons a s)
  then have d: "decode_rune (a # s @ t) = (code a, 1)" by (simp add: decode_rune_def)
  then show ?case using Cons by (auto simp: rune_error_def)
qed simp

lemma of_ascii: "list_all (\<lambda>c. code c < 128) s \<Longrightarrow> of_runes (map code s) = s"
  by (induction s) (simp_all add: encode_rune_def scalar_def)

lemma ascii_not_error: "list_all (\<lambda>c. code c < 128) s \<Longrightarrow>
    filter (\<lambda>r. r \<noteq> rune_error) (map code s) = map code s"
  by (induction s) (auto simp: rune_error_def)

text \<open>A two-byte character between two chunks is in neither of the texts that are sent.\<close>

lemma sanitize_cut:
  assumes "list_all (\<lambda>c. code c < 128) s" "list_all (\<lambda>c. code c < 128) t"
    and "in_range 194 223 b" "in_range 128 191 c"
  shows "sanitizeUTF8 (s @ [b]) = s" "sanitizeUTF8 (c # t) = t" "ValidString (s @ b # c # t)"
proof -
  have b: "decode_rune [b] = (rune_error, 1)" and c: "decode_rune (c # t) = (rune_error, 1)"
    and bc: "decode_rune (b # c # t) = ((code b - 192) * 64 + tail_bits c, 2)"
    using assms(3,4) by (auto simp: decode_rune_def in_range_def second_ok_def second_range_def)
  have t: "runes t = map code t" "ValidString t" using ascii_runes [OF assms(2), of "[]"] by simp_all
  show "sanitizeUTF8 (s @ [b]) = s"
    using ascii_runes [OF assms(1), of "[b]"] b of_ascii [OF assms(1)] ascii_not_error [OF assms(1)]
    by (simp add: sanitizeUTF8_def)
  show "sanitizeUTF8 (c # t) = t"
    using c t of_ascii [OF assms(2)] ascii_not_error [OF assms(2)] by (simp add: sanitizeUTF8_def)
  show "ValidString (s @ b # c # t)"
    using ascii_runes [OF assms(1), of "b # c # t"] bc t by simp
qed

end
