(* ===== verification/Executor_Tasks.thy ===== *)
theory Executor_Tasks
  imports Grpc_Server Worker_Pool Utf8
begin

text \<open>
  The tasks that an executor runs (executor/internal/executor/task_executor.go, without the runners,
  which are in \<open>Task_Executor\<close>): the table of running tasks, their contexts, cancellation, and
  the shutdown. The table is a sync.Map, here an association list whose order stands for the
  order in which \<open>Range\<close> visits it. A context is a number; cancelling it puts the number
  into \<open>te_cancelled\<close>. The pool is never nil here, since executor/cmd/main.go always passes one.
\<close>

record running_info =
  ri_task :: grpc_task
  ri_start :: instant
  ri_progress :: int
  ri_message :: string
  ri_context :: nat      \<comment> \<open>what \<open>cancel\<close> ends\<close>

record task_executor =
  te_pool :: "unit pool"
  te_running :: "(string \<times> running_info) list"
  te_waiting :: nat            \<comment> \<open>the counter of the wait group\<close>
  te_shutting :: bool
  te_contexts :: nat           \<comment> \<open>contexts made so far\<close>
  te_cancelled :: "nat set"

definition NewTaskExecutor :: "unit pool \<Rightarrow> task_executor" where
  "NewTaskExecutor p =
     \<lparr>te_pool = p, te_running = [], te_waiting = 0, te_shutting = False, te_contexts = 0, te_cancelled = {}\<rparr>"

definition te_UpdateCapacity :: "int \<Rightarrow> task_executor \<Rightarrow> unit result \<times> task_executor" where
  "te_UpdateCapacity n te = (let (x, p) = UpdateCapacity n (te_pool te) in (x, te\<lparr>te_pool := p\<rparr>))"

definition GetRunningExecutionIds :: "task_executor \<Rightarrow> string list" where
  "GetRunningExecutionIds te = map fst (te_running te)"

definition GetRunningTaskStates :: "task_executor \<Rightarrow> running_state list" where
  "GetRunningTaskStates te =
     map (\<lambda>(eid, i). \<lparr>rs_eid = eid, rs_task = g_task (ri_task i), rs_progress = ri_progress i,
       rs_message = ri_message i, rs_start = ri_start i div second\<rparr>) (te_running te)"

text \<open>\<open>Store\<close> replaces the value of a key that is there.\<close>

definition put_running :: "string \<Rightarrow> running_info \<Rightarrow> (string \<times> running_info) list \<Rightarrow> (string \<times> running_info) list" where
  "put_running eid i rs =
     (if eid \<in> fst ` set rs then map (\<lambda>(e, j). (e, if e = eid then i else j)) rs else rs @ [(eid, i)])"

definition addRunningTask :: "instant \<Rightarrow> grpc_task \<Rightarrow> nat \<Rightarrow> task_executor \<Rightarrow> task_executor" where
  "addRunningTask now g c te =
     te\<lparr>te_running := put_running (g_eid g)
          \<lparr>ri_task = g, ri_start = now, ri_progress = 0, ri_message = ''Task started'', ri_context = c\<rparr>
          (te_running te)\<rparr>"

definition removeRunningTask :: "string \<Rightarrow> task_executor \<Rightarrow> task_executor" where
  "removeRunningTask eid te = te\<lparr>te_running := filter (\<lambda>(e, i). e \<noteq> eid) (te_running te)\<rparr>"

definition cancel_context :: "nat \<Rightarrow> task_executor \<Rightarrow> task_executor" where
  "cancel_context c te = te\<lparr>te_cancelled := insert c (te_cancelled te)\<rparr>"

definition CancelTask :: "string \<Rightarrow> task_executor \<Rightarrow> bool \<times> task_executor" where
  "CancelTask eid te =
     (case map_of (te_running te) eid of
        None \<Rightarrow> (False, te)
      | Some i \<Rightarrow> (True, cancel_context (ri_context i) te))"

definition updateTaskProgress :: "string \<Rightarrow> int \<Rightarrow> string \<Rightarrow> task_executor \<Rightarrow> task_executor" where
  "updateTaskProgress eid p msg te =
     (case map_of (te_running te) eid of
        None \<Rightarrow> te
      | Some i \<Rightarrow> te\<lparr>te_running :=
          put_running eid (i\<lparr>ri_progress := p, ri_message := msg\<rparr>) (te_running te)\<rparr>)"

definition getRunningCount :: "task_executor \<Rightarrow> nat" where
  "getRunningCount te = length (te_running te)"

definition GetRunningTasks :: "task_executor \<Rightarrow> int" where
  "GetRunningTasks te = Running (te_pool te)"

text \<open>
  \<open>Shutdown\<close>: the first call marks the executor and cancels every running task, here with nothing else in between (its
  single steps are in \<open>Task_Executor\<close>); waiting for the group is over when its counter is 0 or the time is up.
\<close>

definition Shutdown :: "task_executor \<Rightarrow> task_executor" where
  "Shutdown te =
     (if te_shutting te then te
      else (te\<lparr>te_shutting := True,
               te_cancelled := te_cancelled te \<union> ri_context ` snd ` set (te_running te)\<rparr>))"

definition shutdown_over :: "instant \<Rightarrow> duration \<Rightarrow> instant \<Rightarrow> task_executor \<Rightarrow> bool" where
  "shutdown_over start timeout now te \<longleftrightarrow> te_waiting te = 0 \<or> now \<ge> start + timeout"

section \<open>The table\<close>

lemma put_running_keys [simp]:
  "fst ` set (put_running eid i rs) = insert eid (fst ` set rs)"
  by (force simp: put_running_def)

lemma keys_replaced: "map fst (map (\<lambda>(e, j). (e, if e = eid then i else j)) rs) = map fst rs"
  by (simp add: o_def case_prod_beta)

lemma put_running_distinct: "distinct (map fst rs) \<Longrightarrow> distinct (map fst (put_running eid i rs))"
  unfolding put_running_def by (cases "eid \<in> fst ` set rs") (simp_all only: keys_replaced if_True if_False, simp)

lemma map_of_replaced:
  "map_of (map (\<lambda>(e, j). (e, if e = eid then i else j)) rs) e =
     (if e = eid then map_option (\<lambda>j. i) (map_of rs e) else map_of rs e)"
  by (induction rs) auto

lemma map_of_put_running [simp]: "map_of (put_running eid i rs) = (map_of rs)(eid \<mapsto> i)"
proof (cases "eid \<in> fst ` set rs")
  case True
  then have "map_of rs eid \<noteq> None" by (simp add: map_of_eq_None_iff)
  then show ?thesis using True by (auto simp: put_running_def map_of_replaced fun_eq_iff)
next
  case False
  then have "map_of rs eid = None" by (simp add: map_of_eq_None_iff)
  then show ?thesis using False by (auto simp: put_running_def map_add_def fun_eq_iff split: option.splits)
qed

lemma map_of_removed [simp]: "map_of (filter (\<lambda>(e, i). e \<noteq> eid) rs) = (map_of rs)(eid := None)"
  by (induction rs) auto

end
