(* ===== verification/Executor_Client.thy ===== *)
theory Executor_Client
  imports Executor_Tasks
begin

text \<open>
  The executor's client of the schedulers (executor/internal/grpcclient/client.go): which scheduler it
  is connected to, the check of the connection before every report, reports with their retries,
  the rounds of the subscription loop with their back-off, the heartbeat loop, and the goroutines that
  bring tasks from the stream to the runner. The remote side and gRPC are the argument \<open>N\<close>: every
  call acts on a world of type \<open>'w\<close>. Sleeping has no effect on the state; what is slept is returned where the
  code computes it.
\<close>

section \<open>The remote side\<close>

record 'w net =
  net_dial :: "string \<Rightarrow> 'w \<Rightarrow> nat result \<times> 'w"           \<comment> \<open>a connection\<close>
  net_close :: "nat \<Rightarrow> 'w \<Rightarrow> 'w"
  net_heartbeat :: "nat \<Rightarrow> heartbeat_request \<Rightarrow> 'w \<Rightarrow> heartbeat_response result \<times> 'w"
  net_register :: "nat \<Rightarrow> register_request \<Rightarrow> 'w \<Rightarrow> register_response result \<times> 'w"
  net_subscribe :: "nat \<Rightarrow> string \<Rightarrow> 'w \<Rightarrow> nat result \<times> 'w"   \<comment> \<open>a stream\<close>
  net_result :: "nat \<Rightarrow> result_request \<Rightarrow> 'w \<Rightarrow> unit result \<times> 'w"
  net_log :: "nat \<Rightarrow> log_request \<Rightarrow> 'w \<Rightarrow> unit result \<times> 'w"
  net_sync :: "nat \<Rightarrow> string \<Rightarrow> 'w \<Rightarrow> (bool \<times> string \<times> running_state list) result \<times> 'w"

section \<open>The client\<close>

text \<open>The index of the next address is an \<open>int64\<close>, which no run of the program brings to overflow.\<close>

record multi_client =
  mc_addrs :: "string list"
  mc_index :: nat
  mc_conn :: "nat option"
  mc_client :: "nat option"
  mc_stream :: "nat option"
  mc_name :: string
  mc_connected :: bool
  mc_last :: string         \<comment> \<open>node id of the scheduler of the last heartbeat\<close>
  mc_full :: bool           \<comment> \<open>\<open>needFullSync\<close>\<close>
  mc_signal :: bool         \<comment> \<open>\<open>reconnectCh\<close> holds its one signal\<close>
  mc_stopped :: bool

definition NewMultiClient :: "string list \<Rightarrow> multi_client option" where
  "NewMultiClient addrs =
     (if addrs = [] then None
      else Some \<lparr>mc_addrs = addrs, mc_index = 0, mc_conn = None, mc_client = None, mc_stream = None,
        mc_name = [], mc_connected = False, mc_last = [], mc_full = False, mc_signal = False,
        mc_stopped = False\<rparr>)"

definition getCurrentAddr :: "multi_client \<Rightarrow> string" where
  "getCurrentAddr c = mc_addrs c ! (mc_index c mod length (mc_addrs c))"

definition nextAddr :: "multi_client \<Rightarrow> multi_client" where
  "nextAddr c = c\<lparr>mc_index := mc_index c + 1\<rparr>"

definition probe :: "string \<Rightarrow> heartbeat_request" where
  "probe name = \<lparr>hb_name = name, hb_load = 0, hb_ids = [], hb_tasks = [], hb_reconnect = False\<rparr>"

definition use_conn :: "nat \<Rightarrow> multi_client \<Rightarrow> multi_client" where
  "use_conn k c = c\<lparr>mc_conn := Some k, mc_client := Some k, mc_connected := True\<rparr>"

text \<open>
  One pass over the addresses from the current one. The first connection to a scheduler that is not the
  leader is kept as a fallback; it is not closed when a leader turns up after it.
\<close>

fun connect_loop ::
  "'w net \<Rightarrow> nat \<Rightarrow> (nat \<times> string) option \<Rightarrow> multi_client \<Rightarrow> 'w \<Rightarrow> string \<times> multi_client \<times> 'w" where
  "connect_loop N 0 fb c w =
     (case fb of Some (k, addr) \<Rightarrow> (addr, use_conn k c, w) | None \<Rightarrow> ([], c\<lparr>mc_connected := False\<rparr>, w))"
| "connect_loop N (Suc i) fb c w =
     (let addr = getCurrentAddr c
      in case net_dial N addr w of
           (Inl e, w1) \<Rightarrow> connect_loop N i fb (nextAddr c) w1
         | (Inr k, w1) \<Rightarrow>
             (case net_heartbeat N k (probe []) w1 of
                (Inl e, w2) \<Rightarrow> connect_loop N i fb (nextAddr c) (net_close N k w2)
              | (Inr r, w2) \<Rightarrow>
                  (if hr_is_leader r then (addr, use_conn k c, w2)
                   else (case fb of
                           None \<Rightarrow> connect_loop N i (Some (k, addr)) (nextAddr c) w2
                         | Some _ \<Rightarrow> connect_loop N i fb (nextAddr c) (net_close N k w2)))))"

text \<open>It returns no error: an empty address stands for no scheduler at all.\<close>

definition connectToScheduler :: "'w net \<Rightarrow> multi_client \<Rightarrow> 'w \<Rightarrow> string \<times> multi_client \<times> 'w" where
  "connectToScheduler N c w = connect_loop N (length (mc_addrs c)) None c w"

definition ensureConnected :: "'w net \<Rightarrow> multi_client \<Rightarrow> 'w \<Rightarrow> unit result \<times> multi_client \<times> 'w" where
  "ensureConnected N c w =
     (case (if mc_connected c then mc_client c else None) of
        None \<Rightarrow> (Inr (), snd (connectToScheduler N c w))
      | Some k \<Rightarrow>
          (case net_heartbeat N k (probe (mc_name c)) w of
             (Inr r, w1) \<Rightarrow> (Inr (), c, w1)
           | (Inl e, w1) \<Rightarrow> (Inr (), snd (connectToScheduler N c w1))))"

definition client_reconnect :: "'w net \<Rightarrow> multi_client \<Rightarrow> 'w \<Rightarrow> multi_client \<times> 'w" where
  "client_reconnect N c w =
     (nextAddr (c\<lparr>mc_conn := None, mc_client := None, mc_stream := None, mc_connected := False\<rparr>),
      case mc_conn c of None \<Rightarrow> w | Some k \<Rightarrow> net_close N k w)"

text \<open>The loop of \<open>ReportResult\<close> and \<open>ReportLog\<close>; \<open>call\<close> is the remote method.\<close>

fun report_loop ::
  "'w net \<Rightarrow> (nat \<Rightarrow> 'w \<Rightarrow> unit result \<times> 'w) \<Rightarrow> nat \<Rightarrow> string \<Rightarrow> multi_client \<Rightarrow> 'w
     \<Rightarrow> string option \<times> multi_client \<times> 'w" where
  "report_loop N call 0 err c w = (Some err, c, w)"
| "report_loop N call (Suc i) err c w =
     (case ensureConnected N c w of
        (Inl e, c1, w1) \<Rightarrow> report_loop N call i e c1 w1
      | (Inr u, c1, w1) \<Rightarrow>
          (case mc_client c1 of
             None \<Rightarrow> report_loop N call i ''no client available'' c1 w1
           | Some k \<Rightarrow>
               (case call k w1 of
                  (Inr v, w2) \<Rightarrow> (None, c1, w2)
                | (Inl e, w2) \<Rightarrow> report_loop N call i e c1 w2)))"

definition reported ::
  "string \<Rightarrow> string option \<times> multi_client \<times> 'w \<Rightarrow> unit result \<times> multi_client \<times> 'w" where
  "reported what r =
     (case r of (None, c, w) \<Rightarrow> (Inr (), c, w)
              | (Some e, c, w) \<Rightarrow> (Inl (what @ '' failed after 3 retries: '' @ e), c, w))"

definition ReportResult ::
  "'w net \<Rightarrow> result_request \<Rightarrow> multi_client \<Rightarrow> 'w \<Rightarrow> unit result \<times> multi_client \<times> 'w" where
  "ReportResult N q c w = reported ''report result'' (report_loop N (\<lambda>k. net_result N k q) 3 [] c w)"

definition ReportLog ::
  "'w net \<Rightarrow> log_request \<Rightarrow> multi_client \<Rightarrow> 'w \<Rightarrow> unit result \<times> multi_client \<times> 'w" where
  "ReportLog N q c w = reported ''report log'' (report_loop N (\<lambda>k. net_log N k q) 3 [] c w)"

definition client_SyncRunningTasks ::
  "'w net \<Rightarrow> string \<Rightarrow> multi_client \<Rightarrow> 'w \<Rightarrow> running_state list result \<times> multi_client \<times> 'w" where
  "client_SyncRunningTasks N name c w =
     (case ensureConnected N c w of
        (Inl e, c1, w1) \<Rightarrow> (Inl e, c1, w1)
      | (Inr u, c1, w1) \<Rightarrow>
          (case mc_client c1 of
             None \<Rightarrow> (Inl ''no client available'', c1, w1)
           | Some k \<Rightarrow>
               (case net_sync N k name w1 of
                  (Inl e, w2) \<Rightarrow> (Inl e, c1, w2)
                | (Inr (ok, msg, rs), w2) \<Rightarrow>
                    (if ok then Inr rs else Inl (''sync failed: '' @ msg), c1, w2))))"

definition client_Close :: "'w net \<Rightarrow> multi_client \<Rightarrow> 'w \<Rightarrow> multi_client \<times> 'w" where
  "client_Close N c w =
     (c\<lparr>mc_stopped := True\<rparr>, case mc_conn c of None \<Rightarrow> w | Some k \<Rightarrow> net_close N k w)"

definition GetExecutorName :: "multi_client \<Rightarrow> string" where
  "GetExecutorName c = mc_name c"

section \<open>The subscription loop\<close>

text \<open>
  The product \<open>base * 2 ^ n\<close> is exact as a floating-point number. A number beyond 64 bits converts to
  a value that Go leaves to the machine, the argument \<open>beyond\<close>: \<open>-2 ^ 63\<close> on amd64.
\<close>

definition to_int64 :: "int \<Rightarrow> int \<Rightarrow> int" where
  "to_int64 beyond x = (if - (2 ^ 63) \<le> x \<and> x < 2 ^ 63 then x else beyond)"

definition backoffDelay :: "int \<Rightarrow> int \<Rightarrow> nat \<Rightarrow> duration \<Rightarrow> duration \<Rightarrow> duration \<Rightarrow> duration" where
  "backoffDelay beyond draw n base limit jitter =
     (let d = to_int64 beyond (base * 2 ^ n); e = (if d > limit then limit else d)
      in if jitter > 0 then wrap64 (e + draw) else e)"

definition base_delay :: duration where "base_delay = 3 * second"
definition max_delay :: duration where "max_delay = 60 * second"
definition max_jitter :: duration where "max_jitter = 500 * 1000000"

datatype round =
    Stopped
  | Retry nat duration        \<comment> \<open>the new count of retries and what is slept\<close>
  | Rejected string
  | Subscribed string nat     \<comment> \<open>the executor's name and its stream\<close>

definition later ::
  "'w net \<Rightarrow> int \<Rightarrow> int \<Rightarrow> nat \<Rightarrow> multi_client \<Rightarrow> 'w \<Rightarrow> round \<times> multi_client \<times> 'w" where
  "later N beyond draw n c w =
     (Retry (n + 1) (backoffDelay beyond draw n base_delay max_delay max_jitter), client_reconnect N c w)"

text \<open>One turn of the outer loop of \<open>Subscribe\<close>, up to the start of the inner one.\<close>

definition subscribe_round ::
  "'w net \<Rightarrow> int \<Rightarrow> int \<Rightarrow> register_request \<Rightarrow> nat \<Rightarrow> multi_client \<Rightarrow> 'w \<Rightarrow> round \<times> multi_client \<times> 'w" where
  "subscribe_round N beyond draw q n c w =
     (if mc_stopped c then (Stopped, c, w)
      else (case ensureConnected N c w of
        (Inl e, c1, w1) \<Rightarrow> later N beyond draw n c1 w1
      | (Inr u, c1, w1) \<Rightarrow>
          (case mc_client c1 of
             None \<Rightarrow> later N beyond draw n c1 w1
           | Some k \<Rightarrow>
               (case net_register N k q w1 of
                  (Inl e, w2) \<Rightarrow> later N beyond draw n c1 w2
                | (Inr r, w2) \<Rightarrow>
                    (if \<not> rr_success r
                     then (if rr_duplicate r
                           then (Rejected (''duplicate executor registration rejected: '' @ rr_message r), c1, w2)
                           else later N beyond draw n c1 w2)
                     else (let c2 = c1\<lparr>mc_name := rr_name r\<rparr>
                           in case net_subscribe N k (rr_name r) w2 of
                                (Inl e, w3) \<Rightarrow> later N beyond draw n c2 w3
                              | (Inr st, w3) \<Rightarrow>
                                  (Subscribed (rr_name r) st, c2\<lparr>mc_stream := Some st\<rparr>, w3)))))))"

section \<open>The heartbeat loop\<close>

record beat =
  bt_name :: string
  bt_capacity :: int
  bt_reconnect :: bool

definition start_beat :: "string \<Rightarrow> int \<Rightarrow> beat" where
  "start_beat name n = \<lparr>bt_name = name, bt_capacity = n, bt_reconnect = True\<rparr>"

fun cancel_all :: "string list \<Rightarrow> task_executor \<Rightarrow> task_executor" where
  "cancel_all [] te = te"
| "cancel_all (e # es) te = cancel_all es (snd (CancelTask e te))"

text \<open>What the loop makes of a reply from the scheduler it knows.\<close>

definition follow_reply :: "heartbeat_response \<Rightarrow> beat \<Rightarrow> task_executor \<Rightarrow> beat \<times> task_executor" where
  "follow_reply r b te =
     (let (b1, te1) =
        (if hr_target r > 0 \<and> hr_target r \<noteq> bt_capacity b
         then (case te_UpdateCapacity (hr_target r) te of
                 (Inl e, te') \<Rightarrow> (b, te')
               | (Inr u, te') \<Rightarrow> (b\<lparr>bt_capacity := hr_target r\<rparr>, te'))
         else (b, te))
      in (b1, cancel_all (hr_cancels r) te1))"

text \<open>One tick; \<open>None\<close> for the loop: it returns.\<close>

definition heartbeat_turn ::
  "'w net \<Rightarrow> beat \<Rightarrow> multi_client \<Rightarrow> task_executor \<Rightarrow> 'w
     \<Rightarrow> beat option \<times> multi_client \<times> task_executor \<times> 'w" where
  "heartbeat_turn N b c te w =
     (case (if mc_connected c then mc_client c else None) of
        None \<Rightarrow> (None, c, te, w)
      | Some k \<Rightarrow>
          (case net_heartbeat N k
                  \<lparr>hb_name = bt_name b, hb_load = GetRunningTasks te, hb_ids = GetRunningExecutionIds te,
                   hb_tasks = (if mc_full c \<or> bt_reconnect b then GetRunningTaskStates te else []),
                   hb_reconnect = bt_reconnect b\<rparr> w of
             (Inl e, w1) \<Rightarrow> (None, c, te, w1)
           | (Inr r, w1) \<Rightarrow>
               (if hr_node r \<noteq> [] \<and> mc_last c \<noteq> hr_node r
                then (None, c\<lparr>mc_last := hr_node r, mc_signal := True\<rparr>, te, w1)
                else (let b1 = (if hr_node r \<noteq> [] then b\<lparr>bt_reconnect := False\<rparr> else b);
                          (b2, te2) = follow_reply r b1 te
                      in (Some b2, c\<lparr>mc_full := hr_full_sync r\<rparr>, te2, w1)))))"


section \<open>From the stream to the runner\<close>

text \<open>
  The goroutines of \<open>Subscribe\<close>. Each turn of the outer loop makes a channel for ten tasks and a receiver
  that moves tasks from \<open>c.stream\<close>, read anew each time, to the channel it was started with; the
  inner loop takes them from there and starts the runner. A step is what one goroutine does to the shared
  variables. \<open>sb_received\<close> is a ghost.
\<close>

datatype receiver =
    AtLoad                  \<comment> \<open>about to read \<open>c.stream\<close>\<close>
  | Receiving nat           \<comment> \<open>in \<open>Recv\<close> on this stream\<close>
  | Holding grpc_task       \<comment> \<open>about to send the task to the channel\<close>
  | Finished

record subscriber =
  sb_stream :: "nat option"
  sb_open :: "nat set"                      \<comment> \<open>streams that still deliver\<close>
  sb_chans :: "grpc_task list list"
  sb_recvs :: "(receiver \<times> nat) list"        \<comment> \<open>with the channel of each\<close>
  sb_current :: "nat option"                \<comment> \<open>the channel of the inner loop that runs\<close>
  sb_started :: "grpc_task list"
  sb_received :: "grpc_task list"

definition new_subscriber :: subscriber where
  "new_subscriber =
     \<lparr>sb_stream = None, sb_open = {}, sb_chans = [], sb_recvs = [], sb_current = None,
      sb_started = [], sb_received = []\<rparr>"

definition set_receiver :: "nat \<Rightarrow> receiver \<Rightarrow> subscriber \<Rightarrow> subscriber" where
  "set_receiver i p b = b\<lparr>sb_recvs := (sb_recvs b)[i := (p, snd (sb_recvs b ! i))]\<rparr>"

definition receiver_at :: "subscriber \<Rightarrow> nat \<Rightarrow> receiver \<Rightarrow> nat \<Rightarrow> bool" where
  "receiver_at b i p k \<longleftrightarrow> i < length (sb_recvs b) \<and> sb_recvs b ! i = (p, k)"

inductive sub_step :: "subscriber \<Rightarrow> subscriber \<Rightarrow> bool" where
  sub_enter: "sb_current b = None \<Longrightarrow>
    sub_step b (b\<lparr>sb_stream := Some st, sb_open := insert st (sb_open b), sb_chans := sb_chans b @ [[]],
      sb_recvs := sb_recvs b @ [(AtLoad, length (sb_chans b))], sb_current := Some (length (sb_chans b))\<rparr>)"
| sub_load: "receiver_at b i AtLoad k \<Longrightarrow>
    sub_step b (set_receiver i (case sb_stream b of None \<Rightarrow> Finished | Some st \<Rightarrow> Receiving st) b)"
| sub_recv: "receiver_at b i (Receiving st) k \<Longrightarrow> st \<in> sb_open b \<Longrightarrow>
    sub_step b (set_receiver i (Holding g) (b\<lparr>sb_received := sb_received b @ [g]\<rparr>))"
| sub_recv_error: "receiver_at b i (Receiving st) k \<Longrightarrow>
    sub_step b (set_receiver i Finished (b\<lparr>sb_open := sb_open b - {st}\<rparr>))"
| sub_put: "receiver_at b i (Holding g) k \<Longrightarrow> length (sb_chans b ! k) < 10 \<Longrightarrow>
    sub_step b (set_receiver i AtLoad (b\<lparr>sb_chans := (sb_chans b)[k := sb_chans b ! k @ [g]]\<rparr>))"
| sub_begin: "sb_current b = Some k \<Longrightarrow> sb_chans b ! k = g # q \<Longrightarrow>
    sub_step b (b\<lparr>sb_chans := (sb_chans b)[k := q], sb_started := sb_started b @ [g]\<rparr>)"
| sub_leave: "sb_current b = Some k \<Longrightarrow>
    sub_step b (b\<lparr>sb_current := None, sb_stream := None,
      sb_open := (case sb_stream b of None \<Rightarrow> sb_open b | Some st \<Rightarrow> sb_open b - {st})\<rparr>)"

fun in_hand :: "receiver \<Rightarrow> grpc_task list" where
  "in_hand (Holding g) = [g]"
| "in_hand _ = []"

definition in_hands :: "subscriber \<Rightarrow> grpc_task multiset" where
  "in_hands b = mset (concat (map (in_hand \<circ> fst) (sb_recvs b)))"

definition in_chans :: "subscriber \<Rightarrow> grpc_task multiset" where
  "in_chans b = mset (concat (sb_chans b))"

text \<open>Every task received is started, in a channel or in a receiver's hand, and in one of these once.\<close>

definition sub_inv :: "subscriber \<Rightarrow> bool" where
  "sub_inv b \<longleftrightarrow> mset (sb_received b) = mset (sb_started b) + in_chans b + in_hands b \<and>
     list_all (\<lambda>(p, k). k < length (sb_chans b)) (sb_recvs b) \<and>
     list_all (\<lambda>q. length q \<le> 10) (sb_chans b) \<and>
     (\<forall>k. sb_current b = Some k \<longrightarrow> k < length (sb_chans b))"

lemma mset_concat_update:
  "k < length xs \<Longrightarrow> mset (concat (xs[k := ys])) + mset (xs ! k) = mset (concat xs) + mset ys"
proof (induction xs arbitrary: k)
  case (Cons x xs)
  then show ?case by (cases k) (auto simp: add_ac)
qed simp

lemma in_chans_update:
  "k < length (sb_chans b) \<Longrightarrow>
   in_chans (b\<lparr>sb_chans := (sb_chans b)[k := q]\<rparr>) + mset (sb_chans b ! k) = in_chans b + mset q"
  by (simp add: in_chans_def mset_concat_update)

lemma in_hands_update:
  assumes "receiver_at b i p k"
  shows "in_hands (set_receiver i p' b) + mset (in_hand p) = in_hands b + mset (in_hand p')"
  using assms mset_concat_update [of i "map (in_hand \<circ> fst) (sb_recvs b)" "in_hand p'"]
  by (simp add: in_hands_def set_receiver_def receiver_at_def map_update)

lemma set_receiver_fields [simp]:
  "sb_chans (set_receiver i p b) = sb_chans b" "sb_started (set_receiver i p b) = sb_started b"
  "sb_received (set_receiver i p b) = sb_received b" "sb_current (set_receiver i p b) = sb_current b"
  "sb_stream (set_receiver i p b) = sb_stream b" "sb_open (set_receiver i p b) = sb_open b"
  by (simp_all add: set_receiver_def)

lemma receivers_ok:
  "receiver_at b i p k \<Longrightarrow> list_all (\<lambda>(p, k). k < n) (sb_recvs b) \<Longrightarrow>
   k < n \<and> list_all (\<lambda>(p, k). k < n) (sb_recvs (set_receiver i p' b))"
  by (auto simp: receiver_at_def set_receiver_def list_all_length nth_list_update split: prod.splits)

lemma receiver_at_cong: "sb_recvs b' = sb_recvs b \<Longrightarrow> receiver_at b' i p k = receiver_at b i p k"
  by (simp add: receiver_at_def)

lemma chans_ok:
  "list_all (\<lambda>q. length q \<le> 10) qs \<Longrightarrow> length q \<le> 10 \<Longrightarrow> list_all (\<lambda>q. length q \<le> (10 :: nat)) (qs[k := q])"
  by (auto simp: list_all_iff dest!: set_update_subset_insert [THEN subsetD])

lemma sub_inv_step: "sub_step b b' \<Longrightarrow> sub_inv b \<Longrightarrow> sub_inv b'"
proof (induction rule: sub_step.induct)
  case (sub_enter b st)
  then show ?case
    by (auto simp: sub_inv_def in_chans_def in_hands_def list_all_iff less_Suc_eq)
next
  case (sub_load b i k)
  let ?p = "case sb_stream b of None \<Rightarrow> Finished | Some st \<Rightarrow> Receiving st"
  have "in_hand ?p = []" by (simp split: option.splits)
  then show ?case
    using sub_load.prems in_hands_update [OF sub_load.hyps, of ?p] receivers_ok [OF sub_load.hyps]
    by (simp add: sub_inv_def in_chans_def)
next
  case (sub_recv b i st k g)
  let ?b = "b\<lparr>sb_received := sb_received b @ [g]\<rparr>"
  have r: "receiver_at ?b i (Receiving st) k" using sub_recv.hyps(1) by (simp add: receiver_at_def)
  show ?case
    using sub_recv.prems in_hands_update [OF r, of "Holding g"] receivers_ok [OF r]
    by (simp add: sub_inv_def in_chans_def) (simp add: in_hands_def)
next
  case (sub_recv_error b i st k)
  let ?b = "b\<lparr>sb_open := sb_open b - {st}\<rparr>"
  have r: "receiver_at ?b i (Receiving st) k" using sub_recv_error.hyps by (simp add: receiver_at_def)
  show ?case
    using sub_recv_error.prems in_hands_update [OF r, of Finished] receivers_ok [OF r]
    by (simp add: sub_inv_def in_chans_def) (simp add: in_hands_def)
next
  case (sub_put b i g k)
  let ?b = "b\<lparr>sb_chans := (sb_chans b)[k := sb_chans b ! k @ [g]]\<rparr>"
  have r: "receiver_at ?b i (Holding g) k" using sub_put.hyps(1) by (simp add: receiver_at_def)
  have k: "k < length (sb_chans b)"
    using receivers_ok [OF sub_put.hyps(1)] sub_put.prems by (simp add: sub_inv_def)
  have "in_chans ?b = in_chans b + {#g#}" using in_chans_update [OF k, of "sb_chans b ! k @ [g]"] by simp
  moreover have "in_hands (set_receiver i AtLoad ?b) + {#g#} = in_hands b"
    using in_hands_update [OF r, of AtLoad] by (simp add: in_hands_def)
  moreover have "list_all (\<lambda>q. length q \<le> 10) (sb_chans ?b)"
    using chans_ok [of "sb_chans b"] sub_put.prems sub_put.hyps(2) by (simp add: sub_inv_def)
  ultimately show ?case
    using sub_put.prems receivers_ok [OF r] by (auto simp: sub_inv_def in_chans_def)
next
  case (sub_begin b k g q)
  have k: "k < length (sb_chans b)" using sub_begin by (simp add: sub_inv_def)
  have "in_chans (b\<lparr>sb_chans := (sb_chans b)[k := q]\<rparr>) + {#g#} = in_chans b"
    using in_chans_update [OF k, of q] sub_begin.hyps(2) by simp
  moreover have "length q \<le> 10"
    using k sub_begin by (fastforce simp: sub_inv_def list_all_length)
  ultimately show ?case
    using sub_begin.prems chans_ok [of "sb_chans b" q] by (auto simp: sub_inv_def in_chans_def in_hands_def)
next
  case (sub_leave b k)
  then show ?case by (auto simp: sub_inv_def in_chans_def in_hands_def)
qed

text \<open>A task in a channel that the inner loop has left stays there.\<close>

definition abandoned :: "nat \<Rightarrow> subscriber \<Rightarrow> bool" where
  "abandoned k b \<longleftrightarrow> k < length (sb_chans b) \<and> sb_current b \<noteq> Some k"

lemma abandoned_step:
  "sub_step b b' \<Longrightarrow> sub_inv b \<Longrightarrow> abandoned k b \<Longrightarrow>
   abandoned k b' \<and> (\<exists>q. sb_chans b' ! k = sb_chans b ! k @ q)"
proof (induction rule: sub_step.induct)
  case (sub_put b i g j)
  then show ?case by (cases "j = k") (simp_all add: abandoned_def)
next
  case (sub_begin b j g q)
  then show ?case by (cases "j = k") (simp_all add: abandoned_def)
qed (auto simp: abandoned_def nth_append)

interpretation subscription: transition_invariant "\<lambda>b. b = new_subscriber" sub_step sub_inv
  by unfold_locales (simp add: new_subscriber_def sub_inv_def in_chans_def in_hands_def, rule sub_inv_step)


lemma reach_trans: "reach (\<lambda>x. x = b) step c \<Longrightarrow> reach init step b \<Longrightarrow> reach init step c"
  by (induction rule: reach.induct) (auto intro: reach_step)

lemma abandoned_reach:
  assumes "reach (\<lambda>b. b = new_subscriber) sub_step b" "abandoned k b" "reach (\<lambda>x. x = b) sub_step c"
  shows "sub_inv c \<and> abandoned k c \<and> (\<exists>q. sb_chans c ! k = sb_chans b ! k @ q)"
  using assms(3)
proof (induction rule: reach.induct)
  case (reach_init c)
  then show ?case using assms(1,2) subscription.reach_inv by auto
next
  case (reach_step c d)
  then show ?case using abandoned_step [of c d k] sub_inv_step [of c d] by auto
qed

lemma in_chans_member: "k < length (sb_chans b) \<Longrightarrow> mset (sb_chans b ! k) \<subseteq># in_chans b"
  using in_chans_update [of k b "[]"] by (metis add.right_neutral mset.simps(1) mset_subset_eq_add_right)

text \<open>C23: A reconnection loses tasks: those that the executor had received and not yet started when the inner loop
  ended, because of a stream error or a change of the scheduler, are not among the started ones at
  any later time, however the loops and receivers go on. Their executions stay
  running at the scheduler until its clean-up fails them.\<close>

theorem queued_tasks_are_lost_at_a_reconnect:
  assumes "reach (\<lambda>b. b = new_subscriber) sub_step b" "sb_current b = Some k"
    and "sub_step b b1" "sb_current b1 = None" "reach (\<lambda>x. x = b1) sub_step b2"
  shows "mset (sb_started b2) + mset (sb_chans b ! k) \<subseteq># mset (sb_received b2)"
proof -
  have inv: "sub_inv b" using subscription.reach_inv [OF assms(1)] .
  have b1: "sb_chans b1 = sb_chans b" using assms(3,2,4) by (cases rule: sub_step.cases) auto
  then have "abandoned k b1" using inv assms(2,4) by (simp add: abandoned_def sub_inv_def)
  then obtain q where c: "sub_inv b2" "abandoned k b2" "sb_chans b2 ! k = sb_chans b ! k @ q"
    using abandoned_reach [OF reach_step [OF assms(1,3)] _ assms(5)] b1 by auto
  have "mset (sb_chans b ! k) \<subseteq># mset (sb_chans b2 ! k)" using c(3) by simp
  also have "\<dots> \<subseteq># in_chans b2" using in_chans_member [of k b2] c(2) by (simp add: abandoned_def)
  finally have "mset (sb_chans b ! k) \<subseteq># in_chans b2" .
  moreover have "mset (sb_received b2) = mset (sb_started b2) + in_chans b2 + in_hands b2"
    using c(1) by (simp add: sub_inv_def)
  ultimately show ?thesis by (simp add: add.assoc subset_mset.add_increasing2)
qed

section \<open>Cancellations on their way to the executor\<close>

text \<open>
  What the client meets at the other end: the cancellations that wait for a name go with the next
  heartbeat under it, and reports neither bring nor take any.
\<close>

locale cancel_source =
  fixes N :: "'w net" and waiting :: "'w \<Rightarrow> string \<Rightarrow> string list"
  assumes heartbeat_takes: "net_heartbeat N k q w = (Inr r, w') \<Longrightarrow> hb_name q \<noteq> [] \<Longrightarrow>
      hr_cancels r = waiting w (hb_name q) \<and> waiting w' (hb_name q) = []"
    and log_keeps: "net_log N k g w = (x, w') \<Longrightarrow> waiting w' = waiting w"
    and result_keeps: "net_result N k f w = (x, w') \<Longrightarrow> waiting w' = waiting w"
begin

text \<open>The check before a report takes them all, and the client has no use for the reply.\<close>

lemma check_takes_all:
  assumes "mc_connected c" "mc_client c = Some k" "mc_name c \<noteq> []"
    and "net_heartbeat N k (probe (mc_name c)) w = (Inr r, w1)"
  shows "ensureConnected N c w = (Inr (), c, w1) \<and> waiting w1 (mc_name c) = []"
  using assms heartbeat_takes [OF assms(4)] by (simp add: ensureConnected_def probe_def)

lemma log_takes_all:
  assumes "mc_connected c" "mc_client c = Some k" "mc_name c \<noteq> []"
    and "net_heartbeat N k (probe (mc_name c)) w = (Inr r, w1)" "net_log N k g w1 = (Inr (), w2)"
  shows "ReportLog N g c w = (Inr (), c, w2) \<and> waiting w2 (mc_name c) = []"
  using check_takes_all [OF assms(1-4)] log_keeps [OF assms(5)] assms(2,5)
  by (simp add: ReportLog_def reported_def eval_nat_numeral)

text \<open>A tick with no cancellation waiting cancels no context.\<close>

lemma follow_reply_cancelled:
  "hr_cancels r = [] \<Longrightarrow> te_cancelled (snd (follow_reply r b te)) = te_cancelled te"
  by (simp add: follow_reply_def te_UpdateCapacity_def Let_def split: prod.splits sum.splits)

lemma turn_cancels_nothing:
  assumes "waiting w (bt_name b) = []" "bt_name b \<noteq> []"
  shows "te_cancelled (fst (snd (snd (heartbeat_turn N b c te w)))) = te_cancelled te"
proof -
  define q where "q = \<lparr>hb_name = bt_name b, hb_load = GetRunningTasks te, hb_ids = GetRunningExecutionIds te,
      hb_tasks = (if mc_full c \<or> bt_reconnect b then GetRunningTaskStates te else []),
      hb_reconnect = bt_reconnect b\<rparr>"
  show ?thesis
  proof (cases "if mc_connected c then mc_client c else None")
    case None
    then show ?thesis by (simp add: heartbeat_turn_def)
  next
    case (Some k)
    obtain x w1 where x: "net_heartbeat N k q w = (x, w1)" by fastforce
    show ?thesis
    proof (cases x)
      case (Inl e)
      then show ?thesis using Some x by (simp add: heartbeat_turn_def q_def)
    next
      case (Inr r)
      then have "hr_cancels r = []" using heartbeat_takes [of k q w r w1] x assms by (simp add: q_def)
      then have "te_cancelled (snd (follow_reply r b1 te)) = te_cancelled te" for b1
        by (rule follow_reply_cancelled)
      then show ?thesis
        using Some x Inr unfolding heartbeat_turn_def q_def [symmetric]
        by (simp add: Let_def split: prod.splits) (metis snd_conv)
    qed
  qed
qed

end


section \<open>A client that talks to one scheduler node\<close>

text \<open>The network of one node without losses; \<open>st\<close> is the number of the next stream.\<close>

definition direct :: "transport \<Rightarrow> 'r env \<Rightarrow> nat \<Rightarrow> 'r snode net" where
  "direct tr V st =
     \<lparr>net_dial = (\<lambda>addr n. (Inr 0, n)),
      net_close = (\<lambda>k n. n),
      net_heartbeat = (\<lambda>k q n. let (r, n') = Heartbeat tr V q n in (Inr r, n')),
      net_register = (\<lambda>k q n. let (r, n') = Register tr V q n in (Inr r, n')),
      net_subscribe = (\<lambda>k name n. (Inr st, in_server (subscribe_open name st) n)),
      net_result = (\<lambda>k q n. (Inr (), ReportTaskResult tr V q n)),
      net_log = (\<lambda>k q n. (Inr (), ReportTaskLog tr V q n)),
      net_sync = (\<lambda>k name n. (Inr (True, ''please send running tasks in next heartbeat'', []),
        in_server (SyncRunningTasks name) n))\<rparr>"

lemma direct_simps [simp]:
  "net_heartbeat (direct tr V st) k q n = (Inr (fst (Heartbeat tr V q n)), snd (Heartbeat tr V q n))"
  "net_log (direct tr V st) k g n = (Inr (), ReportTaskLog tr V g n)"
  "net_result (direct tr V st) k f n = (Inr (), ReportTaskResult tr V f n)"
  by (simp_all add: direct_def split: prod.splits)

lemma result_cancels [simp]:
  "s_cancels (snd (UpdateExecutionResult V e x o' er g s)) = s_cancels s"
  "s_cancels (snd (UpdateTaskStatusByID V i x s)) = s_cancels s"
  "s_cancels (SendWebhookNotification V i e x o' er d s) = s_cancels s"
  by (simp_all add: UpdateExecutionResult_def UpdateTaskStatusByID_def SendWebhookNotification_def Let_def
      split: option.splits prod.splits sum.splits)

lemma log_server [simp]: "sn_server (ReportTaskLog tr V g n) = sn_server n"
  by (simp add: ReportTaskLog_def in_service_server)

lemma result_server [simp]: "sn_server (ReportTaskResult tr V f n) = sn_server n"
  by (simp add: ReportTaskResult_def Let_def in_service_server)

interpretation node: cancel_source "direct tr V st" "\<lambda>n. srv_cancels (sn_server n)" for tr V st
  by unfold_locales (auto simp: Heartbeat_server)

text \<open>Cancelling through the table of running tasks.\<close>

lemma CancelTask_running [simp]: "te_running (snd (CancelTask e te)) = te_running te"
  by (simp add: CancelTask_def cancel_context_def split: option.splits)

lemma CancelTask_mono: "te_cancelled te \<subseteq> te_cancelled (snd (CancelTask e te))"
  by (auto simp: CancelTask_def cancel_context_def split: option.splits)

lemma cancel_all_mono: "te_cancelled te \<subseteq> te_cancelled (cancel_all es te)"
proof (induction es arbitrary: te)
  case (Cons e es)
  show ?case using CancelTask_mono [of te e] Cons [of "snd (CancelTask e te)"] by simp
qed simp

lemma cancel_all_context:
  "e \<in> set es \<Longrightarrow> map_of (te_running te) e = Some i \<Longrightarrow> ri_context i \<in> te_cancelled (cancel_all es te)"
proof (induction es arbitrary: te)
  case (Cons a es)
  show ?case
  proof (cases "a = e")
    case True
    then have "ri_context i \<in> te_cancelled (snd (CancelTask a te))"
      using Cons.prems by (simp add: CancelTask_def cancel_context_def)
    then show ?thesis using cancel_all_mono [of "snd (CancelTask a te)" es] by auto
  next
    case False
    then show ?thesis using Cons by simp
  qed
qed simp

lemma turn_cancels:
  assumes "mc_connected c" "mc_client c = Some k" "bt_name b \<noteq> []" "mc_last c = srv_node (sn_server n)"
    and "e \<in> set (srv_cancels (sn_server n) (bt_name b))" "map_of (te_running te) e = Some i"
  shows "ri_context i \<in> te_cancelled (fst (snd (snd (heartbeat_turn (direct tr V st) b c te n))))"
proof -
  define q where "q = \<lparr>hb_name = bt_name b, hb_load = GetRunningTasks te, hb_ids = GetRunningExecutionIds te,
      hb_tasks = (if mc_full c \<or> bt_reconnect b then GetRunningTaskStates te else []),
      hb_reconnect = bt_reconnect b\<rparr>"
  let ?r = "fst (Heartbeat tr V q n)"
  have q: "hb_name q = bt_name b" by (simp add: q_def)
  have r: "hr_cancels ?r = srv_cancels (sn_server n) (bt_name b)"
    using Heartbeat_server(1) [of q tr V n] q assms(3) by simp
  have nd: "hr_node ?r = srv_node (sn_server n)"
    using Heartbeat_server(4) [of q tr V n] q assms(3) by simp
  have "te_running te' = te_running te" if "te_UpdateCapacity m te = (x, te')" for m x te'
    using that by (auto simp: te_UpdateCapacity_def split: prod.splits)
  then have "ri_context i \<in> te_cancelled (snd (follow_reply ?r b1 te))" for b1
    using cancel_all_context [OF assms(5)] assms(6) r
    by (simp add: follow_reply_def Let_def split: prod.splits sum.splits)
  then show ?thesis
    using assms(1,2,4) nd unfolding heartbeat_turn_def q_def [symmetric]
    by (simp add: Let_def split: prod.splits) (metis snd_conv)
qed

text \<open>C21: A cancellation reaches a running execution with the next heartbeat of the executor, but only if no report comes
  first: each log line or result is preceded by a check of the connection, which is a heartbeat too,
  takes the waiting cancellations from the scheduler and drops them. No later heartbeat
  cancels the execution, and the scheduler believes it delivered.\<close>

theorem log_line_swallows_a_cancellation:
  fixes n :: "'r snode" and tr :: transport and V W :: "'r env" and g :: log_request and st :: nat
  assumes "mc_connected c" "mc_client c = Some k" "mc_name c = bt_name b" "bt_name b \<noteq> []"
    and "mc_last c = srv_node (sn_server n)"
    and "e \<in> set (srv_cancels (sn_server n) (bt_name b))" "map_of (te_running te) e = Some i"
  defines "n1 \<equiv> snd (snd (ReportLog (direct tr V st) g c n))"
  shows "ri_context i \<in> te_cancelled (fst (snd (snd (heartbeat_turn (direct tr W st) b c te n)))) \<and>
    fst (ReportLog (direct tr V st) g c n) = Inr () \<and>
    te_cancelled (fst (snd (snd (heartbeat_turn (direct tr W st) b c te n1)))) = te_cancelled te"
proof -
  have "ReportLog (direct tr V st) g c n =
      (Inr (), c, ReportTaskLog tr V g (snd (Heartbeat tr V (probe (mc_name c)) n))) \<and>
    srv_cancels (sn_server (ReportTaskLog tr V g (snd (Heartbeat tr V (probe (mc_name c)) n)))) (mc_name c) = []"
    using assms(1-4) by (intro node.log_takes_all) simp_all
  then have n1: "fst (ReportLog (direct tr V st) g c n) = Inr ()" "srv_cancels (sn_server n1) (bt_name b) = []"
    using assms(3) by (simp_all add: n1_def)
  show ?thesis
    using turn_cancels [OF assms(1,2,4,5,6,7)] n1 node.turn_cancels_nothing [OF n1(2) assms(4)] by simp
qed


text \<open>Every line that a task logs resets the load of its executor at the scheduler: the check of the connection is a
  heartbeat with load 0. An executor that has just reported that it is full is eligible again,
  for the whole interval up to its next proper heartbeat, and is sent more
  than its capacity.\<close>

theorem full_executor_is_eligible_after_a_log_line:
  fixes n :: "'r snode" and tr :: transport and V :: "'r env" and g :: log_request and st :: nat
  assumes "\<forall>st. env_db V st = None" "mc_connected c" "mc_client c = Some k" "mc_name c \<noteq> []"
    and "x \<in> set (s_executors (sn_sched n))" "e_name x = mc_name c" "e_status x = ''online''"
    and "e_global x" "0 < e_capacity x" "e_load x = e_capacity x"
  defines "n1 \<equiv> snd (snd (ReportLog (direct tr V st) g c n))"
  shows "\<not> eligible V d (sn_sched n) x \<and>
    eligible V d (sn_sched n1)
      (x\<lparr>e_load := 0, e_heartbeat := Some (env_now V), e_updated := env_now V\<rparr>)"
proof -
  let ?n = "snd (Heartbeat tr V (probe (mc_name c)) n)" and ?V = "wired tr V (sn_server n)"
  let ?f = "\<lambda>e. e\<lparr>e_load := 0, e_heartbeat := Some (env_now V), e_updated := env_now V\<rparr>"
  have "ReportLog (direct tr V st) g c n = (Inr (), c, ReportTaskLog tr V g ?n) \<and>
    srv_cancels (sn_server (ReportTaskLog tr V g ?n)) (mc_name c) = []"
    using assms(2-4) by (intro node.log_takes_all) simp_all
  then have "s_executors (sn_sched n1) = s_executors (sn_sched ?n)"
    by (simp add: n1_def ReportTaskLog_def)
  moreover have "s_executors (sn_sched ?n) = upd_where (\<lambda>e. e_name e = mc_name c \<and> e_status e = ''online'')
      ?f (s_executors (sn_sched n))"
    using Heartbeat_server(3) [of "probe (mc_name c)" tr V n] assms(1,4)
    by (simp add: probe_def take_heartbeat_def Let_def UpdateExecutorHeartbeatWithRunningTasks_def update_executors_def)
  ultimately have "?f x \<in> set (s_executors (sn_sched n1))" using assms(5-7) by (auto simp: set_upd_where)
  then show ?thesis
    using assms(7-10) by (simp add: eligible_def selectable_def heartbeat_after_def)
qed

section \<open>Back-off\<close>

text \<open>The waits between attempts to connect grow from 3 seconds to at most 60.5, but only for the first 32 attempts: from then on
  the product no longer fits into 64 bits, its conversion on amd64 is the least integer, which is below the
  limit, and the client does not wait at all. This is reached within half an hour without a scheduler.\<close>

theorem backoff_is_bounded_until_it_overflows:
  assumes "0 \<le> draw" "draw < max_jitter"
  shows "(n \<le> 31 \<longrightarrow> base_delay \<le> backoffDelay beyond draw n base_delay max_delay max_jitter \<and>
      backoffDelay beyond draw n base_delay max_delay max_jitter < max_delay + max_jitter) \<and>
    (32 \<le> n \<longrightarrow> backoffDelay (- (2 ^ 63)) draw n base_delay max_delay max_jitter < 0)"
proof -
  have p: "(2::int) ^ m \<le> 2 ^ n" if "m \<le> n" for m n :: nat using that by (simp add: power_increasing)
  define x where "x = base_delay * 2 ^ n"
  have x: "base_delay \<le> x" "n \<le> 31 \<Longrightarrow> x < 2 ^ 63" "32 \<le> n \<Longrightarrow> 2 ^ 63 \<le> x"
    using p [of n 31] p [of 32 n] by (simp_all add: x_def base_delay_def)
  let ?e = "if x > max_delay then max_delay else x"
  have "backoffDelay beyond draw n base_delay max_delay max_jitter = ?e + draw" if "n \<le> 31"
    using x(1,2) that assms unfolding backoffDelay_def x_def [symmetric]
    by (simp add: to_int64_def Let_def max_delay_def max_jitter_def base_delay_def)
  moreover have "backoffDelay (- (2 ^ 63)) draw n base_delay max_delay max_jitter = - (2 ^ 63) + draw" if "32 \<le> n"
    using x(3) that assms unfolding backoffDelay_def x_def [symmetric]
    by (simp add: to_int64_def Let_def max_delay_def max_jitter_def)
  moreover have "base_delay \<le> ?e + draw \<and> ?e + draw < max_delay + max_jitter"
    using x(1) assms by (simp add: max_delay_def base_delay_def)
  ultimately show ?thesis using assms by (simp add: max_jitter_def)
qed

section \<open>The properties at concrete runs\<close>

definition demo_client :: multi_client where
  "demo_client =
     \<lparr>mc_addrs = [''s1:50051''], mc_index = 0, mc_conn = Some 0, mc_client = Some 0, mc_stream = Some 1,
      mc_name = ''w1'', mc_connected = True, mc_last = [], mc_full = False, mc_signal = False, mc_stopped = False\<rparr>"

definition demo_line :: log_request where
  "demo_line = \<lparr>lq_eid = ''exec-5-1'', lq_task = 5, lq_level = ''stdout'', lq_content = ''tick''\<rparr>"

definition demo_runner :: task_executor where
  "demo_runner = addRunningTask 0 (grpc_of pinned_task ''exec-5-1'') 0 (NewTaskExecutor (NewPool 4))"

definition cancel_node :: "keys snode" where
  "cancel_node = in_server (AddCancelExecutionId ''w1'' ''exec-5-1'') demo_node"

theorem log_line_swallows_a_cancellation_witness:
  "te_cancelled (fst (snd (snd (heartbeat_turn (direct (\<lambda>st g. None) later_env 2) (start_beat ''w1'' 4) demo_client
       demo_runner (snd (snd (ReportLog (direct (\<lambda>st g. None) demo_env 2) demo_line demo_client cancel_node))))))) = {}"
proof -
  have "map_of (te_running demo_runner) ''exec-5-1'' =
      Some \<lparr>ri_task = grpc_of pinned_task ''exec-5-1'', ri_start = 0, ri_progress = 0, ri_message = ''Task started'', ri_context = 0\<rparr>"
    by (simp add: demo_runner_def addRunningTask_def NewTaskExecutor_def grpc_of_def)
  moreover have "te_cancelled demo_runner = {}"
    by (simp add: demo_runner_def addRunningTask_def NewTaskExecutor_def)
  ultimately show ?thesis
    using log_line_swallows_a_cancellation [of demo_client 0 "start_beat ''w1'' 4" cancel_node "''exec-5-1''" demo_runner
        _ "\<lambda>st g. None" later_env 2 demo_env demo_line]
    by (simp add: demo_client_def start_beat_def cancel_node_def in_server_def demo_node_def NewServer_def
        AddCancelExecutionId_def)
qed

theorem full_executor_is_eligible_after_a_log_line_witness:
  "eligible demo_env 1 (sn_sched (snd (snd (ReportLog (direct (\<lambda>st g. None) demo_env 2) demo_line demo_client
       (demo_node\<lparr>sn_sched := demo_sched\<lparr>s_executors := [demo_executor\<lparr>e_load := 4\<rparr>]\<rparr>\<rparr>)))))
     (demo_executor\<lparr>e_load := 0, e_heartbeat := Some (100 * second), e_updated := 100 * second\<rparr>)"
  using full_executor_is_eligible_after_a_log_line [of demo_env demo_client 0 "demo_executor\<lparr>e_load := 4\<rparr>"
      "demo_node\<lparr>sn_sched := demo_sched\<lparr>s_executors := [demo_executor\<lparr>e_load := 4\<rparr>]\<rparr>\<rparr>" 1 "\<lambda>st g. None" 2 demo_line]
  by (simp add: demo_client_def demo_executor_def)

theorem backoff_is_bounded_until_it_overflows_witness:
  "backoffDelay (- (2 ^ 63)) 7 40 base_delay max_delay max_jitter < 0"
  using backoff_is_bounded_until_it_overflows [of 7 40] by (simp add: max_jitter_def)

definition sub_run :: "grpc_task \<Rightarrow> subscriber list" where
  "sub_run g =
     (let b1 = new_subscriber\<lparr>sb_stream := Some 1, sb_open := {1}, sb_chans := [[]], sb_recvs := [(AtLoad, 0)],
                 sb_current := Some 0\<rparr>;
          b2 = b1\<lparr>sb_recvs := [(Receiving 1, 0)]\<rparr>;
          b3 = b2\<lparr>sb_recvs := [(Holding g, 0)], sb_received := [g]\<rparr>;
          b4 = b3\<lparr>sb_recvs := [(AtLoad, 0)], sb_chans := [[g]]\<rparr>
      in [b1, b2, b3, b4])"

lemma sub_run_reached: "reach (\<lambda>b. b = new_subscriber) sub_step (sub_run g ! 3)"
proof -
  let ?b = "\<lambda>i. sub_run g ! i"
  note d = sub_run_def new_subscriber_def receiver_at_def set_receiver_def
  have "sub_step new_subscriber (?b 0)"
    using sub_enter [of new_subscriber 1] by (simp add: d)
  moreover have "sub_step (?b 0) (?b 1)" using sub_load [of "?b 0" 0 0] by (simp add: d)
  moreover have "sub_step (?b 1) (?b 2)" using sub_recv [of "?b 1" 0 1 0 g] by (simp add: d)
  moreover have "sub_step (?b 2) (?b 3)" using sub_put [of "?b 2" 0 g 0] by (simp add: d)
  ultimately show ?thesis by (intro reach_step [OF reach_step [OF reach_step [OF reach_one]]]) simp
qed

theorem queued_tasks_are_lost_at_a_reconnect_witness:
  "mset (sb_started (sub_run (grpc_of pinned_task ''exec-5-1'') ! 3)) + {#grpc_of pinned_task ''exec-5-1''#}
     \<subseteq># mset (sb_received (sub_run (grpc_of pinned_task ''exec-5-1'') ! 3))"
proof -
  let ?g = "grpc_of pinned_task ''exec-5-1''"
  let ?b = "sub_run ?g ! 3"
  let ?c = "?b\<lparr>sb_current := None, sb_stream := None, sb_open := {}\<rparr>"
  have "sub_step ?b ?c" using sub_leave [of ?b 0] by (simp add: sub_run_def new_subscriber_def)
  then have "mset (sb_started ?c) + mset (sb_chans ?b ! 0) \<subseteq># mset (sb_received ?c)"
    by (intro queued_tasks_are_lost_at_a_reconnect [OF sub_run_reached _ _ _ reach_init])
      (simp_all add: sub_run_def new_subscriber_def)
  then show ?thesis by (simp add: sub_run_def)
qed

end
