(* ===== verification/Task_Executor.thy ===== *)
theory Task_Executor
  imports Executor_Client
begin

text \<open>
  Running a task on an executor: \<open>Execute\<close> and the runners for HTTP requests and shell scripts
  (executor/internal/executor/task_executor.go). What the outside world does, the parsing of JSON, the
  HTTP exchange and the process, is the argument \<open>O'\<close>. A runner is a function to the log lines that
  it sends, in their order, and its result: nothing that it does depends on whether a line
  arrived. The pictographs in front of the messages are left out.
\<close>

section \<open>The outside world\<close>

record http_config =
  ht_url :: string
  ht_method :: string
  ht_body :: string
  ht_headers :: string

record http_reply =
  hp_code :: int
  hp_status :: string
  hp_type :: string             \<comment> \<open>the header Content-Type\<close>
  hp_body :: "string result"    \<comment> \<open>reading the body may fail\<close>

datatype stream_kind = Stdout | Stderr

record shell_run =
  sh_reads :: "(stream_kind \<times> string) list"   \<comment> \<open>the chunks in the order in which they are logged\<close>
  sh_wait :: "string option"                      \<comment> \<open>the error of \<open>Wait\<close>\<close>

datatype ctx_state = Alive | Canceled | DeadlineExceeded

record outside =
  o_http_config :: "string \<Rightarrow> http_config result"
  o_request :: "string \<Rightarrow> string \<Rightarrow> string option"       \<comment> \<open>the error of \<open>NewRequestWithContext\<close>\<close>
  o_headers :: "string \<Rightarrow> (string \<times> string) list option"
  o_send :: "string \<Rightarrow> string \<Rightarrow> (string \<times> string) list \<Rightarrow> string \<Rightarrow> http_reply result"
  o_pretty :: "string \<Rightarrow> string option"                 \<comment> \<open>\<open>Unmarshal\<close> and \<open>MarshalIndent\<close>\<close>
  o_shell_config :: "string \<Rightarrow> string result"
  o_shell :: "string \<Rightarrow> shell_run result"                 \<comment> \<open>\<open>Inl\<close>: the process does not start\<close>
  o_context :: ctx_state                                  \<comment> \<open>of the task, when the process has ended\<close>

type_synonym log_line = "string \<times> string"   \<comment> \<open>level and message\<close>

section \<open>Runners\<close>

definition is_json :: "string \<Rightarrow> bool" where
  "is_json ct \<longleftrightarrow> Contains (ToLower ct) ''json''"

definition is_text :: "string \<Rightarrow> bool" where
  "is_text ct \<longleftrightarrow> Contains (ToLower ct) ''text'' \<or> Contains (ToLower ct) ''html''"

definition error_body :: "outside \<Rightarrow> string \<Rightarrow> string \<Rightarrow> log_line" where
  "error_body O' ct body =
     (case (if is_json ct then o_pretty O' body else None) of
        Some j \<Rightarrow> (''error'', ''Response Body (JSON):\<newline>'' @ j)
      | None \<Rightarrow> (''stderr'', body))"

definition success_body :: "outside \<Rightarrow> string \<Rightarrow> string \<Rightarrow> log_line list" where
  "success_body O' ct body =
     (if is_json ct
      then (case o_pretty O' body of
              Some j \<Rightarrow> [(''info'', ''Response Body (JSON):''), (''stdout'', j)]
            | None \<Rightarrow> [(''stdout'', body)])
      else if is_text ct then [(''info'', ''Response Body (Text):''), (''stdout'', body)]
      else if body \<noteq> []
      then [(''info'', ''Response Body (Binary/Unknown, '' @ show_nat (length body) @ '' bytes)''),
            (''stdout'', if length body > 1024 then take 1024 body @ ''\<newline>... (truncated)'' else body)]
      else [])"

text \<open>\<open>resp.Status\<close> holds the code too, so the line shows it twice.\<close>

definition status_lines :: "string \<Rightarrow> string \<Rightarrow> http_reply \<Rightarrow> log_line list" where
  "status_lines level title r =
     [(level, title), (level, ''Status: '' @ show_int (hp_code r) @ '' '' @ hp_status r),
      (level, ''Content-Type: '' @ hp_type r)]"

definition http_reply_result :: "outside \<Rightarrow> http_reply \<Rightarrow> log_line list \<times> string \<times> string option" where
  "http_reply_result O' r =
     (case hp_body r of
        Inl e \<Rightarrow> ([(''error'', ''Failed to read response body: '' @ e)], [], Some (''read response body failed: '' @ e))
      | Inr body \<Rightarrow>
          (if hp_code r \<ge> 400
           then (status_lines ''error'' ''HTTP Error Response'' r @ [error_body O' (hp_type r) body],
                 body, Some (''http status '' @ show_int (hp_code r) @ '': '' @ body))
           else (status_lines ''info'' ''HTTP Success Response'' r @
                   [(''info'', ''Response size: '' @ show_nat (length body) @ '' bytes'')] @
                   success_body O' (hp_type r) body,
                 body, None)))"

definition executeHTTP :: "outside \<Rightarrow> grpc_task \<Rightarrow> log_line list \<times> string \<times> string option" where
  "executeHTTP O' g =
     (case o_http_config O' (g_config g) of
        Inl e \<Rightarrow> ([], [], Some (''invalid http config: '' @ e))
      | Inr h \<Rightarrow>
          (let verb = (if ht_method h = [] then ''GET'' else ht_method h);
               intro = [(''info'', ''Sending HTTP '' @ verb @ '' request to: '' @ ht_url h)] @
                 (if ht_headers h \<noteq> [] then [(''info'', ''Request headers: '' @ ht_headers h)] else []) @
                 (if ht_body h \<noteq> [] \<and> verb \<noteq> ''GET'' then [(''info'', ''Request body: '' @ ht_body h)] else [])
           in case o_request O' verb (ht_url h) of
                Some e \<Rightarrow> (intro @ [(''error'', ''Failed to create request: '' @ e)], [],
                          Some (''create request failed: '' @ e))
              | None \<Rightarrow>
                  (let headers = (if ht_headers h = [] then [] else case o_headers O' (ht_headers h) of
                                    None \<Rightarrow> [] | Some hs \<Rightarrow> hs)
                   in case o_send O' verb (ht_url h) headers (ht_body h) of
                        Inl e \<Rightarrow> (intro @ [(''error'', ''HTTP request failed: '' @ e)], [],
                                 Some (''http request failed: '' @ e))
                      | Inr r \<Rightarrow> (let (ls, out, err) = http_reply_result O' r in (intro @ ls, out, err)))))"

fun stream_level :: "stream_kind \<Rightarrow> string" where
  "stream_level Stdout = ''stdout''"
| "stream_level Stderr = ''stderr''"

definition collected :: "stream_kind \<Rightarrow> (stream_kind \<times> string) list \<Rightarrow> string" where
  "collected k rs = concat (map snd (filter (\<lambda>(j, c). j = k) rs))"

definition executeShell :: "outside \<Rightarrow> grpc_task \<Rightarrow> log_line list \<times> string \<times> string option" where
  "executeShell O' g =
     (case o_shell_config O' (g_config g) of
        Inl e \<Rightarrow> ([], [], Some (''invalid shell config: '' @ e))
      | Inr script \<Rightarrow>
          (if script = [] then ([], [], Some ''shell script is empty'')
           else (let intro = [(''info'', ''Executing shell script'')]
             in case o_shell O' script of
                  Inl e \<Rightarrow> (intro, [], Some (''start command: '' @ e))
                | Inr r \<Rightarrow>
                    (let out = collected Stdout (sh_reads r); errs = collected Stderr (sh_reads r);
                         ls = intro @ map (\<lambda>(k, c). (stream_level k, c)) (sh_reads r)
                     in if o_context O' = Canceled
                        then (ls @ [(''info'', ''Task cancelled by user, process terminated'')], out,
                              Some ''task cancelled by user'')
                        else (case sh_wait r of
                                Some e \<Rightarrow> (ls @ [(''error'', ''Shell execution error: '' @ e)], [],
                                  Some (''shell execution failed: '' @ e @ '', stdout: '' @ out @ '', stderr: '' @ errs))
                              | None \<Rightarrow> (ls @ [(''info'', ''Shell execution completed, output length: '' @
                                           show_nat (length out))], out, None))))))"

definition te_executeTask :: "outside \<Rightarrow> grpc_task \<Rightarrow> log_line list \<times> string \<times> string option" where
  "te_executeTask O' g =
     (if g_type g = ''http'' then executeHTTP O' g
      else if g_type g = ''shell'' then executeShell O' g
      else ([], [], Some (''unsupported task type: '' @ g_type g)))"

section \<open>Execution\<close>

text \<open>A line that cannot be delivered is dropped.\<close>

definition sendLog :: "'w net \<Rightarrow> grpc_task \<Rightarrow> log_line \<Rightarrow> multi_client \<times> 'w \<Rightarrow> multi_client \<times> 'w" where
  "sendLog N g l x =
     snd (ReportLog N \<lparr>lq_eid = g_eid g, lq_task = g_task g, lq_level = fst l,
            lq_content = sanitizeUTF8 (snd l)\<rparr> (fst x) (snd x))"

definition sendLogs :: "'w net \<Rightarrow> grpc_task \<Rightarrow> log_line list \<Rightarrow> multi_client \<times> 'w \<Rightarrow> multi_client \<times> 'w" where
  "sendLogs N g ls x = fold (sendLog N g) ls x"

text \<open>
  The steps of \<open>Execute\<close> at the executor, between which anything else can happen: entering the wait group under the
  mutex, making the context of the task, after which the first line is sent, putting it into the table, and counting it.
  Entering fails during a shutdown.
\<close>

definition started_text :: "multi_client \<Rightarrow> string" where
  "started_text c = (if mc_name c \<noteq> [] then ''Task execution started on executor: '' @ mc_name c
                     else ''Task execution started'')"

definition enter_execute :: "task_executor \<Rightarrow> bool \<times> task_executor" where
  "enter_execute te = (if te_shutting te then (False, te) else (True, te\<lparr>te_waiting := te_waiting te + 1\<rparr>))"

definition make_context :: "task_executor \<Rightarrow> nat \<times> task_executor" where
  "make_context te = (te_contexts te, te\<lparr>te_contexts := te_contexts te + 1\<rparr>)"

definition count_task :: "task_executor \<Rightarrow> task_executor" where
  "count_task te = te\<lparr>te_pool := IncRunning (te_pool te)\<rparr>"

text \<open>The deferred calls, the last one first.\<close>

definition uncount_task :: "task_executor \<Rightarrow> task_executor" where
  "uncount_task te = te\<lparr>te_pool := DecRunning (te_pool te)\<rparr>"

definition leave_group :: "task_executor \<Rightarrow> task_executor" where
  "leave_group te = te\<lparr>te_waiting := te_waiting te - 1\<rparr>"

definition end_execute :: "grpc_task \<Rightarrow> nat \<Rightarrow> task_executor \<Rightarrow> task_executor" where
  "end_execute g ctx te = leave_group (cancel_context ctx (removeRunningTask (g_eid g) (uncount_task te)))"

text \<open>After the runner: the closing lines and the report.\<close>

definition result_of :: "grpc_task \<Rightarrow> instant \<Rightarrow> instant \<Rightarrow> string \<Rightarrow> string option \<Rightarrow> result_request" where
  "result_of g start stop out err =
     \<lparr>tr_eid = g_eid g, tr_task = g_task g, tr_status = (if err = None then ''success'' else ''failed''),
      tr_output = sanitizeUTF8 out, tr_error = sanitizeUTF8 (case err of None \<Rightarrow> [] | Some e \<Rightarrow> e),
      tr_start = start div second, tr_end = stop div second\<rparr>"

definition closing_lines :: "string option \<Rightarrow> log_line list" where
  "closing_lines err =
     (case err of None \<Rightarrow> [] | Some e \<Rightarrow> [(''error'', ''Task execution failed: '' @ e)]) @
     [(''info'', ''Task execution finished, status: '' @ (if err = None then ''success'' else ''failed''))]"

definition finish_execute ::
  "'w net \<Rightarrow> instant \<Rightarrow> instant \<Rightarrow> grpc_task \<Rightarrow> log_line list \<times> string \<times> string option
     \<Rightarrow> multi_client \<times> 'w \<Rightarrow> multi_client \<times> 'w" where
  "finish_execute N start stop g r x =
     (let (ls, out, err) = r;
          (c, w) = sendLogs N g (ls @ closing_lines err) x
      in snd (ReportResult N (result_of g start stop out err) c w))"

text \<open>The whole of \<open>Execute\<close> when nothing else happens at the executor in between; otherwise its parts are the steps of
  \<open>exec_step\<close> below.\<close>

definition Execute ::
  "'w net \<Rightarrow> outside \<Rightarrow> instant \<Rightarrow> instant \<Rightarrow> grpc_task \<Rightarrow> task_executor \<Rightarrow> multi_client \<times> 'w
     \<Rightarrow> task_executor \<times> multi_client \<times> 'w" where
  "Execute N O' start stop g te x =
     (let (taken, te1) = enter_execute te
      in if \<not> taken then (te1, x)
         else (let (ctx, te2) = make_context te1;
                   x1 = sendLog N g (''info'', started_text (fst x)) x;
                   te3 = count_task (addRunningTask start g ctx te2)
               in (end_execute g ctx te3, finish_execute N start stop g (te_executeTask O' g) x1)))"

section \<open>What a scheduler hears of a task\<close>

text \<open>A network that delivers everything and writes down what it delivered.\<close>

datatype call = Beat heartbeat_request | Logged log_request | Resulted result_request

definition recorder :: "call list net" where
  "recorder =
     \<lparr>net_dial = (\<lambda>addr w. (Inr 0, w)), net_close = (\<lambda>k w. w),
      net_heartbeat = (\<lambda>k q w. (Inr \<lparr>hr_target = 0, hr_full_sync = False, hr_node = [], hr_new_leader = False,
        hr_is_leader = True, hr_cancels = []\<rparr>, w @ [Beat q])),
      net_register = (\<lambda>k q w. (Inl ''not registered here'', w)),
      net_subscribe = (\<lambda>k name w. (Inl ''no stream'', w)),
      net_result = (\<lambda>k q w. (Inr (), w @ [Resulted q])),
      net_log = (\<lambda>k g w. (Inr (), w @ [Logged g])),
      net_sync = (\<lambda>k name w. (Inr (True, [], []), w))\<rparr>"

definition log_of :: "grpc_task \<Rightarrow> log_line \<Rightarrow> call" where
  "log_of g l = Logged \<lparr>lq_eid = g_eid g, lq_task = g_task g, lq_level = fst l, lq_content = sanitizeUTF8 (snd l)\<rparr>"

fun is_beat :: "call \<Rightarrow> bool" where
  "is_beat (Beat q) = True"
| "is_beat _ = False"

definition heard :: "call list \<Rightarrow> call list" where
  "heard w = filter (\<lambda>x. \<not> is_beat x) w"

lemma heard_simps [simp]: "heard (v @ w) = heard v @ heard w" "heard [Beat q] = []"
    "heard [Logged g] = [Logged g]" "heard [Resulted f] = [Resulted f]" "heard [] = []"
  by (simp_all add: heard_def)

lemma heard_log [simp]: "heard (log_of g l # ls) = log_of g l # heard ls"
  by (simp add: heard_def log_of_def)

lemma heard_logs [simp]: "heard (map (log_of g) ls) = map (log_of g) ls"
  by (induction ls) simp_all

lemma recorded_check:
  "mc_connected c \<Longrightarrow> mc_client c = Some k \<Longrightarrow>
   ensureConnected recorder c w = (Inr (), c, w @ [Beat (probe (mc_name c))])"
  by (simp add: ensureConnected_def recorder_def)

lemma run_recorded_log:
  "mc_connected c \<Longrightarrow> mc_client c = Some k \<Longrightarrow>
   \<exists>w'. sendLog recorder g l (c, w) = (c, w') \<and> heard w' = heard w @ [log_of g l]"
  by (simp add: sendLog_def ReportLog_def reported_def eval_nat_numeral recorded_check)
    (simp add: recorder_def log_of_def heard_def)

lemma recorded_logs:
  "mc_connected c \<Longrightarrow> mc_client c = Some k \<Longrightarrow>
   \<exists>w'. sendLogs recorder g ls (c, w) = (c, w') \<and> heard w' = heard w @ map (log_of g) ls"
proof (induction ls arbitrary: w)
  case (Cons l ls)
  obtain w1 where w1: "sendLog recorder g l (c, w) = (c, w1)" "heard w1 = heard w @ [log_of g l]"
    using run_recorded_log Cons.prems by blast
  then show ?case using Cons.IH [of w1] Cons.prems by (auto simp: sendLogs_def)
qed (simp add: sendLogs_def)

lemma run_recorded_result:
  "mc_connected c \<Longrightarrow> mc_client c = Some k \<Longrightarrow>
   \<exists>w'. ReportResult recorder f c w = (Inr (), c, w') \<and> heard w' = heard w @ [Resulted f]"
  by (simp add: ReportResult_def reported_def eval_nat_numeral recorded_check)
    (simp add: recorder_def heard_def)


section \<open>Networks that fail\<close>

text \<open>What a network promises of results: only \<open>ReportTaskResult\<close> brings one to the scheduler, and when it is answered
  without an error it did. A call that fails may have brought it all the same.\<close>

locale result_channel =
  fixes N :: "'w net" and sent :: "'w \<Rightarrow> result_request list"
  assumes dial_sends: "net_dial N a w = (x, w') \<Longrightarrow> sent w' = sent w"
    and close_sends: "sent (net_close N k w) = sent w"
    and beat_sends: "net_heartbeat N k b w = (y, w') \<Longrightarrow> sent w' = sent w"
    and log_sends: "net_log N k l w = (z, w') \<Longrightarrow> sent w' = sent w"
    and result_sends: "net_result N k q w = (z, w') \<Longrightarrow> sent w' = sent w @ [q] \<or> sent w' = sent w \<and> z \<noteq> Inr ()"
begin

lemma connect_sends: "sent (snd (snd (connect_loop N i fb c w))) = sent w"
proof (induction i arbitrary: fb c w)
  case (Suc i)
  obtain x w1 where d: "net_dial N (getCurrentAddr c) w = (x, w1)" by fastforce
  show ?case
  proof (cases x)
    case (Inl e)
    then show ?thesis using d Suc.IH dial_sends [OF d] by (simp add: Let_def)
  next
    case (Inr k)
    obtain y w2 where b: "net_heartbeat N k (probe []) w1 = (y, w2)" by fastforce
    show ?thesis
      using d b Inr Suc.IH dial_sends [OF d] beat_sends [OF b] close_sends
      by (simp add: Let_def split: sum.splits option.splits)
  qed
qed (simp split: option.splits)

lemma check_sends: "sent (snd (snd (ensureConnected N c w))) = sent w"
proof (cases "if mc_connected c then mc_client c else None")
  case None
  then show ?thesis by (simp add: ensureConnected_def connectToScheduler_def connect_sends)
next
  case (Some k)
  obtain y w1 where b: "net_heartbeat N k (probe (mc_name c)) w = (y, w1)" by fastforce
  show ?thesis
    using Some b beat_sends [OF b]
    by (simp add: ensureConnected_def connectToScheduler_def connect_sends split: sum.split)
qed

lemma logs_send: "sent (snd (snd (report_loop N (\<lambda>k. net_log N k l) n e c w))) = sent w"
proof (induction n arbitrary: e c w)
  case (Suc n)
  obtain u c1 w1 where c: "ensureConnected N c w = (u, c1, w1)" by (cases "ensureConnected N c w") auto
  have s: "sent w1 = sent w" using check_sends [of c w] c by simp
  show ?case
  proof (cases "mc_client c1")
    case None
    then show ?thesis using c s Suc.IH by (simp split: sum.split)
  next
    case (Some k)
    obtain z w2 where l: "net_log N k l w1 = (z, w2)" by fastforce
    then show ?thesis using c s Some Suc.IH log_sends [OF l] by (simp split: sum.split)
  qed
qed simp

lemma results_send:
  "\<exists>m\<le>n. sent (snd (snd (report_loop N (\<lambda>k. net_result N k q) n e c w))) = sent w @ replicate m q \<and>
     (fst (report_loop N (\<lambda>k. net_result N k q) n e c w) = None \<longrightarrow> 0 < m)"
proof (induction n arbitrary: e c w)
  case (Suc n)
  obtain u c1 w1 where c: "ensureConnected N c w = (u, c1, w1)" by (cases "ensureConnected N c w") auto
  have s: "sent w1 = sent w" using check_sends [of c w] c by simp
  have skip: ?case if "report_loop N (\<lambda>k. net_result N k q) (Suc n) e c w = report_loop N (\<lambda>k. net_result N k q) n e' c1 w1" for e'
    using Suc.IH [of e' c1 w1] s le_SucI unfolding that by fastforce
  show ?case
  proof (cases u)
    case (Inl d)
    then show ?thesis using c by (intro skip [of d]) simp
  next
    case (Inr v)
    show ?thesis
    proof (cases "mc_client c1")
      case None
      then show ?thesis using c Inr by (intro skip [of "''no client available''"]) simp
    next
      case (Some k)
      obtain z w2 where r: "net_result N k q w1 = (z, w2)" by fastforce
      show ?thesis
      proof (cases z)
        case (Inr y)
        then have "sent w2 = sent w @ [q]" using result_sends [OF r] s by auto
        then show ?thesis using c \<open>u = Inr v\<close> Some r Inr by (intro exI [of _ 1]) simp
      next
        case (Inl d)
        obtain m where m: "m \<le> n" "sent (snd (snd (report_loop N (\<lambda>k. net_result N k q) n d c1 w2))) = sent w2 @ replicate m q"
            "fst (report_loop N (\<lambda>k. net_result N k q) n d c1 w2) = None \<longrightarrow> 0 < m"
          using Suc.IH [of d c1 w2] by (elim exE conjE)
        have e: "report_loop N (\<lambda>k. net_result N k q) (Suc n) e c w = report_loop N (\<lambda>k. net_result N k q) n d c1 w2"
          using c \<open>u = Inr v\<close> Some r Inl by simp
        show ?thesis
          using result_sends [OF r] s m unfolding e
        proof (elim disjE)
          assume "sent w2 = sent w1 @ [q]"
          then show "\<exists>m\<le>Suc n. sent (snd (snd (report_loop N (\<lambda>k. net_result N k q) n d c1 w2))) = sent w @ replicate m q \<and>
              (fst (report_loop N (\<lambda>k. net_result N k q) n d c1 w2) = None \<longrightarrow> 0 < m)"
            using s m by (intro exI [of _ "Suc m"]) simp
        next
          assume "sent w2 = sent w1 \<and> z \<noteq> Inr ()"
          then show "\<exists>m\<le>Suc n. sent (snd (snd (report_loop N (\<lambda>k. net_result N k q) n d c1 w2))) = sent w @ replicate m q \<and>
              (fst (report_loop N (\<lambda>k. net_result N k q) n d c1 w2) = None \<longrightarrow> 0 < m)"
            using s m by (intro exI [of _ m]) simp
        qed
      qed
    qed
  qed
qed simp

lemma reported_rest [simp]: "snd (reported what r) = snd r"
  by (simp add: reported_def split: prod.split option.split)

lemma log_line_sends: "sent (snd (sendLog N g l x)) = sent (snd x)"
  by (simp add: sendLog_def ReportLog_def logs_send)

lemma log_lines_send: "sent (snd (sendLogs N g ls x)) = sent (snd x)"
  by (induction ls arbitrary: x) (simp_all add: sendLogs_def log_line_sends del: split_paired_All)

lemma report_sends:
  assumes "ReportResult N q c w = (x, c', w')"
  shows "\<exists>m\<le>3. sent w' = sent w @ replicate m q \<and> (x = Inr () \<longrightarrow> 0 < m)"
proof -
  obtain err c1 w1 where r: "report_loop N (\<lambda>k. net_result N k q) 3 [] c w = (err, c1, w1)"
    by (cases "report_loop N (\<lambda>k. net_result N k q) 3 [] c w") auto
  then have "w' = w1" "x = Inr () \<longrightarrow> err = None"
    using assms by (auto simp: ReportResult_def reported_def split: option.splits)
  then show ?thesis using results_send [of 3 q "[]" c w] unfolding r by auto
qed

lemma execution_sends:
  assumes "te_executeTask O' g = (ls, out, err)"
  shows "\<exists>m\<le>3. sent (snd (snd (Execute N O' start stop g te (c, w)))) = sent w @ replicate m (result_of g start stop out err)"
proof (cases "te_shutting te")
  case True
  then show ?thesis by (intro exI [of _ 0]) (simp add: Execute_def enter_execute_def)
next
  case False
  obtain c1 w1 where l: "sendLog N g (''info'', started_text c) (c, w) = (c1, w1)" by fastforce
  obtain c2 w2 where k: "sendLogs N g (ls @ closing_lines err) (c1, w1) = (c2, w2)" by fastforce
  obtain x c3 w3 where r: "ReportResult N (result_of g start stop out err) c2 w2 = (x, c3, w3)"
    by (cases "ReportResult N (result_of g start stop out err) c2 w2") auto
  have "sent w2 = sent w"
    using log_line_sends [of g "(''info'', started_text c)" "(c, w)"] log_lines_send [of g "ls @ closing_lines err" "(c1, w1)"] l k by simp
  then show ?thesis
    using report_sends [OF r] False assms l k r
    by (auto simp: Execute_def enter_execute_def make_context_def finish_execute_def Let_def)
qed

end

text \<open>The network that answers everything is one, with the results among what it wrote down.\<close>

definition results_heard :: "call list \<Rightarrow> result_request list" where
  "results_heard w = List.map_filter (\<lambda>x. case x of Resulted f \<Rightarrow> Some f | _ \<Rightarrow> None) w"

lemma results_heard_simps [simp]:
  "results_heard (v @ w) = results_heard v @ results_heard w" "results_heard (Beat b # w) = results_heard w"
  "results_heard (Logged l # w) = results_heard w" "results_heard (Resulted f # w) = f # results_heard w" "results_heard [] = []"
  by (simp_all add: results_heard_def map_filter_def)

text \<open>Networks on which every call for a result fails: before it has reached the scheduler, or after.\<close>

definition losing_net :: "call list net" where
  "losing_net = recorder\<lparr>net_result := (\<lambda>k q w. (Inl ''Unavailable'', w))\<rparr>"

definition late_net :: "call list net" where
  "late_net = recorder\<lparr>net_result := (\<lambda>k q w. (Inl ''DeadlineExceeded'', w @ [Resulted q]))\<rparr>"

interpretation answered: result_channel recorder results_heard
  by unfold_locales (auto simp: recorder_def)

interpretation losing: result_channel losing_net results_heard
  by unfold_locales (auto simp: losing_net_def recorder_def)

interpretation late: result_channel late_net results_heard
  by unfold_locales (auto simp: late_net_def recorder_def)

text \<open>So a result can be lost although \<open>Execute\<close> has ended, and arrive three times.\<close>

lemma lost_and_repeated_results:
  assumes "mc_connected c" "mc_client c = Some k"
  shows "results_heard (snd (snd (ReportResult losing_net f c []))) = []"
    and "results_heard (snd (snd (ReportResult late_net f c []))) = [f, f, f]"
  using assms
  by (simp_all add: ReportResult_def reported_def eval_nat_numeral ensureConnected_def losing_net_def late_net_def recorder_def)

text \<open>Over any such network, a task brings its own result to the scheduler, at most three times, and no other one.\<close>

lemma task_is_reported_at_most_thrice:
  assumes "result_channel N sent" "te_executeTask O' g = (ls, out, err)"
  shows "\<exists>m\<le>3. sent (snd (snd (Execute N O' start stop g te (c, w)))) = sent w @ replicate m (result_of g start stop out err)"
  using result_channel.execution_sends [OF assms] .

section \<open>Chunks of output\<close>

text \<open>The text of the lines of one stream, as the scheduler strings it together.\<close>

definition streamed :: "string \<Rightarrow> log_line list \<Rightarrow> string" where
  "streamed level ls = concat (map (sanitizeUTF8 \<circ> snd) (filter (\<lambda>l. fst l = level) ls))"

text \<open>Characters outside ASCII get lost in the log of a script when they lie across two reads of its output:
  each chunk is cleaned by itself, and neither half is a character. The output in the
  final report has them.\<close>

theorem character_between_two_reads_is_lost:
  assumes "o_shell_config O' (g_config g) = Inr script" "script \<noteq> []"
    and "o_shell O' script = Inr \<lparr>sh_reads = [(Stdout, s @ [b]), (Stdout, c # t)], sh_wait = None\<rparr>"
    and "o_context O' \<noteq> Canceled" "list_all (\<lambda>c. code c < 128) s" "list_all (\<lambda>c. code c < 128) t"
    and "in_range 194 223 b" "in_range 128 191 c"
  shows "case executeShell O' g of (ls, out, err) \<Rightarrow>
    streamed ''stdout'' ls = s @ t \<and> sanitizeUTF8 out = s @ b # c # t \<and> err = None"
proof -
  note cut = sanitize_cut [OF assms(5-8)]
  have "sanitizeUTF8 (s @ b # c # t) = s @ b # c # t" using cut(3) by (simp add: sanitizeUTF8_def)
  then show ?thesis
    using assms(1-4) cut(1,2) by (simp add: executeShell_def Let_def collected_def streamed_def)
qed

section \<open>Many tasks at a time\<close>

text \<open>
  Where the goroutine of an \<open>Execute\<close> is: in the wait group, with a context, in the table, counted, then no longer
  counted, no longer in the table, and with its context cancelled. A shutdown marks the executor under the mutex, then
  goes through the table with \<open>Range\<close> and waits. \<open>Range\<close> visits every entry that is there from its beginning
  to its end; the sets are the ids that it is past, those in the table when it began, and (a ghost) their contexts.
\<close>

datatype exec_place = Entered | Prepared nat | Listed nat | Counted nat | Uncounted nat | Unlisted nat | Released nat
datatype shutdown_place = Up | Marked | Ranging "string set" "string set" "nat set" | Ranged "nat set"

type_synonym exec_state = "task_executor \<times> (grpc_task \<times> exec_place) multiset \<times> shutdown_place"

inductive exec_step :: "exec_state \<Rightarrow> exec_state \<Rightarrow> bool" where
  exec_enter: "enter_execute te = (True, te') \<Longrightarrow> exec_step (te, gs, sd) (te', add_mset (g, Entered) gs, sd)"
| exec_refuse: "enter_execute te = (False, te') \<Longrightarrow> exec_step (te, gs, sd) (te', gs, sd)"
| exec_context: "make_context te = (ctx, te') \<Longrightarrow>
    exec_step (te, add_mset (g, Entered) gs, sd) (te', add_mset (g, Prepared ctx) gs, sd)"
| exec_list: "exec_step (te, add_mset (g, Prepared ctx) gs, sd) (addRunningTask now g ctx te, add_mset (g, Listed ctx) gs, sd)"
| exec_count: "exec_step (te, add_mset (g, Listed ctx) gs, sd) (count_task te, add_mset (g, Counted ctx) gs, sd)"
| exec_uncount: "exec_step (te, add_mset (g, Counted ctx) gs, sd) (uncount_task te, add_mset (g, Uncounted ctx) gs, sd)"
| exec_unlist: "exec_step (te, add_mset (g, Uncounted ctx) gs, sd)
    (removeRunningTask (g_eid g) te, add_mset (g, Unlisted ctx) gs, sd)"
| exec_release: "exec_step (te, add_mset (g, Unlisted ctx) gs, sd) (cancel_context ctx te, add_mset (g, Released ctx) gs, sd)"
| exec_done: "exec_step (te, add_mset (g, Released ctx) gs, sd) (leave_group te, gs, sd)"
| exec_cancel: "exec_step (te, gs, sd) (snd (CancelTask eid te), gs, sd)"
| exec_capacity: "exec_step (te, gs, sd) (snd (te_UpdateCapacity n te), gs, sd)"
| exec_mark: "\<not> te_shutting te \<Longrightarrow> exec_step (te, gs, Up) (te\<lparr>te_shutting := True\<rparr>, gs, Marked)"
| exec_range: "exec_step (te, gs, Marked)
    (te, gs, Ranging {} (fst ` set (te_running te)) (ri_context ` snd ` set (te_running te)))"
| exec_visit: "eid \<notin> past \<Longrightarrow> map_of (te_running te) eid = Some i \<Longrightarrow>
    exec_step (te, gs, Ranging past keys old) (cancel_context (ri_context i) te, gs, Ranging (insert eid past) keys old)"
| exec_pass: "eid \<notin> past \<Longrightarrow> map_of (te_running te) eid = None \<Longrightarrow>
    exec_step (te, gs, Ranging past keys old) (te, gs, Ranging (insert eid past) keys old)"
| exec_ranged: "keys \<subseteq> past \<Longrightarrow> exec_step (te, gs, Ranging past keys old) (te, gs, Ranged old)"

fun place_context :: "exec_place \<Rightarrow> nat option" where
  "place_context Entered = None"
| "place_context (Prepared c) = Some c"
| "place_context (Listed c) = Some c"
| "place_context (Counted c) = Some c"
| "place_context (Uncounted c) = Some c"
| "place_context (Unlisted c) = Some c"
| "place_context (Released c) = Some c"

definition listed_places :: "nat \<Rightarrow> exec_place set" where
  "listed_places c = {Listed c, Counted c, Uncounted c}"

fun counted :: "grpc_task \<times> exec_place \<Rightarrow> bool" where
  "counted (g, p) \<longleftrightarrow> (case p of Counted c \<Rightarrow> True | _ \<Rightarrow> False)"

text \<open>How many goroutines have a context; every one has its own.\<close>

definition users :: "nat \<Rightarrow> (grpc_task \<times> exec_place) multiset \<Rightarrow> nat" where
  "users c gs = size (filter_mset (\<lambda>x. place_context (snd x) = Some c) gs)"

definition contexts_ok :: "nat \<Rightarrow> (grpc_task \<times> exec_place) multiset \<Rightarrow> bool" where
  "contexts_ok n gs \<longleftrightarrow> (\<forall>c. users c gs \<le> 1) \<and> (\<forall>c\<ge>n. users c gs = 0)"

text \<open>Every entry of the table is that of a task under way.\<close>

definition table_ok :: "(string \<times> running_info) list \<Rightarrow> (grpc_task \<times> exec_place) multiset \<Rightarrow> bool" where
  "table_ok rs gs \<longleftrightarrow> distinct (map fst rs) \<and>
     (\<forall>(e, i)\<in>set rs. e = g_eid (ri_task i) \<and> (\<exists>p\<in>listed_places (ri_context i). (ri_task i, p) \<in># gs))"

text \<open>A shutdown has cancelled what it is past.\<close>

fun shutdown_ok :: "task_executor \<Rightarrow> shutdown_place \<Rightarrow> bool" where
  "shutdown_ok te Up \<longleftrightarrow> \<not> te_shutting te"
| "shutdown_ok te Marked \<longleftrightarrow> te_shutting te"
| "shutdown_ok te (Ranging past keys old) \<longleftrightarrow> te_shutting te \<and>
     (\<forall>(e, i)\<in>set (te_running te). ri_context i \<in> old \<longrightarrow> e \<in> keys \<and> (e \<in> past \<longrightarrow> ri_context i \<in> te_cancelled te))"
| "shutdown_ok te (Ranged old) \<longleftrightarrow> te_shutting te \<and>
     (\<forall>(e, i)\<in>set (te_running te). ri_context i \<in> old \<longrightarrow> ri_context i \<in> te_cancelled te)"

fun old_contexts :: "shutdown_place \<Rightarrow> nat set" where
  "old_contexts (Ranging past keys old) = old"
| "old_contexts (Ranged old) = old"
| "old_contexts _ = {}"

text \<open>What was in the table is known by a context that is not that of a task which is still to be put there.\<close>

definition old_ok :: "nat \<Rightarrow> (grpc_task \<times> exec_place) multiset \<Rightarrow> shutdown_place \<Rightarrow> bool" where
  "old_ok n gs sd \<longleftrightarrow> old_contexts sd \<subseteq> {..<n} \<and> (\<forall>g c. (g, Prepared c) \<in># gs \<longrightarrow> c \<notin> old_contexts sd)"

definition exec_inv :: "exec_state \<Rightarrow> bool" where
  "exec_inv x \<longleftrightarrow> (case x of (te, gs, sd) \<Rightarrow>
     te_waiting te = size gs \<and> running (te_pool te) = int (size (filter_mset counted gs)) \<and>
     contexts_ok (te_contexts te) gs \<and> table_ok (te_running te) gs \<and> old_ok (te_contexts te) gs sd \<and> shutdown_ok te sd)"

lemma UpdateCapacity_running: "running (snd (UpdateCapacity n p)) = running p"
proof -
  have r: "running (replace_queue n q) = running q" for q :: "'a pool"
    by (simp add: replace_queue_def Let_def)
  have "same_tasks p ((startWorker ^^ k) p)" "same_tasks p (stop_loop i j p)" for k i j
    using startWorkers_same stop_loop_same by blast+
  then show ?thesis by (auto simp: UpdateCapacity_def Let_def r same_tasks_def)
qed

lemma users_add [simp]: "users c (add_mset (g, p) gs) = (if place_context p = Some c then Suc (users c gs) else users c gs)"
  by (simp add: users_def)

lemma users_pos: "(h, q) \<in># gs \<Longrightarrow> place_context q = Some c \<Longrightarrow> 0 < users c gs"
  by (auto simp: users_def nonempty_has_size [symmetric] filter_mset_eq_mempty_iff)

lemma contexts_moved: "place_context p = place_context q \<Longrightarrow> contexts_ok n (add_mset (g, p) gs) = contexts_ok n (add_mset (g, q) gs)"
  by (simp add: contexts_ok_def)

lemma contexts_new: "contexts_ok n (add_mset (g, Entered) gs) \<Longrightarrow> contexts_ok (Suc n) (add_mset (g, Prepared n) gs)"
  by (simp add: contexts_ok_def)

lemma contexts_less: "contexts_ok n (add_mset (g, p) gs) \<Longrightarrow> contexts_ok n gs"
  unfolding contexts_ok_def users_add by (metis Suc_leD nat.distinct(1))

lemma contexts_own:
  assumes "contexts_ok n (add_mset (g, p) gs)" "place_context p = Some c" "(h, q) \<in># gs"
  shows "place_context q \<noteq> Some c"
proof
  assume "place_context q = Some c"
  then have "0 < users c gs" using assms(3) by (rule users_pos [rotated])
  moreover have "users c (add_mset (g, p) gs) \<le> 1" using assms(1) unfolding contexts_ok_def by blast
  ultimately show False using assms(2) by simp
qed

lemma contexts_old: "contexts_ok n gs \<Longrightarrow> (g, p) \<in># gs \<Longrightarrow> place_context p = Some c \<Longrightarrow> c < n"
  using users_pos [of g p gs c] unfolding contexts_ok_def by (metis leI less_irrefl)

lemma listed_context: "p \<in> listed_places c \<Longrightarrow> place_context p = Some c"
  by (auto simp: listed_places_def)

text \<open>Replacing the place of a goroutine keeps the table, unless the old one was in the table and the new one is not.\<close>

lemma table_moved:
  assumes "table_ok rs (add_mset (g, p) gs)" "\<And>c. p \<in> listed_places c \<Longrightarrow> q \<in> listed_places c"
  shows "table_ok rs (add_mset (g, q) gs)"
  using assms by (fastforce simp: table_ok_def)

lemma table_less: "table_ok rs (add_mset (g, p) gs) \<Longrightarrow> (\<And>c. p \<notin> listed_places c) \<Longrightarrow> table_ok rs gs"
  by (fastforce simp: table_ok_def)

lemma table_more: "table_ok rs gs \<Longrightarrow> table_ok rs (add_mset x gs)"
  by (fastforce simp: table_ok_def)

lemma put_running_set: "(e, j) \<in> set (put_running eid i rs) \<Longrightarrow> e = eid \<and> j = i \<or> e \<noteq> eid \<and> (e, j) \<in> set rs"
  by (force simp: put_running_def split: if_splits)

lemma table_listed:
  assumes "table_ok rs (add_mset (g, Prepared c) gs)" "ri_task i = g" "ri_context i = c"
  shows "table_ok (put_running (g_eid g) i rs) (add_mset (g, Listed c) gs)"
proof -
  have old: "e = g_eid (ri_task j) \<and> (\<exists>p\<in>listed_places (ri_context j). (ri_task j, p) \<in># gs)" if "(e, j) \<in> set rs" for e j
    using assms(1) that by (auto simp: table_ok_def listed_places_def)
  have "e = g_eid (ri_task j) \<and> (\<exists>p\<in>listed_places (ri_context j). (ri_task j, p) \<in># add_mset (g, Listed c) gs)"
    if "(e, j) \<in> set (put_running (g_eid g) i rs)" for e j
    using put_running_set [OF that]
  proof
    assume "e = g_eid g \<and> j = i"
    then show ?thesis using assms(2,3) by (auto simp: listed_places_def)
  next
    assume "e \<noteq> g_eid g \<and> (e, j) \<in> set rs"
    then show ?thesis using old [of e j] by auto
  qed
  then show ?thesis using assms(1) put_running_distinct [of rs] by (auto simp: table_ok_def)
qed

lemma table_unlisted:
  assumes "table_ok rs (add_mset (g, p) gs)"
  shows "table_ok (filter (\<lambda>(e, i). e \<noteq> g_eid g) rs) (add_mset (g, q) gs)"
  using assms by (fastforce simp: table_ok_def distinct_map_filter)

text \<open>A shutdown is not concerned by entries that go and by new ones.\<close>

lemma shutdown_kept:
  assumes "shutdown_ok te sd" "te_shutting te' = te_shutting te" "te_cancelled te \<subseteq> te_cancelled te'"
    and "\<And>e i. (e, i) \<in> set (te_running te') \<Longrightarrow> (e, i) \<in> set (te_running te) \<or> ri_context i \<notin> old_contexts sd"
  shows "shutdown_ok te' sd"
  using assms by (cases sd) fastforce+

lemma old_moved: "old_ok n (add_mset (g, p) gs) sd \<Longrightarrow> (\<And>c. q \<noteq> Prepared c) \<Longrightarrow> old_ok n (add_mset (g, q) gs) sd"
  by (auto simp: old_ok_def)

lemma old_context_new: "old_ok n (add_mset (g, p) gs) sd \<Longrightarrow> old_ok (Suc n) (add_mset (g, Prepared n) gs) sd"
  by (fastforce simp: old_ok_def)

lemma old_at_range:
  assumes "contexts_ok n gs" "table_ok rs gs"
  shows "old_ok n gs (Ranging {} keys (ri_context ` snd ` set rs))"
proof -
  have t: "\<exists>h q. (h, q) \<in># gs \<and> q \<in> listed_places c" if "c \<in> ri_context ` snd ` set rs" for c
    using that assms(2) by (fastforce simp: table_ok_def)
  have "c < n" if "c \<in> ri_context ` snd ` set rs" for c
    using t [OF that] contexts_old [OF assms(1)] listed_context by blast
  moreover have False if c: "c \<in> ri_context ` snd ` set rs" "(g, Prepared c) \<in># gs" for g c
  proof -
    obtain h q where q: "(h, q) \<in># gs" "q \<in> listed_places c" using t [OF c(1)] by blast
    obtain gs' where gs: "gs = add_mset (g, Prepared c) gs'" using multi_member_split [OF c(2)] by blast
    then have "(h, q) \<in># gs'" using q by (auto simp: listed_places_def)
    then show False using contexts_own [of n g "Prepared c" gs' c h q] assms(1) gs listed_context [OF q(2)] by simp
  qed
  ultimately show ?thesis unfolding old_ok_def old_contexts.simps by blast
qed

lemmas exec_ops = exec_inv_def enter_execute_def make_context_def count_task_def uncount_task_def leave_group_def
  addRunningTask_def removeRunningTask_def cancel_context_def IncRunning_def DecRunning_def

lemma exec_inv_step: "exec_step x y \<Longrightarrow> exec_inv x \<Longrightarrow> exec_inv y"
proof (induction rule: exec_step.induct)
  case (exec_enter te te' gs sd g)
  then show ?case
    by (auto simp: exec_ops contexts_ok_def table_more old_ok_def split: if_splits elim: shutdown_kept)
next
  case (exec_refuse te te' gs sd)
  then show ?case by (simp add: exec_ops split: if_splits)
next
  case (exec_context te ctx te' g gs sd)
  then show ?case
    by (auto simp: exec_ops contexts_new intro: old_context_new elim: shutdown_kept)
      (erule table_moved, simp add: listed_places_def)
next
  case (exec_list te g ctx gs sd now)
  have c: "contexts_ok (te_contexts te) (add_mset (g, Listed ctx) gs)" "ctx \<notin> old_contexts sd"
    using exec_list contexts_moved [of "Prepared ctx" "Listed ctx"] by (auto simp: exec_inv_def old_ok_def)
  show ?case
    using exec_list c
    by (auto simp: exec_ops intro: table_listed old_moved elim!: shutdown_kept dest!: put_running_set)
next
  case (exec_count te g ctx gs sd)
  then show ?case
    using contexts_moved [of "Listed ctx" "Counted ctx"]
    by (auto simp: exec_ops listed_places_def intro: old_moved table_moved elim!: shutdown_kept)
next
  case (exec_uncount te g ctx gs sd)
  then show ?case
    using contexts_moved [of "Counted ctx" "Uncounted ctx"]
    by (auto simp: exec_ops listed_places_def intro: old_moved table_moved elim!: shutdown_kept)
next
  case (exec_unlist te g ctx gs sd)
  then show ?case
    using contexts_moved [of "Uncounted ctx" "Unlisted ctx"]
    by (auto simp: exec_ops intro: old_moved table_unlisted elim!: shutdown_kept)
next
  case (exec_release te g ctx gs sd)
  then show ?case
    using contexts_moved [of "Unlisted ctx" "Released ctx"]
    by (auto simp: exec_ops listed_places_def intro: old_moved table_moved elim!: shutdown_kept)
next
  case (exec_done te g ctx gs sd)
  then show ?case
    using contexts_less [of _ g "Released ctx"] table_less [of _ g "Released ctx"]
    by (auto simp: exec_ops listed_places_def old_ok_def elim!: shutdown_kept)
next
  case (exec_cancel te gs sd eid)
  then show ?case
    by (auto simp: exec_ops CancelTask_def split: option.splits elim!: shutdown_kept)
next
  case (exec_capacity te gs sd n)
  then show ?case
    using UpdateCapacity_running [of n "te_pool te"]
    by (auto simp: exec_inv_def te_UpdateCapacity_def split: prod.splits elim!: shutdown_kept)
next
  case (exec_mark te gs)
  then show ?case by (simp add: exec_inv_def old_ok_def)
next
  case (exec_range te gs)
  then show ?case
    using old_at_range by (simp add: exec_inv_def) (blast intro: image_eqI [of _ fst, OF fst_conv [symmetric]])
next
  case (exec_visit eid past te i gs keys old)
  have d: "distinct (map fst (te_running te))" and sd: "shutdown_ok te (Ranging past keys old)"
    using exec_visit.prems by (simp_all add: exec_inv_def table_ok_def)
  have "ri_context j \<in> old \<longrightarrow> e \<in> keys \<and> (e \<in> insert eid past \<longrightarrow> ri_context j \<in> insert (ri_context i) (te_cancelled te))"
    if ej: "(e, j) \<in> set (te_running te)" for e j
  proof (cases "e = eid")
    case True
    then have "j = i" using map_of_is_SomeI [OF d ej] exec_visit.hyps by simp
    then show ?thesis using bspec [OF conjunct2 [OF sd [unfolded shutdown_ok.simps]] ej] by simp
  next
    case False
    then show ?thesis using bspec [OF conjunct2 [OF sd [unfolded shutdown_ok.simps]] ej] by simp
  qed
  then have "shutdown_ok (cancel_context (ri_context i) te) (Ranging (insert eid past) keys old)"
    using sd by (simp add: cancel_context_def) blast
  then show ?case using exec_visit.prems by (simp add: exec_inv_def cancel_context_def old_ok_def)
next
  case (exec_pass eid past te gs keys old)
  have "eid \<notin> fst ` set (te_running te)" using exec_pass by (simp add: map_of_eq_None_iff)
  then have n: "e \<noteq> eid" if "(e, j) \<in> set (te_running te)" for e j using that by force
  have "shutdown_ok te (Ranging past keys old)" using exec_pass.prems by (simp add: exec_inv_def)
  then have "shutdown_ok te (Ranging (insert eid past) keys old)" using n by simp blast
  then show ?case using exec_pass.prems by (simp add: exec_inv_def old_ok_def)
next
  case (exec_ranged keys past te gs old)
  then have "shutdown_ok te (Ranged old)" by (simp add: exec_inv_def) blast
  then show ?case using exec_ranged.prems by (simp add: exec_inv_def old_ok_def)
qed

definition fresh_executor :: "exec_state \<Rightarrow> bool" where
  "fresh_executor x \<longleftrightarrow> (\<exists>n. x = (NewTaskExecutor (NewPool n), {#}, Up))"

lemma fresh_executor_inv: "fresh_executor x \<Longrightarrow> exec_inv x"
  by (auto simp: fresh_executor_def exec_inv_def NewTaskExecutor_def NewPool_def contexts_ok_def users_def table_ok_def old_ok_def)

interpretation executor: transition_invariant fresh_executor exec_step exec_inv
  by unfold_locales (rule fresh_executor_inv, assumption, rule exec_inv_step)

text \<open>C29: Whatever tasks come, end and are cancelled, and however the capacity changes meanwhile, with all steps of these
  interleaved, the executor keeps its books: the counter that a shutdown waits for is the number of tasks that have entered
  and not left, the load that is reported is the number of those that are counted, and every entry of the table is that of
  one of them which is listed. When a shutdown is past the table, what is left of the entries that it found there is cancelled.\<close>

theorem executor_keeps_its_books:
  assumes "reach fresh_executor exec_step (te, gs, sd)" "size gs < 2 ^ 31"
  shows "te_waiting te = size gs \<and> GetRunningTasks te = int (size (filter_mset counted gs)) \<and>
    distinct (GetRunningExecutionIds te) \<and>
    (\<forall>(eid, i)\<in>set (te_running te). eid = g_eid (ri_task i) \<and> (\<exists>p\<in>listed_places (ri_context i). (ri_task i, p) \<in># gs)) \<and>
    (\<forall>old. sd = Ranged old \<longrightarrow> (\<forall>(eid, i)\<in>set (te_running te). ri_context i \<in> old \<longrightarrow> ri_context i \<in> te_cancelled te))"
proof -
  have inv: "exec_inv (te, gs, sd)" using executor.reach_inv [OF assms(1)] .
  have "size (filter_mset counted gs) < 2 ^ 31"
    using size_filter_mset_lesseq assms(2) by (rule le_less_trans)
  then have "wrap32 (int (size (filter_mset counted gs))) = int (size (filter_mset counted gs))" by (intro wrap32_id) auto
  then show ?thesis
    using inv by (auto simp: exec_inv_def table_ok_def GetRunningTasks_def Running_def GetRunningExecutionIds_def)
qed

text \<open>A task that has entered and is not in the table when a shutdown goes through it is never cancelled: it runs on, the
  shutdown waits for it, and a further call of \<open>Shutdown\<close> does nothing.\<close>

theorem shutdown_misses_an_entering_task:
  "\<exists>te. reach fresh_executor exec_step (te, {#(g, Counted 0)#}, Ranged {}) \<and> te_shutting te \<and> te_waiting te = 1 \<and>
     GetRunningExecutionIds te = [g_eid g] \<and> te_cancelled te = {} \<and> Shutdown te = te"
proof -
  define te where "te = NewTaskExecutor (NewPool 4)"
  define te1 where "te1 = te\<lparr>te_waiting := 1\<rparr>"
  define te2 where "te2 = te1\<lparr>te_shutting := True\<rparr>"
  define te3 where "te3 = te2\<lparr>te_contexts := 1\<rparr>"
  define te4 where "te4 = addRunningTask 0 g 0 te3"
  have r: "te_running te2 = []" by (simp add: te2_def te1_def te_def NewTaskExecutor_def)
  have "reach fresh_executor exec_step (te, {#}, Up)" by (rule reach_init) (auto simp: fresh_executor_def te_def)
  moreover have "exec_step (te, {#}, Up) (te1, {#(g, Entered)#}, Up)"
    by (rule exec_enter) (simp add: enter_execute_def te1_def te_def NewTaskExecutor_def)
  moreover have "exec_step (te1, {#(g, Entered)#}, Up) (te2, {#(g, Entered)#}, Marked)"
    unfolding te2_def by (rule exec_mark) (simp add: te1_def te_def NewTaskExecutor_def)
  moreover have "exec_step (te2, {#(g, Entered)#}, Marked) (te2, {#(g, Entered)#}, Ranging {} {} {})"
    using exec_range [of te2] r by simp
  moreover have "exec_step (te2, {#(g, Entered)#}, Ranging {} {} {}) (te2, {#(g, Entered)#}, Ranged {})"
    by (rule exec_ranged) simp
  moreover have "exec_step (te2, {#(g, Entered)#}, Ranged {}) (te3, {#(g, Prepared 0)#}, Ranged {})"
    by (rule exec_context) (simp add: make_context_def te3_def te2_def te1_def te_def NewTaskExecutor_def)
  moreover have "exec_step (te3, {#(g, Prepared 0)#}, Ranged {}) (te4, {#(g, Listed 0)#}, Ranged {})"
    unfolding te4_def by (rule exec_list)
  moreover have "exec_step (te4, {#(g, Listed 0)#}, Ranged {}) (count_task te4, {#(g, Counted 0)#}, Ranged {})"
    by (rule exec_count)
  ultimately have "reach fresh_executor exec_step (count_task te4, {#(g, Counted 0)#}, Ranged {})"
    by (meson reach_step)
  moreover have "te_shutting te4" "te_waiting te4 = 1" "GetRunningExecutionIds te4 = [g_eid g]" "te_cancelled te4 = {}"
    by (simp_all add: te4_def te3_def te2_def te1_def te_def NewTaskExecutor_def addRunningTask_def put_running_def GetRunningExecutionIds_def)
  ultimately show ?thesis
    by (intro exI [of _ "count_task te4"]) (simp add: count_task_def Shutdown_def GetRunningExecutionIds_def)
qed

text \<open>An execution that arrives twice loses its entry with the first of its two ends: the other one can no longer be
  cancelled, and heartbeats do not name it.\<close>

lemma second_delivery_is_hidden:
  "snd (CancelTask (g_eid g) (end_execute g ctx te)) = end_execute g ctx te"
  by (simp add: CancelTask_def end_execute_def leave_group_def removeRunningTask_def cancel_context_def)

text \<open>A task that arrives during a shutdown is dropped without a word to the scheduler.\<close>

lemma refused_without_report:
  "te_shutting te \<Longrightarrow> Execute N O' start stop g te x = (te, x)"
  by (simp add: Execute_def enter_execute_def)

section \<open>The properties at concrete tasks\<close>

definition demo_outside :: outside where
  "demo_outside =
     \<lparr>o_http_config = (\<lambda>s. Inl ''no json''), o_request = (\<lambda>v u. None), o_headers = (\<lambda>s. None),
      o_send = (\<lambda>v u h b. Inl ''refused''), o_pretty = (\<lambda>s. None), o_shell_config = (\<lambda>s. Inr s),
      o_shell = (\<lambda>s. Inr \<lparr>sh_reads = [(Stdout, ''a'' @ [byte 195]), (Stdout, [byte 169] @ ''b'')], sh_wait = None\<rparr>),
      o_context = Alive\<rparr>"

definition demo_grpc :: grpc_task where
  "demo_grpc = \<lparr>g_task = 5, g_eid = ''exec-5-1'', g_type = ''shell'', g_config = ''echo'', g_timeout = 30,
     g_retry_count = 0, g_retry_interval = 0\<rparr>"

theorem character_between_two_reads_is_lost_witness:
  "streamed ''stdout'' (fst (executeShell demo_outside demo_grpc)) = ''ab''"
proof -
  have a: "code CHR ''a'' < 128" "code CHR ''b'' < 128" by (simp_all add: code_def)
  have "case executeShell demo_outside demo_grpc of (ls, out, err) \<Rightarrow>
      streamed ''stdout'' ls = ''a'' @ ''b'' \<and> sanitizeUTF8 out = ''a'' @ byte 195 # byte 169 # ''b'' \<and> err = None"
    by (rule character_between_two_reads_is_lost [where script = "''echo''"])
      (simp_all add: demo_outside_def demo_grpc_def in_range_def a)
  then show ?thesis by (cases "executeShell demo_outside demo_grpc") simp
qed


definition running_one :: task_executor where
  "running_one = count_task (addRunningTask 0 demo_grpc 0 ((NewTaskExecutor (NewPool 4))\<lparr>te_waiting := 1, te_contexts := 1\<rparr>))"

theorem executor_keeps_its_books_witness:
  "GetRunningTasks running_one = 1 \<and> te_waiting running_one = 1 \<and> distinct (GetRunningExecutionIds running_one)"
proof -
  let ?te = "NewTaskExecutor (NewPool 4)"
  have "reach fresh_executor exec_step (?te, {#}, Up)" by (rule reach_init) (auto simp: fresh_executor_def)
  moreover have "exec_step (?te, {#}, Up) (?te\<lparr>te_waiting := 1\<rparr>, {#(demo_grpc, Entered)#}, Up)"
    by (rule exec_enter) (simp add: enter_execute_def NewTaskExecutor_def)
  moreover have "exec_step (?te\<lparr>te_waiting := 1\<rparr>, {#(demo_grpc, Entered)#}, Up)
      (?te\<lparr>te_waiting := 1, te_contexts := 1\<rparr>, {#(demo_grpc, Prepared 0)#}, Up)"
    by (rule exec_context) (simp add: make_context_def NewTaskExecutor_def)
  moreover have "exec_step (?te\<lparr>te_waiting := 1, te_contexts := 1\<rparr>, {#(demo_grpc, Prepared 0)#}, Up)
      (addRunningTask 0 demo_grpc 0 (?te\<lparr>te_waiting := 1, te_contexts := 1\<rparr>), {#(demo_grpc, Listed 0)#}, Up)"
    by (rule exec_list)
  moreover have "exec_step (addRunningTask 0 demo_grpc 0 (?te\<lparr>te_waiting := 1, te_contexts := 1\<rparr>), {#(demo_grpc, Listed 0)#}, Up)
      (running_one, {#(demo_grpc, Counted 0)#}, Up)"
    unfolding running_one_def by (rule exec_count)
  ultimately have "reach fresh_executor exec_step (running_one, {#(demo_grpc, Counted 0)#}, Up)"
    by (meson reach_step)
  from executor_keeps_its_books [OF this] show ?thesis by simp
qed

end
