(* ===== verification/Task_Requests.thy ===== *)
theory Task_Requests
  imports Task_Steps Executions Access Go_Strings
begin

text \<open>
  The requests on tasks (scheduler/internal/handler/task.go, with \<open>ForwardToLeader\<close> and
  \<open>GetDomainName\<close> of service/scheduler_core.go and handler/task_execution.go): listing, reading, creating,
  changing, deleting and triggering a task, its executions and their logs, and cancelling. A request
  is the record of its decoded parameters, \<open>Inl\<close> when decoding failed. Stored times are
  instants, so \<open>ConvertToLocalTime\<close> is the identity here. No error that reaches \<open>FailFromError\<close> in
  these handlers is one of the values of \<open>errorCodeMap\<close>, so that its code is always 500. Messages
  are in English. The stream of a task's log has a theory of its own.
\<close>

section \<open>Executors that can take a task\<close>

definition isExecutorOnline :: "instant \<Rightarrow> executor \<Rightarrow> bool" where
  "isExecutorOnline now e \<longleftrightarrow> e_status e = ''online'' \<and>
     (case e_heartbeat e of None \<Rightarrow> False | Some t \<Rightarrow> now - t \<le> 30 * second)"

definition hasAvailableExecutors :: "'r env \<Rightarrow> int \<Rightarrow> 'r sched \<Rightarrow> bool" where
  "hasAvailableExecutors V d s =
     (case ListExecutorsByDomain V d s of
        Inl e \<Rightarrow> False
      | Inr es \<Rightarrow> list_ex (\<lambda>e. isExecutorOnline (env_now V) e \<and> e_load e < e_capacity e) es)"

text \<open>Selection waits 45 seconds for a heartbeat, this check 30: it never promises too much.\<close>

lemma online_selectable:
  "isExecutorOnline now e \<Longrightarrow> e_load e < e_capacity e \<Longrightarrow> selectable now e"
  by (auto simp: isExecutorOnline_def selectable_def heartbeat_after_def split: option.splits)

section \<open>Creating\<close>

text \<open>The body of a request; absent fields have their zero values, \<open>tb_given\<close> lists the keys that are
  there, and \<open>tb_config\<close> is the text of a configuration that is not null.\<close>

record task_body =
  tb_name :: string
  tb_type :: string
  tb_config :: "string option"
  tb_cron :: string
  tb_timeout :: int
  tb_retry_max :: int
  tb_retry_delay :: int
  tb_retry_count :: int
  tb_retry_interval :: int
  tb_enabled :: "bool option"
  tb_domain :: int
  tb_webhook :: "int option"
  tb_events :: string
  tb_assigned :: int
  tb_given :: "string list"

definition valid_type :: "string \<Rightarrow> bool" where
  "valid_type ty \<longleftrightarrow> ty \<in> set [''http'', ''shell'']"

definition new_retry_count :: "task_body \<Rightarrow> int" where
  "new_retry_count b =
     (let a = (if tb_retry_count b < 0 then tb_retry_max b else tb_retry_count b);
          c = (if a < 0 then 0 else a)
      in if c > 10 then 10 else c)"

definition new_retry_interval :: "task_body \<Rightarrow> int" where
  "new_retry_interval b =
     (let a = (if tb_retry_interval b < 0 then tb_retry_delay b else tb_retry_interval b);
          c = (if a \<le> 0 \<and> new_retry_count b > 0 then 5 else a)
      in if c > 3600 then 3600 else c)"

definition new_timeout :: "task_body \<Rightarrow> int" where
  "new_timeout b =
     (let a = (if tb_timeout b < 0 then 0 else tb_timeout b) in if a > 86400 then 86400 else a)"

definition new_domain :: "principal \<Rightarrow> task_body \<Rightarrow> int" where
  "new_domain p b =
     (let d = (if tb_domain b \<le> 0 \<and> pr_domain p > 0 then pr_domain p else tb_domain b)
      in if d \<le> 0 then 1 else d)"

definition new_task :: "'r env \<Rightarrow> principal \<Rightarrow> bool \<Rightarrow> task_body \<Rightarrow> task" where
  "new_task V p available b =
     \<lparr>t_id = 0, t_name = TrimSpace (tb_name b), t_type = TrimSpace (tb_type b),
      t_config = TrimSpace (case tb_config b of None \<Rightarrow> [] | Some c \<Rightarrow> c), t_cron = TrimSpace (tb_cron b),
      t_timeout = new_timeout b, t_retry_count = new_retry_count b,
      t_retry_interval = new_retry_interval b, t_enabled = (tb_enabled b = Some True \<and> available),
      t_status = ''pending'', t_domain = new_domain p b, t_webhook = tb_webhook b,
      t_webhook_events = tb_events b, t_assigned = (if tb_assigned b > 0 then tb_assigned b else 0),
      t_created_by = pr_user p, t_updated = env_now V\<rparr>"

definition HandleCreateTask ::
  "'r env \<Rightarrow> task_body result \<Rightarrow> principal \<Rightarrow> 'r sched \<Rightarrow> (task \<times> bool) reply \<times> 'r sched" where
  "HandleCreateTask V q p s =
     (case q of
        Inl e \<Rightarrow> (Bad 400 e, s)
      | Inr b \<Rightarrow>
          (if TrimSpace (tb_name b) = [] then (Bad 400 ''name is required'', s)
           else if TrimSpace (tb_type b) = [] then (Bad 400 ''type is required'', s)
           else if \<not> valid_type (tb_type b) then (Bad 400 ''invalid task type'', s)
           else (let available = hasAvailableExecutors V (new_domain p b) s
                 in case CreateTask V (new_task V p available b) s of
                      (Inl e, s1) \<Rightarrow> (Bad 500 e, s1)
                    | (Inr t, s1) \<Rightarrow> (Good (t, available), s1))))"

section \<open>Changing\<close>

definition at_most :: "int \<Rightarrow> int \<Rightarrow> int" where
  "at_most m n = (if n > m then m else n)"

text \<open>The current field name wins over the old one, and a negative number keeps the value.\<close>

definition merged :: "int \<Rightarrow> int \<Rightarrow> int \<Rightarrow> int \<Rightarrow> int" where
  "merged m new old current =
     (if new \<ge> 0 then at_most m new else if old \<ge> 0 then at_most m old else current)"

definition change_limits :: "task_body \<Rightarrow> task \<Rightarrow> task" where
  "change_limits b t =
     (let n = merged 10 (tb_retry_count b) (tb_retry_max b) (t_retry_count t);
          i = merged 3600 (tb_retry_interval b) (tb_retry_delay b) (t_retry_interval t)
      in t\<lparr>t_timeout := (if tb_timeout b \<ge> 0 then at_most 86400 (tb_timeout b) else t_timeout t),
           t_retry_count := n, t_retry_interval := (if n > 0 \<and> i \<le> 0 then 5 else i)\<rparr>)"

definition change_config :: "task_body \<Rightarrow> task \<Rightarrow> task" where
  "change_config b t =
     t\<lparr>t_name := (if tb_name b \<noteq> [] then tb_name b else t_name t),
       t_type := (if tb_type b \<noteq> [] then tb_type b else t_type t),
       t_config := (case tb_config b of None \<Rightarrow> t_config t | Some c \<Rightarrow> c),
       t_cron := (if tb_cron b \<noteq> [] \<or> tb_config b \<noteq> None then tb_cron b else t_cron t)\<rparr>"

definition change_enabled :: "bool \<Rightarrow> task_body \<Rightarrow> task \<Rightarrow> task" where
  "change_enabled available b t =
     (case tb_enabled b of None \<Rightarrow> t | Some e \<Rightarrow> t\<lparr>t_enabled := (e \<and> available)\<rparr>)"

definition change_links :: "task_body \<Rightarrow> task \<Rightarrow> task" where
  "change_links b t =
     t\<lparr>t_domain := (if tb_domain b > 0 then tb_domain b else t_domain t),
       t_webhook := (if ''webhook_id'' \<in> set (tb_given b) then tb_webhook b else t_webhook t),
       t_webhook_events := (if ''webhook_events'' \<in> set (tb_given b) then tb_events b else t_webhook_events t),
       t_assigned := (if ''assigned_executor_id'' \<in> set (tb_given b) then tb_assigned b else t_assigned t)\<rparr>"

definition HandleUpdateTask ::
  "'r env \<Rightarrow> int option \<Rightarrow> task_body result \<Rightarrow> 'r sched \<Rightarrow> (task \<times> bool) reply \<times> 'r sched" where
  "HandleUpdateTask V i q s =
     (case i of
        None \<Rightarrow> (Bad 400 ''invalid id'', s)
      | Some i \<Rightarrow>
          (if i \<le> 0 then (Bad 400 ''id must be positive'', s)
           else (case GetTaskByID V i s of
                   Inl e \<Rightarrow> (Bad 404 ''task not found'', s)
                 | Inr t \<Rightarrow>
                     (case q of
                        Inl e \<Rightarrow> (Bad 400 e, s)
                      | Inr b \<Rightarrow>
                          (if tb_type b \<noteq> [] \<and> \<not> valid_type (tb_type b) then (Bad 400 ''invalid task type'', s)
                           else (let d = (if tb_domain b > 0 then tb_domain b else t_domain t);
                                     available = (if tb_enabled b = Some True then hasAvailableExecutors V d s else True);
                                     t1 = change_links b (change_enabled available b (change_limits b (change_config b t)))
                                 in case UpdateTask V i t1 s of
                                      (Inl e, s1) \<Rightarrow> (Bad 500 e, s1)
                                    | (Inr _, s1) \<Rightarrow>
                                        (Good (case GetTaskByID V i s1 of Inl e \<Rightarrow> t1 | Inr t2 \<Rightarrow> t2, available), s1)))))))"

section \<open>Reading and deleting\<close>

record list_query =
  lq_page :: int
  lq_size :: int
  lq_search :: string
  lq_type :: string
  lq_creator :: "int option"
  lq_enabled :: string

definition HandleListTasks ::
  "'r env \<Rightarrow> (string \<Rightarrow> string \<Rightarrow> bool) \<Rightarrow> (task list \<Rightarrow> task list) \<Rightarrow> list_query \<Rightarrow> principal \<Rightarrow> 'r sched \<Rightarrow>
   (task list \<times> int) reply" where
  "HandleListTasks V like recent_first q p s =
     (case ListTasksWithFilter V like recent_first
             \<lparr>f_domain = pr_domain p, f_role = (case pr_role p of None \<Rightarrow> [] | Some r \<Rightarrow> r),
              f_page = (if lq_page q < 1 then 1 else lq_page q),
              f_size = (if lq_size q < 1 \<or> lq_size q > 100 then 20 else lq_size q),
              f_created_by = (case lq_creator q of None \<Rightarrow> 0 | Some c \<Rightarrow> c),
              f_name = TrimSpace (lq_search q), f_type = TrimSpace (lq_type q),
              f_enabled = (if lq_enabled q = ''true'' then Some True
                           else if lq_enabled q = ''false'' then Some False else None)\<rparr> s of
        Inl e \<Rightarrow> Bad 500 e
      | Inr r \<Rightarrow> Good r)"

definition with_id :: "int option \<Rightarrow> (int \<Rightarrow> 'a reply \<times> 's) \<Rightarrow> 's \<Rightarrow> 'a reply \<times> 's" where
  "with_id i f s =
     (case i of
        None \<Rightarrow> (Bad 400 ''invalid id'', s)
      | Some i \<Rightarrow> if i \<le> 0 then (Bad 400 ''id must be positive'', s) else f i)"

definition HandleGetTask :: "'r env \<Rightarrow> int option \<Rightarrow> 'r sched \<Rightarrow> task reply \<times> 'r sched" where
  "HandleGetTask V i s =
     with_id i (\<lambda>i. (case GetTaskByID V i s of Inl e \<Rightarrow> Bad 404 ''task not found'' | Inr t \<Rightarrow> Good t, s)) s"

definition HandleDeleteTask :: "'r env \<Rightarrow> int option \<Rightarrow> 'r sched \<Rightarrow> unit reply \<times> 'r sched" where
  "HandleDeleteTask V i s =
     with_id i (\<lambda>i. case DeleteTask V i s of (Inl e, s1) \<Rightarrow> (Bad 500 e, s1) | (Inr _, s1) \<Rightarrow> (Good (), s1)) s"

text \<open>What a response shows of an execution and of a log line; the times that are not set are left out.\<close>

definition time_text :: "instant option \<Rightarrow> instant option" where
  "time_text t = (case t of None \<Rightarrow> None | Some i \<Rightarrow> if i = 0 then None else Some i)"

record execution_view =
  xv_id :: int
  xv_task :: int
  xv_eid :: string
  xv_executor :: int
  xv_status :: string
  xv_start :: "instant option"
  xv_end :: "instant option"
  xv_output :: string
  xv_error :: string
  xv_retry :: int
  xv_created :: instant

definition toTaskExecutionResponse :: "execution \<Rightarrow> execution_view" where
  "toTaskExecutionResponse x =
     \<lparr>xv_id = x_id x, xv_task = x_task x, xv_eid = x_eid x,
      xv_executor = (case x_executor x of None \<Rightarrow> 0 | Some i \<Rightarrow> i), xv_status = x_status x,
      xv_start = time_text (x_start x), xv_end = time_text (x_end x), xv_output = x_output x,
      xv_error = x_error x, xv_retry = x_retry x, xv_created = x_created x\<rparr>"

definition HandleExecutions :: "'r env \<Rightarrow> int option \<Rightarrow> 'r sched \<Rightarrow> execution_view list reply \<times> 'r sched" where
  "HandleExecutions V i s =
     with_id i (\<lambda>i. (case GetTaskExecutions V i s of
                       Inl e \<Rightarrow> Bad 500 e | Inr xs \<Rightarrow> Good (map toTaskExecutionResponse xs), s)) s"

definition HandleExecutionLogs :: "'r env \<Rightarrow> string \<Rightarrow> 'r sched \<Rightarrow> task_log list reply" where
  "HandleExecutionLogs V eid s =
     (if TrimSpace eid = [] then Bad 400 ''executionId required''
      else (case GetTaskLogs V eid s of Inl e \<Rightarrow> Bad 500 e | Inr ls \<Rightarrow> Good ls))"

section \<open>Cancelling and triggering\<close>

definition HandleCancelExecution ::
  "'r env \<Rightarrow> string \<Rightarrow> principal \<Rightarrow> 'r sched \<Rightarrow> unit reply \<times> 'r sched" where
  "HandleCancelExecution V eid p s =
     (if TrimSpace eid = [] then (Bad 400 ''execution_id required'', s)
      else (case CancelExecution V eid (if pr_name p = [] then ''unknown'' else pr_name p) s of
              (Inl e, s1) \<Rightarrow>
                ((if Contains e ''not found'' then Bad 404 ''execution not found''
                  else if Contains e ''not running'' then Bad 400 e else Bad 500 e), s1)
            | (Inr _, s1) \<Rightarrow> (Good (), s1)))"

text \<open>The request to the leader: the context's values are the headers of the request that came in.\<close>

record http_request =
  hr_method :: string
  hr_url :: string
  hr_content :: string
  hr_auth :: string
  hr_forwarded :: bool
  hr_body :: string

definition ForwardToLeader ::
  "string result option \<Rightarrow> (http_request \<Rightarrow> (string \<times> int) result) \<Rightarrow> http_request \<Rightarrow> (string \<times> int) result" where
  "ForwardToLeader resolver send q =
     (case resolver of
        None \<Rightarrow> Inl ''leader address resolver not configured''
      | Some (Inl e) \<Rightarrow> Inl (''failed to resolve leader address: '' @ e)
      | Some (Inr a) \<Rightarrow>
          (if a = [] then Inl ''leader address is empty''
           else (case send (q\<lparr>hr_url := ''http://'' @ a @ hr_url q, hr_forwarded := True\<rparr>) of
                   Inl e \<Rightarrow> Inl (''failed to forward request to leader: '' @ e)
                 | Inr r \<Rightarrow> Inr r)))"

text \<open>\<open>names\<close>: the name of a domain, as the database answers.\<close>

definition GetDomainName :: "(int \<Rightarrow> string option result) \<Rightarrow> int \<Rightarrow> string" where
  "GetDomainName names d = (case names d of Inr (Some n) \<Rightarrow> n | _ \<Rightarrow> ''domain '' @ show_int d)"

datatype trigger_reply = Here "string reply" | Relayed int string

definition trigger_error :: "string \<Rightarrow> string \<Rightarrow> string reply" where
  "trigger_error domain e =
     (if Contains e ''already running'' \<or> Contains e ''already being executed'' then Bad 10001 ''task is running''
      else if Contains e ''no available executor'' then Bad 10007 (domain @ '' has no available executor'')
      else if Contains e ''not online'' then Bad 10005 ''executor is not online''
      else if Contains e ''no capacity'' then Bad 10006 ''executor is full''
      else if Contains e ''dispatch failed'' then Bad 10008 ''dispatch failed''
      else Bad 500 e)"

definition trigger_here ::
  "'r env \<Rightarrow> (int \<Rightarrow> string option result) \<Rightarrow> int \<Rightarrow> principal \<Rightarrow> 'r sched \<Rightarrow> string reply \<times> 'r sched" where
  "trigger_here V names i p s =
     (case GetTaskByID V i s of
        Inl e \<Rightarrow> (Bad 400 ''task not found'', s)
      | Inr t \<Rightarrow>
          (if \<not> is_admin_role (case pr_role p of None \<Rightarrow> [] | Some r \<Rightarrow> r) \<and> t_domain t \<noteq> pr_domain p
           then (Bad 403 ''permission denied'', s)
           else (case TriggerTask V i s of
                   ((eid, None), s1) \<Rightarrow> (Good eid, s1)
                 | ((eid, Some e), s1) \<Rightarrow> (trigger_error (GetDomainName names (t_domain t)) e, s1))))"

definition HandleTrigger ::
  "'r env \<Rightarrow> (int \<Rightarrow> string option result) \<Rightarrow> string result option \<Rightarrow>
   (http_request \<Rightarrow> (string \<times> int) result) \<Rightarrow> http_request \<Rightarrow> int option \<Rightarrow> principal \<Rightarrow> 'r sched \<Rightarrow>
   trigger_reply \<times> 'r sched" where
  "HandleTrigger V names resolver send q i p s =
     (case i of
        None \<Rightarrow> (Here (Bad 400 ''invalid id''), s)
      | Some i \<Rightarrow>
          (if i \<le> 0 then (Here (Bad 400 ''id must be positive''), s)
           else if \<not> s_leader s
           then ((if hr_forwarded q then Here (Bad 503 ''forwarding loop'')
                  else (case ForwardToLeader resolver send q of
                          Inl e \<Rightarrow> Here (Bad 503 (''failed to forward to the leader: '' @ e))
                        | Inr (body, status) \<Rightarrow> Relayed status body)), s)
           else map_prod Here id (trigger_here V names i p s)))"

end
