(* ===== verification/Task_Request_Properties.thy ===== *)
theory Task_Request_Properties
  imports Task_Requests
begin

text \<open>
  What the requests on tasks promise and what they do not: the limits of a task and with them the
  number of retries, who may change a task, and what a partial change leaves behind.
\<close>

section \<open>Only requests change the settings of a task\<close>

definition settings :: "'r sched \<Rightarrow> task list" where
  "settings s = map (\<lambda>t. t\<lparr>t_status := [], t_updated := 0\<rparr>) (s_tasks s)"

lemma settings_cong: "s_tasks s' = s_tasks s \<Longrightarrow> settings s' = settings s"
  by (simp add: settings_def)

lemma settings_fields [simp]:
  "settings (r_del V ks s) = settings s" "settings (snd (r_set V k v d s)) = settings s"
  "settings (snd (r_setnx V k v d s)) = settings s" "settings (s\<lparr>s_redis := r\<rparr>) = settings s"
  "settings (s\<lparr>s_sent := ms\<rparr>) = settings s" "settings (s\<lparr>s_execs := xs\<rparr>) = settings s"
  "settings (s\<lparr>s_retries := rs\<rparr>) = settings s" "settings (s\<lparr>s_cancels := cs\<rparr>) = settings s"
  "settings (SendWebhookNotification V i e st o' er dur s) = settings s"
  "settings (snd (AddTaskLog V e i n lv m s)) = settings s"
  "settings (snd (UpdateExecutionResult V e st o' er g s)) = settings s"
  "settings (snd (UpdateTaskProgress V e p m s)) = settings s"
  "settings (set_executor V e i s) = settings s"
  by (simp_all add: settings_def UpdateTaskProgress_def set_executor_def split: option.splits)

lemma settings_status [simp]: "settings (snd (UpdateTaskStatusByID V i st s)) = settings s"
  by (simp add: settings_def UpdateTaskStatusByID_def Let_def map_upd_where split: option.splits)

lemma settings_failed [simp]:
  "settings (dispatch_failed V t e m s) = settings s" "settings (mark_failed V i e o' er d s) = settings s"
  by (simp_all add: dispatch_failed_def mark_failed_def Let_def)

lemma settings_inserted [simp]: "settings (snd (dispatch_inserted V t e s)) = settings s"
  by (simp add: dispatch_inserted_def Let_def split: sum.splits option.splits)

lemma settings_setnx: "r_setnx V k v d s = (y, s1) \<Longrightarrow> settings s1 = settings s"
  using settings_fields(3) by (metis snd_conv)

lemma settings_dispatch [simp]: "settings (snd (dispatchTaskExecution V t e n s)) = settings s"
proof -
  obtain y s1 where "r_setnx V (lock_key e) (show_int (env_now V)) (dispatch_lock_ttl t) s = (y, s1)"
    by fastforce
  then show ?thesis using settings_setnx [of V]
    by (auto simp: dispatchTaskExecution_def split: sum.splits bool.splits option.splits)
qed

lemma settings_retryTask [simp]: "settings (snd (RetryTask V i n s)) = settings s"
  by (simp add: RetryTask_def split: sum.splits)

lemma settings_failure [simp]: "settings (snd (HandleTaskFailure V i e o' er d s)) = settings s"
proof -
  obtain y s1 where "r_setnx V (retry_lock_key i) ''locked'' (30 * minute) s = (y, s1)" by fastforce
  then show ?thesis using settings_setnx [of V]
    by (auto simp: HandleTaskFailure_def Let_def split: sum.splits bool.splits)
qed

lemma settings_run_retry [simp]: "settings (run_retry V r s) = settings s"
proof -
  obtain y z s1 where y: "RetryTask V (t_id (r_task r)) (r_times r) (s\<lparr>s_retries := remove1 r (s_retries s)\<rparr>) = ((y, z), s1)"
    by (metis surj_pair)
  then have "settings s1 = settings s" using settings_retryTask settings_fields(7) by (metis snd_conv)
  then show ?thesis using y by (simp add: run_retry_def Let_def split: option.splits)
qed

lemma settings_trigger [simp]: "settings (snd (TriggerTask V i s)) = settings s"
proof -
  have "settings (snd (trigger_dispatch V i u)) = settings u" for u
    by (simp add: trigger_dispatch_def split: sum.splits)
  moreover have "settings (clean_stale V i e s) = settings s" for e
    by (simp add: clean_stale_def Let_def)
  moreover have "settings (skip_trigger V i e s) = settings s" for e
    by (simp add: skip_trigger_def Let_def split: option.splits)
  ultimately show ?thesis by (simp add: TriggerTask_def split: option.splits)
qed

lemma settings_cancel [simp]: "settings (snd (CancelExecution V e by s)) = settings s"
proof -
  have r: "settings s2 = settings s1" if "UpdateExecutionResult V e st o' er g s1 = (x, s2)" for st o' er g s1 x s2
    using that settings_fields(11) by (metis snd_conv)
  show ?thesis
    by (auto simp: CancelExecution_def Let_def dest!: r split: sum.splits option.splits prod.splits)
qed

section \<open>Limits\<close>

definition within_limits :: "task \<Rightarrow> bool" where
  "within_limits t \<longleftrightarrow> 0 \<le> t_retry_count t \<and> t_retry_count t \<le> 10 \<and> 0 \<le> t_timeout t \<and> t_timeout t \<le> 86400 \<and>
     t_retry_interval t \<le> 3600 \<and> (t_retry_count t > 0 \<longrightarrow> t_retry_interval t > 0)"

definition limited :: "'r sched \<Rightarrow> bool" where
  "limited s \<longleftrightarrow> (\<forall>t\<in>set (s_tasks s). within_limits t)"

lemma limited_settings: "limited s \<longleftrightarrow> (\<forall>t\<in>set (settings s). within_limits t)"
  by (simp add: limited_def settings_def within_limits_def)

lemma limited_cong: "settings s' = settings s \<Longrightarrow> limited s' = limited s"
  by (simp add: limited_settings)

lemma new_task_limits: "within_limits (new_task V p a b)"
  by (simp add: within_limits_def new_task_def new_retry_count_def new_retry_interval_def new_timeout_def Let_def)

lemma merged_bounds: "0 \<le> c \<Longrightarrow> 0 \<le> m \<Longrightarrow> 0 \<le> merged m a b c"
  "c \<le> m \<Longrightarrow> merged m a b c \<le> m"
  by (auto simp: merged_def at_most_def)

lemma change_limits_within: "within_limits t \<Longrightarrow> within_limits (change_limits b t)"
  by (auto simp: within_limits_def change_limits_def Let_def merged_bounds at_most_def)

lemma change_rest_within [simp]:
  "within_limits (change_config b t) = within_limits t" "within_limits (change_links b t) = within_limits t"
  "within_limits (change_enabled a b t) = within_limits t"
  by (simp_all add: within_limits_def change_config_def change_links_def change_enabled_def split: option.splits)

lemma limited_ask [simp]:
  "limited (ask_reload V s) = limited s" "limited (RegisterTask i c s) = limited s"
  "limited (UnregisterTask i s) = limited s"
  by (simp_all add: limited_def ask_reload_def RegisterTask_def UnregisterTask_def)

lemma within_id [simp]: "within_limits (t\<lparr>t_id := k\<rparr>) = within_limits t"
  by (simp add: within_limits_def)

lemma limited_create: "limited s \<Longrightarrow> within_limits t \<Longrightarrow> limited (snd (CreateTask V t s))"
proof -
  assume "limited s" "within_limits t"
  then have "limited (s\<lparr>s_tasks := s_tasks s @ [t\<lparr>t_id := k\<rparr>]\<rparr>)" for k by (auto simp: limited_def)
  with \<open>limited s\<close> show ?thesis by (simp add: CreateTask_def Let_def split: option.splits sum.splits)
qed

lemma limited_upd:
  "limited s \<Longrightarrow> (\<And>x. within_limits (f x)) \<Longrightarrow> limited (s\<lparr>s_tasks := upd_where p f (s_tasks s)\<rparr>)"
  by (auto simp: limited_def set_upd_where)

lemma limited_update:
  assumes "limited s" "within_limits t"
  shows "limited (snd (UpdateTask V i t s))"
proof -
  let ?f = "\<lambda>x. x\<lparr>t_name := t_name t, t_type := t_type t, t_config := t_config t, t_cron := t_cron t,
    t_timeout := t_timeout t, t_retry_count := t_retry_count t, t_retry_interval := t_retry_interval t,
    t_enabled := t_enabled t, t_webhook := t_webhook t, t_webhook_events := t_webhook_events t,
    t_assigned := (if t_assigned t > 0 then t_assigned t else 0), t_updated := env_now V\<rparr>"
  have "within_limits (?f x)" for x using assms(2) by (simp add: within_limits_def)
  then have "limited (s\<lparr>s_tasks := upd_where (\<lambda>x. t_id x = i) ?f (s_tasks s)\<rparr>)"
    by (rule limited_upd [OF assms(1)])
  then show ?thesis
    using assms(1)
    by (cases "t_assigned t > 0") (simp_all add: UpdateTask_def Let_def split: option.splits sum.splits)
qed

lemma limited_delete: "limited s \<Longrightarrow> limited (snd (DeleteTask V i s))"
proof -
  assume "limited s"
  then have "limited (s\<lparr>s_tasks := del_where p (s_tasks s)\<rparr>)" for p by (auto simp: limited_def)
  with \<open>limited s\<close> show ?thesis by (simp add: DeleteTask_def Let_def split: option.splits)
qed

section \<open>The requests as steps\<close>

inductive request_step :: "'r sched \<Rightarrow> 'r sched \<Rightarrow> bool" where
  create: "request_step s (snd (HandleCreateTask V q p s))"
| change: "request_step s (snd (HandleUpdateTask V i q s))"
| delete: "request_step s (snd (HandleDeleteTask V i s))"
| trigger: "request_step s (snd (HandleTrigger V names resolver send hq i p s))"
| cancel: "request_step s (snd (HandleCancelExecution V eid p s))"
| cron: "request_step s (snd (TriggerTask V tid s))"
| failure: "request_step s (snd (HandleTaskFailure V tid eid out er d s))"
| retry: "r \<in> set (s_retries s) \<Longrightarrow> request_step s (run_retry V r s)"
| result: "request_step s (snd (UpdateExecutionResult V eid st out er g s))"
| progress: "request_step s (snd (UpdateTaskProgress V eid n msg s))"
| log: "request_step s (snd (AddTaskLog V eid tid node lv msg s))"
| lead: "request_step s (s\<lparr>s_leader := b\<rparr>)"

definition good_tasks :: "'r sched \<Rightarrow> bool" where
  "good_tasks s \<longleftrightarrow> limited s \<and> bounded 10 s"

lemma within_10: "within_limits t \<Longrightarrow> t_retry_count t \<le> 10"
  by (simp add: within_limits_def)

lemma good_create: "good_tasks s \<Longrightarrow> good_tasks (snd (HandleCreateTask V q p s))"
proof -
  assume s: "good_tasks s"
  have "good_tasks s1" if "CreateTask V (new_task V p a b) s = (r, s1)" for a b r s1
    using s limited_create [OF _ new_task_limits, of s V V p a b]
      bounded_task_ops(1) [of 10 s, OF _ within_10 [OF new_task_limits], of V V p a b] that
    by (simp add: good_tasks_def)
  with s show ?thesis
    by (auto simp: HandleCreateTask_def Let_def split: sum.splits prod.splits)
qed

lemma good_update: "good_tasks s \<Longrightarrow> good_tasks (snd (HandleUpdateTask V i q s))"
proof -
  assume s: "good_tasks s"
  have "good_tasks s1"
    if g: "GetTaskByID V k s = Inr t"
      and u: "UpdateTask V k (change_links b (change_enabled a b (change_limits b (change_config b t)))) s = (r, s1)"
    for k t a b r s1
  proof -
    let ?t = "change_links b (change_enabled a b (change_limits b (change_config b t)))"
    have "within_limits t" using s GetTaskByID_in [OF g] by (simp add: good_tasks_def limited_def)
    then have "within_limits ?t" by (simp add: change_limits_within)
    then show ?thesis
      using s u limited_update [of s ?t V k] bounded_task_ops(2) [of 10 s ?t V k] within_10
      by (simp add: good_tasks_def)
  qed
  with s show ?thesis
    by (auto simp: HandleUpdateTask_def Let_def split: sum.splits prod.splits option.splits)
qed

lemma delete_is_service:
  "snd (HandleDeleteTask V i s) = s \<or> (\<exists>k. snd (HandleDeleteTask V i s) = snd (DeleteTask V k s))"
  by (cases i) (auto simp: HandleDeleteTask_def with_id_def split: sum.splits prod.splits, (metis snd_conv)+)

lemma good_delete: "good_tasks s \<Longrightarrow> good_tasks (snd (HandleDeleteTask V i s))"
  using delete_is_service [of V i s] limited_delete [of s V] bounded_task_ops(3) [of 10 s V]
  unfolding good_tasks_def by metis

lemma good_service: "good_tasks s \<Longrightarrow> settings s' = settings s \<Longrightarrow> service_step 10 s s' \<Longrightarrow> good_tasks s'"
  using service_step_bounded [of 10 s s'] limited_cong [of s' s] by (simp add: good_tasks_def)

lemma trigger_here_is_service:
  "snd (trigger_here V names i p s) = s \<or> snd (trigger_here V names i p s) = snd (TriggerTask V i s)"
  by (cases "TriggerTask V i s") (auto simp: trigger_here_def split: sum.splits option.splits)

lemma trigger_is_service:
  "snd (HandleTrigger V names resolver send hq i p s) = s \<or>
   (\<exists>k. snd (HandleTrigger V names resolver send hq i p s) = snd (TriggerTask V k s))"
proof (cases i)
  case (Some k)
  then show ?thesis
    using trigger_here_is_service [of V names k p s] by (cases "s_leader s") (auto simp: HandleTrigger_def)
qed (simp add: HandleTrigger_def)

lemma cancel_is_service:
  "snd (HandleCancelExecution V eid p s) = s \<or>
   (\<exists>b. snd (HandleCancelExecution V eid p s) = snd (CancelExecution V eid b s))"
  by (auto simp: HandleCancelExecution_def split: sum.splits prod.splits) (metis snd_conv)+

lemma request_step_good: "request_step s s' \<Longrightarrow> good_tasks s \<Longrightarrow> good_tasks s'"
proof (induction rule: request_step.induct)
  case (trigger s V names resolver send hq i p)
  then show ?case
    using trigger_is_service [of V names resolver send hq i p s] good_service service_step.trigger
      settings_trigger by metis
next
  case (cancel s V eid p)
  then show ?case
    using cancel_is_service [of V eid p s] good_service service_step.cancel settings_cancel by metis
next
  case (lead s b)
  then show ?case by (simp add: good_tasks_def limited_def bounded_def nums_def)
qed (auto intro: good_create good_update good_delete good_service service_step.intros)

definition no_tasks :: "'r sched \<Rightarrow> bool" where
  "no_tasks s \<longleftrightarrow> s_tasks s = [] \<and> s_execs s = [] \<and> s_retries s = []"

lemma request_invariant: "transition_invariant no_tasks request_step good_tasks"
proof
  show "good_tasks s" if "no_tasks s" for s :: "'r sched"
    using that by (simp add: good_tasks_def no_tasks_def limited_def bounded_iff)
qed (rule request_step_good)

lemmas reach_good = transition_invariant.reach_inv [OF request_invariant]

text \<open>C3: Whatever is asked for, no request stores a task outside the limits: at most 10 retries, a
  timeout between 0 and 86400 seconds, at most an hour between two retries, and never no pause
  before one. Nothing else the service does touches these numbers, so that in every state that is reached from an
  empty one by requests, dispatches, failures, retries, results and changes of leadership, no execution is
  recorded as a later retry than the 10th, and none is pending.\<close>

theorem requests_keep_limits:
  assumes "reach no_tasks request_step s"
  shows "(\<forall>t\<in>set (s_tasks s). within_limits t) \<and> (\<forall>x\<in>set (s_execs s). x_retry x \<le> 10) \<and>
    (\<forall>r\<in>set (s_retries s). r_times r \<le> 10)"
  using reach_good [OF assms] by (simp add: good_tasks_def limited_def bounded_iff)

definition wild_body :: task_body where
  "wild_body =
     \<lparr>tb_name = '' build '', tb_type = ''shell'', tb_config = Some ''{}'', tb_cron = [], tb_timeout = 100000,
      tb_retry_max = 0, tb_retry_delay = 0, tb_retry_count = 50, tb_retry_interval = -3,
      tb_enabled = Some True, tb_domain = 0, tb_webhook = None, tb_events = [], tb_assigned = 0,
      tb_given = []\<rparr>"

definition operator :: principal where
  "operator = \<lparr>pr_user = 8, pr_name = ''op'', pr_real = [], pr_domain = 3, pr_api = False, pr_role = Some ''user''\<rparr>"

lemma requests_keep_limits_witness:
  "let s = snd (HandleCreateTask demo_env (Inr wild_body) operator (demo_sched\<lparr>s_tasks := []\<rparr>))
   in list_all within_limits (s_tasks s) \<and>
      map (\<lambda>t. (t_name t, t_retry_count t, t_retry_interval t, t_timeout t)) (s_tasks s) = [(''build'', 10, 5, 86400)]"
proof -
  let ?empty = "demo_sched\<lparr>s_tasks := []\<rparr>"
  let ?s = "snd (HandleCreateTask demo_env (Inr wild_body) operator ?empty)"
  have "no_tasks ?empty" by (simp add: no_tasks_def demo_sched_def)
  moreover have "request_step ?empty ?s" by (rule request_step.create)
  ultimately have "reach no_tasks request_step ?s" by (rule reach_one)
  then have "list_all within_limits (s_tasks ?s)"
    using requests_keep_limits [of ?s] by (simp add: list_all_iff)
  moreover have "map (\<lambda>t. (t_name t, t_retry_count t, t_retry_interval t, t_timeout t)) (s_tasks ?s) = [(''build'', 10, 5, 86400)]"
    by code_simp
  ultimately show ?thesis by (simp add: Let_def)
qed

section \<open>Switching a task on or off\<close>

text \<open>The body that the task list of the web interface sends: \<open>is_enabled\<close> and nothing else.\<close>

definition only_enabled :: "bool \<Rightarrow> task_body" where
  "only_enabled b =
     \<lparr>tb_name = [], tb_type = [], tb_config = None, tb_cron = [], tb_timeout = 0, tb_retry_max = 0,
      tb_retry_delay = 0, tb_retry_count = 0, tb_retry_interval = 0, tb_enabled = Some b, tb_domain = 0,
      tb_webhook = None, tb_events = [], tb_assigned = 0, tb_given = [''is_enabled'']\<rparr>"

lemma first_where_rewrite:
  "first_where p xs = Some x \<Longrightarrow> (\<And>y. p y \<Longrightarrow> p (f y)) \<Longrightarrow> first_where p (upd_where p f xs) = Some (f x)"
  by (induction xs) (auto split: if_splits)

lemma ask_fields [simp]:
  "s_tasks (ask_reload V s) = s_tasks s" "s_tasks (RegisterTask i c s) = s_tasks s"
  "s_tasks (UnregisterTask i s) = s_tasks s" "s_retries (ask_reload V s) = s_retries s"
  "s_retries (RegisterTask i c s) = s_retries s" "s_retries (UnregisterTask i s) = s_retries s"
  by (simp_all add: ask_reload_def RegisterTask_def UnregisterTask_def)

definition rewritten :: "'r env \<Rightarrow> task \<Rightarrow> task \<Rightarrow> task" where
  "rewritten V new t = t\<lparr>t_name := t_name new, t_type := t_type new, t_config := t_config new,
     t_cron := t_cron new, t_timeout := t_timeout new, t_retry_count := t_retry_count new,
     t_retry_interval := t_retry_interval new, t_enabled := t_enabled new, t_webhook := t_webhook new,
     t_webhook_events := t_webhook_events new,
     t_assigned := (if t_assigned new > 0 then t_assigned new else 0), t_updated := env_now V\<rparr>"

lemma rewritten_fields [simp]:
  "t_id (rewritten V new t) = t_id t" "t_config (rewritten V new t) = t_config new"
  "t_cron (rewritten V new t) = t_cron new" "t_timeout (rewritten V new t) = t_timeout new"
  "t_retry_count (rewritten V new t) = t_retry_count new" "t_webhook (rewritten V new t) = t_webhook new"
  "t_retry_interval (rewritten V new t) = t_retry_interval new" "t_domain (rewritten V new t) = t_domain t"
  by (simp_all add: rewritten_def)

lemma UpdateTask_first:
  assumes "\<forall>st. env_db V st = None" "first_where (\<lambda>t. t_id t = i) (s_tasks s) = Some t"
  shows "fst (UpdateTask V i new s) = Inr () \<and> s_retries (snd (UpdateTask V i new s)) = s_retries s \<and>
    first_where (\<lambda>t. t_id t = i) (s_tasks (snd (UpdateTask V i new s))) = Some (rewritten V new t)"
proof -
  let ?s = "s\<lparr>s_tasks := upd_where (\<lambda>t. t_id t = i) (rewritten V new) (s_tasks s)\<rparr>"
  have f: "first_where (\<lambda>t. t_id t = i) (s_tasks ?s) = Some (rewritten V new t)"
    using first_where_rewrite [OF assms(2), of "rewritten V new"] by simp
  then have g: "GetTaskByID V i ?s = Inr (rewritten V new t)" using assms(1) get_task by blast
  have "UpdateTask V i new s =
     (case env_db V S_update_task of
        Some e \<Rightarrow> (Inl e, s)
      | None \<Rightarrow>
          (case GetTaskByID V i ?s of
             Inl e \<Rightarrow> (Inl e, ?s)
           | Inr t1 \<Rightarrow>
                  (Inr (),
                   if env_cron V \<and> s_leader ?s
                   then (if t_enabled t1 \<and> t_cron t1 \<noteq> [] then RegisterTask i (t_cron t1) ?s else UnregisterTask i ?s)
                   else if env_cron V \<and> \<not> s_leader ?s then ask_reload V ?s else ?s)))"
    unfolding UpdateTask_def Let_def rewritten_def by (rule refl)
  then show ?thesis using f g assms(1) by simp
qed

text \<open>C4: Switching a task on or off in the task list, which sends \<open>is_enabled\<close> alone, also sets its timeout,
  its number of retries and its retry interval to zero: an absent number reads as 0, which the handler takes for
  a new value. Configuration, cron expression and webhook stay. A failure that is handled afterwards
  is final, however many retries the task had.\<close>

theorem switching_drops_retries:
  fixes V :: "'r env" and b :: bool
  assumes "\<forall>st. env_db V st = None" "\<forall>st. env_db W st = None" "i > 0"
    and "first_where (\<lambda>t. t_id t = i) (s_tasks s) = Some t"
  defines "s1 \<equiv> snd (HandleUpdateTask V (Some i) (Inr (only_enabled b)) s)"
  shows "(\<exists>t1. first_where (\<lambda>t. t_id t = i) (s_tasks s1) = Some t1 \<and> t_timeout t1 = 0 \<and> t_retry_count t1 = 0 \<and>
      t_retry_interval t1 = 0 \<and> t_config t1 = t_config t \<and> t_cron t1 = t_cron t \<and> t_webhook t1 = t_webhook t) \<and>
    s_retries (snd (HandleTaskFailure W i eid out er d s1)) = s_retries s"
proof -
  let ?a = "if tb_enabled (only_enabled b) = Some True then hasAvailableExecutors V (t_domain t) s else True"
  let ?t = "change_links (only_enabled b) (change_enabled ?a (only_enabled b)
    (change_limits (only_enabled b) (change_config (only_enabled b) t)))"
  have t: "t_timeout ?t = 0" "t_retry_count ?t = 0" "t_retry_interval ?t = 0" "t_config ?t = t_config t"
    "t_cron ?t = t_cron t" "t_webhook ?t = t_webhook t"
    by (simp_all add: only_enabled_def change_links_def change_enabled_def change_limits_def change_config_def
        merged_def at_most_def)
  have "GetTaskByID V i s = Inr t" using assms(1,4) get_task by blast
  then have s1: "s1 = snd (UpdateTask V i ?t s)"
    using assms(3) UpdateTask_first [OF assms(1,4), of ?t]
    by (auto simp: s1_def HandleUpdateTask_def only_enabled_def Let_def split: prod.splits sum.splits)
  obtain u where u: "first_where (\<lambda>t. t_id t = i) (s_tasks s1) = Some u" "t_timeout u = 0" "t_retry_count u = 0"
      "t_retry_interval u = 0" "t_config u = t_config t" "t_cron u = t_cron t" "t_webhook u = t_webhook t"
    using UpdateTask_first [OF assms(1,4), of ?t] t unfolding s1 by auto
  have "GetTaskByID W i s1 = Inr u" using assms(2) u(1) get_task by blast
  then have "s_retries (snd (HandleTaskFailure W i eid out er d s1)) = s_retries s1"
    using u(3) by (simp add: HandleTaskFailure_def mark_failed_def)
  then show ?thesis using u UpdateTask_first [OF assms(1,4), of ?t] unfolding s1 by auto
qed

lemma switching_drops_retries_witness:
  "let s1 = snd (HandleUpdateTask demo_env (Some 5) (Inr (only_enabled True)) demo_sched)
   in map (\<lambda>t. (t_timeout t, t_retry_count t)) (s_tasks demo_sched) = [(30, 2)] \<and>
      map (\<lambda>t. (t_timeout t, t_retry_count t)) (s_tasks s1) = [(0, 0)] \<and>
      s_retries (snd (HandleTaskFailure demo_env 5 ''x'' [] ''boom'' 0 s1)) = []"
proof -
  let ?s1 = "snd (HandleUpdateTask demo_env (Some 5) (Inr (only_enabled True)) demo_sched)"
  have t: "first_where (\<lambda>t. t_id t = 5) (s_tasks demo_sched) = Some demo_task" by (simp add: demo_defs)
  note facts = switching_drops_retries [of demo_env demo_env 5 demo_sched demo_task True, OF _ _ _ t]
  have "s_retries (snd (HandleTaskFailure demo_env 5 ''x'' [] ''boom'' 0 ?s1)) = []"
    using facts by (simp add: demo_sched_def)
  moreover have "map (\<lambda>t. (t_timeout t, t_retry_count t)) (s_tasks ?s1) = [(0, 0)]"
    by code_simp
  ultimately show ?thesis by (simp add: Let_def demo_defs)
qed

section \<open>Tasks of other domains\<close>

text \<open>The routes of a task: the permission is looked up in the domain of the caller, not in that of the task.\<close>

definition task_route ::
  "db_verdict \<Rightarrow> rbac \<Rightarrow> string \<Rightarrow> principal \<Rightarrow> ('s \<Rightarrow> 'a reply \<times> 's) \<Rightarrow> 's \<Rightarrow> 'a reply \<times> 's" where
  "task_route E db action p handler s =
     (case RequirePermission E db ''task'' action p of
        Some (c, m) \<Rightarrow> (Abort c m, s)
      | None \<Rightarrow> handler s)"

lemma DeleteTask_effect:
  "\<forall>st. env_db V st = None \<Longrightarrow> fst (DeleteTask V i s) = Inr () \<and>
   s_tasks (snd (DeleteTask V i s)) = del_where (\<lambda>t. t_id t = i) (s_tasks s)"
  by (simp add: DeleteTask_def Let_def)

lemma UpdateTask_ids: "map t_id (s_tasks (snd (UpdateTask V i t s))) = map t_id (s_tasks s)"
  by (simp add: UpdateTask_def Let_def map_upd_where split: option.splits sum.splits)

text \<open>C5: The handlers check the domain of a task only when it is triggered. Someone without an administrator's
  role, in another domain than the task, is refused the trigger with code 403 and nothing changes; but with the permissions to
  update and delete tasks in his own domain he can change the command that the foreign task runs, and delete it.\<close>

theorem foreign_task_can_be_changed:
  fixes V :: "'r env"
  assumes "\<forall>st. env_db V st = None" "i > 0" "s_leader s"
    and "first_where (\<lambda>t. t_id t = i) (s_tasks s) = Some t" "t_domain t \<noteq> pr_domain p"
    and "pr_role p = Some r" "\<not> is_admin_role r"
    and "RequirePermission E db ''task'' ''update'' p = None" "RequirePermission E db ''task'' ''delete'' p = None"
    and "tb_type body = []" "tb_config body = Some cmd"
  shows "HandleTrigger V names resolver send q (Some i) p s = (Here (Bad 403 ''permission denied''), s) \<and>
    (\<exists>t1. first_where (\<lambda>t. t_id t = i)
        (s_tasks (snd (task_route E db ''update'' p (HandleUpdateTask V (Some i) (Inr body)) s))) = Some t1 \<and>
      t_config t1 = cmd \<and> t_domain t1 = t_domain t) \<and>
    fst (task_route E db ''delete'' p (HandleDeleteTask V (Some i)) s) = Good () \<and>
    (\<forall>u\<in>set (s_tasks (snd (task_route E db ''delete'' p (HandleDeleteTask V (Some i)) s))). t_id u \<noteq> i)"
proof -
  have g: "GetTaskByID V i s = Inr t" using assms(1,4) get_task by blast
  let ?a = "if tb_enabled body = Some True
            then hasAvailableExecutors V (if tb_domain body > 0 then tb_domain body else t_domain t) s else True"
  let ?t = "change_links body (change_enabled ?a body (change_limits body (change_config body t)))"
  have "t_config ?t = cmd"
    using assms(11) by (simp add: change_links_def change_enabled_def change_limits_def change_config_def Let_def
        split: option.splits)
  moreover have "snd (HandleUpdateTask V (Some i) (Inr body) s) = snd (UpdateTask V i ?t s)"
    using assms(2,10) g by (auto simp: HandleUpdateTask_def Let_def split: prod.splits sum.splits)
  ultimately have update: "\<exists>t1. first_where (\<lambda>t. t_id t = i) (s_tasks (snd (HandleUpdateTask V (Some i) (Inr body) s))) = Some t1 \<and>
      t_config t1 = cmd \<and> t_domain t1 = t_domain t"
    using UpdateTask_first [OF assms(1,4), of ?t] by auto
  have trigger: "HandleTrigger V names resolver send q (Some i) p s = (Here (Bad 403 ''permission denied''), s)"
    using assms(2,3,5,6,7) g by (simp add: HandleTrigger_def trigger_here_def)
  obtain s2 where "DeleteTask V i s = (Inr (), s2)" "s_tasks s2 = del_where (\<lambda>t. t_id t = i) (s_tasks s)"
    using DeleteTask_effect [OF assms(1), of i s] by (cases "DeleteTask V i s") auto
  then have delete: "HandleDeleteTask V (Some i) s = (Good (), s2)" "\<forall>u\<in>set (s_tasks s2). t_id u \<noteq> i"
    using assms(2) by (simp_all add: HandleDeleteTask_def with_id_def)
  show ?thesis using update trigger delete assms(8,9) by (simp add: task_route_def)
qed

lemma foreign_task_can_be_changed_witness:
  "\<exists>db. HandleTrigger demo_env (\<lambda>d. Inr None) None (\<lambda>q. Inl []) \<lparr>hr_method = [], hr_url = [], hr_content = [],
        hr_auth = [], hr_forwarded = False, hr_body = []\<rparr> (Some 5) operator demo_sched
      = (Here (Bad 403 ''permission denied''), demo_sched) \<and>
    fst (task_route (\<lambda>q. None) db ''delete'' operator (HandleDeleteTask demo_env (Some 5)) demo_sched) = Good ()"
proof -
  let ?db = "demo_rbac\<lparr>permissions := [\<lparr>p_id = 10, p_resource = ''task'', p_action = ''update'', p_desc = []\<rparr>,
      \<lparr>p_id = 11, p_resource = ''task'', p_action = ''delete'', p_desc = []\<rparr>],
    role_permissions := [(1, 10), (1, 11)]\<rparr>"
  have t: "first_where (\<lambda>t. t_id t = 5) (s_tasks demo_sched) = Some demo_task" by (simp add: demo_defs)
  have p: "RequirePermission (\<lambda>q. None) ?db ''task'' ''update'' operator = None"
    "RequirePermission (\<lambda>q. None) ?db ''task'' ''delete'' operator = None"
    by (simp_all add: RequirePermission_def verdict_of_def HasPermission_def IsSystemAdmin_def collectRoleIDs_def
        checkRolePermission_def count_where_def demo_rbac_def operator_def)
  have o: "s_leader demo_sched" "t_domain demo_task \<noteq> pr_domain operator" "pr_role operator = Some ''user''"
    "\<not> is_admin_role ''user''"
    by (simp_all add: demo_defs operator_def is_admin_role_def)
  note facts = foreign_task_can_be_changed [of demo_env 5, OF _ _ o(1) t o(2-4) p, of "wild_body\<lparr>tb_type := []\<rparr>" "''{}''"]
  show ?thesis
    by (intro exI [of _ ?db] conjI) (use facts in \<open>simp_all add: wild_body_def\<close>)
qed

end
