(* ===== verification/Log_Stream.thy ===== *)
theory Log_Stream
  imports Task_Requests "HOL-Library.Char_ord" "HOL-Library.List_Lexorder" "HOL-Library.Product_Lexorder"
begin

unbundle bit_operations_syntax

text \<open>
  The log of an execution as the web interface sees it (scheduler/internal/handler/task.go,
  \<open>StreamLogs\<close> and its helpers) and the requests of handler/log.go. Once a second the stream asks for the
  lines and for the execution; a line comes with the number that the database gave it. The rows are
  ordered by the text of their time, \<open>RFC3339Nano\<close>: the key of an instant is its second and the text of
  the rest with the zone. A list of polls ends when the client goes away.
\<close>

section \<open>Helpers\<close>

definition fnvHash :: "string \<Rightarrow> 64 word" where
  "fnvHash s = foldl (\<lambda>h c. (h XOR of_nat (code c)) * 1099511628211) 14695981039346656037 s"

definition ReplaceAll :: "char \<Rightarrow> string \<Rightarrow> string \<Rightarrow> string" where
  "ReplaceAll old new s = concat (map (\<lambda>c. if c = old then new else [c]) s)"

definition backslash :: char where "backslash = CHR 0x5C"
definition quote :: char where "quote = CHR 0x22"

definition escapeJSON :: "string \<Rightarrow> string" where
  "escapeJSON s =
     ReplaceAll (CHR 9) [backslash, CHR ''t'']
       (ReplaceAll (CHR 13) [backslash, CHR ''r'']
          (ReplaceAll (CHR 10) [backslash, CHR ''n'']
             (ReplaceAll quote [backslash, quote] (ReplaceAll backslash [backslash, backslash] s))))"

section \<open>The order of the rows\<close>

definition nano_digits :: "nat \<Rightarrow> string" where
  "nano_digits n = map (\<lambda>k. char_of (48 + n div 10 ^ (8 - k) mod 10)) [0..<9]"

definition trim_zeros :: "string \<Rightarrow> string" where
  "trim_zeros s = rev (dropWhile (\<lambda>c. c = CHR ''0'') (rev s))"

definition clock_text :: "string \<Rightarrow> nat \<Rightarrow> string" where
  "clock_text zone n = (if n = 0 then [] else CHR ''.'' # trim_zeros (nano_digits n)) @ zone"

definition time_key :: "string \<Rightarrow> instant \<Rightarrow> int \<times> string" where
  "time_key zone t = (t div second, clock_text zone (nat (t mod second)))"

type_synonym row = "int \<times> task_log"

definition log_rows :: "string \<Rightarrow> row list \<Rightarrow> row list" where
  "log_rows zone rows = sort_key (\<lambda>r. time_key zone (l_time (snd r))) rows"

section \<open>The stream\<close>

record stream =
  st_last :: int
  st_output :: "64 word"
  st_error :: "64 word"

datatype event =
    Line int task_log
  | Execution_Update string string string "instant option" "instant option"
  | Done string
  | Beat

definition new_stream :: stream where
  "new_stream = \<lparr>st_last = 0, st_output = 0, st_error = 0\<rparr>"

text \<open>The data of a line; \<open>stamp\<close> prints its time.\<close>

definition line_json :: "(instant \<Rightarrow> string) \<Rightarrow> int \<Rightarrow> task_log \<Rightarrow> string" where
  "line_json stamp i l =
     (let field = (\<lambda>name v. [quote] @ name @ [quote, CHR '':'', quote] @ v @ [quote])
      in ''{'' @ [quote] @ ''id'' @ [quote, CHR '':''] @ show_int i @ '','' @ field ''execution_id'' (l_eid l) @ '','' @
         [quote] @ ''task_id'' @ [quote, CHR '':''] @ show_int (l_task l) @ '','' @ field ''node_id'' (l_node l) @ '','' @
         field ''log_level'' (l_level l) @ '','' @ field ''message'' (escapeJSON (l_message l)) @ '','' @
         field ''log_time'' (stamp (l_time l)) @ ''}'')"

fun send_lines :: "int \<Rightarrow> row list \<Rightarrow> row list \<times> int" where
  "send_lines seen [] = ([], seen)"
| "send_lines seen ((i, l) # rs) =
     (if i > seen then (case send_lines i rs of (sent, m) \<Rightarrow> ((i, l) # sent, m)) else send_lines seen rs)"

definition poll_lines :: "row list result \<Rightarrow> stream \<Rightarrow> row list \<times> stream" where
  "poll_lines logs st =
     (case logs of
        Inl e \<Rightarrow> ([], st)
      | Inr rs \<Rightarrow> (case send_lines (st_last st) rs of (sent, m) \<Rightarrow> (sent, st\<lparr>st_last := m\<rparr>)))"

definition poll_execution :: "execution option result \<Rightarrow> stream \<Rightarrow> event list \<times> stream \<times> bool" where
  "poll_execution r st =
     (case r of
        Inr (Some x) \<Rightarrow>
          (let out = fnvHash (x_output x); err = fnvHash (x_error x);
               upd = (if out \<noteq> st_output st \<or> err \<noteq> st_error st
                      then [Execution_Update (x_status x) (TrimSpace (x_output x)) (TrimSpace (x_error x))
                              (time_text (x_start x)) (time_text (x_end x))] else []);
               st1 = st\<lparr>st_output := out, st_error := err\<rparr>
           in if x_status x = ''success'' \<or> x_status x = ''failed'' then (upd @ [Done (x_status x)], st1, True)
              else (upd, st1, False))
      | _ \<Rightarrow> ([], st, False))"

fun StreamLogs :: "(row list result \<times> execution option result) list \<Rightarrow> stream \<Rightarrow> event list \<times> bool" where
  "StreamLogs [] st = ([], False)"
| "StreamLogs ((logs, x) # polls) st =
     (case poll_lines logs st of
        (sent, st1) \<Rightarrow>
          (case poll_execution x st1 of
             (es, st2, over) \<Rightarrow>
               (let now = map (\<lambda>(i, l). Line i l) sent @ es
                in if over then (now, True)
                   else (case StreamLogs polls st2 of (later, b) \<Rightarrow> (now @ Beat # later, b)))))"

definition HandleStreamLogs ::
  "string \<Rightarrow> (row list result \<times> execution option result) list \<Rightarrow> event list reply" where
  "HandleStreamLogs eid polls =
     (if TrimSpace eid = [] then Bad 400 ''execution_id required'' else Good (fst (StreamLogs polls new_stream)))"

section \<open>The list of executions\<close>

text \<open>\<open>handler/log.go\<close>; a number that is missing or does not parse is \<open>None\<close>.\<close>

definition role_of :: "principal \<Rightarrow> string" where
  "role_of p = (case pr_role p of None \<Rightarrow> [] | Some r \<Rightarrow> r)"

definition log_page :: "int option \<Rightarrow> int" where
  "log_page n = (case n of Some p \<Rightarrow> if p > 0 then p else 1 | None \<Rightarrow> 1)"

definition log_size :: "int option \<Rightarrow> int" where
  "log_size n = (case n of Some z \<Rightarrow> if z > 0 then (if z > 100 then 100 else z) else 20 | None \<Rightarrow> 20)"

definition HandleListLogs ::
  "'r env \<Rightarrow> (string \<Rightarrow> string \<Rightarrow> bool) \<Rightarrow> exec_filter \<Rightarrow> int option \<Rightarrow> int option \<Rightarrow> principal \<Rightarrow> 'r sched \<Rightarrow>
   (execution_with_names list \<times> int) reply" where
  "HandleListLogs V like f page sz p s =
     (case GetAllExecutions V like (pr_domain p) (role_of p) f (log_page page) (log_size sz) s of
        Inl e \<Rightarrow> Bad 500 e | Inr r \<Rightarrow> Good r)"

definition HandleLogStats ::
  "'r env \<Rightarrow> (string \<Rightarrow> string \<Rightarrow> bool) \<Rightarrow> exec_filter \<Rightarrow> principal \<Rightarrow> 'r sched \<Rightarrow> (string \<Rightarrow> nat option) reply" where
  "HandleLogStats V like f p s =
     (case GetExecutionStats V like (pr_domain p) (role_of p) f s of Inl e \<Rightarrow> Bad 500 e | Inr r \<Rightarrow> Good r)"

definition HandleDeleteLog :: "'r env \<Rightarrow> int option \<Rightarrow> principal \<Rightarrow> 'r sched \<Rightarrow> unit reply \<times> 'r sched" where
  "HandleDeleteLog V i p s =
     with_id i (\<lambda>i. case DeleteExecutionWithDomainCheck V i (pr_domain p) (role_of p) s of
                      (Inl e, s1) \<Rightarrow> (Bad 500 e, s1) | (Inr _, s1) \<Rightarrow> (Good (), s1)) s"

definition HandleBatchDeleteLogs ::
  "'r env \<Rightarrow> int list result \<Rightarrow> principal \<Rightarrow> 'r sched \<Rightarrow> unit reply \<times> 'r sched" where
  "HandleBatchDeleteLogs V q p s =
     (case q of
        Inl e \<Rightarrow> (Bad 400 e, s)
      | Inr ids \<Rightarrow>
          (if ids = [] then (Bad 400 ''no ids provided'', s)
           else (case BatchDeleteExecutionsWithDomainCheck V ids (pr_domain p) (role_of p) s of
                   (Inl e, s1) \<Rightarrow> (Bad 500 e, s1) | (Inr _, s1) \<Rightarrow> (Good (), s1))))"

section \<open>Escaping\<close>

definition esc :: "char \<Rightarrow> string" where
  "esc c = (if c = backslash then [backslash, backslash] else if c = quote then [backslash, quote]
            else if c = CHR 10 then [backslash, CHR ''n''] else if c = CHR 13 then [backslash, CHR ''r'']
            else if c = CHR 9 then [backslash, CHR ''t''] else [c])"

lemma ReplaceAll_simps [simp]:
  "ReplaceAll a b [] = []" "ReplaceAll a b (c # s) = (if c = a then b else [c]) @ ReplaceAll a b s"
  "ReplaceAll a b (s @ t) = ReplaceAll a b s @ ReplaceAll a b t"
  by (simp_all add: ReplaceAll_def)

lemma escape_one_pass: "escapeJSON s = concat (map esc s)"
  by (induction s) (simp_all add: escapeJSON_def esc_def backslash_def quote_def)

text \<open>A reader for the rest of a JSON string after its opening quote, up to the closing one: control
  characters are not allowed in it.\<close>

definition unesc :: "char \<Rightarrow> char option" where
  "unesc d = (if d = backslash then Some backslash else if d = quote then Some quote
              else if d = CHR ''n'' then Some (CHR 10) else if d = CHR ''r'' then Some (CHR 13)
              else if d = CHR ''t'' then Some (CHR 9) else None)"

fun json_body :: "string \<Rightarrow> (string \<times> string) option" where
  "json_body [] = None"
| "json_body (c # s) =
     (if c = quote then Some ([], s)
      else if c = backslash
      then (case s of
              [] \<Rightarrow> None
            | d # s' \<Rightarrow> (case unesc d of
                None \<Rightarrow> None
              | Some x \<Rightarrow> map_option (\<lambda>(b, r). (x # b, r)) (json_body s')))
      else if code c < 32 then None
      else map_option (\<lambda>(b, r). (c # b, r)) (json_body s))"

definition unescaped_control :: "char \<Rightarrow> bool" where
  "unescaped_control c \<longleftrightarrow> code c < 32 \<and> c \<notin> set [CHR 9, CHR 10, CHR 13]"

lemma json_step:
  "json_body (esc c @ s) =
     (if unescaped_control c then None else map_option (\<lambda>(b, r). (c # b, r)) (json_body s))"
proof -
  have "\<not> code backslash < 32" "\<not> code quote < 32" by (simp_all add: backslash_def quote_def code_def)
  moreover have "backslash \<noteq> quote" "CHR ''n'' \<noteq> backslash" "CHR ''n'' \<noteq> quote" "CHR ''r'' \<noteq> backslash"
    "CHR ''r'' \<noteq> quote" "CHR ''t'' \<noteq> backslash" "CHR ''t'' \<noteq> quote"
    by (simp_all add: backslash_def quote_def)
  ultimately show ?thesis by (auto simp: esc_def unesc_def unescaped_control_def)
qed

text \<open>A message travels in an event exactly when it has no control character other than tab, line feed and
  carriage return: then a JSON reader gets the message back, whatever quotes and backslashes it has, and
  what follows it. With any other control character, such as the escape that starts a colour in
  the output of a shell, the event is no JSON and the line is lost.\<close>

theorem message_round_trip:
  "json_body (escapeJSON s @ quote # rest) =
     (if list_ex unescaped_control s then None else Some (s, rest))"
  by (induction s) (simp_all add: escape_one_pass json_step)

section \<open>Texts of times\<close>

lemma nano_length [simp]: "length (nano_digits n) = 9"
  by (simp add: nano_digits_def)

lemma nano_nth: "k < 9 \<Longrightarrow> nano_digits n ! k = char_of (48 + n div 10 ^ (8 - k) mod 10)"
  by (simp add: nano_digits_def)

lemma digit_less: "a < 10 \<Longrightarrow> b < 10 \<Longrightarrow> (char_of (48 + a :: nat) :: char) < char_of (48 + b) \<longleftrightarrow> a < b"
  by (simp add: less_char_def)

lemma nano_differ:
  assumes "n < m" "m < 10 ^ 9"
  obtains k where "k < 9" "take k (nano_digits n) = take k (nano_digits m)" "nano_digits n ! k < nano_digits m ! k"
proof -
  let ?q = "\<lambda>k n. n div 10 ^ (8 - k) :: nat"
  define k where "k = (LEAST k. ?q k n \<noteq> ?q k m)"
  have 8: "?q 8 n \<noteq> ?q 8 m" using assms(1) by simp
  then have k: "?q k n \<noteq> ?q k m" unfolding k_def by (rule LeastI)
  have "k \<le> 8" unfolding k_def using 8 by (rule Least_le)
  have same: "?q j n = ?q j m" if "j < k" for j
    using not_less_Least [of j] that unfolding k_def by blast
  have less: "?q k n < ?q k m" using k div_le_mono [of n m "10 ^ (8 - k)"] assms(1) by simp
  have "?q k n div 10 = ?q k m div 10"
  proof (cases k)
    case 0
    then show ?thesis using assms by (simp add: div_mult2_eq [symmetric])
  next
    case (Suc j)
    then have "10 ^ (8 - j) = 10 ^ (8 - k) * (10::nat)" using \<open>k \<le> 8\<close>
      by (metis Suc_diff_le diff_Suc_Suc power_Suc2)
    then have "?q j n = ?q k n div 10" "?q j m = ?q k m div 10" by (simp_all add: div_mult2_eq)
    then show ?thesis using same [of j] Suc by simp
  qed
  then have "?q k n mod 10 < ?q k m mod 10"
    using less div_mult_mod_eq [of "?q k n" 10] div_mult_mod_eq [of "?q k m" 10] by linarith
  then have "nano_digits n ! k < nano_digits m ! k" using \<open>k \<le> 8\<close> by (simp add: nano_nth digit_less)
  moreover have "take k (nano_digits n) = take k (nano_digits m)"
    using \<open>k \<le> 8\<close> same by (intro nth_equalityI) (simp_all add: nano_nth)
  ultimately show ?thesis using that [of k] \<open>k \<le> 8\<close> by simp
qed

lemma trim_zeros_split: "\<exists>z. s = trim_zeros s @ replicate z (CHR ''0'')"
proof -
  let ?z = "takeWhile (\<lambda>c. c = CHR ''0'') (rev s)"
  have "rev s = ?z @ dropWhile (\<lambda>c. c = CHR ''0'') (rev s)" by simp
  then have "s = trim_zeros s @ rev ?z" unfolding trim_zeros_def by (metis rev_append rev_rev_ident)
  moreover have "rev ?z = replicate (length ?z) (CHR ''0'')"
    by (intro replicate_eqI) (auto dest: set_takeWhileD)
  ultimately show ?thesis by (intro exI [of _ "length ?z"]) simp
qed

lemma digits_not_below: "c \<in> set (nano_digits n) \<Longrightarrow> CHR ''0'' \<le> c"
proof -
  assume "c \<in> set (nano_digits n)"
  then obtain k where c: "c = char_of (48 + n div 10 ^ (8 - k) mod 10)" by (auto simp: nano_digits_def)
  have "n div 10 ^ (8 - k) mod 10 < 10" by simp
  then show ?thesis unfolding c less_eq_char_def by (simp add: of_char_of)
qed

text \<open>The first position at which the digits differ lies inside the trimmed text of the greater one.\<close>

lemma fraction_less:
  assumes "n < m" "m < 10 ^ 9" "c < CHR ''0''"
  shows "trim_zeros (nano_digits n) @ c # z < trim_zeros (nano_digits m) @ c # z"
proof -
  obtain k where k: "k < 9" "take k (nano_digits n) = take k (nano_digits m)" "nano_digits n ! k < nano_digits m ! k"
    using nano_differ [OF assms(1,2)] by blast
  let ?A = "trim_zeros (nano_digits n)" and ?B = "trim_zeros (nano_digits m)"
  obtain a b where a: "nano_digits n = ?A @ replicate a (CHR ''0'')" and b: "nano_digits m = ?B @ replicate b (CHR ''0'')"
    using trim_zeros_split by metis
  have la: "length ?A + a = 9" "length ?B + b = 9"
    using arg_cong [OF a, of length] arg_cong [OF b, of length] by simp_all
  have "nano_digits n ! k \<in> set (nano_digits n)" using k(1) by simp
  then have "CHR ''0'' < nano_digits m ! k" using digits_not_below k(3) by fastforce
  then have kB: "k < length ?B"
    using b k(1) la(2) by (metis nth_append nth_replicate less_diff_conv2 add.commute not_less order_less_irrefl)
  have B: "?B ! j = nano_digits m ! j" if "j < length ?B" for j using b that by (metis nth_append)
  have A: "?A ! j = nano_digits n ! j" if "j < length ?A" for j using a that by (metis nth_append)
  have eq: "nano_digits n ! j = nano_digits m ! j" if "j < k" for j using k(2) that by (metis nth_take)
  define i where "i = min k (length ?A)"
  have i: "i < length ?B" "i \<le> k" "i \<le> length ?A" using kB by (simp_all add: i_def)
  have "take i ?A = take i ?B"
    using i A B eq by (intro nth_equalityI) auto
  then have pre: "take i (?A @ c # z) = take i (?B @ c # z)" using i by simp
  have "(?A @ c # z) ! i < (?B @ c # z) ! i"
  proof (cases "k < length ?A")
    case True
    then have "i = k" by (simp add: i_def)
    then show ?thesis using True k(3) A B kB by (simp add: nth_append)
  next
    case False
    then have "i = length ?A" by (simp add: i_def)
    moreover have "CHR ''0'' \<le> ?B ! i"
      using B [OF i(1)] digits_not_below [of "nano_digits m ! i" m] i(2) k(1) by simp
    ultimately show ?thesis using assms(3) i(1) by (simp add: nth_append)
  qed
  then show ?thesis
    unfolding list_less_def lexord_take_index_conv using i pre by (intro disjI2 exI [of _ i]) auto
qed

lemma clock_text_less:
  assumes "n < m" "m < 10 ^ 9" "c < CHR ''.''"
  shows "clock_text (c # z) n < clock_text (c # z) m"
proof -
  have "c < CHR ''0''" using assms(3) by (auto intro: less_trans simp: less_char_def)
  then show ?thesis
    using fraction_less [OF assms(1,2), of c z] assms by (cases "n = 0") (simp_all add: clock_text_def)
qed

lemma time_key_mono:
  assumes "t \<le> u" "c < CHR ''.''"
  shows "time_key (c # z) t \<le> time_key (c # z) u"
proof (cases "t div second = u div second")
  case True
  have "t mod second = t - second * (t div second)" "u mod second = u - second * (u div second)"
    by (simp_all add: minus_mult_div_eq_mod)
  then have "t mod second \<le> u mod second" using True assms(1) by simp
  then have "nat (t mod second) < nat (u mod second) \<or> nat (t mod second) = nat (u mod second)" by auto
  moreover have "nat (u mod second) < 10 ^ 9" by (simp add: nat_less_iff)
  ultimately show ?thesis using True clock_text_less [OF _ _ assms(2)] by (auto simp: time_key_def less_imp_le)
next
  case False
  then have "t div second < u div second" using zdiv_mono1 [OF assms(1), of second] by simp
  then show ?thesis by (simp add: time_key_def)
qed

lemma log_rows_id:
  assumes "sorted (map (l_time \<circ> snd) rows)" "c < CHR ''.''"
  shows "log_rows (c # z) rows = rows"
proof -
  have "sorted_wrt (\<le>) (map (\<lambda>r. time_key (c # z) (l_time (snd r))) rows)"
    using assms(1) by (auto simp: sorted_wrt_map comp_def intro: sorted_wrt_mono_rel time_key_mono [OF _ assms(2)]
        elim!: sorted_wrt_mono_rel [rotated])
  then show ?thesis unfolding log_rows_def by (rule sort_key_id_if_sorted)
qed

section \<open>What a stream sends\<close>

fun lines_of :: "event list \<Rightarrow> row list" where
  "lines_of [] = []"
| "lines_of (Line i l # es) = (i, l) # lines_of es"
| "lines_of (e # es) = lines_of es"

lemma lines_of_append [simp]: "lines_of (es @ fs) = lines_of es @ lines_of fs"
  by (induction es rule: lines_of.induct) simp_all

lemma lines_of_lines [simp]: "lines_of (map (\<lambda>(i, l). Line i l) rs) = rs"
  by (induction rs) auto

lemma poll_execution_sends:
  assumes "poll_execution x st = (es, st2, over)"
  shows "lines_of es = []" "st_last st2 = st_last st"
    "over \<longleftrightarrow> (\<exists>y. x = Inr (Some y) \<and> x_status y \<in> {''success'', ''failed''})"
  using assms by (auto simp: poll_execution_def Let_def split: sum.splits option.splits if_splits)

lemma send_lines_sent:
  "(i, l) \<in> set (fst (send_lines seen rs)) \<Longrightarrow>
   seen < i \<and> (\<exists>as bs. rs = as @ (i, l) # bs \<and> (\<forall>r\<in>set as. fst r < i))"
proof (induction seen rs rule: send_lines.induct)
  case (2 seen j k rs)
  show ?case
  proof (cases "(i, l) = (j, k) \<and> j > seen")
    case True
    then show ?thesis by (intro conjI exI [of _ "[]"] exI [of _ rs]) auto
  next
    case False
    have "seen < i \<and> (\<exists>as bs. rs = as @ (i, l) # bs \<and> (\<forall>r\<in>set as. fst r < i) \<and> j < i)"
      using 2 False by (cases "j > seen") (force split: prod.splits)+
    then obtain as bs where "rs = as @ (i, l) # bs" "\<forall>r\<in>set as. fst r < i" "j < i" "seen < i" by blast
    then have "(j, k) # rs = ((j, k) # as) @ (i, l) # bs \<and> (\<forall>r\<in>set ((j, k) # as). fst r < i)" by auto
    then show ?thesis using \<open>seen < i\<close> by blast
  qed
qed simp

lemma send_lines_seen: "seen \<le> snd (send_lines seen rs) \<and> (\<forall>r\<in>set rs. fst r \<le> snd (send_lines seen rs))"
proof (induction seen rs rule: send_lines.induct)
  case (2 seen j k rs)
  then show ?case by (cases "j > seen") (force split: prod.splits)+
qed simp

text \<open>A line that comes behind one with a greater number is not sent in this poll, and in no later one.\<close>

lemma never_later: "i \<le> st_last st \<Longrightarrow> (i, l) \<notin> set (lines_of (fst (StreamLogs polls st)))"
proof (induction polls st rule: StreamLogs.induct)
  case (2 logs x polls st)
  obtain sent st1 where 1: "poll_lines logs st = (sent, st1)" by fastforce
  obtain es st2 over where 2: "poll_execution x st1 = (es, st2, over)" by (metis surj_pair)
  have "(i, l) \<notin> set sent \<and> st_last st \<le> st_last st1"
  proof (cases logs)
    case (Inl e)
    then show ?thesis using 1 by (auto simp: poll_lines_def)
  next
    case (Inr rs)
    then show ?thesis
      using 1 "2.prems" send_lines_sent [of i l "st_last st" rs] send_lines_seen [of "st_last st" rs]
      by (auto simp: poll_lines_def split: prod.splits)
  qed
  then show ?case
    using 1 2 "2.IH" [OF 1 [symmetric] 2 [symmetric] refl refl] "2.prems" poll_execution_sends [OF 2]
    by (cases over) (auto simp: Let_def split: prod.splits)
qed simp

text \<open>A stream sends no line that a poll shows behind one with a greater number: neither in that poll nor
  in any later one. The rows are ordered by the text of their time, which is not the order of time on a server in
  UTC: the text of a fraction drops its trailing zeros, and the letter Z of the zone is greater than a digit. Of two lines
  written at 0.1 and 0.12 seconds the first is never shown.\<close>

theorem line_behind_is_never_streamed:
  assumes "(j, m) \<in> set rows" "i < j" "time_key zone (l_time m) < time_key zone (l_time l)"
  shows "(i, l) \<notin> set (lines_of (fst (StreamLogs ((Inr (log_rows zone rows), x) # polls) st)))"
proof -
  let ?key = "\<lambda>r. time_key zone (l_time (snd r))"
  let ?rs = "log_rows zone rows"
  obtain sent n where n: "send_lines (st_last st) ?rs = (sent, n)" by fastforce
  have j: "(j, m) \<in> set ?rs" using assms(1) by (simp add: log_rows_def)
  have "(i, l) \<notin> set sent"
  proof
    assume "(i, l) \<in> set sent"
    then obtain as bs where split: "?rs = as @ (i, l) # bs" "\<forall>r\<in>set as. fst r < i"
      using send_lines_sent [of i l "st_last st" ?rs] n by auto
    then have "(j, m) \<in> set bs" using j assms(2) by auto
    moreover have "sorted (map ?key (as @ (i, l) # bs))"
      unfolding split(1) [symmetric] log_rows_def by (rule sorted_sort_key)
    ultimately have "?key (i, l) \<le> ?key (j, m)" by (auto simp: sorted_append)
    then show False using assms(3) by simp
  qed
  moreover have "i \<le> n" using send_lines_seen [of "st_last st" ?rs] j assms(2) n by fastforce
  moreover obtain es st2 over where 2: "poll_execution x (st\<lparr>st_last := n\<rparr>) = (es, st2, over)" by (metis surj_pair)
  ultimately show ?thesis
    using never_later [of i st2 l polls] n poll_execution_sends [OF 2]
    by (auto simp: poll_lines_def Let_def split: prod.splits)
qed

definition demo_line :: "instant \<Rightarrow> string \<Rightarrow> task_log" where
  "demo_line t msg = \<lparr>l_eid = ''e'', l_task = 5, l_executor = None, l_node = ''n'', l_level = ''stdout'',
     l_message = msg, l_time = t\<rparr>"

lemma digit_texts:
  "char_of (48 :: nat) = CHR ''0''" "char_of (49 :: nat) = CHR ''1''" "char_of (50 :: nat) = CHR ''2''"
  by code_simp+

lemma demo_clock: "clock_text ''Z'' 100000000 = ''.1Z''" "clock_text ''Z'' 120000000 = ''.12Z''"
  by (simp_all add: clock_text_def nano_digits_def trim_zeros_def upt_rec digit_texts)

lemma line_behind_is_never_streamed_witness:
  "let rows = [(1, demo_line 100000000 ''a''), (2, demo_line 120000000 ''b'')];
       polls = [(Inr (log_rows ''Z'' rows), Inr None), (Inr (log_rows ''Z'' rows), Inr None)]
   in map fst (log_rows ''Z'' rows) = [2, 1] \<and>
      (1, demo_line 100000000 ''a'') \<notin> set (lines_of (fst (StreamLogs polls new_stream)))"
proof -
  let ?rows = "[(1, demo_line 100000000 ''a''), (2, demo_line 120000000 ''b'')]"
  have k: "time_key ''Z'' (l_time (demo_line 120000000 ''b'')) < time_key ''Z'' (l_time (demo_line 100000000 ''a''))"
    by (simp add: time_key_def demo_line_def demo_clock less_char_def)
  moreover have "map fst (log_rows ''Z'' ?rows) = [2, 1]" using k by (simp add: log_rows_def)
  ultimately show ?thesis
    using line_behind_is_never_streamed [of 2 "demo_line 120000000 ''b''" ?rows 1 "''Z''" "demo_line 100000000 ''a''"
        "Inr None" "[(Inr (log_rows ''Z'' ?rows), Inr None)]" new_stream]
    by (simp add: Let_def)
qed

text \<open>Rows whose numbers and times both grow, as they are written, and the number of the last of the first \<open>k\<close>.\<close>

definition in_order :: "row list \<Rightarrow> bool" where
  "in_order rows \<longleftrightarrow> sorted_wrt (<) (0 # map fst rows) \<and> sorted (map (l_time \<circ> snd) rows)"

definition upto_row :: "row list \<Rightarrow> nat \<Rightarrow> int" where
  "upto_row rows k = (0 # map fst rows) ! k"

lemma send_lines_sorted:
  "sorted_wrt (<) (seen # map fst rs) \<Longrightarrow> send_lines seen rs = (rs, last (seen # map fst rs))"
  by (induction seen rs rule: send_lines.induct) auto

lemma send_lines_old: "\<forall>r\<in>set as. fst r \<le> seen \<Longrightarrow> send_lines seen (as @ rs) = send_lines seen rs"
  by (induction as) auto

lemma send_lines_next:
  assumes "sorted_wrt (<) (0 # map fst rows)" "k \<le> n" "n \<le> length rows"
  shows "send_lines (upto_row rows k) (take n rows) = (drop k (take n rows), upto_row rows n)"
proof -
  let ?ids = "0 # map fst rows"
  have less: "?ids ! a < ?ids ! b" if "a < b" "b \<le> length rows" for a b
    using sorted_wrt_nth_less [OF assms(1)] that by simp
  have "take n rows = take k rows @ drop k (take n rows)"
    using assms(2) by (metis append_take_drop_id min.absorb1 take_take)
  moreover have "\<forall>r\<in>set (take k rows). fst r \<le> upto_row rows k"
  proof
    fix r assume "r \<in> set (take k rows)"
    then obtain a where a: "a < k" "a < length rows" "r = rows ! a" by (auto simp: in_set_conv_nth)
    then have "?ids ! Suc a \<le> ?ids ! k"
      using less [of "Suc a" k] assms(2,3) by (cases "Suc a = k") auto
    then show "fst r \<le> upto_row rows k" using a by (simp add: upto_row_def)
  qed
  ultimately have 1: "send_lines (upto_row rows k) (take n rows) = send_lines (upto_row rows k) (drop k (take n rows))"
    using send_lines_old by metis
  have ids: "upto_row rows k # map fst (drop k (take n rows)) = drop k (take (Suc n) ?ids)"
    using assms(2,3)
    by (cases k) (simp_all add: upto_row_def Cons_nth_drop_Suc [symmetric] take_map [symmetric] drop_map [symmetric])
  have "sorted_wrt (<) (drop k (take (Suc n) ?ids))"
    using assms(1) by (intro sorted_wrt_drop sorted_wrt_take)
  moreover have "last (drop k (take (Suc n) ?ids)) = upto_row rows n"
    using assms(2,3) take_Suc_conv_app_nth [of n ?ids] by (simp add: last_drop upto_row_def)
  ultimately show ?thesis using 1 send_lines_sorted [of "upto_row rows k" "drop k (take n rows)"] unfolding ids by simp
qed

text \<open>The polls of a stream: \<open>Some n\<close> when the first \<open>n\<close> rows were there, \<open>None\<close> when reading the log
  failed, with what the execution looked like.\<close>

type_synonym polls = "(nat option \<times> execution option result) list"

definition poll_of :: "string \<Rightarrow> row list \<Rightarrow> nat option \<times> execution option result \<Rightarrow> row list result \<times> execution option result" where
  "poll_of zone rows p =
     ((case fst p of None \<Rightarrow> Inl ''no rows'' | Some n \<Rightarrow> Inr (log_rows zone (take n rows))), snd p)"

fun growing :: "nat \<Rightarrow> nat \<Rightarrow> polls \<Rightarrow> bool" where
  "growing k m [] \<longleftrightarrow> k \<le> m"
| "growing k m ((None, x) # ps) \<longleftrightarrow> growing k m ps"
| "growing k m ((Some n, x) # ps) \<longleftrightarrow> k \<le> n \<and> growing n m ps"

fun reached :: "nat \<Rightarrow> polls \<Rightarrow> nat" where
  "reached k [] = k"
| "reached k ((None, x) # ps) = reached k ps"
| "reached k ((Some n, x) # ps) = reached n ps"

fun over :: "execution option result \<Rightarrow> bool" where
  "over (Inr (Some x)) \<longleftrightarrow> x_status x = ''success'' \<or> x_status x = ''failed''"
| "over _ \<longleftrightarrow> False"

lemma growing_bounds: "growing k m ps \<Longrightarrow> k \<le> reached k ps \<and> reached k ps \<le> m"
  by (induction k m ps rule: growing.induct) auto

lemma poll_over: "poll_execution x st = (es, st2, b) \<Longrightarrow> b = over x"
  by (cases x rule: over.cases) (auto simp: poll_execution_def Let_def split: if_splits)

lemma poll_of_lines:
  assumes "in_order rows" "c < CHR ''.''" "k \<le> n" "n \<le> length rows" "st_last st = upto_row rows k"
  shows "poll_lines (Inr (log_rows (c # z) (take n rows))) st = (drop k (take n rows), st\<lparr>st_last := upto_row rows n\<rparr>)"
proof -
  have "sorted (map (l_time \<circ> snd) (take n rows))"
    using assms(1) by (simp add: in_order_def take_map [symmetric] sorted_wrt_take)
  then have "log_rows (c # z) (take n rows) = take n rows" using assms(2) by (rule log_rows_id)
  then show ?thesis using send_lines_next [of rows k n] assms by (simp add: poll_lines_def in_order_def)
qed

lemma drop_take_join:
  assumes "k \<le> n" "n \<le> r"
  shows "drop k (take n xs) @ drop n (take r xs) = drop k (take r xs)"
proof -
  let ?ys = "take r xs"
  have "take n xs = take n ?ys" using assms(2) by (simp add: min.absorb1)
  then have "drop k (take n xs) = take (n - k) (drop k ?ys)" by (simp only: drop_take)
  moreover have "drop n ?ys = drop (n - k) (drop k ?ys)" using assms(1) by simp
  ultimately show ?thesis by (metis append_take_drop_id)
qed

lemma stream_lines:
  assumes "in_order rows" "c < CHR ''.''"
  shows "growing k (length rows) ps \<Longrightarrow> list_all (\<lambda>p. \<not> over (snd p)) (butlast ps) \<Longrightarrow> st_last st = upto_row rows k \<Longrightarrow>
    lines_of (fst (StreamLogs (map (poll_of (c # z) rows) ps) st)) = drop k (take (reached k ps) rows)"
proof (induction ps arbitrary: k st)
  case Nil
  then show ?case by simp
next
  case (Cons p ps)
  obtain n x where p: "p = (n, x)" by fastforce
  define k' where "k' = (case n of None \<Rightarrow> k | Some m \<Rightarrow> m)"
  have g: "k \<le> k'" "growing k' (length rows) ps" "reached k (p # ps) = reached k' ps"
    using Cons.prems(1) by (auto simp: p k'_def split: option.splits)
  have b: "k' \<le> reached k' ps" "reached k' ps \<le> length rows" using growing_bounds [OF g(2)] by simp_all
  obtain st1 where 1: "poll_lines (fst (poll_of (c # z) rows p)) st = (drop k (take k' rows), st1)"
      "st_last st1 = upto_row rows k'"
  proof (cases n)
    case None
    then show ?thesis using that [of st] Cons.prems(3) by (simp add: p poll_of_def poll_lines_def k'_def)
  next
    case (Some m)
    then show ?thesis
      using that poll_of_lines [OF assms g(1) _ Cons.prems(3)] b by (simp add: p poll_of_def k'_def)
  qed
  obtain es st2 ov where 2: "poll_execution x st1 = (es, st2, ov)" by (metis surj_pair)
  obtain l0 where l0: "poll_of (c # z) rows p = (l0, x)" by (simp add: p poll_of_def)
  have rest: "lines_of (fst (StreamLogs (map (poll_of (c # z) rows) ps) st2)) = drop k' (take (reached k' ps) rows)"
    if "\<not> ov \<or> ps \<noteq> []"
    using Cons.IH [OF g(2)] Cons.prems(2) 1(2) poll_execution_sends(2) [OF 2] by (cases ps) auto
  have join: "drop k (take k' rows) @ drop k' (take (reached k' ps) rows) = drop k (take (reached k' ps) rows)"
    using drop_take_join g(1) b(1) .
  show ?case
  proof (cases ov)
    case True
    then have "ps = []" using Cons.prems(2) poll_over [OF 2] by (cases ps) (auto simp: p)
    then show ?thesis using True 1 2 g l0 poll_execution_sends(1) [OF 2] by (simp add: Let_def)
  next
    case False
    then show ?thesis
      using 1 2 g l0 rest join poll_execution_sends(1) [OF 2] by (auto simp: Let_def split: prod.splits)
  qed
qed

text \<open>C18: On a server whose zone is written as an offset, and for rows whose times and numbers are in the order in which they
  are inserted, which \<open>AddTaskLog\<close> does not ensure, as it takes the time before the insertion: the rows reach the
  browser exactly once and in the order of their numbers, however many of them each poll finds and
  whichever polls fail. Until the execution is over, the lines sent are the rows of the last poll that succeeded; a
  row behind one that has been sent never is.\<close>

theorem stream_sends_each_row_once:
  assumes "in_order rows" "c < CHR ''.''" "growing 0 (length rows) ps" "list_all (\<lambda>p. \<not> over (snd p)) (butlast ps)"
  shows "lines_of (fst (StreamLogs (map (poll_of (c # z) rows) ps) new_stream)) = take (reached 0 ps) rows"
  using stream_lines [OF assms, of new_stream] by (simp add: new_stream_def upto_row_def)

definition demo_rows :: "row list" where
  "demo_rows = [(3, demo_line 100000000 ''a''), (4, demo_line 120000000 ''b''), (9, demo_line 2000000000 ''c'')]"

lemma stream_sends_each_row_once_witness:
  "map fst (lines_of (fst (StreamLogs (map (poll_of ''+08:00'' demo_rows)
     [(Some 1, Inr None), (None, Inl ''down''), (Some 3, Inr None), (Some 3, Inr None)]) new_stream))) = [3, 4, 9]"
proof -
  have "in_order demo_rows" by (simp add: in_order_def demo_rows_def demo_line_def)
  moreover have "CHR ''+'' < CHR ''.''" by (simp add: less_char_def)
  ultimately show ?thesis
    using stream_sends_each_row_once [of demo_rows "CHR ''+''"
        "[(Some 1, Inr None), (None, Inl ''down''), (Some 3, Inr None), (Some 3, Inr None)]" "''08:00''"]
    by (simp add: demo_rows_def)
qed

fun beats :: "event list \<Rightarrow> nat" where
  "beats [] = 0"
| "beats (Beat # es) = Suc (beats es)"
| "beats (e # es) = beats es"

lemma beats_append [simp]: "beats (es @ fs) = beats es + beats fs"
  by (induction es rule: beats.induct) simp_all

lemma beats_lines [simp]: "beats (map (\<lambda>(i, l). Line i l) rs) = 0"
  by (induction rs) auto

lemma beats_execution: "poll_execution x st = (es, st2, b) \<Longrightarrow> beats es = 0"
  by (auto simp: poll_execution_def Let_def split: sum.splits option.splits if_splits)

lemma stream_end_step:
  "snd (StreamLogs polls st) = list_ex (\<lambda>p. over (snd p)) polls \<and>
   (\<not> list_ex (\<lambda>p. over (snd p)) polls \<longrightarrow> beats (fst (StreamLogs polls st)) = length polls)"
proof (induction polls st rule: StreamLogs.induct)
  case (2 logs x polls st)
  obtain sent st1 where 1: "poll_lines logs st = (sent, st1)" by fastforce
  obtain es st2 b where 2: "poll_execution x st1 = (es, st2, b)" by (metis surj_pair)
  show ?case
    using 1 2 "2.IH" [OF 1 [symmetric] 2 [symmetric] refl refl] poll_over [OF 2] beats_execution [OF 2]
    by (cases b) (auto simp: Let_def split: prod.splits)
qed simp

text \<open>C19: A stream ends by itself exactly when a poll finds the execution succeeded or failed. Every other final
  status that the scheduler stores, timed out or skipped, leaves it open: it sends one heartbeat a second
  for as long as the client stays.\<close>

theorem stream_ends_with_the_execution:
  "(snd (StreamLogs polls st) \<longleftrightarrow> list_ex (\<lambda>p. over (snd p)) polls) \<and>
   (beats (fst (StreamLogs polls st)) = length polls \<or> list_ex (\<lambda>p. over (snd p)) polls) \<and>
   \<not> over (Inr (Some (y\<lparr>x_status := ''timeout''\<rparr>))) \<and> \<not> over (Inr (Some (y\<lparr>x_status := ''skipped''\<rparr>))) \<and>
   terminal ''timeout''"
  using stream_end_step [of polls st] by (auto simp: terminal_def)

end
