(* ===== verification/Admin_Requests.thy ===== *)
theory Admin_Requests
  imports Task_Requests User_Requests Permission_Groups
begin

text \<open>
  The requests that administer executors, domains and roles (scheduler/internal/handler: executor.go,
  executor_domain.go, domain_admin.go, role_admin.go and permission_handler.go; service/domain_admin.go; the validator
  \<open>regexp\<close> of cmd/app.go). The service has a database verdict of its own for the table of domains; the tables
  of roles and members are those of \<open>Rbac\<close>, executors and tasks those of \<open>Scheduler_State\<close>. Names are ASCII texts.
\<close>

section \<open>Executors\<close>

definition parseName :: "string \<Rightarrow> string result" where
  "parseName n = (if n = [] then Inl ''name cannot be empty'' else Inr n)"

text \<open>\<open>strconv.ParseInt\<close> has given \<open>None\<close> when the text is no number.\<close>

definition parseParam :: "string \<Rightarrow> int option \<Rightarrow> int result" where
  "parseParam s v =
     (if s = [] then Inl ''parameter is required''
      else (case v of
              None \<Rightarrow> Inl ''invalid syntax''
            | Some n \<Rightarrow> if n \<le> 0 then Inl ''parameter must be positive'' else Inr n))"

text \<open>An executor as it is shown: the zero time counts as no heartbeat.\<close>

definition shown_status :: "instant \<Rightarrow> executor \<Rightarrow> string" where
  "shown_status now e =
     (if e_status e = ''online''
      then (case e_heartbeat e of
              None \<Rightarrow> ''offline''
            | Some t \<Rightarrow> if t = 0 \<or> now - t > 30 * second then ''offline'' else ''online'')
      else e_status e)"

definition executorToDTO :: "instant \<Rightarrow> executor \<Rightarrow> executor" where
  "executorToDTO now e = e\<lparr>e_status := shown_status now e\<rparr>"

text \<open>The same for an executor with its domains, except that the zero time is compared like any other.\<close>

definition executorWithDomainsToDTO :: "instant \<Rightarrow> executor \<times> domain_row list \<Rightarrow> executor \<times> domain_row list" where
  "executorWithDomainsToDTO now x =
     (case x of (e, ds) \<Rightarrow>
        (e\<lparr>e_status :=
            (if e_status e = ''online''
             then (case e_heartbeat e of
                     None \<Rightarrow> ''offline''
                   | Some t \<Rightarrow> if now - t > 30 * second then ''offline'' else ''online'')
             else e_status e)\<rparr>, ds))"

definition HandleListExecutors :: "'r env \<Rightarrow> int \<Rightarrow> int \<Rightarrow> 'r sched \<Rightarrow> (executor list \<times> int) reply" where
  "HandleListExecutors V page sz s =
     (case ListExecutors V (if page < 1 then 1 else page) (if sz < 1 \<or> sz > 100 then 20 else sz) s of
        Inl e \<Rightarrow> Bad 500 e
      | Inr (es, n) \<Rightarrow> Good (map (executorToDTO (env_now V)) es, n))"

definition HandleGetExecutor :: "string \<Rightarrow> unit reply" where
  "HandleGetExecutor name = (case parseName name of Inl e \<Rightarrow> Bad 400 ''invalid name'' | Inr n \<Rightarrow> Good ())"

definition named_request ::
  "string \<Rightarrow> (string \<Rightarrow> 's \<Rightarrow> unit result \<times> 's) \<Rightarrow> 's \<Rightarrow> unit reply \<times> 's" where
  "named_request name f s =
     (case parseName name of
        Inl e \<Rightarrow> (Bad 400 ''invalid name'', s)
      | Inr n \<Rightarrow> (case f n s of (Inl e, s1) \<Rightarrow> (Bad 500 e, s1) | (Inr _, s1) \<Rightarrow> (Good (), s1)))"

definition HandleDeleteExecutor :: "'r env \<Rightarrow> string \<Rightarrow> 'r sched \<Rightarrow> unit reply \<times> 'r sched" where
  "HandleDeleteExecutor V name s = named_request name (DeleteExecutorByName V) s"

definition HandleOnline :: "'r env \<Rightarrow> string \<Rightarrow> 'r sched \<Rightarrow> unit reply \<times> 'r sched" where
  "HandleOnline V name s = named_request name (\<lambda>n. SetExecutorStatusByName V n ''online'') s"

definition HandleOffline :: "'r env \<Rightarrow> string \<Rightarrow> 'r sched \<Rightarrow> unit reply \<times> 'r sched" where
  "HandleOffline V name s = named_request name (\<lambda>n. SetExecutorStatusByName V n ''offline'') s"

definition HandleUpdateCapacity :: "'r env \<Rightarrow> string \<Rightarrow> int option \<Rightarrow> 'r sched \<Rightarrow> unit reply \<times> 'r sched" where
  "HandleUpdateCapacity V name cap s =
     (case parseName name of
        Inl e \<Rightarrow> (Bad 400 ''invalid name'', s)
      | Inr n \<Rightarrow>
          (case cap of
             None \<Rightarrow> (Bad 400 ''capacity must be a positive integer'', s)
           | Some c \<Rightarrow>
               (if c < 1 then (Bad 400 ''capacity must be a positive integer'', s)
                else (case UpdateExecutorCapacityByName V n c s of
                        (Inl e, s1) \<Rightarrow> (Bad 500 e, s1) | (Inr _, s1) \<Rightarrow> (Good (), s1)))))"

text \<open>The requests on the domains of one executor find it by its name first.\<close>

definition on_executor :: "'r env \<Rightarrow> string \<Rightarrow> (executor \<Rightarrow> 'a reply \<times> 'r sched) \<Rightarrow> 'r sched \<Rightarrow> 'a reply \<times> 'r sched" where
  "on_executor V name f s =
     (case GetExecutorByName V name s of
        Inl e \<Rightarrow> (Bad 404 ''executor not found'', s)
      | Inr x \<Rightarrow> f x)"

definition HandleExecutorDomains ::
  "'r env \<Rightarrow> domain_row list \<Rightarrow> string \<Rightarrow> 'r sched \<Rightarrow> domain_row list reply \<times> 'r sched" where
  "HandleExecutorDomains V ds name s =
     (if name = [] then (Bad 400 ''executor name is required'', s)
      else on_executor V name (\<lambda>x. (case GetExecutorDomains V ds (e_id x) s of
                                     Inl e \<Rightarrow> Bad 500 e | Inr rows \<Rightarrow> Good rows, s)) s)"

definition HandleAssignDomains :: "'r env \<Rightarrow> string \<Rightarrow> int list \<Rightarrow> 'r sched \<Rightarrow> unit reply \<times> 'r sched" where
  "HandleAssignDomains V name ds s =
     (if name = [] then (Bad 400 ''executor name is required'', s)
      else if ds = [] then (Bad 400 ''domain_ids required'', s)
      else if list_ex (\<lambda>d. d \<le> 0) ds then (Bad 400 ''domain_id must be positive'', s)
      else on_executor V name (\<lambda>x. case AssignExecutorToDomains V (e_id x) ds s of
                                     (Inl e, s1) \<Rightarrow> (Bad 500 e, s1) | (Inr _, s1) \<Rightarrow> (Good (), s1)) s)"

definition HandleRemoveDomain ::
  "'r env \<Rightarrow> string \<Rightarrow> string \<Rightarrow> int option \<Rightarrow> 'r sched \<Rightarrow> unit reply \<times> 'r sched" where
  "HandleRemoveDomain V name text d s =
     (if name = [] then (Bad 400 ''executor name is required'', s)
      else (case parseParam text d of
              Inl e \<Rightarrow> (Bad 400 ''invalid domain id'', s)
            | Inr d \<Rightarrow> on_executor V name (\<lambda>x. case RemoveExecutorFromDomain V (e_id x) d s of
                                     (Inl e, s1) \<Rightarrow> (Bad 500 e, s1) | (Inr _, s1) \<Rightarrow> (Good (), s1)) s))"

text \<open>What the caller is: an error counts as no administrator, and as the domain 0.\<close>

definition caller_admin :: "db_verdict \<Rightarrow> rbac \<Rightarrow> principal \<Rightarrow> bool" where
  "caller_admin E db p = (IsSystemAdmin E db (pr_user p) = Inr True)"

definition caller_domain :: "db_verdict \<Rightarrow> rbac \<Rightarrow> principal \<Rightarrow> int" where
  "caller_domain E db p = (case GetUserDefaultDomain E db (pr_user p) of Inl e \<Rightarrow> 0 | Inr d \<Rightarrow> d)"

definition HandleExecutorsWithDomains ::
  "'r env \<Rightarrow> db_verdict \<Rightarrow> rbac \<Rightarrow> principal \<Rightarrow> 'r sched \<Rightarrow> (executor \<times> domain_row list) list reply" where
  "HandleExecutorsWithDomains V E db p s =
     (case GetExecutorsByUserRole V (domains db) (caller_admin E db p) (caller_domain E db p) s of
        Inl e \<Rightarrow> Bad 500 e
      | Inr xs \<Rightarrow> Good (map (executorWithDomainsToDTO (env_now V)) xs))"

definition HandleAssignedTasks :: "'r env \<Rightarrow> string \<Rightarrow> 'r sched \<Rightarrow> (int \<times> string list) reply \<times> 'r sched" where
  "HandleAssignedTasks V name s =
     (if name = [] then (Bad 400 ''executor name is required'', s)
      else on_executor V name
        (\<lambda>x. (case rbind (GetAssignedTasksForExecutor V (e_id x) s) (\<lambda>n.
                     rbind (GetAssignedTaskNamesForExecutor V (e_id x) s) (\<lambda>ns. Inr (n, ns))) of
                Inl e \<Rightarrow> Bad 500 e | Inr r \<Rightarrow> Good r, s)) s)"

record deletion_check =
  dc_can :: bool
  dc_reason :: string
  dc_has_tasks :: bool
  dc_tasks :: int

definition HandleCanDeleteExecutor ::
  "'r env \<Rightarrow> db_verdict \<Rightarrow> rbac \<Rightarrow> string \<Rightarrow> principal \<Rightarrow> 'r sched \<Rightarrow> deletion_check reply \<times> 'r sched" where
  "HandleCanDeleteExecutor V E db name p s =
     (if name = [] then (Bad 400 ''executor name is required'', s)
      else on_executor V name
        (\<lambda>x. (case GetAssignedTasksForExecutor V (e_id x) s of
                Inl e \<Rightarrow> Bad 500 e
              | Inr n \<Rightarrow>
                  (if caller_admin E db p then Good \<lparr>dc_can = True, dc_reason = [], dc_has_tasks = n > 0, dc_tasks = n\<rparr>
                   else (case CanDomainAdminDeleteExecutor V (e_id x) (caller_domain E db p) s of
                           Inl e \<Rightarrow> Bad 500 e
                         | Inr ok \<Rightarrow> Good \<lparr>dc_can = ok,
                             dc_reason = (if ok then [] else 
                               ''executor is assigned to multiple domains, only system admin can delete''),
                             dc_has_tasks = n > 0, dc_tasks = n\<rparr>)), s)) s)"

section \<open>Domains\<close>

datatype dstmt = D_list | D_list_user | D_stats | D_get | D_insert | D_update | D_delete

record domain_stats =
  dm_row :: domain_row
  dm_users :: int
  dm_executors :: int
  dm_tasks :: int

text \<open>The tables of a platform: those of roles and members, and those of the scheduler.\<close>

record 'r platform =
  pf_rbac :: rbac
  pf_sched :: "'r sched"

type_synonym domain_env = "dstmt \<Rightarrow> string option"

definition stats_of :: "'r platform \<Rightarrow> domain_row \<Rightarrow> domain_stats" where
  "stats_of s d =
     \<lparr>dm_row = d,
      dm_users = count_where (\<lambda>ud. ud_domain ud = d_id d) (user_domains (pf_rbac s)),
      dm_executors = count_where (\<lambda>(dd, x). dd = d_id d) (s_domain_executors (pf_sched s)),
      dm_tasks = count_where (\<lambda>t. t_domain t = d_id d) (s_tasks (pf_sched s))\<rparr>"

definition ListDomains :: "domain_env \<Rightarrow> 'r platform \<Rightarrow> domain_stats list result" where
  "ListDomains D s = on_db (D D_list) (map (stats_of s) (sort_key d_id (domains (pf_rbac s))))"

definition ListDomainsByUser :: "domain_env \<Rightarrow> int \<Rightarrow> 'r platform \<Rightarrow> domain_stats list result" where
  "ListDomainsByUser D u s =
     on_db (D D_list_user)
       (map (stats_of s) (sort_key d_id
          (map fst (filter (\<lambda>(d, ud). d_id d = ud_domain ud \<and> ud_user ud = u)
             (List.product (domains (pf_rbac s)) (user_domains (pf_rbac s)))))))"

definition GetDomain :: "domain_env \<Rightarrow> int \<Rightarrow> 'r platform \<Rightarrow> domain_stats option result" where
  "GetDomain D i s =
     on_db (D D_stats) (map_option (stats_of s) (first_where (\<lambda>d. d_id d = i) (domains (pf_rbac s))))"

definition GetDomainByID :: "domain_env \<Rightarrow> int \<Rightarrow> 'r platform \<Rightarrow> domain_row option result" where
  "GetDomainByID D i s = on_db (D D_get) (first_where (\<lambda>d. d_id d = i) (domains (pf_rbac s)))"

definition set_domains :: "(domain_row list \<Rightarrow> domain_row list) \<Rightarrow> 'r platform \<Rightarrow> 'r platform" where
  "set_domains f s = s\<lparr>pf_rbac := (pf_rbac s)\<lparr>domains := f (domains (pf_rbac s))\<rparr>\<rparr>"

definition CreateDomain ::
  "domain_env \<Rightarrow> int \<Rightarrow> string \<Rightarrow> string \<Rightarrow> 'r platform \<Rightarrow> domain_row option result \<times> 'r platform" where
  "CreateDomain D new_id name desc s =
     (case D D_insert of
        Some e \<Rightarrow> (Inl e, s)
      | None \<Rightarrow>
          (if list_ex (\<lambda>d. d_name d = name) (domains (pf_rbac s))
           then (Inl ''UNIQUE constraint failed: bdopsflow_domains.name'', s)
           else (let s1 = set_domains (\<lambda>ds. ds @ [\<lparr>d_id = new_id, d_name = name, d_desc = desc\<rparr>]) s
                 in (GetDomainByID D new_id s1, s1))))"

definition UpdateDomain ::
  "domain_env \<Rightarrow> int \<Rightarrow> string \<Rightarrow> string \<Rightarrow> 'r platform \<Rightarrow> domain_row option result \<times> 'r platform" where
  "UpdateDomain D i name desc s =
     (case D D_update of
        Some e \<Rightarrow> (Inl e, s)
      | None \<Rightarrow>
          (if list_ex (\<lambda>d. d_name d = name \<and> d_id d \<noteq> i) (domains (pf_rbac s)) \<and>
              list_ex (\<lambda>d. d_id d = i) (domains (pf_rbac s))
           then (Inl ''UNIQUE constraint failed: bdopsflow_domains.name'', s)
           else (let s1 = set_domains (upd_where (\<lambda>d. d_id d = i) (\<lambda>d. d\<lparr>d_name := name, d_desc := desc\<rparr>)) s
                 in (GetDomainByID D i s1, s1))))"

definition DeleteDomain :: "domain_env \<Rightarrow> int \<Rightarrow> 'r platform \<Rightarrow> unit result \<times> 'r platform" where
  "DeleteDomain D i s =
     (case GetDomain D i s of
        Inl e \<Rightarrow> (Inl e, s)
      | Inr None \<Rightarrow> (Inl ''domain not found'', s)
      | Inr (Some d) \<Rightarrow>
          (if dm_users d > 0 \<or> dm_executors d > 0 \<or> dm_tasks d > 0
           then (Inl ''domain has associated resources'', s)
           else (case D D_delete of
                   Some e \<Rightarrow> (Inl e, s)
                 | None \<Rightarrow> (Inr (), set_domains (del_where (\<lambda>d. d_id d = i)) s))))"

text \<open>The handlers; \<open>GetErrorCode\<close> knows the two errors of a deletion, which are answered by hand.\<close>

definition valid_name :: "string \<Rightarrow> string \<Rightarrow> bool" where
  "valid_name name desc \<longleftrightarrow> 2 \<le> length name \<and> length name \<le> 100 \<and> length desc \<le> 500"

definition HandleListDomains :: "domain_env \<Rightarrow> db_verdict \<Rightarrow> principal \<Rightarrow> 'r platform \<Rightarrow> domain_stats list reply" where
  "HandleListDomains D E p s =
     (case (if pr_user p > 0 \<and> caller_admin E (pf_rbac s) p then ListDomains D s
            else ListDomainsByUser D (pr_user p) s) of
        Inl e \<Rightarrow> Bad 500 e | Inr ds \<Rightarrow> Good ds)"

definition found :: "string \<Rightarrow> 'a option result \<times> 's \<Rightarrow> 'a reply \<times> 's" where
  "found what r =
     (case r of
        (Inl e, s) \<Rightarrow> (Bad 500 e, s)
      | (Inr None, s) \<Rightarrow> (Bad 404 (what @ '' not found''), s)
      | (Inr (Some x), s) \<Rightarrow> (Good x, s))"

definition HandleGetDomain :: "domain_env \<Rightarrow> int option \<Rightarrow> 'r platform \<Rightarrow> domain_stats reply \<times> 'r platform" where
  "HandleGetDomain D i s = with_id i (\<lambda>i. found ''domain'' (GetDomain D i s, s)) s"

definition HandleCreateDomain ::
  "domain_env \<Rightarrow> int \<Rightarrow> string \<Rightarrow> string \<Rightarrow> 'r platform \<Rightarrow> domain_row option reply \<times> 'r platform" where
  "HandleCreateDomain D new_id name desc s =
     (if \<not> valid_name name desc then (Bad 400 ''invalid request'', s)
      else (case CreateDomain D new_id name desc s of (Inl e, s1) \<Rightarrow> (Bad 500 e, s1) | (Inr d, s1) \<Rightarrow> (Good d, s1)))"

definition HandleUpdateDomain ::
  "domain_env \<Rightarrow> int option \<Rightarrow> string \<Rightarrow> string \<Rightarrow> 'r platform \<Rightarrow> domain_row reply \<times> 'r platform" where
  "HandleUpdateDomain D i name desc s =
     with_id i (\<lambda>i. if \<not> valid_name name desc then (Bad 400 ''invalid request'', s)
                    else found ''domain'' (UpdateDomain D i name desc s)) s"

definition HandleDeleteDomain :: "domain_env \<Rightarrow> int option \<Rightarrow> 'r platform \<Rightarrow> unit reply \<times> 'r platform" where
  "HandleDeleteDomain D i s =
     with_id i (\<lambda>i. case DeleteDomain D i s of
                      (Inl e, s1) \<Rightarrow> (if e = ''domain has associated resources'' then Bad 400 e
                                      else if e = ''domain not found'' then Bad 404 e else Bad 500 e, s1)
                    | (Inr _, s1) \<Rightarrow> (Good (), s1)) s"

section \<open>Roles\<close>

text \<open>The validator anchors its pattern, \<open>[a-z0-9_]+\<close>.\<close>

definition role_code_char :: "char \<Rightarrow> bool" where
  "role_code_char c \<longleftrightarrow> (97 \<le> code c \<and> code c \<le> 122) \<or> digit c \<or> c = CHR ''_''"

definition valid_code :: "string \<Rightarrow> bool" where
  "valid_code c \<longleftrightarrow> 2 \<le> length c \<and> length c \<le> 50 \<and> list_all role_code_char c"

definition ListRoles :: "db_verdict \<Rightarrow> int \<Rightarrow> bool \<Rightarrow> rbac \<Rightarrow> role list result" where
  "ListRoles E d isAdmin db = (if isAdmin then GetAllRoles E db else GetRolesByDomain E db d)"

definition HandleListRoles :: "db_verdict \<Rightarrow> principal \<Rightarrow> rbac \<Rightarrow> role list reply" where
  "HandleListRoles E p db =
     (case ListRoles E (pr_domain p) (pr_user p > 0 \<and> caller_admin E db p) db of Inl e \<Rightarrow> Bad 500 e | Inr rs \<Rightarrow> Good rs)"

definition HandleGetRole :: "db_verdict \<Rightarrow> int option \<Rightarrow> rbac \<Rightarrow> (role \<times> permission list) reply \<times> rbac" where
  "HandleGetRole E i db =
     with_id i (\<lambda>i. (case GetRoleByID E db i of
                       Inl e \<Rightarrow> Bad 500 e
                     | Inr None \<Rightarrow> Bad 404 ''role not found''
                     | Inr (Some r) \<Rightarrow>
                         Good (r, case GetRolePermissions E db i of Inl e \<Rightarrow> [] | Inr ps \<Rightarrow> ps), db)) db"

definition HandleCreateRole ::
  "db_verdict \<Rightarrow> int \<Rightarrow> string \<Rightarrow> string \<Rightarrow> string \<Rightarrow> int option \<Rightarrow> int option \<Rightarrow> rbac \<Rightarrow>
   role reply \<times> rbac" where
  "HandleCreateRole E new_id name cd desc parent dm db =
     (if \<not> valid_name name desc \<or> \<not> valid_code cd then (Bad 400 ''invalid request'', db)
      else (case CreateRole E new_id name cd desc (opt_pos parent) (opt_pos dm) db of
              (Inl e, db1) \<Rightarrow> (Bad 500 e, db1)
            | (Inr None, db1) \<Rightarrow> (Abort 500 ''panic'', db1)
            | (Inr (Some r), db1) \<Rightarrow> (Good r, db1)))"

text \<open>The errors of a role that is no longer there or belongs to the system.\<close>

definition role_error :: "string \<Rightarrow> 'a reply" where
  "role_error e =
     (if e \<in> set [''system role cannot be modified'', ''system role cannot be deleted''] then Bad 400 e
      else if e = ''role not found'' then Bad 404 e
      else if e = ''cannot delete role with child roles'' then Bad 12004 e
      else Bad 500 e)"

definition HandleUpdateRole ::
  "db_verdict \<Rightarrow> int option \<Rightarrow> string \<Rightarrow> string \<Rightarrow> rbac \<Rightarrow> role reply \<times> rbac" where
  "HandleUpdateRole E i name desc db =
     with_id i (\<lambda>i. if \<not> valid_name name desc then (Bad 400 ''invalid request'', db)
                    else (case UpdateRole E i name desc db of
                            (Inl e, db1) \<Rightarrow> (role_error e, db1)
                          | (Inr None, db1) \<Rightarrow> (Bad 404 ''role not found'', db1)
                          | (Inr (Some r), db1) \<Rightarrow> (Good r, db1))) db"

definition HandleDeleteRole :: "db_verdict \<Rightarrow> int option \<Rightarrow> rbac \<Rightarrow> unit reply \<times> rbac" where
  "HandleDeleteRole E i db =
     with_id i (\<lambda>i. case DeleteRole E i db of
                      (Inl e, db1) \<Rightarrow> (role_error e, db1) | (Inr _, db1) \<Rightarrow> (Good (), db1)) db"

definition HandleRolePermissions :: "db_verdict \<Rightarrow> int option \<Rightarrow> rbac \<Rightarrow> permission list reply \<times> rbac" where
  "HandleRolePermissions E i db =
     with_id i (\<lambda>i. (case GetRolePermissions E db i of Inl e \<Rightarrow> Bad 500 e | Inr ps \<Rightarrow> Good ps, db)) db"

definition HandleAssignPermissions :: "db_verdict \<Rightarrow> int option \<Rightarrow> int list \<Rightarrow> rbac \<Rightarrow> unit reply \<times> rbac" where
  "HandleAssignPermissions E i pids db =
     with_id i (\<lambda>i. if pids = [] then (Bad 400 ''invalid request'', db)
                    else (case AssignPermissionsToRole E i pids db of
                            (Inl e, db1) \<Rightarrow> (role_error e, db1) | (Inr _, db1) \<Rightarrow> (Good (), db1))) db"

definition HandleAllPermissions ::
  "db_verdict \<Rightarrow> string list \<Rightarrow> rbac \<Rightarrow> (permission list \<times> permission_group list) reply" where
  "HandleAllPermissions E ks db =
     (case GetAllPermissions E db of Inl e \<Rightarrow> Bad 500 e | Inr ps \<Rightarrow> Good (ps, BuildPermissionGroups ks ps))"

end
