(* ===== verification/Admin_Properties.thy ===== *)
theory Admin_Properties
  imports Admin_Requests Task_Request_Properties Access_Properties
begin

text \<open>
  What the requests that administer executors, domains and roles add up to: the status that is shown against
  the selection of executors, the deletion of executors against the check that goes before it, the references
  to domains as an invariant of the requests on domains, and what the permission to manage roles comes to.
\<close>

section \<open>Executors\<close>

lemma shown_online_selectable:
  "shown_status now e = ''online'' \<Longrightarrow> e_load e < e_capacity e \<Longrightarrow> selectable now e"
  by (auto simp: shown_status_def selectable_def heartbeat_after_def split: option.splits if_splits)

lemma only_candidate_is_selected:
  assumes "env_db V S_select_executor = None" "\<forall>f. eligible V d s f \<longleftrightarrow> f = e"
  shows "\<exists>y. SelectAvailableExecutor V d s = Inr y \<and> e_id y = e_id e"
proof (cases "least_loaded (env_choice V) (candidates V d s)")
  case None
  then show ?thesis using assms(2) candidates_set [of e V d s] by (simp add: least_loaded_None)
next
  case (Some f)
  then have "f = e" using assms(2) least_loaded_Some candidates_set by metis
  then show ?thesis
    using Some assms(1) by (simp add: SelectAvailableExecutor_def scanExecutorResult_def executor_row9_def)
qed

text \<open>The list of executors counts a heartbeat for 30 seconds, the selection for 45. Let one executor be the only one
  that qualifies for a task. The system administrator finds it in his list; it is shown as offline exactly when its last
  heartbeat is older than 30 seconds, and then it is less than 45 seconds old and the task is given to it all the same.\<close>

theorem executors_shown_offline_are_selected:
  assumes "\<forall>st. env_db V st = None" "caller_admin E db p"
    and "\<forall>f. eligible V d s f \<longleftrightarrow> f = e" "e_heartbeat e = Some t"
  shows "\<exists>rows x ds y. HandleExecutorsWithDomains V E db p s = Good rows \<and> length rows = length (s_executors s) \<and>
    (x, ds) \<in> set rows \<and> e_id x = e_id e \<and> e_heartbeat x = Some t \<and>
    (e_status x = ''offline'' \<longleftrightarrow> 30 * second < env_now V - t) \<and> env_now V - t < 45 * second \<and>
    SelectAvailableExecutor V d s = Inr y \<and> e_id y = e_id e"
proof -
  have e: "e \<in> set (s_executors s)" "selectable (env_now V) e"
    using assms(3) by (auto simp: eligible_def)
  then have t: "env_now V - t < 45 * second" "e_status e = ''online''"
    using assms(4) by (simp_all add: selectable_def heartbeat_after_def)
  let ?rows = "map (executorWithDomainsToDTO (env_now V))
    (map (scan_with_domains V (domains db) s) (sort_key e_name (s_executors s)))"
  let ?x = "executorWithDomainsToDTO (env_now V) (scan_with_domains V (domains db) s e)"
  have "?x \<in> set ?rows" using e(1) by (auto simp: image_image)
  moreover have "e_id (fst ?x) = e_id e" "e_heartbeat (fst ?x) = Some t"
      "e_status (fst ?x) = ''offline'' \<longleftrightarrow> 30 * second < env_now V - t"
    using t assms(4) by (simp_all add: executorWithDomainsToDTO_def scan_with_domains_def)
  moreover have "HandleExecutorsWithDomains V E db p s = Good ?rows"
    using assms(1,2) by (simp add: HandleExecutorsWithDomains_def GetExecutorsByUserRole_def)
  moreover have "length ?rows = length (s_executors s)" by simp
  moreover obtain y where "SelectAvailableExecutor V d s = Inr y" "e_id y = e_id e"
    using only_candidate_is_selected [OF spec [OF assms(1)] assms(3)] by auto
  moreover have "?x = (fst ?x, snd ?x)" by simp
  ultimately show ?thesis using t(1) by metis
qed

lemma executors_shown_offline_are_selected_witness:
  "\<exists>rows x ds. HandleExecutorsWithDomains demo_env (\<lambda>q. None)
       (demo_rbac\<lparr>roles := [\<lparr>r_id = 1, r_name = [], r_code = ''system_admin'', r_desc = [], r_system = True,
          r_parent = None, r_domain = None\<rparr>]\<rparr>) operator
       (demo_sched\<lparr>s_executors := [demo_executor\<lparr>e_heartbeat := Some (60 * second)\<rparr>]\<rparr>) = Good rows \<and>
     (x, ds) \<in> set rows \<and> e_id x = 7 \<and> e_status x = ''offline'' \<and>
     map_sum id e_id (SelectAvailableExecutor demo_env 1
       (demo_sched\<lparr>s_executors := [demo_executor\<lparr>e_heartbeat := Some (60 * second)\<rparr>]\<rparr>)) = Inr 7"
proof -
  let ?e = "demo_executor\<lparr>e_heartbeat := Some (60 * second)\<rparr>"
  let ?s = "demo_sched\<lparr>s_executors := [?e]\<rparr>"
  let ?db = "demo_rbac\<lparr>roles := [\<lparr>r_id = 1, r_name = [], r_code = ''system_admin'', r_desc = [], r_system = True,
          r_parent = None, r_domain = None\<rparr>]\<rparr>"
  have admin: "caller_admin (\<lambda>q. None) ?db operator"
    by (simp add: caller_admin_def IsSystemAdmin_def demo_rbac_def operator_def count_where_def)
  have "\<forall>f. eligible demo_env 1 ?s f \<longleftrightarrow> f = ?e"
    by (auto simp: eligible_def selectable_def heartbeat_after_def demo_executor_def demo_sched_def)
  from executors_shown_offline_are_selected [of demo_env, OF _ admin this, of "60 * second"]
  obtain rows x ds y where w: "HandleExecutorsWithDomains demo_env (\<lambda>q. None) ?db operator ?s = Good rows"
    "(x, ds) \<in> set rows" "e_id x = 7" "e_status x = ''offline''"
    "SelectAvailableExecutor demo_env 1 ?s = Inr y" "e_id y = 7"
    by (auto simp: demo_executor_def)
  then have "map_sum id e_id (SelectAvailableExecutor demo_env 1 ?s) = Inr 7" by simp
  then show ?thesis using w(1-4) by blast
qed

lemma GetExecutorByName_first:
  assumes "\<forall>st. env_db V st = None" "first_where (\<lambda>e. e_name e = n) (s_executors s) = Some x"
  shows "\<exists>y. GetExecutorByName V n s = Inr y \<and> e_id y = e_id x"
  using assms by (simp add: GetExecutorByName_def scanExecutorResult_def executor_row10_def)

text \<open>The check before a deletion binds nothing. To anyone but a system administrator it answers that an executor of
  two or more domains cannot be deleted, and how many tasks are assigned to it; the request to delete that executor succeeds
  all the same and the executor is gone.\<close>

theorem refused_deletion_succeeds:
  fixes V :: "'r env"
  assumes "\<forall>st. env_db V st = None" "distinct (map e_id (s_executors s))"
    and "first_where (\<lambda>e. e_name e = n) (s_executors s) = Some x" "n \<noteq> []"
    and "\<not> caller_admin E db p" "count_where (\<lambda>(d, y). y = e_id x) (s_domain_executors s) \<ge> 2"
  shows "\<exists>r s1. HandleCanDeleteExecutor V E db n p s = (Good r, s) \<and> \<not> dc_can r \<and>
      dc_tasks r = count_where (\<lambda>t. t_assigned t = e_id x) (s_tasks s) \<and>
      HandleDeleteExecutor V n s = (Good (), s1) \<and> e_id x \<notin> e_id ` set (s_executors s1)"
proof -
  obtain y where y: "GetExecutorByName V n s = Inr y" "e_id y = e_id x"
    using GetExecutorByName_first [OF assms(1,3)] by blast
  let ?s1 = "s\<lparr>s_executors := del_where (\<lambda>e. e_name e = n) (s_executors s)\<rparr>"
  have x: "x \<in> set (s_executors s)" "e_name x = n" using first_where_Some [OF assms(3)] by simp_all
  show ?thesis
  proof (intro exI conjI)
    show "HandleCanDeleteExecutor V E db n p s =
       (Good \<lparr>dc_can = False, dc_reason = ''executor is assigned to multiple domains, only system admin can delete'',
              dc_has_tasks = (count_where (\<lambda>t. t_assigned t = e_id x) (s_tasks s) > 0),
              dc_tasks = count_where (\<lambda>t. t_assigned t = e_id x) (s_tasks s)\<rparr>, s)"
      using y assms(1,4,5,6)
      by (simp add: HandleCanDeleteExecutor_def on_executor_def GetAssignedTasksForExecutor_def
          CanDomainAdminDeleteExecutor_def GetExecutorDomainCount_def)
    show "HandleDeleteExecutor V n s = (Good (), ?s1)"
      using assms(1,4) by (simp add: HandleDeleteExecutor_def named_request_def parseName_def DeleteExecutorByName_def)
    show "e_id x \<notin> e_id ` set (s_executors ?s1)"
      using assms(2) x by (auto simp: distinct_map inj_on_def)
  qed simp_all
qed

lemma refused_deletion_succeeds_witness:
  "\<exists>r s1. HandleCanDeleteExecutor demo_env (\<lambda>q. None) demo_rbac ''w1'' operator
        (demo_sched\<lparr>s_domain_executors := [(1, 7), (3, 7)], s_tasks := [demo_task\<lparr>t_assigned := 7\<rparr>]\<rparr>) =
      (Good r, demo_sched\<lparr>s_domain_executors := [(1, 7), (3, 7)], s_tasks := [demo_task\<lparr>t_assigned := 7\<rparr>]\<rparr>) \<and>
    \<not> dc_can r \<and>
    HandleDeleteExecutor demo_env ''w1''
        (demo_sched\<lparr>s_domain_executors := [(1, 7), (3, 7)], s_tasks := [demo_task\<lparr>t_assigned := 7\<rparr>]\<rparr>) = (Good (), s1) \<and> 7 \<notin> e_id ` set (s_executors s1)"
proof -
  let ?s = "demo_sched\<lparr>s_domain_executors := [(1, 7), (3, 7)], s_tasks := [demo_task\<lparr>t_assigned := 7\<rparr>]\<rparr>"
  have x: "first_where (\<lambda>e. e_name e = ''w1'') (s_executors ?s) = Some demo_executor" by (simp add: demo_defs)
  have "\<not> caller_admin (\<lambda>q. None) demo_rbac operator"
    by (simp add: caller_admin_def IsSystemAdmin_def demo_rbac_def operator_def count_where_def)
  note facts = refused_deletion_succeeds [OF _ _ x _ this, of demo_env]
  show ?thesis using facts by (simp add: demo_defs count_where_def) blast
qed

section \<open>Domains\<close>

text \<open>One request on the table of domains, whatever the database answers and whoever asks; a new row gets
  an id that no row has.\<close>

inductive domain_change :: "'r platform \<Rightarrow> 'r platform \<Rightarrow> bool" where
  domain_created: "(\<And>d. d \<in> set (domains (pf_rbac s)) \<Longrightarrow> d_id d \<noteq> i) \<Longrightarrow>
    HandleCreateDomain D i name desc s = (r, s1) \<Longrightarrow> domain_change s s1"
| domain_updated: "HandleUpdateDomain D j name desc s = (r, s1) \<Longrightarrow> domain_change s s1"
| domain_deleted: "HandleDeleteDomain D j s = (r, s1) \<Longrightarrow> domain_change s s1"

definition referenced :: "int \<Rightarrow> 'r platform \<Rightarrow> bool" where
  "referenced i s \<longleftrightarrow> (\<exists>ud\<in>set (user_domains (pf_rbac s)). ud_domain ud = i) \<or>
     (\<exists>x. (i, x) \<in> set (s_domain_executors (pf_sched s))) \<or> (\<exists>t\<in>set (s_tasks (pf_sched s)). t_domain t = i)"

definition domain_wf :: "'r platform \<Rightarrow> bool" where
  "domain_wf s \<longleftrightarrow> distinct (map d_id (domains (pf_rbac s))) \<and> distinct (map d_name (domains (pf_rbac s))) \<and>
     (\<forall>i. referenced i s \<longrightarrow> i \<in> d_id ` set (domains (pf_rbac s)))"

lemma referenced_set_domains [simp]: "referenced i (set_domains f s) = referenced i s"
  by (simp add: referenced_def set_domains_def)

lemma domains_set_domains [simp]: "domains (pf_rbac (set_domains f s)) = f (domains (pf_rbac s))"
  by (simp add: set_domains_def)

lemma stats_referenced:
  "dm_users (stats_of s d) > 0 \<or> dm_executors (stats_of s d) > 0 \<or> dm_tasks (stats_of s d) > 0 \<longleftrightarrow>
   referenced (d_id d) s"
  unfolding stats_of_def by (auto simp: count_where_pos referenced_def)

lemma CreateDomain_cases:
  "snd (CreateDomain D i name desc s) = s \<or> name \<notin> d_name ` set (domains (pf_rbac s)) \<and>
   snd (CreateDomain D i name desc s) = set_domains (\<lambda>ds. ds @ [\<lparr>d_id = i, d_name = name, d_desc = desc\<rparr>]) s"
  by (auto simp: CreateDomain_def Let_def list_ex_iff split: option.splits)

lemma UpdateDomain_cases:
  "snd (UpdateDomain D i name desc s) = s \<or>
   (\<forall>d\<in>set (domains (pf_rbac s)). d_name d = name \<longrightarrow> d_id d = i \<or> i \<notin> d_id ` set (domains (pf_rbac s))) \<and>
   snd (UpdateDomain D i name desc s) =
     set_domains (upd_where (\<lambda>d. d_id d = i) (\<lambda>d. d\<lparr>d_name := name, d_desc := desc\<rparr>)) s"
  by (auto simp: UpdateDomain_def Let_def list_ex_iff split: option.splits)

lemma DeleteDomain_cases:
  "snd (DeleteDomain D i s) = s \<or> \<not> referenced i s \<and>
   snd (DeleteDomain D i s) = set_domains (del_where (\<lambda>d. d_id d = i)) s"
proof -
  have "\<not> referenced i s" if "first_where (\<lambda>d. d_id d = i) (domains (pf_rbac s)) = Some d"
      "\<not> (dm_users (stats_of s d) > 0 \<or> dm_executors (stats_of s d) > 0 \<or> dm_tasks (stats_of s d) > 0)" for d
    using that first_where_Some [OF that(1)] stats_referenced [of s d] by simp
  then show ?thesis by (auto simp: DeleteDomain_def GetDomain_def on_db_def split: option.splits sum.splits)
qed

text \<open>A change of a row keeps the names distinct when nobody else has the new one.\<close>

lemma distinct_update:
  assumes "distinct (map g t)" "distinct (map k t)" "\<And>x. x \<in> set t \<Longrightarrow> g x = n \<Longrightarrow> k x = i"
    and "\<And>x. g (f x) = n"
  shows "distinct (map g (upd_where (\<lambda>x. k x = i) f t))"
  using assms
proof (induction t)
  case Nil
  then show ?case by simp
next
  case (Cons a t)
  then have IH: "distinct (map g (upd_where (\<lambda>x. k x = i) f t))" by simp
  show ?case
  proof (cases "k a = i")
    case True
    have k: "x \<in> set t \<Longrightarrow> k x \<noteq> i" for x using True Cons.prems(2) by (metis distinct.simps(2) imageI list.set_map list.simps(9))
    then have "x \<in> set t \<Longrightarrow> g x \<noteq> n \<and> k x \<noteq> i" for x using Cons.prems(3) [of x] by auto
    then show ?thesis using True IH Cons.prems(4) by (auto simp: set_upd_where)
  next
    case False
    then show ?thesis using IH Cons.prems by (auto simp: set_upd_where)
  qed
qed

lemma domain_wf_create:
  assumes "domain_wf s" "i \<notin> d_id ` set (domains (pf_rbac s))" "name \<notin> d_name ` set (domains (pf_rbac s))"
  shows "domain_wf (set_domains (\<lambda>ds. ds @ [\<lparr>d_id = i, d_name = name, d_desc = desc\<rparr>]) s)"
  using assms by (auto simp: domain_wf_def)

lemma domain_wf_update:
  assumes "domain_wf s" "\<forall>d\<in>set (domains (pf_rbac s)). d_name d = name \<longrightarrow> d_id d = i \<or> i \<notin> d_id ` set (domains (pf_rbac s))"
  shows "domain_wf (set_domains (upd_where (\<lambda>d. d_id d = i) (\<lambda>d. d\<lparr>d_name := name, d_desc := desc\<rparr>)) s)"
proof (cases "i \<in> d_id ` set (domains (pf_rbac s))")
  case True
  have "distinct (map d_name (upd_where (\<lambda>d. d_id d = i) (\<lambda>d. d\<lparr>d_name := name, d_desc := desc\<rparr>)
      (domains (pf_rbac s))))"
    using assms True by (intro distinct_update [where n = name]) (auto simp: domain_wf_def)
  moreover have ids: "map d_id (upd_where (\<lambda>d. d_id d = i) (\<lambda>d. d\<lparr>d_name := name, d_desc := desc\<rparr>) t) = map d_id t"
    for t :: "domain_row list" by (simp add: map_upd_where)
  moreover have "d_id ` set (upd_where (\<lambda>d. d_id d = i) (\<lambda>d. d\<lparr>d_name := name, d_desc := desc\<rparr>) t) = d_id ` set t"
    for t :: "domain_row list" using ids by (metis list.set_map)
  ultimately show ?thesis using assms(1) by (simp add: domain_wf_def)
next
  case False
  then have "upd_where (\<lambda>d. d_id d = i) (\<lambda>d. d\<lparr>d_name := name, d_desc := desc\<rparr>) (domains (pf_rbac s)) =
      domains (pf_rbac s)"
    by (intro upd_where_none) auto
  then show ?thesis using assms(1) by (simp add: domain_wf_def)
qed

lemma domain_wf_delete:
  assumes "domain_wf s" "\<not> referenced i s"
  shows "domain_wf (set_domains (del_where (\<lambda>d. d_id d = i)) s)"
  using assms by (auto simp: domain_wf_def del_where_def distinct_map_filter)

lemma snd_HandleCreateDomain: "HandleCreateDomain D i name desc s = (r, s1) \<Longrightarrow> s1 = s \<or> s1 = snd (CreateDomain D i name desc s)"
  by (auto simp: HandleCreateDomain_def split: if_splits sum.splits prod.splits)

lemma snd_HandleUpdateDomain:
  "HandleUpdateDomain D j name desc s = (r, s1) \<Longrightarrow> s1 = s \<or> (\<exists>i. s1 = snd (UpdateDomain D i name desc s))"
  by (auto simp: HandleUpdateDomain_def with_id_def found_def split: if_splits option.splits sum.splits prod.splits)
    (metis snd_conv)+

lemma snd_HandleDeleteDomain:
  "HandleDeleteDomain D j s = (r, s1) \<Longrightarrow> s1 = s \<or> (\<exists>i. s1 = snd (DeleteDomain D i s))"
  by (auto simp: HandleDeleteDomain_def with_id_def split: if_splits option.splits sum.splits prod.splits)
    (metis snd_conv)+

lemma domain_change_wf: "domain_change s s1 \<Longrightarrow> domain_wf s \<Longrightarrow> domain_wf s1"
proof (induction rule: domain_change.induct)
  case (domain_created s i D name desc r s1)
  then show ?case
    using snd_HandleCreateDomain [OF domain_created(2)] CreateDomain_cases [of D i name desc s]
      domain_wf_create [of s i name desc] by (metis image_iff)
next
  case (domain_updated D j name desc s r s1)
  then obtain i where "s1 = s \<or> s1 = snd (UpdateDomain D i name desc s)"
    using snd_HandleUpdateDomain by blast
  then show ?case
    using domain_updated(2) UpdateDomain_cases [of D i name desc s] domain_wf_update [of s name i desc] by metis
next
  case (domain_deleted D j s r s1)
  then obtain i where "s1 = s \<or> s1 = snd (DeleteDomain D i s)"
    using snd_HandleDeleteDomain by blast
  then show ?case using domain_deleted(2) DeleteDomain_cases [of D i s] domain_wf_delete [of s i] by metis
qed

interpretation domain_table: transition_invariant domain_wf domain_change domain_wf
  by unfold_locales (auto intro: domain_change_wf)

lemma delete_succeeds_iff:
  "(\<exists>s1. HandleDeleteDomain (\<lambda>q. None) (Some i) s = (Good (), s1)) \<longleftrightarrow>
   i > 0 \<and> i \<in> d_id ` set (domains (pf_rbac s)) \<and> \<not> referenced i s"
proof (cases "first_where (\<lambda>d. d_id d = i) (domains (pf_rbac s))")
  case None
  then have "i \<notin> d_id ` set (domains (pf_rbac s))" by (auto simp: first_where_None)
  then show ?thesis using None by (simp add: HandleDeleteDomain_def with_id_def DeleteDomain_def GetDomain_def)
next
  case (Some d)
  then have "d \<in> set (domains (pf_rbac s))" "d_id d = i" using first_where_Some [OF Some] by simp_all
  then show ?thesis
    using Some stats_referenced [of s d] by (auto simp: HandleDeleteDomain_def with_id_def DeleteDomain_def GetDomain_def)
qed

text \<open>C7: Start where ids and names of domains are unique and every member, executor and task refers to a domain that
  exists. Whatever requests on the table of domains follow, and whatever statements fail, that stays so; and at every such
  moment a deletion, no statement of which fails, succeeds exactly when the domain exists and no member, executor or task
  refers to it. Roles and their holders, webhooks, data sources and dashboards of the domain are not looked at: what becomes of
  their references is left to the foreign keys of the database.\<close>

theorem domain_requests_keep_references:
  assumes "reach domain_wf domain_change s"
  shows "domain_wf s \<and>
    ((\<exists>s1. HandleDeleteDomain (\<lambda>q. None) (Some i) s = (Good (), s1)) \<longleftrightarrow>
       i > 0 \<and> i \<in> d_id ` set (domains (pf_rbac s)) \<and> \<not> referenced i s)"
  using domain_table.reach_inv [OF assms] delete_succeeds_iff by blast

lemma domain_requests_keep_references_witness:
  "let s = snd (HandleCreateDomain (\<lambda>q. None) 4 ''new'' [] \<lparr>pf_rbac = demo_rbac, pf_sched = demo_sched
             \<lparr>s_tasks := [], s_domain_executors := []\<rparr>\<rparr>)
   in domain_wf s \<and> (\<exists>s1. HandleDeleteDomain (\<lambda>q. None) (Some 4) s = (Good (), s1)) \<and>
      \<not> (\<exists>s1. HandleDeleteDomain (\<lambda>q. None) (Some 3) s = (Good (), s1))"
proof -
  let ?base = "\<lparr>pf_rbac = demo_rbac, pf_sched = demo_sched\<lparr>s_tasks := [], s_domain_executors := []\<rparr>\<rparr>"
  let ?s = "snd (HandleCreateDomain (\<lambda>q. None) 4 ''new'' [] ?base)"
  have "domain_wf ?base" by (simp add: domain_wf_def referenced_def demo_rbac_def)
  moreover have "domain_change ?base ?s"
    by (rule domain_created [where i = 4 and r = "fst (HandleCreateDomain (\<lambda>q. None) 4 ''new'' [] ?base)"])
      (simp_all add: demo_rbac_def)
  ultimately have "reach domain_wf domain_change ?s" by (rule reach_one)
  note facts = domain_requests_keep_references [OF this]
  have s: "?s = set_domains (\<lambda>ds. ds @ [\<lparr>d_id = 4, d_name = ''new'', d_desc = []\<rparr>]) ?base"
    by (simp add: HandleCreateDomain_def valid_name_def CreateDomain_def demo_rbac_def Let_def split: sum.splits)
  have "referenced 3 ?base" "\<not> referenced 4 ?base" by (simp_all add: referenced_def demo_rbac_def)
  then show ?thesis using facts [of 4] facts [of 3] unfolding Let_def s by simp
qed

section \<open>Roles\<close>

text \<open>The routes /admin: a permission in the domain of the caller, then the handler. A handler of roles sees
  the tables of roles only.\<close>

definition admin_route ::
  "user_env \<Rightarrow> string \<Rightarrow> string \<Rightarrow> principal \<Rightarrow> (identity \<Rightarrow> 'a reply \<times> identity) \<Rightarrow> identity \<Rightarrow>
   'a reply \<times> identity" where
  "admin_route V resource action p handler s =
     (case RequirePermission (ue_rbac V) (id_rbac s) resource action p of
        Some (c, m) \<Rightarrow> (Abort c m, s)
      | None \<Rightarrow> handler s)"

definition on_rbac :: "(rbac \<Rightarrow> 'a reply \<times> rbac) \<Rightarrow> identity \<Rightarrow> 'a reply \<times> identity" where
  "on_rbac f s = (case f (id_rbac s) of (r, db) \<Rightarrow> (r, s\<lparr>id_rbac := db\<rparr>))"

lemma snd_on_rbac [simp]: "snd (on_rbac f s) = s\<lparr>id_rbac := snd (f (id_rbac s))\<rparr>"
  by (simp add: on_rbac_def split: prod.split)

text \<open>Someone makes a role, gives it permissions and assigns it to himself.\<close>

definition take_permissions ::
  "user_env \<Rightarrow> int \<Rightarrow> string \<Rightarrow> int list \<Rightarrow> principal \<Rightarrow> identity \<Rightarrow> unit reply \<times> identity" where
  "take_permissions V i cd pids p s =
     (let s1 = snd (admin_route V ''role'' ''manage'' p
                 (on_rbac (HandleCreateRole (ue_rbac V) i ''role'' cd [] None None)) s);
          s2 = snd (admin_route V ''role'' ''manage'' p
                 (on_rbac (HandleAssignPermissions (ue_rbac V) (Some i) pids)) s1)
      in admin_route V ''user'' ''manage'' p (HandleAssignUserRoles V (pr_user p) [i] []  p) s2)"

lemma entitled_mono:
  assumes "entitled db u r a d" "set (roles db) \<subseteq> set (roles db')" "user_roles db' = user_roles db"
    and "permissions db' = permissions db" "set (role_permissions db) \<subseteq> set (role_permissions db')"
  shows "entitled db' u r a d"
  using assms(1,2,5) unfolding entitled_def is_admin_def role_grants_def assms(3,4) by blast

lemma RequirePermission_entitled:
  "db_ok E \<Longrightarrow> RequirePermission E db r a p = None \<longleftrightarrow> entitled db (pr_user p) r a (pr_domain p)"
  by (simp add: RequirePermission_def HasPermission_entitled verdict_of_def)

definition with_role :: "int \<Rightarrow> string \<Rightarrow> int list \<Rightarrow> rbac \<Rightarrow> rbac" where
  "with_role i cd pids db = db\<lparr>roles := roles db @ [\<lparr>r_id = i, r_name = ''role'', r_code = cd, r_desc = [],
       r_system = False, r_parent = None, r_domain = None\<rparr>],
     role_permissions := role_permissions db @ map (\<lambda>p. (i, p)) pids\<rparr>"

lemma first_where_snoc: "n \<notin> g ` set xs \<Longrightarrow> g x = n \<Longrightarrow> first_where (\<lambda>y. g y = n) (xs @ [x]) = Some x"
  by (induction xs) auto

lemma first_where_new_role:
  "i \<notin> r_id ` set (roles db) \<Longrightarrow> first_where (\<lambda>r. r_id r = i) (roles (with_role i cd pids db)) =
     Some \<lparr>r_id = i, r_name = ''role'', r_code = cd, r_desc = [], r_system = False, r_parent = None, r_domain = None\<rparr>"
  unfolding with_role_def by (simp add: first_where_snoc)

lemma create_role_ok:
  assumes "db_ok E" "valid_code cd" "i \<notin> r_id ` set (roles db)"
  shows "snd (HandleCreateRole E i ''role'' cd [] None None db) = with_role i cd [] db"
  using assms(1,2) first_where_new_role [OF assms(3), of cd "[]"]
  by (simp add: HandleCreateRole_def valid_name_def CreateRole_def GetRoleByID_def with_role_def opt_pos_def
      db_ok_def Let_def)

lemma assign_permissions_ok:
  assumes "db_ok E" "i > 0" "pids \<noteq> []" "i \<notin> r_id ` set (roles db)" "i \<notin> fst ` set (role_permissions db)"
  shows "snd (HandleAssignPermissions E (Some i) pids (with_role i cd [] db)) = with_role i cd pids db"
proof -
  have "del_where (\<lambda>(r, p). r = i) (role_permissions db) = role_permissions db"
    using assms(5) by (force simp: del_where_def filter_id_conv)
  then show ?thesis
    using assms(1-3) first_where_new_role [OF assms(4), of cd "[]"]
    by (simp add: HandleAssignPermissions_def with_id_def AssignPermissionsToRole_def assign_permissions_def
        GetRoleByID_def scan_role_def db_ok_def Let_def with_role_def)
qed

lemma assign_own_role_ok:
  assumes "\<And>q. ue_db V q = None" "db_ok (ue_rbac V)" "pr_user p > 0" "cd \<noteq> ''system_admin''"
    and "i \<notin> r_id ` set (roles db)"
  shows "HandleAssignUserRoles V (pr_user p) [i] [] p (s\<lparr>id_rbac := with_role i cd pids db\<rparr>) =
    (Good (), s\<lparr>id_rbac := (with_role i cd pids db)\<lparr>user_roles := del_where (\<lambda>r. ur_user r = pr_user p) (user_roles db) @
       [\<lparr>ur_user = pr_user p, ur_role = i, ur_domain = None\<rparr>]\<rparr>\<rparr>)"
proof -
  have "\<not> AreRolesSystemOnly (\<lambda>r. ue_rbac V) (with_role i cd pids db) [i]"
    using assms(2,4) first_where_new_role [OF assms(5), of cd pids] by (simp add: GetRoleCodeByID_def db_ok_def)
  moreover have "user_roles (with_role i cd pids db) = user_roles db" by (simp add: with_role_def)
  ultimately show ?thesis using assms(1,3) by (simp add: HandleAssignUserRoles_def AssignUserRoles_ok)
qed

text \<open>C6: The permissions to manage roles and users, which the administrator of a domain has by default, amount to
  every permission there is. In three requests, making a role, giving it any permissions and assigning it to himself, someone
  with these two in his domain gets all of them, in every domain; only the code of the role must not be that of the administrator.\<close>

theorem role_manager_gets_every_permission:
  assumes "\<And>q. ue_db V q = None" "db_ok (ue_rbac V)" "pr_user p > 0"
    and "RequirePermission (ue_rbac V) (id_rbac s) ''role'' ''manage'' p = None"
    and "RequirePermission (ue_rbac V) (id_rbac s) ''user'' ''manage'' p = None"
    and "valid_code cd" "cd \<noteq> ''system_admin''" "i > 0" "pids \<noteq> []"
    and "i \<notin> r_id ` set (roles (id_rbac s))" "i \<notin> fst ` set (role_permissions (id_rbac s))"
    and "pm \<in> set (permissions (id_rbac s))" "p_id pm \<in> set pids"
  shows "fst (take_permissions V i cd pids p s) = Good () \<and>
    HasPermission (ue_rbac V) (id_rbac (snd (take_permissions V i cd pids p s))) (pr_user p)
      (p_resource pm) (p_action pm) d = Inr True"
proof -
  let ?db = "id_rbac s" and ?E = "ue_rbac V"
  have may: "RequirePermission ?E (with_role i cd ps ?db) r ''manage'' p = None"
    if "RequirePermission ?E ?db r ''manage'' p = None" for ps r
    using that unfolding RequirePermission_entitled [OF assms(2)]
    by (rule entitled_mono) (auto simp: with_role_def)
  have "snd (admin_route V ''role'' ''manage'' p (on_rbac (HandleCreateRole ?E i ''role'' cd [] None None)) s) =
      s\<lparr>id_rbac := with_role i cd [] ?db\<rparr>"
    using assms(4) create_role_ok [OF assms(2,6,10)] by (simp add: admin_route_def)
  moreover have "snd (admin_route V ''role'' ''manage'' p (on_rbac (HandleAssignPermissions ?E (Some i) pids))
      (s\<lparr>id_rbac := with_role i cd [] ?db\<rparr>)) = s\<lparr>id_rbac := with_role i cd pids ?db\<rparr>"
    using may [OF assms(4), of "[]"] assign_permissions_ok [OF assms(2,8,9,10,11), of cd]
    by (simp add: admin_route_def)
  ultimately have "take_permissions V i cd pids p s =
      (Good (), s\<lparr>id_rbac := (with_role i cd pids ?db)\<lparr>user_roles := del_where (\<lambda>r. ur_user r = pr_user p)
         (user_roles ?db) @ [\<lparr>ur_user = pr_user p, ur_role = i, ur_domain = None\<rparr>]\<rparr>\<rparr>)"
    using may [OF assms(5), of pids] assign_own_role_ok [OF assms(1,2,3,7,10), where s = s and pids = pids]
    by (simp add: take_permissions_def admin_route_def)
  moreover have "role_grants (with_role i cd pids ?db) i (p_resource pm) (p_action pm)"
    using assms(12,13) by (auto simp: role_grants_def with_role_def)
  ultimately show ?thesis
    by (simp add: HasPermission_entitled [OF assms(2)] entitled_def role_grants_def)
qed

definition demo_manager :: identity where
  "demo_manager = demo_people\<lparr>id_rbac := (id_rbac demo_people)\<lparr>
     permissions := [\<lparr>p_id = 20, p_resource = ''role'', p_action = ''manage'', p_desc = []\<rparr>,
       \<lparr>p_id = 21, p_resource = ''user'', p_action = ''manage'', p_desc = []\<rparr>,
       \<lparr>p_id = 22, p_resource = ''config'', p_action = ''manage'', p_desc = []\<rparr>],
     role_permissions := [(2, 20), (2, 21)]\<rparr>\<rparr>"

lemma role_manager_gets_every_permission_witness:
  "HasPermission (\<lambda>q. None) (id_rbac demo_manager) 8 ''config'' ''manage'' 3 = Inr False \<and>
   HasPermission (\<lambda>q. None) (id_rbac (snd (take_permissions demo_uenv 5 ''boss'' [22] ann demo_manager))) 8
     ''config'' ''manage'' 3 = Inr True"
proof -
  have E: "db_ok (ue_rbac demo_uenv)" "ue_rbac demo_uenv = (\<lambda>q. None)" by (simp_all add: demo_uenv_def db_ok_def)
  have "\<not> entitled (id_rbac demo_manager) 8 ''config'' ''manage'' 3"
    by (simp add: entitled_def is_admin_def role_grants_def demo_manager_def demo_people_def)
  moreover have "RequirePermission (ue_rbac demo_uenv) (id_rbac demo_manager) ''role'' ''manage'' ann = None"
      "RequirePermission (ue_rbac demo_uenv) (id_rbac demo_manager) ''user'' ''manage'' ann = None"
    unfolding RequirePermission_entitled [OF E(1)]
    by (simp_all add: entitled_def is_admin_def role_grants_def demo_manager_def demo_people_def ann_def)
  moreover have "valid_code ''boss''" by code_simp
  moreover have "5 \<notin> r_id ` set (roles (id_rbac demo_manager))" "5 \<notin> fst ` set (role_permissions (id_rbac demo_manager))"
    "\<lparr>p_id = 22, p_resource = ''config'', p_action = ''manage'', p_desc = []\<rparr> \<in> set (permissions (id_rbac demo_manager))"
    by (simp_all add: demo_manager_def demo_people_def)
  moreover have "pr_user ann = 8" "ue_db demo_uenv q = None" for q by (simp_all add: ann_def demo_uenv_def)
  ultimately show ?thesis
    using role_manager_gets_every_permission [of demo_uenv ann demo_manager "''boss''" 5 "[22]"
        "\<lparr>p_id = 22, p_resource = ''config'', p_action = ''manage'', p_desc = []\<rparr>" 3, OF _ E(1)]
    by (simp add: HasPermission_entitled [OF E(1)] E(2) [symmetric])
qed

end
