(* ===== verification/Webhooks.thy ===== *)
theory Webhooks
  imports Task_Requests
begin

text \<open>
  Webhooks (scheduler/internal/service/webhook.go, handler/webhook.go, webhook/webhook.go and the sending half of
  \<open>SendWebhookNotification\<close> in service/scheduler_core.go): their rows, the requests on them, and the HTTP
  requests that carry a notification. JSON, HMAC-SHA256 and the HTTP client are arguments; metrics are left out.
\<close>

section \<open>The outside world\<close>

text \<open>Values of the type \<open>interface{}\<close>: texts, \<open>int64\<close>, \<open>float64\<close> with its text and what converting it to an integer
  gives, lists, maps, and the rest with its JSON text.\<close>

datatype jval = J_text string | J_num int | J_float string int | J_list "jval list" | J_obj "(string \<times> jval) list"
  | J_other string

record out_request =
  or_method :: string
  or_url :: string
  or_headers :: "string \<rightharpoonup> string"
  or_body :: string

text \<open>\<open>ow_new\<close> is the error of \<open>NewRequest\<close>, \<open>ow_do\<close> a status or an error, \<open>ow_headers\<close> what \<open>Unmarshal\<close> leaves in a map of texts, in
  the order of the iteration, and whether it succeeded; \<open>ow_canonical\<close> is the canonical form of a header's key.\<close>

record outside_web =
  ow_new :: "string \<Rightarrow> string \<Rightarrow> string option"
  ow_do :: "out_request \<Rightarrow> string + int"
  ow_ms :: int
  ow_marshal :: "jval \<Rightarrow> string result"
  ow_mac :: "string \<Rightarrow> string \<Rightarrow> string"
  ow_headers :: "string \<Rightarrow> (string \<times> string) list \<times> bool"
  ow_print :: "(string \<times> string) list \<Rightarrow> string"
  ow_canonical :: "string \<Rightarrow> string"
  ow_unix :: int
  ow_uuid :: string

section \<open>Sending\<close>

definition ComputeWebhookSignature :: "outside_web \<Rightarrow> string \<Rightarrow> string \<Rightarrow> string" where
  "ComputeWebhookSignature W secret body =
     (if secret = [] then [] else ''sha256='' @ hex (ow_mac W secret body))"

text \<open>\<open>Header.Set\<close>, once and for each pair of a list.\<close>

definition set_header :: "outside_web \<Rightarrow> string \<Rightarrow> string \<Rightarrow> (string \<rightharpoonup> string) \<Rightarrow> (string \<rightharpoonup> string)" where
  "set_header W k v m = m(ow_canonical W k \<mapsto> v)"

fun set_headers :: "outside_web \<Rightarrow> (string \<times> string) list \<Rightarrow> (string \<rightharpoonup> string) \<Rightarrow> (string \<rightharpoonup> string)" where
  "set_headers W [] m = m"
| "set_headers W ((k, v) # hs) m = set_headers W hs (set_header W k v m)"

record test_result =
  te_status :: int
  te_ms :: int
  te_error :: string

text \<open>What the call returns, its result and its error, and the requests that left.\<close>

type_synonym sending = "(test_result option \<times> string option) \<times> out_request list"

definition request_headers :: "outside_web \<Rightarrow> string \<Rightarrow> string \<Rightarrow> (string \<rightharpoonup> string)" where
  "request_headers W headersJSON sig =
     (let m = set_header W ''Content-Type'' ''application/json'' Map.empty;
          m = (if sig \<noteq> [] then set_header W ''X-Webhook-Signature'' sig m else m)
      in if headersJSON \<noteq> [] \<and> headersJSON \<noteq> ''{}''
         then (case ow_headers W headersJSON of (hs, ok) \<Rightarrow> if ok then set_headers W hs m else m)
         else m)"

definition sendWebhookRequest :: "outside_web \<Rightarrow> string \<Rightarrow> string \<Rightarrow> string \<Rightarrow> string \<Rightarrow> string \<Rightarrow> sending" where
  "sendWebhookRequest W method url headersJSON sig body =
     (case ow_new W method url of
        Some e \<Rightarrow> ((None, Some (''failed to create request: '' @ e)), [])
      | None \<Rightarrow>
          (let r = \<lparr>or_method = method, or_url = url, or_headers = request_headers W headersJSON sig, or_body = body\<rparr>
           in case ow_do W r of
                Inl e \<Rightarrow> ((Some \<lparr>te_status = 0, te_ms = ow_ms W, te_error = e\<rparr>,
                           Some (''webhook request failed: '' @ e)), [r])
              | Inr st \<Rightarrow>
                  (if st < 200 \<or> st \<ge> 300
                   then (let e = ''webhook returned non-2xx status: '' @ show_int st
                         in ((Some \<lparr>te_status = st, te_ms = ow_ms W, te_error = e\<rparr>, Some e), [r]))
                   else ((Some \<lparr>te_status = st, te_ms = ow_ms W, te_error = []\<rparr>, None), [r]))))"

record webhook_config =
  wc_url :: string
  wc_method :: string
  wc_headers :: "(string \<times> string) list"
  wc_events :: "string list"

definition SendWithSignature :: "outside_web \<Rightarrow> webhook_config \<Rightarrow> jval \<Rightarrow> string \<Rightarrow> string option \<times> out_request list" where
  "SendWithSignature W c payload secret =
     (let method = (if wc_method c = [] then ''POST'' else wc_method c)
      in case ow_marshal W payload of
           Inl e \<Rightarrow> (Some (''failed to marshal payload: '' @ e), [])
         | Inr body \<Rightarrow>
             (case sendWebhookRequest W method (wc_url c) (ow_print W (wc_headers c))
                     (ComputeWebhookSignature W secret body) body of
                ((res, err), out) \<Rightarrow> (err, out)))"

text \<open>The body of a notification.\<close>

definition notification_payload :: "outside_web \<Rightarrow> task \<Rightarrow> notification \<Rightarrow> jval" where
  "notification_payload W t n = J_obj
     [(''event'', J_text (n_event n)), (''timestamp'', J_num (ow_unix W)), (''delivery_id'', J_text (ow_uuid W)),
      (''task'', J_obj [(''id'', J_num (n_task n)), (''name'', J_text (t_name t)), (''type'', J_text (t_type t))]),
      (''execution'', J_obj [(''id'', J_text (n_eid n)), (''status'', J_text (n_status n)),
         (''output'', J_text (n_output n)), (''error'', J_text (n_error n)), (''duration_ms'', J_num (n_duration n))])]"

definition deliver :: "outside_web \<Rightarrow> task \<Rightarrow> webhook \<Rightarrow> notification \<Rightarrow> string option \<times> out_request list" where
  "deliver W t wh n = SendWithSignature W
     \<lparr>wc_url = w_url wh, wc_method = w_method wh,
      wc_headers = (if w_headers wh \<noteq> [] then fst (ow_headers W (w_headers wh)) else []), wc_events = []\<rparr>
     (notification_payload W t n) (w_secret wh)"

text \<open>All requests that \<open>SendWebhookNotification\<close> makes: \<open>Tasks\<close> records the notification.\<close>

definition notification_requests ::
  "'r env \<Rightarrow> outside_web \<Rightarrow> int \<Rightarrow> string \<Rightarrow> string \<Rightarrow> string \<Rightarrow> string \<Rightarrow> int \<Rightarrow> 'r sched \<Rightarrow> out_request list" where
  "notification_requests V W tid eid status out err dur s =
     (case GetTaskByID V tid s of
        Inl e \<Rightarrow> []
      | Inr t \<Rightarrow>
          (case t_webhook t of
             None \<Rightarrow> []
           | Some w \<Rightarrow>
               (case first_where (\<lambda>x. w_id x = w) (s_webhooks s) of
                  None \<Rightarrow> []
                | Some wh \<Rightarrow> concat (map (\<lambda>n. snd (deliver W t wh n))
                    (drop (length (s_notified s))
                      (s_notified (SendWebhookNotification V tid eid status out err dur s)))))))"

section \<open>The older sender\<close>

text \<open>webhook/webhook.go, which the start-up does not wire: a sender with a list of events and with retries.\<close>

record hook_payload =
  hp_event :: string
  hp_time :: int
  hp_task :: int
  hp_eid :: string
  hp_status :: string
  hp_output :: string
  hp_error :: string
  hp_ms :: int
  hp_meta :: "jval option"

definition BuildPayload :: "int \<Rightarrow> string \<Rightarrow> int \<Rightarrow> string \<Rightarrow> string \<Rightarrow> string \<Rightarrow> string \<Rightarrow> int \<Rightarrow> hook_payload" where
  "BuildPayload now event tid eid status out err dur =
     \<lparr>hp_event = event, hp_time = now, hp_task = tid, hp_eid = eid, hp_status = status, hp_output = out,
      hp_error = err, hp_ms = dur, hp_meta = None\<rparr>"

definition shouldSendForEvent :: "string list \<Rightarrow> string \<Rightarrow> bool" where
  "shouldSendForEvent es event = (es = [] \<or> list_ex (\<lambda>e. e = event \<or> e = ''*'') es)"

definition hook_json :: "hook_payload \<Rightarrow> jval" where
  "hook_json p = J_obj
     ([(''event'', J_text (hp_event p)), (''timestamp'', J_num (hp_time p)), (''task_id'', J_num (hp_task p)),
       (''execution_id'', J_text (hp_eid p)), (''status'', J_text (hp_status p)), (''output'', J_text (hp_output p)),
       (''error'', J_text (hp_error p)), (''duration_ms'', J_num (hp_ms p))] @
      (case hp_meta p of None \<Rightarrow> [] | Some m \<Rightarrow> [(''metadata'', m)]))"

definition hook_Send :: "outside_web \<Rightarrow> webhook_config \<Rightarrow> hook_payload \<Rightarrow> string option \<times> out_request list" where
  "hook_Send W c p =
     (if \<not> shouldSendForEvent (wc_events c) (hp_event p) then (None, [])
      else (case ow_marshal W (hook_json p) of
              Inl e \<Rightarrow> (Some (''failed to marshal payload: '' @ e), [])
            | Inr body \<Rightarrow>
                (let method = (if wc_method c = [] then ''POST'' else wc_method c)
                 in case ow_new W method (wc_url c) of
                      Some e \<Rightarrow> (Some (''failed to create request: '' @ e), [])
                    | None \<Rightarrow>
                        (let r = \<lparr>or_method = method, or_url = wc_url c,
                                  or_headers = set_headers W (wc_headers c)
                                    (set_header W ''Content-Type'' ''application/json'' Map.empty),
                                  or_body = body\<rparr>
                         in case ow_do W r of
                              Inl e \<Rightarrow> (Some (''webhook request failed: '' @ e), [r])
                            | Inr st \<Rightarrow>
                                (if st < 200 \<or> st \<ge> 300
                                 then (Some (''webhook returned non-2xx status: '' @ show_int st), [r])
                                 else (None, [r]))))))"

text \<open>The type assertions of \<open>SendFromMap\<close>, with the zero value where one fails.\<close>

definition text_of :: "(string \<rightharpoonup> jval) \<Rightarrow> string \<Rightarrow> string" where
  "text_of m k = (case m k of Some (J_text t) \<Rightarrow> t | _ \<Rightarrow> [])"

definition int_of :: "(string \<rightharpoonup> jval) \<Rightarrow> string \<Rightarrow> int" where
  "int_of m k = (case m k of Some (J_num n) \<Rightarrow> n | Some (J_float t n) \<Rightarrow> n | _ \<Rightarrow> 0)"

fun texts_in :: "jval list \<Rightarrow> string list" where
  "texts_in [] = []"
| "texts_in (J_text t # vs) = t # texts_in vs"
| "texts_in (v # vs) = texts_in vs"

fun text_fields :: "(string \<times> jval) list \<Rightarrow> (string \<times> string) list" where
  "text_fields [] = []"
| "text_fields ((k, J_text t) # fs) = (k, t) # text_fields fs"
| "text_fields ((k, v) # fs) = text_fields fs"

definition payload_of_map :: "(string \<rightharpoonup> jval) \<Rightarrow> hook_payload" where
  "payload_of_map m =
     \<lparr>hp_event = text_of m ''event'', hp_time = int_of m ''timestamp'', hp_task = int_of m ''task_id'',
      hp_eid = text_of m ''execution_id'', hp_status = text_of m ''status'', hp_output = text_of m ''output'',
      hp_error = text_of m ''error'', hp_ms = int_of m ''duration_ms'',
      hp_meta = (case m ''metadata'' of Some (J_obj fs) \<Rightarrow> Some (J_obj fs) | _ \<Rightarrow> None)\<rparr>"

definition SendFromMap ::
  "outside_web \<Rightarrow> (string \<rightharpoonup> jval) \<Rightarrow> (string \<rightharpoonup> jval) \<Rightarrow> string option \<times> out_request list" where
  "SendFromMap W config m =
     (case config ''url'' of
        Some (J_text url) \<Rightarrow> hook_Send W
          \<lparr>wc_url = url, wc_method = text_of config ''method'',
           wc_headers = (case config ''headers'' of Some (J_obj fs) \<Rightarrow> text_fields fs | _ \<Rightarrow> []),
           wc_events = (case config ''events'' of Some (J_list vs) \<Rightarrow> texts_in vs | _ \<Rightarrow> [])\<rparr> (payload_of_map m)
      | _ \<Rightarrow> (Some ''webhook config missing url'', []))"

text \<open>The attempts from number \<open>i\<close>, \<open>k\<close> of them at most, each with the world it meets. What is slept and sent is
  collected.\<close>

fun retry_sends ::
  "(nat \<Rightarrow> outside_web) \<Rightarrow> webhook_config \<Rightarrow> hook_payload \<Rightarrow> nat \<Rightarrow> nat \<Rightarrow> string \<Rightarrow>
   string option \<times> instant list \<times> out_request list" where
  "retry_sends W c p 0 i last_error = (Some last_error, [], [])"
| "retry_sends W c p (Suc k) i last_error =
     (let waits = (if i > 0 then [int (i * i) * second] else [])
      in case hook_Send (W i) c p of
           (None, out) \<Rightarrow> (None, waits, out)
         | (Some e, out) \<Rightarrow>
             (case retry_sends W c p k (i + 1) e of
                (res, ws, outs) \<Rightarrow> (res, waits @ ws, out @ outs)))"

text \<open>Without any attempt the message wraps the nil error.\<close>

definition SendWithRetry ::
  "(nat \<Rightarrow> outside_web) \<Rightarrow> webhook_config \<Rightarrow> hook_payload \<Rightarrow> int \<Rightarrow>
   string option \<times> instant list \<times> out_request list" where
  "SendWithRetry W c p n =
     (case retry_sends W c p (nat (n + 1)) 0 ''%!w(<nil>)'' of
        (None, ws, outs) \<Rightarrow> (None, ws, outs)
      | (Some e, ws, outs) \<Rightarrow> (Some (''webhook failed after '' @ show_int n @ '' retries: '' @ e), ws, outs))"

section \<open>Rows\<close>

datatype wstmt = W_insert | W_update | W_clear | W_delete | W_list | W_get

record webhook_env =
  we_db :: "wstmt \<Rightarrow> string option"
  we_now :: instant
  we_new_id :: int

definition webhook_Create :: "webhook_env \<Rightarrow> webhook \<Rightarrow> 'r sched \<Rightarrow> webhook result \<times> 'r sched" where
  "webhook_Create E w s =
     (case we_db E W_insert of
        Some e \<Rightarrow> (Inl e, s)
      | None \<Rightarrow>
          (let w1 = w\<lparr>w_id := we_new_id E, w_created := we_now E, w_updated := we_now E\<rparr>
           in (Inr w1, s\<lparr>s_webhooks := s_webhooks s @ [w1]\<rparr>)))"

definition webhook_Update :: "webhook_env \<Rightarrow> int \<Rightarrow> webhook \<Rightarrow> 'r sched \<Rightarrow> unit result \<times> 'r sched" where
  "webhook_Update E i w s =
     (case we_db E W_update of
        Some e \<Rightarrow> (Inl e, s)
      | None \<Rightarrow>
          (let s1 = s\<lparr>s_webhooks := upd_where (\<lambda>x. w_id x = i)
                 (\<lambda>x. x\<lparr>w_name := w_name w, w_url := w_url w, w_method := w_method w, w_headers := w_headers w,
                         w_secret := w_secret w, w_domain := w_domain w, w_enabled := w_enabled w, w_desc := w_desc w,
                         w_updated := we_now E\<rparr>) (s_webhooks s)\<rparr>
           in if count_where (\<lambda>x. w_id x = i) (s_webhooks s) = 0 then (Inl ''webhook not found'', s1) else (Inr (), s1)))"

definition webhook_Delete :: "webhook_env \<Rightarrow> int \<Rightarrow> 'r sched \<Rightarrow> unit result \<times> 'r sched" where
  "webhook_Delete E i s =
     (case we_db E W_clear of
        Some e \<Rightarrow> (Inl e, s)
      | None \<Rightarrow>
          (let s1 = s\<lparr>s_tasks := upd_where (\<lambda>t. t_webhook t = Some i) (\<lambda>t. t\<lparr>t_webhook := None\<rparr>) (s_tasks s)\<rparr>
           in case we_db E W_delete of
                Some e \<Rightarrow> (Inl e, s1)
              | None \<Rightarrow>
                  (if count_where (\<lambda>x. w_id x = i) (s_webhooks s) = 0 then (Inl ''webhook not found'', s1)
                   else (Inr (), s1\<lparr>s_webhooks := del_where (\<lambda>x. w_id x = i) (s_webhooks s1)\<rparr>))))"

definition webhook_List :: "webhook_env \<Rightarrow> int \<Rightarrow> 'r sched \<Rightarrow> webhook list result" where
  "webhook_List E d s =
     on_db (we_db E W_list)
       (sort_key (\<lambda>w. - w_created w) (if d > 0 then filter (\<lambda>w. w_domain w = d) (s_webhooks s) else s_webhooks s))"

definition webhook_GetByID :: "webhook_env \<Rightarrow> int \<Rightarrow> 'r sched \<Rightarrow> webhook result" where
  "webhook_GetByID E i s =
     rbind (on_db (we_db E W_get) (first_where (\<lambda>w. w_id w = i) (s_webhooks s)))
       (\<lambda>row. case row of None \<Rightarrow> Inl ''webhook not found'' | Some w \<Rightarrow> Inr w)"

definition test_payload :: "outside_web \<Rightarrow> jval" where
  "test_payload W = J_obj
     [(''event'', J_text ''test''), (''timestamp'', J_num (ow_unix W)), (''delivery_id'', J_text (ow_uuid W)),
      (''task'', J_obj [(''id'', J_num 0), (''name'', J_text ''test-task''), (''type'', J_text ''test'')]),
      (''execution'', J_obj [(''id'', J_text ''test-execution''), (''status'', J_text ''test''),
         (''output'', J_text ''This is a test webhook notification from BDopsFlow''), (''error'', J_text []),
         (''duration_ms'', J_num 0)])]"

definition webhook_Test :: "webhook_env \<Rightarrow> outside_web \<Rightarrow> int \<Rightarrow> 'r sched \<Rightarrow> sending" where
  "webhook_Test E W i s =
     (case webhook_GetByID E i s of
        Inl e \<Rightarrow> ((None, Some e), [])
      | Inr wh \<Rightarrow>
          (case ow_marshal W (test_payload W) of
             Inl e \<Rightarrow> ((None, Some (''failed to marshal test payload: '' @ e)), [])
           | Inr body \<Rightarrow> sendWebhookRequest W (w_method wh) (w_url wh) (w_headers wh)
                            (ComputeWebhookSignature W (w_secret wh) body) body))"

section \<open>Requests\<close>

record webhook_body =
  wb_name :: string
  wb_url :: string
  wb_method :: string
  wb_headers :: string
  wb_secret :: string
  wb_domain :: int
  wb_enabled :: "bool option"
  wb_desc :: string

text \<open>The fields that must be there are those that are not zero.\<close>

definition valid_webhook :: "webhook_body \<Rightarrow> bool" where
  "valid_webhook b \<longleftrightarrow> wb_name b \<noteq> [] \<and> wb_url b \<noteq> [] \<and> wb_domain b \<noteq> 0"

definition webhook_of :: "webhook_body \<Rightarrow> int option \<Rightarrow> webhook" where
  "webhook_of b creator =
     \<lparr>w_id = 0, w_name = wb_name b, w_url = wb_url b, w_method = (if wb_method b = [] then ''POST'' else wb_method b),
      w_headers = (if wb_headers b = [] then ''{}'' else wb_headers b), w_secret = wb_secret b,
      w_domain = wb_domain b, w_enabled = (case wb_enabled b of None \<Rightarrow> True | Some v \<Rightarrow> v), w_desc = wb_desc b,
      w_created_by = creator, w_created = 0, w_updated = 0\<rparr>"

definition HandleCreateWebhook ::
  "webhook_env \<Rightarrow> webhook_body option \<Rightarrow> principal \<Rightarrow> 'r sched \<Rightarrow> webhook reply \<times> 'r sched" where
  "HandleCreateWebhook E body p s =
     (case body of
        None \<Rightarrow> (Bad 400 ''name and URL are required'', s)
      | Some b \<Rightarrow>
          (if \<not> valid_webhook b then (Bad 400 ''name and URL are required'', s)
           else (case webhook_Create E (webhook_of b (Some (pr_user p))) s of
                   (Inl e, s1) \<Rightarrow> (Bad 500 e, s1) | (Inr w, s1) \<Rightarrow> (Good w, s1))))"

text \<open>\<open>q\<close> is the domain of the query, if it is there, and its number, if it is one.\<close>

definition HandleListWebhooks :: "webhook_env \<Rightarrow> int option option \<Rightarrow> 'r sched \<Rightarrow> webhook list reply" where
  "HandleListWebhooks E q s =
     (case q of
        Some None \<Rightarrow> Bad 400 ''invalid domain_id''
      | _ \<Rightarrow> (case webhook_List E (case q of Some (Some d) \<Rightarrow> d | _ \<Rightarrow> 0) s of
                Inl e \<Rightarrow> Bad 500 e | Inr ws \<Rightarrow> Good ws))"

definition webhook_error :: "string \<Rightarrow> 'a reply" where
  "webhook_error e = (if e = ''webhook not found'' then Bad 404 e else Bad 500 e)"

definition HandleUpdateWebhook ::
  "webhook_env \<Rightarrow> int option \<Rightarrow> webhook_body option \<Rightarrow> 'r sched \<Rightarrow> unit reply \<times> 'r sched" where
  "HandleUpdateWebhook E i body s =
     (case i of
        None \<Rightarrow> (Bad 400 ''invalid webhook id'', s)
      | Some i \<Rightarrow>
          (case body of
             None \<Rightarrow> (Bad 400 ''name and URL are required'', s)
           | Some b \<Rightarrow>
               (if \<not> valid_webhook b then (Bad 400 ''name and URL are required'', s)
                else (case webhook_Update E i (webhook_of b None) s of
                        (Inl e, s1) \<Rightarrow> (webhook_error e, s1) | (Inr _, s1) \<Rightarrow> (Good (), s1)))))"

definition HandleDeleteWebhook :: "webhook_env \<Rightarrow> int option \<Rightarrow> 'r sched \<Rightarrow> unit reply \<times> 'r sched" where
  "HandleDeleteWebhook E i s =
     (case i of
        None \<Rightarrow> (Bad 400 ''invalid webhook id'', s)
      | Some i \<Rightarrow>
          (case webhook_Delete E i s of (Inl e, s1) \<Rightarrow> (webhook_error e, s1) | (Inr _, s1) \<Rightarrow> (Good (), s1)))"

definition HandleTestWebhook ::
  "webhook_env \<Rightarrow> outside_web \<Rightarrow> int option \<Rightarrow> 'r sched \<Rightarrow> test_result reply \<times> out_request list" where
  "HandleTestWebhook E W i s =
     (case i of
        None \<Rightarrow> (Bad 400 ''invalid webhook id'', [])
      | Some i \<Rightarrow>
          (case webhook_Test E W i s of
             ((r, Some e), out) \<Rightarrow>
               ((if e = ''webhook not found'' then Bad 404 e else Bad 500 (''webhook test failed: '' @ e)), out)
           | ((None, None), out) \<Rightarrow> (Abort 500 ''panic'', out)
           | ((Some r, None), out) \<Rightarrow> ((if te_error r \<noteq> [] then Bad 500 ''webhook test failed'' else Good r), out)))"

end
