(* ===== verification/WeCom.thy ===== *)
theory WeCom
  imports Webhooks System_Config Utf8
begin

text \<open>
  Messages to WeCom (scheduler/internal/wecom/wecom.go and handler/wecom_handler.go): the addresses that follow the
  configuration, the requests to WeCom, and the handlers, which need no login. The handler for tasks takes the body
  of a webhook and makes a text of it. Base64, MD5, JSON, the format \<open>%.2f\<close> and the HTTP client are arguments. The
  icons and Chinese labels of the text stand here as ASCII words.
\<close>

section \<open>Addresses\<close>

record wecom =
  wx_robot :: string
  wx_app :: string
  wx_chat :: string

definition default_url :: string where
  "default_url = ''https://qyapi.weixin.qq.com/cgi-bin/webhook/send''"

definition refresh_urls :: "config_service \<Rightarrow> wecom" where
  "refresh_urls c =
     (let get = (\<lambda>k. if config_Get c k = [] then default_url else config_Get c k)
      in \<lparr>wx_robot = get ''wecom.robot_url'', wx_app = get ''wecom.app_msg_url'', wx_chat = get ''wecom.ewechat_url''\<rparr>)"

definition wecom_OnConfigChanged :: "config_service \<Rightarrow> string \<Rightarrow> string \<Rightarrow> wecom \<Rightarrow> wecom" where
  "wecom_OnConfigChanged c key v w =
     (if key = ''wecom.robot_url'' \<or> key = ''wecom.app_msg_url'' \<or> key = ''wecom.ewechat_url''
      then refresh_urls c else w)"

section \<open>Requests to WeCom\<close>

text \<open>An answer is an error of the client, or the error of decoding it, or a map.\<close>

record wecom_net =
  wn_marshal :: "jval \<Rightarrow> string result"
  wn_post :: "string \<Rightarrow> string \<Rightarrow> string + string + (string \<rightharpoonup> jval)"
  wn_base64 :: "string \<Rightarrow> string"
  wn_unbase64 :: "string \<Rightarrow> string result"
  wn_md5 :: "string \<Rightarrow> string"
  wn_seconds :: "int \<Rightarrow> string"

text \<open>The map and the error that a call returns, and the address and body of what it sent.\<close>

type_synonym wx_call = "((string \<rightharpoonup> jval) option \<times> string option) \<times> (string \<times> string) list"

definition sendRequestWithResult :: "wecom_net \<Rightarrow> string \<Rightarrow> jval \<Rightarrow> wx_call" where
  "sendRequestWithResult N url v =
     (case wn_marshal N v of
        Inl e \<Rightarrow> ((None, Some (''failed to marshal data: '' @ e)), [])
      | Inr body \<Rightarrow>
          (case wn_post N url body of
             Inl e \<Rightarrow> ((None, Some (''failed to send request: '' @ e)), [(url, body)])
           | Inr (Inl e) \<Rightarrow> ((None, Some (''failed to decode response: '' @ e)), [(url, body)])
           | Inr (Inr m) \<Rightarrow>
               (case m ''retCode'' of
                  Some (J_text c) \<Rightarrow>
                    (if c \<noteq> ''0000''
                     then ((Some m, Some (''message send failed: retCode='' @ c @ '', retMsg='' @ text_of m ''retMsg'')),
                           [(url, body)])
                     else ((Some m, None), [(url, body)]))
                | _ \<Rightarrow> ((Some m, None), [(url, body)]))))"

definition sendRequest :: "wecom_net \<Rightarrow> string \<Rightarrow> jval \<Rightarrow> string option \<times> (string \<times> string) list" where
  "sendRequest N url v = (case sendRequestWithResult N url v of ((m, e), out) \<Rightarrow> (e, out))"

text \<open>A list of texts that was left out is nil, which prints as null.\<close>

definition jlist :: "string list option \<Rightarrow> jval" where
  "jlist xs = (case xs of None \<Rightarrow> J_other ''null'' | Some ts \<Rightarrow> J_list (map J_text ts))"

definition texts :: "string list option \<Rightarrow> string list" where
  "texts xs = (case xs of None \<Rightarrow> [] | Some ts \<Rightarrow> ts)"

fun join_bar :: "string list \<Rightarrow> string" where
  "join_bar [] = []"
| "join_bar [t] = t"
| "join_bar (t # ts) = t @ ''|'' @ join_bar ts"

definition wx_SendAppMsg :: "wecom_net \<Rightarrow> wecom \<Rightarrow> int \<Rightarrow> string \<Rightarrow> string \<Rightarrow> string list option \<Rightarrow>
    string option \<times> (string \<times> string) list" where
  "wx_SendAppMsg N w agent ty msg phones =
     sendRequest N (wx_app w) (J_obj
       [(''agentId'', J_text (show_int agent)), (''fromChannel'', J_text ''HDP''),
        (''reqData'', J_obj
          [(''msgtype'', J_text ty), (''agentid'', J_num agent), (''ewechatMsg'', J_obj [(''content'', J_text msg)]),
           (''userIdType'', J_text ''phoneNum''), (''toUniqueInnerUserId'', J_text (join_bar (texts phones))),
           (''toInnerUserId'', J_text (join_bar (texts phones))), (''safe'', J_num 0),
           (''toInnerPartyId'', J_text []), (''totag'', J_text [])])])"

definition robot_msg :: "string \<Rightarrow> string \<Rightarrow> (string \<times> jval) list \<Rightarrow> jval" where
  "robot_msg g ty body = J_obj
     [(''groupId'', J_text g), (''fromChannel'', J_text ''HDP''),
      (''reqData'', J_obj [(''msgtype'', J_text ty), (''ewechatMsg'', J_obj body)])]"

definition wx_SendRobotMarkdownMsg :: "wecom_net \<Rightarrow> wecom \<Rightarrow> string \<Rightarrow> string \<Rightarrow> string option \<times> (string \<times> string) list" where
  "wx_SendRobotMarkdownMsg N w g msg = sendRequest N (wx_robot w) (robot_msg g ''markdown'' [(''content'', J_text msg)])"

definition wx_SendRobotImageMsg :: "wecom_net \<Rightarrow> wecom \<Rightarrow> string \<Rightarrow> string \<Rightarrow> string option \<times> (string \<times> string) list" where
  "wx_SendRobotImageMsg N w g bytes =
     sendRequest N (wx_robot w) (robot_msg g ''image''
       [(''base64'', J_text (wn_base64 N bytes)), (''md5'', J_text (hex (wn_md5 N bytes)))])"

definition wx_SendRobotTextPeopleMsg ::
  "wecom_net \<Rightarrow> wecom \<Rightarrow> string \<Rightarrow> string \<Rightarrow> string \<Rightarrow> string option \<times> (string \<times> string) list" where
  "wx_SendRobotTextPeopleMsg N w g msg phone =
     sendRequest N (wx_robot w) (robot_msg g ''text''
       [(''content'', J_text msg), (''mentionedMobileList'', J_text phone)])"

definition chat_msg :: "string \<Rightarrow> string \<Rightarrow> string \<Rightarrow> jval option \<Rightarrow> jval" where
  "chat_msg http url api req = J_obj
     ([(''fromChannel'', J_text ''HDP''), (''agentId'', J_text ''1000027''), (''httpMethod'', J_text http),
       (''url'', J_text url), (''apiName'', J_text api)] @
      (case req of None \<Rightarrow> [] | Some v \<Rightarrow> [(''reqData'', v)]))"

definition wx_SendChatMarkdownMsg :: "wecom_net \<Rightarrow> wecom \<Rightarrow> string \<Rightarrow> string \<Rightarrow> string option \<times> (string \<times> string) list" where
  "wx_SendChatMarkdownMsg N w chat msg =
     sendRequest N (wx_chat w) (chat_msg ''POST'' ''/appchat/send'' ''push a message'' (Some (J_obj
       [(''chatid'', J_text chat), (''msgtype'', J_text ''markdown''), (''markdown'', J_obj [(''content'', J_text msg)]),
        (''safe'', J_num 0)])))"

text \<open>\<open>userList[0]\<close> panics on an empty list: \<open>None\<close>.\<close>

definition wx_CreateChatGroup :: "wecom_net \<Rightarrow> wecom \<Rightarrow> string \<Rightarrow> string list option \<Rightarrow> wx_call option" where
  "wx_CreateChatGroup N w name users =
     (case texts users of
        [] \<Rightarrow> None
      | owner # _ \<Rightarrow> Some (sendRequestWithResult N (wx_chat w)
          (chat_msg ''POST'' ''/appchat/create'' ''create a group'' (Some (J_obj
             [(''name'', J_text name), (''owner'', J_text owner), (''userlist'', jlist users), (''chatid'', J_text [])])))))"

definition wx_GetChatGroupInfo :: "wecom_net \<Rightarrow> wecom \<Rightarrow> string \<Rightarrow> wx_call" where
  "wx_GetChatGroupInfo N w chat =
     sendRequestWithResult N (wx_chat w) (chat_msg ''GET'' (''/appchat/get?chatid='' @ chat) ''get a group'' None)"

definition wx_UpdateChatGroup ::
  "wecom_net \<Rightarrow> wecom \<Rightarrow> string \<Rightarrow> string \<Rightarrow> string list option \<Rightarrow> string list option \<Rightarrow> string \<Rightarrow> wx_call" where
  "wx_UpdateChatGroup N w chat owner add del name =
     sendRequestWithResult N (wx_chat w) (chat_msg ''POST'' ''/appchat/update'' ''change a group'' (Some (J_obj
       [(''chatid'', J_text chat), (''name'', J_text name), (''owner'', J_text owner), (''add_user_list'', jlist add),
        (''del_user_list'', jlist del)])))"

section \<open>The text of an execution\<close>

record flow_event =
  ev_delivery :: string
  ev_name :: string
  ev_time :: int
  ev_task :: int
  ev_task_name :: string
  ev_task_type :: string
  ev_eid :: string
  ev_status :: string
  ev_output :: string
  ev_error :: string
  ev_ms :: int

text \<open>How a body is read into the event: an absent field keeps its zero value, one of another type is an error.\<close>

definition read_text :: "(string \<rightharpoonup> jval) \<Rightarrow> string \<Rightarrow> string option" where
  "read_text m k = (case m k of None \<Rightarrow> Some [] | Some (J_text t) \<Rightarrow> Some t | Some (J_other v) \<Rightarrow>
     (if v = ''null'' then Some [] else None) | _ \<Rightarrow> None)"

definition read_int :: "(string \<rightharpoonup> jval) \<Rightarrow> string \<Rightarrow> int option" where
  "read_int m k = (case m k of None \<Rightarrow> Some 0 | Some (J_num n) \<Rightarrow> Some n | Some (J_other v) \<Rightarrow>
     (if v = ''null'' then Some 0 else None) | _ \<Rightarrow> None)"

definition read_map :: "(string \<rightharpoonup> jval) \<Rightarrow> string \<Rightarrow> (string \<rightharpoonup> jval) option" where
  "read_map m k = (case m k of None \<Rightarrow> Some Map.empty | Some (J_obj fs) \<Rightarrow> Some (map_of fs) | Some (J_other v) \<Rightarrow>
     (if v = ''null'' then Some Map.empty else None) | _ \<Rightarrow> None)"

definition read_event :: "jval \<Rightarrow> flow_event option" where
  "read_event v =
     (case v of
        J_obj fs \<Rightarrow>
          (let m = map_of fs in
           Option.bind (read_map m ''execution'') (\<lambda>x. Option.bind (read_map m ''task'') (\<lambda>t.
           Option.bind (read_text m ''delivery_id'') (\<lambda>d. Option.bind (read_text m ''event'') (\<lambda>ev.
           Option.bind (read_int m ''timestamp'') (\<lambda>ts. Option.bind (read_int t ''id'') (\<lambda>tid.
           Option.bind (read_text t ''name'') (\<lambda>tn. Option.bind (read_text t ''type'') (\<lambda>tt.
           Option.bind (read_text x ''id'') (\<lambda>eid. Option.bind (read_text x ''status'') (\<lambda>st.
           Option.bind (read_text x ''output'') (\<lambda>out. Option.bind (read_text x ''error'') (\<lambda>err.
           Option.bind (read_int x ''duration_ms'') (\<lambda>ms.
             Some \<lparr>ev_delivery = d, ev_name = ev, ev_time = ts, ev_task = tid, ev_task_name = tn, ev_task_type = tt,
               ev_eid = eid, ev_status = st, ev_output = out, ev_error = err, ev_ms = ms\<rparr>))))))))))))))
      | _ \<Rightarrow> None)"

definition truncateString :: "string \<Rightarrow> nat \<Rightarrow> string" where
  "truncateString s n = (if length s \<le> n then s else take n s @ ''...'')"

definition colored :: "string \<Rightarrow> string \<Rightarrow> string" where
  "colored color t = ''<font color='' @ [CHR 0x22] @ color @ [CHR 0x22] @ ''>'' @ t @ ''</font>''"

definition status_icon :: "string \<Rightarrow> string" where
  "status_icon st = (if st = ''failed'' then ''[x]'' else if st = ''success'' then ''[ok]'' else ''[gear]'')"

definition status_display :: "string \<Rightarrow> string" where
  "status_display st = (if st = ''failed'' then colored ''warning'' st
     else if st = ''success'' then colored ''info'' st else st)"

definition logs_display :: "flow_event \<Rightarrow> string" where
  "logs_display e =
     (let out = truncateString (ev_output e) 1000; err = truncateString (ev_error e) 1000
      in if ev_status e = ''failed'' \<and> err \<noteq> [] then ''none'' else if out \<noteq> [] then colored ''info'' out else ''none'')"

definition error_display :: "flow_event \<Rightarrow> string" where
  "error_display e =
     (let err = truncateString (ev_error e) 1000
      in if ev_status e = ''failed'' \<and> err \<noteq> [] then colored ''warning'' err else ''none'')"

abbreviation line_end :: string where "line_end \<equiv> [CHR 0x0A]"

definition buildMarkdownMessage :: "wecom_net \<Rightarrow> flow_event \<Rightarrow> string" where
  "buildMarkdownMessage N e =
     ''### '' @ status_icon (ev_status e) @ '' BDopsFlow execution'' @ line_end @ line_end @
     ''> **task**'' @ line_end @ ''> **id:** '' @ show_int (ev_task e) @ line_end @
     ''> **name:** '' @ ev_task_name e @ line_end @ line_end @
     ''> **result**'' @ line_end @ ''> **status:** '' @ status_display (ev_status e) @ '' '' @ status_icon (ev_status e) @
     line_end @ ''> **duration:** '' @ wn_seconds N (ev_ms e) @ '' s'' @ line_end @ line_end @
     ''> **log**'' @ line_end @ ''> '' @ logs_display e @ line_end @ line_end @
     ''> **errors**'' @ line_end @ ''> '' @ error_display e"

section \<open>Handlers\<close>

text \<open>Status, message and data; the field code repeats the status. A panic is answered by the framework.\<close>

datatype wx_reply = WX int string "(string \<rightharpoonup> jval) option" | WX_panic

definition answer :: "string \<Rightarrow> string \<Rightarrow> string option \<times> (string \<times> string) list \<Rightarrow> wx_reply \<times> (string \<times> string) list" where
  "answer what ok r = (case r of (Some e, out) \<Rightarrow> (WX 500 (''failed to '' @ what @ '': '' @ e) None, out)
                               | (None, out) \<Rightarrow> (WX 200 ok None, out))"

definition answer_data :: "string \<Rightarrow> string \<Rightarrow> wx_call \<Rightarrow> wx_reply \<times> (string \<times> string) list" where
  "answer_data what ok r = (case r of ((m, Some e), out) \<Rightarrow> (WX 500 (''failed to '' @ what @ '': '' @ e) None, out)
                                    | ((m, None), out) \<Rightarrow> (WX 200 ok m, out))"

definition SendWeComMessage :: "wecom_net \<Rightarrow> wecom \<Rightarrow> string \<Rightarrow> flow_event option \<Rightarrow> wx_reply \<times> (string \<times> string) list" where
  "SendWeComMessage N w g body =
     (if g = [] then (WX 400 ''wx_group_id is required'' None, [])
      else (case body of
              None \<Rightarrow> (WX 400 ''invalid request body'' None, [])
            | Some e \<Rightarrow> answer ''send message'' ''message sent successfully''
                          (wx_SendRobotMarkdownMsg N w g (buildMarkdownMessage N e))))"

definition bound :: "'b option \<Rightarrow> ('b \<Rightarrow> wx_reply \<times> (string \<times> string) list) \<Rightarrow> wx_reply \<times> (string \<times> string) list" where
  "bound body f = (case body of None \<Rightarrow> (WX 400 ''invalid request body'' None, []) | Some b \<Rightarrow> f b)"

record app_msg =
  am_agent :: int
  am_type :: string
  am_text :: string
  am_phones :: "string list option"

definition HandleSendAppMsg :: "wecom_net \<Rightarrow> wecom \<Rightarrow> app_msg option \<Rightarrow> wx_reply \<times> (string \<times> string) list" where
  "HandleSendAppMsg N w body = bound body (\<lambda>b.
     answer ''send app message'' ''app message sent successfully''
       (wx_SendAppMsg N w (am_agent b) (am_type b) (am_text b) (am_phones b)))"

text \<open>Group and image in base64.\<close>

definition HandleSendRobotImageMsg :: "wecom_net \<Rightarrow> wecom \<Rightarrow> (string \<times> string) option \<Rightarrow> wx_reply \<times> (string \<times> string) list" where
  "HandleSendRobotImageMsg N w body = bound body (\<lambda>(g, image).
     case wn_unbase64 N image of
       Inl e \<Rightarrow> (WX 400 ''invalid base64 image data'' None, [])
     | Inr bytes \<Rightarrow> answer ''send image message'' ''image message sent successfully'' (wx_SendRobotImageMsg N w g bytes))"

definition HandleSendRobotTextPeopleMsg ::
  "wecom_net \<Rightarrow> wecom \<Rightarrow> (string \<times> string \<times> string) option \<Rightarrow> wx_reply \<times> (string \<times> string) list" where
  "HandleSendRobotTextPeopleMsg N w body = bound body (\<lambda>(g, msg, phone).
     answer ''send text people message'' ''text people message sent successfully''
       (wx_SendRobotTextPeopleMsg N w g msg phone))"

definition HandleSendRobotMarkdownMsg ::
  "wecom_net \<Rightarrow> wecom \<Rightarrow> (string \<times> string) option \<Rightarrow> wx_reply \<times> (string \<times> string) list" where
  "HandleSendRobotMarkdownMsg N w body = bound body (\<lambda>(g, msg).
     answer ''send robot markdown message'' ''robot markdown message sent successfully'' (wx_SendRobotMarkdownMsg N w g msg))"

definition HandleSendChatMarkdownMsg ::
  "wecom_net \<Rightarrow> wecom \<Rightarrow> (string \<times> string) option \<Rightarrow> wx_reply \<times> (string \<times> string) list" where
  "HandleSendChatMarkdownMsg N w body = bound body (\<lambda>(chat, msg).
     answer ''send chat markdown message'' ''chat markdown message sent successfully'' (wx_SendChatMarkdownMsg N w chat msg))"

definition HandleCreateChatGroup ::
  "wecom_net \<Rightarrow> wecom \<Rightarrow> (string \<times> string list option) option \<Rightarrow> wx_reply \<times> (string \<times> string) list" where
  "HandleCreateChatGroup N w body = bound body (\<lambda>(name, users).
     case wx_CreateChatGroup N w name users of
       None \<Rightarrow> (WX_panic, [])
     | Some r \<Rightarrow> answer_data ''create chat group'' ''chat group created successfully'' r)"

definition HandleGetChatGroupInfo :: "wecom_net \<Rightarrow> wecom \<Rightarrow> string \<Rightarrow> wx_reply \<times> (string \<times> string) list" where
  "HandleGetChatGroupInfo N w chat =
     (if chat = [] then (WX 400 ''chat_id is required'' None, [])
      else answer_data ''get chat group info'' ''success'' (wx_GetChatGroupInfo N w chat))"

record chat_change =
  cc_chat :: string
  cc_owner :: string
  cc_add :: "string list option"
  cc_del :: "string list option"
  cc_name :: string

definition HandleUpdateChatGroup :: "wecom_net \<Rightarrow> wecom \<Rightarrow> chat_change option \<Rightarrow> wx_reply \<times> (string \<times> string) list" where
  "HandleUpdateChatGroup N w body = bound body (\<lambda>b.
     if cc_chat b = [] then (WX 400 ''chat_id is required'' None, [])
     else answer_data ''update chat group'' ''chat group updated successfully''
            (wx_UpdateChatGroup N w (cc_chat b) (cc_owner b) (cc_add b) (cc_del b) (cc_name b)))"

end
