(* ===== verification/Webhook_Properties.thy ===== *)
theory Webhook_Properties
  imports WeCom Access_Properties Task_Request_Properties
begin

text \<open>
  What the webhooks add up to: the signature and headers of a delivery, webhooks of other domains, every outcome of a
  deletion, the waits of the older sender, and the way of a notification to a message on WeCom.
\<close>

section \<open>Deliveries\<close>

text \<open>The documented behaviour of \<open>Marshal\<close> and \<open>Unmarshal\<close> on a map of texts: what was printed reads back.\<close>

definition json_headers :: "outside_web \<Rightarrow> (string \<times> string) list \<Rightarrow> bool" where
  "json_headers W hs \<longleftrightarrow> ow_headers W (ow_print W hs) = (hs, True) \<and> ow_print W hs \<noteq> [] \<and>
     (ow_print W hs = ''{}'' \<longrightarrow> hs = [])"

definition own_headers :: "outside_web \<Rightarrow> webhook \<Rightarrow> (string \<times> string) list" where
  "own_headers W wh = (if w_headers wh \<noteq> [] then fst (ow_headers W (w_headers wh)) else [])"

lemma set_headers_lookup:
  "set_headers W hs m k = (case map_of (rev (map (map_prod (ow_canonical W) id) hs)) k of None \<Rightarrow> m k | Some v \<Rightarrow> Some v)"
  by (induction hs arbitrary: m) (auto simp: set_header_def map_add_def map_of_append split: option.splits)

lemma request_headers_own:
  assumes "json_headers W hs"
  shows "request_headers W (ow_print W hs) sig k =
    (case map_of (rev (map (map_prod (ow_canonical W) id) hs)) k of
       Some v \<Rightarrow> Some v
     | None \<Rightarrow> if k = ow_canonical W ''X-Webhook-Signature'' \<and> sig \<noteq> [] then Some sig
               else if k = ow_canonical W ''Content-Type'' then Some ''application/json'' else None)"
  using assms
  by (auto simp: request_headers_def json_headers_def Let_def set_headers_lookup set_header_def split: option.splits)

lemma requests_of_send: "snd (sendWebhookRequest W m url hj sig body) =
    (if ow_new W m url = None then [\<lparr>or_method = m, or_url = url, or_headers = request_headers W hj sig, or_body = body\<rparr>]
     else [])"
  by (simp add: sendWebhookRequest_def Let_def split: option.splits sum.splits)

lemma snd_of_result: "snd (case r of ((res, err), out) \<Rightarrow> (err, out)) = snd r"
  by (simp split: prod.split)

lemma requests_of_delivery:
  "snd (deliver W t wh n) =
     (case ow_marshal W (notification_payload W t n) of
        Inl e \<Rightarrow> []
      | Inr body \<Rightarrow>
          (let m = (if w_method wh = [] then ''POST'' else w_method wh)
           in if ow_new W m (w_url wh) = None
              then [\<lparr>or_method = m, or_url = w_url wh,
                     or_headers = request_headers W (ow_print W (own_headers W wh))
                       (ComputeWebhookSignature W (w_secret wh) body), or_body = body\<rparr>]
              else []))"
  by (simp add: deliver_def SendWithSignature_def own_headers_def [symmetric] Let_def snd_of_result requests_of_send
      split: sum.split)

text \<open>The notification that \<open>SendWebhookNotification\<close> records, if it records one.\<close>

definition wanted :: "'r env \<Rightarrow> task \<Rightarrow> webhook \<Rightarrow> string \<Rightarrow> bool" where
  "wanted V t wh status \<longleftrightarrow> env_webhooks V \<and> w_enabled wh \<and>
     (let es = (if t_webhook_events t \<noteq> [] then env_events V (t_webhook_events t) else [])
      in es = [] \<or> event_of status \<in> set es \<or> ''*'' \<in> set es)"

lemma notification_requests_eq:
  assumes "env_db V S_webhook = None" "GetTaskByID V tid s = Inr t" "t_webhook t = Some w"
    and "first_where (\<lambda>x. w_id x = w) (s_webhooks s) = Some wh"
  shows "notification_requests V W tid eid status out err dur s =
    (if wanted V t wh status
     then snd (deliver W t wh \<lparr>n_task = tid, n_eid = eid, n_event = event_of status, n_status = status, n_output = out,
            n_error = err, n_duration = (if dur \<le> 0 then getExecutionDurationFromDB V eid s else dur)\<rparr>)
     else [])"
  using assms by (auto simp: notification_requests_def SendWebhookNotification_def wanted_def Let_def)


section \<open>Webhooks of other domains\<close>

text \<open>The routes of webhooks: the permission is looked up in the domain of the caller.\<close>

definition webhook_route ::
  "db_verdict \<Rightarrow> rbac \<Rightarrow> string \<Rightarrow> principal \<Rightarrow> ('s \<Rightarrow> 'a reply \<times> 's) \<Rightarrow> 's \<Rightarrow> 'a reply \<times> 's" where
  "webhook_route E db action p handler s =
     (case RequirePermission E db ''webhook'' action p of
        Some (c, m) \<Rightarrow> (Abort c m, s)
      | None \<Rightarrow> handler s)"

lemma first_where_keyed:
  "(\<And>x. g (f x) = g x) \<Longrightarrow> first_where (\<lambda>x. g x = i) (upd_where (\<lambda>x. g x = i) f t) =
     map_option f (first_where (\<lambda>x. g x = i) t)"
  by (induction t) auto

lemma webhook_Update_first:
  assumes "we_db E W_update = None" "first_where (\<lambda>x. w_id x = i) (s_webhooks s) = Some wh"
  shows "\<exists>s1 wh1. webhook_Update E i b s = (Inr (), s1) \<and> s1 = s\<lparr>s_webhooks := s_webhooks s1\<rparr> \<and>
     first_where (\<lambda>x. w_id x = i) (s_webhooks s1) = Some wh1 \<and> w_url wh1 = w_url b \<and> w_secret wh1 = w_secret b \<and>
     w_headers wh1 = w_headers b \<and> w_enabled wh1 = w_enabled b \<and> w_method wh1 = w_method b"
proof -
  have "count_where (\<lambda>x. w_id x = i) (s_webhooks s) \<noteq> 0"
    using first_where_Some [OF assms(2)] by (auto simp: count_where_def filter_empty_conv)
  then show ?thesis
    using assms by (simp add: webhook_Update_def Let_def first_where_keyed [where g = w_id])
qed

text \<open>C9: The requests on webhooks look at no domain. With the permissions to read and update webhooks in his own domain
  someone reads the secret of a webhook of any other domain, and points that webhook at an address of his: every
  later notification of the tasks that use it, their output included, goes there, whatever the event, signed with the secret he chose.
  A field that he leaves out is reset: the webhook is switched on.\<close>

theorem foreign_webhook_can_be_redirected:
  fixes V :: "'r env" and W :: outside_web
  assumes "RequirePermission D db ''webhook'' ''read'' p = None" "RequirePermission D db ''webhook'' ''update'' p = None"
    and "we_db E = (\<lambda>st. None)" "\<forall>st. env_db V st = None" "env_webhooks V"
    and "first_where (\<lambda>x. w_id x = i) (s_webhooks s) = Some wh" "w_domain wh > 0" "w_domain wh \<noteq> pr_domain p"
    and "first_where (\<lambda>t. t_id t = tid) (s_tasks s) = Some t" "t_webhook t = Some i" "t_webhook_events t = []"
    and "valid_webhook b" "wb_enabled b = None" "wb_secret b = chosen" "chosen \<noteq> []" "wb_headers b = []"
    and "ow_headers W ''{}'' = ([], True)" "ow_print W [] = ''{}''"
    and "ow_marshal W = marshal" "\<And>v. \<exists>body. marshal v = Inr body" "\<And>m u. ow_new W m u = None"
  shows "(\<exists>ws. webhook_route D db ''read'' p (\<lambda>s. (HandleListWebhooks E (Some (Some (w_domain wh))) s, s)) s = (Good ws, s) \<and>
      wh \<in> set ws) \<and>
    (\<exists>s1 r. webhook_route D db ''update'' p (HandleUpdateWebhook E (Some i) (Some b)) s = (Good (), s1) \<and>
      notification_requests V W tid eid status out err dur s1 = [r] \<and> or_url r = wb_url b \<and>
      or_headers r (ow_canonical W ''X-Webhook-Signature'') = Some (''sha256='' @ hex (ow_mac W chosen (or_body r))))"
proof -
  have wh: "wh \<in> set (s_webhooks s)" "w_id wh = i" using first_where_Some [OF assms(6)] by simp_all
  have list: "\<exists>ws. HandleListWebhooks E (Some (Some (w_domain wh))) s = Good ws \<and> wh \<in> set ws"
    using wh(1) assms(3,7) by (simp add: HandleListWebhooks_def webhook_List_def)
  obtain s1 wh1 where s1: "webhook_Update E i (webhook_of b None) s = (Inr (), s1)" "s1 = s\<lparr>s_webhooks := s_webhooks s1\<rparr>"
      "first_where (\<lambda>x. w_id x = i) (s_webhooks s1) = Some wh1" "w_url wh1 = wb_url b" "w_secret wh1 = chosen"
      "w_headers wh1 = ''{}''" "w_enabled wh1"
    using webhook_Update_first [of E i s wh "webhook_of b None"] assms(3,6,13,14,16) by (auto simp: webhook_of_def)
  have task: "GetTaskByID V tid s1 = Inr t"
    using get_task [of V tid s1 t] s1(2) assms(4,9) by (metis sched.ext_inject sched.surjective sched.update_convs(6))
  have "wanted V t wh1 status" using s1(7) assms(5,11) by (simp add: wanted_def)
  moreover have own: "own_headers W wh1 = []" using s1(6) assms(17) by (simp add: own_headers_def)
  moreover have "json_headers W []" using assms(17,18) by (simp add: json_headers_def)
  moreover obtain body where "ow_marshal W (notification_payload W t \<lparr>n_task = tid, n_eid = eid, n_event = event_of status,
      n_status = status, n_output = out, n_error = err,
      n_duration = (if dur \<le> 0 then getExecutionDurationFromDB V eid s1 else dur)\<rparr>) = Inr body"
    using assms(19,20) by blast
  ultimately have "\<exists>r. notification_requests V W tid eid status out err dur s1 = [r] \<and> or_url r = wb_url b \<and>
      or_headers r (ow_canonical W ''X-Webhook-Signature'') = Some (''sha256='' @ hex (ow_mac W chosen (or_body r)))"
    using notification_requests_eq [OF _ task assms(10) s1(3), of W eid status out err dur] assms(4,15,21) s1(4,5)
    by (simp add: requests_of_delivery request_headers_own Let_def ComputeWebhookSignature_def)
  moreover have "HandleUpdateWebhook E (Some i) (Some b) s = (Good (), s1)"
    using s1(1) assms(12) by (simp add: HandleUpdateWebhook_def)
  ultimately show ?thesis using list assms(1,2) by (auto simp: webhook_route_def)
qed

section \<open>Deleting\<close>

text \<open>C10: Every outcome of deleting a webhook. The rows of the tasks are changed first: when that fails nothing
  changes; when the second statement fails the request fails and the webhook is still there, but no task refers to it any more; when
  there is no such webhook the reply is 404, and references to it are gone all the same; otherwise it is gone, and nothing refers to it.\<close>

theorem webhook_deletion_outcomes:
  "case (we_db E W_clear, we_db E W_delete) of
     (Some e, _) \<Rightarrow> webhook_Delete E i s = (Inl e, s)
   | (None, Some e) \<Rightarrow> \<exists>s1. webhook_Delete E i s = (Inl e, s1) \<and> s_webhooks s1 = s_webhooks s \<and>
       (\<forall>t\<in>set (s_tasks s1). t_webhook t \<noteq> Some i)
   | (None, None) \<Rightarrow> \<exists>s1. HandleDeleteWebhook E (Some i) s =
         ((if i \<in> w_id ` set (s_webhooks s) then Good () else Bad 404 ''webhook not found''), s1) \<and>
       i \<notin> w_id ` set (s_webhooks s1) \<and> (\<forall>t\<in>set (s_tasks s1). t_webhook t \<noteq> Some i) \<and>
       (\<forall>w\<in>set (s_webhooks s). w_id w \<noteq> i \<longrightarrow> w \<in> set (s_webhooks s1)) \<and>
       map t_id (s_tasks s1) = map t_id (s_tasks s)"
proof -
  have none: "count_where (\<lambda>x. w_id x = i) (s_webhooks s) = 0 \<longleftrightarrow> i \<notin> w_id ` set (s_webhooks s)"
    by (auto simp: count_where_def filter_empty_conv)
  have cleared: "\<forall>t\<in>set (upd_where (\<lambda>t. t_webhook t = Some i) (\<lambda>t. t\<lparr>t_webhook := None\<rparr>) (s_tasks s)). t_webhook t \<noteq> Some i"
    by (auto simp: set_upd_where)
  have ids: "map t_id (upd_where (\<lambda>t. t_webhook t = Some i) (\<lambda>t. t\<lparr>t_webhook := None\<rparr>) (s_tasks s)) = map t_id (s_tasks s)"
    by (simp add: map_upd_where)
  show ?thesis
    using none cleared ids
    by (auto simp: webhook_Delete_def HandleDeleteWebhook_def webhook_error_def Let_def split: option.split)
qed

section \<open>The older sender\<close>

text \<open>The requests and waits of the attempts from \<open>i\<close> on, when the first \<open>k\<close> fail.\<close>

lemma retry_sends_fail:
  assumes "\<And>j. i \<le> j \<Longrightarrow> j < i + k \<Longrightarrow> \<exists>e. fst (hook_Send (W j) c p) = Some e"
  shows "\<exists>e. retry_sends W c p k i e0 = (Some e, map (\<lambda>j. int (j * j) * second) [max 1 i..<i + k],
    concat (map (\<lambda>j. snd (hook_Send (W j) c p)) [i..<i + k]))"
  using assms
proof (induction k arbitrary: i e0)
  case 0
  then show ?case by simp
next
  case (Suc k)
  obtain e out where h: "hook_Send (W i) c p = (Some e, out)" using Suc.prems [of i] by (cases "hook_Send (W i) c p") auto
  obtain e1 where "retry_sends W c p k (i + 1) e = (Some e1, map (\<lambda>j. int (j * j) * second) [max 1 (i + 1)..<i + 1 + k],
    concat (map (\<lambda>j. snd (hook_Send (W j) c p)) [i + 1..<i + 1 + k]))"
    using Suc.IH [of "i + 1" e] Suc.prems by auto
  moreover have "[i..<i + Suc k] = i # [i + 1..<i + 1 + k]" by (simp add: upt_conv_Cons)
  moreover have "i > 0 \<Longrightarrow> [max 1 i..<i + Suc k] = i # [max 1 (i + 1)..<i + 1 + k]" by (simp add: upt_conv_Cons max_def)
  ultimately show ?case using h by (cases "i = 0") (simp_all add: Let_def)
qed

lemma retry_sends_succeed:
  assumes "\<And>j. i \<le> j \<Longrightarrow> j < i + k \<Longrightarrow> \<exists>e. fst (hook_Send (W j) c p) = Some e"
    and "fst (hook_Send (W (i + k)) c p) = None" "k < n"
  shows "retry_sends W c p n i e0 = (None, map (\<lambda>j. int (j * j) * second) [max 1 i..<Suc (i + k)],
    concat (map (\<lambda>j. snd (hook_Send (W j) c p)) [i..<Suc (i + k)]))"
  using assms
proof (induction k arbitrary: i e0 n)
  case 0
  then obtain m where "n = Suc m" by (cases n) auto
  then show ?case using 0 by (cases "hook_Send (W i) c p") (auto simp: Let_def max_def)
next
  case (Suc k)
  obtain m where n: "n = Suc m" using Suc.prems(3) by (cases n) auto
  obtain e out where h: "hook_Send (W i) c p = (Some e, out)" using Suc.prems(1) [of i] by (cases "hook_Send (W i) c p") auto
  have "retry_sends W c p m (i + 1) e = (None, map (\<lambda>j. int (j * j) * second) [max 1 (i + 1)..<Suc (i + 1 + k)],
    concat (map (\<lambda>j. snd (hook_Send (W j) c p)) [i + 1..<Suc (i + 1 + k)]))"
    using Suc.IH [of "i + 1" m e] Suc.prems n by auto
  moreover have "[i..<Suc (i + Suc k)] = i # [i + 1..<Suc (i + 1 + k)]" by (simp add: upt_conv_Cons)
  moreover have "i > 0 \<Longrightarrow> [max 1 i..<Suc (i + Suc k)] = i # [max 1 (i + 1)..<Suc (i + 1 + k)]"
    by (simp add: upt_conv_Cons max_def)
  ultimately show ?case using h n by (cases "i = 0") (simp_all add: Let_def)
qed

lemma sum_of_squares: "6 * sum_list (map (\<lambda>j. int (j * j) * second) [1..<Suc n]) =
    int n * (int n + 1) * (2 * int n + 1) * second"
  by (induction n) (auto simp: algebra_simps)

text \<open>The older sender with \<open>n\<close> retries: it stops at the first success, waits \<open>j\<^sup>2\<close> seconds before the attempt \<open>j\<close>, and when
  every attempt fails it has made \<open>n + 1\<close> of them and waited for the sum of the first \<open>n\<close> squares.\<close>

lemma webhook_retries_are_exact:
  assumes "\<And>j. j < k \<Longrightarrow> \<exists>e. fst (hook_Send (W j) c p) = Some e" "k \<le> n + 1"
    and "k \<le> n \<Longrightarrow> fst (hook_Send (W k) c p) = None"
  shows "case SendWithRetry W c p (int n) of (res, waits, out) \<Rightarrow>
    (res = None \<longleftrightarrow> k \<le> n) \<and> waits = map (\<lambda>j. int (j * j) * second) [1..<Suc (min k n)] \<and>
    6 * sum_list waits = int (min k n) * (int (min k n) + 1) * (2 * int (min k n) + 1) * second \<and>
    out = concat (map (\<lambda>j. snd (hook_Send (W j) c p)) [0..<Suc (min k n)])"
proof (cases "k \<le> n")
  case True
  then show ?thesis
    using retry_sends_succeed [of 0 k W c p "n + 1"] assms(1,3) sum_of_squares [of k]
    by (simp add: SendWithRetry_def nat_add_distrib)
next
  case False
  then have k: "k = n + 1" using assms(2) by simp
  obtain e where "retry_sends W c p (n + 1) 0 ''%!w(<nil>)'' = (Some e, map (\<lambda>j. int (j * j) * second) [1..<n + 1],
      concat (map (\<lambda>j. snd (hook_Send (W j) c p)) [0..<n + 1]))"
    using retry_sends_fail [of 0 "n + 1" W c p "''%!w(<nil>)''"] assms(1) k by auto
  then show ?thesis using False k sum_of_squares [of n] by (simp add: SendWithRetry_def nat_add_distrib)
qed

section \<open>From a notification to a message\<close>

lemma read_notification:
  "read_event (notification_payload W t n) = Some
     \<lparr>ev_delivery = ow_uuid W, ev_name = n_event n, ev_time = ow_unix W, ev_task = n_task n, ev_task_name = t_name t,
      ev_task_type = t_type t, ev_eid = n_eid n, ev_status = n_status n, ev_output = n_output n, ev_error = n_error n,
      ev_ms = n_duration n\<rparr>"
  by (simp add: read_event_def notification_payload_def read_text_def read_int_def read_map_def)

lemma sublist_skip: "sublist xs ys \<Longrightarrow> sublist xs (as @ ys)"
  by (auto simp: sublist_def) (metis append.assoc)

lemma shown_in_message:
  "sublist (logs_display e) (buildMarkdownMessage N e)" "sublist (error_display e) (buildMarkdownMessage N e)"
  unfolding buildMarkdownMessage_def
  by ((rule sublist_append_rightI | rule sublist_skip)+, (rule sublist_append_rightI | rule sublist_order.order.refl | rule sublist_skip)+)

text \<open>The way of a notification to a message. The body that a webhook sends reads, at the handler for WeCom, as an event
  with the task, status, output and error of the notification, and the handler asks for no signature. When WeCom accepts it, exactly one message
  goes out, which shows the error of a failed execution, or else the output, whole up to 1000 bytes and otherwise its
  first 1000 bytes.\<close>

theorem notification_reaches_wecom:
  assumes "g \<noteq> []" "n_output n \<noteq> []" "n_status n = ''failed'' \<longrightarrow> n_error n \<noteq> []"
    and "\<And>v. wn_marshal N v = Inr (body v)" "\<And>u b. wn_post N u b = Inr (Inr [''retCode'' \<mapsto> J_text ''0000''])"
  shows "\<exists>e msg. read_event (notification_payload W t n) = Some e \<and>
    SendWeComMessage N w g (read_event (notification_payload W t n)) =
      (WX 200 ''message sent successfully'' None, [(wx_robot w, body (robot_msg g ''markdown'' [(''content'', J_text msg)]))]) \<and>
    ev_task e = n_task n \<and> ev_task_name e = t_name t \<and> ev_eid e = n_eid n \<and> ev_status e = n_status n \<and>
    sublist (truncateString (if n_status n = ''failed'' then n_error n else n_output n) 1000) msg"
proof -
  let ?e = "the (read_event (notification_payload W t n))"
  let ?shown = "if n_status n = ''failed'' then n_error n else n_output n"
  have ne: "truncateString u 1000 \<noteq> []" if "u \<noteq> []" for u using that by (auto simp: truncateString_def)
  have inside: "sublist u (colored c u)" for u c
    unfolding colored_def by (intro sublist_skip sublist_append_rightI)
  have "sublist (truncateString ?shown 1000) (buildMarkdownMessage N ?e)"
  proof (cases "n_status n = ''failed''")
    case True
    then have "error_display ?e = colored ''warning'' (truncateString (n_error n) 1000)"
      using assms(3) ne by (simp add: read_notification error_display_def Let_def)
    then show ?thesis using True shown_in_message(2) [of ?e N] inside sublist_order.order.trans by fastforce
  next
    case False
    then have "logs_display ?e = colored ''info'' (truncateString (n_output n) 1000)"
      using assms(2) ne by (simp add: read_notification logs_display_def Let_def)
    then show ?thesis using False shown_in_message(1) [of ?e N] inside sublist_order.order.trans by fastforce
  qed
  moreover have "SendWeComMessage N w g (Some ?e) =
      (WX 200 ''message sent successfully'' None,
       [(wx_robot w, body (robot_msg g ''markdown'' [(''content'', J_text (buildMarkdownMessage N ?e))]))])"
    using assms(1,4,5)
    by (simp add: SendWeComMessage_def wx_SendRobotMarkdownMsg_def sendRequest_def sendRequestWithResult_def answer_def)
  ultimately show ?thesis by (auto simp: read_notification)
qed

text \<open>A long output is cut after a number of bytes, in the middle of a character if need be.\<close>

lemma ValidString_ascii: "ValidString (replicate n CHR ''a'' @ s) = ValidString s"
proof (induction n)
  case (Suc n)
  have "decode_rune (CHR ''a'' # t) = (97, 1)" for t by (simp add: decode_rune_def code_def)
  then show ?case using Suc by (simp add: rune_error_def)
qed simp

lemma cut_inside_a_character:
  "\<exists>s. ValidString s \<and> \<not> ValidString (truncateString s 1000)"
proof (intro exI conjI)
  let ?s = "replicate 999 CHR ''a'' @ encode_rune 233"
  have e: "encode_rune 233 = [byte 195, byte 169]" by (simp add: encode_rune_def scalar_def)
  show "ValidString ?s"
    unfolding ValidString_ascii e
    by (simp add: decode_rune_def Let_def second_ok_def second_range_def in_range_def tail_bits_def rune_error_def)
  have "truncateString ?s 1000 = replicate 999 CHR ''a'' @ [byte 195] @ ''...''"
    unfolding truncateString_def e by simp
  moreover have "code CHR ''.'' = 46" by (simp add: code_def)
  then have "\<not> ValidString ([byte 195] @ ''...'')"
    by (simp add: decode_rune_def Let_def second_ok_def second_range_def in_range_def)
  ultimately show "\<not> ValidString (truncateString ?s 1000)" by (simp add: ValidString_ascii)
qed

text \<open>A request for a group without users panics.\<close>

lemma group_without_users_panics: "HandleCreateChatGroup N w (Some (name, None)) = (WX_panic, [])"
  by (simp add: HandleCreateChatGroup_def bound_def wx_CreateChatGroup_def texts_def)

text \<open>A value that is no text among the headers: the test sends none of them, a notification sends the others.\<close>

lemma test_and_notification_disagree:
  assumes "ow_headers W (w_headers wh) = (own, False)" "w_headers wh \<noteq> []" "w_headers wh \<noteq> ''{}''" "json_headers W own"
    and "map_of (rev (map (map_prod (ow_canonical W) id) own)) k = Some v"
    and "k \<noteq> ow_canonical W ''Content-Type''" "k \<noteq> ow_canonical W ''X-Webhook-Signature''"
  shows "request_headers W (w_headers wh) sig k = None \<and>
    request_headers W (ow_print W (own_headers W wh)) sig k = Some v"
proof -
  have "own_headers W wh = own" using assms(1,2) by (simp add: own_headers_def)
  then show ?thesis
    using assms request_headers_own [OF assms(4), of sig k] by (simp add: request_headers_def set_header_def Let_def)
qed

section \<open>Instances\<close>

definition demo_web :: outside_web where
  "demo_web =
     \<lparr>ow_new = (\<lambda>m u. None), ow_do = (\<lambda>r. Inr 200), ow_ms = 5, ow_marshal = (\<lambda>v. Inr ''body''), ow_mac = (\<lambda>k b. k @ b),
      ow_headers = (\<lambda>t. if t = ''{}'' then ([], True) else ([(''X-Key'', ''v'')], True)),
      ow_print = (\<lambda>hs. if hs = [] then ''{}'' else ''{X}''), ow_canonical = (\<lambda>k. k), ow_unix = 9, ow_uuid = ''u''\<rparr>"

definition demo_webhook :: webhook where
  "demo_webhook =
     \<lparr>w_id = 2, w_name = ''hook'', w_url = ''http://a'', w_method = [], w_headers = ''{X}'', w_secret = ''s'', w_domain = 1,
      w_enabled = True, w_desc = [], w_created_by = Some 1, w_created = 0, w_updated = 0\<rparr>"

definition hooked_task :: task where
  "hooked_task = demo_task\<lparr>t_webhook := Some 2\<rparr>"

definition hooked_sched :: "keys sched" where
  "hooked_sched = demo_sched\<lparr>s_tasks := [hooked_task], s_webhooks := [demo_webhook]\<rparr>"

definition demo_whenv :: webhook_env where
  "demo_whenv = \<lparr>we_db = \<lambda>st. None, we_now = 7, we_new_id = 3\<rparr>"

lemma hooked_first:
  "first_where (\<lambda>t. t_id t = 5) (s_tasks hooked_sched) = Some hooked_task"
  "first_where (\<lambda>x. w_id x = 2) (s_webhooks hooked_sched) = Some demo_webhook"
  "t_webhook hooked_task = Some 2" "t_webhook_events hooked_task = []" "env_webhooks demo_env"
  by (simp_all add: hooked_sched_def hooked_task_def demo_defs demo_webhook_def)


lemma foreign_webhook_can_be_redirected_witness:
  "\<exists>db s1 r. webhook_route (\<lambda>q. None) db ''update'' operator
       (HandleUpdateWebhook demo_whenv (Some 2)
         (Some \<lparr>wb_name = ''h'', wb_url = ''http://evil'', wb_method = [], wb_headers = [], wb_secret = ''x'',
            wb_domain = 1, wb_enabled = None, wb_desc = []\<rparr>)) hooked_sched = (Good (), s1) \<and>
     notification_requests demo_env demo_web 5 ''exec-5-1'' ''failed'' [] ''boom'' 3 s1 = [r] \<and> or_url r = ''http://evil''"
proof -
  let ?db = "demo_rbac\<lparr>permissions := [\<lparr>p_id = 10, p_resource = ''webhook'', p_action = ''manage'', p_desc = []\<rparr>],
    role_permissions := [(1, 10)]\<rparr>"
  let ?b = "\<lparr>wb_name = ''h'', wb_url = ''http://evil'', wb_method = [], wb_headers = [], wb_secret = ''x'',
            wb_domain = 1, wb_enabled = None, wb_desc = []\<rparr>"
  have may: "RequirePermission (\<lambda>q. None) ?db ''webhook'' a operator = None" for a
    by (simp add: RequirePermission_def HasPermission_entitled db_ok_def entitled_def role_grants_def is_admin_def
        verdict_of_def demo_rbac_def operator_def)
  have "w_domain demo_webhook \<noteq> pr_domain operator" "w_domain demo_webhook > 0"
    by (simp_all add: demo_webhook_def operator_def)
  note facts = foreign_webhook_can_be_redirected [OF may may _ _ hooked_first(5,2) this(2,1) hooked_first(1,3,4),
      of demo_whenv ?b "''x''" demo_web "\<lambda>v. Inr ''body''" "''exec-5-1''" "''failed''" "[]" "''boom''" 3]
  show ?thesis using facts by (simp add: demo_whenv_def valid_webhook_def demo_web_def) blast
qed

lemma webhook_deletion_outcomes_witness:
  "(\<exists>s1. HandleDeleteWebhook demo_whenv (Some 2) hooked_sched = (Good (), s1)) \<and>
   (\<exists>s1. HandleDeleteWebhook demo_whenv (Some 6) hooked_sched = (Bad 404 ''webhook not found'', s1)) \<and>
   (\<exists>s1. webhook_Delete (demo_whenv\<lparr>we_db := \<lambda>st. if st = W_delete then Some ''down'' else None\<rparr>) 2 hooked_sched =
      (Inl ''down'', s1) \<and> s_webhooks s1 = [demo_webhook])"
proof -
  note d = webhook_deletion_outcomes [of demo_whenv 2 hooked_sched] webhook_deletion_outcomes [of demo_whenv 6 hooked_sched]
    webhook_deletion_outcomes [of "demo_whenv\<lparr>we_db := \<lambda>st. if st = W_delete then Some ''down'' else None\<rparr>" 2 hooked_sched]
  have "s_webhooks hooked_sched = [demo_webhook]" "w_id demo_webhook = 2"
    by (simp_all add: hooked_sched_def demo_webhook_def)
  then show ?thesis using d by (auto simp: demo_whenv_def)
qed

definition demo_wecom_net :: wecom_net where
  "demo_wecom_net = \<lparr>wn_marshal = (\<lambda>v. Inr ''json''), wn_post = (\<lambda>u b. Inr (Inr [''retCode'' \<mapsto> J_text ''0000''])),
     wn_base64 = (\<lambda>b. b), wn_unbase64 = Inr, wn_md5 = (\<lambda>b. b), wn_seconds = show_int\<rparr>"

lemma notification_reaches_wecom_witness:
  "\<exists>e. read_event (notification_payload demo_web hooked_task \<lparr>n_task = 5, n_eid = ''exec-5-1'', n_event = ''failed'',
       n_status = ''failed'', n_output = ''line'', n_error = ''boom'', n_duration = 3\<rparr>) = Some e \<and>
     SendWeComMessage demo_wecom_net (\<lparr>wx_robot = ''https://robot'', wx_app = [], wx_chat = []\<rparr>) ''g'' (Some e) =
       (WX 200 ''message sent successfully'' None, [(wx_robot (\<lparr>wx_robot = ''https://robot'', wx_app = [], wx_chat = []\<rparr>), ''json'')])"
  using notification_reaches_wecom [of "''g''" "\<lparr>n_task = 5, n_eid = ''exec-5-1'', n_event = ''failed'',
       n_status = ''failed'', n_output = ''line'', n_error = ''boom'', n_duration = 3\<rparr>" demo_wecom_net "\<lambda>v. ''json''"
       demo_web hooked_task "\<lparr>wx_robot = ''https://robot'', wx_app = [], wx_chat = []\<rparr>"]
  by (auto simp: demo_wecom_net_def)

end
