(* ===== verification/Http_Tests.thy ===== *)
theory Http_Tests
  imports Webhooks System_Config "HOL-Library.Word"
begin

unbundle bit_operations_syntax

text \<open>
  Requests of interface tests (scheduler/internal/service/http_executor.go, with \<open>isPrivateIP\<close> and \<open>validateAddress\<close> of
  grpc_executor.go): the check of the address, the script that runs before the request, the request itself, the
  assertions on its answer, and the curl command that does the same. The libraries for URLs, templates, JSON, base64
  and numbers, the resolver and the transport of the HTTP client are arguments; the client follows redirects as the default
  of net/http does. A URL has its host, its raw query and an opaque rest.
\<close>

section \<open>Addresses\<close>

datatype ip = IPv4 "32 word" | IPv6 "128 word"

text \<open>\<open>Contains\<close> of a network \<open>a/n\<close>: the first \<open>n\<close> bits agree. Go compares an IPv4 address in an IPv6 address as IPv4.\<close>

definition in_net4 :: "32 word \<Rightarrow> nat \<Rightarrow> 32 word \<Rightarrow> bool" where
  "in_net4 a n w \<longleftrightarrow> drop_bit (32 - n) w = drop_bit (32 - n) a"

definition in_net6 :: "128 word \<Rightarrow> nat \<Rightarrow> 128 word \<Rightarrow> bool" where
  "in_net6 a n w \<longleftrightarrow> drop_bit (128 - n) w = drop_bit (128 - n) a"

definition ip4 :: "nat \<Rightarrow> nat \<Rightarrow> nat \<Rightarrow> nat \<Rightarrow> 32 word" where
  "ip4 a b c d = word_of_nat (a * 2 ^ 24 + b * 2 ^ 16 + c * 2 ^ 8 + d)"

definition to4 :: "ip \<Rightarrow> ip" where
  "to4 ip = (case ip of IPv4 w \<Rightarrow> IPv4 w
     | IPv6 w \<Rightarrow> if drop_bit 32 w = 0xffff then IPv4 (ucast w) else IPv6 w)"

definition isPrivateIP :: "ip \<Rightarrow> bool" where
  "isPrivateIP ip =
     (case to4 ip of
        IPv4 w \<Rightarrow> list_ex (\<lambda>(a, n). in_net4 a n w)
          [(ip4 10 0 0 0, 8), (ip4 172 16 0 0, 12), (ip4 192 168 0 0, 16), (ip4 127 0 0 0, 8), (ip4 169 254 0 0, 16)]
      | IPv6 w \<Rightarrow> list_ex (\<lambda>(a, n). in_net6 a n w)
          [(1, 128), (push_bit 112 0xfc00, 7), (push_bit 112 0xfe80, 10)])"

section \<open>The outside world\<close>

record url =
  url_host :: string
  url_raw :: string
  url_rest :: string

record answer_http =
  ah_status :: int
  ah_headers :: string            \<comment> \<open>the JSON text of the map from keys to lists of values\<close>
  ah_body :: "string result"      \<comment> \<open>all of it, or the error of reading it\<close>
  ah_location :: string           \<comment> \<open>the header Location\<close>

record http_call =
  hq_method :: string
  hq_url :: string
  hq_headers :: "string \<rightharpoonup> string"
  hq_body :: string
  hq_seconds :: int

record test_world =
  tw_parse :: "string \<Rightarrow> url result"
  tw_string :: "url \<Rightarrow> string"
  tw_query :: "string \<Rightarrow> (string \<rightharpoonup> string)"        \<comment> \<open>the first value of each key\<close>
  tw_set :: "string \<Rightarrow> (string \<times> string) list \<Rightarrow> string" \<comment> \<open>a raw query after \<open>Set\<close> of these pairs and \<open>Encode\<close>\<close>
  tw_lookup :: "string \<Rightarrow> ip list result"
  tw_ip_text :: "ip \<Rightarrow> string"
  tw_parse_ip :: "string \<Rightarrow> ip option"
  tw_template :: "string \<Rightarrow> string result result"    \<comment> \<open>the error of parsing, or what executing gives\<close>
  tw_new :: "string \<Rightarrow> string \<Rightarrow> string option"
  tw_connect :: "http_call \<Rightarrow> ip result"               \<comment> \<open>where the transport connects to: it looks the host up by itself\<close>
  tw_do :: "ip \<Rightarrow> http_call \<Rightarrow> string + answer_http"   \<comment> \<open>one exchange over that connection\<close>
  tw_reference :: "string \<Rightarrow> string \<Rightarrow> string result"  \<comment> \<open>\<open>URL.Parse\<close>: a Location, seen from the URL of the request\<close>
  tw_carry :: "http_call \<Rightarrow> answer_http \<Rightarrow> string \<Rightarrow> http_call"  \<comment> \<open>headers and body for a redirect to that URL\<close>
  tw_stopped :: "http_call \<Rightarrow> string"
  tw_ms :: int
  tw_pairs :: "string \<Rightarrow> (string \<times> string) list result"
  tw_multipart :: "(string \<times> string) list \<Rightarrow> (string \<times> string) result"
  tw_base64 :: "string \<Rightarrow> string"
  tw_unbase64 :: "string \<Rightarrow> string result"
  tw_canonical :: "string \<Rightarrow> string"
  tw_json :: "string \<Rightarrow> jval result"
  tw_marshal :: "jval \<Rightarrow> string"
  tw_greater :: "string \<Rightarrow> string \<Rightarrow> bool option"      \<comment> \<open>of the numbers, if both are numbers\<close>
  tw_quote :: "string \<Rightarrow> string"

section \<open>Checking addresses\<close>

definition allow_private :: "config_service option \<Rightarrow> bool" where
  "allow_private c = (case c of None \<Rightarrow> False | Some s \<Rightarrow> GetBool s ''api_test.allow_private_network'')"

definition first_private :: "ip list \<Rightarrow> ip option" where
  "first_private ips = first_where isPrivateIP ips"

definition validateURL :: "test_world \<Rightarrow> config_service option \<Rightarrow> string \<Rightarrow> unit result" where
  "validateURL W c raw =
     (if allow_private c then Inr ()
      else if raw = [] then Inl ''URL is empty''
      else (case tw_parse W raw of
              Inl e \<Rightarrow> Inl (''invalid URL: '' @ e)
            | Inr u \<Rightarrow>
                (if url_host u = [] then Inl ''URL has no host''
                 else (case tw_lookup W (url_host u) of
                         Inl e \<Rightarrow> Inl (''failed to resolve host '' @ tw_quote W (url_host u) @ '': '' @ e)
                       | Inr ips \<Rightarrow>
                           (case first_private ips of
                              Some ip \<Rightarrow> Inl (''host '' @ tw_quote W (url_host u) @ '' resolves to private/reserved IP '' @
                                tw_ip_text W ip @ '', requests to internal addresses are blocked'')
                            | None \<Rightarrow> Inr ())))))"

text \<open>\<open>LastIndex(address, ":") > 0\<close>: what stands before the last colon, if anything does.\<close>

definition before_last_colon :: "string \<Rightarrow> string" where
  "before_last_colon a =
     (let r = dropWhile (\<lambda>c. c \<noteq> CHR '':'') (rev a) in if length r > 1 then rev (tl r) else a)"

definition strip_brackets :: "string \<Rightarrow> string" where
  "strip_brackets h =
     (let h = (case h of c # t \<Rightarrow> if c = CHR ''['' then t else h | [] \<Rightarrow> h) in TrimSuffix h '']'')"

definition validateAddress :: "test_world \<Rightarrow> config_service option \<Rightarrow> string \<Rightarrow> unit result" where
  "validateAddress W c address =
     (if allow_private c then Inr ()
      else (let host = strip_brackets (before_last_colon address);
                check = (\<lambda>ips. case first_private ips of
                    Some ip \<Rightarrow> Inl (''address '' @ address @ '' resolves to private/reserved IP '' @ tw_ip_text W ip @
                                 '', which is not allowed'')
                  | None \<Rightarrow> Inr ())
            in case tw_lookup W host of
                 Inr ips \<Rightarrow> check ips
               | Inl e \<Rightarrow> (case tw_parse_ip W host of
                    None \<Rightarrow> Inl (''cannot resolve address: '' @ address) | Some ip \<Rightarrow> check [ip])))"

section \<open>The request\<close>

record body_config =
  bc_type :: string
  bc_content :: string

record auth_config =
  ac_type :: string
  ac_token :: string
  ac_user :: string
  ac_pass :: string
  ac_key :: string
  ac_value :: string
  ac_in :: string

record http_request_config =
  hc_method :: string
  hc_url :: string
  hc_headers :: "(string \<times> string) list"
  hc_params :: "(string \<times> string) list"
  hc_body :: "body_config option"
  hc_auth :: "auth_config option"
  hc_pre :: string
  hc_post :: string
  hc_timeout :: int

text \<open>A field of its own is the template of the field; an error leaves the field as it was.\<close>

definition apply_template :: "test_world \<Rightarrow> string \<Rightarrow> string" where
  "apply_template W t = (if t = [] then t else case tw_template W t of Inr (Inr out) \<Rightarrow> out | _ \<Rightarrow> t)"

text \<open>The template that is executed for the URL is the script itself. An error leaves the rest undone.\<close>

definition applyPreScript :: "test_world \<Rightarrow> string \<Rightarrow> http_request_config \<Rightarrow> http_request_config" where
  "applyPreScript W script c =
     (if script = [] then c
      else (case tw_template W script of
              Inl e \<Rightarrow> c
            | Inr out \<Rightarrow>
                (case (if hc_url c \<noteq> [] then out else Inr []) of
                   Inl e \<Rightarrow> c
                 | Inr text \<Rightarrow>
                     c\<lparr>hc_url := (if hc_url c \<noteq> [] then text else hc_url c),
                       hc_headers := map (map_prod id (apply_template W)) (hc_headers c),
                       hc_body := map_option (\<lambda>b. b\<lparr>bc_content := apply_template W (bc_content b)\<rparr>) (hc_body c)\<rparr>)))"

definition buildURL :: "test_world \<Rightarrow> string \<Rightarrow> (string \<times> string) list \<Rightarrow> string result" where
  "buildURL W raw params =
     (if raw = [] then Inl ''URL is empty''
      else (case tw_parse W raw of
              Inl e \<Rightarrow> Inl (''invalid URL: '' @ e)
            | Inr u \<Rightarrow> Inr (tw_string W
                (if params = [] then u
                 else u\<lparr>url_raw := tw_set W (url_raw u) (filter (\<lambda>(k, v). k \<noteq> []) params)\<rparr>))))"

text \<open>Body and type of the content; no body is the empty one.\<close>

definition buildBody :: "test_world \<Rightarrow> body_config option \<Rightarrow> (string \<times> string) result" where
  "buildBody W body =
     (case body of
        None \<Rightarrow> Inr ([], [])
      | Some b \<Rightarrow>
          (let ty = bc_type b; t = bc_content b
           in if ty = ''none'' \<or> ty = [] then Inr ([], [])
              else if ty = ''json'' then Inr (t, ''application/json'')
              else if ty = ''form-urlencoded'' then
                (case tw_pairs W t of
                   Inl e \<Rightarrow> Inl (''failed to parse form-urlencoded body: '' @ e)
                 | Inr kvs \<Rightarrow> Inr (tw_set W [] kvs, ''application/x-www-form-urlencoded''))
              else if ty = ''form-multipart'' then
                (case tw_pairs W t of
                   Inl e \<Rightarrow> Inl (''failed to parse form-multipart body: '' @ e)
                 | Inr kvs \<Rightarrow> tw_multipart W kvs)
              else if ty = ''raw'' then Inr (t, [])
              else if ty = ''binary'' then
                (case tw_unbase64 W t of
                   Inl e \<Rightarrow> Inl (''failed to decode binary body: '' @ e) | Inr bytes \<Rightarrow> Inr (bytes, []))
              else Inl (''unsupported body type: '' @ ty)))"

definition put_header :: "test_world \<Rightarrow> string \<Rightarrow> string \<Rightarrow> http_call \<Rightarrow> http_call" where
  "put_header W k v r = r\<lparr>hq_headers := (hq_headers r)(tw_canonical W k \<mapsto> v)\<rparr>"

definition applyAuth :: "test_world \<Rightarrow> auth_config option \<Rightarrow> string \<Rightarrow> http_call \<Rightarrow> http_call result" where
  "applyAuth W auth reqURL r =
     (case auth of
        None \<Rightarrow> Inr r
      | Some a \<Rightarrow>
          (if ac_type a = [] \<or> ac_type a = ''none'' then Inr r
           else if ac_type a = ''bearer'' then Inr (put_header W ''Authorization'' (''Bearer '' @ ac_token a) r)
           else if ac_type a = ''basic''
           then Inr (put_header W ''Authorization'' (''Basic '' @ tw_base64 W (ac_user a @ '':'' @ ac_pass a)) r)
           else if ac_type a = ''apikey''
           then (if ac_in a = ''header'' \<or> ac_in a = [] then Inr (put_header W (ac_key a) (ac_value a) r)
                 else if ac_in a = ''query''
                 then (case tw_parse W reqURL of
                         Inl e \<Rightarrow> Inl (''failed to parse URL for apikey query param: '' @ e)
                       | Inr u \<Rightarrow> Inr (r\<lparr>hq_url := tw_string W
                           (u\<lparr>url_raw := tw_set W (url_raw u) [(ac_key a, ac_value a)]\<rparr>)\<rparr>))
                 else Inl (''unsupported apikey location: '' @ ac_in a))
           else Inl (''unsupported auth type: '' @ ac_type a)))"

definition request_seconds :: "int \<Rightarrow> int" where
  "request_seconds t = (let t = (if t \<le> 0 then 30 else t) in if t > 300 then 300 else t)"

definition maxResponseBodySize :: nat where
  "maxResponseBodySize = 10 * 1024 * 1024"

record api_result =
  ar_id :: int
  ar_test :: int
  ar_type :: string
  ar_status :: int
  ar_ms :: int
  ar_headers :: string
  ar_body :: string
  ar_error :: string
  ar_assertions :: string
  ar_by :: int
  ar_created :: instant

definition new_result :: api_result where
  "new_result = \<lparr>ar_id = 0, ar_test = 0, ar_type = [], ar_status = 0, ar_ms = 0, ar_headers = [], ar_body = [],
     ar_error = [], ar_assertions = [], ar_by = 0, ar_created = 0\<rparr>"

text \<open>\<open>Client.Do\<close>, with the default of net/http for redirects: the answers 301, 302, 303, 307 and 308 with a header Location
  are followed, the first three with \<open>GET\<close> unless the method was \<open>HEAD\<close>, until ten requests have been sent. It gives
  the answer or the error, and the requests that have left with the addresses they went to.\<close>

definition redirect_target :: "test_world \<Rightarrow> http_call \<Rightarrow> answer_http \<Rightarrow> string result option" where
  "redirect_target W r a =
     (if ah_status a \<in> {301, 302, 303, 307, 308} \<and> ah_location a \<noteq> [] then Some (tw_reference W (hq_url r) (ah_location a))
      else None)"

definition redirected :: "test_world \<Rightarrow> http_call \<Rightarrow> answer_http \<Rightarrow> string \<Rightarrow> http_call" where
  "redirected W r a target =
     (tw_carry W r a target)\<lparr>hq_url := target, hq_seconds := hq_seconds r,
        hq_method := (if ah_status a \<in> {301, 302, 303} \<and> hq_method r \<noteq> ''GET'' \<and> hq_method r \<noteq> ''HEAD'' then ''GET''
                      else hq_method r)\<rparr>"

fun http_Do :: "test_world \<Rightarrow> nat \<Rightarrow> http_call \<Rightarrow> (string + answer_http) \<times> (http_call \<times> ip) list" where
  "http_Do W 0 r = (Inl (tw_stopped W r), [])"
| "http_Do W (Suc n) r =
     (case tw_connect W r of
        Inl e \<Rightarrow> (Inl e, [])
      | Inr ip \<Rightarrow>
          (case tw_do W ip r of
             Inl e \<Rightarrow> (Inl e, [(r, ip)])
           | Inr a \<Rightarrow>
               (case redirect_target W r a of
                  None \<Rightarrow> (Inr a, [(r, ip)])
                | Some (Inl e) \<Rightarrow> (Inl e, [(r, ip)])
                | Some (Inr target) \<Rightarrow>
                    (let (x, rs) = http_Do W n (redirected W r a target) in (x, (r, ip) # rs)))))"

definition max_requests :: nat where "max_requests = 10"

definition received :: "test_world \<Rightarrow> string + answer_http \<Rightarrow> (api_result option \<times> string option)" where
  "received W x =
     (case x of
        Inl e \<Rightarrow> (Some (new_result\<lparr>ar_ms := tw_ms W, ar_error := e\<rparr>), Some (''request failed: '' @ e))
      | Inr a \<Rightarrow>
          (case ah_body a of
             Inl e \<Rightarrow> (Some (new_result\<lparr>ar_status := ah_status a, ar_ms := tw_ms W,
                          ar_error := ''failed to read response body: '' @ e\<rparr>),
                       Some (''failed to read response body: '' @ e))
           | Inr bytes \<Rightarrow>
               (let res = new_result\<lparr>ar_status := ah_status a, ar_ms := tw_ms W, ar_headers := ah_headers a,
                            ar_body := take maxResponseBodySize bytes\<rparr>
                in (Some (if length bytes > maxResponseBodySize
                          then res\<lparr>ar_error := ''response body truncated at 10MB''\<rparr> else res), None))))"

text \<open>The result and the error, and the requests that left.\<close>

definition http_Execute ::
  "test_world \<Rightarrow> config_service option \<Rightarrow> http_request_config \<Rightarrow> (api_result option \<times> string option) \<times> (http_call \<times> ip) list" where
  "http_Execute W cs config =
     (case validateURL W cs (hc_url config) of
        Inl e \<Rightarrow> ((None, Some (''URL validation failed: '' @ e)), [])
      | Inr _ \<Rightarrow>
          (let c = applyPreScript W (hc_pre config) config
           in case buildURL W (hc_url c) (hc_params c) of
                Inl e \<Rightarrow> ((None, Some (''failed to build URL: '' @ e)), [])
              | Inr reqURL \<Rightarrow>
                  (case buildBody W (hc_body c) of
                     Inl e \<Rightarrow> ((None, Some (''failed to build request body: '' @ e)), [])
                   | Inr (body, ctype) \<Rightarrow>
                       (let method = (if hc_method c = [] then ''GET'' else hc_method c)
                        in case tw_new W method reqURL of
                             Some e \<Rightarrow> ((None, Some (''failed to create request: '' @ e)), [])
                           | None \<Rightarrow>
                               (let r = \<lparr>hq_method = method, hq_url = reqURL, hq_headers = Map.empty, hq_body = body,
                                         hq_seconds = request_seconds (hc_timeout c)\<rparr>;
                                    r = (if ctype \<noteq> [] then put_header W ''Content-Type'' ctype r else r);
                                    r = fold (\<lambda>(k, v). if k \<noteq> [] then put_header W k v else id) (hc_headers c) r
                                in case applyAuth W (hc_auth c) reqURL r of
                                     Inl e \<Rightarrow> ((None, Some (''failed to apply auth: '' @ e)), [])
                                   | Inr r \<Rightarrow> (let (x, rs) = http_Do W max_requests r in (received W x, rs)))))))"

section \<open>Assertions\<close>

record assertion =
  as_type :: string
  as_target :: string
  as_operator :: string
  as_expected :: string

record assertion_result =
  re_assertion :: assertion
  re_passed :: bool
  re_actual :: string
  re_message :: string

text \<open>A number that is integral within 64 bits is a \<open>J_num\<close>, any other a \<open>J_float\<close> with its shortest text.\<close>

definition valueToString :: "test_world \<Rightarrow> jval \<Rightarrow> string" where
  "valueToString W v =
     (case v of J_text t \<Rightarrow> t | J_num n \<Rightarrow> show_int n | J_float t n \<Rightarrow> t | J_other t \<Rightarrow> t | _ \<Rightarrow> tw_marshal W v)"

fun walk_path :: "test_world \<Rightarrow> string \<Rightarrow> jval \<Rightarrow> string list \<Rightarrow> jval result" where
  "walk_path W path v [] = Inr v"
| "walk_path W path v (k # ks) =
     (if k = [] then walk_path W path v ks
      else (case v of
              J_obj fs \<Rightarrow>
                (case map_of fs k of
                   None \<Rightarrow> Inl (''path '' @ tw_quote W path @ '' not found: key '' @ tw_quote W k @ '' does not exist'')
                 | Some v' \<Rightarrow> walk_path W path v' ks)
            | _ \<Rightarrow> Inl (''path '' @ tw_quote W path @ '' not found: expected object at segment '' @ tw_quote W k)))"

definition extractJSONPath :: "test_world \<Rightarrow> string \<Rightarrow> string \<Rightarrow> string result" where
  "extractJSONPath W body path =
     (if body = [] then Inl ''response body is empty''
      else if path = [] then Inl ''json_path target is empty''
      else (case tw_json W body of
              Inl e \<Rightarrow> Inl (''failed to parse response body as JSON: '' @ e)
            | Inr v \<Rightarrow> rbind (walk_path W path v (Split CHR ''.'' path)) (\<lambda>v. Inr (valueToString W v))))"

text \<open>The keys of the map are visited in the order of the list.\<close>

definition extractHeader :: "test_world \<Rightarrow> string \<Rightarrow> string \<Rightarrow> string result" where
  "extractHeader W headersJSON target =
     (if headersJSON = [] then Inl ''headers are empty''
      else (case tw_json W headersJSON of
              Inl e \<Rightarrow> Inl (''failed to parse headers: '' @ e)
            | Inr v \<Rightarrow>
                (case v of
                   J_obj fs \<Rightarrow>
                     (case map_of fs target of
                        Some x \<Rightarrow> Inr (valueToString W x)
                      | None \<Rightarrow>
                          (case first_where (\<lambda>(k, x). ToLower k = ToLower target) fs of
                             Some (k, x) \<Rightarrow> Inr (valueToString W x)
                           | None \<Rightarrow> Inl (''header '' @ tw_quote W target @ '' not found'')))
                 | J_other t \<Rightarrow>
                     (if t = ''null'' then Inl (''header '' @ tw_quote W target @ '' not found'')
                      else Inl ''failed to parse headers: cannot unmarshal'')
                 | _ \<Rightarrow> Inl ''failed to parse headers: cannot unmarshal'')))"

definition extractActualValue :: "test_world \<Rightarrow> api_result \<Rightarrow> assertion \<Rightarrow> string result" where
  "extractActualValue W res a =
     (if as_type a = ''status_code'' then Inr (show_int (ar_status res))
      else if as_type a = ''json_path'' then extractJSONPath W (ar_body res) (as_target a)
      else if as_type a = ''header'' then extractHeader W (ar_headers res) (as_target a)
      else Inl (''unsupported assertion type: '' @ as_type a))"

definition not_numeric :: "test_world \<Rightarrow> string \<Rightarrow> string \<Rightarrow> bool \<times> string" where
  "not_numeric W actual expected =
     (False, ''cannot compare non-numeric values: actual='' @ tw_quote W actual @ '', expected='' @ tw_quote W expected)"

definition compareValues :: "test_world \<Rightarrow> string \<Rightarrow> string \<Rightarrow> string \<Rightarrow> bool \<times> string" where
  "compareValues W operator actual expected =
     (if operator = ''equals''
      then (if actual = expected then (True, [])
            else (False, ''expected '' @ tw_quote W expected @ '', got '' @ tw_quote W actual))
      else if operator = ''not_equals''
      then (if actual \<noteq> expected then (True, [])
            else (False, ''expected not '' @ tw_quote W expected @ '', but got '' @ tw_quote W actual))
      else if operator = ''contains''
      then (if Contains actual expected then (True, [])
            else (False, ''expected '' @ tw_quote W actual @ '' to contain '' @ tw_quote W expected))
      else if operator = ''gt''
      then (case tw_greater W actual expected of
              None \<Rightarrow> not_numeric W actual expected
            | Some b \<Rightarrow> if b then (True, [])
                        else (False, ''expected '' @ actual @ '' > '' @ expected @ '', but '' @ actual @ '' <= '' @ expected))
      else if operator = ''lt''
      then (case tw_greater W expected actual of
              None \<Rightarrow> not_numeric W actual expected
            | Some b \<Rightarrow> if b then (True, [])
                        else (False, ''expected '' @ actual @ '' < '' @ expected @ '', but '' @ actual @ '' >= '' @ expected))
      else if operator = ''exists''
      then (if actual \<noteq> [] then (True, []) else (False, ''expected value to exist, but got empty''))
      else (False, ''unsupported operator: '' @ operator))"

definition check_assertion :: "test_world \<Rightarrow> api_result \<Rightarrow> assertion \<Rightarrow> assertion_result" where
  "check_assertion W res a =
     (case extractActualValue W res a of
        Inl e \<Rightarrow> \<lparr>re_assertion = a, re_passed = False, re_actual = [], re_message = e\<rparr>
      | Inr actual \<Rightarrow>
          (case compareValues W (as_operator a) actual (as_expected a) of
             (passed, msg) \<Rightarrow> \<lparr>re_assertion = a, re_passed = passed, re_actual = actual, re_message = msg\<rparr>))"

definition ExecuteAssertions :: "test_world \<Rightarrow> api_result \<Rightarrow> assertion list \<Rightarrow> assertion_result list" where
  "ExecuteAssertions W res as = map (check_assertion W res) as"

section \<open>The curl command\<close>

definition quote1 :: char where "quote1 = CHR 0x27"

definition shellEscape :: "string \<Rightarrow> string" where
  "shellEscape s =
     [quote1] @ concat (map (\<lambda>c. if c = quote1 then [quote1, CHR 0x5C, quote1, quote1] else [c]) s) @ [quote1]"

definition curl_auth :: "auth_config option \<Rightarrow> string list" where
  "curl_auth auth =
     (case auth of
        None \<Rightarrow> []
      | Some a \<Rightarrow>
          (if ac_type a = ''bearer'' then [''--header '' @ shellEscape (''Authorization: Bearer '' @ ac_token a)]
           else if ac_type a = ''basic'' then [''--user '' @ shellEscape (ac_user a) @ '':'' @ shellEscape (ac_pass a)]
           else if ac_type a = ''apikey'' \<and> ac_in a = ''header''
           then [''--header '' @ shellEscape (ac_key a @ '': '' @ ac_value a)]
           else []))"

definition curl_body :: "test_world \<Rightarrow> body_config option \<Rightarrow> string list" where
  "curl_body W body =
     (case body of
        None \<Rightarrow> []
      | Some b \<Rightarrow>
          (if bc_content b = [] then []
           else if bc_type b = ''json'' \<or> bc_type b = ''raw'' then [''-d '' @ shellEscape (bc_content b)]
           else if bc_type b = ''form-urlencoded''
           then (case tw_pairs W (bc_content b) of
                   Inl e \<Rightarrow> [] | Inr kvs \<Rightarrow> [''-d '' @ shellEscape (tw_set W [] kvs)])
           else if bc_type b = ''binary'' then [''--data-binary '' @ shellEscape (bc_content b)]
           else []))"

definition curl_url :: "test_world \<Rightarrow> auth_config option \<Rightarrow> string \<Rightarrow> string" where
  "curl_url W auth reqURL =
     (case auth of
        None \<Rightarrow> reqURL
      | Some a \<Rightarrow>
          (if ac_type a = ''apikey'' \<and> ac_in a = ''query''
           then (case tw_parse W reqURL of
                   Inl e \<Rightarrow> reqURL
                 | Inr u \<Rightarrow> tw_string W (u\<lparr>url_raw := tw_set W (url_raw u) [(ac_key a, ac_value a)]\<rparr>))
           else reqURL))"

definition curl_parts :: "test_world \<Rightarrow> http_request_config \<Rightarrow> string \<Rightarrow> string list" where
  "curl_parts W c reqURL =
     [''curl'', ''-X '' @ (if hc_method c = [] then ''GET'' else hc_method c)] @ curl_auth (hc_auth c) @
     map (\<lambda>(k, v). ''-H '' @ shellEscape (k @ '': '' @ v)) (filter (\<lambda>(k, v). k \<noteq> []) (hc_headers c)) @
     curl_body W (hc_body c) @ [shellEscape (curl_url W (hc_auth c) reqURL)]"

definition GenerateCurl :: "test_world \<Rightarrow> http_request_config \<Rightarrow> string result" where
  "GenerateCurl W c =
     (case buildURL W (hc_url c) (hc_params c) of
        Inl e \<Rightarrow> Inl (''failed to build URL: '' @ e)
      | Inr reqURL \<Rightarrow> Inr (join CHR '' '' (curl_parts W c reqURL)))"

end
