(* ===== verification/Http_Test_Properties.thy ===== *)
theory Http_Test_Properties
  imports Http_Tests
begin

text \<open>
  What is proved of \<open>Http_Tests\<close>: which addresses count as private, that a request without a script goes to a host
  that has been checked and one with a script to any host, that a shell reads the curl command as the arguments that are
  meant, and what an assertion on a header compares.
\<close>

section \<open>Private addresses\<close>

lemma unat_ip4:
  assumes "a < 256" "b < 256" "c < 256" "d < 256"
  shows "unat (ip4 a b c d) = a * 2 ^ 24 + b * 2 ^ 16 + c * 2 ^ 8 + d"
proof -
  have "a * 2 ^ 24 + b * 2 ^ 16 + c * 2 ^ 8 + d < 2 ^ 32" using assms by simp
  then show ?thesis unfolding ip4_def by (simp only: unat_of_nat len_num1 len_bit0 mod_less) simp
qed

lemma in_net4_unat: "in_net4 a n w \<longleftrightarrow> unat w div 2 ^ (32 - n) = unat a div 2 ^ (32 - n)"
  by (simp only: in_net4_def word_unat_eq_iff unat_drop_bit_eq) (simp only: drop_bit_eq_div)

lemma octets:
  fixes a b c d :: nat
  assumes "b < 256" "c < 256" "d < 256"
  shows "(a * 2 ^ 24 + b * 2 ^ 16 + c * 2 ^ 8 + d) div 2 ^ 24 = a"
    "(a * 2 ^ 24 + b * 2 ^ 16 + c * 2 ^ 8 + d) div 2 ^ 20 = a * 16 + b div 16"
    "(a * 2 ^ 24 + b * 2 ^ 16 + c * 2 ^ 8 + d) div 2 ^ 16 = a * 256 + b"
proof -
  have "(c * 2 ^ 8 + d) < 2 ^ 16" using assms by simp
  then show c: "(a * 2 ^ 24 + b * 2 ^ 16 + c * 2 ^ 8 + d) div 2 ^ 16 = a * 256 + b"
    using div_mult_self1 [of "2 ^ 16" "c * 2 ^ 8 + d" "a * 256 + b"] by (simp add: algebra_simps)
  show "(a * 2 ^ 24 + b * 2 ^ 16 + c * 2 ^ 8 + d) div 2 ^ 24 = a"
    using assms c div_mult2_eq [of "a * 2 ^ 24 + b * 2 ^ 16 + c * 2 ^ 8 + d" "2 ^ 16" "2 ^ 8"] by simp
  show "(a * 2 ^ 24 + b * 2 ^ 16 + c * 2 ^ 8 + d) div 2 ^ 20 = a * 16 + b div 16"
    using assms c div_mult2_eq [of "a * 2 ^ 24 + b * 2 ^ 16 + c * 2 ^ 8 + d" "2 ^ 16" "2 ^ 4"] by simp
qed

text \<open>An IPv4 address is private exactly if it is in one of five blocks, read by its octets. Others that lead to the
  machine itself or to a provider's network, 0.0.0.0 and 100.64.0.0 for one, are not.\<close>

lemma private_addresses_by_octets:
  assumes "a < 256" "b < 256" "c < 256" "d < 256"
  shows "isPrivateIP (IPv4 (ip4 a b c d)) \<longleftrightarrow>
    a = 10 \<or> a = 127 \<or> a = 172 \<and> 16 \<le> b \<and> b < 32 \<or> a = 192 \<and> b = 168 \<or> a = 169 \<and> b = 254"
proof -
  have net: "in_net4 (ip4 p q r s) n (ip4 a b c d) \<longleftrightarrow>
      (a * 2 ^ 24 + b * 2 ^ 16 + c * 2 ^ 8 + d) div 2 ^ (32 - n) =
      (p * 2 ^ 24 + q * 2 ^ 16 + r * 2 ^ 8 + s) div 2 ^ (32 - n)"
    if "p < 256" "q < 256" "r < 256" "s < 256" for p q r s n
    by (simp only: in_net4_unat unat_ip4 [OF assms] unat_ip4 [OF that])
  have n8: "in_net4 (ip4 p q 0 0) 8 (ip4 a b c d) \<longleftrightarrow> a = p" if "p < 256" "q < 256" for p q
    using octets(1) [OF assms(2-4), of a] octets(1) [of q 0 0 p] that by (simp add: net mult.commute)
  have n12: "in_net4 (ip4 p q 0 0) 12 (ip4 a b c d) \<longleftrightarrow> a * 16 + b div 16 = p * 16 + q div 16" if "p < 256" "q < 256" for p q
    using octets(2) [OF assms(2-4), of a] octets(2) [of q 0 0 p] that by (simp add: net mult.commute)
  have n16: "in_net4 (ip4 p q 0 0) 16 (ip4 a b c d) \<longleftrightarrow> a * 256 + b = p * 256 + q" if "p < 256" "q < 256" for p q
    using octets(3) [OF assms(2-4), of a] octets(3) [of q 0 0 p] that by (simp add: net mult.commute)
  have "b div 16 < 16" "b div 16 = 1 \<longleftrightarrow> 16 \<le> b \<and> b < 32" using assms(2) by auto
  moreover have "a * 16 + q = 172 * 16 + 16 div 16 \<longleftrightarrow> a = 172 \<and> q = 1" if "q < 16" for q using that by presburger
  ultimately have "a * 16 + b div 16 = 172 * 16 + 16 div 16 \<longleftrightarrow> a = 172 \<and> 16 \<le> b \<and> b < 32" by blast
  moreover have "a * 256 + b = 192 * 256 + 168 \<longleftrightarrow> a = 192 \<and> b = 168" using assms(2) by presburger
  moreover have "a * 256 + b = 169 * 256 + 254 \<longleftrightarrow> a = 169 \<and> b = 254" using assms(2) by presburger
  ultimately show ?thesis by (auto simp: isPrivateIP_def to4_def n8 n12 n16)
qed

lemma local_addresses_that_are_public:
  "isPrivateIP (IPv4 (ip4 172 31 0 1)) \<and> \<not> isPrivateIP (IPv4 (ip4 172 32 0 1)) \<and> \<not> isPrivateIP (IPv4 (ip4 0 0 0 0))"
  using private_addresses_by_octets [of 172 31 0 1] private_addresses_by_octets [of 172 32 0 1]
    private_addresses_by_octets [of 0 0 0 0] by simp

section \<open>Where a request goes\<close>

definition public_host :: "test_world \<Rightarrow> url \<Rightarrow> bool" where
  "public_host W u \<longleftrightarrow> url_host u \<noteq> [] \<and>
     (\<exists>ips. tw_lookup W (url_host u) = Inr ips \<and> (\<forall>ip\<in>set ips. \<not> isPrivateIP ip))"

lemma validateURL_public:
  assumes "validateURL W cs raw = Inr ()" "\<not> allow_private cs" "tw_parse W raw = Inr u"
  shows "public_host W u"
  using assms
  by (auto simp: validateURL_def public_host_def first_private_def first_where_None
      split: if_splits sum.splits option.splits)

lemma put_header_url [simp]: "hq_url (put_header W k v r) = hq_url r"
  by (simp add: put_header_def)

lemma headers_url [simp]: "hq_url (fold (\<lambda>(k, v). if k \<noteq> [] then put_header W k v else id) hs r) = hq_url r"
  by (induction hs arbitrary: r) auto

text \<open>A URL that the code writes differs from the one that it has parsed in the query alone.\<close>

definition rewritten :: "test_world \<Rightarrow> string \<Rightarrow> string \<Rightarrow> bool" where
  "rewritten W raw new \<longleftrightarrow> (\<exists>u q. tw_parse W raw = Inr u \<and> new = tw_string W (u\<lparr>url_raw := q\<rparr>))"

lemma buildURL_rewritten: "buildURL W raw ps = Inr new \<Longrightarrow> rewritten W raw new"
proof -
  assume new: "buildURL W raw ps = Inr new"
  then obtain u where u: "tw_parse W raw = Inr u" by (auto simp: buildURL_def split: if_splits sum.splits)
  from new u show ?thesis
    by (cases "ps = []") (auto simp: buildURL_def rewritten_def split: if_splits intro: exI [of _ "url_raw u"])
qed

lemma applyAuth_url:
  "applyAuth W a raw r = Inr r' \<Longrightarrow> hq_url r' = hq_url r \<or> rewritten W raw (hq_url r')"
  by (auto simp: applyAuth_def rewritten_def split: option.splits if_splits sum.splits)

text \<open>The first request of the client is the one it was given.\<close>

lemma http_Do_first: "snd (http_Do W n r) = (q, ip) # rs \<Longrightarrow> q = r \<and> tw_connect W r = Inr ip"
  by (cases n) (auto split: sum.splits option.splits prod.splits)

lemma snd_received [simp]: "snd (case p of (x, rs) \<Rightarrow> (f x, rs)) = snd p"
  by (simp add: case_prod_beta)

lemma http_Do_sends: "tw_connect W r = Inr ip \<Longrightarrow> \<exists>rs. snd (http_Do W (Suc n) r) = (r, ip) # rs"
  by (auto simp: Let_def split: sum.split option.split prod.split)

lemma max_requests_Suc: "max_requests = Suc (Suc 8)"
  by (simp add: max_requests_def)

text \<open>Every further request has the URL that the answer to the one before it asks for.\<close>

fun follows_redirects :: "test_world \<Rightarrow> (http_call \<times> ip) list \<Rightarrow> bool" where
  "follows_redirects W ((r, ip) # (q, jp) # rs) \<longleftrightarrow>
     (\<exists>a. tw_do W ip r = Inr a \<and> redirect_target W r a = Some (Inr (hq_url q))) \<and> follows_redirects W ((q, jp) # rs)"
| "follows_redirects W _ \<longleftrightarrow> True"

lemma http_Do_follows: "follows_redirects W (snd (http_Do W n r))"
proof (induction n arbitrary: r)
  case (Suc n)
  show ?case
  proof (cases "tw_connect W r")
    case (Inr ip)
    show ?thesis
    proof (cases "tw_do W ip r")
      case (Inr a)
      show ?thesis
      proof (cases "redirect_target W r a")
        case (Some t)
        then show ?thesis
        proof (cases t)
          case (Inr target)
          let ?q = "redirected W r a target"
          obtain x rs where d: "http_Do W n ?q = (x, rs)" by fastforce
          have e: "snd (http_Do W (Suc n) r) = (r, ip) # rs"
            using \<open>tw_connect W r = Inr ip\<close> \<open>tw_do W ip r = Inr a\<close> Some Inr d by simp
          show ?thesis
          proof (cases rs)
            case (Cons y ys)
            obtain q jp where y: "y = (q, jp)" by fastforce
            have "q = ?q" using http_Do_first [of W n ?q q jp ys] d Cons y by simp
            then have "hq_url q = target" by (simp add: redirected_def)
            then show ?thesis
              using Suc.IH [of ?q] e d Cons y \<open>tw_do W ip r = Inr a\<close> Some Inr by auto
          qed (simp only: e, simp)
        qed (simp add: \<open>tw_connect W r = Inr ip\<close> \<open>tw_do W ip r = Inr a\<close>)
      qed (simp add: \<open>tw_connect W r = Inr ip\<close> \<open>tw_do W ip r = Inr a\<close>)
    qed (simp add: \<open>tw_connect W r = Inr ip\<close>)
  qed simp
qed simp

lemma request_url:
  assumes "snd (http_Execute W cs c) = (r, ip) # rs"
  shows "validateURL W cs (hc_url c) = Inr ()" "tw_connect W r = Inr ip" "follows_redirects W ((r, ip) # rs)"
    and "\<exists>raw. rewritten W (hc_url (applyPreScript W (hc_pre c) c)) raw \<and> (hq_url r = raw \<or> rewritten W raw (hq_url r))"
proof -
  obtain raw r' where r: "validateURL W cs (hc_url c) = Inr ()" "snd (http_Do W max_requests r') = (r, ip) # rs"
      "rewritten W (hc_url (applyPreScript W (hc_pre c) c)) raw" "hq_url r' = raw \<or> rewritten W raw (hq_url r')"
    using assms
    by (auto simp: http_Execute_def Let_def split: sum.splits option.splits prod.splits if_splits
        dest!: applyAuth_url buildURL_rewritten)
  have q: "r = r'" "tw_connect W r = Inr ip" using http_Do_first [OF r(2)] by simp_all
  show "validateURL W cs (hc_url c) = Inr ()" by (rule r(1))
  show "tw_connect W r = Inr ip" by (rule q(2))
  show "follows_redirects W ((r, ip) # rs)" using http_Do_follows [of W max_requests r'] r(2) by simp
  show "\<exists>raw. rewritten W (hc_url (applyPreScript W (hc_pre c) c)) raw \<and> (hq_url r = raw \<or> rewritten W raw (hq_url r))"
    using r(3,4) q(1) by blast
qed

text \<open>C12: What the check of addresses guards. For a test without a script, and unless the configuration allows private
  networks, the first request that leaves names a host which the check has looked up and none of whose addresses was private,
  and it goes to such an address if the transport, which looks the host up again, finds one of those. Every further request
  goes wherever the answer to the one before it points to, without a check. It is used of the library for URLs that writing a
  URL and reading it again keeps the host.\<close>

theorem requests_go_to_checked_hosts:
  assumes "\<And>v v'. tw_parse W (tw_string W v) = Inr v' \<Longrightarrow> url_host v' = url_host v"
    and "\<not> allow_private cs" "hc_pre c = []" "snd (http_Execute W cs c) = (r, ip) # rs" "tw_parse W (hq_url r) = Inr u"
  shows "public_host W u \<and> tw_connect W r = Inr ip \<and>
    ((\<exists>ips. tw_lookup W (url_host u) = Inr ips \<and> ip \<in> set ips) \<longrightarrow> \<not> isPrivateIP ip) \<and>
    follows_redirects W ((r, ip) # rs)"
proof -
  have host: "url_host v' = url_host v" if "rewritten W raw new" "tw_parse W raw = Inr v" "tw_parse W new = Inr v'"
    for raw new v v' using that assms(1) by (fastforce simp: rewritten_def)
  obtain raw where raw: "rewritten W (hc_url c) raw" "hq_url r = raw \<or> rewritten W raw (hq_url r)"
    using request_url(4) [OF assms(4)] assms(3) by (auto simp: applyPreScript_def)
  obtain v where v: "tw_parse W (hc_url c) = Inr v" using raw(1) by (auto simp: rewritten_def)
  have "url_host u = url_host v"
    using raw v assms(5) host by (metis rewritten_def)
  then have "public_host W u"
    using validateURL_public [OF request_url(1) [OF assms(4)] assms(2) v] by (simp add: public_host_def)
  then show ?thesis using request_url(2,3) [OF assms(4)] by (auto simp: public_host_def)
qed

text \<open>A server that is checked can therefore send the client to any URL, for one to a private address.\<close>

lemma redirect_reaches_any_url:
  assumes "tw_connect W r = Inr ip" "tw_do W ip r = Inr a" "ah_status a = 302" "ah_location a \<noteq> []"
    and "tw_reference W (hq_url r) (ah_location a) = Inr target"
    and "tw_connect W (redirected W r a target) = Inr jp"
  shows "\<exists>q rs. snd (http_Do W max_requests r) = (r, ip) # (q, jp) # rs \<and> hq_url q = target"
proof -
  let ?q = "redirected W r a target"
  obtain rs where rs: "snd (http_Do W (Suc 8) ?q) = (?q, jp) # rs" using http_Do_sends [OF assms(6)] by blast
  have t: "redirect_target W r a = Some (Inr target)" using assms(3-5) by (simp add: redirect_target_def)
  have "snd (http_Do W (Suc (Suc n)) r) = (r, ip) # snd (http_Do W (Suc n) ?q)" for n
    unfolding http_Do.simps(2) [of W "Suc n" r] using assms(1,2) t by (simp add: Let_def case_prod_beta)
  from this [of 8] have "snd (http_Do W max_requests r) = (r, ip) # (?q, jp) # rs" by (simp only: max_requests_Suc rs)
  then show ?thesis by (intro exI conjI) (assumption, simp add: redirected_def)
qed

text \<open>The check comes before the script, and what the script writes is the URL.\<close>

lemma script_sends_request_anywhere:
  assumes "validateURL W cs (hc_url c) = Inr ()" "hc_url c \<noteq> []" "hc_pre c \<noteq> []"
    and "tw_template W (hc_pre c) = Inr (Inr target)" "target \<noteq> []" "tw_parse W target = Inr u"
    and "hc_params c = []" "hc_body c = None" "hc_auth c = None" "\<And>m t. tw_new W m t = None" "\<And>r. tw_connect W r = Inr ip"
  shows "\<exists>r rs. snd (http_Execute W cs c) = (r, ip) # rs \<and> hq_url r = tw_string W u"
proof -
  have d: "\<exists>rs. snd (http_Do W max_requests r) = (r, ip) # rs" for r
    using http_Do_sends [OF assms(11)] unfolding max_requests_Suc by blast
  obtain r where "snd (http_Execute W cs c) = snd (http_Do W max_requests r)" "hq_url r = tw_string W u"
    using assms(1-10)
    by (auto simp: http_Execute_def applyPreScript_def buildURL_def buildBody_def applyAuth_def Let_def)
  then show ?thesis using d [of r] by auto
qed

definition demo_tests :: test_world where
  "demo_tests = \<lparr>tw_parse = (\<lambda>t. if t = [] then Inl ''empty url'' else Inr \<lparr>url_host = t, url_raw = [], url_rest = []\<rparr>),
     tw_string = url_host, tw_query = (\<lambda>q. Map.empty), tw_set = (\<lambda>q kvs. q), tw_lookup = (\<lambda>h. Inr [IPv4 (ip4 93 184 216 34)]),
     tw_ip_text = (\<lambda>ip. ''ip''), tw_parse_ip = (\<lambda>t. None), tw_template = (\<lambda>t. Inr (Inr t)), tw_new = (\<lambda>m u. None),
     tw_connect = (\<lambda>r. Inr (if hq_url r = ''example.org'' then IPv4 (ip4 93 184 216 34) else IPv4 (ip4 10 0 0 1))),
     tw_do = (\<lambda>ip r. Inr \<lparr>ah_status = (if hq_url r = ''example.org'' then 302 else 200), ah_headers = ''{}'',
       ah_body = Inr ''ok'', ah_location = ''intern''\<rparr>),
     tw_reference = (\<lambda>u t. Inr t), tw_carry = (\<lambda>r a t. r), tw_stopped = (\<lambda>r. ''stopped after 10 redirects''), tw_ms = 7,
     tw_pairs = (\<lambda>t. Inr []), tw_multipart = (\<lambda>kvs. Inr ([], ''multipart/form-data'')), tw_base64 = id, tw_unbase64 = Inr,
     tw_canonical = id, tw_json = (\<lambda>t. Inr (J_other t)), tw_marshal = (\<lambda>v. ''[]''), tw_greater = (\<lambda>a b. None), tw_quote = id\<rparr>"

definition demo_config :: http_request_config where
  "demo_config = \<lparr>hc_method = [], hc_url = ''example.org'', hc_headers = [(''Accept'', ''text'')], hc_params = [],
     hc_body = Some \<lparr>bc_type = ''json'', bc_content = ''1''\<rparr>, hc_auth = None, hc_pre = [], hc_post = [], hc_timeout = 0\<rparr>"

text \<open>A test of a public server that answers with a redirect to a private one: the second request goes there.\<close>

lemma demo_request:
  "\<exists>r q. snd (http_Execute demo_tests None demo_config) =
     [(r, IPv4 (ip4 93 184 216 34)), (q, IPv4 (ip4 10 0 0 1))] \<and> hq_url r = ''example.org'' \<and> hq_url q = ''intern''"
  using private_addresses_by_octets [of 93 184 216 34]
  by (simp add: http_Execute_def validateURL_def allow_private_def first_private_def applyPreScript_def buildURL_def
      buildBody_def applyAuth_def put_header_def request_seconds_def Let_def demo_tests_def demo_config_def max_requests_def
      eval_nat_numeral redirect_target_def redirected_def)

lemma demo_urls:
  "tw_parse demo_tests t = (if t = [] then Inl ''empty url'' else Inr \<lparr>url_host = t, url_raw = [], url_rest = []\<rparr>)"
  "tw_string demo_tests = url_host" "hc_pre demo_config = []" "\<not> allow_private None"
  by (simp_all add: demo_tests_def demo_config_def allow_private_def)

theorem requests_go_to_checked_hosts_witness:
  "public_host demo_tests \<lparr>url_host = ''example.org'', url_raw = [], url_rest = []\<rparr> \<and>
   (\<exists>r q. follows_redirects demo_tests [(r, IPv4 (ip4 93 184 216 34)), (q, IPv4 (ip4 10 0 0 1))])"
proof -
  obtain r q where d: "snd (http_Execute demo_tests None demo_config) =
      [(r, IPv4 (ip4 93 184 216 34)), (q, IPv4 (ip4 10 0 0 1))]" "hq_url r = ''example.org''"
    using demo_request by blast
  have "public_host demo_tests \<lparr>url_host = ''example.org'', url_raw = [], url_rest = []\<rparr> \<and>
      tw_connect demo_tests r = Inr (IPv4 (ip4 93 184 216 34)) \<and>
      ((\<exists>ips. tw_lookup demo_tests (url_host \<lparr>url_host = ''example.org'', url_raw = [], url_rest = []\<rparr>) = Inr ips \<and>
          IPv4 (ip4 93 184 216 34) \<in> set ips) \<longrightarrow> \<not> isPrivateIP (IPv4 (ip4 93 184 216 34))) \<and>
      follows_redirects demo_tests [(r, IPv4 (ip4 93 184 216 34)), (q, IPv4 (ip4 10 0 0 1))]"
    by (rule requests_go_to_checked_hosts [of demo_tests None demo_config])
      (auto simp: d demo_urls split: if_splits)
  then show ?thesis by blast
qed

section \<open>The command for a shell\<close>

text \<open>The words that a POSIX shell makes of a line of plain characters, blanks, single quotes and backslashes: \<open>None\<close> for
  a quote that is not closed, and for any other character outside of quotes, which may mean something to the shell.
  \<open>cur\<close> is the word so far.\<close>

definition plain_char :: "char \<Rightarrow> bool" where
  "plain_char c \<longleftrightarrow> (let n = of_char c :: nat in 48 \<le> n \<and> n \<le> 58 \<or> 65 \<le> n \<and> n \<le> 90 \<or> 97 \<le> n \<and> n \<le> 122 \<or> n = 45)"

fun shell_scan :: "bool \<Rightarrow> string option \<Rightarrow> string \<Rightarrow> string list option" where
  "shell_scan True cur [] = None"
| "shell_scan False cur [] = Some (case cur of None \<Rightarrow> [] | Some w \<Rightarrow> [w])"
| "shell_scan True cur (c # cs) =
     (if c = quote1 then shell_scan False cur cs
      else shell_scan True (Some ((case cur of None \<Rightarrow> [] | Some w \<Rightarrow> w) @ [c])) cs)"
| "shell_scan False cur (c # cs) =
     (let w = (case cur of None \<Rightarrow> [] | Some w \<Rightarrow> w)
      in if c = quote1 then shell_scan True (Some w) cs
         else if c = CHR '' '' then map_option (\<lambda>ws. case cur of None \<Rightarrow> ws | Some w \<Rightarrow> w # ws) (shell_scan False None cs)
         else if c = CHR 0x5C then (case cs of [] \<Rightarrow> None | d # ds \<Rightarrow> shell_scan False (Some (w @ [d])) ds)
         else if plain_char c then shell_scan False (Some (w @ [c])) cs
         else None)"

definition shell_words :: "string \<Rightarrow> string list option" where
  "shell_words t = shell_scan False None t"

abbreviation word_so_far :: "string option \<Rightarrow> string" where
  "word_so_far cur \<equiv> (case cur of None \<Rightarrow> [] | Some w \<Rightarrow> w)"

lemma scan_quoted:
  "shell_scan True (Some w) (concat (map (\<lambda>c. if c = quote1 then [quote1, CHR 0x5C, quote1, quote1] else [c]) t) @ quote1 # rest) =
   shell_scan False (Some (w @ t)) rest"
  by (induction t arbitrary: w) (auto simp: quote1_def plain_char_def Let_def)

lemma scan_escaped: "shell_scan False cur (shellEscape t @ rest) = shell_scan False (Some (word_so_far cur @ t)) rest"
  by (simp add: shellEscape_def scan_quoted Let_def del: concat.simps)

lemma scan_plain:
  "list_all plain_char t \<Longrightarrow> t \<noteq> [] \<Longrightarrow>
   shell_scan False cur (t @ rest) = shell_scan False (Some (word_so_far cur @ t)) rest"
proof (induction t arbitrary: cur)
  case (Cons c t)
  have "c \<noteq> quote1" "c \<noteq> CHR '' ''" "c \<noteq> CHR 0x5C" using Cons.prems(1) by (auto simp: plain_char_def quote1_def)
  then show ?case using Cons by (cases "t = []") (auto simp: Let_def)
qed simp

lemma scan_blank:
  "shell_scan False (Some w) (CHR '' '' # rest) = map_option (\<lambda>ws. w # ws) (shell_scan False None rest)"
  by (simp add: quote1_def Let_def)

text \<open>A part of the line that a shell reads as some words, the last of them still open.\<close>

definition reads :: "string \<Rightarrow> string list \<Rightarrow> bool" where
  "reads p ws \<longleftrightarrow> ws \<noteq> [] \<and>
     (\<forall>rest. shell_scan False None (p @ rest) =
        map_option (\<lambda>vs. butlast ws @ vs) (shell_scan False (Some (last ws)) rest))"

lemma reads_escaped: "reads (shellEscape t) [t]"
  by (simp add: reads_def scan_escaped option.map_ident)

lemma reads_plain: "list_all plain_char t \<Longrightarrow> t \<noteq> [] \<Longrightarrow> reads t [t]"
  by (simp add: reads_def scan_plain option.map_ident)

lemma reads_user: "reads (shellEscape u @ '':'' @ shellEscape p) [u @ '':'' @ p]"
proof -
  have "list_all plain_char '':''" by (simp add: plain_char_def)
  then show ?thesis
    by (simp only: reads_def append_assoc scan_escaped scan_plain) (simp add: scan_escaped option.map_ident plain_char_def quote1_def Let_def)
qed

lemma reads_blank:
  assumes "reads p ws" "reads q vs"
  shows "reads (p @ '' '' @ q) (ws @ vs)"
proof -
  have open_last: "butlast ws @ last ws # us = ws @ us" for us using assms(1) append_butlast_last_id [of ws] by (auto simp: reads_def)
  show ?thesis
    using assms by (simp add: reads_def scan_blank option.map_comp o_def butlast_append open_last del: shell_scan.simps)
qed

lemma reads_words: "reads p ws \<Longrightarrow> shell_words p = Some ws"
  by (auto simp: reads_def shell_words_def dest: spec [of _ "[]"])

lemma join_Cons: "join d (p # q # qs) = p @ d # join d (q # qs)"
  by (simp add: join_def)

lemma reads_join: "list_all2 reads ps wss \<Longrightarrow> ps \<noteq> [] \<Longrightarrow> reads (join CHR '' '' ps) (concat wss)"
proof (induction ps wss rule: list_all2_induct)
  case (Cons p ps ws wss)
  show ?case
  proof (cases ps)
    case Nil
    with Cons show ?thesis by (simp add: join_def)
  next
    case (Cons q qs)
    with Cons.IH Cons.hyps reads_blank [of p ws "join CHR '' '' ps" "concat wss"] show ?thesis by (simp add: join_Cons)
  qed
qed simp

section \<open>The arguments that are meant\<close>

definition curl_auth_args :: "auth_config option \<Rightarrow> string list list" where
  "curl_auth_args auth =
     (case auth of
        None \<Rightarrow> []
      | Some a \<Rightarrow>
          (if ac_type a = ''bearer'' then [[''--header'', ''Authorization: Bearer '' @ ac_token a]]
           else if ac_type a = ''basic'' then [[''--user'', ac_user a @ '':'' @ ac_pass a]]
           else if ac_type a = ''apikey'' \<and> ac_in a = ''header'' then [[''--header'', ac_key a @ '': '' @ ac_value a]]
           else []))"

definition curl_body_args :: "test_world \<Rightarrow> body_config option \<Rightarrow> string list list" where
  "curl_body_args W body =
     (case body of
        None \<Rightarrow> []
      | Some b \<Rightarrow>
          (if bc_content b = [] then []
           else if bc_type b = ''json'' \<or> bc_type b = ''raw'' then [[''-d'', bc_content b]]
           else if bc_type b = ''form-urlencoded''
           then (case tw_pairs W (bc_content b) of Inl e \<Rightarrow> [] | Inr kvs \<Rightarrow> [[''-d'', tw_set W [] kvs]])
           else if bc_type b = ''binary'' then [[''--data-binary'', bc_content b]]
           else []))"

definition curl_args :: "test_world \<Rightarrow> http_request_config \<Rightarrow> string \<Rightarrow> string list list" where
  "curl_args W c url =
     [[''curl''], [''-X'', if hc_method c = [] then ''GET'' else hc_method c]] @ curl_auth_args (hc_auth c) @
     map (\<lambda>(k, v). [''-H'', k @ '': '' @ v]) (filter (\<lambda>(k, v). k \<noteq> []) (hc_headers c)) @
     curl_body_args W (hc_body c) @ [[curl_url W (hc_auth c) url]]"

lemma plain_texts:
  "list_all plain_char ''curl''" "list_all plain_char ''-X''" "list_all plain_char ''-H''" "list_all plain_char ''-d''"
  "list_all plain_char ''--header''" "list_all plain_char ''--user''" "list_all plain_char ''--data-binary''"
  "list_all plain_char ''GET''"
  by (simp_all add: plain_char_def)

lemmas reads_flag = reads_blank [OF reads_plain reads_escaped, simplified]

lemma flag_texts:
  "reads (''-H '' @ shellEscape t) [''-H'', t]" "reads (''-d '' @ shellEscape t) [''-d'', t]"
  "reads (''--header '' @ shellEscape t) [''--header'', t]"
  "reads (''--data-binary '' @ shellEscape t) [''--data-binary'', t]"
  "reads (''--user '' @ shellEscape u @ '':'' @ shellEscape p) [''--user'', u @ '':'' @ p]"
  using reads_flag [OF plain_texts(3)] reads_flag [OF plain_texts(4)] reads_flag [OF plain_texts(5)]
    reads_flag [OF plain_texts(7)] reads_blank [OF reads_plain [OF plain_texts(6)] reads_user] by simp_all

lemma reads_method: "list_all plain_char m \<Longrightarrow> m \<noteq> [] \<Longrightarrow> reads (''-X '' @ m) [''-X'', m]"
  using reads_blank [OF reads_plain [OF plain_texts(2)] reads_plain] by simp

lemma reads_auth: "list_all2 reads (curl_auth a) (curl_auth_args a)"
  using flag_texts by (simp add: curl_auth_def curl_auth_args_def split: option.split)

lemma reads_body: "list_all2 reads (curl_body W b) (curl_body_args W b)"
  using flag_texts by (simp add: curl_body_def curl_body_args_def split: option.split sum.split)

lemma reads_headers:
  "list_all2 reads (map (\<lambda>(k, v). ''-H '' @ shellEscape (k @ '': '' @ v)) hs) (map (\<lambda>(k, v). [''-H'', k @ '': '' @ v]) hs)"
proof (induction hs)
  case (Cons h hs)
  then show ?case using flag_texts(1) [of "fst h @ '': '' @ snd h"] by (simp add: split_beta)
qed simp

text \<open>C13: The quoting of the curl command. If the method has plain characters only, a POSIX shell reads the command as
  exactly the arguments that are meant, whatever the headers, the body, the secrets and the address hold.\<close>

theorem shell_reads_the_curl_arguments:
  assumes "GenerateCurl W c = Inr line" "list_all plain_char (hc_method c)"
  shows "\<exists>url. buildURL W (hc_url c) (hc_params c) = Inr url \<and> shell_words line = Some (concat (curl_args W c url))"
proof -
  obtain url where url: "buildURL W (hc_url c) (hc_params c) = Inr url" "line = join CHR '' '' (curl_parts W c url)"
    using assms(1) by (auto simp: GenerateCurl_def split: sum.splits)
  have "reads (''-X '' @ (if hc_method c = [] then ''GET'' else hc_method c))
      [''-X'', if hc_method c = [] then ''GET'' else hc_method c]"
    using reads_method [of "''GET''"] reads_method [of "hc_method c"] assms(2) plain_texts(8) by simp
  then have "list_all2 reads (curl_parts W c url) (curl_args W c url)"
    unfolding curl_parts_def curl_args_def
    by (intro list_all2_appendI list.rel_intros reads_plain plain_texts reads_auth reads_body reads_headers reads_escaped) simp_all
  then have "reads line (concat (curl_args W c url))"
    unfolding url(2) by (rule reads_join) (simp add: curl_parts_def)
  then show ?thesis using url(1) reads_words by blast
qed

theorem shell_reads_the_curl_arguments_witness:
  "\<exists>line. GenerateCurl demo_tests (demo_config\<lparr>hc_body := Some \<lparr>bc_type = ''raw'', bc_content = [quote1] @ '' x''\<rparr>\<rparr>) = Inr line \<and>
     shell_words line = Some [''curl'', ''-X'', ''GET'', ''-H'', ''Accept: text'', ''-d'', [quote1] @ '' x'', ''example.org'']"
proof -
  let ?c = "demo_config\<lparr>hc_body := Some \<lparr>bc_type = ''raw'', bc_content = [quote1] @ '' x''\<rparr>\<rparr>"
  have url: "buildURL demo_tests (hc_url ?c) (hc_params ?c) = Inr ''example.org''"
    by (simp add: buildURL_def demo_urls) (simp add: demo_config_def)
  then obtain line where "GenerateCurl demo_tests ?c = Inr line" by (simp add: GenerateCurl_def)
  with shell_reads_the_curl_arguments [of demo_tests ?c line] url show ?thesis
    by (simp add: demo_config_def curl_args_def curl_auth_args_def curl_body_args_def curl_url_def)
qed

text \<open>A method that is no plain word is not quoted, and what it holds is left to the shell.\<close>

lemma method_is_not_quoted:
  "GenerateCurl W (c\<lparr>hc_method := m\<rparr>) = Inr line \<Longrightarrow> m \<noteq> [] \<Longrightarrow> \<exists>rest. line = ''curl -X '' @ m @ rest"
  by (auto simp: GenerateCurl_def curl_parts_def join_def split: sum.splits)

text \<open>The request carries a key without a place in a header; the command leaves it out.\<close>

lemma curl_drops_the_key:
  assumes "ac_type a = ''apikey''" "ac_in a = []"
  shows "applyAuth W (Some a) u r = Inr (put_header W (ac_key a) (ac_value a) r)" "curl_auth (Some a) = []"
    "curl_url W (Some a) u = u"
  using assms by (simp_all add: applyAuth_def curl_auth_def curl_url_def)

section \<open>Assertions\<close>

text \<open>The headers of an answer are kept as lists of values, and the JSON text of a list is what an assertion compares: an
  \<open>equals\<close> with the value of a header never passes.\<close>

lemma header_values_are_lists:
  assumes "ar_headers res \<noteq> []" "tw_json W (ar_headers res) = Inr (J_obj (map (\<lambda>(k, vs). (k, J_list (map J_text vs))) hs))"
    and "\<And>vs. \<exists>rest. tw_marshal W (J_list vs) = CHR ''['' # rest"
    and "as_type a = ''header''" "as_operator a = ''equals''" "take 1 (as_expected a) \<noteq> ''[''"
  shows "\<not> re_passed (check_assertion W res a)"
proof -
  have lists: "\<exists>vs. x = J_list vs" if "(k, x) \<in> set (map (\<lambda>(k, vs). (k, J_list (map J_text vs))) hs)" for k x
    using that by auto
  have texts: "valueToString W (J_list vs) \<noteq> as_expected a" for vs
    using assms(3) [of vs] assms(6) by (auto simp: valueToString_def)
  consider e where "extractActualValue W res a = Inl e"
    | vs where "extractActualValue W res a = Inr (valueToString W (J_list vs))"
    using assms(1,2,4) lists
    by (fastforce simp: extractActualValue_def extractHeader_def split: option.splits dest!: map_of_SomeD first_where_Some)
  then show ?thesis
    by cases (use assms(5) texts in \<open>auto simp: check_assertion_def compareValues_def\<close>)
qed

end
