(* ===== verification/Grpc_Tests.thy ===== *)
theory Grpc_Tests
  imports Http_Tests
begin

text \<open>
  gRPC requests of interface tests (scheduler/internal/service/grpc_executor.go): the transport, the search for the method,
  the call and its result, the test of a connection, reflection, and the fields of a message for a form. The libraries
  for gRPC, reflection, proto files and X.509 are arguments. A message is known by its full name, and its fields by
  a table, since messages may refer to each other. Chinese messages are translated to ASCII.
\<close>

section \<open>Descriptors\<close>

datatype proto_type =
    TYPE_DOUBLE | TYPE_FLOAT | TYPE_INT64 | TYPE_UINT64 | TYPE_INT32 | TYPE_FIXED64 | TYPE_FIXED32 | TYPE_BOOL | TYPE_STRING
  | TYPE_GROUP | TYPE_MESSAGE | TYPE_BYTES | TYPE_UINT32 | TYPE_ENUM | TYPE_SFIXED32 | TYPE_SFIXED64 | TYPE_SINT32 | TYPE_SINT64

record field_desc =
  fd_name :: string
  fd_number :: int
  fd_repeated :: bool
  fd_map :: bool
  fd_message :: "string option"
  fd_enum :: "string option"
  fd_type :: proto_type

type_synonym message_table = "string \<Rightarrow> field_desc list"

record method_desc =
  md_name :: string
  md_input :: string
  md_output :: string
  md_client_stream :: bool
  md_server_stream :: bool

record service_desc =
  sd_full :: string
  sd_name :: string
  sd_methods :: "method_desc list"

record file_desc =
  fi_services :: "service_desc list"
  fi_messages :: "(string \<times> string) list"     \<comment> \<open>names and full names\<close>

definition FindMethodByName :: "service_desc \<Rightarrow> string \<Rightarrow> method_desc option" where
  "FindMethodByName d n = first_where (\<lambda>m. md_name m = n) (sd_methods d)"

section \<open>The outside world\<close>

record certificate =
  ct_id :: int
  ct_name :: string
  ct_ca :: string
  ct_cert :: string
  ct_key :: string
  ct_by :: int
  ct_created :: instant
  ct_updated :: instant

text \<open>\<open>System\<close> are the roots of the system, which \<open>crypto/tls\<close> takes when \<open>RootCAs\<close> is nil.\<close>

datatype roots = System | Pool "string list"

datatype grpc_transport = Plain | TLS roots "(string \<times> string) option"

datatype conn_state = IDLE | CONNECTING | READY | TRANSIENT_FAILURE | SHUTDOWN

record grpc_answer =
  ga_header :: "string \<rightharpoonup> string list"
  ga_trailer :: "string \<rightharpoonup> string list"
  ga_reply :: "string + string option result"   \<comment> \<open>the error of the call, or its message, if any, as JSON or the error of that\<close>

record grpc_world =
  gw_dial :: "grpc_transport \<Rightarrow> string \<Rightarrow> string option"
  gw_states :: "conn_state list"                 \<comment> \<open>the states that are seen until the time is over\<close>
  gw_resolve :: "string \<Rightarrow> service_desc result"
  gw_services :: "string list result"
  gw_parse :: "(string \<rightharpoonup> string) \<Rightarrow> (file_desc list \<times> message_table) result"
  gw_unmarshal :: "method_desc \<Rightarrow> string \<Rightarrow> string option"
  gw_invoke :: "duration \<Rightarrow> (string \<times> string) list \<Rightarrow> method_desc \<Rightarrow> string \<Rightarrow> grpc_answer"
  gw_json :: "(string \<rightharpoonup> string list) \<Rightarrow> string result"
  gw_template :: "method_desc \<Rightarrow> string result"
  gw_code :: "string \<Rightarrow> int option"               \<comment> \<open>the code of the status of an error, if it has one\<close>
  gw_pem :: "string \<Rightarrow> bool"
  gw_pair :: "string \<Rightarrow> string \<Rightarrow> string option"
  gw_ms :: int

record grpc_config =
  gc_address :: string
  gc_service :: string
  gc_method :: string
  gc_body :: string
  gc_metadata :: "(string \<times> string) list"
  gc_tls :: string
  gc_certificate :: "int option"
  gc_proto :: "int option"
  gc_reflection :: bool
  gc_timeout :: int

section \<open>The transport\<close>

text \<open>The pool that \<open>mtls\<close> starts from is empty, which is not the same as none.\<close>

definition buildTLSConfig :: "grpc_world \<Rightarrow> string \<Rightarrow> certificate option \<Rightarrow> grpc_transport result" where
  "buildTLSConfig G mode cert =
     (if mode = ''insecure'' \<or> mode = [] then Inr Plain
      else if mode = ''tls'' then Inr (TLS System None)
      else if mode = ''mtls'' then
        (case cert of
           None \<Rightarrow> Inl ''certificate is required for mTLS mode''
         | Some c \<Rightarrow>
             (if ct_ca c \<noteq> [] \<and> \<not> gw_pem G (ct_ca c) then Inl ''failed to append CA certificate to pool''
              else if ct_cert c = [] \<or> ct_key c = [] then Inl ''client certificate and key are required for mTLS mode''
              else (case gw_pair G (ct_cert c) (ct_key c) of
                      Some e \<Rightarrow> Inl (''failed to load client certificate key pair: '' @ e)
                    | None \<Rightarrow> Inr (TLS (Pool (if ct_ca c \<noteq> [] then [ct_ca c] else [])) (Some (ct_cert c, ct_key c))))))
      else Inl (''unsupported TLS mode: '' @ mode))"

definition buildDialOptions :: "grpc_world \<Rightarrow> string \<Rightarrow> certificate option \<Rightarrow> grpc_transport result" where
  "buildDialOptions G mode cert =
     (if mode = ''insecure'' \<or> mode = [] then Inr Plain
      else if mode = ''tls'' then
        (case cert of
           None \<Rightarrow> Inr (TLS System None)
         | Some c \<Rightarrow>
             (if ct_ca c = [] then Inr (TLS System None)
              else if gw_pem G (ct_ca c) then Inr (TLS (Pool [ct_ca c]) None)
              else Inl ''failed to append CA certificate to pool''))
      else if mode = ''mtls'' then
        (case buildTLSConfig G mode cert of
           Inl e \<Rightarrow> Inl (''failed to build mTLS config: '' @ e) | Inr t \<Rightarrow> Inr t)
      else Inl (''unsupported TLS mode: '' @ mode))"

text \<open>The conversion to a duration may wrap round before it is bounded.\<close>

definition grpc_timeout :: "int \<Rightarrow> duration" where
  "grpc_timeout n =
     (if n > 0 then (let d = wrap64 (n * second) in if d > 300 * second then 300 * second else d) else 30 * second)"

text \<open>What every request does first: the check of the address, the transport and the connection.\<close>

definition connect_to ::
  "test_world \<Rightarrow> grpc_world \<Rightarrow> config_service option \<Rightarrow> string \<Rightarrow> string \<Rightarrow> certificate option \<Rightarrow> grpc_transport result" where
  "connect_to W G cs address mode cert =
     (case validateAddress W cs address of
        Inl e \<Rightarrow> Inl (''address validation failed: '' @ e)
      | Inr _ \<Rightarrow>
          (case buildDialOptions G mode cert of
             Inl e \<Rightarrow> Inl (''failed to build dial options: '' @ e)
           | Inr t \<Rightarrow>
               (case gw_dial G t address of
                  Some e \<Rightarrow> Inl (''failed to dial gRPC server '' @ address @ '': '' @ e)
                | None \<Rightarrow> Inr t)))"

section \<open>Methods\<close>

definition with_input :: "string \<Rightarrow> (string \<rightharpoonup> string) \<Rightarrow> (string \<rightharpoonup> string)" where
  "with_input content deps = deps(''input.proto'' \<mapsto> content)"

definition parseMethodFromProto ::
  "grpc_world \<Rightarrow> string \<Rightarrow> (string \<rightharpoonup> string) \<Rightarrow> string \<Rightarrow> string \<Rightarrow> method_desc result" where
  "parseMethodFromProto G content deps service method =
     (case gw_parse G (with_input content deps) of
        Inl e \<Rightarrow> Inl (''failed to parse proto file: '' @ e)
      | Inr (files, T) \<Rightarrow>
          (if files = [] then Inl ''no file descriptors returned from proto parsing''
           else (case first_where (\<lambda>d. sd_full d = service \<or> sd_name d = service) (concat (map fi_services files)) of
                   None \<Rightarrow> Inl (''service '' @ service @ '' not found in proto file'')
                 | Some d \<Rightarrow>
                     (case FindMethodByName d method of
                        None \<Rightarrow> Inl (''method '' @ method @ '' not found in service '' @ sd_full d)
                      | Some m \<Rightarrow> Inr m))))"

definition GenerateTemplate ::
  "grpc_world \<Rightarrow> string \<Rightarrow> (string \<rightharpoonup> string) \<Rightarrow> string \<Rightarrow> string \<Rightarrow> string result" where
  "GenerateTemplate G content deps service method =
     rbind (parseMethodFromProto G content deps service method) (\<lambda>m.
       case gw_template G m of Inl e \<Rightarrow> Inl (''failed to marshal template: '' @ e) | Inr t \<Rightarrow> Inr t)"

definition find_method ::
  "grpc_world \<Rightarrow> grpc_config \<Rightarrow> string \<Rightarrow> (string \<rightharpoonup> string) \<Rightarrow> method_desc result" where
  "find_method G c content deps =
     (if gc_reflection c then
        (case gw_resolve G (gc_service c) of
           Inl e \<Rightarrow> Inl (''failed to resolve service '' @ gc_service c @ '' via reflection: '' @ e)
         | Inr d \<Rightarrow>
             (case FindMethodByName d (gc_method c) of
                None \<Rightarrow> Inl (''method '' @ gc_method c @ '' not found in service '' @ gc_service c) | Some m \<Rightarrow> Inr m))
      else if content \<noteq> [] then
        (case parseMethodFromProto G content deps (gc_service c) (gc_method c) of
           Inl e \<Rightarrow> Inl (''failed to parse method from proto file: '' @ e) | Inr m \<Rightarrow> Inr m)
      else Inl ''either UseReflection must be true or a proto file must be provided'')"

section \<open>Calls\<close>

definition extractGRPCStatusCode :: "grpc_world \<Rightarrow> string \<Rightarrow> int" where
  "extractGRPCStatusCode G e = (case gw_code G e of None \<Rightarrow> 2 | Some n \<Rightarrow> n)"

definition merged_headers :: "(string \<rightharpoonup> string list) \<Rightarrow> (string \<rightharpoonup> string list) \<Rightarrow> (string \<rightharpoonup> string list)" where
  "merged_headers h t k =
     (case t k of None \<Rightarrow> h k | Some vs \<Rightarrow> Some ((case h k of None \<Rightarrow> [] | Some us \<Rightarrow> us) @ vs))"

definition called :: "grpc_world \<Rightarrow> grpc_answer \<Rightarrow> api_result" where
  "called G a =
     (let res = new_result\<lparr>ar_type := ''grpc'', ar_ms := gw_ms G,
            ar_headers := (case gw_json G (merged_headers (ga_header a) (ga_trailer a)) of Inl e \<Rightarrow> ''{}'' | Inr t \<Rightarrow> t)\<rparr>
      in case ga_reply a of
           Inl e \<Rightarrow> res\<lparr>ar_status := extractGRPCStatusCode G e, ar_error := e\<rparr>
         | Inr (Inr None) \<Rightarrow> res
         | Inr (Inr (Some json)) \<Rightarrow> res\<lparr>ar_body := json\<rparr>
         | Inr (Inl e) \<Rightarrow> res\<lparr>ar_body := CHR ''{'' # CHR 0x22 # ''error'' @ CHR 0x22 # '': '' @
               CHR 0x22 # ''failed to marshal response: '' @ e @ [CHR 0x22, CHR ''}'']\<rparr>)"

definition grpc_Execute ::
  "test_world \<Rightarrow> grpc_world \<Rightarrow> config_service option \<Rightarrow> grpc_config \<Rightarrow> string \<Rightarrow> (string \<rightharpoonup> string) \<Rightarrow> certificate option \<Rightarrow>
   api_result result" where
  "grpc_Execute W G cs c content deps cert =
     rbind (connect_to W G cs (gc_address c) (gc_tls c) cert) (\<lambda>t.
     rbind (find_method G c content deps) (\<lambda>m.
       let body = (if gc_body c = [] then ''{}'' else gc_body c)
       in case gw_unmarshal G m body of
            Some e \<Rightarrow> Inl (''failed to unmarshal request body into dynamic message: '' @ e)
          | None \<Rightarrow> Inr (called G (gw_invoke G (grpc_timeout (gc_timeout c)) (gc_metadata c) m body))))"

text \<open>The loop over the states of the connection ends with the first final one, or with the time.\<close>

definition connect_error :: "string \<Rightarrow> string \<Rightarrow> string" where
  "connect_error mode address =
     (if mode = ''tls'' then ''TLS connection failed: '' @ address @ '', check the TLS configuration and certificate''
      else if mode = ''mtls'' then ''mTLS connection failed: '' @ address @ '', check the client certificate''
      else ''connection failed: '' @ address)"

fun watch_states :: "conn_state list \<Rightarrow> conn_state option" where
  "watch_states [] = None"
| "watch_states (s # ss) = (if s = READY \<or> s = TRANSIENT_FAILURE then Some s else watch_states ss)"

definition ConnectTest ::
  "test_world \<Rightarrow> grpc_world \<Rightarrow> config_service option \<Rightarrow> grpc_config \<Rightarrow> certificate option \<Rightarrow> api_result result" where
  "ConnectTest W G cs c cert =
     (case validateAddress W cs (gc_address c) of
        Inl e \<Rightarrow> Inl (''address validation failed: '' @ e)
      | Inr _ \<Rightarrow>
          (if gc_tls c = ''mtls'' \<and> cert = None
           then Inr (new_result\<lparr>ar_type := ''grpc'', ar_error := ''mTLS mode needs a client certificate''\<rparr>)
           else rbind (connect_to W G cs (gc_address c) (gc_tls c) cert) (\<lambda>t.
             let res = new_result\<lparr>ar_type := ''grpc'', ar_ms := gw_ms G\<rparr>
             in Inr (case watch_states (gw_states G) of
                  None \<Rightarrow> res\<lparr>ar_error := ''connection timed out: '' @ gc_address c\<rparr>
                | Some s \<Rightarrow>
                    (if s = READY
                     then res\<lparr>ar_body := ''{'' @ tw_quote W ''status'' @ '':'' @ tw_quote W ''connected'' @ '','' @
                            tw_quote W ''address'' @ '':'' @ [CHR 0x22] @ gc_address c @ [CHR 0x22, CHR ''}'']\<rparr>
                     else res\<lparr>ar_error := connect_error (gc_tls c) (gc_address c)\<rparr>)))))"

definition ReflectServices ::
  "test_world \<Rightarrow> grpc_world \<Rightarrow> config_service option \<Rightarrow> string \<Rightarrow> string \<Rightarrow> certificate option \<Rightarrow>
   (string \<times> method_desc list) list result" where
  "ReflectServices W G cs address mode cert =
     rbind (connect_to W G cs address mode cert) (\<lambda>t.
       case gw_services G of
         Inl e \<Rightarrow> Inl (''failed to list services via reflection for '' @ address @ '': '' @ e)
       | Inr names \<Rightarrow>
           Inr (map (\<lambda>n. (n, case gw_resolve G n of Inl e \<Rightarrow> [] | Inr d \<Rightarrow> sd_methods d)) names))"

section \<open>Fields for a form\<close>

fun protoTypeToShortName :: "proto_type \<Rightarrow> string" where
  "protoTypeToShortName TYPE_DOUBLE = ''double''"
| "protoTypeToShortName TYPE_FLOAT = ''float''"
| "protoTypeToShortName TYPE_INT64 = ''int64''"
| "protoTypeToShortName TYPE_UINT64 = ''uint64''"
| "protoTypeToShortName TYPE_INT32 = ''int32''"
| "protoTypeToShortName TYPE_FIXED64 = ''fixed64''"
| "protoTypeToShortName TYPE_FIXED32 = ''fixed32''"
| "protoTypeToShortName TYPE_BOOL = ''bool''"
| "protoTypeToShortName TYPE_STRING = ''string''"
| "protoTypeToShortName TYPE_BYTES = ''bytes''"
| "protoTypeToShortName TYPE_UINT32 = ''uint32''"
| "protoTypeToShortName TYPE_SFIXED32 = ''sfixed32''"
| "protoTypeToShortName TYPE_SFIXED64 = ''sfixed64''"
| "protoTypeToShortName TYPE_SINT32 = ''sint32''"
| "protoTypeToShortName TYPE_SINT64 = ''sint64''"
| "protoTypeToShortName TYPE_GROUP = ''TYPE_GROUP''"
| "protoTypeToShortName TYPE_MESSAGE = ''TYPE_MESSAGE''"
| "protoTypeToShortName TYPE_ENUM = ''TYPE_ENUM''"

datatype proto_field =
  Proto_Field (pf_name: string) (pf_number: int) (pf_type: string) (pf_label: string) (pf_key: string) (pf_value: string)
    (pf_fields: "proto_field list")

definition type_name :: "field_desc \<Rightarrow> string" where
  "type_name f =
     (case fd_message f of
        Some m \<Rightarrow> ''message:'' @ m
      | None \<Rightarrow> (case fd_enum f of Some e \<Rightarrow> ''enum:'' @ e | None \<Rightarrow> protoTypeToShortName (fd_type f)))"

definition field_label :: "field_desc \<Rightarrow> string" where
  "field_label f = (if fd_repeated f then if fd_map f then ''map'' else ''repeated'' else ''optional'')"

definition map_names :: "message_table \<Rightarrow> field_desc \<Rightarrow> string \<times> string" where
  "map_names T f =
     (if fd_map f
      then (case (case fd_message f of None \<Rightarrow> [] | Some m \<Rightarrow> T m) of
              k # v # _ \<Rightarrow> (protoTypeToShortName (fd_type k), type_name v) | _ \<Rightarrow> ([], []))
      else ([], []))"

definition field_of :: "message_table \<Rightarrow> field_desc \<Rightarrow> proto_field list \<Rightarrow> proto_field" where
  "field_of T f sub =
     (case map_names T f of
        (k, v) \<Rightarrow> Proto_Field (fd_name f) (fd_number f) (type_name f) (field_label f) k v sub)"

text \<open>The fields of a message are built into each field of its type. \<open>None\<close> is the call that never returns, which in Go
  exhausts the stack and ends the process.\<close>

partial_function (option) buildFields :: "message_table \<Rightarrow> field_desc list \<Rightarrow> proto_field list option" where
  "buildFields T fs =
     (case fs of
        [] \<Rightarrow> Some []
      | f # rest \<Rightarrow>
          Option.bind (case fd_message f of None \<Rightarrow> Some [] | Some m \<Rightarrow> buildFields T (T m)) (\<lambda>sub.
          Option.bind (buildFields T rest) (\<lambda>more. Some (field_of T f sub # more))))"

record message_def =
  mf_name :: string
  mf_full :: string
  mf_fields :: "proto_field list"

definition buildMessageDef :: "message_table \<Rightarrow> string \<times> string \<Rightarrow> message_def option" where
  "buildMessageDef T m =
     (case m of (name, full) \<Rightarrow>
        map_option (\<lambda>fs. \<lparr>mf_name = name, mf_full = full, mf_fields = fs\<rparr>) (buildFields T (T full)))"

fun build_messages :: "message_table \<Rightarrow> (string \<times> string) list \<Rightarrow> message_def list option" where
  "build_messages T [] = Some []"
| "build_messages T (m # ms) =
     Option.bind (buildMessageDef T m) (\<lambda>d. map_option (\<lambda>ds. d # ds) (build_messages T ms))"

definition GenerateFields :: "grpc_world \<Rightarrow> string \<Rightarrow> (string \<rightharpoonup> string) \<Rightarrow> message_def list result option" where
  "GenerateFields G content deps =
     (case gw_parse G (with_input content deps) of
        Inl e \<Rightarrow> Some (Inl (''failed to parse proto file: '' @ e))
      | Inr (files, T) \<Rightarrow> map_option Inr (build_messages T (concat (map fi_messages files))))"

end
