(* ===== verification/Grpc_Test_Properties.thy ===== *)
theory Grpc_Test_Properties
  imports Grpc_Tests
begin

text \<open>
  What is proved of \<open>Grpc_Tests\<close>: for which files the fields of the messages are found in finite time, which requests
  reach which address, and the corners of the transport and of the time limit.
\<close>

section \<open>Messages that refer to each other\<close>

text \<open>A message refers to the messages of its fields.\<close>

definition refs :: "message_table \<Rightarrow> (string \<times> string) set" where
  "refs T = {(m', m). \<exists>f\<in>set (T m). fd_message f = Some m'}"

abbreviation founded :: "message_table \<Rightarrow> string \<Rightarrow> bool" where
  "founded T m \<equiv> m \<in> Wellfounded.acc (refs T)"

lemma buildFields_Nil: "buildFields T [] = Some []"
  by (subst buildFields.simps) simp

lemma buildFields_Cons:
  "buildFields T (f # fs) =
     Option.bind (case fd_message f of None \<Rightarrow> Some [] | Some m \<Rightarrow> buildFields T (T m)) (\<lambda>sub.
     Option.bind (buildFields T fs) (\<lambda>more. Some (field_of T f sub # more)))"
  by (subst buildFields.simps) simp

lemma fields_return:
  assumes "\<forall>f\<in>set fs. \<forall>m. fd_message f = Some m \<longrightarrow> buildFields T (T m) \<noteq> None"
  shows "buildFields T fs \<noteq> None"
  using assms by (induction fs) (auto simp: buildFields_Nil buildFields_Cons split: option.splits)

lemma founded_returns: "founded T m \<Longrightarrow> buildFields T (T m) \<noteq> None"
proof (induction m rule: acc.induct)
  case (accI m)
  then show ?case by (intro fields_return) (auto simp: refs_def)
qed

lemma returns_founded:
  assumes "buildFields T fs = Some r"
  shows "\<forall>f\<in>set fs. \<forall>m. fd_message f = Some m \<longrightarrow> founded T m"
proof (rule buildFields.raw_induct [of "\<lambda>T fs r. \<forall>f\<in>set fs. \<forall>m. fd_message f = Some m \<longrightarrow> founded T m", OF _ assms])
  fix build T fs y
  assume IH: "\<And>T fs y. build T fs = Some y \<Longrightarrow> \<forall>f\<in>set fs. \<forall>m. fd_message f = Some m \<longrightarrow> founded T m"
    and y: "(case fs of [] \<Rightarrow> Some [] | f # rest \<Rightarrow>
      Option.bind (case fd_message f of None \<Rightarrow> Some [] | Some m \<Rightarrow> build T (T m)) (\<lambda>sub.
      Option.bind (build T rest) (\<lambda>more. Some (field_of T f sub # more)))) = Some (y :: proto_field list)"
  show "\<forall>f\<in>set fs. \<forall>m. fd_message f = Some m \<longrightarrow> founded T m"
  proof (cases fs)
    case (Cons g rest)
    have "founded T m" if msg: "fd_message g = Some m" for m
    proof (rule accI)
      fix m' assume "(m', m) \<in> refs T"
      moreover obtain sub where "build T (T m) = Some sub" using y by (auto simp: Cons msg bind_eq_Some_conv)
      ultimately show "founded T m'" using IH by (fastforce simp: refs_def)
    qed
    moreover obtain more where "build T rest = Some more" using y by (auto simp: Cons bind_eq_Some_conv)
    ultimately show ?thesis using IH Cons by (metis set_ConsD)
  qed simp
qed

lemma message_returns_iff: "buildFields T (T m) \<noteq> None \<longleftrightarrow> founded T m"
proof
  assume "buildFields T (T m) \<noteq> None"
  then obtain r where "buildFields T (T m) = Some r" by auto
  then have "founded T m'" if "(m', m) \<in> refs T" for m'
    using that returns_founded by (fastforce simp: refs_def)
  then show "founded T m" by (rule accI)
qed (rule founded_returns)

lemma messages_return_iff: "build_messages T ms = None \<longleftrightarrow> (\<exists>m\<in>set ms. \<not> founded T (snd m))"
proof (induction ms)
  case (Cons m ms)
  have "buildFields T (T (snd m)) = None \<longleftrightarrow> \<not> founded T (snd m)" using message_returns_iff by blast
  then have "buildMessageDef T m = None \<longleftrightarrow> \<not> founded T (snd m)" by (cases m) (simp add: buildMessageDef_def)
  with Cons show ?case by (cases "buildMessageDef T m") auto
qed simp

text \<open>C14: The request for the fields of a file returns exactly if no message of the file refers to others without end. For a
  message that has itself in a field, a tree for one, the recursion never ends, and Go kills the process when the
  stack is full.\<close>

theorem fields_of_recursive_files_never_return:
  assumes "gw_parse G (with_input content deps) = Inr (files, T)"
  shows "GenerateFields G content deps = None \<longleftrightarrow> (\<exists>m\<in>set (concat (map fi_messages files)). \<not> founded T (snd m))"
  using assms messages_return_iff [of T "concat (map fi_messages files)"] by (simp add: GenerateFields_def)

lemma cycle_not_founded: "founded T m \<Longrightarrow> (m, m) \<notin> (refs T)\<^sup>+"
proof (induction m rule: acc.induct)
  case (accI m)
  show ?case
  proof
    assume "(m, m) \<in> (refs T)\<^sup>+"
    then obtain z where "(z, m) \<in> refs T" "(m, z) \<in> (refs T)\<^sup>*" by (meson tranclD2)
    then show False using accI(2) by (meson rtrancl_into_trancl2)
  qed
qed

definition tree_table :: message_table where
  "tree_table m = (if m = ''Tree'' then [\<lparr>fd_name = ''children'', fd_number = 1, fd_repeated = True, fd_map = False,
     fd_message = Some ''Tree'', fd_enum = None, fd_type = TYPE_MESSAGE\<rparr>] else [])"

definition demo_grpc :: grpc_world where
  "demo_grpc = \<lparr>gw_dial = (\<lambda>t a. None), gw_states = [IDLE, CONNECTING, READY], gw_resolve = (\<lambda>n. Inl ''unknown''),
     gw_services = Inr [], gw_parse = (\<lambda>fs. Inr ([\<lparr>fi_services = [], fi_messages = [(''Tree'', ''Tree'')]\<rparr>], tree_table)),
     gw_unmarshal = (\<lambda>m t. None), gw_invoke = (\<lambda>d md m t. \<lparr>ga_header = Map.empty, ga_trailer = Map.empty, ga_reply = Inl ''e''\<rparr>),
     gw_json = (\<lambda>h. Inr ''{}''), gw_template = (\<lambda>m. Inr ''{}''), gw_code = (\<lambda>e. None), gw_pem = (\<lambda>t. True),
     gw_pair = (\<lambda>c k. None), gw_ms = 3\<rparr>"

theorem fields_of_recursive_files_never_return_witness:
  "GenerateFields demo_grpc ''message Tree'' Map.empty = None"
proof -
  have "(''Tree'', ''Tree'') \<in> refs tree_table" by (simp add: refs_def tree_table_def)
  then have "\<not> founded tree_table ''Tree''" using cycle_not_founded by blast
  then show ?thesis
    using fields_of_recursive_files_never_return [of demo_grpc "''message Tree''" Map.empty] by (simp add: demo_grpc_def)
qed

section \<open>The transport\<close>

text \<open>A private network is reached by no call, no test of a connection and no reflection, unless the configuration allows
  it: what is connected has passed \<open>validateAddress\<close>.\<close>

lemma connections_are_checked:
  "connect_to W G cs address mode cert = Inr t \<Longrightarrow> validateAddress W cs address = Inr ()"
  "grpc_Execute W G cs c content deps cert = Inr r \<Longrightarrow> validateAddress W cs (gc_address c) = Inr ()"
  "ReflectServices W G cs address mode cert = Inr ss \<Longrightarrow> validateAddress W cs address = Inr ()"
  by (auto simp: connect_to_def grpc_Execute_def ReflectServices_def Let_def split: sum.splits)

text \<open>Without a CA certificate \<open>tls\<close> trusts the roots of the system, and \<open>mtls\<close> trusts nobody.\<close>

lemma mtls_without_ca_trusts_nobody:
  assumes "ct_ca c = []"
  shows "buildDialOptions G ''tls'' (Some c) = Inr (TLS System None)"
    "buildDialOptions G ''mtls'' (Some c) = Inr t \<Longrightarrow> t = TLS (Pool []) (Some (ct_cert c, ct_key c))"
  using assms by (auto simp: buildDialOptions_def buildTLSConfig_def split: sum.splits if_splits option.splits)

text \<open>The limit of time is between a nanosecond and five minutes, until the number of seconds overflows.\<close>

lemma grpc_timeout_bounds:
  "n \<le> 9223372036 \<Longrightarrow> 0 < grpc_timeout n \<and> grpc_timeout n \<le> 300 * second"
  "grpc_timeout 9223372037 < 0"
proof -
  show "0 < grpc_timeout n \<and> grpc_timeout n \<le> 300 * second" if "n \<le> 9223372036"
  proof (cases "n > 0")
    case True
    have "wrap64 (n * second) = n * second" using True that by (intro wrap64_id) simp_all
    then show ?thesis using True by (simp add: grpc_timeout_def Let_def)
  qed (simp add: grpc_timeout_def)
  have "wrap64 (9223372037 * second) = 9223372037 * second - 2 ^ 64" by code_simp
  then show "grpc_timeout 9223372037 < 0" by (simp add: grpc_timeout_def)
qed

end
