(* ===== verification/Proto_Parser.thy ===== *)
theory Proto_Parser
  imports Go_Strings
begin

text \<open>
  \<open>ParseProto\<close> of scheduler/internal/service/proto_service.go, which reads the package, the messages and the services out
  of the text of a proto file with regular expressions, and what becomes of services that follow each other. Texts
  are ASCII.
\<close>

section \<open>Groups of regular expressions\<close>

text \<open>An expression as a row of parts, some of them groups. The results are in the order in which a leftmost-first engine
  prefers them: the texts of the groups, and the rest.\<close>

type_synonym parts = "(rx \<times> bool) list"

fun captures :: "parts \<Rightarrow> string \<Rightarrow> (string list \<times> string) list" where
  "captures [] s = [([], s)]"
| "captures ((r, g) # ps) s =
     concat (map (\<lambda>t. map (\<lambda>(gs, u). (if g then take (length s - length t) s # gs else gs, u)) (captures ps t)) (ends r s))"

text \<open>\<open>FindStringSubmatch\<close> and \<open>FindAllStringSubmatch\<close>: the matches from left to right, each with what follows it.\<close>

fun first_match :: "parts \<Rightarrow> string \<Rightarrow> (string list \<times> string) option" where
  "first_match ps [] = (case captures ps [] of [] \<Rightarrow> None | m # _ \<Rightarrow> Some m)"
| "first_match ps (c # s) = (case captures ps (c # s) of [] \<Rightarrow> first_match ps s | m # _ \<Rightarrow> Some m)"

text \<open>The expressions used here match no empty text.\<close>

function all_matches :: "parts \<Rightarrow> string \<Rightarrow> (string list \<times> string) list" where
  "all_matches ps s =
     (case first_match ps s of
        None \<Rightarrow> []
      | Some (gs, u) \<Rightarrow> if length u < length s then (gs, u) # all_matches ps u else [])"
  by pat_completeness auto

termination all_matches
  by (relation "measure (\<lambda>(ps, s). length s)") auto

declare all_matches.simps [simp del]

section \<open>The expressions\<close>

definition name_char :: "char \<Rightarrow> bool" where "name_char c \<longleftrightarrow> word_char c \<or> c = CHR ''.''"

definition spaces :: "rx \<times> bool" where "spaces = (Many rx_space, False)"
definition some_space :: "rx \<times> bool" where "some_space = (some_of rx_space, False)"
definition lit :: "string \<Rightarrow> rx \<times> bool" where "lit t = (word id t, False)"

definition pkgRe :: parts where "pkgRe = [lit ''package'', some_space, (some_of name_char, True)]"
definition msgRe :: parts where "msgRe = [lit ''message'', some_space, (some_of word_char, True)]"

definition svcRe :: parts where
  "svcRe = [lit ''service'', some_space, (some_of word_char, True), spaces, lit ''{'']"

definition methodRe :: parts where
  "methodRe = [lit ''rpc'', some_space, (some_of word_char, True), spaces, lit ''('', spaces, (some_of name_char, True),
     spaces, lit '')'', spaces, lit ''returns'', spaces, lit ''('', spaces, (some_of name_char, True), spaces, lit '')'']"

section \<open>Parsing\<close>

record proto_method =
  pm_name :: string
  pm_input :: string
  pm_output :: string
  pm_client_stream :: bool
  pm_server_stream :: bool

record proto_service =
  ps_name :: string
  ps_methods :: "proto_method list"

record proto_result =
  pp_package :: string
  pp_services :: "proto_service list"
  pp_messages :: "string list"

text \<open>From behind the brace that opens the block; \<open>d\<close> is the depth, which is 0 there.\<close>

fun block_from :: "int \<Rightarrow> string \<Rightarrow> string" where
  "block_from d [] = []"
| "block_from d (c # s) =
     (if c = CHR ''{'' then c # block_from (d + 1) s
      else if c = CHR ''}'' then (if d - 1 = 0 then [c] else c # block_from (d - 1) s)
      else c # block_from d s)"

definition extractBlock :: "string \<Rightarrow> string" where "extractBlock s = block_from 0 s"

fun method_of :: "string list \<times> string \<Rightarrow> proto_method list" where
  "method_of ([n, i, out], u) =
     [\<lparr>pm_name = n, pm_input = i, pm_output = out, pm_client_stream = False, pm_server_stream = False\<rparr>]"
| "method_of _ = []"

definition methods_in :: "string \<Rightarrow> proto_method list" where
  "methods_in body = concat (map method_of (all_matches methodRe body))"

definition ParseProto :: "string \<Rightarrow> proto_result" where
  "ParseProto content =
     \<lparr>pp_package = (case first_match pkgRe content of Some (p # gs, u) \<Rightarrow> p | _ \<Rightarrow> []),
      pp_services = map (\<lambda>(gs, u). \<lparr>ps_name = concat (take 1 gs), ps_methods = methods_in (extractBlock u)\<rparr>)
        (all_matches svcRe content),
      pp_messages = concat (map (\<lambda>(gs, u). take 1 gs) (all_matches msgRe content))\<rparr>"

section \<open>Where a service ends\<close>

text \<open>A text behind an opening brace in which braces do not nest: \<open>inside\<close> says that one is open.\<close>

fun flat :: "bool \<Rightarrow> string \<Rightarrow> bool" where
  "flat inside [] = True"
| "flat inside (c # s) =
     (if c = CHR ''{'' then \<not> inside \<and> flat True s
      else if c = CHR ''}'' then inside \<and> flat False s
      else flat inside s)"

lemma block_of_flat: "flat inside s \<Longrightarrow> block_from (if inside then 0 else -1) s = s"
  by (induction inside s rule: flat.induct) (auto split: if_splits)

text \<open>A block inside, which ends the service in the eyes of \<open>extractBlock\<close>.\<close>

lemma block_ends_inside:
  assumes "CHR ''{'' \<notin> set a" "CHR ''}'' \<notin> set a" "CHR ''{'' \<notin> set b" "CHR ''}'' \<notin> set b"
  shows "extractBlock (a @ ''{'' @ b @ ''}'' @ rest) = a @ ''{'' @ b @ ''}''"
proof -
  have skip: "block_from d (t @ u) = t @ block_from d u" if "CHR ''{'' \<notin> set t" "CHR ''}'' \<notin> set t" for d t u
    using that by (induction t) auto
  have "block_from 1 (b @ CHR ''}'' # rest) = b @ ''}''" using skip [OF assms(3,4)] by simp
  then show ?thesis using skip [OF assms(1,2)] by (simp add: extractBlock_def)
qed

text \<open>C15: The block of a service starts behind its brace, but is measured as if it started before it. In a file without nested braces every
  service therefore has the methods of all the services that follow it as well.\<close>

theorem services_run_on:
  assumes "(gs, u) \<in> set (all_matches svcRe content)" "flat True u"
  shows "\<lparr>ps_name = concat (take 1 gs), ps_methods = methods_in u\<rparr> \<in> set (pp_services (ParseProto content))"
proof -
  have "extractBlock u = u" using block_of_flat [OF assms(2)] by (simp add: extractBlock_def)
  then show ?thesis using assms(1) by (force simp: ParseProto_def)
qed

definition two_services :: string where
  "two_services = ''service A{rpc X(R)returns(S);}service B{rpc Y(R)returns(S);}''"

definition behind_first :: string where "behind_first = ''rpc X(R)returns(S);}service B{rpc Y(R)returns(S);}''"

lemma two_matches:
  "all_matches svcRe two_services = [([''A''], behind_first), ([''B''], ''rpc Y(R)returns(S);}'')]"
  "flat True behind_first"
  "map pm_name (methods_in behind_first) = [''X'', ''Y'']"
  by code_simp+

theorem services_run_on_witness:
  "\<exists>s\<in>set (pp_services (ParseProto two_services)). ps_name s = ''A'' \<and> map pm_name (ps_methods s) = [''X'', ''Y'']"
  using services_run_on [of "[''A'']" behind_first two_services] by (force simp: two_matches)

text \<open>A method with a body hides the methods after it, and a method of a stream is not found.\<close>

lemma methods_behind_a_body_are_lost:
  "map (map pm_name \<circ> ps_methods)
     (pp_services (ParseProto ''service A{rpc X(R)returns(S){}rpc Y(R)returns(S){}}'')) = [[''X'']]"
  "map (map pm_name \<circ> ps_methods) (pp_services (ParseProto ''service A{rpc X(stream R)returns(S);}'')) = [[]]"
  by code_simp+

end
