(* ===== verification/Rsa_Util.thy ===== *)
theory Rsa_Util
  imports Tasks Go_Strings
begin

text \<open>
  The keys and ciphertexts of scheduler/pkg/rsautil/rsautil.go over the libraries for RSA, AES-GCM, X.509 and base64 as
  arguments, and that what is encrypted comes back. Messages of errors are translated to ASCII.
\<close>

section \<open>The libraries\<close>

text \<open>A key of another kind than RSA is \<open>None\<close>. Randomness is the number of a draw.\<close>

record ('p, 'q) crypto_lib =
  ry_base64 :: "string \<Rightarrow> string"
  ry_unbase64 :: "string \<Rightarrow> string result"
  ry_public :: "string \<Rightarrow> 'p option result"            \<comment> \<open>\<open>ParsePKIXPublicKey\<close>\<close>
  ry_private :: "string \<Rightarrow> 'q option result"           \<comment> \<open>\<open>ParsePKCS8PrivateKey\<close>\<close>
  ry_marshal_public :: "'p \<Rightarrow> string result"
  ry_marshal_private :: "'q \<Rightarrow> string result"
  ry_generate :: "nat \<Rightarrow> ('p \<times> 'q) result"
  ry_rsa :: "nat \<Rightarrow> 'p \<Rightarrow> string \<Rightarrow> string result"     \<comment> \<open>\<open>EncryptPKCS1v15\<close>\<close>
  ry_unrsa :: "'q \<Rightarrow> string \<Rightarrow> string result"
  ry_random :: "nat \<Rightarrow> nat \<Rightarrow> string result"           \<comment> \<open>so many bytes\<close>
  ry_cipher :: "string \<Rightarrow> string option"             \<comment> \<open>the error of \<open>NewCipher\<close>\<close>
  ry_nonce :: nat                                    \<comment> \<open>the size of a nonce\<close>
  ry_seal :: "string \<Rightarrow> string \<Rightarrow> string \<Rightarrow> string"
  ry_open :: "string \<Rightarrow> string \<Rightarrow> string \<Rightarrow> string result"

record ('p, 'q) rsa_util =
  ru_public :: 'p
  ru_private :: "'q option"
  ru_public_text :: string
  ru_private_text :: string

section \<open>Keys\<close>

definition wrapped :: "string \<Rightarrow> 'a result \<Rightarrow> 'a result" where
  "wrapped what r = (case r of Inl e \<Rightarrow> Inl (what @ '': '' @ e) | Inr x \<Rightarrow> Inr x)"

lemma wrapped_simps [simp]:
  "wrapped what (Inr x) = Inr x" "wrapped what r = Inr x \<longleftrightarrow> r = Inr x"
  by (auto simp: wrapped_def split: sum.splits)

definition of_kind :: "string \<Rightarrow> 'a option \<Rightarrow> 'a result" where
  "of_kind what k = (case k of None \<Rightarrow> Inl what | Some x \<Rightarrow> Inr x)"

definition parsePublicKey :: "('p, 'q) crypto_lib \<Rightarrow> string \<Rightarrow> 'p result" where
  "parsePublicKey L t =
     rbind (wrapped ''base64 decoding failed'' (ry_unbase64 L t)) (\<lambda>bytes.
     rbind (wrapped ''parsing the public key failed'' (ry_public L bytes)) (of_kind ''not an RSA public key''))"

definition parsePrivateKey :: "('p, 'q) crypto_lib \<Rightarrow> string \<Rightarrow> 'q result" where
  "parsePrivateKey L t =
     rbind (wrapped ''base64 decoding failed'' (ry_unbase64 L t)) (\<lambda>bytes.
     rbind (wrapped ''parsing the private key failed'' (ry_private L bytes)) (of_kind ''not an RSA private key''))"

definition NewFromConfig :: "('p, 'q) crypto_lib \<Rightarrow> string \<Rightarrow> string \<Rightarrow> ('p, 'q) rsa_util result" where
  "NewFromConfig L pub priv =
     (if pub = [] then Inl ''the RSA public key is empty''
      else rbind (wrapped ''parsing the RSA public key failed'' (parsePublicKey L pub)) (\<lambda>p.
        if priv = [] then Inr \<lparr>ru_public = p, ru_private = None, ru_public_text = pub, ru_private_text = []\<rparr>
        else rbind (wrapped ''parsing the RSA private key failed'' (parsePrivateKey L priv)) (\<lambda>q.
          Inr \<lparr>ru_public = p, ru_private = Some q, ru_public_text = pub, ru_private_text = priv\<rparr>)))"

definition PublicKeyB64 :: "('p, 'q) rsa_util \<Rightarrow> string" where "PublicKeyB64 u = ru_public_text u"

definition HasPrivateKey :: "('p, 'q) rsa_util \<Rightarrow> bool" where "HasPrivateKey u \<longleftrightarrow> ru_private u \<noteq> None"

definition GenerateKeyPair :: "('p, 'q) crypto_lib \<Rightarrow> nat \<Rightarrow> (string \<times> string) result" where
  "GenerateKeyPair L n =
     rbind (wrapped ''generating the key failed'' (ry_generate L n)) (\<lambda>(p, q).
     rbind (wrapped ''writing the public key failed'' (ry_marshal_public L p)) (\<lambda>pub.
     rbind (wrapped ''writing the private key failed'' (ry_marshal_private L q)) (\<lambda>priv.
     Inr (ry_base64 L pub, ry_base64 L priv))))"

section \<open>Hexadecimal digits\<close>

definition nibble :: "char \<Rightarrow> nat option" where
  "nibble c =
     (if 48 \<le> code c \<and> code c \<le> 57 then Some (code c - 48)
      else if 97 \<le> code c \<and> code c \<le> 102 then Some (code c - 87)
      else if 65 \<le> code c \<and> code c \<le> 70 then Some (code c - 55)
      else None)"

fun unhex :: "string \<Rightarrow> string result" where
  "unhex [] = Inr []"
| "unhex [c] = Inl ''odd length hex string''"
| "unhex (c # d # s) =
     (case (nibble c, nibble d) of
        (Some m, Some n) \<Rightarrow> rbind (unhex s) (\<lambda>t. Inr (char_of (16 * m + n) # t))
      | _ \<Rightarrow> Inl ''invalid byte'')"

lemma high_nibble: "(of_char c :: nat) div 16 < 16"
  using nat_of_char_less_256 [of c] by (simp add: less_mult_imp_div_less del: nat_of_char_less_256)

lemma nibble_digit: "d < 16 \<Longrightarrow> nibble (hex_digit d) = Some d"
  by (auto simp: nibble_def hex_digit_def)

lemma unhex_hex: "unhex (hex t) = Inr t"
proof (induction t)
  case (Cons c t)
  have "16 * (of_char c div 16) + of_char c mod 16 = (of_char c :: nat)" by simp
  then show ?case using Cons by (simp add: hex_def nibble_digit high_nibble)
qed (simp add: hex_def)

lemma dot_not_in_hex: "CHR ''.'' \<notin> set (hex t)"
proof -
  have digit: "hex_digit d \<noteq> CHR ''.''" if "d < 16" for d :: nat
    using nibble_digit [OF that] by (auto simp: nibble_def code_def)
  have "CHR ''.'' \<notin> set [hex_digit (of_char c div 16), hex_digit (of_char c mod 16)]" for c :: char
    using digit [OF high_nibble [of c]] digit [of "of_char c mod 16"] by simp
  then show ?thesis by (simp add: hex_def)
qed

section \<open>Texts\<close>

definition rsa_Encrypt :: "('p, 'q) crypto_lib \<Rightarrow> nat \<Rightarrow> ('p, 'q) rsa_util \<Rightarrow> string \<Rightarrow> string result" where
  "rsa_Encrypt L n u t = rbind (wrapped ''RSA encryption failed'' (ry_rsa L n (ru_public u) t)) (\<lambda>c. Inr (hex c))"

definition rsa_Decrypt :: "('p, 'q) crypto_lib \<Rightarrow> ('p, 'q) rsa_util \<Rightarrow> string \<Rightarrow> string result" where
  "rsa_Decrypt L u t =
     (case ru_private u of
        None \<Rightarrow> Inl ''no RSA private key is configured''
      | Some q \<Rightarrow> rbind (wrapped ''hex decoding failed'' (unhex t)) (\<lambda>c. wrapped ''RSA decryption failed'' (ry_unrsa L q c)))"

text \<open>The draws \<open>n\<close>, \<open>n + 1\<close> and \<open>n + 2\<close> are those of the key, of RSA and of the nonce. The nonce stands before the text.\<close>

definition EncryptLarge :: "('p, 'q) crypto_lib \<Rightarrow> nat \<Rightarrow> ('p, 'q) rsa_util \<Rightarrow> string \<Rightarrow> string result" where
  "EncryptLarge L n u t =
     rbind (wrapped ''generating the AES key failed'' (ry_random L n 32)) (\<lambda>key.
     rbind (wrapped ''RSA encryption of the AES key failed'' (ry_rsa L (n + 1) (ru_public u) key)) (\<lambda>sealed.
     case ry_cipher L key of
       Some e \<Rightarrow> Inl (''creating the AES cipher failed: '' @ e)
     | None \<Rightarrow>
         rbind (wrapped ''generating the nonce failed'' (ry_random L (n + 2) (ry_nonce L))) (\<lambda>nonce.
         Inr (hex sealed @ ''.'' @ ry_base64 L (nonce @ ry_seal L key nonce t)))))"

definition cut_dot :: "string \<Rightarrow> (string \<times> string) option" where
  "cut_dot t =
     (case dropWhile (\<lambda>c. c \<noteq> CHR ''.'') t of [] \<Rightarrow> None | _ # rest \<Rightarrow> Some (takeWhile (\<lambda>c. c \<noteq> CHR ''.'') t, rest))"

definition DecryptLarge :: "('p, 'q) crypto_lib \<Rightarrow> ('p, 'q) rsa_util \<Rightarrow> string \<Rightarrow> string result" where
  "DecryptLarge L u t =
     (case ru_private u of
        None \<Rightarrow> Inl ''no RSA private key is configured''
      | Some q \<Rightarrow>
          (case cut_dot t of
             None \<Rightarrow> Inl ''invalid ciphertext''
           | Some (a, b) \<Rightarrow>
               rbind (wrapped ''hex decoding failed'' (unhex a)) (\<lambda>sealed.
               rbind (wrapped ''RSA decryption of the AES key failed'' (ry_unrsa L q sealed)) (\<lambda>key.
               rbind (wrapped ''base64 decoding failed'' (ry_unbase64 L b)) (\<lambda>bytes.
               case ry_cipher L key of
                 Some e \<Rightarrow> Inl (''creating the AES cipher failed: '' @ e)
               | None \<Rightarrow>
                   if length bytes < ry_nonce L then Inl ''the AES ciphertext is too short''
                   else wrapped ''AES-GCM decryption failed''
                     (ry_open L key (take (ry_nonce L) bytes) (drop (ry_nonce L) bytes)))))))"

definition DecryptConfigPassword :: "('p, 'q) crypto_lib \<Rightarrow> ('p, 'q) rsa_util \<Rightarrow> string \<Rightarrow> string result" where
  "DecryptConfigPassword L u t =
     (if HasPrefix t ''RSA_ENCRYPTED:''
      then wrapped ''decrypting the password failed'' (rsa_Decrypt L u (drop 14 t))
      else Inr t)"

section \<open>What comes back\<close>

text \<open>The libraries as they are documented, for a pair of keys that belong together.\<close>

definition rsa_laws :: "('p, 'q) crypto_lib \<Rightarrow> ('p, 'q) rsa_util \<Rightarrow> bool" where
  "rsa_laws L u \<longleftrightarrow>
     (\<forall>t. ry_unbase64 L (ry_base64 L t) = Inr t) \<and>
     (\<forall>q n t c. ru_private u = Some q \<longrightarrow> ry_rsa L n (ru_public u) t = Inr c \<longrightarrow> ry_unrsa L q c = Inr t) \<and>
     (\<forall>n k t. ry_random L n k = Inr t \<longrightarrow> length t = k) \<and>
     (\<forall>key nonce t. ry_open L key nonce (ry_seal L key nonce t) = Inr t)"

lemma cut_dot_hex: "cut_dot (hex a @ CHR ''.'' # b) = Some (hex a, b)"
proof -
  have stop: "dropWhile P (s @ c # t) = c # t \<and> takeWhile P (s @ c # t) = s"
    if "\<forall>x\<in>set s. P x" "\<not> P c" for P :: "char \<Rightarrow> bool" and s c t using that by (induction s) auto
  have "\<forall>x\<in>set (hex a). x \<noteq> CHR ''.''" using dot_not_in_hex by fast
  then show ?thesis using stop [of "hex a" "\<lambda>c. c \<noteq> CHR ''.''" "CHR ''.''" b] by (simp add: cut_dot_def)
qed

lemma DecryptLarge_EncryptLarge:
  assumes "rsa_laws L u" "HasPrivateKey u" "EncryptLarge L n u t = Inr c"
  shows "DecryptLarge L u c = Inr t" "Contains c ''.''"
proof -
  obtain q where q: "ru_private u = Some q" using assms(2) by (auto simp: HasPrivateKey_def)
  from assms(3) obtain key sealed nonce where
    c: "ry_rsa L (n + 1) (ru_public u) key = Inr sealed" "ry_cipher L key = None"
      "ry_random L (n + 2) (ry_nonce L) = Inr nonce" "c = hex sealed @ ''.'' @ ry_base64 L (nonce @ ry_seal L key nonce t)"
    by (auto simp: EncryptLarge_def split: option.splits)
  have laws: "length nonce = ry_nonce L" "ry_unrsa L q sealed = Inr key" "\<And>s. ry_unbase64 L (ry_base64 L s) = Inr s"
    "ry_open L key nonce (ry_seal L key nonce t) = Inr t"
    using assms(1) c q by (auto simp: rsa_laws_def)
  show "DecryptLarge L u c = Inr t"
    using q c(2) laws by (simp add: DecryptLarge_def c(4) cut_dot_hex unhex_hex)
  show "Contains c ''.''" by (auto simp: c(4) Contains_def sublist_def)
qed

lemma Decrypt_Encrypt:
  assumes "rsa_laws L u" "HasPrivateKey u" "rsa_Encrypt L n u t = Inr c"
  shows "rsa_Decrypt L u c = Inr t" "\<not> Contains c ''.''"
    "DecryptConfigPassword L u (''RSA_ENCRYPTED:'' @ c) = Inr t"
proof -
  show t: "rsa_Decrypt L u c = Inr t"
    using assms by (auto simp: HasPrivateKey_def rsa_Encrypt_def rsa_Decrypt_def unhex_hex rsa_laws_def)
  have "c = hex b" if "ry_rsa L n (ru_public u) t = Inr b" for b using assms(3) that by (simp add: rsa_Encrypt_def)
  then have "CHR ''.'' \<notin> set c" using assms(3) dot_not_in_hex by (auto simp: rsa_Encrypt_def)
  then show "\<not> Contains c ''.''" by (auto simp: Contains_def sublist_def)
  show "DecryptConfigPassword L u (''RSA_ENCRYPTED:'' @ c) = Inr t"
    using t by (simp add: DecryptConfigPassword_def HasPrefix_def)
qed

end
