(* ===== verification/Test_Files.thy ===== *)
theory Test_Files
  imports Grpc_Tests Proto_Parser Rsa_Util Admin_Requests
begin

text \<open>
  The certificates and proto files of interface tests (scheduler/internal/service: certificate_service.go and
  proto_service.go; scheduler/internal/handler: certificate.go and proto_file.go, with \<open>checkOwnership\<close> of common.go). The
  tables have unique indexes on name and creator (deploy/schema.sql). SHA-256, JSON, \<open>LIKE\<close> and the text of an instant
  are arguments. Bodies are bound already: \<open>None\<close> is a body or an id that is none.
\<close>

section \<open>Rows\<close>

record proto_file =
  po_id :: int
  po_name :: string
  po_content :: string
  po_hash :: string
  po_parsed :: string
  po_deps :: string
  po_by :: int
  po_by_name :: string
  po_created :: instant
  po_updated :: instant

record api_test =
  at_id :: int
  at_name :: string
  at_type :: string
  at_config :: string
  at_by :: int
  at_created :: instant
  at_updated :: instant

record tests_store =
  tt_certs :: "certificate list"
  tt_protos :: "proto_file list"
  tt_tests :: "api_test list"
  tt_results :: "api_result list"
  tt_names :: "(int \<times> string) list"           \<comment> \<open>users' real names\<close>

datatype file_stmt =
    F_cert_insert | F_cert_update | F_cert_delete | F_cert_get | F_cert_count | F_cert_list
  | F_proto_insert | F_proto_update | F_proto_delete | F_proto_get | F_proto_count | F_proto_list | F_proto_parsed
  | F_test_insert | F_test_update | F_test_delete | F_test_get | F_test_count | F_test_list
  | F_result_insert | F_result_get | F_result_delete | F_result_count | F_result_list

record ('p, 'q) files_env =
  fv_db :: "file_stmt \<Rightarrow> string option"
  fv_now :: instant
  fv_id :: int
  fv_like :: "string \<Rightarrow> string \<Rightarrow> bool"      \<comment> \<open>\<open>LIKE\<close> with a percent sign on both sides\<close>
  fv_hash :: "string \<Rightarrow> string"
  fv_time :: "instant \<Rightarrow> string"
  fv_ids :: "string \<Rightarrow> int list result"         \<comment> \<open>\<open>Unmarshal\<close> into a list of numbers\<close>
  fv_show_ids :: "int list \<Rightarrow> string"
  fv_show_parse :: "proto_result \<Rightarrow> string result"
  fv_lib :: "('p, 'q) crypto_lib"
  fv_rsa :: "('p, 'q) rsa_util"
  fv_draw :: nat

definition user_real_name :: "tests_store \<Rightarrow> int \<Rightarrow> string" where
  "user_real_name s u = (case map_of (tt_names s) u of None \<Rightarrow> [] | Some n \<Rightarrow> n)"

section \<open>Certificates\<close>

definition sealed_key :: "('p, 'q) files_env \<Rightarrow> string \<Rightarrow> string result" where
  "sealed_key V k =
     (case EncryptLarge (fv_lib V) (fv_draw V) (fv_rsa V) k of
        Inl e \<Rightarrow> Inl (''failed to encrypt client key: '' @ e) | Inr c \<Rightarrow> Inr c)"

definition cert_Create ::
  "('p, 'q) files_env \<Rightarrow> certificate \<Rightarrow> tests_store \<Rightarrow> certificate result \<times> tests_store" where
  "cert_Create V c s =
     (case (if ct_key c = [] then Inr [] else sealed_key V (ct_key c)) of
        Inl e \<Rightarrow> (Inl e, s)
      | Inr k \<Rightarrow>
          (case fv_db V F_cert_insert of
             Some e \<Rightarrow> (Inl e, s)
           | None \<Rightarrow>
               (if \<exists>x\<in>set (tt_certs s). ct_name x = ct_name c \<and> ct_by x = ct_by c
                then (Inl ''UNIQUE constraint failed'', s)
                else (let c1 = c\<lparr>ct_id := fv_id V, ct_created := fv_now V, ct_updated := fv_now V\<rparr>
                      in (Inr c1, s\<lparr>tt_certs := tt_certs s @ [c1\<lparr>ct_key := k\<rparr>]\<rparr>)))))"

text \<open>An empty key leaves the key as it is.\<close>

definition cert_Update ::
  "('p, 'q) files_env \<Rightarrow> int \<Rightarrow> certificate \<Rightarrow> tests_store \<Rightarrow> unit result \<times> tests_store" where
  "cert_Update V i c s =
     (case (if ct_key c = [] then Inr None else map_sum id Some (sealed_key V (ct_key c))) of
        Inl e \<Rightarrow> (Inl e, s)
      | Inr k \<Rightarrow>
          (case fv_db V F_cert_update of
             Some e \<Rightarrow> (Inl e, s)
           | None \<Rightarrow>
               (case first_where (\<lambda>x. ct_id x = i) (tt_certs s) of
                  None \<Rightarrow> (Inl ''certificate not found'', s)
                | Some old \<Rightarrow>
                    (if \<exists>x\<in>set (tt_certs s). ct_id x \<noteq> i \<and> ct_name x = ct_name c \<and> ct_by x = ct_by old
                     then (Inl ''UNIQUE constraint failed'', s)
                     else (Inr (), s\<lparr>tt_certs := upd_where (\<lambda>x. ct_id x = i)
                            (\<lambda>x. x\<lparr>ct_name := ct_name c, ct_ca := ct_ca c, ct_cert := ct_cert c,
                                   ct_key := (case k of None \<Rightarrow> ct_key x | Some t \<Rightarrow> t), ct_updated := fv_now V\<rparr>)
                            (tt_certs s)\<rparr>)))))"

definition cert_Delete :: "('p, 'q) files_env \<Rightarrow> int \<Rightarrow> tests_store \<Rightarrow> unit result \<times> tests_store" where
  "cert_Delete V i s =
     (case fv_db V F_cert_delete of
        Some e \<Rightarrow> (Inl e, s)
      | None \<Rightarrow> (if count_where (\<lambda>x. ct_id x = i) (tt_certs s) = 0 then (Inl ''certificate not found'', s)
                 else (Inr (), s\<lparr>tt_certs := del_where (\<lambda>x. ct_id x = i) (tt_certs s)\<rparr>)))"

text \<open>A key with a dot is of the new format, one without of the old.\<close>

definition opened_key :: "('p, 'q) files_env \<Rightarrow> string \<Rightarrow> string result" where
  "opened_key V k =
     (if k = [] then Inr []
      else (case (if Contains k ''.'' then DecryptLarge (fv_lib V) (fv_rsa V) k else rsa_Decrypt (fv_lib V) (fv_rsa V) k) of
              Inl e \<Rightarrow> Inl (''failed to decrypt client key: '' @ e) | Inr t \<Rightarrow> Inr t))"

definition cert_GetByID :: "('p, 'q) files_env \<Rightarrow> int \<Rightarrow> tests_store \<Rightarrow> certificate result" where
  "cert_GetByID V i s =
     rbind (on_db (fv_db V F_cert_get) (first_where (\<lambda>x. ct_id x = i) (tt_certs s))) (\<lambda>row.
       case row of
         None \<Rightarrow> Inl ''certificate not found''
       | Some c \<Rightarrow> rbind (opened_key V (ct_key c)) (\<lambda>k. Inr (c\<lparr>ct_key := k\<rparr>)))"

record cert_summary =
  cs_id :: int
  cs_name :: string
  cs_ca :: bool
  cs_cert :: bool
  cs_key :: bool
  cs_by :: int
  cs_by_name :: string
  cs_created :: instant
  cs_updated :: instant

definition cert_ListByUser ::
  "('p, 'q) files_env \<Rightarrow> int \<Rightarrow> bool \<Rightarrow> int \<Rightarrow> int \<Rightarrow> string \<Rightarrow> tests_store \<Rightarrow> (cert_summary list \<times> int) result" where
  "cert_ListByUser V u isAdmin page sz search s =
     (let sz = (if sz \<le> 0 then 20 else sz); sz = (if sz > 100 then 100 else sz); page = (if page \<le> 0 then 1 else page);
          rows = filter (\<lambda>c. (isAdmin \<or> ct_by c = u) \<and> (search \<noteq> [] \<longrightarrow> fv_like V search (ct_name c))) (tt_certs s)
      in rbind (on_db (fv_db V F_cert_count) (int (length rows))) (\<lambda>n.
         rbind (on_db (fv_db V F_cert_list) (limit_offset sz ((page - 1) * sz) (sort_key (\<lambda>c. - ct_created c) rows))) (\<lambda>cs.
         Inr (map (\<lambda>c. \<lparr>cs_id = ct_id c, cs_name = ct_name c, cs_ca = (ct_ca c \<noteq> []), cs_cert = (ct_cert c \<noteq> []),
                    cs_key = (ct_key c \<noteq> []), cs_by = ct_by c, cs_by_name = user_real_name s (ct_by c),
                    cs_created = ct_created c, cs_updated = ct_updated c\<rparr>) cs, n))))"

section \<open>Proto files\<close>

definition computeFileHash :: "('p, 'q) files_env \<Rightarrow> string \<Rightarrow> string" where
  "computeFileHash V t = hex (fv_hash V t)"

definition proto_Create ::
  "('p, 'q) files_env \<Rightarrow> proto_file \<Rightarrow> tests_store \<Rightarrow> proto_file result \<times> tests_store" where
  "proto_Create V f s =
     (case fv_db V F_proto_insert of
        Some e \<Rightarrow> (Inl e, s)
      | None \<Rightarrow>
          (if \<exists>x\<in>set (tt_protos s). po_name x = po_name f \<and> po_by x = po_by f
           then (Inl ''UNIQUE constraint failed'', s)
           else (let f1 = f\<lparr>po_id := fv_id V, po_hash := computeFileHash V (po_content f),
                            po_deps := (if po_deps f = [] then ''[]'' else po_deps f),
                            po_created := fv_now V, po_updated := fv_now V\<rparr>
                 in (Inr f1, s\<lparr>tt_protos := tt_protos s @ [f1]\<rparr>))))"

definition proto_Update ::
  "('p, 'q) files_env \<Rightarrow> int \<Rightarrow> proto_file \<Rightarrow> tests_store \<Rightarrow> unit result \<times> tests_store" where
  "proto_Update V i f s =
     (case fv_db V F_proto_update of
        Some e \<Rightarrow> (Inl e, s)
      | None \<Rightarrow>
          (case first_where (\<lambda>x. po_id x = i) (tt_protos s) of
             None \<Rightarrow> (Inl ''proto file not found'', s)
           | Some old \<Rightarrow>
               (if \<exists>x\<in>set (tt_protos s). po_id x \<noteq> i \<and> po_name x = po_name f \<and> po_by x = po_by old
                then (Inl ''UNIQUE constraint failed'', s)
                else (Inr (), s\<lparr>tt_protos := upd_where (\<lambda>x. po_id x = i)
                       (\<lambda>x. x\<lparr>po_name := po_name f, po_content := po_content f, po_hash := computeFileHash V (po_content f),
                              po_parsed := po_parsed f, po_deps := po_deps f, po_updated := fv_now V\<rparr>) (tt_protos s)\<rparr>))))"

definition proto_Delete :: "('p, 'q) files_env \<Rightarrow> int \<Rightarrow> tests_store \<Rightarrow> unit result \<times> tests_store" where
  "proto_Delete V i s =
     (case fv_db V F_proto_delete of
        Some e \<Rightarrow> (Inl e, s)
      | None \<Rightarrow> (if count_where (\<lambda>x. po_id x = i) (tt_protos s) = 0 then (Inl ''proto file not found'', s)
                 else (Inr (), s\<lparr>tt_protos := del_where (\<lambda>x. po_id x = i) (tt_protos s)\<rparr>)))"

text \<open>The columns of one row, and of one row of the list, which has the creator's name in between.\<close>

definition proto_row :: "proto_file \<Rightarrow> cell list" where
  "proto_row f = [Num (po_id f), Txt (po_name f), Txt (po_content f), Txt (po_hash f), Txt (po_parsed f), Txt (po_deps f),
     Num (po_by f), At (po_created f), At (po_updated f)]"

definition proto_list_row :: "tests_store \<Rightarrow> proto_file \<Rightarrow> cell list" where
  "proto_list_row s f = take 7 (proto_row f) @ [Txt (user_real_name s (po_by f)), At (po_created f), At (po_updated f)]"

definition scanProtoFile :: "cell list \<Rightarrow> proto_file" where
  "scanProtoFile row =
     \<lparr>po_id = rowInt64 (row ! 0), po_name = rowString (row ! 1), po_content = rowString (row ! 2),
      po_hash = rowString (row ! 3), po_parsed = rowString (row ! 4), po_deps = rowString (row ! 5),
      po_by = rowInt64 (row ! 6), po_by_name = [], po_created = parseDateTime (row ! 7),
      po_updated = parseDateTime (row ! 8)\<rparr>"

definition proto_GetByID :: "('p, 'q) files_env \<Rightarrow> int \<Rightarrow> tests_store \<Rightarrow> proto_file result" where
  "proto_GetByID V i s =
     rbind (on_db (fv_db V F_proto_get) (first_where (\<lambda>x. po_id x = i) (tt_protos s))) (\<lambda>row.
       case row of None \<Rightarrow> Inl ''proto file not found'' | Some f \<Rightarrow> Inr (scanProtoFile (proto_row f)))"

text \<open>\<open>rowString\<close> of a cell that may be an instant.\<close>

definition cell_text :: "('p, 'q) files_env \<Rightarrow> cell \<Rightarrow> string" where
  "cell_text V c = (case c of At t \<Rightarrow> fv_time V t | _ \<Rightarrow> rowString c)"

definition proto_ListByUser ::
  "('p, 'q) files_env \<Rightarrow> int \<Rightarrow> bool \<Rightarrow> int \<Rightarrow> int \<Rightarrow> string \<Rightarrow> tests_store \<Rightarrow> (proto_file list \<times> int) result" where
  "proto_ListByUser V u isAdmin page sz search s =
     (let rows = filter (\<lambda>f. (isAdmin \<or> po_by f = u) \<and> (search \<noteq> [] \<longrightarrow> fv_like V search (po_name f))) (tt_protos s)
      in rbind (on_db (fv_db V F_proto_count) (int (length rows))) (\<lambda>n.
         rbind (on_db (fv_db V F_proto_list) (limit_offset sz ((page - 1) * sz) (sort_key (\<lambda>f. - po_created f) rows))) (\<lambda>fs.
         Inr (map (\<lambda>f. let row = proto_list_row s f
                       in (scanProtoFile row)\<lparr>po_by_name := cell_text V (row ! 8)\<rparr>) fs, n))))"

definition ParseAndSave :: "('p, 'q) files_env \<Rightarrow> int \<Rightarrow> tests_store \<Rightarrow> unit result \<times> tests_store" where
  "ParseAndSave V i s =
     (case proto_GetByID V i s of
        Inl e \<Rightarrow> (Inl (''failed to get proto file: '' @ e), s)
      | Inr f \<Rightarrow>
          (case fv_show_parse V (ParseProto (po_content f)) of
             Inl e \<Rightarrow> (Inl (''failed to marshal parse result: '' @ e), s)
           | Inr t \<Rightarrow>
               (case fv_db V F_proto_parsed of
                  Some e \<Rightarrow> (Inl e, s)
                | None \<Rightarrow> (Inr (), s\<lparr>tt_protos := upd_where (\<lambda>x. po_id x = i)
                            (\<lambda>x. x\<lparr>po_parsed := t, po_updated := fv_now V\<rparr>) (tt_protos s)\<rparr>))))"

end
