(* ===== verification/Interface_Requests.thy ===== *)
theory Interface_Requests
  imports Test_Files
begin

text \<open>
  The requests on certificates, proto files and interface tests (scheduler/internal/handler: certificate.go, proto_file.go,
  api_test_handler.go and \<open>checkOwnership\<close> of common.go; scheduler/internal/service/api_test_service.go). \<open>u\<close> is
  the id that the middleware has put into the context, 0 if there is none; a body or an id is \<open>None\<close> when it cannot be
  bound. The middlewares of the routes are those of \<open>Access\<close>. What foreign keys make of a deleted row is left out.
\<close>

section \<open>Owners\<close>

definition checkOwnership :: "db_verdict \<Rightarrow> rbac \<Rightarrow> int \<Rightarrow> int \<Rightarrow> 'a reply option" where
  "checkOwnership E db u createdBy =
     (if u = 0 then Some (Bad 401 ''not logged in'')
      else if createdBy = u then None
      else (case IsSystemAdmin E db u of
              Inl e \<Rightarrow> Some (Bad 403 ''no access to this resource'')
            | Inr isAdmin \<Rightarrow> if isAdmin then None else Some (Bad 403 ''no access to this resource'')))"

definition owned :: "db_verdict \<Rightarrow> rbac \<Rightarrow> int \<Rightarrow> int \<Rightarrow> 's \<Rightarrow> 'a reply \<times> 's \<Rightarrow> 'a reply \<times> 's" where
  "owned E db u createdBy s r = (case checkOwnership E db u createdBy of Some b \<Rightarrow> (b, s) | None \<Rightarrow> r)"

definition admin_user :: "db_verdict \<Rightarrow> rbac \<Rightarrow> int \<Rightarrow> bool" where
  "admin_user E db u \<longleftrightarrow> IsSystemAdmin E db u = Inr True"

definition req_page :: "int \<Rightarrow> int" where "req_page n = (if n < 1 then 1 else n)"
definition req_size :: "int \<Rightarrow> int" where "req_size n = (if n < 1 \<or> n > 100 then 20 else n)"

definition asked :: "'a result \<times> 's \<Rightarrow> int \<Rightarrow> string \<Rightarrow> ('a \<Rightarrow> 'b) \<Rightarrow> 'b reply \<times> 's" where
  "asked r cd what f = (case r of (Inl e, s) \<Rightarrow> (Bad cd what, s) | (Inr x, s) \<Rightarrow> (Good (f x), s))"

section \<open>Certificates\<close>

definition HandleListCerts ::
  "('p, 'q) files_env \<Rightarrow> db_verdict \<Rightarrow> rbac \<Rightarrow> int \<Rightarrow> int \<Rightarrow> int \<Rightarrow> string \<Rightarrow> tests_store \<Rightarrow> (cert_summary list \<times> int) reply" where
  "HandleListCerts V E db u page sz search s =
     (if u \<le> 0 then Bad 401 ''not authorized''
      else (case cert_ListByUser V u (admin_user E db u) (req_page page) (req_size sz) search s of
              Inl e \<Rightarrow> Bad 17001 ''failed to list certificates'' | Inr r \<Rightarrow> Good r))"

definition HandleCreateCert ::
  "('p, 'q) files_env \<Rightarrow> int \<Rightarrow> certificate option \<Rightarrow> tests_store \<Rightarrow> int reply \<times> tests_store" where
  "HandleCreateCert V u body s =
     (case body of
        None \<Rightarrow> (Bad 400 ''invalid request'', s)
      | Some c \<Rightarrow>
          (if ct_name c = [] then (Bad 400 ''invalid request'', s)
           else if u \<le> 0 then (Bad 401 ''not authorized'', s)
           else asked (cert_Create V (c\<lparr>ct_id := 0, ct_by := u, ct_created := 0, ct_updated := 0\<rparr>) s)
                  17001 ''failed to create the certificate'' ct_id))"

definition on_cert ::
  "('p, 'q) files_env \<Rightarrow> db_verdict \<Rightarrow> rbac \<Rightarrow> int \<Rightarrow> int option \<Rightarrow> (int \<Rightarrow> certificate \<Rightarrow> 'a reply \<times> tests_store) \<Rightarrow>
   tests_store \<Rightarrow> 'a reply \<times> tests_store" where
  "on_cert V E db u i f s =
     (case i of
        None \<Rightarrow> (Bad 400 ''invalid certificate id'', s)
      | Some i \<Rightarrow>
          (case cert_GetByID V i s of
             Inl e \<Rightarrow> (Bad 404 ''certificate not found'', s)
           | Inr c \<Rightarrow> owned E db u (ct_by c) s (f i c)))"

definition HandleGetCert ::
  "('p, 'q) files_env \<Rightarrow> db_verdict \<Rightarrow> rbac \<Rightarrow> int \<Rightarrow> int option \<Rightarrow> tests_store \<Rightarrow> certificate reply \<times> tests_store" where
  "HandleGetCert V E db u i s = on_cert V E db u i (\<lambda>i c. (Good (c\<lparr>ct_key := ''******''\<rparr>), s)) s"

record cert_change =
  cu_name :: "string option"
  cu_ca :: "string option"
  cu_cert :: "string option"
  cu_key :: "string option"

definition changed_cert :: "cert_change \<Rightarrow> certificate \<Rightarrow> certificate" where
  "changed_cert q c =
     c\<lparr>ct_name := given (cu_name q) (ct_name c), ct_ca := given (cu_ca q) (ct_ca c), ct_cert := given (cu_cert q) (ct_cert c),
       ct_key := (case cu_key q of None \<Rightarrow> [] | Some k \<Rightarrow> if k = [] \<or> k = ''******'' then [] else k)\<rparr>"

definition HandleUpdateCert ::
  "('p, 'q) files_env \<Rightarrow> db_verdict \<Rightarrow> rbac \<Rightarrow> int \<Rightarrow> int option \<Rightarrow> cert_change option \<Rightarrow> tests_store \<Rightarrow>
   unit reply \<times> tests_store" where
  "HandleUpdateCert V E db u i body s =
     (if i = None then (Bad 400 ''invalid certificate id'', s)
      else (case body of
              None \<Rightarrow> (Bad 400 ''invalid request'', s)
            | Some q \<Rightarrow> on_cert V E db u i (\<lambda>i c.
                asked (cert_Update V i (changed_cert q c) s) 17001 ''failed to update the certificate'' id) s))"

definition HandleDeleteCert ::
  "('p, 'q) files_env \<Rightarrow> db_verdict \<Rightarrow> rbac \<Rightarrow> int \<Rightarrow> int option \<Rightarrow> tests_store \<Rightarrow> unit reply \<times> tests_store" where
  "HandleDeleteCert V E db u i s =
     on_cert V E db u i (\<lambda>i c. asked (cert_Delete V i s) 17001 ''failed to delete the certificate'' id) s"

section \<open>Proto files\<close>

definition HandleListProtos ::
  "('p, 'q) files_env \<Rightarrow> db_verdict \<Rightarrow> rbac \<Rightarrow> int \<Rightarrow> int \<Rightarrow> int \<Rightarrow> string \<Rightarrow> tests_store \<Rightarrow> (proto_file list \<times> int) reply" where
  "HandleListProtos V E db u page sz search s =
     (if u \<le> 0 then Bad 401 ''not authorized''
      else (case proto_ListByUser V u (admin_user E db u) (req_page page) (req_size sz) search s of
              Inl e \<Rightarrow> Bad 17001 ''failed to list proto files'' | Inr r \<Rightarrow> Good r))"

definition HandleCreateProto ::
  "('p, 'q) files_env \<Rightarrow> int \<Rightarrow> (string \<times> string \<times> int list) option \<Rightarrow> tests_store \<Rightarrow> int reply \<times> tests_store" where
  "HandleCreateProto V u body s =
     (case body of
        None \<Rightarrow> (Bad 400 ''invalid request'', s)
      | Some (name, content, deps) \<Rightarrow>
          (if name = [] \<or> content = [] then (Bad 400 ''invalid request'', s)
           else (case proto_Create V \<lparr>po_id = 0, po_name = name, po_content = content, po_hash = [], po_parsed = [],
                       po_deps = (if deps = [] then ''[]'' else fv_show_ids V deps), po_by = u, po_by_name = [],
                       po_created = 0, po_updated = 0\<rparr> s of
                   (Inl e, s1) \<Rightarrow> (Bad 17001 ''failed to create the proto file'', s1)
                 | (Inr f, s1) \<Rightarrow> (Good (po_id f), snd (ParseAndSave V (po_id f) s1)))))"

definition on_proto ::
  "('p, 'q) files_env \<Rightarrow> db_verdict \<Rightarrow> rbac \<Rightarrow> int \<Rightarrow> int option \<Rightarrow> (int \<Rightarrow> proto_file \<Rightarrow> 'a reply \<times> tests_store) \<Rightarrow>
   tests_store \<Rightarrow> 'a reply \<times> tests_store" where
  "on_proto V E db u i f s =
     (case i of
        None \<Rightarrow> (Bad 400 ''invalid proto file id'', s)
      | Some i \<Rightarrow>
          (case proto_GetByID V i s of
             Inl e \<Rightarrow> (Bad 404 ''proto file not found'', s)
           | Inr p \<Rightarrow> owned E db u (po_by p) s (f i p)))"

definition HandleGetProto ::
  "('p, 'q) files_env \<Rightarrow> db_verdict \<Rightarrow> rbac \<Rightarrow> int \<Rightarrow> int option \<Rightarrow> tests_store \<Rightarrow> proto_file reply \<times> tests_store" where
  "HandleGetProto V E db u i s = on_proto V E db u i (\<lambda>i p. (Good p, s)) s"

record proto_change =
  pu_name :: "string option"
  pu_content :: "string option"
  pu_deps :: "int list option"

definition changed_proto :: "('p, 'q) files_env \<Rightarrow> proto_change \<Rightarrow> proto_file \<Rightarrow> proto_file" where
  "changed_proto V q p =
     p\<lparr>po_name := given (pu_name q) (po_name p), po_content := given (pu_content q) (po_content p),
       po_deps := (case pu_deps q of None \<Rightarrow> po_deps p | Some ds \<Rightarrow> fv_show_ids V ds)\<rparr>"

definition HandleUpdateProto ::
  "('p, 'q) files_env \<Rightarrow> db_verdict \<Rightarrow> rbac \<Rightarrow> int \<Rightarrow> int option \<Rightarrow> proto_change option \<Rightarrow> tests_store \<Rightarrow>
   unit reply \<times> tests_store" where
  "HandleUpdateProto V E db u i body s =
     (if i = None then (Bad 400 ''invalid proto file id'', s)
      else (case body of
              None \<Rightarrow> (Bad 400 ''invalid request'', s)
            | Some q \<Rightarrow> on_proto V E db u i (\<lambda>i p.
                let new = changed_proto V q p
                in case proto_Update V i new s of
                     (Inl e, s1) \<Rightarrow> (Bad 17001 ''failed to update the proto file'', s1)
                   | (Inr _, s1) \<Rightarrow> (Good (), if po_content new \<noteq> po_content p then snd (ParseAndSave V i s1) else s1)) s))"

definition HandleDeleteProto ::
  "('p, 'q) files_env \<Rightarrow> db_verdict \<Rightarrow> rbac \<Rightarrow> int \<Rightarrow> int option \<Rightarrow> tests_store \<Rightarrow> unit reply \<times> tests_store" where
  "HandleDeleteProto V E db u i s =
     (case i of
        None \<Rightarrow> (Bad 400 ''invalid proto file id'', s)
      | Some i \<Rightarrow>
          (let found = proto_GetByID V i s;
               deleted = asked (proto_Delete V i s) 17001 ''failed to delete the proto file'' id
           in if u > 0 \<and> admin_user E db u then deleted
              else (case found of
                      Inl e \<Rightarrow> (Bad 404 ''proto file not found'', s)
                    | Inr p \<Rightarrow> if po_by p \<noteq> u then (Bad 403 ''no right to delete this proto file'', s) else deleted)))"

definition HandleParseProto :: "string option \<Rightarrow> proto_result reply" where
  "HandleParseProto content =
     (case content of None \<Rightarrow> Bad 400 ''invalid request''
      | Some t \<Rightarrow> if t = [] then Bad 400 ''invalid request'' else Good (ParseProto t))"

text \<open>The certificate of a request, if it names one.\<close>

definition load_cert :: "('p, 'q) files_env \<Rightarrow> int option \<Rightarrow> tests_store \<Rightarrow> certificate option result" where
  "load_cert V i s =
     (case i of None \<Rightarrow> Inr None | Some i \<Rightarrow> if i > 0 then map_sum id Some (cert_GetByID V i s) else Inr None)"

definition HandleReflect ::
  "('p, 'q) files_env \<Rightarrow> test_world \<Rightarrow> grpc_world \<Rightarrow> config_service option \<Rightarrow> string \<Rightarrow> string \<Rightarrow> int option \<Rightarrow>
   tests_store \<Rightarrow> (string \<times> method_desc list) list reply" where
  "HandleReflect V W G cs address mode cert s =
     (if address = [] then Bad 400 ''invalid request''
      else (case load_cert V cert s of
              Inl e \<Rightarrow> Bad 17001 ''failed to load the certificate''
            | Inr c \<Rightarrow>
                (case ReflectServices W G cs address (if mode = [] then ''insecure'' else mode) c of
                   Inl e \<Rightarrow> Bad 17001 (''gRPC reflection failed: '' @ e) | Inr ss \<Rightarrow> Good ss)))"

definition dep_contents :: "('p, 'q) files_env \<Rightarrow> string \<Rightarrow> tests_store \<Rightarrow> (string \<rightharpoonup> string)" where
  "dep_contents V deps s =
     (if deps = [] then Map.empty
      else (case fv_ids V deps of
              Inl e \<Rightarrow> Map.empty
            | Inr is \<Rightarrow> fold (\<lambda>i m. case proto_GetByID V i s of Inl e \<Rightarrow> m | Inr d \<Rightarrow> m(po_name d \<mapsto> po_content d)) is Map.empty))"

text \<open>\<open>None\<close> is the request that never returns.\<close>

definition HandleFields :: "('p, 'q) files_env \<Rightarrow> grpc_world \<Rightarrow> int \<Rightarrow> tests_store \<Rightarrow> message_def list reply option" where
  "HandleFields V G i s =
     (if i = 0 then Some (Bad 400 ''invalid request'')
      else (case proto_GetByID V i s of
              Inl e \<Rightarrow> Some (Bad 17001 ''proto file not found'')
            | Inr p \<Rightarrow>
                map_option (\<lambda>r. case r of Inl e \<Rightarrow> Bad 17001 (''failed to generate fields: '' @ e) | Inr ms \<Rightarrow> Good ms)
                  (GenerateFields G (po_content p) (dep_contents V (po_deps p) s))))"

definition HandleTemplate ::
  "('p, 'q) files_env \<Rightarrow> grpc_world \<Rightarrow> int \<Rightarrow> string \<Rightarrow> string \<Rightarrow> tests_store \<Rightarrow> string reply" where
  "HandleTemplate V G i service method s =
     (if i = 0 \<or> service = [] \<or> method = [] then Bad 400 ''invalid request''
      else (case proto_GetByID V i s of
              Inl e \<Rightarrow> Bad 17001 ''proto file not found''
            | Inr p \<Rightarrow>
                (case GenerateTemplate G (po_content p) (dep_contents V (po_deps p) s) service method of
                   Inl e \<Rightarrow> Bad 17001 (''failed to generate the template: '' @ e) | Inr t \<Rightarrow> Good t)))"

section \<open>Interface tests\<close>

definition test_Create :: "('p, 'q) files_env \<Rightarrow> api_test \<Rightarrow> tests_store \<Rightarrow> api_test result \<times> tests_store" where
  "test_Create V t s =
     (case fv_db V F_test_insert of
        Some e \<Rightarrow> (Inl e, s)
      | None \<Rightarrow>
          (if \<exists>x\<in>set (tt_tests s). at_name x = at_name t \<and> at_by x = at_by t
           then (Inl ''UNIQUE constraint failed'', s)
           else (let t1 = t\<lparr>at_id := fv_id V, at_created := fv_now V, at_updated := fv_now V\<rparr>
                 in (Inr t1, s\<lparr>tt_tests := tt_tests s @ [t1]\<rparr>))))"

definition test_Update :: "('p, 'q) files_env \<Rightarrow> int \<Rightarrow> api_test \<Rightarrow> tests_store \<Rightarrow> unit result \<times> tests_store" where
  "test_Update V i t s =
     (case fv_db V F_test_update of
        Some e \<Rightarrow> (Inl e, s)
      | None \<Rightarrow>
          (case first_where (\<lambda>x. at_id x = i) (tt_tests s) of
             None \<Rightarrow> (Inl ''api test not found'', s)
           | Some old \<Rightarrow>
               (if \<exists>x\<in>set (tt_tests s). at_id x \<noteq> i \<and> at_name x = at_name t \<and> at_by x = at_by old
                then (Inl ''UNIQUE constraint failed'', s)
                else (Inr (), s\<lparr>tt_tests := upd_where (\<lambda>x. at_id x = i)
                       (\<lambda>x. x\<lparr>at_name := at_name t, at_type := at_type t, at_config := at_config t, at_updated := fv_now V\<rparr>)
                       (tt_tests s)\<rparr>))))"

text \<open>The results go first, in one transaction.\<close>

definition test_Delete :: "('p, 'q) files_env \<Rightarrow> int \<Rightarrow> tests_store \<Rightarrow> unit result \<times> tests_store" where
  "test_Delete V i s =
     (case fv_db V F_test_delete of
        Some e \<Rightarrow> (Inl e, s)
      | None \<Rightarrow>
          ((if count_where (\<lambda>x. at_id x = i) (tt_tests s) = 0 then Inl ''api test not found'' else Inr ()),
           s\<lparr>tt_results := del_where (\<lambda>r. ar_test r = i) (tt_results s), tt_tests := del_where (\<lambda>x. at_id x = i) (tt_tests s)\<rparr>))"

definition test_GetByID :: "('p, 'q) files_env \<Rightarrow> int \<Rightarrow> tests_store \<Rightarrow> api_test result" where
  "test_GetByID V i s =
     rbind (on_db (fv_db V F_test_get) (first_where (\<lambda>x. at_id x = i) (tt_tests s)))
       (\<lambda>row. case row of None \<Rightarrow> Inl ''api test not found'' | Some t \<Rightarrow> Inr t)"

definition test_ListByUser ::
  "('p, 'q) files_env \<Rightarrow> int \<Rightarrow> bool \<Rightarrow> string \<Rightarrow> int \<Rightarrow> int \<Rightarrow> tests_store \<Rightarrow> (api_test list \<times> int) result" where
  "test_ListByUser V u isAdmin ty page sz s =
     (let sz = page_size sz; rows = filter (\<lambda>t. (isAdmin \<or> at_by t = u) \<and> (ty \<noteq> [] \<longrightarrow> at_type t = ty)) (tt_tests s)
      in rbind (on_db (fv_db V F_test_count) (int (length rows))) (\<lambda>n.
         rbind (on_db (fv_db V F_test_list)
                  (limit_offset sz ((page_no page - 1) * sz) (sort_key (\<lambda>t. - at_created t) rows))) (\<lambda>ts.
         Inr (ts, n))))"

section \<open>Results\<close>

definition maxStoredBodySize :: nat where "maxStoredBodySize = 100 * 1024"

definition cut_body :: "string \<Rightarrow> string" where
  "cut_body b =
     (if length b > maxStoredBodySize then take maxStoredBodySize b @ CHR 0x0A # ''... [truncated]'' else b)"

text \<open>The caller's result is cut as well, whether it is stored or not.\<close>

definition SaveResult ::
  "('p, 'q) files_env \<Rightarrow> api_result \<Rightarrow> tests_store \<Rightarrow> (api_result \<times> string option) \<times> tests_store" where
  "SaveResult V r s =
     (let r1 = r\<lparr>ar_body := cut_body (ar_body r)\<rparr>
      in case fv_db V F_result_insert of
           Some e \<Rightarrow> ((r1, Some e), s)
         | None \<Rightarrow> (let r2 = r1\<lparr>ar_id := fv_id V, ar_created := fv_now V\<rparr>
                    in ((r2, None), s\<lparr>tt_results := tt_results s @ [r2]\<rparr>)))"

definition GetResults ::
  "('p, 'q) files_env \<Rightarrow> int \<Rightarrow> int \<Rightarrow> int \<Rightarrow> tests_store \<Rightarrow> (api_result list \<times> int) result" where
  "GetResults V i page sz s =
     (let sz = page_size sz; rows = filter (\<lambda>r. ar_test r = i) (tt_results s)
      in rbind (on_db (fv_db V F_result_count) (int (length rows))) (\<lambda>n.
         rbind (on_db (fv_db V F_result_list)
                  (limit_offset sz ((page_no page - 1) * sz) (sort_key (\<lambda>r. - ar_created r) rows))) (\<lambda>rs.
         Inr (map (\<lambda>r. r\<lparr>ar_type := (if ar_type r = [] then ''http'' else ar_type r)\<rparr>) rs, n))))"

definition test_of :: "tests_store \<Rightarrow> api_result \<Rightarrow> api_test option" where
  "test_of s r = first_where (\<lambda>t. at_id t = ar_test r) (tt_tests s)"

definition test_name :: "tests_store \<Rightarrow> api_result \<Rightarrow> string" where
  "test_name s r = (case test_of s r of None \<Rightarrow> [] | Some t \<Rightarrow> at_name t)"

text \<open>A result with the names of its test and of who ran it.\<close>

definition ListResultsByUser ::
  "('p, 'q) files_env \<Rightarrow> int \<Rightarrow> bool \<Rightarrow> string \<Rightarrow> int \<Rightarrow> int \<Rightarrow> string \<Rightarrow> string \<Rightarrow> tests_store \<Rightarrow>
   ((api_result \<times> string \<times> string) list \<times> int) result" where
  "ListResultsByUser V u isAdmin ty page sz search status s =
     (let sz = page_size sz;
          rows = filter (\<lambda>r. (isAdmin \<or> ar_by r = u) \<and> (ty \<noteq> [] \<longrightarrow> ar_type r = ty) \<and>
              (search \<noteq> [] \<longrightarrow> fv_like V search (test_name s r)) \<and>
              (status = ''success'' \<longrightarrow> ar_error r = []) \<and> (status = ''error'' \<longrightarrow> ar_error r \<noteq> [])) (tt_results s)
      in rbind (on_db (fv_db V F_result_count) (int (length rows))) (\<lambda>n.
         rbind (on_db (fv_db V F_result_list)
                  (limit_offset sz ((page_no page - 1) * sz) (sort_key (\<lambda>r. - ar_created r) rows))) (\<lambda>rs.
         Inr (map (\<lambda>r. (r\<lparr>ar_type := (if ar_type r \<noteq> [] then ar_type r
                              else case test_of s r of None \<Rightarrow> [] | Some t \<Rightarrow> at_type t)\<rparr>,
                        test_name s r, user_real_name s (ar_by r))) rs, n))))"

definition DeleteResult :: "('p, 'q) files_env \<Rightarrow> int \<Rightarrow> tests_store \<Rightarrow> unit result \<times> tests_store" where
  "DeleteResult V i s =
     (case fv_db V F_result_delete of
        Some e \<Rightarrow> (Inl e, s)
      | None \<Rightarrow> (if count_where (\<lambda>r. ar_id r = i) (tt_results s) = 0 then (Inl ''api test not found'', s)
                 else (Inr (), s\<lparr>tt_results := del_where (\<lambda>r. ar_id r = i) (tt_results s)\<rparr>)))"

definition GetResultByID :: "('p, 'q) files_env \<Rightarrow> int \<Rightarrow> tests_store \<Rightarrow> api_result result" where
  "GetResultByID V i s =
     rbind (on_db (fv_db V F_result_get) (first_where (\<lambda>r. ar_id r = i) (tt_results s)))
       (\<lambda>row. case row of None \<Rightarrow> Inl ''api test not found'' | Some r \<Rightarrow> Inr r)"

section \<open>Running a test\<close>

record run_env =
  xr_world :: test_world
  xr_grpc :: grpc_world
  xr_config :: "config_service option"
  xr_http :: "string \<Rightarrow> http_request_config option"          \<comment> \<open>\<open>Unmarshal\<close> of a configuration\<close>
  xr_call :: "string \<Rightarrow> grpc_config option"
  xr_assertions :: "string \<Rightarrow> assertion list"         \<comment> \<open>what \<open>Unmarshal\<close> leaves\<close>
  xr_show :: "assertion_result list \<Rightarrow> string result"

definition with_assertions :: "run_env \<Rightarrow> assertion list \<Rightarrow> string \<Rightarrow> api_result \<Rightarrow> api_result" where
  "with_assertions X wanted post r =
     (let as = (if wanted \<noteq> [] then wanted else if post \<noteq> [] then xr_assertions X post else [])
      in if as = [] then r
         else (case xr_show X (ExecuteAssertions (xr_world X) r as) of Inl e \<Rightarrow> r | Inr t \<Rightarrow> r\<lparr>ar_assertions := t\<rparr>))"

definition loadProtoContent ::
  "('p, 'q) files_env \<Rightarrow> int option \<Rightarrow> tests_store \<Rightarrow> string \<times> (string \<rightharpoonup> string)" where
  "loadProtoContent V i s =
     (case i of
        None \<Rightarrow> ([], Map.empty)
      | Some i \<Rightarrow>
          (if i = 0 then ([], Map.empty)
           else (case proto_GetByID V i s of
                   Inl e \<Rightarrow> ([], Map.empty) | Inr p \<Rightarrow> (po_content p, dep_contents V (po_deps p) s))))"

definition run_http :: "run_env \<Rightarrow> assertion list \<Rightarrow> http_request_config \<Rightarrow> api_result reply" where
  "run_http X as c =
     (case fst (http_Execute (xr_world X) (xr_config X) c) of
        (_, Some e) \<Rightarrow> Bad 18002 (''HTTP request failed: '' @ e)
      | (None, None) \<Rightarrow> Abort 500 ''panic''
      | (Some r, None) \<Rightarrow> Good (with_assertions X as (hc_post c) (r\<lparr>ar_type := ''http''\<rparr>)))"

definition run_grpc :: "('p, 'q) files_env \<Rightarrow> run_env \<Rightarrow> grpc_config \<Rightarrow> tests_store \<Rightarrow> api_result reply" where
  "run_grpc V X c s =
     (case load_cert V (gc_certificate c) s of
        Inl e \<Rightarrow> Bad 18002 ''failed to load the certificate''
      | Inr cert \<Rightarrow>
          (case loadProtoContent V (gc_proto c) s of
             (content, deps) \<Rightarrow>
               (case grpc_Execute (xr_world X) (xr_grpc X) (xr_config X) c content deps cert of
                  Inl e \<Rightarrow> Bad 18002 (''gRPC request failed: '' @ e) | Inr r \<Rightarrow> Good (r\<lparr>ar_type := ''grpc''\<rparr>))))"

definition run_connect :: "('p, 'q) files_env \<Rightarrow> run_env \<Rightarrow> grpc_config \<Rightarrow> tests_store \<Rightarrow> api_result reply" where
  "run_connect V X c s =
     (case load_cert V (gc_certificate c) s of
        Inl e \<Rightarrow> Bad 18002 ''failed to load the certificate''
      | Inr cert \<Rightarrow>
          (case ConnectTest (xr_world X) (xr_grpc X) (xr_config X) c cert of
             Inl e \<Rightarrow> Bad 18002 (''gRPC connection test failed: '' @ e) | Inr r \<Rightarrow> Good r))"

section \<open>Requests on tests\<close>

definition HandleListTests ::
  "('p, 'q) files_env \<Rightarrow> db_verdict \<Rightarrow> rbac \<Rightarrow> int \<Rightarrow> string \<Rightarrow> int \<Rightarrow> int \<Rightarrow> tests_store \<Rightarrow> (api_test list \<times> int) reply" where
  "HandleListTests V E db u ty page sz s =
     (if u = 0 then Bad 401 ''not logged in''
      else (case test_ListByUser V u (admin_user E db u) ty (req_page page) (req_size sz) s of
              Inl e \<Rightarrow> Bad 17001 ''failed to list interface tests'' | Inr r \<Rightarrow> Good r))"

definition test_type :: "string \<Rightarrow> bool" where "test_type t \<longleftrightarrow> t = ''http'' \<or> t = ''grpc''"

definition HandleCreateTest ::
  "('p, 'q) files_env \<Rightarrow> int \<Rightarrow> (string \<times> string \<times> string) option \<Rightarrow> tests_store \<Rightarrow> int reply \<times> tests_store" where
  "HandleCreateTest V u body s =
     (case body of
        None \<Rightarrow> (Bad 400 ''invalid request'', s)
      | Some (name, ty, config) \<Rightarrow>
          (if name = [] \<or> ty = [] then (Bad 400 ''invalid request'', s)
           else if \<not> test_type ty then (Bad 400 ''the type must be http or grpc'', s)
           else if u = 0 then (Bad 401 ''not logged in'', s)
           else asked (test_Create V \<lparr>at_id = 0, at_name = name, at_type = ty, at_config = config, at_by = u, at_created = 0,
                         at_updated = 0\<rparr> s) 17001 ''failed to create the interface test'' at_id))"

definition on_test ::
  "('p, 'q) files_env \<Rightarrow> db_verdict \<Rightarrow> rbac \<Rightarrow> int \<Rightarrow> int option \<Rightarrow> (int \<Rightarrow> api_test \<Rightarrow> 'a reply \<times> tests_store) \<Rightarrow>
   tests_store \<Rightarrow> 'a reply \<times> tests_store" where
  "on_test V E db u i f s =
     (case i of
        None \<Rightarrow> (Bad 400 ''invalid test id'', s)
      | Some i \<Rightarrow>
          (case test_GetByID V i s of
             Inl e \<Rightarrow> (Bad 404 ''interface test not found'', s)
           | Inr t \<Rightarrow> owned E db u (at_by t) s (f i t)))"

definition HandleGetTest ::
  "('p, 'q) files_env \<Rightarrow> db_verdict \<Rightarrow> rbac \<Rightarrow> int \<Rightarrow> int option \<Rightarrow> tests_store \<Rightarrow> api_test reply \<times> tests_store" where
  "HandleGetTest V E db u i s = on_test V E db u i (\<lambda>i t. (Good t, s)) s"

record test_change =
  tu_name :: "string option"
  tu_type :: "string option"
  tu_config :: "string option"

definition HandleUpdateTest ::
  "('p, 'q) files_env \<Rightarrow> db_verdict \<Rightarrow> rbac \<Rightarrow> int \<Rightarrow> int option \<Rightarrow> test_change option \<Rightarrow> tests_store \<Rightarrow>
   unit reply \<times> tests_store" where
  "HandleUpdateTest V E db u i body s =
     (if i = None then (Bad 400 ''invalid test id'', s)
      else (case body of
              None \<Rightarrow> (Bad 400 ''invalid request'', s)
            | Some q \<Rightarrow> on_test V E db u i (\<lambda>i t.
                if tu_type q \<noteq> None \<and> \<not> test_type (the (tu_type q)) then (Bad 400 ''the type must be http or grpc'', s)
                else asked (test_Update V i (t\<lparr>at_name := given (tu_name q) (at_name t), at_type := given (tu_type q) (at_type t),
                         at_config := given (tu_config q) (at_config t)\<rparr>) s)
                       17001 ''failed to update the interface test'' id) s))"

definition HandleDeleteTest ::
  "('p, 'q) files_env \<Rightarrow> db_verdict \<Rightarrow> rbac \<Rightarrow> int \<Rightarrow> int option \<Rightarrow> tests_store \<Rightarrow> unit reply \<times> tests_store" where
  "HandleDeleteTest V E db u i s =
     on_test V E db u i (\<lambda>i t. asked (test_Delete V i s) 17001 ''failed to delete the interface test'' id) s"

record run_body =
  rb_type :: string
  rb_config :: string
  rb_save :: "bool option"
  rb_assertions :: "assertion list"

definition temporary_run :: "('p, 'q) files_env \<Rightarrow> run_env \<Rightarrow> run_body \<Rightarrow> tests_store \<Rightarrow> api_result reply" where
  "temporary_run V X b s =
     (if rb_type b = ''http''
      then (case xr_http X (rb_config b) of
              None \<Rightarrow> Bad 400 ''invalid HTTP configuration'' | Some c \<Rightarrow> run_http X (rb_assertions b) c)
      else if rb_type b = ''grpc_connect_test''
      then (case xr_call X (rb_config b) of None \<Rightarrow> Bad 400 ''invalid gRPC configuration'' | Some c \<Rightarrow> run_connect V X c s)
      else if rb_type b = ''grpc''
      then (case xr_call X (rb_config b) of None \<Rightarrow> Bad 400 ''invalid gRPC configuration'' | Some c \<Rightarrow> run_grpc V X c s)
      else Bad 400 ''unsupported type of test'')"

definition HandleExecuteTest ::
  "('p, 'q) files_env \<Rightarrow> run_env \<Rightarrow> int \<Rightarrow> run_body option \<Rightarrow> tests_store \<Rightarrow> api_result reply \<times> tests_store" where
  "HandleExecuteTest V X u body s =
     (if u = 0 then (Bad 401 ''not logged in'', s)
      else (case body of
              None \<Rightarrow> (Bad 400 ''invalid request'', s)
            | Some b \<Rightarrow>
                (if rb_type b = [] \<or> rb_config b = [] then (Bad 400 ''invalid request'', s)
                 else (case temporary_run V X b s of
                         Good r \<Rightarrow>
                           (let r = r\<lparr>ar_by := u\<rparr>
                            in if rb_save b = Some True
                               then (case SaveResult V (r\<lparr>ar_test := 0\<rparr>) s of ((r1, e), s1) \<Rightarrow> (Good r1, s1))
                               else (Good r, s))
                       | bad \<Rightarrow> (bad, s)))))"

definition saved_run :: "('p, 'q) files_env \<Rightarrow> run_env \<Rightarrow> assertion list \<Rightarrow> api_test \<Rightarrow> tests_store \<Rightarrow> api_result reply" where
  "saved_run V X as t s =
     (if at_type t = ''http''
      then (case xr_http X (at_config t) of
              None \<Rightarrow> Bad 18002 ''failed to parse the HTTP configuration'' | Some c \<Rightarrow> run_http X as c)
      else if at_type t = ''grpc''
      then (case xr_call X (at_config t) of
              None \<Rightarrow> Bad 18002 ''failed to parse the gRPC configuration'' | Some c \<Rightarrow> run_grpc V X c s)
      else Bad 400 ''unsupported type of test'')"

definition HandleExecuteSaved ::
  "('p, 'q) files_env \<Rightarrow> run_env \<Rightarrow> db_verdict \<Rightarrow> rbac \<Rightarrow> int \<Rightarrow> int option \<Rightarrow> assertion list \<Rightarrow> tests_store \<Rightarrow>
   api_result reply \<times> tests_store" where
  "HandleExecuteSaved V X E db u i as s =
     (if i = None then (Bad 400 ''invalid test id'', s)
      else if u = 0 then (Bad 401 ''not logged in'', s)
      else on_test V E db u i (\<lambda>i t.
             case saved_run V X as t s of
               Good r \<Rightarrow> (case SaveResult V (r\<lparr>ar_test := i, ar_by := u\<rparr>) s of ((r1, e), s1) \<Rightarrow> (Good r1, s1))
             | bad \<Rightarrow> (bad, s)) s)"

definition HandleListResults ::
  "('p, 'q) files_env \<Rightarrow> db_verdict \<Rightarrow> rbac \<Rightarrow> int \<Rightarrow> string \<Rightarrow> string \<Rightarrow> string \<Rightarrow> int \<Rightarrow> int \<Rightarrow> tests_store \<Rightarrow>
   ((api_result \<times> string \<times> string) list \<times> int) reply" where
  "HandleListResults V E db u ty search status page sz s =
     (if u = 0 then Bad 401 ''not logged in''
      else (case ListResultsByUser V u (admin_user E db u) ty (req_page page) (req_size sz) search status s of
              Inl e \<Rightarrow> Bad 17001 ''failed to get the history'' | Inr r \<Rightarrow> Good r))"

definition HandleGetResults ::
  "('p, 'q) files_env \<Rightarrow> db_verdict \<Rightarrow> rbac \<Rightarrow> int \<Rightarrow> int option \<Rightarrow> int \<Rightarrow> int \<Rightarrow> tests_store \<Rightarrow>
   (api_result list \<times> int) reply \<times> tests_store" where
  "HandleGetResults V E db u i page sz s =
     on_test V E db u i (\<lambda>i t.
       (case GetResults V i (req_page page) (req_size sz) s of
          Inl e \<Rightarrow> Bad 17001 ''failed to get the history'' | Inr r \<Rightarrow> Good r, s)) s"

text \<open>A test that cannot be read is no obstacle.\<close>

definition HandleDeleteResult ::
  "('p, 'q) files_env \<Rightarrow> db_verdict \<Rightarrow> rbac \<Rightarrow> int \<Rightarrow> int option \<Rightarrow> tests_store \<Rightarrow> unit reply \<times> tests_store" where
  "HandleDeleteResult V E db u i s =
     (case i of
        None \<Rightarrow> (Bad 400 ''invalid result id'', s)
      | Some i \<Rightarrow>
          (case GetResultByID V i s of
             Inl e \<Rightarrow> (Bad 404 ''result not found'', s)
           | Inr r \<Rightarrow>
               (let deleted = asked (DeleteResult V i s) 18001 ''failed to delete the result'' id
                in if ar_test r > 0
                   then (case test_GetByID V (ar_test r) s of
                           Inl e \<Rightarrow> deleted | Inr t \<Rightarrow> owned E db u (at_by t) s deleted)
                   else if \<not> (u > 0 \<and> admin_user E db u) \<and> ar_by r \<noteq> u
                   then (Bad 403 ''no right to delete this result'', s)
                   else deleted)))"

definition HandleGenerateCurl :: "test_world \<Rightarrow> http_request_config option \<Rightarrow> string reply" where
  "HandleGenerateCurl W body =
     (case body of
        None \<Rightarrow> Bad 400 ''invalid request''
      | Some c \<Rightarrow>
          (case GenerateCurl W (c\<lparr>hc_pre := [], hc_post := [], hc_timeout := 0\<rparr>) of
             Inl e \<Rightarrow> Bad 18002 ''failed to generate the curl command'' | Inr t \<Rightarrow> Good t))"

end
