(* ===== verification/Interface_Properties.thy ===== *)
theory Interface_Properties
  imports Interface_Requests
begin

text \<open>
  What is proved of the requests on interface tests and their files: that whoever is no administrator of the system changes
  nothing of anyone else, that the key of a certificate comes back, that a certificate that cannot be decrypted
  cannot be changed or deleted either, and what runs and lists do with rows of others.
\<close>

section \<open>Rows of one owner\<close>

lemma one_row:
  assumes "distinct (map k t)" "first_where (\<lambda>x. k x = i) t = Some old" "x \<in> set t" "k x = i"
  shows "x = old"
  using assms first_where_Some [OF assms(2)] by (metis distinct_map inj_onD)

lemma own_update:
  assumes "distinct (map k t)" "first_where (\<lambda>x. k x = i) t = Some old" "\<not> q old" "\<And>x. q (f x) = q x"
  shows "filter q (upd_where (\<lambda>x. k x = i) f t) = filter q t"
  using assms one_row [OF assms(1,2)] by (intro filter_upd_where) auto

lemma own_delete:
  assumes "distinct (map k t)" "first_where (\<lambda>x. k x = i) t = Some old" "\<not> q old"
  shows "filter q (del_where (\<lambda>x. k x = i) t) = filter q t"
  using assms one_row [OF assms(1,2)] by (auto simp: del_where_def intro!: filter_cong)

section \<open>What belongs to others\<close>

text \<open>A result belongs to the owner of its test, or to whoever ran it if it has none.\<close>

definition result_owner :: "tests_store \<Rightarrow> api_result \<Rightarrow> int" where
  "result_owner s r =
     (if ar_test r > 0 then (case test_of s r of None \<Rightarrow> 0 | Some t \<Rightarrow> at_by t) else ar_by r)"

definition foreign :: "int \<Rightarrow> tests_store \<Rightarrow> certificate list \<times> proto_file list \<times> api_test list \<times> api_result list" where
  "foreign u s =
     (filter (\<lambda>c. ct_by c \<noteq> u) (tt_certs s), filter (\<lambda>f. po_by f \<noteq> u) (tt_protos s),
      filter (\<lambda>t. at_by t \<noteq> u) (tt_tests s), filter (\<lambda>r. result_owner s r \<noteq> u) (tt_results s))"

definition tests_wf :: "tests_store \<Rightarrow> bool" where
  "tests_wf s \<longleftrightarrow> distinct (map ct_id (tt_certs s)) \<and> distinct (map po_id (tt_protos s)) \<and>
     distinct (map at_id (tt_tests s)) \<and> distinct (map ar_id (tt_results s)) \<and>
     (\<forall>t\<in>set (tt_tests s). at_id t > 0) \<and>
     (\<forall>r\<in>set (tt_results s). ar_test r > 0 \<longrightarrow> ar_test r \<in> at_id ` set (tt_tests s))"

definition fresh_id :: "('p, 'q) files_env \<Rightarrow> tests_store \<Rightarrow> bool" where
  "fresh_id V s \<longleftrightarrow> fv_id V > 0 \<and> fv_id V \<notin> ct_id ` set (tt_certs s) \<and> fv_id V \<notin> po_id ` set (tt_protos s) \<and>
     fv_id V \<notin> at_id ` set (tt_tests s) \<and> fv_id V \<notin> ar_id ` set (tt_results s)"

definition keeps :: "int \<Rightarrow> tests_store \<Rightarrow> tests_store \<Rightarrow> bool" where
  "keeps u s s1 \<longleftrightarrow> tests_wf s1 \<and> foreign u s1 = foreign u s"

lemma keeps_self: "tests_wf s \<Longrightarrow> keeps u s s"
  by (simp add: keeps_def)

lemma keeps_then: "keeps u s s1 \<Longrightarrow> keeps u s1 s2 \<Longrightarrow> keeps u s s2"
  by (simp add: keeps_def)

text \<open>Only the tests matter for the owner of a result.\<close>

lemma owner_of_tests [simp]:
  "result_owner (s\<lparr>tt_certs := cs\<rparr>) r = result_owner s r" "result_owner (s\<lparr>tt_protos := fs\<rparr>) r = result_owner s r"
  "result_owner (s\<lparr>tt_results := rs\<rparr>) r = result_owner s r"
  by (simp_all add: result_owner_def test_of_def)

lemma keeps_cert_insert:
  assumes "tests_wf s" "ct_by c = u" "ct_id c \<notin> ct_id ` set (tt_certs s)"
  shows "keeps u s (s\<lparr>tt_certs := tt_certs s @ [c]\<rparr>)"
  using assms by (simp add: keeps_def tests_wf_def foreign_def)

lemma keeps_cert_update:
  assumes "tests_wf s" "first_where (\<lambda>x. ct_id x = i) (tt_certs s) = Some old" "ct_by old = u"
    and "\<And>x. ct_id (f x) = ct_id x" "\<And>x. ct_by (f x) = ct_by x"
  shows "keeps u s (s\<lparr>tt_certs := upd_where (\<lambda>x. ct_id x = i) f (tt_certs s)\<rparr>)"
  using assms own_update [of ct_id "tt_certs s" i old "\<lambda>c. ct_by c \<noteq> u" f]
  by (simp add: keeps_def tests_wf_def foreign_def map_upd_where)

lemma keeps_cert_delete:
  assumes "tests_wf s" "first_where (\<lambda>x. ct_id x = i) (tt_certs s) = Some old" "ct_by old = u"
  shows "keeps u s (s\<lparr>tt_certs := del_where (\<lambda>x. ct_id x = i) (tt_certs s)\<rparr>)"
  using assms own_delete [of ct_id "tt_certs s" i old "\<lambda>c. ct_by c \<noteq> u"]
  by (simp add: keeps_def tests_wf_def foreign_def) (simp add: del_where_def distinct_map_filter)

lemma keeps_proto_insert:
  assumes "tests_wf s" "po_by c = u" "po_id c \<notin> po_id ` set (tt_protos s)"
  shows "keeps u s (s\<lparr>tt_protos := tt_protos s @ [c]\<rparr>)"
  using assms by (simp add: keeps_def tests_wf_def foreign_def)

lemma keeps_proto_update:
  assumes "tests_wf s" "first_where (\<lambda>x. po_id x = i) (tt_protos s) = Some old" "po_by old = u"
    and "\<And>x. po_id (f x) = po_id x" "\<And>x. po_by (f x) = po_by x"
  shows "keeps u s (s\<lparr>tt_protos := upd_where (\<lambda>x. po_id x = i) f (tt_protos s)\<rparr>)"
  using assms own_update [of po_id "tt_protos s" i old "\<lambda>c. po_by c \<noteq> u" f]
  by (simp add: keeps_def tests_wf_def foreign_def map_upd_where)

lemma keeps_proto_delete:
  assumes "tests_wf s" "first_where (\<lambda>x. po_id x = i) (tt_protos s) = Some old" "po_by old = u"
  shows "keeps u s (s\<lparr>tt_protos := del_where (\<lambda>x. po_id x = i) (tt_protos s)\<rparr>)"
  using assms own_delete [of po_id "tt_protos s" i old "\<lambda>c. po_by c \<noteq> u"]
  by (simp add: keeps_def tests_wf_def foreign_def) (simp add: del_where_def distinct_map_filter)

text \<open>A change of tests that leaves the owners of the remaining results alone.\<close>

lemma foreign_results:
  assumes "\<And>r. r \<in> set rs \<Longrightarrow> result_owner s1 r = result_owner s r"
  shows "filter (\<lambda>r. result_owner s1 r \<noteq> u) rs = filter (\<lambda>r. result_owner s r \<noteq> u) rs"
  using assms by (intro filter_cong) auto

lemma first_where_append: "first_where p (s @ t) = (case first_where p s of None \<Rightarrow> first_where p t | Some x \<Rightarrow> Some x)"
  by (induction s) auto

lemma keeps_test_insert:
  assumes "tests_wf s" "at_by t = u" "at_id t \<notin> at_id ` set (tt_tests s)" "at_id t > 0"
  shows "keeps u s (s\<lparr>tt_tests := tt_tests s @ [t]\<rparr>)"
proof -
  let ?s = "s\<lparr>tt_tests := tt_tests s @ [t]\<rparr>"
  have "result_owner ?s r = result_owner s r" if "r \<in> set (tt_results s)" for r
    using assms that by (auto simp: result_owner_def test_of_def first_where_append tests_wf_def split: option.split)
  then have "filter (\<lambda>r. result_owner ?s r \<noteq> u) (tt_results s) = filter (\<lambda>r. result_owner s r \<noteq> u) (tt_results s)"
    by (rule foreign_results)
  then show ?thesis using assms by (auto simp: keeps_def tests_wf_def foreign_def)
qed

lemma first_where_kept:
  assumes "\<And>x. p (f x) = p x"
  shows "first_where p (upd_where q f t) = map_option (\<lambda>x. if q x then f x else x) (first_where p t)"
  using assms by (induction t) auto

lemma keeps_test_update:
  assumes "tests_wf s" "first_where (\<lambda>x. at_id x = i) (tt_tests s) = Some old" "at_by old = u"
    and "\<And>x. at_id (f x) = at_id x" "\<And>x. at_by (f x) = at_by x"
  shows "keeps u s (s\<lparr>tt_tests := upd_where (\<lambda>x. at_id x = i) f (tt_tests s)\<rparr>)"
proof -
  let ?s = "s\<lparr>tt_tests := upd_where (\<lambda>x. at_id x = i) f (tt_tests s)\<rparr>"
  have "result_owner ?s r = result_owner s r" for r
    using assms(4,5) by (auto simp: result_owner_def test_of_def first_where_kept split: option.split)
  then have "filter (\<lambda>r. result_owner ?s r \<noteq> u) (tt_results s) = filter (\<lambda>r. result_owner s r \<noteq> u) (tt_results s)"
    by simp
  moreover have "at_id ` set (upd_where (\<lambda>x. at_id x = i) f (tt_tests s)) = at_id ` set (tt_tests s)"
    using map_upd_where [of at_id f "\<lambda>x. at_id x = i" "tt_tests s"] assms(4) by (metis list.set_map)
  moreover have "\<forall>t\<in>set (upd_where (\<lambda>x. at_id x = i) f (tt_tests s)). at_id t > 0"
    using assms(1,4) by (auto simp: set_upd_where tests_wf_def)
  ultimately show ?thesis
    using assms own_update [of at_id "tt_tests s" i old "\<lambda>c. at_by c \<noteq> u" f]
    by (simp add: keeps_def tests_wf_def foreign_def map_upd_where)
qed

lemma test_of_deleted:
  "ar_test r \<noteq> i \<Longrightarrow> test_of (s\<lparr>tt_results := rs, tt_tests := del_where (\<lambda>x. at_id x = i) (tt_tests s)\<rparr>) r = test_of s r"
proof -
  assume "ar_test r \<noteq> i"
  then have "first_where (\<lambda>t. at_id t = ar_test r) (del_where (\<lambda>x. at_id x = i) ts) = first_where (\<lambda>t. at_id t = ar_test r) ts" for ts
    by (induction ts) (auto simp: del_where_def)
  then show ?thesis by (simp add: test_of_def)
qed

lemma keeps_test_delete:
  assumes "tests_wf s" "first_where (\<lambda>x. at_id x = i) (tt_tests s) = Some old" "at_by old = u"
  shows "keeps u s (s\<lparr>tt_results := del_where (\<lambda>r. ar_test r = i) (tt_results s),
    tt_tests := del_where (\<lambda>x. at_id x = i) (tt_tests s)\<rparr>)"
proof -
  let ?s = "s\<lparr>tt_results := del_where (\<lambda>r. ar_test r = i) (tt_results s), tt_tests := del_where (\<lambda>x. at_id x = i) (tt_tests s)\<rparr>"
  have "i > 0" using assms(1) first_where_Some [OF assms(2)] by (auto simp: tests_wf_def)
  then have "result_owner s r = u" if "ar_test r = i" for r
    using assms(2,3) that by (simp add: result_owner_def test_of_def)
  moreover have "result_owner ?s r = result_owner s r" if "ar_test r \<noteq> i" for r
    using test_of_deleted [OF that] by (simp add: result_owner_def)
  ultimately have "ar_test r \<noteq> i \<and> result_owner ?s r \<noteq> u \<longleftrightarrow> result_owner s r \<noteq> u" for r by (cases "ar_test r = i") simp_all
  then have "filter (\<lambda>r. result_owner ?s r \<noteq> u) (tt_results ?s) = filter (\<lambda>r. result_owner s r \<noteq> u) (tt_results s)"
    by (simp add: del_where_def)
  moreover have "tests_wf ?s" using assms(1) by (auto simp: tests_wf_def del_where_def distinct_map_filter)
  ultimately show ?thesis
    using assms own_delete [of at_id "tt_tests s" i old "\<lambda>c. at_by c \<noteq> u"] by (simp add: keeps_def tests_wf_def foreign_def)
qed

lemma keeps_result_insert:
  assumes "tests_wf s" "result_owner s r = u" "ar_id r \<notin> ar_id ` set (tt_results s)"
    and "ar_test r > 0 \<Longrightarrow> ar_test r \<in> at_id ` set (tt_tests s)"
  shows "keeps u s (s\<lparr>tt_results := tt_results s @ [r]\<rparr>)"
  using assms by (auto simp: keeps_def tests_wf_def foreign_def)

lemma keeps_result_delete:
  assumes "tests_wf s" "first_where (\<lambda>r. ar_id r = i) (tt_results s) = Some old" "result_owner s old = u"
  shows "keeps u s (s\<lparr>tt_results := del_where (\<lambda>r. ar_id r = i) (tt_results s)\<rparr>)"
  using assms own_delete [of ar_id "tt_results s" i old "\<lambda>r. result_owner s r \<noteq> u"]
  by (simp add: keeps_def tests_wf_def foreign_def) (auto simp: del_where_def distinct_map_filter)

section \<open>Services on rows of one's own\<close>

lemma keeps_cert_services:
  assumes "tests_wf s"
  shows "ct_by c = u \<Longrightarrow> fresh_id V s \<Longrightarrow> keeps u s (snd (cert_Create V c s))"
    "first_where (\<lambda>x. ct_id x = i) (tt_certs s) = Some old \<Longrightarrow> ct_by old = u \<Longrightarrow> keeps u s (snd (cert_Update V i c s))"
    "first_where (\<lambda>x. ct_id x = i) (tt_certs s) = Some old \<Longrightarrow> ct_by old = u \<Longrightarrow> keeps u s (snd (cert_Delete V i s))"
  using assms keeps_self [OF assms]
  by (auto simp: cert_Create_def cert_Update_def cert_Delete_def fresh_id_def Let_def split: sum.split option.split
      intro!: keeps_cert_insert keeps_cert_update keeps_cert_delete)

lemma keeps_parse:
  assumes "tests_wf s" "first_where (\<lambda>x. po_id x = i) (tt_protos s) = Some old" "po_by old = u"
  shows "keeps u s (snd (ParseAndSave V i s))"
  using assms keeps_self [OF assms(1)]
  by (auto simp: ParseAndSave_def split: sum.split option.split intro!: keeps_proto_update)

lemma keeps_proto_services:
  assumes "tests_wf s"
  shows "po_by f = u \<Longrightarrow> fresh_id V s \<Longrightarrow> keeps u s (snd (proto_Create V f s))"
    "first_where (\<lambda>x. po_id x = i) (tt_protos s) = Some old \<Longrightarrow> po_by old = u \<Longrightarrow> keeps u s (snd (proto_Update V i f s))"
    "first_where (\<lambda>x. po_id x = i) (tt_protos s) = Some old \<Longrightarrow> po_by old = u \<Longrightarrow> keeps u s (snd (proto_Delete V i s))"
  using assms keeps_self [OF assms]
  by (auto simp: proto_Create_def proto_Update_def proto_Delete_def fresh_id_def Let_def split: sum.split option.split
      intro!: keeps_proto_insert keeps_proto_update keeps_proto_delete)

lemma keeps_test_services:
  assumes "tests_wf s"
  shows "at_by t = u \<Longrightarrow> fresh_id V s \<Longrightarrow> keeps u s (snd (test_Create V t s))"
    "first_where (\<lambda>x. at_id x = i) (tt_tests s) = Some old \<Longrightarrow> at_by old = u \<Longrightarrow> keeps u s (snd (test_Update V i t s))"
    "first_where (\<lambda>x. at_id x = i) (tt_tests s) = Some old \<Longrightarrow> at_by old = u \<Longrightarrow> keeps u s (snd (test_Delete V i s))"
  using assms keeps_self [OF assms]
  by (auto simp: test_Create_def test_Update_def test_Delete_def fresh_id_def Let_def split: sum.split option.split
      intro!: keeps_test_insert keeps_test_update keeps_test_delete)

lemma keeps_result_services:
  assumes "tests_wf s"
  shows "result_owner s r = u \<Longrightarrow> fresh_id V s \<Longrightarrow> (ar_test r > 0 \<Longrightarrow> ar_test r \<in> at_id ` set (tt_tests s)) \<Longrightarrow>
      keeps u s (snd (SaveResult V r s))"
    "first_where (\<lambda>r. ar_id r = i) (tt_results s) = Some old \<Longrightarrow> result_owner s old = u \<Longrightarrow> keeps u s (snd (DeleteResult V i s))"
  using assms keeps_self [OF assms]
  by (auto simp: SaveResult_def DeleteResult_def fresh_id_def result_owner_def test_of_def Let_def split: option.split
      intro!: keeps_result_insert keeps_result_delete split: if_splits)

section \<open>Requests\<close>

lemma owned_snd: "\<not> admin_user E db u \<Longrightarrow> snd (owned E db u by s r) = s \<or> by = u \<and> snd (owned E db u by s r) = snd r"
  by (auto simp: owned_def checkOwnership_def admin_user_def split: sum.split option.split)

lemma asked_snd [simp]: "snd (asked r cd what f) = snd r"
  by (auto simp: asked_def split: prod.split sum.split)

lemma first_of_get:
  "cert_GetByID V i s = Inr c \<Longrightarrow> \<exists>old. first_where (\<lambda>x. ct_id x = i) (tt_certs s) = Some old \<and> ct_by old = ct_by c"
  "proto_GetByID V i s = Inr p \<Longrightarrow> \<exists>old. first_where (\<lambda>x. po_id x = i) (tt_protos s) = Some old \<and> po_by old = po_by p"
  "test_GetByID V i s = Inr t \<Longrightarrow> first_where (\<lambda>x. at_id x = i) (tt_tests s) = Some t"
  "GetResultByID V i s = Inr r \<Longrightarrow> first_where (\<lambda>r. ar_id r = i) (tt_results s) = Some r"
  by (auto simp: cert_GetByID_def proto_GetByID_def test_GetByID_def GetResultByID_def scanProtoFile_def proto_row_def
      split: option.splits)

lemma on_cert_keeps:
  assumes "tests_wf s" "\<not> admin_user E db u"
    and "\<And>i c old. first_where (\<lambda>x. ct_id x = i) (tt_certs s) = Some old \<Longrightarrow> ct_by old = u \<Longrightarrow> keeps u s (snd (f i c))"
  shows "keeps u s (snd (on_cert V E db u i f s))"
proof (cases "\<exists>j c. i = Some j \<and> cert_GetByID V j s = Inr c")
  case True
  then obtain j c where j: "i = Some j" "cert_GetByID V j s = Inr c" by auto
  then show ?thesis
    using owned_snd [OF assms(2), of "ct_by c" s "f j c"] first_of_get(1) [OF j(2)] assms(3) [of j _ c] keeps_self [OF assms(1)]
    by (auto simp: on_cert_def)
qed (use keeps_self [OF assms(1)] in \<open>auto simp: on_cert_def split: option.split sum.split\<close>)

lemma on_proto_keeps:
  assumes "tests_wf s" "\<not> admin_user E db u"
    and "\<And>i c old. first_where (\<lambda>x. po_id x = i) (tt_protos s) = Some old \<Longrightarrow> po_by old = u \<Longrightarrow> keeps u s (snd (f i c))"
  shows "keeps u s (snd (on_proto V E db u i f s))"
proof (cases "\<exists>j c. i = Some j \<and> proto_GetByID V j s = Inr c")
  case True
  then obtain j c where j: "i = Some j" "proto_GetByID V j s = Inr c" by auto
  then show ?thesis
    using owned_snd [OF assms(2), of "po_by c" s "f j c"] first_of_get(2) [OF j(2)] assms(3) [of j _ c] keeps_self [OF assms(1)]
    by (auto simp: on_proto_def)
qed (use keeps_self [OF assms(1)] in \<open>auto simp: on_proto_def split: option.split sum.split\<close>)

lemma on_test_keeps:
  assumes "tests_wf s" "\<not> admin_user E db u"
    and "\<And>i t. first_where (\<lambda>x. at_id x = i) (tt_tests s) = Some t \<Longrightarrow> at_by t = u \<Longrightarrow> keeps u s (snd (f i t))"
  shows "keeps u s (snd (on_test V E db u i f s))"
proof (cases "\<exists>j c. i = Some j \<and> test_GetByID V j s = Inr c")
  case True
  then obtain j c where j: "i = Some j" "test_GetByID V j s = Inr c" by auto
  then show ?thesis
    using owned_snd [OF assms(2), of "at_by c" s "f j c"] first_of_get(3) [OF j(2)] assms(3) [of j c] keeps_self [OF assms(1)]
    by (auto simp: on_test_def)
qed (use keeps_self [OF assms(1)] in \<open>auto simp: on_test_def split: option.split sum.split\<close>)

lemma keeps_cert_requests:
  assumes "tests_wf s" "\<not> admin_user E db u"
  shows "fresh_id V s \<Longrightarrow> keeps u s (snd (HandleCreateCert V u c s))"
    "keeps u s (snd (HandleUpdateCert V E db u i q s))" "keeps u s (snd (HandleDeleteCert V E db u i s))"
  using assms keeps_self [OF assms(1)]
  by (auto simp: HandleCreateCert_def HandleUpdateCert_def HandleDeleteCert_def split: option.split
      intro!: on_cert_keeps keeps_cert_services)

lemma keeps_proto_created:
  assumes "tests_wf s" "fresh_id V s" "proto_Create V f s = (Inr g, s1)" "po_by f = u"
  shows "keeps u s (snd (ParseAndSave V (po_id g) s1))"
proof -
  from assms(3) have s1: "s1 = s\<lparr>tt_protos := tt_protos s @ [g]\<rparr>" "po_id g = fv_id V" "po_by g = po_by f"
    by (auto simp: proto_Create_def Let_def split: option.splits if_splits)
  moreover have "first_where (\<lambda>x. po_id x = fv_id V) (tt_protos s) = None"
    using assms(2) unfolding fresh_id_def first_where_None by (metis imageI)
  ultimately have "first_where (\<lambda>x. po_id x = po_id g) (tt_protos s1) = Some g" by (simp add: first_where_append)
  moreover have keeps: "keeps u s s1"
    using keeps_proto_services(1) [OF assms(1) assms(4,2)] assms(3) by simp
  ultimately show ?thesis
    using keeps_parse [of s1 "po_id g" g u V] s1 assms(4) keeps_then by (auto simp: keeps_def)
qed

lemma keeps_proto_changed:
  assumes "tests_wf s" "first_where (\<lambda>x. po_id x = i) (tt_protos s) = Some old" "po_by old = u" "proto_Update V i f s = (Inr x, s1)"
  shows "keeps u s s1" "keeps u s (snd (ParseAndSave V i s1))"
proof -
  show keeps: "keeps u s s1" using keeps_proto_services(2) [OF assms(1-3), of V f] assms(4) by simp
  obtain g where "s1 = s\<lparr>tt_protos := upd_where (\<lambda>x. po_id x = i) g (tt_protos s)\<rparr>"
      "\<And>x. po_id (g x) = po_id x" "\<And>x. po_by (g x) = po_by x"
    using assms(2,4) by (auto simp: proto_Update_def split: option.splits if_splits)
  then have "first_where (\<lambda>x. po_id x = i) (tt_protos s1) = Some (if po_id old = i then g old else old)"
      "po_by (if po_id old = i then g old else old) = u"
    using assms(2,3) by (simp_all add: first_where_kept)
  then show "keeps u s (snd (ParseAndSave V i s1))"
    using keeps_parse [of s1 i _ u V] keeps keeps_then by (auto simp: keeps_def)
qed

lemma keeps_proto_requests:
  assumes "tests_wf s" "\<not> admin_user E db u"
  shows "fresh_id V s \<Longrightarrow> keeps u s (snd (HandleCreateProto V u c s))"
    "keeps u s (snd (HandleUpdateProto V E db u i q s))" "keeps u s (snd (HandleDeleteProto V E db u i s))"
proof -
  note refl = keeps_self [OF assms(1)] and services = keeps_proto_services [OF assms(1)]
  have create: "keeps u s (snd (case proto_Create V f s of (Inl e, s1) \<Rightarrow> (Bad 17001 t, s1)
      | (Inr g, s1) \<Rightarrow> (Good (po_id g), snd (ParseAndSave V (po_id g) s1))))"
    if "fresh_id V s" "po_by f = u" for f t
    using services(1) [OF that(2,1)] keeps_proto_created [OF assms(1) that(1) _ that(2)]
    by (auto split: prod.split sum.split)
  show "keeps u s (snd (HandleCreateProto V u c s))" if "fresh_id V s"
  proof (cases c)
    case (Some b)
    then obtain name content deps where "c = Some (name, content, deps)" by (cases b) auto
    then show ?thesis using refl create [OF that] by (simp add: HandleCreateProto_def)
  qed (simp add: HandleCreateProto_def refl)
  have update: "keeps u s (snd (case proto_Update V j new s of
        (Inl e, s1) \<Rightarrow> (Bad 17001 t, s1) | (Inr _, s1) \<Rightarrow> (Good (), if b then snd (ParseAndSave V j s1) else s1)))"
    if "first_where (\<lambda>x. po_id x = j) (tt_protos s) = Some old" "po_by old = u" for j new b t old
    using services(2) [OF that, of V new] keeps_proto_changed [OF assms(1) that, of V new]
    by (auto split: prod.split sum.split)
  show "keeps u s (snd (HandleUpdateProto V E db u i q s))"
  proof (cases "i = None \<or> q = None")
    case True
    then show ?thesis using refl by (auto simp: HandleUpdateProto_def split: option.split)
  next
    case False
    then obtain j c where "i = Some j" "q = Some c" by auto
    then show ?thesis
      by (simp only: HandleUpdateProto_def option.simps if_False Let_def) (rule on_proto_keeps [OF assms], rule update)
  qed
  have "keeps u s (snd (proto_Delete V j s))" if "proto_GetByID V j s = Inr p" "po_by p = u" for j p
    using first_of_get(2) [OF that(1)] services(3) that(2) by auto
  then show "keeps u s (snd (HandleDeleteProto V E db u i s))"
    using assms(2) refl by (auto simp: HandleDeleteProto_def Let_def split: option.split sum.split)
qed

lemma keeps_test_requests:
  assumes "tests_wf s" "\<not> admin_user E db u"
  shows "fresh_id V s \<Longrightarrow> keeps u s (snd (HandleCreateTest V u b s))"
    "keeps u s (snd (HandleUpdateTest V E db u i q s))" "keeps u s (snd (HandleDeleteTest V E db u i s))"
  using assms keeps_self [OF assms(1)]
  by (auto simp: HandleCreateTest_def HandleUpdateTest_def HandleDeleteTest_def split: option.split prod.split
      intro!: on_test_keeps keeps_test_services)

lemma keeps_runs:
  assumes "tests_wf s" "\<not> admin_user E db u" "fresh_id V s"
  shows "keeps u s (snd (HandleExecuteTest V X u b s))" "keeps u s (snd (HandleExecuteSaved V X E db u i as s))"
proof -
  note refl = keeps_self [OF assms(1)] and save = keeps_result_services(1) [OF assms(1) _ assms(3)]
  have good: "snd (case r of ((r1, e), s1) \<Rightarrow> (Good r1, s1)) = snd r" for r :: "(api_result \<times> string option) \<times> tests_store"
    by (simp split: prod.split)
  have temporary: "keeps u s (snd (case SaveResult V (r\<lparr>ar_by := u, ar_test := 0\<rparr>) s of ((r1, e), s1) \<Rightarrow> (Good r1, s1)))" for r
    unfolding good by (rule save) (simp_all add: result_owner_def)
  show "keeps u s (snd (HandleExecuteTest V X u b s))"
    using refl temporary by (auto simp: HandleExecuteTest_def Let_def split: option.split reply.split)
  have saved: "keeps u s (snd (case saved_run V X as t s of
        Good r \<Rightarrow> (case SaveResult V (r\<lparr>ar_test := j, ar_by := u\<rparr>) s of ((r1, e), s1) \<Rightarrow> (Good r1, s1))
      | bad \<Rightarrow> (bad, s)))" if "first_where (\<lambda>x. at_id x = j) (tt_tests s) = Some t" "at_by t = u" for j t
  proof -
    have "j > 0" "j \<in> at_id ` set (tt_tests s)" using assms(1) first_where_Some [OF that(1)] by (auto simp: tests_wf_def)
    then have "keeps u s (snd (SaveResult V (r\<lparr>ar_test := j, ar_by := u\<rparr>) s))" for r
      using that by (intro save) (simp_all add: result_owner_def test_of_def)
    then show ?thesis using refl by (simp add: good split: reply.split)
  qed
  show "keeps u s (snd (HandleExecuteSaved V X E db u i as s))"
  proof (cases "i = None \<or> u = 0")
    case False
    then show ?thesis
      by (simp only: HandleExecuteSaved_def de_Morgan_disj if_False) (rule on_test_keeps [OF assms(1,2)], rule saved)
  qed (use refl in \<open>auto simp: HandleExecuteSaved_def\<close>)
qed

lemma keeps_result_deleted:
  assumes "tests_wf s" "\<not> admin_user E db u" "fv_db V F_test_get = None"
  shows "keeps u s (snd (HandleDeleteResult V E db u i s))"
proof (cases "\<exists>j r. i = Some j \<and> GetResultByID V j s = Inr r")
  case False
  then show ?thesis using keeps_self [OF assms(1)] by (auto simp: HandleDeleteResult_def split: option.split sum.split)
next
  case True
  then obtain j r where j: "i = Some j" "GetResultByID V j s = Inr r" by auto
  then have r: "first_where (\<lambda>r. ar_id r = j) (tt_results s) = Some r" using first_of_get(4) by blast
  note delete = keeps_result_services(2) [OF assms(1) r]
  show ?thesis
  proof (cases "ar_test r > 0")
    case True
    then have "ar_test r \<in> at_id ` set (tt_tests s)" using assms(1) first_where_Some [OF r] by (auto simp: tests_wf_def)
    then obtain t where t: "test_of s r = Some t" by (cases "test_of s r") (auto simp: test_of_def first_where_None)
    then have "test_GetByID V (ar_test r) s = Inr t" using assms(3) by (simp add: test_GetByID_def test_of_def)
    moreover have "result_owner s r = at_by t" using True t by (simp add: result_owner_def)
    ultimately show ?thesis
      using j True owned_snd [OF assms(2), of "at_by t" s "asked (DeleteResult V j s) 18001 ''failed to delete the result'' id"]
        keeps_self [OF assms(1)] by (auto simp: HandleDeleteResult_def Let_def intro: delete)
  next
    case False
    then show ?thesis
      using j delete assms(2) keeps_self [OF assms(1)] by (auto simp: HandleDeleteResult_def Let_def result_owner_def)
  qed
qed

text \<open>Any change by a request of user \<open>u\<close>, with any verdicts of the database. The library for keys is the one argument that
  stays. When a result is deleted its test can be read.\<close>

inductive user_step :: "('p, 'q) crypto_lib \<Rightarrow> rbac \<Rightarrow> int \<Rightarrow> tests_store \<Rightarrow> tests_store \<Rightarrow> bool" for L db u where
  cert_created: "fv_lib V = L \<Longrightarrow> fresh_id V s \<Longrightarrow> user_step L db u s (snd (HandleCreateCert V u c s))"
| cert_changed: "fv_lib V = L \<Longrightarrow> user_step L db u s (snd (HandleUpdateCert V E db u i q s))"
| cert_deleted: "fv_lib V = L \<Longrightarrow> user_step L db u s (snd (HandleDeleteCert V E db u i s))"
| proto_created: "fv_lib V = L \<Longrightarrow> fresh_id V s \<Longrightarrow> user_step L db u s (snd (HandleCreateProto V u f s))"
| proto_changed: "fv_lib V = L \<Longrightarrow> user_step L db u s (snd (HandleUpdateProto V E db u i p s))"
| proto_deleted: "fv_lib V = L \<Longrightarrow> user_step L db u s (snd (HandleDeleteProto V E db u i s))"
| test_created: "fv_lib V = L \<Longrightarrow> fresh_id V s \<Longrightarrow> user_step L db u s (snd (HandleCreateTest V u t s))"
| test_changed: "fv_lib V = L \<Longrightarrow> user_step L db u s (snd (HandleUpdateTest V E db u i h s))"
| test_deleted: "fv_lib V = L \<Longrightarrow> user_step L db u s (snd (HandleDeleteTest V E db u i s))"
| test_run: "fv_lib V = L \<Longrightarrow> fresh_id V s \<Longrightarrow> user_step L db u s (snd (HandleExecuteTest V X u b s))"
| saved_run: "fv_lib V = L \<Longrightarrow> fresh_id V s \<Longrightarrow> user_step L db u s (snd (HandleExecuteSaved V X E db u i as s))"
| result_deleted: "fv_lib V = L \<Longrightarrow> fv_db V F_test_get = None \<Longrightarrow>
    user_step L db u s (snd (HandleDeleteResult V E db u i s))"

definition plain_user :: "rbac \<Rightarrow> int \<Rightarrow> bool" where
  "plain_user db u \<longleftrightarrow> IsSystemAdmin (\<lambda>q. None) db u = Inr False"

lemma plain_user_not_admin: "plain_user db u \<Longrightarrow> \<not> admin_user E db u"
  by (auto simp: plain_user_def admin_user_def IsSystemAdmin_def)

lemmas request_keeps = keeps_cert_requests [OF _ plain_user_not_admin] keeps_proto_requests [OF _ plain_user_not_admin]
  keeps_test_requests [OF _ plain_user_not_admin] keeps_runs [OF _ plain_user_not_admin]
  keeps_result_deleted [OF _ plain_user_not_admin]

lemma user_step_keeps: "user_step L db u s s1 \<Longrightarrow> plain_user db u \<Longrightarrow> tests_wf s \<Longrightarrow> keeps u s s1"
  by (induction rule: user_step.induct) (blast intro: request_keeps)+

lemma keeps_wf: "keeps u s s1 \<Longrightarrow> tests_wf s1"
  by (simp add: keeps_def)

interpretation user_requests: transition_invariant "\<lambda>s. s = base \<and> tests_wf base \<and> plain_user db u" "user_step L db u"
    "\<lambda>s. keeps u base s \<and> plain_user db u" for L db u base
  by unfold_locales (auto intro: keeps_self keeps_then user_step_keeps dest: keeps_wf)

text \<open>C11: Whatever requests someone makes who is no administrator of the system, the certificates, proto files and interface tests of others
  and the results of their tests stay as they are, and ids stay unique. It takes that the test of a result to be deleted can
  be read.\<close>

theorem others_rows_are_untouched:
  assumes "plain_user db u" "tests_wf base" "reach (\<lambda>s. s = base \<and> tests_wf base \<and> plain_user db u) (user_step L db u) s"
  shows "foreign u s = foreign u base \<and> tests_wf s"
  using user_requests.reach_inv [OF assms(3)] by (simp add: keeps_def)

text \<open>When its test cannot be read anyone may delete a result.\<close>

lemma unreadable_test_is_no_obstacle:
  assumes "fv_db V F_test_get = Some e" "fv_db V F_result_get = None" "fv_db V F_result_delete = None"
    and "first_where (\<lambda>r. ar_id r = i) (tt_results s) = Some r" "ar_test r > 0"
  shows "HandleDeleteResult V E db u (Some i) s = (Good (), s\<lparr>tt_results := del_where (\<lambda>r. ar_id r = i) (tt_results s)\<rparr>)"
proof -
  have "count_where (\<lambda>r. ar_id r = i) (tt_results s) > 0"
    using first_where_Some [OF assms(4)] by (auto simp: count_where_pos)
  then show ?thesis using assms by (simp add: HandleDeleteResult_def GetResultByID_def test_GetByID_def DeleteResult_def asked_def)
qed

section \<open>Keys of certificates\<close>

lemma opened_sealed:
  assumes "rsa_laws (fv_lib V) (fv_rsa V)" "HasPrivateKey (fv_rsa V)" "fv_lib V' = fv_lib V" "fv_rsa V' = fv_rsa V"
    and "(if k = [] then Inr [] else sealed_key V k) = Inr c"
  shows "opened_key V' c = Inr k"
proof (cases "k = []")
  case False
  then have "EncryptLarge (fv_lib V) (fv_draw V) (fv_rsa V) k = Inr c"
    using assms(5) by (auto simp: sealed_key_def split: sum.splits)
  from DecryptLarge_EncryptLarge [OF assms(1,2) this] have "DecryptLarge (fv_lib V) (fv_rsa V) c = Inr k" "Contains c ''.''" .
  moreover from this(2) have "c \<noteq> []" by (auto simp: Contains_def sublist_def)
  ultimately show ?thesis using assms(3,4) by (simp add: opened_key_def)
qed (use assms(5) in \<open>auto simp: opened_key_def\<close>)

text \<open>C16: The private key of a certificate is stored encrypted and comes back as it was, also after a change that leaves it out,
  leaves it empty or sends the mask back. It takes that the libraries decrypt what they encrypt and that the
  private RSA key is configured.\<close>

theorem certificate_key_comes_back:
  assumes laws: "rsa_laws (fv_lib V) (fv_rsa V)" "HasPrivateKey (fv_rsa V)"
    and later: "fv_lib V' = fv_lib V" "fv_rsa V' = fv_rsa V" "fv_db V' F_cert_get = None"
    and created: "cert_Create V c s = (Inr c1, s1)" "fv_id V \<notin> ct_id ` set (tt_certs s)"
    and change: "cu_key q \<in> {None, Some [], Some ''******''}" "cert_Update V' (ct_id c1) (changed_cert q c1) s1 = (Inr (), s2)"
  shows "cert_GetByID V' (ct_id c1) s1 = Inr c1 \<and> ct_key c1 = ct_key c \<and>
    (\<exists>c2. cert_GetByID V' (ct_id c1) s2 = Inr c2 \<and> ct_key c2 = ct_key c)"
proof -
  from created obtain k where k: "(if ct_key c = [] then Inr [] else sealed_key V (ct_key c)) = Inr k"
    "c1 = c\<lparr>ct_id := fv_id V, ct_created := fv_now V, ct_updated := fv_now V\<rparr>"
    "s1 = s\<lparr>tt_certs := tt_certs s @ [c1\<lparr>ct_key := k\<rparr>]\<rparr>"
    by (auto simp: cert_Create_def Let_def split: sum.splits option.splits if_splits)
  have key: "opened_key V' k = Inr (ct_key c)" by (rule opened_sealed [OF laws later(1,2) k(1)])
  have "first_where (\<lambda>x. ct_id x = fv_id V) (tt_certs s) = None"
    using created(2) unfolding first_where_None by (metis imageI)
  then have row: "first_where (\<lambda>x. ct_id x = ct_id c1) (tt_certs s1) = Some (c1\<lparr>ct_key := k\<rparr>)"
    by (simp add: k(2,3) first_where_append)
  have no_key: "ct_key (changed_cert q c1) = []" using change(1) by (auto simp: changed_cert_def)
  then obtain f where s2: "s2 = s1\<lparr>tt_certs := upd_where (\<lambda>x. ct_id x = ct_id c1) f (tt_certs s1)\<rparr>"
      "\<And>x. ct_id (f x) = ct_id x" "\<And>x. ct_key (f x) = ct_key x"
    using change(2) row by (auto simp: cert_Update_def split: option.splits if_splits)
  then have "first_where (\<lambda>x. ct_id x = ct_id c1) (tt_certs s2) = Some (f (c1\<lparr>ct_key := k\<rparr>))"
    using row by (simp add: first_where_kept)
  then show ?thesis using row key later(3) s2(3) k(2) by (simp add: cert_GetByID_def)
qed

text \<open>A certificate whose key cannot be decrypted any more, after a change of the RSA keys for one, is there and yet cannot be
  read, changed or deleted by anyone, its owner and the administrators included: even a change that brings a new key
  and a deletion decrypt the old key first.\<close>

theorem certificate_without_its_key_is_stuck:
  assumes "first_where (\<lambda>x. ct_id x = i) (tt_certs s) = Some c" "opened_key V (ct_key c) = Inl e"
  shows "HandleGetCert V E db u (Some i) s = (Bad 404 ''certificate not found'', s) \<and>
    HandleUpdateCert V E db u (Some i) (Some q) s = (Bad 404 ''certificate not found'', s) \<and>
    HandleDeleteCert V E db u (Some i) s = (Bad 404 ''certificate not found'', s)"
proof -
  have "\<exists>e. cert_GetByID V i s = Inl e" using assms by (cases "fv_db V F_cert_get") (auto simp: cert_GetByID_def)
  then show ?thesis by (auto simp: HandleGetCert_def HandleUpdateCert_def HandleDeleteCert_def on_cert_def)
qed

section \<open>Others' rows in lists and runs\<close>

text \<open>The row of the list has the name of the creator where the scanner expects the time of the creation.\<close>

lemma listed_times_are_shifted:
  assumes "proto_ListByUser V u a page sz search s = Inr (fs, n)" "f \<in> set fs"
  shows "\<exists>g\<in>set (tt_protos s). po_id f = po_id g \<and> po_created f = 0 \<and> po_updated f = po_created g \<and>
    po_by_name f = fv_time V (po_created g)"
proof -
  have sub: "set (limit_offset k m xs) \<subseteq> set xs" for k m and xs :: "proto_file list"
    by (auto simp: limit_offset_def Let_def dest: in_set_takeD in_set_dropD)
  obtain m P where "fs = map (\<lambda>g. (scanProtoFile (proto_list_row s g))\<lparr>po_by_name := cell_text V (proto_list_row s g ! 8)\<rparr>)
      (limit_offset sz m (sort_key (\<lambda>f. - po_created f) (filter P (tt_protos s))))"
    using assms(1) unfolding proto_ListByUser_def Let_def by auto
  then obtain g where "g \<in> set (limit_offset sz m (sort_key (\<lambda>f. - po_created f) (filter P (tt_protos s))))"
      "f = (scanProtoFile (proto_list_row s g))\<lparr>po_by_name := cell_text V (proto_list_row s g ! 8)\<rparr>"
    using assms(2) by auto
  moreover from this(1) have "g \<in> set (tt_protos s)" using subsetD [OF sub] by fastforce
  ultimately show ?thesis
    by (intro bexI [of _ g]) (simp_all add: scanProtoFile_def proto_list_row_def proto_row_def cell_text_def)
qed

text \<open>A temporary run depends on who asks for it in nothing but the name in the result: certificates and proto files are loaded by
  their numbers, whoever they belong to.\<close>

lemma run_uses_any_certificate:
  assumes "u \<noteq> 0" "v \<noteq> 0"
  shows "fst (HandleExecuteTest V X v b s) = map_reply (\<lambda>r. r\<lparr>ar_by := v\<rparr>) (fst (HandleExecuteTest V X u b s))"
  using assms by (auto simp: HandleExecuteTest_def SaveResult_def Let_def split: option.split reply.split)

section \<open>Concrete requests\<close>

definition demo_lib :: "(unit, unit) crypto_lib" where
  "demo_lib = \<lparr>ry_base64 = id, ry_unbase64 = Inr, ry_public = (\<lambda>b. Inr (Some ())), ry_private = (\<lambda>b. Inr (Some ())),
     ry_marshal_public = (\<lambda>k. Inr ''p''), ry_marshal_private = (\<lambda>k. Inr ''q''), ry_generate = (\<lambda>n. Inr ((), ())),
     ry_rsa = (\<lambda>n k t. Inr t), ry_unrsa = (\<lambda>k t. Inr t), ry_random = (\<lambda>n k. Inr (replicate k CHR ''r'')),
     ry_cipher = (\<lambda>k. None), ry_nonce = 2, ry_seal = (\<lambda>k n t. t), ry_open = (\<lambda>k n t. Inr t)\<rparr>"

definition demo_rsa :: "(unit, unit) rsa_util" where
  "demo_rsa = \<lparr>ru_public = (), ru_private = Some (), ru_public_text = ''p'', ru_private_text = ''q''\<rparr>"

definition demo_files :: "(unit, unit) files_env" where
  "demo_files = \<lparr>fv_db = (\<lambda>q. None), fv_now = 9, fv_id = 7, fv_like = (\<lambda>a b. True), fv_hash = id, fv_time = show_int,
     fv_ids = (\<lambda>t. Inr []), fv_show_ids = (\<lambda>is. ''[]''), fv_show_parse = (\<lambda>r. Inr ''{}''), fv_lib = demo_lib,
     fv_rsa = demo_rsa, fv_draw = 0\<rparr>"

definition demo_cert :: certificate where
  "demo_cert = \<lparr>ct_id = 0, ct_name = ''c'', ct_ca = [], ct_cert = ''cert'', ct_key = ''key'', ct_by = 2, ct_created = 0,
     ct_updated = 0\<rparr>"

definition demo_tests_store :: tests_store where
  "demo_tests_store = \<lparr>tt_certs = [], tt_protos = [],
     tt_tests = [\<lparr>at_id = 3, at_name = ''t'', at_type = ''http'', at_config = ''{}'', at_by = 2, at_created = 0, at_updated = 0\<rparr>],
     tt_results = [], tt_names = []\<rparr>"

lemma demo_laws: "rsa_laws demo_lib demo_rsa" "HasPrivateKey demo_rsa"
  by (simp_all add: rsa_laws_def demo_lib_def demo_rsa_def HasPrivateKey_def)

lemma demo_plain: "plain_user demo_rbac 5" "tests_wf demo_tests_store"
  by (simp_all add: plain_user_def IsSystemAdmin_def count_where_def demo_rbac_def tests_wf_def demo_tests_store_def)

definition demo_created :: tests_store where
  "demo_created = snd (HandleCreateTest demo_files 5 (Some (''mine'', ''http'', ''{}'')) demo_tests_store)"

definition demo_after :: tests_store where
  "demo_after = snd (HandleDeleteTest demo_files (\<lambda>q. None) demo_rbac 5 (Some 3) demo_created)"

lemma demo_after_reached:
  "reach (\<lambda>s. s = demo_tests_store \<and> tests_wf demo_tests_store \<and> plain_user demo_rbac 5)
     (user_step demo_lib demo_rbac 5) demo_after"
proof -
  have "fv_lib demo_files = demo_lib" "fresh_id demo_files demo_tests_store"
    by (simp_all add: demo_files_def fresh_id_def demo_tests_store_def)
  then have "user_step demo_lib demo_rbac 5 demo_tests_store demo_created" "user_step demo_lib demo_rbac 5 demo_created demo_after"
    unfolding demo_created_def demo_after_def by (auto intro: user_step.intros)
  moreover have "reach (\<lambda>s. s = demo_tests_store \<and> tests_wf demo_tests_store \<and> plain_user demo_rbac 5)
     (user_step demo_lib demo_rbac 5) demo_tests_store" using demo_plain by (intro reach.intros(1)) simp
  ultimately show ?thesis by (metis reach.intros(2))
qed

theorem others_rows_are_untouched_witness:
  "foreign 5 demo_after = foreign 5 demo_tests_store \<and> map at_by (tt_tests demo_after) = [2, 5]"
proof -
  have "tt_tests demo_created = tt_tests demo_tests_store @
      [\<lparr>at_id = 7, at_name = ''mine'', at_type = ''http'', at_config = ''{}'', at_by = 5, at_created = 9, at_updated = 9\<rparr>]"
    by (simp add: demo_created_def HandleCreateTest_def test_type_def test_Create_def demo_files_def demo_tests_store_def Let_def)
  then have "demo_after = demo_created"
    by (simp add: demo_after_def HandleDeleteTest_def on_test_def test_GetByID_def owned_def checkOwnership_def
        IsSystemAdmin_def count_where_def demo_files_def demo_tests_store_def demo_rbac_def)
  then show ?thesis
    using others_rows_are_untouched [OF demo_plain demo_after_reached] \<open>tt_tests demo_created = _\<close>
    by (simp add: demo_tests_store_def)
qed

definition demo_sealed :: string where
  "demo_sealed = hex (replicate 32 CHR ''r'') @ ''.'' @ replicate 2 CHR ''r'' @ ''key''"

lemma demo_seals: "sealed_key demo_files ''key'' = Inr demo_sealed"
  by (simp add: sealed_key_def EncryptLarge_def demo_files_def demo_lib_def demo_sealed_def)

theorem certificate_key_comes_back_witness:
  "\<exists>c2. cert_GetByID demo_files 7 (snd (cert_Update demo_files 7 (demo_cert\<lparr>ct_name := ''d'', ct_key := []\<rparr>)
       (snd (cert_Create demo_files demo_cert demo_tests_store)))) = Inr c2 \<and> ct_key c2 = ''key''"
proof -
  let ?c1 = "demo_cert\<lparr>ct_id := 7, ct_created := 9, ct_updated := 9\<rparr>"
  let ?q = "\<lparr>cu_name = Some ''d'', cu_ca = None, cu_cert = None, cu_key = Some ''******''\<rparr>"
  let ?s1 = "demo_tests_store\<lparr>tt_certs := [?c1\<lparr>ct_key := demo_sealed\<rparr>]\<rparr>"
  let ?s2 = "demo_tests_store\<lparr>tt_certs := [?c1\<lparr>ct_name := ''d'', ct_key := demo_sealed\<rparr>]\<rparr>"
  have fields: "ct_key demo_cert = ''key''" "fv_id demo_files = 7" "fv_now demo_files = 9" "fv_db demo_files q = None"
    "tt_certs demo_tests_store = []" "fv_lib demo_files = demo_lib" "fv_rsa demo_files = demo_rsa" for q
    by (simp_all add: demo_cert_def demo_files_def demo_tests_store_def)
  have created: "cert_Create demo_files demo_cert demo_tests_store = (Inr ?c1, ?s1)"
    by (simp add: cert_Create_def fields demo_seals Let_def)
  have changed: "changed_cert ?q ?c1 = ?c1\<lparr>ct_name := ''d'', ct_key := []\<rparr>"
    by (simp add: changed_cert_def given_def)
  have updated: "cert_Update demo_files 7 c ?s1 = (Inr (), ?s2)"
    if "ct_name c = ''d''" "ct_key c = []" "ct_ca c = ct_ca demo_cert" "ct_cert c = ct_cert demo_cert" for c
    using that by (simp add: cert_Update_def fields)
  show ?thesis
    using certificate_key_comes_back [of demo_files demo_files demo_cert demo_tests_store ?c1 ?s1 ?q ?s2] demo_laws
      created updated [of "changed_cert ?q ?c1"] updated [of "demo_cert\<lparr>ct_name := ''d'', ct_key := []\<rparr>"]
    by (simp add: fields changed)
qed

theorem certificate_without_its_key_is_stuck_witness:
  "HandleDeleteCert (demo_files\<lparr>fv_rsa := demo_rsa\<lparr>ru_private := None\<rparr>\<rparr>) (\<lambda>q. None) demo_rbac 2 (Some 7)
     (demo_tests_store\<lparr>tt_certs := [demo_cert\<lparr>ct_id := 7\<rparr>]\<rparr>) =
   (Bad 404 ''certificate not found'', demo_tests_store\<lparr>tt_certs := [demo_cert\<lparr>ct_id := 7\<rparr>]\<rparr>)"
proof -
  let ?V = "demo_files\<lparr>fv_rsa := demo_rsa\<lparr>ru_private := None\<rparr>\<rparr>"
  have "\<exists>e. opened_key ?V (ct_key (demo_cert\<lparr>ct_id := 7\<rparr>)) = Inl e"
    by (simp add: opened_key_def DecryptLarge_def rsa_Decrypt_def demo_cert_def)
  then show ?thesis
    using certificate_without_its_key_is_stuck [of 7 "demo_tests_store\<lparr>tt_certs := [demo_cert\<lparr>ct_id := 7\<rparr>]\<rparr>"
        "demo_cert\<lparr>ct_id := 7\<rparr>" ?V] by auto
qed

end
