(* ===== verification/Grafana.thy ===== *)
theory Grafana
  imports Access
begin

text \<open>
  The dashboards of Grafana that are embedded in the pages (scheduler/internal/service/grafana_dashboard.go, model and handler of
  the same name). \<open>url.Parse\<close> is an argument that gives the scheme of an address, \<open>None\<close> if it cannot be parsed. A
  body or an id is \<open>None\<close> when it cannot be bound. The error values have the codes of service/errors.go.
\<close>

section \<open>Rows and checks\<close>

record dashboard =
  gd_id :: int
  gd_name :: string
  gd_desc :: string
  gd_url :: string
  gd_width :: string
  gd_height :: int
  gd_sort :: int
  gd_enabled :: int
  gd_created :: instant
  gd_updated :: instant

record reorder_item =
  ri_id :: int
  ri_sort :: int

datatype grafana_stmt = G_insert | G_update | G_delete | G_list | G_get | G_reorder

record grafana_env =
  gv_db :: "grafana_stmt \<Rightarrow> string option"
  gv_scheme :: "string \<Rightarrow> string option"
  gv_now :: instant
  gv_id :: int

text \<open>An error with its code; other errors have the code 500.\<close>

type_synonym coded = "int \<times> string"

definition not_found :: coded where "not_found = (19001, ''grafana dashboard not found'')"
definition invalid_url :: coded where
  "invalid_url = (19002, ''grafana embed url must start with http:// or https://'')"
definition invalid_width :: coded where
  "invalid_width = (19003, ''grafana width must be one of: third, half, full'')"
definition invalid_height :: coded where
  "invalid_height = (19004, ''grafana height_px must be between 120 and 1200'')"
definition invalid_sort :: coded where "invalid_sort = (19005, ''grafana sort_order must be >= 0'')"

definition validate :: "(string \<Rightarrow> string option) \<Rightarrow> dashboard \<Rightarrow> coded option" where
  "validate scheme d =
     (if TrimSpace (gd_name d) = [] then Some (500, ''name cannot be empty'')
      else if length (gd_name d) > 100 then Some (500, ''name must be at most 100 characters'')
      else if gd_url d = [] then Some invalid_url
      else if scheme (gd_url d) \<notin> {Some ''http'', Some ''https''} then Some invalid_url
      else if length (gd_url d) > 2048 then Some (500, ''embed_url must be at most 2048 characters'')
      else if gd_width d \<notin> {''third'', ''half'', ''full''} then Some invalid_width
      else if gd_height d < 120 \<or> gd_height d > 1200 then Some invalid_height
      else if gd_sort d < 0 then Some invalid_sort
      else None)"

section \<open>The service\<close>

definition grafana_Create ::
  "grafana_env \<Rightarrow> dashboard \<Rightarrow> dashboard list \<Rightarrow> (coded + dashboard) \<times> dashboard list" where
  "grafana_Create V d t =
     (case validate (gv_scheme V) d of
        Some e \<Rightarrow> (Inl e, t)
      | None \<Rightarrow>
          (case gv_db V G_insert of
             Some e \<Rightarrow> (Inl (500, e), t)
           | None \<Rightarrow> (let d1 = d\<lparr>gd_id := gv_id V, gd_created := gv_now V, gd_updated := gv_now V\<rparr> in (Inr d1, t @ [d1]))))"

definition grafana_Update ::
  "grafana_env \<Rightarrow> int \<Rightarrow> dashboard \<Rightarrow> dashboard list \<Rightarrow> coded option \<times> dashboard list" where
  "grafana_Update V i d t =
     (case validate (gv_scheme V) d of
        Some e \<Rightarrow> (Some e, t)
      | None \<Rightarrow>
          (case gv_db V G_update of
             Some e \<Rightarrow> (Some (500, e), t)
           | None \<Rightarrow>
               (if \<not> (\<exists>x\<in>set t. gd_id x = i) then (Some not_found, t)
                else (None, upd_where (\<lambda>x. gd_id x = i)
                       (\<lambda>x. d\<lparr>gd_id := gd_id x, gd_created := gd_created x, gd_updated := gv_now V\<rparr>) t))))"

definition grafana_Delete :: "grafana_env \<Rightarrow> int \<Rightarrow> dashboard list \<Rightarrow> coded option \<times> dashboard list" where
  "grafana_Delete V i t =
     (case gv_db V G_delete of
        Some e \<Rightarrow> (Some (500, e), t)
      | None \<Rightarrow> if \<not> (\<exists>x\<in>set t. gd_id x = i) then (Some not_found, t)
                else (None, del_where (\<lambda>x. gd_id x = i) t))"

text \<open>\<open>ORDER BY sort_order ASC, id ASC\<close>.\<close>

definition by_place :: "dashboard list \<Rightarrow> dashboard list" where
  "by_place t = sort_key gd_sort (sort_key gd_id t)"

definition grafana_list :: "grafana_env \<Rightarrow> bool \<Rightarrow> dashboard list \<Rightarrow> coded + dashboard list" where
  "grafana_list V onlyEnabled t =
     (case gv_db V G_list of
        Some e \<Rightarrow> Inl (500, e)
      | None \<Rightarrow> Inr (by_place (filter (\<lambda>d. onlyEnabled \<longrightarrow> gd_enabled d = 1) t)))"

definition ListEnabled :: "grafana_env \<Rightarrow> dashboard list \<Rightarrow> coded + dashboard list" where
  "ListEnabled V t = grafana_list V True t"

definition ListAll :: "grafana_env \<Rightarrow> dashboard list \<Rightarrow> coded + dashboard list" where
  "ListAll V t = grafana_list V False t"

definition grafana_GetByID :: "grafana_env \<Rightarrow> int \<Rightarrow> dashboard list \<Rightarrow> coded + dashboard" where
  "grafana_GetByID V i t =
     (case gv_db V G_get of
        Some e \<Rightarrow> Inl (500, e)
      | None \<Rightarrow> (case first_where (\<lambda>x. gd_id x = i) t of None \<Rightarrow> Inl not_found | Some d \<Rightarrow> Inr d))"

text \<open>The statements of a change of the order are one transaction.\<close>

fun item_error :: "reorder_item list \<Rightarrow> coded option" where
  "item_error [] = None"
| "item_error (r # rs) =
     (if ri_id r \<le> 0 then Some (500, ''invalid id in reorder items'')
      else if ri_sort r < 0 then Some invalid_sort
      else item_error rs)"

definition place :: "instant \<Rightarrow> reorder_item \<Rightarrow> dashboard list \<Rightarrow> dashboard list" where
  "place now r t = upd_where (\<lambda>x. gd_id x = ri_id r) (\<lambda>x. x\<lparr>gd_sort := ri_sort r, gd_updated := now\<rparr>) t"

definition Reorder :: "grafana_env \<Rightarrow> reorder_item list \<Rightarrow> dashboard list \<Rightarrow> coded option \<times> dashboard list" where
  "Reorder V rs t =
     (if rs = [] then (None, t)
      else (case item_error rs of
              Some e \<Rightarrow> (Some e, t)
            | None \<Rightarrow> (case gv_db V G_reorder of
                         Some e \<Rightarrow> (Some (500, e), t) | None \<Rightarrow> (None, fold (place (gv_now V)) rs t))))"

section \<open>The requests\<close>

definition failed :: "coded \<Rightarrow> 'a reply" where "failed e = (if e = not_found then Bad 404 ''no such dashboard'' else Bad (fst e) (snd e))"

definition HandleListEnabled :: "grafana_env \<Rightarrow> dashboard list \<Rightarrow> dashboard list reply" where
  "HandleListEnabled V t = (case ListEnabled V t of Inl e \<Rightarrow> Bad (fst e) (snd e) | Inr l \<Rightarrow> Good l)"

definition HandleListAll :: "grafana_env \<Rightarrow> dashboard list \<Rightarrow> dashboard list reply" where
  "HandleListAll V t = (case ListAll V t of Inl e \<Rightarrow> Bad (fst e) (snd e) | Inr l \<Rightarrow> Good l)"

definition HandleGetDashboard :: "grafana_env \<Rightarrow> int option \<Rightarrow> dashboard list \<Rightarrow> dashboard reply" where
  "HandleGetDashboard V i t =
     (case i of
        None \<Rightarrow> Bad 400 ''invalid dashboard id''
      | Some i \<Rightarrow> (case grafana_GetByID V i t of Inl e \<Rightarrow> failed e | Inr d \<Rightarrow> Good d))"

record dashboard_body =
  gb_name :: string
  gb_desc :: string
  gb_url :: string
  gb_width :: string
  gb_height :: int
  gb_sort :: int
  gb_enabled :: "int option"

definition of_body :: "dashboard_body \<Rightarrow> dashboard" where
  "of_body b = \<lparr>gd_id = 0, gd_name = gb_name b, gd_desc = gb_desc b, gd_url = gb_url b, gd_width = gb_width b,
     gd_height = gb_height b, gd_sort = gb_sort b, gd_enabled = (case gb_enabled b of None \<Rightarrow> 1 | Some n \<Rightarrow> n),
     gd_created = 0, gd_updated = 0\<rparr>"

definition with_defaults :: "dashboard_body \<Rightarrow> dashboard_body" where
  "with_defaults b = b\<lparr>gb_width := (if gb_width b = [] then ''full'' else gb_width b),
     gb_height := (if gb_height b = 0 then 300 else gb_height b)\<rparr>"

definition HandleCreateDashboard ::
  "grafana_env \<Rightarrow> dashboard_body option \<Rightarrow> dashboard list \<Rightarrow> dashboard reply \<times> dashboard list" where
  "HandleCreateDashboard V body t =
     (case body of
        None \<Rightarrow> (Bad 400 ''name and embed url are required'', t)
      | Some b \<Rightarrow>
          (if gb_name b = [] \<or> gb_url b = [] then (Bad 400 ''name and embed url are required'', t)
           else (case grafana_Create V (of_body (with_defaults b)) t of
                   (Inl e, t1) \<Rightarrow> (Bad (fst e) (snd e), t1) | (Inr d, t1) \<Rightarrow> (Good d, t1))))"

definition HandleUpdateDashboard ::
  "grafana_env \<Rightarrow> int option \<Rightarrow> dashboard_body option \<Rightarrow> dashboard list \<Rightarrow> unit reply \<times> dashboard list" where
  "HandleUpdateDashboard V i body t =
     (case (i, body) of
        (None, _) \<Rightarrow> (Bad 400 ''invalid dashboard id'', t)
      | (_, None) \<Rightarrow> (Bad 400 ''name, embed url, width and height are required'', t)
      | (Some i, Some b) \<Rightarrow>
          (if gb_name b = [] \<or> gb_url b = [] \<or> gb_width b = [] \<or> gb_height b = 0
           then (Bad 400 ''name, embed url, width and height are required'', t)
           else (case grafana_Update V i (of_body b) t of (Some e, t1) \<Rightarrow> (failed e, t1) | (None, t1) \<Rightarrow> (Good (), t1))))"

definition HandleDeleteDashboard :: "grafana_env \<Rightarrow> int option \<Rightarrow> dashboard list \<Rightarrow> unit reply \<times> dashboard list" where
  "HandleDeleteDashboard V i t =
     (case i of
        None \<Rightarrow> (Bad 400 ''invalid dashboard id'', t)
      | Some i \<Rightarrow> (case grafana_Delete V i t of (Some e, t1) \<Rightarrow> (failed e, t1) | (None, t1) \<Rightarrow> (Good (), t1)))"

definition HandleReorder :: "grafana_env \<Rightarrow> reorder_item list option \<Rightarrow> dashboard list \<Rightarrow> unit reply \<times> dashboard list" where
  "HandleReorder V rs t =
     (case rs of
        None \<Rightarrow> (Bad 400 ''items are required'', t)
      | Some rs \<Rightarrow> (case Reorder V rs t of (Some e, t1) \<Rightarrow> (Bad (fst e) (snd e), t1) | (None, t1) \<Rightarrow> (Good (), t1)))"

section \<open>What the requests keep\<close>

text \<open>A request of an administrator; new ids are new.\<close>

inductive grafana_step :: "(string \<Rightarrow> string option) \<Rightarrow> dashboard list \<Rightarrow> dashboard list \<Rightarrow> bool"
  for scheme :: "string \<Rightarrow> string option" where
  g_create: "gv_scheme V = scheme \<Longrightarrow> gv_id V \<notin> gd_id ` set t \<Longrightarrow> grafana_step scheme t (snd (HandleCreateDashboard V body t))"
| g_update: "gv_scheme V = scheme \<Longrightarrow> grafana_step scheme t (snd (HandleUpdateDashboard V i body t))"
| g_delete: "grafana_step scheme t (snd (HandleDeleteDashboard V i t))"
| g_reorder: "grafana_step scheme t (snd (HandleReorder V rs t))"

definition dashboards_wf :: "(string \<Rightarrow> string option) \<Rightarrow> dashboard list \<Rightarrow> bool" where
  "dashboards_wf scheme t \<longleftrightarrow> distinct (map gd_id t) \<and> (\<forall>d\<in>set t. validate scheme d = None)"

lemma validate_cong:
  "validate scheme (d\<lparr>gd_id := i\<rparr>) = validate scheme d" "validate scheme (d\<lparr>gd_created := n\<rparr>) = validate scheme d"
  "validate scheme (d\<lparr>gd_updated := n\<rparr>) = validate scheme d"
  by (simp_all add: validate_def)

lemma validate_sort: "validate scheme d = None \<Longrightarrow> k \<ge> 0 \<Longrightarrow> validate scheme (d\<lparr>gd_sort := k\<rparr>) = None"
  by (auto simp: validate_def split: if_splits)

lemma rewritten_wf:
  assumes "dashboards_wf scheme t" "\<And>x. x \<in> set t \<Longrightarrow> p x \<Longrightarrow> gd_id (f x) = gd_id x \<and> validate scheme (f x) = None"
  shows "dashboards_wf scheme (upd_where p f t)"
proof -
  have "map gd_id (upd_where p f t) = map gd_id t" using assms(2) by (simp add: upd_where_def)
  moreover have "validate scheme d = None" if "d \<in> set (upd_where p f t)" for d
    using that assms by (auto simp: dashboards_wf_def upd_where_def)
  ultimately show ?thesis using assms(1) by (simp add: dashboards_wf_def)
qed

lemma Create_wf:
  assumes "dashboards_wf scheme t" "gv_scheme V = scheme" "gv_id V \<notin> gd_id ` set t"
  shows "dashboards_wf scheme (snd (grafana_Create V d t))"
  using assms by (auto simp: dashboards_wf_def grafana_Create_def Let_def validate_cong split: option.splits)

lemma Update_wf:
  assumes "dashboards_wf scheme t" "gv_scheme V = scheme"
  shows "dashboards_wf scheme (snd (grafana_Update V i d t))"
  using assms by (auto simp: grafana_Update_def validate_cong split: option.splits intro!: rewritten_wf)

lemma Delete_wf: "dashboards_wf scheme t \<Longrightarrow> dashboards_wf scheme (snd (grafana_Delete V i t))"
  by (auto simp: dashboards_wf_def grafana_Delete_def del_where_def distinct_map_filter split: option.splits)

lemma places_wf: "dashboards_wf scheme t \<Longrightarrow> item_error rs = None \<Longrightarrow> dashboards_wf scheme (fold (place now) rs t)"
proof (induction rs arbitrary: t)
  case (Cons r rs)
  have "dashboards_wf scheme (place now r t)"
    unfolding place_def using Cons.prems
    by (intro rewritten_wf) (auto simp: dashboards_wf_def validate_cong validate_sort split: if_splits)
  then show ?case using Cons.IH Cons.prems(2) by (simp split: if_splits)
qed simp

lemma Reorder_wf: "dashboards_wf scheme t \<Longrightarrow> dashboards_wf scheme (snd (Reorder V rs t))"
  by (auto simp: Reorder_def places_wf split: option.splits)

text \<open>A request leaves the rows as they are, or as its operation of the service leaves them.\<close>

lemma request_states:
  "snd (HandleCreateDashboard V body t) \<in> insert t (range (\<lambda>d. snd (grafana_Create V d t)))"
  "snd (HandleUpdateDashboard V i body t) \<in> insert t (range (\<lambda>(i, d). snd (grafana_Update V i d t)))"
  "snd (HandleDeleteDashboard V i t) \<in> insert t (range (\<lambda>i. snd (grafana_Delete V i t)))"
  "snd (HandleReorder V rs t) \<in> insert t (range (\<lambda>rs. snd (Reorder V rs t)))"
proof -
  show "snd (HandleCreateDashboard V body t) \<in> insert t (range (\<lambda>d. snd (grafana_Create V d t)))"
    by (auto simp: HandleCreateDashboard_def image_iff split: option.splits prod.splits sum.splits) (metis snd_conv)+
  show "snd (HandleUpdateDashboard V i body t) \<in> insert t (range (\<lambda>(i, d). snd (grafana_Update V i d t)))"
    by (auto simp: HandleUpdateDashboard_def image_iff split: option.splits prod.splits) (metis snd_conv)+
  show "snd (HandleDeleteDashboard V i t) \<in> insert t (range (\<lambda>i. snd (grafana_Delete V i t)))"
    by (auto simp: HandleDeleteDashboard_def image_iff split: option.splits prod.splits) (metis snd_conv)+
  show "snd (HandleReorder V rs t) \<in> insert t (range (\<lambda>rs. snd (Reorder V rs t)))"
    by (auto simp: HandleReorder_def image_iff split: option.splits prod.splits) (metis snd_conv)+
qed

lemma grafana_step_wf: "grafana_step scheme s t \<Longrightarrow> dashboards_wf scheme s \<Longrightarrow> dashboards_wf scheme t"
proof (induction rule: grafana_step.induct)
  case (g_create V t body)
  then show ?case using request_states(1) [of V body t] Create_wf by auto
next
  case (g_update V t i body)
  then show ?case using request_states(2) [of V i body t] Update_wf by auto
next
  case (g_delete t V i)
  then show ?case using request_states(3) [of V i t] Delete_wf by auto
next
  case (g_reorder t V rs)
  then show ?case using request_states(4) [of V rs t] Reorder_wf by auto
qed

interpretation dashboards: transition_invariant "\<lambda>t. t = []" "grafana_step scheme" "dashboards_wf scheme"
proof
  show "dashboards_wf scheme t" if "t = []" for t using that by (simp add: dashboards_wf_def)
qed (rule grafana_step_wf)

text \<open>Whatever requests are made, every dashboard has a name, an address by HTTP, a known width, a height between 120
  and 1200 and a place that is not negative, and ids stay unique.\<close>

theorem dashboards_stay_valid:
  assumes "reach (\<lambda>t. t = []) (grafana_step scheme) t"
  shows "distinct (map gd_id t) \<and> (\<forall>d\<in>set t. TrimSpace (gd_name d) \<noteq> [] \<and> length (gd_name d) \<le> 100 \<and>
    scheme (gd_url d) \<in> {Some ''http'', Some ''https''} \<and> length (gd_url d) \<le> 2048 \<and>
    gd_width d \<in> {''third'', ''half'', ''full''} \<and> 120 \<le> gd_height d \<and> gd_height d \<le> 1200 \<and> 0 \<le> gd_sort d)"
  using dashboards.reach_inv [OF assms] by (auto simp: dashboards_wf_def validate_def split: if_splits)

definition demo_grafana :: grafana_env where
  "demo_grafana = \<lparr>gv_db = (\<lambda>q. None), gv_scheme = (\<lambda>u. if take 5 u = ''http:'' then Some ''http'' else None), gv_now = 7, gv_id = 1\<rparr>"

definition demo_body :: dashboard_body where
  "demo_body = \<lparr>gb_name = ''load'', gb_desc = [], gb_url = ''http:a'', gb_width = [], gb_height = 0, gb_sort = 2, gb_enabled = None\<rparr>"

definition demo_dashboard :: dashboard where
  "demo_dashboard = \<lparr>gd_id = 1, gd_name = ''load'', gd_desc = [], gd_url = ''http:a'', gd_width = ''full'', gd_height = 300,
     gd_sort = 2, gd_enabled = 1, gd_created = 7, gd_updated = 7\<rparr>"

lemma demo_created: "HandleCreateDashboard demo_grafana (Some demo_body) [] = (Good demo_dashboard, [demo_dashboard])"
  by code_simp

theorem dashboards_stay_valid_witness:
  "reach (\<lambda>t. t = []) (grafana_step (gv_scheme demo_grafana)) [demo_dashboard] \<and> gd_height demo_dashboard \<le> 1200"
proof -
  have "reach (\<lambda>t. t = []) (grafana_step (gv_scheme demo_grafana)) [demo_dashboard]"
    using g_create [of demo_grafana "gv_scheme demo_grafana" "[]" "Some demo_body"]
    by (intro reach_one [of "\<lambda>t. t = []" "[]"]) (simp_all add: demo_created)
  then show ?thesis using dashboards_stay_valid by fastforce
qed

section \<open>The order\<close>

lemma place_ids [simp]: "map gd_id (place now r t) = map gd_id t"
  by (simp add: place_def upd_where_def)

lemma places_ids [simp]: "map gd_id (fold (place now) rs t) = map gd_id t"
  by (induction rs arbitrary: t) simp_all

lemma place_mem:
  "d \<in> set (place now q t) \<Longrightarrow> \<exists>e\<in>set t. d = (if gd_id e = ri_id q then e\<lparr>gd_sort := ri_sort q, gd_updated := now\<rparr> else e)"
  by (auto simp: place_def upd_where_def)

text \<open>The place that a row has in the end is the one of the last item with its id.\<close>

lemma placed_sort:
  assumes "distinct (map ri_id rs)" "d \<in> set (fold (place now) rs t)" "r \<in> set rs" "ri_id r = gd_id d"
  shows "gd_sort d = ri_sort r"
  using assms
proof (induction rs arbitrary: d r rule: rev_induct)
  case (snoc q rs)
  have "d \<in> set (place now q (fold (place now) rs t))" using snoc.prems(2) by simp
  then obtain e where e: "e \<in> set (fold (place now) rs t)"
    "d = (if gd_id e = ri_id q then e\<lparr>gd_sort := ri_sort q, gd_updated := now\<rparr> else e)"
    using place_mem by blast
  show ?case
  proof (cases "r = q")
    case True
    then show ?thesis using e(2) snoc.prems(4) by (auto split: if_splits)
  next
    case False
    then have r: "r \<in> set rs" "ri_id r \<noteq> ri_id q" using snoc.prems(1,3) by (auto simp: image_iff)
    then have "gd_id e \<noteq> ri_id q" using e(2) snoc.prems(4) by (auto split: if_splits)
    then show ?thesis using snoc.IH [OF _ e(1) r(1)] snoc.prems(1,4) e(2) by auto
  qed
qed simp

lemma by_place_simps [simp]: "set (by_place t) = set t" "sorted (map gd_sort (by_place t))"
  by (simp_all add: by_place_def)

lemma pairs_unique:
  assumes "sorted (map fst xs)" "distinct (map snd xs)" "sorted (map fst ys)" "distinct (map fst ys)" "set xs = set ys"
  shows "xs = (ys :: (int \<times> int) list)"
proof -
  have inj: "inj_on fst (set xs)" unfolding assms(5) using assms(4) distinct_map by blast
  moreover have "distinct xs" using assms(2) distinct_map by blast
  ultimately have "distinct (map fst xs)" by (simp add: distinct_map)
  then show ?thesis using map_sorted_distinct_set_unique [of fst xs ys] assms inj by simp
qed

text \<open>A change of the order that gives every dashboard a place of its own shows them in that order from then on.\<close>

theorem reordered_dashboards_are_shown_in_order:
  assumes "Reorder V rs t = (None, t1)" "gv_db V' G_list = None"
    and "distinct (map gd_id t)" "set (map ri_id rs) = set (map gd_id t)"
    and "distinct (map ri_id rs)" "sorted_wrt (<) (map ri_sort rs)"
  shows "\<exists>l. ListAll V' t1 = Inr l \<and> map gd_id l = map ri_id rs \<and> map gd_sort l = map ri_sort rs"
proof (cases "rs = []")
  case True
  then show ?thesis using assms by (simp add: Reorder_def ListAll_def grafana_list_def by_place_def)
next
  case False
  then have t1: "t1 = fold (place (gv_now V)) rs t" using assms(1) by (auto simp: Reorder_def split: option.splits)
  define l where "l = by_place t1"
  have ids: "gd_id ` set l = ri_id ` set rs" "distinct (map gd_id l)"
    using assms(3,4) by (simp_all add: l_def t1 by_place_def distinct_map) (metis places_ids set_map, metis distinct_map places_ids)
  have sort: "gd_sort d = ri_sort r" if "d \<in> set l" "r \<in> set rs" "ri_id r = gd_id d" for d r
    using placed_sort [OF assms(5) _ that(2,3)] that(1) by (simp add: l_def t1)
  let ?L = "map (\<lambda>d. (gd_sort d, gd_id d)) l" and ?R = "map (\<lambda>r. (ri_sort r, ri_id r)) rs"
  have "(gd_sort d, gd_id d) \<in> set ?R" if d: "d \<in> set l" for d
  proof -
    obtain r where "r \<in> set rs" "ri_id r = gd_id d" using ids(1) d by (metis imageE imageI)
    then show ?thesis using sort [OF d] by force
  qed
  moreover have "(ri_sort r, ri_id r) \<in> set ?L" if r: "r \<in> set rs" for r
  proof -
    obtain d where "d \<in> set l" "ri_id r = gd_id d" using ids(1) r by (metis imageE imageI)
    then show ?thesis using sort [OF _ r] by force
  qed
  ultimately have same: "set ?L = set ?R" by auto
  have R: "sorted (map fst ?R)" "distinct (map fst ?R)" using assms(6) by (simp_all add: strict_sorted_iff comp_def)
  have L: "sorted (map fst ?L)" by (simp add: comp_def l_def)
  have "distinct (map snd ?L)" using ids(2) by (simp add: comp_def)
  then have "?L = ?R" by (rule pairs_unique [OF L _ R same])
  then have "map gd_id l = map ri_id rs" "map gd_sort l = map ri_sort rs"
    by (metis (no_types, lifting) map_map comp_apply fst_conv snd_conv map_eq_conv)+
  then show ?thesis using assms(2) by (simp add: ListAll_def grafana_list_def l_def)
qed

theorem reordered_dashboards_are_shown_in_order_witness:
  "\<exists>l. ListAll demo_grafana (snd (Reorder demo_grafana [\<lparr>ri_id = 2, ri_sort = 0\<rparr>, \<lparr>ri_id = 1, ri_sort = 5\<rparr>]
      [demo_dashboard, demo_dashboard\<lparr>gd_id := 2, gd_sort := 3\<rparr>])) = Inr l \<and> map gd_id l = [2, 1]"
  using reordered_dashboards_are_shown_in_order
    [of demo_grafana "[\<lparr>ri_id = 2, ri_sort = 0\<rparr>, \<lparr>ri_id = 1, ri_sort = 5\<rparr>]"
      "[demo_dashboard, demo_dashboard\<lparr>gd_id := 2, gd_sort := 3\<rparr>]" _ demo_grafana]
  by (force simp: Reorder_def demo_grafana_def demo_dashboard_def)

end
