(* ===== verification/Dashboards.thy ===== *)
theory Dashboards
  imports Cron Election Access Complex_Main
begin

text \<open>
  The figures of the start page and the check of the components (scheduler/internal/service/dashboard_service.go,
  handler/dashboard.go). The durations are averaged in exact arithmetic, and a day of the database (\<open>date\<close>) and the text of a
  short duration are arguments. The goroutines that these requests share with the cron scheduler see each other as in
  \<open>Cron\<close>; \<open>cs\<close> is \<open>None\<close> for a service without one.
\<close>

section \<open>Figures\<close>

record dashboard_stats =
  st_total :: int
  st_enabled :: int
  st_cron :: int
  st_running :: int
  st_success :: int
  st_failed :: int
  st_avg :: rat              \<comment> \<open>seconds\<close>
  st_executors :: int
  st_active :: int
  st_paused :: bool
  st_uptime :: int

record trend =
  td_day :: int
  td_total :: int
  td_success :: int
  td_failed :: int

datatype dash_stmt = D_tasks | D_running | D_recent | D_executors | D_trend

record dash_env =
  dv_db :: "dash_stmt \<Rightarrow> string option"
  dv_day :: "instant \<Rightarrow> int"             \<comment> \<open>the day of an instant, as \<open>date\<close> gives it\<close>
  dv_latency :: "duration \<Rightarrow> string"
  dv_select :: "string option"             \<comment> \<open>the failure of \<open>SELECT 1\<close>\<close>
  dv_tables :: "string list result"
  dv_ping :: "string option"
  dv_took :: duration                      \<comment> \<open>how long a check takes\<close>
  dv_started :: instant

definition sees_all :: "string \<Rightarrow> bool" where
  "sees_all role \<longleftrightarrow> role = ''system_admin'' \<or> role = ''admin''"

text \<open>\<open>SUM(CASE WHEN p THEN 1 ELSE 0 END)\<close>, which is \<open>NULL\<close> and read as 0 when there are no rows.\<close>

definition sum_case :: "('a \<Rightarrow> bool) \<Rightarrow> 'a list \<Rightarrow> int" where
  "sum_case p xs = int (length (filter p xs))"

definition tasks_in_domain :: "bool \<Rightarrow> int \<Rightarrow> task list \<Rightarrow> task list" where
  "tasks_in_domain everything d ts = (if everything then ts else filter (\<lambda>t. t_domain t = d) ts)"

text \<open>The executions, joined with their tasks unless everything is asked for.\<close>

definition executions_of :: "bool \<Rightarrow> int \<Rightarrow> 'r sched \<Rightarrow> execution list" where
  "executions_of everything d s =
     (if everything then s_execs s
      else concat (map (\<lambda>x. map (\<lambda>t. x) (filter (\<lambda>t. t_id t = x_task x \<and> t_domain t = d) (s_tasks s))) (s_execs s)))"

definition executors_of :: "bool \<Rightarrow> int \<Rightarrow> 'r sched \<Rightarrow> executor list" where
  "executors_of everything d s =
     (if everything then s_executors s
      else concat (map (\<lambda>e. map (\<lambda>q. e) (filter (\<lambda>q. q = (d, e_id e)) (s_domain_executors s))) (s_executors s)))"

definition succeeded :: "execution \<Rightarrow> bool" where "succeeded x \<longleftrightarrow> x_status x = ''success''"
definition went_wrong :: "execution \<Rightarrow> bool" where "went_wrong x \<longleftrightarrow> x_status x \<in> {''failed'', ''timeout''}"

definition sevenDays :: duration where "sevenDays = 7 * 24 * 3600 * second"

definition recent :: "'r env \<Rightarrow> execution list \<Rightarrow> execution list" where
  "recent V xs = filter (\<lambda>x. x_created x > env_now V - sevenDays) xs"

definition lasted :: "execution \<Rightarrow> rat option" where
  "lasted x = (case (x_start x, x_end x) of (Some a, Some b) \<Rightarrow> Some (of_int (b - a) / of_int second) | _ \<Rightarrow> None)"

definition average :: "rat list \<Rightarrow> rat" where
  "average xs = (if xs = [] then 0 else sum_list xs / of_nat (length xs))"

definition uptime_seconds :: "'r env \<Rightarrow> dash_env \<Rightarrow> int" where
  "uptime_seconds V W = (env_now V - dv_started W) div second"

text \<open>Only the failure of the first statement is reported; the figures of the others stay 0.\<close>

definition GetDashboardStats ::
  "'r env \<Rightarrow> dash_env \<Rightarrow> int \<Rightarrow> string \<Rightarrow> 'c cron_sched option \<times> 'r sched \<Rightarrow> dashboard_stats result \<times> 'c cron_sched option" where
  "GetDashboardStats V W d role = (\<lambda>(cs, s).
     (case dv_db W D_tasks of
        Some e \<Rightarrow> (Inl e, cs)
      | None \<Rightarrow>
          (let ts = tasks_in_domain (sees_all role) d (s_tasks s);
               xs = executions_of (sees_all role) d s;
               rs = (if dv_db W D_recent = None then recent V xs else []);
               es = (if dv_db W D_executors = None then executors_of (sees_all role) d s else []);
               paused = map_option (IsPaused V s) cs
           in (Inr \<lparr>st_total = int (length ts), st_enabled = sum_case t_enabled ts, st_cron = sum_case (\<lambda>t. t_cron t \<noteq> []) ts,
                  st_running = (if dv_db W D_running = None then sum_case (\<lambda>x. x_status x = ''running'') xs else 0),
                  st_success = sum_case succeeded rs, st_failed = sum_case went_wrong rs,
                  st_avg = average (List.map_filter lasted rs),
                  st_executors = int (if sees_all role then length es else card (e_id ` set es)), st_active = sum_case (\<lambda>e. e_status e = ''online'') es,
                  st_paused = (case paused of None \<Rightarrow> False | Some (b, _) \<Rightarrow> b),
                  st_uptime = (if cs = None then 0 else uptime_seconds V W)\<rparr>,
               map_option snd paused))))"

definition GetTrendData :: "'r env \<Rightarrow> dash_env \<Rightarrow> int \<Rightarrow> string \<Rightarrow> 'r sched \<Rightarrow> trend list result" where
  "GetTrendData V W d role s =
     (case dv_db W D_trend of
        Some e \<Rightarrow> Inl e
      | None \<Rightarrow>
          (let xs = recent V (executions_of (sees_all role) d s)
           in Inr (map (\<lambda>k. let ys = filter (\<lambda>x. dv_day W (x_created x) = k) xs
                            in \<lparr>td_day = k, td_total = int (length ys), td_success = sum_case succeeded ys,
                                td_failed = sum_case went_wrong ys\<rparr>)
                     (rev (sorted_list_of_set (dv_day W ` x_created ` set xs))))))"

section \<open>The scheduler\<close>

definition PauseScheduler ::
  "'r env \<Rightarrow> 'c cron_sched option \<times> 'r sched \<Rightarrow> 'c cron_sched option \<times> 'r sched" where
  "PauseScheduler V = (\<lambda>(cs, s). case cs of None \<Rightarrow> (None, s) | Some c \<Rightarrow> map_prod Some id (Pause V (c, s)))"

definition ResumeScheduler ::
  "'r env \<Rightarrow> 'c cron_sched option \<times> 'r sched \<Rightarrow> 'c cron_sched option \<times> 'r sched" where
  "ResumeScheduler V = (\<lambda>(cs, s). case cs of None \<Rightarrow> (None, s) | Some c \<Rightarrow> map_prod Some id (Resume V (c, s)))"

definition IsSchedulerPaused :: "'r env \<Rightarrow> 'c cron_sched option \<times> 'r sched \<Rightarrow> bool \<times> 'c cron_sched option" where
  "IsSchedulerPaused V = (\<lambda>(cs, s). case cs of None \<Rightarrow> (False, None) | Some c \<Rightarrow> map_prod id Some (IsPaused V s c))"

section \<open>Health\<close>

record component_check =
  cc_status :: string
  cc_message :: string
  cc_latency :: string

definition healthy :: string where "healthy = ''healthy''"
definition unhealthy :: string where "unhealthy = ''unhealthy''"

definition requiredTables :: "string list" where
  "requiredTables = map ((@) ''bdopsflow_'')
     [''domains'', ''users'', ''tasks'', ''task_executions'', ''executors'', ''task_logs'', ''roles'', ''permissions'',
      ''role_permissions'', ''user_roles'', ''domain_executors'']"

definition show_list :: "string list \<Rightarrow> string" where
  "show_list xs = ''['' @ (case xs of [] \<Rightarrow> [] | x # ys \<Rightarrow> x @ concat (map (\<lambda>y. '' '' @ y) ys)) @ '']''"

definition checkRQLite :: "dash_env \<Rightarrow> component_check" where
  "checkRQLite W =
     (let check = (\<lambda>status msg. \<lparr>cc_status = status, cc_message = msg, cc_latency = dv_latency W (dv_took W)\<rparr>)
      in case dv_select W of
           Some e \<Rightarrow> check unhealthy (''no connection: '' @ e)
         | None \<Rightarrow>
             (case dv_tables W of
                Inl e \<Rightarrow> check unhealthy (''cannot read the tables: '' @ e)
              | Inr ts \<Rightarrow>
                  (let missing = filter (\<lambda>t. t \<notin> set ts) requiredTables
                   in if missing \<noteq> [] then check unhealthy (''missing tables: '' @ show_list missing)
                      else check healthy ''connected'')))"

definition checkRedis :: "dash_env \<Rightarrow> component_check" where
  "checkRedis W =
     (case dv_ping W of
        Some e \<Rightarrow> \<lparr>cc_status = unhealthy, cc_message = ''no connection: '' @ e, cc_latency = dv_latency W (dv_took W)\<rparr>
      | None \<Rightarrow> \<lparr>cc_status = healthy, cc_message = ''connected'', cc_latency = dv_latency W (dv_took W)\<rparr>)"

definition formatUptime :: "duration \<Rightarrow> string" where
  "formatUptime d =
     (let hours = d div (3600 * second); days = hours div 24; minutes = d div (60 * second) mod 60
      in if days > 0 then show_int days @ ''d'' @ show_int (hours mod 24) @ ''h'' @ show_int minutes @ ''m''
         else if hours mod 24 > 0 then show_int (hours mod 24) @ ''h'' @ show_int minutes @ ''m''
         else show_int minutes @ ''m'')"

definition checkScheduler ::
  "'r env \<Rightarrow> dash_env \<Rightarrow> 'c cron_sched option \<times> 'r sched \<Rightarrow> component_check \<times> 'c cron_sched option" where
  "checkScheduler V W = (\<lambda>(cs, s).
     case cs of
       None \<Rightarrow> (\<lparr>cc_status = unhealthy, cc_message = ''scheduler not initialised'', cc_latency = []\<rparr>, None)
     | Some c \<Rightarrow>
         (case IsPaused V s c of (paused, c1) \<Rightarrow>
            (let up = formatUptime (env_now V - dv_started W)
             in (if paused then \<lparr>cc_status = unhealthy, cc_message = ''paused (up '' @ up @ '')'', cc_latency = []\<rparr>
                 else \<lparr>cc_status = healthy, cc_message = ''running (up '' @ up @ '')'', cc_latency = []\<rparr>, Some c1))))"

definition checkLeader :: "'r env \<Rightarrow> node option \<Rightarrow> 'r sched \<Rightarrow> component_check" where
  "checkLeader V n s =
     (case n of
        None \<Rightarrow> \<lparr>cc_status = unhealthy, cc_message = ''leader election not configured'', cc_latency = []\<rparr>
      | Some n \<Rightarrow>
          (case GetLeaderInfo (env_redis V) (env_now V) n (s_redis s) of
             Inl e \<Rightarrow> \<lparr>cc_status = unhealthy, cc_message = ''cannot read the leader: '' @ e, cc_latency = []\<rparr>
           | Inr (who, addr) \<Rightarrow>
               (if who = [] then \<lparr>cc_status = unhealthy, cc_message = ''no leader'', cc_latency = []\<rparr>
                else \<lparr>cc_status = healthy, cc_message = ''node '' @ who @ (if addr = [] then [] else '' ('' @ addr @ '')'') @
                        (if GetNodeID n = who then '' - this node'' else []), cc_latency = []\<rparr>)))"

record health_result =
  hr_status :: string
  hr_time :: instant
  hr_components :: "(string \<times> component_check) list"

definition HealthCheck ::
  "'r env \<Rightarrow> dash_env \<Rightarrow> node option \<Rightarrow> 'c cron_sched option \<times> 'r sched \<Rightarrow> health_result \<times> 'c cron_sched option" where
  "HealthCheck V W n = (\<lambda>(cs, s).
     (case checkScheduler V W (cs, s) of (sched, cs1) \<Rightarrow>
        (let cs4 = [(''rqlite'', checkRQLite W), (''redis'', checkRedis W), (''scheduler'', sched), (''leader'', checkLeader V n s)]
         in (\<lparr>hr_status = (if list_all (\<lambda>(_, c). cc_status c = healthy) cs4 then healthy else unhealthy),
               hr_time = env_now V, hr_components = cs4\<rparr>, cs1))))"

section \<open>The requests\<close>

definition role_text :: "principal \<Rightarrow> string" where
  "role_text p = (case pr_role p of None \<Rightarrow> [] | Some r \<Rightarrow> r)"

definition HandleGetStats ::
  "'r env \<Rightarrow> dash_env \<Rightarrow> principal \<Rightarrow> 'c cron_sched option \<times> 'r sched \<Rightarrow> dashboard_stats reply \<times> 'c cron_sched option" where
  "HandleGetStats V W p q =
     (case GetDashboardStats V W (pr_domain p) (role_text p) q of (Inl e, cs) \<Rightarrow> (Bad 500 e, cs) | (Inr st, cs) \<Rightarrow> (Good st, cs))"

definition HandleGetTrends :: "'r env \<Rightarrow> dash_env \<Rightarrow> principal \<Rightarrow> 'r sched \<Rightarrow> trend list reply" where
  "HandleGetTrends V W p s =
     (case GetTrendData V W (pr_domain p) (role_text p) s of Inl e \<Rightarrow> Bad 500 e | Inr ts \<Rightarrow> Good ts)"

definition HandlePauseScheduler ::
  "'r env \<Rightarrow> 'c cron_sched option \<times> 'r sched \<Rightarrow> unit reply \<times> 'c cron_sched option \<times> 'r sched" where
  "HandlePauseScheduler V q = (Good (), PauseScheduler V q)"

definition HandleResumeScheduler ::
  "'r env \<Rightarrow> 'c cron_sched option \<times> 'r sched \<Rightarrow> unit reply \<times> 'c cron_sched option \<times> 'r sched" where
  "HandleResumeScheduler V q = (Good (), ResumeScheduler V q)"

definition HandleSchedulerStatus :: "'r env \<Rightarrow> 'c cron_sched option \<times> 'r sched \<Rightarrow> bool reply \<times> 'c cron_sched option" where
  "HandleSchedulerStatus V q = (case IsSchedulerPaused V q of (b, cs) \<Rightarrow> (Good b, cs))"

definition HandleHealthCheck ::
  "'r env \<Rightarrow> dash_env \<Rightarrow> node option \<Rightarrow> 'c cron_sched option \<times> 'r sched \<Rightarrow> health_result reply \<times> 'c cron_sched option" where
  "HandleHealthCheck V W n q = (case HealthCheck V W n q of (r, cs) \<Rightarrow> (Good r, cs))"

section \<open>What the figures mean\<close>

lemma sum_case_simps [simp]:
  "sum_case p [] = 0" "sum_case p (x # xs) = of_bool (p x) + sum_case p xs" "sum_case p (xs @ ys) = sum_case p xs + sum_case p ys"
  "sum_case p (filter q xs) = sum_case (\<lambda>x. p x \<and> q x) xs"
  by (simp_all add: sum_case_def conj_commute)

lemma sum_of_bool: "distinct ds \<Longrightarrow> (\<Sum>d\<leftarrow>ds. of_bool (k = d) :: int) = of_bool (k \<in> set ds)"
  by (induction ds) auto

lemma sum_parts:
  assumes "distinct ds" "\<forall>x\<in>set xs. p x \<longrightarrow> f x \<in> set ds"
  shows "(\<Sum>d\<leftarrow>ds. sum_case (\<lambda>x. p x \<and> f x = d) xs) = sum_case p xs"
  using assms(2)
proof (induction xs)
  case (Cons x xs)
  have "(\<Sum>d\<leftarrow>ds. of_bool (p x \<and> f x = d) :: int) = of_bool (p x)"
    using sum_of_bool [OF assms(1), of "f x"] Cons.prems by (cases "p x") simp_all
  then show ?case using Cons by (simp add: sum_list_addf)
qed (simp add: sum_list_0)

lemma sum_domain:
  "sum_case p (tasks_in_domain False d ts) = sum_case (\<lambda>t. p t \<and> t_domain t = d) ts"
  by (simp add: tasks_in_domain_def)

lemma one_task:
  "distinct (map t_id ts) \<Longrightarrow> sum_case (\<lambda>t. t_id t = i) ts = of_bool (i \<in> t_id ` set ts)"
  by (induction ts) auto

lemma sum_copies: "sum_case p (map (\<lambda>t. x) ts) = (if p x then int (length ts) else 0)"
  by (simp add: sum_case_def)

lemma sum_executions:
  assumes "distinct ds" "t_domain ` set (s_tasks s) \<subseteq> set ds" "distinct (map t_id (s_tasks s))"
    and "x_task ` set (s_execs s) \<subseteq> t_id ` set (s_tasks s)"
  shows "(\<Sum>d\<leftarrow>ds. sum_case p (executions_of False d s)) = sum_case p (s_execs s)"
proof -
  have one: "(\<Sum>d\<leftarrow>ds. sum_case p (map (\<lambda>t. x) (filter (\<lambda>t. t_id t = x_task x \<and> t_domain t = d) (s_tasks s)))) = of_bool (p x)"
    if "x \<in> set (s_execs s)" for x
  proof (cases "p x")
    case True
    have "(\<Sum>d\<leftarrow>ds. sum_case (\<lambda>t. t_id t = x_task x \<and> t_domain t = d) (s_tasks s)) = 1"
      using sum_parts [OF assms(1), of "s_tasks s" "\<lambda>t. t_id t = x_task x" t_domain] assms(2,4) that
        one_task [OF assms(3), of "x_task x"] by (simp add: image_subset_iff)
    then show ?thesis using True by (simp add: sum_copies sum_case_def)
  qed (simp add: sum_copies sum_list_0)
  have "(\<Sum>d\<leftarrow>ds. sum_case p (concat (map (\<lambda>x. map (\<lambda>t. x) (filter (\<lambda>t. t_id t = x_task x \<and> t_domain t = d) (s_tasks s))) xs)))
    = sum_case p xs" if "set xs \<subseteq> set (s_execs s)" for xs
    using that by (induction xs) (simp_all add: one sum_list_addf sum_list_0)
  then show ?thesis by (simp add: executions_of_def)
qed

text \<open>The figures of the domains add up to the figures of the administrator of the system, if every task is in one of
  the domains and every execution has its task.\<close>

theorem domain_figures_add_up:
  assumes "distinct ds" "t_domain ` set (s_tasks s) \<subseteq> set ds" "distinct (map t_id (s_tasks s))"
    and "x_task ` set (s_execs s) \<subseteq> t_id ` set (s_tasks s)" "dv_db W D_tasks = None" "\<not> sees_all role" "sees_all boss"
  shows "\<exists>F A. (\<forall>d. fst (GetDashboardStats V W d role (cs, s)) = Inr (F d)) \<and>
    fst (GetDashboardStats V W a boss (cs, s)) = Inr A \<and>
    st_total A = (\<Sum>d\<leftarrow>ds. st_total (F d)) \<and> st_enabled A = (\<Sum>d\<leftarrow>ds. st_enabled (F d)) \<and> st_cron A = (\<Sum>d\<leftarrow>ds. st_cron (F d)) \<and>
    st_running A = (\<Sum>d\<leftarrow>ds. st_running (F d)) \<and> st_success A = (\<Sum>d\<leftarrow>ds. st_success (F d)) \<and> st_failed A = (\<Sum>d\<leftarrow>ds. st_failed (F d))"
proof -
  define F where "F d = projr (fst (GetDashboardStats V W d role (cs, s)))" for d
  define A where "A = projr (fst (GetDashboardStats V W a boss (cs, s)))"
  have tasks: "(\<Sum>d\<leftarrow>ds. sum_case p (tasks_in_domain False d (s_tasks s))) = sum_case p (s_tasks s)" for p
    using sum_parts [OF assms(1), of "s_tasks s" p t_domain] assms(2) by (simp add: sum_domain image_subset_iff)
  have total: "int (length xs) = sum_case (\<lambda>x. True) xs" for xs :: "'z list" by (simp add: sum_case_def)
  note parts = GetDashboardStats_def Let_def assms(5-7) F_def A_def total sum_executions [OF assms(1-4)] tasks recent_def
  show ?thesis
    by (rule exI [of _ F], rule exI [of _ A], cases "dv_db W D_running"; cases "dv_db W D_recent")
      (simp_all add: parts tasks_in_domain_def [of True] executions_of_def [of True] sum_list_0)
qed

text \<open>A node with two domains, three tasks and four executions.\<close>

definition task_in :: "int \<Rightarrow> int \<Rightarrow> task" where
  "task_in i d = \<lparr>t_id = i, t_name = ''t'', t_type = ''shell'', t_config = [], t_cron = (if i = 1 then ''* * *'' else []), t_timeout = 60,
     t_retry_count = 0, t_retry_interval = 0, t_enabled = i < 3, t_status = ''idle'', t_domain = d, t_webhook = None,
     t_webhook_events = [], t_assigned = 0, t_created_by = 1, t_updated = 0\<rparr>"

definition ended_execution :: "int \<Rightarrow> int \<Rightarrow> string \<Rightarrow> execution" where
  "ended_execution i k st = \<lparr>x_id = i, x_task = k, x_eid = show_int i, x_executor = None, x_status = st, x_start = None, x_end = None,
     x_output = [], x_error = [], x_retry = 0, x_created = i * second, x_progress = 0, x_progress_msg = [], x_updated = None\<rparr>"

definition two_domains :: "keys sched" where
  "two_domains = \<lparr>s_tasks = [task_in 1 1, task_in 2 1, task_in 3 2],
     s_execs = [ended_execution 1 1 ''success'', ended_execution 2 1 ''failed'', ended_execution 3 3 ''success'', ended_execution 4 2 ''running''],
     s_executors = [], s_domain_executors = [], s_logs = [], s_webhooks = [], s_redis = Map.empty, s_leader = True, s_cron = Map.empty,
     s_sent = [], s_notified = [], s_cancels = [], s_retries = [], s_failures = [], s_reloads = 0\<rparr>"

definition demo_dash :: dash_env where
  "demo_dash = \<lparr>dv_db = (\<lambda>q. None), dv_day = (\<lambda>t. t div (86400 * second)), dv_latency = (\<lambda>d. []), dv_select = None, dv_tables = Inr [],
     dv_ping = None, dv_took = 0, dv_started = 0\<rparr>"


lemma two_domains_facts:
  "t_domain ` set (s_tasks two_domains) \<subseteq> set [1, 2]" "distinct (map t_id (s_tasks two_domains))"
  "x_task ` set (s_execs two_domains) \<subseteq> t_id ` set (s_tasks two_domains)"
  by (simp_all add: two_domains_def task_in_def ended_execution_def)

definition no_cron :: "unit cron_sched option" where "no_cron = None"

theorem domain_figures_add_up_witness:
  "\<exists>F A. fst (GetDashboardStats (demo_env\<lparr>env_now := 9 * second\<rparr>) demo_dash 0 ''system_admin'' (no_cron, two_domains)) = Inr A \<and>
     st_success A = st_success (F (1 :: int)) + st_success (F 2) \<and>
     fst (GetDashboardStats (demo_env\<lparr>env_now := 9 * second\<rparr>) demo_dash 2 ''user'' (no_cron, two_domains)) = Inr (F 2) \<and> st_success (F 2) = 1"
proof -
  let ?V = "demo_env\<lparr>env_now := 9 * second\<rparr>"
  have roles: "dv_db demo_dash D_tasks = None" "\<not> sees_all ''user''" "sees_all ''system_admin''"
    by (simp_all add: demo_dash_def sees_all_def)
  obtain F A where F: "\<And>d. fst (GetDashboardStats ?V demo_dash d ''user'' (no_cron, two_domains)) = Inr (F d)"
    "fst (GetDashboardStats ?V demo_dash 0 ''system_admin'' (no_cron, two_domains)) = Inr A"
    "st_success A = (\<Sum>d\<leftarrow>[1, 2]. st_success (F d))"
    using domain_figures_add_up [of "[1, 2]", OF _ two_domains_facts roles, of ?V no_cron 0] by force
  have "st_success (F 2) = sum_case succeeded (recent ?V (executions_of False 2 two_domains))"
    using F(1) [of 2, symmetric] roles by (simp add: GetDashboardStats_def Let_def demo_dash_def)
  also have "\<dots> = 1"
    by (simp add: executions_of_def recent_def two_domains_def task_in_def ended_execution_def succeeded_def sevenDays_def)
  finally show ?thesis using F by (intro exI [of _ F] exI [of _ A]) simp
qed

text \<open>A failure of any statement but the first is not reported: its figures are 0.\<close>

lemma later_failures_are_zeros:
  assumes "dv_db W D_tasks = None" "dv_db W D_running = Some e" "dv_db W D_recent = Some e" "dv_db W D_executors = Some e"
  shows "\<exists>F. fst (GetDashboardStats V W d role (cs, s)) = Inr F \<and> st_running F = 0 \<and> st_success F = 0 \<and> st_failed F = 0 \<and>
    st_executors F = 0 \<and> st_active F = 0"
  using assms by (simp add: GetDashboardStats_def Let_def)

text \<open>Executors for all domains are counted for none: a domain can have no executor in its figures while its tasks run.\<close>

lemma global_executors_are_not_counted:
  assumes "d > 0" "e \<in> set (s_executors s)" "selectable (env_now V) e" "e_global e"
    and "\<forall>i. (d, i) \<notin> set (s_domain_executors s)" "dv_db W D_tasks = None" "\<not> sees_all role"
  shows "e \<in> set (candidates V d s) \<and>
    (\<exists>F. fst (GetDashboardStats V W d role (cs, s)) = Inr F \<and> st_executors F = 0 \<and> st_active F = 0)"
proof
  show "e \<in> set (candidates V d s)"
    using assms(1-4) by (cases "domains_of s (e_id e)") (force simp: candidates_def left_join_set)+
  have "executors_of False d s = []" using assms(5) by (auto simp: executors_of_def filter_empty_conv)
  then show "\<exists>F. fst (GetDashboardStats V W d role (cs, s)) = Inr F \<and> st_executors F = 0 \<and> st_active F = 0"
    using assms(6,7) by (simp add: GetDashboardStats_def Let_def)
qed

text \<open>The trend has one line for each day with executions, the latest first, and counts every execution once.\<close>

lemma trend_counts_every_execution:
  assumes "GetTrendData V W d role s = Inr ts"
  shows "sorted_wrt (>) (map td_day ts) \<and> (\<Sum>t\<leftarrow>ts. td_total t) = int (length (recent V (executions_of (sees_all role) d s)))"
proof -
  let ?xs = "recent V (executions_of (sees_all role) d s)"
  let ?ks = "rev (sorted_list_of_set (dv_day W ` x_created ` set ?xs))"
  have ts: "map td_day ts = ?ks" "map td_total ts = map (\<lambda>k. sum_case (\<lambda>x. True \<and> dv_day W (x_created x) = k) ?xs) ?ks"
    using assms by (auto simp: GetTrendData_def Let_def sum_case_def comp_def split: option.splits)
  have "(\<Sum>k\<leftarrow>?ks. sum_case (\<lambda>x. True \<and> dv_day W (x_created x) = k) ?xs) = sum_case (\<lambda>x. True) ?xs"
    by (rule sum_parts) simp_all
  then show ?thesis
    using ts by (simp add: sorted_wrt_rev sum_case_def)
qed

section \<open>What health means\<close>

lemma checkRQLite_healthy:
  "cc_status (checkRQLite W) = healthy \<longleftrightarrow> dv_select W = None \<and> (\<exists>ts. dv_tables W = Inr ts \<and> set requiredTables \<subseteq> set ts)"
  by (auto simp: checkRQLite_def Let_def healthy_def unhealthy_def filter_empty_conv split: option.splits sum.splits)

lemma checkScheduler_healthy:
  "cc_status (fst (checkScheduler V W (cs, s))) = healthy \<longleftrightarrow> (\<exists>c. cs = Some c \<and> \<not> fst (IsPaused V s c))"
  by (auto simp: checkScheduler_def Let_def healthy_def unhealthy_def split: option.splits prod.splits)

lemma checkLeader_healthy:
  "cc_status (checkLeader V n s) = healthy \<longleftrightarrow>
     (\<exists>m who addr. n = Some m \<and> GetLeaderInfo (env_redis V) (env_now V) m (s_redis s) = Inr (who, addr) \<and> who \<noteq> [])"
  by (auto simp: checkLeader_def healthy_def unhealthy_def split: option.splits sum.splits prod.splits)

text \<open>A node reports health exactly if the database answers and has the tables, Redis answers, the scheduler is there
  and not paused, and some node holds the lead.\<close>

theorem health_is_exact:
  "hr_status (fst (HealthCheck V W n (cs, s))) = healthy \<longleftrightarrow>
     dv_select W = None \<and> (\<exists>ts. dv_tables W = Inr ts \<and> set requiredTables \<subseteq> set ts) \<and> dv_ping W = None \<and>
     (\<exists>c. cs = Some c \<and> \<not> fst (IsPaused V s c)) \<and>
     (\<exists>m who addr. n = Some m \<and> GetLeaderInfo (env_redis V) (env_now V) m (s_redis s) = Inr (who, addr) \<and> who \<noteq> [])"
proof -
  have "cc_status (checkRedis W) = healthy \<longleftrightarrow> dv_ping W = None"
    by (auto simp: checkRedis_def healthy_def unhealthy_def split: option.splits)
  moreover have "hr_status (fst (HealthCheck V W n (cs, s))) = healthy \<longleftrightarrow>
    cc_status (checkRQLite W) = healthy \<and> cc_status (checkRedis W) = healthy \<and>
    cc_status (fst (checkScheduler V W (cs, s))) = healthy \<and> cc_status (checkLeader V n s) = healthy"
    by (auto simp: HealthCheck_def Let_def healthy_def unhealthy_def split: prod.splits)
  ultimately show ?thesis by (simp add: checkRQLite_healthy checkScheduler_healthy checkLeader_healthy)
qed

text \<open>A pause on one node makes another one unhealthy as soon as it reads the flag again, five seconds after the last time.\<close>

lemma paused_cluster_is_unhealthy:
  assumes "redis_paused V s = Some True" "env_now V - cr_synced c > 5 * second"
  shows "hr_status (fst (HealthCheck V W n (Some c, s))) \<noteq> healthy"
  using assms by (auto simp: HealthCheck_def checkScheduler_def IsPaused_def syncPausedFromRedis_def Let_def healthy_def unhealthy_def)

end
