(* ===== verification/Redis_Driver.thy ===== *)
theory Redis_Driver
  imports Sql_Rules
begin

text \<open>
  The driver of Redis data sources (scheduler/internal/datasource/driver/redis.go): the options of a connection, the reading of
  a command, its run on one of the connections of a pool, and the table that is made of the answer. The client
  library is modelled by what the driver uses of it: a pool of connections each of which has a selected database, of
  which any may serve a command, and the documented treatment of answers, a nil or an error answer being an
  error of the call. The server, JSON and the printing of other values are arguments.
\<close>

section \<open>Settings\<close>

datatype setting = Set_text string | Set_number int | Set_list "string list" | Set_other string

text \<open>A number is cut to an integer, items of a list and other values are given as they are printed.\<close>

type_synonym driver_settings = "string \<rightharpoonup> setting"

text \<open>\<open>strconv.Atoi\<close> with a sign.\<close>

definition signed_Atoi :: "string \<Rightarrow> int result" where
  "signed_Atoi s =
     (let neg = (s \<noteq> [] \<and> hd s = CHR ''-''); ds = (if s \<noteq> [] \<and> hd s \<in> {CHR ''-'', CHR ''+''} then tl s else s);
          n = (if neg then - int (read_nat ds) else int (read_nat ds))
      in if ds = [] \<or> \<not> list_all digit ds then Inl ''invalid syntax''
         else if - (2 ^ 63) \<le> n \<and> n < 2 ^ 63 then Inr n else Inl ''value out of range'')"

definition getConfigString :: "(int \<Rightarrow> string) \<Rightarrow> driver_settings \<Rightarrow> string \<Rightarrow> string" where
  "getConfigString show c key =
     (case c key of
        None \<Rightarrow> [] | Some (Set_text s) \<Rightarrow> s | Some (Set_number n) \<Rightarrow> show n
      | Some (Set_list xs) \<Rightarrow> ''['' @ concat (map (\<lambda>x. x @ '' '') (butlast xs)) @ (if xs = [] then [] else last xs) @ '']''
      | Some (Set_other t) \<Rightarrow> t)"

definition getConfigStringSlice :: "driver_settings \<Rightarrow> string \<Rightarrow> string list" where
  "getConfigStringSlice c key =
     (case c key of
        Some (Set_text s) \<Rightarrow> filter (\<lambda>p. p \<noteq> []) (map TrimSpace (Split (CHR '','') s))
      | Some (Set_list xs) \<Rightarrow> xs
      | _ \<Rightarrow> [])"

definition getConfigInt :: "driver_settings \<Rightarrow> string \<Rightarrow> int" where
  "getConfigInt c key =
     (case c key of
        Some (Set_number n) \<Rightarrow> n
      | Some (Set_text s) \<Rightarrow> (case signed_Atoi s of Inl e \<Rightarrow> 0 | Inr n \<Rightarrow> n)
      | _ \<Rightarrow> 0)"

definition durationFromSeconds :: "int \<Rightarrow> duration" where
  "durationFromSeconds n = wrap64 (n * second)"

definition parseRedisDB :: "string \<Rightarrow> int" where
  "parseRedisDB s = (if s = [] then 0 else (case signed_Atoi s of Inl e \<Rightarrow> 0 | Inr n \<Rightarrow> if n < 0 then 0 else n))"

section \<open>Connections\<close>

record redis_config =
  rc_host :: string
  rc_port :: int
  rc_database :: string
  rc_password :: string
  rc_mode :: string
  rc_settings :: driver_settings

datatype redis_options =
    Single_options string string int duration duration duration        \<comment> \<open>address, password, database, timeouts; 0 is the default\<close>
  | Failover_options string "string list" string string int
  | Cluster_options "string list" string

definition timeout_of :: "redis_config \<Rightarrow> string \<Rightarrow> duration" where
  "timeout_of c key = (let n = getConfigInt (rc_settings c) key in if n > 0 then durationFromSeconds n else 0)"

definition connectSingle :: "redis_config \<Rightarrow> redis_options result" where
  "connectSingle c =
     Inr (Single_options (rc_host c @ '':'' @ show_int (if rc_port c = 0 then 6379 else rc_port c)) (rc_password c)
       (parseRedisDB (rc_database c)) (timeout_of c ''dial_timeout'') (timeout_of c ''read_timeout'') (timeout_of c ''write_timeout''))"

definition connectSentinel :: "(int \<Rightarrow> string) \<Rightarrow> redis_config \<Rightarrow> redis_options result" where
  "connectSentinel show c =
     (let addrs = getConfigStringSlice (rc_settings c) ''sentinel_addrs''; name = getConfigString show (rc_settings c) ''master_name''
      in if addrs = [] then Inl ''sentinel mode requires sentinel_addrs in config''
         else if name = [] then Inl ''sentinel mode requires master_name in config''
         else Inr (Failover_options name addrs (rc_password c) (getConfigString show (rc_settings c) ''sentinel_password'')
                (parseRedisDB (rc_database c))))"

definition connectCluster :: "redis_config \<Rightarrow> redis_options result" where
  "connectCluster c =
     (let addrs = getConfigStringSlice (rc_settings c) ''cluster_addrs''
      in if addrs = [] then Inl ''cluster mode requires cluster_addrs in config'' else Inr (Cluster_options addrs (rc_password c)))"

text \<open>\<open>ping\<close> is the error of the first command to the server, if there is one.\<close>

definition redis_Connect :: "(int \<Rightarrow> string) \<Rightarrow> (redis_options \<Rightarrow> string option) \<Rightarrow> redis_config \<Rightarrow> redis_options result" where
  "redis_Connect show ping c =
     (case (if rc_mode c = ''cluster'' then connectCluster c else if rc_mode c = ''sentinel'' then connectSentinel show c
            else connectSingle c) of
        Inl e \<Rightarrow> Inl (''failed to connect redis: '' @ e)
      | Inr o1 \<Rightarrow> (case ping o1 of Some e \<Rightarrow> Inl (''failed to ping redis: '' @ e) | None \<Rightarrow> Inr o1))"

section \<open>Commands\<close>

definition cmd_blank :: "char \<Rightarrow> bool" where
  "cmd_blank c \<longleftrightarrow> code c \<in> set [32, 9, 10, 13]"

definition single_quote :: char where "single_quote = char_of (39 :: nat)"
definition double_quote :: char where "double_quote = char_of (34 :: nat)"
definition back_slash :: char where "back_slash = char_of (92 :: nat)"

fun cmd_words :: "bool \<Rightarrow> bool \<Rightarrow> bool \<Rightarrow> string \<Rightarrow> string \<Rightarrow> string list option" where
  "cmd_words sq dq esc cur [] = (if sq \<or> dq then None else Some (if cur = [] then [] else [cur]))"
| "cmd_words sq dq esc cur (c # s) =
     (if esc then cmd_words sq dq False (cur @ [c]) s
      else if c = back_slash \<and> (sq \<or> dq) then cmd_words sq dq True cur s
      else if c = single_quote \<and> \<not> dq then cmd_words (\<not> sq) dq False cur s
      else if c = double_quote \<and> \<not> sq then cmd_words sq (\<not> dq) False cur s
      else if cmd_blank c \<and> \<not> sq \<and> \<not> dq
           then (if cur = [] then cmd_words sq dq False [] s else map_option ((#) cur) (cmd_words sq dq False [] s))
      else cmd_words sq dq False (cur @ [c]) s)"

definition parseRedisCommand :: "string \<Rightarrow> string list result" where
  "parseRedisCommand s =
     (case cmd_words False False False [] s of None \<Rightarrow> Inl ''unterminated quoted string in command'' | Some ws \<Rightarrow> Inr ws)"

section \<open>Answers\<close>

datatype rval =
    R_nil | R_text string | R_int int | R_float string | R_bool bool | R_error string | R_array "rval list"
  | R_map "(rval \<times> rval) list"           \<comment> \<open>in the order in which Go iterates over it\<close>

text \<open>\<open>js\<close> is the JSON text of a list of texts, \<open>pr\<close> prints a map; a float is given by its decimal text.\<close>

record printer =
  pr_json :: "string list \<Rightarrow> string"
  pr_map :: "(rval \<times> rval) list \<Rightarrow> string"

fun formatRedisResult :: "printer \<Rightarrow> rval \<Rightarrow> string" where
  "formatRedisResult P R_nil = ''(nil)''"
| "formatRedisResult P (R_text s) = s"
| "formatRedisResult P (R_int n) = show_int n"
| "formatRedisResult P (R_float t) = t"
| "formatRedisResult P (R_bool b) = (if b then ''1'' else ''0'')"
| "formatRedisResult P (R_error e) = ''(error) '' @ e"
| "formatRedisResult P (R_array vs) = pr_json P (map (formatRedisResult P) vs)"
| "formatRedisResult P (R_map m) = pr_map P m"

record query_table =
  qt_columns :: "string list"
  qt_rows :: "string list list"
  qt_count :: int

definition table_of :: "string list \<Rightarrow> string list list \<Rightarrow> query_table" where
  "table_of cs rs = \<lparr>qt_columns = cs, qt_rows = rs, qt_count = int (length rs)\<rparr>"

definition redisArrayCmd :: "string list" where
  "redisArrayCmd =
     [''KEYS'', ''SCAN'', ''LRANGE'', ''SMEMBERS'', ''SSCAN'', ''ZRANGE'', ''ZREVRANGE'', ''ZRANGEBYSCORE'', ''ZREVRANGEBYSCORE'',
      ''ZRANGEBYLEX'', ''ZREVRANGEBYLEX'', ''ZSCAN'', ''ZRANDMEMBER'', ''HKEYS'', ''HVALS'', ''MGET'', ''HMGET'']"

definition redisHashCmd :: "string list" where "redisHashCmd = [''HGETALL'', ''HSCAN'']"

definition redisZsetWithScoresCmd :: "string list" where
  "redisZsetWithScoresCmd =
     [''ZRANGE'', ''ZREVRANGE'', ''ZRANGEBYSCORE'', ''ZREVRANGEBYSCORE'', ''ZRANGEBYLEX'', ''ZREVRANGEBYLEX'', ''ZSCAN'']"

definition redisRawTextCmd :: "string list" where
  "redisRawTextCmd =
     [''INFO'', ''COMMAND'', ''TIME'', ''CLIENT'', ''CONFIG'', ''CLUSTER'', ''SCRIPT'', ''MEMORY'', ''OBJECT'', ''LASTSAVE'', ''ROLE'',
      ''ECHO'', ''PING'']"

definition arrayColName :: "string \<Rightarrow> string" where
  "arrayColName cmd =
     (if cmd \<in> {''KEYS'', ''SCAN''} then ''key''
      else if cmd \<in> {''SMEMBERS'', ''SSCAN'', ''ZRANDMEMBER''} then ''member''
      else if cmd \<in> set redisZsetWithScoresCmd then ''member''
      else if cmd = ''HKEYS'' then ''field'' else ''value'')"

definition buildArrayResult :: "printer \<Rightarrow> string \<Rightarrow> rval \<Rightarrow> query_table" where
  "buildArrayResult P cmd v =
     (case v of
        R_array vs \<Rightarrow> table_of [arrayColName cmd] (map (\<lambda>x. [formatRedisResult P x]) vs)
      | R_nil \<Rightarrow> table_of [arrayColName cmd] []
      | _ \<Rightarrow> table_of [arrayColName cmd] [[formatRedisResult P v]])"

fun pairs :: "string list \<Rightarrow> string list list" where
  "pairs (a # b # xs) = [a, b] # pairs xs"
| "pairs _ = []"

definition buildHashResult :: "printer \<Rightarrow> rval \<Rightarrow> query_table" where
  "buildHashResult P v =
     (case v of
        R_map m \<Rightarrow> table_of [''field'', ''value''] (map (\<lambda>(k, x). [formatRedisResult P k, formatRedisResult P x]) m)
      | R_array vs \<Rightarrow> table_of [''field'', ''value''] (pairs (map (formatRedisResult P) vs))
      | R_nil \<Rightarrow> table_of [''field'', ''value''] []
      | _ \<Rightarrow> table_of [''result''] [[formatRedisResult P v]])"

definition buildZsetWithScoresResult :: "printer \<Rightarrow> rval \<Rightarrow> query_table" where
  "buildZsetWithScoresResult P v =
     (case v of
        R_array vs \<Rightarrow> table_of [''member'', ''score''] (pairs (map (formatRedisResult P) vs))
      | R_nil \<Rightarrow> table_of [''member'', ''score''] []
      | _ \<Rightarrow> table_of [''member'', ''score''] [[formatRedisResult P v, []]])"

definition buildRedisQueryResult :: "printer \<Rightarrow> string list \<Rightarrow> rval \<Rightarrow> query_table" where
  "buildRedisQueryResult P args v =
     (case args of
        [] \<Rightarrow> table_of [''result''] [[formatRedisResult P v]]
      | a # rest \<Rightarrow>
          (let cmd = ToUpper a; scores = list_ex (\<lambda>x. ToUpper x = ''WITHSCORES'') rest
           in if cmd \<in> set redisHashCmd then buildHashResult P v
              else if cmd \<in> set redisZsetWithScoresCmd \<and> scores then buildZsetWithScoresResult P v
              else if cmd \<in> set redisArrayCmd then buildArrayResult P cmd v
              else if cmd \<in> set redisRawTextCmd then table_of [''result''] [[formatRedisResult P v]]
              else table_of [''value''] [[formatRedisResult P v]]))"

section \<open>The pool and the driver\<close>

text \<open>\<open>rs_run\<close> is any command but \<open>SELECT\<close>, run in a database.\<close>

record 'k redis_server_model =
  rs_run :: "int \<Rightarrow> string list \<Rightarrow> 'k \<Rightarrow> rval \<times> 'k"
  rs_databases :: int

record 'k redis_client =
  cl_selected :: "nat \<Rightarrow> int"      \<comment> \<open>the database of each connection\<close>
  cl_store :: 'k
  cl_picks :: "nat list"           \<comment> \<open>the connections that the pool will hand out\<close>

definition next_pick :: "'k redis_client \<Rightarrow> nat" where
  "next_pick c = (case cl_picks c of [] \<Rightarrow> 0 | i # _ \<Rightarrow> i)"

definition answer_of :: "rval \<Rightarrow> rval result" where
  "answer_of v = (case v of R_nil \<Rightarrow> Inl ''redis: nil'' | R_error e \<Rightarrow> Inl e | _ \<Rightarrow> Inr v)"

definition is_select :: "string list \<Rightarrow> bool" where
  "is_select args \<longleftrightarrow> args \<noteq> [] \<and> ToUpper (hd args) = ''SELECT''"

definition client_Do :: "'k redis_server_model \<Rightarrow> string list \<Rightarrow> 'k redis_client \<Rightarrow> rval result \<times> 'k redis_client" where
  "client_Do S args c =
     (let i = next_pick c; c1 = c\<lparr>cl_picks := tl (cl_picks c)\<rparr>
      in if is_select args
         then (case tl args of
                 [n] \<Rightarrow> (case signed_Atoi n of
                          Inl e \<Rightarrow> (Inl ''ERR value is not an integer or out of range'', c1)
                        | Inr d \<Rightarrow> if 0 \<le> d \<and> d < rs_databases S
                                    then (Inr (R_text ''OK''), c1\<lparr>cl_selected := (cl_selected c)(i := d)\<rparr>)
                                    else (Inl ''ERR DB index is out of range'', c1))
               | _ \<Rightarrow> (Inl ''ERR wrong number of arguments for 'select' command'', c1))
         else (case rs_run S (cl_selected c i) args (cl_store c) of (v, k) \<Rightarrow> (answer_of v, c1\<lparr>cl_store := k\<rparr>)))"

definition failed_with :: "string \<Rightarrow> err_category \<Rightarrow> datasource_error" where
  "failed_with e cat = \<lparr>de_err = e, de_category = cat, de_type = ''redis'', de_retryable = False, de_after = 0\<rparr>"

text \<open>A driver without a client is \<open>None\<close>.\<close>

definition redis_Query ::
  "printer \<Rightarrow> 'k redis_server_model \<Rightarrow> string \<Rightarrow> 'k redis_client option \<Rightarrow>
   (datasource_error + query_table) \<times> 'k redis_client option" where
  "redis_Query P S q d =
     (case d of
        None \<Rightarrow> (Inl (failed_with ''redis connection not established'' ErrCategoryConnection), None)
      | Some c \<Rightarrow>
          (let t = TrimSpace q
           in if t = [] then (Inl (failed_with ''empty redis command'' ErrCategoryQuery), d)
              else (case parseRedisCommand t of
                      Inl e \<Rightarrow> (Inl (failed_with (''failed to parse redis command: '' @ e) ErrCategoryQuery), d)
                    | Inr args \<Rightarrow>
                        (if args = [] then (Inl (failed_with ''empty redis command'' ErrCategoryQuery), d)
                         else (case client_Do S args c of
                                 (Inl e, c1) \<Rightarrow> (Inl (ClassifyError e ''redis''), Some c1)
                               | (Inr v, c1) \<Rightarrow> (Inr (buildRedisQueryResult P args v), Some c1))))))"

definition UseDatabase ::
  "'k redis_server_model \<Rightarrow> redis_config \<Rightarrow> string \<Rightarrow> 'k redis_client option \<Rightarrow> string option \<times> 'k redis_client option" where
  "UseDatabase S cfg db d =
     (if db = [] then (None, d)
      else (case d of
              None \<Rightarrow> (Some ''redis connection not established'', None)
            | Some c \<Rightarrow>
                (if rc_mode cfg = ''cluster'' then (None, d)
                 else (case signed_Atoi db of
                         Inl e \<Rightarrow> (Some (''invalid redis database number: '' @ db), d)
                       | Inr n \<Rightarrow> (case client_Do S [''SELECT'', show_int n] c of
                                     (Inl e, c1) \<Rightarrow> (Some (''redis select database error: '' @ e), Some c1)
                                   | (Inr v, c1) \<Rightarrow> (None, Some c1))))))"

definition plain_error :: "string \<Rightarrow> datasource_error" where
  "plain_error e = \<lparr>de_err = e, de_category = ErrCategoryUnknown, de_type = [], de_retryable = False, de_after = 0\<rparr>"

definition redis_QueryWithDB ::
  "printer \<Rightarrow> 'k redis_server_model \<Rightarrow> redis_config \<Rightarrow> string \<Rightarrow> string \<Rightarrow> 'k redis_client option \<Rightarrow>
   (datasource_error + query_table) \<times> 'k redis_client option" where
  "redis_QueryWithDB P S cfg q db d =
     (if db = [] \<or> rc_mode cfg = ''cluster'' then redis_Query P S q d
      else (case UseDatabase S cfg db d of
              (Some e, d1) \<Rightarrow> (Inl (plain_error e), d1)
            | (None, d1) \<Rightarrow>
                (case redis_Query P S q d1 of (r, d2) \<Rightarrow>
                   (if rc_database cfg \<noteq> [] \<and> db \<noteq> rc_database cfg
                    then (r, snd (UseDatabase S cfg (show_int (parseRedisDB (rc_database cfg))) d2)) else (r, d2)))))"

definition redis_GetDatabases :: "redis_config \<Rightarrow> string list" where
  "redis_GetDatabases cfg = (if rc_mode cfg = ''cluster'' then [''0''] else map show_int [0..15])"

text \<open>The loop over the cursor of \<open>SCAN\<close>; \<open>scan\<close> is the answer at a cursor, and \<open>None\<close> means that the loop does not end.\<close>

partial_function (option) scan_keys :: "(nat \<Rightarrow> string + nat \<times> string list) \<Rightarrow> nat \<Rightarrow> string list \<Rightarrow> string list result option" where
  "scan_keys scan cursor keys =
     (case scan cursor of
        Inl e \<Rightarrow> Some (Inl e)
      | Inr (next, batch) \<Rightarrow> if next = 0 then Some (Inr (keys @ batch)) else scan_keys scan next (keys @ batch))"

definition redis_GetTables ::
  "'k redis_server_model \<Rightarrow> redis_config \<Rightarrow> (nat \<Rightarrow> string + nat \<times> string list) \<Rightarrow> string \<Rightarrow> 'k redis_client option \<Rightarrow>
   (datasource_error + string list) option \<times> 'k redis_client option" where
  "redis_GetTables S cfg scan db d =
     (case UseDatabase S cfg db d of
        (Some e, d1) \<Rightarrow> (Some (Inl (plain_error e)), d1)
      | (None, d1) \<Rightarrow> (map_option (map_sum (\<lambda>e. ClassifyError e ''redis'') id) (scan_keys scan 0 []), d1))"

section \<open>Reading commands\<close>

lemma quotes_differ [simp]:
  "single_quote \<noteq> double_quote" "double_quote \<noteq> single_quote" "back_slash \<noteq> double_quote" "double_quote \<noteq> back_slash" "back_slash \<noteq> single_quote"
  "\<not> cmd_blank single_quote" "\<not> cmd_blank double_quote" "\<not> cmd_blank back_slash"
  by (simp_all add: single_quote_def double_quote_def back_slash_def cmd_blank_def)

definition escape_char :: "char \<Rightarrow> string" where
  "escape_char c = (if c = double_quote \<or> c = back_slash then [back_slash, c] else [c])"

definition quote_arg :: "string \<Rightarrow> string" where
  "quote_arg a = double_quote # concat (map escape_char a) @ [double_quote]"

lemma quoted_words: "cmd_words False True False cur (concat (map escape_char a) @ double_quote # s) = cmd_words False False False (cur @ a) s"
  by (induction a arbitrary: cur) (simp_all add: escape_char_def)

lemma join_words: "join d [] = []" "join d [a] = a" "join d (a # b # ws) = a @ d # join d (b # ws)"
  by (simp_all add: join_def)

lemma blank_char [simp]: "cmd_blank CHR '' ''" "CHR '' '' \<noteq> back_slash" "CHR '' '' \<noteq> single_quote" "CHR '' '' \<noteq> double_quote"
  by code_simp+

lemma blank_no_quote: "cmd_blank c \<Longrightarrow> c \<noteq> single_quote \<and> c \<noteq> double_quote"
  using quotes_differ(6,7) by auto

lemma quoted_first: "cmd_words False False False [] (quote_arg a @ s) = cmd_words False False False a s"
  using quoted_words [of "[]" a s] by (simp add: quote_arg_def)

text \<open>Arguments in double quotes, with backslashes before quotes and backslashes, are read as they are, whatever they hold,
  except that empty arguments are lost: \<open>SET key ""\<close> is sent without its value.\<close>

theorem quoted_arguments_are_read_back:
  "parseRedisCommand (join CHR '' '' (map quote_arg args)) = Inr (filter (\<lambda>a. a \<noteq> []) args)"
proof -
  have "cmd_words False False False [] (join CHR '' '' (map quote_arg args)) = Some (filter (\<lambda>a. a \<noteq> []) args)"
  proof (induction args rule: induct_list012)
    case (2 a)
    then show ?case using quoted_first [of a "[]"] by (simp add: join_words)
  next
    case (3 a b args)
    then show ?case by (simp add: join_words quoted_first)
  qed (simp add: join_words)
  then show ?thesis by (simp add: parseRedisCommand_def)
qed

lemma plain_word:
  assumes "list_all (\<lambda>c. \<not> cmd_blank c \<and> c \<notin> {single_quote, double_quote, back_slash}) w"
  shows "cmd_words False False False cur (w @ s) = cmd_words False False False (cur @ w) s"
  using assms by (induction w arbitrary: cur) auto

lemma read_only_letters: "w \<in> set redisReadOnlyCommands \<Longrightarrow> w \<noteq> [] \<and> list_all (\<lambda>c. 65 \<le> code c \<and> code c \<le> 90) w"
proof -
  have "list_all (\<lambda>w. w \<noteq> [] \<and> list_all (\<lambda>c. 65 \<le> code c \<and> code c \<le> 90) w) redisReadOnlyCommands" by code_simp
  then show "w \<in> set redisReadOnlyCommands \<Longrightarrow> w \<noteq> [] \<and> list_all (\<lambda>c. 65 \<le> code c \<and> code c \<le> 90) w" by (simp add: list_all_iff)
qed

lemma no_letters: "c \<in> {single_quote, double_quote, back_slash} \<Longrightarrow> \<not> (65 \<le> code (up_char c) \<and> code (up_char c) \<le> 90)"
proof -
  have "list_all (\<lambda>c. \<not> (65 \<le> code (up_char c) \<and> code (up_char c) \<le> 90)) [single_quote, double_quote, back_slash]" by code_simp
  then show "c \<in> {single_quote, double_quote, back_slash} \<Longrightarrow> ?thesis" by auto
qed

text \<open>C26: The check for read-only commands and the driver agree on what the command is, whatever quotes the text has.\<close>

theorem checked_command_is_the_one_sent:
  assumes "isRedisReadOnlyCommand cmd" "parseRedisCommand (TrimSpace cmd) = Inr ws"
  shows "ws \<noteq> [] \<and> IsRedisReadOnlyCommand (ToUpper (hd ws))"
proof -
  define w where "w = takeWhile (\<lambda>c. \<not> cmd_blank c) (TrimSpace cmd)"
  define rest where "rest = dropWhile (\<lambda>c. \<not> cmd_blank c) (TrimSpace cmd)"
  have ro: "ToUpper w \<in> set redisReadOnlyCommands"
    using assms(1) by (simp add: isRedisReadOnlyCommand_def Let_def IsRedisReadOnlyCommand_def w_def cmd_blank_def)
  have "list_all (\<lambda>c. c \<notin> {single_quote, double_quote, back_slash}) w"
    using read_only_letters [OF ro] no_letters by (fastforce simp: list_all_iff ToUpper_def)
  then have "list_all (\<lambda>c. \<not> cmd_blank c \<and> c \<notin> {single_quote, double_quote, back_slash}) w"
    by (auto simp: list_all_iff w_def dest: set_takeWhileD)
  then have "cmd_words False False False [] (TrimSpace cmd) = cmd_words False False False w rest"
    using plain_word [of w "[]" rest] by (simp add: w_def rest_def)
  moreover have "w \<noteq> []" using read_only_letters [OF ro] by auto
  moreover have "rest = [] \<or> (\<exists>b t. rest = b # t \<and> cmd_blank b)"
    unfolding rest_def by (cases "dropWhile (\<lambda>c. \<not> cmd_blank c) (TrimSpace cmd)") (auto dest: dropWhile_eq_Cons_conv [THEN iffD1])
  ultimately have "\<exists>more. ws = w # more"
    using assms(2) blank_no_quote by (auto simp: parseRedisCommand_def split: option.splits)
  then show ?thesis using ro by (auto simp: IsRedisReadOnlyCommand_def)
qed

theorem checked_command_is_the_one_sent_witness:
  "\<exists>ws. parseRedisCommand (TrimSpace ''get k'') = Inr ws \<and> IsRedisReadOnlyCommand (ToUpper (hd ws))"
proof -
  have "isRedisReadOnlyCommand ''get k''" "parseRedisCommand (TrimSpace ''get k'') = Inr [''get'', ''k'']" by code_simp+
  then show ?thesis using checked_command_is_the_one_sent by blast
qed

section \<open>The selected database\<close>

lemma UseDatabase_selects:
  assumes "db \<noteq> []" "rc_mode cfg \<noteq> ''cluster''" "signed_Atoi db = Inr n" "signed_Atoi (show_int n) = Inr n" "0 \<le> n" "n < rs_databases S"
  shows "UseDatabase S cfg db (Some c) =
    (None, Some (c\<lparr>cl_picks := tl (cl_picks c), cl_selected := (cl_selected c)(next_pick c := n)\<rparr>))"
  using assms by (simp add: UseDatabase_def client_Do_def is_select_def Let_def up_char_def code_def)

text \<open>What a command does that does not change the database: it runs in the database of the connection it gets.\<close>

lemma query_answer:
  assumes "parseRedisCommand (TrimSpace q) = Inr args" "args \<noteq> []" "\<not> is_select args"
    and "rs_run S (cl_selected c (next_pick c)) args (cl_store c) = (v, k)"
  shows "redis_Query P S q (Some c) =
    ((case answer_of v of Inl e \<Rightarrow> Inl (ClassifyError e ''redis'') | Inr a \<Rightarrow> Inr (buildRedisQueryResult P args a)),
     Some (c\<lparr>cl_picks := tl (cl_picks c), cl_store := k\<rparr>))"
proof -
  have "TrimSpace q \<noteq> []" using assms(1,2) by (auto simp: parseRedisCommand_def)
  then show ?thesis using assms by (simp add: redis_Query_def client_Do_def Let_def split: sum.splits)
qed

text \<open>C27: Selecting a database and the query are two commands, each on a connection of its own choice. So the query
  runs in the database that was asked for if both get the same connection, and otherwise in the one another
  connection was left in; and if the data source names no database itself, the connection stays in the database of this
  query for all that come after it.\<close>

theorem selected_database_stays_behind:
  assumes "db \<noteq> []" "rc_mode cfg \<noteq> ''cluster''" "signed_Atoi db = Inr n" "signed_Atoi (show_int n) = Inr n" "0 \<le> n"
    "n < rs_databases S" "rc_database cfg = []" "cl_picks c = i # j # rest"
    and "parseRedisCommand (TrimSpace q) = Inr args" "args \<noteq> []" "\<not> is_select args"
    and "rs_run S (if j = i then n else cl_selected c j) args (cl_store c) = (v, k)" "answer_of v = Inr a"
  shows "redis_QueryWithDB P S cfg q db (Some c) = (Inr (buildRedisQueryResult P args a),
    Some (c\<lparr>cl_picks := rest, cl_selected := (cl_selected c)(i := n), cl_store := k\<rparr>))"
proof -
  let ?c = "c\<lparr>cl_picks := j # rest, cl_selected := (cl_selected c)(i := n)\<rparr>"
  have pick: "next_pick c = i" "next_pick ?c = j" "tl (cl_picks c) = j # rest" using assms(8) by (simp_all add: next_pick_def)
  have use: "UseDatabase S cfg db (Some c) = (None, Some ?c)" using UseDatabase_selects [OF assms(1-6), of c] pick by simp
  have run: "rs_run S (cl_selected ?c (next_pick ?c)) args (cl_store ?c) = (v, k)" using assms(12) pick(2) by simp
  have "redis_Query P S q (Some ?c) = (Inr (buildRedisQueryResult P args a), Some (?c\<lparr>cl_picks := rest, cl_store := k\<rparr>))"
    using query_answer [OF assms(9-11) run, of P] assms(13) by simp
  then show ?thesis using assms(1,2,7) use by (simp add: redis_QueryWithDB_def)
qed

text \<open>A server whose databases hold one text each, a pool that hands out connection 0, then 1: the query for database
  3 runs in database 0.\<close>

definition demo_server :: "(int \<Rightarrow> string) redis_server_model" where
  "demo_server = \<lparr>rs_run = (\<lambda>d args k. (R_text (k d), k)), rs_databases = 16\<rparr>"

definition demo_pool :: "(int \<Rightarrow> string) redis_client" where
  "demo_pool = \<lparr>cl_selected = (\<lambda>i. 0), cl_store = (\<lambda>d. if d = 0 then ''zero'' else ''other''), cl_picks = [0, 1]\<rparr>"

definition demo_redis :: redis_config where
  "demo_redis = \<lparr>rc_host = ''h'', rc_port = 0, rc_database = [], rc_password = [], rc_mode = ''single'', rc_settings = Map.empty\<rparr>"

definition demo_printer :: printer where "demo_printer = \<lparr>pr_json = concat, pr_map = (\<lambda>m. [])\<rparr>"

theorem selected_database_stays_behind_witness:
  "\<exists>c. redis_QueryWithDB demo_printer demo_server demo_redis ''GET k'' ''3'' (Some demo_pool) =
     (Inr (table_of [''value''] [[''zero'']]), Some c) \<and> cl_selected c 0 = 3"
proof -
  have reads: "signed_Atoi ''3'' = Inr 3" "signed_Atoi (show_int 3) = Inr 3"
    "parseRedisCommand (TrimSpace ''GET k'') = Inr [''GET'', ''k'']" "\<not> is_select [''GET'', ''k'']"
    "buildRedisQueryResult demo_printer [''GET'', ''k''] (R_text ''zero'') = table_of [''value''] [[''zero'']]"
    by code_simp+
  show ?thesis
    using selected_database_stays_behind [of "''3''" demo_redis 3 demo_server demo_pool 0 1 "[]" "''GET k''" "[''GET'', ''k'']"
        "R_text ''zero''" "cl_store demo_pool" "R_text ''zero''" demo_printer] reads
    by (simp add: demo_redis_def demo_server_def demo_pool_def answer_of_def)
qed

section \<open>Answers as tables\<close>

text \<open>A key that is not there is a failed query.\<close>

lemma missing_key_is_a_failure:
  assumes "parseRedisCommand (TrimSpace q) = Inr args" "args \<noteq> []" "\<not> is_select args"
    and "rs_run S (cl_selected c (next_pick c)) args (cl_store c) = (R_nil, k)"
  shows "fst (redis_Query P S q (Some c)) = Inl (ClassifyError ''redis: nil'' ''redis'')"
  using query_answer [OF assms] by (simp add: answer_of_def)

text \<open>Members and scores that come one after the other are shown in pairs; if they come as pairs already, as in the third
  version of the protocol, two of them make one line, and the last of an odd number is lost.\<close>

lemma flat_scores_are_paired:
  "buildZsetWithScoresResult P (R_array (concat (map (\<lambda>(m, s). [R_text m, R_text s]) xs))) =
     table_of [''member'', ''score''] (map (\<lambda>(m, s). [m, s]) xs)"
proof -
  have "pairs (map (formatRedisResult P) (concat (map (\<lambda>(m, s). [R_text m, R_text s]) xs))) = map (\<lambda>(m, s). [m, s]) xs"
    by (induction xs) auto
  then show ?thesis by (simp add: buildZsetWithScoresResult_def)
qed

lemma pairs_length: "length (pairs xs) = length xs div 2"
  by (induction xs rule: pairs.induct) auto

lemma nested_scores_are_halved:
  "qt_count (buildZsetWithScoresResult P (R_array (map (\<lambda>(m, s). R_array [R_text m, R_float s]) xs))) = int (length xs div 2)"
  by (simp add: buildZsetWithScoresResult_def table_of_def pairs_length)

text \<open>The answer to a scan is its cursor and a list, which is shown as one line.\<close>

lemma scan_is_one_line:
  "buildHashResult P (R_array [R_text cursor, R_array vs]) =
     table_of [''field'', ''value''] [[cursor, pr_json P (map (formatRedisResult P) vs)]]"
  by (simp add: buildHashResult_def numeral_2_eq_2)

text \<open>The list of keys is complete if the cursors come back to 0.\<close>

inductive scans_to :: "(nat \<Rightarrow> string + nat \<times> string list) \<Rightarrow> nat \<Rightarrow> string list \<Rightarrow> bool" for scan where
  last_batch: "scan c = Inr (0, b) \<Longrightarrow> scans_to scan c b"
| more_batches: "scan c = Inr (n, b) \<Longrightarrow> n \<noteq> 0 \<Longrightarrow> scans_to scan n rest \<Longrightarrow> scans_to scan c (b @ rest)"

lemma scan_returns_all_keys: "scans_to scan c ks \<Longrightarrow> scan_keys scan c acc = Some (Inr (acc @ ks))"
proof (induction arbitrary: acc rule: scans_to.induct)
  case (last_batch c b)
  then show ?case by (subst scan_keys.simps) simp
next
  case (more_batches c n b rest)
  then show ?case by (subst scan_keys.simps) simp
qed

text \<open>A time limit in the settings is multiplied without a check: more than 292 years are a negative limit.\<close>

lemma long_timeout_is_negative: "durationFromSeconds 9223372037 < 0"
  by (simp add: durationFromSeconds_def wrap64_def)

end
