(* ===== verification/Spec2Isabelle.thy ===== *)
theory Spec2Isabelle
  imports Circuit_Breaker Rbac Permission_Groups Instance_Permission Worker_Pool Election Executors Recovery
    Concurrency_Limit Cron Lineage Sql_Rules Query_Cache Access_Properties Audit_Log System_Config Query_Requests
    Task_Executor Task_Request_Properties Log_Stream Admin_Properties
    Webhook_Properties Http_Test_Properties Grpc_Test_Properties Interface_Properties
    Grafana Dashboards Redis_Driver
begin

text \<open>
  Verification development for BDopsFlow, a task scheduler and query platform in Go (src/scheduler,
  src/executor).

  The program. Schedulers elect a leader over Redis. The leader keeps the cron jobs, dispatches
  executions of tasks to executors by gRPC, takes their heartbeats, results and log lines, retries failed
  executions and cleans up dead ones. An executor runs its tasks in a goroutine pool. Every scheduler
  serves the HTTP interface: users log in, manage tasks, users, roles and data sources, and run queries on
  data sources, within limits on concurrency, through a cache and a circuit breaker, with a registry of the
  queries under way. Tables live in rqlite, everything volatile in Redis.

  The theories and what they model (paths below src/scheduler/internal unless they start elsewhere).

  \<^item> \<open>Prelude\<close>: 64-bit wrap-around, results (\<open>string + 'a\<close>, \<open>Inl\<close> the error), rows of tables as lists, runs of a
    machine and the locales \<open>invariant_machine\<close> and \<open>transition_invariant\<close>, which lift an invariant to runs.
    \<open>Go_Strings\<close>: the string, number and regular expression functions of Go that are used.
    \<open>Redis_Server\<close>: Redis as a record of operations with the documented laws as a locale, and a server in
    memory that has them.
  \<^item> \<open>Election\<close> (src/scheduler/pkg/election, src/scheduler/pkg/lock): a cluster of nodes as a step relation whose steps
    are the single Redis commands; at most one leader within its lease unless a key expires between a \<open>GET\<close> and what
    rests on it, and two leaders then. \<open>Cron\<close> (cron/cron_scheduler.go): jobs against registrations, pauses and
    leadership; the lock of a cron task.
  \<^item> \<open>Scheduler_State\<close>, \<open>Executors\<close>, \<open>Tasks\<close>, \<open>Executions\<close>, \<open>Cleanup\<close> (service/: scheduler_core.go, scanners.go,
    executor_service.go, executor_domain.go, task_service.go, execution_service.go, cleanup_service.go):
    one state of tables, Redis and pending goroutines, and every operation on it.
    \<open>Task_Properties\<close>, \<open>Task_Steps\<close>, \<open>Task_Runs\<close>, \<open>Cleanup_Properties\<close>, \<open>Recovery\<close> hold the lemmas about dispatch,
    retries, late results, clean-up and the recovery of a new leader.
    \<open>Worker_Pool\<close> (src/executor/internal/pool): channels in a heap, workers as program counters.
    \<open>Grpc_Server\<close> (grpcserver/server.go) puts the calls of executors on top of the service.
    \<open>Executor_Tasks\<close>, \<open>Task_Executor\<close>, \<open>Utf8\<close> (src/executor/internal/executor) and \<open>Executor_Client\<close>
    (src/executor/internal/grpcclient) are the executor itself: its tasks, their runners and the texts they send, and its
    client, which talks to an abstract network or to a \<open>Grpc_Server\<close> node (\<open>direct\<close>).
    \<open>Task_Requests\<close> (handler/task.go, handler/task_execution.go) holds the requests on tasks, \<open>Log_Stream\<close> the stream of a log
    and handler/log.go; \<open>Task_Request_Properties\<close> has what the requests keep: limits, settings, domains.
    \<open>Lineage\<close> (lineage/lineage.go): the two walks over the dependencies of tasks.
  \<^item> \<open>Rbac\<close>, \<open>Permission_Groups\<close>, \<open>Instance_Permission\<close> (service/permission_service.go, role_admin.go,
    instance_permission.go, model/permission.go, datasource/permission.go): roles and their inheritance, checks,
    grants on instances. \<open>Users\<close> (service/auth_service.go, user_admin.go, api_token.go) adds accounts and tokens,
    \<open>Access\<close> (middleware/auth.go, handler/auth.go, handler/response.go) sessions and the middlewares,
    \<open>User_Requests\<close> (handler/user_admin.go, handler/api_token.go) the requests; \<open>Access_Properties\<close> composes them.
    \<open>Admin_Requests\<close>, \<open>Admin_Properties\<close> (handler/executor.go, executor_domain.go, domain_admin.go, role_admin.go,
    permission_handler.go, service/domain_admin.go) hold the administration of executors, domains and roles.
    \<open>Webhooks\<close> (service/webhook.go, webhook/webhook.go, handler/webhook.go) are notified of results, \<open>WeCom\<close> (wecom/wecom.go,
    handler/wecom_handler.go) makes messages of notifications; \<open>Webhook_Properties\<close> puts both behind the scheduler.
    \<open>Http_Tests\<close>, \<open>Grpc_Tests\<close> (service/http_executor.go, grpc_executor.go) send the requests of interface tests,
    \<open>Proto_Parser\<close> and \<open>Test_Files\<close> (service/proto_service.go, certificate_service.go) keep their files, with the keys sealed
    by \<open>Rsa_Util\<close> (src/scheduler/pkg/rsautil), and \<open>Interface_Requests\<close> (service/api_test_service.go, handler/certificate.go,
    proto_file.go, api_test_handler.go, common.go) has the requests on all of them; \<open>Http_Test_Properties\<close>,
    \<open>Grpc_Test_Properties\<close> and \<open>Interface_Properties\<close> hold what is proved of them.
    \<open>Grafana\<close> (service/grafana_dashboard.go and its handler) and \<open>Dashboards\<close> (service/dashboard_service.go,
    handler/dashboard.go) are what the start page shows: embedded dashboards, figures and the health of the components.
    \<open>Audit_Log\<close> (middleware/audit.go, service/audit_log.go) records requests.
    \<open>System_Config\<close> (system_config/service.go) holds the settings that the other parts read.
  \<^item> \<open>Datasources\<close>, \<open>Datasource_Handlers\<close> (datasource/service.go, handler/datasource.go): data sources, grants,
    history and saved statements. \<open>Circuit_Breaker\<close>, \<open>Concurrency_Limit\<close>, \<open>Query_Cache\<close> (datasource/), \<open>Query_Registry\<close>
    (handler/query_registry.go, query_registry_distributed.go) and \<open>Sql_Rules\<close> (datasource/driver/base.go,
    errors.go, the checks of handler/query.go): what a query passes through. \<open>Hive_Pool\<close>
    (datasource/driver/hive_pool.go) and \<open>Connections\<close> (datasource/manager.go, crypto.go): the connections
    themselves, under all interleavings of their users, and the keys of their passwords.
    \<open>Redis_Driver\<close> (datasource/driver/redis.go) reads commands and runs them on a pool of connections.
    \<open>Query_Execution\<close> and \<open>Query_Requests\<close> (handler/query.go) compose all of them: a request is checked, answered
    from the cache or registered, its goroutine runs it on a connection and records the outcome.

  How state and operations correspond. A struct is a record and a method a function that returns the new
  state; a raise or an early return is a branch with \<open>Inl\<close>. A handler is modelled after the binding of its
  request: a parameter that was left out or did not parse is \<open>None\<close>. Error texts are given in English. What
  happens under one mutex is one step, unless commands are sent to Redis under it or the mutex does not cover all that
  the steps of others can see (\<open>Election\<close>, \<open>Task_Executor\<close>). A goroutine that outlives its caller is an entry of the state
  until an operation of its own runs it, and interleavings are step relations (\<open>Election\<close>, \<open>Worker_Pool\<close>,
  \<open>Concurrency_Limit\<close>, \<open>Hive_Pool\<close>, \<open>Connections\<close>, \<open>Task_Steps\<close>, \<open>Executor_Client\<close>, \<open>Task_Executor\<close>). The order in which Go iterates over a map, and the pages of a SCAN, are
  arguments. Fields called ghosts in the theories record history and are read by no operation.

  What is a parameter. The verdict of the database is a function of the statement (\<open>v_db\<close>, \<open>ue_db\<close> and the
  like): any statement may fail, one that succeeds has its effect on the rows; foreign keys do nothing
  (SQLite leaves them off on a connection that is not told otherwise, and the script of the schema is another connection), and \<open>Slice\<close> of a row that was read succeeds. A call happens at one instant. Texts
  of instants in tables are the instants themselves, except where their order as texts matters
  (\<open>Datasources\<close>); times to live in Redis are not rounded to milliseconds. Redis, the cron library, JSON,
  MD5, AES-GCM, bcrypt, RSA and JWT are arguments with their documented laws as named hypotheses
  (\<open>redis_server\<close>, \<open>cron_library\<close>, \<open>crypto_laws\<close>, \<open>rsa_laws\<close>, \<open>aead_laws\<close>, \<open>vault_laws\<close>, \<open>jwt_laws\<close>), each met by a concrete function in a
  witness. \<open>LIKE\<close> is an argument. A day of \<open>AddDate\<close> is 24 hours.

  Bounds and fuel. Durations and counters are integers with the wrap-around written out where the code can
  reach it (\<open>wrap64\<close> in the dispatch lifetimes and the pages of a list). The walks of \<open>Lineage\<close> take fuel, and
  \<open>lineage_returns\<close> shows that one more than twice the number of dependencies is enough. The clean-up loop of
  \<open>Audit_Log\<close> is a \<open>partial_function\<close> and is shown to return; \<open>buildFields\<close> of \<open>Grpc_Tests\<close> is another,
  and the files for which it returns are characterised. The client of \<open>Http_Tests\<close> sends at most ten requests, as that of
  net/http does. \<open>Go_Strings\<close> is about ASCII texts.

  What the lemmas show. Invariants of runs: the breaker's counter, the pool's accounting, leaders and
  leases, limits on concurrent queries, retries, cron jobs, settings, references to domains. Equivalence and refinement: the
  permission checks against the role tables (which they read without inheritance), the two inclusion tables against each
  other, the distributed registry against the local one, the cache against a map. Functional
  behaviour on every branch: selection and registration of executors, dispatch, triggers, clean-up,
  recovery, deletion, and that users keep to their own interface tests. Round trips: tokens, the keys of certificates, the
  quoting of a curl command. Most of them hold under conditions (a database and a Redis that answer, fresh ids, rows in
  order), which the text above each theorem names. Where the code does not do what it means to, the
  theorem states what it does, with the case in which it goes right beside it.

  Not modelled: the gRPC transport, the processes and HTTP exchanges of the executor's tasks, HTTP routing and binding, logging and
  metrics, the other drivers of data sources (clients of third-party databases),
  the reading of configuration files, and the start-up of the processes.
\<close>

end
